(* ===== verification/Red_Prelude.thy ===== *)
theory Red_Prelude
  imports Main "HOL-Library.Word"
begin

text \<open>
  Shared foundations: the machine word types of the C code, the computation type of
  the driver's operations with its combinators and proof rules, little-endian access to
  byte lists, and the lemma collections the component theories extend.
\<close>

unbundle bit_operations_syntax

section \<open>Machine words\<close>

type_synonym u8 = "8 word"
type_synonym u16 = "16 word"
type_synonym u32 = "32 word"
type_synonym u64 = "64 word"
type_synonym bytes = "u8 list"

named_theorems red_defs \<open>definitions that unfold for evaluation\<close>
named_theorems keeps_rules \<open>an operation keeps a predicate on the state\<close>
named_theorems frame_simps \<open>selectors that an operation leaves alone\<close>

section \<open>Computations\<close>

text \<open>
  An operation of the driver maps a state to its outcome: \<open>None\<close> when a loop of the code
  does not end, otherwise the returned status together with the state at return. A
  status is \<open>Inl e\<close> for the return value \<open>-e\<close> and \<open>Inr x\<close> for the return value zero,
  where \<open>x\<close> is what the code stores through its output pointers. An error does not undo
  the state changes made before it.
\<close>

type_synonym ('s, 'e, 'a) comp = "'s \<Rightarrow> (('e + 'a) \<times> 's) option"

definition okE :: "'a \<Rightarrow> ('s, 'e, 'a) comp" where
  "okE x = (\<lambda>s. Some (Inr x, s))"

definition errE :: "'e \<Rightarrow> ('s, 'e, 'a) comp" where
  "errE e = (\<lambda>s. Some (Inl e, s))"

definition bindE :: "('s, 'e, 'a) comp \<Rightarrow> ('a \<Rightarrow> ('s, 'e, 'b) comp) \<Rightarrow> ('s, 'e, 'b) comp" where
  "bindE f g = (\<lambda>s. case f s of
       None \<Rightarrow> None
     | Some (Inl e, t) \<Rightarrow> Some (Inl e, t)
     | Some (Inr x, t) \<Rightarrow> g x t)"

definition thenE :: "('s, 'e, 'a) comp \<Rightarrow> ('s, 'e, 'b) comp \<Rightarrow> ('s, 'e, 'b) comp" where
  "thenE f g = bindE f (\<lambda>_. g)"

definition getE :: "('s \<Rightarrow> 'a) \<Rightarrow> ('s, 'e, 'a) comp" where
  "getE f = (\<lambda>s. Some (Inr (f s), s))"

definition modE :: "('s \<Rightarrow> 's) \<Rightarrow> ('s, 'e, unit) comp" where
  "modE f = (\<lambda>s. Some (Inr (), f s))"

text \<open>
  \<open>statusE f g\<close> runs \<open>f\<close> and hands its status to \<open>g\<close>, as code does that looks at
  \<open>ret\<close> before it goes on.
\<close>

definition statusE :: "('s, 'e, 'a) comp \<Rightarrow> ('e + 'a \<Rightarrow> ('s, 'e, 'b) comp) \<Rightarrow> ('s, 'e, 'b) comp" where
  "statusE f g = (\<lambda>s. case f s of None \<Rightarrow> None | Some (r, t) \<Rightarrow> g r t)"

definition returnE :: "'e + 'a \<Rightarrow> ('s, 'e, 'a) comp" where
  "returnE r = (\<lambda>s. Some (r, s))"

text \<open>\<open>finallyE f h\<close> runs \<open>h\<close> after \<open>f\<close> whatever the status, and returns the status of \<open>f\<close>.\<close>

definition finallyE :: "('s, 'e, 'a) comp \<Rightarrow> ('s, 'e, 'b) comp \<Rightarrow> ('s, 'e, 'a) comp" where
  "finallyE f h = statusE f (\<lambda>r. statusE h (\<lambda>_. returnE r))"

definition whenE :: "bool \<Rightarrow> ('s, 'e, unit) comp \<Rightarrow> ('s, 'e, unit) comp" where
  "whenE b f = (if b then f else okE ())"

lemmas comp_defs [red_defs] =
  okE_def errE_def bindE_def thenE_def getE_def modE_def statusE_def returnE_def
  finallyE_def whenE_def

lemma bindE_ok [simp]: "bindE (okE x) g = g x"
  by (simp add: comp_defs)

lemma bindE_err [simp]: "bindE (errE e) g = errE e"
  by (simp add: comp_defs)

lemma bindE_assoc: "bindE (bindE f g) h = bindE f (\<lambda>x. bindE (g x) h)"
  by (rule ext) (simp add: bindE_def split: option.split prod.split sum.split)

lemma thenE_ok [simp]: "thenE (okE x) g = g"
  by (simp add: thenE_def)

lemma whenE_True [simp]: "whenE True f = f"
  and whenE_False [simp]: "whenE False f = okE ()"
  by (simp_all add: whenE_def)

text \<open>Stepping through a computation whose parts are known.\<close>

lemma okE_app [simp]: "okE x s = Some (Inr x, s)"
  and errE_app [simp]: "errE e s = Some (Inl e, s)"
  and getE_app [simp]: "getE f s = Some (Inr (f s), s)"
  and modE_app [simp]: "modE g s = Some (Inr (), g s)"
  and returnE_app [simp]: "returnE r s = Some (r, s)"
  by (simp_all add: comp_defs)

lemma bindE_Inr: "f s = Some (Inr x, t) \<Longrightarrow> bindE f g s = g x t"
  and bindE_Inl: "f s = Some (Inl e, t) \<Longrightarrow> bindE f g s = Some (Inl e, t)"
  and bindE_None: "f s = None \<Longrightarrow> bindE f g s = None"
  and thenE_Inr: "f s = Some (Inr x, t) \<Longrightarrow> thenE f h s = h t"
  and thenE_Inl: "f s = Some (Inl e, t) \<Longrightarrow> thenE f h s = Some (Inl e, t)"
  and statusE_Some: "f s = Some (r, t) \<Longrightarrow> statusE f k s = k r t"
  by (simp_all add: comp_defs)

lemma bindE_getE [simp]: "bindE (getE f) g s = g (f s) s"
  and bindE_modE [simp]: "bindE (modE u) k s = k () (u s)"
  and thenE_modE [simp]: "thenE (modE u) h s = h (u s)"
  and statusE_getE [simp]: "statusE (getE f) l s = l (Inr (f s)) s"
  and statusE_modE [simp]: "statusE (modE u) m s = m (Inr ()) (u s)"
  by (simp_all add: comp_defs)

lemma bindE_eq_SomeE:
  assumes "bindE f g s = Some (r, t)"
  obtains (err) e where "f s = Some (Inl e, t)" "r = Inl e"
  | (ok) x u where "f s = Some (Inr x, u)" "g x u = Some (r, t)"
  using assms by (auto simp: bindE_def split: option.splits prod.splits sum.splits)

lemma thenE_eq_SomeE:
  assumes "thenE f g s = Some (r, t)"
  obtains (err) e where "f s = Some (Inl e, t)" "r = Inl e"
  | (ok) x u where "f s = Some (Inr x, u)" "g u = Some (r, t)"
  using assms by (auto simp: thenE_def elim: bindE_eq_SomeE)

lemma bindE_Inr_Some:
  "bindE f g s = Some (Inr y, t) \<longleftrightarrow> (\<exists>x u. f s = Some (Inr x, u) \<and> g x u = Some (Inr y, t))"
  by (auto simp: bindE_def split: option.splits prod.splits sum.splits)

lemma thenE_Inr_Some:
  "thenE f g s = Some (Inr y, t) \<longleftrightarrow> (\<exists>x u. f s = Some (Inr x, u) \<and> g u = Some (Inr y, t))"
  by (simp add: thenE_def bindE_Inr_Some)

lemma statusE_Some_iff:
  "statusE f g s = Some (r, t) \<longleftrightarrow> (\<exists>q u. f s = Some (q, u) \<and> g q u = Some (r, t))"
  by (auto simp: statusE_def split: option.splits)

text \<open>Loops over computations may be defined by \<^theory_text>\<open>partial_function (option)\<close>.\<close>

lemma bindE_mono [partial_function_mono]:
  assumes "mono_option (\<lambda>f. m f s)" and "\<And>x t. mono_option (\<lambda>f. g x f t)"
  shows "mono_option (\<lambda>f. bindE (m f) (\<lambda>x. g x f) s)"
proof -
  have "mono_option (\<lambda>f. Option.bind (m f s)
      (\<lambda>p. case p of (Inl e, t) \<Rightarrow> Some (Inl e, t) | (Inr x, t) \<Rightarrow> g x f t))"
  proof (rule bind_mono [OF assms(1)])
    fix p
    show "mono_option (\<lambda>f. case p of (Inl e, t) \<Rightarrow> Some (Inl e, t) | (Inr x, t) \<Rightarrow> g x f t)"
    proof (cases p)
      case (Pair q t)
      then show ?thesis by (cases q) (auto intro: assms(2) option.const_mono)
    qed
  qed
  moreover have "Option.bind (m f s)
      (\<lambda>p. case p of (Inl e, t) \<Rightarrow> Some (Inl e, t) | (Inr x, t) \<Rightarrow> g x f t)
    = bindE (m f) (\<lambda>x. g x f) s" for f
    by (auto simp: bindE_def split: option.split)
  ultimately show ?thesis by simp
qed

section \<open>Keeping a predicate\<close>

text \<open>
  \<open>keeps I f\<close>: whenever \<open>f\<close> returns from a state with \<open>I\<close>, with success or with an error,
  the state at return has \<open>I\<close>. \<open>keeps_ok I f J\<close> distinguishes the successful return.
\<close>

definition keeps :: "('s \<Rightarrow> bool) \<Rightarrow> ('s, 'e, 'a) comp \<Rightarrow> bool" where
  "keeps I f \<longleftrightarrow> (\<forall>s r t. I s \<longrightarrow> f s = Some (r, t) \<longrightarrow> I t)"

lemma keepsI: "(\<And>s r t. I s \<Longrightarrow> f s = Some (r, t) \<Longrightarrow> I t) \<Longrightarrow> keeps I f"
  by (auto simp: keeps_def)

lemma keepsD: "keeps I f \<Longrightarrow> f s = Some (r, t) \<Longrightarrow> I s \<Longrightarrow> I t"
  by (auto simp: keeps_def)

lemma keeps_okE [keeps_rules, intro!]: "keeps I (okE x)"
  and keeps_errE [keeps_rules, intro!]: "keeps I (errE e)"
  and keeps_getE [keeps_rules, intro!]: "keeps I (getE f)"
  and keeps_returnE [keeps_rules, intro!]: "keeps I (returnE r)"
  by (auto simp: keeps_def comp_defs)

lemma keeps_modE [keeps_rules]: "(\<And>s. I s \<Longrightarrow> I (f s)) \<Longrightarrow> keeps I (modE f)"
  by (auto simp: keeps_def comp_defs)

lemma keeps_bindE [keeps_rules]:
  "keeps I f \<Longrightarrow> (\<And>x. keeps I (g x)) \<Longrightarrow> keeps I (bindE f g)"
  unfolding keeps_def by (blast elim: bindE_eq_SomeE)

lemma keeps_thenE [keeps_rules]: "keeps I f \<Longrightarrow> keeps I g \<Longrightarrow> keeps I (thenE f g)"
  unfolding thenE_def by (rule keeps_bindE)

lemma keeps_statusE [keeps_rules]:
  "keeps I f \<Longrightarrow> (\<And>r. keeps I (g r)) \<Longrightarrow> keeps I (statusE f g)"
  unfolding keeps_def statusE_Some_iff by blast

lemma keeps_finallyE [keeps_rules]: "keeps I f \<Longrightarrow> keeps I h \<Longrightarrow> keeps I (finallyE f h)"
  unfolding finallyE_def by (intro keeps_statusE keeps_returnE)

lemma keeps_whenE [keeps_rules]: "(b \<Longrightarrow> keeps I f) \<Longrightarrow> keeps I (whenE b f)"
  by (auto simp: whenE_def)

lemma keeps_if [keeps_rules]:
  "(b \<Longrightarrow> keeps I f) \<Longrightarrow> (\<not> b \<Longrightarrow> keeps I g) \<Longrightarrow> keeps I (if b then f else g)"
  by simp

section \<open>Little-endian fields of a byte list\<close>

fun le_bytes :: "nat \<Rightarrow> nat \<Rightarrow> bytes" where
  "le_bytes 0 v = []"
| "le_bytes (Suc n) v = word_of_nat v # le_bytes n (v div 256)"

fun le_value :: "bytes \<Rightarrow> nat" where
  "le_value [] = 0"
| "le_value (b # bs) = unat b + 256 * le_value bs"

lemma length_le_bytes [simp]: "length (le_bytes n v) = n"
  by (induction n v rule: le_bytes.induct) auto

lemma le_value_le_bytes: "le_value (le_bytes n v) = v mod 256 ^ n"
proof (induction n v rule: le_bytes.induct)
  case (1 v)
  show ?case by simp
next
  case (2 n v)
  have "unat (word_of_nat v :: u8) = v mod 256"
    by (simp add: unat_of_nat)
  with 2 show ?case by (simp add: mod_mult2_eq)
qed

lemma le_value_bound: "le_value bs < 256 ^ length bs"
proof (induction bs)
  case Nil
  show ?case by simp
next
  case (Cons b bs)
  have "unat b < 256" using unsigned_less [of b] by simp
  with Cons show ?case by simp
qed

lemma le_bytes_le_value: "le_bytes (length bs) (le_value bs) = bs"
proof (induction bs)
  case Nil
  show ?case by simp
next
  case (Cons b bs)
  have b: "unat b < 256" using unsigned_less [of b] by simp
  have "word_of_nat (unat b + 256 * le_value bs) = (b :: u8)"
  proof (rule word_unat_eq_iff [THEN iffD2])
    have "unat (word_of_nat (unat b + 256 * le_value bs) :: u8) = (unat b + 256 * le_value bs) mod 256"
      by (simp only: unat_of_nat) simp
    also have "\<dots> = unat b" using b by simp
    finally show "unat (word_of_nat (unat b + 256 * le_value bs) :: u8) = unat b" .
  qed
  with Cons b show ?case by simp
qed

definition slice :: "nat \<Rightarrow> nat \<Rightarrow> 'a list \<Rightarrow> 'a list" where
  "slice off n xs = take n (drop off xs)"

definition get_le :: "nat \<Rightarrow> nat \<Rightarrow> bytes \<Rightarrow> nat" where
  "get_le n off bs = le_value (slice off n bs)"

lemma length_slice: "off + n \<le> length xs \<Longrightarrow> length (slice off n xs) = n"
  by (simp add: slice_def)

lemma slice_append_left: "off + n \<le> length xs \<Longrightarrow> slice off n (xs @ ys) = slice off n xs"
  by (simp add: slice_def)

lemma slice_append_right: "length xs \<le> off \<Longrightarrow> slice off n (xs @ ys) = slice (off - length xs) n ys"
  by (simp add: slice_def)

lemma slice_0_all: "length xs = n \<Longrightarrow> slice 0 n xs = xs"
  by (simp add: slice_def)

definition overwrite :: "nat \<Rightarrow> 'a list \<Rightarrow> 'a list \<Rightarrow> 'a list" where
  "overwrite off new xs = take off xs @ new @ drop (off + length new) xs"

lemma length_overwrite [simp]:
  "off + length new \<le> length xs \<Longrightarrow> length (overwrite off new xs) = length xs"
  by (simp add: overwrite_def)

lemma slice_overwrite_same:
  "off + length new \<le> length xs \<Longrightarrow> slice off (length new) (overwrite off new xs) = new"
  by (simp add: slice_def overwrite_def)

section \<open>Words\<close>

lemma unat_u8_less [simp]: "unat (w :: u8) < 256"
  using unsigned_less [of w] by simp

lemma unat_ucast_u8 [simp]: "unat (ucast (b :: u8) :: u32) = unat b"
proof -
  have "unat b < 2 ^ 32" by (rule less_trans [OF unat_u8_less]) simp
  then show ?thesis by (simp add: unsigned_ucast_eq take_bit_nat_eq_self)
qed

lemma ucast_u8_inject: "(ucast (a :: u8) :: u32) = ucast b \<longleftrightarrow> a = b"
  by (metis unat_ucast_u8 unsigned_word_eqI)

lemma unat_u32_less: "unat (w :: u32) < 2 ^ 32"
  using unsigned_less [of w] by simp

lemma unat_ucast_u32 [simp]: "unat (ucast (w :: u32) :: u64) = unat w"
proof -
  have "unat w < 2 ^ 64" by (rule less_trans [OF unat_u32_less]) simp
  then show ?thesis by (simp add: unsigned_ucast_eq take_bit_nat_eq_self)
qed

lemma unat_sub_le: "a \<le> b \<Longrightarrow> unat (b - a) = unat b - unat (a :: 'a::len word)"
  by (rule unat_sub)

lemma unat_Suc_u32: "w < v \<Longrightarrow> unat (w + 1) = Suc (unat (w :: 'a::len word))"
proof -
  assume "w < v"
  then have "unat w < unat v" by (simp add: word_less_nat_alt)
  moreover have "unat v < 2 ^ LENGTH('a)" by (rule unsigned_less)
  ultimately have "Suc (unat w) < 2 ^ LENGTH('a)" by linarith
  then show ?thesis by (simp add: unat_word_ariths)
qed

section \<open>Error codes\<close>

text \<open>
  The codes of \<^verbatim>\<open>include/rederrno.h\<close>. The driver's internal error \<^verbatim>\<open>RED_EFUBAR\<close> is an
  alias of \<^verbatim>\<open>RED_EINVAL\<close>.
\<close>

datatype rederr =
    RED_EPERM | RED_ENOENT | RED_EIO | RED_EBADF | RED_ENOMEM | RED_EACCES | RED_EBUSY
  | RED_EEXIST | RED_EXDEV | RED_ENOTDIR | RED_EISDIR | RED_EINVAL | RED_ENFILE | RED_EMFILE
  | RED_EFBIG | RED_ENOSPC | RED_EROFS | RED_EMLINK | RED_ERANGE | RED_ENAMETOOLONG
  | RED_ENOSYS | RED_ENOTEMPTY | RED_ELOOP | RED_ENODATA | RED_ENOLINK | RED_EUSERS
  | RED_ENOTSUPP

abbreviation RED_EFUBAR :: rederr where
  "RED_EFUBAR \<equiv> RED_EINVAL"

fun errno :: "rederr \<Rightarrow> int" where
  "errno RED_EPERM = 1" | "errno RED_ENOENT = 2" | "errno RED_EIO = 5" | "errno RED_EBADF = 9"
| "errno RED_ENOMEM = 12" | "errno RED_EACCES = 13" | "errno RED_EBUSY = 16"
| "errno RED_EEXIST = 17" | "errno RED_EXDEV = 18" | "errno RED_ENOTDIR = 20"
| "errno RED_EISDIR = 21" | "errno RED_EINVAL = 22" | "errno RED_ENFILE = 23"
| "errno RED_EMFILE = 24" | "errno RED_EFBIG = 27" | "errno RED_ENOSPC = 28"
| "errno RED_EROFS = 30" | "errno RED_EMLINK = 31" | "errno RED_ERANGE = 34"
| "errno RED_ENAMETOOLONG = 36" | "errno RED_ENOSYS = 38" | "errno RED_ENOTEMPTY = 39"
| "errno RED_ELOOP = 40" | "errno RED_ENODATA = 61" | "errno RED_ENOLINK = 67"
| "errno RED_EUSERS = 87" | "errno RED_ENOTSUPP = 524"

text \<open>A \<^verbatim>\<open>REDSTATUS\<close>: negative for an error, zero or positive otherwise.\<close>

fun redstatus :: "rederr + unit \<Rightarrow> int" where
  "redstatus (Inl e) = - errno e"
| "redstatus (Inr _) = 0"

lemma errno_pos: "0 < errno e"
  by (cases e) simp_all

lemma errno_inject: "errno a = errno b \<longleftrightarrow> a = b"
  by (cases a; cases b) simp_all

end
