(* ===== verification/Red_Bitmap.thy ===== *)
theory Red_Bitmap
  imports Red_Prelude
begin

text \<open>
  The bitmap utilities of \<^verbatim>\<open>util/bitmap.c\<close>. A bitmap argument is \<open>None\<close> for a null
  pointer, otherwise the bytes it points to. Bits count from the most significant bit of
  byte zero. The locale \<open>bit_store\<close> states what the block maps of the driver need of a
  bitmap: what a bit is after a bit was set or cleared, and how the set of ones changes.
\<close>

section \<open>The operations\<close>

fun RedBitGet :: "bytes option \<Rightarrow> u32 \<Rightarrow> bool" where
  "RedBitGet None ulBit = False"
| "RedBitGet (Some pbBitmap) ulBit =
     ((pbBitmap ! unat (drop_bit 3 ulBit)) AND (drop_bit (unat (ulBit AND 7)) 0x80) \<noteq> 0)"

fun RedBitSet :: "bytes option \<Rightarrow> u32 \<Rightarrow> bytes option" where
  "RedBitSet None ulBit = None"
| "RedBitSet (Some pbBitmap) ulBit =
     (let i = unat (drop_bit 3 ulBit)
      in Some (pbBitmap[i := (pbBitmap ! i) OR (drop_bit (unat (ulBit AND 7)) 0x80)]))"

fun RedBitClear :: "bytes option \<Rightarrow> u32 \<Rightarrow> bytes option" where
  "RedBitClear None ulBit = None"
| "RedBitClear (Some pbBitmap) ulBit =
     (let i = unat (drop_bit 3 ulBit)
      in Some (pbBitmap[i := (pbBitmap ! i) AND (NOT (drop_bit (unat (ulBit AND 7)) 0x80))]))"

section \<open>Bits by position\<close>

definition bit_valid :: "bytes \<Rightarrow> u32 \<Rightarrow> bool" where
  "bit_valid bm b \<longleftrightarrow> unat b < 8 * length bm"

lemma unat_byte_index: "unat (drop_bit 3 (b :: u32)) = unat b div 8"
  by (simp add: unat_drop_bit_eq drop_bit_eq_div unat_div)

lemma unat_bit_index: "unat ((b :: u32) AND 7) = unat b mod 8"
proof -
  have "b AND 7 = take_bit 3 b"
    by (simp add: take_bit_eq_mask mask_eq_exp_minus_1)
  then have "unat (b AND 7) = take_bit 3 (unat b)"
    by (simp only: unsigned_take_bit_eq)
  then show ?thesis by (simp add: take_bit_eq_mod)
qed

lemma bit_0x80: "bit (0x80 :: u8) n \<longleftrightarrow> n = 7"
proof -
  have "(0x80 :: u8) = push_bit 7 1" by (simp add: push_bit_eq_mult)
  then have "bit (0x80 :: u8) n \<longleftrightarrow> bit (push_bit 7 1 :: u8) n" by (simp only:)
  also have "\<dots> \<longleftrightarrow> n = 7" by (auto simp only: bit_push_bit_iff possible_bit_word bit_1_iff) simp
  finally show ?thesis .
qed

lemma bit_mask: "k < 8 \<Longrightarrow> bit (drop_bit k (0x80 :: u8)) j \<longleftrightarrow> j = 7 - k"
  by (auto simp only: bit_drop_bit_eq bit_0x80 comp_apply)

lemma byte_index_in: "bit_valid bm b \<Longrightarrow> unat b div 8 < length bm"
  by (simp add: bit_valid_def less_mult_imp_div_less mult.commute)

lemma and_mask_nonzero:
  "k < 8 \<Longrightarrow> (w AND drop_bit k (0x80 :: u8)) \<noteq> 0 \<longleftrightarrow> bit w (7 - k)"
proof -
  assume k: "k < 8"
  have "(w AND drop_bit k 0x80) \<noteq> 0 \<longleftrightarrow> (\<exists>j. bit (w AND drop_bit k 0x80) j)"
    by (metis bit_eqI bit_0_eq bot_apply bot_bool_def)
  also have "\<dots> \<longleftrightarrow> bit w (7 - k)"
    using k by (auto simp: bit_and_iff bit_mask)
  finally show ?thesis .
qed

lemma RedBitGet_bit:
  "RedBitGet (Some bm) b \<longleftrightarrow> bit (bm ! (unat b div 8)) (7 - unat b mod 8)"
  by (simp add: unat_byte_index unat_bit_index and_mask_nonzero)

lemma bit_position_eq:
  assumes "unat b div 8 = unat c div 8" and "7 - unat b mod 8 = 7 - unat c mod 8"
  shows "(b :: u32) = c"
proof -
  have "unat b mod 8 = unat c mod 8"
    using assms(2) mod_less_divisor [of 8 "unat b"] mod_less_divisor [of 8 "unat c"] by linarith
  with assms(1) have "unat b = unat c"
    by (metis div_mult_mod_eq)
  then show ?thesis by (rule unsigned_word_eqI)
qed

definition bit_put :: "bytes \<Rightarrow> u32 \<Rightarrow> bool \<Rightarrow> bytes" where
  "bit_put bm b v = the (if v then RedBitSet (Some bm) b else RedBitClear (Some bm) b)"

lemma length_bit_put [simp]: "length (bit_put bm b v) = length bm"
  by (simp add: bit_put_def Let_def)

lemma RedBitGet_bit_put:
  assumes "bit_valid bm b"
  shows "RedBitGet (Some (bit_put bm b v)) c = (if c = b then v else RedBitGet (Some bm) c)"
proof (cases "unat c div 8 = unat b div 8")
  case False
  then show ?thesis
    by (auto simp: RedBitGet_bit bit_put_def Let_def unat_byte_index)
next
  case True
  have lt: "unat b div 8 < length bm" using assms by (rule byte_index_in)
  have k: "unat b mod 8 < 8" and k': "7 - unat c mod 8 < 8" by simp_all
  have "c = b \<longleftrightarrow> 7 - unat c mod 8 = 7 - unat b mod 8"
    using bit_position_eq [OF True] by blast
  with True lt k k' show ?thesis
    by (auto simp: RedBitGet_bit bit_put_def Let_def unat_byte_index unat_bit_index
        bit_or_iff bit_and_iff bit_not_iff bit_mask possible_bit_word simp del: RedBitGet.simps)
qed

lemma RedBitSet_put: "RedBitSet (Some bm) b = Some (bit_put bm b True)"
  and RedBitClear_put: "RedBitClear (Some bm) b = Some (bit_put bm b False)"
  by (simp_all add: bit_put_def Let_def)

section \<open>The interface\<close>

locale bit_store =
  fixes get :: "'m \<Rightarrow> 'i \<Rightarrow> bool"
    and put :: "'m \<Rightarrow> 'i \<Rightarrow> bool \<Rightarrow> 'm"
    and valid :: "'m \<Rightarrow> 'i \<Rightarrow> bool"
  assumes get_put: "valid m i \<Longrightarrow> get (put m i v) j = (if j = i then v else get m j)"
    and valid_put: "valid (put m i v) j = valid m j"
begin

definition ones :: "'m \<Rightarrow> 'i set \<Rightarrow> 'i set" where
  "ones m A = {i \<in> A. get m i}"

lemma ones_set: "valid m i \<Longrightarrow> i \<in> A \<Longrightarrow> ones (put m i True) A = insert i (ones m A)"
  by (auto simp: ones_def get_put)

lemma ones_clear: "valid m i \<Longrightarrow> ones (put m i False) A = ones m A - {i}"
  by (auto simp: ones_def get_put split: if_splits)

lemma card_ones_set:
  "valid m i \<Longrightarrow> i \<in> A \<Longrightarrow> finite A \<Longrightarrow> \<not> get m i \<Longrightarrow>
   card (ones (put m i True) A) = Suc (card (ones m A))"
  by (simp add: ones_set) (simp add: ones_def)

lemma card_ones_clear:
  "valid m i \<Longrightarrow> i \<in> A \<Longrightarrow> finite A \<Longrightarrow> get m i \<Longrightarrow>
   Suc (card (ones (put m i False) A)) = card (ones m A)"
  by (simp add: ones_clear) (rule card_Suc_Diff1, simp_all add: ones_def)

lemma put_put_same: "valid m i \<Longrightarrow> get (put (put m i v) i w) j = get (put m i w) j"
  by (simp add: get_put valid_put)

lemma put_commute:
  "valid m i \<Longrightarrow> valid m k \<Longrightarrow> i \<noteq> k \<Longrightarrow>
   get (put (put m i v) k w) j = get (put (put m k w) i v) j"
  by (auto simp: get_put valid_put)

end

lemma bit_valid_put: "bit_valid (bit_put m i v) j = bit_valid m j"
  by (simp add: bit_valid_def)

interpretation bm: bit_store "\<lambda>m. RedBitGet (Some m)" bit_put bit_valid
  by unfold_locales (simp_all only: RedBitGet_bit_put bit_valid_put)

declare RedBitGet.simps [simp del] RedBitSet.simps [simp del] RedBitClear.simps [simp del]

section \<open>Properties\<close>

text \<open>
  Writing one bit of a bitmap, by RedBitSet or RedBitClear, makes exactly that bit
  read as written: every other bit of the bitmap reads as before, and the length of the
  bitmap does not change.
\<close>

theorem bitmap_write_read:
  assumes "unat b < 8 * length bm"
  shows "\<exists>bm'. (if v then RedBitSet (Some bm) b else RedBitClear (Some bm) b) = Some bm' \<and>
    length bm' = length bm \<and>
    (\<forall>c. RedBitGet (Some bm') c = (if c = b then v else RedBitGet (Some bm) c))"
proof -
  from assms have "bit_valid bm b" by (simp add: bit_valid_def)
  then have "\<forall>c. RedBitGet (Some (bit_put bm b v)) c = (if c = b then v else RedBitGet (Some bm) c)"
    by (simp add: bm.get_put)
  moreover have "(if v then RedBitSet (Some bm) b else RedBitClear (Some bm) b) = Some (bit_put bm b v)"
    by (simp add: RedBitSet_put RedBitClear_put)
  ultimately show ?thesis by (intro exI [of _ "bit_put bm b v"]) simp
qed

theorem bitmap_write_read_witness:
  "\<exists>bm'. RedBitSet (Some [0x80, 0x01]) 9 = Some bm' \<and> RedBitGet (Some bm') 9 \<and>
     RedBitGet (Some bm') 15 \<and> \<not> RedBitGet (Some bm') 8 \<and> bm' = [0x80, 0x41]"
proof -
  have "unat (9 :: u32) < 8 * length [0x80 :: u8, 0x01]" by simp
  from bitmap_write_read [OF this, of True] show ?thesis
    by (auto simp: RedBitSet.simps RedBitGet.simps)
qed

end
