(* ===== verification/Red_Memory.thy ===== *)
theory Red_Memory
  imports Red_Prelude
begin

text \<open>
  The memory utilities of \<^verbatim>\<open>util/memory.c\<close> over a flat memory of bytes. An address is a
  natural number, zero is the null pointer. The loops copy one byte at a time, in the
  order of the code, so overlapping regions behave as they do there. \<open>list_move\<close> is what
  a move inside one array does to the list of its elements; the buffer cache uses it.
\<close>

type_synonym memory = "nat \<Rightarrow> u8"

section \<open>The operations\<close>

text \<open>The loop that copies from the first byte to the last, \<open>i\<close> bytes being left.\<close>

fun copy_up :: "nat \<Rightarrow> nat \<Rightarrow> nat \<Rightarrow> nat \<Rightarrow> memory \<Rightarrow> memory" where
  "copy_up d s idx 0 m = m"
| "copy_up d s idx (Suc i) m = copy_up d s (Suc idx) i (m(d + idx := m (s + idx)))"

text \<open>The loop that copies from the last byte to the first.\<close>

fun copy_down :: "nat \<Rightarrow> nat \<Rightarrow> nat \<Rightarrow> memory \<Rightarrow> memory" where
  "copy_down d s 0 m = m"
| "copy_down d s (Suc idx) m = copy_down d s idx (m(d + idx := m (s + idx)))"

definition RedMemCpyUnchecked :: "nat \<Rightarrow> nat \<Rightarrow> u32 \<Rightarrow> memory \<Rightarrow> memory" where
  "RedMemCpyUnchecked pDest pSrc ulLen m = copy_up pDest pSrc 0 (unat ulLen) m"

definition RedMemCpy :: "nat \<Rightarrow> nat \<Rightarrow> u32 \<Rightarrow> memory \<Rightarrow> memory" where
  "RedMemCpy pDest pSrc ulLen m =
     (if pDest = 0 \<or> pSrc = 0 then m else RedMemCpyUnchecked pDest pSrc ulLen m)"

definition RedMemMoveUnchecked :: "nat \<Rightarrow> nat \<Rightarrow> u32 \<Rightarrow> memory \<Rightarrow> memory" where
  "RedMemMoveUnchecked pDest pSrc ulLen m =
     (if pDest < pSrc then copy_up pDest pSrc 0 (unat ulLen) m
      else copy_down pDest pSrc (unat ulLen) m)"

definition RedMemMove :: "nat \<Rightarrow> nat \<Rightarrow> u32 \<Rightarrow> memory \<Rightarrow> memory" where
  "RedMemMove pDest pSrc ulLen m =
     (if pDest = 0 \<or> pSrc = 0 then m else RedMemMoveUnchecked pDest pSrc ulLen m)"

fun set_up :: "nat \<Rightarrow> u8 \<Rightarrow> nat \<Rightarrow> nat \<Rightarrow> memory \<Rightarrow> memory" where
  "set_up d v idx 0 m = m"
| "set_up d v idx (Suc i) m = set_up d v (Suc idx) i (m(d + idx := v))"

definition RedMemSetUnchecked :: "nat \<Rightarrow> u8 \<Rightarrow> u32 \<Rightarrow> memory \<Rightarrow> memory" where
  "RedMemSetUnchecked pDest bVal ulLen m = set_up pDest bVal 0 (unat ulLen) m"

definition RedMemSet :: "nat \<Rightarrow> u8 \<Rightarrow> u32 \<Rightarrow> memory \<Rightarrow> memory" where
  "RedMemSet pDest bVal ulLen m =
     (if pDest = 0 then m else RedMemSetUnchecked pDest bVal ulLen m)"

text \<open>The scan of the comparison: the first index below the length at which the bytes differ.\<close>

fun cmp_scan :: "nat \<Rightarrow> nat \<Rightarrow> nat \<Rightarrow> nat \<Rightarrow> memory \<Rightarrow> nat" where
  "cmp_scan p q idx 0 m = idx"
| "cmp_scan p q idx (Suc i) m =
     (if m (p + idx) = m (q + idx) then cmp_scan p q (Suc idx) i m else idx)"

definition RedMemCmpUnchecked :: "nat \<Rightarrow> nat \<Rightarrow> u32 \<Rightarrow> memory \<Rightarrow> int" where
  "RedMemCmpUnchecked pMem1 pMem2 ulLen m =
     (let ulIdx = cmp_scan pMem1 pMem2 0 (unat ulLen) m
      in if ulIdx = unat ulLen then 0
         else if m (pMem1 + ulIdx) > m (pMem2 + ulIdx) then 1
         else -1)"

definition RedMemCmp :: "nat \<Rightarrow> nat \<Rightarrow> u32 \<Rightarrow> memory \<Rightarrow> int" where
  "RedMemCmp pMem1 pMem2 ulLen m =
     (if pMem1 = 0 \<or> pMem2 = 0 then 0 else RedMemCmpUnchecked pMem1 pMem2 ulLen m)"

section \<open>What the loops compute\<close>

definition moved :: "nat \<Rightarrow> nat \<Rightarrow> nat \<Rightarrow> memory \<Rightarrow> memory" where
  "moved d s n m = (\<lambda>a. if d \<le> a \<and> a < d + n then m (s + (a - d)) else m a)"

lemma copy_up_moved_from:
  assumes "d \<le> s \<or> s + idx + i \<le> d + idx"
  shows "copy_up d s idx i m =
    (\<lambda>a. if d + idx \<le> a \<and> a < d + idx + i then m (s + (a - d)) else m a)"
  using assms
proof (induction i arbitrary: idx m)
  case 0
  show ?case by (auto simp: fun_eq_iff)
next
  case (Suc i)
  let ?m = "m(d + idx := m (s + idx))"
  have "copy_up d s (Suc idx) i ?m =
      (\<lambda>a. if d + Suc idx \<le> a \<and> a < d + Suc idx + i then ?m (s + (a - d)) else ?m a)"
    by (rule Suc.IH) (use Suc.prems in auto)
  moreover have "?m (s + (a - d)) = m (s + (a - d))"
    if "d + Suc idx \<le> a" "a < d + Suc idx + i" for a
    using that Suc.prems by auto
  ultimately show ?case by (auto simp: fun_eq_iff)
qed

lemma copy_up_moved: "d \<le> s \<or> s + n \<le> d \<Longrightarrow> copy_up d s 0 n m = moved d s n m"
  using copy_up_moved_from [of d s 0 n m] by (auto simp: moved_def)

lemma copy_down_moved: "s \<le> d \<Longrightarrow> copy_down d s n m = moved d s n m"
proof (induction n arbitrary: m)
  case 0
  show ?case by (auto simp: moved_def fun_eq_iff)
next
  case (Suc n)
  have "moved d s n (m(d + n := m (s + n))) = moved d s (Suc n) m"
    using Suc.prems by (auto simp: moved_def fun_eq_iff not_less le_less_Suc_eq less_Suc_eq)
  with Suc.IH [OF Suc.prems] show ?case by (simp only: copy_down.simps)
qed

lemma set_up_from:
  "set_up d v idx i m = (\<lambda>a. if d + idx \<le> a \<and> a < d + idx + i then v else m a)"
  by (induction i arbitrary: idx m) (auto simp: fun_eq_iff)

lemma cmp_scan_lower: "idx \<le> cmp_scan p q idx i m"
  by (induction i arbitrary: idx) (auto intro: Suc_leD)

lemma cmp_scan_upper: "cmp_scan p q idx i m \<le> idx + i"
proof (induction i arbitrary: idx)
  case 0
  show ?case by simp
next
  case (Suc i)
  from Suc.IH [of "Suc idx"] show ?case by simp
qed

lemma cmp_scan_prefix: "idx \<le> k \<Longrightarrow> k < cmp_scan p q idx i m \<Longrightarrow> m (p + k) = m (q + k)"
proof (induction i arbitrary: idx)
  case 0
  then show ?case by simp
next
  case (Suc i)
  show ?case
  proof (cases "k = idx")
    case True
    with Suc.prems show ?thesis by (auto split: if_splits)
  next
    case False
    with Suc.prems have "Suc idx \<le> k" by simp
    with Suc.prems Suc.IH [of "Suc idx"] show ?thesis by (auto split: if_splits)
  qed
qed

lemma cmp_scan_differs:
  "cmp_scan p q idx i m < idx + i \<Longrightarrow>
   m (p + cmp_scan p q idx i m) \<noteq> m (q + cmp_scan p q idx i m)"
proof (induction i arbitrary: idx)
  case 0
  then show ?case using cmp_scan_lower [of idx p q 0 m] by simp
next
  case (Suc i)
  then show ?case by (auto split: if_splits)
qed

section \<open>Moves inside an array\<close>

definition list_move :: "'a list \<Rightarrow> nat \<Rightarrow> nat \<Rightarrow> nat \<Rightarrow> 'a list" where
  "list_move xs dst src n =
     map (\<lambda>i. if dst \<le> i \<and> i < dst + n then xs ! (src + (i - dst)) else xs ! i) [0..<length xs]"

definition array_at :: "memory \<Rightarrow> nat \<Rightarrow> nat \<Rightarrow> bytes" where
  "array_at m base n = map (\<lambda>i. m (base + i)) [0..<n]"

lemma length_list_move [simp]: "length (list_move xs d s n) = length xs"
  by (simp add: list_move_def)

lemma list_move_nth:
  "i < length xs \<Longrightarrow>
   list_move xs d s n ! i = (if d \<le> i \<and> i < d + n then xs ! (s + (i - d)) else xs ! i)"
  by (simp add: list_move_def)

lemma RedMemMove_moved:
  "pDest \<noteq> 0 \<Longrightarrow> pSrc \<noteq> 0 \<Longrightarrow> RedMemMove pDest pSrc ulLen m = moved pDest pSrc (unat ulLen) m"
  by (simp add: RedMemMove_def RedMemMoveUnchecked_def copy_up_moved copy_down_moved)

section \<open>Properties\<close>

text \<open>
  RedMemMove is correct for every overlap of the two regions: after the call each
  destination byte holds what the corresponding source byte held before the call, and
  every byte outside the destination is unchanged.
\<close>

theorem memmove_overlap:
  assumes "pDest \<noteq> 0" and "pSrc \<noteq> 0"
  shows "RedMemMove pDest pSrc ulLen m a =
    (if pDest \<le> a \<and> a < pDest + unat ulLen then m (pSrc + (a - pDest)) else m a)"
  using RedMemMove_moved [OF assms] by (simp add: moved_def)

theorem memmove_overlap_witness:
  "RedMemMove 10 11 3 (\<lambda>a. word_of_nat a) 12 = 13 \<and>
   RedMemMove 11 10 3 (\<lambda>a. word_of_nat a) 13 = 12"
proof -
  have nz: "(10 :: nat) \<noteq> 0" "(11 :: nat) \<noteq> 0" by simp_all
  show ?thesis
    using memmove_overlap [OF nz, of 3 "\<lambda>a. word_of_nat a" 12]
      memmove_overlap [OF nz(2,1), of 3 "\<lambda>a. word_of_nat a" 13]
    by simp
qed

text \<open>
  A move inside one byte array by RedMemMove has the effect of \<open>list_move\<close> on the
  list of its elements: this is the form in which the buffer cache reorders its MRU array.
\<close>

theorem memmove_is_list_move:
  assumes "base \<noteq> 0" and "dst + unat ulLen \<le> n" and "src + unat ulLen \<le> n"
  shows "array_at (RedMemMove (base + dst) (base + src) ulLen m) base n =
    list_move (array_at m base n) dst src (unat ulLen)"
proof (rule nth_equalityI)
  show "length (array_at (RedMemMove (base + dst) (base + src) ulLen m) base n) =
      length (list_move (array_at m base n) dst src (unat ulLen))"
    by (simp add: array_at_def)
  fix i
  assume "i < length (array_at (RedMemMove (base + dst) (base + src) ulLen m) base n)"
  with assms show "array_at (RedMemMove (base + dst) (base + src) ulLen m) base n ! i =
      list_move (array_at m base n) dst src (unat ulLen) ! i"
    by (auto simp: array_at_def list_move_nth RedMemMove_moved moved_def add.assoc)
qed

theorem memmove_is_list_move_witness:
  "array_at (RedMemMove (100 + 1) (100 + 0) 3 (\<lambda>a. word_of_nat (a - 90))) 100 5 = [10, 10, 11, 12, 14]"
proof -
  have "array_at (RedMemMove (100 + 1) (100 + 0) 3 (\<lambda>a. word_of_nat (a - 90))) 100 5 =
      list_move (array_at (\<lambda>a. word_of_nat (a - 90)) 100 5) 1 0 (unat (3 :: u32))"
    by (rule memmove_is_list_move) simp_all
  also have "\<dots> = [10, 10, 11, 12, 14]"
    by code_simp
  finally show ?thesis .
qed

text \<open>
  RedMemCmp returns zero exactly for equal regions; otherwise the sign it returns is
  the order of the first pair of bytes that differ.
\<close>

theorem memcmp_first_difference:
  assumes "pMem1 \<noteq> 0" and "pMem2 \<noteq> 0"
  shows "(RedMemCmp pMem1 pMem2 ulLen m = 0 \<longleftrightarrow> (\<forall>k < unat ulLen. m (pMem1 + k) = m (pMem2 + k))) \<and>
    (RedMemCmp pMem1 pMem2 ulLen m \<noteq> 0 \<longrightarrow>
       (\<exists>k < unat ulLen. (\<forall>j < k. m (pMem1 + j) = m (pMem2 + j)) \<and> m (pMem1 + k) \<noteq> m (pMem2 + k) \<and>
          RedMemCmp pMem1 pMem2 ulLen m = (if m (pMem1 + k) > m (pMem2 + k) then 1 else -1)))"
proof -
  let ?k = "cmp_scan pMem1 pMem2 0 (unat ulLen) m"
  have le: "?k \<le> unat ulLen" using cmp_scan_upper [of pMem1 pMem2 0 "unat ulLen" m] by simp
  have pre: "\<forall>j < ?k. m (pMem1 + j) = m (pMem2 + j)" using cmp_scan_prefix [of 0] by blast
  have dif: "?k < unat ulLen \<Longrightarrow> m (pMem1 + ?k) \<noteq> m (pMem2 + ?k)"
    using cmp_scan_differs [of pMem1 pMem2 0 "unat ulLen" m] by simp
  have val: "RedMemCmp pMem1 pMem2 ulLen m =
      (if ?k = unat ulLen then 0 else if m (pMem1 + ?k) > m (pMem2 + ?k) then 1 else -1)"
    using assms by (simp add: RedMemCmp_def RedMemCmpUnchecked_def Let_def)
  show ?thesis
  proof (cases "?k = unat ulLen")
    case True
    with val pre show ?thesis by simp
  next
    case False
    with le have "?k < unat ulLen" by simp
    with val pre dif show ?thesis by (auto intro!: exI [of _ ?k])
  qed
qed

theorem memcmp_first_difference_witness:
  "RedMemCmp 10 20 4 (\<lambda>a. if a = 22 then 1 else 0) = -1 \<and>
   (\<exists>k < unat (4 :: u32). (if 10 + k = (22 :: nat) then 1 else 0 :: u8) \<noteq> (if 20 + k = 22 then 1 else 0))"
proof -
  have v: "RedMemCmp 10 20 4 (\<lambda>a. if a = 22 then 1 else 0) = -1" by code_simp
  with memcmp_first_difference [of 10 20 4 "\<lambda>a. if a = 22 then 1 else 0"]
  show ?thesis by force
qed

end
