(* ===== verification/Red_String.thy ===== *)
theory Red_String
  imports Red_Prelude
begin

text \<open>
  The string utilities of \<^verbatim>\<open>util/string.c\<close> and \<^verbatim>\<open>util/namelen.c\<close>. A string pointer is
  \<open>None\<close> for null, otherwise the bytes at each 32-bit index from it; every index of the
  code is a \<^verbatim>\<open>uint32_t\<close>. The loops without a length bound end only when they meet a
  terminator, so they return an option: \<open>None\<close> when they go on for ever. The results are
  related to the byte lists the strings stand for.
\<close>

type_synonym cstr = "u32 \<Rightarrow> u8"

section \<open>The operations\<close>

text \<open>The loops \<^verbatim>\<open>while(p(i)) i++\<close>.\<close>

partial_function (option) scan_while :: "(u32 \<Rightarrow> bool) \<Rightarrow> u32 \<Rightarrow> u32 option" where
  "scan_while p ulIdx = (if p ulIdx then scan_while p (ulIdx + 1) else Some ulIdx)"

definition RedStrLenUnchecked :: "cstr \<Rightarrow> u32 option" where
  "RedStrLenUnchecked pszStr = scan_while (\<lambda>i. pszStr i \<noteq> 0) 0"

definition RedStrLen :: "cstr option \<Rightarrow> u32 option" where
  "RedStrLen pszStr = (case pszStr of None \<Rightarrow> Some 0 | Some s \<Rightarrow> RedStrLenUnchecked s)"

definition RedStrCmpUnchecked :: "cstr \<Rightarrow> cstr \<Rightarrow> int option" where
  "RedStrCmpUnchecked pszStr1 pszStr2 =
     (case scan_while (\<lambda>i. pszStr1 i = pszStr2 i \<and> pszStr1 i \<noteq> 0) 0 of
        None \<Rightarrow> None
      | Some ulIdx \<Rightarrow>
          if pszStr1 ulIdx > pszStr2 ulIdx then Some 1
          else if pszStr1 ulIdx < pszStr2 ulIdx then Some (-1)
          else Some 0)"

definition RedStrCmp :: "cstr option \<Rightarrow> cstr option \<Rightarrow> int option" where
  "RedStrCmp pszStr1 pszStr2 =
     (case (pszStr1, pszStr2) of
        (Some s, Some t) \<Rightarrow> RedStrCmpUnchecked s t
      | _ \<Rightarrow> Some 0)"

text \<open>The bounded comparison, with the number of passes the length still allows.\<close>

fun ncmp_loop :: "cstr \<Rightarrow> cstr \<Rightarrow> u32 \<Rightarrow> nat \<Rightarrow> int" where
  "ncmp_loop s t ulIdx 0 = 0"
| "ncmp_loop s t ulIdx (Suc i) =
     (let lResult = (if s ulIdx \<noteq> t ulIdx then (if s ulIdx > t ulIdx then 1 else -1) else 0)
      in if lResult \<noteq> 0 \<or> s ulIdx = 0 then lResult else ncmp_loop s t (ulIdx + 1) i)"

definition RedStrNCmpUnchecked :: "cstr \<Rightarrow> cstr \<Rightarrow> u32 \<Rightarrow> int" where
  "RedStrNCmpUnchecked pszStr1 pszStr2 ulLen = ncmp_loop pszStr1 pszStr2 0 (unat ulLen)"

definition RedStrNCmp :: "cstr option \<Rightarrow> cstr option \<Rightarrow> u32 \<Rightarrow> int" where
  "RedStrNCmp pszStr1 pszStr2 ulLen =
     (case (pszStr1, pszStr2) of
        (Some s, Some t) \<Rightarrow> RedStrNCmpUnchecked s t ulLen
      | _ \<Rightarrow> 0)"

text \<open>The two loops of the copy: up to the terminator, then the padding.\<close>

fun ncpy_pad :: "cstr \<Rightarrow> u32 \<Rightarrow> nat \<Rightarrow> cstr" where
  "ncpy_pad d ulIdx 0 = d"
| "ncpy_pad d ulIdx (Suc i) = ncpy_pad (d(ulIdx := 0)) (ulIdx + 1) i"

fun ncpy_copy :: "cstr \<Rightarrow> cstr \<Rightarrow> u32 \<Rightarrow> nat \<Rightarrow> cstr" where
  "ncpy_copy d s ulIdx 0 = d"
| "ncpy_copy d s ulIdx (Suc i) =
     (if s ulIdx \<noteq> 0 then ncpy_copy (d(ulIdx := s ulIdx)) s (ulIdx + 1) i
      else ncpy_pad d ulIdx (Suc i))"

definition RedStrNCpyUnchecked :: "cstr \<Rightarrow> cstr \<Rightarrow> u32 \<Rightarrow> cstr" where
  "RedStrNCpyUnchecked pszDst pszSrc ulLen = ncpy_copy pszDst pszSrc 0 (unat ulLen)"

definition RedStrNCpy :: "cstr option \<Rightarrow> cstr option \<Rightarrow> u32 \<Rightarrow> cstr option" where
  "RedStrNCpy pszDst pszSrc ulLen =
     (case (pszDst, pszSrc) of
        (Some d, Some s) \<Rightarrow> Some (RedStrNCpyUnchecked d s ulLen)
      | _ \<Rightarrow> pszDst)"

definition RedNameLen :: "u8 \<Rightarrow> cstr option \<Rightarrow> u32 option" where
  "RedNameLen REDCONF_PATH_SEPARATOR pszName =
     (case pszName of
        None \<Rightarrow> Some 0
      | Some s \<Rightarrow> scan_while (\<lambda>i. s i \<noteq> 0 \<and> s i \<noteq> REDCONF_PATH_SEPARATOR) 0)"

section \<open>Scanning\<close>

lemma word_of_nat_Suc32: "(word_of_nat (Suc n) :: u32) = word_of_nat n + 1"
  by simp

lemma scan_while_steps:
  "(\<And>k. k < n \<Longrightarrow> p (i + word_of_nat k)) \<Longrightarrow> scan_while p i = scan_while p (i + word_of_nat n)"
proof (induction n)
  case 0
  show ?case by simp
next
  case (Suc n)
  have "scan_while p i = scan_while p (i + word_of_nat n)"
    by (rule Suc.IH) (simp add: Suc.prems)
  also have "\<dots> = scan_while p (i + word_of_nat n + 1)"
    using Suc.prems [of n] by (subst scan_while.simps) simp
  finally show ?case by (simp add: add.assoc add.commute [of 1])
qed

lemma scan_while_stop:
  assumes "\<And>k. k < n \<Longrightarrow> p (word_of_nat k)" and "\<not> p (word_of_nat n)"
  shows "scan_while p 0 = Some (word_of_nat n)"
proof -
  have "scan_while p 0 = scan_while p (0 + word_of_nat n)"
    by (rule scan_while_steps) (simp add: assms(1))
  also have "\<dots> = Some (word_of_nat n)"
    using assms(2) by (subst scan_while.simps) simp
  finally show ?thesis .
qed

lemma scan_while_Some_not: "scan_while p i = Some j \<Longrightarrow> \<not> p j"
  by (erule scan_while.raw_induct [where P = "\<lambda>p i j. \<not> p j", rotated]) (auto split: if_splits)

lemma scan_while_forever: "(\<And>i. p i) \<Longrightarrow> scan_while p i = None"
  using scan_while_Some_not [of p i] by (cases "scan_while p i") auto

lemma scan_while_None_iff: "scan_while p 0 = None \<longleftrightarrow> (\<forall>i. p i)"
proof
  assume none: "scan_while p 0 = None"
  have "p (word_of_nat n)" for n
  proof (induction n rule: less_induct)
    case (less n)
    show ?case
    proof (rule ccontr)
      assume "\<not> p (word_of_nat n)"
      then have "scan_while p 0 = Some (word_of_nat n)"
        using less by (intro scan_while_stop)
      with none show False by simp
    qed
  qed
  then show "\<forall>i. p i" by (metis word_nat_cases)
qed (simp add: scan_while_forever)

section \<open>The byte list of a string\<close>

definition str_is :: "cstr \<Rightarrow> bytes \<Rightarrow> bool" where
  "str_is s bs \<longleftrightarrow> length bs < 2 ^ 32 \<and> 0 \<notin> set bs \<and>
     (\<forall>k < length bs. s (word_of_nat k) = bs ! k) \<and> s (word_of_nat (length bs)) = 0"

lemma str_is_nth: "str_is s bs \<Longrightarrow> k < length bs \<Longrightarrow> s (word_of_nat k) = bs ! k"
  and str_is_end: "str_is s bs \<Longrightarrow> s (word_of_nat (length bs)) = 0"
  and str_is_length: "str_is s bs \<Longrightarrow> length bs < 2 ^ 32"
  by (simp_all add: str_is_def)

lemma str_is_nonzero: "str_is s bs \<Longrightarrow> k < length bs \<Longrightarrow> bs ! k \<noteq> 0"
  unfolding str_is_def by (metis nth_mem)

text \<open>The order of byte strings that the comparisons are to compute.\<close>

fun byte_order :: "bytes \<Rightarrow> bytes \<Rightarrow> int" where
  "byte_order [] [] = 0"
| "byte_order [] (y # ys) = -1"
| "byte_order (x # xs) [] = 1"
| "byte_order (x # xs) (y # ys) = (if x > y then 1 else if x < y then -1 else byte_order xs ys)"

lemma byte_order_refl_iff: "byte_order xs ys = 0 \<longleftrightarrow> xs = ys"
  by (induction xs ys rule: byte_order.induct) auto

lemma byte_order_antisym: "byte_order ys xs = - byte_order xs ys"
  by (induction xs ys rule: byte_order.induct) auto

text \<open>Where two different byte strings first differ, or where the shorter one ends.\<close>

fun common :: "bytes \<Rightarrow> bytes \<Rightarrow> nat" where
  "common (x # xs) (y # ys) = (if x = y then Suc (common xs ys) else 0)"
| "common [] ys = 0"
| "common (x # xs) [] = 0"

lemma common_le: "common xs ys \<le> length xs" "common xs ys \<le> length ys"
  by (induction xs ys rule: common.induct) auto

lemma common_prefix: "k < common xs ys \<Longrightarrow> xs ! k = ys ! k"
  by (induction xs ys arbitrary: k rule: common.induct)
    (auto simp: nth_Cons' split: if_splits nat.splits)

definition at_or_0 :: "bytes \<Rightarrow> nat \<Rightarrow> u8" where
  "at_or_0 xs k = (if k < length xs then xs ! k else 0)"

lemma byte_order_common:
  "0 \<notin> set xs \<Longrightarrow> 0 \<notin> set ys \<Longrightarrow>
   byte_order xs ys =
     (let a = at_or_0 xs (common xs ys); b = at_or_0 ys (common xs ys)
      in if a > b then 1 else if a < b then -1 else 0)"
proof (induction xs ys rule: common.induct)
  case (1 x xs y ys)
  then show ?case by (auto simp: at_or_0_def Let_def)
next
  case (2 ys)
  then show ?case by (cases ys) (auto simp: at_or_0_def Let_def word_greater_zero_iff)
next
  case (3 x xs)
  then show ?case by (auto simp: at_or_0_def Let_def word_greater_zero_iff)
qed

lemma common_stops:
  "0 \<notin> set xs \<Longrightarrow> 0 \<notin> set ys \<Longrightarrow>
   at_or_0 xs (common xs ys) = at_or_0 ys (common xs ys) \<Longrightarrow> at_or_0 xs (common xs ys) = 0"
proof (induction xs ys rule: common.induct)
  case (1 x xs y ys)
  then show ?case by (auto simp: at_or_0_def split: if_splits)
next
  case (2 ys)
  then show ?case by (simp add: at_or_0_def)
next
  case (3 x xs)
  then show ?case by (auto simp: at_or_0_def)
qed

lemma str_is_at: "str_is s bs \<Longrightarrow> k \<le> length bs \<Longrightarrow> s (word_of_nat k) = at_or_0 bs k"
  by (auto simp: at_or_0_def str_is_nth str_is_end le_less)

lemma StrCmp_scan:
  assumes s: "str_is s xs" and t: "str_is t ys"
  shows "scan_while (\<lambda>i. s i = t i \<and> s i \<noteq> 0) 0 = Some (word_of_nat (common xs ys))"
proof (rule scan_while_stop)
  have nz: "0 \<notin> set xs" "0 \<notin> set ys" using s t by (simp_all add: str_is_def)
  show "s (word_of_nat k) = t (word_of_nat k) \<and> s (word_of_nat k) \<noteq> 0" if "k < common xs ys" for k
    using that common_le [of xs ys] common_prefix [OF that] str_is_nonzero [OF s, of k]
    by (simp add: str_is_nth [OF s] str_is_nth [OF t])
  show "\<not> (s (word_of_nat (common xs ys)) = t (word_of_nat (common xs ys)) \<and>
      s (word_of_nat (common xs ys)) \<noteq> 0)"
    using common_stops [OF nz] by (simp add: str_is_at [OF s] str_is_at [OF t] common_le)
qed

lemma ncmp_loop_order:
  assumes s: "str_is s xs" and t: "str_is t ys" and "i \<le> length xs" and "i \<le> length ys"
    and "take i xs = take i ys"
  shows "ncmp_loop s t (word_of_nat i) n = byte_order (take n (drop i xs)) (take n (drop i ys))"
  using assms(3-)
proof (induction n arbitrary: i)
  case 0
  show ?case by simp
next
  case (Suc n)
  let ?i = "word_of_nat i :: u32"
  have dx: "drop i xs = (if i < length xs then xs ! i # drop (Suc i) xs else [])"
    by (simp add: Cons_nth_drop_Suc)
  have dy: "drop i ys = (if i < length ys then ys ! i # drop (Suc i) ys else [])"
    by (simp add: Cons_nth_drop_Suc)
  have sx: "s ?i = at_or_0 xs i" and ty: "t ?i = at_or_0 ys i"
    using Suc.prems by (simp_all only: str_is_at [OF s] str_is_at [OF t])
  show ?case
  proof (cases "i < length xs \<and> i < length ys \<and> xs ! i = ys ! i")
    case True
    then have "ncmp_loop s t (word_of_nat (Suc i)) n =
        byte_order (take n (drop (Suc i) xs)) (take n (drop (Suc i) ys))"
      using Suc.prems by (intro Suc.IH) (simp_all add: take_Suc_conv_app_nth)
    then have "ncmp_loop s t (?i + 1) n =
        byte_order (take n (drop (Suc i) xs)) (take n (drop (Suc i) ys))"
      by (simp only: word_of_nat_Suc32)
    with True sx ty str_is_nonzero [OF s, of i] show ?thesis
      by (simp add: Let_def dx dy at_or_0_def)
  next
    case False
    show ?thesis
    proof (cases "i < length xs"; cases "i < length ys")
      assume x: "i < length xs" and y: "i < length ys"
      with False have ne: "xs ! i \<noteq> ys ! i" by simp
      then have "xs ! i < ys ! i \<or> ys ! i < xs ! i" by (simp add: neq_iff)
      with ne x y sx ty show ?thesis by (auto simp: Let_def dx dy at_or_0_def)
    next
      assume x: "i < length xs" and y: "\<not> i < length ys"
      then have "xs ! i \<noteq> 0" using str_is_nonzero [OF s x] by simp
      with x y sx ty show ?thesis by (simp add: Let_def dx dy at_or_0_def word_gt_0)
    next
      assume x: "\<not> i < length xs" and y: "i < length ys"
      then have "ys ! i \<noteq> 0" using str_is_nonzero [OF t y] by simp
      with x y sx ty show ?thesis by (simp add: Let_def dx dy at_or_0_def)
    next
      assume x: "\<not> i < length xs" and y: "\<not> i < length ys"
      with sx ty show ?thesis by (simp add: Let_def dx dy at_or_0_def)
    qed
  qed
qed

lemma ncpy_pad_value:
  "idx + n \<le> 2 ^ 32 \<Longrightarrow>
   ncpy_pad d (word_of_nat idx) n = (\<lambda>i. if idx \<le> unat i \<and> unat i < idx + n then 0 else d i)"
proof (induction n arbitrary: idx d)
  case 0
  show ?case by (rule ext) (simp cong: conj_cong)
next
  case (Suc n)
  have "ncpy_pad (d(word_of_nat idx := 0)) (word_of_nat (Suc idx)) n =
      (\<lambda>i. if Suc idx \<le> unat i \<and> unat i < Suc idx + n then 0 else (d(word_of_nat idx := 0)) i)"
    using Suc.prems by (intro Suc.IH) simp
  moreover have "unat (word_of_nat idx :: u32) = idx"
    using Suc.prems by (simp add: unat_of_nat)
  ultimately show ?case
    by (auto simp: fun_eq_iff word_of_nat_Suc32 simp del: of_nat_Suc)
      (metis Suc_leI le_neq_implies_less unsigned_word_eqI)+
qed

lemma ncpy_copy_value:
  assumes s: "str_is s xs" and "i \<le> length xs" and "i + n \<le> 2 ^ 32"
  shows "ncpy_copy d s (word_of_nat i) n =
    (\<lambda>j. if i \<le> unat j \<and> unat j < i + n then at_or_0 xs (unat j) else d j)"
  using assms(2-)
proof (induction n arbitrary: i d)
  case 0
  show ?case by (rule ext) (simp cong: conj_cong)
next
  case (Suc n)
  have u: "unat (word_of_nat i :: u32) = i"
    using Suc.prems by (simp add: unat_of_nat)
  show ?case
  proof (cases "i < length xs")
    case True
    have "ncpy_copy (d(word_of_nat i := xs ! i)) s (word_of_nat (Suc i)) n =
        (\<lambda>j. if Suc i \<le> unat j \<and> unat j < Suc i + n then at_or_0 xs (unat j)
             else (d(word_of_nat i := xs ! i)) j)"
      using Suc.prems True by (intro Suc.IH) simp_all
    with True u str_is_nonzero [OF s True] show ?thesis
      by (auto simp: fun_eq_iff str_is_nth [OF s] word_of_nat_Suc32 at_or_0_def simp del: of_nat_Suc)
        (metis Suc_leI le_neq_implies_less unsigned_word_eqI)+
  next
    case False
    with Suc.prems have i: "i = length xs" by simp
    then have "ncpy_copy d s (word_of_nat i) (Suc n) = ncpy_pad d (word_of_nat i) (Suc n)"
      using str_is_end [OF s] by simp
    also have "\<dots> = (\<lambda>j. if i \<le> unat j \<and> unat j < i + Suc n then 0 else d j)"
      using Suc.prems by (intro ncpy_pad_value) simp
    finally show ?thesis using i by (auto simp: fun_eq_iff at_or_0_def)
  qed
qed

lemma ncpy_pad_value_whole:
  "str_is s xs \<Longrightarrow>
   RedStrNCpyUnchecked d s ulLen =
     (\<lambda>j. if unat j < unat ulLen then at_or_0 xs (unat j) else d j)"
  using ncpy_copy_value [of s xs 0 "unat ulLen" d] unat_u32_less [of ulLen]
  by (simp add: RedStrNCpyUnchecked_def)

lemma take_no_zero: "0 \<notin> set xs \<Longrightarrow> 0 \<notin> set (take n xs)"
  by (meson in_set_takeD)

section \<open>Properties\<close>

text \<open>
  RedStrLen counts the bytes before the terminator; without a terminator among the
  indices a \<^verbatim>\<open>uint32_t\<close> can reach the loop never ends, and that is the only case in which
  it does not return.
\<close>

theorem strlen_total_iff_terminated:
  "(str_is s bs \<longrightarrow> RedStrLen (Some s) = Some (word_of_nat (length bs))) \<and>
   (RedStrLen (Some s) = None \<longleftrightarrow> (\<forall>i. s i \<noteq> 0))"
proof (intro conjI impI)
  assume s: "str_is s bs"
  have "scan_while (\<lambda>i. s i \<noteq> 0) 0 = Some (word_of_nat (length bs))"
    by (rule scan_while_stop) (use s in \<open>auto simp: str_is_nth str_is_nonzero str_is_end\<close>)
  then show "RedStrLen (Some s) = Some (word_of_nat (length bs))"
    by (simp add: RedStrLen_def RedStrLenUnchecked_def)
next
  show "RedStrLen (Some s) = None \<longleftrightarrow> (\<forall>i. s i \<noteq> 0)"
    using scan_while_None_iff [of "\<lambda>i. s i \<noteq> 0"]
    by (simp add: RedStrLen_def RedStrLenUnchecked_def)
qed

theorem strlen_total_iff_terminated_witness:
  "RedStrLen (Some (\<lambda>i. if i = 2 then 0 else 97)) = Some 2 \<and> RedStrLen (Some (\<lambda>i. 97)) = None"
proof -
  have "str_is (\<lambda>i. if i = 2 then 0 else 97) [97, 97]"
    by (auto simp: str_is_def less_Suc_eq nth_Cons')
  with strlen_total_iff_terminated [of "\<lambda>i. if i = 2 then 0 else 97" "[97, 97]"]
    strlen_total_iff_terminated [of "\<lambda>i. 97" "[]"]
  show ?thesis by simp
qed

text \<open>
  RedStrCmp computes the lexicographic order of the two strings as byte strings, and
  RedStrNCmp computes it for their prefixes of the given length: a result of zero means
  equality, and exchanging the arguments changes the sign.
\<close>

theorem strcmp_is_byte_order:
  assumes "str_is s xs" and "str_is t ys"
  shows "RedStrCmp (Some s) (Some t) = Some (byte_order xs ys) \<and>
    RedStrNCmp (Some s) (Some t) n = byte_order (take (unat n) xs) (take (unat n) ys) \<and>
    (byte_order xs ys = 0 \<longleftrightarrow> xs = ys) \<and> byte_order ys xs = - byte_order xs ys"
proof (intro conjI)
  have nz: "0 \<notin> set xs" "0 \<notin> set ys" using assms by (simp_all add: str_is_def)
  show "RedStrCmp (Some s) (Some t) = Some (byte_order xs ys)"
    using byte_order_common [OF nz]
    by (simp add: RedStrCmp_def RedStrCmpUnchecked_def StrCmp_scan [OF assms] Let_def
        str_is_at [OF assms(1)] str_is_at [OF assms(2)] common_le)
  show "RedStrNCmp (Some s) (Some t) n = byte_order (take (unat n) xs) (take (unat n) ys)"
    using ncmp_loop_order [OF assms, of 0 "unat n"]
    by (simp add: RedStrNCmp_def RedStrNCmpUnchecked_def)
  show "byte_order xs ys = 0 \<longleftrightarrow> xs = ys" by (rule byte_order_refl_iff)
  show "byte_order ys xs = - byte_order xs ys" by (rule byte_order_antisym)
qed

theorem strcmp_is_byte_order_witness:
  "RedStrCmp (Some (\<lambda>i. if i = 0 then 97 else 0)) (Some (\<lambda>i. if i = 0 then 98 else 0)) = Some (-1)"
proof -
  have "str_is (\<lambda>i. if i = 0 then 97 else 0) [97]" "str_is (\<lambda>i. if i = 0 then 98 else 0) [98]"
    by (auto simp: str_is_def)
  from strcmp_is_byte_order [OF this] show ?thesis by simp
qed

text \<open>
  RedStrNCpy writes exactly \<open>ulLen\<close> bytes of the destination: the bytes of the
  string, cut at the length, and nulls after them when the string is shorter. The result
  is terminated within the length exactly when the string is shorter than the length.
\<close>

theorem strncpy_copies_and_pads:
  assumes "str_is s xs"
  shows "\<exists>d'. RedStrNCpy (Some d) (Some s) ulLen = Some d' \<and>
    (\<forall>j. d' j = (if j < ulLen then at_or_0 xs (unat j) else d j)) \<and>
    ((\<exists>j < ulLen. d' j = 0) \<longleftrightarrow> length xs < unat ulLen)"
proof (intro exI conjI)
  let ?d = "RedStrNCpyUnchecked d s ulLen"
  show "RedStrNCpy (Some d) (Some s) ulLen = Some ?d" by (simp add: RedStrNCpy_def)
  show val: "\<forall>j. ?d j = (if j < ulLen then at_or_0 xs (unat j) else d j)"
    by (simp add: ncpy_pad_value_whole [OF assms] word_less_nat_alt)
  show "(\<exists>j < ulLen. ?d j = 0) \<longleftrightarrow> length xs < unat ulLen"
  proof
    assume "\<exists>j < ulLen. ?d j = 0"
    then obtain j where j: "j < ulLen" "?d j = 0" by blast
    with val have "at_or_0 xs (unat j) = 0" by simp
    then have "\<not> unat j < length xs"
      using str_is_nonzero [OF assms] by (auto simp: at_or_0_def)
    with j(1) show "length xs < unat ulLen" by (simp add: word_less_nat_alt)
  next
    assume l: "length xs < unat ulLen"
    have u: "unat (word_of_nat (length xs) :: u32) = length xs"
      using str_is_length [OF assms] by (simp add: unat_of_nat)
    with l val show "\<exists>j < ulLen. ?d j = 0"
      by (intro exI [of _ "word_of_nat (length xs)"]) (simp add: word_less_nat_alt at_or_0_def)
  qed
qed

theorem strncpy_copies_and_pads_witness:
  "\<exists>d'. RedStrNCpy (Some (\<lambda>_. 7)) (Some (\<lambda>i. if i = 0 then 97 else 0)) 3 = Some d' \<and>
     d' 0 = 97 \<and> d' 1 = 0 \<and> d' 2 = 0 \<and> d' 3 = 7"
proof -
  have "str_is (\<lambda>i. if i = 0 then 97 else 0) [97]" by (auto simp: str_is_def)
  from strncpy_copies_and_pads [OF this, of "\<lambda>_. 7" 3] show ?thesis
    by (auto simp: at_or_0_def)
qed

text \<open>
  RedNameLen finds the first path separator or terminator: it is the length of the
  leading name of a path, and it does not look beyond that byte.
\<close>

theorem namelen_first_component:
  assumes "\<forall>k < n. s (word_of_nat k) \<noteq> 0 \<and> s (word_of_nat k) \<noteq> sep"
    and "s (word_of_nat n) = 0 \<or> s (word_of_nat n) = sep"
  shows "RedNameLen sep (Some s) = Some (word_of_nat n)"
  unfolding RedNameLen_def using assms by (simp add: scan_while_stop)

theorem namelen_first_component_witness:
  "RedNameLen 47 (Some (\<lambda>i. if i = 2 then 47 else 97)) = Some 2"
proof -
  have k: "k = 0 \<or> k = 1" if "k < 2" for k :: nat using that by linarith
  have "RedNameLen 47 (Some (\<lambda>i. if i = 2 then 47 else 97)) = Some (word_of_nat 2)"
    by (rule namelen_first_component) (auto dest!: k)
  then show ?thesis by simp
qed

end
