(* ===== verification/Red_Crc.thy ===== *)
theory Red_Crc
  imports Red_CrcTable
begin

text \<open>
  The CRC-32 of \<^verbatim>\<open>util/crc.c\<close>: the bitwise, the Sarwate and the slicing-by-eight variants
  that \<^verbatim>\<open>REDCONF_CRC_ALGORITHM\<close> selects, with their tables as they stand in the source, and
  the CRC of a metadata node. A buffer is \<open>None\<close> for a null pointer, otherwise the bytes it
  points to; the slicing variant also depends on its address. The algorithms are compared
  with one register update per byte, and the detection of short bursts is derived from
  the linearity and injectivity of that update.
\<close>

section \<open>The bitwise algorithm\<close>

fun crc_bitwise_loop :: "bytes \<Rightarrow> nat \<Rightarrow> nat \<Rightarrow> u32 \<Rightarrow> u32" where
  "crc_bitwise_loop pbBuffer ulIdx 0 ulCrc32 = ulCrc32"
| "crc_bitwise_loop pbBuffer ulIdx (Suc n) ulCrc32 =
     crc_bitwise_loop pbBuffer (Suc ulIdx) n (crc_bit_loop 8 (ulCrc32 XOR ucast (pbBuffer ! ulIdx)))"

definition RedCrc32Update_bitwise :: "u32 \<Rightarrow> bytes option \<Rightarrow> u32 \<Rightarrow> u32" where
  "RedCrc32Update_bitwise ulInitCrc32 pBuffer ulLength =
     (case pBuffer of
        None \<Rightarrow> SUSPICIOUS_CRC_VALUE
      | Some pbBuffer \<Rightarrow> NOT (crc_bitwise_loop pbBuffer 0 (unat ulLength) (NOT ulInitCrc32)))"

section \<open>The Sarwate algorithm\<close>

fun crc_sarwate_loop :: "bytes \<Rightarrow> nat \<Rightarrow> nat \<Rightarrow> u32 \<Rightarrow> u32" where
  "crc_sarwate_loop pbBuffer ulIdx 0 ulCrc32 = ulCrc32"
| "crc_sarwate_loop pbBuffer ulIdx (Suc n) ulCrc32 =
     crc_sarwate_loop pbBuffer (Suc ulIdx) n
       ((drop_bit 8 ulCrc32) XOR
        aulCrc32Table_sarwate ! unat ((ulCrc32 XOR ucast (pbBuffer ! ulIdx)) AND 0xFF))"

definition RedCrc32Update_sarwate :: "u32 \<Rightarrow> bytes option \<Rightarrow> u32 \<Rightarrow> u32" where
  "RedCrc32Update_sarwate ulInitCrc32 pBuffer ulLength =
     (case pBuffer of
        None \<Rightarrow> SUSPICIOUS_CRC_VALUE
      | Some pbBuffer \<Rightarrow> NOT (crc_sarwate_loop pbBuffer 0 (unat ulLength) (NOT ulInitCrc32)))"

section \<open>The slicing-by-eight algorithm\<close>

definition crc_slice_byte :: "u32 \<Rightarrow> u8 \<Rightarrow> u32" where
  "crc_slice_byte ulCrc32 b =
     (drop_bit 8 ulCrc32) XOR
     aulCrc32Table_slice8 ! unat (push_bit 3 ((ulCrc32 XOR ucast b) AND 0xFF))"

text \<open>
  The loop over the unaligned start: it stops at the length or at the first address that
  is a multiple of the alignment, and returns the index reached.
\<close>

fun crc_slice_head :: "nat \<Rightarrow> nat \<Rightarrow> bytes \<Rightarrow> nat \<Rightarrow> nat \<Rightarrow> u32 \<Rightarrow> nat \<times> u32" where
  "crc_slice_head align addr pbBuffer ulIdx 0 ulCrc32 = (ulIdx, ulCrc32)"
| "crc_slice_head align addr pbBuffer ulIdx (Suc n) ulCrc32 =
     (if (addr + ulIdx) mod align \<noteq> 0
      then crc_slice_head align addr pbBuffer (Suc ulIdx) n (crc_slice_byte ulCrc32 (pbBuffer ! ulIdx))
      else (ulIdx, ulCrc32))"

text \<open>
  The four bytes at an index as the 32-bit number the code loads from there: by a pointer
  cast on a little-endian target, by this expression on a big-endian one.
\<close>

definition crc_load32 :: "bytes \<Rightarrow> nat \<Rightarrow> u32" where
  "crc_load32 pbBuffer ulIdx =
     ucast (pbBuffer ! ulIdx) OR (push_bit 8 (ucast (pbBuffer ! (ulIdx + 1)))) OR
     (push_bit 16 (ucast (pbBuffer ! (ulIdx + 2)))) OR (push_bit 24 (ucast (pbBuffer ! (ulIdx + 3))))"

fun crc_slice_body :: "bytes \<Rightarrow> nat \<Rightarrow> nat \<Rightarrow> u32 \<Rightarrow> u32" where
  "crc_slice_body pbBuffer ulIdx 0 ulCrc32 = ulCrc32"
| "crc_slice_body pbBuffer ulIdx (Suc n) ulCrc32 =
     (let c = ulCrc32 XOR crc_load32 pbBuffer ulIdx;
          pulXor = (\<lambda>col (i :: u32). aulCrc32Table_slice8 ! (col + unat (push_bit 3 i)));
          data = (\<lambda>k. ucast (pbBuffer ! (ulIdx + k)) :: u32)
      in crc_slice_body pbBuffer (ulIdx + 8) n
        (pulXor 4 ((drop_bit 24 c) AND 0xFF) XOR
         pulXor 5 ((drop_bit 16 c) AND 0xFF) XOR
         pulXor 6 ((drop_bit 8 c) AND 0xFF) XOR
         pulXor 7 (c AND 0xFF) XOR
         pulXor 0 (data 7) XOR pulXor 1 (data 6) XOR pulXor 2 (data 5) XOR pulXor 3 (data 4)))"

fun crc_slice_tail :: "bytes \<Rightarrow> nat \<Rightarrow> nat \<Rightarrow> u32 \<Rightarrow> u32" where
  "crc_slice_tail pbBuffer ulIdx 0 ulCrc32 = ulCrc32"
| "crc_slice_tail pbBuffer ulIdx (Suc n) ulCrc32 =
     crc_slice_tail pbBuffer (Suc ulIdx) n (crc_slice_byte ulCrc32 (pbBuffer ! ulIdx))"

definition RedCrc32Update_slice8 :: "nat \<Rightarrow> nat \<Rightarrow> u32 \<Rightarrow> bytes option \<Rightarrow> u32 \<Rightarrow> u32" where
  "RedCrc32Update_slice8 align addr ulInitCrc32 pBuffer ulLength =
     (case pBuffer of
        None \<Rightarrow> SUSPICIOUS_CRC_VALUE
      | Some pbBuffer \<Rightarrow>
          let len = unat ulLength;
              (idx, crc) = crc_slice_head align addr pbBuffer 0 len (NOT ulInitCrc32);
              slices = (len - idx) div 8;
              crc = crc_slice_body pbBuffer idx slices crc;
              idx = slices * 8 + idx
          in NOT (crc_slice_tail pbBuffer idx (len - idx) crc))"

section \<open>The selected algorithm and the node CRC\<close>

datatype crc_algorithm = CRC_BITWISE | CRC_SARWATE | CRC_SLICEBY8

fun RedCrc32Update :: "crc_algorithm \<Rightarrow> nat \<Rightarrow> nat \<Rightarrow> u32 \<Rightarrow> bytes option \<Rightarrow> u32 \<Rightarrow> u32" where
  "RedCrc32Update CRC_BITWISE align addr ulInitCrc32 pBuffer ulLength =
     RedCrc32Update_bitwise ulInitCrc32 pBuffer ulLength"
| "RedCrc32Update CRC_SARWATE align addr ulInitCrc32 pBuffer ulLength =
     RedCrc32Update_sarwate ulInitCrc32 pBuffer ulLength"
| "RedCrc32Update CRC_SLICEBY8 align addr ulInitCrc32 pBuffer ulLength =
     RedCrc32Update_slice8 align addr ulInitCrc32 pBuffer ulLength"

definition RedCrcNode :: "crc_algorithm \<Rightarrow> nat \<Rightarrow> nat \<Rightarrow> u32 \<Rightarrow> bytes option \<Rightarrow> u32" where
  "RedCrcNode alg align addr REDCONF_BLOCK_SIZE pBuffer =
     (case pBuffer of
        None \<Rightarrow> SUSPICIOUS_CRC_VALUE
      | Some pbBuffer \<Rightarrow>
          RedCrc32Update alg align (addr + 8) 0 (Some (drop 8 pbBuffer)) (REDCONF_BLOCK_SIZE - 8))"

section \<open>One register update per byte\<close>

definition crc_byte :: "u32 \<Rightarrow> u8 \<Rightarrow> u32" where
  "crc_byte r b = crc_shift (r XOR ucast b)"

definition crc_reference :: "u32 \<Rightarrow> bytes \<Rightarrow> u32" where
  "crc_reference init bs = NOT (foldl crc_byte (NOT init) bs)"

text \<open>The loops consume the bytes from an index on, one update per byte.\<close>

lemma slice_Suc: "i < length xs \<Longrightarrow> slice i (Suc n) xs = xs ! i # slice (Suc i) n xs"
  by (simp add: slice_def Cons_nth_drop_Suc [symmetric])

lemma slice_add: "slice i (m + n) xs = slice i m xs @ slice (i + m) n xs"
  by (simp add: slice_def take_add add.commute)

lemma crc_bitwise_loop_fold:
  "i + n \<le> length pb \<Longrightarrow> crc_bitwise_loop pb i n r = foldl crc_byte r (slice i n pb)"
proof (induction n arbitrary: i r)
  case 0
  show ?case by (simp add: slice_def)
next
  case (Suc n)
  then show ?case by (simp add: slice_Suc crc_byte_def crc_shift_def del: crc_bit_loop.simps)
qed

lemma drop_bit_8_u8 [simp]: "drop_bit 8 (ucast (b :: u8) :: u32) = 0"
  by (rule bit_eqI) (auto simp: bit_drop_bit_eq bit_unsigned_iff dest: bit_imp_le_length)

lemma and_0xFF: "(x :: u32) AND 0xFF = take_bit 8 x"
  by (simp add: take_bit_eq_mask mask_eq_exp_minus_1)

lemma unat_and_mask8: "unat ((x :: u32) AND 0xFF) < 256"
proof -
  have "unat (x AND 0xFF) = take_bit 8 (unat x)" by (simp only: and_0xFF unsigned_take_bit_eq)
  then show ?thesis by (simp add: take_bit_eq_mod)
qed

lemma crc_byte_table:
  "crc_byte r b = drop_bit 8 r XOR aulCrc32Table_sarwate ! unat ((r XOR ucast b) AND 0xFF)"
proof -
  have "aulCrc32Table_sarwate ! unat ((r XOR ucast b) AND 0xFF) = crc_shift ((r XOR ucast b) AND 0xFF)"
    using unat_and_mask8 [of "r XOR ucast b"] by (simp add: sarwate_table)
  then show ?thesis
    using crc_shift_split [of "r XOR ucast b"] by (simp add: crc_byte_def xor_ac)
qed

lemma crc_sarwate_loop_fold:
  "i + n \<le> length pb \<Longrightarrow> crc_sarwate_loop pb i n r = foldl crc_byte r (slice i n pb)"
proof (induction n arbitrary: i r)
  case 0
  show ?case by (simp add: slice_def)
next
  case (Suc n)
  then show ?case by (simp add: slice_Suc crc_byte_table)
qed

section \<open>Slicing\<close>

lemma nth_concat_rows:
  "(\<And>r. r \<in> set rows \<Longrightarrow> length r = n) \<Longrightarrow> i < length rows \<Longrightarrow> j < n \<Longrightarrow>
   concat rows ! (j + i * n) = rows ! i ! j"
proof (induction rows arbitrary: i)
  case Nil
  then show ?case by simp
next
  case (Cons r rows)
  then show ?case by (cases i) (auto simp: nth_append)
qed

lemma unat_push_3:
  assumes "unat i < 256"
  shows "unat (push_bit 3 i :: u32) = unat i * 8"
proof -
  have "unat (push_bit 3 i) = (unat i * 8) mod 2 ^ 32"
    by (simp add: push_bit_eq_mult unat_word_ariths)
  with assms show ?thesis by simp
qed

lemma slice8_nth:
  assumes "unat i < 256" and "j < 8"
  shows "aulCrc32Table_slice8 ! (j + unat (push_bit 3 i)) = crc_shift ((crc_shift ^^ j) i)"
proof -
  have "aulCrc32Table_slice8 ! (j + unat i * 8) =
      map (\<lambda>i. crc_row (word_of_nat i)) [0..<256] ! unat i ! j"
    unfolding slice8_table using assms by (intro nth_concat_rows) (auto simp: crc_row_def)
  also have "\<dots> = crc_shift ((crc_shift ^^ j) i)"
    using assms by (simp add: crc_row_def)
  finally show ?thesis by (simp add: unat_push_3 [OF assms(1)])
qed

lemma crc_slice_byte_eq: "crc_slice_byte r b = crc_byte r b"
proof -
  let ?i = "(r XOR ucast b) AND 0xFF"
  have "aulCrc32Table_slice8 ! unat (push_bit 3 ?i) = crc_shift ?i"
    using slice8_nth [of ?i 0] unat_and_mask8 [of "r XOR ucast b"] by simp
  then show ?thesis
    using crc_shift_split [of "r XOR ucast b"]
    by (simp add: crc_slice_byte_def crc_byte_def xor_ac)
qed

lemma crc_slice_head_fold:
  "i + n \<le> length pb \<Longrightarrow> crc_slice_head align addr pb i n r = (j, r') \<Longrightarrow>
   i \<le> j \<and> j \<le> i + n \<and> r' = foldl crc_byte r (slice i (j - i) pb)"
proof (induction n arbitrary: i r)
  case 0
  then show ?case by (simp add: slice_def)
next
  case (Suc n)
  show ?case
  proof (cases "(addr + i) mod align = 0")
    case True
    with Suc.prems show ?thesis by (simp add: slice_def)
  next
    case False
    with Suc.prems have "Suc i \<le> j \<and> j \<le> Suc i + n \<and>
        r' = foldl crc_byte (crc_byte r (pb ! i)) (slice (Suc i) (j - Suc i) pb)"
      by (intro Suc.IH) (simp_all add: crc_slice_byte_eq)
    moreover from this have "slice i (j - i) pb = pb ! i # slice (Suc i) (j - Suc i) pb"
      using Suc.prems by (simp add: slice_Suc [symmetric] Suc_diff_Suc)
    ultimately show ?thesis by simp
  qed
qed

lemma crc_slice_tail_fold:
  "i + n \<le> length pb \<Longrightarrow> crc_slice_tail pb i n r = foldl crc_byte r (slice i n pb)"
proof (induction n arbitrary: i r)
  case 0
  show ?case by (simp add: slice_def)
next
  case (Suc n)
  then show ?case by (simp add: slice_Suc crc_slice_byte_eq)
qed

text \<open>The eight bytes of one slice.\<close>

definition le32 :: "u8 \<Rightarrow> u8 \<Rightarrow> u8 \<Rightarrow> u8 \<Rightarrow> u32" where
  "le32 a b c d = ucast a OR (push_bit 8 (ucast b)) OR (push_bit 16 (ucast c)) OR (push_bit 24 (ucast d))"

lemma bit_le32:
  "bit (le32 a b c d) n \<longleftrightarrow>
     (if n < 8 then bit a n else if n < 16 then bit b (n - 8)
      else if n < 24 then bit c (n - 16) else n < 32 \<and> bit d (n - 24))"
  by (auto simp: le32_def bit_or_iff bit_push_bit_iff bit_unsigned_iff possible_bit_word
      dest: bit_imp_le_length)

lemma bit_u8_less: "bit (b :: u8) n \<Longrightarrow> n < 8"
  using bit_imp_le_length [of b n] by simp

lemma le32_bytes:
  "le32 a b c d AND 0xFF = ucast a"
  "(drop_bit 8 (le32 a b c d)) AND 0xFF = ucast b"
  "(drop_bit 16 (le32 a b c d)) AND 0xFF = ucast c"
  "(drop_bit 24 (le32 a b c d)) AND 0xFF = ucast d"
  unfolding and_0xFF
  by (auto intro!: bit_eqI simp: bit_take_bit_iff bit_drop_bit_eq bit_le32 bit_unsigned_iff
      possible_bit_word dest: bit_u8_less)

lemma le32_inject: "le32 a b c d = le32 a' b' c' d' \<Longrightarrow> a = a' \<and> b = b' \<and> c = c' \<and> d = d'"
proof -
  assume eq: "le32 a b c d = le32 a' b' c' d'"
  from eq show ?thesis
    using le32_bytes [of a b c d] le32_bytes [of a' b' c' d'] by (metis ucast_u8_inject)
qed

lemma crc_shift4_split:
  "crc_shift (crc_shift (crc_shift (crc_shift x))) =
     crc_shift (crc_shift (crc_shift (crc_shift (x AND 0xFF)))) XOR
     crc_shift (crc_shift (crc_shift ((drop_bit 8 x) AND 0xFF))) XOR
     crc_shift (crc_shift ((drop_bit 16 x) AND 0xFF)) XOR
     crc_shift ((drop_bit 24 x) AND 0xFF)"
proof -
  have z: "drop_bit 32 x = 0"
    by (rule bit_eqI) (auto simp: bit_drop_bit_eq dest: bit_imp_le_length)
  have "crc_shift x = crc_shift (x AND 0xFF) XOR drop_bit 8 x"
    by (rule crc_shift_split)
  moreover have "crc_shift (drop_bit 8 x) = crc_shift ((drop_bit 8 x) AND 0xFF) XOR drop_bit 16 x"
    using crc_shift_split [of "drop_bit 8 x"] by simp
  moreover have "crc_shift (drop_bit 16 x) = crc_shift ((drop_bit 16 x) AND 0xFF) XOR drop_bit 24 x"
    using crc_shift_split [of "drop_bit 16 x"] by simp
  moreover have "crc_shift (drop_bit 24 x) = crc_shift ((drop_bit 24 x) AND 0xFF)"
    using crc_shift_split [of "drop_bit 24 x"] z by simp
  ultimately show ?thesis
    by (simp only: crc_shift_xor xor_ac)
qed

lemma crc_four_bytes:
  "foldl crc_byte r [a, b, c, d] = crc_shift (crc_shift (crc_shift (crc_shift (r XOR le32 a b c d))))"
proof -
  have "crc_shift (crc_shift (crc_shift (crc_shift (le32 a b c d)))) =
      crc_shift (crc_shift (crc_shift (crc_shift (ucast a)))) XOR
      crc_shift (crc_shift (crc_shift (ucast b))) XOR
      crc_shift (crc_shift (ucast c)) XOR crc_shift (ucast d)"
    using crc_shift4_split [of "le32 a b c d"] by (simp add: le32_bytes)
  then show ?thesis by (simp add: crc_byte_def crc_shift_xor xor_ac)
qed

lemma crc_slice_step:
  assumes "i + 8 \<le> length pb"
  shows "crc_slice_body pb i (Suc n) r = crc_slice_body pb (i + 8) n (foldl crc_byte r (slice i 8 pb))"
proof -
  define c where "c = r XOR crc_load32 pb i"
  have load: "crc_load32 pb i = le32 (pb ! i) (pb ! (i + 1)) (pb ! (i + 2)) (pb ! (i + 3))"
    by (simp add: crc_load32_def le32_def)
  have sl: "slice i 8 pb = [pb ! i, pb ! (i + 1), pb ! (i + 2), pb ! (i + 3)] @
      [pb ! (i + 4), pb ! (i + 5), pb ! (i + 6), pb ! (i + 7)]"
    using assms by (simp add: slice_Suc numeral_eq_Suc) (simp add: slice_def)
  let ?S = crc_shift
  have T: "aulCrc32Table_slice8 ! (k + unat (push_bit 3 x)) = ?S ((?S ^^ k) x)"
    if "k < 8" "unat x < 256" for k x
    using that(2,1) by (rule slice8_nth)
  have F: "(?S ^^ 2) x = ?S (?S x)" "(?S ^^ 3) x = ?S (?S (?S x))" "(?S ^^ 4) x = ?S (?S (?S (?S x)))"
    "(?S ^^ 0) x = x" "(?S ^^ 1) x = ?S x" "(?S ^^ 5) x = ?S (?S (?S (?S (?S x))))" "(?S ^^ 6) x = ?S (?S (?S (?S (?S (?S x)))))"
    "(?S ^^ 7) x = ?S (?S (?S (?S (?S (?S (?S x))))))" for x
    by (simp_all add: numeral_eq_Suc)
  have k: "0 < (8 :: nat)" "1 < (8 :: nat)" "2 < (8 :: nat)" "3 < (8 :: nat)" "4 < (8 :: nat)"
    "5 < (8 :: nat)" "6 < (8 :: nat)" "7 < (8 :: nat)" by simp_all
  have u8: "unat (ucast (b :: u8) :: u32) < 256" for b by simp
  have fold: "foldl crc_byte r (slice i 8 pb) =
      ?S (?S (?S (?S (?S (?S (?S (?S c))))))) XOR ?S (?S (?S (?S
        (le32 (pb ! (i + 4)) (pb ! (i + 5)) (pb ! (i + 6)) (pb ! (i + 7))))))"
    unfolding sl foldl_append crc_four_bytes c_def load by (simp only: crc_shift_xor)
  have "crc_slice_body pb i (Suc n) r = crc_slice_body pb (i + 8) n
     (?S (?S (?S (?S (?S ((drop_bit 24 c) AND 0xFF))))) XOR
      ?S (?S (?S (?S (?S (?S ((drop_bit 16 c) AND 0xFF)))))) XOR
      ?S (?S (?S (?S (?S (?S (?S ((drop_bit 8 c) AND 0xFF))))))) XOR
      ?S (?S (?S (?S (?S (?S (?S (?S (c AND 0xFF)))))))) XOR
      ?S (ucast (pb ! (i + 7))) XOR ?S (?S (ucast (pb ! (i + 6)))) XOR
      ?S (?S (?S (ucast (pb ! (i + 5))))) XOR ?S (?S (?S (?S (ucast (pb ! (i + 4)))))))"
    by (simp only: crc_slice_body.simps Let_def c_def [symmetric] k [THEN T] F unat_and_mask8 u8
        )
  also have "\<dots> = crc_slice_body pb (i + 8) n (foldl crc_byte r (slice i 8 pb))"
    unfolding fold
    using crc_shift4_split [of c]
      crc_shift4_split [of "le32 (pb ! (i + 4)) (pb ! (i + 5)) (pb ! (i + 6)) (pb ! (i + 7))"]
    by (simp only: crc_shift_xor le32_bytes xor_ac)
  finally show ?thesis .
qed

lemma crc_slice_body_fold:
  "i + n * 8 \<le> length pb \<Longrightarrow> crc_slice_body pb i n r = foldl crc_byte r (slice i (n * 8) pb)"
proof (induction n arbitrary: i r)
  case 0
  show ?case by (simp add: slice_def)
next
  case (Suc n)
  have "crc_slice_body pb i (Suc n) r = crc_slice_body pb (i + 8) n (foldl crc_byte r (slice i 8 pb))"
    using Suc.prems by (intro crc_slice_step) simp
  also have "\<dots> = foldl crc_byte (foldl crc_byte r (slice i 8 pb)) (slice (i + 8) (n * 8) pb)"
    using Suc.prems by (intro Suc.IH) simp
  also have "\<dots> = foldl crc_byte r (slice i (8 + n * 8) pb)"
    by (simp only: slice_add foldl_append)
  finally show ?case by simp
qed

lemma RedCrc32Update_slice8_reference:
  assumes "unat ulLength \<le> length pb"
  shows "RedCrc32Update_slice8 align addr init (Some pb) ulLength =
    crc_reference init (take (unat ulLength) pb)"
proof -
  let ?len = "unat ulLength" and ?r = "NOT init"
  obtain j r' where hd: "crc_slice_head align addr pb 0 ?len ?r = (j, r')"
    by (cases "crc_slice_head align addr pb 0 ?len ?r")
  from crc_slice_head_fold [OF _ hd] assms
  have j: "j \<le> ?len" and r': "r' = foldl crc_byte ?r (slice 0 j pb)" by auto
  let ?n = "(?len - j) div 8"
  let ?k = "?n * 8 + j"
  have n8: "?n * 8 \<le> ?len - j" by (rule div_times_less_eq_dividend)
  with j have k: "?k \<le> ?len" by simp
  have "crc_slice_body pb j ?n r' = foldl crc_byte r' (slice j (?n * 8) pb)"
    using k assms by (intro crc_slice_body_fold) simp
  also have "\<dots> = foldl crc_byte ?r (slice 0 (j + ?n * 8) pb)"
    unfolding r' by (simp only: slice_add foldl_append add_0)
  finally have body: "crc_slice_body pb j ?n r' = foldl crc_byte ?r (slice 0 (j + ?n * 8) pb)" .
  have "crc_slice_tail pb ?k (?len - ?k) (crc_slice_body pb j ?n r') =
      foldl crc_byte (crc_slice_body pb j ?n r') (slice ?k (?len - ?k) pb)"
    using k assms by (intro crc_slice_tail_fold) simp
  also have "\<dots> = foldl crc_byte ?r (slice 0 (?k + (?len - ?k)) pb)"
    unfolding body by (simp only: slice_add foldl_append add_0 add.commute [of j])
  also have "\<dots> = foldl crc_byte ?r (take ?len pb)"
    using k by (simp add: slice_def)
  finally show ?thesis
    by (simp add: RedCrc32Update_slice8_def crc_reference_def hd Let_def)
qed

lemma RedCrc32Update_reference:
  assumes "unat ulLength \<le> length pb"
  shows "RedCrc32Update alg align addr init (Some pb) ulLength =
    crc_reference init (take (unat ulLength) pb)"
proof (cases alg)
  case CRC_BITWISE
  with assms show ?thesis
    by (simp add: RedCrc32Update_bitwise_def crc_reference_def crc_bitwise_loop_fold slice_def)
next
  case CRC_SARWATE
  with assms show ?thesis
    by (simp add: RedCrc32Update_sarwate_def crc_reference_def crc_sarwate_loop_fold slice_def)
next
  case CRC_SLICEBY8
  with assms show ?thesis by (simp add: RedCrc32Update_slice8_reference)
qed

section \<open>Detection of bursts\<close>

lemma foldl_crc_inj_reg: "foldl crc_byte a bs = foldl crc_byte b bs \<longleftrightarrow> a = b"
proof (induction bs arbitrary: a b)
  case Nil
  show ?case by simp
next
  case (Cons x bs)
  then show ?case by (simp add: crc_byte_def crc_shift_inj) (metis xor_left_self xor.commute)
qed

lemma foldl_crc_inj4:
  assumes "length xs = 4" and "length ys = 4" and "foldl crc_byte r xs = foldl crc_byte r ys"
  shows "xs = ys"
proof -
  obtain a b c d where xs: "xs = [a, b, c, d]"
    using assms(1) by (auto simp: numeral_eq_Suc length_Suc_conv)
  obtain a' b' c' d' where ys: "ys = [a', b', c', d']"
    using assms(2) by (auto simp: numeral_eq_Suc length_Suc_conv)
  from assms(3) have "r XOR le32 a b c d = r XOR le32 a' b' c' d'"
    unfolding xs ys crc_four_bytes by (simp only: crc_shift_inj)
  then have "le32 a b c d = le32 a' b' c' d'" by (metis xor_left_self)
  then show ?thesis using le32_inject xs ys by blast
qed

lemma foldl_crc_inj_short:
  assumes "length xs = length ys" and "length xs \<le> 4" and "foldl crc_byte r xs = foldl crc_byte r ys"
  shows "xs = ys"
proof -
  let ?z = "replicate (4 - length xs) 0 :: u8 list"
  have "foldl crc_byte r (xs @ ?z) = foldl crc_byte r (ys @ ?z)"
    using assms(3) by simp
  then have "xs @ ?z = ys @ ?z"
    using assms(1,2) by (intro foldl_crc_inj4) simp_all
  then show ?thesis by simp
qed

lemma foldl_crc_burst:
  assumes len: "length xs = length ys"
    and out: "\<And>i. i < length xs \<Longrightarrow> i < k \<or> k + 4 \<le> i \<Longrightarrow> xs ! i = ys ! i"
    and eq: "foldl crc_byte r xs = foldl crc_byte r ys"
  shows "xs = ys"
proof -
  have pre: "take k xs = take k ys"
    using len out by (intro nth_equalityI) auto
  have post: "drop (k + 4) xs = drop (k + 4) ys"
    using len out by (intro nth_equalityI) auto
  have split: "zs = take k zs @ take 4 (drop k zs) @ drop (k + 4) zs" for zs :: bytes
    by (metis append_take_drop_id drop_drop add.commute)
  have "foldl crc_byte r (take k xs @ take 4 (drop k xs) @ drop (k + 4) xs) =
      foldl crc_byte r (take k xs @ take 4 (drop k ys) @ drop (k + 4) xs)"
    using eq split [of xs] split [of ys] pre post by metis
  then have "foldl crc_byte (foldl crc_byte r (take k xs)) (take 4 (drop k xs)) =
      foldl crc_byte (foldl crc_byte r (take k xs)) (take 4 (drop k ys))"
    by (simp add: foldl_crc_inj_reg)
  then have "take 4 (drop k xs) = take 4 (drop k ys)"
    using len by (intro foldl_crc_inj_short) auto
  with split [of xs] split [of ys] pre post show ?thesis by metis
qed

lemma node_crc_burst:
  assumes "length xs = unat bsize" and "length ys = unat bsize" and "8 \<le> bsize"
    and "\<forall>i. i < unat bsize \<longrightarrow> i < k \<or> k + 4 \<le> i \<longrightarrow> xs ! i = ys ! i"
    and "RedCrcNode alg align addr bsize (Some xs) = RedCrcNode alg align addr bsize (Some ys)"
  shows "drop 8 xs = drop 8 ys"
proof -
  have b: "unat (bsize - 8) = unat bsize - 8"
    using assms(3) by (simp add: unat_sub)
  have "RedCrcNode alg align addr bsize (Some zs) = crc_reference 0 (drop 8 zs)"
    if "length zs = unat bsize" for zs
    using that by (simp add: RedCrcNode_def RedCrc32Update_reference b)
  with assms have eq: "foldl crc_byte (NOT 0) (drop 8 xs) = foldl crc_byte (NOT 0) (drop 8 ys)"
    by (simp add: crc_reference_def)
  define k' where "k' = (if k < 8 then 0 else k - 8)"
  show ?thesis
  proof (rule foldl_crc_burst [OF _ _ eq])
    show "length (drop 8 xs) = length (drop 8 ys)" using assms by simp
    show "drop 8 xs ! i = drop 8 ys ! i" if "i < length (drop 8 xs)" "i < k' \<or> k' + 4 \<le> i" for i
      using that assms(1,2,4) by (auto simp: k'_def split: if_splits)
  qed
qed

section \<open>Properties\<close>

text \<open>
  C40. The three CRC algorithms compute the same function, for every initial value, every
  length inside the buffer and, for slicing-by-eight, every address and alignment: the
  complement of one register update per byte.
\<close>

theorem crc_algorithms_agree:
  assumes "unat ulLength \<le> length pb"
  shows "RedCrc32Update alg align addr init (Some pb) ulLength =
      RedCrc32Update CRC_BITWISE align' addr' init (Some pb) ulLength \<and>
    RedCrc32Update alg align addr init (Some pb) ulLength =
      NOT (foldl crc_byte (NOT init) (take (unat ulLength) pb))"
  using RedCrc32Update_reference [OF assms] by (simp only: crc_reference_def)

theorem crc_algorithms_agree_witness:
  "RedCrc32Update CRC_SLICEBY8 8 3 0 (Some [49, 50, 51, 52, 53, 54, 55, 56, 57]) 9 =
   RedCrc32Update CRC_BITWISE 1 0 0 (Some [49, 50, 51, 52, 53, 54, 55, 56, 57]) 9"
  using crc_algorithms_agree [of 9 "[49, 50, 51, 52, 53, 54, 55, 56, 57]" CRC_SLICEBY8 8 3 0 1 0]
  by simp

text \<open>
  The CRC of two buffers one after the other is obtained by passing the CRC of the
  first as the initial value for the second, as the comment of the function says.
\<close>

theorem crc_chaining:
  assumes "length a < 2 ^ 32" and "length a + length b < 2 ^ 32"
  shows "RedCrc32Update alg align addr' (RedCrc32Update alg align addr init (Some a) (word_of_nat (length a)))
      (Some b) (word_of_nat (length b)) =
    RedCrc32Update alg align addr'' init (Some (a @ b)) (word_of_nat (length a + length b))"
proof -
  have "unat (word_of_nat n :: u32) = n" if "n < 2 ^ 32" for n
    using that by (simp add: unat_of_nat)
  with assms show ?thesis
    by (simp add: RedCrc32Update_reference crc_reference_def del: of_nat_add)
qed

theorem crc_chaining_witness:
  "RedCrc32Update CRC_SARWATE 4 0 (RedCrc32Update CRC_SARWATE 4 0 0 (Some [1, 2]) 2) (Some [3]) 1 =
   RedCrc32Update CRC_SARWATE 4 0 0 (Some [1, 2, 3]) 3"
  using crc_chaining [of "[1, 2]" "[3]" CRC_SARWATE 4 0 0 0 0] by simp

text \<open>
  The node CRC detects every corruption confined to four consecutive bytes: two blocks
  that agree in all other bytes and have the same node CRC are equal, apart from the
  eight header bytes the CRC skips.
\<close>

theorem node_crc_detects_bursts:
  assumes "length xs = unat bsize" and "length ys = unat bsize" and "8 \<le> bsize"
    and "\<forall>i. i < unat bsize \<longrightarrow> i < k \<or> k + 4 \<le> i \<longrightarrow> xs ! i = ys ! i"
    and "RedCrcNode alg align addr bsize (Some xs) = RedCrcNode alg align addr bsize (Some ys)"
  shows "drop 8 xs = drop 8 ys"
  using assms by (rule node_crc_burst)

theorem node_crc_detects_bursts_witness:
  "RedCrcNode CRC_BITWISE 4 0 16 (Some (replicate 16 0)) \<noteq>
   RedCrcNode CRC_BITWISE 4 0 16 (Some (replicate 9 0 @ [1, 2, 3, 4] @ replicate 3 0))"
proof
  let ?x = "replicate 16 0 :: bytes" and ?y = "replicate 9 0 @ [1, 2, 3, 4] @ replicate 3 0 :: bytes"
  assume eq: "RedCrcNode CRC_BITWISE 4 0 16 (Some ?x) = RedCrcNode CRC_BITWISE 4 0 16 (Some ?y)"
  have "drop 8 ?x = drop 8 ?y"
    by (rule node_crc_detects_bursts [where bsize = 16 and k = 9, OF _ _ _ _ eq])
      (auto simp: nth_append nth_Cons')
  then have "hd (drop 9 ?x) = hd (drop 9 ?y)" by (simp add: numeral_eq_Suc)
  then show False by simp
qed

end
