(* ===== verification/Red_Endian.thy ===== *)
theory Red_Endian
  imports Red_Prelude
begin

text \<open>
  The byte order reversals of \<^verbatim>\<open>util/endian.c\<close>, which the driver applies to the metadata
  fields on a target of the other byte order. They are characterised bit by bit.
\<close>

section \<open>The operations\<close>

definition RedRev64 :: "u64 \<Rightarrow> u64" where
  "RedRev64 ullToRev =
     (let r = ullToRev;
          r = (push_bit 32 (r AND 0x00000000FFFFFFFF)) OR (drop_bit 32 (r AND 0xFFFFFFFF00000000));
          r = (push_bit 16 (r AND 0x0000FFFF0000FFFF)) OR (drop_bit 16 (r AND 0xFFFF0000FFFF0000));
          r = (push_bit 8 (r AND 0x00FF00FF00FF00FF)) OR (drop_bit 8 (r AND 0xFF00FF00FF00FF00))
      in r)"

definition RedRev32 :: "u32 \<Rightarrow> u32" where
  "RedRev32 ulToRev =
     (push_bit 24 (ulToRev AND 0x000000FF)) OR (push_bit 8 (ulToRev AND 0x0000FF00)) OR
     (drop_bit 8 (ulToRev AND 0x00FF0000)) OR (drop_bit 24 (ulToRev AND 0xFF000000))"

definition RedRev16 :: "u16 \<Rightarrow> u16" where
  "RedRev16 uToRev = (drop_bit 8 (uToRev AND 0xFF00)) OR (push_bit 8 (uToRev AND 0x00FF))"

section \<open>Bits of the results\<close>

text \<open>The bit that a byte reversal of \<open>w\<close> bytes moves to position \<open>n\<close>.\<close>

definition rev_pos :: "nat \<Rightarrow> nat \<Rightarrow> nat" where
  "rev_pos w n = 8 * (w - 1 - n div 8) + n mod 8"

lemma rev_pos_rev_pos: "n < 8 * w \<Longrightarrow> rev_pos w (rev_pos w n) = n"
proof -
  assume "n < 8 * w"
  then have "n div 8 < w" by (simp add: less_mult_imp_div_less mult.commute)
  then show ?thesis by (simp add: rev_pos_def)
qed

lemma rev_pos_less: "0 < w \<Longrightarrow> rev_pos w n < 8 * w"
  unfolding rev_pos_def
  by (rule less_le_trans [of _ "8 * (w - 1 - n div 8) + 8"]) auto

lemma bits_RedRev16: "\<forall>n \<in> set [0..<16]. bit (RedRev16 x) n = bit x (rev_pos 2 n)"
  by (simp add: upt_rec numeral_2_eq_2 [symmetric] RedRev16_def rev_pos_def bit_simps)

lemma bits_RedRev32: "\<forall>n \<in> set [0..<32]. bit (RedRev32 x) n = bit x (rev_pos 4 n)"
  by (simp add: upt_rec numeral_2_eq_2 [symmetric] RedRev32_def rev_pos_def bit_simps)

lemma bits_RedRev64: "\<forall>n \<in> set [0..<64]. bit (RedRev64 x) n = bit x (rev_pos 8 n)"
  by (simp add: upt_rec numeral_2_eq_2 [symmetric] RedRev64_def rev_pos_def bit_simps Let_def)

lemma rev_word_involution:
  assumes "\<And>x n. n < 8 * w \<Longrightarrow> bit (f x) n = bit (x :: 'a::len word) (rev_pos w n)"
    and "LENGTH('a) = 8 * w"
  shows "f (f x) = x"
proof (rule bit_word_eqI)
  fix n
  assume "n < LENGTH('a)"
  with assms(2) have n: "n < 8 * w" by simp
  then have "rev_pos w n < 8 * w" by (intro rev_pos_less) simp
  with n show "bit (f (f x)) n = bit x n"
    by (simp add: assms(1) rev_pos_rev_pos)
qed

section \<open>Properties\<close>

text \<open>
  RedRev16, RedRev32 and RedRev64 reverse the order of the bytes and keep the bits
  inside each byte: bit \<open>n\<close> of the result is the bit of the argument at the same place of
  the mirrored byte. Each of them undoes itself.
\<close>

theorem rev_reverses_bytes:
  "(\<forall>n < 16. bit (RedRev16 a) n = bit a (8 * (1 - n div 8) + n mod 8)) \<and>
   (\<forall>n < 32. bit (RedRev32 b) n = bit b (8 * (3 - n div 8) + n mod 8)) \<and>
   (\<forall>n < 64. bit (RedRev64 c) n = bit c (8 * (7 - n div 8) + n mod 8)) \<and>
   RedRev16 (RedRev16 a) = a \<and> RedRev32 (RedRev32 b) = b \<and> RedRev64 (RedRev64 c) = c"
proof -
  have b16: "n < 8 * 2 \<Longrightarrow> bit (RedRev16 x) n = bit x (rev_pos 2 n)" for x n
    using bits_RedRev16 [of x] by simp
  have b32: "n < 8 * 4 \<Longrightarrow> bit (RedRev32 x) n = bit x (rev_pos 4 n)" for x n
    using bits_RedRev32 [of x] by simp
  have b64: "n < 8 * 8 \<Longrightarrow> bit (RedRev64 x) n = bit x (rev_pos 8 n)" for x n
    using bits_RedRev64 [of x] by simp
  show ?thesis
    using b16 b32 b64 rev_word_involution [OF b16, of a] rev_word_involution [OF b32, of b]
      rev_word_involution [OF b64, of c]
    by (simp add: rev_pos_def)
qed

theorem rev_reverses_bytes_witness:
  "RedRev32 0x11223344 = 0x44332211 \<and> bit (RedRev32 0x11223344) 31 = bit (0x11223344 :: u32) 7"
proof -
  have "RedRev32 0x11223344 = 0x44332211" by (simp add: RedRev32_def)
  with rev_reverses_bytes [of 0 "0x11223344" 0] show ?thesis by force
qed

end
