(* ===== verification/Red_Mode.thy ===== *)
theory Red_Mode
  imports Red_Prelude
begin

text \<open>
  File types and permissions: \<^verbatim>\<open>util/ftype.c\<close> and \<^verbatim>\<open>util/perm.c\<close>. The questions the
  permission check asks the operating system (the RedOs functions of
  \<^verbatim>\<open>osperm\<close>) are fields of a record; \<open>perm_override\<close> and \<open>unlink_override\<close> are the
  functions that replace the check when \<^verbatim>\<open>REDOSCONF_PERM_OVERRIDE\<close> is set.
\<close>

section \<open>File types\<close>

type_synonym FTYPE = u8

definition FTYPE_FILE :: FTYPE where "FTYPE_FILE = 0x01"
definition FTYPE_DIR :: FTYPE where "FTYPE_DIR = 0x02"
definition FTYPE_SYMLINK :: FTYPE where "FTYPE_SYMLINK = 0x04"

lemmas FTYPE_defs = FTYPE_FILE_def FTYPE_DIR_def FTYPE_SYMLINK_def

definition RED_S_IFREG :: u16 where "RED_S_IFREG = 0x8000"
definition RED_S_IFDIR :: u16 where "RED_S_IFDIR = 0x4000"
definition RED_S_IFLNK :: u16 where "RED_S_IFLNK = 0xA000"

text \<open>The mask depends on whether symbolic links are supported.\<close>

definition RED_S_IFMT :: "bool \<Rightarrow> u16" where
  "RED_S_IFMT symlink = RED_S_IFREG OR RED_S_IFDIR OR (if symlink then RED_S_IFLNK else 0)"

lemmas RED_S_IF_defs = RED_S_IFREG_def RED_S_IFDIR_def RED_S_IFLNK_def RED_S_IFMT_def

definition RED_S_ISDIR :: "bool \<Rightarrow> u16 \<Rightarrow> bool" where
  "RED_S_ISDIR symlink m \<longleftrightarrow> m AND RED_S_IFMT symlink = RED_S_IFDIR"

definition RED_S_ISREG :: "bool \<Rightarrow> u16 \<Rightarrow> bool" where
  "RED_S_ISREG symlink m \<longleftrightarrow> m AND RED_S_IFMT symlink = RED_S_IFREG"

definition RED_S_ISLNK :: "bool \<Rightarrow> u16 \<Rightarrow> bool" where
  "RED_S_ISLNK symlink m \<longleftrightarrow> m AND RED_S_IFMT symlink = RED_S_IFLNK"

definition RedFileTypeCheck :: "bool \<Rightarrow> FTYPE \<Rightarrow> FTYPE \<Rightarrow> rederr + unit" where
  "RedFileTypeCheck symlink actualType expectedType =
     (if actualType AND expectedType = 0 then
        if symlink \<and> (actualType = FTYPE_SYMLINK \<or> expectedType = FTYPE_SYMLINK) then Inl RED_ENOLINK
        else if actualType = FTYPE_DIR then Inl RED_EISDIR
        else Inl RED_ENOTDIR
      else Inr ())"

definition RedModeTypeCheck :: "bool \<Rightarrow> u16 \<Rightarrow> FTYPE \<Rightarrow> rederr + unit" where
  "RedModeTypeCheck symlink uMode expectedType =
     (let modeType =
        (if RED_S_ISDIR symlink uMode then FTYPE_DIR
         else if symlink \<and> RED_S_ISLNK symlink uMode then FTYPE_SYMLINK
         else if RED_S_ISREG symlink uMode then FTYPE_FILE
         else 0)
      in RedFileTypeCheck symlink modeType expectedType)"

section \<open>Permissions\<close>

definition RED_X_OK :: u8 where "RED_X_OK = 0x01"
definition RED_W_OK :: u8 where "RED_W_OK = 0x02"
definition RED_R_OK :: u8 where "RED_R_OK = 0x04"

definition RED_S_ISVTX :: u16 where "RED_S_ISVTX = 0x200"
definition RED_S_IRUSR :: u16 where "RED_S_IRUSR = 0x100"
definition RED_S_IWUSR :: u16 where "RED_S_IWUSR = 0x080"
definition RED_S_IXUSR :: u16 where "RED_S_IXUSR = 0x040"
definition RED_S_IRGRP :: u16 where "RED_S_IRGRP = 0x020"
definition RED_S_IWGRP :: u16 where "RED_S_IWGRP = 0x010"
definition RED_S_IXGRP :: u16 where "RED_S_IXGRP = 0x008"
definition RED_S_IROTH :: u16 where "RED_S_IROTH = 0x004"
definition RED_S_IWOTH :: u16 where "RED_S_IWOTH = 0x002"
definition RED_S_IXOTH :: u16 where "RED_S_IXOTH = 0x001"

lemmas perm_bit_defs = RED_X_OK_def RED_W_OK_def RED_R_OK_def RED_S_ISVTX_def
  RED_S_IRUSR_def RED_S_IWUSR_def RED_S_IXUSR_def RED_S_IRGRP_def RED_S_IWGRP_def RED_S_IXGRP_def
  RED_S_IROTH_def RED_S_IWOTH_def RED_S_IXOTH_def

record os_identity =
  osp_IsPrivileged :: bool
  osp_UserId :: u32
  osp_IsGroupMember :: "u32 \<Rightarrow> bool"
  perm_override :: "(u8 \<Rightarrow> u16 \<Rightarrow> u32 \<Rightarrow> u32 \<Rightarrow> rederr + unit) option"
  unlink_override :: "(u16 \<Rightarrow> u32 \<Rightarrow> u32 \<Rightarrow> u32 \<Rightarrow> rederr + unit) option"

definition RedPermCheck :: "os_identity \<Rightarrow> u8 \<Rightarrow> u16 \<Rightarrow> u32 \<Rightarrow> u32 \<Rightarrow> rederr + unit" where
  "RedPermCheck os bAccess uMode ulUid ulGid =
     (case perm_override os of
        Some RedOsPermCheck \<Rightarrow> RedOsPermCheck bAccess uMode ulUid ulGid
      | None \<Rightarrow>
          if \<not> osp_IsPrivileged os then
            let fUib = (osp_UserId os = ulUid);
                fGib = osp_IsGroupMember os ulGid
            in if (bAccess AND RED_X_OK \<noteq> 0 \<and>
                    (if fUib then uMode AND RED_S_IXUSR = 0
                     else if fGib then uMode AND RED_S_IXGRP = 0
                     else uMode AND RED_S_IXOTH = 0)) \<or>
                  (bAccess AND RED_W_OK \<noteq> 0 \<and>
                    (if fUib then uMode AND RED_S_IWUSR = 0
                     else if fGib then uMode AND RED_S_IWGRP = 0
                     else uMode AND RED_S_IWOTH = 0)) \<or>
                  (bAccess AND RED_R_OK \<noteq> 0 \<and>
                    (if fUib then uMode AND RED_S_IRUSR = 0
                     else if fGib then uMode AND RED_S_IRGRP = 0
                     else uMode AND RED_S_IROTH = 0))
               then Inl RED_EACCES else Inr ()
          else Inr ())"

definition RedPermCheckUnlink :: "os_identity \<Rightarrow> u16 \<Rightarrow> u32 \<Rightarrow> u32 \<Rightarrow> u32 \<Rightarrow> rederr + unit" where
  "RedPermCheckUnlink os uPMode ulPUid ulPGid ulFUid =
     (case unlink_override os of
        Some RedOsPermCheckUnlink \<Rightarrow> RedOsPermCheckUnlink uPMode ulPUid ulPGid ulFUid
      | None \<Rightarrow>
          if \<not> osp_IsPrivileged os then
            let ret = RedPermCheck os (RED_X_OK OR RED_W_OK) uPMode ulPUid ulPGid
            in if ret = Inr () \<and> uPMode AND RED_S_ISVTX \<noteq> 0 \<and>
                  osp_UserId os \<noteq> ulFUid \<and> osp_UserId os \<noteq> ulPUid
               then Inl RED_EACCES else ret
          else Inr ())"

section \<open>The rights a mode grants\<close>

lemma and_push_bit: "(w :: 'a::len word) AND push_bit n 1 = 0 \<longleftrightarrow> \<not> bit w n"
  by (simp add: bit_iff_and_push_bit_not_eq_0)

lemma and_push_bit_cases: "push_bit n (1 :: 'a::len word) AND w = 0 \<or> push_bit n 1 AND w = push_bit n 1"
proof (cases "bit w n")
  case True
  have "push_bit n 1 AND w = push_bit n 1"
    by (rule bit_word_eqI) (use True in \<open>auto simp: bit_and_iff bit_exp_iff\<close>)
  then show ?thesis ..
next
  case False
  then have "w AND push_bit n 1 = 0" using and_push_bit by blast
  then show ?thesis by (metis and.commute)
qed

lemma FTYPE_push: "FTYPE_FILE = push_bit 0 1" "FTYPE_DIR = push_bit 1 1" "FTYPE_SYMLINK = push_bit 2 1"
  by (simp_all add: FTYPE_defs push_bit_eq_mult)

text \<open>The class of the caller: 2 for the owner, 1 for the group and 0 for others.\<close>

definition caller_class :: "os_identity \<Rightarrow> u32 \<Rightarrow> u32 \<Rightarrow> nat" where
  "caller_class os uid gid =
     (if osp_UserId os = uid then 2 else if osp_IsGroupMember os gid then 1 else 0)"

lemma acc_bits:
  "b AND RED_X_OK = 0 \<longleftrightarrow> \<not> bit b 0" "b AND RED_W_OK = 0 \<longleftrightarrow> \<not> bit b 1"
  "b AND RED_R_OK = 0 \<longleftrightarrow> \<not> bit b 2"
  using and_push_bit [of b 0] and_push_bit [of b 1] and_push_bit [of b 2]
  by (simp_all add: perm_bit_defs push_bit_eq_mult)

lemma mode_bits:
  "m AND RED_S_IXOTH = 0 \<longleftrightarrow> \<not> bit m 0" "m AND RED_S_IWOTH = 0 \<longleftrightarrow> \<not> bit m 1"
  "m AND RED_S_IROTH = 0 \<longleftrightarrow> \<not> bit m 2" "m AND RED_S_IXGRP = 0 \<longleftrightarrow> \<not> bit m 3"
  "m AND RED_S_IWGRP = 0 \<longleftrightarrow> \<not> bit m 4" "m AND RED_S_IRGRP = 0 \<longleftrightarrow> \<not> bit m 5"
  "m AND RED_S_IXUSR = 0 \<longleftrightarrow> \<not> bit m 6" "m AND RED_S_IWUSR = 0 \<longleftrightarrow> \<not> bit m 7"
  "m AND RED_S_IRUSR = 0 \<longleftrightarrow> \<not> bit m 8" "m AND RED_S_ISVTX = 0 \<longleftrightarrow> \<not> bit m 9"
  using and_push_bit [of m 0] and_push_bit [of m 1] and_push_bit [of m 2] and_push_bit [of m 3]
    and_push_bit [of m 4] and_push_bit [of m 5] and_push_bit [of m 6] and_push_bit [of m 7]
    and_push_bit [of m 8] and_push_bit [of m 9]
  by (simp_all add: perm_bit_defs push_bit_eq_mult)

definition granted :: "os_identity \<Rightarrow> u8 \<Rightarrow> u16 \<Rightarrow> u32 \<Rightarrow> u32 \<Rightarrow> bool" where
  "granted os acc mode uid gid \<longleftrightarrow>
     (\<forall>r < 3. bit acc r \<longrightarrow> bit mode (3 * caller_class os uid gid + r))"

lemma all_less_3: "(\<forall>r < 3. P r) \<longleftrightarrow> P 0 \<and> P 1 \<and> P (2 :: nat)"
proof
  assume p: "P 0 \<and> P 1 \<and> P 2"
  show "\<forall>r < 3. P r"
  proof (intro allI impI)
    fix r :: nat
    assume "r < 3"
    then have "r = 0 \<or> r = 1 \<or> r = 2" by linarith
    with p show "P r" by blast
  qed
qed simp

lemma RedPermCheck_granted:
  "perm_override os = None \<Longrightarrow>
   RedPermCheck os acc mode uid gid =
     (if osp_IsPrivileged os \<or> granted os acc mode uid gid then Inr () else Inl RED_EACCES)"
  unfolding RedPermCheck_def granted_def all_less_3
  by (cases "osp_IsPrivileged os"; cases "osp_UserId os = uid"; cases "osp_IsGroupMember os gid")
    (simp_all add: acc_bits mode_bits caller_class_def numeral_2_eq_2)

section \<open>Properties\<close>

text \<open>
  RedFileTypeCheck accepts a single file type exactly when it is among the expected
  ones. When symbolic links are supported and one side is exactly a symbolic link, a
  mismatch is ENOLINK; otherwise a directory gives EISDIR and a regular file ENOTDIR, as
  the comment of the function lists them.
\<close>

theorem file_type_check_errors:
  assumes "a \<in> {FTYPE_FILE, FTYPE_DIR, FTYPE_SYMLINK}"
  shows "RedFileTypeCheck sl a e =
    (if a AND e = a then Inr ()
     else if sl \<and> (a = FTYPE_SYMLINK \<or> e = FTYPE_SYMLINK) then Inl RED_ENOLINK
     else if a = FTYPE_DIR then Inl RED_EISDIR else Inl RED_ENOTDIR)"
proof -
  have "a AND e = 0 \<or> a AND e = a" if "a = push_bit n 1" for n
    unfolding that by (rule and_push_bit_cases)
  with assms FTYPE_push have "a AND e = 0 \<or> a AND e = a" by blast
  moreover have "a \<noteq> 0" using assms by (auto simp: FTYPE_defs)
  ultimately have "a AND e = 0 \<longleftrightarrow> a AND e \<noteq> a" by auto
  then show ?thesis by (simp add: RedFileTypeCheck_def)
qed

theorem file_type_check_errors_witness:
  "RedFileTypeCheck True FTYPE_DIR FTYPE_SYMLINK = Inl RED_ENOLINK"
  using file_type_check_errors [of FTYPE_DIR True FTYPE_SYMLINK] by (simp add: FTYPE_defs)

text \<open>
  Without an override of the operating system, a caller may use a file exactly when it
  is privileged or every requested right is granted by the permission bits of the first
  class that matches it: owner, group, others. It may unlink a name exactly when it may
  write and search the directory and, in a sticky directory, owns the file or the
  directory.
\<close>

theorem permission_decision:
  assumes "perm_override os = None" and "unlink_override os = None"
  shows "(RedPermCheck os acc mode uid gid = Inr () \<longleftrightarrow>
      osp_IsPrivileged os \<or> (\<forall>r < 3. bit acc r \<longrightarrow>
        bit mode (3 * (if osp_UserId os = uid then 2 else if osp_IsGroupMember os gid then 1 else 0) + r))) \<and>
    (RedPermCheckUnlink os pmode puid pgid fuid = Inr () \<longleftrightarrow>
      osp_IsPrivileged os \<or>
      RedPermCheck os (RED_X_OK OR RED_W_OK) pmode puid pgid = Inr () \<and>
      (bit pmode 9 \<longrightarrow> osp_UserId os = fuid \<or> osp_UserId os = puid)) \<and>
    RedPermCheck os acc mode uid gid \<in> {Inr (), Inl RED_EACCES} \<and>
    RedPermCheckUnlink os pmode puid pgid fuid \<in> {Inr (), Inl RED_EACCES}"
  using assms
  by (auto simp: RedPermCheck_granted granted_def caller_class_def RedPermCheckUnlink_def
      mode_bits Let_def)

theorem permission_decision_witness:
  "RedPermCheck \<lparr>osp_IsPrivileged = False, osp_UserId = 5, osp_IsGroupMember = (\<lambda>g. g = 7),
     perm_override = None, unlink_override = None\<rparr> RED_R_OK 0x120 9 7 = Inr ()"
  using permission_decision [of "\<lparr>osp_IsPrivileged = False, osp_UserId = 5,
      osp_IsGroupMember = (\<lambda>g. g = 7), perm_override = None, unlink_override = None\<rparr>"
      RED_R_OK "0x120" 9 7]
  by (auto simp: all_less_3 perm_bit_defs)

end
