(* ===== verification/Red_Types.thy ===== *)
theory Red_Types
  imports Red_Prelude Red_Crc Red_Mode
begin

text \<open>
  The data of the driver: the configuration and the operating system services as one
  environment record, the volume, core volume and buffer cache structures as records, and
  the global variables as the state that the driver's operations pass on. The metadata
  nodes of the disk are byte lists of one block; their C structures are given by the
  offsets of the fields.
\<close>

section \<open>Configuration and services\<close>

datatype BDEVOPENMODE = BDEV_O_RDONLY | BDEV_O_WRONLY | BDEV_O_RDWR

record BDEVINFO =
  bi_ulSectorSize :: u32
  bi_ullSectorCount :: u64

record VOLCONF =
  vc_ulSectorSize :: u32
  vc_ullSectorCount :: u64
  vc_ullSectorOffset :: u64
  vc_fAtomicSectorWrite :: bool
  vc_ulInodeCount :: u32
  vc_bBlockIoRetries :: u8
  vc_pszPathPrefix :: bytes

text \<open>
  The fields named \<^verbatim>\<open>REDCONF\<close> are the macros of \<^verbatim>\<open>redconf.h\<close>, a macro that is 0 or 1 being
  a Boolean; \<open>TRUNCATE_SUPPORTED\<close> stands for the condition on them in \<^verbatim>\<open>redexclude.h\<close>. The fields named \<^verbatim>\<open>RedOs\<close> are the operating system services, which
  act on a device state of their own. A read fills the buffer it is given: the function
  receives the bytes of the buffer before the call and returns those after it. What the services
  say of the user that makes the call is an \<open>os_identity\<close>.
\<close>

record 'd env =
  REDCONF_VOLUME_COUNT :: u8
  BLOCK_SIZE_P2 :: nat
  REDCONF_BUFFER_COUNT :: u8
  REDCONF_DIRECT_POINTERS :: u32
  REDCONF_INDIRECT_POINTERS :: u32
  REDCONF_NAME_MAX :: u32
  REDCONF_ALIGNMENT_SIZE :: nat
  REDCONF_CRC_ALGORITHM :: crc_algorithm
  REDCONF_IMAP_INLINE :: bool
  REDCONF_IMAP_EXTERNAL :: bool
  REDCONF_API_POSIX :: bool
  REDCONF_API_POSIX_LINK :: bool
  REDCONF_API_POSIX_SYMLINK :: bool
  REDCONF_API_POSIX_FRESERVE :: bool
  REDCONF_POSIX_OWNER_PERM :: bool
  REDCONF_DELETE_OPEN :: bool
  REDCONF_INODE_BLOCKS :: bool
  REDCONF_INODE_TIMESTAMPS :: bool
  REDCONF_ATIME :: bool
  REDCONF_API_POSIX_RENAME :: bool
  REDCONF_RENAME_ATOMIC :: bool
  REDCONF_TRANSACT_DEFAULT :: u32
  REDCONF_PATH_SEPARATOR :: u8
  REDCONF_HANDLE_COUNT :: u16
  REDCONF_TASK_COUNT :: u32
  REDCONF_API_POSIX_CWD :: bool
  REDCONF_API_POSIX_READDIR :: bool
  REDOSCONF_SYMLINK_FOLLOW :: bool
  REDCONF_API_POSIX_UNLINK :: bool
  REDCONF_API_POSIX_RMDIR :: bool
  REDCONF_API_POSIX_MKDIR :: bool
  TRUNCATE_SUPPORTED :: bool
  pbBlkBuf :: nat
  aMR_address :: nat
  gaRedVolConf :: "u8 \<Rightarrow> VOLCONF"
  RedOsBDevOpen :: "u8 \<Rightarrow> BDEVOPENMODE \<Rightarrow> 'd \<Rightarrow> (rederr + unit) \<times> 'd"
  RedOsBDevClose :: "u8 \<Rightarrow> 'd \<Rightarrow> (rederr + unit) \<times> 'd"
  RedOsBDevGetGeometry :: "u8 \<Rightarrow> 'd \<Rightarrow> (rederr + BDEVINFO) \<times> 'd"
  RedOsBDevRead :: "u8 \<Rightarrow> u64 \<Rightarrow> u32 \<Rightarrow> bytes \<Rightarrow> 'd \<Rightarrow> (rederr + unit) \<times> bytes \<times> 'd"
  RedOsBDevWrite :: "u8 \<Rightarrow> u64 \<Rightarrow> u32 \<Rightarrow> bytes \<Rightarrow> 'd \<Rightarrow> (rederr + unit) \<times> 'd"
  RedOsBDevFlush :: "u8 \<Rightarrow> 'd \<Rightarrow> (rederr + unit) \<times> 'd"
  RedOsClockInit :: "'d \<Rightarrow> (rederr + unit) \<times> 'd"
  RedOsClockUninit :: "'d \<Rightarrow> (rederr + unit) \<times> 'd"
  RedOsMutexInit :: "'d \<Rightarrow> (rederr + unit) \<times> 'd"
  RedOsMutexUninit :: "'d \<Rightarrow> (rederr + unit) \<times> 'd"
  RedOsClockGetTime :: "'d \<Rightarrow> u32"
  RedOsIdentity :: "'d \<Rightarrow> os_identity"
  RedOsTaskId :: "'d \<Rightarrow> u32"
  RedOsGroupId :: "'d \<Rightarrow> u32"

definition REDCONF_BLOCK_SIZE :: "'d env \<Rightarrow> u32" where
  "REDCONF_BLOCK_SIZE E = push_bit (BLOCK_SIZE_P2 E) 1"

text \<open>The block size as a number, for lengths of byte lists.\<close>

abbreviation BSIZE :: "'d env \<Rightarrow> nat" where
  "BSIZE E \<equiv> unat (REDCONF_BLOCK_SIZE E)"

section \<open>Fields of metadata nodes\<close>

definition get16 :: "nat \<Rightarrow> bytes \<Rightarrow> u16" where "get16 off b = word_of_nat (get_le 2 off b)"
definition get32 :: "nat \<Rightarrow> bytes \<Rightarrow> u32" where "get32 off b = word_of_nat (get_le 4 off b)"
definition get64 :: "nat \<Rightarrow> bytes \<Rightarrow> u64" where "get64 off b = word_of_nat (get_le 8 off b)"

definition put16 :: "nat \<Rightarrow> u16 \<Rightarrow> bytes \<Rightarrow> bytes" where "put16 off v = overwrite off (le_bytes 2 (unat v))"
definition put32 :: "nat \<Rightarrow> u32 \<Rightarrow> bytes \<Rightarrow> bytes" where "put32 off v = overwrite off (le_bytes 4 (unat v))"
definition put64 :: "nat \<Rightarrow> u64 \<Rightarrow> bytes \<Rightarrow> bytes" where "put64 off v = overwrite off (le_bytes 8 (unat v))"

lemma get_le_overwrite_same:
  "off + length new \<le> length b \<Longrightarrow> get_le (length new) off (overwrite off new b) = le_value new"
  by (simp add: get_le_def slice_overwrite_same)

lemma slice_overwrite_other:
  assumes "off + length new \<le> length b" and "off' + n \<le> off \<or> off + length new \<le> off'"
  shows "slice off' n (overwrite off new b) = slice off' n b"
proof (rule nth_equalityI)
  show "length (slice off' n (overwrite off new b)) = length (slice off' n b)"
    using assms(1) by (simp add: slice_def)
  fix i
  assume "i < length (slice off' n (overwrite off new b))"
  then have i: "i < n" "off' + i < length b" using assms(1) by (auto simp: slice_def)
  then show "slice off' n (overwrite off new b) ! i = slice off' n b ! i"
    using assms by (auto simp: slice_def overwrite_def nth_append)
qed

lemma length_put [simp]:
  "off + 2 \<le> length b \<Longrightarrow> length (put16 off v2 b) = length b"
  "off + 4 \<le> length b \<Longrightarrow> length (put32 off v4 b) = length b"
  "off + 8 \<le> length b \<Longrightarrow> length (put64 off v8 b) = length b"
  by (simp_all add: put16_def put32_def put64_def)

lemma word_of_nat_unat_mod: "2 ^ LENGTH('a) = m \<Longrightarrow> word_of_nat (unat (w :: 'a::len word) mod m) = w"
  using unsigned_less [of w] by (auto simp: mod_less)

lemma get_put_same:
  "off + 2 \<le> length b \<Longrightarrow> get16 off (put16 off v2 b) = v2"
  "off + 4 \<le> length b \<Longrightarrow> get32 off (put32 off v4 b) = v4"
  "off + 8 \<le> length b \<Longrightarrow> get64 off (put64 off v8 b) = v8"
  using get_le_overwrite_same [of off "le_bytes 2 (unat v2)" b]
    get_le_overwrite_same [of off "le_bytes 4 (unat v4)" b]
    get_le_overwrite_same [of off "le_bytes 8 (unat v8)" b]
  by (simp_all add: get16_def put16_def get32_def put32_def get64_def put64_def
      le_value_le_bytes word_of_nat_unat_mod)

lemma slice_put:
  "off + 2 \<le> length b \<Longrightarrow> off' + n \<le> off \<or> off + 2 \<le> off' \<Longrightarrow> slice off' n (put16 off v2 b) = slice off' n b"
  "off + 4 \<le> length b \<Longrightarrow> off' + n \<le> off \<or> off + 4 \<le> off' \<Longrightarrow> slice off' n (put32 off v4 b) = slice off' n b"
  "off + 8 \<le> length b \<Longrightarrow> off' + n \<le> off \<or> off + 8 \<le> off' \<Longrightarrow> slice off' n (put64 off v8 b) = slice off' n b"
  by (simp_all add: put16_def put32_def put64_def slice_overwrite_other)

lemmas get_field_defs = get16_def get32_def get64_def get_le_def

lemma drop_eq_slice: "drop k b = slice k (length b - k) b"
  by (simp add: slice_def)

lemma drop_put:
  "off + 4 \<le> length b \<Longrightarrow> off + 4 \<le> k \<Longrightarrow> drop k (put32 off v4 b) = drop k b"
  "off + 8 \<le> length b \<Longrightarrow> off + 8 \<le> k \<Longrightarrow> drop k (put64 off v8 b) = drop k b"
  using slice_put(2) [of off b k "length b - k" v4] slice_put(3) [of off b k "length b - k" v8]
  by (simp_all add: drop_eq_slice)

text \<open>The header common to all nodes.\<close>

definition NODEHEADER_SIZE :: nat where "NODEHEADER_SIZE = 16"
definition NODEHEADER_OFFSET_SIG :: nat where "NODEHEADER_OFFSET_SIG = 0"
definition NODEHEADER_OFFSET_CRC :: nat where "NODEHEADER_OFFSET_CRC = 4"
definition NODEHEADER_OFFSET_SEQ :: nat where "NODEHEADER_OFFSET_SEQ = 8"

lemmas node_offsets = NODEHEADER_SIZE_def NODEHEADER_OFFSET_SIG_def NODEHEADER_OFFSET_CRC_def
  NODEHEADER_OFFSET_SEQ_def

definition hdr_ulSignature :: "bytes \<Rightarrow> u32" where "hdr_ulSignature = get32 NODEHEADER_OFFSET_SIG"
definition hdr_ulCRC :: "bytes \<Rightarrow> u32" where "hdr_ulCRC = get32 NODEHEADER_OFFSET_CRC"
definition hdr_ullSequence :: "bytes \<Rightarrow> u64" where "hdr_ullSequence = get64 NODEHEADER_OFFSET_SEQ"

definition META_SIG_MASTER :: u32 where "META_SIG_MASTER = 0x5453414D"
definition META_SIG_METAROOT :: u32 where "META_SIG_METAROOT = 0x4154454D"
definition META_SIG_IMAP :: u32 where "META_SIG_IMAP = 0x50414D49"
definition META_SIG_INODE :: u32 where "META_SIG_INODE = 0x444F4E49"
definition META_SIG_DINDIR :: u32 where "META_SIG_DINDIR = 0x494C4244"
definition META_SIG_INDIR :: u32 where "META_SIG_INDIR = 0x49444E49"
definition META_SIG_DIRECTORY :: u32 where "META_SIG_DIRECTORY = 0x44524944"

lemmas META_SIG_defs = META_SIG_MASTER_def META_SIG_METAROOT_def META_SIG_IMAP_def META_SIG_INODE_def
  META_SIG_DINDIR_def META_SIG_INDIR_def META_SIG_DIRECTORY_def

text \<open>The master block.\<close>

definition mb_ulVersion :: "bytes \<Rightarrow> u32" where "mb_ulVersion = get32 16"
definition mb_ulInodeCount :: "bytes \<Rightarrow> u32" where "mb_ulInodeCount = get32 32"
definition mb_ulBlockCount :: "bytes \<Rightarrow> u32" where "mb_ulBlockCount = get32 36"
definition mb_uMaxNameLen :: "bytes \<Rightarrow> u16" where "mb_uMaxNameLen = get16 40"
definition mb_uDirectPointers :: "bytes \<Rightarrow> u16" where "mb_uDirectPointers = get16 42"
definition mb_uIndirectPointers :: "bytes \<Rightarrow> u16" where "mb_uIndirectPointers = get16 44"
definition mb_bBlockSizeP2 :: "bytes \<Rightarrow> u8" where "mb_bBlockSizeP2 b = b ! 46"
definition mb_bFlags :: "bytes \<Rightarrow> u8" where "mb_bFlags b = b ! 47"
definition mb_uFeaturesIncompat :: "bytes \<Rightarrow> u16" where "mb_uFeaturesIncompat = get16 48"
definition mb_uFeaturesReadOnly :: "bytes \<Rightarrow> u16" where "mb_uFeaturesReadOnly = get16 50"
definition mb_bSectorSizeP2 :: "bytes \<Rightarrow> u8" where "mb_bSectorSizeP2 b = b ! 52"

text \<open>The metaroot.\<close>

definition METAROOT_HEADER_SIZE :: "'d env \<Rightarrow> nat" where
  "METAROOT_HEADER_SIZE E = NODEHEADER_SIZE + 12 +
     (if REDCONF_API_POSIX E then 4 + (if REDCONF_DELETE_OPEN E then 12 else 0) else 0)"

definition METAROOT_ENTRY_BYTES :: "'d env \<Rightarrow> nat" where
  "METAROOT_ENTRY_BYTES E = BSIZE E - METAROOT_HEADER_SIZE E"

definition METAROOT_ENTRIES :: "'d env \<Rightarrow> u32" where
  "METAROOT_ENTRIES E = word_of_nat (METAROOT_ENTRY_BYTES E * 8)"

definition mr_off_ulSectorCRC :: nat where "mr_off_ulSectorCRC = 16"
definition mr_off_ulFreeBlocks :: nat where "mr_off_ulFreeBlocks = 20"
definition mr_off_ulFreeInodes :: nat where "mr_off_ulFreeInodes = 24"

definition mr_off_ulAllocNextBlock :: "'d env \<Rightarrow> nat" where
  "mr_off_ulAllocNextBlock E = (if REDCONF_API_POSIX E then 28 else 24)"

definition mr_off_ulDefunctOrphanHead :: nat where "mr_off_ulDefunctOrphanHead = 32"
definition mr_off_ulOrphanHead :: nat where "mr_off_ulOrphanHead = 36"
definition mr_off_ulOrphanTail :: nat where "mr_off_ulOrphanTail = 40"

lemmas mr_offsets = mr_off_ulSectorCRC_def mr_off_ulFreeBlocks_def mr_off_ulFreeInodes_def
  mr_off_ulAllocNextBlock_def mr_off_ulDefunctOrphanHead_def mr_off_ulOrphanHead_def
  mr_off_ulOrphanTail_def METAROOT_HEADER_SIZE_def

definition mr_ulSectorCRC :: "bytes \<Rightarrow> u32" where "mr_ulSectorCRC = get32 mr_off_ulSectorCRC"
definition mr_ulFreeBlocks :: "bytes \<Rightarrow> u32" where "mr_ulFreeBlocks = get32 mr_off_ulFreeBlocks"
definition mr_ulFreeInodes :: "bytes \<Rightarrow> u32" where "mr_ulFreeInodes = get32 mr_off_ulFreeInodes"
definition mr_ulAllocNextBlock :: "'d env \<Rightarrow> bytes \<Rightarrow> u32" where
  "mr_ulAllocNextBlock E = get32 (mr_off_ulAllocNextBlock E)"
definition mr_abEntries :: "'d env \<Rightarrow> bytes \<Rightarrow> bytes" where
  "mr_abEntries E = drop (METAROOT_HEADER_SIZE E)"

text \<open>The imap node.\<close>

definition IMAPNODE_HEADER_SIZE :: nat where "IMAPNODE_HEADER_SIZE = NODEHEADER_SIZE"
definition IMAPNODE_ENTRY_BYTES :: "'d env \<Rightarrow> nat" where
  "IMAPNODE_ENTRY_BYTES E = BSIZE E - IMAPNODE_HEADER_SIZE"
definition IMAPNODE_ENTRIES :: "'d env \<Rightarrow> u32" where
  "IMAPNODE_ENTRIES E = word_of_nat (IMAPNODE_ENTRY_BYTES E * 8)"
definition im_abEntries :: "bytes \<Rightarrow> bytes" where "im_abEntries = drop IMAPNODE_HEADER_SIZE"

text \<open>The inode and the indirect nodes.\<close>

definition POSIX_INODE_HEADER_SIZE :: "'d env \<Rightarrow> nat" where
  "POSIX_INODE_HEADER_SIZE E =
     (if REDCONF_API_POSIX E
      then 4 + (if REDCONF_DELETE_OPEN E then 4 else 0) + (if REDCONF_POSIX_OWNER_PERM E then 8 else 0)
      else 0)"

definition INODE_HEADER_SIZE :: "'d env \<Rightarrow> nat" where
  "INODE_HEADER_SIZE E = NODEHEADER_SIZE + 8 + (if REDCONF_INODE_BLOCKS E then 4 else 0) +
     (if REDCONF_INODE_TIMESTAMPS E then 12 else 0) + 4 + POSIX_INODE_HEADER_SIZE E"

definition INODE_ENTRIES :: "'d env \<Rightarrow> u32" where
  "INODE_ENTRIES E = word_of_nat ((BSIZE E - INODE_HEADER_SIZE E) div 4)"

definition ino_off_ullSize :: nat where "ino_off_ullSize = 16"
definition ino_off_ulBlocks :: nat where "ino_off_ulBlocks = 24"
definition ino_off_ulATime :: "'d env \<Rightarrow> nat" where
  "ino_off_ulATime E = 24 + (if REDCONF_INODE_BLOCKS E then 4 else 0)"
definition ino_off_ulMTime :: "'d env \<Rightarrow> nat" where "ino_off_ulMTime E = ino_off_ulATime E + 4"
definition ino_off_ulCTime :: "'d env \<Rightarrow> nat" where "ino_off_ulCTime E = ino_off_ulATime E + 8"
definition ino_off_ulUID :: "'d env \<Rightarrow> nat" where
  "ino_off_ulUID E = ino_off_ulATime E + (if REDCONF_INODE_TIMESTAMPS E then 12 else 0)"
definition ino_off_ulGID :: "'d env \<Rightarrow> nat" where "ino_off_ulGID E = ino_off_ulUID E + 4"
definition ino_off_uMode :: "'d env \<Rightarrow> nat" where
  "ino_off_uMode E = ino_off_ulUID E + (if REDCONF_API_POSIX E \<and> REDCONF_POSIX_OWNER_PERM E then 8 else 0)"
definition ino_off_uNLink :: "'d env \<Rightarrow> nat" where "ino_off_uNLink E = ino_off_uMode E + 2"
definition ino_off_ulPInode :: "'d env \<Rightarrow> nat" where "ino_off_ulPInode E = ino_off_uMode E + 4"
definition ino_off_ulNextOrphan :: "'d env \<Rightarrow> nat" where "ino_off_ulNextOrphan E = ino_off_uMode E + 8"

lemmas ino_offsets = ino_off_ullSize_def ino_off_ulBlocks_def ino_off_ulATime_def ino_off_ulMTime_def ino_off_ulCTime_def
  ino_off_ulUID_def ino_off_ulGID_def ino_off_uMode_def ino_off_uNLink_def ino_off_ulPInode_def
  ino_off_ulNextOrphan_def INODE_HEADER_SIZE_def POSIX_INODE_HEADER_SIZE_def

definition INDIR_HEADER_SIZE :: nat where "INDIR_HEADER_SIZE = NODEHEADER_SIZE + 4"
definition INDIR_ENTRIES :: "'d env \<Rightarrow> u32" where
  "INDIR_ENTRIES E = word_of_nat ((BSIZE E - INDIR_HEADER_SIZE) div 4)"

definition DINDIR_POINTERS :: "'d env \<Rightarrow> u32" where
  "DINDIR_POINTERS E = (INODE_ENTRIES E - REDCONF_DIRECT_POINTERS E) - REDCONF_INDIRECT_POINTERS E"
definition DINDIRS_EXIST :: "'d env \<Rightarrow> bool" where "DINDIRS_EXIST E \<longleftrightarrow> DINDIR_POINTERS E > 0"
definition INDIRS_EXIST :: "'d env \<Rightarrow> bool" where
  "INDIRS_EXIST E \<longleftrightarrow> REDCONF_DIRECT_POINTERS E < INODE_ENTRIES E"
definition INODE_MAX_DEPTH :: "'d env \<Rightarrow> u32" where
  "INODE_MAX_DEPTH E = (if DINDIRS_EXIST E then 3 else if INDIRS_EXIST E then 2 else 1)"

section \<open>The state\<close>

record VOLUME =
  vol_fMounted :: bool
  vol_fReadOnly :: bool
  vol_ulTransMask :: u32
  vol_bBlockSectorShift :: u8
  vol_ulBlockCount :: u32
  vol_ulBlocksAllocable :: u32
  vol_ullMaxInodeSize :: u64
  vol_ullSequence :: u64

record COREVOLUME =
  cv_ulVersion :: u32
  cv_fImapInline :: bool
  cv_ulImapStartBN :: u32
  cv_ulImapNodeCount :: u32
  cv_ulInodeTableStartBN :: u32
  cv_ulInodeCount :: u32
  cv_ulFirstAllocableBN :: u32
  cv_aMR :: "u8 \<Rightarrow> bytes"
  cv_bCurMR :: u8
  cv_fBranched :: bool
  cv_ulAlmostFreeBlocks :: u32
  cv_fUseReservedBlocks :: bool
  cv_ulReservedInodes :: u32
  cv_ulReservedInodeBlocks :: u32
  cv_fUseReservedInodeBlocks :: bool

record BUFFERHEAD =
  bh_ulBlock :: u32
  bh_bVolNum :: u8
  bh_bRefCount :: u8
  bh_uFlags :: u16

record BUFFERCTX =
  bc_uNumUsed :: u16
  bc_abMRU :: "u8 list"
  bc_aHead :: "BUFFERHEAD list"
  bc_blocks :: "bytes list"

record 'd fs =
  gbRedVolNum :: u8
  gaRedVolume :: "u8 \<Rightarrow> VOLUME"
  gaRedCoreVol :: "u8 \<Rightarrow> COREVOLUME"
  gaRedBdevInfo :: "u8 \<Rightarrow> BDEVINFO"
  gBufCtx :: BUFFERCTX
  os :: 'd

type_synonym ('d, 'a) op = "('d fs, rederr, 'a) comp"

text \<open>The pointers to the current volume and to the working-state metaroot.\<close>

definition gpRedVolume :: "'d fs \<Rightarrow> VOLUME" where
  "gpRedVolume s = gaRedVolume s (gbRedVolNum s)"

definition gpRedCoreVol :: "'d fs \<Rightarrow> COREVOLUME" where
  "gpRedCoreVol s = gaRedCoreVol s (gbRedVolNum s)"

definition gpRedMR :: "'d fs \<Rightarrow> bytes" where
  "gpRedMR s = cv_aMR (gpRedCoreVol s) (cv_bCurMR (gpRedCoreVol s))"

definition set_vol :: "u8 \<Rightarrow> (VOLUME \<Rightarrow> VOLUME) \<Rightarrow> 'd fs \<Rightarrow> 'd fs" where
  "set_vol v f s = s\<lparr>gaRedVolume := (gaRedVolume s)(v := f (gaRedVolume s v))\<rparr>"

definition upd_vol :: "(VOLUME \<Rightarrow> VOLUME) \<Rightarrow> 'd fs \<Rightarrow> 'd fs" where
  "upd_vol f s = set_vol (gbRedVolNum s) f s"

definition upd_cv :: "(COREVOLUME \<Rightarrow> COREVOLUME) \<Rightarrow> 'd fs \<Rightarrow> 'd fs" where
  "upd_cv f s = s\<lparr>gaRedCoreVol := (gaRedCoreVol s)(gbRedVolNum s := f (gpRedCoreVol s))\<rparr>"

definition upd_aMR :: "u8 \<Rightarrow> (bytes \<Rightarrow> bytes) \<Rightarrow> 'd fs \<Rightarrow> 'd fs" where
  "upd_aMR i f = upd_cv (\<lambda>c. c\<lparr>cv_aMR := (cv_aMR c)(i := f (cv_aMR c i))\<rparr>)"

definition upd_MR :: "(bytes \<Rightarrow> bytes) \<Rightarrow> 'd fs \<Rightarrow> 'd fs" where
  "upd_MR f s = upd_aMR (cv_bCurMR (gpRedCoreVol s)) f s"

lemmas upd_defs = set_vol_def upd_vol_def upd_cv_def upd_aMR_def upd_MR_def
lemmas gp_defs = gpRedVolume_def gpRedCoreVol_def gpRedMR_def

text \<open>A critical error makes the current volume read only.\<close>

definition CRITICAL_ERROR :: "('d, unit) op" where
  "CRITICAL_ERROR = modE (upd_vol (vol_fReadOnly_update (\<lambda>_. True)))"

definition CRITICAL_ASSERT :: "bool \<Rightarrow> ('d, unit) op" where
  "CRITICAL_ASSERT b = whenE (\<not> b) CRITICAL_ERROR"

definition is_ok :: "'e + 'a \<Rightarrow> bool" where
  "is_ok r \<longleftrightarrow> (case r of Inl _ \<Rightarrow> False | Inr _ \<Rightarrow> True)"

lemma is_ok_simps [simp]: "is_ok (Inr x)" "\<not> is_ok (Inl e)"
  by (simp_all add: is_ok_def)

definition BLOCK_SPARSE :: u32 where "BLOCK_SPARSE = 0"
definition BLOCK_NUM_MASTER :: u32 where "BLOCK_NUM_MASTER = 0"
definition BLOCK_NUM_FIRST_METAROOT :: u32 where "BLOCK_NUM_FIRST_METAROOT = 1"
definition BBLK_INVALID :: u32 where "BBLK_INVALID = 0xFFFFFFFF"
definition INODE_INVALID :: u32 where "INODE_INVALID = 0"
definition INODE_FIRST_VALID :: u32 where "INODE_FIRST_VALID = 2"
definition INODE_ROOTDIR :: u32 where "INODE_ROOTDIR = INODE_FIRST_VALID"

definition INODE_FIRST_FREE :: "'d env \<Rightarrow> u32" where
  "INODE_FIRST_FREE E = (if REDCONF_API_POSIX E then INODE_FIRST_VALID + 1 else INODE_FIRST_VALID)"

definition INODE_IS_VALID :: "u32 \<Rightarrow> 'd fs \<Rightarrow> bool" where
  "INODE_IS_VALID n s \<longleftrightarrow>
     n \<ge> INODE_FIRST_VALID \<and> n < INODE_FIRST_VALID + cv_ulInodeCount (gpRedCoreVol s)"

definition RESERVED_BLOCKS :: "'d env \<Rightarrow> u32" where
  "RESERVED_BLOCKS E =
     (if REDCONF_API_POSIX E \<and> (REDCONF_API_POSIX_UNLINK E \<or> REDCONF_API_POSIX_RMDIR E) then
        (if DINDIRS_EXIST E then 3 else if REDCONF_INDIRECT_POINTERS E > 0 then 2 else 1)
      else if TRUNCATE_SUPPORTED E then
        (if DINDIRS_EXIST E then 2 else if REDCONF_INDIRECT_POINTERS E > 0 then 1 else 0)
      else 0)"

section \<open>Selectors after updates\<close>

lemma upd_vol_simps [simp]:
  "gbRedVolNum (upd_vol f s) = gbRedVolNum s" "gaRedCoreVol (upd_vol f s) = gaRedCoreVol s"
  "gaRedBdevInfo (upd_vol f s) = gaRedBdevInfo s" "gBufCtx (upd_vol f s) = gBufCtx s"
  "os (upd_vol f s) = os s" "gpRedVolume (upd_vol f s) = f (gpRedVolume s)"
  "gpRedCoreVol (upd_vol f s) = gpRedCoreVol s" "gpRedMR (upd_vol f s) = gpRedMR s"
  by (simp_all add: upd_defs gp_defs)

lemma set_vol_simps [simp]:
  "gbRedVolNum (set_vol v f s) = gbRedVolNum s" "gaRedCoreVol (set_vol v f s) = gaRedCoreVol s"
  "gaRedBdevInfo (set_vol v f s) = gaRedBdevInfo s" "gBufCtx (set_vol v f s) = gBufCtx s"
  "os (set_vol v f s) = os s" "gpRedCoreVol (set_vol v f s) = gpRedCoreVol s"
  "gpRedMR (set_vol v f s) = gpRedMR s"
  by (simp_all add: upd_defs gp_defs)

lemma upd_cv_simps [simp]:
  "gbRedVolNum (upd_cv f s) = gbRedVolNum s" "gaRedVolume (upd_cv f s) = gaRedVolume s"
  "gaRedBdevInfo (upd_cv f s) = gaRedBdevInfo s" "gBufCtx (upd_cv f s) = gBufCtx s"
  "os (upd_cv f s) = os s" "gpRedVolume (upd_cv f s) = gpRedVolume s"
  "gpRedCoreVol (upd_cv f s) = f (gpRedCoreVol s)"
  by (simp_all add: upd_defs gp_defs)

lemma upd_aMR_simps [simp]:
  "gbRedVolNum (upd_aMR i f s) = gbRedVolNum s" "gaRedVolume (upd_aMR i f s) = gaRedVolume s"
  "gaRedBdevInfo (upd_aMR i f s) = gaRedBdevInfo s" "gBufCtx (upd_aMR i f s) = gBufCtx s"
  "os (upd_aMR i f s) = os s" "gpRedVolume (upd_aMR i f s) = gpRedVolume s"
  "gpRedCoreVol (upd_aMR i f s) =
     (gpRedCoreVol s)\<lparr>cv_aMR := (cv_aMR (gpRedCoreVol s))(i := f (cv_aMR (gpRedCoreVol s) i))\<rparr>"
  by (simp_all add: upd_aMR_def)

lemma upd_MR_simps [simp]:
  "gbRedVolNum (upd_MR f s) = gbRedVolNum s" "gaRedVolume (upd_MR f s) = gaRedVolume s"
  "gaRedBdevInfo (upd_MR f s) = gaRedBdevInfo s" "gBufCtx (upd_MR f s) = gBufCtx s"
  "os (upd_MR f s) = os s" "gpRedVolume (upd_MR f s) = gpRedVolume s"
  "gpRedMR (upd_MR f s) = f (gpRedMR s)"
  by (simp_all add: upd_MR_def gpRedMR_def)

lemma gBufCtx_update_simps [simp]:
  "gpRedVolume (gBufCtx_update f s) = gpRedVolume s"
  "gpRedCoreVol (gBufCtx_update f s) = gpRedCoreVol s" "gpRedMR (gBufCtx_update f s) = gpRedMR s"
  by (simp_all add: gp_defs)

lemma os_update_simps [simp]:
  "gpRedVolume (os_update f s) = gpRedVolume s"
  "gpRedCoreVol (os_update f s) = gpRedCoreVol s" "gpRedMR (os_update f s) = gpRedMR s"
  by (simp_all add: gp_defs)

end
