(* ===== verification/Red_Bdev.thy ===== *)
theory Red_Bdev
  imports Red_Types
begin

text \<open>
  The block device module \<^verbatim>\<open>bdev/bdev.c\<close>, which checks the arguments and the geometry
  before it calls the operating system's block device, and the RAM disk of
  \<^verbatim>\<open>osbdev_ramdisk.h\<close>, a block device whose source is part of the repository. The locale
  \<open>sector_device\<close> is the contract the driver expects of a working device; the RAM disk
  fulfils it.
\<close>

section \<open>The block device module\<close>

definition SECTOR_SIZE_AUTO :: u32 where "SECTOR_SIZE_AUTO = 0"
definition SECTOR_COUNT_AUTO :: u64 where "SECTOR_COUNT_AUTO = 0"

definition VOLUME_SECTOR_LIMIT :: "'d env \<Rightarrow> u8 \<Rightarrow> 'd fs \<Rightarrow> u64" where
  "VOLUME_SECTOR_LIMIT E v s = vc_ullSectorOffset (gaRedVolConf E v) + bi_ullSectorCount (gaRedBdevInfo s v)"

definition VOLUME_SECTOR_GEOMETRY_IS_VALID :: "'d env \<Rightarrow> u8 \<Rightarrow> u32 \<Rightarrow> u64 \<Rightarrow> 'd fs \<Rightarrow> bool" where
  "VOLUME_SECTOR_GEOMETRY_IS_VALID E v devsectsize devsectcount s \<longleftrightarrow>
     devsectsize = bi_ulSectorSize (gaRedBdevInfo s v) \<and> devsectcount \<ge> VOLUME_SECTOR_LIMIT E v s"

definition VOLUME_SECTOR_RANGE_IS_VALID :: "'d env \<Rightarrow> u8 \<Rightarrow> u64 \<Rightarrow> u32 \<Rightarrow> 'd fs \<Rightarrow> bool" where
  "VOLUME_SECTOR_RANGE_IS_VALID E v sectstart sectcount s \<longleftrightarrow>
     sectstart \<ge> vc_ullSectorOffset (gaRedVolConf E v) \<and>
     ucast sectcount \<le> VOLUME_SECTOR_LIMIT E v s - sectstart"

text \<open>A call of an operating system service, which acts on the device state alone.\<close>

definition os_call :: "('d \<Rightarrow> (rederr + 'a) \<times> 'd) \<Rightarrow> ('d, 'a) op" where
  "os_call f = (\<lambda>s. let (r, d) = f (os s) in Some (r, s\<lparr>os := d\<rparr>))"

definition set_bdevinfo :: "u8 \<Rightarrow> BDEVINFO \<Rightarrow> 'd fs \<Rightarrow> 'd fs" where
  "set_bdevinfo v i s = s\<lparr>gaRedBdevInfo := (gaRedBdevInfo s)(v := i)\<rparr>"

definition bdev_open_geometry :: "'d env \<Rightarrow> u8 \<Rightarrow> ('d, unit) op" where
  "bdev_open_geometry E bVolNum =
     (let pVolConf = gaRedVolConf E bVolNum
      in if vc_ullSectorCount pVolConf = SECTOR_COUNT_AUTO \<or> vc_ulSectorSize pVolConf = SECTOR_SIZE_AUTO
         then bindE (os_call (RedOsBDevGetGeometry E bVolNum)) (\<lambda>info.
           if vc_ullSectorCount pVolConf \<noteq> SECTOR_COUNT_AUTO \<and>
              vc_ullSectorCount pVolConf \<noteq> bi_ullSectorCount info then errE RED_EINVAL
           else if ucast (vc_ulSectorSize pVolConf) \<noteq> SECTOR_COUNT_AUTO \<and>
              vc_ulSectorSize pVolConf \<noteq> bi_ulSectorSize info then errE RED_EINVAL
           else if vc_ullSectorOffset pVolConf \<ge> bi_ullSectorCount info then errE RED_EINVAL
           else modE (set_bdevinfo bVolNum
             (info\<lparr>bi_ullSectorCount := bi_ullSectorCount info - vc_ullSectorOffset pVolConf\<rparr>)))
         else thenE (modE (set_bdevinfo bVolNum
             \<lparr>bi_ulSectorSize = vc_ulSectorSize pVolConf, bi_ullSectorCount = vc_ullSectorCount pVolConf\<rparr>))
           (statusE (os_call (RedOsBDevGetGeometry E bVolNum)) (\<lambda>ret.
             case ret of
               Inr info \<Rightarrow>
                 bindE (getE (VOLUME_SECTOR_GEOMETRY_IS_VALID E bVolNum (bi_ulSectorSize info)
                   (bi_ullSectorCount info))) (\<lambda>valid.
                 if \<not> valid then errE RED_EINVAL else okE ())
             | Inl e \<Rightarrow> if e = RED_ENOTSUPP then okE () else errE e)))"

definition RedBDevOpen :: "'d env \<Rightarrow> u8 \<Rightarrow> BDEVOPENMODE \<Rightarrow> ('d, unit) op" where
  "RedBDevOpen E bVolNum mode =
     (if bVolNum \<ge> REDCONF_VOLUME_COUNT E then errE RED_EINVAL
      else thenE (os_call (RedOsBDevOpen E bVolNum mode))
        (statusE (bdev_open_geometry E bVolNum) (\<lambda>ret.
          if \<not> is_ok ret then statusE (os_call (RedOsBDevClose E bVolNum)) (\<lambda>_. returnE ret)
          else returnE ret)))"

definition RedBDevClose :: "'d env \<Rightarrow> u8 \<Rightarrow> ('d, unit) op" where
  "RedBDevClose E bVolNum =
     (if bVolNum \<ge> REDCONF_VOLUME_COUNT E then errE RED_EINVAL else os_call (RedOsBDevClose E bVolNum))"

text \<open>
  The transfers always return, so they are functions of the state: the status, for a read
  the bytes of the buffer after the call, and the state.
\<close>

definition RedBDevRead ::
    "'d env \<Rightarrow> u8 \<Rightarrow> u64 \<Rightarrow> u32 \<Rightarrow> bytes \<times> 'd fs \<Rightarrow> (rederr + unit) \<times> bytes \<times> 'd fs" where
  "RedBDevRead E bVolNum ullSectorStart ulSectorCount = (\<lambda>(pBuffer, s).
     if bVolNum \<ge> REDCONF_VOLUME_COUNT E \<or>
        \<not> VOLUME_SECTOR_RANGE_IS_VALID E bVolNum ullSectorStart ulSectorCount s
     then (Inl RED_EINVAL, pBuffer, s)
     else let (ret, buf, d) = RedOsBDevRead E bVolNum ullSectorStart ulSectorCount pBuffer (os s)
          in (ret, buf, s\<lparr>os := d\<rparr>))"

definition RedBDevWrite ::
    "'d env \<Rightarrow> u8 \<Rightarrow> u64 \<Rightarrow> u32 \<Rightarrow> bytes \<Rightarrow> 'd fs \<Rightarrow> (rederr + unit) \<times> 'd fs" where
  "RedBDevWrite E bVolNum ullSectorStart ulSectorCount pBuffer s =
     (if bVolNum \<ge> REDCONF_VOLUME_COUNT E \<or>
        \<not> VOLUME_SECTOR_RANGE_IS_VALID E bVolNum ullSectorStart ulSectorCount s
      then (Inl RED_EINVAL, s)
      else let (ret, d) = RedOsBDevWrite E bVolNum ullSectorStart ulSectorCount pBuffer (os s)
           in (ret, s\<lparr>os := d\<rparr>))"

definition RedBDevFlush :: "'d env \<Rightarrow> u8 \<Rightarrow> 'd fs \<Rightarrow> (rederr + unit) \<times> 'd fs" where
  "RedBDevFlush E bVolNum s =
     (if bVolNum \<ge> REDCONF_VOLUME_COUNT E then (Inl RED_EINVAL, s)
      else let (ret, d) = RedOsBDevFlush E bVolNum (os s) in (ret, s\<lparr>os := d\<rparr>))"

section \<open>What the transfers leave alone\<close>

text \<open>All of the state but the device.\<close>

definition same_but_os :: "'d fs \<Rightarrow> 'd fs \<Rightarrow> bool" where
  "same_but_os s t \<longleftrightarrow> t = s\<lparr>os := os t\<rparr>"

lemma same_but_os_refl [simp]: "same_but_os s s"
  by (simp add: same_but_os_def)

lemma same_but_os_trans: "same_but_os s t \<Longrightarrow> same_but_os t u \<Longrightarrow> same_but_os s u"
  by (cases s; cases t; cases u) (simp add: same_but_os_def)

lemma same_but_os_update [simp]: "same_but_os s (s\<lparr>os := d\<rparr>)"
  by (simp add: same_but_os_def)

lemma same_but_os_selectors:
  assumes "same_but_os s t"
  shows "gbRedVolNum t = gbRedVolNum s" "gaRedVolume t = gaRedVolume s" "gaRedCoreVol t = gaRedCoreVol s"
    "gaRedBdevInfo t = gaRedBdevInfo s" "gBufCtx t = gBufCtx s"
  using assms by (cases s; cases t; simp add: same_but_os_def)+

lemma RedBDevRead_same: "RedBDevRead E v st n (b, s) = (r, b', t) \<Longrightarrow> same_but_os s t"
  by (auto simp: RedBDevRead_def Let_def split: if_splits prod.splits)

lemma RedBDevWrite_same: "RedBDevWrite E v st n b s = (r, t) \<Longrightarrow> same_but_os s t"
  by (auto simp: RedBDevWrite_def Let_def split: if_splits prod.splits)

lemma RedBDevFlush_same: "RedBDevFlush E v s = (r, t) \<Longrightarrow> same_but_os s t"
  by (auto simp: RedBDevFlush_def Let_def split: if_splits prod.splits)

section \<open>The contract of a working device\<close>

text \<open>
  \<open>content\<close> is the bytes on the medium, by their offset from the first sector. Reading and
  writing sectors inside the device succeed, a read returns the content and a write
  changes exactly the bytes of its sectors.
\<close>

locale sector_device =
  fixes rd :: "u64 \<Rightarrow> u32 \<Rightarrow> bytes \<Rightarrow> 'd \<Rightarrow> (rederr + unit) \<times> bytes \<times> 'd"
    and wr :: "u64 \<Rightarrow> u32 \<Rightarrow> bytes \<Rightarrow> 'd \<Rightarrow> (rederr + unit) \<times> 'd"
    and content :: "'d \<Rightarrow> nat \<Rightarrow> u8"
    and good :: "'d \<Rightarrow> bool"
    and ssize :: nat
    and nsect :: nat
  assumes rd_content: "good d \<Longrightarrow> unat st + unat n \<le> nsect \<Longrightarrow> length b = unat n * ssize \<Longrightarrow>
      rd st n b d = (Inr (), map (\<lambda>i. content d (unat st * ssize + i)) [0..<unat n * ssize], d)"
    and wr_ok: "good d \<Longrightarrow> unat st + unat n \<le> nsect \<Longrightarrow> length b = unat n * ssize \<Longrightarrow>
      fst (wr st n b d) = Inr () \<and> good (snd (wr st n b d))"
    and wr_content: "good d \<Longrightarrow> unat st + unat n \<le> nsect \<Longrightarrow> length b = unat n * ssize \<Longrightarrow>
      content (snd (wr st n b d)) i =
        (if unat st * ssize \<le> i \<and> i < unat st * ssize + unat n * ssize
         then b ! (i - unat st * ssize) else content d i)"
begin

definition sectors :: "'d \<Rightarrow> nat \<Rightarrow> nat \<Rightarrow> bytes" where
  "sectors d st n = map (\<lambda>i. content d (st * ssize + i)) [0..<n * ssize]"

lemma length_sectors [simp]: "length (sectors d st n) = n * ssize"
  by (simp add: sectors_def)

lemma rd_sectors: "good d \<Longrightarrow> unat st + unat n \<le> nsect \<Longrightarrow> length b = unat n * ssize \<Longrightarrow>
    rd st n b d = (Inr (), sectors d (unat st) (unat n), d)"
  by (simp add: rd_content sectors_def)

lemma sectors_wr_same:
  assumes "good d" "unat st + unat n \<le> nsect" "length b = unat n * ssize"
  shows "sectors (snd (wr st n b d)) (unat st) (unat n) = b"
  using assms by (intro nth_equalityI) (simp_all add: sectors_def wr_content)

lemma sectors_wr_other:
  assumes "good d" "unat st + unat n \<le> nsect" "length b = unat n * ssize"
    and "st' + n' \<le> unat st \<or> unat st + unat n \<le> st'"
  shows "sectors (snd (wr st n b d)) st' n' = sectors d st' n'"
proof (rule nth_equalityI)
  fix i
  assume "i < length (sectors (snd (wr st n b d)) st' n')"
  then have i: "i < n' * ssize" by simp
  have "\<not> (unat st * ssize \<le> st' * ssize + i \<and> st' * ssize + i < unat st * ssize + unat n * ssize)"
  proof (cases "st' + n' \<le> unat st")
    case True
    then have "(st' + n') * ssize \<le> unat st * ssize" by (rule mult_le_mono1)
    with i show ?thesis by (simp add: add_mult_distrib)
  next
    case False
    with assms(4) have "(unat st + unat n) * ssize \<le> st' * ssize" by (intro mult_le_mono1) simp
    with i show ?thesis by (simp add: add_mult_distrib)
  qed
  with i show "sectors (snd (wr st n b d)) st' n' ! i = sectors d st' n' ! i"
    using assms(1-3) by (auto simp: sectors_def wr_content)
qed simp

end

section \<open>The RAM disk\<close>

type_synonym ramdisk = "u8 \<Rightarrow> bytes option"

text \<open>\<open>calloc_ok\<close> tells whether the allocation succeeds; a \<^verbatim>\<open>size_t\<close> has 64 bits.\<close>

definition DiskOpen :: "(u8 \<Rightarrow> VOLCONF) \<Rightarrow> bool \<Rightarrow> u8 \<Rightarrow> BDEVOPENMODE \<Rightarrow> ramdisk \<Rightarrow> (rederr + unit) \<times> ramdisk" where
  "DiskOpen conf calloc_ok bVolNum mode d =
     (let pVolConf = conf bVolNum
      in if vc_ullSectorOffset pVolConf > 0 then (Inl RED_EINVAL, d)
         else if vc_ulSectorSize pVolConf = SECTOR_SIZE_AUTO \<or> vc_ullSectorCount pVolConf = SECTOR_COUNT_AUTO
         then (Inl RED_EINVAL, d)
         else if d bVolNum = None then
           (if \<not> calloc_ok then (Inl RED_EIO, d)
            else (Inr (), d(bVolNum \<mapsto>
              replicate (unat (vc_ullSectorCount pVolConf) * unat (vc_ulSectorSize pVolConf)) 0)))
         else (Inr (), d))"

definition DiskClose :: "u8 \<Rightarrow> ramdisk \<Rightarrow> (rederr + unit) \<times> ramdisk" where
  "DiskClose bVolNum d = (if d bVolNum = None then (Inl RED_EINVAL, d) else (Inr (), d))"

definition DiskGetGeometry :: "u8 \<Rightarrow> ramdisk \<Rightarrow> (rederr + BDEVINFO) \<times> ramdisk" where
  "DiskGetGeometry bVolNum d = (Inl RED_ENOTSUPP, d)"

text \<open>
  What a copy would write past the end of \<open>pBuffer\<close>, where the behaviour of the C code is
  undefined, is dropped.
\<close>

definition DiskRead ::
    "(u8 \<Rightarrow> VOLCONF) \<Rightarrow> u8 \<Rightarrow> u64 \<Rightarrow> u32 \<Rightarrow> bytes \<Rightarrow> ramdisk \<Rightarrow> (rederr + unit) \<times> bytes \<times> ramdisk" where
  "DiskRead conf bVolNum ullSectorStart ulSectorCount pBuffer d =
     (case d bVolNum of
        None \<Rightarrow> (Inl RED_EINVAL, pBuffer, d)
      | Some disk \<Rightarrow>
          let ullByteOffset = ullSectorStart * ucast (vc_ulSectorSize (conf bVolNum));
              ulByteCount = ulSectorCount * vc_ulSectorSize (conf bVolNum)
          in (Inr (), overwrite 0 (take (length pBuffer)
                 (slice (unat ullByteOffset) (unat ulByteCount) disk)) pBuffer, d))"

definition DiskWrite ::
    "(u8 \<Rightarrow> VOLCONF) \<Rightarrow> u8 \<Rightarrow> u64 \<Rightarrow> u32 \<Rightarrow> bytes \<Rightarrow> ramdisk \<Rightarrow> (rederr + unit) \<times> ramdisk" where
  "DiskWrite conf bVolNum ullSectorStart ulSectorCount pBuffer d =
     (case d bVolNum of
        None \<Rightarrow> (Inl RED_EINVAL, d)
      | Some disk \<Rightarrow>
          let ullByteOffset = ullSectorStart * ucast (vc_ulSectorSize (conf bVolNum));
              ulByteCount = ulSectorCount * vc_ulSectorSize (conf bVolNum)
          in (Inr (), d(bVolNum \<mapsto> overwrite (unat ullByteOffset) (take (unat ulByteCount) pBuffer) disk)))"

definition DiskFlush :: "u8 \<Rightarrow> ramdisk \<Rightarrow> (rederr + unit) \<times> ramdisk" where
  "DiskFlush bVolNum d = (if d bVolNum = None then (Inl RED_EINVAL, d) else (Inr (), d))"

lemma DiskRead_length [simp]: "length (fst (snd (DiskRead conf v st n b d))) = length b"
  by (simp add: DiskRead_def Let_def overwrite_def split: option.split)

text \<open>
  A volume of the RAM disk that is open with the given geometry. The transfers compute
  their byte counts in 32 bits, so the size of the whole disk must fit there.
\<close>

definition ramdisk_good :: "(u8 \<Rightarrow> VOLCONF) \<Rightarrow> u8 \<Rightarrow> nat \<Rightarrow> nat \<Rightarrow> ramdisk \<Rightarrow> bool" where
  "ramdisk_good conf v ss ns d \<longleftrightarrow>
     unat (vc_ulSectorSize (conf v)) = ss \<and> ss * ns < 2 ^ 32 \<and>
     (\<exists>disk. d v = Some disk \<and> length disk = ss * ns)"

definition ramdisk_content :: "u8 \<Rightarrow> ramdisk \<Rightarrow> nat \<Rightarrow> u8" where
  "ramdisk_content v d i = (case d v of Some disk \<Rightarrow> disk ! i | None \<Rightarrow> 0)"

lemma ramdisk_offsets:
  assumes "unat ss = m" and "m * ns < 2 ^ 32" and "unat st + unat n \<le> ns"
  shows "unat (st * ucast ss :: u64) = unat st * m" and "unat (n * ss :: u32) = unat n * m"
proof -
  have le: "unat st * m \<le> m * ns" "unat n * m \<le> m * ns"
    using assms(3) by (simp_all add: mult.commute [of _ m])
  have "unat (ucast ss :: u64) = m"
    using assms(1) unat_ucast_u32 [of ss] by simp
  then have "unat (st * ucast ss :: u64) = (unat st * m) mod 2 ^ 64"
    by (simp add: unat_word_ariths)
  moreover have "unat st * m < 2 ^ 64"
    by (rule less_trans [OF le_less_trans [OF le(1) assms(2)]]) simp
  ultimately show "unat (st * ucast ss :: u64) = unat st * m" by simp
  have "unat (n * ss) = (unat n * m) mod 2 ^ 32"
    using assms(1) by (simp add: unat_word_ariths)
  moreover have "unat n * m < 2 ^ 32" by (rule le_less_trans [OF le(2) assms(2)])
  ultimately show "unat (n * ss :: u32) = unat n * m" by simp
qed

interpretation ramdisk: sector_device
  "DiskRead conf v" "DiskWrite conf v" "ramdisk_content v" "ramdisk_good conf v ss ns" ss ns
proof
  fix d and st :: u64 and n :: u32 and b :: bytes
  assume g: "ramdisk_good conf v ss ns d" and r: "unat st + unat n \<le> ns" and l: "length b = unat n * ss"
  from g obtain disk where d: "d v = Some disk" "length disk = ss * ns" "ss * ns < 2 ^ 32"
    and s: "unat (vc_ulSectorSize (conf v)) = ss" by (auto simp: ramdisk_good_def)
  note off = ramdisk_offsets [OF s d(3) r]
  from r have "(unat st + unat n) * ss \<le> ns * ss" by (rule mult_le_mono1)
  then have le: "unat st * ss + unat n * ss \<le> length disk"
    unfolding d(2) add_mult_distrib by (simp only: mult.commute [of ss ns])
  show "DiskRead conf v st n b d =
      (Inr (), map (\<lambda>i. ramdisk_content v d (unat st * ss + i)) [0..<unat n * ss], d)"
    using d(1) l le
    by (auto simp: DiskRead_def Let_def off ramdisk_content_def overwrite_def slice_def intro!: nth_equalityI)
  show "fst (DiskWrite conf v st n b d) = Inr () \<and> ramdisk_good conf v ss ns (snd (DiskWrite conf v st n b d))"
    using d l le s by (simp add: DiskWrite_def Let_def off ramdisk_good_def)
  fix i
  show "ramdisk_content v (snd (DiskWrite conf v st n b d)) i =
      (if unat st * ss \<le> i \<and> i < unat st * ss + unat n * ss then b ! (i - unat st * ss)
       else ramdisk_content v d i)"
    using d(1) l le by (auto simp: DiskWrite_def Let_def off ramdisk_content_def overwrite_def nth_append)
qed

end
