(* ===== verification/Red_Demo.thy ===== *)
theory Red_Demo
  imports Red_Bdev
begin

text \<open>
  A concrete configuration on which the properties are exercised: one volume of sixteen
  sectors of 128 bytes on the RAM disk, a block being one sector, four buffers, and the
  block maps inline.
\<close>

definition demo_volconf :: "u8 \<Rightarrow> VOLCONF" where
  "demo_volconf v = \<lparr>vc_ulSectorSize = 128, vc_ullSectorCount = 16, vc_ullSectorOffset = 0,
     vc_fAtomicSectorWrite = True, vc_ulInodeCount = 2, vc_bBlockIoRetries = 2,
     vc_pszPathPrefix = [0]\<rparr>"

text \<open>A privileged user.\<close>

definition demo_identity :: os_identity where
  "demo_identity = \<lparr>osp_IsPrivileged = True, osp_UserId = 0, osp_IsGroupMember = (\<lambda>_. True),
     perm_override = None, unlink_override = None\<rparr>"

definition demo_env :: "ramdisk env" where
  "demo_env = \<lparr>REDCONF_VOLUME_COUNT = 1, BLOCK_SIZE_P2 = 7, REDCONF_BUFFER_COUNT = 4,
     REDCONF_DIRECT_POINTERS = 4, REDCONF_INDIRECT_POINTERS = 2, REDCONF_NAME_MAX = 12,
     REDCONF_ALIGNMENT_SIZE = 4, REDCONF_CRC_ALGORITHM = CRC_BITWISE,
     REDCONF_IMAP_INLINE = True, REDCONF_IMAP_EXTERNAL = True, REDCONF_API_POSIX = True,
     REDCONF_API_POSIX_LINK = True, REDCONF_API_POSIX_SYMLINK = False,
     REDCONF_API_POSIX_FRESERVE = False, REDCONF_POSIX_OWNER_PERM = False,
     REDCONF_DELETE_OPEN = False, REDCONF_INODE_BLOCKS = True, REDCONF_INODE_TIMESTAMPS = True,
     REDCONF_ATIME = False, REDCONF_API_POSIX_RENAME = True, REDCONF_RENAME_ATOMIC = True,
     REDCONF_TRANSACT_DEFAULT = 0, REDCONF_PATH_SEPARATOR = 0x2F,
     REDCONF_HANDLE_COUNT = 10, REDCONF_TASK_COUNT = 1, REDCONF_API_POSIX_CWD = False,
     REDCONF_API_POSIX_READDIR = True, REDOSCONF_SYMLINK_FOLLOW = False,
     REDCONF_API_POSIX_UNLINK = True, REDCONF_API_POSIX_RMDIR = True, REDCONF_API_POSIX_MKDIR = True, TRUNCATE_SUPPORTED = True,
     pbBlkBuf = 0, aMR_address = 0, gaRedVolConf = demo_volconf,
     RedOsBDevOpen = DiskOpen demo_volconf True, RedOsBDevClose = DiskClose,
     RedOsBDevGetGeometry = DiskGetGeometry, RedOsBDevRead = DiskRead demo_volconf,
     RedOsBDevWrite = DiskWrite demo_volconf, RedOsBDevFlush = DiskFlush,
     RedOsClockInit = Pair (Inr ()), RedOsClockUninit = Pair (Inr ()), RedOsMutexInit = Pair (Inr ()),
     RedOsMutexUninit = Pair (Inr ()),
     RedOsClockGetTime = (\<lambda>_. 0), RedOsIdentity = (\<lambda>_. demo_identity), RedOsTaskId = (\<lambda>_. 1), RedOsGroupId = (\<lambda>_. 0)\<rparr>"

definition demo_disk :: ramdisk where
  "demo_disk = (\<lambda>_. Some (replicate 2048 0))"

definition demo_volume :: VOLUME where
  "demo_volume = \<lparr>vol_fMounted = True, vol_fReadOnly = False,
     vol_ulTransMask = 0, vol_bBlockSectorShift = 0,
     vol_ulBlockCount = 16, vol_ulBlocksAllocable = 9,
     vol_ullMaxInodeSize = 0, vol_ullSequence = 5\<rparr>"

definition demo_corevol :: COREVOLUME where
  "demo_corevol = \<lparr>cv_ulVersion = 6, cv_fImapInline = True, cv_ulImapStartBN = 0,
     cv_ulImapNodeCount = 0, cv_ulInodeTableStartBN = 3, cv_ulInodeCount = 2,
     cv_ulFirstAllocableBN = 7, cv_aMR = (\<lambda>_. replicate 128 0), cv_bCurMR = 0, cv_fBranched = False,
     cv_ulAlmostFreeBlocks = 0, cv_fUseReservedBlocks = False, cv_ulReservedInodes = 0,
     cv_ulReservedInodeBlocks = 0, cv_fUseReservedInodeBlocks = False\<rparr>"

definition demo_buffers :: BUFFERCTX where
  "demo_buffers = \<lparr>bc_uNumUsed = 0, bc_abMRU = [3, 2, 1, 0],
     bc_aHead = replicate 4 \<lparr>bh_ulBlock = BBLK_INVALID, bh_bVolNum = 0, bh_bRefCount = 0, bh_uFlags = 0\<rparr>,
     bc_blocks = replicate 4 (replicate 128 0)\<rparr>"

definition demo_fs :: "ramdisk \<Rightarrow> ramdisk fs" where
  "demo_fs d = \<lparr>gbRedVolNum = 0, gaRedVolume = (\<lambda>_. demo_volume), gaRedCoreVol = (\<lambda>_. demo_corevol),
     gaRedBdevInfo = (\<lambda>_. \<lparr>bi_ulSectorSize = 128, bi_ullSectorCount = 16\<rparr>), gBufCtx = demo_buffers,
     os = d\<rparr>"

lemmas demo_defs = demo_volconf_def demo_env_def demo_volume_def demo_corevol_def demo_buffers_def
  demo_fs_def

lemma demo_simps [simp]:
  "REDCONF_VOLUME_COUNT demo_env = 1" "BLOCK_SIZE_P2 demo_env = 7" "REDCONF_BUFFER_COUNT demo_env = 4"
  "gaRedVolConf demo_env = demo_volconf" "RedOsBDevRead demo_env = DiskRead demo_volconf"
  "RedOsBDevWrite demo_env = DiskWrite demo_volconf" "RedOsBDevFlush demo_env = DiskFlush"
  "vc_bBlockIoRetries (demo_volconf v) = 2" "vc_ullSectorOffset (demo_volconf v) = 0"
  "vc_ulSectorSize (demo_volconf v) = 128"
  "gbRedVolNum (demo_fs d) = 0" "gaRedVolume (demo_fs d) v = demo_volume"
  "gaRedBdevInfo (demo_fs d) v = \<lparr>bi_ulSectorSize = 128, bi_ullSectorCount = 16\<rparr>"
  "gBufCtx (demo_fs d) = demo_buffers" "os (demo_fs d) = d" "gpRedVolume (demo_fs d) = demo_volume"
  "gpRedCoreVol (demo_fs d) = demo_corevol"
  "vol_ulBlockCount demo_volume = 16" "vol_bBlockSectorShift demo_volume = 0"
  "vol_fMounted demo_volume" "\<not> vol_fReadOnly demo_volume"
  by (simp_all add: demo_defs gp_defs)

lemma demo_block_size [simp]: "REDCONF_BLOCK_SIZE demo_env = 128"
  by (simp add: REDCONF_BLOCK_SIZE_def)

lemma demo_disk_good: "ramdisk_good demo_volconf 0 128 16 demo_disk"
  by (simp add: ramdisk_good_def demo_disk_def)

end
