(* ===== verification/Red_BlockIo.thy ===== *)
theory Red_BlockIo
  imports Red_Demo
begin

text \<open>
  The block input and output of \<^verbatim>\<open>core/driver/blockio.c\<close>: blocks of a volume are mapped to
  sectors of its device, a failing transfer is repeated as often as the volume
  configuration says, and an error that remains makes the volume read only. The retry
  counter of the code is a \<^verbatim>\<open>uint8_t\<close>.
\<close>

section \<open>The operations\<close>

text \<open>
  The retry loop from \<open>bRetryIdx\<close> on; \<open>f\<close> is one attempt, \<open>ret\<close> the status so far.
\<close>

partial_function (option) io_retry ::
    "u8 \<Rightarrow> ('x \<Rightarrow> (rederr + unit) \<times> 'x) \<Rightarrow> u8 \<Rightarrow> rederr + unit \<Rightarrow> 'x \<Rightarrow> ((rederr + unit) \<times> 'x) option" where
  "io_retry bBlockIoRetries f bRetryIdx ret x =
     (if bRetryIdx \<le> bBlockIoRetries
      then if fst (f x) = Inr () then Some (f x)
           else io_retry bBlockIoRetries f (bRetryIdx + 1) (fst (f x)) (snd (f x))
      else Some (ret, x))"

definition io_args_invalid :: "'d env \<Rightarrow> u8 \<Rightarrow> u32 \<Rightarrow> u32 \<Rightarrow> 'd fs \<Rightarrow> bool" where
  "io_args_invalid E bVolNum ulBlockStart ulBlockCount s \<longleftrightarrow>
     bVolNum \<ge> REDCONF_VOLUME_COUNT E \<or>
     ulBlockStart \<ge> vol_ulBlockCount (gaRedVolume s bVolNum) \<or>
     vol_ulBlockCount (gaRedVolume s bVolNum) - ulBlockStart < ulBlockCount \<or>
     ulBlockCount = 0"

definition ullSectorStart :: "'d env \<Rightarrow> u8 \<Rightarrow> u32 \<Rightarrow> 'd fs \<Rightarrow> u64" where
  "ullSectorStart E bVolNum ulBlockStart s =
     push_bit (unat (vol_bBlockSectorShift (gaRedVolume s bVolNum))) (ucast ulBlockStart) +
     vc_ullSectorOffset (gaRedVolConf E bVolNum)"

definition ulSectorCount :: "u8 \<Rightarrow> u32 \<Rightarrow> 'd fs \<Rightarrow> u32" where
  "ulSectorCount bVolNum ulBlockCount s =
     push_bit (unat (vol_bBlockSectorShift (gaRedVolume s bVolNum))) ulBlockCount"

text \<open>
  A read returns its status together with the bytes of the buffer, which a failed read may
  have changed as well.
\<close>

definition RedIoRead ::
    "'d env \<Rightarrow> u8 \<Rightarrow> u32 \<Rightarrow> u32 \<Rightarrow> bytes \<Rightarrow> ('d, (rederr + unit) \<times> bytes) op" where
  "RedIoRead E bVolNum ulBlockStart ulBlockCount pBuffer = (\<lambda>s.
     case (if io_args_invalid E bVolNum ulBlockStart ulBlockCount s
           then Some (Inl RED_EINVAL, pBuffer, s)
           else io_retry (vc_bBlockIoRetries (gaRedVolConf E bVolNum))
             (RedBDevRead E bVolNum (ullSectorStart E bVolNum ulBlockStart s)
               (ulSectorCount bVolNum ulBlockCount s)) 0 (Inr ()) (pBuffer, s)) of
       None \<Rightarrow> None
     | Some (ret, buf, t) \<Rightarrow>
         thenE (CRITICAL_ASSERT (is_ok ret \<or>
             bVolNum < REDCONF_VOLUME_COUNT E \<and> \<not> vol_fMounted (gaRedVolume t bVolNum)))
           (okE (ret, buf)) t)"

definition RedIoWrite :: "'d env \<Rightarrow> u8 \<Rightarrow> u32 \<Rightarrow> u32 \<Rightarrow> bytes \<Rightarrow> ('d, unit) op" where
  "RedIoWrite E bVolNum ulBlockStart ulBlockCount pBuffer = (\<lambda>s.
     case (if io_args_invalid E bVolNum ulBlockStart ulBlockCount s then Some (Inl RED_EINVAL, s)
           else io_retry (vc_bBlockIoRetries (gaRedVolConf E bVolNum))
             (RedBDevWrite E bVolNum (ullSectorStart E bVolNum ulBlockStart s)
               (ulSectorCount bVolNum ulBlockCount s) pBuffer) 0 (Inr ()) s) of
       None \<Rightarrow> None
     | Some (ret, t) \<Rightarrow> thenE (CRITICAL_ASSERT (is_ok ret)) (returnE ret) t)"

definition RedIoFlush :: "'d env \<Rightarrow> u8 \<Rightarrow> ('d, unit) op" where
  "RedIoFlush E bVolNum = (\<lambda>s.
     case (if bVolNum \<ge> REDCONF_VOLUME_COUNT E then Some (Inl RED_EINVAL, s)
           else io_retry (vc_bBlockIoRetries (gaRedVolConf E bVolNum)) (RedBDevFlush E bVolNum)
             0 (Inr ()) s) of
       None \<Rightarrow> None
     | Some (ret, t) \<Rightarrow> thenE (CRITICAL_ASSERT (is_ok ret)) (returnE ret) t)"

section \<open>Retrying\<close>

lemma io_retry_induct [consumes 1, case_names step]:
  assumes "io_retry n f i ret x = Some y"
    and "\<And>g n f i ret x y.
      (\<And>n f i ret x y. g n f i ret x = Some y \<Longrightarrow> P n f i ret x y) \<Longrightarrow>
      (if i \<le> n then if fst (f x) = Inr () then Some (f x) else g n f (i + 1) (fst (f x)) (snd (f x))
       else Some (ret, x)) = Some y \<Longrightarrow> P n f i ret x y"
  shows "P n f i ret x y"
  by (rule io_retry.raw_induct [of P "((((n, f), i), ret), x)" y, unfolded prod.case])
    (rule assms(2), assumption+, rule assms(1))

text \<open>At most \<open>k\<close> attempts, the last status being that of the first success or of the last failure.\<close>

fun attempts :: "nat \<Rightarrow> ('x \<Rightarrow> (rederr + unit) \<times> 'x) \<Rightarrow> rederr + unit \<Rightarrow> 'x \<Rightarrow> (rederr + unit) \<times> 'x" where
  "attempts 0 f ret x = (ret, x)"
| "attempts (Suc k) f ret x = (if fst (f x) = Inr () then f x else attempts k f (fst (f x)) (snd (f x)))"

lemma u8_le_step:
  "(i :: u8) \<le> n \<Longrightarrow> n < 255 \<Longrightarrow> unat n - unat i = (if i = n then 0 else Suc (unat n - unat (i + 1)))"
  "(i :: u8) \<le> n \<Longrightarrow> i \<noteq> n \<Longrightarrow> i + 1 \<le> n"
  "n < 255 \<Longrightarrow> \<not> (n + 1 \<le> (n :: u8))"
proof -
  have u: "unat (w + 1) = Suc (unat w)" if "w < 255" for w :: u8
    using that by (rule unat_Suc_u32)
  show "unat n - unat i = (if i = n then 0 else Suc (unat n - unat (i + 1)))" if "i \<le> n" "n < 255"
  proof (cases "i = n")
    case False
    with that have "i < n" by simp
    with that have "i < 255" by simp
    from u [OF this] \<open>i < n\<close> show ?thesis by (auto simp: word_less_nat_alt)
  qed simp
  show "i + 1 \<le> n" if "i \<le> n" "i \<noteq> n"
  proof -
    from that have "i < n" by simp
    then show ?thesis by (simp add: word_less_nat_alt word_le_nat_alt unat_Suc_u32)
  qed
  show "\<not> (n + 1 \<le> n)" if "n < 255"
    using u [OF that] by (simp add: word_le_nat_alt)
qed

lemma io_retry_attempts_from:
  assumes "n < 255"
  shows "i \<le> n \<Longrightarrow> k = unat n - unat i \<Longrightarrow> io_retry n f i ret x = Some (attempts (Suc k) f ret x)"
proof (induction k arbitrary: i ret x)
  case 0
  then have "i = n" using u8_le_step(1) [OF 0(1) assms] by (auto split: if_splits)
  with assms show ?case
    by (subst io_retry.simps) (auto simp: io_retry.simps [of _ _ "n + 1"] u8_le_step(3) prod_eq_iff)
next
  case (Suc k)
  then have ne: "i \<noteq> n" by auto
  have "i + 1 \<le> n" using Suc.prems(1) ne by (rule u8_le_step(2))
  moreover have "k = unat n - unat (i + 1)"
    using u8_le_step(1) [OF Suc.prems(1) assms] ne Suc.prems(2) by simp
  ultimately have "io_retry n f (i + 1) (fst (f x)) (snd (f x)) = Some (attempts (Suc k) f (fst (f x)) (snd (f x)))"
    by (rule Suc.IH)
  with Suc.prems(1) show ?case by (subst io_retry.simps) simp
qed

lemma io_retry_attempts: "n < 255 \<Longrightarrow> io_retry n f 0 ret x = Some (attempts (Suc (unat n)) f ret x)"
  by (rule io_retry_attempts_from) simp_all

text \<open>The states before each attempt, and the loop with the largest count.\<close>

definition after_fails :: "('x \<Rightarrow> (rederr + unit) \<times> 'x) \<Rightarrow> nat \<Rightarrow> 'x \<Rightarrow> 'x" where
  "after_fails f k = ((\<lambda>x. snd (f x)) ^^ k)"

lemma io_retry_first: "fst (f x) = Inr () \<Longrightarrow> io_retry n f 0 ret x = Some (f x)"
  by (subst io_retry.simps) simp

lemma after_fails_Suc: "after_fails f (Suc k) x = after_fails f k (snd (f x))"
  by (simp only: after_fails_def funpow_Suc_right comp_apply)

lemma after_fails_0 [simp]: "after_fails f 0 x = x"
  by (simp add: after_fails_def)

lemma u8_le_255: "(i :: u8) \<le> 255"
proof -
  have "unat i \<le> 255" using unat_u8_less [of i] by linarith
  then show ?thesis by (simp add: word_le_nat_alt)
qed

lemma io_retry_255_step:
  "io_retry 255 f i ret x =
     (if fst (f x) = Inr () then Some (f x) else io_retry 255 f (i + 1) (fst (f x)) (snd (f x)))"
  by (subst io_retry.simps) (simp add: u8_le_255)

lemma io_retry_255_ends:
  assumes "io_retry n f i ret x = Some y" and "n = 255"
  shows "\<exists>k. fst (f (after_fails f k x)) = Inr ()"
  using assms
proof (induction rule: io_retry_induct)
  case (step g n f i ret x y)
  then have "i \<le> n" by (simp add: u8_le_255)
  show ?case
  proof (cases "fst (f x) = Inr ()")
    case True
    then show ?thesis by (intro exI [of _ 0]) (simp add: after_fails_def)
  next
    case False
    with step.prems step.hyps \<open>i \<le> n\<close> have "g n f (i + 1) (fst (f x)) (snd (f x)) = Some y" by simp
    from step.IH [OF this step.prems] obtain k where "fst (f (after_fails f k (snd (f x)))) = Inr ()" ..
    then show ?thesis by (intro exI [of _ "Suc k"]) (simp add: after_fails_Suc)
  qed
qed

lemma io_retry_255_succeeds:
  "fst (f (after_fails f k x)) = Inr () \<Longrightarrow> \<exists>y. io_retry 255 f i ret x = Some y"
proof (induction k arbitrary: i ret x)
  case 0
  then show ?case by (subst io_retry_255_step) (simp add: after_fails_def)
next
  case (Suc k)
  then have "fst (f (after_fails f k (snd (f x)))) = Inr ()"
    by (simp add: after_fails_Suc)
  from Suc.IH [OF this] show ?case by (subst io_retry_255_step) simp
qed

text \<open>A relation that every attempt respects holds between the states before and after.\<close>

lemma io_retry_rel:
  assumes "io_retry n f i ret x = Some y" and "\<And>u. R u (snd (f u))"
    and "\<And>u. R u u" and "\<And>u v w. R u v \<Longrightarrow> R v w \<Longrightarrow> R u w"
  shows "R x (snd y)"
  using assms
proof (induction rule: io_retry_induct)
  case (step g n f i ret x y)
  show ?case
  proof (cases "i \<le> n \<and> fst (f x) \<noteq> Inr ()")
    case True
    with step.hyps have "g n f (i + 1) (fst (f x)) (snd (f x)) = Some y" by simp
    then have "R (snd (f x)) (snd y)" using step.IH step.prems by blast
    with step.prems show ?thesis by blast
  next
    case False
    with step.hyps step.prems show ?thesis by (auto split: if_splits)
  qed
qed

section \<open>Frames\<close>

text \<open>
  An input or output operation changes the device state, and may set the read-only flag of
  a volume, but nothing else.
\<close>

definition io_frame :: "'d fs \<Rightarrow> 'd fs \<Rightarrow> bool" where
  "io_frame s t \<longleftrightarrow> gbRedVolNum t = gbRedVolNum s \<and> gaRedCoreVol t = gaRedCoreVol s \<and>
     gaRedBdevInfo t = gaRedBdevInfo s \<and> gBufCtx t = gBufCtx s \<and>
     (\<forall>v. gaRedVolume t v\<lparr>vol_fReadOnly := False\<rparr> = gaRedVolume s v\<lparr>vol_fReadOnly := False\<rparr>)"

lemma io_frame_refl [simp]: "io_frame s s"
  by (simp add: io_frame_def)

lemma io_frame_trans: "io_frame s t \<Longrightarrow> io_frame t u \<Longrightarrow> io_frame s u"
  by (simp add: io_frame_def)

lemma io_frame_same_but_os: "same_but_os s t \<Longrightarrow> io_frame s t"
  by (simp add: io_frame_def same_but_os_selectors)

lemma io_frame_critical: "io_frame s (upd_vol (vol_fReadOnly_update (\<lambda>_. True)) s)"
  by (simp add: io_frame_def upd_vol_def set_vol_def)

lemma io_frame_volume:
  assumes "io_frame s t"
  shows "vol_fMounted (gaRedVolume t v) = vol_fMounted (gaRedVolume s v)"
    "vol_bBlockSectorShift (gaRedVolume t v) = vol_bBlockSectorShift (gaRedVolume s v)"
    "vol_ulBlockCount (gaRedVolume t v) = vol_ulBlockCount (gaRedVolume s v)"
    "vol_ulBlocksAllocable (gaRedVolume t v) = vol_ulBlocksAllocable (gaRedVolume s v)"
    "vol_ullSequence (gaRedVolume t v) = vol_ullSequence (gaRedVolume s v)"
proof -
  have eq: "gaRedVolume t v\<lparr>vol_fReadOnly := False\<rparr> = gaRedVolume s v\<lparr>vol_fReadOnly := False\<rparr>"
    using assms by (simp add: io_frame_def)
  show "vol_fMounted (gaRedVolume t v) = vol_fMounted (gaRedVolume s v)"
    "vol_bBlockSectorShift (gaRedVolume t v) = vol_bBlockSectorShift (gaRedVolume s v)"
    "vol_ulBlockCount (gaRedVolume t v) = vol_ulBlockCount (gaRedVolume s v)"
    "vol_ulBlocksAllocable (gaRedVolume t v) = vol_ulBlocksAllocable (gaRedVolume s v)"
    "vol_ullSequence (gaRedVolume t v) = vol_ullSequence (gaRedVolume s v)"
    using arg_cong [OF eq, of vol_fMounted] arg_cong [OF eq, of vol_bBlockSectorShift]
      arg_cong [OF eq, of vol_ulBlockCount] arg_cong [OF eq, of vol_ulBlocksAllocable]
      arg_cong [OF eq, of vol_ullSequence] by simp_all
qed

lemma io_frame_globals:
  assumes "io_frame s t"
  shows "gbRedVolNum t = gbRedVolNum s" "gaRedCoreVol t = gaRedCoreVol s"
    "gaRedBdevInfo t = gaRedBdevInfo s" "gBufCtx t = gBufCtx s"
    "gpRedCoreVol t = gpRedCoreVol s" "gpRedMR t = gpRedMR s"
    "vol_fMounted (gpRedVolume t) = vol_fMounted (gpRedVolume s)"
    "vol_ulBlockCount (gpRedVolume t) = vol_ulBlockCount (gpRedVolume s)"
    "vol_ulBlocksAllocable (gpRedVolume t) = vol_ulBlocksAllocable (gpRedVolume s)"
    "vol_ullSequence (gpRedVolume t) = vol_ullSequence (gpRedVolume s)"
  using assms io_frame_volume [OF assms, of "gbRedVolNum s"] by (simp_all add: io_frame_def gp_defs)

lemma CRITICAL_ERROR_app [simp]:
  "CRITICAL_ERROR s = Some (Inr (), upd_vol (vol_fReadOnly_update (\<lambda>_. True)) s)"
  by (simp add: CRITICAL_ERROR_def)

lemma CRITICAL_ASSERT_app [simp]:
  "CRITICAL_ASSERT b s = Some (Inr (), if b then s else upd_vol (vol_fReadOnly_update (\<lambda>_. True)) s)"
  by (simp add: CRITICAL_ASSERT_def whenE_def)

lemma thenE_CRITICAL_ASSERT:
  "thenE (CRITICAL_ASSERT b) g s = g (if b then s else upd_vol (vol_fReadOnly_update (\<lambda>_. True)) s)"
  by (rule thenE_Inr) simp

lemma RedIoRead_frame:
  assumes "RedIoRead E v b n buf s = Some (r, t)"
  shows "io_frame s t \<and> (\<exists>q. r = Inr q)"
proof (cases "io_args_invalid E v b n s")
  case True
  with assms show ?thesis
    by (auto simp: RedIoRead_def thenE_CRITICAL_ASSERT intro: io_frame_critical)
next
  case False
  with assms obtain ret buf' u where
    io: "io_retry (vc_bBlockIoRetries (gaRedVolConf E v))
        (RedBDevRead E v (ullSectorStart E v b s) (ulSectorCount v n s)) 0 (Inr ()) (buf, s)
      = Some (ret, buf', u)"
    and t: "(Inr (ret, buf'), if is_ok ret \<or> v < REDCONF_VOLUME_COUNT E \<and> \<not> vol_fMounted (gaRedVolume u v)
        then u else upd_vol (vol_fReadOnly_update (\<lambda>_. True)) u) = (r, t)"
    by (auto simp: RedIoRead_def thenE_CRITICAL_ASSERT split: option.splits)
  have "same_but_os (snd (buf, s)) (snd (snd (ret, buf', u)))"
    by (rule io_retry_rel [OF io, where R = "\<lambda>x y. same_but_os (snd x) (snd y)"])
      (auto intro: same_but_os_trans RedBDevRead_same split: prod.splits
        simp: RedBDevRead_def Let_def)
  then have "io_frame s u" by (simp add: io_frame_same_but_os)
  with t io_frame_critical [of u] show ?thesis by (auto intro: io_frame_trans)
qed

lemma RedIoWrite_frame:
  assumes "RedIoWrite E v b n buf s = Some (r, t)"
  shows "io_frame s t"
proof (cases "io_args_invalid E v b n s")
  case True
  with assms show ?thesis
    by (auto simp: RedIoWrite_def thenE_CRITICAL_ASSERT intro: io_frame_critical)
next
  case False
  with assms obtain ret u where
    io: "io_retry (vc_bBlockIoRetries (gaRedVolConf E v))
        (RedBDevWrite E v (ullSectorStart E v b s) (ulSectorCount v n s) buf) 0 (Inr ()) s = Some (ret, u)"
    and t: "(ret, if is_ok ret then u else upd_vol (vol_fReadOnly_update (\<lambda>_. True)) u) = (r, t)"
    by (auto simp: RedIoWrite_def thenE_CRITICAL_ASSERT split: option.splits)
  have "same_but_os s (snd (ret, u))"
    by (rule io_retry_rel [OF io, where R = same_but_os])
      (auto intro: same_but_os_trans simp: RedBDevWrite_def Let_def split: prod.splits)
  then have "io_frame s u" by (simp add: io_frame_same_but_os)
  with t io_frame_critical [of u] show ?thesis by (auto intro: io_frame_trans split: if_splits)
qed

lemma RedIoFlush_frame:
  assumes "RedIoFlush E v s = Some (r, t)"
  shows "io_frame s t"
proof (cases "v \<ge> REDCONF_VOLUME_COUNT E")
  case True
  with assms show ?thesis
    by (auto simp: RedIoFlush_def thenE_CRITICAL_ASSERT intro: io_frame_critical)
next
  case False
  with assms obtain ret u where
    io: "io_retry (vc_bBlockIoRetries (gaRedVolConf E v)) (RedBDevFlush E v) 0 (Inr ()) s = Some (ret, u)"
    and t: "(ret, if is_ok ret then u else upd_vol (vol_fReadOnly_update (\<lambda>_. True)) u) = (r, t)"
    by (auto simp: RedIoFlush_def thenE_CRITICAL_ASSERT split: option.splits)
  have "same_but_os s (snd (ret, u))"
    by (rule io_retry_rel [OF io, where R = same_but_os])
      (auto intro: same_but_os_trans simp: RedBDevFlush_def Let_def split: prod.splits)
  then have "io_frame s u" by (simp add: io_frame_same_but_os)
  with t io_frame_critical [of u] show ?thesis by (auto intro: io_frame_trans split: if_splits)
qed

section \<open>Blocks and sectors\<close>

text \<open>The geometry of a volume is consistent, as the mount establishes it.\<close>

definition geometry_ok :: "'d env \<Rightarrow> u8 \<Rightarrow> 'd fs \<Rightarrow> bool" where
  "geometry_ok E v s \<longleftrightarrow>
     unat (vol_ulBlockCount (gaRedVolume s v)) * 2 ^ unat (vol_bBlockSectorShift (gaRedVolume s v))
       \<le> unat (bi_ullSectorCount (gaRedBdevInfo s v)) \<and>
     unat (vc_ullSectorOffset (gaRedVolConf E v)) + unat (bi_ullSectorCount (gaRedBdevInfo s v)) < 2 ^ 64"

lemma unat_push_bit_no_overflow:
  "unat (w :: 'a::len word) * 2 ^ k < 2 ^ LENGTH('a) \<Longrightarrow> unat (push_bit k w) = unat w * 2 ^ k"
  using unsigned_push_bit_eq [of k w] push_bit_eq_mult [of k "unat w"] take_bit_nat_eq_self by metis

lemma sectors_of_blocks:
  assumes geo: "geometry_ok E v s" and args: "\<not> io_args_invalid E v b n s"
    and len: "unat n * 2 ^ unat (vol_bBlockSectorShift (gaRedVolume s v)) < 2 ^ 32"
  defines "sh \<equiv> unat (vol_bBlockSectorShift (gaRedVolume s v))"
    and "off \<equiv> unat (vc_ullSectorOffset (gaRedVolConf E v))"
  shows "unat (ullSectorStart E v b s) = off + unat b * 2 ^ sh"
    and "unat (ulSectorCount v n s) = unat n * 2 ^ sh"
    and "(unat b + unat n) * 2 ^ sh \<le> unat (bi_ullSectorCount (gaRedBdevInfo s v))"
    and "VOLUME_SECTOR_RANGE_IS_VALID E v (ullSectorStart E v b s) (ulSectorCount v n s) s"
proof -
  let ?bc = "vol_ulBlockCount (gaRedVolume s v)" and ?sc = "bi_ullSectorCount (gaRedBdevInfo s v)"
  from args have b: "b < ?bc" and n: "n \<le> ?bc - b" by (auto simp: io_args_invalid_def)
  then have "unat n \<le> unat ?bc - unat b"
    by (simp add: word_le_nat_alt unat_sub_le [OF less_imp_le [OF b]])
  moreover have "unat b < unat ?bc" using b by (simp add: word_less_nat_alt)
  ultimately have bn: "unat b + unat n \<le> unat ?bc" by linarith
  have "(unat b + unat n) * 2 ^ sh \<le> unat ?bc * 2 ^ sh" by (rule mult_le_mono1 [OF bn])
  also have "\<dots> \<le> unat ?sc" using geo by (simp add: geometry_ok_def sh_def)
  finally show le: "(unat b + unat n) * 2 ^ sh \<le> unat ?sc" .
  have lim: "off + unat ?sc < 2 ^ 64" using geo by (simp add: geometry_ok_def off_def)
  have bsh: "unat b * 2 ^ sh \<le> unat ?sc" using le by (simp add: add_mult_distrib)
  have "unat (push_bit sh (ucast b :: u64)) = unat b * 2 ^ sh"
    using unat_push_bit_no_overflow [of "ucast b :: u64" sh] bsh lim by simp
  then show st: "unat (ullSectorStart E v b s) = off + unat b * 2 ^ sh"
    using bsh lim by (simp add: ullSectorStart_def sh_def off_def unat_word_ariths)
  show ct: "unat (ulSectorCount v n s) = unat n * 2 ^ sh"
    using len by (simp add: ulSectorCount_def sh_def unat_push_bit_no_overflow)
  have l: "unat (VOLUME_SECTOR_LIMIT E v s) = off + unat ?sc"
    using lim by (simp add: VOLUME_SECTOR_LIMIT_def off_def unat_word_ariths)
  have "ullSectorStart E v b s \<le> VOLUME_SECTOR_LIMIT E v s"
    using st l bsh by (simp add: word_le_nat_alt)
  then have "unat (VOLUME_SECTOR_LIMIT E v s - ullSectorStart E v b s) = unat ?sc - unat b * 2 ^ sh"
    using st l by (simp add: unat_sub_le)
  then show "VOLUME_SECTOR_RANGE_IS_VALID E v (ullSectorStart E v b s) (ulSectorCount v n s) s"
    using st ct le by (simp add: VOLUME_SECTOR_RANGE_IS_VALID_def word_le_nat_alt off_def add_mult_distrib)
qed

lemma args_valid_device_range:
  assumes "geometry_ok E v s" and "\<not> io_args_invalid E v b n s"
    and "unat n * 2 ^ unat (vol_bBlockSectorShift (gaRedVolume s v)) < 2 ^ 32"
    and "unat (vc_ullSectorOffset (gaRedVolConf E v)) + unat (bi_ullSectorCount (gaRedBdevInfo s v)) \<le> nsect"
  shows "unat (ullSectorStart E v b s) + unat (ulSectorCount v n s) \<le> nsect"
  using sectors_of_blocks [OF assms(1-3)] assms(4) by (simp add: add_mult_distrib)

lemma io_args_valid_volume: "\<not> io_args_invalid E v b n s \<Longrightarrow> v < REDCONF_VOLUME_COUNT E"
  by (simp add: io_args_invalid_def not_le)

text \<open>On a working device the first attempt succeeds.\<close>

lemma RedIoRead_good:
  assumes dev: "sector_device (RedOsBDevRead E v) (RedOsBDevWrite E v) content good ss nsect"
    and good: "good (os s)" and geo: "geometry_ok E v s" and args: "\<not> io_args_invalid E v b n s"
    and len: "unat n * 2 ^ unat (vol_bBlockSectorShift (gaRedVolume s v)) < 2 ^ 32"
    and fit: "unat (vc_ullSectorOffset (gaRedVolConf E v)) + unat (bi_ullSectorCount (gaRedBdevInfo s v)) \<le> nsect"
    and buf: "length buf = unat n * 2 ^ unat (vol_bBlockSectorShift (gaRedVolume s v)) * ss"
  shows "RedIoRead E v b n buf s = Some (Inr (Inr (),
    sector_device.sectors content ss (os s) (unat (ullSectorStart E v b s)) (unat (ulSectorCount v n s))), s)"
proof -
  note sec = sectors_of_blocks [OF geo args len]
  have range: "unat (ullSectorStart E v b s) + unat (ulSectorCount v n s) \<le> nsect"
    by (rule args_valid_device_range [OF geo args len fit])
  have "RedOsBDevRead E v (ullSectorStart E v b s) (ulSectorCount v n s) buf (os s) =
      (Inr (), sector_device.sectors content ss (os s) (unat (ullSectorStart E v b s))
        (unat (ulSectorCount v n s)), os s)"
    by (rule sector_device.rd_sectors [OF dev good range]) (simp add: buf sec(2))
  then show ?thesis
    using args sec(4) io_args_valid_volume [OF args]
    by (simp add: RedIoRead_def io_retry_first RedBDevRead_def thenE_CRITICAL_ASSERT)
qed

lemma RedIoWrite_good:
  assumes dev: "sector_device (RedOsBDevRead E v) (RedOsBDevWrite E v) content good ss nsect"
    and good: "good (os s)" and geo: "geometry_ok E v s" and args: "\<not> io_args_invalid E v b n s"
    and len: "unat n * 2 ^ unat (vol_bBlockSectorShift (gaRedVolume s v)) < 2 ^ 32"
    and fit: "unat (vc_ullSectorOffset (gaRedVolConf E v)) + unat (bi_ullSectorCount (gaRedBdevInfo s v)) \<le> nsect"
    and buf: "length buf = unat n * 2 ^ unat (vol_bBlockSectorShift (gaRedVolume s v)) * ss"
  defines "d \<equiv> snd (RedOsBDevWrite E v (ullSectorStart E v b s) (ulSectorCount v n s) buf (os s))"
  shows "RedIoWrite E v b n buf s = Some (Inr (), s\<lparr>os := d\<rparr>)" and "good d"
proof -
  note sec = sectors_of_blocks [OF geo args len]
  have range: "unat (ullSectorStart E v b s) + unat (ulSectorCount v n s) \<le> nsect"
    by (rule args_valid_device_range [OF geo args len fit])
  have ok: "fst (RedOsBDevWrite E v (ullSectorStart E v b s) (ulSectorCount v n s) buf (os s)) = Inr () \<and> good d"
    unfolding d_def by (rule sector_device.wr_ok [OF dev good range]) (simp add: buf sec(2))
  then show "RedIoWrite E v b n buf s = Some (Inr (), s\<lparr>os := d\<rparr>)"
    using args sec(4) io_args_valid_volume [OF args]
    by (simp add: RedIoWrite_def io_retry_first RedBDevWrite_def thenE_CRITICAL_ASSERT d_def Let_def
        case_prod_unfold)
  from ok show "good d" ..
qed

section \<open>Properties\<close>


text \<open>
  On a working device, blocks written by RedIoWrite are what RedIoRead returns
  afterwards, and blocks outside the written range read as before. Both calls succeed at
  the first attempt and change no state but the device.
\<close>

theorem io_write_read:
  assumes dev: "sector_device (RedOsBDevRead E v) (RedOsBDevWrite E v) content good ss nsect"
    and good: "good (os s)" and geo: "geometry_ok E v s"
    and w: "\<not> io_args_invalid E v b n s" "unat n * 2 ^ unat (vol_bBlockSectorShift (gaRedVolume s v)) < 2 ^ 32"
    and r: "\<not> io_args_invalid E v b' n' s" "unat n' * 2 ^ unat (vol_bBlockSectorShift (gaRedVolume s v)) < 2 ^ 32"
    and fit: "unat (vc_ullSectorOffset (gaRedVolConf E v)) + unat (bi_ullSectorCount (gaRedBdevInfo s v)) \<le> nsect"
    and data: "length data = unat n * 2 ^ unat (vol_bBlockSectorShift (gaRedVolume s v)) * ss"
    and buf: "length buf = unat n' * 2 ^ unat (vol_bBlockSectorShift (gaRedVolume s v)) * ss"
    and rel: "b' = b \<and> n' = n \<or> unat b' + unat n' \<le> unat b \<or> unat b + unat n \<le> unat b'"
  shows "\<exists>d. RedIoWrite E v b n data s = Some (Inr (), s\<lparr>os := d\<rparr>) \<and>
    (\<exists>x. RedIoRead E v b' n' buf (s\<lparr>os := d\<rparr>) = Some (Inr (Inr (), x), s\<lparr>os := d\<rparr>) \<and>
      (if b' = b \<and> n' = n then x = data
       else RedIoRead E v b' n' buf s = Some (Inr (Inr (), x), s)))"
proof -
  let ?st = "ullSectorStart E v b s" and ?ct = "ulSectorCount v n s"
  let ?st' = "ullSectorStart E v b' s" and ?ct' = "ulSectorCount v n' s"
  let ?sh = "unat (vol_bBlockSectorShift (gaRedVolume s v))"
  define d where "d = snd (RedOsBDevWrite E v ?st ?ct data (os s))"
  let ?t = "s\<lparr>os := d\<rparr>" and ?S = "sector_device.sectors content ss"
  have wr: "RedIoWrite E v b n data s = Some (Inr (), ?t)" and gd: "good d"
    unfolding d_def by (rule RedIoWrite_good [OF dev good geo w fit data])+
  have same: "ullSectorStart E v b' ?t = ?st'" "ulSectorCount v n' ?t = ?ct'"
    "geometry_ok E v ?t = geometry_ok E v s" "io_args_invalid E v b' n' ?t = io_args_invalid E v b' n' s"
    by (simp_all add: ullSectorStart_def ulSectorCount_def geometry_ok_def io_args_invalid_def)
  have rd: "RedIoRead E v b' n' buf ?t = Some (Inr (Inr (), ?S d (unat ?st') (unat ?ct')), ?t)"
    using RedIoRead_good [OF dev, of ?t b' n' buf] gd geo r fit buf by (simp add: same)
  have rd0: "RedIoRead E v b' n' buf s = Some (Inr (Inr (), ?S (os s) (unat ?st') (unat ?ct')), s)"
    by (rule RedIoRead_good [OF dev good geo r fit buf])
  note sw = sectors_of_blocks [OF geo w] and sr = sectors_of_blocks [OF geo r]
  have range: "unat ?st + unat ?ct \<le> nsect" by (rule args_valid_device_range [OF geo w fit])
  have ld: "length data = unat ?ct * ss" by (simp add: data sw(2))
  show ?thesis
  proof (cases "b' = b \<and> n' = n")
    case True
    then have "?S d (unat ?st') (unat ?ct') = data"
      unfolding d_def using sector_device.sectors_wr_same [OF dev good range ld] by simp
    with wr rd True show ?thesis by (auto intro!: exI [of _ d])
  next
    case False
    with rel have "(unat b' + unat n') * 2 ^ ?sh \<le> unat b * 2 ^ ?sh \<or>
        (unat b + unat n) * 2 ^ ?sh \<le> unat b' * 2 ^ ?sh"
      by (metis mult_le_mono1)
    then have "unat ?st' + unat ?ct' \<le> unat ?st \<or> unat ?st + unat ?ct \<le> unat ?st'"
      using sw(1,2) sr(1,2) by (simp add: add_mult_distrib)
    then have "?S d (unat ?st') (unat ?ct') = ?S (os s) (unat ?st') (unat ?ct')"
      unfolding d_def by (rule sector_device.sectors_wr_other [OF dev good range ld])
    with wr rd rd0 False show ?thesis by (auto intro!: exI [of _ d])
  qed
qed

lemma demo_geometry: "geometry_ok demo_env v (demo_fs d)"
  by (simp add: geometry_ok_def)

lemma demo_args: "b + n \<le> 16 \<Longrightarrow> b < 16 \<Longrightarrow> n \<noteq> 0 \<Longrightarrow> n \<le> 16 - b \<Longrightarrow>
    \<not> io_args_invalid demo_env 0 b n (demo_fs d)"
  by (simp add: io_args_invalid_def not_le not_less)


theorem io_write_read_witness:
  "\<exists>d. RedIoWrite demo_env 0 9 1 (replicate 128 7) (demo_fs demo_disk) = Some (Inr (), demo_fs demo_disk\<lparr>os := d\<rparr>) \<and>
     RedIoRead demo_env 0 9 1 (replicate 128 0) (demo_fs demo_disk\<lparr>os := d\<rparr>) =
       Some (Inr (Inr (), replicate 128 7), demo_fs demo_disk\<lparr>os := d\<rparr>)"
proof -
  have dev: "sector_device (RedOsBDevRead demo_env 0) (RedOsBDevWrite demo_env 0) (ramdisk_content 0)
      (ramdisk_good demo_volconf 0 128 16) 128 16"
    by (simp add: ramdisk.sector_device_axioms)
  show ?thesis
    using io_write_read [OF dev, of "demo_fs demo_disk" 9 1 9 1 "replicate 128 7" "replicate 128 0"]
    by (auto simp: demo_disk_good demo_geometry demo_args)
qed

text \<open>
  An input or output operation makes at most one attempt more than the configured
  number of retries and stops at the first success; if all attempts fail, it returns the
  error of the last one and makes the current volume read only.
\<close>

theorem io_write_retries:
  assumes "\<not> io_args_invalid E v b n s" and "vc_bBlockIoRetries (gaRedVolConf E v) < 255"
  shows "RedIoWrite E v b n buf s =
    (let (ret, t) = attempts (Suc (unat (vc_bBlockIoRetries (gaRedVolConf E v))))
         (RedBDevWrite E v (ullSectorStart E v b s) (ulSectorCount v n s) buf) (Inr ()) s
     in Some (ret, if is_ok ret then t else upd_vol (\<lambda>x. x\<lparr>vol_fReadOnly := True\<rparr>) t))"
  using assms by (simp add: RedIoWrite_def io_retry_attempts thenE_CRITICAL_ASSERT split: prod.split)

theorem io_write_retries_witness:
  "RedIoWrite demo_env 0 9 1 [] (demo_fs (\<lambda>_. None)) =
     Some (Inl RED_EINVAL, upd_vol (\<lambda>x. x\<lparr>vol_fReadOnly := True\<rparr>) (demo_fs (\<lambda>_. None)))"
proof -
  have f: "RedBDevWrite demo_env 0 (ullSectorStart demo_env 0 9 (demo_fs (\<lambda>_. None)))
      (ulSectorCount 0 1 (demo_fs (\<lambda>_. None))) [] (demo_fs (\<lambda>_. None)) =
      (Inl RED_EINVAL, demo_fs (\<lambda>_. None))"
    by (simp add: RedBDevWrite_def DiskWrite_def demo_fs_def)
  have "attempts k (RedBDevWrite demo_env 0 (ullSectorStart demo_env 0 9 (demo_fs (\<lambda>_. None)))
      (ulSectorCount 0 1 (demo_fs (\<lambda>_. None))) []) r (demo_fs (\<lambda>_. None)) =
      (if k = 0 then r else Inl RED_EINVAL, demo_fs (\<lambda>_. None))" for k r
    by (induction k arbitrary: r) (simp_all add: f)
  with io_write_retries [of demo_env 0 9 1 "demo_fs (\<lambda>_. None)" "[]"] show ?thesis
    by (simp add: demo_args word_less_nat_alt)
qed

text \<open>
  With 255 configured retries the 8-bit retry counter never exceeds the bound, so a
  flush returns only if some attempt succeeds: on a device that keeps failing it runs for
  ever.
\<close>

theorem io_flush_255_never_gives_up:
  assumes "v < REDCONF_VOLUME_COUNT E" and "vc_bBlockIoRetries (gaRedVolConf E v) = 255"
  shows "RedIoFlush E v s = None \<longleftrightarrow>
    (\<forall>k. fst (RedBDevFlush E v (after_fails (RedBDevFlush E v) k s)) \<noteq> Inr ())"
proof -
  have v: "\<not> REDCONF_VOLUME_COUNT E \<le> v" using assms(1) by (simp add: not_le)
  show ?thesis
proof
  assume none: "RedIoFlush E v s = None"
  show "\<forall>k. fst (RedBDevFlush E v (after_fails (RedBDevFlush E v) k s)) \<noteq> Inr ()"
  proof (rule ccontr)
    assume "\<not> ?thesis"
    then obtain k where "fst (RedBDevFlush E v (after_fails (RedBDevFlush E v) k s)) = Inr ()" by blast
    then obtain y where "io_retry 255 (RedBDevFlush E v) 0 (Inr ()) s = Some y"
      using io_retry_255_succeeds [of "RedBDevFlush E v" k s 0 "Inr ()"] by blast
    with none v assms(2) show False
      by (cases y) (simp add: RedIoFlush_def thenE_CRITICAL_ASSERT)
  qed
next
  assume fails: "\<forall>k. fst (RedBDevFlush E v (after_fails (RedBDevFlush E v) k s)) \<noteq> Inr ()"
  then have "io_retry 255 (RedBDevFlush E v) 0 (Inr ()) s = None"
    using io_retry_255_ends [of 255 "RedBDevFlush E v" 0 "Inr ()" s]
    by (cases "io_retry 255 (RedBDevFlush E v) 0 (Inr ()) s") auto
  with v assms(2) show "RedIoFlush E v s = None" by (simp add: RedIoFlush_def)
qed
qed

definition demo_env_255 :: "ramdisk env" where
  "demo_env_255 = demo_env\<lparr>gaRedVolConf := (\<lambda>v. demo_volconf v\<lparr>vc_bBlockIoRetries := 255\<rparr>)\<rparr>"

theorem io_flush_255_never_gives_up_witness:
  "RedIoFlush demo_env_255 0 (demo_fs (\<lambda>_. None)) = None"
proof -
  let ?s = "demo_fs (\<lambda>_. None)"
  have f: "RedBDevFlush demo_env_255 0 ?s = (Inl RED_EINVAL, ?s)"
    by (simp add: RedBDevFlush_def DiskFlush_def demo_env_255_def demo_env_def demo_fs_def)
  have "after_fails (RedBDevFlush demo_env_255 0) k ?s = ?s" for k
    by (induction k) (simp_all add: after_fails_Suc f)
  with io_flush_255_never_gives_up [of 0 demo_env_255 ?s] f show ?thesis
    by (simp add: demo_env_255_def demo_env_def)
qed

text \<open>
  The range check of the block device module, \<^verbatim>\<open>VOLUME_SECTOR_RANGE_IS_VALID\<close>, subtracts
  the start from the end of the volume without testing their order: a read that starts
  past the end is passed on to the device, unless it is within \<open>2 ^ 32\<close> sectors of
  the largest sector number.
\<close>

theorem range_check_accepts_start_past_end:
  assumes "v < REDCONF_VOLUME_COUNT E" and "VOLUME_SECTOR_LIMIT E v s < st"
    and "vc_ullSectorOffset (gaRedVolConf E v) \<le> VOLUME_SECTOR_LIMIT E v s"
    and "unat st + unat n \<le> 2 ^ 64"
  shows "RedBDevRead E v st n (b, s) =
    (let (ret, buf, d) = RedOsBDevRead E v st n b (os s) in (ret, buf, s\<lparr>os := d\<rparr>))"
proof -
  let ?l = "VOLUME_SECTOR_LIMIT E v s"
  have lt: "unat ?l < unat st" using assms(2) by (simp add: word_less_nat_alt)
  have "unat (?l - st) = 2 ^ 64 + unat ?l - unat st"
    using lt unsigned_less [of st] by (simp add: unat_sub_if_size word_size)
  then have "unat n \<le> unat (?l - st)" using assms(4) by linarith
  then have "VOLUME_SECTOR_RANGE_IS_VALID E v st n s"
    using assms(2,3) by (simp add: VOLUME_SECTOR_RANGE_IS_VALID_def word_le_nat_alt word_less_nat_alt)
  moreover have "\<not> REDCONF_VOLUME_COUNT E \<le> v" using assms(1) by (simp add: not_le)
  ultimately show ?thesis by (simp add: RedBDevRead_def)
qed

theorem range_check_accepts_start_past_end_witness:
  "fst (RedBDevRead demo_env 0 17 1 (replicate 128 1, demo_fs demo_disk)) = Inr ()"
proof -
  have "VOLUME_SECTOR_LIMIT demo_env 0 (demo_fs demo_disk) = 16"
    by (simp add: VOLUME_SECTOR_LIMIT_def)
  then show ?thesis
    using range_check_accepts_start_past_end [of 0 demo_env "demo_fs demo_disk" 17 1 "replicate 128 1"]
    by (simp add: DiskRead_def demo_disk_def)
qed

end
