(* ===== verification/Red_BufferCmn.thy ===== *)
theory Red_BufferCmn
  imports Red_BlockIo
begin

text \<open>
  The part of the buffer module that knows about metadata, \<^verbatim>\<open>core/driver/buffercmn.c\<close>, with
  the flags of \<^verbatim>\<open>redbufferpriv.h\<close> and the sequence number of \<^verbatim>\<open>volume.c\<close>: finalising a node
  before it is written (signature, sequence number, CRC) and checking one that was read.
  A buffer pointer is the byte offset from \<^verbatim>\<open>pbBlkBuf\<close>; the bytes behind it are passed along.
\<close>

section \<open>Flags\<close>

definition BFLAG_DIRTY :: u16 where "BFLAG_DIRTY = 0x0001"
definition BFLAG_NEW :: u16 where "BFLAG_NEW = 0x0002"
definition BFLAG_META :: u16 where "BFLAG_META = 0x8000"
definition BFLAG_META_MASTER :: u16 where "BFLAG_META_MASTER = 0x0004 OR BFLAG_META"
definition BFLAG_META_IMAP :: u16 where "BFLAG_META_IMAP = 0x0008 OR BFLAG_META"
definition BFLAG_META_INODE :: u16 where "BFLAG_META_INODE = 0x0010 OR BFLAG_META"
definition BFLAG_META_INDIR :: u16 where "BFLAG_META_INDIR = 0x0020 OR BFLAG_META"
definition BFLAG_META_DINDIR :: u16 where "BFLAG_META_DINDIR = 0x0040 OR BFLAG_META"
definition BFLAG_META_DIRECTORY :: u16 where "BFLAG_META_DIRECTORY = 0x0080 OR BFLAG_META"

definition BFLAG_META_MASK :: u16 where
  "BFLAG_META_MASK = BFLAG_META_MASTER OR BFLAG_META_IMAP OR BFLAG_META_INODE OR BFLAG_META_INDIR OR
     BFLAG_META_DINDIR OR BFLAG_META_DIRECTORY"

definition BFLAG_MASK :: u16 where "BFLAG_MASK = BFLAG_DIRTY OR BFLAG_NEW OR BFLAG_META_MASK"

definition IS_POWER_OF_2 :: "u16 \<Rightarrow> bool" where
  "IS_POWER_OF_2 val \<longleftrightarrow> val > 0 \<and> val AND ((NOT val) + 1) = val"

definition BFLAG_TYPE_IS_VALID :: "u16 \<Rightarrow> bool" where
  "BFLAG_TYPE_IS_VALID flags \<longleftrightarrow>
     flags AND BFLAG_META_MASK = 0 \<or> IS_POWER_OF_2 ((flags AND BFLAG_META_MASK) AND NOT BFLAG_META)"

lemmas bflag_defs = BFLAG_DIRTY_def BFLAG_NEW_def BFLAG_META_def BFLAG_META_MASTER_def
  BFLAG_META_IMAP_def BFLAG_META_INODE_def BFLAG_META_INDIR_def BFLAG_META_DINDIR_def
  BFLAG_META_DIRECTORY_def BFLAG_META_MASK_def BFLAG_MASK_def

lemma bflag_values:
  "BFLAG_META_MASTER = 0x8004" "BFLAG_META_IMAP = 0x8008" "BFLAG_META_INODE = 0x8010"
  "BFLAG_META_INDIR = 0x8020" "BFLAG_META_DINDIR = 0x8040" "BFLAG_META_DIRECTORY = 0x8080"
  "BFLAG_META_MASK = 0x80FC" "BFLAG_MASK = 0x80FF" "BFLAG_META = 0x8000" "BFLAG_DIRTY = 1"
  "BFLAG_NEW = 2"
  by (simp_all add: bflag_defs)

section \<open>The sequence number\<close>

definition RedVolSeqNumIncrement :: "'d env \<Rightarrow> u8 \<Rightarrow> ('d, unit) op" where
  "RedVolSeqNumIncrement E bVolNum = (\<lambda>s.
     if bVolNum \<ge> REDCONF_VOLUME_COUNT E then Some (Inl RED_EINVAL, s)
     else if vol_ullSequence (gaRedVolume s bVolNum) = 0xFFFFFFFFFFFFFFFF
     then thenE CRITICAL_ERROR (errE RED_EFUBAR) s
     else Some (Inr (), set_vol bVolNum (\<lambda>v. v\<lparr>vol_ullSequence := vol_ullSequence v + 1\<rparr>) s))"

section \<open>Node signatures\<close>

text \<open>
  The signature for the type flags, zero when the type is none of the configuration's. The
  switch statements of \<^verbatim>\<open>RedBufferFinalize\<close> and \<^verbatim>\<open>RedBufferIsValid\<close> list the same cases.
\<close>

definition finalize_signature :: "'d env \<Rightarrow> u16 \<Rightarrow> u32" where
  "finalize_signature E metaflags =
     (if metaflags = BFLAG_META_MASTER then META_SIG_MASTER
      else if REDCONF_IMAP_EXTERNAL E \<and> metaflags = BFLAG_META_IMAP then META_SIG_IMAP
      else if metaflags = BFLAG_META_INODE then META_SIG_INODE
      else if DINDIRS_EXIST E \<and> metaflags = BFLAG_META_DINDIR then META_SIG_DINDIR
      else if INDIRS_EXIST E \<and> metaflags = BFLAG_META_INDIR then META_SIG_INDIR
      else if REDCONF_API_POSIX E \<and> metaflags = BFLAG_META_DIRECTORY then META_SIG_DIRECTORY
      else 0)"

definition signature_valid :: "'d env \<Rightarrow> u32 \<Rightarrow> u16 \<Rightarrow> bool" where
  "signature_valid E sig uMetaFlags =
     (if sig = META_SIG_MASTER then uMetaFlags = BFLAG_META_MASTER
      else if REDCONF_IMAP_EXTERNAL E \<and> sig = META_SIG_IMAP then uMetaFlags = BFLAG_META_IMAP
      else if sig = META_SIG_INODE then uMetaFlags = BFLAG_META_INODE
      else if DINDIRS_EXIST E \<and> sig = META_SIG_DINDIR then uMetaFlags = BFLAG_META_DINDIR
      else if INDIRS_EXIST E \<and> sig = META_SIG_INDIR then uMetaFlags = BFLAG_META_INDIR
      else if REDCONF_API_POSIX E \<and> sig = META_SIG_DIRECTORY then uMetaFlags = BFLAG_META_DIRECTORY
      else False)"

section \<open>Checking and finalising\<close>

definition node_crc :: "'d env \<Rightarrow> nat \<Rightarrow> bytes \<Rightarrow> u32" where
  "node_crc E p b = RedCrcNode (REDCONF_CRC_ALGORITHM E) (REDCONF_ALIGNMENT_SIZE E) (pbBlkBuf E + p)
     (REDCONF_BLOCK_SIZE E) (Some b)"

definition RedBufferIsValid :: "'d env \<Rightarrow> nat \<Rightarrow> bytes \<Rightarrow> u16 \<Rightarrow> 'd fs \<Rightarrow> bool" where
  "RedBufferIsValid E p pbBuffer uFlags s =
     (if uFlags AND BFLAG_MASK \<noteq> uFlags then False
      else if \<not> signature_valid E (hdr_ulSignature pbBuffer) (uFlags AND BFLAG_META_MASK) then False
      else if hdr_ulCRC pbBuffer \<noteq> node_crc E p pbBuffer then False
      else if vol_fMounted (gpRedVolume s) \<and> hdr_ullSequence pbBuffer \<ge> vol_ullSequence (gpRedVolume s)
      then False
      else True)"

text \<open>The buffer behind a pointer and its replacement.\<close>

definition buf_at :: "'d env \<Rightarrow> nat \<Rightarrow> 'd fs \<Rightarrow> bytes" where
  "buf_at E p s = bc_blocks (gBufCtx s) ! (p div BSIZE E)"

definition upd_buf :: "'d env \<Rightarrow> nat \<Rightarrow> (bytes \<Rightarrow> bytes) \<Rightarrow> 'd fs \<Rightarrow> 'd fs" where
  "upd_buf E p f s = s\<lparr>gBufCtx := (gBufCtx s)\<lparr>bc_blocks :=
     (bc_blocks (gBufCtx s))[p div BSIZE E := f (buf_at E p s)]\<rparr>\<rparr>"

definition finalized :: "'d env \<Rightarrow> nat \<Rightarrow> u32 \<Rightarrow> u64 \<Rightarrow> bytes \<Rightarrow> bytes" where
  "finalized E p ulSignature ullSeqNum b =
     (let b = put32 NODEHEADER_OFFSET_SIG ulSignature b;
          b = put64 NODEHEADER_OFFSET_SEQ ullSeqNum b;
          ulCrc = node_crc E p b
      in put32 NODEHEADER_OFFSET_CRC ulCrc b)"

definition RedBufferFinalize :: "'d env \<Rightarrow> nat \<Rightarrow> u8 \<Rightarrow> u16 \<Rightarrow> ('d, unit) op" where
  "RedBufferFinalize E p bVolNum uFlags =
     (if bVolNum \<ge> REDCONF_VOLUME_COUNT E \<or> uFlags AND BFLAG_MASK \<noteq> uFlags then errE RED_EINVAL
      else let ulSignature = finalize_signature E (uFlags AND BFLAG_META_MASK)
        in if ulSignature = 0 then errE RED_EINVAL
        else bindE (getE (\<lambda>s. vol_ullSequence (gaRedVolume s bVolNum))) (\<lambda>ullSeqNum.
          thenE (RedVolSeqNumIncrement E bVolNum)
            (modE (upd_buf E p (finalized E p ulSignature ullSeqNum)))))"

section \<open>Frames\<close>

text \<open>
  The buffer operations leave the core volumes, the device information and the current
  volume alone; of a volume they change the read-only flag and the sequence number at most.
\<close>

definition buf_frame :: "'d fs \<Rightarrow> 'd fs \<Rightarrow> bool" where
  "buf_frame s t \<longleftrightarrow> gbRedVolNum t = gbRedVolNum s \<and> gaRedCoreVol t = gaRedCoreVol s \<and>
     gaRedBdevInfo t = gaRedBdevInfo s \<and>
     (\<forall>v. gaRedVolume t v\<lparr>vol_fReadOnly := False, vol_ullSequence := 0\<rparr> =
          gaRedVolume s v\<lparr>vol_fReadOnly := False, vol_ullSequence := 0\<rparr>)"

lemma buf_frame_refl [simp]: "buf_frame s s"
  by (simp add: buf_frame_def)

lemma buf_frame_trans: "buf_frame s t \<Longrightarrow> buf_frame t u \<Longrightarrow> buf_frame s u"
  by (simp add: buf_frame_def)

lemma buf_frame_io: "io_frame s t \<Longrightarrow> buf_frame s t"
proof -
  assume io: "io_frame s t"
  have "gaRedVolume t v\<lparr>vol_fReadOnly := False, vol_ullSequence := 0\<rparr> =
      gaRedVolume s v\<lparr>vol_fReadOnly := False, vol_ullSequence := 0\<rparr>" for v
    using io arg_cong [of "gaRedVolume t v\<lparr>vol_fReadOnly := False\<rparr>" "gaRedVolume s v\<lparr>vol_fReadOnly := False\<rparr>"
        "\<lambda>x. x\<lparr>vol_ullSequence := 0\<rparr>"]
    by (simp add: io_frame_def)
  with io show ?thesis by (simp add: buf_frame_def io_frame_def)
qed

lemma buf_frame_ctx [simp]: "buf_frame s (gBufCtx_update f s)"
  by (simp add: buf_frame_def)

lemma buf_frame_upd_buf [simp]: "buf_frame s (upd_buf E p f s)"
  by (simp add: upd_buf_def)

lemma buf_frame_critical [simp]: "buf_frame s (upd_vol (vol_fReadOnly_update g) s)"
  by (simp add: buf_frame_def upd_vol_def set_vol_def)

lemma buf_frame_globals:
  assumes "buf_frame s t"
  shows "gbRedVolNum t = gbRedVolNum s" "gaRedCoreVol t = gaRedCoreVol s"
    "gaRedBdevInfo t = gaRedBdevInfo s"
    "gpRedCoreVol t = gpRedCoreVol s" "gpRedMR t = gpRedMR s"
    "vol_fMounted (gaRedVolume t v) = vol_fMounted (gaRedVolume s v)"
    "vol_bBlockSectorShift (gaRedVolume t v) = vol_bBlockSectorShift (gaRedVolume s v)"
    "vol_ulBlockCount (gaRedVolume t v) = vol_ulBlockCount (gaRedVolume s v)"
    "vol_ulBlocksAllocable (gaRedVolume t v) = vol_ulBlocksAllocable (gaRedVolume s v)"
    "vol_fMounted (gpRedVolume t) = vol_fMounted (gpRedVolume s)"
    "vol_ulBlockCount (gpRedVolume t) = vol_ulBlockCount (gpRedVolume s)"
    "vol_ulBlocksAllocable (gpRedVolume t) = vol_ulBlocksAllocable (gpRedVolume s)"
proof -
  have eq: "gaRedVolume t w\<lparr>vol_fReadOnly := False, vol_ullSequence := 0\<rparr> =
      gaRedVolume s w\<lparr>vol_fReadOnly := False, vol_ullSequence := 0\<rparr>" for w
    using assms by (simp add: buf_frame_def)
  have vol: "vol_fMounted (gaRedVolume t w) = vol_fMounted (gaRedVolume s w)"
    "vol_bBlockSectorShift (gaRedVolume t w) = vol_bBlockSectorShift (gaRedVolume s w)"
    "vol_ulBlockCount (gaRedVolume t w) = vol_ulBlockCount (gaRedVolume s w)"
    "vol_ulBlocksAllocable (gaRedVolume t w) = vol_ulBlocksAllocable (gaRedVolume s w)" for w
    using arg_cong [OF eq [of w], of vol_fMounted] arg_cong [OF eq [of w], of vol_bBlockSectorShift]
      arg_cong [OF eq [of w], of vol_ulBlockCount] arg_cong [OF eq [of w], of vol_ulBlocksAllocable]
    by simp_all
  show "gbRedVolNum t = gbRedVolNum s" "gaRedCoreVol t = gaRedCoreVol s"
    "gaRedBdevInfo t = gaRedBdevInfo s"
    "gpRedCoreVol t = gpRedCoreVol s" "gpRedMR t = gpRedMR s"
    "vol_fMounted (gaRedVolume t v) = vol_fMounted (gaRedVolume s v)"
    "vol_bBlockSectorShift (gaRedVolume t v) = vol_bBlockSectorShift (gaRedVolume s v)"
    "vol_ulBlockCount (gaRedVolume t v) = vol_ulBlockCount (gaRedVolume s v)"
    "vol_ulBlocksAllocable (gaRedVolume t v) = vol_ulBlocksAllocable (gaRedVolume s v)"
    "vol_fMounted (gpRedVolume t) = vol_fMounted (gpRedVolume s)"
    "vol_ulBlockCount (gpRedVolume t) = vol_ulBlockCount (gpRedVolume s)"
    "vol_ulBlocksAllocable (gpRedVolume t) = vol_ulBlocksAllocable (gpRedVolume s)"
    using assms vol by (simp_all add: buf_frame_def gp_defs)
qed

lemma RedVolSeqNumIncrement_frame:
  "RedVolSeqNumIncrement E v s = Some (r, t) \<Longrightarrow> buf_frame s t \<and> gBufCtx t = gBufCtx s \<and> os t = os s"
  by (auto simp: RedVolSeqNumIncrement_def thenE_Inr [OF CRITICAL_ERROR_app] buf_frame_def set_vol_def upd_vol_def
      split: if_splits)

lemma RedBufferFinalize_frame:
  "RedBufferFinalize E p v f s = Some (r, t) \<Longrightarrow>
   buf_frame s t \<and> os t = os s \<and> bc_abMRU (gBufCtx t) = bc_abMRU (gBufCtx s) \<and>
   bc_aHead (gBufCtx t) = bc_aHead (gBufCtx s) \<and> bc_uNumUsed (gBufCtx t) = bc_uNumUsed (gBufCtx s)"
  unfolding RedBufferFinalize_def Let_def
  by (fastforce split: if_splits elim!: thenE_eq_SomeE dest: RedVolSeqNumIncrement_frame
      intro: buf_frame_trans simp: upd_buf_def)

section \<open>Finalised nodes are valid\<close>

lemma META_SIG_distinct:
  "META_SIG_MASTER \<noteq> 0" "META_SIG_IMAP \<noteq> 0" "META_SIG_INODE \<noteq> 0" "META_SIG_DINDIR \<noteq> 0"
  "META_SIG_INDIR \<noteq> 0" "META_SIG_DIRECTORY \<noteq> 0"
  "META_SIG_IMAP \<noteq> META_SIG_MASTER" "META_SIG_INODE \<noteq> META_SIG_MASTER" "META_SIG_DINDIR \<noteq> META_SIG_MASTER"
  "META_SIG_INDIR \<noteq> META_SIG_MASTER" "META_SIG_DIRECTORY \<noteq> META_SIG_MASTER"
  "META_SIG_INODE \<noteq> META_SIG_IMAP" "META_SIG_DINDIR \<noteq> META_SIG_IMAP" "META_SIG_INDIR \<noteq> META_SIG_IMAP"
  "META_SIG_DIRECTORY \<noteq> META_SIG_IMAP" "META_SIG_DINDIR \<noteq> META_SIG_INODE" "META_SIG_INDIR \<noteq> META_SIG_INODE"
  "META_SIG_DIRECTORY \<noteq> META_SIG_INODE" "META_SIG_INDIR \<noteq> META_SIG_DINDIR"
  "META_SIG_DIRECTORY \<noteq> META_SIG_DINDIR" "META_SIG_DIRECTORY \<noteq> META_SIG_INDIR"
  by (simp_all add: META_SIG_defs)

lemma finalize_signature_valid:
  "finalize_signature E f \<noteq> 0 \<Longrightarrow> signature_valid E (finalize_signature E f) f"
  unfolding finalize_signature_def signature_valid_def
  by (cases "f = BFLAG_META_MASTER"; cases "REDCONF_IMAP_EXTERNAL E \<and> f = BFLAG_META_IMAP";
      cases "f = BFLAG_META_INODE"; cases "DINDIRS_EXIST E \<and> f = BFLAG_META_DINDIR";
      cases "INDIRS_EXIST E \<and> f = BFLAG_META_INDIR")
    (simp_all add: META_SIG_distinct META_SIG_distinct [symmetric] bflag_values split: if_split_asm)

lemma signature_valid_unique:
  "signature_valid E sig f \<Longrightarrow> signature_valid E sig g \<Longrightarrow> f = g"
  unfolding signature_valid_def by (auto split: if_splits)

lemma length_finalized [simp]: "16 \<le> length b \<Longrightarrow> length (finalized E p sig q b) = length b"
  by (simp add: finalized_def node_offsets Let_def)

lemma node_crc_drop:
  assumes "length b = BSIZE E" and "length b' = BSIZE E" and "8 \<le> BSIZE E" and "drop 8 b = drop 8 b'"
  shows "node_crc E p b = node_crc E p' b'"
proof -
  have "8 \<le> REDCONF_BLOCK_SIZE E" using assms(3) by (simp add: word_le_nat_alt)
  then have "unat (REDCONF_BLOCK_SIZE E - 8) = BSIZE E - 8" by (simp add: unat_sub_le)
  with assms show ?thesis
    by (simp add: node_crc_def RedCrcNode_def RedCrc32Update_reference)
qed

lemma finalized_fields:
  assumes "length b = BSIZE E" and "16 \<le> BSIZE E"
  shows "hdr_ulSignature (finalized E p sig q b) = sig"
    and "hdr_ullSequence (finalized E p sig q b) = q"
    and "hdr_ulCRC (finalized E p sig q b) = node_crc E p (finalized E p sig q b)"
    and "drop 16 (finalized E p sig q b) = drop 16 b"
proof -
  define b1 where "b1 = put32 0 sig b"
  define b2 where "b2 = put64 8 q b1"
  have l: "length b1 = length b" "length b2 = length b"
    using assms by (simp_all add: b1_def b2_def)
  have f: "finalized E p sig q b = put32 4 (node_crc E p b2) b2"
    by (simp add: finalized_def node_offsets Let_def b1_def b2_def)
  have "get32 0 (put32 4 (node_crc E p b2) b2) = get32 0 b2"
    using assms l by (simp add: get_field_defs slice_put)
  also have "\<dots> = get32 0 b1" using assms l by (simp add: b2_def get_field_defs slice_put)
  also have "\<dots> = sig" using assms by (simp add: b1_def get_put_same)
  finally show "hdr_ulSignature (finalized E p sig q b) = sig"
    by (simp add: hdr_ulSignature_def node_offsets f)
  have "get64 8 (put32 4 (node_crc E p b2) b2) = get64 8 b2"
    using assms l by (simp add: get_field_defs slice_put)
  also have "\<dots> = q" using assms l by (simp add: b2_def get_put_same)
  finally show "hdr_ullSequence (finalized E p sig q b) = q"
    by (simp add: hdr_ullSequence_def node_offsets f)
  have "drop 8 (finalized E p sig q b) = drop 8 b2"
    using assms l by (simp add: f drop_put)
  then have "node_crc E p (finalized E p sig q b) = node_crc E p b2"
    using assms l by (intro node_crc_drop) simp_all
  then show "hdr_ulCRC (finalized E p sig q b) = node_crc E p (finalized E p sig q b)"
    using assms l by (simp add: hdr_ulCRC_def node_offsets f get_put_same)
  show "drop 16 (finalized E p sig q b) = drop 16 b"
    using assms l by (simp add: f b2_def b1_def drop_put)
qed

lemma u64_not_max: "(q :: u64) \<noteq> 0xFFFFFFFFFFFFFFFF \<Longrightarrow> q < 0xFFFFFFFFFFFFFFFF"
proof -
  assume "q \<noteq> 0xFFFFFFFFFFFFFFFF"
  then have "unat q \<noteq> 0xFFFFFFFFFFFFFFFF" by (auto simp: word_unat_eq_iff)
  moreover have "unat q < 2 ^ 64" using unsigned_less [of q] by simp
  ultimately show ?thesis by (simp add: word_less_nat_alt)
qed

section \<open>Properties\<close>



text \<open>A state of the demo volume whose buffer 0 holds an inode.\<close>

definition demo_sealed :: "ramdisk fs" where
  "demo_sealed = snd (the (RedBufferFinalize demo_env 0 0 BFLAG_META_INODE (demo_fs demo_disk)))"

lemma demo_finalize:
  "RedBufferFinalize demo_env 0 0 BFLAG_META_INODE (demo_fs demo_disk) = Some (Inr (), demo_sealed)"
proof -
  have s: "finalize_signature demo_env BFLAG_META_INODE = META_SIG_INODE"
    by (simp add: finalize_signature_def bflag_values)
  have "\<exists>t. RedBufferFinalize demo_env 0 0 BFLAG_META_INODE (demo_fs demo_disk) = Some (Inr (), t)"
    by (simp add: RedBufferFinalize_def RedVolSeqNumIncrement_def Let_def bflag_values
        s [unfolded bflag_values] META_SIG_distinct demo_volume_def comp_defs)
  then show ?thesis by (auto simp: demo_sealed_def)
qed

lemma demo_buf_at: "buf_at demo_env 0 (demo_fs d) = replicate 128 0"
  by (simp add: buf_at_def demo_buffers_def)

lemma demo_sealed_volume: "gbRedVolNum demo_sealed = 0"
  using RedBufferFinalize_frame [OF demo_finalize] by (simp add: buf_frame_def)


lemma demo_valid_node: "\<exists>b. RedBufferIsValid demo_env 0 b BFLAG_META_INODE (demo_fs d) \<and> length b = 128"
proof -
  let ?z = "replicate 128 0 :: bytes"
  have s: "finalize_signature demo_env BFLAG_META_INODE \<noteq> 0"
    by (simp add: finalize_signature_def bflag_values META_SIG_distinct)
  note f = finalized_fields [of ?z demo_env 0 "finalize_signature demo_env BFLAG_META_INODE" 0]
  have "RedBufferIsValid demo_env 0 (finalized demo_env 0 (finalize_signature demo_env BFLAG_META_INODE) 0 ?z)
      BFLAG_META_INODE (demo_fs d)"
    using f finalize_signature_valid [OF s]
    by (simp add: RedBufferIsValid_def bflag_values demo_volume_def)
  then show ?thesis by (intro exI conjI) (assumption, simp)
qed


end
