(* ===== verification/Red_Buffer.thy ===== *)
theory Red_Buffer
  imports Red_BufferCmn Red_Memory "HOL-Library.Multiset"
begin

text \<open>
  The buffer cache of \<^verbatim>\<open>core/driver/buffer.c\<close>: a fixed array of block buffers with heads and
  an array that keeps their order of use. A buffer pointer is the byte offset from
  \<^verbatim>\<open>pbBlkBuf\<close>; the moves inside the array of the order of use are \<open>list_move\<close>, which is
  what \<^verbatim>\<open>RedMemMove\<close> does to an array. The invariant of the cache is kept by all operations.
\<close>

section \<open>Parts of the cache\<close>

abbreviation NBUF :: "'d env \<Rightarrow> nat" where
  "NBUF E \<equiv> unat (REDCONF_BUFFER_COUNT E)"

definition upd_ctx :: "(BUFFERCTX \<Rightarrow> BUFFERCTX) \<Rightarrow> 'd fs \<Rightarrow> 'd fs" where
  "upd_ctx f s = s\<lparr>gBufCtx := f (gBufCtx s)\<rparr>"

definition head_of :: "u8 \<Rightarrow> 'd fs \<Rightarrow> BUFFERHEAD" where
  "head_of bIdx s = bc_aHead (gBufCtx s) ! unat bIdx"

definition upd_head :: "u8 \<Rightarrow> (BUFFERHEAD \<Rightarrow> BUFFERHEAD) \<Rightarrow> 'd fs \<Rightarrow> 'd fs" where
  "upd_head bIdx f = upd_ctx (\<lambda>c. c\<lparr>bc_aHead := (bc_aHead c)[unat bIdx := f (bc_aHead c ! unat bIdx)]\<rparr>)"

definition upd_used :: "(u16 \<Rightarrow> u16) \<Rightarrow> 'd fs \<Rightarrow> 'd fs" where
  "upd_used f = upd_ctx (\<lambda>c. c\<lparr>bc_uNumUsed := f (bc_uNumUsed c)\<rparr>)"

definition BIDX2BUF :: "'d env \<Rightarrow> u8 \<Rightarrow> nat" where
  "BIDX2BUF E bIdx = unat bIdx * BSIZE E"

section \<open>Helper operations\<close>

definition RedBufferInit :: "'d env \<Rightarrow> 'd fs \<Rightarrow> 'd fs" where
  "RedBufferInit E = upd_ctx (\<lambda>_.
     \<lparr>bc_uNumUsed = 0,
      bc_abMRU = map (\<lambda>bIdx. (REDCONF_BUFFER_COUNT E - word_of_nat bIdx) - 1) [0..<NBUF E],
      bc_aHead = replicate (NBUF E)
        \<lparr>bh_ulBlock = BBLK_INVALID, bh_bVolNum = 0, bh_bRefCount = 0, bh_uFlags = 0\<rparr>,
      bc_blocks = replicate (NBUF E) (replicate (BSIZE E) 0)\<rparr>)"

definition BufferToIdx :: "'d env \<Rightarrow> nat \<Rightarrow> 'd fs \<Rightarrow> u8 option" where
  "BufferToIdx E pBuffer s =
     (if pBuffer < NBUF E * BSIZE E \<and> pBuffer mod BSIZE E = 0 then
        let bIdx = word_of_nat (pBuffer div BSIZE E)
        in if bh_ulBlock (head_of bIdx s) \<noteq> BBLK_INVALID \<and> bh_bVolNum (head_of bIdx s) = gbRedVolNum s
           then Some bIdx else None
      else None)"

definition BufferFind :: "'d env \<Rightarrow> u32 \<Rightarrow> 'd fs \<Rightarrow> u8 option" where
  "BufferFind E ulBlock s =
     (if ulBlock \<ge> vol_ulBlockCount (gpRedVolume s) then None
      else map_option word_of_nat (find (\<lambda>bIdx.
        let pHead = bc_aHead (gBufCtx s) ! bIdx
        in bh_bVolNum pHead = gbRedVolNum s \<and> bh_ulBlock pHead = ulBlock) [0..<NBUF E]))"

definition mru_lru :: "nat \<Rightarrow> u8 \<Rightarrow> u8 list \<Rightarrow> u8 list" where
  "mru_lru n bIdx abMRU =
     (if bIdx \<noteq> abMRU ! (n - 1) then
        (case find (\<lambda>i. bIdx = abMRU ! i) [0..<n - 1] of
           Some bMruIdx \<Rightarrow> (list_move abMRU bMruIdx (bMruIdx + 1) (n - (bMruIdx + 1)))[n - 1 := bIdx]
         | None \<Rightarrow> abMRU)
      else abMRU)"

definition BufferMakeLRU :: "'d env \<Rightarrow> u8 \<Rightarrow> 'd fs \<Rightarrow> 'd fs" where
  "BufferMakeLRU E bIdx s =
     (if bIdx \<ge> REDCONF_BUFFER_COUNT E then s
      else upd_ctx (\<lambda>c. c\<lparr>bc_abMRU := mru_lru (NBUF E) bIdx (bc_abMRU c)\<rparr>) s)"

definition mru_mru :: "nat \<Rightarrow> u8 \<Rightarrow> u8 list \<Rightarrow> u8 list" where
  "mru_mru n bIdx abMRU =
     (if bIdx \<noteq> abMRU ! 0 then
        (case find (\<lambda>i. bIdx = abMRU ! i) [1..<n] of
           Some bMruIdx \<Rightarrow> (list_move abMRU 1 0 bMruIdx)[0 := bIdx]
         | None \<Rightarrow> abMRU)
      else abMRU)"

definition BufferMakeMRU :: "'d env \<Rightarrow> u8 \<Rightarrow> 'd fs \<Rightarrow> 'd fs" where
  "BufferMakeMRU E bIdx s =
     (if bIdx \<ge> REDCONF_BUFFER_COUNT E then s
      else upd_ctx (\<lambda>c. c\<lparr>bc_abMRU := mru_mru (NBUF E) bIdx (bc_abMRU c)\<rparr>) s)"

definition BufferWrite :: "'d env \<Rightarrow> u8 \<Rightarrow> ('d, unit) op" where
  "BufferWrite E bIdx =
     (if bIdx < REDCONF_BUFFER_COUNT E then
        bindE (getE (head_of bIdx)) (\<lambda>pHead.
        thenE (if bh_uFlags pHead AND BFLAG_META \<noteq> 0
               then RedBufferFinalize E (BIDX2BUF E bIdx) (bh_bVolNum pHead) (bh_uFlags pHead)
               else okE ())
          (bindE (getE (buf_at E (BIDX2BUF E bIdx))) (\<lambda>pbBuffer.
             RedIoWrite E (bh_bVolNum pHead) (bh_ulBlock pHead) 1 pbBuffer)))
      else errE RED_EINVAL)"

section \<open>Getting and releasing buffers\<close>

text \<open>The search for the victim, from the end of the array of the order of use.\<close>

fun victim_loop :: "BUFFERHEAD list \<Rightarrow> u8 list \<Rightarrow> nat \<Rightarrow> nat" where
  "victim_loop aHead abMRU 0 = 0"
| "victim_loop aHead abMRU (Suc bIdx) =
     (if bh_bRefCount (aHead ! unat (abMRU ! Suc bIdx)) = 0 then Suc bIdx
      else victim_loop aHead abMRU bIdx)"

definition victim :: "'d env \<Rightarrow> 'd fs \<Rightarrow> u8" where
  "victim E s = bc_abMRU (gBufCtx s) !
     victim_loop (bc_aHead (gBufCtx s)) (bc_abMRU (gBufCtx s)) (NBUF E - 1)"

text \<open>The dirty content of the victim is written before the buffer is used again.\<close>

definition buffer_evict :: "'d env \<Rightarrow> u8 \<Rightarrow> ('d, unit) op" where
  "buffer_evict E bIdx =
     bindE (getE (head_of bIdx)) (\<lambda>pHead.
       if bh_bRefCount pHead = 0 then
         (if bh_uFlags pHead AND BFLAG_DIRTY \<noteq> 0 \<and> bh_ulBlock pHead \<noteq> BBLK_INVALID
          then BufferWrite E bIdx else okE ())
       else thenE CRITICAL_ERROR (errE RED_EBUSY))"

text \<open>The buffer is filled from the device, or with zeroes for a new block.\<close>

definition buffer_fill :: "'d env \<Rightarrow> u8 \<Rightarrow> u32 \<Rightarrow> u16 \<Rightarrow> ('d, unit) op" where
  "buffer_fill E bIdx ulBlock uFlags =
     (let pbBuffer = BIDX2BUF E bIdx
      in if uFlags AND BFLAG_NEW = 0 then
           thenE (modE (upd_head bIdx (\<lambda>h. h\<lparr>bh_ulBlock := BBLK_INVALID\<rparr>)))
             (bindE (getE gbRedVolNum) (\<lambda>v.
              bindE (getE (buf_at E pbBuffer)) (\<lambda>old.
              bindE (RedIoRead E v ulBlock 1 old) (\<lambda>(ret, new).
              thenE (modE (upd_buf E pbBuffer (\<lambda>_. new)))
                (case ret of
                   Inl e \<Rightarrow> errE e
                 | Inr _ \<Rightarrow>
                     if uFlags AND BFLAG_META \<noteq> 0 then
                       bindE (getE (RedBufferIsValid E pbBuffer new uFlags)) (\<lambda>valid.
                         if \<not> valid then
                           thenE (CRITICAL_ASSERT (uFlags AND BFLAG_META_MASTER = BFLAG_META_MASTER))
                             (errE RED_EIO)
                         else okE ())
                     else okE ())))))
         else modE (upd_buf E pbBuffer (\<lambda>_. replicate (BSIZE E) 0)))"

definition buffer_get_miss :: "'d env \<Rightarrow> u32 \<Rightarrow> u16 \<Rightarrow> ('d, u8) op" where
  "buffer_get_miss E ulBlock uFlags =
     bindE (getE (victim E)) (\<lambda>bIdx.
     thenE (buffer_evict E bIdx)
       (thenE (buffer_fill E bIdx ulBlock uFlags)
         (thenE (modE (\<lambda>s. upd_head bIdx (\<lambda>h. h\<lparr>bh_bVolNum := gbRedVolNum s, bh_ulBlock := ulBlock,
                  bh_uFlags := 0\<rparr>) s))
           (okE bIdx))))"

definition buffer_reference :: "'d env \<Rightarrow> u8 \<Rightarrow> u16 \<Rightarrow> 'd fs \<Rightarrow> 'd fs" where
  "buffer_reference E bIdx uFlags s =
     (let s = upd_head bIdx (\<lambda>h. h\<lparr>bh_bRefCount := bh_bRefCount h + 1\<rparr>) s;
          s = (if bh_bRefCount (head_of bIdx s) = 1 then upd_used (\<lambda>n. n + 1) s else s);
          s = upd_head bIdx (\<lambda>h. h\<lparr>bh_uFlags := bh_uFlags h OR (uFlags AND NOT BFLAG_NEW)\<rparr>) s
      in BufferMakeMRU E bIdx s)"

definition buffer_get_invalid :: "u32 \<Rightarrow> u16 \<Rightarrow> 'd fs \<Rightarrow> bool" where
  "buffer_get_invalid ulBlock uFlags s \<longleftrightarrow>
     ulBlock \<ge> vol_ulBlockCount (gpRedVolume s) \<or>
     uFlags AND BFLAG_MASK \<noteq> uFlags \<or>
     (uFlags AND BFLAG_NEW \<noteq> 0 \<and> uFlags AND BFLAG_DIRTY = 0) \<or>
     \<not> BFLAG_TYPE_IS_VALID uFlags"

definition buffer_get_idx :: "'d env \<Rightarrow> u32 \<Rightarrow> u16 \<Rightarrow> ('d, u8) op" where
  "buffer_get_idx E ulBlock uFlags =
     bindE (getE (BufferFind E ulBlock)) (\<lambda>found.
       case found of
         Some bIdx \<Rightarrow>
           bindE (getE (head_of bIdx)) (\<lambda>pHead.
             if uFlags AND BFLAG_NEW \<noteq> 0 \<or>
                uFlags AND BFLAG_META_MASK \<noteq> bh_uFlags pHead AND BFLAG_META_MASK
             then thenE CRITICAL_ERROR (errE RED_EFUBAR)
             else okE bIdx)
       | None \<Rightarrow>
           bindE (getE (\<lambda>s. bc_uNumUsed (gBufCtx s))) (\<lambda>uNumUsed.
             if uNumUsed = ucast (REDCONF_BUFFER_COUNT E) then thenE CRITICAL_ERROR (errE RED_EBUSY)
             else buffer_get_miss E ulBlock uFlags))"

definition RedBufferGet :: "'d env \<Rightarrow> u32 \<Rightarrow> u16 \<Rightarrow> ('d, nat) op" where
  "RedBufferGet E ulBlock uFlags =
     bindE (getE (buffer_get_invalid ulBlock uFlags)) (\<lambda>invalid.
       if invalid then errE RED_EINVAL
       else bindE (buffer_get_idx E ulBlock uFlags) (\<lambda>bIdx.
         thenE (modE (buffer_reference E bIdx uFlags)) (okE (BIDX2BUF E bIdx))))"

definition RedBufferPut :: "'d env \<Rightarrow> nat \<Rightarrow> 'd fs \<Rightarrow> 'd fs" where
  "RedBufferPut E pBuffer s =
     (case BufferToIdx E pBuffer s of
        None \<Rightarrow> s
      | Some bIdx \<Rightarrow>
          let s = upd_head bIdx (\<lambda>h. h\<lparr>bh_bRefCount := bh_bRefCount h - 1\<rparr>) s
          in if bh_bRefCount (head_of bIdx s) = 0 then upd_used (\<lambda>n. n - 1) s else s)"

definition RedBufferDirty :: "'d env \<Rightarrow> nat \<Rightarrow> 'd fs \<Rightarrow> 'd fs" where
  "RedBufferDirty E pBuffer s =
     (case BufferToIdx E pBuffer s of
        None \<Rightarrow> s
      | Some bIdx \<Rightarrow> upd_head bIdx (\<lambda>h. h\<lparr>bh_uFlags := bh_uFlags h OR BFLAG_DIRTY\<rparr>) s)"

definition RedBufferBranch :: "'d env \<Rightarrow> nat \<Rightarrow> u32 \<Rightarrow> 'd fs \<Rightarrow> 'd fs" where
  "RedBufferBranch E pBuffer ulBlockNew s =
     (case BufferToIdx E pBuffer s of
        None \<Rightarrow> s
      | Some bIdx \<Rightarrow>
          if ulBlockNew \<ge> vol_ulBlockCount (gpRedVolume s) then s
          else upd_head bIdx (\<lambda>h. h\<lparr>bh_uFlags := bh_uFlags h OR BFLAG_DIRTY, bh_ulBlock := ulBlockNew\<rparr>) s)"

definition RedBufferDiscard :: "'d env \<Rightarrow> nat \<Rightarrow> 'd fs \<Rightarrow> 'd fs" where
  "RedBufferDiscard E pBuffer s =
     (case BufferToIdx E pBuffer s of
        None \<Rightarrow> s
      | Some bIdx \<Rightarrow>
          BufferMakeLRU E bIdx
            (upd_used (\<lambda>n. n - 1)
              (upd_head bIdx (\<lambda>h. h\<lparr>bh_bRefCount := 0, bh_ulBlock := BBLK_INVALID\<rparr>) s)))"

section \<open>Ranges of blocks\<close>

definition buffer_range_invalid :: "u32 \<Rightarrow> u32 \<Rightarrow> 'd fs \<Rightarrow> bool" where
  "buffer_range_invalid ulBlockStart ulBlockCount s \<longleftrightarrow>
     ulBlockStart \<ge> vol_ulBlockCount (gpRedVolume s) \<or>
     vol_ulBlockCount (gpRedVolume s) - ulBlockStart < ulBlockCount \<or> ulBlockCount = 0"

definition in_range :: "u32 \<Rightarrow> u32 \<Rightarrow> BUFFERHEAD \<Rightarrow> 'd fs \<Rightarrow> bool" where
  "in_range ulBlockStart ulBlockCount pHead s \<longleftrightarrow>
     bh_bVolNum pHead = gbRedVolNum s \<and> bh_ulBlock pHead \<noteq> BBLK_INVALID \<and>
     bh_ulBlock pHead \<ge> ulBlockStart \<and> bh_ulBlock pHead < ulBlockStart + ulBlockCount"

text \<open>The loops over the buffers, \<open>n\<close> of them being left.\<close>

fun flush_loop :: "'d env \<Rightarrow> u32 \<Rightarrow> u32 \<Rightarrow> nat \<Rightarrow> nat \<Rightarrow> ('d, unit) op" where
  "flush_loop E ulBlockStart ulBlockCount bIdx 0 = okE ()"
| "flush_loop E ulBlockStart ulBlockCount bIdx (Suc n) =
     bindE (getE (\<lambda>s. let pHead = bc_aHead (gBufCtx s) ! bIdx
        in in_range ulBlockStart ulBlockCount pHead s \<and> bh_uFlags pHead AND BFLAG_DIRTY \<noteq> 0)) (\<lambda>hit.
     thenE (if hit
            then thenE (BufferWrite E (word_of_nat bIdx))
              (modE (upd_head (word_of_nat bIdx) (\<lambda>h. h\<lparr>bh_uFlags := bh_uFlags h AND NOT BFLAG_DIRTY\<rparr>)))
            else okE ())
       (flush_loop E ulBlockStart ulBlockCount (Suc bIdx) n))"

definition RedBufferFlushRange :: "'d env \<Rightarrow> u32 \<Rightarrow> u32 \<Rightarrow> ('d, unit) op" where
  "RedBufferFlushRange E ulBlockStart ulBlockCount =
     bindE (getE (buffer_range_invalid ulBlockStart ulBlockCount)) (\<lambda>invalid.
       if invalid then errE RED_EINVAL
       else flush_loop E ulBlockStart ulBlockCount 0 (NBUF E))"

fun discard_loop :: "'d env \<Rightarrow> u32 \<Rightarrow> u32 \<Rightarrow> nat \<Rightarrow> nat \<Rightarrow> ('d, unit) op" where
  "discard_loop E ulBlockStart ulBlockCount bIdx 0 = okE ()"
| "discard_loop E ulBlockStart ulBlockCount bIdx (Suc n) =
     bindE (getE (\<lambda>s. bc_aHead (gBufCtx s) ! bIdx)) (\<lambda>pHead.
     bindE (getE (in_range ulBlockStart ulBlockCount pHead)) (\<lambda>hit.
     thenE (if hit then
              (if bh_bRefCount pHead = 0 then
                 modE (\<lambda>s. BufferMakeLRU E (word_of_nat bIdx)
                   (upd_head (word_of_nat bIdx) (\<lambda>h. h\<lparr>bh_ulBlock := BBLK_INVALID\<rparr>) s))
               else thenE CRITICAL_ERROR (errE RED_EBUSY))
            else okE ())
       (discard_loop E ulBlockStart ulBlockCount (Suc bIdx) n)))"

definition RedBufferDiscardRange :: "'d env \<Rightarrow> u32 \<Rightarrow> u32 \<Rightarrow> ('d, unit) op" where
  "RedBufferDiscardRange E ulBlockStart ulBlockCount =
     bindE (getE (buffer_range_invalid ulBlockStart ulBlockCount)) (\<lambda>invalid.
       if invalid then errE RED_EINVAL
       else discard_loop E ulBlockStart ulBlockCount 0 (NBUF E))"

definition RedBufferReadRange :: "'d env \<Rightarrow> u32 \<Rightarrow> u32 \<Rightarrow> bytes \<Rightarrow> ('d, (rederr + unit) \<times> bytes) op" where
  "RedBufferReadRange E ulBlockStart ulBlockCount pbDataBuffer =
     bindE (getE (buffer_range_invalid ulBlockStart ulBlockCount)) (\<lambda>invalid.
       if invalid then okE (Inl RED_EINVAL, pbDataBuffer)
       else statusE (RedBufferFlushRange E ulBlockStart ulBlockCount) (\<lambda>ret.
         case ret of
           Inl e \<Rightarrow> okE (Inl e, pbDataBuffer)
         | Inr _ \<Rightarrow> bindE (getE gbRedVolNum) (\<lambda>v.
             RedIoRead E v ulBlockStart ulBlockCount pbDataBuffer)))"

definition RedBufferWriteRange :: "'d env \<Rightarrow> u32 \<Rightarrow> u32 \<Rightarrow> bytes \<Rightarrow> ('d, unit) op" where
  "RedBufferWriteRange E ulBlockStart ulBlockCount pbDataBuffer =
     bindE (getE (buffer_range_invalid ulBlockStart ulBlockCount)) (\<lambda>invalid.
       if invalid then errE RED_EINVAL
       else bindE (getE gbRedVolNum) (\<lambda>v.
         thenE (RedIoWrite E v ulBlockStart ulBlockCount pbDataBuffer)
           (RedBufferDiscardRange E ulBlockStart ulBlockCount)))"

section \<open>The order of use\<close>

lemma find_Some_upt:
  "find P [a..<b] = Some i \<Longrightarrow> a \<le> i \<and> i < b \<and> P i \<and> (\<forall>j. a \<le> j \<and> j < i \<longrightarrow> \<not> P j)"
proof -
  assume "find P [a..<b] = Some i"
  then obtain k where k: "k < length [a..<b]" "P ([a..<b] ! k)" "i = [a..<b] ! k" "\<forall>j < k. \<not> P ([a..<b] ! j)"
    by (auto simp: find_Some_iff)
  then have i: "i = a + k" by simp
  have "\<not> P j" if "a \<le> j" "j < i" for j
    using k(1,4) i that by (auto dest: spec [of _ "j - a"])
  with k i show ?thesis by auto
qed

lemma find_None_upt: "find P [a..<b] = None \<longleftrightarrow> (\<forall>i. a \<le> i \<and> i < b \<longrightarrow> \<not> P i)"
  by (auto simp: find_None_iff)

lemma mru_lru_moves:
  assumes "length xs = n" and "i < n" and "xs ! i = b" and "distinct xs"
  shows "mru_lru n b xs = take i xs @ drop (Suc i) xs @ [b]"
proof (cases "b = xs ! (n - 1)")
  case True
  then have "i = n - 1" using assms nth_eq_iff_index_eq [of xs i "n - 1"] by simp
  moreover have "xs = take (n - 1) xs @ [xs ! (n - 1)]"
    using assms(1,2) take_Suc_conv_app_nth [of "n - 1" xs] by simp
  ultimately show ?thesis using True assms(1,2) by (simp add: mru_lru_def)
next
  case False
  then have lt: "i < n - 1" using assms(2,3) by (cases "i = n - 1") auto
  have "find (\<lambda>j. b = xs ! j) [0..<n - 1] = Some i"
  proof (cases "find (\<lambda>j. b = xs ! j) [0..<n - 1]")
    case None
    with lt assms(3) show ?thesis by (auto simp: find_None_upt)
  next
    case (Some j)
    from find_Some_upt [OF Some] have "j < n" "xs ! j = xs ! i" using assms(3) lt by auto
    then have "j = i" using assms nth_eq_iff_index_eq [of xs j i] by simp
    with Some show ?thesis by simp
  qed
  moreover have "(list_move xs i (i + 1) (n - (i + 1)))[n - 1 := b] = take i xs @ drop (Suc i) xs @ [b]"
    using assms(1) lt by (intro nth_equalityI) (auto simp: list_move_nth nth_list_update nth_append)
  ultimately show ?thesis using False by (simp add: mru_lru_def)
qed

lemma mru_mru_moves:
  assumes "length xs = n" and "i < n" and "xs ! i = b" and "distinct xs"
  shows "mru_mru n b xs = b # take i xs @ drop (Suc i) xs"
proof (cases "b = xs ! 0")
  case True
  then have "i = 0" using assms nth_eq_iff_index_eq [of xs i 0] by (cases xs) auto
  with True assms(1,2) show ?thesis by (cases xs) (simp_all add: mru_mru_def)
next
  case False
  then have lt: "0 < i" using assms(3) by (cases i) auto
  have "find (\<lambda>j. b = xs ! j) [1..<n] = Some i"
  proof (cases "find (\<lambda>j. b = xs ! j) [1..<n]")
    case None
    then have "\<forall>j. 1 \<le> j \<and> j < n \<longrightarrow> b \<noteq> xs ! j" unfolding find_None_upt .
    with lt assms(2,3) show ?thesis by (metis One_nat_def Suc_leI)
  next
    case (Some j)
    from find_Some_upt [OF Some] have "j < n" "xs ! j = xs ! i" using assms(3) by auto
    then have "j = i" using assms nth_eq_iff_index_eq [of xs j i] by simp
    with Some show ?thesis by simp
  qed
  moreover have "(list_move xs 1 0 i)[0 := b] = b # take i xs @ drop (Suc i) xs"
    using assms(1,2) lt
    by (intro nth_equalityI) (auto simp: list_move_nth nth_list_update nth_append nth_Cons' min_def)
  ultimately show ?thesis using False by (simp add: mru_mru_def)
qed

lemma mru_perm:
  assumes "length xs = n" and "b \<in> set xs" and "distinct xs"
  shows "mset (mru_lru n b xs) = mset xs" and "mset (mru_mru n b xs) = mset xs"
proof -
  from assms obtain i where i: "i < n" "xs ! i = b" by (auto simp: in_set_conv_nth)
  have xs: "xs = take i xs @ b # drop (Suc i) xs"
    using id_take_nth_drop [of i xs] i assms(1) by simp
  have "mset xs = mset (take i xs) + mset (drop (Suc i) xs) + {#b#}"
    by (subst xs) simp
  then show "mset (mru_lru n b xs) = mset xs" "mset (mru_mru n b xs) = mset xs"
    unfolding mru_lru_moves [OF assms(1) i assms(3)] mru_mru_moves [OF assms(1) i assms(3)] by simp_all
qed

section \<open>The invariant\<close>

definition env_ok :: "'d env \<Rightarrow> bool" where
  "env_ok E \<longleftrightarrow> 0 < NBUF E \<and> 7 \<le> BLOCK_SIZE_P2 E \<and> BLOCK_SIZE_P2 E \<le> 16 \<and>
     (\<forall>v st n b d. length (fst (snd (RedOsBDevRead E v st n b d))) = length b)"

definition same_block :: "BUFFERHEAD \<Rightarrow> BUFFERHEAD \<Rightarrow> bool" where
  "same_block h k \<longleftrightarrow> bh_bVolNum h = bh_bVolNum k \<and> bh_ulBlock h = bh_ulBlock k"

definition referenced :: "BUFFERHEAD list \<Rightarrow> nat set" where
  "referenced hs = {i. i < length hs \<and> bh_bRefCount (hs ! i) \<noteq> 0}"

text \<open>
  The array of the order of use is a permutation of the buffer indices, the number of used
  buffers is that of the referenced ones, a referenced buffer is valid, and no block has
  two buffers.
\<close>

definition ctx_inv :: "'d env \<Rightarrow> BUFFERCTX \<Rightarrow> bool" where
  "ctx_inv E c \<longleftrightarrow>
     length (bc_abMRU c) = NBUF E \<and> length (bc_aHead c) = NBUF E \<and> length (bc_blocks c) = NBUF E \<and>
     (\<forall>b \<in> set (bc_blocks c). length b = BSIZE E) \<and>
     distinct (bc_abMRU c) \<and> (\<forall>x \<in> set (bc_abMRU c). unat x < NBUF E) \<and>
     unat (bc_uNumUsed c) = card (referenced (bc_aHead c)) \<and>
     (\<forall>i < NBUF E. bh_bRefCount (bc_aHead c ! i) \<noteq> 0 \<longrightarrow> bh_ulBlock (bc_aHead c ! i) \<noteq> BBLK_INVALID) \<and>
     (\<forall>i < NBUF E. \<forall>j < NBUF E. same_block (bc_aHead c ! i) (bc_aHead c ! j) \<longrightarrow>
        bh_ulBlock (bc_aHead c ! i) \<noteq> BBLK_INVALID \<longrightarrow> i = j)"

definition buf_inv :: "'d env \<Rightarrow> 'd fs \<Rightarrow> bool" where
  "buf_inv E s \<longleftrightarrow> ctx_inv E (gBufCtx s)"

lemma BSIZE_pow: "env_ok E \<Longrightarrow> BSIZE E = 2 ^ BLOCK_SIZE_P2 E"
proof -
  assume "env_ok E"
  then have le: "BLOCK_SIZE_P2 E \<le> 16" by (simp add: env_ok_def)
  then have "(2 :: nat) ^ BLOCK_SIZE_P2 E \<le> 2 ^ 16" by (intro power_increasing) simp_all
  then have "unat (1 :: u32) * 2 ^ BLOCK_SIZE_P2 E < 2 ^ LENGTH(32)" by simp
  from unat_push_bit_no_overflow [OF this] show ?thesis by (simp add: REDCONF_BLOCK_SIZE_def)
qed

lemma BSIZE_ge: "env_ok E \<Longrightarrow> 128 \<le> BSIZE E"
proof -
  assume e: "env_ok E"
  then have "(2 :: nat) ^ 7 \<le> 2 ^ BLOCK_SIZE_P2 E" by (intro power_increasing) (simp_all add: env_ok_def)
  with BSIZE_pow [OF e] show ?thesis by simp
qed

lemma ctx_inv_lengths:
  "ctx_inv E c \<Longrightarrow> length (bc_abMRU c) = NBUF E"
  "ctx_inv E c \<Longrightarrow> length (bc_aHead c) = NBUF E"
  "ctx_inv E c \<Longrightarrow> length (bc_blocks c) = NBUF E"
  by (simp_all add: ctx_inv_def)

lemma ctx_inv_mru_all: "ctx_inv E c \<Longrightarrow> unat x < NBUF E \<Longrightarrow> x \<in> set (bc_abMRU c)"
proof -
  assume c: "ctx_inv E c" and x: "unat x < NBUF E"
  have "card (unat ` set (bc_abMRU c)) = card (set (bc_abMRU c))"
    by (intro card_image inj_onI) (rule unsigned_word_eqI)
  also have "\<dots> = NBUF E" using c by (simp add: ctx_inv_def distinct_card)
  finally have "unat ` set (bc_abMRU c) = {..<NBUF E}"
    using c by (intro card_subset_eq) (auto simp: ctx_inv_def)
  with x have "unat x \<in> unat ` set (bc_abMRU c)" by simp
  then obtain y where "unat x = unat y" "y \<in> set (bc_abMRU c)" by (rule imageE)
  moreover from this(1) have "x = y" by (rule unsigned_word_eqI)
  ultimately show ?thesis by simp
qed

lemma ctx_inv_mru_perm:
  assumes "ctx_inv E c" and "mset xs = mset (bc_abMRU c)"
  shows "ctx_inv E (c\<lparr>bc_abMRU := xs\<rparr>)"
proof -
  have "length xs = length (bc_abMRU c)" "set xs = set (bc_abMRU c)" "distinct xs = distinct (bc_abMRU c)"
    using assms(2) by (auto dest: mset_eq_length mset_eq_setD mset_eq_imp_distinct_iff)
  with assms(1) show ?thesis by (simp add: ctx_inv_def)
qed

lemma ctx_inv_blocks:
  assumes "ctx_inv E c" and "length b = BSIZE E"
  shows "ctx_inv E (c\<lparr>bc_blocks := (bc_blocks c)[i := b]\<rparr>)"
  using assms by (auto simp: ctx_inv_def dest: set_update_subset_insert [THEN subsetD])

text \<open>Replacing one head, the number of used buffers being kept in step.\<close>

lemma referenced_update:
  "i < length hs \<Longrightarrow>
   referenced (hs[i := h]) = (if bh_bRefCount h \<noteq> 0 then insert i (referenced hs) else referenced hs - {i})"
  by (auto simp: referenced_def nth_list_update split: if_splits)

lemma finite_referenced [simp]: "finite (referenced hs)"
  by (simp add: referenced_def)

lemma ctx_inv_head:
  assumes inv: "ctx_inv E c" and i: "i < NBUF E"
    and used: "unat u = card (if bh_bRefCount h \<noteq> 0 then insert i (referenced (bc_aHead c))
        else referenced (bc_aHead c) - {i})"
    and valid: "bh_bRefCount h \<noteq> 0 \<Longrightarrow> bh_ulBlock h \<noteq> BBLK_INVALID"
    and uniq: "\<And>j. bh_ulBlock h \<noteq> BBLK_INVALID \<Longrightarrow> j < NBUF E \<Longrightarrow> j \<noteq> i \<Longrightarrow>
        \<not> same_block h (bc_aHead c ! j)"
  shows "ctx_inv E (c\<lparr>bc_aHead := (bc_aHead c)[i := h], bc_uNumUsed := u\<rparr>)"
proof -
  have len: "length (bc_aHead c) = NBUF E" using inv by (rule ctx_inv_lengths)
  have uniq': "j = k" if sb: "same_block ((bc_aHead c)[i := h] ! j) ((bc_aHead c)[i := h] ! k)"
    and v: "bh_ulBlock ((bc_aHead c)[i := h] ! j) \<noteq> BBLK_INVALID" and jk: "j < NBUF E" "k < NBUF E" for j k
  proof (cases "j = i")
    case True
    with sb v i len uniq [of k] jk show ?thesis by (cases "k = i") simp_all
  next
    case False
    show ?thesis
    proof (cases "k = i")
      case True
      with sb v False i len jk have "same_block h (bc_aHead c ! j)" "bh_ulBlock h \<noteq> BBLK_INVALID"
        by (simp_all add: same_block_def)
      with uniq [of j] False jk show ?thesis by simp
    next
      case False
      with sb v \<open>j \<noteq> i\<close> jk inv show ?thesis by (simp add: ctx_inv_def)
    qed
  qed
  have val: "bh_ulBlock ((bc_aHead c)[i := h] ! j) \<noteq> BBLK_INVALID"
    if "j < NBUF E" "bh_bRefCount ((bc_aHead c)[i := h] ! j) \<noteq> 0" for j
    using that inv valid len by (cases "j = i") (auto simp: ctx_inv_def)
  have card: "unat u = card (referenced ((bc_aHead c)[i := h]))"
    using used i len by (simp only: referenced_update)
  show ?thesis
    unfolding ctx_inv_def
  proof (intro conjI allI impI)
    fix j k
    assume "j < NBUF E" "k < NBUF E"
      and "same_block (bc_aHead (c\<lparr>bc_aHead := (bc_aHead c)[i := h], bc_uNumUsed := u\<rparr>) ! j)
        (bc_aHead (c\<lparr>bc_aHead := (bc_aHead c)[i := h], bc_uNumUsed := u\<rparr>) ! k)"
      and "bh_ulBlock (bc_aHead (c\<lparr>bc_aHead := (bc_aHead c)[i := h], bc_uNumUsed := u\<rparr>) ! j) \<noteq> BBLK_INVALID"
    then show "j = k" using uniq' [of j k] by simp
  next
    fix j
    assume "j < NBUF E"
      and "bh_bRefCount (bc_aHead (c\<lparr>bc_aHead := (bc_aHead c)[i := h], bc_uNumUsed := u\<rparr>) ! j) \<noteq> 0"
    then show "bh_ulBlock (bc_aHead (c\<lparr>bc_aHead := (bc_aHead c)[i := h], bc_uNumUsed := u\<rparr>) ! j) \<noteq> BBLK_INVALID"
      using val [of j] by simp
  qed (use inv card in \<open>simp_all add: ctx_inv_def\<close>)
qed

lemma ctx_inv_head_same_refs:
  assumes inv: "ctx_inv E c" and i: "i < NBUF E"
    and ref: "(bh_bRefCount h = 0) = (bh_bRefCount (bc_aHead c ! i) = 0)"
    and valid: "bh_bRefCount h \<noteq> 0 \<Longrightarrow> bh_ulBlock h \<noteq> BBLK_INVALID"
    and uniq: "\<And>j. bh_ulBlock h \<noteq> BBLK_INVALID \<Longrightarrow> j < NBUF E \<Longrightarrow> j \<noteq> i \<Longrightarrow>
        \<not> same_block h (bc_aHead c ! j)"
  shows "ctx_inv E (c\<lparr>bc_aHead := (bc_aHead c)[i := h]\<rparr>)"
proof -
  have "(if bh_bRefCount h \<noteq> 0 then insert i (referenced (bc_aHead c)) else referenced (bc_aHead c) - {i}) =
      referenced (bc_aHead c)"
    using ref i ctx_inv_lengths(2) [OF inv] by (auto simp: referenced_def)
  then have "ctx_inv E (c\<lparr>bc_aHead := (bc_aHead c)[i := h], bc_uNumUsed := bc_uNumUsed c\<rparr>)"
    using inv by (intro ctx_inv_head [OF inv i _ valid uniq]) (simp_all add: ctx_inv_def)
  then show ?thesis by simp
qed

section \<open>Effects on the cache\<close>

lemma upd_ctx_simps [simp]:
  "gBufCtx (upd_ctx f s) = f (gBufCtx s)" "gbRedVolNum (upd_ctx f s) = gbRedVolNum s"
  "gaRedVolume (upd_ctx f s) = gaRedVolume s" "gpRedVolume (upd_ctx f s) = gpRedVolume s"
  "gpRedCoreVol (upd_ctx f s) = gpRedCoreVol s" "gpRedMR (upd_ctx f s) = gpRedMR s"
  "gaRedCoreVol (upd_ctx f s) = gaRedCoreVol s" "gaRedBdevInfo (upd_ctx f s) = gaRedBdevInfo s"
  "os (upd_ctx f s) = os s" "buf_frame s (upd_ctx f s)"
  by (simp_all add: upd_ctx_def gp_defs)

lemma upd_buf_ctx: "upd_buf E p f s =
    upd_ctx (\<lambda>c. c\<lparr>bc_blocks := (bc_blocks c)[p div BSIZE E := f (bc_blocks c ! (p div BSIZE E))]\<rparr>) s"
  by (simp add: upd_buf_def upd_ctx_def buf_at_def)

lemma BIDX2BUF_div [simp]: "env_ok E \<Longrightarrow> BIDX2BUF E i div BSIZE E = unat i"
  using BSIZE_ge [of E] by (simp add: BIDX2BUF_def)

lemma BIDX2BUF_mod [simp]: "BIDX2BUF E i mod BSIZE E = 0"
  by (simp add: BIDX2BUF_def)

lemma BIDX2BUF_less: "env_ok E \<Longrightarrow> unat i < NBUF E \<Longrightarrow> BIDX2BUF E i < NBUF E * BSIZE E"
  using BSIZE_ge [of E] by (simp add: BIDX2BUF_def)

lemma word_of_nat_u8: "n < NBUF E \<Longrightarrow> unat (word_of_nat n :: u8) = n"
proof -
  assume "n < NBUF E"
  also have "NBUF E < 2 ^ 8" using unat_u8_less [of "REDCONF_BUFFER_COUNT E"] by simp
  finally show ?thesis by (simp add: unat_of_nat)
qed

lemma BufferToIdx_BIDX2BUF:
  assumes "env_ok E" and "unat i < NBUF E"
  shows "BufferToIdx E (BIDX2BUF E i) s =
    (if bh_ulBlock (head_of i s) \<noteq> BBLK_INVALID \<and> bh_bVolNum (head_of i s) = gbRedVolNum s
     then Some i else None)"
  using assms by (simp add: BufferToIdx_def BIDX2BUF_less Let_def)

lemma BufferToIdx_Some:
  assumes "env_ok E" and "BufferToIdx E p s = Some i"
  shows "p = BIDX2BUF E i" and "unat i < NBUF E" and "bh_ulBlock (head_of i s) \<noteq> BBLK_INVALID"
    and "bh_bVolNum (head_of i s) = gbRedVolNum s"
proof -
  from assms(2) have p: "p < NBUF E * BSIZE E" "p mod BSIZE E = 0" and i: "i = word_of_nat (p div BSIZE E)"
    and h: "bh_ulBlock (head_of i s) \<noteq> BBLK_INVALID" "bh_bVolNum (head_of i s) = gbRedVolNum s"
    by (auto simp: BufferToIdx_def Let_def split: if_splits)
  have "p div BSIZE E < NBUF E" using p(1) by (simp add: less_mult_imp_div_less)
  moreover from this have u: "unat i = p div BSIZE E" unfolding i by (rule word_of_nat_u8)
  ultimately show "unat i < NBUF E" by simp
  have "p div BSIZE E * BSIZE E = p" using p(2) by (metis add.right_neutral div_mult_mod_eq)
  with u show "p = BIDX2BUF E i" by (simp add: BIDX2BUF_def)
  show "bh_ulBlock (head_of i s) \<noteq> BBLK_INVALID" "bh_bVolNum (head_of i s) = gbRedVolNum s"
    by (fact h)+
qed

text \<open>The heads, the order of use and the number of used buffers are those of before.\<close>

definition same_heads :: "'d fs \<Rightarrow> 'd fs \<Rightarrow> bool" where
  "same_heads s t \<longleftrightarrow> bc_abMRU (gBufCtx t) = bc_abMRU (gBufCtx s) \<and>
     bc_aHead (gBufCtx t) = bc_aHead (gBufCtx s) \<and> bc_uNumUsed (gBufCtx t) = bc_uNumUsed (gBufCtx s)"

lemma same_heads_refl [simp]: "same_heads s s"
  by (simp add: same_heads_def)

lemma same_heads_trans: "same_heads s t \<Longrightarrow> same_heads t u \<Longrightarrow> same_heads s u"
  by (simp add: same_heads_def)

text \<open>Only the buffer with the given index changed its bytes, and only in the node header.\<close>

definition header_only :: "nat \<Rightarrow> 'd fs \<Rightarrow> 'd fs \<Rightarrow> bool" where
  "header_only k s t \<longleftrightarrow> length (bc_blocks (gBufCtx t)) = length (bc_blocks (gBufCtx s)) \<and>
     (\<forall>j < length (bc_blocks (gBufCtx s)).
        length (bc_blocks (gBufCtx t) ! j) = length (bc_blocks (gBufCtx s) ! j) \<and>
        drop 16 (bc_blocks (gBufCtx t) ! j) = drop 16 (bc_blocks (gBufCtx s) ! j) \<and>
        (j \<noteq> k \<longrightarrow> bc_blocks (gBufCtx t) ! j = bc_blocks (gBufCtx s) ! j))"

lemma header_only_refl [simp]: "header_only k s s"
  by (simp add: header_only_def)

lemma header_only_trans: "header_only k s t \<Longrightarrow> header_only k t u \<Longrightarrow> header_only k s u"
  by (simp add: header_only_def)

lemma header_only_same: "gBufCtx t = gBufCtx s \<Longrightarrow> header_only k s t"
  by (simp add: header_only_def)

lemma buf_inv_same_heads:
  assumes "buf_inv E s" and "same_heads s t" and "header_only k s t"
  shows "buf_inv E t"
proof -
  have "length b = BSIZE E" if "b \<in> set (bc_blocks (gBufCtx t))" for b
  proof -
    from that obtain j where "j < length (bc_blocks (gBufCtx t))" "b = bc_blocks (gBufCtx t) ! j"
      by (auto simp: in_set_conv_nth)
    with assms(3) have "length b = length (bc_blocks (gBufCtx s) ! j)" "j < length (bc_blocks (gBufCtx s))"
      by (auto simp: header_only_def)
    with assms(1) show ?thesis by (auto simp: buf_inv_def ctx_inv_def)
  qed
  moreover have "length (bc_blocks (gBufCtx t)) = NBUF E"
    using assms(1,3) by (simp add: buf_inv_def ctx_inv_def header_only_def)
  ultimately show ?thesis
    using assms(1,2) unfolding buf_inv_def ctx_inv_def same_heads_def by simp
qed

lemma buf_inv_block_length: "buf_inv E s \<Longrightarrow> i < NBUF E \<Longrightarrow> length (bc_blocks (gBufCtx s) ! i) = BSIZE E"
  by (auto simp: buf_inv_def ctx_inv_def)

lemma RedBufferFinalize_effect:
  assumes e: "env_ok E" and inv: "buf_inv E s" and i: "unat i < NBUF E"
    and f: "RedBufferFinalize E (BIDX2BUF E i) v fl s = Some (r, t)"
  shows "buf_frame s t \<and> os t = os s \<and> same_heads s t \<and> header_only (unat i) s t"
proof -
  note fr = RedBufferFinalize_frame [OF f]
  have "header_only (unat i) s t"
  proof (cases "gBufCtx t = gBufCtx s")
    case True
    then show ?thesis by (rule header_only_same)
  next
    case False
    define sig where "sig = finalize_signature E (fl AND BFLAG_META_MASK)"
    define q where "q = vol_ullSequence (gaRedVolume s v)"
    from f False have "thenE (RedVolSeqNumIncrement E v)
        (modE (upd_buf E (BIDX2BUF E i) (finalized E (BIDX2BUF E i) sig q))) s = Some (r, t)"
      by (auto simp: RedBufferFinalize_def Let_def sig_def q_def split: if_splits)
    then obtain u where u: "gBufCtx u = gBufCtx s"
      and t: "t = upd_buf E (BIDX2BUF E i) (finalized E (BIDX2BUF E i) sig q) u"
    proof (cases rule: thenE_eq_SomeE)
      case (err e)
      with RedVolSeqNumIncrement_frame [OF err(1)] False show ?thesis by simp
    next
      case (ok x u)
      with RedVolSeqNumIncrement_frame [OF ok(1)] show ?thesis by (intro that [of u]) simp_all
    qed
    have l: "length (bc_blocks (gBufCtx s) ! unat i) = BSIZE E" "16 \<le> BSIZE E"
      using buf_inv_block_length [OF inv i] BSIZE_ge [OF e] by simp_all
    have n: "unat i < length (bc_blocks (gBufCtx s))"
      using inv i by (simp add: buf_inv_def ctx_inv_def)
    from l n show ?thesis
      using finalized_fields(4) [OF l, of "BIDX2BUF E i" sig q]
      by (simp add: header_only_def t upd_buf_ctx u e nth_list_update)
  qed
  with fr show ?thesis by (simp add: same_heads_def)
qed

lemma io_frame_same_heads: "io_frame s t \<Longrightarrow> same_heads s t \<and> header_only k s t \<and> buf_frame s t"
  by (simp add: same_heads_def header_only_def io_frame_def buf_frame_io)

lemma BufferWrite_effect:
  assumes e: "env_ok E" and inv: "buf_inv E s" and w: "BufferWrite E i s = Some (r, t)"
  shows "buf_frame s t \<and> same_heads s t \<and> header_only (unat i) s t"
proof (cases "i < REDCONF_BUFFER_COUNT E")
  case False
  with w show ?thesis by (simp add: BufferWrite_def)
next
  case True
  then have i: "unat i < NBUF E" by (simp add: word_less_nat_alt)
  let ?fin = "if bh_uFlags (head_of i s) AND BFLAG_META \<noteq> 0
      then RedBufferFinalize E (BIDX2BUF E i) (bh_bVolNum (head_of i s)) (bh_uFlags (head_of i s)) else okE ()"
  have fin: "buf_frame s u \<and> same_heads s u \<and> header_only (unat i) s u" if "?fin s = Some (q, u)" for q u
    using that RedBufferFinalize_effect [OF e inv i] by (auto split: if_splits)
  from w True have "thenE ?fin (bindE (getE (buf_at E (BIDX2BUF E i))) (\<lambda>b.
      RedIoWrite E (bh_bVolNum (head_of i s)) (bh_ulBlock (head_of i s)) 1 b)) s = Some (r, t)"
    by (simp add: BufferWrite_def)
  then show ?thesis
  proof (cases rule: thenE_eq_SomeE)
    case (err e)
    show ?thesis by (rule fin [OF err(1)])
  next
    case (ok x u)
    from ok(2) have "RedIoWrite E (bh_bVolNum (head_of i s)) (bh_ulBlock (head_of i s)) 1
        (buf_at E (BIDX2BUF E i) u) u = Some (r, t)" by simp
    from io_frame_same_heads [OF RedIoWrite_frame [OF this]] fin [OF ok(1)] show ?thesis
      by (auto intro: buf_frame_trans same_heads_trans header_only_trans)
  qed
qed

end
