(* ===== verification/Red_Cache.thy ===== *)
theory Red_Cache
  imports Red_Buffer
begin

text \<open>
  What the operations of the buffer cache do to its state: each one keeps the invariant of
  the cache, and the lemmas give the buffers and heads it changes. The reachable states of
  a cache used in turns by its clients are the subject of the properties.
\<close>

section \<open>Changes that are confined to one buffer\<close>

definition touches :: "nat \<Rightarrow> 'd fs \<Rightarrow> 'd fs \<Rightarrow> bool" where
  "touches i s t \<longleftrightarrow> (let c = gBufCtx s; d = gBufCtx t in
     bc_abMRU d = bc_abMRU c \<and> bc_uNumUsed d = bc_uNumUsed c \<and>
     length (bc_aHead d) = length (bc_aHead c) \<and> length (bc_blocks d) = length (bc_blocks c) \<and>
     (\<forall>j < length (bc_aHead c). j \<noteq> i \<longrightarrow> bc_aHead d ! j = bc_aHead c ! j) \<and>
     (\<forall>j < length (bc_blocks c). j \<noteq> i \<longrightarrow> bc_blocks d ! j = bc_blocks c ! j) \<and>
     (i < length (bc_blocks c) \<longrightarrow> length (bc_blocks d ! i) = length (bc_blocks c ! i)))"

lemma touches_refl [simp]: "touches i s s"
  by (simp add: touches_def)

lemma touches_trans: "touches i s t \<Longrightarrow> touches i t u \<Longrightarrow> touches i s u"
  by (simp add: touches_def Let_def)

lemma touches_same_ctx: "gBufCtx t = gBufCtx s \<Longrightarrow> touches i s t"
  by (simp add: touches_def)

lemma upd_head_simps [simp]:
  "gbRedVolNum (upd_head i f s) = gbRedVolNum s" "gaRedVolume (upd_head i f s) = gaRedVolume s"
  "gpRedVolume (upd_head i f s) = gpRedVolume s" "gpRedCoreVol (upd_head i f s) = gpRedCoreVol s"
  "gpRedMR (upd_head i f s) = gpRedMR s" "gaRedCoreVol (upd_head i f s) = gaRedCoreVol s"
  "gaRedBdevInfo (upd_head i f s) = gaRedBdevInfo s" "os (upd_head i f s) = os s"
  "bc_abMRU (gBufCtx (upd_head i f s)) = bc_abMRU (gBufCtx s)"
  "bc_uNumUsed (gBufCtx (upd_head i f s)) = bc_uNumUsed (gBufCtx s)"
  "bc_blocks (gBufCtx (upd_head i f s)) = bc_blocks (gBufCtx s)"
  "bc_aHead (gBufCtx (upd_head i f s)) = (bc_aHead (gBufCtx s))[unat i := f (head_of i s)]"
  "buf_frame s (upd_head i f s)"
  by (simp_all add: upd_head_def head_of_def)

lemma head_of_upd_head: "unat i < length (bc_aHead (gBufCtx s)) \<Longrightarrow> head_of i (upd_head i f s) = f (head_of i s)"
  by (simp add: head_of_def)

lemma touches_upd_head [simp]: "touches (unat i) s (upd_head i f s)"
  by (simp add: touches_def)

lemma touches_header_only: "same_heads s t \<Longrightarrow> header_only i s t \<Longrightarrow> touches i s t"
  by (simp add: touches_def same_heads_def header_only_def)

lemma touches_heads: "touches i s t \<Longrightarrow> i < length (bc_aHead (gBufCtx s)) \<Longrightarrow>
    bc_aHead (gBufCtx t) = (bc_aHead (gBufCtx s))[i := bc_aHead (gBufCtx t) ! i]"
  by (rule nth_equalityI) (auto simp: touches_def Let_def nth_list_update)

lemma touches_blocks: "touches i s t \<Longrightarrow> i < length (bc_blocks (gBufCtx s)) \<Longrightarrow>
    bc_blocks (gBufCtx t) = (bc_blocks (gBufCtx s))[i := bc_blocks (gBufCtx t) ! i]"
  by (rule nth_equalityI) (auto simp: touches_def Let_def nth_list_update)

text \<open>
  The invariant depends, for an operation that is confined to a buffer, on the new head only.
\<close>

lemma buf_inv_touches:
  assumes inv: "buf_inv E s" and t: "touches i s t" and i: "i < NBUF E"
    and ref: "(bh_bRefCount (bc_aHead (gBufCtx t) ! i) = 0) = (bh_bRefCount (bc_aHead (gBufCtx s) ! i) = 0)"
    and valid: "bh_bRefCount (bc_aHead (gBufCtx t) ! i) \<noteq> 0 \<Longrightarrow> bh_ulBlock (bc_aHead (gBufCtx t) ! i) \<noteq> BBLK_INVALID"
    and uniq: "\<And>j. bh_ulBlock (bc_aHead (gBufCtx t) ! i) \<noteq> BBLK_INVALID \<Longrightarrow> j < NBUF E \<Longrightarrow> j \<noteq> i \<Longrightarrow>
        \<not> same_block (bc_aHead (gBufCtx t) ! i) (bc_aHead (gBufCtx s) ! j)"
  shows "buf_inv E t"
proof -
  let ?c = "gBufCtx s" and ?d = "gBufCtx t"
  have inv': "ctx_inv E ?c" using inv by (simp add: buf_inv_def)
  note len = ctx_inv_lengths [OF inv']
  have bl: "length (bc_blocks ?d ! i) = BSIZE E"
    using t i len(3) buf_inv_block_length [OF inv i] by (simp add: touches_def Let_def)
  have "ctx_inv E (?c\<lparr>bc_aHead := (bc_aHead ?c)[i := bc_aHead ?d ! i]\<rparr>)"
    by (rule ctx_inv_head_same_refs [OF inv' i ref valid uniq])
  from ctx_inv_blocks [OF this bl, of i]
  have "ctx_inv E (?c\<lparr>bc_aHead := bc_aHead ?d, bc_blocks := bc_blocks ?d\<rparr>)"
    using touches_heads [OF t] touches_blocks [OF t] i len by simp
  moreover have "?c\<lparr>bc_aHead := bc_aHead ?d, bc_blocks := bc_blocks ?d\<rparr> = ?d"
    using t by (simp add: touches_def Let_def)
  ultimately show ?thesis by (simp add: buf_inv_def)
qed

lemma buf_inv_touches_same_head:
  assumes "buf_inv E s" and "touches i s t" and "i < NBUF E"
    and "bc_aHead (gBufCtx t) ! i = bc_aHead (gBufCtx s) ! i"
  shows "buf_inv E t"
  using assms by (intro buf_inv_touches [OF assms(1-3)]) (auto simp: buf_inv_def ctx_inv_def)

lemma buf_inv_same_ctx: "buf_inv E s \<Longrightarrow> gBufCtx t = gBufCtx s \<Longrightarrow> buf_inv E t"
  by (simp add: buf_inv_def)

lemma buf_inv_lengths:
  "buf_inv E s \<Longrightarrow> length (bc_abMRU (gBufCtx s)) = NBUF E"
  "buf_inv E s \<Longrightarrow> length (bc_aHead (gBufCtx s)) = NBUF E"
  "buf_inv E s \<Longrightarrow> length (bc_blocks (gBufCtx s)) = NBUF E"
  by (simp_all add: buf_inv_def ctx_inv_def)

section \<open>The victim\<close>

lemma victim_loop_le: "victim_loop hs m n \<le> n"
  by (induction hs m n rule: victim_loop.induct) auto

lemma victim_loop_free:
  "\<exists>i \<le> n. bh_bRefCount (hs ! unat (m ! i)) = 0 \<Longrightarrow>
   bh_bRefCount (hs ! unat (m ! victim_loop hs m n)) = 0 \<and>
   (\<forall>i. victim_loop hs m n < i \<and> i \<le> n \<longrightarrow> bh_bRefCount (hs ! unat (m ! i)) \<noteq> 0)"
proof (induction hs m n rule: victim_loop.induct)
  case (1 hs m)
  then show ?case by auto
next
  case (2 hs m n)
  show ?case
  proof (cases "bh_bRefCount (hs ! unat (m ! Suc n)) = 0")
    case True
    then show ?thesis by auto
  next
    case False
    with 2 show ?thesis by (auto simp: le_Suc_eq)
  qed
qed

lemma victim_less: "env_ok E \<Longrightarrow> buf_inv E s \<Longrightarrow> unat (victim E s) < NBUF E"
proof -
  assume e: "env_ok E" and inv: "buf_inv E s"
  have "victim_loop (bc_aHead (gBufCtx s)) (bc_abMRU (gBufCtx s)) (NBUF E - 1) < length (bc_abMRU (gBufCtx s))"
    unfolding buf_inv_lengths [OF inv] using e
    by (intro le_less_trans [OF victim_loop_le]) (simp add: env_ok_def)
  then have "victim E s \<in> set (bc_abMRU (gBufCtx s))" by (simp add: victim_def)
  with inv show ?thesis by (simp add: buf_inv_def ctx_inv_def)
qed

lemma num_used_le: "buf_inv E s \<Longrightarrow> unat (bc_uNumUsed (gBufCtx s)) \<le> NBUF E"
proof -
  assume inv: "buf_inv E s"
  have "referenced (bc_aHead (gBufCtx s)) \<subseteq> {..<NBUF E}"
    using buf_inv_lengths(2) [OF inv] by (auto simp: referenced_def)
  from card_mono [OF _ this] have "card (referenced (bc_aHead (gBufCtx s))) \<le> NBUF E" by simp
  with inv show ?thesis by (simp add: buf_inv_def ctx_inv_def)
qed

lemma free_buffer_exists:
  assumes inv: "buf_inv E s" and used: "bc_uNumUsed (gBufCtx s) \<noteq> ucast (REDCONF_BUFFER_COUNT E)"
  shows "\<exists>i < NBUF E. bh_bRefCount (bc_aHead (gBufCtx s) ! i) = 0"
proof (rule ccontr)
  assume "\<not> ?thesis"
  then have "referenced (bc_aHead (gBufCtx s)) = {..<NBUF E}"
    using buf_inv_lengths(2) [OF inv] by (auto simp: referenced_def)
  then have "unat (bc_uNumUsed (gBufCtx s)) = NBUF E"
    using inv by (simp add: buf_inv_def ctx_inv_def)
  moreover have "unat (ucast (REDCONF_BUFFER_COUNT E) :: u16) = NBUF E"
    using less_trans [OF unat_u8_less, of 65536 "REDCONF_BUFFER_COUNT E"]
    by (simp add: unsigned_ucast_eq take_bit_nat_eq_self)
  ultimately show False using used by (metis unsigned_word_eqI)
qed

lemma victim_free:
  assumes "env_ok E" and inv: "buf_inv E s"
    and free: "\<exists>i < NBUF E. bh_bRefCount (bc_aHead (gBufCtx s) ! i) = 0"
  shows "bh_bRefCount (head_of (victim E s) s) = 0"
proof -
  from free obtain i where i: "i < NBUF E" "bh_bRefCount (bc_aHead (gBufCtx s) ! i) = 0" by blast
  have "word_of_nat i \<in> set (bc_abMRU (gBufCtx s))"
    using inv i by (intro ctx_inv_mru_all [of E]) (simp_all add: buf_inv_def word_of_nat_u8)
  then obtain k where k: "k < NBUF E" "bc_abMRU (gBufCtx s) ! k = word_of_nat i"
    using buf_inv_lengths(1) [OF inv] by (auto simp: in_set_conv_nth)
  with i have "\<exists>k \<le> NBUF E - 1. bh_bRefCount (bc_aHead (gBufCtx s) ! unat (bc_abMRU (gBufCtx s) ! k)) = 0"
    by (intro exI [of _ k]) (auto simp: word_of_nat_u8)
  from victim_loop_free [OF this] show ?thesis by (simp add: head_of_def victim_def)
qed

section \<open>Eviction and filling\<close>

lemma RedIoRead_length:
  assumes e: "env_ok E" and r: "RedIoRead E v b n old s = Some (Inr (ret, new), t)"
  shows "length new = length old"
proof (cases "io_args_invalid E v b n s")
  case True
  with r show ?thesis by (auto simp: RedIoRead_def thenE_CRITICAL_ASSERT)
next
  case False
  with r obtain u where
    io: "io_retry (vc_bBlockIoRetries (gaRedVolConf E v))
        (RedBDevRead E v (ullSectorStart E v b s) (ulSectorCount v n s)) 0 (Inr ()) (old, s)
      = Some (ret, new, u)"
    by (auto simp: RedIoRead_def thenE_CRITICAL_ASSERT split: option.splits)
  have step: "length (fst (snd (RedBDevRead E v st m x))) = length (fst x)" for st m x
  proof (cases x)
    case (Pair a w)
    have "length (fst (snd (RedOsBDevRead E v st m a (os w)))) = length a"
      using e by (simp add: env_ok_def)
    with Pair show ?thesis by (simp add: RedBDevRead_def case_prod_unfold Let_def)
  qed
  have "length (fst (old, s)) = length (fst (snd (ret, new, u)))"
    by (rule io_retry_rel [OF io, where R = "\<lambda>x y. length (fst x) = length (fst y)"]) (simp_all add: step)
  then show ?thesis by simp
qed

lemma CRITICAL_ERROR_effect:
  "buf_frame s (upd_vol (vol_fReadOnly_update (\<lambda>_. True)) s)"
  "gBufCtx (upd_vol (vol_fReadOnly_update (\<lambda>_. True)) s) = gBufCtx s"
  by simp_all

lemma buffer_evict_effect:
  assumes e: "env_ok E" and inv: "buf_inv E s" and ev: "buffer_evict E i s = Some (r, t)"
  shows "buf_frame s t \<and> same_heads s t \<and> header_only (unat i) s t"
  using ev BufferWrite_effect [OF e inv]
  by (auto simp: buffer_evict_def thenE_Inr [OF CRITICAL_ERROR_app] same_heads_def header_only_same
      split: if_splits)

lemma upd_buf_simps [simp]:
  "gbRedVolNum (upd_buf E p f s) = gbRedVolNum s" "gpRedVolume (upd_buf E p f s) = gpRedVolume s"
  "gaRedVolume (upd_buf E p f s) = gaRedVolume s" "gpRedCoreVol (upd_buf E p f s) = gpRedCoreVol s"
  "gaRedCoreVol (upd_buf E p f s) = gaRedCoreVol s" "gpRedMR (upd_buf E p f s) = gpRedMR s"
  "gaRedBdevInfo (upd_buf E p f s) = gaRedBdevInfo s" "os (upd_buf E p f s) = os s"
  "bc_abMRU (gBufCtx (upd_buf E p f s)) = bc_abMRU (gBufCtx s)"
  "bc_uNumUsed (gBufCtx (upd_buf E p f s)) = bc_uNumUsed (gBufCtx s)"
  "bc_aHead (gBufCtx (upd_buf E p f s)) = bc_aHead (gBufCtx s)"
  "bc_blocks (gBufCtx (upd_buf E p f s)) = (bc_blocks (gBufCtx s))[p div BSIZE E := f (buf_at E p s)]"
  by (simp_all add: upd_buf_def gp_defs)

lemma touches_upd_buf:
  assumes "env_ok E" and "length (f (buf_at E (BIDX2BUF E i) s)) = length (buf_at E (BIDX2BUF E i) s)"
  shows "touches (unat i) s (upd_buf E (BIDX2BUF E i) f s)"
  using assms by (simp add: touches_def Let_def buf_at_def)

lemma buffer_fill_effect:
  assumes e: "env_ok E" and inv: "buf_inv E s" and i: "unat i < NBUF E"
    and f: "buffer_fill E i b fl s = Some (r, t)"
  shows "buf_frame s t \<and> touches (unat i) s t \<and>
    (head_of i t = head_of i s \<or> head_of i t = head_of i s\<lparr>bh_ulBlock := BBLK_INVALID\<rparr>)"
proof (cases "fl AND BFLAG_NEW = 0")
  case False
  then have t: "t = upd_buf E (BIDX2BUF E i) (\<lambda>_. replicate (BSIZE E) 0) s"
    using f by (simp add: buffer_fill_def)
  have "length (buf_at E (BIDX2BUF E i) s) = BSIZE E"
    using e inv i by (simp add: buf_at_def buf_inv_block_length)
  then show ?thesis unfolding t by (simp add: touches_upd_buf e head_of_def)
next
  case True
  let ?s = "upd_head i (\<lambda>h. h\<lparr>bh_ulBlock := BBLK_INVALID\<rparr>) s" and ?p = "BIDX2BUF E i"
  have io: "\<exists>ret new u. RedIoRead E (gbRedVolNum s) b 1 (buf_at E ?p ?s) ?s = Some (Inr (ret, new), u) \<and>
      (t = upd_buf E ?p (\<lambda>_. new) u \<or>
       t = upd_vol (vol_fReadOnly_update (\<lambda>_. True)) (upd_buf E ?p (\<lambda>_. new) u))"
  proof -
    have "bindE (RedIoRead E (gbRedVolNum s) b 1 (buf_at E ?p ?s)) (\<lambda>(ret, new).
        thenE (modE (upd_buf E ?p (\<lambda>_. new))) (case ret of Inl e \<Rightarrow> errE e
          | Inr _ \<Rightarrow> if fl AND BFLAG_META \<noteq> 0 then
              bindE (getE (RedBufferIsValid E ?p new fl)) (\<lambda>valid. if \<not> valid then
                thenE (CRITICAL_ASSERT (fl AND BFLAG_META_MASTER = BFLAG_META_MASTER)) (errE RED_EIO)
                else okE ())
            else okE ())) ?s = Some (r, t)"
      using f True by (simp add: buffer_fill_def Let_def)
    then show ?thesis
    proof (cases rule: bindE_eq_SomeE)
      case (err er)
      with RedIoRead_frame [OF err(1)] show ?thesis by simp
    next
      case (ok x u)
      obtain ret new where x: "x = (ret, new)" by (cases x)
      with ok show ?thesis
        by (auto simp: thenE_CRITICAL_ASSERT split: sum.splits if_splits)
    qed
  qed
  then obtain ret new u where rd: "RedIoRead E (gbRedVolNum s) b 1 (buf_at E ?p ?s) ?s = Some (Inr (ret, new), u)"
    and t: "t = upd_buf E ?p (\<lambda>_. new) u \<or>
       t = upd_vol (vol_fReadOnly_update (\<lambda>_. True)) (upd_buf E ?p (\<lambda>_. new) u)" by blast
  have fr: "io_frame ?s u" using RedIoRead_frame [OF rd] by simp
  then have ctx: "gBufCtx u = gBufCtx ?s" by (rule io_frame_globals)
  have "length new = length (buf_at E ?p u)"
    using RedIoRead_length [OF e rd] by (simp add: buf_at_def ctx)
  then have "touches (unat i) u t" using t touches_upd_buf [OF e, of "\<lambda>_. new" i u]
    by (auto simp: touches_def)
  moreover have "touches (unat i) ?s u" by (rule touches_same_ctx [OF ctx])
  ultimately have tch: "touches (unat i) s t" by (metis touches_trans touches_upd_head)
  have "buf_frame u t"
    using t by (metis buf_frame_trans buf_frame_upd_buf buf_frame_critical)
  then have "buf_frame s t" using fr by (metis buf_frame_io buf_frame_trans upd_head_simps(13))
  moreover have "head_of i t = head_of i ?s" using t by (auto simp: head_of_def ctx)
  ultimately show ?thesis
    using tch i buf_inv_lengths(2) [OF inv] by (simp add: head_of_upd_head)
qed

section \<open>Getting a buffer\<close>

lemma BufferFind_Some:
  assumes "BufferFind E b s = Some i"
  shows "unat i < NBUF E" and "bh_bVolNum (head_of i s) = gbRedVolNum s" and "bh_ulBlock (head_of i s) = b"
    and "b < vol_ulBlockCount (gpRedVolume s)"
proof -
  from assms obtain k where
    f: "find (\<lambda>bIdx. let pHead = bc_aHead (gBufCtx s) ! bIdx
          in bh_bVolNum pHead = gbRedVolNum s \<and> bh_ulBlock pHead = b) [0..<NBUF E] = Some k"
    and i: "i = word_of_nat k" and b: "b < vol_ulBlockCount (gpRedVolume s)"
    by (auto simp: BufferFind_def split: if_splits)
  from find_Some_upt [OF f] have k: "k < NBUF E"
    "bh_bVolNum (bc_aHead (gBufCtx s) ! k) = gbRedVolNum s" "bh_ulBlock (bc_aHead (gBufCtx s) ! k) = b"
    by (simp_all add: Let_def)
  with i show "unat i < NBUF E" "bh_bVolNum (head_of i s) = gbRedVolNum s" "bh_ulBlock (head_of i s) = b"
    by (simp_all add: head_of_def word_of_nat_u8)
  show "b < vol_ulBlockCount (gpRedVolume s)" by (rule b)
qed

lemma BufferFind_None:
  assumes "BufferFind E b s = None" and "b < vol_ulBlockCount (gpRedVolume s)" and "j < NBUF E"
  shows "\<not> (bh_bVolNum (bc_aHead (gBufCtx s) ! j) = gbRedVolNum s \<and> bh_ulBlock (bc_aHead (gBufCtx s) ! j) = b)"
  using assms by (auto simp: BufferFind_def find_None_upt Let_def split: if_splits)

lemma buf_inv_uniq:
  "buf_inv E s \<Longrightarrow> i < NBUF E \<Longrightarrow> j < NBUF E \<Longrightarrow>
   same_block (bc_aHead (gBufCtx s) ! i) (bc_aHead (gBufCtx s) ! j) \<Longrightarrow>
   bh_ulBlock (bc_aHead (gBufCtx s) ! i) \<noteq> BBLK_INVALID \<Longrightarrow> i = j"
  by (simp add: buf_inv_def ctx_inv_def)

lemma buf_inv_referenced_valid:
  "buf_inv E s \<Longrightarrow> i < NBUF E \<Longrightarrow> bh_bRefCount (bc_aHead (gBufCtx s) ! i) \<noteq> 0 \<Longrightarrow>
   bh_ulBlock (bc_aHead (gBufCtx s) ! i) \<noteq> BBLK_INVALID"
  by (simp add: buf_inv_def ctx_inv_def)

lemma block_count_not_invalid: "b < (n :: u32) \<Longrightarrow> b \<noteq> BBLK_INVALID"
proof
  assume "b < n" and b: "b = BBLK_INVALID"
  then have "unat b < unat n" by (simp add: word_less_nat_alt)
  moreover have "unat n < 2 ^ 32" by (rule unat_u32_less)
  ultimately show False by (simp add: b BBLK_INVALID_def)
qed

lemma buffer_get_miss_effect:
  assumes e: "env_ok E" and inv: "buf_inv E s"
    and none: "BufferFind E b s = None" and b: "b < vol_ulBlockCount (gpRedVolume s)"
    and free: "\<exists>i < NBUF E. bh_bRefCount (bc_aHead (gBufCtx s) ! i) = 0"
    and m: "buffer_get_miss E b fl s = Some (r, t)"
  shows "buf_frame s t \<and> touches (unat (victim E s)) s t \<and> buf_inv E t \<and>
    bh_bRefCount (head_of (victim E s) t) = 0 \<and>
    (r = Inr (victim E s) \<and> head_of (victim E s) t = \<lparr>bh_ulBlock = b, bh_bVolNum = gbRedVolNum s,
        bh_bRefCount = 0, bh_uFlags = 0\<rparr>
     \<or> (\<exists>e. r = Inl e))"
proof -
  let ?i = "victim E s"
  have i: "unat ?i < NBUF E" by (rule victim_less [OF e inv])
  have ref: "bh_bRefCount (head_of ?i s) = 0" by (rule victim_free [OF e inv free])
  from m have m': "thenE (buffer_evict E ?i) (thenE (buffer_fill E ?i b fl)
      (thenE (modE (\<lambda>s. upd_head ?i (\<lambda>h. h\<lparr>bh_bVolNum := gbRedVolNum s, bh_ulBlock := b, bh_uFlags := 0\<rparr>) s))
        (okE ?i))) s = Some (r, t)" by (simp add: buffer_get_miss_def)
  have ev: "buf_frame s u \<and> touches (unat ?i) s u \<and> buf_inv E u \<and> head_of ?i u = head_of ?i s"
    if "buffer_evict E ?i s = Some (q, u)" for q u
    using buffer_evict_effect [OF e inv that] buf_inv_same_heads [OF inv]
    by (auto intro: touches_header_only simp: head_of_def same_heads_def)
  have inv_fill: "buf_inv E w"
    if "buf_inv E u" "touches (unat ?i) u w" "bh_bRefCount (head_of ?i u) = 0"
      "head_of ?i w = head_of ?i u \<or> head_of ?i w = head_of ?i u\<lparr>bh_ulBlock := BBLK_INVALID\<rparr>" for u w
    by (rule buf_inv_touches [OF that(1,2) i])
      (use that(3,4) in \<open>auto simp: head_of_def dest: buf_inv_uniq [OF that(1) i]\<close>)
  from m' show ?thesis
  proof (cases rule: thenE_eq_SomeE)
    case (err x)
    with ev [OF err(1)] ref show ?thesis by auto
  next
    case (ok x u)
    note eu = ev [OF ok(1)]
    have fill: "buf_frame s w \<and> touches (unat ?i) s w \<and> buf_inv E w \<and> bh_bRefCount (head_of ?i w) = 0"
      if "buffer_fill E ?i b fl u = Some (q, w)" for q w
    proof -
      from eu have iu: "buf_inv E u" and ru: "bh_bRefCount (head_of ?i u) = 0" by (simp_all add: ref)
      note fe = buffer_fill_effect [OF e iu i that]
      then have "buf_inv E w" by (intro inv_fill [OF iu _ ru]) simp_all
      moreover have "bh_bRefCount (head_of ?i w) = 0" using fe ru by auto
      ultimately show ?thesis using fe eu by (blast intro: touches_trans buf_frame_trans)
    qed
    from ok(2) show ?thesis
    proof (cases rule: thenE_eq_SomeE)
      case (err x)
      with fill [OF err(1)] show ?thesis by auto
    next
      case (ok y w)
      note fw = fill [OF ok(1)]
      then have vol: "gbRedVolNum w = gbRedVolNum s" by (simp add: buf_frame_globals)
      let ?h = "\<lparr>bh_ulBlock = b, bh_bVolNum = gbRedVolNum s, bh_bRefCount = 0, bh_uFlags = 0\<rparr>"
      from ok(2) have r: "r = Inr ?i" and t: "t = upd_head ?i
          (\<lambda>h. h\<lparr>bh_bVolNum := gbRedVolNum s, bh_ulBlock := b, bh_uFlags := 0\<rparr>) w"
        by (simp_all add: vol)
      have len: "unat ?i < length (bc_aHead (gBufCtx w))" using fw i buf_inv_lengths(2) [of E w] by simp
      have h: "head_of ?i t = ?h" using fw len by (simp add: t head_of_upd_head)
      have wt: "touches (unat ?i) w t" by (simp add: t)
      have old: "bc_aHead (gBufCtx w) ! j = bc_aHead (gBufCtx s) ! j" if "j < NBUF E" "j \<noteq> unat ?i" for j
        using fw that by (simp add: touches_def Let_def buf_inv_lengths [OF inv])
      have "buf_inv E t"
      proof (rule buf_inv_touches [OF _ wt i])
        show "buf_inv E w" using fw by blast
        show "\<not> same_block (bc_aHead (gBufCtx t) ! unat ?i) (bc_aHead (gBufCtx w) ! j)"
          if "j < NBUF E" "j \<noteq> unat ?i" for j
          using BufferFind_None [OF none b that(1)] h old [OF that] by (auto simp: head_of_def same_block_def)
      qed (use fw h block_count_not_invalid [OF b] in \<open>simp_all add: head_of_def\<close>)
      moreover have "buf_frame w t" unfolding t by simp
      moreover have "bh_bRefCount (head_of ?i t) = 0" using h by simp
      ultimately show ?thesis using fw wt r h by (blast intro: touches_trans buf_frame_trans)
    qed
  qed
qed

section \<open>The operations on one buffer\<close>

lemma buf_inv_same_ref:
  assumes inv: "buf_inv E s" and i: "unat i < NBUF E"
    and ref: "bh_bRefCount (f (head_of i s)) = bh_bRefCount (head_of i s)"
    and valid: "bh_bRefCount (head_of i s) \<noteq> 0 \<Longrightarrow> bh_ulBlock (f (head_of i s)) \<noteq> BBLK_INVALID"
    and uniq: "\<And>j. bh_ulBlock (f (head_of i s)) \<noteq> BBLK_INVALID \<Longrightarrow> j < NBUF E \<Longrightarrow> j \<noteq> unat i \<Longrightarrow>
        \<not> same_block (f (head_of i s)) (bc_aHead (gBufCtx s) ! j)"
  shows "buf_inv E (upd_head i f s)"
  using i buf_inv_lengths(2) [OF inv] ref
  by (intro buf_inv_touches [OF inv touches_upd_head i]) (auto simp: head_of_def valid uniq
      dest: valid [unfolded head_of_def] uniq [unfolded head_of_def])

lemma buf_inv_same_block:
  assumes inv: "buf_inv E s" and i: "unat i < NBUF E"
    and ref: "bh_bRefCount (f (head_of i s)) = bh_bRefCount (head_of i s)"
    and blk: "same_block (f (head_of i s)) (head_of i s)"
  shows "buf_inv E (upd_head i f s)"
proof (rule buf_inv_same_ref [where f = f, OF inv i ref])
  show "bh_ulBlock (f (head_of i s)) \<noteq> BBLK_INVALID" if "bh_bRefCount (head_of i s) \<noteq> 0"
    using buf_inv_referenced_valid [OF inv i] that blk by (simp add: same_block_def head_of_def)
  show "\<not> same_block (f (head_of i s)) (bc_aHead (gBufCtx s) ! j)"
    if "bh_ulBlock (f (head_of i s)) \<noteq> BBLK_INVALID" "j < NBUF E" "j \<noteq> unat i" for j
    using buf_inv_uniq [OF inv i that(2)] that blk by (auto simp: same_block_def head_of_def)
qed

text \<open>The number of used buffers follows the reference counts.\<close>

lemma buf_inv_ref_change:
  assumes inv: "buf_inv E s" and i: "unat i < NBUF E"
    and blk: "bh_ulBlock (f (head_of i s)) = BBLK_INVALID \<and> bh_bRefCount (f (head_of i s)) = 0 \<or>
      same_block (f (head_of i s)) (head_of i s)"
    and valid: "bh_ulBlock (head_of i s) \<noteq> BBLK_INVALID"
    and used: "unat (g (bc_uNumUsed (gBufCtx s))) = card (if bh_bRefCount (f (head_of i s)) \<noteq> 0
        then insert (unat i) (referenced (bc_aHead (gBufCtx s)))
        else referenced (bc_aHead (gBufCtx s)) - {unat i})"
  shows "buf_inv E (upd_used g (upd_head i f s))"
proof -
  have c: "ctx_inv E (gBufCtx s)" using inv by (simp add: buf_inv_def)
  have "ctx_inv E ((gBufCtx s)\<lparr>bc_aHead := (bc_aHead (gBufCtx s))[unat i := f (head_of i s)],
      bc_uNumUsed := g (bc_uNumUsed (gBufCtx s))\<rparr>)"
  proof (rule ctx_inv_head [OF c i used])
    show "bh_ulBlock (f (head_of i s)) \<noteq> BBLK_INVALID" if "bh_bRefCount (f (head_of i s)) \<noteq> 0"
      using blk valid that by (auto simp: same_block_def)
    show "\<not> same_block (f (head_of i s)) (bc_aHead (gBufCtx s) ! j)"
      if "bh_ulBlock (f (head_of i s)) \<noteq> BBLK_INVALID" "j < NBUF E" "j \<noteq> unat i" for j
      using buf_inv_uniq [OF inv i that(2)] that blk valid by (auto simp: same_block_def head_of_def)
  qed
  moreover have "gBufCtx (upd_used g (upd_head i f s)) = (gBufCtx s)\<lparr>bc_aHead :=
      (bc_aHead (gBufCtx s))[unat i := f (head_of i s)], bc_uNumUsed := g (bc_uNumUsed (gBufCtx s))\<rparr>"
    by (simp add: upd_used_def upd_head_def head_of_def)
  ultimately show ?thesis by (simp add: buf_inv_def)
qed

lemma upd_used_simps [simp]:
  "gbRedVolNum (upd_used g s) = gbRedVolNum s" "gpRedVolume (upd_used g s) = gpRedVolume s"
  "bc_aHead (gBufCtx (upd_used g s)) = bc_aHead (gBufCtx s)"
  "bc_blocks (gBufCtx (upd_used g s)) = bc_blocks (gBufCtx s)"
  "bc_abMRU (gBufCtx (upd_used g s)) = bc_abMRU (gBufCtx s)"
  "bc_uNumUsed (gBufCtx (upd_used g s)) = g (bc_uNumUsed (gBufCtx s))"
  "head_of i (upd_used g s) = head_of i s" "buf_frame s (upd_used g s)"
  "upd_used (\<lambda>n. n) s = s"
  by (simp_all add: upd_used_def head_of_def upd_ctx_def gp_defs)

lemma make_simps [simp]:
  "bc_aHead (gBufCtx (BufferMakeMRU E i s)) = bc_aHead (gBufCtx s)"
  "bc_blocks (gBufCtx (BufferMakeMRU E i s)) = bc_blocks (gBufCtx s)"
  "bc_uNumUsed (gBufCtx (BufferMakeMRU E i s)) = bc_uNumUsed (gBufCtx s)"
  "gbRedVolNum (BufferMakeMRU E i s) = gbRedVolNum s" "buf_frame s (BufferMakeMRU E i s)"
  "bc_aHead (gBufCtx (BufferMakeLRU E i s)) = bc_aHead (gBufCtx s)"
  "bc_blocks (gBufCtx (BufferMakeLRU E i s)) = bc_blocks (gBufCtx s)"
  "bc_uNumUsed (gBufCtx (BufferMakeLRU E i s)) = bc_uNumUsed (gBufCtx s)"
  "gbRedVolNum (BufferMakeLRU E i s) = gbRedVolNum s" "buf_frame s (BufferMakeLRU E i s)"
  "head_of j (BufferMakeMRU E i s) = head_of j s" "head_of j (BufferMakeLRU E i s) = head_of j s"
  by (simp_all add: BufferMakeMRU_def BufferMakeLRU_def head_of_def)

lemma make_inv:
  assumes inv: "buf_inv E s"
  shows "buf_inv E (BufferMakeMRU E i s)" and "buf_inv E (BufferMakeLRU E i s)"
proof -
  have c: "ctx_inv E (gBufCtx s)" using inv by (simp add: buf_inv_def)
  have "mset (mru_mru (NBUF E) i (bc_abMRU (gBufCtx s))) = mset (bc_abMRU (gBufCtx s)) \<and>
      mset (mru_lru (NBUF E) i (bc_abMRU (gBufCtx s))) = mset (bc_abMRU (gBufCtx s))"
    if "unat i < NBUF E"
    using mru_perm [OF _ ctx_inv_mru_all [OF c that]] c by (simp add: ctx_inv_def)
  then show "buf_inv E (BufferMakeMRU E i s)" "buf_inv E (BufferMakeLRU E i s)"
    using inv ctx_inv_mru_perm [OF c]
    by (auto simp: BufferMakeMRU_def BufferMakeLRU_def buf_inv_def word_less_nat_alt not_le)
qed

lemma unat_plus_one: "(n :: 'a::len word) \<noteq> - 1 \<Longrightarrow> unat (n + 1) = Suc (unat n)"
  by (metis add.commute unatSuc add_eq_0_iff)

lemma referenced_iff: "buf_inv E s \<Longrightarrow> unat i < NBUF E \<Longrightarrow>
    unat i \<in> referenced (bc_aHead (gBufCtx s)) \<longleftrightarrow> bh_bRefCount (head_of i s) \<noteq> 0"
  by (simp add: referenced_def buf_inv_lengths head_of_def)

lemma num_used_card: "buf_inv E s \<Longrightarrow> unat (bc_uNumUsed (gBufCtx s)) = card (referenced (bc_aHead (gBufCtx s)))"
  by (simp add: buf_inv_def ctx_inv_def)

lemma used_head_commute: "c\<lparr>bc_uNumUsed := u, bc_aHead := h\<rparr> = c\<lparr>bc_aHead := h, bc_uNumUsed := u\<rparr>"
  by simp

text \<open>A buffer that is referenced once more.\<close>

lemma buffer_reference_eq:
  assumes "unat i < length (bc_aHead (gBufCtx s))"
  shows "buffer_reference E i fl s = BufferMakeMRU E i
    (upd_used (\<lambda>n. if bh_bRefCount (head_of i s) = 0 then n + 1 else n)
      (upd_head i (\<lambda>h. h\<lparr>bh_bRefCount := bh_bRefCount h + 1,
        bh_uFlags := bh_uFlags h OR (fl AND NOT BFLAG_NEW)\<rparr>) s))"
proof -
  have "bh_bRefCount (head_of i s) + 1 = 1 \<longleftrightarrow> bh_bRefCount (head_of i s) = 0" by simp
  then show ?thesis
    using assms by (simp add: buffer_reference_def Let_def upd_head_def upd_used_def head_of_def
        upd_ctx_def used_head_commute)
qed

lemma buffer_reference_inv:
  assumes inv: "buf_inv E s" and i: "unat i < NBUF E"
    and valid: "bh_ulBlock (head_of i s) \<noteq> BBLK_INVALID" and ref: "bh_bRefCount (head_of i s) \<noteq> - 1"
  shows "buf_inv E (buffer_reference E i fl s)"
    and "head_of i (buffer_reference E i fl s) = (head_of i s)\<lparr>bh_bRefCount := bh_bRefCount (head_of i s) + 1,
      bh_uFlags := bh_uFlags (head_of i s) OR (fl AND NOT BFLAG_NEW)\<rparr>"
proof -
  have len: "unat i < length (bc_aHead (gBufCtx s))" using i buf_inv_lengths(2) [OF inv] by simp
  let ?refs = "referenced (bc_aHead (gBufCtx s))" and ?u = "bc_uNumUsed (gBufCtx s)"
  have one: "bh_bRefCount (head_of i s) + 1 \<noteq> 0" using ref by (metis add_eq_0_iff2)
  have "unat (if bh_bRefCount (head_of i s) = 0 then ?u + 1 else ?u) = card (insert (unat i) ?refs)"
  proof (cases "bh_bRefCount (head_of i s) = 0")
    case True
    have "unat ?u \<le> 255" using num_used_le [OF inv] unat_u8_less [of "REDCONF_BUFFER_COUNT E"] by linarith
    then have "?u \<noteq> - 1" by (auto simp: unsigned_minus_1_eq_mask mask_eq_exp_minus_1)
    with True show ?thesis
      by (simp add: unat_plus_one referenced_iff [OF inv i] card_insert_if num_used_card [OF inv])
  next
    case False
    then show ?thesis by (simp add: referenced_iff [OF inv i] insert_absorb num_used_card [OF inv])
  qed
  then show "buf_inv E (buffer_reference E i fl s)"
    unfolding buffer_reference_eq [OF len]
    by (intro make_inv buf_inv_ref_change [OF inv i _ valid]) (simp_all add: same_block_def one)
  show "head_of i (buffer_reference E i fl s) = (head_of i s)\<lparr>bh_bRefCount := bh_bRefCount (head_of i s) + 1,
      bh_uFlags := bh_uFlags (head_of i s) OR (fl AND NOT BFLAG_NEW)\<rparr>"
    unfolding buffer_reference_eq [OF len] by (simp add: head_of_upd_head [OF len])
qed

text \<open>
  What a call of \<^verbatim>\<open>RedBufferGet\<close> returns. A reference count that stands at its maximum is
  excluded, as the code's assertion does.
\<close>

definition refs_small :: "'d env \<Rightarrow> 'd fs \<Rightarrow> bool" where
  "refs_small E s \<longleftrightarrow> (\<forall>i < NBUF E. bh_bVolNum (bc_aHead (gBufCtx s) ! i) = gbRedVolNum s \<longrightarrow>
     bh_bRefCount (bc_aHead (gBufCtx s) ! i) \<noteq> - 1)"

definition got :: "'d env \<Rightarrow> u32 \<Rightarrow> u8 \<Rightarrow> 'd fs \<Rightarrow> bool" where
  "got E b i t \<longleftrightarrow> unat i < NBUF E \<and> bh_ulBlock (head_of i t) = b \<and>
     bh_bVolNum (head_of i t) = gbRedVolNum t \<and> bh_bRefCount (head_of i t) \<noteq> 0 \<and> b \<noteq> BBLK_INVALID"

lemma got_BufferToIdx: "env_ok E \<Longrightarrow> got E b i t \<Longrightarrow> BufferToIdx E (BIDX2BUF E i) t = Some i"
  by (simp add: BufferToIdx_BIDX2BUF got_def)

lemma buffer_get_idx_effect:
  assumes e: "env_ok E" and inv: "buf_inv E s" and b: "b < vol_ulBlockCount (gpRedVolume s)"
    and g: "buffer_get_idx E b fl s = Some (r, t)"
  shows "buf_frame s t \<and> buf_inv E t \<and> (\<forall>i. r = Inr i \<longrightarrow>
     unat i < NBUF E \<and> bh_ulBlock (head_of i t) = b \<and> bh_bVolNum (head_of i t) = gbRedVolNum t \<and>
     (gBufCtx t = gBufCtx s \<and> BufferFind E b s = Some i \<or>
      BufferFind E b s = None \<and> i = victim E s \<and> bh_bRefCount (head_of i t) = 0 \<and>
      touches (unat i) s t))"
proof (cases "BufferFind E b s")
  case (Some i)
  with g BufferFind_Some [OF Some] inv show ?thesis
    by (auto simp: buffer_get_idx_def thenE_Inr [OF CRITICAL_ERROR_app] buf_inv_same_ctx split: if_splits)
next
  case None
  show ?thesis
  proof (cases "bc_uNumUsed (gBufCtx s) = ucast (REDCONF_BUFFER_COUNT E)")
    case True
    with g None inv show ?thesis
      by (auto simp: buffer_get_idx_def thenE_Inr [OF CRITICAL_ERROR_app] buf_inv_same_ctx)
  next
    case False
    with g None have "buffer_get_miss E b fl s = Some (r, t)" by (simp add: buffer_get_idx_def)
    note m = buffer_get_miss_effect [OF e inv None b free_buffer_exists [OF inv False] this]
    then have "gbRedVolNum t = gbRedVolNum s" by (simp add: buf_frame_globals)
    with m None victim_less [OF e inv] show ?thesis by auto
  qed
qed

lemma RedBufferGet_effect:
  assumes e: "env_ok E" and inv: "buf_inv E s" and small: "refs_small E s"
    and g: "RedBufferGet E b fl s = Some (r, t)"
  shows "buf_frame s t \<and> buf_inv E t \<and> (\<forall>p. r = Inr p \<longrightarrow> (\<exists>i. p = BIDX2BUF E i \<and> got E b i t))"
proof (cases "buffer_get_invalid b fl s")
  case True
  with g inv show ?thesis by (auto simp: RedBufferGet_def)
next
  case False
  then have b: "b < vol_ulBlockCount (gpRedVolume s)" by (simp add: buffer_get_invalid_def not_le)
  from g False have "bindE (buffer_get_idx E b fl) (\<lambda>i. thenE (modE (buffer_reference E i fl))
      (okE (BIDX2BUF E i))) s = Some (r, t)" by (simp add: RedBufferGet_def)
  then show ?thesis
  proof (cases rule: bindE_eq_SomeE)
    case (err x)
    with buffer_get_idx_effect [OF e inv b err(1)] show ?thesis by simp
  next
    case (ok i u)
    note ef = buffer_get_idx_effect [OF e inv b ok(1)]
    from ok(2) have r: "r = Inr (BIDX2BUF E i)" and t: "t = buffer_reference E i fl u" by simp_all
    have iu: "buf_inv E u" and i: "unat i < NBUF E" and hb: "bh_ulBlock (head_of i u) = b"
      "bh_bVolNum (head_of i u) = gbRedVolNum u"
      using ef by simp_all
    have ref: "bh_bRefCount (head_of i u) \<noteq> - 1"
      using ef small BufferFind_Some(1,2) [of E b s i] by (auto simp: refs_small_def head_of_def)
    have nb: "b \<noteq> BBLK_INVALID" by (rule block_count_not_invalid [OF b])
    have len: "unat i < length (bc_aHead (gBufCtx u))" using i buf_inv_lengths(2) [OF iu] by simp
    have "buf_frame u t" unfolding t buffer_reference_eq [OF len]
      by (intro buf_frame_trans [OF _ make_simps(5)] buf_frame_trans [OF _ upd_used_simps(8)]) simp
    moreover have "gbRedVolNum t = gbRedVolNum u" unfolding t buffer_reference_eq [OF len] by simp
    moreover have "bh_bRefCount (head_of i u) + 1 \<noteq> 0" using ref by (metis add_eq_0_iff2)
    ultimately show ?thesis
      using buffer_reference_inv [OF iu i _ ref] hb nb i ef
      by (auto simp: r t got_def intro: buf_frame_trans)
  qed
qed

lemma RedBufferInit_inv: "env_ok E \<Longrightarrow> buf_inv E (RedBufferInit E s)"
proof -
  assume "env_ok E"
  have idx: "(REDCONF_BUFFER_COUNT E - word_of_nat b) - 1 = word_of_nat (NBUF E - Suc b)" if "b < NBUF E" for b
    using that by (simp add: of_nat_diff)
  let ?m = "map (\<lambda>b. word_of_nat (NBUF E - Suc b) :: u8) [0..<NBUF E]"
  have mru: "bc_abMRU (gBufCtx (RedBufferInit E s)) = ?m"
    by (simp add: RedBufferInit_def idx)
  have un: "unat (word_of_nat (NBUF E - Suc b) :: u8) = NBUF E - Suc b" if "b < NBUF E" for b
    using that by (intro word_of_nat_u8 [of _ E]) simp
  have "distinct ?m"
  proof (simp add: distinct_map, rule inj_onI)
    fix a b
    assume "a \<in> {0..<NBUF E}" "b \<in> {0..<NBUF E}"
      and "(word_of_nat (NBUF E - Suc a) :: u8) = word_of_nat (NBUF E - Suc b)"
    then show "a = b" using un [of a] un [of b] by auto
  qed
  moreover have "\<forall>x \<in> set ?m. unat x < NBUF E" using un by auto
  ultimately show ?thesis
    unfolding buf_inv_def ctx_inv_def mru
    by (auto simp: RedBufferInit_def referenced_def nth_replicate)
qed

lemma unat_minus_one: "(n :: 'a::len word) \<noteq> 0 \<Longrightarrow> unat (n - 1) = unat n - 1"
  by (metis unat_minus_one)

lemma RedBufferPut_eq:
  assumes "BufferToIdx E p s = Some i" and "unat i < length (bc_aHead (gBufCtx s))"
  shows "RedBufferPut E p s =
    upd_used (\<lambda>n. if bh_bRefCount (head_of i s) = 1 then n - 1 else n)
      (upd_head i (\<lambda>h. h\<lparr>bh_bRefCount := bh_bRefCount h - 1\<rparr>) s)"
  using assms by (simp add: RedBufferPut_def Let_def head_of_upd_head)

lemma RedBufferPut_inv:
  assumes e: "env_ok E" and inv: "buf_inv E s"
    and ref: "\<And>i. BufferToIdx E p s = Some i \<Longrightarrow> bh_bRefCount (head_of i s) \<noteq> 0"
  shows "buf_inv E (RedBufferPut E p s) \<and> buf_frame s (RedBufferPut E p s)"
proof (cases "BufferToIdx E p s")
  case None
  with inv show ?thesis by (simp add: RedBufferPut_def)
next
  case (Some i)
  note bi = BufferToIdx_Some [OF e Some]
  have len: "unat i < length (bc_aHead (gBufCtx s))" using bi(2) buf_inv_lengths(2) [OF inv] by simp
  let ?refs = "referenced (bc_aHead (gBufCtx s))" and ?u = "bc_uNumUsed (gBufCtx s)"
  have mem: "unat i \<in> ?refs" using ref [OF Some] by (simp add: referenced_iff [OF inv bi(2)])
  have "card ?refs \<noteq> 0" using mem by auto
  then have "?u \<noteq> 0" using num_used_card [OF inv] by auto
  then have used: "unat (if bh_bRefCount (head_of i s) = 1 then ?u - 1 else ?u) =
      card (if bh_bRefCount (head_of i s) - 1 \<noteq> 0 then insert (unat i) ?refs else ?refs - {unat i})"
    using mem by (auto simp: unat_minus_one num_used_card [OF inv] insert_absorb)
  have "buf_inv E (RedBufferPut E p s)"
    unfolding RedBufferPut_eq [OF Some len]
    by (rule buf_inv_ref_change [OF inv bi(2) _ bi(3)]) (use used in \<open>simp_all add: same_block_def\<close>)
  moreover have "buf_frame s (RedBufferPut E p s)"
    unfolding RedBufferPut_eq [OF Some len] by (intro buf_frame_trans [OF _ upd_used_simps(8)]) simp
  ultimately show ?thesis ..
qed

lemma RedBufferDirty_inv:
  assumes e: "env_ok E" and inv: "buf_inv E s"
  shows "buf_inv E (RedBufferDirty E p s) \<and> buf_frame s (RedBufferDirty E p s)"
proof (cases "BufferToIdx E p s")
  case None
  with inv show ?thesis by (simp add: RedBufferDirty_def)
next
  case (Some i)
  with BufferToIdx_Some [OF e Some] show ?thesis
    by (auto simp: RedBufferDirty_def same_block_def intro!: buf_inv_same_block [OF inv])
qed

text \<open>A block number that has a buffer may not be given to another buffer.\<close>

definition uncached :: "'d env \<Rightarrow> u32 \<Rightarrow> 'd fs \<Rightarrow> bool" where
  "uncached E b s \<longleftrightarrow> (\<forall>i < NBUF E. bh_bVolNum (bc_aHead (gBufCtx s) ! i) = gbRedVolNum s \<longrightarrow>
     bh_ulBlock (bc_aHead (gBufCtx s) ! i) \<noteq> b)"

lemma RedBufferBranch_inv:
  assumes e: "env_ok E" and inv: "buf_inv E s" and new: "uncached E b s"
  shows "buf_inv E (RedBufferBranch E p b s) \<and> buf_frame s (RedBufferBranch E p b s)"
proof (cases "BufferToIdx E p s")
  case None
  with inv show ?thesis by (simp add: RedBufferBranch_def)
next
  case (Some i)
  note bi = BufferToIdx_Some [OF e Some]
  show ?thesis
  proof (cases "b \<ge> vol_ulBlockCount (gpRedVolume s)")
    case True
    with Some inv show ?thesis by (simp add: RedBufferBranch_def)
  next
    case False
    then have nb: "b \<noteq> BBLK_INVALID" by (intro block_count_not_invalid) (simp add: not_le)
    have "buf_inv E (upd_head i (\<lambda>h. h\<lparr>bh_uFlags := bh_uFlags h OR BFLAG_DIRTY, bh_ulBlock := b\<rparr>) s)"
      using new bi(4) nb by (intro buf_inv_same_ref [OF inv bi(2)]) (auto simp: uncached_def same_block_def)
    with Some False show ?thesis by (simp add: RedBufferBranch_def)
  qed
qed

lemma RedBufferDiscard_inv:
  assumes e: "env_ok E" and inv: "buf_inv E s"
    and ref: "\<And>i. BufferToIdx E p s = Some i \<Longrightarrow> bh_bRefCount (head_of i s) \<noteq> 0"
  shows "buf_inv E (RedBufferDiscard E p s) \<and> buf_frame s (RedBufferDiscard E p s)"
proof (cases "BufferToIdx E p s")
  case None
  with inv show ?thesis by (simp add: RedBufferDiscard_def)
next
  case (Some i)
  note bi = BufferToIdx_Some [OF e Some]
  let ?refs = "referenced (bc_aHead (gBufCtx s))" and ?u = "bc_uNumUsed (gBufCtx s)"
  let ?s = "upd_used (\<lambda>n. n - 1) (upd_head i (\<lambda>h. h\<lparr>bh_bRefCount := 0, bh_ulBlock := BBLK_INVALID\<rparr>) s)"
  have mem: "unat i \<in> ?refs" using ref [OF Some] by (simp add: referenced_iff [OF inv bi(2)])
  have "card ?refs \<noteq> 0" using mem by auto
  then have "?u \<noteq> 0" using num_used_card [OF inv] by auto
  then have "unat (?u - 1) = card (?refs - {unat i})"
    using mem by (simp add: unat_minus_one num_used_card [OF inv])
  then have "buf_inv E ?s" by (intro buf_inv_ref_change [OF inv bi(2) _ bi(3)]) simp_all
  then have "buf_inv E (BufferMakeLRU E i ?s)" by (rule make_inv)
  moreover have "buf_frame s (BufferMakeLRU E i ?s)"
    by (intro buf_frame_trans [OF _ make_simps(10)] buf_frame_trans [OF _ upd_used_simps(8)]) simp
  ultimately show ?thesis using Some by (simp add: RedBufferDiscard_def)
qed

section \<open>The operations on ranges of blocks\<close>

lemma in_range_same: "buf_frame s t \<Longrightarrow> in_range b n h t = in_range b n h s"
  by (simp add: in_range_def buf_frame_globals)

definition clean_upto :: "'d env \<Rightarrow> u32 \<Rightarrow> u32 \<Rightarrow> nat \<Rightarrow> 'd fs \<Rightarrow> bool" where
  "clean_upto E b n k s \<longleftrightarrow> (\<forall>j < k. in_range b n (bc_aHead (gBufCtx s) ! j) s \<longrightarrow>
     bh_uFlags (bc_aHead (gBufCtx s) ! j) AND BFLAG_DIRTY = 0)"

text \<open>
  Writing a buffer and clearing its dirty flag, the one step of the flush loop.
\<close>

lemma flush_step:
  assumes e: "env_ok E" and inv: "buf_inv E s" and k: "k < NBUF E"
    and w: "thenE (BufferWrite E (word_of_nat k))
      (modE (upd_head (word_of_nat k) (\<lambda>h. h\<lparr>bh_uFlags := bh_uFlags h AND NOT BFLAG_DIRTY\<rparr>))) s = Some (r, t)"
  shows "buf_frame s t \<and> buf_inv E t \<and> touches k s t \<and> (is_ok r \<longrightarrow>
     bc_aHead (gBufCtx t) ! k = (bc_aHead (gBufCtx s) ! k)\<lparr>bh_uFlags :=
       bh_uFlags (bc_aHead (gBufCtx s) ! k) AND NOT BFLAG_DIRTY\<rparr>)"
proof -
  have un: "unat (word_of_nat k :: u8) = k" by (rule word_of_nat_u8 [OF k])
  have wr: "buf_frame s u \<and> buf_inv E u \<and> touches k s u \<and> bc_aHead (gBufCtx u) = bc_aHead (gBufCtx s)"
    if "BufferWrite E (word_of_nat k) s = Some (q, u)" for q u
    using BufferWrite_effect [OF e inv that] buf_inv_same_heads [OF inv]
    by (auto simp: un same_heads_def intro: touches_header_only)
  from w show ?thesis
  proof (cases rule: thenE_eq_SomeE)
    case (err x)
    with wr [OF err(1)] show ?thesis by simp
  next
    case (ok x u)
    note fu = wr [OF ok(1)]
    let ?i = "word_of_nat k :: u8" and ?f = "\<lambda>h. h\<lparr>bh_uFlags := bh_uFlags h AND NOT BFLAG_DIRTY\<rparr>"
    from ok(2) have t: "t = upd_head ?i ?f u" by simp
    have "buf_inv E t" unfolding t
      by (rule buf_inv_same_block [where f = ?f]) (use fu k in \<open>simp_all add: un same_block_def\<close>)
    moreover have "touches k u t" using touches_upd_head [of ?i u ?f] by (simp add: t un)
    moreover have "buf_frame u t" by (simp add: t)
    moreover have "bc_aHead (gBufCtx t) ! k = ?f (bc_aHead (gBufCtx s) ! k)"
      using fu k by (simp add: t un head_of_def buf_inv_lengths [OF inv])
    ultimately show ?thesis using fu by (blast intro: buf_frame_trans touches_trans)
  qed
qed

lemma flush_loop_effect:
  assumes e: "env_ok E" and "buf_inv E s" and "k + m = NBUF E"
    and "flush_loop E b n k m s = Some (r, t)" and "clean_upto E b n k s"
  shows "buf_frame s t \<and> buf_inv E t \<and> (is_ok r \<longrightarrow> clean_upto E b n (NBUF E) t)"
  using assms(2-5)
proof (induction m arbitrary: k s)
  case 0
  then show ?case by simp
next
  case (Suc m)
  let ?h = "bc_aHead (gBufCtx s) ! k"
  have k: "k < NBUF E" using Suc.prems(2) by simp
  show ?case
  proof (cases "in_range b n ?h s \<and> bh_uFlags ?h AND BFLAG_DIRTY \<noteq> 0")
    case False
    then have "flush_loop E b n (Suc k) m s = Some (r, t)"
      using Suc.prems(3) by (cases "in_range b n ?h s") (simp_all add: Let_def)
    moreover have "clean_upto E b n (Suc k) s"
      using False Suc.prems(4) by (auto simp: clean_upto_def less_Suc_eq)
    ultimately show ?thesis using Suc.IH [of s "Suc k"] Suc.prems by simp
  next
    case True
    then have "thenE (thenE (BufferWrite E (word_of_nat k))
        (modE (upd_head (word_of_nat k) (\<lambda>h. h\<lparr>bh_uFlags := bh_uFlags h AND NOT BFLAG_DIRTY\<rparr>))))
        (flush_loop E b n (Suc k) m) s = Some (r, t)"
      using Suc.prems(3) by (simp add: Let_def)
    then show ?thesis
    proof (cases rule: thenE_eq_SomeE)
      case (err x)
      with flush_step [OF e Suc.prems(1) k err(1)] show ?thesis by simp
    next
      case (ok x u)
      note st = flush_step [OF e Suc.prems(1) k ok(1)]
      have old: "bc_aHead (gBufCtx u) ! j = bc_aHead (gBufCtx s) ! j" if "j < k" for j
        using st that k by (simp add: touches_def Let_def buf_inv_lengths [OF Suc.prems(1)])
      have "bh_uFlags (bc_aHead (gBufCtx u) ! k) AND BFLAG_DIRTY = 0"
        using st by (simp add: and.assoc)
      then have "clean_upto E b n (Suc k) u"
        using Suc.prems(4) old st by (auto simp: clean_upto_def less_Suc_eq in_range_same)
      then have "buf_frame u t \<and> buf_inv E t \<and> (is_ok r \<longrightarrow> clean_upto E b n (NBUF E) t)"
        using Suc.IH [of u "Suc k"] Suc.prems(2) ok(2) st by simp
      with st show ?thesis by (blast intro: buf_frame_trans)
    qed
  qed
qed

lemma RedBufferFlushRange_effect:
  assumes "env_ok E" and "buf_inv E s" and "RedBufferFlushRange E b n s = Some (r, t)"
  shows "buf_frame s t \<and> buf_inv E t \<and> (is_ok r \<longrightarrow> clean_upto E b n (NBUF E) t)"
  using assms flush_loop_effect [OF assms(1,2), of 0 "NBUF E" b n r t]
  by (auto simp: RedBufferFlushRange_def clean_upto_def split: if_splits)

definition absent_upto :: "'d env \<Rightarrow> u32 \<Rightarrow> u32 \<Rightarrow> nat \<Rightarrow> 'd fs \<Rightarrow> bool" where
  "absent_upto E b n k s \<longleftrightarrow> (\<forall>j < k. \<not> in_range b n (bc_aHead (gBufCtx s) ! j) s)"

lemma discard_step:
  assumes inv: "buf_inv E s" and k: "k < NBUF E" and ref: "bh_bRefCount (bc_aHead (gBufCtx s) ! k) = 0"
  defines "t \<equiv> BufferMakeLRU E (word_of_nat k) (upd_head (word_of_nat k) (\<lambda>h. h\<lparr>bh_ulBlock := BBLK_INVALID\<rparr>) s)"
  shows "buf_frame s t" and "buf_inv E t"
    and "bc_aHead (gBufCtx t) = (bc_aHead (gBufCtx s))[k := (bc_aHead (gBufCtx s) ! k)\<lparr>bh_ulBlock := BBLK_INVALID\<rparr>]"
proof -
  have un: "unat (word_of_nat k :: u8) = k" by (rule word_of_nat_u8 [OF k])
  show "buf_frame s t" unfolding t_def by (intro buf_frame_trans [OF _ make_simps(10)]) simp
  show "buf_inv E t" unfolding t_def
    by (intro make_inv buf_inv_same_ref [OF inv]) (simp_all add: un k ref head_of_def)
  show "bc_aHead (gBufCtx t) = (bc_aHead (gBufCtx s))[k := (bc_aHead (gBufCtx s) ! k)\<lparr>bh_ulBlock := BBLK_INVALID\<rparr>]"
    by (simp add: t_def un head_of_def)
qed

lemma discard_loop_effect:
  assumes "buf_inv E s" and "k + m = NBUF E"
    and "discard_loop E b n k m s = Some (r, t)" and "absent_upto E b n k s"
  shows "buf_frame s t \<and> buf_inv E t \<and> (is_ok r \<longrightarrow> absent_upto E b n (NBUF E) t)"
  using assms
proof (induction m arbitrary: k s)
  case 0
  then show ?case by simp
next
  case (Suc m)
  let ?h = "bc_aHead (gBufCtx s) ! k"
  have k: "k < NBUF E" using Suc.prems(2) by simp
  consider "\<not> in_range b n ?h s" | "in_range b n ?h s" "bh_bRefCount ?h \<noteq> 0"
    | "in_range b n ?h s" "bh_bRefCount ?h = 0" by blast
  then show ?case
  proof cases
    case 1
    then have "discard_loop E b n (Suc k) m s = Some (r, t)" using Suc.prems(3) by simp
    moreover have "absent_upto E b n (Suc k) s"
      using 1 Suc.prems(4) by (auto simp: absent_upto_def less_Suc_eq)
    ultimately show ?thesis using Suc.IH [of s "Suc k"] Suc.prems by simp
  next
    case 2
    then have "(Inl RED_EBUSY, upd_vol (vol_fReadOnly_update (\<lambda>_. True)) s) = (r, t)"
      using Suc.prems(3) by (simp add: thenE_Inl thenE_Inr [OF CRITICAL_ERROR_app])
    with Suc.prems(1) show ?thesis by (auto simp: buf_inv_same_ctx)
  next
    case 3
    define u where "u = BufferMakeLRU E (word_of_nat k) (upd_head (word_of_nat k) (\<lambda>h. h\<lparr>bh_ulBlock := BBLK_INVALID\<rparr>) s)"
    note st = discard_step [OF Suc.prems(1) k 3(2), folded u_def]
    have "discard_loop E b n (Suc k) m u = Some (r, t)"
      using Suc.prems(3) 3 by (simp add: u_def)
    moreover have "absent_upto E b n (Suc k) u"
      using Suc.prems(4) k st(3) buf_inv_lengths(2) [OF Suc.prems(1)]
      by (auto simp: absent_upto_def less_Suc_eq in_range_same [OF st(1)]) (simp add: in_range_def)
    ultimately have "buf_frame u t \<and> buf_inv E t \<and> (is_ok r \<longrightarrow> absent_upto E b n (NBUF E) t)"
      using Suc.IH [of u "Suc k"] Suc.prems(2) st(2) by simp
    with st show ?thesis by (blast intro: buf_frame_trans)
  qed
qed

lemma RedBufferDiscardRange_effect:
  assumes "buf_inv E s" and "RedBufferDiscardRange E b n s = Some (r, t)"
  shows "buf_frame s t \<and> buf_inv E t \<and> (is_ok r \<longrightarrow> absent_upto E b n (NBUF E) t)"
  using assms discard_loop_effect [OF assms(1), of 0 "NBUF E" b n r t]
  by (auto simp: RedBufferDiscardRange_def absent_upto_def split: if_splits)

lemma RedBufferReadRange_effect:
  assumes "env_ok E" and "buf_inv E s" and g: "RedBufferReadRange E b n d s = Some (r, t)"
  shows "buf_frame s t \<and> buf_inv E t"
proof (cases "buffer_range_invalid b n s")
  case True
  with g assms(2) show ?thesis by (simp add: RedBufferReadRange_def)
next
  case False
  then obtain ret u where fl: "RedBufferFlushRange E b n s = Some (ret, u)"
    and rd: "(case ret of Inl e \<Rightarrow> okE (Inl e, d)
      | Inr _ \<Rightarrow> bindE (getE gbRedVolNum) (\<lambda>v. RedIoRead E v b n d)) u = Some (r, t)"
    using g by (auto simp: RedBufferReadRange_def statusE_Some_iff)
  note fe = RedBufferFlushRange_effect [OF assms(1,2) fl]
  show ?thesis
  proof (cases ret)
    case (Inl e)
    with rd fe show ?thesis by simp
  next
    case (Inr x)
    with rd have "RedIoRead E (gbRedVolNum u) b n d u = Some (r, t)" by simp
    then have io: "io_frame u t" by (simp add: RedIoRead_frame)
    then have "gBufCtx t = gBufCtx u" by (rule io_frame_globals)
    then have "buf_inv E t" using fe buf_inv_same_ctx by blast
    with fe io show ?thesis by (blast intro: buf_frame_trans buf_frame_io)
  qed
qed

lemma RedBufferWriteRange_effect:
  assumes "env_ok E" and inv: "buf_inv E s" and g: "RedBufferWriteRange E b n d s = Some (r, t)"
  shows "buf_frame s t \<and> buf_inv E t \<and> (is_ok r \<longrightarrow> absent_upto E b n (NBUF E) t)"
proof (cases "buffer_range_invalid b n s")
  case True
  with g inv show ?thesis by (auto simp: RedBufferWriteRange_def)
next
  case False
  with g have "thenE (RedIoWrite E (gbRedVolNum s) b n d) (RedBufferDiscardRange E b n) s = Some (r, t)"
    by (simp add: RedBufferWriteRange_def)
  then show ?thesis
  proof (cases rule: thenE_eq_SomeE)
    case (err x)
    note io = RedIoWrite_frame [OF err(1)]
    then show ?thesis using inv err io_frame_globals(4) [OF io]
      by (auto intro: buf_frame_io buf_inv_same_ctx)
  next
    case (ok x u)
    note io = RedIoWrite_frame [OF ok(1)]
    have "buf_inv E u" using inv io_frame_globals(4) [OF io] by (rule buf_inv_same_ctx)
    from RedBufferDiscardRange_effect [OF this ok(2)] show ?thesis
      using buf_frame_io [OF io] by (blast intro: buf_frame_trans)
  qed
qed

end
