(* ===== verification/Red_BufferUse.thy ===== *)
theory Red_BufferUse
  imports Red_Cache
begin

text \<open>
  How the clients of the buffer cache use it: they get a buffer, work on it and put it. The
  interface is the locale \<open>buffer_pool\<close>, in which the lemmas on balanced use are proved;
  the operations of \<^verbatim>\<open>buffer.c\<close> interpret it.
\<close>

section \<open>The interface\<close>

text \<open>
  \<open>pins s p\<close> is the number of references to the buffer \<open>p\<close> that the current volume holds.
\<close>

locale buffer_pool =
  fixes inv :: "'s \<Rightarrow> bool"
    and pins :: "'s \<Rightarrow> nat \<Rightarrow> nat"
    and get :: "'k \<Rightarrow> ('s, rederr, nat) comp"
    and put :: "nat \<Rightarrow> 's \<Rightarrow> 's"
  assumes get_ok: "inv s \<Longrightarrow> \<forall>p. pins s p < 255 \<Longrightarrow> get k s = Some (Inr p, t) \<Longrightarrow>
      inv t \<and> pins t = (pins s)(p := Suc (pins s p))"
    and get_err: "inv s \<Longrightarrow> \<forall>p. pins s p < 255 \<Longrightarrow> get k s = Some (Inl e, t) \<Longrightarrow>
      inv t \<and> pins t = pins s"
    and put_ok: "inv s \<Longrightarrow> 0 < pins s p \<Longrightarrow>
      inv (put p s) \<and> pins (put p s) = (pins s)(p := pins s p - 1)"
begin

text \<open>
  A computation is balanced when it keeps the invariant and leaves the references as it
  found them; it is balanced with room for \<open>n\<close> references when it gets at most \<open>n\<close> of them.
\<close>

definition bal :: "nat \<Rightarrow> ('s, rederr, 'a) comp \<Rightarrow> bool" where
  "bal n f \<longleftrightarrow> (\<forall>s r t. inv s \<longrightarrow> (\<forall>p. pins s p + n < 256) \<longrightarrow> f s = Some (r, t) \<longrightarrow>
     inv t \<and> pins t = pins s)"

lemma balI: "(\<And>s r t. inv s \<Longrightarrow> \<forall>p. pins s p + n < 256 \<Longrightarrow> f s = Some (r, t) \<Longrightarrow>
    inv t \<and> pins t = pins s) \<Longrightarrow> bal n f"
  unfolding bal_def by blast

lemma balD: "bal n f \<Longrightarrow> inv s \<Longrightarrow> \<forall>p. pins s p + n < 256 \<Longrightarrow> f s = Some (r, t) \<Longrightarrow>
    inv t \<and> pins t = pins s"
  unfolding bal_def by blast

lemma bal_mono: "bal m f \<Longrightarrow> m \<le> n \<Longrightarrow> bal n f"
  unfolding bal_def by (meson add_left_mono le_less_trans)

lemma bal_return: "bal n (okE x)" "bal n (errE e)" "bal n (getE g)" "bal n (returnE r)"
  by (auto simp: bal_def)

lemma bal_modE: "(\<And>s. inv s \<Longrightarrow> inv (g s) \<and> pins (g s) = pins s) \<Longrightarrow> bal n (modE g)"
  by (auto simp: bal_def)

lemma bal_bindE: "bal n f \<Longrightarrow> (\<And>x. bal n (g x)) \<Longrightarrow> bal n (bindE f g)"
proof (rule balI)
  fix s r t
  assume f: "bal n f" and g: "\<And>x. bal n (g x)" and s: "inv s" "\<forall>p. pins s p + n < 256"
    and run: "bindE f g s = Some (r, t)"
  from run show "inv t \<and> pins t = pins s"
  proof (cases rule: bindE_eq_SomeE)
    case (err e)
    from balD [OF f s err(1)] show ?thesis .
  next
    case (ok x u)
    note u = balD [OF f s ok(1)]
    then have "inv u" "\<forall>p. pins u p + n < 256" using s by simp_all
    from balD [OF g this ok(2)] u show ?thesis by simp
  qed
qed

lemma bal_thenE: "bal n f \<Longrightarrow> bal n g \<Longrightarrow> bal n (thenE f g)"
  unfolding thenE_def by (rule bal_bindE)

lemma bal_statusE: "bal n f \<Longrightarrow> (\<And>r. bal n (g r)) \<Longrightarrow> bal n (statusE f g)"
proof (rule balI)
  fix s r t
  assume f: "bal n f" and g: "\<And>q. bal n (g q)" and s: "inv s" "\<forall>p. pins s p + n < 256"
    and run: "statusE f g s = Some (r, t)"
  from run obtain q u where fu: "f s = Some (q, u)" and gu: "g q u = Some (r, t)"
    by (auto simp: statusE_Some_iff)
  note u = balD [OF f s fu]
  then have "inv u" "\<forall>p. pins u p + n < 256" using s by simp_all
  from balD [OF g this gu] u show "inv t \<and> pins t = pins s" by simp
qed

lemma bal_finallyE: "bal n f \<Longrightarrow> bal n h \<Longrightarrow> bal n (finallyE f h)"
  unfolding finallyE_def by (intro bal_statusE bal_return)

lemma bal_whenE: "(b \<Longrightarrow> bal n f) \<Longrightarrow> bal n (whenE b f)"
  by (auto simp: whenE_def bal_return)

lemma bal_if: "(b \<Longrightarrow> bal n f) \<Longrightarrow> (\<not> b \<Longrightarrow> bal n g) \<Longrightarrow> bal n (if b then f else g)"
  by simp

text \<open>The bracket of a get and a put, the put being reached whatever the body returns.\<close>

lemma bal_bracket:
  assumes body: "\<And>p. bal n (body p)"
  shows "bal (Suc n) (bindE (get k) (\<lambda>p. finallyE (body p) (modE (put p))))"
proof (rule balI)
  fix s r t
  assume inv: "inv s" and room: "\<forall>p. pins s p + Suc n < 256"
    and run: "bindE (get k) (\<lambda>p. finallyE (body p) (modE (put p))) s = Some (r, t)"
  have small: "\<forall>p. pins s p < 255"
  proof
    fix p
    show "pins s p < 255" using room [rule_format, of p] by simp
  qed
  from run show "inv t \<and> pins t = pins s"
  proof (cases rule: bindE_eq_SomeE)
    case (err e)
    with get_err [OF inv small] show ?thesis by blast
  next
    case (ok p u)
    note iu = get_ok [OF inv small ok(1)]
    from ok(2) obtain q w where b: "body p u = Some (q, w)" and t: "t = put p w"
      by (auto simp: finallyE_def statusE_Some_iff)
    have "\<forall>p'. pins u p' + n < 256" 
    proof
      fix p'
      show "pins u p' + n < 256" using iu room [rule_format, of p'] room [rule_format, of p] by simp
    qed
    from balD [OF body _ this b] iu have w: "inv w \<and> pins w = pins u" by simp
    then have "0 < pins w p" using iu by simp
    from put_ok [OF _ this] w have "inv t" "pins t = (pins w)(p := pins w p - 1)"
      unfolding t by simp_all
    with w iu show ?thesis by auto
  qed
qed

lemmas bal_rules = bal_return bal_bindE bal_thenE bal_statusE bal_finallyE bal_whenE bal_if

end

section \<open>The buffer cache as a provider\<close>

definition buf_pins :: "'d env \<Rightarrow> 'd fs \<Rightarrow> nat \<Rightarrow> nat" where
  "buf_pins E s p = (case BufferToIdx E p s of None \<Rightarrow> 0 | Some i \<Rightarrow> unat (bh_bRefCount (head_of i s)))"

definition buf_get :: "'d env \<Rightarrow> u32 \<times> u16 \<Rightarrow> ('d, nat) op" where
  "buf_get E k = RedBufferGet E (fst k) (snd k)"

definition buf_ok :: "'d env \<Rightarrow> 'd fs \<Rightarrow> bool" where
  "buf_ok E s \<longleftrightarrow> env_ok E \<and> buf_inv E s"

lemma buf_pins_idx:
  assumes "env_ok E" and "unat i < NBUF E"
  shows "buf_pins E s (BIDX2BUF E i) =
    (if bh_ulBlock (head_of i s) \<noteq> BBLK_INVALID \<and> bh_bVolNum (head_of i s) = gbRedVolNum s
     then unat (bh_bRefCount (head_of i s)) else 0)"
  using assms by (simp add: buf_pins_def BufferToIdx_BIDX2BUF)

lemma buf_pins_other: "env_ok E \<Longrightarrow> \<forall>i. unat i < NBUF E \<longrightarrow> p \<noteq> BIDX2BUF E i \<Longrightarrow> buf_pins E s p = 0"
  by (auto simp: buf_pins_def split: option.split dest: BufferToIdx_Some)

lemma BIDX2BUF_inject: "env_ok E \<Longrightarrow> BIDX2BUF E i = BIDX2BUF E j \<Longrightarrow> i = j"
  by (metis BIDX2BUF_div unsigned_word_eqI)

lemma head_of_upd_head_if: "unat j < length (bc_aHead (gBufCtx s)) \<Longrightarrow>
    head_of j (upd_head i f s) = (if j = i then f (head_of i s) else head_of j s)"
proof (cases "j = i")
  case False
  then have "unat i \<noteq> unat j" using unsigned_word_eqI by blast
  with False show ?thesis by (simp add: head_of_def)
qed (simp add: head_of_upd_head)

text \<open>Pins depend on the heads of the buffers only.\<close>

lemma buf_pins_eqI:
  assumes e: "env_ok E" and v: "gbRedVolNum t = gbRedVolNum s"
    and same: "\<And>j. unat j < NBUF E \<Longrightarrow> j \<noteq> i \<Longrightarrow> head_of j t = head_of j s"
    and at: "unat i < NBUF E \<Longrightarrow> buf_pins E t (BIDX2BUF E i) = n"
    and i: "unat i < NBUF E"
  shows "buf_pins E t = (buf_pins E s)(BIDX2BUF E i := n)"
proof
  fix p
  show "buf_pins E t p = ((buf_pins E s)(BIDX2BUF E i := n)) p"
  proof (cases "\<exists>j. unat j < NBUF E \<and> p = BIDX2BUF E j")
    case True
    then obtain j where j: "unat j < NBUF E" "p = BIDX2BUF E j" by blast
    show ?thesis
    proof (cases "j = i")
      case True
      with at j show ?thesis by simp
    next
      case False
      moreover from this have "BIDX2BUF E j \<noteq> BIDX2BUF E i" using BIDX2BUF_inject [OF e] by blast
      ultimately show ?thesis using j same [OF j(1) False] v by (simp add: buf_pins_idx [OF e])
    qed
  next
    case False
    with i have "p \<noteq> BIDX2BUF E i" by blast
    with False show ?thesis by (auto simp: buf_pins_other [OF e])
  qed
qed

lemma touches_head_of:
  assumes "buf_inv E s" and "touches (unat i) s t" and "unat j < NBUF E" and "j \<noteq> i"
  shows "head_of j t = head_of j s"
proof -
  have "unat j \<noteq> unat i" using assms(4) unsigned_word_eqI by blast
  then show ?thesis using assms(1-3) by (simp add: touches_def Let_def head_of_def buf_inv_lengths)
qed

lemma buf_pins_touches:
  assumes e: "env_ok E" and inv: "buf_inv E s" and i: "unat i < NBUF E"
    and t: "touches (unat i) s t" and v: "gbRedVolNum t = gbRedVolNum s"
    and "bh_bRefCount (head_of i s) = 0" and "bh_bRefCount (head_of i t) = 0"
  shows "buf_pins E t = buf_pins E s"
proof -
  have "buf_pins E t = (buf_pins E s)(BIDX2BUF E i := 0)"
    using assms by (intro buf_pins_eqI [OF e v touches_head_of [OF inv t]]) (simp_all add: buf_pins_idx)
  moreover have "buf_pins E s (BIDX2BUF E i) = 0" using assms by (simp add: buf_pins_idx)
  ultimately show ?thesis by auto
qed

lemma buf_pins_same_ctx: "gBufCtx t = gBufCtx s \<Longrightarrow> gbRedVolNum t = gbRedVolNum s \<Longrightarrow> buf_pins E t = buf_pins E s"
proof -
  assume ctx: "gBufCtx t = gBufCtx s" and v: "gbRedVolNum t = gbRedVolNum s"
  have h: "head_of i t = head_of i s" for i by (simp add: head_of_def ctx)
  have "BufferToIdx E p t = BufferToIdx E p s" for p by (simp add: BufferToIdx_def h v)
  then show ?thesis by (intro ext) (simp add: buf_pins_def h split: option.split)
qed

lemma buffer_get_idx_pins:
  assumes e: "env_ok E" and inv: "buf_inv E s" and b: "b < vol_ulBlockCount (gpRedVolume s)"
    and g: "buffer_get_idx E b fl s = Some (r, t)"
  shows "buf_pins E t = buf_pins E s"
proof (cases "BufferFind E b s = None \<and> bc_uNumUsed (gBufCtx s) \<noteq> ucast (REDCONF_BUFFER_COUNT E)")
  case False
  then have "gBufCtx t = gBufCtx s \<and> gbRedVolNum t = gbRedVolNum s"
  proof (cases "BufferFind E b s")
    case None
    with False g show ?thesis
      by (auto simp: buffer_get_idx_def thenE_Inr [OF CRITICAL_ERROR_app])
  next
    case (Some i)
    let ?bad = "fl AND BFLAG_NEW \<noteq> 0 \<or>
        fl AND BFLAG_META_MASK \<noteq> bh_uFlags (head_of i s) AND BFLAG_META_MASK"
    from g Some have "(if ?bad then thenE CRITICAL_ERROR (errE RED_EFUBAR) else okE i) s = Some (r, t)"
      by (simp only: buffer_get_idx_def bindE_getE option.case)
    then show ?thesis by (cases ?bad) (auto simp only: if_True if_False okE_app
        thenE_Inr [OF CRITICAL_ERROR_app] errE_app option.inject prod.inject upd_vol_simps)
  qed
  then show ?thesis by (intro buf_pins_same_ctx) simp_all
next
  case True
  then have m: "buffer_get_miss E b fl s = Some (r, t)" using g by (simp add: buffer_get_idx_def)
  have free: "\<exists>i < NBUF E. bh_bRefCount (bc_aHead (gBufCtx s) ! i) = 0"
    using True by (intro free_buffer_exists [OF inv]) simp
  have none: "BufferFind E b s = None" using True by blast
  note ef = buffer_get_miss_effect [OF e inv none b free m]
  have ref: "bh_bRefCount (head_of (victim E s) s) = 0" by (rule victim_free [OF e inv free])
  have "gbRedVolNum t = gbRedVolNum s" using ef by (simp add: buf_frame_globals)
  with ef ref show ?thesis
    by (intro buf_pins_touches [OF e inv victim_less [OF e inv]]) simp_all
qed

lemma refs_small_pins:
  assumes e: "env_ok E" and inv: "buf_inv E s" and small: "\<forall>p. buf_pins E s p < 255"
  shows "refs_small E s"
  unfolding refs_small_def
proof (intro allI impI notI)
  fix i
  assume i: "i < NBUF E" and v: "bh_bVolNum (bc_aHead (gBufCtx s) ! i) = gbRedVolNum s"
    and r: "bh_bRefCount (bc_aHead (gBufCtx s) ! i) = - 1"
  have "bh_ulBlock (bc_aHead (gBufCtx s) ! i) \<noteq> BBLK_INVALID"
    using buf_inv_referenced_valid [OF inv i] r by simp
  then have "buf_pins E s (BIDX2BUF E (word_of_nat i)) = unat (- 1 :: u8)"
    using i v r by (simp add: buf_pins_idx [OF e] word_of_nat_u8 head_of_def)
  with small show False by (auto simp: unsigned_minus_1_eq_mask mask_eq_exp_minus_1 dest: spec
        [of _ "BIDX2BUF E (word_of_nat i)"])
qed

lemma RedBufferGet_pins:
  assumes e: "env_ok E" and inv: "buf_inv E s" and small: "\<forall>p. buf_pins E s p < 255"
    and g: "RedBufferGet E b fl s = Some (r, t)"
  shows "buf_inv E t \<and> buf_frame s t \<and> (case r of Inl e \<Rightarrow> buf_pins E t = buf_pins E s
    | Inr p \<Rightarrow> buf_pins E t = (buf_pins E s)(p := Suc (buf_pins E s p)))"
proof (cases "buffer_get_invalid b fl s")
  case True
  with g inv show ?thesis by (auto simp: RedBufferGet_def)
next
  case False
  then have b: "b < vol_ulBlockCount (gpRedVolume s)" by (simp add: buffer_get_invalid_def not_le)
  note rs = refs_small_pins [OF e inv small]
  note ef = RedBufferGet_effect [OF e inv rs g]
  from g False have "bindE (buffer_get_idx E b fl) (\<lambda>i. thenE (modE (buffer_reference E i fl))
      (okE (BIDX2BUF E i))) s = Some (r, t)" by (simp add: RedBufferGet_def)
  then show ?thesis
  proof (cases rule: bindE_eq_SomeE)
    case (err x)
    with ef buffer_get_idx_pins [OF e inv b err(1)] show ?thesis by simp
  next
    case (ok i u)
    note iu = buffer_get_idx_effect [OF e inv b ok(1)]
    note pu = buffer_get_idx_pins [OF e inv b ok(1)]
    from ok(2) have r: "r = Inr (BIDX2BUF E i)" and t: "t = buffer_reference E i fl u" by simp_all
    have i: "unat i < NBUF E" and inv_u: "buf_inv E u" and v: "bh_bVolNum (head_of i u) = gbRedVolNum u"
      and bl: "bh_ulBlock (head_of i u) \<noteq> BBLK_INVALID"
      using iu block_count_not_invalid [OF b] by simp_all
    have len: "unat i < length (bc_aHead (gBufCtx u))" using i buf_inv_lengths(2) [OF inv_u] by simp
    have vt: "gbRedVolNum t = gbRedVolNum u" by (simp add: t buffer_reference_eq [OF len])
    have pi: "buf_pins E u (BIDX2BUF E i) = unat (bh_bRefCount (head_of i u))"
      using bl v by (simp add: buf_pins_idx [OF e i])
    have "unat (bh_bRefCount (head_of i u)) < 255" using small pu pi by (metis)
    then have ref: "bh_bRefCount (head_of i u) \<noteq> - 1"
      by (auto simp: unsigned_minus_1_eq_mask mask_eq_exp_minus_1)
    note hd = buffer_reference_inv(2) [OF inv_u i bl ref, of fl, folded t]
    have "buf_pins E t = (buf_pins E u)(BIDX2BUF E i := Suc (unat (bh_bRefCount (head_of i u))))"
    proof (rule buf_pins_eqI [OF e vt])
      show "head_of j t = head_of j u" if "j \<noteq> i" for j
      proof -
        have "unat i \<noteq> unat j" using that unsigned_word_eqI by blast
        then show ?thesis by (simp add: t buffer_reference_eq [OF len]) (simp add: head_of_def)
      qed
      show "buf_pins E t (BIDX2BUF E i) = Suc (unat (bh_bRefCount (head_of i u)))"
        using bl v hd vt by (simp add: buf_pins_idx [OF e i] unat_plus_one [OF ref])
    qed (rule i)
    with pi pu ef show ?thesis by (simp add: r)
  qed
qed

lemma RedBufferPut_pins:
  assumes e: "env_ok E" and inv: "buf_inv E s" and pin: "0 < buf_pins E s p"
  shows "buf_inv E (RedBufferPut E p s) \<and> buf_frame s (RedBufferPut E p s) \<and>
    buf_pins E (RedBufferPut E p s) = (buf_pins E s)(p := buf_pins E s p - 1)"
proof -
  obtain i where i: "BufferToIdx E p s = Some i" and ref: "bh_bRefCount (head_of i s) \<noteq> 0"
    using pin by (auto simp: buf_pins_def unat_gt_0 split: option.splits)
  note bi = BufferToIdx_Some [OF e i]
  have len: "unat i < length (bc_aHead (gBufCtx s))" using bi(2) buf_inv_lengths(2) [OF inv] by simp
  note eq = RedBufferPut_eq [OF i len]
  have "buf_pins E (RedBufferPut E p s) = (buf_pins E s)(BIDX2BUF E i := buf_pins E s p - 1)"
  proof (rule buf_pins_eqI [OF e])
    show "gbRedVolNum (RedBufferPut E p s) = gbRedVolNum s" by (simp add: eq)
    show "head_of j (RedBufferPut E p s) = head_of j s" if "j \<noteq> i" for j
    proof -
      have "unat i \<noteq> unat j" using that unsigned_word_eqI by blast
      then show ?thesis by (simp add: eq) (simp add: head_of_def)
    qed
    show "buf_pins E (RedBufferPut E p s) (BIDX2BUF E i) = buf_pins E s p - 1"
    proof -
      have pp: "buf_pins E s p = unat (bh_bRefCount (head_of i s))" by (simp add: buf_pins_def i)
      show ?thesis unfolding pp eq
        using bi(2-4) ref by (simp add: buf_pins_idx [OF e bi(2)] head_of_upd_head [OF len] unat_minus_one)
    qed
  qed (rule bi(2))
  moreover have "buf_inv E (RedBufferPut E p s) \<and> buf_frame s (RedBufferPut E p s)"
    using i ref by (intro RedBufferPut_inv [OF e inv]) simp
  ultimately show ?thesis by (simp add: bi(1))
qed

interpretation pool: buffer_pool "buf_ok E" "buf_pins E" "buf_get E" "RedBufferPut E"
proof
  fix s :: "'a fs" and t k p e
  assume ok: "buf_ok E s"
  then have i: "env_ok E" "buf_inv E s" by (simp_all add: buf_ok_def)
  show "buf_ok E t \<and> buf_pins E t = (buf_pins E s)(p := Suc (buf_pins E s p))"
    if "\<forall>p. buf_pins E s p < 255" "buf_get E k s = Some (Inr p, t)"
    using RedBufferGet_pins [OF i that(1) that(2) [unfolded buf_get_def]] i by (simp add: buf_ok_def)
  show "buf_ok E t \<and> buf_pins E t = buf_pins E s"
    if "\<forall>p. buf_pins E s p < 255" "buf_get E k s = Some (Inl e, t)"
    using RedBufferGet_pins [OF i that(1) that(2) [unfolded buf_get_def]] i by (simp add: buf_ok_def)
  show "buf_ok E (RedBufferPut E p s) \<and> buf_pins E (RedBufferPut E p s) = (buf_pins E s)(p := buf_pins E s p - 1)"
    if "0 < buf_pins E s p"
    using RedBufferPut_pins [OF i that] i by (simp add: buf_ok_def)
qed

section \<open>The other operations leave the references alone\<close>

lemma buf_pins_same_refs:
  assumes e: "env_ok E" and v: "gbRedVolNum t = gbRedVolNum s"
    and same: "\<And>j. unat j < NBUF E \<Longrightarrow> bh_bRefCount (head_of j t) = bh_bRefCount (head_of j s) \<and>
      (bh_bRefCount (head_of j s) \<noteq> 0 \<longrightarrow> same_block (head_of j t) (head_of j s) \<or>
        bh_ulBlock (head_of j s) \<noteq> BBLK_INVALID \<and> bh_ulBlock (head_of j t) \<noteq> BBLK_INVALID \<and>
        bh_bVolNum (head_of j t) = bh_bVolNum (head_of j s))"
  shows "buf_pins E t = buf_pins E s"
proof
  fix p
  show "buf_pins E t p = buf_pins E s p"
  proof (cases "\<exists>j. unat j < NBUF E \<and> p = BIDX2BUF E j")
    case True
    then obtain j where j: "unat j < NBUF E" "p = BIDX2BUF E j" by blast
    with same [OF j(1)] v show ?thesis by (auto simp: buf_pins_idx [OF e] same_block_def)
  next
    case False
    then show ?thesis by (auto simp: buf_pins_other [OF e])
  qed
qed

lemma RedBufferDirty_pins:
  assumes e: "env_ok E" and inv: "buf_inv E s"
  shows "buf_inv E (RedBufferDirty E p s)" and "buf_frame s (RedBufferDirty E p s)"
    and "buf_pins E (RedBufferDirty E p s) = buf_pins E s"
proof -
  show i: "buf_inv E (RedBufferDirty E p s)" and "buf_frame s (RedBufferDirty E p s)"
    using RedBufferDirty_inv [OF e inv] by simp_all
  show "buf_pins E (RedBufferDirty E p s) = buf_pins E s"
  proof (cases "BufferToIdx E p s")
    case None
    then show ?thesis by (simp add: RedBufferDirty_def)
  next
    case (Some k)
    then show ?thesis using buf_inv_lengths(2) [OF inv]
      by (intro buf_pins_same_refs [OF e]) (auto simp: RedBufferDirty_def head_of_upd_head_if same_block_def)
  qed
qed

lemma RedBufferBranch_pins:
  assumes e: "env_ok E" and inv: "buf_inv E s" and new: "uncached E b s"
  shows "buf_inv E (RedBufferBranch E p b s)" and "buf_frame s (RedBufferBranch E p b s)"
    and "buf_pins E (RedBufferBranch E p b s) = buf_pins E s"
proof -
  show i: "buf_inv E (RedBufferBranch E p b s)" and "buf_frame s (RedBufferBranch E p b s)"
    using RedBufferBranch_inv [OF e inv new] by simp_all
  show "buf_pins E (RedBufferBranch E p b s) = buf_pins E s"
  proof (cases "BufferToIdx E p s")
    case None
    then show ?thesis by (simp add: RedBufferBranch_def)
  next
    case (Some k)
    show ?thesis
    proof (cases "b < vol_ulBlockCount (gpRedVolume s)")
      case False
      with Some show ?thesis by (simp add: RedBufferBranch_def not_less)
    next
      case True
      then have "b \<noteq> BBLK_INVALID" by (rule block_count_not_invalid)
      with True Some show ?thesis using buf_inv_lengths(2) [OF inv] BufferToIdx_Some(3) [OF e Some]
        by (intro buf_pins_same_refs [OF e]) (auto simp: RedBufferBranch_def head_of_upd_head_if same_block_def)
    qed
  qed
qed

text \<open>The client changes the bytes of a buffer in place.\<close>

lemma upd_buf_pins:
  assumes e: "env_ok E" and inv: "buf_inv E s" and len: "\<And>b. length b = BSIZE E \<Longrightarrow> length (f b) = BSIZE E"
  shows "buf_inv E (upd_buf E p f s)" and "buf_frame s (upd_buf E p f s)"
    and "buf_pins E (upd_buf E p f s) = buf_pins E s"
proof -
  have "buf_inv E (upd_buf E p f s)"
  proof (cases "p div BSIZE E < NBUF E")
    case True
    then have "ctx_inv E ((gBufCtx s)\<lparr>bc_blocks := (bc_blocks (gBufCtx s))[p div BSIZE E := f (buf_at E p s)]\<rparr>)"
      using inv buf_inv_block_length [OF inv]
      by (intro ctx_inv_blocks len) (simp_all add: buf_inv_def buf_at_def)
    then show ?thesis by (simp add: buf_inv_def upd_buf_def)
  next
    case False
    with buf_inv_lengths(3) [OF inv] have "gBufCtx (upd_buf E p f s) = gBufCtx s"
      by (simp add: upd_buf_def list_update_beyond not_less)
    with inv show ?thesis by (rule buf_inv_same_ctx)
  qed
  then show "buf_inv E (upd_buf E p f s)" .
  show "buf_frame s (upd_buf E p f s)" by simp
  show "buf_pins E (upd_buf E p f s) = buf_pins E s"
    by (intro buf_pins_same_refs [OF e]) (simp_all add: head_of_def same_block_def)
qed

lemma flush_loop_pins:
  assumes e: "env_ok E" and "buf_inv E s" and "k + m = NBUF E"
    and "flush_loop E b n k m s = Some (r, t)"
  shows "buf_pins E t = buf_pins E s"
  using assms(2-4)
proof (induction m arbitrary: k s)
  case 0
  then show ?case by simp
next
  case (Suc m)
  let ?h = "bc_aHead (gBufCtx s) ! k"
  let ?step = "thenE (BufferWrite E (word_of_nat k))
      (modE (upd_head (word_of_nat k) (\<lambda>h. h\<lparr>bh_uFlags := bh_uFlags h AND NOT BFLAG_DIRTY\<rparr>)))"
  have k: "k < NBUF E" using Suc.prems(2) by simp
  have step: "buf_inv E u \<and> buf_pins E u = buf_pins E s" if st: "?step s = Some (q, u)" for q u
  proof -
    note fs = flush_step [OF e Suc.prems(1) k st]
    have un: "unat (word_of_nat k :: u8) = k" by (rule word_of_nat_u8 [OF k])
    from st have heads: "\<forall>j < NBUF E. bh_bRefCount (bc_aHead (gBufCtx u) ! j) = bh_bRefCount (bc_aHead (gBufCtx s) ! j) \<and>
        same_block (bc_aHead (gBufCtx u) ! j) (bc_aHead (gBufCtx s) ! j)"
    proof (cases rule: thenE_eq_SomeE)
      case (err x)
      from BufferWrite_effect [OF e Suc.prems(1) err(1)] show ?thesis
        by (simp add: same_heads_def same_block_def)
    next
      case (ok x w)
      from BufferWrite_effect [OF e Suc.prems(1) ok(1)] ok(2) k buf_inv_lengths(2) [OF Suc.prems(1)]
      show ?thesis by (auto simp: same_heads_def same_block_def nth_list_update un head_of_def)
    qed
    have "buf_pins E u = buf_pins E s"
      using fs heads by (intro buf_pins_same_refs [OF e]) (simp_all add: buf_frame_globals head_of_def)
    with fs show ?thesis by simp
  qed
  show ?case
  proof (cases "in_range b n ?h s \<and> bh_uFlags ?h AND BFLAG_DIRTY \<noteq> 0")
    case False
    then have "flush_loop E b n (Suc k) m s = Some (r, t)"
      using Suc.prems(3) by (cases "in_range b n ?h s") (simp_all add: Let_def)
    then show ?thesis using Suc.IH [of s "Suc k"] Suc.prems by simp
  next
    case True
    then have "thenE ?step (flush_loop E b n (Suc k) m) s = Some (r, t)"
      using Suc.prems(3) by (simp add: Let_def)
    then show ?thesis
    proof (cases rule: thenE_eq_SomeE)
      case (err x)
      with step [OF err(1)] show ?thesis by simp
    next
      case (ok x u)
      with step [OF ok(1)] Suc.IH [of u "Suc k"] Suc.prems(2) show ?thesis by simp
    qed
  qed
qed

lemma RedBufferFlushRange_pins:
  assumes "env_ok E" and "buf_inv E s" and "RedBufferFlushRange E b n s = Some (r, t)"
  shows "buf_pins E t = buf_pins E s"
  using assms flush_loop_pins [OF assms(1,2), of 0 "NBUF E" b n r t]
  by (auto simp: RedBufferFlushRange_def split: if_splits)

lemma discard_loop_pins:
  assumes e: "env_ok E" and "buf_inv E s" and "k + m = NBUF E"
    and "discard_loop E b n k m s = Some (r, t)"
  shows "buf_pins E t = buf_pins E s"
  using assms(2-4)
proof (induction m arbitrary: k s)
  case 0
  then show ?case by simp
next
  case (Suc m)
  let ?h = "bc_aHead (gBufCtx s) ! k"
  have k: "k < NBUF E" using Suc.prems(2) by simp
  consider "\<not> in_range b n ?h s" | "in_range b n ?h s" "bh_bRefCount ?h \<noteq> 0"
    | "in_range b n ?h s" "bh_bRefCount ?h = 0" by blast
  then show ?case
  proof cases
    case 1
    then have "discard_loop E b n (Suc k) m s = Some (r, t)" using Suc.prems(3) by simp
    then show ?thesis using Suc.IH [of s "Suc k"] Suc.prems by simp
  next
    case 2
    then have "(Inl RED_EBUSY, upd_vol (vol_fReadOnly_update (\<lambda>_. True)) s) = (r, t)"
      using Suc.prems(3) by (simp add: thenE_Inl thenE_Inr [OF CRITICAL_ERROR_app])
    then show ?thesis by (intro buf_pins_same_ctx) auto
  next
    case 3
    define u where "u = BufferMakeLRU E (word_of_nat k) (upd_head (word_of_nat k) (\<lambda>h. h\<lparr>bh_ulBlock := BBLK_INVALID\<rparr>) s)"
    note st = discard_step [OF Suc.prems(1) k 3(2), folded u_def]
    have "discard_loop E b n (Suc k) m u = Some (r, t)"
      using Suc.prems(3) 3 by (simp add: u_def)
    then have "buf_pins E t = buf_pins E u" using Suc.IH [of u "Suc k"] Suc.prems(2) st(2) by simp
    also have "buf_pins E u = buf_pins E s"
      using k 3(2) st(3) buf_inv_lengths(2) [OF Suc.prems(1)] buf_frame_globals(1) [OF st(1)]
      by (intro buf_pins_same_refs [OF e]) (auto simp: head_of_def nth_list_update same_block_def)
    finally show ?thesis .
  qed
qed

lemma RedBufferDiscardRange_pins:
  assumes "env_ok E" and "buf_inv E s" and "RedBufferDiscardRange E b n s = Some (r, t)"
  shows "buf_pins E t = buf_pins E s"
  using assms discard_loop_pins [OF assms(1,2), of 0 "NBUF E" b n r t]
  by (auto simp: RedBufferDiscardRange_def split: if_splits)

end
