(* ===== verification/Red_BufferProps.thy ===== *)
theory Red_BufferProps
  imports Red_BufferUse
begin

text \<open>
  The properties of the buffer cache, over the calls its clients make in any order, and
  their instances on a concrete cache.
\<close>

section \<open>The cache in use\<close>

text \<open>
  A step is a call with the preconditions that the code asserts or relies on: a reference
  count has room before a get, a buffer that is put or discarded is referenced, and the
  block that a buffer is branched to has no buffer. The client may change the bytes of a
  buffer, and anything outside the cache (the current volume included).
\<close>

inductive cache_step :: "'d env \<Rightarrow> 'd fs \<Rightarrow> 'd fs \<Rightarrow> bool" for E where
  get: "\<forall>p. buf_pins E s p < 255 \<Longrightarrow> RedBufferGet E b fl s = Some (r, t) \<Longrightarrow> cache_step E s t"
| put: "0 < buf_pins E s p \<Longrightarrow> cache_step E s (RedBufferPut E p s)"
| dirty: "cache_step E s (RedBufferDirty E p s)"
| branch: "uncached E b s \<Longrightarrow> cache_step E s (RedBufferBranch E p b s)"
| discard: "0 < buf_pins E s p \<Longrightarrow> cache_step E s (RedBufferDiscard E p s)"
| flush_range: "RedBufferFlushRange E b n s = Some (r, t) \<Longrightarrow> cache_step E s t"
| discard_range: "RedBufferDiscardRange E b n s = Some (r, t) \<Longrightarrow> cache_step E s t"
| read_range: "RedBufferReadRange E b n d s = Some (q, t) \<Longrightarrow> cache_step E s t"
| write_range: "RedBufferWriteRange E b n d s = Some (r, t) \<Longrightarrow> cache_step E s t"
| edit: "(\<And>x. length x = BSIZE E \<Longrightarrow> length (f x) = BSIZE E) \<Longrightarrow> cache_step E s (upd_buf E p f s)"
| elsewhere: "gBufCtx t = gBufCtx s \<Longrightarrow> cache_step E s t"

lemma pinned_ref: "0 < buf_pins E s p \<Longrightarrow> BufferToIdx E p s = Some i \<Longrightarrow> bh_bRefCount (head_of i s) \<noteq> 0"
  by (auto simp: buf_pins_def)

lemma cache_step_inv: "cache_step E s t \<Longrightarrow> env_ok E \<Longrightarrow> buf_inv E s \<Longrightarrow> buf_inv E t"
proof (induction rule: cache_step.induct)
  case (get s b fl r t)
  then show ?case using RedBufferGet_pins by blast
next
  case (put s p)
  then show ?case using RedBufferPut_pins by blast
next
  case (discard s p)
  then show ?case using RedBufferDiscard_inv pinned_ref by blast
next
  case (read_range b n d s q t)
  then show ?case using RedBufferReadRange_effect [of E s b n d q t] by blast
next
  case (edit f s p)
  then show ?case by (intro upd_buf_pins)
next
  case (elsewhere t s)
  then show ?case using buf_inv_same_ctx by blast
next
  case (dirty s p)
  then show ?case using RedBufferDirty_inv by blast
next
  case (branch b s p)
  then show ?case using RedBufferBranch_inv by blast
next
  case (flush_range b n s r t)
  then show ?case using RedBufferFlushRange_effect by blast
next
  case (discard_range b n s r t)
  then show ?case using RedBufferDiscardRange_effect by blast
next
  case (write_range b n d s r t)
  then show ?case using RedBufferWriteRange_effect by blast
qed


section \<open>Getting a buffer\<close>

lemma MakeMRU_first:
  assumes inv: "buf_inv E s" and i: "unat i < NBUF E" and w: "bc_abMRU (gBufCtx w) = bc_abMRU (gBufCtx s)"
  shows "bc_abMRU (gBufCtx (BufferMakeMRU E i w)) = i # filter (\<lambda>x. x \<noteq> i) (bc_abMRU (gBufCtx s))"
proof -
  have c: "ctx_inv E (gBufCtx s)" using inv by (simp add: buf_inv_def)
  let ?m = "bc_abMRU (gBufCtx s)"
  obtain k where k: "k < NBUF E" "?m ! k = i"
    using ctx_inv_mru_all [OF c i] ctx_inv_lengths(1) [OF c] by (auto simp: in_set_conv_nth)
  have d: "distinct ?m" using c by (simp add: ctx_inv_def)
  have xs: "?m = take k ?m @ i # drop (Suc k) ?m"
    using id_take_nth_drop [of k ?m] k ctx_inv_lengths(1) [OF c] by simp
  have "i \<notin> set (take k ?m)" "i \<notin> set (drop (Suc k) ?m)"
    using d by (subst (asm) xs, simp)+
  then have "filter (\<lambda>x. x \<noteq> i) ?m = take k ?m @ drop (Suc k) ?m"
    by (subst xs, simp, intro arg_cong2 [of _ _ _ _ append]) (auto simp: filter_id_conv)
  moreover have "bc_abMRU (gBufCtx (BufferMakeMRU E i w)) = mru_mru (NBUF E) i ?m"
    using i by (simp add: BufferMakeMRU_def word_le_nat_alt not_le w)
  ultimately show ?thesis
    using mru_mru_moves [OF ctx_inv_lengths(1) [OF c] k d] by simp
qed

lemma RedBufferGet_split:
  assumes "RedBufferGet E b fl s = Some (Inr p, t)"
  obtains i u where "buffer_get_idx E b fl s = Some (Inr i, u)" and "t = buffer_reference E i fl u"
    and "p = BIDX2BUF E i" and "b < vol_ulBlockCount (gpRedVolume s)"
proof -
  from assms have inval: "\<not> buffer_get_invalid b fl s" by (auto simp: RedBufferGet_def)
  with assms have "bindE (buffer_get_idx E b fl) (\<lambda>i. thenE (modE (buffer_reference E i fl))
      (okE (BIDX2BUF E i))) s = Some (Inr p, t)" by (simp add: RedBufferGet_def)
  then show thesis
  proof (cases rule: bindE_eq_SomeE)
    case (ok i u)
    with inval that [of i u] show ?thesis by (auto simp: buffer_get_invalid_def not_le)
  qed simp
qed

text \<open>
  A successful \<^verbatim>\<open>RedBufferGet\<close> returns the buffer of the block asked for on the
  current volume: its head says so, it holds one reference more than before and is the
  most recently used one, no other reference changed, and the invariant is kept.
\<close>

theorem get_returns_block:
  assumes "env_ok E" and "buf_inv E s" and "\<forall>p. buf_pins E s p < 255"
    and "RedBufferGet E b fl s = Some (Inr p, t)"
  shows "\<exists>i. p = BIDX2BUF E i \<and> got E b i t \<and> bc_abMRU (gBufCtx t) ! 0 = i \<and>
    buf_pins E t = (buf_pins E s)(p := Suc (buf_pins E s p)) \<and> buf_inv E t"
proof -
  obtain i u where g: "buffer_get_idx E b fl s = Some (Inr i, u)" and t: "t = buffer_reference E i fl u"
    and p: "p = BIDX2BUF E i" and b: "b < vol_ulBlockCount (gpRedVolume s)"
    by (rule RedBufferGet_split [OF assms(4)])
  note ef = buffer_get_idx_effect [OF assms(1,2) b g]
  then have i: "unat i < NBUF E" "buf_inv E u" by simp_all
  have len: "unat i < length (bc_aHead (gBufCtx u))" using i by (simp add: buf_inv_lengths)
  note rs = refs_small_pins [OF assms(1-3)]
  from RedBufferGet_effect [OF assms(1,2) rs assms(4)] obtain j where
    j: "p = BIDX2BUF E j" "got E b j t" by auto
  with p BIDX2BUF_inject [OF assms(1)] have "got E b i t" by metis
  moreover have "bc_abMRU (gBufCtx t) ! 0 = i"
    unfolding t buffer_reference_eq [OF len] by (subst MakeMRU_first [OF i(2,1)]) simp_all
  ultimately show ?thesis using RedBufferGet_pins [OF assms] p by auto
qed

text \<open>
  C22. When the block is not cached, the buffer that is used for it is an unreferenced one,
  every buffer that was used less recently is referenced, and of the other buffers neither
  the head nor the bytes change.
\<close>

theorem get_evicts_least_recently_used:
  assumes "env_ok E" and "buf_inv E s" and "\<forall>p. buf_pins E s p < 255"
    and "BufferFind E b s = None" and "RedBufferGet E b fl s = Some (Inr p, t)"
  shows "\<exists>k < NBUF E. let m = bc_abMRU (gBufCtx s); hs = bc_aHead (gBufCtx s) in
    p = BIDX2BUF E (m ! k) \<and> bh_bRefCount (hs ! unat (m ! k)) = 0 \<and>
    (\<forall>j. k < j \<and> j < NBUF E \<longrightarrow> bh_bRefCount (hs ! unat (m ! j)) \<noteq> 0) \<and>
    bc_abMRU (gBufCtx t) = m ! k # filter (\<lambda>x. x \<noteq> m ! k) m \<and>
    (\<forall>j < NBUF E. j \<noteq> unat (m ! k) \<longrightarrow> bc_aHead (gBufCtx t) ! j = hs ! j \<and>
       bc_blocks (gBufCtx t) ! j = bc_blocks (gBufCtx s) ! j)"
proof -
  obtain i u where g: "buffer_get_idx E b fl s = Some (Inr i, u)" and t: "t = buffer_reference E i fl u"
    and p: "p = BIDX2BUF E i" and b: "b < vol_ulBlockCount (gpRedVolume s)"
    by (rule RedBufferGet_split [OF assms(5)])
  note ef = buffer_get_idx_effect [OF assms(1,2) b g]
  then have i: "unat i < NBUF E" "buf_inv E u" "i = victim E s" "touches (unat i) s u"
    using assms(4) by auto
  have len: "unat i < length (bc_aHead (gBufCtx u))" using i by (simp add: buf_inv_lengths)
  let ?m = "bc_abMRU (gBufCtx s)" and ?hs = "bc_aHead (gBufCtx s)"
  define k where "k = victim_loop ?hs ?m (NBUF E - 1)"
  have kn: "k < NBUF E"
    unfolding k_def using assms(1) by (intro le_less_trans [OF victim_loop_le]) (simp add: env_ok_def)
  have mk: "?m ! k = i" by (simp add: i(3) victim_def k_def)
  have "bc_uNumUsed (gBufCtx s) \<noteq> ucast (REDCONF_BUFFER_COUNT E)"
    using g assms(4) by (auto simp: buffer_get_idx_def thenE_Inr [OF CRITICAL_ERROR_app])
  from free_buffer_exists [OF assms(2) this] obtain j where
    j: "j < NBUF E" "bh_bRefCount (?hs ! j) = 0" by blast
  have "word_of_nat j \<in> set ?m"
    using assms(2) j by (intro ctx_inv_mru_all [of E]) (simp_all add: buf_inv_def word_of_nat_u8)
  then obtain l where "l < NBUF E" "?m ! l = word_of_nat j"
    using buf_inv_lengths(1) [OF assms(2)] by (auto simp: in_set_conv_nth)
  with j have "\<exists>l \<le> NBUF E - 1. bh_bRefCount (?hs ! unat (?m ! l)) = 0"
    by (intro exI [of _ l]) (auto simp: word_of_nat_u8)
  note lru = victim_loop_free [OF this, folded k_def]
  have mru: "bc_abMRU (gBufCtx t) = i # filter (\<lambda>x. x \<noteq> i) ?m"
    unfolding t buffer_reference_eq [OF len]
    by (subst MakeMRU_first [OF i(2,1)]) (use i(4) in \<open>simp_all add: touches_def Let_def\<close>)
  have "bc_aHead (gBufCtx t) ! j = ?hs ! j \<and> bc_blocks (gBufCtx t) ! j = bc_blocks (gBufCtx s) ! j"
    if "j < NBUF E" "j \<noteq> unat i" for j
    unfolding t buffer_reference_eq [OF len]
    using i(4) that by (simp add: touches_def Let_def buf_inv_lengths [OF assms(2)])
  then show ?thesis
    using kn lru mru p unfolding Let_def by (intro exI [of _ k]) (auto simp: mk)
qed

section \<open>Ranges\<close>

text \<open>
  C23. After a successful write of a range of blocks past the cache, no buffer holds a block
  of the range, so that no later get returns bytes that the write replaced.
\<close>

theorem write_range_leaves_no_stale_buffer:
  assumes "env_ok E" and "buf_inv E s" and "RedBufferWriteRange E b n d s = Some (Inr (), t)"
    and "b \<le> x" and "x < b + n" and "x \<noteq> BBLK_INVALID"
  shows "BufferFind E x t = None \<and> buf_inv E t"
proof -
  from RedBufferWriteRange_effect [OF assms(1-3)] have t: "absent_upto E b n (NBUF E) t" "buf_inv E t"
    by simp_all
  have "BufferFind E x t = None"
  proof (cases "BufferFind E x t")
    case (Some i)
    from BufferFind_Some [OF Some] have "in_range b n (head_of i t) t" "unat i < NBUF E"
      using assms(4-6) by (simp_all add: in_range_def)
    with t show ?thesis by (auto simp: absent_upto_def head_of_def)
  qed simp
  with t show ?thesis by blast
qed

text \<open>
  After a successful flush of a range of blocks, no buffer of the range is dirty, and
  the references to buffers are those of before.
\<close>

theorem flush_range_leaves_no_dirty_buffer:
  assumes "env_ok E" and "buf_inv E s" and "RedBufferFlushRange E b n s = Some (Inr (), t)"
  shows "clean_upto E b n (NBUF E) t \<and> buf_pins E t = buf_pins E s"
  using RedBufferFlushRange_effect [OF assms] RedBufferFlushRange_pins [OF assms] by simp

section \<open>Instances\<close>

lemma demo_env_ok: "env_ok demo_env"
  by (simp add: env_ok_def)

lemma demo_buf_inv: "buf_inv demo_env (demo_fs d)"
proof -
  have "referenced (replicate 4 \<lparr>bh_ulBlock = BBLK_INVALID, bh_bVolNum = 0, bh_bRefCount = 0, bh_uFlags = 0\<rparr>) = {}"
    by (auto simp: referenced_def)
  then show ?thesis
    by (auto simp: buf_inv_def ctx_inv_def demo_buffers_def)
qed

lemma demo_head: "unat i < 4 \<Longrightarrow> head_of i (demo_fs d) =
    \<lparr>bh_ulBlock = BBLK_INVALID, bh_bVolNum = 0, bh_bRefCount = 0, bh_uFlags = 0\<rparr>"
  by (simp add: head_of_def demo_buffers_def)

lemma demo_pins: "\<forall>p. buf_pins demo_env (demo_fs d) p < 255"
proof
  fix p
  have "BufferToIdx demo_env p (demo_fs d) = None"
  proof (cases "BufferToIdx demo_env p (demo_fs d)")
    case (Some i)
    from BufferToIdx_Some(2,3) [OF demo_env_ok Some] show ?thesis by (simp add: demo_head)
  qed
  then show "buf_pins demo_env (demo_fs d) p < 255" by (simp add: buf_pins_def)
qed

lemma demo_find: "BufferFind demo_env b (demo_fs d) = None" if "b < 16" for b
proof (cases "BufferFind demo_env b (demo_fs d)")
  case (Some i)
  from BufferFind_Some(1,3) [OF Some] that show ?thesis by (simp add: demo_head BBLK_INVALID_def)
qed

lemma demo_victim: "victim demo_env (demo_fs d) = 0"
proof -
  have "NBUF demo_env - 1 = Suc (Suc (Suc 0))" by simp
  then show ?thesis by (simp only: victim_def victim_loop.simps) (simp add: demo_buffers_def)
qed

text \<open>Block 5 is got as a new inode, which needs no device.\<close>

abbreviation demo_flags :: u16 where
  "demo_flags \<equiv> BFLAG_META_INODE OR BFLAG_NEW OR BFLAG_DIRTY"

definition demo_got :: "ramdisk fs" where
  "demo_got = snd (the (RedBufferGet demo_env 5 demo_flags (demo_fs demo_disk)))"

lemma demo_get: "RedBufferGet demo_env 5 demo_flags (demo_fs demo_disk) = Some (Inr 0, demo_got)"
proof -
  have "\<not> buffer_get_invalid 5 demo_flags (demo_fs demo_disk)"
    by (simp add: buffer_get_invalid_def bflag_values BFLAG_TYPE_IS_VALID_def IS_POWER_OF_2_def)
  moreover have "buffer_evict demo_env 0 (demo_fs demo_disk) = Some (Inr (), demo_fs demo_disk)"
    by (simp add: buffer_evict_def demo_head)
  moreover have "\<exists>u. buffer_fill demo_env 0 5 demo_flags (demo_fs demo_disk) = Some (Inr (), u)"
    by (simp add: buffer_fill_def bflag_values)
  moreover have "bc_uNumUsed (gBufCtx (demo_fs demo_disk)) = 0"
    by (simp add: demo_buffers_def)
  ultimately have "\<exists>t. RedBufferGet demo_env 5 demo_flags (demo_fs demo_disk) = Some (Inr 0, t)"
    by (auto simp: RedBufferGet_def buffer_get_idx_def demo_find buffer_get_miss_def demo_victim
        bindE_Inr thenE_Inr BIDX2BUF_def)
  then show ?thesis by (auto simp: demo_got_def)
qed


theorem get_returns_block_witness:
  "\<exists>i. 0 = BIDX2BUF demo_env i \<and> got demo_env 5 i demo_got \<and> bc_abMRU (gBufCtx demo_got) ! 0 = i \<and>
    buf_pins demo_env demo_got = (buf_pins demo_env (demo_fs demo_disk))
      (0 := Suc (buf_pins demo_env (demo_fs demo_disk) 0)) \<and> buf_inv demo_env demo_got"
  by (rule get_returns_block [OF demo_env_ok demo_buf_inv demo_pins demo_get])

theorem get_evicts_least_recently_used_witness:
  "\<exists>k < NBUF demo_env. let m = bc_abMRU (gBufCtx (demo_fs demo_disk)); hs = bc_aHead (gBufCtx (demo_fs demo_disk)) in
    0 = BIDX2BUF demo_env (m ! k) \<and> bh_bRefCount (hs ! unat (m ! k)) = 0 \<and>
    (\<forall>j. k < j \<and> j < NBUF demo_env \<longrightarrow> bh_bRefCount (hs ! unat (m ! j)) \<noteq> 0) \<and>
    bc_abMRU (gBufCtx demo_got) = m ! k # filter (\<lambda>x. x \<noteq> m ! k) m \<and>
    (\<forall>j < NBUF demo_env. j \<noteq> unat (m ! k) \<longrightarrow> bc_aHead (gBufCtx demo_got) ! j = hs ! j \<and>
       bc_blocks (gBufCtx demo_got) ! j = bc_blocks (gBufCtx (demo_fs demo_disk)) ! j)"
  by (rule get_evicts_least_recently_used [OF demo_env_ok demo_buf_inv demo_pins demo_find demo_get]) simp

text \<open>A range of two blocks is written past the empty cache.\<close>

lemma demo_loops:
  "k + m \<le> 4 \<Longrightarrow> flush_loop demo_env b n k m (demo_fs d) = Some (Inr (), demo_fs d)"
  "k + m \<le> 4 \<Longrightarrow> discard_loop demo_env b n k m (demo_fs d) = Some (Inr (), demo_fs d)"
  by (induction m arbitrary: k) (simp_all add: demo_buffers_def in_range_def Let_def)


text \<open>The device transfers of the cache on the RAM disk, the first attempt succeeding.\<close>

lemma demo_wr: "\<exists>d. RedIoWrite demo_env 0 3 2 (replicate 256 7) (demo_fs demo_disk) = Some (Inr (), demo_fs d)"
proof -
  have "RedIoWrite demo_env 0 3 2 (replicate 256 7) (demo_fs demo_disk) = Some (Inr (), (demo_fs demo_disk)
      \<lparr>os := snd (RedOsBDevWrite demo_env 0 (ullSectorStart demo_env 0 3 (demo_fs demo_disk))
        (ulSectorCount 0 2 (demo_fs demo_disk)) (replicate 256 7) (os (demo_fs demo_disk)))\<rparr>)"
    by (rule RedIoWrite_good(1) [where content = "ramdisk_content 0" and nsect = 16 and ss = 128
          and good = "ramdisk_good demo_volconf 0 128 16"])
      (simp_all add: ramdisk.sector_device_axioms demo_geometry demo_args demo_disk_good)
  moreover have "(demo_fs demo_disk)\<lparr>os := d\<rparr> = demo_fs d" for d by (simp add: demo_fs_def)
  ultimately show ?thesis by (intro exI) (simp only:)
qed

theorem write_range_leaves_no_stale_buffer_witness:
  "\<exists>t. RedBufferWriteRange demo_env 3 2 (replicate 256 7) (demo_fs demo_disk) = Some (Inr (), t) \<and>
    BufferFind demo_env 4 t = None \<and> buf_inv demo_env t"
proof -
  obtain d where "RedIoWrite demo_env 0 3 2 (replicate 256 7) (demo_fs demo_disk) = Some (Inr (), demo_fs d)"
    using demo_wr by blast
  then have w: "RedBufferWriteRange demo_env 3 2 (replicate 256 7) (demo_fs demo_disk) = Some (Inr (), demo_fs d)"
    by (simp add: RedBufferWriteRange_def buffer_range_invalid_def thenE_Inr RedBufferDiscardRange_def demo_loops)
  show ?thesis
    using write_range_leaves_no_stale_buffer [OF demo_env_ok demo_buf_inv w, of 4] w
    by (simp add: BBLK_INVALID_def)
qed

text \<open>A dirty buffer of file data, for block 5, is flushed.\<close>

definition demo_dirty :: "ramdisk \<Rightarrow> ramdisk fs" where
  "demo_dirty d = upd_head 0 (\<lambda>h. h\<lparr>bh_ulBlock := 5, bh_uFlags := BFLAG_DIRTY\<rparr>) (demo_fs d)"

lemma demo_dirty_simps [simp]:
  "gbRedVolNum (demo_dirty d) = 0" "gaRedVolume (demo_dirty d) v = demo_volume"
  "gpRedVolume (demo_dirty d) = demo_volume" "os (demo_dirty d) = d"
  "gaRedBdevInfo (demo_dirty d) v = \<lparr>bi_ulSectorSize = 128, bi_ullSectorCount = 16\<rparr>"
  "(demo_dirty d)\<lparr>os := d'\<rparr> = demo_dirty d'"
  by (simp_all add: demo_dirty_def) (simp add: upd_head_def upd_ctx_def demo_fs_def)

lemma demo_dirty_inv: "buf_inv demo_env (demo_dirty d)"
proof -
  have "\<not> same_block \<lparr>bh_ulBlock = 5, bh_bVolNum = 0, bh_bRefCount = 0, bh_uFlags = BFLAG_DIRTY\<rparr>
      (bc_aHead (gBufCtx (demo_fs d)) ! j)" if "j < 4" for j
    using that by (simp add: demo_buffers_def same_block_def BBLK_INVALID_def)
  then show ?thesis unfolding demo_dirty_def
    by (intro buf_inv_same_ref [OF demo_buf_inv]) (simp_all add: demo_head)
qed

lemma demo_dirty_heads: "j < 4 \<Longrightarrow> bc_aHead (gBufCtx (demo_dirty d)) ! j =
    \<lparr>bh_ulBlock = (if j = 0 then 5 else BBLK_INVALID), bh_bVolNum = 0, bh_bRefCount = 0,
     bh_uFlags = (if j = 0 then BFLAG_DIRTY else 0)\<rparr>"
  by (auto simp: demo_dirty_def demo_head nth_list_update demo_buffers_def)

lemma demo_dirty_write: "\<exists>d. BufferWrite demo_env 0 (demo_dirty demo_disk) = Some (Inr (), demo_dirty d)"
proof -
  have "RedIoWrite demo_env 0 5 1 (replicate 128 0) (demo_dirty demo_disk) = Some (Inr (), (demo_dirty demo_disk)
      \<lparr>os := snd (RedOsBDevWrite demo_env 0 (ullSectorStart demo_env 0 5 (demo_dirty demo_disk))
        (ulSectorCount 0 1 (demo_dirty demo_disk)) (replicate 128 0) (os (demo_dirty demo_disk)))\<rparr>)"
    by (rule RedIoWrite_good(1) [where content = "ramdisk_content 0" and nsect = 16 and ss = 128
          and good = "ramdisk_good demo_volconf 0 128 16"])
      (simp_all add: ramdisk.sector_device_axioms geometry_ok_def io_args_invalid_def demo_disk_good)
  moreover have "buf_at demo_env (BIDX2BUF demo_env 0) (demo_dirty demo_disk) = replicate 128 0"
    by (simp add: buf_at_def demo_dirty_def demo_buffers_def BIDX2BUF_def)
  ultimately show ?thesis
    by (intro exI) (simp add: BufferWrite_def demo_dirty_heads head_of_def bflag_values thenE_ok)
qed

theorem flush_range_leaves_no_dirty_buffer_witness:
  "\<exists>t. RedBufferFlushRange demo_env 5 1 (demo_dirty demo_disk) = Some (Inr (), t) \<and>
    clean_upto demo_env 5 1 4 t"
proof -
  obtain d where w: "BufferWrite demo_env 0 (demo_dirty demo_disk) = Some (Inr (), demo_dirty d)"
    using demo_dirty_write by blast
  let ?t = "upd_head 0 (\<lambda>h. h\<lparr>bh_uFlags := bh_uFlags h AND NOT BFLAG_DIRTY\<rparr>) (demo_dirty d)"
  have rest: "flush_loop demo_env 5 1 (Suc k) m ?t = Some (Inr (), ?t)" if "Suc k + m \<le> 4" for k m
    using that by (induction m arbitrary: k) (simp_all add: demo_dirty_heads in_range_def Let_def)
  have "flush_loop demo_env 5 1 0 (Suc 3) (demo_dirty demo_disk) = Some (Inr (), ?t)"
    unfolding flush_loop.simps(2)
    using w rest [of 0 3] by (simp add: demo_dirty_heads in_range_def BFLAG_DIRTY_def BBLK_INVALID_def thenE_Inr
        word_less_nat_alt del: flush_loop.simps)
  then have f: "RedBufferFlushRange demo_env 5 1 (demo_dirty demo_disk) = Some (Inr (), ?t)"
    by (simp add: RedBufferFlushRange_def buffer_range_invalid_def del: flush_loop.simps)
  from flush_range_leaves_no_dirty_buffer [OF demo_env_ok demo_dirty_inv this] f show ?thesis by auto
qed

end
