(* ===== verification/Red_ImapInline.thy ===== *)
theory Red_ImapInline
  imports Red_BufferProps Red_Bitmap
begin

text \<open>
  The inline imap of \<^verbatim>\<open>core/driver/imapinline.c\<close>: the allocation bitmap of a small volume,
  kept in the entries of the metaroots. The search for a free block is a loop that may not
  end; it is a \<open>partial_function\<close>, and the lemmas say when it returns.
\<close>

section \<open>The operations\<close>

definition mr_upd_abEntries :: "'d env \<Rightarrow> (bytes option \<Rightarrow> bytes option) \<Rightarrow> bytes \<Rightarrow> bytes" where
  "mr_upd_abEntries E f mr =
     take (METAROOT_HEADER_SIZE E) mr @ the (f (Some (mr_abEntries E mr)))"

definition imap_range_invalid :: "u32 \<Rightarrow> 'd fs \<Rightarrow> bool" where
  "imap_range_invalid ulBlock s \<longleftrightarrow>
     ulBlock < cv_ulInodeTableStartBN (gpRedCoreVol s) \<or> ulBlock \<ge> vol_ulBlockCount (gpRedVolume s)"

definition RedImapIBlockGet :: "'d env \<Rightarrow> u8 \<Rightarrow> u32 \<Rightarrow> ('d, bool) op" where
  "RedImapIBlockGet E bMR ulBlock = (\<lambda>s.
     if \<not> cv_fImapInline (gpRedCoreVol s) \<or> bMR > 1 \<or> imap_range_invalid ulBlock s
     then errE RED_EINVAL s
     else okE (RedBitGet (Some (mr_abEntries E (cv_aMR (gpRedCoreVol s) bMR)))
            (ulBlock - cv_ulInodeTableStartBN (gpRedCoreVol s))) s)"

definition RedImapIBlockSet :: "'d env \<Rightarrow> u32 \<Rightarrow> bool \<Rightarrow> ('d, unit) op" where
  "RedImapIBlockSet E ulBlock fAllocated = (\<lambda>s.
     if \<not> cv_fImapInline (gpRedCoreVol s) \<or> imap_range_invalid ulBlock s
     then errE RED_EINVAL s
     else
       let ulOffset = ulBlock - cv_ulInodeTableStartBN (gpRedCoreVol s)
       in if RedBitGet (Some (mr_abEntries E (gpRedMR s))) ulOffset = fAllocated
          then thenE CRITICAL_ERROR (errE RED_EFUBAR) s
          else if fAllocated
          then modE (upd_MR (mr_upd_abEntries E (\<lambda>m. RedBitSet m ulOffset))) s
          else modE (upd_MR (mr_upd_abEntries E (\<lambda>m. RedBitClear m ulOffset))) s)"

text \<open>
  The loop of the search. The arguments are the bitmaps of the working and the committed
  state, the numbers of the first block of the inode table, of the first allocable block
  and of blocks, the block where the search began, and \<open>ulSearchBlock\<close>.
\<close>

partial_function (option) imapi_search ::
    "bytes \<Rightarrow> bytes \<Rightarrow> u32 \<Rightarrow> u32 \<Rightarrow> u32 \<Rightarrow> u32 \<Rightarrow> u32 \<Rightarrow> (rederr + u32) option" where
  "imapi_search pbBmpCurMR pbBmpCmtMR tbl fst_alloc blocks ulBlock ulSearchBlock =
     (let ulBmpIdx = ulSearchBlock - tbl;
          full = ulBmpIdx AND 7 = 0 \<and> pbBmpCurMR ! unat (drop_bit 3 ulBmpIdx) = 0xFF
      in if \<not> full \<and> \<not> RedBitGet (Some pbBmpCurMR) ulBmpIdx \<and> \<not> RedBitGet (Some pbBmpCmtMR) ulBmpIdx
         then Some (Inr ulSearchBlock)
         else
           let next_block = (if full then ulSearchBlock + min 8 (blocks - ulSearchBlock) else ulSearchBlock + 1);
               next_block = (if next_block = blocks then fst_alloc else next_block)
           in if next_block \<noteq> ulBlock
              then imapi_search pbBmpCurMR pbBmpCmtMR tbl fst_alloc blocks ulBlock next_block
              else Some (Inl RED_ENOSPC))"

definition other_MR :: "'d fs \<Rightarrow> u8" where
  "other_MR s = 1 - cv_bCurMR (gpRedCoreVol s)"

definition RedImapIBlockFindFree :: "'d env \<Rightarrow> u32 \<Rightarrow> ('d, u32) op" where
  "RedImapIBlockFindFree E ulBlock = (\<lambda>s.
     let cv = gpRedCoreVol s
     in if \<not> cv_fImapInline cv \<or> ulBlock < cv_ulFirstAllocableBN cv \<or>
          ulBlock \<ge> vol_ulBlockCount (gpRedVolume s)
        then errE RED_EINVAL s
        else case imapi_search (mr_abEntries E (cv_aMR cv (cv_bCurMR cv))) (mr_abEntries E (cv_aMR cv (other_MR s)))
            (cv_ulInodeTableStartBN cv) (cv_ulFirstAllocableBN cv) (vol_ulBlockCount (gpRedVolume s))
            ulBlock ulBlock of
          None \<Rightarrow> None
        | Some r \<Rightarrow> returnE r s)"

section \<open>The search\<close>

lemma imapi_search_induct [consumes 1, case_names step]:
  assumes "imapi_search c d t fa n st b = Some r"
    and "\<And>g c d t fa n st b r.
      (\<And>c d t fa n st b r. g c d t fa n st b = Some r \<Longrightarrow> P c d t fa n st b r) \<Longrightarrow>
      (let i = b - t; full = i AND 7 = 0 \<and> c ! unat (drop_bit 3 i) = 0xFF
       in if \<not> full \<and> \<not> RedBitGet (Some c) i \<and> \<not> RedBitGet (Some d) i then Some (Inr b)
          else let m = (if full then b + min 8 (n - b) else b + 1); m = (if m = n then fa else m)
            in if m \<noteq> st then g c d t fa n st m else Some (Inl RED_ENOSPC)) = Some r \<Longrightarrow>
      P c d t fa n st b r"
  shows "P c d t fa n st b r"
  by (rule imapi_search.raw_induct [of P c d t fa n st b r])
    (rule assms(2), assumption+, rule assms(1))

lemma full_byte_bits:
  assumes "bm ! (unat (i :: u32) div 8) = 0xFF"
  shows "RedBitGet (Some bm) i"
proof -
  have "(0xFF :: u8) = - 1" by simp
  note byte = trans [OF assms this]
  have "7 - unat i mod 8 < 8" by simp
  then have "bit (- 1 :: u8) (7 - unat i mod 8)"
    unfolding bit_minus_1_iff possible_bit_word by simp
  then show ?thesis unfolding RedBitGet_bit byte .
qed

lemma same_octet: "(b :: nat) mod 8 = 0 \<Longrightarrow> b \<le> x \<Longrightarrow> x < b + 8 \<Longrightarrow> x div 8 = b div 8"
proof -
  assume b: "b mod 8 = 0" "b \<le> x" "x < b + 8"
  then have eq: "8 * (b div 8) = b" by (metis add.right_neutral mult_div_mod_eq)
  show ?thesis by (rule div_nat_eqI) (use b eq in simp_all)
qed

text \<open>
  The arguments of a search that stay the same, as one record, and what the search steps
  over.
\<close>

record imap_view =
  iv_cur :: bytes
  iv_cmt :: bytes
  iv_tbl :: u32
  iv_first :: u32
  iv_count :: u32

definition vok :: "imap_view \<Rightarrow> bool" where
  "vok V \<longleftrightarrow> iv_tbl V \<le> iv_first V \<and> iv_first V < iv_count V"

abbreviation srch :: "imap_view \<Rightarrow> u32 \<Rightarrow> u32 \<Rightarrow> (rederr + u32) option" where
  "srch V \<equiv> imapi_search (iv_cur V) (iv_cmt V) (iv_tbl V) (iv_first V) (iv_count V)"

definition free :: "imap_view \<Rightarrow> u32 \<Rightarrow> bool" where
  "free V b \<longleftrightarrow> iv_first V \<le> b \<and> b < iv_count V \<and> \<not> RedBitGet (Some (iv_cur V)) (b - iv_tbl V) \<and> \<not> RedBitGet (Some (iv_cmt V)) (b - iv_tbl V)"

definition full :: "imap_view \<Rightarrow> u32 \<Rightarrow> bool" where
  "full V b \<longleftrightarrow> (b - iv_tbl V) AND 7 = 0 \<and> iv_cur V ! unat (drop_bit 3 (b - iv_tbl V)) = 0xFF"

definition advance :: "imap_view \<Rightarrow> u32 \<Rightarrow> u32" where
  "advance V b = (if full V b then b + min 8 (iv_count V - b) else b + 1)"

definition wrap :: "imap_view \<Rightarrow> u32 \<Rightarrow> u32" where
  "wrap V b = (if b = iv_count V then iv_first V else b)"

lemma search_unfold: "srch V s b =
    (if \<not> full V b \<and> \<not> RedBitGet (Some (iv_cur V)) (b - iv_tbl V) \<and> \<not> RedBitGet (Some (iv_cmt V)) (b - iv_tbl V) then Some (Inr b)
     else if wrap V (advance V b) \<noteq> s then srch V s (wrap V (advance V b)) else Some (Inl RED_ENOSPC))"
  by (subst imapi_search.simps) (simp only: Let_def full_def advance_def wrap_def)

lemma unat_idx: "vok V \<Longrightarrow> iv_first V \<le> b \<Longrightarrow> unat (b - iv_tbl V) = unat b - unat (iv_tbl V)"
  unfolding vok_def by (intro unat_sub) (erule conjE, erule order_trans, assumption)

lemma full_bits:
  assumes v: "vok V" and f: "full V b" and "iv_first V \<le> b" and "b \<le> x" and "unat x < unat b + 8"
  shows "RedBitGet (Some (iv_cur V)) (x - iv_tbl V)"
proof -
  have "unat (b - iv_tbl V) mod 8 = 0"
    using f unat_bit_index [of "b - iv_tbl V"] by (simp add: full_def)
  moreover have "unat (x - iv_tbl V) = unat x - unat (iv_tbl V)" "unat (b - iv_tbl V) = unat b - unat (iv_tbl V)"
    using assms(3,4) by (simp_all add: unat_idx [OF v])
  moreover have "unat (iv_tbl V) \<le> unat b" "unat b \<le> unat x"
    using v assms(3,4) by (simp_all add: vok_def word_le_nat_alt)
  ultimately have "unat (x - iv_tbl V) div 8 = unat (b - iv_tbl V) div 8"
    using assms(5) by (intro same_octet) linarith+
  then show ?thesis
    using f by (intro full_byte_bits) (simp add: full_def unat_byte_index)
qed

lemma not_full_free: "vok V \<Longrightarrow> free V b \<Longrightarrow> \<not> full V b"
  using full_bits [of V b b] by (auto simp: free_def)

lemma unat_advance:
  assumes "iv_first V \<le> b" and "b < iv_count V"
  shows "unat (advance V b) = (if full V b then min (unat b + 8) (unat (iv_count V)) else Suc (unat b))"
proof -
  have lt: "unat b < unat (iv_count V)" using assms(2) by (simp add: word_less_nat_alt)
  have sub: "unat (iv_count V - b) = unat (iv_count V) - unat b" using assms(2) by (intro unat_sub) simp
  have "unat (min 8 (iv_count V - b)) = min 8 (unat (iv_count V) - unat b)"
    by (simp add: min_def word_le_nat_alt sub)
  moreover have "unat b + min 8 (unat (iv_count V) - unat b) < 2 ^ 32"
    using lt unat_u32_less [of "iv_count V"] by simp
  ultimately have "unat (b + min 8 (iv_count V - b)) = unat b + min 8 (unat (iv_count V) - unat b)"
    by (simp add: unat_word_ariths)
  then show ?thesis using lt by (auto simp: advance_def unat_Suc_u32 [OF assms(2)])
qed

lemma advance_range:
  assumes "iv_first V \<le> b" and "b < iv_count V"
  shows "b < advance V b" and "advance V b \<le> iv_count V"
  using assms unat_advance [OF assms] by (auto simp: word_less_nat_alt word_le_nat_alt)

text \<open>No free block is skipped.\<close>

lemma advance_skips_no_free:
  assumes v: "vok V" and "iv_first V \<le> b" and "b < iv_count V" and "\<not> free V b" and "free V f" and "b \<le> f"
  shows "advance V b \<le> f"
proof -
  have "b \<noteq> f" using assms(4,5) by blast
  with assms(6) have lt: "unat b < unat f" by (simp add: word_less_nat_alt [symmetric])
  have fc: "unat f < unat (iv_count V)" using assms(5) by (simp add: free_def word_less_nat_alt)
  have "unat (advance V b) \<le> unat f"
  proof (cases "full V b")
    case True
    have "\<not> unat f < unat b + 8"
      using full_bits [OF v True assms(2,6)] assms(5) by (auto simp: free_def)
    with True fc show ?thesis by (simp add: unat_advance [OF assms(2,3)])
  next
    case False
    with lt show ?thesis by (simp add: unat_advance [OF assms(2,3)])
  qed
  then show ?thesis by (simp add: word_le_nat_alt)
qed

lemma search_forward:
  assumes v: "vok V" and "iv_first V \<le> b" and "b \<le> f" and "free V f" and "\<And>x. b \<le> x \<Longrightarrow> x < f \<Longrightarrow> \<not> free V x"
    and "\<not> (b < s \<and> s \<le> f)"
  shows "srch V s b = Some (Inr f)"
  using assms(2-6)
proof (induction "unat f - unat b" arbitrary: b rule: less_induct)
  case less
  have fc: "f < iv_count V" using less.prems(3) by (simp add: free_def)
  show ?case
  proof (cases "b = f")
    case True
    with less.prems(3) show ?thesis
      by (subst search_unfold) (simp add: not_full_free [OF v], simp add: free_def)
  next
    case False
    with less.prems(2) have bf: "b < f" by simp
    with fc have bc: "b < iv_count V" by simp
    have nf: "\<not> free V b" using less.prems(4) bf by simp
    have adv: "advance V b \<le> f" by (rule advance_skips_no_free [OF v less.prems(1) bc nf less.prems(3,2)])
    have gt: "b < advance V b" by (rule advance_range [OF less.prems(1) bc])
    have w: "wrap V (advance V b) = advance V b" using adv fc by (auto simp: wrap_def)
    have ns: "advance V b \<noteq> s" using less.prems(5) adv gt by auto
    have "srch V s (advance V b) = Some (Inr f)"
    proof (rule less.hyps)
      show "unat f - unat (advance V b) < unat f - unat b"
        using gt bf by (simp add: word_less_nat_alt)
      show "iv_first V \<le> advance V b" using less.prems(1) gt by simp
      show "\<not> free V x" if "advance V b \<le> x" "x < f" for x using that gt less.prems(4) by simp
      show "\<not> (advance V b < s \<and> s \<le> f)" using less.prems(5) gt by auto
    qed (use adv less.prems(3) in simp_all)
    then show ?thesis
      using nf less.prems(1) bc ns by (subst search_unfold) (auto simp: w free_def)
  qed
qed

lemma search_to_end:
  assumes "iv_first V \<le> b" and "b < iv_count V" and "\<And>x. b \<le> x \<Longrightarrow> \<not> free V x" and "s \<le> b"
  shows "srch V s b = (if iv_first V = s then Some (Inl RED_ENOSPC) else srch V s (iv_first V))"
  using assms
proof (induction "unat (iv_count V) - unat b" arbitrary: b rule: less_induct)
  case less
  note adv = advance_range [OF less.prems(1,2)]
  have nf: "\<not> free V b" using less.prems(3) by simp
  have ns: "advance V b \<noteq> s" using adv(1) less.prems(4) by auto
  have step: "srch V s b = (if wrap V (advance V b) \<noteq> s then srch V s (wrap V (advance V b)) else Some (Inl RED_ENOSPC))"
    using nf less.prems(1,2) by (subst search_unfold) (auto simp: free_def)
  show ?case
  proof (cases "advance V b = iv_count V")
    case True
    then show ?thesis by (simp add: step wrap_def)
  next
    case False
    with adv have lt: "advance V b < iv_count V" by simp
    have "srch V s (advance V b) = (if iv_first V = s then Some (Inl RED_ENOSPC) else srch V s (iv_first V))"
    proof (rule less.hyps)
      show "unat (iv_count V) - unat (advance V b) < unat (iv_count V) - unat b"
        using adv(1) less.prems(2) by (simp add: word_less_nat_alt)
      show "iv_first V \<le> advance V b" "s \<le> advance V b" using less.prems adv(1) by simp_all
      show "\<not> free V x" if "advance V b \<le> x" for x using that adv(1) less.prems(3) by simp
    qed (rule lt)
    then show ?thesis using False ns by (simp add: step wrap_def)
  qed
qed

text \<open>
  When a block is free, the search returns the first free one at or after the start, in
  the cyclic order of the allocable blocks.
\<close>

lemma search_complete:
  assumes v: "vok V" and "iv_first V \<le> s" and "s < iv_count V" and "free V x"
  obtains f where "srch V s s = Some (Inr f)" and "free V f"
    and "if s \<le> f then \<forall>y. s \<le> y \<and> y < f \<longrightarrow> \<not> free V y
      else (\<forall>y. s \<le> y \<longrightarrow> \<not> free V y) \<and> (\<forall>y < f. \<not> free V y)"
proof (cases "\<exists>y. s \<le> y \<and> free V y")
  case True
  then obtain n where "\<exists>y. s \<le> y \<and> free V y \<and> unat y = n" by blast
  then have ex: "\<exists>n y. s \<le> y \<and> free V y \<and> unat y = n" by blast
  define m where "m = (LEAST n. \<exists>y. s \<le> y \<and> free V y \<and> unat y = n)"
  from LeastI_ex [OF ex] obtain f where f: "s \<le> f" "free V f" "unat f = m" by (auto simp: m_def)
  have least: "\<not> free V y" if "s \<le> y" "y < f" for y
    using not_less_Least [of "unat y" "\<lambda>n. \<exists>y. s \<le> y \<and> free V y \<and> unat y = n"] that f(3)
    by (auto simp: m_def word_less_nat_alt)
  have "srch V s s = Some (Inr f)"
    by (rule search_forward [OF v assms(2) f(1,2) least]) simp_all
  with f least that show thesis by auto
next
  case False
  have ex: "\<exists>n y. free V y \<and> unat y = n" using assms(4) by blast
  define m where "m = (LEAST n. \<exists>y. free V y \<and> unat y = n)"
  from LeastI_ex [OF ex] obtain f where f: "free V f" "unat f = m" by (auto simp: m_def)
  have least: "\<not> free V y" if "y < f" for y
    using not_less_Least [of "unat y" "\<lambda>n. \<exists>y. free V y \<and> unat y = n"] that f(2)
    by (auto simp: m_def word_less_nat_alt)
  have fs: "f < s" using False f(1) by (meson not_less)
  have ff: "iv_first V \<le> f" using f(1) by (simp add: free_def)
  have "iv_first V \<noteq> s" using ff fs by auto
  then have "srch V s s = srch V s (iv_first V)"
    using search_to_end [of V s s] assms False by auto
  also have "srch V s (iv_first V) = Some (Inr f)"
    by (rule search_forward [OF v _ ff f(1)]) (use least fs in auto)
  finally show thesis using f fs least False that by auto
qed

text \<open>
  When no block is free, the step over a byte of ones may pass the block where the search
  began; then it goes round for ever.
\<close>

lemma wrap_advance_cases:
  assumes "iv_first V \<le> b" and "b < iv_count V"
  shows "wrap V (advance V b) = iv_first V \<or>
    (wrap V (advance V b) = advance V b \<and> advance V b < iv_count V \<and>
      (unat (advance V b) = Suc (unat b) \<and> \<not> full V b \<or> full V b \<and> unat (advance V b) = unat b + 8))"
proof (cases "advance V b = iv_count V")
  case True
  then show ?thesis by (simp add: wrap_def)
next
  case False
  with advance_range [OF assms] have "advance V b < iv_count V" by simp
  then have "unat (advance V b) < unat (iv_count V)" by (simp add: word_less_nat_alt)
  with \<open>advance V b < iv_count V\<close> False show ?thesis
    by (simp add: wrap_def unat_advance [OF assms] min_def split: if_splits)
qed

lemma search_diverges:
  assumes v: "vok V" and all: "\<And>b. iv_first V \<le> b \<Longrightarrow> b < iv_count V \<Longrightarrow> RedBitGet (Some (iv_cur V)) (b - iv_tbl V)"
    and a: "iv_first V \<le> a" "full V a" and s: "a < s" "unat s < unat a + 8" "s < iv_count V"
  shows "srch V s s = None"
proof -
  define S where "S = {b. iv_first V \<le> b \<and> b < iv_count V \<and> \<not> (a < b \<and> b \<le> s)} \<union> {s}"
  have octet: "unat (b - iv_tbl V) mod 8 = 0 \<Longrightarrow> iv_first V \<le> b \<Longrightarrow> a \<le> b \<or> unat b + 8 \<le> unat a" for b
  proof -
    assume b: "unat (b - iv_tbl V) mod 8 = 0" "iv_first V \<le> b"
    have "unat (a - iv_tbl V) mod 8 = 0" using a(2) unat_bit_index [of "a - iv_tbl V"] by (simp add: full_def)
    moreover have "unat (iv_tbl V) \<le> unat a" "unat (iv_tbl V) \<le> unat b"
      using v a(1) b(2) by (simp_all add: vok_def word_le_nat_alt)
    moreover note unat_idx [OF v a(1)] unat_idx [OF v b(2)] b(1)
    ultimately have "unat a \<le> unat b \<or> unat b + 8 \<le> unat a" by presburger
    then show ?thesis by (simp add: word_le_nat_alt)
  qed
  have step_in: "wrap V (advance V b) \<noteq> s \<and> wrap V (advance V b) \<in> S" if "b \<in> S" for b
  proof -
    have b: "iv_first V \<le> b" "b < iv_count V" using that a(1) s by (auto simp: S_def)
    note un = word_less_nat_alt word_le_nat_alt
    have fr: "iv_first V \<in> S" "iv_first V \<noteq> s" using a(1) s v by (auto simp: S_def vok_def)
    from wrap_advance_cases [OF b] show ?thesis
    proof (elim disjE conjE)
      assume "wrap V (advance V b) = iv_first V"
      with fr show ?thesis by simp
    next
      assume w: "wrap V (advance V b) = advance V b" "advance V b < iv_count V" "unat (advance V b) = Suc (unat b)" "\<not> full V b"
      then have "b \<noteq> a" using a(2) by blast
      then have "unat b \<noteq> unat a" by (blast intro: unsigned_word_eqI)
      with that w s b show ?thesis by (auto simp: S_def un)
    next
      assume w: "wrap V (advance V b) = advance V b" "advance V b < iv_count V" "full V b" "unat (advance V b) = unat b + 8"
      have "unat (b - iv_tbl V) mod 8 = 0" using w(3) unat_bit_index [of "b - iv_tbl V"] by (simp add: full_def)
      from octet [OF this b(1)] that w s b show ?thesis by (auto simp: S_def un)
    qed
  qed
  have never: "b \<notin> S" if "imapi_search c d t fa n st b = Some r" "c = iv_cur V" "d = iv_cmt V" "t = iv_tbl V"
      "fa = iv_first V" "n = iv_count V" "st = s" for c d t fa n st b r
    using that
  proof (induction rule: imapi_search_induct)
    case (step g c d t fa n st b r)
    show ?case
    proof
      assume b: "b \<in> S"
      have "iv_first V \<le> b" "b < iv_count V" using b a(1) s by (auto simp: S_def)
      then have set: "RedBitGet (Some (iv_cur V)) (b - iv_tbl V)" by (rule all)
      have "g (iv_cur V) (iv_cmt V) (iv_tbl V) (iv_first V) (iv_count V) s (wrap V (advance V b)) = Some r"
        using step.hyps set step_in [OF b] 
        unfolding step.prems Let_def full_def [symmetric] advance_def [symmetric] wrap_def [symmetric]
        by simp
      then have "wrap V (advance V b) \<notin> S" by (rule step.IH) simp_all
      with step_in [OF b] show False by blast
    qed
  qed
  show ?thesis
  proof (cases "srch V s s")
    case (Some r)
    from never [OF this] show ?thesis by (simp add: S_def)
  qed
qed

section \<open>The bits of the inline imap\<close>

definition ibit :: "'d env \<Rightarrow> 'd fs \<Rightarrow> u8 \<Rightarrow> u32 \<Rightarrow> bool" where
  "ibit E s bMR b = RedBitGet (Some (mr_abEntries E (cv_aMR (gpRedCoreVol s) bMR)))
     (b - cv_ulInodeTableStartBN (gpRedCoreVol s))"

text \<open>The layout of a mounted volume with an inline imap.\<close>

definition imapi_ok :: "'d env \<Rightarrow> 'd fs \<Rightarrow> bool" where
  "imapi_ok E s \<longleftrightarrow> env_ok E \<and> (let cv = gpRedCoreVol s; n = vol_ulBlockCount (gpRedVolume s) in
     cv_fImapInline cv \<and> cv_bCurMR cv \<le> 1 \<and> cv_ulInodeTableStartBN cv \<le> cv_ulFirstAllocableBN cv \<and>
     cv_ulFirstAllocableBN cv \<le> n \<and>
     unat n - unat (cv_ulInodeTableStartBN cv) \<le> 8 * METAROOT_ENTRY_BYTES E \<and>
     length (cv_aMR cv 0) = BSIZE E \<and> length (cv_aMR cv 1) = BSIZE E)"

lemma METAROOT_HEADER_SIZE_le: "METAROOT_HEADER_SIZE E \<le> 44"
  by (simp add: METAROOT_HEADER_SIZE_def NODEHEADER_SIZE_def)

lemma header_fits: "env_ok E \<Longrightarrow> METAROOT_HEADER_SIZE E \<le> BSIZE E"
  using METAROOT_HEADER_SIZE_le [of E] BSIZE_ge [of E] by linarith

lemma u8_le_1: "(i :: u8) \<le> 1 \<longleftrightarrow> i = 0 \<or> i = 1"
proof
  assume "i \<le> 1"
  then have "unat i = 0 \<or> unat i = 1" by (auto simp: word_le_nat_alt)
  then show "i = 0 \<or> i = 1" by (auto simp: unsigned_eq_0_iff dest: word_unat_eq_iff [THEN iffD2, of i 1, simplified])
qed auto

lemma other_MR_cases:
  "cv_bCurMR (gpRedCoreVol s) \<le> 1 \<Longrightarrow> other_MR s \<noteq> cv_bCurMR (gpRedCoreVol s) \<and> other_MR s \<le> 1"
  by (auto simp: u8_le_1 other_MR_def)

lemma imapi_length: "imapi_ok E s \<Longrightarrow> bMR \<le> 1 \<Longrightarrow> length (cv_aMR (gpRedCoreVol s) bMR) = BSIZE E"
  by (auto simp: imapi_ok_def Let_def u8_le_1)

lemma imapi_bit_valid:
  assumes ok: "imapi_ok E s" and b: "\<not> imap_range_invalid b s" and m: "bMR \<le> 1"
  shows "bit_valid (mr_abEntries E (cv_aMR (gpRedCoreVol s) bMR)) (b - cv_ulInodeTableStartBN (gpRedCoreVol s))"
proof -
  have le: "cv_ulInodeTableStartBN (gpRedCoreVol s) \<le> b" "b < vol_ulBlockCount (gpRedVolume s)"
    using b by (auto simp: imap_range_invalid_def not_less not_le)
  then have "unat (b - cv_ulInodeTableStartBN (gpRedCoreVol s)) < 8 * METAROOT_ENTRY_BYTES E"
    using ok by (auto simp: imapi_ok_def Let_def unat_sub_le word_less_nat_alt word_le_nat_alt)
  then show ?thesis
    using imapi_length [OF ok m] by (simp add: bit_valid_def mr_abEntries_def METAROOT_ENTRY_BYTES_def)
qed

text \<open>Writing the entries leaves the header of the metaroot alone.\<close>

lemma get32_take: "off + 4 \<le> h \<Longrightarrow> h \<le> length b \<Longrightarrow> get32 off (take h b @ x) = get32 off b"
  proof -
  assume h: "off + 4 \<le> h" "h \<le> length b"
  then have "slice off 4 (take h b @ x) = slice off 4 (take h b)"
    by (intro slice_append_left) simp
  also have "\<dots> = slice off 4 b" using h by (simp add: slice_def drop_take min_def le_diff_conv2)
  finally show ?thesis by (simp add: get32_def get_le_def)
qed

lemma mr_put_entries:
  assumes "METAROOT_HEADER_SIZE E \<le> length mr" and "length bm = length mr - METAROOT_HEADER_SIZE E"
  defines "mr' \<equiv> take (METAROOT_HEADER_SIZE E) mr @ bm"
  shows "mr_abEntries E mr' = bm" and "length mr' = length mr"
    and "mr_ulFreeBlocks mr' = mr_ulFreeBlocks mr" and "mr_ulAllocNextBlock E mr' = mr_ulAllocNextBlock E mr"
  using assms by (simp_all add: mr_abEntries_def mr_ulFreeBlocks_def mr_ulAllocNextBlock_def get32_take mr_offsets
      NODEHEADER_SIZE_def)

lemma RedImapIBlockGet_ok:
  assumes "imapi_ok E s" and "\<not> imap_range_invalid b s" and "bMR \<le> 1"
  shows "RedImapIBlockGet E bMR b s = Some (Inr (ibit E s bMR b), s)"
  using assms by (simp add: RedImapIBlockGet_def imapi_ok_def Let_def ibit_def not_less)

text \<open>What a write of a bit does; everything but the entries of the working metaroot stays.\<close>

lemma RedImapIBlockSet_effect:
  assumes ok: "imapi_ok E s" and run: "RedImapIBlockSet E b v s = Some (r, t)"
  shows "(r = Inr () \<and> \<not> imap_range_invalid b s \<and> ibit E s (cv_bCurMR (gpRedCoreVol s)) b \<noteq> v \<and>
      (\<exists>bm. t = upd_MR (\<lambda>mr. take (METAROOT_HEADER_SIZE E) mr @ bm) s \<and>
        bm = bit_put (mr_abEntries E (gpRedMR s)) (b - cv_ulInodeTableStartBN (gpRedCoreVol s)) v)) \<or>
    (\<exists>e. r = Inl e \<and> (t = s \<or> t = upd_vol (vol_fReadOnly_update (\<lambda>_. True)) s))"
proof (cases "\<not> cv_fImapInline (gpRedCoreVol s) \<or> imap_range_invalid b s \<or>
    ibit E s (cv_bCurMR (gpRedCoreVol s)) b = v")
  case True
  with run show ?thesis
    by (auto simp: RedImapIBlockSet_def Let_def ibit_def gpRedMR_def thenE_Inr [OF CRITICAL_ERROR_app]
        split: if_splits)
next
  case False
  let ?o = "b - cv_ulInodeTableStartBN (gpRedCoreVol s)" and ?bm = "mr_abEntries E (gpRedMR s)"
  let ?f = "mr_upd_abEntries E (\<lambda>m. if v then RedBitSet m ?o else RedBitClear m ?o)"
  have "ibit E s (cv_bCurMR (gpRedCoreVol s)) b = RedBitGet (Some ?bm) ?o"
    by (simp add: ibit_def gpRedMR_def)
  with False run have r: "r = Inr ()" and t: "t = upd_MR ?f s"
    by (cases v; simp add: RedImapIBlockSet_def Let_def)+
  have "upd_MR f s = upd_MR g s" if "f (gpRedMR s) = g (gpRedMR s)" for f g
    using that by (simp add: upd_MR_def upd_aMR_def upd_cv_def gpRedMR_def)
  from this [of ?f "\<lambda>mr. take (METAROOT_HEADER_SIZE E) mr @ bit_put ?bm ?o v"]
  have "upd_MR ?f s = upd_MR (\<lambda>mr. take (METAROOT_HEADER_SIZE E) mr @ bit_put ?bm ?o v) s"
    by (simp add: mr_upd_abEntries_def RedBitSet_put RedBitClear_put)
  note t = trans [OF t this]
  with False r show ?thesis by blast
qed

lemma RedImapIBlockSet_ok:
  assumes ok: "imapi_ok E s" and run: "RedImapIBlockSet E b v s = Some (Inr (), t)"
  defines "cur \<equiv> cv_bCurMR (gpRedCoreVol s)"
  shows "imapi_ok E t" and "gpRedVolume t = gpRedVolume s"
    and "cv_aMR (gpRedCoreVol t) (other_MR s) = cv_aMR (gpRedCoreVol s) (other_MR s)"
    and "gpRedCoreVol t\<lparr>cv_aMR := cv_aMR (gpRedCoreVol s)\<rparr> = gpRedCoreVol s"
    and "gBufCtx t = gBufCtx s" and "gbRedVolNum t = gbRedVolNum s"
    and "mr_ulFreeBlocks (gpRedMR t) = mr_ulFreeBlocks (gpRedMR s)"
    and "mr_ulAllocNextBlock E (gpRedMR t) = mr_ulAllocNextBlock E (gpRedMR s)"
    and "\<not> imap_range_invalid b s" and "ibit E s cur b \<noteq> v"
    and "\<And>c. ibit E t cur c = (if c = b then v else ibit E s cur c)"
    and "\<And>c. ibit E t (other_MR s) c = ibit E s (other_MR s) c"
proof -
  let ?bm = "bit_put (mr_abEntries E (gpRedMR s)) (b - cv_ulInodeTableStartBN (gpRedCoreVol s)) v"
  from RedImapIBlockSet_effect [OF ok run] have
    t: "t = upd_MR (\<lambda>mr. take (METAROOT_HEADER_SIZE E) mr @ ?bm) s" and rng: "\<not> imap_range_invalid b s"
    and old: "ibit E s cur b \<noteq> v" by (auto simp: cur_def)
  have c1: "cur \<le> 1" and e: "env_ok E" using ok by (simp_all add: imapi_ok_def Let_def cur_def)
  have len: "length (gpRedMR s) = BSIZE E" unfolding gpRedMR_def by (rule imapi_length [OF ok c1 [unfolded cur_def]])
  have bl: "length ?bm = length (gpRedMR s) - METAROOT_HEADER_SIZE E" by (simp add: mr_abEntries_def)
  note pe = mr_put_entries [OF _ bl, unfolded len, OF header_fits [OF e]]
  have cv: "gpRedCoreVol t = (gpRedCoreVol s)\<lparr>cv_aMR := (cv_aMR (gpRedCoreVol s))
      (cur := take (METAROOT_HEADER_SIZE E) (gpRedMR s) @ ?bm)\<rparr>"
    by (simp add: t upd_MR_def cur_def gpRedMR_def)
  have mr: "gpRedMR t = take (METAROOT_HEADER_SIZE E) (gpRedMR s) @ ?bm" by (simp add: t)
  note om = other_MR_cases [OF c1 [unfolded cur_def], folded cur_def]
  show v: "gpRedVolume t = gpRedVolume s" "gBufCtx t = gBufCtx s" "gbRedVolNum t = gbRedVolNum s"
    by (simp_all add: t)
  show "cv_aMR (gpRedCoreVol t) (other_MR s) = cv_aMR (gpRedCoreVol s) (other_MR s)"
    using om by (simp add: cv)
  show "gpRedCoreVol t\<lparr>cv_aMR := cv_aMR (gpRedCoreVol s)\<rparr> = gpRedCoreVol s" by (simp add: cv)
  show "mr_ulFreeBlocks (gpRedMR t) = mr_ulFreeBlocks (gpRedMR s)"
    "mr_ulAllocNextBlock E (gpRedMR t) = mr_ulAllocNextBlock E (gpRedMR s)"
    unfolding mr using pe(3,4) by simp_all
  show "imapi_ok E t" using ok pe(2) by (auto simp: imapi_ok_def Let_def cv v)
  show "\<not> imap_range_invalid b s" "ibit E s cur b \<noteq> v" by (fact rng old)+
  have val: "bit_valid (mr_abEntries E (gpRedMR s)) (b - cv_ulInodeTableStartBN (gpRedCoreVol s))"
    unfolding gpRedMR_def by (rule imapi_bit_valid [OF ok rng c1 [unfolded cur_def]])
  show "ibit E t cur c = (if c = b then v else ibit E s cur c)" for c
    using bm.get_put [OF val, of v "c - cv_ulInodeTableStartBN (gpRedCoreVol s)"] pe(1)
    by (simp add: ibit_def cv gpRedMR_def [symmetric] cur_def [symmetric])
      (simp add: gpRedMR_def cur_def)
  show "ibit E t (other_MR s) c = ibit E s (other_MR s) c" for c
    using om by (simp add: ibit_def cv)
qed

section \<open>Properties\<close>

definition ifree :: "'d env \<Rightarrow> 'd fs \<Rightarrow> u32 \<Rightarrow> bool" where
  "ifree E s b \<longleftrightarrow> cv_ulFirstAllocableBN (gpRedCoreVol s) \<le> b \<and> b < vol_ulBlockCount (gpRedVolume s) \<and>
     \<not> ibit E s (cv_bCurMR (gpRedCoreVol s)) b \<and> \<not> ibit E s (other_MR s) b"

text \<open>
  A successful write of a block's bit in the inline imap is read back by
  \<^verbatim>\<open>RedImapIBlockGet\<close>; the bit of every other block, and every bit of the committed state,
  read as before the write.
\<close>

theorem imap_inline_set_get:
  assumes "imapi_ok E s" and "RedImapIBlockSet E b v s = Some (Inr (), t)"
    and "\<not> imap_range_invalid c s" and "m \<le> 1"
  shows "RedImapIBlockGet E m c t =
    Some (Inr (if m = cv_bCurMR (gpRedCoreVol s) \<and> c = b then v else ibit E s m c), t)"
proof -
  note ok = RedImapIBlockSet_ok [OF assms(1,2)]
  have cv: "cv_ulInodeTableStartBN (gpRedCoreVol t) = cv_ulInodeTableStartBN (gpRedCoreVol s)"
    using arg_cong [OF ok(4), of cv_ulInodeTableStartBN] by simp
  have rng: "\<not> imap_range_invalid c t" using assms(3) by (simp add: imap_range_invalid_def ok(2) cv)
  have cur: "cv_bCurMR (gpRedCoreVol s) \<le> 1" using assms(1) by (simp add: imapi_ok_def Let_def)
  have "m = cv_bCurMR (gpRedCoreVol s) \<or> m = other_MR s"
    using assms(4) cur by (auto simp: u8_le_1 other_MR_def)
  then have "ibit E t m c = (if m = cv_bCurMR (gpRedCoreVol s) \<and> c = b then v else ibit E s m c)"
    using ok(11,12) [of c] other_MR_cases [OF cur] by auto
  then show ?thesis using RedImapIBlockGet_ok [OF ok(1) rng assms(4)] by simp
qed

definition the_view :: "'d env \<Rightarrow> 'd fs \<Rightarrow> imap_view" where
  "the_view E s = (let cv = gpRedCoreVol s in
     \<lparr>iv_cur = mr_abEntries E (cv_aMR cv (cv_bCurMR cv)), iv_cmt = mr_abEntries E (cv_aMR cv (other_MR s)),
      iv_tbl = cv_ulInodeTableStartBN cv, iv_first = cv_ulFirstAllocableBN cv,
      iv_count = vol_ulBlockCount (gpRedVolume s)\<rparr>)"

lemma the_view_ok: "imapi_ok E s \<Longrightarrow> cv_ulFirstAllocableBN (gpRedCoreVol s) < vol_ulBlockCount (gpRedVolume s) \<Longrightarrow>
    vok (the_view E s)"
  by (simp add: vok_def the_view_def imapi_ok_def Let_def)

lemma ifree_view: "ifree E s b = free (the_view E s) b"
  by (simp add: ifree_def free_def the_view_def ibit_def Let_def)

lemma RedImapIBlockFindFree_view:
  assumes "imapi_ok E s" and "cv_ulFirstAllocableBN (gpRedCoreVol s) \<le> b" and "b < vol_ulBlockCount (gpRedVolume s)"
  shows "RedImapIBlockFindFree E b s = (case srch (the_view E s) b b of None \<Rightarrow> None | Some r \<Rightarrow> Some (r, s))"
  using assms by (auto simp: RedImapIBlockFindFree_def the_view_def imapi_ok_def Let_def not_less not_le
      split: option.split)

lemma find_free_found:
  assumes "imapi_ok E s" and "ifree E s x"
    and "cv_ulFirstAllocableBN (gpRedCoreVol s) \<le> b" and "b < vol_ulBlockCount (gpRedVolume s)"
  shows "\<exists>f. RedImapIBlockFindFree E b s = Some (Inr f, s) \<and> ifree E s f \<and>
    (if b \<le> f then \<forall>y. b \<le> y \<and> y < f \<longrightarrow> \<not> ifree E s y
     else (\<forall>y. b \<le> y \<longrightarrow> \<not> ifree E s y) \<and> (\<forall>y < f. \<not> ifree E s y))"
proof -
  have "vok (the_view E s)" using assms by (intro the_view_ok) auto
  moreover have "iv_first (the_view E s) \<le> b" "b < iv_count (the_view E s)"
    using assms by (simp_all add: the_view_def Let_def)
  moreover have "free (the_view E s) x" using assms(2) by (simp add: ifree_view)
  ultimately obtain f where "srch (the_view E s) b b = Some (Inr f)" "free (the_view E s) f"
    and "if b \<le> f then \<forall>y. b \<le> y \<and> y < f \<longrightarrow> \<not> free (the_view E s) y
      else (\<forall>y. b \<le> y \<longrightarrow> \<not> free (the_view E s) y) \<and> (\<forall>y < f. \<not> free (the_view E s) y)"
    by (rule search_complete)
  then show ?thesis
    by (intro exI [of _ f]) (simp add: RedImapIBlockFindFree_view [OF assms(1,3,4)] ifree_view)
qed

text \<open>
  C26. When a block is free in the working and in the committed state, the search of the
  inline imap returns, leaves the state alone, and finds the first such block at or after
  the given one, going round from the last block to the first allocable one.
\<close>

theorem imap_inline_find_free:
  assumes "imapi_ok E s" and "ifree E s x"
    and "cv_ulFirstAllocableBN (gpRedCoreVol s) \<le> b" and "b < vol_ulBlockCount (gpRedVolume s)"
  shows "\<exists>f. RedImapIBlockFindFree E b s = Some (Inr f, s) \<and> ifree E s f \<and>
    (if b \<le> f then \<forall>y. b \<le> y \<and> y < f \<longrightarrow> \<not> ifree E s y
     else (\<forall>y. b \<le> y \<longrightarrow> \<not> ifree E s y) \<and> (\<forall>y < f. \<not> ifree E s y))"
  by (rule find_free_found [OF assms])

text \<open>
  C27. The search can go round for ever: when every allocable block is in use in the working
  state and the search begins strictly inside a byte of the bitmap that is all ones, the
  step over whole bytes passes the block where the search began, so that the loop's exit
  test never holds and the error \<^verbatim>\<open>RED_ENOSPC\<close> is never returned.
\<close>

theorem imap_inline_find_free_diverges:
  assumes "imapi_ok E s"
    and "\<And>c. cv_ulFirstAllocableBN (gpRedCoreVol s) \<le> c \<Longrightarrow> c < vol_ulBlockCount (gpRedVolume s) \<Longrightarrow>
      ibit E s (cv_bCurMR (gpRedCoreVol s)) c"
    and "cv_ulFirstAllocableBN (gpRedCoreVol s) \<le> a" and "a < b" and "unat b < unat a + 8"
    and "b < vol_ulBlockCount (gpRedVolume s)"
    and "(a - cv_ulInodeTableStartBN (gpRedCoreVol s)) AND 7 = 0"
    and "mr_abEntries E (gpRedMR s) ! unat (drop_bit 3 (a - cv_ulInodeTableStartBN (gpRedCoreVol s))) = 0xFF"
  shows "RedImapIBlockFindFree E b s = None"
proof -
  have b: "cv_ulFirstAllocableBN (gpRedCoreVol s) \<le> b" using assms(3,4) by simp
  have "vok (the_view E s)" using assms(6) b by (intro the_view_ok [OF assms(1)]) simp
  then have "srch (the_view E s) b b = None"
    by (rule search_diverges [where a = a])
      (use assms(2-8) in \<open>simp_all add: the_view_def Let_def ibit_def full_def gpRedMR_def\<close>)
  then show ?thesis by (simp add: RedImapIBlockFindFree_view [OF assms(1) b assms(6)])
qed

section \<open>Instances\<close>

text \<open>The concrete volume with metaroots whose bytes are all the same.\<close>

definition demo_imap :: "u8 \<Rightarrow> ramdisk fs" where
  "demo_imap x = upd_cv (\<lambda>cv. cv\<lparr>cv_aMR := \<lambda>_. replicate 128 x\<rparr>) (demo_fs demo_disk)"

lemma demo_imap_simps [simp]:
  "gpRedCoreVol (demo_imap x) = demo_corevol\<lparr>cv_aMR := \<lambda>_. replicate 128 x\<rparr>"
  "gpRedVolume (demo_imap x) = demo_volume" "gBufCtx (demo_imap x) = demo_buffers"
  "gbRedVolNum (demo_imap x) = 0" "gpRedMR (demo_imap x) = replicate 128 x"
  by (simp_all add: demo_imap_def gpRedMR_def)

lemma demo_corevol_simps [simp]:
  "cv_fImapInline demo_corevol" "cv_ulInodeTableStartBN demo_corevol = 3"
  "cv_ulFirstAllocableBN demo_corevol = 7" "cv_bCurMR demo_corevol = 0"
  "cv_ulInodeCount demo_corevol = 2" "cv_ulAlmostFreeBlocks demo_corevol = 0"
  by (simp_all add: demo_corevol_def)

lemma demo_metaroot_header: "METAROOT_HEADER_SIZE demo_env = 32"
  by (simp add: METAROOT_HEADER_SIZE_def NODEHEADER_SIZE_def demo_env_def)

lemma demo_imapi_ok: "imapi_ok demo_env (demo_imap x)"
  by (simp add: imapi_ok_def demo_env_ok METAROOT_ENTRY_BYTES_def demo_metaroot_header)

lemma demo_other_MR [simp]: "other_MR (demo_imap x) = 1"
  by (simp add: other_MR_def)

lemma demo_ibit: "3 \<le> b \<Longrightarrow> b < 16 \<Longrightarrow> ibit demo_env (demo_imap x) m b = bit x (7 - unat (b - 3) mod 8)"
proof -
  assume b: "3 \<le> b" "b < 16"
  then have "unat (b - 3) < 16" by (simp add: unat_sub_le word_less_nat_alt)
  then have "unat (b - 3) div 8 < 96" by simp
  then show ?thesis
    by (simp add: ibit_def mr_abEntries_def demo_metaroot_header RedBitGet_bit)
qed

theorem imap_inline_set_get_witness:
  "\<exists>t. RedImapIBlockSet demo_env 9 True (demo_imap 0) = Some (Inr (), t) \<and>
    RedImapIBlockGet demo_env 0 9 t = Some (Inr True, t) \<and>
    RedImapIBlockGet demo_env 0 10 t = Some (Inr False, t) \<and>
    RedImapIBlockGet demo_env 1 9 t = Some (Inr False, t)"
proof -
  have "\<not> ibit demo_env (demo_imap 0) 0 9" by (simp add: demo_ibit)
  then have "\<exists>t. RedImapIBlockSet demo_env 9 True (demo_imap 0) = Some (Inr (), t)"
    by (simp add: RedImapIBlockSet_def Let_def imap_range_invalid_def ibit_def)
  then obtain t where t: "RedImapIBlockSet demo_env 9 True (demo_imap 0) = Some (Inr (), t)" by blast
  from imap_inline_set_get [OF demo_imapi_ok t, of 9 0] imap_inline_set_get [OF demo_imapi_ok t, of 10 0]
    imap_inline_set_get [OF demo_imapi_ok t, of 9 1] t
  show ?thesis by (auto simp: imap_range_invalid_def demo_ibit)
qed

theorem imap_inline_find_free_witness:
  "\<exists>f. RedImapIBlockFindFree demo_env 9 (demo_imap 0) = Some (Inr f, demo_imap 0) \<and>
     ifree demo_env (demo_imap 0) f"
proof -
  have "ifree demo_env (demo_imap 0) 12" by (simp add: ifree_def demo_ibit)
  from imap_inline_find_free [OF demo_imapi_ok this, of 9] show ?thesis by auto
qed

theorem imap_inline_find_free_diverges_witness:
  "RedImapIBlockFindFree demo_env 12 (demo_imap 0xFF) = None"
proof (rule imap_inline_find_free_diverges [OF demo_imapi_ok, where a = 11])
  have "(0xFF :: u8) = - 1" by simp
  moreover have "bit (- 1 :: u8) (7 - unat (c - 3) mod 8)" for c :: u32
    unfolding bit_minus_1_iff possible_bit_word by simp
  ultimately show "ibit demo_env (demo_imap 0xFF) (cv_bCurMR (gpRedCoreVol (demo_imap 0xFF))) c"
    if "cv_ulFirstAllocableBN (gpRedCoreVol (demo_imap 0xFF)) \<le> c"
      "c < vol_ulBlockCount (gpRedVolume (demo_imap 0xFF))" for c
    using that demo_ibit [of c "0xFF"] by (simp only:) (simp add: word_le_nat_alt)
qed (simp_all add: mr_abEntries_def demo_metaroot_header)

end
