(* ===== verification/Red_BufferHit.thy ===== *)
theory Red_BufferHit
  imports Red_BufferUse
begin

text \<open>
  A block that has been got stays in the cache, with its content, until another get evicts
  it: what a client wrote into a buffer it put back is what the next get of the block shows.
\<close>

definition cached :: "'d env \<Rightarrow> u32 \<Rightarrow> u16 \<Rightarrow> u8 \<Rightarrow> 'd fs \<Rightarrow> bool" where
  "cached E b m i s \<longleftrightarrow> unat i < NBUF E \<and> bh_ulBlock (head_of i s) = b \<and>
     bh_bVolNum (head_of i s) = gbRedVolNum s \<and> b < vol_ulBlockCount (gpRedVolume s) \<and>
     bh_uFlags (head_of i s) AND BFLAG_META_MASK = m"

lemma cached_find:
  assumes inv: "buf_inv E s" and c: "cached E b m i s"
  shows "BufferFind E b s = Some i"
proof (cases "BufferFind E b s")
  case None
  then show ?thesis using BufferFind_None [OF None, of "unat i"] c by (simp add: cached_def head_of_def)
next
  case (Some j)
  note f = BufferFind_Some [OF Some]
  have "b \<noteq> BBLK_INVALID" using f(4) by (rule block_count_not_invalid)
  then have "unat j = unat i" using f c
    by (intro buf_inv_uniq [OF inv]) (simp_all add: cached_def same_block_def head_of_def)
  with Some show ?thesis using unsigned_word_eqI by blast
qed

lemma get_hit:
  assumes inv: "buf_inv E s" and c: "cached E b (fl AND BFLAG_META_MASK) i s"
    and fl: "fl AND BFLAG_NEW = 0" "\<not> buffer_get_invalid b fl s"
  shows "RedBufferGet E b fl s = Some (Inr (BIDX2BUF E i), buffer_reference E i fl s)"
  using cached_find [OF inv c] c fl
  by (simp add: RedBufferGet_def buffer_get_idx_def cached_def bindE_Inr)

lemma buffer_reference_blocks:
  "unat i < NBUF E \<Longrightarrow> buf_inv E s \<Longrightarrow> buf_at E p (buffer_reference E i fl s) = buf_at E p s"
  using buf_inv_lengths(2) [of E s] by (simp add: buffer_reference_eq) (simp add: buf_at_def)

lemma buffer_reference_frame: "unat i < length (bc_aHead (gBufCtx s)) \<Longrightarrow> buf_frame s (buffer_reference E i fl s)"
  unfolding buffer_reference_eq
  by (intro buf_frame_trans [OF _ make_simps(5)] buf_frame_trans [OF _ upd_used_simps(8)]) simp

lemma meta_flags: "(f AND BFLAG_META_MASK) = (fl AND BFLAG_META_MASK) \<Longrightarrow>
    (f OR (fl AND NOT BFLAG_NEW)) AND BFLAG_META_MASK = fl AND BFLAG_META_MASK"
  "(fl AND NOT BFLAG_NEW) AND BFLAG_META_MASK = fl AND BFLAG_META_MASK"
  "(f OR BFLAG_DIRTY) AND BFLAG_META_MASK = f AND BFLAG_META_MASK"
proof -
  have m: "NOT BFLAG_NEW AND BFLAG_META_MASK = BFLAG_META_MASK" "BFLAG_DIRTY AND BFLAG_META_MASK = 0"
    by (simp_all add: BFLAG_NEW_def BFLAG_DIRTY_def BFLAG_META_MASK_def BFLAG_META_MASTER_def BFLAG_META_IMAP_def
        BFLAG_META_INODE_def BFLAG_META_INDIR_def BFLAG_META_DINDIR_def BFLAG_META_DIRECTORY_def BFLAG_META_def)
  show n: "(fl AND NOT BFLAG_NEW) AND BFLAG_META_MASK = fl AND BFLAG_META_MASK"
    by (simp add: and.assoc m)
  show "(f OR BFLAG_DIRTY) AND BFLAG_META_MASK = f AND BFLAG_META_MASK"
    by (simp add: bit.conj_disj_distrib2 m)
  assume "(f AND BFLAG_META_MASK) = (fl AND BFLAG_META_MASK)"
  then show "(f OR (fl AND NOT BFLAG_NEW)) AND BFLAG_META_MASK = fl AND BFLAG_META_MASK"
    by (simp add: bit.conj_disj_distrib2 n)
qed

lemma get_cached:
  assumes e: "env_ok E" and inv: "buf_inv E s" and g: "RedBufferGet E b fl s = Some (Inr p, t)"
  obtains i where "p = BIDX2BUF E i" and "cached E b (fl AND BFLAG_META_MASK) i t"
proof -
  from g obtain i u where b: "b < vol_ulBlockCount (gpRedVolume s)"
    and gi: "buffer_get_idx E b fl s = Some (Inr i, u)" and t: "t = buffer_reference E i fl u"
    and p: "p = BIDX2BUF E i"
    by (auto simp: RedBufferGet_def buffer_get_invalid_def bindE_Inr_Some not_le split: if_splits)
  note ef = buffer_get_idx_effect [OF e inv b gi]
  have iu: "buf_inv E u" and i: "unat i < NBUF E" and hb: "bh_ulBlock (head_of i u) = b"
    "bh_bVolNum (head_of i u) = gbRedVolNum u" and fr: "buf_frame s u" using ef by simp_all
  have fl: "(bh_uFlags (head_of i u) OR (fl AND NOT BFLAG_NEW)) AND BFLAG_META_MASK = fl AND BFLAG_META_MASK"
  proof (cases "BufferFind E b s")
    case (Some j)
    with gi have "fl AND BFLAG_META_MASK = bh_uFlags (head_of j s) AND BFLAG_META_MASK \<and> j = i \<and> u = s"
      by (auto simp: buffer_get_idx_def thenE_Inr [OF CRITICAL_ERROR_app] split: if_splits)
    then show ?thesis by (intro meta_flags(1)) simp
  next
    case None
    have free: "\<exists>i < NBUF E. bh_bRefCount (bc_aHead (gBufCtx s) ! i) = 0"
      using gi None by (intro free_buffer_exists [OF inv])
        (auto simp: buffer_get_idx_def thenE_Inr [OF CRITICAL_ERROR_app] split: if_splits)
    have "buffer_get_miss E b fl s = Some (Inr i, u)"
      using gi None by (auto simp: buffer_get_idx_def thenE_Inr [OF CRITICAL_ERROR_app] split: if_splits)
    from buffer_get_miss_effect [OF e inv None b free this] have "bh_uFlags (head_of i u) = 0" by auto
    then show ?thesis by (simp add: meta_flags(2))
  qed
  have len: "unat i < length (bc_aHead (gBufCtx u))" using i buf_inv_lengths(2) [OF iu] by simp
  have h: "head_of i t = (head_of i u)\<lparr>bh_bRefCount := bh_bRefCount (head_of i u) + 1,
      bh_uFlags := bh_uFlags (head_of i u) OR (fl AND NOT BFLAG_NEW)\<rparr>"
    unfolding t buffer_reference_eq [OF len] by (simp add: head_of_upd_head [OF len])
  have "vol_ulBlockCount (gpRedVolume t) = vol_ulBlockCount (gpRedVolume s)" "gbRedVolNum t = gbRedVolNum u"
    using buf_frame_globals [OF buf_frame_trans [OF fr buffer_reference_frame [of i u E fl, folded t]]] len
      buf_frame_globals [OF fr] by (simp_all add: t buffer_reference_eq [OF len])
  then have "cached E b (fl AND BFLAG_META_MASK) i t"
    using i hb b fl by (simp add: cached_def h)
  with p show ?thesis by (rule that)
qed

lemma cached_put:
  assumes e: "env_ok E" and inv: "buf_inv E s" and c: "cached E b m i s"
  shows "cached E b m i (RedBufferPut E (BIDX2BUF E i) s)"
    and "buf_at E p (RedBufferPut E (BIDX2BUF E i) s) = buf_at E p s"
proof -
  have i: "unat i < NBUF E" and len: "unat i < length (bc_aHead (gBufCtx s))"
    using c buf_inv_lengths(2) [OF inv] by (simp_all add: cached_def)
  have "b \<noteq> BBLK_INVALID" using c block_count_not_invalid by (auto simp: cached_def)
  then have "BufferToIdx E (BIDX2BUF E i) s = Some i"
    using c by (simp add: BufferToIdx_BIDX2BUF [OF e i] cached_def)
  note eq = RedBufferPut_eq [OF this len]
  show "cached E b m i (RedBufferPut E (BIDX2BUF E i) s)"
    using c unfolding eq by (simp add: cached_def head_of_upd_head [OF len])
  show "buf_at E p (RedBufferPut E (BIDX2BUF E i) s) = buf_at E p s"
    unfolding eq by (simp add: buf_at_def)
qed

lemma cached_upd_buf:
  assumes e: "env_ok E" and inv: "buf_inv E s" and c: "cached E b m i s"
  shows "cached E b m i (upd_buf E p f s)" and "buf_at E (BIDX2BUF E i) (upd_buf E (BIDX2BUF E i) f s) =
    f (buf_at E (BIDX2BUF E i) s)"
  using c buf_inv_lengths(3) [OF inv] by (simp_all add: cached_def head_of_def) (simp add: buf_at_def upd_buf_def e)

lemma cached_branch:
  assumes e: "env_ok E" and inv: "buf_inv E s" and c: "cached E b m i s"
    and new: "b' < vol_ulBlockCount (gpRedVolume s)"
  shows "cached E b' m i (RedBufferBranch E (BIDX2BUF E i) b' s)"
    and "buf_at E p (RedBufferBranch E (BIDX2BUF E i) b' s) = buf_at E p s"
proof -
  have i: "unat i < NBUF E" and len: "unat i < length (bc_aHead (gBufCtx s))"
    using c buf_inv_lengths(2) [OF inv] by (simp_all add: cached_def)
  have "b \<noteq> BBLK_INVALID" using c block_count_not_invalid by (auto simp: cached_def)
  then have "BufferToIdx E (BIDX2BUF E i) s = Some i"
    using c by (simp add: BufferToIdx_BIDX2BUF [OF e i] cached_def)
  then have "RedBufferBranch E (BIDX2BUF E i) b' s =
      upd_head i (\<lambda>h. h\<lparr>bh_uFlags := bh_uFlags h OR BFLAG_DIRTY, bh_ulBlock := b'\<rparr>) s"
    using new by (simp add: RedBufferBranch_def not_le)
  with new c show "cached E b' m i (RedBufferBranch E (BIDX2BUF E i) b' s)"
    "buf_at E p (RedBufferBranch E (BIDX2BUF E i) b' s) = buf_at E p s"
    by (simp_all add: cached_def head_of_upd_head [OF len] meta_flags(3)) (simp add: buf_at_def)
qed

end
