(* ===== verification/Red_ImapExtern.thy ===== *)
theory Red_ImapExtern
  imports Red_ImapInline Red_BufferHit
begin

text \<open>
  The external imap of \<^verbatim>\<open>core/driver/imapextern.c\<close>: the allocation bitmap of a large volume,
  kept in nodes of their own, each of which has two block locations; the bits of the
  metaroots say which of the two the working and the committed state use. Its operations
  work on buffers of the cache, and the lemmas show that none of them leaves a buffer
  referenced.
\<close>

section \<open>The operations\<close>

definition IMAPNODEIDX_IS_VALID :: "'d env \<Rightarrow> u32 \<Rightarrow> 'd fs \<Rightarrow> bool" where
  "IMAPNODEIDX_IS_VALID E imapnode s \<longleftrightarrow>
     imapnode < min (cv_ulImapNodeCount (gpRedCoreVol s)) (METAROOT_ENTRIES E)"

definition RedImapNodeBlock :: "'d env \<Rightarrow> u8 \<Rightarrow> u32 \<Rightarrow> 'd fs \<Rightarrow> u32" where
  "RedImapNodeBlock E bMR ulImapNode s =
     (let ulBlock = cv_ulImapStartBN (gpRedCoreVol s) + ulImapNode * 2
      in if bMR > 1 \<or> \<not> IMAPNODEIDX_IS_VALID E ulImapNode s then ulBlock
         else if RedBitGet (Some (mr_abEntries E (cv_aMR (gpRedCoreVol s) bMR))) ulImapNode then ulBlock + 1
         else ulBlock)"

definition ImapNodeIsBranched :: "'d env \<Rightarrow> u32 \<Rightarrow> 'd fs \<Rightarrow> bool" where
  "ImapNodeIsBranched E ulImapNode s \<longleftrightarrow> IMAPNODEIDX_IS_VALID E ulImapNode s \<and>
     RedBitGet (Some (mr_abEntries E (cv_aMR (gpRedCoreVol s) 0))) ulImapNode \<noteq>
     RedBitGet (Some (mr_abEntries E (cv_aMR (gpRedCoreVol s) 1))) ulImapNode"

definition toggle_bit :: "u32 \<Rightarrow> bytes option \<Rightarrow> bytes option" where
  "toggle_bit ulBit m = (if RedBitGet m ulBit then RedBitClear m ulBit else RedBitSet m ulBit)"

definition imap_node_flip :: "'d env \<Rightarrow> u32 \<Rightarrow> ('d, nat) op" where
  "imap_node_flip E ulImapNode =
     thenE (modE (upd_MR (mr_upd_abEntries E (toggle_bit ulImapNode))))
       (bindE (getE (\<lambda>s. RedImapNodeBlock E (cv_bCurMR (gpRedCoreVol s)) ulImapNode s)) (\<lambda>ulBlockCurrent.
        bindE (getE (\<lambda>s. RedImapNodeBlock E (other_MR s) ulImapNode s)) (\<lambda>ulBlockOld.
        thenE (RedBufferDiscardRange E ulBlockCurrent 1)
          (bindE (RedBufferGet E ulBlockOld BFLAG_META_IMAP) (\<lambda>pImap.
           thenE (modE (RedBufferBranch E pImap ulBlockCurrent)) (okE pImap))))))"

definition ImapNodeBranch :: "'d env \<Rightarrow> u32 \<Rightarrow> ('d, nat) op" where
  "ImapNodeBranch E ulImapNode = (\<lambda>s.
     if \<not> IMAPNODEIDX_IS_VALID E ulImapNode s then errE RED_EINVAL s
     else if ImapNodeIsBranched E ulImapNode s then
       RedBufferGet E (RedImapNodeBlock E (cv_bCurMR (gpRedCoreVol s)) ulImapNode s)
         (BFLAG_META_IMAP OR BFLAG_DIRTY) s
     else imap_node_flip E ulImapNode s)"

text \<open>The node and the index in it of a block.\<close>

definition imap_offset :: "u32 \<Rightarrow> 'd fs \<Rightarrow> u32" where
  "imap_offset ulBlock s = ulBlock - cv_ulInodeTableStartBN (gpRedCoreVol s)"

definition imap_node :: "'d env \<Rightarrow> u32 \<Rightarrow> 'd fs \<Rightarrow> u32" where
  "imap_node E ulBlock s = imap_offset ulBlock s div IMAPNODE_ENTRIES E"

definition imap_index :: "'d env \<Rightarrow> u32 \<Rightarrow> 'd fs \<Rightarrow> u32" where
  "imap_index E ulBlock s = imap_offset ulBlock s mod IMAPNODE_ENTRIES E"

definition im_bit :: "'d env \<Rightarrow> nat \<Rightarrow> u32 \<Rightarrow> 'd fs \<Rightarrow> bool" where
  "im_bit E pImap ulImapIdx s = RedBitGet (Some (im_abEntries (buf_at E pImap s))) ulImapIdx"

definition im_upd_abEntries :: "(bytes option \<Rightarrow> bytes option) \<Rightarrow> bytes \<Rightarrow> bytes" where
  "im_upd_abEntries f im = take IMAPNODE_HEADER_SIZE im @ the (f (Some (im_abEntries im)))"

definition RedImapEBlockGet :: "'d env \<Rightarrow> u8 \<Rightarrow> u32 \<Rightarrow> ('d, bool) op" where
  "RedImapEBlockGet E bMR ulBlock = (\<lambda>s.
     if cv_fImapInline (gpRedCoreVol s) \<or> bMR > 1 \<or> imap_range_invalid ulBlock s then errE RED_EINVAL s
     else
       let ulImapNode = imap_node E ulBlock s;
           bMRToRead = (if bMR = other_MR s \<and> \<not> ImapNodeIsBranched E ulImapNode s then 1 - bMR else bMR)
       in bindE (RedBufferGet E (RedImapNodeBlock E bMRToRead ulImapNode s) BFLAG_META_IMAP) (\<lambda>pImap.
            finallyE (getE (im_bit E pImap (imap_index E ulBlock s))) (modE (RedBufferPut E pImap))) s)"

definition imape_write_bit :: "'d env \<Rightarrow> nat \<Rightarrow> u32 \<Rightarrow> bool \<Rightarrow> ('d, unit) op" where
  "imape_write_bit E pImap ulImapEntry fAllocated =
     bindE (getE (im_bit E pImap ulImapEntry)) (\<lambda>bit.
       if bit = fAllocated then thenE CRITICAL_ERROR (errE RED_EFUBAR)
       else if fAllocated then modE (upd_buf E pImap (im_upd_abEntries (\<lambda>m. RedBitSet m ulImapEntry)))
       else modE (upd_buf E pImap (im_upd_abEntries (\<lambda>m. RedBitClear m ulImapEntry))))"

definition RedImapEBlockSet :: "'d env \<Rightarrow> u32 \<Rightarrow> bool \<Rightarrow> ('d, unit) op" where
  "RedImapEBlockSet E ulBlock fAllocated = (\<lambda>s.
     if cv_fImapInline (gpRedCoreVol s) \<or> imap_range_invalid ulBlock s then errE RED_EINVAL s
     else bindE (ImapNodeBranch E (imap_node E ulBlock s)) (\<lambda>pImap.
       finallyE (imape_write_bit E pImap (imap_index E ulBlock s) fAllocated)
         (modE (RedBufferPut E pImap))) s)"

text \<open>
  The loop of the search for a free block. \<open>pImap\<close> is the buffer of the working copy of the
  node of the previous block, if it is still held. An error leaves the loop with \<open>pImap\<close>
  null, since a failed \<^verbatim>\<open>RedBufferGet\<close> stores nothing.
\<close>

definition imape_load :: "'d env \<Rightarrow> u32 \<Rightarrow> u32 \<Rightarrow> nat option \<Rightarrow> ('d, nat) op" where
  "imape_load E ulImapNode ulPrevImapNode pImap =
     (case pImap of
        Some p \<Rightarrow>
          if ulImapNode \<noteq> ulPrevImapNode then
            thenE (modE (RedBufferPut E p))
              (bindE (getE (\<lambda>s. RedImapNodeBlock E (cv_bCurMR (gpRedCoreVol s)) ulImapNode s)) (\<lambda>b.
               RedBufferGet E b BFLAG_META_IMAP))
          else okE p
      | None \<Rightarrow>
          bindE (getE (\<lambda>s. RedImapNodeBlock E (cv_bCurMR (gpRedCoreVol s)) ulImapNode s)) (\<lambda>b.
          RedBufferGet E b BFLAG_META_IMAP))"

text \<open>
  One turn of the loop: \<open>Inl b\<close> when block \<open>b\<close> was found free, otherwise the next block and
  the node buffer that is still held.
\<close>

definition imape_try :: "'d env \<Rightarrow> u32 \<Rightarrow> u32 \<Rightarrow> nat \<Rightarrow> ('d, u32 + (u32 \<times> nat option)) op" where
  "imape_try E ulSearchBlock ulImapNode pImap =
     bindE (getE (imap_index E ulSearchBlock)) (\<lambda>ulImapIdx.
     bindE (getE (\<lambda>s. ulImapIdx AND 7 = 0 \<and>
         im_abEntries (buf_at E pImap s) ! unat (drop_bit 3 ulImapIdx) = 0xFF)) (\<lambda>full.
     if full then
       bindE (getE (\<lambda>s. vol_ulBlockCount (gpRedVolume s))) (\<lambda>n.
       okE (Inr (ulSearchBlock + min 8 (n - ulSearchBlock), Some pImap)))
     else bindE (getE (im_bit E pImap ulImapIdx)) (\<lambda>used.
       if used then okE (Inr (ulSearchBlock + 1, Some pImap))
       else thenE (modE (RedBufferPut E pImap))
         (bindE (getE (\<lambda>s. RedImapNodeBlock E (other_MR s) ulImapNode s)) (\<lambda>b.
          bindE (RedBufferGet E b BFLAG_META_IMAP) (\<lambda>pCommitted.
          bindE (getE (im_bit E pCommitted ulImapIdx)) (\<lambda>was_used.
          thenE (modE (RedBufferPut E pCommitted))
            (if \<not> was_used then okE (Inl ulSearchBlock)
             else okE (Inr (ulSearchBlock + 1, None))))))))))"

definition put_opt :: "'d env \<Rightarrow> nat option \<Rightarrow> 'd fs \<Rightarrow> 'd fs" where
  "put_opt E pImap s = (case pImap of None \<Rightarrow> s | Some p \<Rightarrow> RedBufferPut E p s)"

definition imape_turn :: "'d env \<Rightarrow> u32 \<Rightarrow> nat option \<Rightarrow> u32 \<Rightarrow> ('d, u32 + (u32 \<times> u32 \<times> nat option)) op" where
  "imape_turn E ulPrevImapNode pImap ulSearchBlock =
     bindE (getE (imap_node E ulSearchBlock)) (\<lambda>ulImapNode.
     bindE (imape_load E ulImapNode ulPrevImapNode pImap) (\<lambda>p.
     bindE (imape_try E ulSearchBlock ulImapNode p) (\<lambda>found.
       case found of
         Inl b \<Rightarrow> okE (Inl b)
       | Inr (b, held) \<Rightarrow>
           bindE (getE (\<lambda>s. if b = vol_ulBlockCount (gpRedVolume s)
             then cv_ulFirstAllocableBN (gpRedCoreVol s) else b)) (\<lambda>b.
           okE (Inr (ulImapNode, b, held))))))"

partial_function (option) imape_search ::
    "'d env \<Rightarrow> u32 \<Rightarrow> u32 \<Rightarrow> nat option \<Rightarrow> u32 \<Rightarrow> 'd fs \<Rightarrow> ((rederr + u32) \<times> 'd fs) option" where
  "imape_search E ulBlock ulPrevImapNode pImap ulSearchBlock s =
     (case imape_turn E ulPrevImapNode pImap ulSearchBlock s of
        None \<Rightarrow> None
      | Some (Inl e, t) \<Rightarrow> Some (Inl e, t)
      | Some (Inr (Inl b), t) \<Rightarrow> Some (Inr b, t)
      | Some (Inr (Inr (node, b, held)), t) \<Rightarrow>
          if b \<noteq> ulBlock then imape_search E ulBlock node held b t
          else Some (Inl RED_ENOSPC, put_opt E held t))"

definition RedImapEBlockFindFree :: "'d env \<Rightarrow> u32 \<Rightarrow> ('d, u32) op" where
  "RedImapEBlockFindFree E ulBlock = (\<lambda>s.
     if cv_fImapInline (gpRedCoreVol s) \<or> ulBlock < cv_ulFirstAllocableBN (gpRedCoreVol s) \<or>
        ulBlock \<ge> vol_ulBlockCount (gpRedVolume s)
     then errE RED_EINVAL s
     else imape_search E ulBlock 0 None ulBlock s)"

section \<open>The node of the working state\<close>

lemma upd_MR_cv: "gpRedCoreVol (upd_MR f s) = (gpRedCoreVol s)\<lparr>cv_aMR := (cv_aMR (gpRedCoreVol s))
    (cv_bCurMR (gpRedCoreVol s) := f (gpRedMR s))\<rparr>"
  by (simp add: upd_MR_def gpRedMR_def)

lemma BSIZE_le: "env_ok E \<Longrightarrow> BSIZE E \<le> 65536"
proof -
  assume e: "env_ok E"
  then have "BLOCK_SIZE_P2 E \<le> 16" by (simp add: env_ok_def)
  then have "(2 :: nat) ^ BLOCK_SIZE_P2 E \<le> 2 ^ 16" by (intro power_increasing) simp_all
  then show ?thesis by (simp add: BSIZE_pow [OF e])
qed

text \<open>The volume keeps its metaroots at their size, and one of the two is current.\<close>

definition ext_ok :: "'d env \<Rightarrow> 'd fs \<Rightarrow> bool" where
  "ext_ok E s \<longleftrightarrow> buf_ok E s \<and> cv_bCurMR (gpRedCoreVol s) \<le> 1 \<and>
     length (cv_aMR (gpRedCoreVol s) 0) = BSIZE E \<and> length (cv_aMR (gpRedCoreVol s) 1) = BSIZE E"

lemma ext_ok_frame: "ext_ok E s \<Longrightarrow> buf_frame s t \<Longrightarrow> buf_inv E t \<Longrightarrow> ext_ok E t"
  by (simp add: ext_ok_def buf_ok_def buf_frame_def gpRedCoreVol_def)

lemma RedBufferGet_uncached:
  assumes e: "env_ok E" and inv: "buf_inv E s" and g: "RedBufferGet E b fl s = Some (Inr p, t)"
    and c: "uncached E c s" and ne: "c \<noteq> b"
  shows "uncached E c t"
proof -
  from g obtain i u where b: "b < vol_ulBlockCount (gpRedVolume s)"
    and gi: "buffer_get_idx E b fl s = Some (Inr i, u)" and t: "t = buffer_reference E i fl u"
    by (auto simp: RedBufferGet_def buffer_get_invalid_def bindE_Inr_Some not_le split: if_splits)
  note ef = buffer_get_idx_effect [OF e inv b gi]
  then have iu: "buf_inv E u" and v: "gbRedVolNum u = gbRedVolNum s" by (simp_all add: buf_frame_globals)
  have u: "uncached E c u"
    unfolding uncached_def
  proof (intro allI impI)
    fix j assume j: "j < NBUF E" and vj: "bh_bVolNum (bc_aHead (gBufCtx u) ! j) = gbRedVolNum u"
    let ?j = "word_of_nat j :: u8"
    have uj: "unat ?j = j" by (rule word_of_nat_u8 [OF j])
    show "bh_ulBlock (bc_aHead (gBufCtx u) ! j) \<noteq> c"
    proof (cases "?j = i")
      case True
      then show ?thesis using ef ne uj by (auto simp: head_of_def)
    next
      case False
      have "head_of ?j u = head_of ?j s"
        using ef touches_head_of [OF inv, of i u ?j] j False by (auto simp: uj head_of_def)
      then show ?thesis using c j vj v by (simp add: uncached_def head_of_def uj)
    qed
  qed
  have len: "unat i < length (bc_aHead (gBufCtx u))" using ef buf_inv_lengths(2) [OF iu] by simp
  have "bh_ulBlock (bc_aHead (gBufCtx t) ! j) = bh_ulBlock (bc_aHead (gBufCtx u) ! j) \<and>
    bh_bVolNum (bc_aHead (gBufCtx t) ! j) = bh_bVolNum (bc_aHead (gBufCtx u) ! j)" if "j < NBUF E" for j
    using that len buf_inv_lengths(2) [OF iu]
    by (cases "j = unat i") (simp_all add: t buffer_reference_eq [OF len] head_of_def)
  with u show ?thesis by (simp add: uncached_def t buffer_reference_eq [OF len])
qed

text \<open>The bits of the two metaroots say where the two copies of a node are.\<close>

lemma node_block_differs:
  assumes "IMAPNODEIDX_IS_VALID E n s" and "ImapNodeIsBranched E n s" and "cv_bCurMR (gpRedCoreVol s) \<le> 1"
  shows "RedImapNodeBlock E (cv_bCurMR (gpRedCoreVol s)) n s \<noteq> RedImapNodeBlock E (other_MR s) n s"
  using assms by (auto simp: RedImapNodeBlock_def ImapNodeIsBranched_def other_MR_def u8_le_1 Let_def)

lemma toggle_put: "toggle_bit n (Some bm) = Some (bit_put bm n (\<not> RedBitGet (Some bm) n))"
  by (simp only: toggle_bit_def RedBitSet_put RedBitClear_put) simp

lemma ext_ok_length:
  assumes "ext_ok E s" and "m \<le> 1"
  shows "length (cv_aMR (gpRedCoreVol s) m) = BSIZE E"
  using assms by (auto simp: ext_ok_def u8_le_1)

lemma node_bit_valid:
  assumes ok: "ext_ok E s" and n: "IMAPNODEIDX_IS_VALID E n s" and m: "m \<le> 1"
  shows "bit_valid (mr_abEntries E (cv_aMR (gpRedCoreVol s) m)) n"
proof -
  have "n < METAROOT_ENTRIES E" using n by (simp add: IMAPNODEIDX_IS_VALID_def)
  then have "unat n < unat (METAROOT_ENTRIES E)" by (simp add: word_less_nat_alt)
  also have "\<dots> \<le> METAROOT_ENTRY_BYTES E * 8" unfolding METAROOT_ENTRIES_def unat_of_nat by simp
  finally show ?thesis
    by (simp add: bit_valid_def mr_abEntries_def ext_ok_length [OF ok m] METAROOT_ENTRY_BYTES_def mult.commute)
qed

lemma flip_branches:
  assumes ok: "ext_ok E s" and n: "IMAPNODEIDX_IS_VALID E n s" and nb: "\<not> ImapNodeIsBranched E n s"
  defines "t \<equiv> upd_MR (mr_upd_abEntries E (toggle_bit n)) s"
  shows "ext_ok E t" and "ImapNodeIsBranched E n t" and "IMAPNODEIDX_IS_VALID E n t"
    and "gBufCtx t = gBufCtx s" and "gbRedVolNum t = gbRedVolNum s"
proof -
  let ?m = "cv_bCurMR (gpRedCoreVol s)"
  let ?bm = "mr_abEntries E (gpRedMR s)"
  let ?bm' = "bit_put ?bm n (\<not> RedBitGet (Some ?bm) n)"
  let ?mr = "take (METAROOT_HEADER_SIZE E) (gpRedMR s) @ ?bm'"
  have m: "?m \<le> 1" and e: "env_ok E" using ok by (simp_all add: ext_ok_def buf_ok_def)
  have len: "length (gpRedMR s) = BSIZE E" unfolding gpRedMR_def by (rule ext_ok_length [OF ok m])
  have bl: "length ?bm' = length (gpRedMR s) - METAROOT_HEADER_SIZE E" by (simp add: mr_abEntries_def)
  note pe = mr_put_entries [OF _ bl, unfolded len, OF header_fits [OF e]]
  have cv: "gpRedCoreVol t = (gpRedCoreVol s)\<lparr>cv_aMR := (cv_aMR (gpRedCoreVol s))(?m := ?mr)\<rparr>"
    by (simp add: t_def upd_MR_def gpRedMR_def mr_upd_abEntries_def toggle_put)
  have g: "gBufCtx t = gBufCtx s" "gbRedVolNum t = gbRedVolNum s" by (simp_all add: t_def)
  then show "gBufCtx t = gBufCtx s" "gbRedVolNum t = gbRedVolNum s" by simp_all
  show "ext_ok E t" using ok pe by (auto simp: ext_ok_def buf_ok_def buf_inv_def cv g)
  show n': "IMAPNODEIDX_IS_VALID E n t" using n by (simp add: IMAPNODEIDX_IS_VALID_def cv)
  have "bit_valid ?bm n" unfolding gpRedMR_def by (rule node_bit_valid [OF ok n m])
  then have "RedBitGet (Some ?bm') n \<noteq> RedBitGet (Some ?bm) n" by (simp only: RedBitGet_bit_put) simp
  moreover have "RedBitGet (Some (mr_abEntries E (cv_aMR (gpRedCoreVol s) 0))) n =
      RedBitGet (Some (mr_abEntries E (cv_aMR (gpRedCoreVol s) 1))) n"
    using nb n unfolding ImapNodeIsBranched_def by blast
  moreover have "?m = 0 \<or> ?m = 1" using m by (simp add: u8_le_1)
  ultimately show "ImapNodeIsBranched E n t"
    using n' pe(1) by (auto simp del: RedBitGet.simps simp: ImapNodeIsBranched_def cv gpRedMR_def)
qed

section \<open>References to the buffers\<close>

lemma ext_get_pins:
  assumes ok: "ext_ok E s" and small: "\<forall>p. buf_pins E s p < 255" and g: "RedBufferGet E b fl s = Some (r, t)"
  shows "ext_ok E t \<and> (case r of Inl e \<Rightarrow> buf_pins E t = buf_pins E s
    | Inr p \<Rightarrow> buf_pins E t = (buf_pins E s)(p := Suc (buf_pins E s p)))"
proof -
  have "env_ok E" "buf_inv E s" using ok by (simp_all add: ext_ok_def buf_ok_def)
  from RedBufferGet_pins [OF this small g] show ?thesis using ext_ok_frame [OF ok] by blast
qed

lemma absent_uncached:
  assumes "absent_upto E b 1 (NBUF E) s" and "b < vol_ulBlockCount (gpRedVolume s)"
  shows "uncached E b s"
proof -
  have b: "b \<noteq> BBLK_INVALID" by (rule block_count_not_invalid [OF assms(2)])
  have "unat b + 1 < 2 ^ 32" using assms(2) unsigned_less [of "vol_ulBlockCount (gpRedVolume s)", where 'a = nat]
    by (simp add: word_less_nat_alt)
  then have "b < b + 1" by (simp add: word_less_nat_alt unat_word_ariths)
  with assms(1) b show ?thesis by (auto simp: absent_upto_def uncached_def in_range_def)
qed

lemma imap_node_flip_pins:
  assumes ok: "ext_ok E s" and n: "IMAPNODEIDX_IS_VALID E n s" and nb: "\<not> ImapNodeIsBranched E n s"
    and small: "\<forall>p. buf_pins E s p < 255" and run: "imap_node_flip E n s = Some (r, t)"
  shows "ext_ok E t \<and> (case r of Inl e \<Rightarrow> buf_pins E t = buf_pins E s
    | Inr p \<Rightarrow> buf_pins E t = (buf_pins E s)(p := Suc (buf_pins E s p)))"
proof -
  define u where "u = upd_MR (mr_upd_abEntries E (toggle_bit n)) s"
  note u = flip_branches [OF ok n nb, folded u_def]
  let ?cur = "RedImapNodeBlock E (cv_bCurMR (gpRedCoreVol u)) n u" and ?old = "RedImapNodeBlock E (other_MR u) n u"
  have ne: "?cur \<noteq> ?old" using u(1) by (intro node_block_differs u) (simp add: ext_ok_def)
  have e: "env_ok E" and iu: "buf_inv E u" using u(1) by (simp_all add: ext_ok_def buf_ok_def)
  have pu: "buf_pins E u = buf_pins E s" by (rule buf_pins_same_ctx [OF u(4,5)])
  from run have run': "thenE (RedBufferDiscardRange E ?cur 1) (bindE (RedBufferGet E ?old BFLAG_META_IMAP)
      (\<lambda>p. thenE (modE (RedBufferBranch E p ?cur)) (okE p))) u = Some (r, t)"
    by (simp add: imap_node_flip_def u_def)
  then show ?thesis
  proof (cases rule: thenE_eq_SomeE)
    case (err x)
    have "ext_ok E t" using RedBufferDiscardRange_effect [OF iu err(1)] ext_ok_frame [OF u(1)] by blast
    then show ?thesis using RedBufferDiscardRange_pins [OF e iu err(1)] pu err(2) by simp
  next
    case (ok x w)
    note dw = RedBufferDiscardRange_effect [OF iu ok(1)]
    have w: "ext_ok E w" using dw ext_ok_frame [OF u(1)] by blast
    then have iw: "buf_inv E w" by (simp add: ext_ok_def buf_ok_def)
    have pw: "buf_pins E w = buf_pins E s" using RedBufferDiscardRange_pins [OF e iu ok(1)] pu by simp
    have un: "uncached E ?cur w"
    proof (rule absent_uncached)
      show "absent_upto E ?cur 1 (NBUF E) w" using dw by simp
      have "?cur < vol_ulBlockCount (gpRedVolume u)"
        using ok(1) by (auto simp: RedBufferDiscardRange_def buffer_range_invalid_def split: if_splits)
      then show "?cur < vol_ulBlockCount (gpRedVolume w)" 
        using buf_frame_globals [OF conjunct1 [OF dw]] by simp
    qed
    from ok(2) show ?thesis
    proof (cases rule: bindE_eq_SomeE)
      case (err x)
      from ext_get_pins [OF w _ err(1)] small pw err(2) show ?thesis by simp
    next
      case (ok p v)
      have v: "ext_ok E v" "buf_pins E v = (buf_pins E s)(p := Suc (buf_pins E s p))"
        using ext_get_pins [OF w _ ok(1)] small pw by simp_all
      have "uncached E ?cur v" by (rule RedBufferGet_uncached [OF e iw ok(1) un ne])
      from RedBufferBranch_pins [OF e _ this] v have "buf_inv E (RedBufferBranch E p ?cur v)"
        "buf_frame v (RedBufferBranch E p ?cur v)" "buf_pins E (RedBufferBranch E p ?cur v) = buf_pins E v"
        by (simp_all add: ext_ok_def buf_ok_def)
      with ok(2) v ext_ok_frame [OF v(1)] show ?thesis by auto
    qed
  qed
qed

lemma ImapNodeBranch_pins:
  assumes ok: "ext_ok E s" and small: "\<forall>p. buf_pins E s p < 255" and run: "ImapNodeBranch E n s = Some (r, t)"
  shows "ext_ok E t \<and> (case r of Inl e \<Rightarrow> buf_pins E t = buf_pins E s
    | Inr p \<Rightarrow> buf_pins E t = (buf_pins E s)(p := Suc (buf_pins E s p)))"
proof -
  consider "\<not> IMAPNODEIDX_IS_VALID E n s" | "IMAPNODEIDX_IS_VALID E n s" "ImapNodeIsBranched E n s"
    | "IMAPNODEIDX_IS_VALID E n s" "\<not> ImapNodeIsBranched E n s" by blast
  then show ?thesis
  proof cases
    case 1
    then show ?thesis using run ok by (auto simp: ImapNodeBranch_def)
  next
    case 2
    then show ?thesis using run by (intro ext_get_pins [OF ok small]) (simp add: ImapNodeBranch_def)
  next
    case 3
    then show ?thesis using run by (intro imap_node_flip_pins [OF ok 3 small]) (simp add: ImapNodeBranch_def)
  qed
qed

text \<open>
  The external imap is a client of the pool of buffers, and gets its buffers in two ways: by
  the block and by the node that is to be changed.
\<close>

definition imap_get :: "'d env \<Rightarrow> u32 \<times> u16 + u32 \<Rightarrow> ('d, nat) op" where
  "imap_get E k = (case k of Inl (b, fl) \<Rightarrow> RedBufferGet E b fl | Inr n \<Rightarrow> ImapNodeBranch E n)"

interpretation ipool: buffer_pool "ext_ok E" "buf_pins E" "imap_get E" "RedBufferPut E"
proof
  fix s :: "'a fs" and t k p e
  assume ok: "ext_ok E s"
  have get: "ext_ok E t \<and> (case r of Inl e \<Rightarrow> buf_pins E t = buf_pins E s
    | Inr p \<Rightarrow> buf_pins E t = (buf_pins E s)(p := Suc (buf_pins E s p)))"
    if "\<forall>p. buf_pins E s p < 255" "imap_get E k s = Some (r, t)" for r
  proof (cases k)
    case (Inl x)
    then show ?thesis using that
      by (intro ext_get_pins [OF ok that(1), of "fst x" "snd x"]) (simp add: imap_get_def split: prod.splits)
  next
    case (Inr n)
    then show ?thesis using that by (intro ImapNodeBranch_pins [OF ok that(1), of n]) (simp add: imap_get_def)
  qed
  show "ext_ok E t \<and> buf_pins E t = (buf_pins E s)(p := Suc (buf_pins E s p))"
    if "\<forall>p. buf_pins E s p < 255" "imap_get E k s = Some (Inr p, t)" using get [OF that] by simp
  show "ext_ok E t \<and> buf_pins E t = buf_pins E s"
    if "\<forall>p. buf_pins E s p < 255" "imap_get E k s = Some (Inl e, t)" using get [OF that] by simp
  show "ext_ok E (RedBufferPut E p s) \<and> buf_pins E (RedBufferPut E p s) = (buf_pins E s)(p := buf_pins E s p - 1)"
    if "0 < buf_pins E s p"
    using RedBufferPut_pins [OF _ _ that] ok ext_ok_frame [OF ok] by (auto simp: ext_ok_def buf_ok_def)
qed

lemma imap_get_simps: "imap_get E (Inl (b, fl)) = RedBufferGet E b fl" "imap_get E (Inr n) = ImapNodeBranch E n"
  by (rule ext, simp add: imap_get_def)+

lemma ext_critical_bal: "ipool.bal E n CRITICAL_ERROR"
  unfolding CRITICAL_ERROR_def
proof (rule ipool.bal_modE)
  fix s :: "'a fs" assume "ext_ok E s"
  then show "ext_ok E (upd_vol (vol_fReadOnly_update (\<lambda>_. True)) s) \<and>
      buf_pins E (upd_vol (vol_fReadOnly_update (\<lambda>_. True)) s) = buf_pins E s"
    by (auto simp: ext_ok_def buf_ok_def buf_inv_def intro!: buf_pins_same_ctx)
qed

lemma ext_upd_buf_bal:
  assumes len: "\<And>b. length b = BSIZE E \<Longrightarrow> length (f b) = BSIZE E"
  shows "ipool.bal E n (modE (upd_buf E p f))"
proof (rule ipool.bal_modE)
  fix s assume ok: "ext_ok E s"
  then have "env_ok E" "buf_inv E s" by (simp_all add: ext_ok_def buf_ok_def)
  from upd_buf_pins [OF this, of f p] len ext_ok_frame [OF ok]
  show "ext_ok E (upd_buf E p f s) \<and> buf_pins E (upd_buf E p f s) = buf_pins E s" by blast
qed

lemma im_upd_length:
  assumes "IMAPNODE_HEADER_SIZE \<le> length b"
  shows "length (im_upd_abEntries (\<lambda>m. RedBitSet m i) b) = length b"
    and "length (im_upd_abEntries (\<lambda>m. RedBitClear m i) b) = length b"
  using assms by (simp_all only: im_upd_abEntries_def RedBitSet_put RedBitClear_put option.sel) 
    (simp_all add: im_abEntries_def)

lemma imape_write_bit_bal: "env_ok E \<Longrightarrow> ipool.bal E n (imape_write_bit E p i v)"
proof -
  assume e: "env_ok E"
  have h: "IMAPNODE_HEADER_SIZE \<le> BSIZE E"
    using BSIZE_ge [OF e] by (simp add: IMAPNODE_HEADER_SIZE_def NODEHEADER_SIZE_def)
  show ?thesis
    unfolding imape_write_bit_def
    by (intro ipool.bal_rules ext_critical_bal ext_upd_buf_bal) (simp_all add: im_upd_length h)
qed

text \<open>The two operations are brackets of a get and a put.\<close>

lemma RedImapEBlockGet_bal: "ipool.bal E 1 (RedImapEBlockGet E m b)"
proof (rule ipool.balI)
  fix s r t
  assume ok: "ext_ok E s" and room: "\<forall>p. buf_pins E s p + 1 < 256" and run: "RedImapEBlockGet E m b s = Some (r, t)"
  have br: "ipool.bal E (Suc 0) (bindE (RedBufferGet E c fl)
      (\<lambda>p. finallyE (getE (im_bit E p i)) (modE (RedBufferPut E p))))" for c fl i
    unfolding imap_get_simps [symmetric] by (intro ipool.bal_bracket ipool.bal_return)
  show "ext_ok E t \<and> buf_pins E t = buf_pins E s"
  proof (cases "cv_fImapInline (gpRedCoreVol s) \<or> m > 1 \<or> imap_range_invalid b s")
    case True
    with run ok show ?thesis by (auto simp: RedImapEBlockGet_def)
  next
    case False
    let ?n = "imap_node E b s"
    let ?m = "if m = other_MR s \<and> \<not> ImapNodeIsBranched E ?n s then 1 - m else m"
    from False run have "bindE (RedBufferGet E (RedImapNodeBlock E ?m ?n s) BFLAG_META_IMAP)
        (\<lambda>p. finallyE (getE (im_bit E p (imap_index E b s))) (modE (RedBufferPut E p))) s = Some (r, t)"
      by (simp add: RedImapEBlockGet_def Let_def)
    from ipool.balD [OF br ok _ this] room show ?thesis by simp
  qed
qed

lemma RedImapEBlockSet_bal: "ipool.bal E 1 (RedImapEBlockSet E b v)"
proof (rule ipool.balI)
  fix s r t
  assume ok: "ext_ok E s" and room: "\<forall>p. buf_pins E s p + 1 < 256" and run: "RedImapEBlockSet E b v s = Some (r, t)"
  have e: "env_ok E" using ok by (simp add: ext_ok_def buf_ok_def)
  have br: "ipool.bal E (Suc 0) (bindE (ImapNodeBranch E n)
      (\<lambda>p. finallyE (imape_write_bit E p i v) (modE (RedBufferPut E p))))" for n i
    unfolding imap_get_simps [symmetric] by (intro ipool.bal_bracket imape_write_bit_bal e)
  show "ext_ok E t \<and> buf_pins E t = buf_pins E s"
  proof (cases "cv_fImapInline (gpRedCoreVol s) \<or> imap_range_invalid b s")
    case True
    with run ok show ?thesis by (auto simp: RedImapEBlockSet_def)
  next
    case False
    with run have "bindE (ImapNodeBranch E (imap_node E b s))
        (\<lambda>p. finallyE (imape_write_bit E p (imap_index E b s) v) (modE (RedBufferPut E p))) s = Some (r, t)"
      by (simp add: RedImapEBlockSet_def)
    from ipool.balD [OF br ok _ this] room show ?thesis by simp
  qed
qed

section \<open>The search\<close>

text \<open>The references while the loop holds a buffer, on top of those from before.\<close>

definition holding :: "(nat \<Rightarrow> nat) \<Rightarrow> nat option \<Rightarrow> nat \<Rightarrow> nat" where
  "holding P h = (case h of None \<Rightarrow> P | Some p \<Rightarrow> P(p := Suc (P p)))"

lemma holding_simps [simp]: "holding P None = P" "holding P (Some p) = P(p := Suc (P p))"
  by (simp_all add: holding_def)

lemma ext_put:
  assumes "ext_ok E s" and "buf_pins E s = P(p := Suc (P p))"
  shows "ext_ok E (RedBufferPut E p s) \<and> buf_pins E (RedBufferPut E p s) = P"
  using ipool.put_ok [OF assms(1), of p] assms(2) by simp

lemma ext_get:
  assumes "ext_ok E s" and "buf_pins E s = P" and "\<forall>p. P p < 255" and "RedBufferGet E b fl s = Some (r, t)"
  shows "ext_ok E t \<and> buf_pins E t = (case r of Inl _ \<Rightarrow> P | Inr p \<Rightarrow> P(p := Suc (P p)))"
  using ext_get_pins [OF assms(1) _ assms(4)] assms(2,3) by (auto split: sum.splits)

lemma imape_load_pins:
  assumes ok: "ext_ok E s" and pin: "buf_pins E s = holding P h" and small: "\<forall>p. P p < 255"
    and run: "imape_load E n prev h s = Some (r, t)"
  shows "ext_ok E t \<and> buf_pins E t = (case r of Inl _ \<Rightarrow> P | Inr p \<Rightarrow> holding P (Some p))"
proof (cases h)
  case None
  with pin have p: "buf_pins E s = P" by simp
  from None run have "RedBufferGet E (RedImapNodeBlock E (cv_bCurMR (gpRedCoreVol s)) n s) BFLAG_META_IMAP s = Some (r, t)"
    by (simp add: imape_load_def)
  from ext_get [OF ok p small this] show ?thesis by (simp split: sum.splits)
next
  case (Some p)
  note put = ext_put [OF ok, of P p]
  show ?thesis
  proof (cases "n = prev")
    case True
    with Some run pin ok show ?thesis by (auto simp: imape_load_def)
  next
    case False
    from put pin Some have w: "ext_ok E (RedBufferPut E p s)" "buf_pins E (RedBufferPut E p s) = P" by simp_all
    from False Some run have "RedBufferGet E (RedImapNodeBlock E (cv_bCurMR (gpRedCoreVol (RedBufferPut E p s))) n
        (RedBufferPut E p s)) BFLAG_META_IMAP (RedBufferPut E p s) = Some (r, t)" by (simp add: imape_load_def)
    from ext_get [OF w small this] show ?thesis by (simp split: sum.splits)
  qed
qed

lemma imape_try_pins:
  assumes ok: "ext_ok E s" and pin: "buf_pins E s = holding P (Some p)" and small: "\<forall>p. P p < 255"
    and run: "imape_try E b n p s = Some (r, t)"
  shows "ext_ok E t \<and> buf_pins E t = (case r of Inr (Inr (c, h)) \<Rightarrow> holding P h | _ \<Rightarrow> P)"
proof -
  let ?i = "imap_index E b s"
  let ?full = "?i AND 7 = 0 \<and> im_abEntries (buf_at E p s) ! unat (drop_bit 3 ?i) = 0xFF"
  show ?thesis
  proof (cases "?full \<or> im_bit E p ?i s")
    case True
    then obtain c where "r = Inr (Inr (c, Some p))" "t = s"
      using run by (auto simp: imape_try_def split: if_splits)
    with ok pin show ?thesis by simp
  next
    case False
    let ?w = "RedBufferPut E p s"
    from ext_put [OF ok] pin have w: "ext_ok E ?w" "buf_pins E ?w = P" by simp_all
    from False run have "bindE (RedBufferGet E (RedImapNodeBlock E (other_MR ?w) n ?w) BFLAG_META_IMAP) (\<lambda>q.
        bindE (getE (im_bit E q ?i)) (\<lambda>was_used. thenE (modE (RedBufferPut E q))
          (if \<not> was_used then okE (Inl b) else okE (Inr (b + 1, None))))) ?w = Some (r, t)"
      by (auto simp: imape_try_def)
    then show ?thesis
    proof (cases rule: bindE_eq_SomeE)
      case (err e)
      from ext_get [OF w small err(1)] err(2) show ?thesis by simp
    next
      case (ok q v)
      note g = ext_get [OF w small ok(1)]
      then have "ext_ok E v" "buf_pins E v = P(q := Suc (P q))" by simp_all
      from ext_put [OF this] ok(2) show ?thesis by (auto split: if_splits)
    qed
  qed
qed

lemma imape_turn_pins:
  assumes ok: "ext_ok E s" and pin: "buf_pins E s = holding P h" and small: "\<forall>p. P p < 255"
    and run: "imape_turn E prev h b s = Some (r, t)"
  shows "ext_ok E t \<and> buf_pins E t = (case r of Inr (Inr (n, c, h)) \<Rightarrow> holding P h | _ \<Rightarrow> P)"
proof -
  let ?n = "imap_node E b s"
  from run have "bindE (imape_load E ?n prev h) (\<lambda>p. bindE (imape_try E b ?n p) (\<lambda>found. case found of
      Inl b \<Rightarrow> okE (Inl b)
    | Inr (b, held) \<Rightarrow> bindE (getE (\<lambda>s. if b = vol_ulBlockCount (gpRedVolume s)
        then cv_ulFirstAllocableBN (gpRedCoreVol s) else b)) (\<lambda>b. okE (Inr (?n, b, held))))) s = Some (r, t)"
    by (simp add: imape_turn_def)
  then show ?thesis
  proof (cases rule: bindE_eq_SomeE)
    case (err e)
    from imape_load_pins [OF ok pin small err(1)] err(2) show ?thesis by simp
  next
    case (ok p u)
    from imape_load_pins [OF assms(1) pin small ok(1)]
    have u: "ext_ok E u" "buf_pins E u = holding P (Some p)" by simp_all
    from ok(2) show ?thesis
    proof (cases rule: bindE_eq_SomeE)
      case (err e)
      from imape_try_pins [OF u small err(1)] err(2) show ?thesis by simp
    next
      case (ok found v)
      from imape_try_pins [OF u small ok(1)] ok(2) show ?thesis
        by (cases found) (auto split: prod.splits)
    qed
  qed
qed

lemma put_opt_pins:
  assumes "ext_ok E s" and "buf_pins E s = holding P h"
  shows "ext_ok E (put_opt E h s) \<and> buf_pins E (put_opt E h s) = P"
  using assms ext_put [OF assms(1), of P] by (cases h) (simp_all add: put_opt_def)

text \<open>One unfolding of the loop, \<open>g\<close> being its recursive call.\<close>

lemma search_step:
  assumes "(case imape_turn E prev h b s of
        None \<Rightarrow> None
      | Some (Inl e, t) \<Rightarrow> Some (Inl e, t)
      | Some (Inr (Inl b), t) \<Rightarrow> Some (Inr b, t)
      | Some (Inr (Inr (node, b, held)), t) \<Rightarrow>
          if b \<noteq> st then g E st node held b t
          else Some (Inl RED_ENOSPC, put_opt E held t)) = Some q"
    and ih: "\<And>E st prev h b s q. g E st prev h b s = Some q \<Longrightarrow> \<forall>P. ext_ok E s \<longrightarrow> buf_pins E s = holding P h \<longrightarrow>
      (\<forall>p. P p < 255) \<longrightarrow> ext_ok E (snd q) \<and> buf_pins E (snd q) = P"
    and "ext_ok E s" and "buf_pins E s = holding P h" and "\<forall>p. P p < 255"
  shows "ext_ok E (snd q) \<and> buf_pins E (snd q) = P"
proof -
  from assms(1) obtain r t where turn: "imape_turn E prev h b s = Some (r, t)"
    by (cases "imape_turn E prev h b s") auto
  note ef = imape_turn_pins [OF assms(3-5) turn]
  show ?thesis
  proof (cases "\<exists>n c k. r = Inr (Inr (n, c, k))")
    case False
    with assms(1) ef turn show ?thesis by (auto split: sum.splits prod.splits)
  next
    case True
    then obtain n c k where r: "r = Inr (Inr (n, c, k))" by blast
    with ef have t: "ext_ok E t" "buf_pins E t = holding P k" by simp_all
    show ?thesis
    proof (cases "c = st")
      case True
      with assms(1) turn r put_opt_pins [OF t] show ?thesis by auto
    next
      case False
      with assms(1) turn r have "g E st n k c t = Some q" by simp
      from ih [OF this] t assms(5) show ?thesis by blast
    qed
  qed
qed

lemma imape_search_pins:
  assumes "imape_search E st prev h b s = Some q" and "ext_ok E s" and "buf_pins E s = holding P h"
    and small: "\<forall>p. P p < 255"
  shows "ext_ok E (snd q) \<and> buf_pins E (snd q) = P"
proof -
  have "\<forall>P. ext_ok E s \<longrightarrow> buf_pins E s = holding P h \<longrightarrow> (\<forall>p. P p < 255) \<longrightarrow> ext_ok E (snd q) \<and> buf_pins E (snd q) = P"
    by (rule imape_search.raw_induct [of "\<lambda>E st prev h b s q. \<forall>P. ext_ok E s \<longrightarrow> buf_pins E s = holding P h \<longrightarrow>
        (\<forall>p. P p < 255) \<longrightarrow> ext_ok E (snd q) \<and> buf_pins E (snd q) = P" E st prev h b s q])
      (intro allI impI, rule search_step, assumption+, rule assms(1))
  with assms(2-4) show ?thesis by blast
qed

lemma RedImapEBlockFindFree_bal: "ipool.bal E 1 (RedImapEBlockFindFree E b)"
proof (rule ipool.balI)
  fix s r t
  assume ok: "ext_ok E s" and room: "\<forall>p. buf_pins E s p + 1 < 256" and run: "RedImapEBlockFindFree E b s = Some (r, t)"
  show "ext_ok E t \<and> buf_pins E t = buf_pins E s"
  proof (cases "imape_search E b 0 None b s = Some (r, t)")
    case True
    from imape_search_pins [OF True ok] room show ?thesis by simp
  next
    case False
    with run ok show ?thesis by (auto simp: RedImapEBlockFindFree_def split: if_splits)
  qed
qed

section \<open>What was written is read\<close>

lemma BFLAG_META_IMAP_mask: "BFLAG_META_IMAP AND BFLAG_META_MASK = BFLAG_META_IMAP"
  "(BFLAG_META_IMAP OR BFLAG_DIRTY) AND BFLAG_META_MASK = BFLAG_META_IMAP"
  "BFLAG_META_IMAP AND BFLAG_NEW = 0"
  by (simp_all add: bflag_values)

lemma imap_get_valid: "b < vol_ulBlockCount (gpRedVolume s) \<Longrightarrow> \<not> buffer_get_invalid b BFLAG_META_IMAP s"
  by (simp add: buffer_get_invalid_def bflag_values BFLAG_TYPE_IS_VALID_def IS_POWER_OF_2_def)

lemma node_block_same: "gpRedCoreVol t = gpRedCoreVol s \<Longrightarrow> RedImapNodeBlock E m n t = RedImapNodeBlock E m n s"
  by (simp only: RedImapNodeBlock_def IMAPNODEIDX_IS_VALID_def)

text \<open>A branch changes the working metaroot only.\<close>

definition ext_frame :: "'d fs \<Rightarrow> 'd fs \<Rightarrow> bool" where
  "ext_frame s t \<longleftrightarrow> (\<exists>m. gpRedCoreVol t = (gpRedCoreVol s)\<lparr>cv_aMR := m\<rparr>) \<and>
     vol_ulBlockCount (gpRedVolume t) = vol_ulBlockCount (gpRedVolume s)"

lemma ext_frame_fields:
  assumes "ext_frame s t"
  shows "cv_bCurMR (gpRedCoreVol t) = cv_bCurMR (gpRedCoreVol s)"
    and "cv_fImapInline (gpRedCoreVol t) = cv_fImapInline (gpRedCoreVol s)"
    and "imap_range_invalid b t = imap_range_invalid b s"
    and "imap_node E b t = imap_node E b s" and "imap_index E b t = imap_index E b s"
  using assms by (auto simp: ext_frame_def imap_range_invalid_def imap_node_def imap_index_def imap_offset_def)

lemma ext_frame_same: "gpRedCoreVol t = gpRedCoreVol s \<Longrightarrow>
    vol_ulBlockCount (gpRedVolume t) = vol_ulBlockCount (gpRedVolume s) \<Longrightarrow> ext_frame s t"
  by (auto simp: ext_frame_def intro!: exI [of _ "cv_aMR (gpRedCoreVol s)"])

text \<open>After a branch, the working copy of the node is in the cache.\<close>

lemma ext_get_cached:
  assumes ok: "ext_ok E s" and small: "\<forall>p. buf_pins E s p < 255" and g: "RedBufferGet E b fl s = Some (Inr p, t)"
  obtains i where "p = BIDX2BUF E i" and "cached E b (fl AND BFLAG_META_MASK) i t" and "gpRedCoreVol t = gpRedCoreVol s"
    and "buf_inv E t" and "vol_ulBlockCount (gpRedVolume t) = vol_ulBlockCount (gpRedVolume s)"
proof -
  have e: "env_ok E" "buf_inv E s" using ok by (simp_all add: ext_ok_def buf_ok_def)
  note fr = RedBufferGet_pins [OF e small g]
  from get_cached [OF e g] obtain i where "p = BIDX2BUF E i" "cached E b (fl AND BFLAG_META_MASK) i t" .
  then show ?thesis using fr buf_frame_globals [of s t] by (intro that) simp_all
qed

lemma ImapNodeBranch_cached:
  assumes ok: "ext_ok E s" and small: "\<forall>p. buf_pins E s p < 255" and run: "ImapNodeBranch E n s = Some (Inr p, t)"
  obtains i where "p = BIDX2BUF E i"
    and "cached E (RedImapNodeBlock E (cv_bCurMR (gpRedCoreVol t)) n t) BFLAG_META_IMAP i t" and "ext_frame s t"
proof (cases "ImapNodeIsBranched E n s")
  case True
  then have "RedBufferGet E (RedImapNodeBlock E (cv_bCurMR (gpRedCoreVol s)) n s) (BFLAG_META_IMAP OR BFLAG_DIRTY) s = Some (Inr p, t)"
    using run by (auto simp: ImapNodeBranch_def split: if_splits)
  from ext_get_cached [OF ok small this] obtain i where p: "p = BIDX2BUF E i" and cv: "gpRedCoreVol t = gpRedCoreVol s"
    and c: "cached E (RedImapNodeBlock E (cv_bCurMR (gpRedCoreVol s)) n s)
      ((BFLAG_META_IMAP OR BFLAG_DIRTY) AND BFLAG_META_MASK) i t"
    and vc: "vol_ulBlockCount (gpRedVolume t) = vol_ulBlockCount (gpRedVolume s)" .
  show ?thesis
  proof (rule that [OF p])
    show "cached E (RedImapNodeBlock E (cv_bCurMR (gpRedCoreVol t)) n t) BFLAG_META_IMAP i t"
      using c by (simp add: node_block_same [OF cv] cv BFLAG_META_IMAP_mask)
    show "ext_frame s t" by (rule ext_frame_same [OF cv vc])
  qed
next
  case False
  then have n: "IMAPNODEIDX_IS_VALID E n s" and flip: "imap_node_flip E n s = Some (Inr p, t)"
    using run by (auto simp: ImapNodeBranch_def split: if_splits)
  define u where "u = upd_MR (mr_upd_abEntries E (toggle_bit n)) s"
  note u = flip_branches [OF ok n False, folded u_def]
  let ?cur = "RedImapNodeBlock E (cv_bCurMR (gpRedCoreVol u)) n u" and ?old = "RedImapNodeBlock E (other_MR u) n u"
  have e: "env_ok E" and iu: "buf_inv E u" using u(1) by (simp_all add: ext_ok_def buf_ok_def)
  have pu: "buf_pins E u = buf_pins E s" by (rule buf_pins_same_ctx [OF u(4,5)])
  from flip obtain w v where d: "RedBufferDiscardRange E ?cur 1 u = Some (Inr (), w)"
    and g: "RedBufferGet E ?old BFLAG_META_IMAP w = Some (Inr p, v)" and t: "t = RedBufferBranch E p ?cur v"
    by (auto simp: imap_node_flip_def u_def [symmetric] thenE_Inr_Some bindE_Inr_Some)
  have fw: "buf_frame u w" "buf_inv E w" using RedBufferDiscardRange_effect [OF iu d] by simp_all
  have pw: "buf_pins E w = buf_pins E s" using RedBufferDiscardRange_pins [OF e iu d] pu by simp
  have cnt: "?cur < vol_ulBlockCount (gpRedVolume u)"
    using d by (auto simp: RedBufferDiscardRange_def buffer_range_invalid_def split: if_splits)
  from pw small have "\<forall>p. buf_pins E w p < 255" by simp
  from ext_get_cached [OF ext_ok_frame [OF u(1) fw] this g] obtain i where p: "p = BIDX2BUF E i"
    and c: "cached E ?old (BFLAG_META_IMAP AND BFLAG_META_MASK) i v" and cv: "gpRedCoreVol v = gpRedCoreVol w"
    and iv: "buf_inv E v" and vc: "vol_ulBlockCount (gpRedVolume v) = vol_ulBlockCount (gpRedVolume w)" .
  have "?cur < vol_ulBlockCount (gpRedVolume v)" using cnt vc buf_frame_globals [OF fw(1)] by simp
  from cached_branch(1) [OF e iv c this] have "cached E ?cur BFLAG_META_IMAP i t"
    by (simp add: t p BFLAG_META_IMAP_mask)
  moreover have tu: "gpRedCoreVol t = gpRedCoreVol u" "vol_ulBlockCount (gpRedVolume t) = vol_ulBlockCount (gpRedVolume u)"
    using cv vc buf_frame_globals [OF fw(1)] by (simp_all add: t RedBufferBranch_def split: option.split)
  moreover have "ext_frame s t" using tu by (auto simp: ext_frame_def u_def upd_MR_cv)
  ultimately show ?thesis using p node_block_same [OF tu(1)] by (intro that) simp_all
qed

text \<open>The bits of a node.\<close>

lemma imap_index_valid:
  assumes e: "env_ok E" and len: "length b = BSIZE E"
  shows "bit_valid (im_abEntries b) (imap_index E c s)"
proof -
  have bs: "BSIZE E \<le> 65536" "NODEHEADER_SIZE < BSIZE E" using BSIZE_ge [OF e] BSIZE_le [OF e] by (simp_all add: NODEHEADER_SIZE_def)
  then have n: "unat (IMAPNODE_ENTRIES E) = (BSIZE E - NODEHEADER_SIZE) * 8"
    unfolding IMAPNODE_ENTRIES_def IMAPNODE_ENTRY_BYTES_def IMAPNODE_HEADER_SIZE_def unat_of_nat by simp
  then have "0 < unat (IMAPNODE_ENTRIES E)" using bs by simp
  then have "unat (imap_index E c s) < unat (IMAPNODE_ENTRIES E)" by (simp add: imap_index_def unat_mod)
  with n len show ?thesis by (simp add: bit_valid_def im_abEntries_def IMAPNODE_HEADER_SIZE_def)
qed

lemma im_upd_put: "im_upd_abEntries (\<lambda>m. if v then RedBitSet m i else RedBitClear m i) b =
    take IMAPNODE_HEADER_SIZE b @ bit_put (im_abEntries b) i v"
  by (simp only: im_upd_abEntries_def bit_put_def)

lemma im_put_entries: "IMAPNODE_HEADER_SIZE \<le> length b \<Longrightarrow> im_abEntries (take IMAPNODE_HEADER_SIZE b @ bm) = bm"
  by (simp add: im_abEntries_def)

text \<open>
  The bit that \<^verbatim>\<open>RedImapEBlockSet\<close> wrote is read back, the node being in the cache.
\<close>

lemma ext_set_get:
  assumes ok: "ext_ok E s" and small: "\<forall>p. buf_pins E s p < 255" and run: "RedImapEBlockSet E b v s = Some (Inr (), t)"
  shows "\<exists>u. RedImapEBlockGet E (cv_bCurMR (gpRedCoreVol t)) b t = Some (Inr v, u)"
proof -
  have e: "env_ok E" using ok by (simp add: ext_ok_def buf_ok_def)
  let ?n = "imap_node E b s" and ?i = "imap_index E b s"
  from run obtain p x y where rng: "\<not> cv_fImapInline (gpRedCoreVol s)" "\<not> imap_range_invalid b s"
    and br: "ImapNodeBranch E ?n s = Some (Inr p, x)"
    and wr: "imape_write_bit E p ?i v x = Some (Inr (), y)" and t: "t = RedBufferPut E p y"
    by (auto simp: RedImapEBlockSet_def bindE_Inr_Some finallyE_def statusE_Some_iff split: if_splits)
  obtain i where p: "p = BIDX2BUF E i"
    and c: "cached E (RedImapNodeBlock E (cv_bCurMR (gpRedCoreVol x)) ?n x) BFLAG_META_IMAP i x" and fr: "ext_frame s x"
    by (rule ImapNodeBranch_cached [OF ok small br])
  have x: "ext_ok E x" using ImapNodeBranch_pins [OF ok small br] by simp
  then have ix: "buf_inv E x" by (simp add: ext_ok_def buf_ok_def)
  have xlen: "length (buf_at E p x) = BSIZE E"
    using buf_inv_block_length [OF ix] c by (simp add: p buf_at_def e cached_def)
  let ?f = "im_upd_abEntries (\<lambda>m. if v then RedBitSet m ?i else RedBitClear m ?i)"
  have y: "y = upd_buf E p ?f x"
    using wr by (cases v) (auto simp: imape_write_bit_def thenE_Inr [OF CRITICAL_ERROR_app] split: if_splits)
  have bit: "im_bit E p ?i y = v"
  proof -
    have "IMAPNODE_HEADER_SIZE \<le> length (buf_at E p x)"
      using xlen BSIZE_ge [OF e] by (simp add: IMAPNODE_HEADER_SIZE_def NODEHEADER_SIZE_def)
    then have "im_abEntries (buf_at E p y) = bit_put (im_abEntries (buf_at E p x)) ?i v"
      unfolding y p cached_upd_buf(2) [OF e ix c] im_upd_put by (simp add: im_put_entries)
    then show ?thesis
      by (simp only: im_bit_def RedBitGet_bit_put [OF imap_index_valid [OF e xlen]]) simp
  qed
  have flen: "length b = BSIZE E \<Longrightarrow> length (?f b) = BSIZE E" for b
    using BSIZE_ge [OF e] unfolding im_upd_put by (simp add: im_abEntries_def IMAPNODE_HEADER_SIZE_def NODEHEADER_SIZE_def)
  have iy: "buf_inv E y" unfolding y by (rule upd_buf_pins(1) [OF e ix flen])
  let ?c = "RedImapNodeBlock E (cv_bCurMR (gpRedCoreVol x)) ?n x"
  have cy: "cached E ?c BFLAG_META_IMAP i y" unfolding y by (rule cached_upd_buf(1) [OF e ix c])
  have ct: "cached E ?c BFLAG_META_IMAP i t" unfolding t p by (rule cached_put(1) [OF e iy cy])
  have bt: "buf_at E p t = buf_at E p y" unfolding t p by (rule cached_put(2) [OF e iy cy])
  have tx: "gpRedCoreVol t = gpRedCoreVol x" "vol_ulBlockCount (gpRedVolume t) = vol_ulBlockCount (gpRedVolume x)"
    by (simp_all add: t y RedBufferPut_def Let_def upd_buf_ctx upd_used_def split: option.split)
  have st: "ext_frame s t" using fr tx by (simp add: ext_frame_def)
  note f = ext_frame_fields [OF st]
  have tt: "ext_ok E t" using ipool.balD [OF RedImapEBlockSet_bal ok _ run] small by simp
  then have it: "buf_inv E t" and cur: "cv_bCurMR (gpRedCoreVol t) \<le> 1" by (simp_all add: ext_ok_def buf_ok_def)
  let ?u = "buffer_reference E i BFLAG_META_IMAP t"
  have hit: "RedBufferGet E ?c BFLAG_META_IMAP t = Some (Inr p, ?u)"
    using ct unfolding p by (intro get_hit [OF it]) (simp_all add: BFLAG_META_IMAP_mask imap_get_valid cached_def)
  have "im_bit E p ?i ?u = v"
    using bit ct unfolding im_bit_def by (subst buffer_reference_blocks) (simp_all add: cached_def it bt)
  moreover have "cv_bCurMR (gpRedCoreVol t) \<noteq> other_MR t" "\<not> cv_bCurMR (gpRedCoreVol t) > 1"
    using cur other_MR_cases [OF cur] by (auto simp: not_less)
  ultimately show ?thesis
    using hit rng f node_block_same [OF tx(1), of E "cv_bCurMR (gpRedCoreVol x)" ?n]
    by (simp add: RedImapEBlockGet_def Let_def tx bindE_def finallyE_def statusE_def)
qed

section \<open>Properties\<close>

text \<open>
  C19. No operation of the external imap leaks a buffer: whatever status it returns, and
  however often the loop of the search has put one node and got the next, every buffer has
  as many references afterwards as before, and the cache keeps its invariant.
\<close>

theorem imap_extern_leaks_no_buffer:
  assumes "ext_ok E s" and "\<forall>p. buf_pins E s p < 255"
    and "(\<exists>m r. RedImapEBlockGet E m b s = Some (r, t)) \<or> (\<exists>v r. RedImapEBlockSet E b v s = Some (r, t)) \<or>
      (\<exists>r. RedImapEBlockFindFree E b s = Some (r, t))"
  shows "ext_ok E t \<and> buf_pins E t = buf_pins E s"
proof -
  have room: "\<forall>p. buf_pins E s p + 1 < 256" using assms(2) by simp
  note bals = RedImapEBlockGet_bal RedImapEBlockSet_bal RedImapEBlockFindFree_bal
  from assms(3) show ?thesis by (elim disjE exE) (rule bals [THEN ipool.balD, OF assms(1) room], assumption)+
qed

text \<open>
  A bit of the external imap is read back as it was written, also when the write made
  the working copy of the node by moving the node's buffer to its other block.
\<close>

theorem imap_extern_set_get:
  assumes "ext_ok E s" and "\<forall>p. buf_pins E s p < 255" and "RedImapEBlockSet E b v s = Some (Inr (), t)"
  shows "\<exists>u. RedImapEBlockGet E (cv_bCurMR (gpRedCoreVol t)) b t = Some (Inr v, u)"
  by (rule ext_set_get [OF assms])

section \<open>Instances\<close>

text \<open>
  The concrete volume with an external imap of one node, at the blocks three and four; the
  working copy is in the first of them and in the cache.
\<close>

definition demo_ext :: "ramdisk fs" where
  "demo_ext = upd_head 0 (\<lambda>h. h\<lparr>bh_ulBlock := 3, bh_uFlags := BFLAG_META_IMAP\<rparr>)
     (upd_cv (\<lambda>cv. cv\<lparr>cv_fImapInline := False, cv_ulImapStartBN := 3, cv_ulImapNodeCount := 1,
        cv_ulInodeTableStartBN := 5, cv_aMR := \<lambda>m. replicate 128 (if m = 0 then 0 else 0xFF)\<rparr>)
      (demo_fs demo_disk))"

lemma demo_ext_reads [simp]:
  "gpRedVolume demo_ext = demo_volume" "gbRedVolNum demo_ext = 0"
  "gpRedCoreVol demo_ext = demo_corevol\<lparr>cv_fImapInline := False, cv_ulImapStartBN := 3, cv_ulImapNodeCount := 1,
        cv_ulInodeTableStartBN := 5, cv_aMR := \<lambda>m. replicate 128 (if m = 0 then 0 else 0xFF)\<rparr>"
  "bc_blocks (gBufCtx demo_ext) = replicate 4 (replicate 128 0)"
  by (simp_all add: demo_ext_def demo_buffers_def)

lemma demo_ext_head: "unat i < 4 \<Longrightarrow> head_of i demo_ext = \<lparr>bh_ulBlock = (if i = 0 then 3 else BBLK_INVALID),
    bh_bVolNum = 0, bh_bRefCount = 0, bh_uFlags = (if i = 0 then BFLAG_META_IMAP else 0)\<rparr>"
  by (simp add: demo_ext_def head_of_upd_head_if demo_buffers_def) (simp add: head_of_def demo_buffers_def)

lemma demo_ext_inv: "buf_inv demo_env demo_ext"
proof -
  let ?s = "upd_cv (\<lambda>cv. cv\<lparr>cv_fImapInline := False, cv_ulImapStartBN := 3, cv_ulImapNodeCount := 1,
        cv_ulInodeTableStartBN := 5, cv_aMR := \<lambda>m. replicate 128 (if m = 0 then 0 else 0xFF)\<rparr>) (demo_fs demo_disk)"
  have inv: "buf_inv demo_env ?s" by (rule buf_inv_same_ctx [OF demo_buf_inv [of demo_disk]]) simp
  have "\<not> same_block \<lparr>bh_ulBlock = 3, bh_bVolNum = 0, bh_bRefCount = 0, bh_uFlags = BFLAG_META_IMAP\<rparr>
      (bc_aHead (gBufCtx ?s) ! j)" if "j < 4" for j
    using that by (simp add: demo_buffers_def same_block_def BBLK_INVALID_def)
  then show ?thesis unfolding demo_ext_def
    by (intro buf_inv_same_ref [OF inv]) (simp_all add: head_of_def demo_buffers_def)
qed

lemma demo_ext_ok: "ext_ok demo_env demo_ext"
  by (simp add: ext_ok_def buf_ok_def demo_env_ok demo_ext_inv)

lemma demo_ext_pins: "buf_pins demo_env demo_ext p = 0"
proof (cases "BufferToIdx demo_env p demo_ext")
  case (Some i)
  from BufferToIdx_Some(2) [OF demo_env_ok Some] have "bh_bRefCount (head_of i demo_ext) = 0"
    by (simp add: demo_ext_head)
  with Some show ?thesis by (simp add: buf_pins_def)
qed (simp add: buf_pins_def)

lemma demo_ext_branch:
  "ImapNodeBranch demo_env 0 demo_ext = Some (Inr 0, buffer_reference demo_env 0 (BFLAG_META_IMAP OR BFLAG_DIRTY) demo_ext)"
proof -
  have hd: "METAROOT_ENTRIES demo_env = 768"
    by (simp add: METAROOT_ENTRIES_def METAROOT_ENTRY_BYTES_def demo_metaroot_header)
  have valid: "IMAPNODEIDX_IS_VALID demo_env 0 demo_ext" by (simp add: IMAPNODEIDX_IS_VALID_def hd)
  have "ImapNodeIsBranched demo_env 0 demo_ext"
    using valid by (simp add: ImapNodeIsBranched_def mr_abEntries_def demo_metaroot_header RedBitGet_bit)
  moreover have "RedImapNodeBlock demo_env 0 0 demo_ext = 3"
    using valid by (simp add: RedImapNodeBlock_def mr_abEntries_def demo_metaroot_header RedBitGet_bit)
  moreover have "RedBufferGet demo_env 3 (BFLAG_META_IMAP OR BFLAG_DIRTY) demo_ext =
      Some (Inr (BIDX2BUF demo_env 0), buffer_reference demo_env 0 (BFLAG_META_IMAP OR BFLAG_DIRTY) demo_ext)"
    by (rule get_hit [OF demo_ext_inv])
      (simp_all add: cached_def demo_ext_head bflag_values buffer_get_invalid_def BFLAG_TYPE_IS_VALID_def
        IS_POWER_OF_2_def)
  ultimately show ?thesis using valid by (simp add: ImapNodeBranch_def BIDX2BUF_def)
qed

lemma demo_ext_set: "\<exists>t. RedImapEBlockSet demo_env 9 True demo_ext = Some (Inr (), t)"
proof -
  let ?u = "buffer_reference demo_env 0 (BFLAG_META_IMAP OR BFLAG_DIRTY) demo_ext"
  have n: "imap_node demo_env 9 demo_ext = 0" "imap_index demo_env 9 demo_ext = 4"
    by (simp_all add: imap_node_def imap_index_def imap_offset_def IMAPNODE_ENTRIES_def IMAPNODE_ENTRY_BYTES_def
        IMAPNODE_HEADER_SIZE_def NODEHEADER_SIZE_def)
  have "buf_at demo_env 0 ?u = replicate 128 0"
    by (subst buffer_reference_blocks) (simp_all add: demo_ext_inv, simp add: buf_at_def)
  then have "\<not> im_bit demo_env 0 4 ?u"
    by (simp add: im_bit_def im_abEntries_def IMAPNODE_HEADER_SIZE_def NODEHEADER_SIZE_def RedBitGet_bit)
  then show ?thesis
    by (simp add: RedImapEBlockSet_def n imap_range_invalid_def bindE_def demo_ext_branch finallyE_def statusE_def
        imape_write_bit_def)
qed

theorem imap_extern_leaks_no_buffer_witness:
  "\<exists>t. RedImapEBlockSet demo_env 9 True demo_ext = Some (Inr (), t) \<and> buf_pins demo_env t = buf_pins demo_env demo_ext"
proof -
  obtain t where t: "RedImapEBlockSet demo_env 9 True demo_ext = Some (Inr (), t)" using demo_ext_set by blast
  then have "ext_ok demo_env t \<and> buf_pins demo_env t = buf_pins demo_env demo_ext"
    by (intro imap_extern_leaks_no_buffer [OF demo_ext_ok]) (auto simp: demo_ext_pins)
  with t show ?thesis by blast
qed

theorem imap_extern_set_get_witness:
  "\<exists>t u. RedImapEBlockSet demo_env 9 True demo_ext = Some (Inr (), t) \<and>
     RedImapEBlockGet demo_env (cv_bCurMR (gpRedCoreVol t)) 9 t = Some (Inr True, u)"
proof -
  obtain t where t: "RedImapEBlockSet demo_env 9 True demo_ext = Some (Inr (), t)" using demo_ext_set by blast
  with imap_extern_set_get [OF demo_ext_ok _ t] show ?thesis by (simp add: demo_ext_pins)
qed

end
