(* ===== verification/Red_Imap.thy ===== *)
theory Red_Imap
  imports Red_ImapExtern
begin

text \<open>
  The block map of \<^verbatim>\<open>core/driver/imap.c\<close>: the dispatch to the inline or the external imap,
  the counters of free and almost free blocks, and the allocation of a block.
\<close>

section \<open>The operations\<close>

definition imap_is_inline :: "'d env \<Rightarrow> 'd fs \<Rightarrow> bool" where
  "imap_is_inline E s =
     (if REDCONF_IMAP_INLINE E \<and> REDCONF_IMAP_EXTERNAL E then cv_fImapInline (gpRedCoreVol s)
      else REDCONF_IMAP_INLINE E)"

definition RedImapBlockGet :: "'d env \<Rightarrow> u8 \<Rightarrow> u32 \<Rightarrow> ('d, bool) op" where
  "RedImapBlockGet E bMR ulBlock = (\<lambda>s.
     if bMR > 1 \<or> imap_range_invalid ulBlock s then errE RED_EINVAL s
     else if imap_is_inline E s then RedImapIBlockGet E bMR ulBlock s
     else RedImapEBlockGet E bMR ulBlock s)"

text \<open>The counters of the working-state metaroot.\<close>

definition set_ulFreeBlocks :: "(u32 \<Rightarrow> u32) \<Rightarrow> 'd fs \<Rightarrow> 'd fs" where
  "set_ulFreeBlocks f = upd_MR (\<lambda>mr. put32 mr_off_ulFreeBlocks (f (mr_ulFreeBlocks mr)) mr)"

definition set_ulAllocNextBlock :: "'d env \<Rightarrow> u32 \<Rightarrow> 'd fs \<Rightarrow> 'd fs" where
  "set_ulAllocNextBlock E v = upd_MR (put32 (mr_off_ulAllocNextBlock E) v)"

definition imap_count_bad :: "u32 \<Rightarrow> bool \<Rightarrow> 'd fs \<Rightarrow> bool" where
  "imap_count_bad ulBlock fAllocated s \<longleftrightarrow>
     ulBlock \<ge> cv_ulFirstAllocableBN (gpRedCoreVol s) \<and>
     (fAllocated \<and> mr_ulFreeBlocks (gpRedMR s) = 0 \<or>
      \<not> fAllocated \<and> mr_ulFreeBlocks (gpRedMR s) \<ge> vol_ulBlocksAllocable (gpRedVolume s))"

text \<open>The bit is changed and the volume is branched, whatever the status.\<close>

definition imap_change :: "'d env \<Rightarrow> u32 \<Rightarrow> bool \<Rightarrow> ('d, unit) op" where
  "imap_change E ulBlock fAllocated = (\<lambda>s.
     if imap_range_invalid ulBlock s then errE RED_EINVAL s
     else if imap_count_bad ulBlock fAllocated s then thenE CRITICAL_ERROR (errE RED_EFUBAR) s
     else finallyE
       (if imap_is_inline E s then RedImapIBlockSet E ulBlock fAllocated
        else RedImapEBlockSet E ulBlock fAllocated)
       (modE (upd_cv (cv_fBranched_update (\<lambda>_. True)))) s)"

text \<open>A status that must be good: an error makes the volume read only and is returned.\<close>

definition critical_if_error :: "('d, 'a) op \<Rightarrow> ('d, 'a) op" where
  "critical_if_error f = statusE f (\<lambda>ret. thenE (CRITICAL_ASSERT (is_ok ret)) (returnE ret))"

definition imap_count :: "'d env \<Rightarrow> u32 \<Rightarrow> bool \<Rightarrow> ('d, unit) op" where
  "imap_count E ulBlock fAllocated =
     (if fAllocated then modE (set_ulFreeBlocks (\<lambda>n. n - 1))
      else bindE (critical_if_error (\<lambda>s. RedImapBlockGet E (other_MR s) ulBlock s)) (\<lambda>fWasAllocated.
        if fWasAllocated
        then modE (upd_cv (\<lambda>cv. cv\<lparr>cv_ulAlmostFreeBlocks := cv_ulAlmostFreeBlocks cv + 1\<rparr>))
        else modE (set_ulFreeBlocks (\<lambda>n. n + 1))))"

definition RedImapBlockSet :: "'d env \<Rightarrow> u32 \<Rightarrow> bool \<Rightarrow> ('d, unit) op" where
  "RedImapBlockSet E ulBlock fAllocated =
     thenE (imap_change E ulBlock fAllocated)
       (thenE (if \<not> fAllocated then critical_if_error (RedBufferDiscardRange E ulBlock 1) else okE ())
         (bindE (getE (\<lambda>s. ulBlock \<ge> cv_ulFirstAllocableBN (gpRedCoreVol s))) (\<lambda>allocable.
            if allocable then imap_count E ulBlock fAllocated else okE ())))"

definition RedImapBlockFindFree :: "'d env \<Rightarrow> ('d, u32) op" where
  "RedImapBlockFindFree E = (\<lambda>s.
     if imap_is_inline E s then RedImapIBlockFindFree E (mr_ulAllocNextBlock E (gpRedMR s)) s
     else RedImapEBlockFindFree E (mr_ulAllocNextBlock E (gpRedMR s)) s)"

definition RedImapAllocBlock :: "'d env \<Rightarrow> ('d, u32) op" where
  "RedImapAllocBlock E = (\<lambda>s.
     if mr_ulFreeBlocks (gpRedMR s) = 0 then errE RED_ENOSPC s
     else statusE (RedImapBlockFindFree E) (\<lambda>ret. case ret of
         Inr ulBlock \<Rightarrow>
           thenE (modE (\<lambda>s. set_ulAllocNextBlock E
             (if ulBlock + 1 = vol_ulBlockCount (gpRedVolume s)
              then cv_ulFirstAllocableBN (gpRedCoreVol s) else ulBlock + 1) s))
           (thenE (critical_if_error (RedImapBlockSet E ulBlock True)) (okE ulBlock))
       | Inl e \<Rightarrow>
           if e = RED_ENOSPC then thenE CRITICAL_ERROR (errE RED_EIO) else errE e) s)"

datatype ALLOCSTATE = ALLOCSTATE_FREE | ALLOCSTATE_USED | ALLOCSTATE_NEW | ALLOCSTATE_AFREE

definition RedImapBlockState :: "'d env \<Rightarrow> u32 \<Rightarrow> ('d, ALLOCSTATE) op" where
  "RedImapBlockState E ulBlock = (\<lambda>s.
     if imap_range_invalid ulBlock s then errE RED_EINVAL s
     else bindE (\<lambda>s. RedImapBlockGet E (cv_bCurMR (gpRedCoreVol s)) ulBlock s) (\<lambda>fBitCurrent.
       bindE (\<lambda>s. RedImapBlockGet E (other_MR s) ulBlock s) (\<lambda>fBitOld.
       okE (if fBitCurrent then (if fBitOld then ALLOCSTATE_USED else ALLOCSTATE_NEW)
            else (if fBitOld then ALLOCSTATE_AFREE else ALLOCSTATE_FREE)))) s)"

section \<open>The inline imap with its counters\<close>

text \<open>A change of the header of the working metaroot leaves the bits alone.\<close>

lemma other_MR_upd_MR [simp]: "other_MR (upd_MR f s) = other_MR s"
  by (simp add: other_MR_def upd_MR_cv)

lemma upd_MR_header:
  assumes ok: "imapi_ok E s" and f: "length (f (gpRedMR s)) = length (gpRedMR s)"
    "mr_abEntries E (f (gpRedMR s)) = mr_abEntries E (gpRedMR s)"
  shows "imapi_ok E (upd_MR f s)" and "ibit E (upd_MR f s) m b = ibit E s m b"
proof -
  have len: "length (gpRedMR s) = BSIZE E"
    unfolding gpRedMR_def by (rule imapi_length [OF ok]) (use ok in \<open>simp add: imapi_ok_def Let_def\<close>)
  show "imapi_ok E (upd_MR f s)" using ok f(1) len by (auto simp: imapi_ok_def Let_def upd_MR_cv)
  show "ibit E (upd_MR f s) m b = ibit E s m b"
    using f(2) by (auto simp: ibit_def upd_MR_cv gpRedMR_def)
qed

lemma gpRedMR_length: "imapi_ok E s \<Longrightarrow> length (gpRedMR s) = BSIZE E"
  unfolding gpRedMR_def by (rule imapi_length) (simp_all add: imapi_ok_def Let_def)

lemma mr_header_fields:
  assumes "env_ok E" and "length mr = BSIZE E"
  shows "mr_abEntries E (put32 mr_off_ulFreeBlocks v mr) = mr_abEntries E mr"
    and "mr_abEntries E (put32 (mr_off_ulAllocNextBlock E) v mr) = mr_abEntries E mr"
    and "mr_ulFreeBlocks (put32 mr_off_ulFreeBlocks v mr) = v"
    and "mr_ulFreeBlocks (put32 (mr_off_ulAllocNextBlock E) v mr) = mr_ulFreeBlocks mr"
    and "mr_ulAllocNextBlock E (put32 (mr_off_ulAllocNextBlock E) v mr) = v"
    and "mr_ulAllocNextBlock E (put32 mr_off_ulFreeBlocks v mr) = mr_ulAllocNextBlock E mr"
    and "length (put32 mr_off_ulFreeBlocks v mr) = length mr"
    and "length (put32 (mr_off_ulAllocNextBlock E) v mr) = length mr"
proof -
  have l: "44 \<le> length mr" using assms BSIZE_ge [of E] by simp
  have o: "mr_off_ulAllocNextBlock E + 4 \<le> METAROOT_HEADER_SIZE E" "24 \<le> mr_off_ulAllocNextBlock E"
    "mr_off_ulAllocNextBlock E + 4 \<le> 32" "mr_off_ulFreeBlocks + 4 \<le> METAROOT_HEADER_SIZE E"
    by (simp_all add: mr_offsets NODEHEADER_SIZE_def)
  show "mr_abEntries E (put32 mr_off_ulFreeBlocks v mr) = mr_abEntries E mr"
    "mr_abEntries E (put32 (mr_off_ulAllocNextBlock E) v mr) = mr_abEntries E mr"
    using l o by (simp_all add: mr_abEntries_def drop_put mr_off_ulFreeBlocks_def)
  show "mr_ulFreeBlocks (put32 mr_off_ulFreeBlocks v mr) = v"
    "mr_ulAllocNextBlock E (put32 (mr_off_ulAllocNextBlock E) v mr) = v"
    using l o by (simp_all add: mr_ulFreeBlocks_def mr_ulAllocNextBlock_def mr_off_ulFreeBlocks_def get_put_same)
  show "mr_ulFreeBlocks (put32 (mr_off_ulAllocNextBlock E) v mr) = mr_ulFreeBlocks mr"
    "mr_ulAllocNextBlock E (put32 mr_off_ulFreeBlocks v mr) = mr_ulAllocNextBlock E mr"
    using l o by (simp_all add: mr_ulFreeBlocks_def mr_ulAllocNextBlock_def mr_off_ulFreeBlocks_def get32_def
        get_le_def slice_put)
  show "length (put32 mr_off_ulFreeBlocks v mr) = length mr"
    "length (put32 (mr_off_ulAllocNextBlock E) v mr) = length mr"
    using l o by (simp_all add: mr_off_ulFreeBlocks_def)
qed

definition iafree :: "'d env \<Rightarrow> 'd fs \<Rightarrow> u32 \<Rightarrow> bool" where
  "iafree E s b \<longleftrightarrow> cv_ulFirstAllocableBN (gpRedCoreVol s) \<le> b \<and> b < vol_ulBlockCount (gpRedVolume s) \<and>
     \<not> ibit E s (cv_bCurMR (gpRedCoreVol s)) b \<and> ibit E s (other_MR s) b"

text \<open>
  The invariant of the block map: the counter of the metaroot is the number of blocks that
  are free in both states, the counter of almost free blocks is the number of those that
  only the committed state uses, and the next block to try is an allocable one.
\<close>

definition imap_inv :: "'d env \<Rightarrow> 'd fs \<Rightarrow> bool" where
  "imap_inv E s \<longleftrightarrow> imapi_ok E s \<and> REDCONF_IMAP_INLINE E \<and> buf_inv E s \<and>
     vol_ulBlocksAllocable (gpRedVolume s) =
       vol_ulBlockCount (gpRedVolume s) - cv_ulFirstAllocableBN (gpRedCoreVol s) \<and>
     unat (mr_ulFreeBlocks (gpRedMR s)) = card {b. ifree E s b} \<and>
     unat (cv_ulAlmostFreeBlocks (gpRedCoreVol s)) = card {b. iafree E s b} \<and>
     (cv_ulFirstAllocableBN (gpRedCoreVol s) < vol_ulBlockCount (gpRedVolume s) \<longrightarrow>
      cv_ulFirstAllocableBN (gpRedCoreVol s) \<le> mr_ulAllocNextBlock E (gpRedMR s) \<and>
      mr_ulAllocNextBlock E (gpRedMR s) < vol_ulBlockCount (gpRedVolume s))"

lemma imap_inv_inline: "imap_inv E s \<Longrightarrow> imap_is_inline E s"
  by (simp add: imap_inv_def imap_is_inline_def imapi_ok_def Let_def)

text \<open>What a successful change of a bit does.\<close>

definition bit_changed :: "'d env \<Rightarrow> u32 \<Rightarrow> bool \<Rightarrow> 'd fs \<Rightarrow> 'd fs \<Rightarrow> bool" where
  "bit_changed E b v s t \<longleftrightarrow> imapi_ok E t \<and> gpRedVolume t = gpRedVolume s \<and>
     gBufCtx t = gBufCtx s \<and> gbRedVolNum t = gbRedVolNum s \<and> other_MR t = other_MR s \<and>
     (\<exists>x. gpRedCoreVol t = (gpRedCoreVol s)\<lparr>cv_aMR := x, cv_fBranched := True\<rparr>) \<and>
     mr_ulFreeBlocks (gpRedMR t) = mr_ulFreeBlocks (gpRedMR s) \<and>
     mr_ulAllocNextBlock E (gpRedMR t) = mr_ulAllocNextBlock E (gpRedMR s) \<and>
     (\<forall>c. ibit E t (cv_bCurMR (gpRedCoreVol s)) c = (if c = b then v else ibit E s (cv_bCurMR (gpRedCoreVol s)) c)) \<and>
     (\<forall>c. ibit E t (other_MR s) c = ibit E s (other_MR s) c)"

lemma RedImapIBlockSet_total:
  assumes ok: "imapi_ok E s" and rng: "\<not> imap_range_invalid b s" and v: "ibit E s (cv_bCurMR (gpRedCoreVol s)) b \<noteq> v"
  obtains t where "RedImapIBlockSet E b v s = Some (Inr (), t)"
  using assms by (cases v) (auto simp: RedImapIBlockSet_def Let_def imapi_ok_def ibit_def gpRedMR_def)

lemma imap_change_ok:
  assumes ok: "imapi_ok E s" and inl: "imap_is_inline E s" and run: "imap_change E b v s = Some (Inr (), t)"
  shows "bit_changed E b v s t \<and> \<not> imap_range_invalid b s \<and> \<not> imap_count_bad b v s \<and>
    ibit E s (cv_bCurMR (gpRedCoreVol s)) b \<noteq> v"
proof -
  from run have cond: "\<not> imap_range_invalid b s" "\<not> imap_count_bad b v s"
    by (auto simp: imap_change_def thenE_Inr [OF CRITICAL_ERROR_app] split: if_splits)
  with run inl obtain u where u: "RedImapIBlockSet E b v s = Some (Inr (), u)"
    and t: "t = upd_cv (cv_fBranched_update (\<lambda>_. True)) u"
    by (auto simp: imap_change_def finallyE_def statusE_Some_iff)
  note su = RedImapIBlockSet_ok [OF ok u]
  have cu: "gpRedCoreVol u = (gpRedCoreVol s)\<lparr>cv_aMR := cv_aMR (gpRedCoreVol u)\<rparr>"
    using arg_cong [OF su(4), of "\<lambda>c. c\<lparr>cv_aMR := cv_aMR (gpRedCoreVol u)\<rparr>"] by simp
  have "gpRedCoreVol t = (gpRedCoreVol u)\<lparr>cv_fBranched := True\<rparr>"
    by (simp add: t gpRedCoreVol_def upd_cv_def)
  then have cv: "gpRedCoreVol t = (gpRedCoreVol s)\<lparr>cv_aMR := cv_aMR (gpRedCoreVol u), cv_fBranched := True\<rparr>"
    by (subst (asm) cu) simp
  have mr: "gpRedMR t = gpRedMR u" by (simp add: t gpRedMR_def)
  have ib: "ibit E t m c = ibit E u m c" for m c by (simp add: t ibit_def)
  have "imapi_ok E t" using su(1) by (simp add: t imapi_ok_def Let_def)
  moreover have "other_MR t = other_MR s" by (simp add: other_MR_def cv)
  ultimately have "bit_changed E b v s t"
    unfolding bit_changed_def mr ib using su cv by (auto simp: t)
  with cond su(10) show ?thesis by blast
qed

text \<open>What the map reads of the state.\<close>

definition same_map :: "'d fs \<Rightarrow> 'd fs \<Rightarrow> bool" where
  "same_map s t \<longleftrightarrow> gpRedCoreVol t = gpRedCoreVol s \<and>
     vol_ulBlockCount (gpRedVolume t) = vol_ulBlockCount (gpRedVolume s) \<and>
     vol_ulBlocksAllocable (gpRedVolume t) = vol_ulBlocksAllocable (gpRedVolume s)"

lemma same_map_frame: "buf_frame s t \<Longrightarrow> same_map s t"
proof -
  assume f: "buf_frame s t"
  then have "gpRedVolume t\<lparr>vol_fReadOnly := False, vol_ullSequence := 0\<rparr> =
      gpRedVolume s\<lparr>vol_fReadOnly := False, vol_ullSequence := 0\<rparr>"
    by (simp add: buf_frame_def gpRedVolume_def)
  from arg_cong [OF this, of vol_ulBlockCount] arg_cong [OF this, of vol_ulBlocksAllocable] f
  show ?thesis by (simp add: same_map_def buf_frame_def gpRedCoreVol_def)
qed

lemma same_map_reads:
  assumes "same_map s t"
  shows "other_MR t = other_MR s" and "gpRedMR t = gpRedMR s" and "ibit E t m b = ibit E s m b"
    and "ifree E t b = ifree E s b" and "iafree E t b = iafree E s b" and "imapi_ok E t = imapi_ok E s"
    and "imap_range_invalid b t = imap_range_invalid b s"
  using assms by (simp_all add: same_map_def other_MR_def gpRedMR_def ibit_def ifree_def iafree_def
      imapi_ok_def imap_range_invalid_def Let_def)

lemma imap_inv_same:
  assumes "imap_inv E s" and "same_map s t" and "buf_inv E t"
  shows "imap_inv E t"
proof -
  note r = same_map_reads [OF assms(2)]
  show ?thesis using assms unfolding imap_inv_def r by (simp add: same_map_def)
qed

text \<open>Counting the blocks of a kind when one block moves.\<close>

lemma card_below: "(\<And>b. P b \<Longrightarrow> b < n) \<Longrightarrow> card {b :: u32. P b} < 2 ^ 32"
proof -
  assume P: "\<And>b. P b \<Longrightarrow> b < n"
  have "card {b. P b} = card (unat ` {b. P b})"
    by (rule card_image [symmetric]) (simp add: inj_on_def word_unat_eq_iff)
  also have "\<dots> \<le> card {..< unat n}"
    by (rule card_mono) (use P in \<open>auto simp: word_less_nat_alt\<close>)
  also have "\<dots> < 2 ^ 32" using unsigned_less [of n, where 'a = nat] by simp
  finally show ?thesis .
qed

lemma imap_sets_small: "card {c. ifree E s c} < 2 ^ 32" "card {c. iafree E s c} < 2 ^ 32"
  by (rule card_below [of _ "vol_ulBlockCount (gpRedVolume s)"], simp add: ifree_def iafree_def)+

lemma unat_pred: "(n :: u32) \<noteq> 0 \<Longrightarrow> unat (n - 1) = unat n - 1"
  by (subst unat_sub_le) (simp_all add: word_le_nat_alt unat_gt_0 Suc_le_eq)

lemma unat_succ: "unat (n :: u32) + 1 < 2 ^ 32 \<Longrightarrow> unat (n + 1) = unat n + 1"
  by (simp add: unat_word_ariths)

text \<open>The two counters after a bit has changed and one counter has been moved.\<close>

lemma bit_changed_sets:
  assumes "bit_changed E b v s t"
  shows "{c. ifree E t c} = (if v then {c. ifree E s c} - {b}
      else {c. ifree E s c} \<union> {c. c = b \<and> cv_ulFirstAllocableBN (gpRedCoreVol s) \<le> b \<and>
        b < vol_ulBlockCount (gpRedVolume s) \<and> \<not> ibit E s (other_MR s) b})"
    and "{c. iafree E t c} = (if v then {c. iafree E s c} - {b}
      else {c. iafree E s c} \<union> {c. c = b \<and> cv_ulFirstAllocableBN (gpRedCoreVol s) \<le> b \<and>
        b < vol_ulBlockCount (gpRedVolume s) \<and> ibit E s (other_MR s) b})"
proof -
  have cv: "cv_ulFirstAllocableBN (gpRedCoreVol t) = cv_ulFirstAllocableBN (gpRedCoreVol s)"
    "cv_bCurMR (gpRedCoreVol t) = cv_bCurMR (gpRedCoreVol s)" "gpRedVolume t = gpRedVolume s"
    "other_MR t = other_MR s" using assms by (auto simp: bit_changed_def)
  have new: "ibit E t (cv_bCurMR (gpRedCoreVol s)) c = (if c = b then v else ibit E s (cv_bCurMR (gpRedCoreVol s)) c)"
    and old: "ibit E t (other_MR s) c = ibit E s (other_MR s) c" for c
    using assms unfolding bit_changed_def by blast+
  show "{c. ifree E t c} = (if v then {c. ifree E s c} - {b}
      else {c. ifree E s c} \<union> {c. c = b \<and> cv_ulFirstAllocableBN (gpRedCoreVol s) \<le> b \<and>
        b < vol_ulBlockCount (gpRedVolume s) \<and> \<not> ibit E s (other_MR s) b})"
    unfolding ifree_def cv new old by auto
  show "{c. iafree E t c} = (if v then {c. iafree E s c} - {b}
      else {c. iafree E s c} \<union> {c. c = b \<and> cv_ulFirstAllocableBN (gpRedCoreVol s) \<le> b \<and>
        b < vol_ulBlockCount (gpRedVolume s) \<and> ibit E s (other_MR s) b})"
    unfolding iafree_def cv new old by auto
qed

text \<open>The allocable block whose bit has changed joins or leaves exactly one of the two sets.\<close>

lemma card_take: "card (A - {b}) + (if b \<in> A then 1 else 0) = card (A :: u32 set)"
  using card_Suc_Diff1 [of A b] by (cases "b \<in> A") simp_all

lemma card_put: "b \<notin> A \<Longrightarrow> card (A \<union> {c. c = b \<and> P}) = card (A :: u32 set) + (if P then 1 else 0)"
  by (cases P) simp_all

lemma bit_changed_cards:
  assumes ch: "bit_changed E b v s t" and was: "ibit E s (cv_bCurMR (gpRedCoreVol s)) b \<noteq> v"
    and b: "b < vol_ulBlockCount (gpRedVolume s)" "cv_ulFirstAllocableBN (gpRedCoreVol s) \<le> b"
  shows "card {c. ifree E t c} + (if v \<and> ifree E s b then 1 else 0) =
      card {c. ifree E s c} + (if \<not> v \<and> \<not> ibit E s (other_MR s) b then 1 else 0)"
    and "card {c. iafree E t c} + (if v \<and> iafree E s b then 1 else 0) =
      card {c. iafree E s c} + (if \<not> v \<and> ibit E s (other_MR s) b then 1 else 0)"
proof -
  note sets = bit_changed_sets [OF ch]
  have out: "b \<notin> {c. ifree E s c}" "b \<notin> {c. iafree E s c}" if "\<not> v"
    using was that by (simp_all add: ifree_def iafree_def)
  show "card {c. ifree E t c} + (if v \<and> ifree E s b then 1 else 0) =
      card {c. ifree E s c} + (if \<not> v \<and> \<not> ibit E s (other_MR s) b then 1 else 0)"
  proof (cases v)
    case True
    then show ?thesis using card_take [of "{c. ifree E s c}" b] by (simp add: sets)
  next
    case False
    then show ?thesis by (simp add: sets card_put [OF out(1)] b)
  qed
  show "card {c. iafree E t c} + (if v \<and> iafree E s b then 1 else 0) =
      card {c. iafree E s c} + (if \<not> v \<and> ibit E s (other_MR s) b then 1 else 0)"
  proof (cases v)
    case True
    then show ?thesis using card_take [of "{c. iafree E s c}" b] by (simp add: sets)
  next
    case False
    then show ?thesis by (simp add: sets card_put [OF out(2)] b)
  qed
qed

text \<open>Changes of the counters leave the bits alone.\<close>

lemma set_ulFreeBlocks_map:
  assumes "imapi_ok E s"
  shows "env_ok E" and "imapi_ok E (set_ulFreeBlocks g s)" and "ibit E (set_ulFreeBlocks g s) m b = ibit E s m b"
    and "ifree E (set_ulFreeBlocks g s) = ifree E s" and "iafree E (set_ulFreeBlocks g s) = iafree E s"
    and "mr_ulFreeBlocks (gpRedMR (set_ulFreeBlocks g s)) = g (mr_ulFreeBlocks (gpRedMR s))"
    and "mr_ulAllocNextBlock E (gpRedMR (set_ulFreeBlocks g s)) = mr_ulAllocNextBlock E (gpRedMR s)"
    and "gpRedVolume (set_ulFreeBlocks g s) = gpRedVolume s"
    and "buf_inv E (set_ulFreeBlocks g s) = buf_inv E s" and "other_MR (set_ulFreeBlocks g s) = other_MR s"
    and "cv_bCurMR (gpRedCoreVol (set_ulFreeBlocks g s)) = cv_bCurMR (gpRedCoreVol s)"
    and "cv_ulInodeTableStartBN (gpRedCoreVol (set_ulFreeBlocks g s)) = cv_ulInodeTableStartBN (gpRedCoreVol s)"
    and "cv_ulFirstAllocableBN (gpRedCoreVol (set_ulFreeBlocks g s)) = cv_ulFirstAllocableBN (gpRedCoreVol s)"
    and "cv_ulAlmostFreeBlocks (gpRedCoreVol (set_ulFreeBlocks g s)) = cv_ulAlmostFreeBlocks (gpRedCoreVol s)"
proof -
  show env: "env_ok E" using assms by (simp add: imapi_ok_def)
  note h = mr_header_fields [OF env gpRedMR_length [OF assms]]
  let ?f = "\<lambda>mr. put32 mr_off_ulFreeBlocks (g (mr_ulFreeBlocks mr)) mr"
  note u = upd_MR_header [OF assms, of ?f, OF h(7) h(1)]
  show "imapi_ok E (set_ulFreeBlocks g s)" "ibit E (set_ulFreeBlocks g s) m b = ibit E s m b" for m b
    by (simp_all add: set_ulFreeBlocks_def u)
  show "ifree E (set_ulFreeBlocks g s) = ifree E s" "iafree E (set_ulFreeBlocks g s) = iafree E s"
    by (rule ext, simp add: set_ulFreeBlocks_def ifree_def iafree_def u,
        simp add: upd_MR_cv upd_MR_def)+
  show "mr_ulFreeBlocks (gpRedMR (set_ulFreeBlocks g s)) = g (mr_ulFreeBlocks (gpRedMR s))"
    "mr_ulAllocNextBlock E (gpRedMR (set_ulFreeBlocks g s)) = mr_ulAllocNextBlock E (gpRedMR s)"
    by (simp_all add: set_ulFreeBlocks_def h)
qed (simp_all add: set_ulFreeBlocks_def upd_MR_cv buf_inv_def)

lemma set_ulAllocNextBlock_map:
  assumes inv: "imap_inv E s" and v: "cv_ulFirstAllocableBN (gpRedCoreVol s) \<le> v" "v < vol_ulBlockCount (gpRedVolume s)"
  shows "imap_inv E (set_ulAllocNextBlock E v s)" and "ibit E (set_ulAllocNextBlock E v s) m b = ibit E s m b"
    and "ifree E (set_ulAllocNextBlock E v s) = ifree E s" and "iafree E (set_ulAllocNextBlock E v s) = iafree E s"
    and "mr_ulFreeBlocks (gpRedMR (set_ulAllocNextBlock E v s)) = mr_ulFreeBlocks (gpRedMR s)"
    and "gpRedVolume (set_ulAllocNextBlock E v s) = gpRedVolume s"
    and "other_MR (set_ulAllocNextBlock E v s) = other_MR s"
    and "cv_bCurMR (gpRedCoreVol (set_ulAllocNextBlock E v s)) = cv_bCurMR (gpRedCoreVol s)"
    and "cv_ulFirstAllocableBN (gpRedCoreVol (set_ulAllocNextBlock E v s)) = cv_ulFirstAllocableBN (gpRedCoreVol s)"
proof -
  have ok: "imapi_ok E s" using inv by (simp add: imap_inv_def)
  then have env: "env_ok E" by (simp add: imapi_ok_def)
  note h = mr_header_fields [OF env gpRedMR_length [OF ok]]
  note u = upd_MR_header [OF ok, of "put32 (mr_off_ulAllocNextBlock E) v", OF h(8) h(2)]
  show ib: "ibit E (set_ulAllocNextBlock E v s) m b = ibit E s m b" for m b
    by (simp add: set_ulAllocNextBlock_def u)
  show fr: "ifree E (set_ulAllocNextBlock E v s) = ifree E s" and af: "iafree E (set_ulAllocNextBlock E v s) = iafree E s"
    by (rule ext, simp add: set_ulAllocNextBlock_def ifree_def iafree_def u,
        simp add: upd_MR_cv upd_MR_def)+
  show "mr_ulFreeBlocks (gpRedMR (set_ulAllocNextBlock E v s)) = mr_ulFreeBlocks (gpRedMR s)"
    by (simp add: set_ulAllocNextBlock_def h)
  show "imap_inv E (set_ulAllocNextBlock E v s)"
    using inv v unfolding imap_inv_def fr af
    by (simp add: set_ulAllocNextBlock_def u h upd_MR_cv buf_inv_def)
qed (simp_all add: set_ulAllocNextBlock_def upd_MR_cv)

lemma RedImapBlockGet_ok:
  assumes "imapi_ok E s" and "REDCONF_IMAP_INLINE E" and "\<not> imap_range_invalid b s" and "m \<le> 1"
  shows "RedImapBlockGet E m b s = Some (Inr (ibit E s m b), s)"
  using assms RedImapIBlockGet_ok [OF assms(1,3,4)]
  by (simp add: RedImapBlockGet_def imap_is_inline_def imapi_ok_def Let_def not_less)

lemma critical_if_error_ok: "f s = Some (Inr x, t) \<Longrightarrow> critical_if_error f s = Some (Inr x, t)"
  by (simp add: critical_if_error_def statusE_Some CRITICAL_ASSERT_def is_ok_def)

text \<open>
  The counting of \<^verbatim>\<open>RedImapBlockSet\<close> restores the invariant that the change of the bit has
  broken.  A block may only be allocated when the committed state does not use it.
\<close>

lemma imap_settle:
  assumes inv: "imap_inv E s" and ch: "bit_changed E b v s t" and sm: "same_map t u" and bi: "buf_inv E u"
    and was: "ibit E s (cv_bCurMR (gpRedCoreVol s)) b \<noteq> v" and rng: "\<not> imap_range_invalid b s"
    and al: "v \<Longrightarrow> \<not> ibit E s (other_MR s) b"
    and first: "cv_ulFirstAllocableBN (gpRedCoreVol s) \<le> b"
  shows "\<exists>w. imap_count E b v u = Some (Inr (), w) \<and> imap_inv E w \<and> gpRedVolume w = gpRedVolume u \<and>
    other_MR w = other_MR u \<and> cv_bCurMR (gpRedCoreVol w) = cv_bCurMR (gpRedCoreVol u) \<and>
    cv_ulFirstAllocableBN (gpRedCoreVol w) = cv_ulFirstAllocableBN (gpRedCoreVol u) \<and>
    cv_ulInodeTableStartBN (gpRedCoreVol w) = cv_ulInodeTableStartBN (gpRedCoreVol u) \<and>
    (\<forall>m c. ibit E w m c = ibit E u m c)"
proof -
  note r = same_map_reads [OF sm]
  have lt: "b < vol_ulBlockCount (gpRedVolume s)" using rng by (simp add: imap_range_invalid_def not_le)
  have ok: "imapi_ok E u" using ch by (simp add: r bit_changed_def)
  have ct: "gpRedVolume t = gpRedVolume s" "other_MR t = other_MR s"
    "cv_ulFirstAllocableBN (gpRedCoreVol t) = cv_ulFirstAllocableBN (gpRedCoreVol s)"
    "cv_ulAlmostFreeBlocks (gpRedCoreVol t) = cv_ulAlmostFreeBlocks (gpRedCoreVol s)"
    "cv_ulInodeTableStartBN (gpRedCoreVol t) = cv_ulInodeTableStartBN (gpRedCoreVol s)"
    "mr_ulFreeBlocks (gpRedMR t) = mr_ulFreeBlocks (gpRedMR s)"
    "mr_ulAllocNextBlock E (gpRedMR t) = mr_ulAllocNextBlock E (gpRedMR s)"
    "ibit E t (other_MR s) b = ibit E s (other_MR s) b" using ch by (auto simp: bit_changed_def)
  have cu: "gpRedCoreVol u = gpRedCoreVol t" "vol_ulBlockCount (gpRedVolume u) = vol_ulBlockCount (gpRedVolume t)"
    "vol_ulBlocksAllocable (gpRedVolume u) = vol_ulBlocksAllocable (gpRedVolume t)"
    using sm by (simp_all add: same_map_def)
  have inl: "REDCONF_IMAP_INLINE E" using inv by (simp add: imap_inv_def)
  have ns: "unat (mr_ulFreeBlocks (gpRedMR s)) = card {c. ifree E s c}"
    "unat (cv_ulAlmostFreeBlocks (gpRedCoreVol s)) = card {c. iafree E s c}"
    using inv by (simp_all add: imap_inv_def)
  note cards = bit_changed_cards [OF ch was lt first]
  have ru: "ifree E u = ifree E t" "iafree E u = iafree E t" by (rule ext, simp add: r)+
  note small = imap_sets_small [where E = E and s = t]
  show ?thesis
  proof (cases v)
    case True
    let ?w = "set_ulFreeBlocks (\<lambda>n. n - 1) u"
    note m = set_ulFreeBlocks_map [OF ok]
    have fr: "ifree E s b" "\<not> iafree E s b"
      using True al was lt first by (simp_all add: ifree_def iafree_def)
    with cards True ns have "unat (mr_ulFreeBlocks (gpRedMR s)) = card {c. ifree E t c} + 1"
      "unat (cv_ulAlmostFreeBlocks (gpRedCoreVol s)) = card {c. iafree E t c}" by simp_all
    moreover from this have "unat (mr_ulFreeBlocks (gpRedMR s) - 1) = card {c. ifree E t c}"
      using unat_pred [of "mr_ulFreeBlocks (gpRedMR s)"] by fastforce
    ultimately have "imap_inv E ?w"
      using inv bi inl ok unfolding imap_inv_def m r cu ct by (simp add: r m(2))
    then show ?thesis using True by (intro exI [of _ ?w]) (simp add: imap_count_def m)
  next
    case False
    have get: "critical_if_error (\<lambda>s. RedImapBlockGet E (other_MR s) b s) u =
      Some (Inr (ibit E s (other_MR s) b), u)"
    proof (rule critical_if_error_ok)
      have "\<not> imap_range_invalid b u" using rng by (simp add: imap_range_invalid_def cu ct)
      moreover have "other_MR u \<le> 1"
        using ok other_MR_cases [of u] by (auto simp: imapi_ok_def Let_def)
      ultimately show "RedImapBlockGet E (other_MR u) b u = Some (Inr (ibit E s (other_MR s) b), u)"
        using RedImapBlockGet_ok [OF ok inl] by (simp add: r ct)
    qed
    show ?thesis
    proof (cases "ibit E s (other_MR s) b")
      case o: True
      let ?w = "upd_cv (\<lambda>cv. cv\<lparr>cv_ulAlmostFreeBlocks := cv_ulAlmostFreeBlocks cv + 1\<rparr>) u"
      have m: "ibit E ?w m c = ibit E u m c" "ifree E ?w = ifree E u" "iafree E ?w = iafree E u"
        "imapi_ok E ?w" "gpRedMR ?w = gpRedMR u" "other_MR ?w = other_MR u" "buf_inv E ?w" for m c
        using ok bi by (auto simp: ibit_def ifree_def iafree_def imapi_ok_def Let_def gpRedMR_def other_MR_def
            buf_inv_def)
      from cards False o ns have n: "unat (mr_ulFreeBlocks (gpRedMR s)) = card {c. ifree E t c}"
        "unat (cv_ulAlmostFreeBlocks (gpRedCoreVol s)) + 1 = card {c. iafree E t c}" by simp_all
      with small have "unat (cv_ulAlmostFreeBlocks (gpRedCoreVol s) + 1) = card {c. iafree E t c}"
        by (subst unat_succ) simp_all
      with n have "imap_inv E ?w"
        using inv inl ok bi unfolding imap_inv_def m ru r(2) cu ct by (simp add: cu ct r m(4,7))
      then show ?thesis using False o
        by (intro exI [of _ ?w]) (simp add: imap_count_def m bindE_def get)
    next
      case o: False
      let ?w = "set_ulFreeBlocks (\<lambda>n. n + 1) u"
      note m = set_ulFreeBlocks_map [OF ok]
      from cards False o ns have n: "unat (mr_ulFreeBlocks (gpRedMR s)) + 1 = card {c. ifree E t c}"
        "unat (cv_ulAlmostFreeBlocks (gpRedCoreVol s)) = card {c. iafree E t c}" by simp_all
      with small have "unat (mr_ulFreeBlocks (gpRedMR s) + 1) = card {c. ifree E t c}"
        by (subst unat_succ) simp_all
      with n have "imap_inv E ?w" using inv bi inl ok unfolding imap_inv_def m r cu ct by (simp add: r m(2))
      then show ?thesis using False o
        by (intro exI [of _ ?w]) (simp add: imap_count_def m bindE_def get)
    qed
  qed
qed

lemma imap_change_total:
  assumes "imap_inv E s" and "\<not> imap_range_invalid b s" and "\<not> imap_count_bad b v s"
    and "ibit E s (cv_bCurMR (gpRedCoreVol s)) b \<noteq> v"
  obtains t where "imap_change E b v s = Some (Inr (), t)"
proof -
  have "imapi_ok E s" using assms(1) by (simp add: imap_inv_def)
  from RedImapIBlockSet_total [OF this assms(2,4)] obtain u where "RedImapIBlockSet E b v s = Some (Inr (), u)" .
  then have "imap_change E b v s = Some (Inr (), upd_cv (cv_fBranched_update (\<lambda>_. True)) u)"
    using imap_inv_inline [OF assms(1)] assms(2,3) by (simp add: imap_change_def finallyE_def statusE_Some)
  then show ?thesis by (rule that)
qed

lemma critical_if_error_Inr:
  "critical_if_error f s = Some (Inr x, t) \<longleftrightarrow> f s = Some (Inr x, t)"
proof (cases "f s")
  case (Some p)
  then show ?thesis
    by (cases p; cases "fst p")
      (auto simp: critical_if_error_def statusE_Some CRITICAL_ASSERT_def is_ok_def CRITICAL_ERROR_def)
qed (simp add: critical_if_error_def statusE_def)

lemma imap_set_ok:
  assumes inv: "imap_inv E s" and run: "RedImapBlockSet E b v s = Some (Inr (), t)"
    and al: "v \<Longrightarrow> cv_ulFirstAllocableBN (gpRedCoreVol s) \<le> b \<Longrightarrow> \<not> ibit E s (other_MR s) b"
  shows "imap_inv E t" and "ibit E s (cv_bCurMR (gpRedCoreVol s)) b \<noteq> v" and "\<not> imap_range_invalid b s"
    and "ibit E t (cv_bCurMR (gpRedCoreVol s)) c =
      (if c = b then v else ibit E s (cv_bCurMR (gpRedCoreVol s)) c)"
    and "ibit E t (other_MR s) c = ibit E s (other_MR s) c"
    and "other_MR t = other_MR s" and "cv_bCurMR (gpRedCoreVol t) = cv_bCurMR (gpRedCoreVol s)"
    and "vol_ulBlockCount (gpRedVolume t) = vol_ulBlockCount (gpRedVolume s)"
    and "cv_ulFirstAllocableBN (gpRedCoreVol t) = cv_ulFirstAllocableBN (gpRedCoreVol s)"
    and "cv_ulInodeTableStartBN (gpRedCoreVol t) = cv_ulInodeTableStartBN (gpRedCoreVol s)"
proof -
  have ok: "imapi_ok E s" and bi: "buf_inv E s" using inv by (simp_all add: imap_inv_def)
  from run obtain u w where u: "imap_change E b v s = Some (Inr (), u)"
    and w: "(if \<not> v then critical_if_error (RedBufferDiscardRange E b 1) else okE ()) u = Some (Inr (), w)"
    and t: "(if b \<ge> cv_ulFirstAllocableBN (gpRedCoreVol w) then imap_count E b v else okE ()) w = Some (Inr (), t)"
    by (auto simp: RedImapBlockSet_def thenE_Inr_Some)
  from imap_change_ok [OF ok imap_inv_inline [OF inv] u] have ch: "bit_changed E b v s u"
    and rng: "\<not> imap_range_invalid b s" and was: "ibit E s (cv_bCurMR (gpRedCoreVol s)) b \<noteq> v" by simp_all
  have biu: "buf_inv E u" using ch bi by (simp add: bit_changed_def buf_inv_def)
  have "same_map u w \<and> buf_inv E w"
  proof (cases v)
    case True
    then show ?thesis using w biu by (simp add: same_map_def)
  next
    case False
    then have "RedBufferDiscardRange E b 1 u = Some (Inr (), w)" using w by (simp add: critical_if_error_Inr)
    from RedBufferDiscardRange_effect [OF biu this] show ?thesis by (blast intro: same_map_frame)
  qed
  then have sm: "same_map u w" and bw: "buf_inv E w" by simp_all
  have cu: "cv_ulFirstAllocableBN (gpRedCoreVol w) = cv_ulFirstAllocableBN (gpRedCoreVol s)"
    "cv_ulInodeTableStartBN (gpRedCoreVol w) = cv_ulInodeTableStartBN (gpRedCoreVol s)"
    "cv_bCurMR (gpRedCoreVol w) = cv_bCurMR (gpRedCoreVol s)" "other_MR w = other_MR s"
    "vol_ulBlockCount (gpRedVolume w) = vol_ulBlockCount (gpRedVolume s)"
    "vol_ulBlocksAllocable (gpRedVolume w) = vol_ulBlocksAllocable (gpRedVolume s)"
    and bits: "ibit E w (cv_bCurMR (gpRedCoreVol s)) c =
      (if c = b then v else ibit E s (cv_bCurMR (gpRedCoreVol s)) c)"
    "ibit E w (other_MR s) c = ibit E s (other_MR s) c" for c
    using ch sm by (auto simp: same_map_reads [OF sm] same_map_def bit_changed_def)
  have main: "imap_inv E t \<and> gpRedVolume t = gpRedVolume w \<and> other_MR t = other_MR w \<and>
    cv_bCurMR (gpRedCoreVol t) = cv_bCurMR (gpRedCoreVol w) \<and>
    cv_ulFirstAllocableBN (gpRedCoreVol t) = cv_ulFirstAllocableBN (gpRedCoreVol w) \<and>
    cv_ulInodeTableStartBN (gpRedCoreVol t) = cv_ulInodeTableStartBN (gpRedCoreVol w) \<and>
    (\<forall>m c. ibit E t m c = ibit E w m c)"
  proof (cases "cv_ulFirstAllocableBN (gpRedCoreVol s) \<le> b")
    case True
    from imap_settle [OF inv ch sm bw was rng al True] t True show ?thesis by (auto simp: cu)
  next
    case False
    then have "b \<notin> {c. ifree E s c}" "b \<notin> {c. iafree E s c}" by (simp_all add: ifree_def iafree_def)
    with False have "{c. ifree E w c} = {c. ifree E s c}" "{c. iafree E w c} = {c. iafree E s c}"
      by (simp_all add: same_map_reads [OF sm] bit_changed_sets [OF ch])
    moreover have "mr_ulFreeBlocks (gpRedMR w) = mr_ulFreeBlocks (gpRedMR s)"
      "mr_ulAllocNextBlock E (gpRedMR w) = mr_ulAllocNextBlock E (gpRedMR s)" "imapi_ok E w"
      "cv_ulAlmostFreeBlocks (gpRedCoreVol w) = cv_ulAlmostFreeBlocks (gpRedCoreVol s)"
      using ch sm by (auto simp: same_map_reads [OF sm] same_map_def bit_changed_def)
    ultimately have "imap_inv E w" using inv bw unfolding imap_inv_def cu by simp
    then show ?thesis using t False by (simp add: cu)
  qed
  show "imap_inv E t" "other_MR t = other_MR s" "cv_bCurMR (gpRedCoreVol t) = cv_bCurMR (gpRedCoreVol s)"
    "vol_ulBlockCount (gpRedVolume t) = vol_ulBlockCount (gpRedVolume s)"
    "cv_ulFirstAllocableBN (gpRedCoreVol t) = cv_ulFirstAllocableBN (gpRedCoreVol s)"
    "cv_ulInodeTableStartBN (gpRedCoreVol t) = cv_ulInodeTableStartBN (gpRedCoreVol s)"
    "ibit E t (cv_bCurMR (gpRedCoreVol s)) c = (if c = b then v else ibit E s (cv_bCurMR (gpRedCoreVol s)) c)"
    "ibit E t (other_MR s) c = ibit E s (other_MR s) c" using main by (simp_all add: cu bits)
  show "ibit E s (cv_bCurMR (gpRedCoreVol s)) b \<noteq> v" "\<not> imap_range_invalid b s" by (fact was, fact rng)
qed

lemma alloc_total:
  assumes inv: "imap_inv E s" and f: "ifree E s b"
  obtains t where "RedImapBlockSet E b True s = Some (Inr (), t)"
proof -
  have rng: "\<not> imap_range_invalid b s"
    using f inv by (auto simp: ifree_def imap_range_invalid_def imap_inv_def imapi_ok_def Let_def)
  have "card {c. ifree E s c} \<noteq> 0" using f by auto
  then have "mr_ulFreeBlocks (gpRedMR s) \<noteq> 0" using inv by (auto simp: imap_inv_def)
  then have "\<not> imap_count_bad b True s" by (simp add: imap_count_bad_def)
  with imap_change_total [OF inv rng this] f obtain u where "imap_change E b True s = Some (Inr (), u)"
    by (auto simp: ifree_def)
  then show ?thesis using that
    by (cases "cv_ulFirstAllocableBN (gpRedCoreVol u) \<le> b") (simp_all add: RedImapBlockSet_def thenE_Inr imap_count_def)
qed

lemma alloc_found:
  assumes inv: "imap_inv E s" and n: "mr_ulFreeBlocks (gpRedMR s) \<noteq> 0"
  obtains b t where "RedImapAllocBlock E s = Some (Inr b, t)" and "ifree E s b" and "imap_inv E t"
    and "\<And>c. ibit E t (cv_bCurMR (gpRedCoreVol s)) c = (c = b \<or> ibit E s (cv_bCurMR (gpRedCoreVol s)) c)"
    and "\<And>c. ibit E t (other_MR s) c = ibit E s (other_MR s) c"
    and "other_MR t = other_MR s" and "cv_bCurMR (gpRedCoreVol t) = cv_bCurMR (gpRedCoreVol s)"
    and "unat (mr_ulFreeBlocks (gpRedMR t)) = unat (mr_ulFreeBlocks (gpRedMR s)) - 1"
proof -
  have ok: "imapi_ok E s" using inv by (simp add: imap_inv_def)
  let ?n = "mr_ulAllocNextBlock E (gpRedMR s)"
  have card: "unat (mr_ulFreeBlocks (gpRedMR s)) = card {c. ifree E s c}" using inv by (simp add: imap_inv_def)
  with n have "{c. ifree E s c} \<noteq> {}" by (metis card.empty unat_eq_zero)
  then obtain x where x: "ifree E s x" by blast
  then have "cv_ulFirstAllocableBN (gpRedCoreVol s) \<le> ?n" "?n < vol_ulBlockCount (gpRedVolume s)"
    using inv by (auto simp: imap_inv_def ifree_def)
  from find_free_found [OF ok x this] obtain b
    where find: "RedImapIBlockFindFree E ?n s = Some (Inr b, s)" and b: "ifree E s b" by blast
  define v where "v = (if b + 1 = vol_ulBlockCount (gpRedVolume s) then cv_ulFirstAllocableBN (gpRedCoreVol s) else b + 1)"
  have lt: "b < vol_ulBlockCount (gpRedVolume s)" "cv_ulFirstAllocableBN (gpRedCoreVol s) \<le> b"
    using b by (simp_all add: ifree_def)
  have "unat (b + 1) = unat b + 1"
    using lt(1) unsigned_less [of "vol_ulBlockCount (gpRedVolume s)", where 'a = nat]
    by (intro unat_succ) (simp add: word_less_nat_alt)
  then have v: "cv_ulFirstAllocableBN (gpRedCoreVol s) \<le> v" "v < vol_ulBlockCount (gpRedVolume s)"
    using lt by (auto simp: v_def word_le_nat_alt word_less_nat_alt word_unat_eq_iff)
  let ?u = "set_ulAllocNextBlock E v s"
  note m = set_ulAllocNextBlock_map [OF inv v]
  have bu: "ifree E ?u b" using b by (simp add: m)
  from alloc_total [OF m(1) this] obtain t where t: "RedImapBlockSet E b True ?u = Some (Inr (), t)" .
  have run: "RedImapAllocBlock E s = Some (Inr b, t)"
  proof -
    have "critical_if_error (RedImapBlockSet E b True) ?u = Some (Inr (), t)" using t by (simp add: critical_if_error_Inr)
    then show ?thesis
      using n find imap_inv_inline [OF inv]
      by (simp add: RedImapAllocBlock_def statusE_def RedImapBlockFindFree_def thenE_def bindE_def v_def [symmetric])
  qed
  note so = imap_set_ok [OF m(1) t]
  have o: "\<not> ibit E s (other_MR s) b" using b by (simp add: ifree_def)
  then have t': "imap_inv E t"
    "\<And>c. ibit E t (cv_bCurMR (gpRedCoreVol s)) c = (c = b \<or> ibit E s (cv_bCurMR (gpRedCoreVol s)) c)"
    "\<And>c. ibit E t (other_MR s) c = ibit E s (other_MR s) c" "other_MR t = other_MR s"
    "cv_bCurMR (gpRedCoreVol t) = cv_bCurMR (gpRedCoreVol s)"
    using so by (simp_all add: m)
  have "{c. ifree E t c} = {c. ifree E s c} - {b}"
    using so o by (auto simp: ifree_def m)
  then have "card {c. ifree E t c} = card {c. ifree E s c} - 1" using b by (simp add: card_Diff_singleton)
  then have "unat (mr_ulFreeBlocks (gpRedMR t)) = unat (mr_ulFreeBlocks (gpRedMR s)) - 1"
    using t'(1) card by (simp add: imap_inv_def)
  with run b t' show ?thesis by (rule that)
qed

section \<open>What the map promises\<close>


text \<open>
  The volume is full exactly when no block is free in both states, and then the
  allocation fails with \<^verbatim>\<open>RED_ENOSPC\<close> and leaves the state alone.
\<close>

theorem alloc_block_full:
  assumes "imap_inv E s"
  shows "RedImapAllocBlock E s = Some (Inl RED_ENOSPC, s) \<longleftrightarrow> (\<forall>b. \<not> ifree E s b)"
proof
  assume run: "RedImapAllocBlock E s = Some (Inl RED_ENOSPC, s)"
  have "mr_ulFreeBlocks (gpRedMR s) = 0"
  proof (rule ccontr)
    assume "mr_ulFreeBlocks (gpRedMR s) \<noteq> 0"
    from alloc_found [OF assms this] run show False by auto
  qed
  then have "card {b. ifree E s b} = 0" using assms by (auto simp: imap_inv_def)
  then show "\<forall>b. \<not> ifree E s b" by simp
next
  assume "\<forall>b. \<not> ifree E s b"
  then have "card {b. ifree E s b} = 0" by simp
  then have "mr_ulFreeBlocks (gpRedMR s) = 0" using assms by (auto simp: imap_inv_def unat_eq_zero)
  then show "RedImapAllocBlock E s = Some (Inl RED_ENOSPC, s)" by (simp add: RedImapAllocBlock_def)
qed


definition alloc_state :: "bool \<Rightarrow> bool \<Rightarrow> ALLOCSTATE" where
  "alloc_state cur old = (if cur then (if old then ALLOCSTATE_USED else ALLOCSTATE_NEW)
     else (if old then ALLOCSTATE_AFREE else ALLOCSTATE_FREE))"

lemma RedImapBlockState_ok:
  assumes inv: "imap_inv E s" and rng: "\<not> imap_range_invalid b s"
  shows "RedImapBlockState E b s =
    Some (Inr (alloc_state (ibit E s (cv_bCurMR (gpRedCoreVol s)) b) (ibit E s (other_MR s) b)), s)"
proof -
  have ok: "imapi_ok E s" and inl: "REDCONF_IMAP_INLINE E" using inv by (simp_all add: imap_inv_def)
  then have c: "cv_bCurMR (gpRedCoreVol s) \<le> 1" by (simp add: imapi_ok_def Let_def)
  note get = RedImapBlockGet_ok [OF ok inl rng]
  show ?thesis using rng get [OF c] get [of "other_MR s"] other_MR_cases [OF c]
    by (simp add: RedImapBlockState_def bindE_def alloc_state_def)
qed


section \<open>Instances\<close>

text \<open>The concrete volume with all of its bits alike and a counter of free blocks.\<close>

definition demo_map :: "u8 \<Rightarrow> u32 \<Rightarrow> ramdisk fs" where
  "demo_map x n = upd_MR (put32 (mr_off_ulAllocNextBlock demo_env) 7) (set_ulFreeBlocks (\<lambda>_. n) (demo_imap x))"

lemma demo_allocable: "card {c :: u32. 7 \<le> c \<and> c < 16} = 9"
proof -
  have "{c :: u32. 7 \<le> c \<and> c < 16} = word_of_nat ` {7..<16}"
  proof (intro set_eqI iffI)
    fix c :: u32 assume "c \<in> {c. 7 \<le> c \<and> c < 16}"
    then show "c \<in> word_of_nat ` {7..<16}"
      by (intro image_eqI [of _ _ "unat c"]) (simp_all add: word_le_nat_alt word_less_nat_alt)
  qed (auto simp: word_le_nat_alt word_less_nat_alt unat_of_nat)
  moreover have "inj_on (word_of_nat :: nat \<Rightarrow> u32) {7..<16}"
    by (auto simp: inj_on_def word_of_nat_eq_iff take_bit_nat_eq_self)
  ultimately show ?thesis by (simp add: card_image)
qed

lemma demo_map_reads:
  "imapi_ok demo_env (demo_map x n)" "ibit demo_env (demo_map x n) m b = ibit demo_env (demo_imap x) m b"
  "mr_ulFreeBlocks (gpRedMR (demo_map x n)) = n" "mr_ulAllocNextBlock demo_env (gpRedMR (demo_map x n)) = 7"
  "gpRedVolume (demo_map x n) = demo_volume" "gBufCtx (demo_map x n) = demo_buffers"
  "cv_ulFirstAllocableBN (gpRedCoreVol (demo_map x n)) = 7" "cv_bCurMR (gpRedCoreVol (demo_map x n)) = 0"
  "cv_ulInodeTableStartBN (gpRedCoreVol (demo_map x n)) = 3" "cv_ulAlmostFreeBlocks (gpRedCoreVol (demo_map x n)) = 0"
  "other_MR (demo_map x n) = 1" "gbRedVolNum (demo_map x n) = 0"
proof -
  note a = set_ulFreeBlocks_map(2-) [OF demo_imapi_ok [of x], where g = "\<lambda>_. n"]
  note h = mr_header_fields [OF demo_env_ok gpRedMR_length [OF a(1)]]
  note u = upd_MR_header [OF a(1), of "put32 (mr_off_ulAllocNextBlock demo_env) 7", OF h(8) h(2)]
  show "imapi_ok demo_env (demo_map x n)" by (simp add: demo_map_def u)
  show "ibit demo_env (demo_map x n) m b = ibit demo_env (demo_imap x) m b" by (simp add: demo_map_def u a)
  show "mr_ulFreeBlocks (gpRedMR (demo_map x n)) = n" "mr_ulAllocNextBlock demo_env (gpRedMR (demo_map x n)) = 7"
    by (simp_all add: demo_map_def h a)
qed (simp_all add: demo_map_def set_ulFreeBlocks_def upd_MR_cv)

lemma demo_range: "imap_range_invalid b (demo_map x n) \<longleftrightarrow> b < 3 \<or> 16 \<le> b"
  by (auto simp: imap_range_invalid_def demo_map_reads)

lemma demo_allocable_count: "vol_ulBlocksAllocable demo_volume = 9" "REDCONF_IMAP_INLINE demo_env"
  and demo_ctx: "ctx_inv demo_env demo_buffers"
  using demo_buf_inv [of demo_disk] by (simp_all add: buf_inv_def) (simp_all add: demo_volume_def demo_env_def)

lemma demo_map_free: "imap_inv demo_env (demo_map 0 9)"
proof -
  have "ifree demo_env (demo_map 0 9) b \<longleftrightarrow> 7 \<le> b \<and> b < 16" "\<not> iafree demo_env (demo_map 0 9) b" for b
    using demo_ibit [of b] by (auto simp: ifree_def iafree_def demo_map_reads word_le_nat_alt)
  then show ?thesis
    by (simp add: imap_inv_def demo_map_reads demo_allocable buf_inv_def demo_ctx demo_allocable_count)
qed

lemma demo_map_full: "imap_inv demo_env (demo_map 0xFF 0)" "\<not> ifree demo_env (demo_map 0xFF 0) b"
proof -
  have "(0xFF :: u8) = - 1" by simp
  moreover have "bit (- 1 :: u8) (7 - unat (c - 3) mod 8)" for c :: u32
    unfolding bit_minus_1_iff possible_bit_word by simp
  ultimately have "ibit demo_env (demo_imap 0xFF) m c" if "7 \<le> c" "c < 16" for m c
    using that demo_ibit [of c "0xFF"] by (simp only:) (simp add: word_le_nat_alt)
  then have no: "\<not> ifree demo_env (demo_map 0xFF 0) c" "\<not> iafree demo_env (demo_map 0xFF 0) c" for c
    by (auto simp: ifree_def iafree_def demo_map_reads)
  then show "\<not> ifree demo_env (demo_map 0xFF 0) b" by blast
  show "imap_inv demo_env (demo_map 0xFF 0)"
    using no by (simp add: imap_inv_def demo_map_reads demo_allocable buf_inv_def demo_ctx demo_allocable_count)
qed

lemma demo_map_9: "ifree demo_env (demo_map 0 9) 9" "\<not> imap_range_invalid 9 (demo_map 0 9)"
  by (simp_all add: ifree_def demo_map_reads demo_ibit demo_range)


theorem alloc_block_full_witness:
  "RedImapAllocBlock demo_env (demo_map 0xFF 0) = Some (Inl RED_ENOSPC, demo_map 0xFF 0)"
  using alloc_block_full [OF demo_map_full(1)] demo_map_full(2) by simp



end
