(* ===== verification/Red_Volume.thy ===== *)
theory Red_Volume
  imports Red_Imap
begin

text \<open>
  The volume of \<^verbatim>\<open>core/driver/volume.c\<close>: its geometry and layout, the reading of the master
  block and the choice of the metaroot at mount, the transaction point that commits the
  working state, and the rollback to the committed state.
\<close>

section \<open>Geometry and layout\<close>

definition SECTOR_SIZE_MIN :: u32 where "SECTOR_SIZE_MIN = 128"
definition MINIMUM_METADATA_BLOCKS :: u32 where "MINIMUM_METADATA_BLOCKS = 5"

text \<open>The loop for the shift; a shift of 32 or more gives zero, and the index is an 8-bit one.\<close>

partial_function (option) sector_shift :: "u32 \<Rightarrow> u32 \<Rightarrow> u8 \<Rightarrow> u8 option" where
  "sector_shift ulSectorSize ulBlockSize bShift =
     (if push_bit (unat bShift) ulSectorSize < ulBlockSize
      then sector_shift ulSectorSize ulBlockSize (bShift + 1) else Some bShift)"

definition geometry_invalid :: "'d env \<Rightarrow> 'd fs \<Rightarrow> bool" where
  "geometry_invalid E s \<longleftrightarrow> (let b = gaRedBdevInfo s (gbRedVolNum s) in
     bi_ulSectorSize b < SECTOR_SIZE_MIN \<or> REDCONF_BLOCK_SIZE E mod bi_ulSectorSize b \<noteq> 0 \<or>
     0xFFFFFFFFFFFFFFFF - vc_ullSectorOffset (gaRedVolConf E (gbRedVolNum s)) < bi_ullSectorCount b)"

definition RedVolInitBlockGeometry :: "'d env \<Rightarrow> ('d, unit) op" where
  "RedVolInitBlockGeometry E = (\<lambda>s.
     if geometry_invalid E s then errE RED_EINVAL s
     else let b = gaRedBdevInfo s (gbRedVolNum s)
       in case sector_shift (bi_ulSectorSize b) (REDCONF_BLOCK_SIZE E) 0 of
            None \<Rightarrow> None
          | Some n \<Rightarrow> modE (upd_vol (\<lambda>v. v\<lparr>vol_bBlockSectorShift := n,
              vol_ulBlockCount := ucast (drop_bit (unat n) (bi_ullSectorCount b))\<rparr>)) s)"

text \<open>The layout that follows from the counts of blocks and of inodes.\<close>

definition imap_nodes :: "'d env \<Rightarrow> u32 \<Rightarrow> u32" where
  "imap_nodes E n = ((n - 3) + ((IMAPNODE_ENTRIES E + 2) - 1)) div (IMAPNODE_ENTRIES E + 2)"

definition init_imap_layout :: "'d env \<Rightarrow> ('d, unit) op" where
  "init_imap_layout E =
     bindE (getE (\<lambda>s. vol_ulBlockCount (gpRedVolume s))) (\<lambda>n.
     if n < MINIMUM_METADATA_BLOCKS then errE RED_EINVAL
     else let fImapInline = n - 3 \<le> METAROOT_ENTRIES E in
       thenE (modE (upd_cv (\<lambda>cv. cv\<lparr>cv_fImapInline := fImapInline\<rparr>)))
         (if fImapInline then
            (if REDCONF_IMAP_INLINE E then modE (upd_cv (\<lambda>cv. cv\<lparr>cv_ulInodeTableStartBN := 3\<rparr>))
             else errE RED_EINVAL)
          else if REDCONF_IMAP_EXTERNAL E then
            let k = imap_nodes E n in
            thenE (modE (upd_cv (\<lambda>cv. cv\<lparr>cv_ulImapStartBN := 3, cv_ulImapNodeCount := k\<rparr>)))
              (if k > METAROOT_ENTRIES E then errE RED_EINVAL
               else modE (upd_cv (\<lambda>cv. cv\<lparr>cv_ulInodeTableStartBN := 3 + k * 2\<rparr>)))
          else errE RED_EINVAL))"

definition RedVolInitBlockLayout :: "'d env \<Rightarrow> ('d, unit) op" where
  "RedVolInitBlockLayout E =
     thenE (init_imap_layout E) (\<lambda>s.
       let cv = gpRedCoreVol s in
       if unat (cv_ulInodeCount cv) * 2 + unat (cv_ulInodeTableStartBN cv) > 0xFFFFFFFF then errE RED_EINVAL s
       else let first = cv_ulInodeTableStartBN cv + cv_ulInodeCount cv * 2 in
         thenE (modE (upd_cv (\<lambda>cv. cv\<lparr>cv_ulFirstAllocableBN := first\<rparr>)))
           (\<lambda>s. if first > vol_ulBlockCount (gpRedVolume s) then errE RED_EINVAL s
             else modE (upd_vol (\<lambda>v. v\<lparr>vol_ulBlocksAllocable := vol_ulBlockCount v - first\<rparr>)) s) s)"

section \<open>The master block\<close>

definition RED_DISK_LAYOUT_ORIGINAL :: u32 where "RED_DISK_LAYOUT_ORIGINAL = 1"
definition RED_DISK_LAYOUT_DIRCRC :: u32 where "RED_DISK_LAYOUT_DIRCRC = 4"
definition RED_DISK_LAYOUT_POSIXIER :: u32 where "RED_DISK_LAYOUT_POSIXIER = 5"

definition RED_DISK_LAYOUT_MINIMUM :: "'d env \<Rightarrow> u32" where
  "RED_DISK_LAYOUT_MINIMUM E =
     (if REDCONF_API_POSIX E \<and> (REDCONF_POSIX_OWNER_PERM E \<or> REDCONF_DELETE_OPEN E \<or> REDCONF_API_POSIX_SYMLINK E)
      then RED_DISK_LAYOUT_POSIXIER else RED_DISK_LAYOUT_ORIGINAL)"

definition RED_DISK_LAYOUT_MAXIMUM :: "'d env \<Rightarrow> u32" where
  "RED_DISK_LAYOUT_MAXIMUM E =
     (if REDCONF_API_POSIX E \<and> REDCONF_NAME_MAX E > REDCONF_BLOCK_SIZE E - 4 - 16
      then RED_DISK_LAYOUT_ORIGINAL else RED_DISK_LAYOUT_POSIXIER)"

definition RED_DISK_LAYOUT_IS_VALID :: "u32 \<Rightarrow> bool" where
  "RED_DISK_LAYOUT_IS_VALID ver \<longleftrightarrow> ver = RED_DISK_LAYOUT_ORIGINAL \<or> ver = RED_DISK_LAYOUT_DIRCRC \<or>
     ver = RED_DISK_LAYOUT_POSIXIER"

definition RED_DISK_LAYOUT_IS_SUPPORTED :: "'d env \<Rightarrow> u32 \<Rightarrow> bool" where
  "RED_DISK_LAYOUT_IS_SUPPORTED E ver \<longleftrightarrow> RED_DISK_LAYOUT_IS_VALID ver \<and>
     ver \<ge> RED_DISK_LAYOUT_MINIMUM E \<and> ver \<le> RED_DISK_LAYOUT_MAXIMUM E"

definition MBFLAG_API_POSIX :: u8 where "MBFLAG_API_POSIX = 0x01"
definition MBFLAG_INODE_TIMESTAMPS :: u8 where "MBFLAG_INODE_TIMESTAMPS = 0x02"
definition MBFLAG_INODE_BLOCKS :: u8 where "MBFLAG_INODE_BLOCKS = 0x04"
definition MBFLAG_INODE_NLINK :: u8 where "MBFLAG_INODE_NLINK = 0x08"
definition MBFLAG_INODE_UIDGID :: u8 where "MBFLAG_INODE_UIDGID = 0x10"
definition MBFLAG_DELETE_OPEN :: u8 where "MBFLAG_DELETE_OPEN = 0x20"
definition MBFEATURE_SYMLINK :: u16 where "MBFEATURE_SYMLINK = 1"
definition MBFEATURE_MASK_INCOMPAT :: u16 where "MBFEATURE_MASK_INCOMPAT = NOT 0"
definition MBFEATURE_MASK_UNWRITEABLE :: "'d env \<Rightarrow> u16" where
  "MBFEATURE_MASK_UNWRITEABLE E = NOT (if REDCONF_API_POSIX E \<and> REDCONF_API_POSIX_SYMLINK E
     then MBFEATURE_SYMLINK else 0)"

definition RED_MOUNT_READONLY :: u32 where "RED_MOUNT_READONLY = 1"
definition RED_MOUNT_SKIP_DELETE :: u32 where "RED_MOUNT_SKIP_DELETE = 4"

text \<open>Whether the configuration has an operation that deletes.\<close>

definition DELETE_SUPPORTED :: "'d env \<Rightarrow> bool" where
  "DELETE_SUPPORTED E \<longleftrightarrow> REDCONF_API_POSIX E \<and>
     (REDCONF_API_POSIX_UNLINK E \<or> REDCONF_API_POSIX_RMDIR E \<or> REDCONF_API_POSIX_RENAME E \<and> REDCONF_RENAME_ATOMIC E)"

definition RED_MOUNT_MASK :: "'d env \<Rightarrow> u32" where
  "RED_MOUNT_MASK E = (if REDCONF_API_POSIX E then RED_MOUNT_READONLY OR
     (if DELETE_SUPPORTED E \<and> REDCONF_DELETE_OPEN E then RED_MOUNT_SKIP_DELETE else 0) else 0)"

definition RED_MOUNT_DEFAULT :: u32 where "RED_MOUNT_DEFAULT = 0"

text \<open>The format options of the master block are those of the configuration.\<close>

definition master_matches :: "'d env \<Rightarrow> bytes \<Rightarrow> 'd fs \<Rightarrow> bool" where
  "master_matches E pMB s \<longleftrightarrow>
     RED_DISK_LAYOUT_IS_SUPPORTED E (mb_ulVersion pMB) \<and>
     mb_ulBlockCount pMB \<le> vol_ulBlockCount (gpRedVolume s) \<and>
     ucast (mb_uMaxNameLen pMB) = REDCONF_NAME_MAX E \<and>
     ucast (mb_uDirectPointers pMB) = REDCONF_DIRECT_POINTERS E \<and>
     ucast (mb_uIndirectPointers pMB) = REDCONF_INDIRECT_POINTERS E \<and>
     unat (mb_bBlockSizeP2 pMB) = BLOCK_SIZE_P2 E \<and>
     (mb_bFlags pMB AND MBFLAG_API_POSIX \<noteq> 0) = REDCONF_API_POSIX E \<and>
     (mb_bFlags pMB AND MBFLAG_INODE_TIMESTAMPS \<noteq> 0) = REDCONF_INODE_TIMESTAMPS E \<and>
     (mb_bFlags pMB AND MBFLAG_INODE_BLOCKS \<noteq> 0) = REDCONF_INODE_BLOCKS E \<and>
     (mb_bFlags pMB AND MBFLAG_INODE_UIDGID \<noteq> 0) = (REDCONF_API_POSIX E \<and> REDCONF_POSIX_OWNER_PERM E) \<and>
     (mb_bFlags pMB AND MBFLAG_DELETE_OPEN \<noteq> 0) = (REDCONF_API_POSIX E \<and> REDCONF_DELETE_OPEN E) \<and>
     mb_uFeaturesIncompat pMB AND MBFEATURE_MASK_INCOMPAT = 0 \<and>
     (mb_ulVersion pMB \<ge> RED_DISK_LAYOUT_POSIXIER \<longrightarrow>
        bi_ulSectorSize (gaRedBdevInfo s (gbRedVolNum s)) = push_bit (unat (mb_bSectorSizeP2 pMB)) 1) \<and>
     (mb_bFlags pMB AND MBFLAG_INODE_NLINK \<noteq> 0) = (REDCONF_API_POSIX E \<and> REDCONF_API_POSIX_LINK E)"

definition RedVolMountMaster :: "'d env \<Rightarrow> u32 \<Rightarrow> ('d, unit) op" where
  "RedVolMountMaster E ulFlags =
     bindE (RedBufferGet E BLOCK_NUM_MASTER BFLAG_META_MASTER) (\<lambda>p.
     bindE (getE (buf_at E p)) (\<lambda>pMB.
     finallyE
       (bindE (getE (master_matches E pMB)) (\<lambda>ok.
          if \<not> ok then errE RED_EIO
          else thenE (modE (\<lambda>s. upd_vol (\<lambda>v. v\<lparr>vol_ullSequence := hdr_ullSequence pMB,
                    vol_ulBlockCount := mb_ulBlockCount pMB\<rparr>)
                 (upd_cv (\<lambda>cv. cv\<lparr>cv_ulVersion := mb_ulVersion pMB, cv_ulInodeCount := mb_ulInodeCount pMB\<rparr>) s)))
            (thenE (RedVolInitBlockLayout E)
              (thenE (modE (upd_vol (\<lambda>v. v\<lparr>vol_fReadOnly := ulFlags AND RED_MOUNT_READONLY \<noteq> 0\<rparr>)))
                (bindE (getE (\<lambda>s. \<not> vol_fReadOnly (gpRedVolume s) \<and>
                     mb_uFeaturesReadOnly pMB AND MBFEATURE_MASK_UNWRITEABLE E \<noteq> 0)) (\<lambda>rofs.
                  if rofs then errE RED_EROFS else okE ()))))))
       (modE (RedBufferDiscard E p))))"

section \<open>The metaroots\<close>

text \<open>The two sums of a metaroot: over its first sector, and on over the rest of the block.\<close>

definition sector_crc :: "'d env \<Rightarrow> u8 \<Rightarrow> u32 \<Rightarrow> bytes \<Rightarrow> u32" where
  "sector_crc E bMR ulSectorSize mr = RedCrc32Update (REDCONF_CRC_ALGORITHM E) (REDCONF_ALIGNMENT_SIZE E)
     (aMR_address E + unat bMR * BSIZE E + 8) 0 (Some (drop 8 mr)) (ulSectorSize - 8)"

definition block_crc :: "'d env \<Rightarrow> u8 \<Rightarrow> u32 \<Rightarrow> u32 \<Rightarrow> bytes \<Rightarrow> u32" where
  "block_crc E bMR ulSectorSize crc mr = RedCrc32Update (REDCONF_CRC_ALGORITHM E) (REDCONF_ALIGNMENT_SIZE E)
     (aMR_address E + unat bMR * BSIZE E + unat ulSectorSize) crc (Some (drop (unat ulSectorSize) mr))
     (REDCONF_BLOCK_SIZE E - ulSectorSize)"

text \<open>
  The validity of the metaroot, the validity of the sum of its first sector, and the
  metaroot, in which the sum of the sector is cleared.
\<close>

definition MetarootIsValid :: "'d env \<Rightarrow> u32 \<Rightarrow> u8 \<Rightarrow> bytes \<Rightarrow> (bool \<times> bool) \<times> bytes" where
  "MetarootIsValid E ulSectorSize bMR pMR =
     (if hdr_ulSignature pMR \<noteq> META_SIG_METAROOT then ((False, False), pMR)
      else let ulSectorCRC = mr_ulSectorCRC pMR;
               pMR = put32 mr_off_ulSectorCRC 0 pMR;
               ulCRC = sector_crc E bMR ulSectorSize pMR
        in if ulCRC \<noteq> ulSectorCRC then ((False, False), pMR)
           else ((block_crc E bMR ulSectorSize ulCRC pMR = hdr_ulCRC pMR, True), pMR))"

definition cur_sector_size :: "'d fs \<Rightarrow> u32" where
  "cur_sector_size s = bi_ulSectorSize (gaRedBdevInfo s (gbRedVolNum s))"

definition check_metaroot :: "'d env \<Rightarrow> u8 \<Rightarrow> ('d, bool \<times> bool) op" where
  "check_metaroot E bMR = (\<lambda>s.
     let (v, mr) = MetarootIsValid E (cur_sector_size s) bMR (cv_aMR (gpRedCoreVol s) bMR)
     in Some (Inr v, upd_aMR bMR (\<lambda>_. mr) s))"

text \<open>A metaroot is read into its place; what a failed read left there stays.\<close>

definition read_metaroot :: "'d env \<Rightarrow> u8 \<Rightarrow> ('d, rederr + unit) op" where
  "read_metaroot E bMR =
     bindE (getE gbRedVolNum) (\<lambda>v.
     bindE (getE (\<lambda>s. cv_aMR (gpRedCoreVol s) bMR)) (\<lambda>old.
     bindE (RedIoRead E v (BLOCK_NUM_FIRST_METAROOT + ucast bMR) 1 old) (\<lambda>(ret, new).
     thenE (modE (upd_aMR bMR (\<lambda>_. new))) (okE ret))))"

text \<open>The choice: the valid metaroot with the larger sequence number, if there is one.\<close>

definition torn_is_error :: "'d env \<Rightarrow> 'd fs \<Rightarrow> bool \<times> bool \<Rightarrow> bool" where
  "torn_is_error E s v \<longleftrightarrow> \<not> fst v \<and> vc_fAtomicSectorWrite (gaRedVolConf E (gbRedVolNum s)) \<and> \<not> snd v"

definition choose_metaroot :: "'d env \<Rightarrow> bool \<Rightarrow> bool \<Rightarrow> ('d, u8) op" where
  "choose_metaroot E read0 read1 =
     bindE (if read0 then
              bindE (check_metaroot E 0) (\<lambda>v.
              bindE (getE (\<lambda>s. torn_is_error E s v)) (\<lambda>torn.
              if torn then errE RED_EIO else okE (fst v)))
            else okE False) (\<lambda>valid0.
     bindE (if read1 then
              bindE (check_metaroot E 1) (\<lambda>v.
              bindE (getE (\<lambda>s. torn_is_error E s v)) (\<lambda>torn.
              bindE (getE (\<lambda>s. \<not> valid0 \<or> hdr_ullSequence (cv_aMR (gpRedCoreVol s) 1) >
                 hdr_ullSequence (cv_aMR (gpRedCoreVol s) 0))) (\<lambda>newer.
              if torn then errE RED_EIO
              else okE (if fst v \<and> newer then Some 1 else if valid0 then Some 0 else None))))
            else okE (if valid0 then Some 0 else None)) (\<lambda>bMR.
     case bMR of None \<Rightarrow> errE RED_EIO | Some b \<Rightarrow> okE b))"

text \<open>The mounted volume works on a copy of the metaroot chosen.\<close>

definition start_working_state :: "'d fs \<Rightarrow> 'd fs" where
  "start_working_state s = upd_cv (\<lambda>cv. cv\<lparr>cv_fUseReservedBlocks := False, cv_ulAlmostFreeBlocks := 0,
       cv_aMR := (cv_aMR cv)(1 - cv_bCurMR cv := cv_aMR cv (cv_bCurMR cv)), cv_bCurMR := 1 - cv_bCurMR cv\<rparr>)
     (upd_vol (\<lambda>v. v\<lparr>vol_fMounted := True\<rparr>) s)"

definition RedVolMountMetaroot :: "'d env \<Rightarrow> u32 \<Rightarrow> ('d, unit) op" where
  "RedVolMountMetaroot E ulFlags =
     bindE (read_metaroot E 0) (\<lambda>retMR0.
     bindE (read_metaroot E 1) (\<lambda>retMR1.
     case (retMR0, retMR1) of
       (Inl e, Inl _) \<Rightarrow> errE e
     | _ \<Rightarrow>
       bindE (choose_metaroot E (is_ok retMR0) (is_ok retMR1)) (\<lambda>bMR.
       thenE (modE (upd_cv (\<lambda>cv. cv\<lparr>cv_bCurMR := bMR\<rparr>)))
         (thenE (modE (\<lambda>s. upd_vol (\<lambda>v. v\<lparr>vol_ullSequence :=
              max (vol_ullSequence v) (hdr_ullSequence (gpRedMR s))\<rparr>) s))
           (bindE (getE gbRedVolNum) (\<lambda>v.
            thenE (RedVolSeqNumIncrement E v) (modE start_working_state)))))))"

section \<open>Transactions\<close>

definition seal_metaroot :: "'d env \<Rightarrow> 'd fs \<Rightarrow> 'd fs" where
  "seal_metaroot E s =
     (let b = cv_bCurMR (gpRedCoreVol s); n = cur_sector_size s in
      upd_MR (\<lambda>mr.
        let mr = put32 mr_off_ulSectorCRC 0 mr;
            ulSectorCRC = sector_crc E b n mr;
            crc = (if n < REDCONF_BLOCK_SIZE E then block_crc E b n ulSectorCRC mr else ulSectorCRC)
        in put32 mr_off_ulSectorCRC ulSectorCRC (put32 NODEHEADER_OFFSET_CRC crc mr)) s)"

definition commit_working_state :: "'d fs \<Rightarrow> 'd fs" where
  "commit_working_state s = upd_cv (\<lambda>cv. cv\<lparr>cv_aMR := (cv_aMR cv)(1 - cv_bCurMR cv := cv_aMR cv (cv_bCurMR cv)),
     cv_bCurMR := 1 - cv_bCurMR cv, cv_fBranched := False\<rparr>) s"

definition free_almost_free :: "'d fs \<Rightarrow> 'd fs" where
  "free_almost_free s = upd_cv (\<lambda>cv. cv\<lparr>cv_ulAlmostFreeBlocks := 0\<rparr>)
     (set_ulFreeBlocks (\<lambda>n. n + cv_ulAlmostFreeBlocks (gpRedCoreVol s)) s)"

definition sign_metaroot :: "'d fs \<Rightarrow> 'd fs" where
  "sign_metaroot s = upd_MR (\<lambda>mr. put64 NODEHEADER_OFFSET_SEQ (vol_ullSequence (gpRedVolume s))
     (put32 NODEHEADER_OFFSET_SIG META_SIG_METAROOT mr)) s"

definition transact_body :: "'d env \<Rightarrow> ('d, unit) op" where
  "transact_body E =
     thenE (modE free_almost_free)
       (bindE (getE (\<lambda>s. vol_ulBlockCount (gpRedVolume s))) (\<lambda>n.
        thenE (RedBufferFlushRange E 0 n)
          (thenE (modE sign_metaroot)
            (bindE (getE gbRedVolNum) (\<lambda>v.
             thenE (RedVolSeqNumIncrement E v)
              (thenE (modE (seal_metaroot E))
                (thenE (RedIoFlush E v)
                  (thenE (\<lambda>s. RedIoWrite E v (BLOCK_NUM_FIRST_METAROOT + ucast (cv_bCurMR (gpRedCoreVol s)))
                            1 (gpRedMR s) s)
                    (thenE (RedIoFlush E v)
                      (modE commit_working_state))))))))))"

definition RedVolTransact :: "'d env \<Rightarrow> ('d, unit) op" where
  "RedVolTransact E =
     bindE (getE (\<lambda>s. cv_fBranched (gpRedCoreVol s))) (\<lambda>branched.
     if \<not> branched then okE () else critical_if_error (transact_body E))"

definition RedVolRollback :: "'d env \<Rightarrow> ('d, unit) op" where
  "RedVolRollback E =
     bindE (getE (\<lambda>s. cv_fBranched (gpRedCoreVol s))) (\<lambda>branched.
     if \<not> branched then okE ()
     else critical_if_error
       (bindE (getE (\<lambda>s. vol_ulBlockCount (gpRedVolume s))) (\<lambda>n.
        thenE (RedBufferDiscardRange E 0 n)
          (thenE (RedVolMountMaster E RED_MOUNT_DEFAULT)
            (thenE (RedVolMountMetaroot E RED_MOUNT_DEFAULT)
              (modE (upd_cv (cv_fBranched_update (\<lambda>_. False)))))))))"

section \<open>Free space\<close>

definition RedVolFreeBlockCount :: "'d env \<Rightarrow> 'd fs \<Rightarrow> u32" where
  "RedVolFreeBlockCount E s =
     (let cv = gpRedCoreVol s;
          ulFreeBlocks = mr_ulFreeBlocks (gpRedMR s);
          ulFreeBlocks = (if RESERVED_BLOCKS E > 0 \<and> \<not> cv_fUseReservedBlocks cv then
              (if ulFreeBlocks \<ge> RESERVED_BLOCKS E then ulFreeBlocks - RESERVED_BLOCKS E else 0)
            else ulFreeBlocks)
      in if REDCONF_API_POSIX E \<and> REDCONF_API_POSIX_FRESERVE E \<and> \<not> cv_fUseReservedInodeBlocks cv then
           let ulFreeBlocks = (if ulFreeBlocks < cv_ulReservedInodeBlocks cv then 0
                 else ulFreeBlocks - cv_ulReservedInodeBlocks cv)
           in if cv_ulReservedInodes cv > 0
              then ulFreeBlocks - min ulFreeBlocks (cv_ulReservedInodes cv * INODE_MAX_DEPTH E)
              else ulFreeBlocks
         else ulFreeBlocks)"

section \<open>Numbers in messages\<close>

text \<open>The digits, the last one first, and their copy into the buffer from the first on.\<close>

fun u32_digits :: "nat \<Rightarrow> u8 list" where
  "u32_digits n = word_of_nat (48 + n mod 10) # (if n div 10 > 0 then u32_digits (n div 10) else [])"

definition U32toStr :: "bytes \<Rightarrow> u32 \<Rightarrow> u32 \<Rightarrow> bytes \<times> u32" where
  "U32toStr pcBuffer ulBufferLen ulNum =
     (let out = take (unat ulBufferLen) (rev (u32_digits (unat ulNum)))
      in (out @ drop (length out) pcBuffer, word_of_nat (length out)))"

end
