(* ===== verification/Red_VolCommit.thy ===== *)
theory Red_VolCommit
  imports Red_Volume
begin

text \<open>
  The commit of the working state: the metaroot that \<^verbatim>\<open>RedVolTransact\<close> seals is valid, and a
  commit leaves a block map in which both states are the same and the counters are right.
\<close>

section \<open>The sums of a metaroot\<close>

definition sector_ok :: "'d env \<Rightarrow> u32 \<Rightarrow> bool" where
  "sector_ok E n \<longleftrightarrow> env_ok E \<and> SECTOR_SIZE_MIN \<le> n \<and> n \<le> REDCONF_BLOCK_SIZE E"

lemma sector_ok_nat: "sector_ok E n \<Longrightarrow> 128 \<le> unat n \<and> unat n \<le> BSIZE E"
  by (simp add: sector_ok_def SECTOR_SIZE_MIN_def word_le_nat_alt)

lemma sector_crc_eq:
  assumes "sector_ok E n" and "length mr = BSIZE E"
  shows "sector_crc E b n mr = crc_reference 0 (slice 8 (unat n - 8) mr)"
proof -
  have n: "unat (n - 8) = unat n - 8"
    using sector_ok_nat [OF assms(1)] by (subst unat_sub_le) (simp_all add: word_le_nat_alt)
  then have "unat (n - 8) \<le> length (drop 8 mr)" using sector_ok_nat [OF assms(1)] assms(2) by (simp add: diff_le_mono)
  from RedCrc32Update_reference [OF this] n show ?thesis by (simp add: sector_crc_def slice_def)
qed

lemma block_crc_eq:
  assumes "sector_ok E n" and "length mr = BSIZE E"
  shows "block_crc E b n crc mr = crc_reference crc (drop (unat n) mr)"
proof -
  have n: "unat (REDCONF_BLOCK_SIZE E - n) = BSIZE E - unat n"
    using assms(1) by (subst unat_sub_le) (simp_all add: sector_ok_def)
  then have "unat (REDCONF_BLOCK_SIZE E - n) \<le> length (drop (unat n) mr)" using assms(2) by simp
  from RedCrc32Update_reference [OF this] n assms(2) show ?thesis by (simp add: block_crc_def)
qed

text \<open>Fields put one after the other.\<close>

lemma overwrite_twice: "length a = length b \<Longrightarrow> off + length b \<le> length xs \<Longrightarrow>
    overwrite off a (overwrite off b xs) = overwrite off a xs"
  by (simp add: overwrite_def)

lemma put32_twice: "off + 4 \<le> length mr \<Longrightarrow> put32 off v (put32 off w mr) = put32 off v mr"
  by (simp add: put32_def overwrite_twice)

lemma slice_put32_below:
  assumes "off + 4 \<le> length mr" and "off + 4 \<le> k"
  shows "slice k n (put32 off v mr) = slice k n mr"
  by (rule slice_put(2)) (use assms in auto)

lemma put32_swap:
  assumes "a + 4 \<le> b" and "b + 4 \<le> length mr"
  shows "put32 b v (put32 a w mr) = put32 a w (put32 b v mr)"
  using assms by (simp add: put32_def overwrite_def min_def drop_take)

definition sealed :: "'d env \<Rightarrow> u32 \<Rightarrow> bytes \<Rightarrow> bytes" where
  "sealed E n mr =
     (let mr = put32 mr_off_ulSectorCRC 0 mr;
          c = crc_reference 0 (slice 8 (unat n - 8) mr);
          d = crc_reference c (drop (unat n) mr)
      in put32 mr_off_ulSectorCRC c (put32 NODEHEADER_OFFSET_CRC d mr))"

lemma seal_metaroot_eq:
  assumes n: "sector_ok E (cur_sector_size s)" and len: "length (gpRedMR s) = BSIZE E"
  shows "seal_metaroot E s = upd_MR (\<lambda>_. sealed E (cur_sector_size s) (gpRedMR s)) s"
proof -
  let ?b = "cv_bCurMR (gpRedCoreVol s)" and ?n = "cur_sector_size s"
  let ?mr = "put32 mr_off_ulSectorCRC 0 (gpRedMR s)"
  have len': "length ?mr = BSIZE E" using len sector_ok_nat [OF n] by (simp add: mr_off_ulSectorCRC_def)
  have "crc_reference x [] = x" for x by (simp add: crc_reference_def)
  moreover have "\<not> ?n < REDCONF_BLOCK_SIZE E \<Longrightarrow> drop (unat ?n) ?mr = []"
    using len' by (simp add: word_less_nat_alt)
  ultimately show ?thesis
    by (cases "?n < REDCONF_BLOCK_SIZE E")
      (simp_all add: seal_metaroot_def Let_def sealed_def upd_MR_def upd_aMR_def upd_cv_def gpRedMR_def [symmetric]
        sector_crc_eq [OF n len'] block_crc_eq [OF n len'])
qed

lemma sealed_cleared:
  assumes n: "sector_ok E n" and len: "length mr = BSIZE E"
  shows "\<exists>d. put32 mr_off_ulSectorCRC 0 (sealed E n mr) = put32 NODEHEADER_OFFSET_CRC d (put32 mr_off_ulSectorCRC 0 mr) \<and>
    mr_ulSectorCRC (sealed E n mr) = crc_reference 0 (slice 8 (unat n - 8) (put32 mr_off_ulSectorCRC 0 mr)) \<and>
    d = crc_reference (mr_ulSectorCRC (sealed E n mr)) (drop (unat n) (put32 mr_off_ulSectorCRC 0 mr))"
proof -
  define m0 where "m0 = put32 mr_off_ulSectorCRC 0 mr"
  define c where "c = crc_reference 0 (slice 8 (unat n - 8) m0)"
  define d where "d = crc_reference c (drop (unat n) m0)"
  have l: "20 \<le> length mr" using sector_ok_nat [OF n] len by simp
  have s: "sealed E n mr = put32 mr_off_ulSectorCRC c (put32 NODEHEADER_OFFSET_CRC d m0)"
    by (simp add: sealed_def Let_def m0_def c_def d_def)
  have m: "put32 mr_off_ulSectorCRC c (put32 NODEHEADER_OFFSET_CRC d m0) =
      put32 NODEHEADER_OFFSET_CRC d (put32 mr_off_ulSectorCRC c mr)" for c
    using l by (subst put32_swap) (simp_all add: m0_def mr_off_ulSectorCRC_def NODEHEADER_OFFSET_CRC_def put32_twice)
  have "put32 mr_off_ulSectorCRC 0 (sealed E n mr) = put32 NODEHEADER_OFFSET_CRC d m0"
    unfolding s using l m [of 0]
    by (subst put32_twice) (simp_all add: mr_off_ulSectorCRC_def NODEHEADER_OFFSET_CRC_def m0_def put32_twice)
  moreover have "mr_ulSectorCRC (sealed E n mr) = c"
    unfolding s mr_ulSectorCRC_def using l
    by (intro get_put_same) (simp add: m0_def mr_off_ulSectorCRC_def NODEHEADER_OFFSET_CRC_def)
  ultimately show ?thesis by (auto simp: m0_def c_def d_def)
qed

lemma sealed_valid:
  assumes n: "sector_ok E n" and len: "length mr = BSIZE E" and sig: "hdr_ulSignature mr = META_SIG_METAROOT"
  shows "MetarootIsValid E n b (sealed E n mr) = ((True, True), put32 mr_off_ulSectorCRC 0 (sealed E n mr))"
proof -
  let ?m0 = "put32 mr_off_ulSectorCRC 0 mr"
  have l: "128 \<le> unat n" "unat n \<le> length mr" using sector_ok_nat [OF n] len by simp_all
  from sealed_cleared [OF n len] obtain d where
    cl: "put32 mr_off_ulSectorCRC 0 (sealed E n mr) = put32 NODEHEADER_OFFSET_CRC d ?m0"
    and c: "mr_ulSectorCRC (sealed E n mr) = crc_reference 0 (slice 8 (unat n - 8) ?m0)"
    and d: "d = crc_reference (mr_ulSectorCRC (sealed E n mr)) (drop (unat n) ?m0)" by blast
  have l0: "length ?m0 = BSIZE E" using l len by (simp add: mr_off_ulSectorCRC_def)
  have lc: "length (put32 NODEHEADER_OFFSET_CRC d ?m0) = BSIZE E"
    using l l0 len by (simp add: NODEHEADER_OFFSET_CRC_def)
  have sg: "hdr_ulSignature (sealed E n mr) = META_SIG_METAROOT"
    using sig l by (simp add: sealed_def Let_def hdr_ulSignature_def get32_def get_le_def slice_put
        mr_off_ulSectorCRC_def NODEHEADER_OFFSET_SIG_def NODEHEADER_OFFSET_CRC_def)
  have s8: "slice 8 k (put32 NODEHEADER_OFFSET_CRC d ?m0) = slice 8 k ?m0" for k
    using l l0 len by (intro slice_put32_below) (simp_all add: NODEHEADER_OFFSET_CRC_def)
  have dn: "drop (unat n) (put32 NODEHEADER_OFFSET_CRC d ?m0) = drop (unat n) ?m0"
    using l l0 len by (intro drop_put) (simp_all add: NODEHEADER_OFFSET_CRC_def)
  have hc: "hdr_ulCRC (put32 NODEHEADER_OFFSET_CRC d ?m0) = d"
    using l l0 len unfolding hdr_ulCRC_def by (intro get_put_same) (simp add: NODEHEADER_OFFSET_CRC_def)
  have sc: "sector_crc E b n (put32 NODEHEADER_OFFSET_CRC d ?m0) = mr_ulSectorCRC (sealed E n mr)"
    unfolding sector_crc_eq [OF n lc] s8 c ..
  have bc: "block_crc E b n (mr_ulSectorCRC (sealed E n mr)) (put32 NODEHEADER_OFFSET_CRC d ?m0) = d"
    unfolding block_crc_eq [OF n lc] dn by (rule d [symmetric])
  show ?thesis by (simp add: MetarootIsValid_def Let_def cl sc bc hc sg)
qed

section \<open>The commit\<close>

text \<open>The fields of the metaroot that the map reads are not touched by the seal.\<close>

definition same_map_fields :: "'d env \<Rightarrow> bytes \<Rightarrow> bytes \<Rightarrow> bool" where
  "same_map_fields E a b \<longleftrightarrow> length b = length a \<and> mr_abEntries E b = mr_abEntries E a \<and>
     mr_ulFreeBlocks b = mr_ulFreeBlocks a \<and> mr_ulAllocNextBlock E b = mr_ulAllocNextBlock E a"

lemma same_map_fields_trans: "same_map_fields E a b \<Longrightarrow> same_map_fields E b c \<Longrightarrow> same_map_fields E a c"
  by (simp add: same_map_fields_def)

lemma same_map_fields_put:
  assumes "44 \<le> length mr"
  shows "off + 4 \<le> 20 \<Longrightarrow> same_map_fields E mr (put32 off v mr)"
    and "off + 8 \<le> 20 \<Longrightarrow> same_map_fields E mr (put64 off w mr)"
  using assms by (auto simp: same_map_fields_def mr_abEntries_def mr_ulFreeBlocks_def mr_ulAllocNextBlock_def
      get32_def get_le_def mr_offsets NODEHEADER_SIZE_def drop_put slice_put)

lemma same_map_fields_sealed: "44 \<le> length mr \<Longrightarrow> same_map_fields E mr (sealed E n mr)"
  unfolding sealed_def Let_def
  by (intro same_map_fields_trans [OF _ same_map_fields_put(1)] same_map_fields_put(1))
    (simp_all add: mr_off_ulSectorCRC_def NODEHEADER_OFFSET_CRC_def)

definition committed_mr :: "'d env \<Rightarrow> u32 \<Rightarrow> u64 \<Rightarrow> u32 \<Rightarrow> bytes \<Rightarrow> bytes" where
  "committed_mr E n seq almost mr = sealed E n (put64 NODEHEADER_OFFSET_SEQ seq
     (put32 NODEHEADER_OFFSET_SIG META_SIG_METAROOT (put32 mr_off_ulFreeBlocks (mr_ulFreeBlocks mr + almost) mr)))"

lemma RedVolSeqNumIncrement_Inr: "RedVolSeqNumIncrement E v s = Some (Inr (), t) \<Longrightarrow>
    t = set_vol v (\<lambda>w. w\<lparr>vol_ullSequence := vol_ullSequence w + 1\<rparr>) s"
  by (auto simp: RedVolSeqNumIncrement_def thenE_Inr [OF CRITICAL_ERROR_app] split: if_splits)

lemma transact_run:
  assumes e: "env_ok E" and inv: "buf_inv E s" and br: "cv_fBranched (gpRedCoreVol s)"
    and len: "length (gpRedMR s) = BSIZE E" and n: "sector_ok E (cur_sector_size s)"
    and run: "RedVolTransact E s = Some (Inr (), t)"
  obtains seq where
    "gpRedCoreVol t = (let m = committed_mr E (cur_sector_size s) seq (cv_ulAlmostFreeBlocks (gpRedCoreVol s)) (gpRedMR s)
      in (gpRedCoreVol s)\<lparr>cv_aMR := (cv_aMR (gpRedCoreVol s))(cv_bCurMR (gpRedCoreVol s) := m, other_MR s := m),
        cv_ulAlmostFreeBlocks := 0, cv_bCurMR := other_MR s, cv_fBranched := False\<rparr>)"
    and "buf_inv E t" and "vol_ulBlockCount (gpRedVolume t) = vol_ulBlockCount (gpRedVolume s)"
    and "vol_ulBlocksAllocable (gpRedVolume t) = vol_ulBlocksAllocable (gpRedVolume s)"
    and "cur_sector_size t = cur_sector_size s"
proof -
  let ?v = "gbRedVolNum s" and ?n = "vol_ulBlockCount (gpRedVolume s)"
  let ?a = "free_almost_free s"
  have av: "gbRedVolNum ?a = ?v" "gpRedVolume ?a = gpRedVolume s" "gBufCtx ?a = gBufCtx s"
    by (simp_all add: free_almost_free_def set_ulFreeBlocks_def)
  from run br have "transact_body E s = Some (Inr (), t)"
    by (simp add: RedVolTransact_def critical_if_error_Inr)
  then obtain b d f g h where b: "RedBufferFlushRange E 0 ?n ?a = Some (Inr (), b)"
    and d: "RedVolSeqNumIncrement E (gbRedVolNum (sign_metaroot b)) (sign_metaroot b) = Some (Inr (), d)"
    and f: "RedIoFlush E (gbRedVolNum (sign_metaroot b)) (seal_metaroot E d) = Some (Inr (), f)"
    and g: "RedIoWrite E (gbRedVolNum (sign_metaroot b)) (BLOCK_NUM_FIRST_METAROOT + ucast (cv_bCurMR (gpRedCoreVol f)))
      1 (gpRedMR f) f = Some (Inr (), g)"
    and h: "RedIoFlush E (gbRedVolNum (sign_metaroot b)) g = Some (Inr (), h)"
    and t: "t = commit_working_state h"
    by (auto simp: transact_body_def thenE_Inr_Some av)
  let ?cv = "gpRedCoreVol s" and ?sz = "cur_sector_size s"
  let ?m1 = "put32 mr_off_ulFreeBlocks (mr_ulFreeBlocks (gpRedMR s) + cv_ulAlmostFreeBlocks ?cv) (gpRedMR s)"
  have ca: "gpRedCoreVol ?a = ?cv\<lparr>cv_aMR := (cv_aMR ?cv)(cv_bCurMR ?cv := ?m1), cv_ulAlmostFreeBlocks := 0\<rparr>"
    by (simp add: free_almost_free_def set_ulFreeBlocks_def upd_MR_cv)
  have "buf_inv E ?a" using inv by (simp add: buf_inv_def av)
  note fb = RedBufferFlushRange_effect [OF e this b]
  note bg = buf_frame_globals [OF conjunct1 [OF fb]]
  define seq where "seq = vol_ullSequence (gpRedVolume b)"
  let ?m2 = "put64 NODEHEADER_OFFSET_SEQ seq (put32 NODEHEADER_OFFSET_SIG META_SIG_METAROOT ?m1)"
  have cc: "gpRedCoreVol (sign_metaroot b) =
      ?cv\<lparr>cv_aMR := (cv_aMR ?cv)(cv_bCurMR ?cv := ?m2), cv_ulAlmostFreeBlocks := 0\<rparr>"
    using bg(4,5) by (simp add: sign_metaroot_def upd_MR_cv ca gpRedMR_def seq_def)
  have dd: "d = set_vol (gbRedVolNum (sign_metaroot b)) (\<lambda>w. w\<lparr>vol_ullSequence := vol_ullSequence w + 1\<rparr>) (sign_metaroot b)"
    by (rule RedVolSeqNumIncrement_Inr [OF d])
  have mr: "gpRedMR d = ?m2" by (simp add: dd gpRedMR_def cc)
  have szb: "cur_sector_size d = ?sz"
    using bg by (simp add: dd cur_sector_size_def sign_metaroot_def av) (simp add: free_almost_free_def set_ulFreeBlocks_def)
  have ml: "length ?m2 = BSIZE E"
    using len BSIZE_ge [OF e] by (simp add: NODEHEADER_OFFSET_SEQ_def NODEHEADER_OFFSET_SIG_def mr_off_ulFreeBlocks_def)
  have se: "seal_metaroot E d = upd_MR (\<lambda>_. sealed E ?sz ?m2) d"
    using seal_metaroot_eq [of E d] n ml by (simp add: szb mr)
  have io: "io_frame (seal_metaroot E d) h"
    using RedIoFlush_frame [OF f] RedIoWrite_frame [OF g] RedIoFlush_frame [OF h] by (blast intro: io_frame_trans)
  note hg = buf_frame_globals [OF buf_frame_io [OF io]]
  have ch: "gpRedCoreVol h = ?cv\<lparr>cv_aMR := (cv_aMR ?cv)(cv_bCurMR ?cv := sealed E ?sz ?m2), cv_ulAlmostFreeBlocks := 0\<rparr>"
    using hg(4) by (simp add: se upd_MR_cv) (simp add: dd cc)
  have sd: "gBufCtx (seal_metaroot E d) = gBufCtx d" "gpRedVolume (seal_metaroot E d) = gpRedVolume d"
    "gaRedBdevInfo (seal_metaroot E d) = gaRedBdevInfo d" "gbRedVolNum (seal_metaroot E d) = gbRedVolNum d"
    by (simp_all add: se)
  have db: "gBufCtx d = gBufCtx b" "vol_ulBlockCount (gpRedVolume d) = vol_ulBlockCount (gpRedVolume b)"
    "vol_ulBlocksAllocable (gpRedVolume d) = vol_ulBlocksAllocable (gpRedVolume b)"
    by (simp_all add: dd sign_metaroot_def gpRedVolume_def set_vol_def)
  have tx: "gBufCtx t = gBufCtx h" "gpRedVolume t = gpRedVolume h" "gaRedBdevInfo t = gaRedBdevInfo h"
    "gbRedVolNum t = gbRedVolNum h" by (simp_all add: t commit_working_state_def)
  show ?thesis
  proof (rule that [of seq])
    show "gpRedCoreVol t = (let m = committed_mr E ?sz seq (cv_ulAlmostFreeBlocks ?cv) (gpRedMR s)
      in ?cv\<lparr>cv_aMR := (cv_aMR ?cv)(cv_bCurMR ?cv := m, other_MR s := m),
        cv_ulAlmostFreeBlocks := 0, cv_bCurMR := other_MR s, cv_fBranched := False\<rparr>)"
      by (simp add: t commit_working_state_def ch other_MR_def committed_mr_def Let_def)
  next
    show "buf_inv E t" using fb io sd db by (simp add: buf_inv_def tx io_frame_def)
  next
    show "vol_ulBlockCount (gpRedVolume t) = vol_ulBlockCount (gpRedVolume s)"
      "vol_ulBlocksAllocable (gpRedVolume t) = vol_ulBlocksAllocable (gpRedVolume s)"
      using hg(11,12) bg(11,12) by (simp_all add: tx(2) sd(2) db(2,3) av)
  next
    show "cur_sector_size t = ?sz" using hg szb by (simp add: cur_sector_size_def tx sd)
  qed
qed

text \<open>The metaroot that was committed.\<close>

lemma committed_mr_fields:
  assumes n: "sector_ok E n" and len: "length mr = BSIZE E"
  shows "length (committed_mr E n seq k mr) = BSIZE E"
    and "mr_abEntries E (committed_mr E n seq k mr) = mr_abEntries E mr"
    and "mr_ulFreeBlocks (committed_mr E n seq k mr) = mr_ulFreeBlocks mr + k"
    and "mr_ulAllocNextBlock E (committed_mr E n seq k mr) = mr_ulAllocNextBlock E mr"
    and "fst (MetarootIsValid E n b (committed_mr E n seq k mr)) = (True, True)"
proof -
  have e: "env_ok E" using n by (simp add: sector_ok_def)
  have l: "44 \<le> length mr" using BSIZE_ge [OF e] len by simp
  let ?m1 = "put32 mr_off_ulFreeBlocks (mr_ulFreeBlocks mr + k) mr"
  let ?m2 = "put64 NODEHEADER_OFFSET_SEQ seq (put32 NODEHEADER_OFFSET_SIG META_SIG_METAROOT ?m1)"
  note h = mr_header_fields [OF e len]
  have l2: "length ?m2 = BSIZE E" using l len
    by (simp add: mr_off_ulFreeBlocks_def NODEHEADER_OFFSET_SEQ_def NODEHEADER_OFFSET_SIG_def)
  have "same_map_fields E ?m1 (committed_mr E n seq k mr)"
    unfolding committed_mr_def using l
    by (intro same_map_fields_trans [OF _ same_map_fields_sealed] same_map_fields_trans [OF _ same_map_fields_put(2)]
        same_map_fields_put(1)) (simp_all add: h mr_off_ulFreeBlocks_def NODEHEADER_OFFSET_SEQ_def NODEHEADER_OFFSET_SIG_def)
  then show "length (committed_mr E n seq k mr) = BSIZE E"
    "mr_abEntries E (committed_mr E n seq k mr) = mr_abEntries E mr"
    "mr_ulFreeBlocks (committed_mr E n seq k mr) = mr_ulFreeBlocks mr + k"
    "mr_ulAllocNextBlock E (committed_mr E n seq k mr) = mr_ulAllocNextBlock E mr"
    by (simp_all add: same_map_fields_def h len)
  have "hdr_ulSignature ?m2 = META_SIG_METAROOT"
    unfolding hdr_ulSignature_def get32_def get_le_def using l
    by (simp add: slice_put mr_off_ulFreeBlocks_def NODEHEADER_OFFSET_SEQ_def NODEHEADER_OFFSET_SIG_def)
      (simp add: get_put_same [unfolded get32_def get_le_def])
  from sealed_valid [OF n l2 this] show "fst (MetarootIsValid E n b (committed_mr E n seq k mr)) = (True, True)"
    by (simp add: committed_mr_def)
qed

lemma transact_lemma:
  assumes inv: "imap_inv E s" and n: "sector_ok E (cur_sector_size s)" and br: "cv_fBranched (gpRedCoreVol s)"
    and run: "RedVolTransact E s = Some (Inr (), t)"
  shows "imap_inv E t" and "\<not> cv_fBranched (gpRedCoreVol t)"
    and "gpRedMR t = cv_aMR (gpRedCoreVol t) (other_MR t)"
    and "fst (MetarootIsValid E (cur_sector_size t) b (gpRedMR t)) = (True, True)"
    and "ibit E t (cv_bCurMR (gpRedCoreVol t)) c = ibit E s (cv_bCurMR (gpRedCoreVol s)) c"
    and "ibit E t (other_MR t) c = ibit E s (cv_bCurMR (gpRedCoreVol s)) c"
    and "mr_ulFreeBlocks (gpRedMR t) = mr_ulFreeBlocks (gpRedMR s) + cv_ulAlmostFreeBlocks (gpRedCoreVol s)"
    and "cv_ulAlmostFreeBlocks (gpRedCoreVol t) = 0"
proof -
  have ok: "imapi_ok E s" and bi: "buf_inv E s" and e: "env_ok E"
    using inv by (simp_all add: imap_inv_def imapi_ok_def)
  note len = gpRedMR_length [OF ok]
  obtain seq where cv: "gpRedCoreVol t = (let m = committed_mr E (cur_sector_size s) seq
        (cv_ulAlmostFreeBlocks (gpRedCoreVol s)) (gpRedMR s)
      in (gpRedCoreVol s)\<lparr>cv_aMR := (cv_aMR (gpRedCoreVol s))(cv_bCurMR (gpRedCoreVol s) := m, other_MR s := m),
        cv_ulAlmostFreeBlocks := 0, cv_bCurMR := other_MR s, cv_fBranched := False\<rparr>)"
    and bt: "buf_inv E t" and vt: "vol_ulBlockCount (gpRedVolume t) = vol_ulBlockCount (gpRedVolume s)"
      "vol_ulBlocksAllocable (gpRedVolume t) = vol_ulBlocksAllocable (gpRedVolume s)"
    and sz: "cur_sector_size t = cur_sector_size s"
    by (rule transact_run [OF e bi br len n run])
  define m where "m = committed_mr E (cur_sector_size s) seq (cv_ulAlmostFreeBlocks (gpRedCoreVol s)) (gpRedMR s)"
  note f = committed_mr_fields [OF n len, where seq = seq and k = "cv_ulAlmostFreeBlocks (gpRedCoreVol s)", folded m_def]
  have cv': "gpRedCoreVol t = (gpRedCoreVol s)\<lparr>cv_aMR := (cv_aMR (gpRedCoreVol s))
      (cv_bCurMR (gpRedCoreVol s) := m, other_MR s := m),
      cv_ulAlmostFreeBlocks := 0, cv_bCurMR := other_MR s, cv_fBranched := False\<rparr>"
    using cv by (simp add: Let_def m_def)
  have cur: "cv_bCurMR (gpRedCoreVol s) \<le> 1" using ok by (simp add: imapi_ok_def Let_def)
  have om: "other_MR t = cv_bCurMR (gpRedCoreVol s)" by (simp add: other_MR_def cv')
  have mr: "gpRedMR t = m" by (simp add: gpRedMR_def cv')
  show "gpRedMR t = cv_aMR (gpRedCoreVol t) (other_MR t)" by (simp add: mr om cv')
  show "fst (MetarootIsValid E (cur_sector_size t) b (gpRedMR t)) = (True, True)" using f(5) by (simp add: mr sz)
  show free: "mr_ulFreeBlocks (gpRedMR t) = mr_ulFreeBlocks (gpRedMR s) + cv_ulAlmostFreeBlocks (gpRedCoreVol s)"
    by (simp add: mr f)
  show "cv_ulAlmostFreeBlocks (gpRedCoreVol t) = 0" "\<not> cv_fBranched (gpRedCoreVol t)" by (simp_all add: cv')
  have bits: "ibit E t (other_MR s) c = ibit E s (cv_bCurMR (gpRedCoreVol s)) c"
    "ibit E t (cv_bCurMR (gpRedCoreVol s)) c = ibit E s (cv_bCurMR (gpRedCoreVol s)) c" for c
    by (simp_all add: ibit_def cv' f(2)) (simp_all add: gpRedMR_def)
  then show b1: "ibit E t (cv_bCurMR (gpRedCoreVol t)) c = ibit E s (cv_bCurMR (gpRedCoreVol s)) c"
    and b2: "ibit E t (other_MR t) c = ibit E s (cv_bCurMR (gpRedCoreVol s)) c" for c
    by (simp_all add: cv' om)
  have "{c. ifree E t c} = {c. ifree E s c} \<union> {c. iafree E s c}" "{c. iafree E t c} = {}"
    unfolding ifree_def iafree_def b1 b2 vt by (auto simp: cv')
  moreover have "card ({c. ifree E s c} \<union> {c. iafree E s c}) = card {c. ifree E s c} + card {c. iafree E s c}"
    by (rule card_Un_disjoint) (auto simp: ifree_def iafree_def)
  moreover have "card {c. ifree E t c} < 2 ^ 32" by (rule imap_sets_small)
  ultimately have cards: "unat (mr_ulFreeBlocks (gpRedMR t)) = card {c. ifree E t c}" "card {c. iafree E t c} = 0"
    using inv unfolding free by (simp_all add: imap_inv_def unat_word_ariths)
  have "imapi_ok E t"
    using ok other_MR_cases [OF cur] f(1) unfolding imapi_ok_def Let_def vt by (auto simp: cv')
  then show "imap_inv E t"
    using inv bt cards unfolding imap_inv_def vt by (simp add: cv' mr f)
qed


section \<open>Instances\<close>

text \<open>A state whose device is the concrete RAM disk, in good order.\<close>

definition demo_device :: "ramdisk fs \<Rightarrow> bool" where
  "demo_device s \<longleftrightarrow> gbRedVolNum s = 0 \<and> vol_ulBlockCount (gaRedVolume s 0) = 16 \<and>
     vol_bBlockSectorShift (gaRedVolume s 0) = 0 \<and>
     gaRedBdevInfo s 0 = \<lparr>bi_ulSectorSize = 128, bi_ullSectorCount = 16\<rparr> \<and>
     ramdisk_good demo_volconf 0 128 16 (os s)"

lemma demo_device_args: "demo_device s \<Longrightarrow> b < 16 \<Longrightarrow> \<not> io_args_invalid demo_env 0 b 1 s"
proof -
  assume "demo_device s" "b < 16"
  moreover from this have "1 \<le> 16 - b" by (simp add: word_le_nat_alt word_less_nat_alt unat_sub_le)
  ultimately show ?thesis by (simp add: io_args_invalid_def demo_device_def not_le not_less)
qed

lemma demo_device_flush: "demo_device s \<Longrightarrow> RedIoFlush demo_env 0 s = Some (Inr (), s)"
  by (subst RedIoFlush_def)
    (auto simp: demo_device_def io_retry.simps RedBDevFlush_def DiskFlush_def ramdisk_good_def thenE_CRITICAL_ASSERT)

lemma demo_device_write:
  assumes dev: "demo_device s" and b: "b < 16" and buf: "length buf = 128"
  shows "\<exists>d. RedIoWrite demo_env 0 b 1 buf s = Some (Inr (), s\<lparr>os := d\<rparr>) \<and> demo_device (s\<lparr>os := d\<rparr>)"
proof -
  have "sector_device (RedOsBDevRead demo_env 0) (RedOsBDevWrite demo_env 0) (ramdisk_content 0)
      (ramdisk_good demo_volconf 0 128 16) 128 16"
    by (simp add: ramdisk.sector_device_axioms)
  from RedIoWrite_good [OF this _ _ demo_device_args [OF dev b], of buf] dev buf show ?thesis
    by (auto simp: demo_device_def geometry_ok_def)
qed

definition demo_branched :: "ramdisk fs" where
  "demo_branched = upd_cv (cv_fBranched_update (\<lambda>_. True)) (demo_map 0 9)"

lemma imap_inv_branched: "imap_inv E (upd_cv (cv_fBranched_update f) s) = imap_inv E s"
  by (simp add: imap_inv_def imapi_ok_def ifree_def iafree_def ibit_def other_MR_def gpRedMR_def buf_inv_def Let_def)

lemma demo_branched_inv: "imap_inv demo_env demo_branched"
  by (simp add: demo_branched_def imap_inv_branched demo_map_free)

lemma demo_branched_reads:
  "gbRedVolNum demo_branched = 0" "gaRedVolume demo_branched v = demo_volume" "gpRedVolume demo_branched = demo_volume"
  "gBufCtx demo_branched = demo_buffers" "os demo_branched = demo_disk" "cv_fBranched (gpRedCoreVol demo_branched)"
  "gaRedBdevInfo demo_branched v = \<lparr>bi_ulSectorSize = 128, bi_ullSectorCount = 16\<rparr>"
  by (simp_all add: demo_branched_def demo_map_def set_ulFreeBlocks_def demo_imap_def)

lemma demo_branched_length: "length (gpRedMR demo_branched) = 128"
  using gpRedMR_length [of demo_env demo_branched] demo_branched_inv by (simp add: imap_inv_def)

lemma demo_sector_ok: "sector_ok demo_env (cur_sector_size demo_branched)"
  by (simp add: sector_ok_def demo_env_ok cur_sector_size_def demo_branched_reads SECTOR_SIZE_MIN_def)

lemma demo_empty_flush: "gBufCtx s = demo_buffers \<Longrightarrow> k + m \<le> 4 \<Longrightarrow> flush_loop demo_env b n k m s = Some (Inr (), s)"
  by (induction m arbitrary: k) (simp_all add: demo_buffers_def in_range_def Let_def)

lemma demo_branched_run: "\<exists>t. RedVolTransact demo_env demo_branched = Some (Inr (), t)"
proof -
  let ?a = "free_almost_free demo_branched"
  have a: "gBufCtx ?a = demo_buffers" "gbRedVolNum ?a = 0" "gpRedVolume ?a = demo_volume" "gaRedVolume ?a v = demo_volume"
    "os ?a = demo_disk" "gaRedBdevInfo ?a v = \<lparr>bi_ulSectorSize = 128, bi_ullSectorCount = 16\<rparr>" for v
    by (simp_all add: free_almost_free_def set_ulFreeBlocks_def demo_branched_reads)
  have fl: "RedBufferFlushRange demo_env 0 16 ?a = Some (Inr (), ?a)"
    by (simp add: RedBufferFlushRange_def buffer_range_invalid_def a demo_empty_flush)
  let ?c = "sign_metaroot ?a"
  let ?d = "set_vol 0 (\<lambda>w. w\<lparr>vol_ullSequence := vol_ullSequence w + 1\<rparr>) ?c"
  have seq: "RedVolSeqNumIncrement demo_env 0 ?c = Some (Inr (), ?d)"
    by (simp add: RedVolSeqNumIncrement_def sign_metaroot_def a) (simp add: demo_volume_def)
  let ?e = "seal_metaroot demo_env ?d"
  have dev: "demo_device ?e"
    by (simp add: demo_device_def seal_metaroot_def Let_def sign_metaroot_def a set_vol_def demo_disk_good)
  have cur: "cv_bCurMR (gpRedCoreVol ?e) = 0"
    by (simp add: seal_metaroot_def Let_def upd_MR_cv sign_metaroot_def free_almost_free_def set_ulFreeBlocks_def
        demo_branched_def demo_map_reads)
  have "gpRedMR (free_almost_free demo_branched) = gpRedMR (set_ulFreeBlocks
      (\<lambda>n. n + cv_ulAlmostFreeBlocks (gpRedCoreVol demo_branched)) demo_branched)"
    by (simp add: free_almost_free_def gpRedMR_def)
  then have len: "length (gpRedMR ?e) = 128"
    using demo_branched_length
    by (simp add: seal_metaroot_def Let_def sign_metaroot_def set_ulFreeBlocks_def gpRedMR_def mr_off_ulFreeBlocks_def
        mr_off_ulSectorCRC_def NODEHEADER_OFFSET_CRC_def NODEHEADER_OFFSET_SEQ_def NODEHEADER_OFFSET_SIG_def
        upd_MR_cv)
  obtain d where w: "RedIoWrite demo_env 0 1 1 (gpRedMR ?e) ?e = Some (Inr (), ?e\<lparr>os := d\<rparr>)"
    and dev': "demo_device (?e\<lparr>os := d\<rparr>)" using demo_device_write [OF dev _ len, of 1] by auto
  have vol: "gbRedVolNum ?c = 0" by (simp add: sign_metaroot_def a)
  have "transact_body demo_env demo_branched = Some (Inr (), commit_working_state (?e\<lparr>os := d\<rparr>))"
    using fl seq w by (simp add: transact_body_def thenE_def bindE_def demo_branched_reads a vol demo_device_flush dev dev' cur
        BLOCK_NUM_FIRST_METAROOT_def free_almost_free_def [symmetric])
  then show ?thesis by (auto simp: RedVolTransact_def critical_if_error_Inr demo_branched_reads)
qed


end
