(* ===== verification/Red_VolMount.thy ===== *)
theory Red_VolMount
  imports Red_VolCommit
begin

text \<open>
  The choice of the metaroot at mount: the valid one with the larger sequence number, whose
  copy becomes the working state.
\<close>

section \<open>The choice\<close>

definition mr_valid :: "'d env \<Rightarrow> u32 \<Rightarrow> u8 \<Rightarrow> bytes \<Rightarrow> bool" where
  "mr_valid E n b m \<longleftrightarrow> fst (fst (MetarootIsValid E n b m))"

text \<open>A torn metaroot, on a device that promises to write a sector as a whole.\<close>

definition mr_torn :: "'d env \<Rightarrow> 'd fs \<Rightarrow> u8 \<Rightarrow> bytes \<Rightarrow> bool" where
  "mr_torn E s b m \<longleftrightarrow> torn_is_error E s (fst (MetarootIsValid E (cur_sector_size s) b m))"

definition mr_cleared :: "'d env \<Rightarrow> u32 \<Rightarrow> u8 \<Rightarrow> bytes \<Rightarrow> bytes" where
  "mr_cleared E n b m = snd (MetarootIsValid E n b m)"

lemma mr_torn_invalid: "mr_torn E s b m \<Longrightarrow> \<not> mr_valid E (cur_sector_size s) b m"
  by (simp add: mr_torn_def torn_is_error_def mr_valid_def)

lemma mr_cleared_valid: "mr_valid E n b m \<Longrightarrow> mr_cleared E n b m = put32 mr_off_ulSectorCRC 0 m"
  by (auto simp: mr_valid_def mr_cleared_def MetarootIsValid_def Let_def split: if_splits)

lemma mr_cleared_sequence: "20 \<le> length m \<Longrightarrow> hdr_ullSequence (mr_cleared E n b m) = hdr_ullSequence m"
  by (simp add: mr_cleared_def MetarootIsValid_def Let_def hdr_ullSequence_def get64_def get_le_def slice_put
      mr_off_ulSectorCRC_def NODEHEADER_OFFSET_SEQ_def)

lemma check_metaroot_app: "check_metaroot E b s = Some (Inr (fst (MetarootIsValid E (cur_sector_size s) b
      (cv_aMR (gpRedCoreVol s) b))), upd_aMR b (\<lambda>_. mr_cleared E (cur_sector_size s) b (cv_aMR (gpRedCoreVol s) b)) s)"
  by (simp add: check_metaroot_def mr_cleared_def split: prod.split)

lemma cur_sector_size_upd [simp]: "cur_sector_size (upd_aMR b f s) = cur_sector_size s"
  and torn_is_error_upd [simp]: "torn_is_error E (upd_aMR b f s) v = torn_is_error E s v"
  by (simp_all add: cur_sector_size_def torn_is_error_def)

text \<open>What the choice returns, by the two metaroots that were read.\<close>

definition pick :: "'d env \<Rightarrow> 'd fs \<Rightarrow> bool \<Rightarrow> bool \<Rightarrow> u8 option" where
  "pick E s read0 read1 =
     (let m0 = cv_aMR (gpRedCoreVol s) 0; m1 = cv_aMR (gpRedCoreVol s) 1; n = cur_sector_size s;
          ok0 = (read0 \<and> mr_valid E n 0 m0); ok1 = (read1 \<and> mr_valid E n 1 m1)
      in if read0 \<and> mr_torn E s 0 m0 \<or> read1 \<and> mr_torn E s 1 m1 then None
         else if ok1 \<and> (\<not> ok0 \<or> hdr_ullSequence m1 > hdr_ullSequence m0) then Some 1
         else if ok0 then Some 0 else None)"

lemma choose_metaroot_pick:
  assumes len: "\<forall>b \<le> 1. 20 \<le> length (cv_aMR (gpRedCoreVol s) b)"
  shows "\<exists>m t. choose_metaroot E read0 read1 s =
      Some (case pick E s read0 read1 of None \<Rightarrow> Inl RED_EIO | Some b \<Rightarrow> Inr b, t) \<and>
    t = upd_cv (\<lambda>cv. cv\<lparr>cv_aMR := m\<rparr>) s \<and>
    (\<forall>b. pick E s read0 read1 = Some b \<longrightarrow> m b = put32 mr_off_ulSectorCRC 0 (cv_aMR (gpRedCoreVol s) b))"
proof -
  let ?n = "cur_sector_size s" and ?m0 = "cv_aMR (gpRedCoreVol s) 0" and ?m1 = "cv_aMR (gpRedCoreVol s) 1"
  define s0 where "s0 = (if read0 then upd_aMR 0 (\<lambda>_. mr_cleared E ?n 0 ?m0) s else s)"
  define s1 where "s1 = (if read1 then upd_aMR 1 (\<lambda>_. mr_cleared E ?n 1 ?m1) s0 else s0)"
  have a1: "cv_aMR (gpRedCoreVol s0) 1 = ?m1" and n0: "cur_sector_size s0 = ?n" "torn_is_error E s0 v = torn_is_error E s v" for v
    by (simp_all add: s0_def)
  have up: "upd_aMR b f s = upd_cv (\<lambda>cv. cv\<lparr>cv_aMR := (cv_aMR cv)(b := f (cv_aMR cv b))\<rparr>) s" for b f s
    by (simp add: upd_aMR_def)
  have s0': "\<exists>m. s0 = upd_cv (\<lambda>cv. cv\<lparr>cv_aMR := m\<rparr>) s \<and> m 0 = (if read0 then mr_cleared E ?n 0 ?m0 else ?m0) \<and> m 1 = ?m1"
    by (rule exI [of _ "if read0 then (cv_aMR (gpRedCoreVol s))(0 := mr_cleared E ?n 0 ?m0) else cv_aMR (gpRedCoreVol s)"])
      (simp add: s0_def up upd_cv_def gpRedCoreVol_def)
  then obtain m where m: "s0 = upd_cv (\<lambda>cv. cv\<lparr>cv_aMR := m\<rparr>) s" "m 0 = (if read0 then mr_cleared E ?n 0 ?m0 else ?m0)"
    "m 1 = ?m1" by blast
  have s1': "s1 = upd_cv (\<lambda>cv. cv\<lparr>cv_aMR := if read1 then m(1 := mr_cleared E ?n 1 ?m1) else m\<rparr>) s"
    by (simp add: s1_def up m(1) upd_cv_def gpRedCoreVol_def)
  let ?r = "case pick E s read0 read1 of None \<Rightarrow> Inl RED_EIO | Some b \<Rightarrow> Inr b"
  have l: "20 \<le> length ?m0" "20 \<le> length ?m1" using len by simp_all
  have seq: "read1 \<Longrightarrow> hdr_ullSequence (mr_cleared E ?n 1 ?m1) = hdr_ullSequence ?m1"
    "hdr_ullSequence (m 0) = hdr_ullSequence ?m0"
    using mr_cleared_sequence [OF l(1), of E ?n 0] mr_cleared_sequence [OF l(2), of E ?n 1] by (simp_all add: m(2))
  have first: "(if read0 then bindE (check_metaroot E 0) (\<lambda>v. bindE (getE (\<lambda>s. torn_is_error E s v)) (\<lambda>torn.
        if torn then errE RED_EIO else okE (fst v))) else okE False) s =
      Some (if read0 \<and> mr_torn E s 0 ?m0 then Inl RED_EIO else Inr (read0 \<and> mr_valid E ?n 0 ?m0), s0)"
    by (simp add: s0_def bindE_Inr [OF check_metaroot_app] mr_torn_def mr_valid_def)
  show ?thesis
  proof (cases "read0 \<and> mr_torn E s 0 ?m0")
    case True
    then have "choose_metaroot E read0 read1 s = Some (Inl RED_EIO, s0)"
      using first by (simp add: choose_metaroot_def bindE_Inl)
    with True m show ?thesis by (auto simp: pick_def Let_def)
  next
    case False
    let ?ok0 = "read0 \<and> mr_valid E ?n 0 ?m0"
    let ?newer = "\<not> ?ok0 \<or> hdr_ullSequence ?m1 > hdr_ullSequence ?m0"
    let ?choice = "if read1 \<and> mr_valid E ?n 1 ?m1 \<and> ?newer then Some 1 else if ?ok0 then Some 0 else None :: u8 option"
    have q: "read1 \<Longrightarrow> cv_aMR (gpRedCoreVol s1) 1 = mr_cleared E ?n 1 ?m1" "cv_aMR (gpRedCoreVol s1) 0 = m 0"
      by (simp_all add: s1')
    have second: "(if read1 then bindE (check_metaroot E 1) (\<lambda>v. bindE (getE (\<lambda>s. torn_is_error E s v)) (\<lambda>torn.
              bindE (getE (\<lambda>s. \<not> ?ok0 \<or> hdr_ullSequence (cv_aMR (gpRedCoreVol s) 1) >
                 hdr_ullSequence (cv_aMR (gpRedCoreVol s) 0))) (\<lambda>newer.
              if torn then errE RED_EIO
              else okE (if fst v \<and> newer then Some 1 else if ?ok0 then Some 0 else None))))
            else okE (if ?ok0 then Some 0 else None)) s0 =
        Some (if read1 \<and> mr_torn E s 1 ?m1 then Inl RED_EIO else Inr ?choice, s1)"
    proof (cases read1)
      case True
      have v: "check_metaroot E 1 s0 = Some (Inr (fst (MetarootIsValid E ?n 1 ?m1)), s1)"
        using True check_metaroot_app [of E 1 s0] by (simp add: n0 a1 s1_def)
      have "torn_is_error E s1 w = torn_is_error E s w" for w by (simp add: s1_def n0)
      moreover have cb: "bindE (check_metaroot E 1) g s0 = g (fst (MetarootIsValid E ?n 1 ?m1)) s1" for g
        using v by (simp add: bindE_def)
      ultimately show ?thesis using True seq q by (simp add: cb mr_torn_def mr_valid_def)
    qed (simp add: s1_def)
    show ?thesis
    proof (cases "read1 \<and> mr_torn E s 1 ?m1")
      case True
      have "choose_metaroot E read0 read1 s = Some (Inl RED_EIO, s1)"
        using first False second True by (simp only: choose_metaroot_def bindE_def) simp
      moreover have "pick E s read0 read1 = None" using True by (auto simp: pick_def Let_def)
      ultimately show ?thesis using s1' by auto
    next
      case nt: False
      have p: "pick E s read0 read1 = ?choice" using False nt by (auto simp: pick_def Let_def)
      have run: "choose_metaroot E read0 read1 s = Some (case ?choice of None \<Rightarrow> Inl RED_EIO | Some b \<Rightarrow> Inr b, s1)"
        using first False second nt by (simp only: choose_metaroot_def bindE_def) (simp split: option.split)
      show ?thesis unfolding p run s1'
        using m mr_cleared_valid [of E ?n]
        by (intro exI [of _ "if read1 then m(1 := mr_cleared E ?n 1 ?m1) else m"] exI conjI refl)
          (auto simp: split: if_splits)
    qed
  qed
qed

section \<open>The mount\<close>

text \<open>A metaroot that can be used: it was read and is valid.\<close>

definition usable :: "'d env \<Rightarrow> 'd fs \<Rightarrow> (u8 \<Rightarrow> bool) \<Rightarrow> u8 \<Rightarrow> bool" where
  "usable E s ok b \<longleftrightarrow> b \<le> 1 \<and> ok b \<and> mr_valid E (cur_sector_size s) b (cv_aMR (gpRedCoreVol s) b)"

lemma pick_newest:
  assumes "pick E s (ok 0) (ok 1) = Some b"
  shows "usable E s ok b \<and> (\<forall>c. usable E s ok c \<longrightarrow>
    hdr_ullSequence (cv_aMR (gpRedCoreVol s) c) \<le> hdr_ullSequence (cv_aMR (gpRedCoreVol s) b))"
  using assms by (auto simp: pick_def usable_def Let_def u8_le_1 split: if_splits)

lemma pick_none:
  assumes "pick E s (ok 0) (ok 1) = None"
  shows "(\<forall>b. \<not> usable E s ok b) \<or> (\<exists>b \<le> 1. ok b \<and> mr_torn E s b (cv_aMR (gpRedCoreVol s) b))"
  using assms by (auto simp: pick_def usable_def Let_def u8_le_1 split: if_splits)

definition metaroot_read :: "rederr + unit \<Rightarrow> rederr + unit \<Rightarrow> u8 \<Rightarrow> bool" where
  "metaroot_read q0 q1 b = (if b = 0 then is_ok q0 else is_ok q1)"

lemma mount_metaroot_run:
  assumes r0: "read_metaroot E 0 s = Some (Inr q0, u)" and r1: "read_metaroot E 1 u = Some (Inr q1, w)"
    and len: "\<forall>b \<le> 1. 20 \<le> length (cv_aMR (gpRedCoreVol w) b)" and vol: "gbRedVolNum w < REDCONF_VOLUME_COUNT E"
  shows "case RedVolMountMetaroot E fl s of
      None \<Rightarrow> False
    | Some (Inl e, t) \<Rightarrow> (\<forall>b. \<not> usable E w (metaroot_read q0 q1) b) \<or> (\<exists>b \<le> 1. metaroot_read q0 q1 b \<and> mr_torn E w b (cv_aMR (gpRedCoreVol w) b)) \<or>
        (\<exists>b. usable E w (metaroot_read q0 q1) b \<and> max (vol_ullSequence (gpRedVolume w)) (hdr_ullSequence (cv_aMR (gpRedCoreVol w) b)) = - 1)
    | Some (Inr _, t) \<Rightarrow> \<exists>b. usable E w (metaroot_read q0 q1) b \<and>
        (\<forall>c. usable E w (metaroot_read q0 q1) c \<longrightarrow> hdr_ullSequence (cv_aMR (gpRedCoreVol w) c) \<le> hdr_ullSequence (cv_aMR (gpRedCoreVol w) b)) \<and>
        gpRedMR t = put32 mr_off_ulSectorCRC 0 (cv_aMR (gpRedCoreVol w) b) \<and>
        other_MR t = b \<and> cv_aMR (gpRedCoreVol t) b = gpRedMR t \<and> vol_fMounted (gpRedVolume t) \<and>
        vol_ullSequence (gpRedVolume t) =
          max (vol_ullSequence (gpRedVolume w)) (hdr_ullSequence (cv_aMR (gpRedCoreVol w) b)) + 1"
proof -
  let ?ok = "metaroot_read q0 q1"
  have b0: "bindE (read_metaroot E 0) g s = g q0 u" for g using r0 by (simp add: bindE_def)
  have b1: "bindE (read_metaroot E 1) g u = g q1 w" for g using r1 by (simp add: bindE_def)
show ?thesis
proof (cases "is_ok q0 \<or> is_ok q1")
  case False
  then obtain e0 e1 where q: "q0 = Inl e0" "q1 = Inl e1" by (cases q0; cases q1) auto
  then have "RedVolMountMetaroot E fl s = Some (Inl e0, w)"
    by (simp add: RedVolMountMetaroot_def b0 b1)
  moreover have "\<not> usable E w ?ok b" for b by (simp add: usable_def metaroot_read_def q)
  ultimately show ?thesis by simp
next
  case True
  have run: "RedVolMountMetaroot E fl s = bindE (choose_metaroot E (?ok 0) (?ok 1)) (\<lambda>bMR.
       thenE (modE (upd_cv (\<lambda>cv. cv\<lparr>cv_bCurMR := bMR\<rparr>)))
         (thenE (modE (\<lambda>s. upd_vol (\<lambda>v. v\<lparr>vol_ullSequence :=
              max (vol_ullSequence v) (hdr_ullSequence (gpRedMR s))\<rparr>) s))
           (bindE (getE gbRedVolNum) (\<lambda>v.
            thenE (RedVolSeqNumIncrement E v) (modE start_working_state))))) w"
    using True by (cases q0; cases q1) (simp_all add: RedVolMountMetaroot_def b0 b1 metaroot_read_def)
  obtain m t where ch: "choose_metaroot E (?ok 0) (?ok 1) w =
      Some (case pick E w (?ok 0) (?ok 1) of None \<Rightarrow> Inl RED_EIO | Some b \<Rightarrow> Inr b, t)"
    and t: "t = upd_cv (\<lambda>cv. cv\<lparr>cv_aMR := m\<rparr>) w"
    and m: "\<forall>b. pick E w (?ok 0) (?ok 1) = Some b \<longrightarrow> m b = put32 mr_off_ulSectorCRC 0 (cv_aMR (gpRedCoreVol w) b)"
    using choose_metaroot_pick [OF len] by blast
  show ?thesis
  proof (cases "pick E w (?ok 0) (?ok 1)")
    case None
    with ch have "RedVolMountMetaroot E fl s = Some (Inl RED_EIO, t)" by (simp add: run bindE_Inl)
    with pick_none [OF None] show ?thesis by auto
  next
    case (Some b)
    note new = pick_newest [where ok = ?ok, OF Some]
    let ?cv = "gpRedCoreVol w" and ?v = "gbRedVolNum w"
    let ?q = "max (vol_ullSequence (gpRedVolume w)) (hdr_ullSequence (cv_aMR ?cv b))"
    have b: "b \<le> 1" using new by (simp add: usable_def)
    have mb: "m b = put32 mr_off_ulSectorCRC 0 (cv_aMR ?cv b)" using m Some by simp
    have hm: "hdr_ullSequence (m b) = hdr_ullSequence (cv_aMR ?cv b)"
      using len b unfolding mb
      by (simp add: hdr_ullSequence_def get64_def get_le_def slice_put mr_off_ulSectorCRC_def NODEHEADER_OFFSET_SEQ_def)
    define x where "x = upd_cv (\<lambda>cv. cv\<lparr>cv_aMR := m, cv_bCurMR := b\<rparr>) w"
    define y where "y = upd_vol (\<lambda>v. v\<lparr>vol_ullSequence := ?q\<rparr>) x"
    have tx: "upd_cv (\<lambda>cv. cv\<lparr>cv_bCurMR := b\<rparr>) t = x"
      by (simp add: t x_def upd_cv_def gpRedCoreVol_def)
    have xq: "gpRedMR x = m b" "gpRedVolume x = gpRedVolume w" "gbRedVolNum x = ?v" by (simp_all add: x_def gpRedMR_def)
    have yx: "upd_vol (\<lambda>v. v\<lparr>vol_ullSequence := max (vol_ullSequence v) (hdr_ullSequence (gpRedMR x))\<rparr>) x = y"
      using xq(2) by (simp add: y_def upd_vol_def set_vol_def xq(1,3) hm) (simp add: gpRedVolume_def xq(3))
    have run2: "RedVolMountMetaroot E fl s = thenE (RedVolSeqNumIncrement E ?v) (modE start_working_state) y"
      unfolding run using ch Some
      by (simp add: bindE_Inr thenE_def tx yx) (simp add: bindE_def y_def xq)
    have yv: "vol_ullSequence (gaRedVolume y ?v) = ?q"
      by (simp add: y_def upd_vol_def set_vol_def xq)
    have max_seq: "(18446744073709551615 :: u64) = - 1" by simp
    show ?thesis
    proof (cases "?q = - 1")
      case True
      then have "fst (the (RedVolMountMetaroot E fl s)) = Inl RED_EFUBAR \<and> RedVolMountMetaroot E fl s \<noteq> None"
        using vol yv by (simp add: run2 thenE_def bindE_def RedVolSeqNumIncrement_def CRITICAL_ERROR_app linorder_not_le)
      with True new show ?thesis by (auto split: option.split sum.split)
    next
      case False
      let ?z = "set_vol ?v (\<lambda>v. v\<lparr>vol_ullSequence := vol_ullSequence v + 1\<rparr>) y"
      have "RedVolMountMetaroot E fl s = Some (Inr (), start_working_state ?z)"
        using vol yv False [folded max_seq] by (simp add: run2 thenE_def bindE_def RedVolSeqNumIncrement_def linorder_not_le)
      moreover have "gpRedCoreVol ?z = ?cv\<lparr>cv_aMR := m, cv_bCurMR := b\<rparr>" "gbRedVolNum ?z = ?v"
        by (simp_all add: y_def x_def)
      moreover have "vol_ullSequence (gpRedVolume ?z) = ?q + 1"
        by (simp add: gpRedVolume_def set_vol_def yv) (simp add: y_def xq)
      ultimately show ?thesis
        using new b mb by (auto simp: start_working_state_def gpRedMR_def other_MR_def)
    qed
  qed
qed
qed

text \<open>
  C16. Mounting recovers the last commit. Of the two metaroots that were read, the one that is
  valid and whose sequence number is no smaller than that of any other valid one is chosen;
  the working state starts as a copy of it, the committed copy is the one that is not worked
  on, the volume is mounted and its sequence number passes both those of the master block and
  of the metaroot. The mount fails only if no metaroot that was read is valid, if one is torn
  on a device that promises to write sectors whole, or if the sequence numbers are exhausted.
\<close>

theorem mount_takes_newest_metaroot:
  assumes "read_metaroot E 0 s = Some (Inr q0, u)" and "read_metaroot E 1 u = Some (Inr q1, w)"
    and "\<forall>b \<le> 1. 20 \<le> length (cv_aMR (gpRedCoreVol w) b)" and "gbRedVolNum w < REDCONF_VOLUME_COUNT E"
  shows "case RedVolMountMetaroot E fl s of
      None \<Rightarrow> False
    | Some (Inl e, t) \<Rightarrow> (\<forall>b. \<not> usable E w (metaroot_read q0 q1) b) \<or>
        (\<exists>b \<le> 1. metaroot_read q0 q1 b \<and> mr_torn E w b (cv_aMR (gpRedCoreVol w) b)) \<or>
        (\<exists>b. usable E w (metaroot_read q0 q1) b \<and>
           max (vol_ullSequence (gpRedVolume w)) (hdr_ullSequence (cv_aMR (gpRedCoreVol w) b)) = - 1)
    | Some (Inr _, t) \<Rightarrow> \<exists>b. usable E w (metaroot_read q0 q1) b \<and>
        (\<forall>c. usable E w (metaroot_read q0 q1) c \<longrightarrow>
           hdr_ullSequence (cv_aMR (gpRedCoreVol w) c) \<le> hdr_ullSequence (cv_aMR (gpRedCoreVol w) b)) \<and>
        gpRedMR t = put32 mr_off_ulSectorCRC 0 (cv_aMR (gpRedCoreVol w) b) \<and>
        other_MR t = b \<and> cv_aMR (gpRedCoreVol t) b = gpRedMR t \<and> vol_fMounted (gpRedVolume t) \<and>
        vol_ullSequence (gpRedVolume t) =
          max (vol_ullSequence (gpRedVolume w)) (hdr_ullSequence (cv_aMR (gpRedCoreVol w) b)) + 1"
  by (rule mount_metaroot_run [OF assms])

section \<open>A volume with two committed states\<close>

definition demo_metaroot :: "u64 \<Rightarrow> bytes" where
  "demo_metaroot q = sealed demo_env 128 (put64 NODEHEADER_OFFSET_SEQ q
     (put32 NODEHEADER_OFFSET_SIG META_SIG_METAROOT (replicate 128 0)))"

definition demo_formatted :: ramdisk where
  "demo_formatted = (\<lambda>_. Some (replicate 128 0 @ demo_metaroot 6 @ demo_metaroot 7 @ replicate 1664 0))"

lemma demo_metaroot_length: "length (demo_metaroot q) = 128"
  by (simp add: demo_metaroot_def sealed_def Let_def mr_off_ulSectorCRC_def NODEHEADER_OFFSET_CRC_def
      NODEHEADER_OFFSET_SEQ_def NODEHEADER_OFFSET_SIG_def)

lemma demo_metaroot_valid: "mr_valid demo_env 128 b (demo_metaroot q)"
proof -
  have "hdr_ulSignature (put64 NODEHEADER_OFFSET_SEQ q (put32 NODEHEADER_OFFSET_SIG META_SIG_METAROOT (replicate 128 0))) =
      META_SIG_METAROOT"
    by (simp add: hdr_ulSignature_def get32_def get_le_def slice_put NODEHEADER_OFFSET_SEQ_def NODEHEADER_OFFSET_SIG_def)
      (simp add: get_le_def [symmetric] get32_def [symmetric] get_put_same)
  then show ?thesis unfolding mr_valid_def demo_metaroot_def
    by (subst sealed_valid) (simp_all add: sector_ok_def demo_env_ok SECTOR_SIZE_MIN_def NODEHEADER_OFFSET_SEQ_def
        NODEHEADER_OFFSET_SIG_def)
qed

lemma demo_metaroot_sequence: "hdr_ullSequence (demo_metaroot q) = q"
  by (simp add: demo_metaroot_def sealed_def Let_def hdr_ullSequence_def get64_def get_le_def slice_put
      mr_off_ulSectorCRC_def NODEHEADER_OFFSET_CRC_def NODEHEADER_OFFSET_SEQ_def NODEHEADER_OFFSET_SIG_def)
    (simp add: get_le_def [symmetric] get64_def [symmetric] get_put_same)

lemma demo_formatted_good: "ramdisk_good demo_volconf 0 128 16 demo_formatted"
  by (simp add: ramdisk_good_def demo_formatted_def demo_metaroot_length)

lemma demo_block_read:
  assumes dev: "demo_device s" and b: "b < 16" and len: "length buf = 128"
  shows "RedIoRead demo_env 0 b 1 buf s =
    Some (Inr (Inr (), map (\<lambda>i. ramdisk_content 0 (os s) (unat b * 128 + i)) [0..<128]), s)"
proof -
  have d: "sector_device (RedOsBDevRead demo_env 0) (RedOsBDevWrite demo_env 0) (ramdisk_content 0)
      (ramdisk_good demo_volconf 0 128 16) 128 16"
    by (simp add: ramdisk.sector_device_axioms)
  have e: "unat (ullSectorStart demo_env 0 b s) = unat b" "ulSectorCount 0 1 s = 1"
    using dev by (simp_all add: ullSectorStart_def ulSectorCount_def demo_device_def)
  show ?thesis
    using RedIoRead_good [OF d _ _ demo_device_args [OF dev b], of buf] dev len
    by (simp add: demo_device_def geometry_ok_def e sector_device.sectors_def [OF d])
qed

lemma demo_read_metaroot:
  assumes "demo_device s" and "m \<le> 1" and "length (cv_aMR (gpRedCoreVol s) m) = 128"
  shows "read_metaroot demo_env m s = Some (Inr (Inr ()), upd_aMR m (\<lambda>_.
    map (\<lambda>i. ramdisk_content 0 (os s) (unat (1 + ucast m :: u32) * 128 + i)) [0..<128]) s)"
proof -
  have "(1 :: u32) + ucast m < 16" using assms(2) by (auto simp: u8_le_1)
  from demo_block_read [OF assms(1) this assms(3)] assms(1) show ?thesis
    by (simp add: read_metaroot_def bindE_def thenE_def BLOCK_NUM_FIRST_METAROOT_def demo_device_def)
qed

lemma demo_formatted_blocks:
  "map (\<lambda>i. ramdisk_content 0 demo_formatted (128 + i)) [0..<128] = demo_metaroot 6"
  "map (\<lambda>i. ramdisk_content 0 demo_formatted (256 + i)) [0..<128] = demo_metaroot 7"
  using demo_metaroot_length
  by (auto simp: ramdisk_content_def demo_formatted_def nth_append intro!: nth_equalityI)

definition demo_loaded :: "ramdisk fs" where
  "demo_loaded = upd_aMR 1 (\<lambda>_. demo_metaroot 7) (upd_aMR 0 (\<lambda>_. demo_metaroot 6) (demo_fs demo_formatted))"

lemma demo_load:
  "read_metaroot demo_env 0 (demo_fs demo_formatted) =
     Some (Inr (Inr ()), upd_aMR 0 (\<lambda>_. demo_metaroot 6) (demo_fs demo_formatted))"
  "read_metaroot demo_env 1 (upd_aMR 0 (\<lambda>_. demo_metaroot 6) (demo_fs demo_formatted)) = Some (Inr (Inr ()), demo_loaded)"
proof -
  have "demo_device (demo_fs demo_formatted)" "demo_device (upd_aMR 0 (\<lambda>_. demo_metaroot 6) (demo_fs demo_formatted))"
    by (simp_all add: demo_device_def demo_formatted_good)
  note rd = this [THEN demo_read_metaroot]
  show "read_metaroot demo_env 0 (demo_fs demo_formatted) =
     Some (Inr (Inr ()), upd_aMR 0 (\<lambda>_. demo_metaroot 6) (demo_fs demo_formatted))"
    using rd(1) [of 0] by (simp add: demo_formatted_blocks) (simp add: demo_corevol_def)
  show "read_metaroot demo_env 1 (upd_aMR 0 (\<lambda>_. demo_metaroot 6) (demo_fs demo_formatted)) = Some (Inr (Inr ()), demo_loaded)"
    using rd(2) [of 1] by (simp add: demo_formatted_blocks demo_loaded_def) (simp add: demo_corevol_def)
qed

lemma demo_loaded_reads: "cv_aMR (gpRedCoreVol demo_loaded) 0 = demo_metaroot 6"
  "cv_aMR (gpRedCoreVol demo_loaded) 1 = demo_metaroot 7" "cur_sector_size demo_loaded = 128"
  "gbRedVolNum demo_loaded = 0" "vol_ullSequence (gpRedVolume demo_loaded) = 5"
  by (simp_all add: demo_loaded_def cur_sector_size_def) (simp add: demo_volume_def)

text \<open>The committed metaroot is taken, and the volume goes on from its sequence number.\<close>

theorem mount_takes_newest_metaroot_witness:
  "case RedVolMountMetaroot demo_env 0 (demo_fs demo_formatted) of
     Some (Inr _, t) \<Rightarrow> gpRedMR t = put32 mr_off_ulSectorCRC 0 (demo_metaroot 7) \<and> other_MR t = 1 \<and>
       vol_ullSequence (gpRedVolume t) = 8
   | _ \<Rightarrow> False"
proof -
  have len: "\<forall>b \<le> 1. 20 \<le> length (cv_aMR (gpRedCoreVol demo_loaded) b)"
    by (simp add: u8_le_1 demo_loaded_reads demo_metaroot_length)
  have vol: "gbRedVolNum demo_loaded < REDCONF_VOLUME_COUNT demo_env" by (simp add: demo_loaded_reads)
  have u: "usable demo_env demo_loaded (metaroot_read (Inr ()) (Inr ())) b \<longleftrightarrow> b \<le> 1" for b
    by (auto simp: demo_metaroot_valid usable_def u8_le_1 demo_loaded_reads metaroot_read_def)
  have nt: "\<not> mr_torn demo_env demo_loaded b (cv_aMR (gpRedCoreVol demo_loaded) b)" if "b \<le> 1" for b
    using that by (auto simp: u8_le_1 demo_loaded_reads demo_metaroot_valid dest: mr_torn_invalid)
  have seq: "b \<le> 1 \<Longrightarrow> hdr_ullSequence (cv_aMR (gpRedCoreVol demo_loaded) b) = 6 + ucast b" for b
    by (auto simp: u8_le_1 demo_loaded_reads demo_metaroot_sequence)
  note F = mount_takes_newest_metaroot [OF demo_load len vol, of 0]
  show ?thesis
  proof (cases "RedVolMountMetaroot demo_env 0 (demo_fs demo_formatted)")
    case None
    with F show ?thesis by simp
  next
    case (Some p)
    obtain r t where p: "p = (r, t)" by fastforce
    show ?thesis
    proof (cases r)
      case (Inl e)
      with F Some p u [of 0] have "\<exists>b \<le> 1. max 5 (hdr_ullSequence (cv_aMR (gpRedCoreVol demo_loaded) b)) = - 1"
        using nt by (auto simp: u demo_loaded_reads(5))
      with seq show ?thesis by (auto simp: u8_le_1)
    next
      case (Inr x)
      with F Some p obtain b where b: "b \<le> 1"
        and new: "\<forall>c \<le> 1. hdr_ullSequence (cv_aMR (gpRedCoreVol demo_loaded) c)
            \<le> hdr_ullSequence (cv_aMR (gpRedCoreVol demo_loaded) b)"
        and m: "gpRedMR t = put32 mr_off_ulSectorCRC 0 (cv_aMR (gpRedCoreVol demo_loaded) b)" "other_MR t = b"
          "vol_ullSequence (gpRedVolume t) = max 5 (hdr_ullSequence (cv_aMR (gpRedCoreVol demo_loaded) b)) + 1"
        by (auto simp: u demo_loaded_reads(5))
      have "b = 1" using b new [rule_format, of 1] seq by (auto simp: u8_le_1)
      then show ?thesis
        using m seq [of 1] by (simp add: Some p Inr demo_loaded_reads demo_metaroot_sequence)
    qed
  qed
qed

end
