(* ===== verification/Red_VolLayout.thy ===== *)
theory Red_VolLayout
  imports Red_Volume
begin

text \<open>
  The geometry and the layout of a volume: the search for the block shift ends and finds it,
  the geometry is the one that the block transfers rely on, and the regions of the layout
  fit on the volume, with a bit in the block map for every block.
\<close>

section \<open>Geometry\<close>

lemma dvd_two_power: "(n :: nat) dvd 2 ^ p \<Longrightarrow> \<exists>q \<le> p. n = 2 ^ q"
proof (induction p arbitrary: n)
  case 0
  then show ?case by simp
next
  case (Suc p)
  show ?case
  proof (cases "even n")
    case True
    then obtain m where m: "n = 2 * m" by blast
    with Suc.prems have "m dvd 2 ^ p" by simp
    then obtain q where "q \<le> p" "m = 2 ^ q" using Suc.IH by blast
    with m show ?thesis by (intro exI [of _ "Suc q"]) simp
  next
    case False
    then have "coprime n 2" by (simp add: coprime_right_2_iff_odd)
    with Suc.prems have "n dvd 2 ^ p" by (simp add: coprime_dvd_mult_right_iff)
    then show ?thesis using Suc.IH le_SucI by blast
  qed
qed

lemma unat_two_power: "n < 32 \<Longrightarrow> unat (2 ^ n :: u32) = 2 ^ n"
proof -
  assume "n < 32"
  then have "(2 :: nat) ^ n < 2 ^ 32" by (intro power_strict_increasing) simp_all
  then show ?thesis using unat_push_bit_no_overflow [of "1 :: u32" n] by (simp add: push_bit_of_1)
qed

lemma push_bit_two_power: "push_bit b (2 ^ q :: u32) = 2 ^ (b + q)"
  by (simp add: push_bit_eq_mult power_add mult.commute)

lemma sector_shift_found:
  assumes "q + b \<le> p" and "p < 32"
  shows "sector_shift (2 ^ q) (2 ^ p) (word_of_nat b) = Some (word_of_nat (p - q))"
  using assms(1)
proof (induction "p - (q + b)" arbitrary: b)
  case 0
  then have p: "p = q + b" by simp
  with assms(2) have "unat (word_of_nat b :: u8) = b" by (simp add: unat_of_nat)
  then show ?case by (subst sector_shift.simps) (simp add: p push_bit_two_power add.commute)
next
  case (Suc d)
  then have lt: "q + b < p" by simp
  with assms(2) have ub: "unat (word_of_nat b :: u8) = b" by (simp add: unat_of_nat)
  have "unat (2 ^ (b + q) :: u32) < unat (2 ^ p :: u32)"
    using lt assms(2) by (simp add: unat_two_power)
  then have less: "(2 ^ (b + q) :: u32) < 2 ^ p" by (simp add: word_less_nat_alt)
  have "sector_shift (2 ^ q) (2 ^ p) (word_of_nat (Suc b)) = Some (word_of_nat (p - q))"
    by (rule Suc.hyps(1)) (use Suc.hyps(2) lt in simp_all)
  then show ?case by (subst sector_shift.simps) (simp add: ub push_bit_two_power less add.commute)
qed

text \<open>A sector size that passes the checks is a power of two, and the loop finds its shift.\<close>

lemma geometry_shift:
  assumes e: "env_ok E" and g: "\<not> geometry_invalid E s"
  shows "\<exists>q n. q \<le> BLOCK_SIZE_P2 E \<and> unat (bi_ulSectorSize (gaRedBdevInfo s (gbRedVolNum s))) = 2 ^ q \<and>
    unat n = BLOCK_SIZE_P2 E - q \<and>
    sector_shift (bi_ulSectorSize (gaRedBdevInfo s (gbRedVolNum s))) (REDCONF_BLOCK_SIZE E) 0 = Some n"
proof -
  let ?b = "gaRedBdevInfo s (gbRedVolNum s)"
  have p: "BLOCK_SIZE_P2 E \<le> 16" using e by (simp add: env_ok_def)
  have B: "REDCONF_BLOCK_SIZE E = 2 ^ BLOCK_SIZE_P2 E" by (simp add: REDCONF_BLOCK_SIZE_def push_bit_of_1)
  have "unat (REDCONF_BLOCK_SIZE E mod bi_ulSectorSize ?b) = 0" using g by (simp add: geometry_invalid_def Let_def)
  then have "unat (bi_ulSectorSize ?b) dvd 2 ^ BLOCK_SIZE_P2 E"
    by (simp add: unat_mod dvd_eq_mod_eq_0 BSIZE_pow [OF e])
  then obtain q where q: "q \<le> BLOCK_SIZE_P2 E" "unat (bi_ulSectorSize ?b) = 2 ^ q" using dvd_two_power by blast
  then have S: "bi_ulSectorSize ?b = 2 ^ q" using p by (simp add: word_unat_eq_iff unat_two_power)
  define n where "n = (word_of_nat (BLOCK_SIZE_P2 E - q) :: u8)"
  have un: "unat n = BLOCK_SIZE_P2 E - q" using p by (simp add: n_def unat_of_nat)
  have sh: "sector_shift (bi_ulSectorSize ?b) (REDCONF_BLOCK_SIZE E) 0 = Some n"
    using sector_shift_found [of q 0 "BLOCK_SIZE_P2 E"] q(1) p by (simp add: S B n_def)
  with q un show ?thesis by blast
qed

lemma RedVolInitBlockGeometry_returns: "env_ok E \<Longrightarrow> RedVolInitBlockGeometry E s \<noteq> None"
  using geometry_shift [of E s] by (auto simp: RedVolInitBlockGeometry_def Let_def)

text \<open>
  C36. The geometry of a device that passes the checks is consistent: the loop for the shift
  ends, the block is exactly the sector shifted by it, and the blocks of the volume lie on
  the device, with no wrap-around of the sector numbers.
\<close>

theorem geometry_is_consistent:
  assumes e: "env_ok E" and g: "\<not> geometry_invalid E s"
  shows "\<exists>t. RedVolInitBlockGeometry E s = Some (Inr (), t) \<and>
    unat (bi_ulSectorSize (gaRedBdevInfo s (gbRedVolNum s))) * 2 ^ unat (vol_bBlockSectorShift (gpRedVolume t)) = BSIZE E \<and>
    geometry_ok E (gbRedVolNum s) t"
proof -
  let ?b = "gaRedBdevInfo s (gbRedVolNum s)" and ?off = "vc_ullSectorOffset (gaRedVolConf E (gbRedVolNum s))"
  obtain q n where q: "q \<le> BLOCK_SIZE_P2 E" "unat (bi_ulSectorSize ?b) = 2 ^ q" and un: "unat n = BLOCK_SIZE_P2 E - q"
    and sh: "sector_shift (bi_ulSectorSize ?b) (REDCONF_BLOCK_SIZE E) 0 = Some n"
    using geometry_shift [OF assms] by blast
  let ?t = "upd_vol (\<lambda>v. v\<lparr>vol_bBlockSectorShift := n,
      vol_ulBlockCount := ucast (drop_bit (unat n) (bi_ullSectorCount ?b))\<rparr>) s"
  have "RedVolInitBlockGeometry E s = Some (Inr (), ?t)"
    using g sh by (simp add: RedVolInitBlockGeometry_def Let_def)
  moreover have "unat (bi_ulSectorSize ?b) * 2 ^ unat (vol_bBlockSectorShift (gpRedVolume ?t)) = BSIZE E"
    using q by (simp add: un BSIZE_pow [OF e] power_add [symmetric])
  moreover have "geometry_ok E (gbRedVolNum s) ?t"
  proof -
    let ?c = "bi_ullSectorCount ?b"
    have "unat (ucast (drop_bit (unat n) ?c) :: u32) \<le> unat (drop_bit (unat n) ?c)"
      by (simp add: unsigned_ucast_eq take_bit_nat_less_eq_self)
    also have "\<dots> = drop_bit (unat n) (unat ?c)" by (rule unat_drop_bit_eq)
    also have "\<dots> = unat ?c div 2 ^ unat n" by (rule drop_bit_eq_div)
    finally have "unat (ucast (drop_bit (unat n) ?c) :: u32) * 2 ^ unat n \<le> unat ?c"
      using div_times_less_eq_dividend le_trans mult_le_mono1 by blast
    moreover have "unat ?off + unat ?c < 2 ^ 64"
    proof -
      have "?c \<le> 0xFFFFFFFFFFFFFFFF - ?off" using g by (simp add: geometry_invalid_def Let_def not_less)
      then have "unat ?c \<le> unat (0xFFFFFFFFFFFFFFFF - ?off)" by (simp add: word_le_nat_alt)
      also have "\<dots> = unat (0xFFFFFFFFFFFFFFFF :: u64) - unat ?off"
        using unsigned_less [of ?off, where 'a = nat] by (intro unat_sub) (simp add: word_le_nat_alt)
      finally show ?thesis using unsigned_less [of ?off, where 'a = nat] by simp
    qed
    ultimately show ?thesis by (simp add: geometry_ok_def upd_vol_def set_vol_def gpRedVolume_def)
  qed
  ultimately show ?thesis by (intro exI [of _ ?t]) simp
qed

section \<open>Layout\<close>

text \<open>Every block from the inode table on has a bit in the map.\<close>

definition map_covers :: "'d env \<Rightarrow> 'd fs \<Rightarrow> bool" where
  "map_covers E s \<longleftrightarrow> (let cv = gpRedCoreVol s;
       blocks = unat (vol_ulBlockCount (gpRedVolume s)) - unat (cv_ulInodeTableStartBN cv) in
     if cv_fImapInline cv then blocks \<le> unat (METAROOT_ENTRIES E)
     else unat (cv_ulImapStartBN cv) + 2 * unat (cv_ulImapNodeCount cv) = unat (cv_ulInodeTableStartBN cv) \<and>
       cv_ulImapNodeCount cv \<le> METAROOT_ENTRIES E \<and>
       blocks \<le> unat (cv_ulImapNodeCount cv) * unat (IMAPNODE_ENTRIES E))"

lemma entries_bounds:
  assumes e: "env_ok E"
  shows "unat (IMAPNODE_ENTRIES E) = (BSIZE E - 16) * 8" and "unat (METAROOT_ENTRIES E) = METAROOT_ENTRY_BYTES E * 8"
    and "unat (METAROOT_ENTRIES E) \<le> 524288" and "unat (IMAPNODE_ENTRIES E) \<le> 524288" and "896 \<le> unat (IMAPNODE_ENTRIES E)"
proof -
  have b: "128 \<le> BSIZE E" "BSIZE E \<le> 65536" using BSIZE_ge [OF e] BSIZE_le [OF e] by simp_all
  show i: "unat (IMAPNODE_ENTRIES E) = (BSIZE E - 16) * 8"
    unfolding IMAPNODE_ENTRIES_def IMAPNODE_ENTRY_BYTES_def IMAPNODE_HEADER_SIZE_def NODEHEADER_SIZE_def unat_of_nat
    using b by simp
  show m: "unat (METAROOT_ENTRIES E) = METAROOT_ENTRY_BYTES E * 8"
    unfolding METAROOT_ENTRIES_def unat_of_nat using b by (simp add: METAROOT_ENTRY_BYTES_def)
  show "unat (METAROOT_ENTRIES E) \<le> 524288" using b by (simp add: m METAROOT_ENTRY_BYTES_def)
  show "unat (IMAPNODE_ENTRIES E) \<le> 524288" "896 \<le> unat (IMAPNODE_ENTRIES E)" using b by (simp_all add: i)
qed

lemma round_up_div: "(n :: nat) \<le> (n + (e + 1)) div (e + 2) * (e + 2)"
proof -
  have "(n + (e + 1)) mod (e + 2) < e + 2" by simp
  moreover have "(n + (e + 1)) div (e + 2) * (e + 2) + (n + (e + 1)) mod (e + 2) = n + (e + 1)"
    by (rule div_mult_mod_eq)
  ultimately show ?thesis by linarith
qed

text \<open>The number of imap nodes, when the sum that is divided does not wrap around.\<close>

lemma imap_nodes_nat:
  assumes e: "env_ok E" and n: "5 \<le> unat n"
    and nowrap: "unat n + unat (IMAPNODE_ENTRIES E) < 2 ^ 32 + 2"
  shows "unat (imap_nodes E n) = (unat n - 3 + (unat (IMAPNODE_ENTRIES E) + 1)) div (unat (IMAPNODE_ENTRIES E) + 2)"
    and "unat n \<le> 3 + unat (imap_nodes E n) * (unat (IMAPNODE_ENTRIES E) + 2)"
proof -
  note b = entries_bounds [OF e]
  have "(3 :: u32) \<le> n" using n by (simp add: word_le_nat_alt)
  then have n3: "unat (n - 3) = unat n - 3" by (simp add: unat_sub_le)
  have e1: "unat ((IMAPNODE_ENTRIES E + 2) - 1) = unat (IMAPNODE_ENTRIES E) + 1"
    "unat (IMAPNODE_ENTRIES E + 2) = unat (IMAPNODE_ENTRIES E) + 2"
    using b(4) by (simp_all add: unat_word_ariths)
  have "unat ((n - 3) + ((IMAPNODE_ENTRIES E + 2) - 1)) = unat n - 3 + (unat (IMAPNODE_ENTRIES E) + 1)"
    using n nowrap unfolding unat_plus_if_size n3 e1 by (simp add: word_size)
  then show eq: "unat (imap_nodes E n) = (unat n - 3 + (unat (IMAPNODE_ENTRIES E) + 1)) div (unat (IMAPNODE_ENTRIES E) + 2)"
    unfolding imap_nodes_def unat_div e1 by simp
  show "unat n \<le> 3 + unat (imap_nodes E n) * (unat (IMAPNODE_ENTRIES E) + 2)"
    using round_up_div [of "unat n - 3" "unat (IMAPNODE_ENTRIES E)"] unfolding eq by linarith
qed

text \<open>The part of the layout before the inode table.\<close>

lemma init_imap_layout_ok:
  assumes e: "env_ok E" and run: "init_imap_layout E s = Some (Inr (), t)"
    and nowrap: "unat (vol_ulBlockCount (gpRedVolume s)) + unat (IMAPNODE_ENTRIES E) < 2 ^ 32 + 2"
  shows "map_covers E t" and "3 \<le> unat (cv_ulInodeTableStartBN (gpRedCoreVol t))"
    and "gpRedVolume t = gpRedVolume s" and "cv_ulInodeCount (gpRedCoreVol t) = cv_ulInodeCount (gpRedCoreVol s)"
proof -
  let ?n = "vol_ulBlockCount (gpRedVolume s)"
  let ?k = "imap_nodes E ?n"
  have n5: "5 \<le> unat ?n"
    using run by (auto simp: init_imap_layout_def MINIMUM_METADATA_BLOCKS_def not_less word_le_nat_alt split: if_splits)
  then have n3: "unat (?n - 3) = unat ?n - 3" by (subst unat_sub_le) (simp_all add: word_le_nat_alt)
  show "gpRedVolume t = gpRedVolume s" and "cv_ulInodeCount (gpRedCoreVol t) = cv_ulInodeCount (gpRedCoreVol s)"
    using run by (auto simp: init_imap_layout_def Let_def split: if_splits)
  show "3 \<le> unat (cv_ulInodeTableStartBN (gpRedCoreVol t))" "map_covers E t"
  proof -
    consider (inl) "?n - 3 \<le> METAROOT_ENTRIES E" | (ext) "\<not> ?n - 3 \<le> METAROOT_ENTRIES E" by blast
    then have "3 \<le> unat (cv_ulInodeTableStartBN (gpRedCoreVol t)) \<and> map_covers E t"
    proof cases
      case inl
      with run have "gpRedCoreVol t = (gpRedCoreVol s)\<lparr>cv_fImapInline := True, cv_ulInodeTableStartBN := 3\<rparr>"
        "gpRedVolume t = gpRedVolume s"
        by (auto simp: init_imap_layout_def Let_def split: if_splits)
      with inl n3 show ?thesis by (simp add: map_covers_def Let_def word_le_nat_alt)
    next
      case ext
      with run have k: "\<not> ?k > METAROOT_ENTRIES E" and t: "gpRedCoreVol t = (gpRedCoreVol s)\<lparr>cv_fImapInline := False,
          cv_ulImapStartBN := 3, cv_ulImapNodeCount := ?k, cv_ulInodeTableStartBN := 3 + ?k * 2\<rparr>"
        "gpRedVolume t = gpRedVolume s"
        by (auto simp: init_imap_layout_def Let_def split: if_splits)
      note nn = imap_nodes_nat [OF e n5 nowrap]
      have kb: "unat ?k \<le> 524288" using k entries_bounds(3) [OF e] by (simp add: not_less word_le_nat_alt)
      then have tb: "unat (3 + ?k * 2) = 3 + unat ?k * 2" by (simp add: unat_word_ariths)
      have "unat ?n - (3 + unat ?k * 2) \<le> unat ?k * unat (IMAPNODE_ENTRIES E)"
        using nn(2) by (simp add: algebra_simps)
      with tb k show ?thesis by (simp add: map_covers_def Let_def t not_less mult.commute)
    qed
    then show "3 \<le> unat (cv_ulInodeTableStartBN (gpRedCoreVol t))" "map_covers E t" by simp_all
  qed
qed


text \<open>
  C38. Without that bound the layout is wrong: for a volume that close to the largest count of
  blocks, the rounding up of the number of imap nodes wraps around, the volume is given no
  imap node at all, and the check of that number against the metaroot passes.
\<close>

theorem layout_wraps_on_largest_volumes:
  assumes "env_ok E" and "REDCONF_IMAP_EXTERNAL E"
    and "2 ^ 32 + 2 \<le> unat (vol_ulBlockCount (gpRedVolume s)) + unat (IMAPNODE_ENTRIES E)"
    and "2 * unat (cv_ulInodeCount (gpRedCoreVol s)) + 3 \<le> unat (vol_ulBlockCount (gpRedVolume s))"
  shows "\<exists>t. RedVolInitBlockLayout E s = Some (Inr (), t) \<and> \<not> cv_fImapInline (gpRedCoreVol t) \<and>
    cv_ulImapNodeCount (gpRedCoreVol t) = 0 \<and> cv_ulInodeTableStartBN (gpRedCoreVol t) = 3"
proof -
  let ?n = "vol_ulBlockCount (gpRedVolume s)"
  note b = entries_bounds [OF assms(1)]
  have n: "unat ?n < 2 ^ 32" by (rule unat_u32_less)
  have big: "2 ^ 31 \<le> unat ?n" using assms(3) b(4) by simp
  then have n3: "unat (?n - 3) = unat ?n - 3" by (subst unat_sub_le) (simp_all add: word_le_nat_alt)
  have e1: "unat ((IMAPNODE_ENTRIES E + 2) - 1) = unat (IMAPNODE_ENTRIES E) + 1"
    "unat (IMAPNODE_ENTRIES E + 2) = unat (IMAPNODE_ENTRIES E) + 2"
    using b(4) by (simp_all add: unat_word_ariths)
  have "unat ((?n - 3) + ((IMAPNODE_ENTRIES E + 2) - 1)) = unat ?n - 3 + (unat (IMAPNODE_ENTRIES E) + 1) - 2 ^ 32"
    using big assms(3) unfolding unat_plus_if_size n3 e1 by (simp add: word_size)
  also have "\<dots> < unat (IMAPNODE_ENTRIES E) + 2" using n by simp
  finally have k: "imap_nodes E ?n = 0"
    by (simp add: word_unat_eq_iff imap_nodes_def unat_div e1)
  have ext: "\<not> ?n - 3 \<le> METAROOT_ENTRIES E"
    using big b(3) by (simp add: word_le_nat_alt n3)
  have "unat (3 + cv_ulInodeCount (gpRedCoreVol s) * 2) = 3 + 2 * unat (cv_ulInodeCount (gpRedCoreVol s))"
    using assms(4) n by (simp add: unat_word_ariths)
  then have fit: "\<not> 3 + cv_ulInodeCount (gpRedCoreVol s) * 2 > ?n" using assms(4) by (simp add: word_less_nat_alt)
  have m: "\<not> ?n < MINIMUM_METADATA_BLOCKS" using big by (simp add: MINIMUM_METADATA_BLOCKS_def word_less_nat_alt)
  show ?thesis using m ext assms(2,4) k fit n
    by (simp add: RedVolInitBlockLayout_def init_imap_layout_def Let_def thenE_def bindE_def)
qed

section \<open>Instances\<close>

theorem geometry_is_consistent_witness:
  "\<exists>t. RedVolInitBlockGeometry demo_env (demo_fs demo_disk) = Some (Inr (), t) \<and> geometry_ok demo_env 0 t"
  using geometry_is_consistent [OF demo_env_ok, of "demo_fs demo_disk"]
  by (auto simp: geometry_invalid_def SECTOR_SIZE_MIN_def)

lemma demo_layout_run: "\<exists>t. RedVolInitBlockLayout demo_env (demo_fs demo_disk) = Some (Inr (), t)"
proof -
  have "METAROOT_ENTRIES demo_env = 768"
    by (simp add: METAROOT_ENTRIES_def METAROOT_ENTRY_BYTES_def demo_metaroot_header)
  then show ?thesis
    by (simp add: RedVolInitBlockLayout_def init_imap_layout_def Let_def thenE_def bindE_def MINIMUM_METADATA_BLOCKS_def
        demo_allocable_count)
qed


theorem layout_wraps_on_largest_volumes_witness:
  "\<exists>t. RedVolInitBlockLayout demo_env (upd_vol (\<lambda>v. v\<lparr>vol_ulBlockCount := 0xFFFFFFFF\<rparr>) (demo_fs demo_disk)) = Some (Inr (), t) \<and>
     cv_ulImapNodeCount (gpRedCoreVol t) = 0"
  using layout_wraps_on_largest_volumes [OF demo_env_ok, of "upd_vol (\<lambda>v. v\<lparr>vol_ulBlockCount := 0xFFFFFFFF\<rparr>) (demo_fs demo_disk)"]
    entries_bounds(5) [OF demo_env_ok] by (auto simp: demo_env_def)

end
