(* ===== verification/Red_Inode.thy ===== *)
theory Red_Inode
  imports Red_VolCommit Red_Mode
begin

text \<open>
  Inodes: the part of \<^verbatim>\<open>core/driver/inode.c\<close> that finds, mounts, branches and puts them. An open
  inode is the structure \<^verbatim>\<open>CINODE\<close>, which callers keep on their stack and pass by pointer; here
  the structures live in a store beside the driver's state, and a pointer is the number of its
  place in the store. A pointer to a buffer is an option, \<open>None\<close> being the null pointer.
\<close>

section \<open>Open inodes\<close>

record CINODE =
  ci_ulInode :: u32
  ci_fDirectory :: bool
  ci_fBranched :: bool
  ci_fDirty :: bool
  ci_fCoordInited :: bool
  ci_pInodeBuf :: "nat option"
  ci_uInodeEntry :: u16
  ci_pDindir :: "nat option"
  ci_ulDindirBlock :: u32
  ci_uDindirEntry :: u16
  ci_pIndir :: "nat option"
  ci_ulIndirBlock :: u32
  ci_uIndirEntry :: u16
  ci_pbData :: "nat option"
  ci_ulDataBlock :: u32
  ci_ulLogicalBlock :: u32

definition cinode_zero :: "u32 \<Rightarrow> CINODE" where
  "cinode_zero ulInode = \<lparr>ci_ulInode = ulInode, ci_fDirectory = False, ci_fBranched = False,
     ci_fDirty = False, ci_fCoordInited = False, ci_pInodeBuf = None, ci_uInodeEntry = 0,
     ci_pDindir = None, ci_ulDindirBlock = 0, ci_uDindirEntry = 0, ci_pIndir = None,
     ci_ulIndirBlock = 0, ci_uIndirEntry = 0, ci_pbData = None, ci_ulDataBlock = 0,
     ci_ulLogicalBlock = 0\<rparr>"

type_synonym inoptr = nat
type_synonym 'd ist = "(inoptr \<Rightarrow> CINODE) \<times> 'd fs"
type_synonym ('d, 'a) iop = "('d ist, rederr, 'a) comp"

declare split_paired_Ex [simp del]

definition ci :: "inoptr \<Rightarrow> 'd ist \<Rightarrow> CINODE" where "ci i st = fst st i"

definition upd_ci :: "inoptr \<Rightarrow> (CINODE \<Rightarrow> CINODE) \<Rightarrow> 'd ist \<Rightarrow> 'd ist" where
  "upd_ci i f st = ((fst st)(i := f (fst st i)), snd st)"

text \<open>An operation of the driver's state, run beside the store of the open inodes.\<close>

definition liftF :: "('d, 'a) op \<Rightarrow> ('d, 'a) iop" where
  "liftF f = (\<lambda>(c, s). case f s of None \<Rightarrow> None | Some (r, t) \<Rightarrow> Some (r, (c, t)))"

abbreviation getF :: "('d fs \<Rightarrow> 'a) \<Rightarrow> ('d, 'a) iop" where "getF f \<equiv> getE (\<lambda>st. f (snd st))"
abbreviation modF :: "('d fs \<Rightarrow> 'd fs) \<Rightarrow> ('d, unit) iop" where "modF f \<equiv> modE (apsnd f)"

text \<open>
  The access through a pointer held by an open inode. Following a null pointer has no outcome:
  \<open>None\<close>, as for a loop that does not end.
\<close>

definition ptrI :: "(CINODE \<Rightarrow> nat option) \<Rightarrow> inoptr \<Rightarrow> ('d, nat) iop" where
  "ptrI f i = (\<lambda>st. case f (ci i st) of None \<Rightarrow> None | Some p \<Rightarrow> Some (Inr p, st))"

definition readI :: "'d env \<Rightarrow> (CINODE \<Rightarrow> nat option) \<Rightarrow> inoptr \<Rightarrow> (bytes \<Rightarrow> 'a) \<Rightarrow> ('d, 'a) iop" where
  "readI E f i g = bindE (ptrI f i) (\<lambda>p. getF (\<lambda>s. g (buf_at E p s)))"

definition writeI :: "'d env \<Rightarrow> (CINODE \<Rightarrow> nat option) \<Rightarrow> inoptr \<Rightarrow> (bytes \<Rightarrow> bytes) \<Rightarrow> ('d, unit) iop" where
  "writeI E f i g = bindE (ptrI f i) (\<lambda>p. modF (upd_buf E p g))"

section \<open>The inode node\<close>

definition ino_ullSize :: "bytes \<Rightarrow> u64" where "ino_ullSize = get64 ino_off_ullSize"
definition ino_ulBlocks :: "bytes \<Rightarrow> u32" where "ino_ulBlocks = get32 ino_off_ulBlocks"
definition ino_uMode :: "'d env \<Rightarrow> bytes \<Rightarrow> u16" where "ino_uMode E = get16 (ino_off_uMode E)"
definition ino_uNLink :: "'d env \<Rightarrow> bytes \<Rightarrow> u16" where "ino_uNLink E = get16 (ino_off_uNLink E)"
definition ino_ulPInode :: "'d env \<Rightarrow> bytes \<Rightarrow> u32" where "ino_ulPInode E = get32 (ino_off_ulPInode E)"
definition ino_ulNextOrphan :: "'d env \<Rightarrow> bytes \<Rightarrow> u32" where "ino_ulNextOrphan E = get32 (ino_off_ulNextOrphan E)"
definition ino_ulUID :: "'d env \<Rightarrow> bytes \<Rightarrow> u32" where "ino_ulUID E = get32 (ino_off_ulUID E)"
definition ino_ulGID :: "'d env \<Rightarrow> bytes \<Rightarrow> u32" where "ino_ulGID E = get32 (ino_off_ulGID E)"

definition CINODE_IS_MOUNTED :: "inoptr \<Rightarrow> 'd ist \<Rightarrow> bool" where
  "CINODE_IS_MOUNTED i st \<longleftrightarrow>
     INODE_IS_VALID (ci_ulInode (ci i st)) (snd st) \<and> ci_pInodeBuf (ci i st) \<noteq> None"

definition CINODE_IS_DIRTY :: "inoptr \<Rightarrow> 'd ist \<Rightarrow> bool" where
  "CINODE_IS_DIRTY i st \<longleftrightarrow> CINODE_IS_MOUNTED i st \<and> ci_fDirty (ci i st)"

section \<open>The two copies of an inode\<close>

definition InodeBlock :: "u32 \<Rightarrow> u8 \<Rightarrow> 'd fs \<Rightarrow> u32" where
  "InodeBlock ulInode bWhich s =
     cv_ulInodeTableStartBN (gpRedCoreVol s) + (ulInode - INODE_FIRST_VALID) * 2 + ucast bWhich"

definition RedInodeBitGet :: "'d env \<Rightarrow> u8 \<Rightarrow> u32 \<Rightarrow> u8 \<Rightarrow> ('d, bool) op" where
  "RedInodeBitGet E bMR ulInode bWhich = (\<lambda>s.
     if \<not> INODE_IS_VALID ulInode s \<or> bWhich > 1 then errE RED_EINVAL s
     else RedImapBlockGet E bMR (InodeBlock ulInode bWhich s) s)"

definition InodeBitSet :: "'d env \<Rightarrow> u32 \<Rightarrow> u8 \<Rightarrow> bool \<Rightarrow> ('d, unit) op" where
  "InodeBitSet E ulInode bWhich fAllocated = (\<lambda>s.
     if \<not> INODE_IS_VALID ulInode s \<or> bWhich > 1 then errE RED_EINVAL s
     else RedImapBlockSet E (InodeBlock ulInode bWhich s) fAllocated s)"

definition InodeGetCurrentCopy :: "'d env \<Rightarrow> u32 \<Rightarrow> ('d, u8) op" where
  "InodeGetCurrentCopy E ulInode = (\<lambda>s.
     let bMR = cv_bCurMR (gpRedCoreVol s) in
     bindE (RedInodeBitGet E bMR ulInode 0) (\<lambda>fSlot0Allocated.
     if fSlot0Allocated then okE 0
     else bindE (\<lambda>s. RedInodeBitGet E (cv_bCurMR (gpRedCoreVol s)) ulInode 1 s) (\<lambda>fSlot1Allocated.
       if fSlot1Allocated then okE 1 else errE RED_EBADF)) s)"

definition InodeGetWriteableCopy :: "'d env \<Rightarrow> u32 \<Rightarrow> ('d, u8) op" where
  "InodeGetWriteableCopy E ulInode =
     bindE (\<lambda>s. RedInodeBitGet E (other_MR s) ulInode 0 s) (\<lambda>fSlot0Allocated.
     if \<not> fSlot0Allocated then okE 0
     else bindE (\<lambda>s. RedInodeBitGet E (other_MR s) ulInode 1 s) (\<lambda>fSlot1Allocated.
       if \<not> fSlot1Allocated then okE 1
       else thenE CRITICAL_ERROR (errE RED_EFUBAR)))"

definition RedInodeIsFree :: "'d env \<Rightarrow> u32 \<Rightarrow> ('d, bool) op" where
  "RedInodeIsFree E ulInode =
     bindE (\<lambda>s. RedInodeBitGet E (cv_bCurMR (gpRedCoreVol s)) ulInode 0 s) (\<lambda>fSlot0Allocated.
     if fSlot0Allocated then okE False
     else bindE (\<lambda>s. RedInodeBitGet E (cv_bCurMR (gpRedCoreVol s)) ulInode 1 s) (\<lambda>fSlot1Allocated.
       okE (\<not> fSlot1Allocated)))"

text \<open>
  The search for a free inode. The loop runs over the numbers from \<open>ulInode\<close>, of which \<open>n\<close>
  are left; its result is the number at which it stopped.
\<close>

fun inode_search :: "'d env \<Rightarrow> nat \<Rightarrow> u32 \<Rightarrow> ('d, u32) op" where
  "inode_search E 0 ulInode = okE ulInode"
| "inode_search E (Suc n) ulInode =
     bindE (RedInodeIsFree E ulInode) (\<lambda>fFree.
     if fFree then okE ulInode else inode_search E n (ulInode + 1))"

definition inode_limit :: "'d fs \<Rightarrow> u32" where
  "inode_limit s = INODE_FIRST_VALID + cv_ulInodeCount (gpRedCoreVol s)"

definition InodeFindFree :: "'d env \<Rightarrow> ('d, u32) op" where
  "InodeFindFree E = (\<lambda>s.
     if mr_ulFreeInodes (gpRedMR s) = 0 then errE RED_ENFILE s
     else bindE (inode_search E (unat (inode_limit s) - unat (INODE_FIRST_FREE E)) (INODE_FIRST_FREE E)) (\<lambda>ulInode.
       bindE (getE (\<lambda>s. ulInode < inode_limit s)) (\<lambda>found.
       if found then okE ulInode
       else thenE CRITICAL_ERROR (errE RED_ENFILE))) s)"

definition InodeIsBranched :: "'d env \<Rightarrow> u32 \<Rightarrow> ('d, bool) op" where
  "InodeIsBranched E ulInode = (\<lambda>s.
     if \<not> INODE_IS_VALID ulInode s then errE RED_EINVAL s
     else bindE (RedImapBlockState E (InodeBlock ulInode 0 s)) (\<lambda>state.
       if state = ALLOCSTATE_NEW then okE True
       else bindE (\<lambda>s. RedImapBlockState E (InodeBlock ulInode 1 s) s) (\<lambda>state.
         okE (state = ALLOCSTATE_NEW))) s)"

section \<open>Letting go of buffers\<close>

definition put_ptr :: "'d env \<Rightarrow> (CINODE \<Rightarrow> nat option) \<Rightarrow> (CINODE \<Rightarrow> CINODE) \<Rightarrow> inoptr \<Rightarrow> ('d, unit) iop" where
  "put_ptr E f clear i =
     bindE (getE (\<lambda>st. f (ci i st))) (\<lambda>p.
     case p of None \<Rightarrow> okE ()
     | Some p \<Rightarrow> thenE (modF (RedBufferPut E p)) (modE (upd_ci i clear)))"

definition RedInodePutData :: "'d env \<Rightarrow> inoptr \<Rightarrow> ('d, unit) iop" where
  "RedInodePutData E = put_ptr E ci_pbData (\<lambda>c. c\<lparr>ci_pbData := None\<rparr>)"

definition RedInodePutIndir :: "'d env \<Rightarrow> inoptr \<Rightarrow> ('d, unit) iop" where
  "RedInodePutIndir E = put_ptr E ci_pIndir (\<lambda>c. c\<lparr>ci_pIndir := None\<rparr>)"

definition RedInodePutDindir :: "'d env \<Rightarrow> inoptr \<Rightarrow> ('d, unit) iop" where
  "RedInodePutDindir E = put_ptr E ci_pDindir (\<lambda>c. c\<lparr>ci_pDindir := None\<rparr>)"

definition RedInodePutCoord :: "'d env \<Rightarrow> inoptr \<Rightarrow> ('d, unit) iop" where
  "RedInodePutCoord E i =
     thenE (RedInodePutData E i)
       (thenE (whenE (INDIRS_EXIST E) (RedInodePutIndir E i))
         (whenE (DINDIRS_EXIST E) (RedInodePutDindir E i)))"

definition IPUT_UPDATE_ATIME :: u8 where "IPUT_UPDATE_ATIME = 0x01"
definition IPUT_UPDATE_MTIME :: u8 where "IPUT_UPDATE_MTIME = 0x02"
definition IPUT_UPDATE_CTIME :: u8 where "IPUT_UPDATE_CTIME = 0x04"
definition IPUT_UPDATE_MASK :: u8 where
  "IPUT_UPDATE_MASK = IPUT_UPDATE_ATIME OR IPUT_UPDATE_MTIME OR IPUT_UPDATE_CTIME"

definition stamp_times :: "'d env \<Rightarrow> u8 \<Rightarrow> u32 \<Rightarrow> bytes \<Rightarrow> bytes" where
  "stamp_times E bTimeFields ulNow b =
     (let b = (if REDCONF_ATIME E \<and> bTimeFields AND IPUT_UPDATE_ATIME \<noteq> 0
               then put32 (ino_off_ulATime E) ulNow b else b);
          b = (if bTimeFields AND IPUT_UPDATE_MTIME \<noteq> 0 then put32 (ino_off_ulMTime E) ulNow b else b)
      in if bTimeFields AND IPUT_UPDATE_CTIME \<noteq> 0 then put32 (ino_off_ulCTime E) ulNow b else b)"

definition RedInodePut :: "'d env \<Rightarrow> inoptr \<Rightarrow> u8 \<Rightarrow> ('d, unit) iop" where
  "RedInodePut E i bTimeFields =
     thenE (RedInodePutCoord E i)
       (bindE (getE (\<lambda>st. ci_pInodeBuf (ci i st))) (\<lambda>p.
        case p of None \<Rightarrow> okE ()
        | Some p \<Rightarrow>
          thenE (bindE (getE (\<lambda>st. REDCONF_INODE_TIMESTAMPS E \<and> bTimeFields AND IPUT_UPDATE_MASK \<noteq> 0 \<and>
                   ci_fBranched (ci i st) \<and> ci_fDirty (ci i st))) (\<lambda>stamp.
                 whenE stamp (bindE (getF (\<lambda>s. RedOsClockGetTime E (os s))) (\<lambda>ulNow.
                   writeI E ci_pInodeBuf i (stamp_times E bTimeFields ulNow)))))
            (put_ptr E ci_pInodeBuf (\<lambda>c. c\<lparr>ci_pInodeBuf := None\<rparr>) i)))"

section \<open>Branching and mounting\<close>

definition RedInodeBranch :: "'d env \<Rightarrow> inoptr \<Rightarrow> ('d, unit) iop" where
  "RedInodeBranch E i = (\<lambda>st.
     if \<not> CINODE_IS_MOUNTED i st then errE RED_EINVAL st
     else let c = ci i st; ulInode = ci_ulInode c in
       if \<not> ci_fBranched c then
         statusE
           (bindE (liftF (InodeGetWriteableCopy E ulInode)) (\<lambda>bWhich.
            thenE (bindE (ptrI ci_pInodeBuf i) (\<lambda>p. modF (\<lambda>s. RedBufferBranch E p (InodeBlock ulInode bWhich s) s)))
             (thenE (modE (upd_ci i (\<lambda>c. c\<lparr>ci_fBranched := True, ci_fDirty := True\<rparr>)))
               (thenE (liftF (InodeBitSet E ulInode (1 - bWhich) False))
                 (liftF (InodeBitSet E ulInode bWhich True))))))
           (\<lambda>ret. thenE (liftF (CRITICAL_ASSERT (is_ok ret))) (returnE ret)) st
       else thenE (bindE (ptrI ci_pInodeBuf i) (\<lambda>p. modF (RedBufferDirty E p)))
              (modE (upd_ci i (\<lambda>c. c\<lparr>ci_fDirty := True\<rparr>))) st)"

definition RedInodeMount :: "'d env \<Rightarrow> inoptr \<Rightarrow> FTYPE \<Rightarrow> bool \<Rightarrow> ('d, unit) iop" where
  "RedInodeMount E i type fBranch = (\<lambda>st.
     let ulInode = ci_ulInode (ci i st) in
     if \<not> INODE_IS_VALID ulInode (snd st) then errE RED_EBADF st
     else if \<not> REDCONF_API_POSIX E \<and> type = FTYPE_DIR then errE RED_EINVAL st
     else
       statusE
         (thenE (modE (upd_ci i (\<lambda>_. cinode_zero ulInode)))
           (bindE (liftF (InodeGetCurrentCopy E ulInode)) (\<lambda>bWhich.
            bindE (liftF (\<lambda>s. RedBufferGet E (InodeBlock ulInode bWhich s) BFLAG_META_INODE s)) (\<lambda>p.
            thenE (modE (upd_ci i (\<lambda>c. c\<lparr>ci_pInodeBuf := Some p\<rparr>)))
             (bindE (liftF (InodeIsBranched E ulInode)) (\<lambda>fBranched.
              thenE (modE (upd_ci i (\<lambda>c. c\<lparr>ci_fBranched := fBranched\<rparr>)))
               (thenE (if REDCONF_API_POSIX E then
                         bindE (readI E ci_pInodeBuf i (ino_uMode E)) (\<lambda>uMode.
                         thenE (modE (upd_ci i (\<lambda>c. c\<lparr>ci_fDirectory :=
                                 RED_S_ISDIR (REDCONF_API_POSIX_SYMLINK E) uMode\<rparr>)))
                           (returnE (RedModeTypeCheck (REDCONF_API_POSIX_SYMLINK E) uMode type)))
                       else okE ())
                 (whenE fBranch (RedInodeBranch E i))))))))) 
         (\<lambda>ret. if is_ok ret then returnE ret else thenE (RedInodePut E i 0) (returnE ret)) st)"

section \<open>Freeing an inode\<close>

definition free_slot :: "'d env \<Rightarrow> u32 \<Rightarrow> ('d, unit) op" where
  "free_slot E ulInode =
     bindE (\<lambda>s. RedInodeBitGet E (cv_bCurMR (gpRedCoreVol s)) ulInode 0 s) (\<lambda>fSlot0Allocated.
     bindE (\<lambda>s. RedInodeBitGet E (cv_bCurMR (gpRedCoreVol s)) ulInode 1 s) (\<lambda>fSlot1Allocated.
       if fSlot0Allocated then
         if fSlot1Allocated then thenE CRITICAL_ERROR (errE RED_EFUBAR)
         else InodeBitSet E ulInode 0 False
       else if \<not> fSlot1Allocated then thenE CRITICAL_ERROR (errE RED_EBADF)
       else InodeBitSet E ulInode 1 False))"

definition RedInodeFree :: "'d env \<Rightarrow> inoptr \<Rightarrow> ('d, unit) iop" where
  "RedInodeFree E i = (\<lambda>st.
     if \<not> CINODE_IS_MOUNTED i st then errE RED_EINVAL st
     else
       thenE (bindE (ptrI ci_pInodeBuf i) (\<lambda>p. modF (RedBufferDiscard E p)))
         (thenE (modE (upd_ci i (\<lambda>c. c\<lparr>ci_pInodeBuf := None\<rparr>)))
           (statusE (liftF (free_slot E (ci_ulInode (ci i st)))) (\<lambda>ret.
              thenE (modE (upd_ci i (\<lambda>c. c\<lparr>ci_ulInode := INODE_INVALID\<rparr>)))
                (thenE (returnE ret)
                  (bindE (getF (\<lambda>s. mr_ulFreeInodes (gpRedMR s) \<ge> cv_ulInodeCount (gpRedCoreVol s))) (\<lambda>too_many.
                   if too_many then thenE (liftF CRITICAL_ERROR) (errE RED_EFUBAR)
                   else modF (upd_MR (\<lambda>mr. put32 mr_off_ulFreeInodes (mr_ulFreeInodes mr + 1) mr)))))))) st)"

end
