(* ===== verification/Red_Seek.thy ===== *)
theory Red_Seek
  imports Red_Inode
begin

text \<open>
  The way from a block of a file to its place on the disk: the coordinates of
  \<^verbatim>\<open>core/driver/inodedata.c\<close>. The first blocks of a file are entries of the inode, the next ones
  entries of indirect nodes, the others entries of indirect nodes that are entries of double
  indirect nodes. The limits on the size of a file are those of \<^verbatim>\<open>redcoremacs.h\<close>.
\<close>

section \<open>Limits\<close>

definition DINDIR_DATA_BLOCKS :: "'d env \<Rightarrow> u32" where
  "DINDIR_DATA_BLOCKS E = INDIR_ENTRIES E * INDIR_ENTRIES E"

definition INODE_INDIR_BLOCKS :: "'d env \<Rightarrow> u32" where
  "INODE_INDIR_BLOCKS E = REDCONF_INDIRECT_POINTERS E * INDIR_ENTRIES E"

definition INODE_DINDIR_BLOCKS_MAX :: "'d env \<Rightarrow> u32" where
  "INODE_DINDIR_BLOCKS_MAX E = 0xFFFFFFFF - (REDCONF_DIRECT_POINTERS E + INODE_INDIR_BLOCKS E)"

definition DINDIR_POINTERS_MAX :: "'d env \<Rightarrow> u32" where
  "DINDIR_POINTERS_MAX E = INODE_DINDIR_BLOCKS_MAX E div DINDIR_DATA_BLOCKS E +
     (if INODE_DINDIR_BLOCKS_MAX E mod DINDIR_DATA_BLOCKS E = 0 then 0 else 1)"

definition INODE_DINDIR_BLOCKS :: "'d env \<Rightarrow> u32" where
  "INODE_DINDIR_BLOCKS E =
     (if DINDIR_POINTERS_MAX E \<le> DINDIR_POINTERS E then INODE_DINDIR_BLOCKS_MAX E
      else DINDIR_POINTERS E * DINDIR_DATA_BLOCKS E)"

definition INODE_DATA_BLOCKS :: "'d env \<Rightarrow> u32" where
  "INODE_DATA_BLOCKS E = REDCONF_DIRECT_POINTERS E + INODE_INDIR_BLOCKS E + INODE_DINDIR_BLOCKS E"

definition INODE_SIZE_MAX :: "'d env \<Rightarrow> u64" where
  "INODE_SIZE_MAX E = ucast (REDCONF_BLOCK_SIZE E) * ucast (INODE_DATA_BLOCKS E)"

definition COORD_ENTRY_INVALID :: u16 where "COORD_ENTRY_INVALID = 0xFFFF"

section \<open>Entries of nodes\<close>

definition ino_entry :: "'d env \<Rightarrow> nat \<Rightarrow> bytes \<Rightarrow> u32" where
  "ino_entry E k = get32 (INODE_HEADER_SIZE E + 4 * k)"

definition put_ino_entry :: "'d env \<Rightarrow> nat \<Rightarrow> u32 \<Rightarrow> bytes \<Rightarrow> bytes" where
  "put_ino_entry E k = put32 (INODE_HEADER_SIZE E + 4 * k)"

definition indir_entry :: "nat \<Rightarrow> bytes \<Rightarrow> u32" where
  "indir_entry k = get32 (INDIR_HEADER_SIZE + 4 * k)"

definition put_indir_entry :: "nat \<Rightarrow> u32 \<Rightarrow> bytes \<Rightarrow> bytes" where
  "put_indir_entry k = put32 (INDIR_HEADER_SIZE + 4 * k)"

text \<open>The entry of the inode, of the double indirect and of the indirect node at the coordinates.\<close>

definition cur_ino_entry :: "'d env \<Rightarrow> inoptr \<Rightarrow> ('d, u32) iop" where
  "cur_ino_entry E i = bindE (getE (\<lambda>st. unat (ci_uInodeEntry (ci i st)))) (\<lambda>k.
     readI E ci_pInodeBuf i (ino_entry E k))"

definition cur_dindir_entry :: "'d env \<Rightarrow> inoptr \<Rightarrow> ('d, u32) iop" where
  "cur_dindir_entry E i = bindE (getE (\<lambda>st. unat (ci_uDindirEntry (ci i st)))) (\<lambda>k.
     readI E ci_pDindir i (indir_entry k))"

definition cur_indir_entry :: "'d env \<Rightarrow> inoptr \<Rightarrow> ('d, u32) iop" where
  "cur_indir_entry E i = bindE (getE (\<lambda>st. unat (ci_uIndirEntry (ci i st)))) (\<lambda>k.
     readI E ci_pIndir i (indir_entry k))"

definition CINODE_DATA_BFLAG :: "'d env \<Rightarrow> inoptr \<Rightarrow> 'd ist \<Rightarrow> u16" where
  "CINODE_DATA_BFLAG E i st =
     (if REDCONF_API_POSIX E \<and> ci_fDirectory (ci i st) \<and>
         cv_ulVersion (gpRedCoreVol (snd st)) \<ge> RED_DISK_LAYOUT_DIRCRC
      then BFLAG_META_DIRECTORY else 0)"

section \<open>Seeking\<close>

definition no_dindir :: "'d env \<Rightarrow> CINODE \<Rightarrow> CINODE" where
  "no_dindir E c = (if DINDIRS_EXIST E then c\<lparr>ci_uDindirEntry := COORD_ENTRY_INVALID\<rparr> else c)"

definition no_indir :: "'d env \<Rightarrow> CINODE \<Rightarrow> CINODE" where
  "no_indir E c = (if INDIRS_EXIST E then c\<lparr>ci_uIndirEntry := COORD_ENTRY_INVALID\<rparr> else c)"

definition seek_direct :: "'d env \<Rightarrow> inoptr \<Rightarrow> u32 \<Rightarrow> ('d, unit) iop" where
  "seek_direct E i ulBlock =
     thenE (whenE (REDCONF_DIRECT_POINTERS E < INODE_ENTRIES E) (RedInodePutCoord E i))
       (thenE (modE (upd_ci i (\<lambda>c. c\<lparr>ci_uInodeEntry := ucast ulBlock\<rparr>)))
         (bindE (cur_ino_entry E i) (\<lambda>b.
          modE (upd_ci i (\<lambda>c. no_indir E (no_dindir E (c\<lparr>ci_ulDataBlock := b\<rparr>)))))))"

definition indir_coord :: "'d env \<Rightarrow> u32 \<Rightarrow> u16 \<times> u16" where
  "indir_coord E ulBlock =
     (let ulIndirRangeOffset = ulBlock - REDCONF_DIRECT_POINTERS E
      in (ucast (ulIndirRangeOffset div INDIR_ENTRIES E + REDCONF_DIRECT_POINTERS E),
          ucast (ulIndirRangeOffset mod INDIR_ENTRIES E)))"

definition seek_indir :: "'d env \<Rightarrow> inoptr \<Rightarrow> u32 \<Rightarrow> ('d, unit) iop" where
  "seek_indir E i ulBlock =
     (let (uInodeEntry, uIndirEntry) = indir_coord E ulBlock in
      thenE (whenE (DINDIRS_EXIST E) (RedInodePutDindir E i))
        (thenE (bindE (getE (\<lambda>st. ci_uInodeEntry (ci i st) \<noteq> uInodeEntry \<or> \<not> ci_fCoordInited (ci i st))) (\<lambda>other.
             whenE other
               (thenE (RedInodePutIndir E i)
                 (thenE (modE (upd_ci i (\<lambda>c. c\<lparr>ci_uInodeEntry := uInodeEntry\<rparr>)))
                   (bindE (cur_ino_entry E i) (\<lambda>b. modE (upd_ci i (\<lambda>c. c\<lparr>ci_ulIndirBlock := b\<rparr>))))))))
          (modE (upd_ci i (\<lambda>c. (no_dindir E c)\<lparr>ci_uIndirEntry := uIndirEntry\<rparr>)))))"

definition dindir_coord :: "'d env \<Rightarrow> u32 \<Rightarrow> u16 \<times> u16 \<times> u16" where
  "dindir_coord E ulBlock =
     (let ulDindirRangeOffset = (ulBlock - REDCONF_DIRECT_POINTERS E) - INODE_INDIR_BLOCKS E;
          ulDindirNodeOffset = ulDindirRangeOffset mod DINDIR_DATA_BLOCKS E
      in (ucast (ulDindirRangeOffset div DINDIR_DATA_BLOCKS E + REDCONF_DIRECT_POINTERS E +
            REDCONF_INDIRECT_POINTERS E),
          ucast (ulDindirNodeOffset div INDIR_ENTRIES E),
          ucast (ulDindirNodeOffset mod INDIR_ENTRIES E)))"

definition seek_dindir :: "'d env \<Rightarrow> inoptr \<Rightarrow> u32 \<Rightarrow> ('d, unit) iop" where
  "seek_dindir E i ulBlock =
     (let (uInodeEntry, uDindirEntry, uIndirEntry) = dindir_coord E ulBlock in
      thenE (bindE (getE (ci i)) (\<lambda>c.
          if ci_uInodeEntry c \<noteq> uInodeEntry \<or> \<not> ci_fCoordInited c then
            thenE (RedInodePutIndir E i)
              (thenE (RedInodePutDindir E i)
                (thenE (modE (upd_ci i (\<lambda>c. c\<lparr>ci_uInodeEntry := uInodeEntry\<rparr>)))
                  (bindE (cur_ino_entry E i) (\<lambda>b. modE (upd_ci i (\<lambda>c. c\<lparr>ci_ulDindirBlock := b\<rparr>))))))
          else if ci_uDindirEntry c \<noteq> uDindirEntry then RedInodePutIndir E i
          else okE ()))
        (modE (upd_ci i (\<lambda>c. c\<lparr>ci_uDindirEntry := uDindirEntry, ci_uIndirEntry := uIndirEntry\<rparr>))))"

text \<open>The preprocessor leaves out the range tests that the configuration decides.\<close>

definition in_direct_range :: "'d env \<Rightarrow> u32 \<Rightarrow> bool" where
  "in_direct_range E ulBlock \<longleftrightarrow> REDCONF_DIRECT_POINTERS E > 0 \<and>
     (\<not> REDCONF_DIRECT_POINTERS E < INODE_ENTRIES E \<or> ulBlock < REDCONF_DIRECT_POINTERS E)"

definition in_indir_range :: "'d env \<Rightarrow> u32 \<Rightarrow> bool" where
  "in_indir_range E ulBlock \<longleftrightarrow> REDCONF_INDIRECT_POINTERS E > 0 \<and>
     (\<not> REDCONF_INDIRECT_POINTERS E < INODE_ENTRIES E \<or>
      ulBlock < INODE_INDIR_BLOCKS E + REDCONF_DIRECT_POINTERS E)"

definition SeekCoord :: "'d env \<Rightarrow> inoptr \<Rightarrow> u32 \<Rightarrow> ('d, unit) iop" where
  "SeekCoord E i ulBlock = (\<lambda>st.
     if \<not> CINODE_IS_MOUNTED i st \<or> ulBlock \<ge> INODE_DATA_BLOCKS E then okE () st
     else if ci_ulLogicalBlock (ci i st) \<noteq> ulBlock \<or> \<not> ci_fCoordInited (ci i st) then
       thenE (RedInodePutData E i)
         (thenE (modE (upd_ci i (\<lambda>c. c\<lparr>ci_ulLogicalBlock := ulBlock\<rparr>)))
           (thenE (if in_direct_range E ulBlock then seek_direct E i ulBlock
                   else if in_indir_range E ulBlock then seek_indir E i ulBlock
                   else if DINDIRS_EXIST E then seek_dindir E i ulBlock
                   else okE ())
             (modE (upd_ci i (\<lambda>c. c\<lparr>ci_fCoordInited := True\<rparr>))))) st
     else okE () st)"

text \<open>A buffer that is got for a pointer that is null.\<close>

definition get_ptr :: "'d env \<Rightarrow> (CINODE \<Rightarrow> nat option) \<Rightarrow> (nat \<Rightarrow> CINODE \<Rightarrow> CINODE) \<Rightarrow> inoptr \<Rightarrow> u32 \<Rightarrow> u16 \<Rightarrow>
    ('d, unit) iop" where
  "get_ptr E f setp i ulBlock uFlags =
     bindE (getE (\<lambda>st. f (ci i st))) (\<lambda>p.
     case p of Some _ \<Rightarrow> okE ()
     | None \<Rightarrow> bindE (liftF (RedBufferGet E ulBlock uFlags)) (\<lambda>p. modE (upd_ci i (setp p))))"

abbreviation set_pDindir :: "nat \<Rightarrow> CINODE \<Rightarrow> CINODE" where "set_pDindir p c \<equiv> c\<lparr>ci_pDindir := Some p\<rparr>"
abbreviation set_pIndir :: "nat \<Rightarrow> CINODE \<Rightarrow> CINODE" where "set_pIndir p c \<equiv> c\<lparr>ci_pIndir := Some p\<rparr>"
abbreviation set_pbData :: "nat \<Rightarrow> CINODE \<Rightarrow> CINODE" where "set_pbData p c \<equiv> c\<lparr>ci_pbData := Some p\<rparr>"

definition load_dindir :: "'d env \<Rightarrow> inoptr \<Rightarrow> ('d, unit) iop" where
  "load_dindir E i =
     bindE (getE (ci i)) (\<lambda>c.
     if ci_uDindirEntry c = COORD_ENTRY_INVALID then okE ()
     else if ci_ulDindirBlock c = BLOCK_SPARSE then modE (upd_ci i (\<lambda>c. c\<lparr>ci_ulIndirBlock := BLOCK_SPARSE\<rparr>))
     else thenE (get_ptr E ci_pDindir set_pDindir i (ci_ulDindirBlock c) BFLAG_META_DINDIR)
            (bindE (cur_dindir_entry E i) (\<lambda>b. modE (upd_ci i (\<lambda>c. c\<lparr>ci_ulIndirBlock := b\<rparr>)))))"

definition load_indir :: "'d env \<Rightarrow> inoptr \<Rightarrow> ('d, unit) iop" where
  "load_indir E i =
     bindE (getE (ci i)) (\<lambda>c.
     if ci_uIndirEntry c = COORD_ENTRY_INVALID then okE ()
     else if ci_ulIndirBlock c = BLOCK_SPARSE then modE (upd_ci i (\<lambda>c. c\<lparr>ci_ulDataBlock := BLOCK_SPARSE\<rparr>))
     else thenE (get_ptr E ci_pIndir set_pIndir i (ci_ulIndirBlock c) BFLAG_META_INDIR)
            (bindE (cur_indir_entry E i) (\<lambda>b. modE (upd_ci i (\<lambda>c. c\<lparr>ci_ulDataBlock := b\<rparr>)))))"

definition SeekInode :: "'d env \<Rightarrow> inoptr \<Rightarrow> u32 \<Rightarrow> ('d, unit) iop" where
  "SeekInode E i ulBlock = (\<lambda>st.
     if \<not> CINODE_IS_MOUNTED i st \<or> ulBlock \<ge> INODE_DATA_BLOCKS E then errE RED_EINVAL st
     else
       thenE (SeekCoord E i ulBlock)
         (thenE (whenE (DINDIRS_EXIST E) (load_dindir E i))
           (thenE (whenE (INDIRS_EXIST E) (load_indir E i))
             (bindE (getE (\<lambda>st. ci_ulDataBlock (ci i st) = BLOCK_SPARSE)) (\<lambda>sparse.
              if sparse then errE RED_ENODATA else okE ())))) st)"

definition RedInodeDataSeekAndRead :: "'d env \<Rightarrow> inoptr \<Rightarrow> u32 \<Rightarrow> ('d, unit) iop" where
  "RedInodeDataSeekAndRead E i ulBlock =
     thenE (SeekInode E i ulBlock)
       (bindE (getE (\<lambda>st. (ci_ulDataBlock (ci i st), CINODE_DATA_BFLAG E i st))) (\<lambda>(b, fl).
        get_ptr E ci_pbData set_pbData i b fl))"

end
