(* ===== verification/Red_Loop.thy ===== *)
theory Red_Loop
  imports Red_Prelude
begin

text \<open>
  Loops over computations: \<open>whileE P f x\<close> is the loop with the condition \<open>P\<close> and the body \<open>f\<close>
  on the local variables \<open>x\<close>; an error of the body leaves the loop. The value is \<open>None\<close> when
  the loop does not end. Rules for invariants, for the end of a loop by a measure, and for
  its unfolding.
\<close>

partial_function (option) whileE ::
    "('a \<Rightarrow> 's \<Rightarrow> bool) \<Rightarrow> ('a \<Rightarrow> 's \<Rightarrow> (('e + 'a) \<times> 's) option) \<Rightarrow> 'a \<Rightarrow> 's \<Rightarrow> (('e + 'a) \<times> 's) option" where
  "whileE P f x s = (if P x s then bindE (f x) (\<lambda>y. whileE P f y) s else Some (Inr x, s))"

lemma whileE_stop: "\<not> P x s \<Longrightarrow> whileE P f x s = Some (Inr x, s)"
  by (subst whileE.simps) simp

lemma whileE_step: "P x s \<Longrightarrow> whileE P f x s = bindE (f x) (whileE P f) s"
  by (subst whileE.simps) simp

text \<open>What the body keeps, the loop keeps, and at its end the condition is false.\<close>

lemma whileE_rule:
  assumes run: "whileE P f x s = Some (r, t)" and start: "I x s"
    and step: "\<And>x s r t. I x s \<Longrightarrow> P x s \<Longrightarrow> f x s = Some (r, t) \<Longrightarrow>
      (case r of Inl e \<Rightarrow> Q (Inl e) t | Inr y \<Rightarrow> I y t)"
    and stop: "\<And>x s. I x s \<Longrightarrow> \<not> P x s \<Longrightarrow> Q (Inr x) s"
  shows "Q r t"
proof -
  have "P = P \<longrightarrow> f = f \<longrightarrow> I x s \<longrightarrow> Q (fst (r, t)) (snd (r, t))"
  proof (rule whileE.raw_induct [of "\<lambda>(((P', f'), x), s) q. P' = P \<longrightarrow> f' = f \<longrightarrow> I x s \<longrightarrow> Q (fst q) (snd q)"
        "(((P, f), x), s)" "(r, t)", unfolded prod.case], intro impI)
    fix g P' f' x s and y
    assume ih: "\<And>P' f' x s y. g P' f' x s = Some y \<Longrightarrow> P' = P \<longrightarrow> f' = f \<longrightarrow> I x s \<longrightarrow> Q (fst y) (snd y)"
      and eq: "(if P' x s then bindE (f' x) (g P' f') s else Some (Inr x, s)) = Some y"
      and pf: "P' = P" "f' = f" and I: "I x s"
    show "Q (fst y) (snd y)"
    proof (cases "P x s")
      case False
      with eq pf stop [OF I] show ?thesis by auto
    next
      case True
      obtain r t where y: "y = (r, t)" by fastforce
      from True eq pf y have "bindE (f x) (g P f) s = Some (r, t)" by simp
      then show ?thesis
      proof (cases rule: bindE_eq_SomeE)
        case (err e)
        with step [OF I True] y show ?thesis by auto
      next
        case (ok z u)
        from step [OF I True ok(1)] have "I z u" by simp
        with ih [OF ok(2)] y show ?thesis by simp
      qed
    qed
  qed (rule run)
  with start show ?thesis by simp
qed

lemma keeps_whileE [keeps_rules]: "(\<And>x. keeps I (f x)) \<Longrightarrow> keeps I (whileE P f x)"
proof (rule keepsI)
  fix s r t
  assume f: "\<And>x. keeps I (f x)" and I: "I s" and run: "whileE P f x s = Some (r, t)"
  show "I t"
    by (rule whileE_rule [where I = "\<lambda>_. I" and Q = "\<lambda>_. I", OF run I])
      (auto dest: keepsD [OF f] split: sum.splits)
qed

text \<open>A loop whose body returns and makes a measure smaller returns.\<close>

lemma whileE_total:
  assumes start: "I x s"
    and step: "\<And>x s. I x s \<Longrightarrow> P x s \<Longrightarrow> \<exists>r t. f x s = Some (r, t) \<and>
      (\<forall>y. r = Inr y \<longrightarrow> I y t \<and> (m :: 'a \<Rightarrow> 's \<Rightarrow> nat) y t < m x s)"
  shows "\<exists>q. whileE P f x s = Some q"
  using start
proof (induction "m x s" arbitrary: x s rule: less_induct)
  case less
  show ?case
  proof (cases "P x s")
    case False
    then show ?thesis by (simp add: whileE_stop)
  next
    case True
    from step [OF less.prems True] obtain r t where f: "f x s = Some (r, t)"
      and ok: "\<forall>y. r = Inr y \<longrightarrow> I y t \<and> m y t < m x s" by blast
    show ?thesis
    proof (cases r)
      case (Inl e)
      with f True show ?thesis by (simp add: whileE_step bindE_def)
    next
      case (Inr y)
      with ok less.hyps [of y t] f True show ?thesis by (simp add: whileE_step bindE_def)
    qed
  qed
qed

text \<open>A status that is replaced by success.\<close>

definition ignoreE :: "'e \<Rightarrow> ('s, 'e, unit) comp \<Rightarrow> ('s, 'e, unit) comp" where
  "ignoreE e f = statusE f (\<lambda>ret. if ret = Inl e then okE () else returnE ret)"

lemma keeps_ignoreE [keeps_rules]: "keeps I f \<Longrightarrow> keeps I (ignoreE e f)"
  unfolding ignoreE_def by (intro keeps_rules) (auto intro: keeps_rules)

end
