(* ===== verification/Red_Branch.thy ===== *)
theory Red_Branch
  imports Red_Seek Red_Loop
begin

text \<open>
  Branching the blocks of a file, from \<^verbatim>\<open>core/driver/inodedata.c\<close>: before a block is written, it
  and the indirect nodes on the way to it are moved to blocks that the committed state does not
  use.
\<close>

section \<open>One block\<close>

text \<open>The pairs of a block number and a buffer in an open inode that the code passes by pointer.\<close>

datatype coord_field = CF_DINDIR | CF_INDIR | CF_DATA

fun cf_block :: "coord_field \<Rightarrow> CINODE \<Rightarrow> u32" where
  "cf_block CF_DINDIR c = ci_ulDindirBlock c"
| "cf_block CF_INDIR c = ci_ulIndirBlock c"
| "cf_block CF_DATA c = ci_ulDataBlock c"

fun cf_buf :: "coord_field \<Rightarrow> CINODE \<Rightarrow> nat option" where
  "cf_buf CF_DINDIR c = ci_pDindir c"
| "cf_buf CF_INDIR c = ci_pIndir c"
| "cf_buf CF_DATA c = ci_pbData c"

fun set_cf_block :: "coord_field \<Rightarrow> u32 \<Rightarrow> CINODE \<Rightarrow> CINODE" where
  "set_cf_block CF_DINDIR b c = c\<lparr>ci_ulDindirBlock := b\<rparr>"
| "set_cf_block CF_INDIR b c = c\<lparr>ci_ulIndirBlock := b\<rparr>"
| "set_cf_block CF_DATA b c = c\<lparr>ci_ulDataBlock := b\<rparr>"

fun set_cf_buf :: "coord_field \<Rightarrow> nat \<Rightarrow> CINODE \<Rightarrow> CINODE" where
  "set_cf_buf CF_DINDIR p c = c\<lparr>ci_pDindir := Some p\<rparr>"
| "set_cf_buf CF_INDIR p c = c\<lparr>ci_pIndir := Some p\<rparr>"
| "set_cf_buf CF_DATA p c = c\<lparr>ci_pbData := Some p\<rparr>"

definition use_reserved_block :: "'d env \<Rightarrow> ('d, unit) op" where
  "use_reserved_block E =
     bindE (getE gpRedCoreVol) (\<lambda>cv.
     if REDCONF_API_POSIX E \<and> REDCONF_API_POSIX_FRESERVE E \<and> cv_fUseReservedInodeBlocks cv then
       if cv_ulReservedInodeBlocks cv = 0 then thenE CRITICAL_ERROR (errE RED_EFUBAR)
       else modE (upd_cv (\<lambda>cv. cv\<lparr>cv_ulReservedInodeBlocks := cv_ulReservedInodeBlocks cv - 1\<rparr>))
     else okE ())"

text \<open>
  \<open>fBuffer\<close> is false where the code passes a null pointer for the buffer. The block is used
  as it is when it is new, otherwise another one is allocated, and the buffer moved there.
\<close>

definition branch_new :: "'d env \<Rightarrow> inoptr \<Rightarrow> coord_field \<Rightarrow> bool \<Rightarrow> u32 \<Rightarrow> u16 \<Rightarrow> ('d, unit) iop" where
  "branch_new E i cf fBuffer ulPrevBlock uBFlag =
     (if \<not> fBuffer then okE ()
      else bindE (getE (\<lambda>st. cf_buf cf (ci i st))) (\<lambda>p.
        case p of
          Some p \<Rightarrow> modF (RedBufferDirty E p)
        | None \<Rightarrow> get_ptr E (cf_buf cf) (set_cf_buf cf) i ulPrevBlock (uBFlag OR BFLAG_DIRTY)))"

definition branch_sparse :: "'d env \<Rightarrow> inoptr \<Rightarrow> coord_field \<Rightarrow> bool \<Rightarrow> u32 \<Rightarrow> u16 \<Rightarrow> ('d, unit) iop" where
  "branch_sparse E i cf fBuffer ulBlock uBFlag =
     thenE (liftF (use_reserved_block E))
       (if \<not> fBuffer then okE ()
        else bindE (getE (\<lambda>st. cf_buf cf (ci i st))) (\<lambda>p.
          if p \<noteq> None then errE RED_EINVAL
          else get_ptr E (cf_buf cf) (set_cf_buf cf) i ulBlock (uBFlag OR BFLAG_NEW OR BFLAG_DIRTY)))"

definition branch_used :: "'d env \<Rightarrow> inoptr \<Rightarrow> coord_field \<Rightarrow> bool \<Rightarrow> u32 \<Rightarrow> u32 \<Rightarrow> u16 \<Rightarrow> ('d, unit) iop" where
  "branch_used E i cf fBuffer ulPrevBlock ulBlock uBFlag =
     thenE (whenE fBuffer
         (thenE (get_ptr E (cf_buf cf) (set_cf_buf cf) i ulPrevBlock uBFlag)
           (bindE (ptrI (cf_buf cf) i) (\<lambda>p. modF (RedBufferBranch E p ulBlock)))))
       (liftF (RedImapBlockSet E ulPrevBlock False))"

definition BranchOneBlock :: "'d env \<Rightarrow> inoptr \<Rightarrow> coord_field \<Rightarrow> bool \<Rightarrow> u16 \<Rightarrow> ('d, unit) iop" where
  "BranchOneBlock E i cf fBuffer uBFlag =
     bindE (getE (\<lambda>st. cf_block cf (ci i st))) (\<lambda>ulPrevBlock.
     bindE (if ulPrevBlock \<noteq> BLOCK_SPARSE then liftF (RedImapBlockState E ulPrevBlock)
            else okE ALLOCSTATE_FREE) (\<lambda>state.
     if state = ALLOCSTATE_NEW then branch_new E i cf fBuffer ulPrevBlock uBFlag
     else bindE (liftF (RedImapAllocBlock E)) (\<lambda>ulBlock.
       thenE (modE (upd_ci i (set_cf_block cf ulBlock)))
         (if ulPrevBlock = BLOCK_SPARSE then branch_sparse E i cf fBuffer ulBlock uBFlag
          else branch_used E i cf fBuffer ulPrevBlock ulBlock uBFlag))))"

section \<open>All blocks on the way\<close>

datatype BRANCHDEPTH = BRANCHDEPTH_DINDIR | BRANCHDEPTH_INDIR | BRANCHDEPTH_FILE_DATA

text \<open>One for a block that needs no new block, zero for one that does.\<close>

definition branch_saved :: "'d env \<Rightarrow> u32 \<Rightarrow> ('d, u32) iop" where
  "branch_saved E ulBlock =
     (if ulBlock = BLOCK_SPARSE then okE 0
      else bindE (liftF (RedImapBlockState E ulBlock)) (\<lambda>state.
        okE (if state = ALLOCSTATE_NEW then 1 else 0)))"

definition BranchBlockCost :: "'d env \<Rightarrow> inoptr \<Rightarrow> BRANCHDEPTH \<Rightarrow> ('d, u32) iop" where
  "BranchBlockCost E i depth = (\<lambda>st.
     let c = ci i st in
     if \<not> CINODE_IS_MOUNTED i st \<or> \<not> ci_fCoordInited c then errE RED_EINVAL st
     else
       bindE (if \<not> DINDIRS_EXIST E then okE 0
              else if ci_uDindirEntry c \<noteq> COORD_ENTRY_INVALID then branch_saved E (ci_ulDindirBlock c)
              else okE 1) (\<lambda>n0.
       bindE (if \<not> INDIRS_EXIST E then okE 0
              else if ci_uIndirEntry c \<noteq> COORD_ENTRY_INVALID \<and> depth \<noteq> BRANCHDEPTH_DINDIR
              then branch_saved E (ci_ulIndirBlock c)
              else okE 1) (\<lambda>n1.
       bindE (if depth = BRANCHDEPTH_FILE_DATA then branch_saved E (ci_ulDataBlock c) else okE 1) (\<lambda>n2.
       okE (INODE_MAX_DEPTH E - n0 - n1 - n2)))) st)"

definition INDIR_OFFSET_ULINODE :: nat where "INDIR_OFFSET_ULINODE = NODEHEADER_SIZE"

definition branch_dindir :: "'d env \<Rightarrow> inoptr \<Rightarrow> ('d, unit) iop" where
  "branch_dindir E i =
     thenE (BranchOneBlock E i CF_DINDIR True BFLAG_META_DINDIR)
       (bindE (getE (ci i)) (\<lambda>c.
        thenE (writeI E ci_pDindir i (put32 INDIR_OFFSET_ULINODE (ci_ulInode c)))
          (writeI E ci_pInodeBuf i (put_ino_entry E (unat (ci_uInodeEntry c)) (ci_ulDindirBlock c)))))"

definition branch_indir :: "'d env \<Rightarrow> inoptr \<Rightarrow> ('d, unit) iop" where
  "branch_indir E i =
     thenE (BranchOneBlock E i CF_INDIR True BFLAG_META_INDIR)
       (bindE (getE (ci i)) (\<lambda>c.
        thenE (writeI E ci_pIndir i (put32 INDIR_OFFSET_ULINODE (ci_ulInode c)))
          (if DINDIRS_EXIST E \<and> ci_uDindirEntry c \<noteq> COORD_ENTRY_INVALID
           then writeI E ci_pDindir i (put_indir_entry (unat (ci_uDindirEntry c)) (ci_ulIndirBlock c))
           else writeI E ci_pInodeBuf i (put_ino_entry E (unat (ci_uInodeEntry c)) (ci_ulIndirBlock c)))))"

definition count_new_block :: "'d env \<Rightarrow> inoptr \<Rightarrow> ('d, unit) iop" where
  "count_new_block E i =
     bindE (readI E ci_pInodeBuf i ino_ulBlocks) (\<lambda>n.
     if n < INODE_DATA_BLOCKS E then writeI E ci_pInodeBuf i (put32 ino_off_ulBlocks (n + 1))
     else thenE (liftF CRITICAL_ERROR) (errE RED_EFUBAR))"

definition branch_data :: "'d env \<Rightarrow> inoptr \<Rightarrow> bool \<Rightarrow> ('d, unit) iop" where
  "branch_data E i fBuffer =
     bindE (getE (\<lambda>st. (ci i st, CINODE_DATA_BFLAG E i st))) (\<lambda>(c0, uBFlag).
     thenE (BranchOneBlock E i CF_DATA (fBuffer \<or> ci_pbData c0 \<noteq> None) uBFlag)
       (bindE (getE (ci i)) (\<lambda>c.
        thenE (if INDIRS_EXIST E \<and> ci_uIndirEntry c \<noteq> COORD_ENTRY_INVALID
               then writeI E ci_pIndir i (put_indir_entry (unat (ci_uIndirEntry c)) (ci_ulDataBlock c))
               else writeI E ci_pInodeBuf i (put_ino_entry E (unat (ci_uInodeEntry c)) (ci_ulDataBlock c)))
          (whenE (REDCONF_INODE_BLOCKS E \<and> ci_ulDataBlock c0 = BLOCK_SPARSE) (count_new_block E i)))))"

definition BranchBlock :: "'d env \<Rightarrow> inoptr \<Rightarrow> BRANCHDEPTH \<Rightarrow> bool \<Rightarrow> ('d, unit) iop" where
  "BranchBlock E i depth fBuffer =
     bindE (BranchBlockCost E i depth) (\<lambda>ulCost.
     bindE (getF (\<lambda>s. ulCost > RedVolFreeBlockCount E s)) (\<lambda>full.
     if full then errE RED_ENOSPC
     else statusE
       (bindE (getE (ci i)) (\<lambda>c.
        thenE (whenE (DINDIRS_EXIST E \<and> ci_uDindirEntry c \<noteq> COORD_ENTRY_INVALID) (branch_dindir E i))
          (thenE (whenE (INDIRS_EXIST E \<and> ci_uIndirEntry c \<noteq> COORD_ENTRY_INVALID \<and> depth \<noteq> BRANCHDEPTH_DINDIR)
                    (branch_indir E i))
            (whenE (depth = BRANCHDEPTH_FILE_DATA) (branch_data E i fBuffer)))))
       (\<lambda>ret. thenE (liftF (CRITICAL_ASSERT (is_ok ret))) (returnE ret))))"

end
