(* ===== verification/Red_SeekProps.thy ===== *)
theory Red_SeekProps
  imports Red_Seek
begin

text \<open>
  The coordinates of a block: what \<^verbatim>\<open>SeekCoord\<close> stores in the open inode are indices inside the
  nodes, and they lead back to the block.
\<close>

section \<open>The limits as numbers\<close>

text \<open>The configuration leaves room for the pointers in an inode, as the compiler checks.\<close>

definition inode_env_ok :: "'d env \<Rightarrow> bool" where
  "inode_env_ok E \<longleftrightarrow> env_ok E \<and>
     unat (REDCONF_DIRECT_POINTERS E) + unat (REDCONF_INDIRECT_POINTERS E) \<le> unat (INODE_ENTRIES E)"

abbreviation nD :: "'d env \<Rightarrow> nat" where "nD E \<equiv> unat (REDCONF_DIRECT_POINTERS E)"
abbreviation nI :: "'d env \<Rightarrow> nat" where "nI E \<equiv> unat (REDCONF_INDIRECT_POINTERS E)"
abbreviation nE :: "'d env \<Rightarrow> nat" where "nE E \<equiv> unat (INDIR_ENTRIES E)"

lemma INODE_HEADER_SIZE_bounds: "INODE_HEADER_SIZE E \<le> 64"
  by (simp add: ino_offsets NODEHEADER_SIZE_def)

lemma entry_counts:
  assumes "env_ok E"
  shows "unat (INODE_ENTRIES E) = (BSIZE E - INODE_HEADER_SIZE E) div 4" and "nE E = (BSIZE E - INDIR_HEADER_SIZE) div 4"
    and "0 < unat (INODE_ENTRIES E)" and "unat (INODE_ENTRIES E) \<le> 16384" and "27 \<le> nE E" and "nE E \<le> 16379"
proof -
  have b: "128 \<le> BSIZE E" "BSIZE E \<le> 65536" by (fact BSIZE_ge [OF assms], fact BSIZE_le [OF assms])
  have small: "(BSIZE E - k) div 4 < 2 ^ 32" for k
  proof -
    have "(BSIZE E - k) div 4 \<le> BSIZE E" by (rule le_trans [OF div_le_dividend]) simp
    also have "\<dots> < 2 ^ 32" by (rule unat_u32_less)
    finally show ?thesis .
  qed
  show i: "unat (INODE_ENTRIES E) = (BSIZE E - INODE_HEADER_SIZE E) div 4"
    unfolding INODE_ENTRIES_def unat_of_nat using small by simp
  show d: "nE E = (BSIZE E - INDIR_HEADER_SIZE) div 4"
    unfolding INDIR_ENTRIES_def unat_of_nat using small by simp
  show "0 < unat (INODE_ENTRIES E)" "unat (INODE_ENTRIES E) \<le> 16384"
    unfolding i using b INODE_HEADER_SIZE_bounds [of E] by linarith+
  have h: "INDIR_HEADER_SIZE = 20" by (simp add: INDIR_HEADER_SIZE_def NODEHEADER_SIZE_def)
  show "27 \<le> nE E" "nE E \<le> 16379" unfolding d h using b by linarith+
qed

lemma unat_mult_small: "unat a * unat b < 2 ^ LENGTH('a) \<Longrightarrow> unat (a * b) = unat a * unat (b :: 'a::len word)"
  by (simp add: unat_word_ariths)

lemma unat_add_small: "unat a + unat b < 2 ^ LENGTH('a) \<Longrightarrow> unat (a + b) = unat a + unat (b :: 'a::len word)"
  by (simp add: unat_word_ariths)

lemma block_limits:
  assumes ok: "inode_env_ok E"
  shows "unat (INODE_INDIR_BLOCKS E) = nI E * nE E" and "unat (DINDIR_DATA_BLOCKS E) = nE E * nE E"
    and "unat (DINDIR_POINTERS E) = unat (INODE_ENTRIES E) - nD E - nI E"
    and "nD E + nI E * nE E < 2 ^ 32 - 2"
    and "unat (REDCONF_DIRECT_POINTERS E + INODE_INDIR_BLOCKS E) = nD E + nI E * nE E"
proof -
  have e: "env_ok E" and s: "nD E + nI E \<le> unat (INODE_ENTRIES E)" using ok by (simp_all add: inode_env_ok_def)
  note c = entry_counts [OF e]
  have i: "nI E \<le> 16384" "nD E \<le> 16384" using s c by linarith+
  have "nI E * nE E \<le> 16384 * 16379" using i c by (intro mult_le_mono) simp_all
  moreover have "nE E * nE E \<le> 16379 * 16379" using c by (intro mult_le_mono) simp_all
  ultimately have m: "nI E * nE E \<le> 268353536" "nE E * nE E \<le> 268271641" by simp_all
  show ib: "unat (INODE_INDIR_BLOCKS E) = nI E * nE E"
    unfolding INODE_INDIR_BLOCKS_def using m by (intro unat_mult_small) simp
  show "unat (DINDIR_DATA_BLOCKS E) = nE E * nE E"
    unfolding DINDIR_DATA_BLOCKS_def using m by (intro unat_mult_small) simp
  show "unat (DINDIR_POINTERS E) = unat (INODE_ENTRIES E) - nD E - nI E"
    unfolding DINDIR_POINTERS_def using s
    by (subst unat_sub_le, simp add: word_le_nat_alt unat_sub_le, subst unat_sub_le) (simp_all add: word_le_nat_alt)
  show "nD E + nI E * nE E < 2 ^ 32 - 2" using m i by simp
  show "unat (REDCONF_DIRECT_POINTERS E + INODE_INDIR_BLOCKS E) = nD E + nI E * nE E"
    using m i by (subst unat_add_small) (simp_all add: ib)
qed

lemma div_up_le: "0 < (d :: nat) \<Longrightarrow> n \<le> (n div d + (if n mod d = 0 then 0 else 1)) * d"
proof -
  assume "0 < d"
  then have "n mod d < d" by (rule mod_less_divisor)
  moreover have "n = n div d * d + n mod d" by simp
  ultimately have "n \<le> n div d * d + d" by linarith
  moreover have "n mod d = 0 \<Longrightarrow> n \<le> n div d * d" using \<open>n = n div d * d + n mod d\<close> by simp
  ultimately show ?thesis by (auto simp: add_mult_distrib)
qed

lemma data_blocks:
  assumes ok: "inode_env_ok E"
  shows "unat (INODE_DATA_BLOCKS E) \<le> nD E + nI E * nE E + (unat (INODE_ENTRIES E) - nD E - nI E) * (nE E * nE E)"
proof -
  note l = block_limits [OF ok]
  have e: "env_ok E" using ok by (simp add: inode_env_ok_def)
  let ?d = "nE E * nE E" and ?p = "unat (INODE_ENTRIES E) - nD E - nI E"
  have d0: "0 < ?d" using entry_counts(5) [OF e] by simp
  have mx: "unat (INODE_DINDIR_BLOCKS_MAX E) = 2 ^ 32 - 1 - (nD E + nI E * nE E)"
    unfolding INODE_DINDIR_BLOCKS_MAX_def using l(4) by (subst unat_sub_le) (simp_all add: word_le_nat_alt l(5))
  have "unat (INODE_DINDIR_BLOCKS E) \<le> ?p * ?d"
  proof (cases "DINDIR_POINTERS_MAX E \<le> DINDIR_POINTERS E")
    case True
    let ?m = "unat (INODE_DINDIR_BLOCKS_MAX E)"
    have "unat (DINDIR_POINTERS_MAX E) = ?m div ?d + (if ?m mod ?d = 0 then 0 else 1)"
    proof -
      have "?m div ?d + 1 < 2 ^ 32"
      proof -
        have "27 * 27 \<le> ?d" using entry_counts(5) [OF e] by (intro mult_le_mono)
        then have "?m div ?d \<le> ?m div 729" by (intro div_le_mono2) simp_all
        also have "\<dots> < 2 ^ 32 - 1" using unat_u32_less [of "INODE_DINDIR_BLOCKS_MAX E"] by simp
        finally show ?thesis by simp
      qed
      moreover have "(INODE_DINDIR_BLOCKS_MAX E mod DINDIR_DATA_BLOCKS E = 0) = (?m mod ?d = 0)"
        by (simp add: word_unat_eq_iff unat_mod l(2))
      ultimately show ?thesis
        unfolding DINDIR_POINTERS_MAX_def by (simp add: unat_div l(2) unat_word_ariths)
    qed
    then have "?m \<le> unat (DINDIR_POINTERS_MAX E) * ?d" using div_up_le [OF d0, of ?m] by simp
    also have "\<dots> \<le> ?p * ?d" using True by (intro mult_le_mono1) (simp add: word_le_nat_alt l(3))
    finally show ?thesis using True by (simp add: INODE_DINDIR_BLOCKS_def)
  next
    case False
    then show ?thesis
      by (simp add: INODE_DINDIR_BLOCKS_def unat_word_ariths l)
  qed
  moreover have "unat (INODE_DATA_BLOCKS E) \<le> unat (REDCONF_DIRECT_POINTERS E + INODE_INDIR_BLOCKS E) + unat (INODE_DINDIR_BLOCKS E)"
    unfolding INODE_DATA_BLOCKS_def by (simp add: unat_word_ariths)
  ultimately show ?thesis by (simp add: l(5))
qed

section \<open>Running the steps\<close>

lemma ci_upd_ci [simp]: "ci i (upd_ci i f st) = f (ci i st)" "snd (upd_ci i f st) = snd st"
  "j \<noteq> i \<Longrightarrow> ci j (upd_ci i f st) = ci j st"
  by (simp_all add: ci_def upd_ci_def)

lemma ci_pair [simp]: "ci i (fst st, s) = ci i st" "ci i (apsnd g st) = ci i st"
  by (simp_all add: ci_def)

lemma put_ptr_run:
  assumes "f (ci i st) = None \<Longrightarrow> clear (ci i st) = ci i st"
  obtains t where "put_ptr E f clear i st = Some (Inr (), t)" and "ci i t = clear (ci i st)"
proof (cases "f (ci i st)")
  case None
  then show ?thesis using assms that [of st] by (simp add: put_ptr_def)
next
  case (Some p)
  then show ?thesis using that [of "upd_ci i clear (apsnd (RedBufferPut E p) st)"] by (simp add: put_ptr_def)
qed

lemma put_data_run: obtains t where "RedInodePutData E i st = Some (Inr (), t)"
    and "ci i t = (ci i st)\<lparr>ci_pbData := None\<rparr>"
  unfolding RedInodePutData_def by (rule put_ptr_run [of ci_pbData i st "\<lambda>c. c\<lparr>ci_pbData := None\<rparr>"]) auto

lemma put_indir_run: obtains t where "RedInodePutIndir E i st = Some (Inr (), t)"
    and "ci i t = (ci i st)\<lparr>ci_pIndir := None\<rparr>"
  unfolding RedInodePutIndir_def by (rule put_ptr_run [of ci_pIndir i st "\<lambda>c. c\<lparr>ci_pIndir := None\<rparr>"]) auto

lemma put_dindir_run: obtains t where "RedInodePutDindir E i st = Some (Inr (), t)"
    and "ci i t = (ci i st)\<lparr>ci_pDindir := None\<rparr>"
  unfolding RedInodePutDindir_def by (rule put_ptr_run [of ci_pDindir i st "\<lambda>c. c\<lparr>ci_pDindir := None\<rparr>"]) auto

text \<open>The part of an open inode that says which block it is at, and that it is mounted.\<close>

definition same_place :: "CINODE \<Rightarrow> CINODE \<Rightarrow> bool" where
  "same_place c d \<longleftrightarrow> ci_pInodeBuf d = ci_pInodeBuf c \<and> ci_ulInode d = ci_ulInode c \<and>
     ci_uInodeEntry d = ci_uInodeEntry c \<and> ci_uDindirEntry d = ci_uDindirEntry c \<and>
     ci_uIndirEntry d = ci_uIndirEntry c \<and> ci_fCoordInited d = ci_fCoordInited c \<and>
     ci_ulLogicalBlock d = ci_ulLogicalBlock c"

lemma put_same_place:
  "\<exists>t. RedInodePutData E i st = Some (Inr (), t) \<and> same_place (ci i st) (ci i t)"
  "\<exists>t. RedInodePutIndir E i st = Some (Inr (), t) \<and> same_place (ci i st) (ci i t)"
  "\<exists>t. RedInodePutDindir E i st = Some (Inr (), t) \<and> same_place (ci i st) (ci i t)"
proof -
  obtain t where "RedInodePutData E i st = Some (Inr (), t)" "ci i t = (ci i st)\<lparr>ci_pbData := None\<rparr>"
    by (rule put_data_run)
  then show "\<exists>t. RedInodePutData E i st = Some (Inr (), t) \<and> same_place (ci i st) (ci i t)" by (simp add: same_place_def)
  obtain t where "RedInodePutIndir E i st = Some (Inr (), t)" "ci i t = (ci i st)\<lparr>ci_pIndir := None\<rparr>"
    by (rule put_indir_run)
  then show "\<exists>t. RedInodePutIndir E i st = Some (Inr (), t) \<and> same_place (ci i st) (ci i t)" by (simp add: same_place_def)
  obtain t where "RedInodePutDindir E i st = Some (Inr (), t)" "ci i t = (ci i st)\<lparr>ci_pDindir := None\<rparr>"
    by (rule put_dindir_run)
  then show "\<exists>t. RedInodePutDindir E i st = Some (Inr (), t) \<and> same_place (ci i st) (ci i t)" by (simp add: same_place_def)
qed

lemma thenE_Inr_Ex: "(\<exists>t. f s = Some (Inr x, t) \<and> P t) \<Longrightarrow> (\<And>t. P t \<Longrightarrow> \<exists>u. g t = Some (Inr y, u) \<and> Q u) \<Longrightarrow>
    \<exists>u. thenE f g s = Some (Inr y, u) \<and> Q u"
  by (auto simp: thenE_def bindE_def)

lemma whenE_Ex: "(b \<Longrightarrow> \<exists>u. f t = Some (Inr (), u) \<and> P u) \<Longrightarrow> P t \<Longrightarrow> \<exists>u. whenE b f t = Some (Inr (), u) \<and> P u"
  by (cases b) (simp_all only: whenE_True whenE_False okE_app option.inject prod.inject, blast)

lemma same_place_trans: "same_place a b \<Longrightarrow> same_place b c \<Longrightarrow> same_place a c"
  by (simp add: same_place_def)

lemma put_coord_run: "\<exists>t. RedInodePutCoord E i st = Some (Inr (), t) \<and> same_place (ci i st) (ci i t)"
  unfolding RedInodePutCoord_def
proof (rule thenE_Inr_Ex [OF put_same_place(1)], rule thenE_Inr_Ex)
  show "same_place (ci i st) (ci i t) \<Longrightarrow>
      \<exists>u. whenE (INDIRS_EXIST E) (RedInodePutIndir E i) t = Some (Inr (), u) \<and> same_place (ci i st) (ci i u)" for t
    using put_same_place(2) [of E i t] by (intro whenE_Ex) (blast intro: same_place_trans)+
  show "same_place (ci i st) (ci i t) \<Longrightarrow>
      \<exists>u. whenE (DINDIRS_EXIST E) (RedInodePutDindir E i) t = Some (Inr (), u) \<and> same_place (ci i st) (ci i u)" for t
    using put_same_place(3) [of E i t] by (intro whenE_Ex) (blast intro: same_place_trans)+
qed

text \<open>The entry of a mounted inode can be read.\<close>

lemma cur_ino_entry_run: "ci_pInodeBuf (ci i st) \<noteq> None \<Longrightarrow> \<exists>b. cur_ino_entry E i st = Some (Inr b, st)"
  by (auto simp: cur_ino_entry_def readI_def ptrI_def bindE_def)

section \<open>The coordinates\<close>

text \<open>The coordinates of block \<open>b\<close> of a file, in the order inode, double indirect and indirect node.\<close>

definition at_block :: "'d env \<Rightarrow> nat \<Rightarrow> CINODE \<Rightarrow> bool" where
  "at_block E b c \<longleftrightarrow>
     (if b < nD E then
        unat (ci_uInodeEntry c) = b \<and> (DINDIRS_EXIST E \<longrightarrow> ci_uDindirEntry c = COORD_ENTRY_INVALID) \<and>
        (INDIRS_EXIST E \<longrightarrow> ci_uIndirEntry c = COORD_ENTRY_INVALID)
      else if b < nD E + nI E * nE E then
        INDIRS_EXIST E \<and> unat (ci_uInodeEntry c) = nD E + (b - nD E) div nE E \<and>
        (DINDIRS_EXIST E \<longrightarrow> ci_uDindirEntry c = COORD_ENTRY_INVALID) \<and>
        unat (ci_uIndirEntry c) = (b - nD E) mod nE E
      else let n = b - nD E - nI E * nE E in
        DINDIRS_EXIST E \<and> INDIRS_EXIST E \<and>
        unat (ci_uInodeEntry c) = nD E + nI E + n div (nE E * nE E) \<and>
        unat (ci_uDindirEntry c) = n mod (nE E * nE E) div nE E \<and>
        unat (ci_uIndirEntry c) = n mod (nE E * nE E) mod nE E)"

text \<open>The block that coordinates lead to.\<close>

definition block_of_coords :: "'d env \<Rightarrow> CINODE \<Rightarrow> nat" where
  "block_of_coords E c =
     (let k = unat (ci_uInodeEntry c) in
      if \<not> INDIRS_EXIST E \<or> ci_uIndirEntry c = COORD_ENTRY_INVALID then k
      else if \<not> DINDIRS_EXIST E \<or> ci_uDindirEntry c = COORD_ENTRY_INVALID
      then nD E + (k - nD E) * nE E + unat (ci_uIndirEntry c)
      else nD E + nI E * nE E + (k - nD E - nI E) * (nE E * nE E) + unat (ci_uDindirEntry c) * nE E +
        unat (ci_uIndirEntry c))"

definition coords_in_nodes :: "'d env \<Rightarrow> CINODE \<Rightarrow> bool" where
  "coords_in_nodes E c \<longleftrightarrow> unat (ci_uInodeEntry c) < unat (INODE_ENTRIES E) \<and>
     (DINDIRS_EXIST E \<longrightarrow> ci_uDindirEntry c \<noteq> COORD_ENTRY_INVALID \<longrightarrow> unat (ci_uDindirEntry c) < nE E) \<and>
     (INDIRS_EXIST E \<longrightarrow> ci_uIndirEntry c \<noteq> COORD_ENTRY_INVALID \<longrightarrow> unat (ci_uIndirEntry c) < nE E)"

lemma entry_not_invalid: "unat (w :: u16) < 65535 \<Longrightarrow> w \<noteq> COORD_ENTRY_INVALID"
  by (auto simp: COORD_ENTRY_INVALID_def)

lemma div_less_count: "(n :: nat) < k * d \<Longrightarrow> n div d < k"
  by (simp add: less_mult_imp_div_less)

lemma at_block_coords:
  assumes ok: "inode_env_ok E" and b: "b < unat (INODE_DATA_BLOCKS E)" and at: "at_block E b c"
  shows "block_of_coords E c = b \<and> coords_in_nodes E c"
proof -
  have e: "env_ok E" and s: "nD E + nI E \<le> unat (INODE_ENTRIES E)" using ok by (simp_all add: inode_env_ok_def)
  note c = entry_counts [OF e]
  have e0: "0 < nE E" "nE E < 65535" using c by simp_all
  consider (direct) "b < nD E" | (indir) "nD E \<le> b" "b < nD E + nI E * nE E"
    | (dindir) "nD E + nI E * nE E \<le> b" by linarith
  then show ?thesis
  proof cases
    case direct
    then show ?thesis using at s by (auto simp: at_block_def block_of_coords_def coords_in_nodes_def Let_def)
  next
    case indir
    then have "(b - nD E) div nE E < nI E" by (intro div_less_count) simp
    moreover have m: "(b - nD E) mod nE E < nE E" using e0 by simp
    moreover have "ci_uIndirEntry c \<noteq> COORD_ENTRY_INVALID"
    proof (rule entry_not_invalid)
      have "unat (ci_uIndirEntry c) = (b - nD E) mod nE E" using at indir by (simp add: at_block_def)
      with m e0 show "unat (ci_uIndirEntry c) < 65535" by linarith
    qed
    moreover have "(b - nD E) div nE E * nE E + (b - nD E) mod nE E = b - nD E" by simp
    ultimately show ?thesis using at s indir
      by (auto simp: at_block_def block_of_coords_def coords_in_nodes_def Let_def)
  next
    case dindir
    let ?n = "b - nD E - nI E * nE E" and ?d = "nE E * nE E"
    have n: "?n < (unat (INODE_ENTRIES E) - nD E - nI E) * ?d" using data_blocks [OF ok] b dindir by linarith
    have q: "?n div ?d < unat (INODE_ENTRIES E) - nD E - nI E" by (rule div_less_count [OF n])
    have "?n mod ?d < nE E * nE E" using e0 by simp
    then have r: "?n mod ?d div nE E < nE E" "?n mod ?d mod nE E < nE E" using e0 by (simp_all add: div_less_count)
    have eq: "unat (ci_uIndirEntry c) = ?n mod ?d mod nE E" "unat (ci_uDindirEntry c) = ?n mod ?d div nE E"
      using at dindir by (simp_all add: at_block_def Let_def)
    have inv: "ci_uIndirEntry c \<noteq> COORD_ENTRY_INVALID" "ci_uDindirEntry c \<noteq> COORD_ENTRY_INVALID"
      by (rule entry_not_invalid, unfold eq, use r e0 in linarith)+
    have "?n div ?d * ?d + (?n mod ?d div nE E * nE E + ?n mod ?d mod nE E) = ?n"
      by (simp only: div_mult_mod_eq)
    then have "nD E + nI E * nE E + ?n div ?d * ?d + ?n mod ?d div nE E * nE E + ?n mod ?d mod nE E = b"
      using dindir by linarith
    then show ?thesis using at s dindir inv q r
      by (simp add: at_block_def block_of_coords_def coords_in_nodes_def Let_def)
  qed
qed

section \<open>Seeking\<close>

lemma unat_u16: "n < 65536 \<Longrightarrow> unat w = n \<Longrightarrow> unat (ucast (w :: u32) :: u16) = n"
  by (simp add: unsigned_ucast_eq take_bit_nat_eq_self)

lemma seek_direct_run:
  assumes ok: "inode_env_ok E" and m: "ci_pInodeBuf (ci i st) \<noteq> None" and b: "unat b < nD E"
  shows "\<exists>t. seek_direct E i b st = Some (Inr (), t) \<and> at_block E (unat b) (ci i t) \<and>
    ci_ulLogicalBlock (ci i t) = ci_ulLogicalBlock (ci i st) \<and> ci_pInodeBuf (ci i t) = ci_pInodeBuf (ci i st) \<and>
    ci_ulInode (ci i t) = ci_ulInode (ci i st)"
proof -
  have e: "env_ok E" and s: "nD E \<le> unat (INODE_ENTRIES E)" using ok by (simp_all add: inode_env_ok_def)
  have u: "unat (ucast b :: u16) = unat b" using entry_counts(4) [OF e] s b by (intro unat_u16) simp_all
  have "\<exists>x. whenE (REDCONF_DIRECT_POINTERS E < INODE_ENTRIES E) (RedInodePutCoord E i) st = Some (Inr (), x) \<and>
      same_place (ci i st) (ci i x)"
    by (rule whenE_Ex, rule put_coord_run, simp add: same_place_def)
  then obtain x where x: "whenE (REDCONF_DIRECT_POINTERS E < INODE_ENTRIES E) (RedInodePutCoord E i) st = Some (Inr (), x)"
    and px: "same_place (ci i st) (ci i x)" by blast
  let ?y = "upd_ci i (\<lambda>c. c\<lparr>ci_uInodeEntry := ucast b\<rparr>) x"
  obtain v where "cur_ino_entry E i ?y = Some (Inr v, ?y)"
    using cur_ino_entry_run [of i ?y E] m px by (auto simp: same_place_def)
  with x b u px show ?thesis
    by (auto simp: seek_direct_def thenE_def bindE_def at_block_def no_indir_def no_dindir_def same_place_def)
qed

lemma indir_coord_nat:
  assumes ok: "inode_env_ok E" and b: "nD E \<le> unat b" "unat b < nD E + nI E * nE E"
  shows "unat (fst (indir_coord E b)) = nD E + (unat b - nD E) div nE E"
    and "unat (snd (indir_coord E b)) = (unat b - nD E) mod nE E"
proof -
  have e: "env_ok E" and s: "nD E + nI E \<le> unat (INODE_ENTRIES E)" using ok by (simp_all add: inode_env_ok_def)
  note c = entry_counts [OF e]
  have n: "unat (b - REDCONF_DIRECT_POINTERS E) = unat b - nD E" using b by (intro unat_sub_le) (simp add: word_le_nat_alt)
  have q: "(unat b - nD E) div nE E < nI E" using b by (intro div_less_count) simp
  have k: "unat ((b - REDCONF_DIRECT_POINTERS E) div INDIR_ENTRIES E + REDCONF_DIRECT_POINTERS E) =
      (unat b - nD E) div nE E + nD E"
    using q s c by (subst unat_add_small) (simp_all add: unat_div n)
  show "unat (fst (indir_coord E b)) = nD E + (unat b - nD E) div nE E"
    unfolding indir_coord_def Let_def fst_conv by (rule unat_u16) (use q s c k in \<open>simp_all add: add.commute\<close>)
  have "(unat b - nD E) mod nE E < nE E" using c by simp
  then have "(unat b - nD E) mod nE E < 65536" using c(6) by linarith
  then show "unat (snd (indir_coord E b)) = (unat b - nD E) mod nE E"
    unfolding indir_coord_def Let_def snd_conv by (intro unat_u16) (simp_all add: unat_mod n)
qed

lemma dindir_coord_nat:
  assumes ok: "inode_env_ok E" and b: "nD E + nI E * nE E \<le> unat b" "unat b < unat (INODE_DATA_BLOCKS E)"
  defines "n \<equiv> unat b - nD E - nI E * nE E"
  shows "unat (fst (dindir_coord E b)) = nD E + nI E + n div (nE E * nE E)"
    and "unat (fst (snd (dindir_coord E b))) = n mod (nE E * nE E) div nE E"
    and "unat (snd (snd (dindir_coord E b))) = n mod (nE E * nE E) mod nE E"
    and "DINDIRS_EXIST E"
proof -
  have e: "env_ok E" and s: "nD E + nI E \<le> unat (INODE_ENTRIES E)" using ok by (simp_all add: inode_env_ok_def)
  note c = entry_counts [OF e] and l = block_limits [OF ok]
  have le: "REDCONF_DIRECT_POINTERS E \<le> b" using b by (simp add: word_le_nat_alt)
  have n1: "unat (b - REDCONF_DIRECT_POINTERS E) = unat b - nD E" using le by (rule unat_sub_le)
  have n: "unat ((b - REDCONF_DIRECT_POINTERS E) - INODE_INDIR_BLOCKS E) = n"
    using b by (subst unat_sub_le) (simp_all add: word_le_nat_alt n1 l n_def)
  have lt: "n < (unat (INODE_ENTRIES E) - nD E - nI E) * (nE E * nE E)"
    using data_blocks [OF ok] b unfolding n_def by linarith
  have q: "n div (nE E * nE E) < unat (INODE_ENTRIES E) - nD E - nI E" by (rule div_less_count [OF lt])
  then show "DINDIRS_EXIST E" using l(3) by (simp add: DINDIRS_EXIST_def word_less_nat_alt)
  have k: "unat (((b - REDCONF_DIRECT_POINTERS E) - INODE_INDIR_BLOCKS E) div DINDIR_DATA_BLOCKS E +
      REDCONF_DIRECT_POINTERS E + REDCONF_INDIRECT_POINTERS E) = n div (nE E * nE E) + nD E + nI E"
  proof -
    have lt: "n div (nE E * nE E) + nD E + nI E < 16385" using q s c(4) by linarith
    have a: "unat (((b - REDCONF_DIRECT_POINTERS E) - INODE_INDIR_BLOCKS E) div DINDIR_DATA_BLOCKS E +
        REDCONF_DIRECT_POINTERS E) = n div (nE E * nE E) + nD E"
      using lt by (subst unat_add_small) (simp_all add: unat_div n l)
    show ?thesis using lt by (subst unat_add_small) (simp_all add: a)
  qed
  show "unat (fst (dindir_coord E b)) = nD E + nI E + n div (nE E * nE E)"
    unfolding dindir_coord_def Let_def fst_conv by (rule unat_u16) (use q s c(4) k in linarith)+
  have "n mod (nE E * nE E) < nE E * nE E" using c by simp
  then have r: "n mod (nE E * nE E) div nE E < nE E" "n mod (nE E * nE E) mod nE E < nE E"
    using c by (simp_all add: div_less_count)
  have m: "unat (((b - REDCONF_DIRECT_POINTERS E) - INODE_INDIR_BLOCKS E) mod DINDIR_DATA_BLOCKS E) = n mod (nE E * nE E)"
    by (simp add: unat_mod n l)
  show "unat (fst (snd (dindir_coord E b))) = n mod (nE E * nE E) div nE E"
    unfolding dindir_coord_def Let_def snd_conv fst_conv
    by (rule unat_u16, use r c in linarith) (simp add: unat_div m)
  show "unat (snd (snd (dindir_coord E b))) = n mod (nE E * nE E) mod nE E"
    unfolding dindir_coord_def Let_def snd_conv
    by (rule unat_u16, use r c in linarith) (simp only: unat_mod n l)
qed

lemma seek_indir_run:
  assumes ok: "inode_env_ok E" and m: "ci_pInodeBuf (ci i st) \<noteq> None"
    and b: "nD E \<le> unat b" "unat b < nD E + nI E * nE E"
  shows "\<exists>t. seek_indir E i b st = Some (Inr (), t) \<and> at_block E (unat b) (ci i t) \<and>
    ci_ulLogicalBlock (ci i t) = ci_ulLogicalBlock (ci i st) \<and> ci_pInodeBuf (ci i t) = ci_pInodeBuf (ci i st) \<and>
    ci_ulInode (ci i t) = ci_ulInode (ci i st)"
proof -
  have e: "env_ok E" and s: "nD E + nI E \<le> unat (INODE_ENTRIES E)" using ok by (simp_all add: inode_env_ok_def)
  obtain k j where kj: "indir_coord E b = (k, j)" by fastforce
  have n: "unat k = nD E + (unat b - nD E) div nE E" "unat j = (unat b - nD E) mod nE E"
    using indir_coord_nat [OF ok b] by (simp_all add: kj)
  have "0 < nI E" using b by (cases "nI E = 0") simp_all
  then have ind: "INDIRS_EXIST E" using s by (simp add: INDIRS_EXIST_def word_less_nat_alt)
  have "\<exists>x. whenE (DINDIRS_EXIST E) (RedInodePutDindir E i) st = Some (Inr (), x) \<and> same_place (ci i st) (ci i x)"
    by (rule whenE_Ex, rule put_same_place, simp add: same_place_def)
  then obtain x where x: "whenE (DINDIRS_EXIST E) (RedInodePutDindir E i) st = Some (Inr (), x)"
    and px: "same_place (ci i st) (ci i x)" by blast
  obtain y where y: "RedInodePutIndir E i x = Some (Inr (), y)" "same_place (ci i x) (ci i y)"
    using put_same_place(2) [of E i x] by blast
  let ?z = "upd_ci i (\<lambda>c. c\<lparr>ci_uInodeEntry := k\<rparr>) y"
  obtain v where v: "cur_ino_entry E i ?z = Some (Inr v, ?z)"
    using cur_ino_entry_run [of i ?z E] m px y(2) by (auto simp: same_place_def)
  have "\<exists>w. seek_indir E i b st = Some (Inr (), upd_ci i (\<lambda>c. (no_dindir E c)\<lparr>ci_uIndirEntry := j\<rparr>) w) \<and>
      ci_uInodeEntry (ci i w) = k \<and> ci_ulLogicalBlock (ci i w) = ci_ulLogicalBlock (ci i st) \<and>
      ci_pInodeBuf (ci i w) = ci_pInodeBuf (ci i st) \<and> ci_ulInode (ci i w) = ci_ulInode (ci i st)"
  proof (cases "ci_uInodeEntry (ci i x) \<noteq> k \<or> \<not> ci_fCoordInited (ci i x)")
    case True
    then show ?thesis using x y v px
      by (intro exI [of _ "upd_ci i (\<lambda>c. c\<lparr>ci_ulIndirBlock := v\<rparr>) ?z"])
        (auto simp: seek_indir_def kj thenE_def bindE_def same_place_def)
  next
    case False
    then show ?thesis using x px
      by (intro exI [of _ x]) (auto simp: seek_indir_def kj thenE_def bindE_def same_place_def)
  qed
  then obtain w where w: "seek_indir E i b st = Some (Inr (), upd_ci i (\<lambda>c. (no_dindir E c)\<lparr>ci_uIndirEntry := j\<rparr>) w)"
    and f: "ci_uInodeEntry (ci i w) = k" "ci_ulLogicalBlock (ci i w) = ci_ulLogicalBlock (ci i st)"
      "ci_pInodeBuf (ci i w) = ci_pInodeBuf (ci i st)" "ci_ulInode (ci i w) = ci_ulInode (ci i st)" by blast
  show ?thesis unfolding w using f n b ind by (auto simp: at_block_def no_dindir_def)
qed

lemma seek_dindir_run:
  assumes ok: "inode_env_ok E" and m: "ci_pInodeBuf (ci i st) \<noteq> None"
    and b: "nD E + nI E * nE E \<le> unat b" "unat b < unat (INODE_DATA_BLOCKS E)"
  shows "\<exists>t. seek_dindir E i b st = Some (Inr (), t) \<and> at_block E (unat b) (ci i t) \<and>
    ci_ulLogicalBlock (ci i t) = ci_ulLogicalBlock (ci i st) \<and> ci_pInodeBuf (ci i t) = ci_pInodeBuf (ci i st) \<and>
    ci_ulInode (ci i t) = ci_ulInode (ci i st)"
proof -
  have s: "nD E + nI E \<le> unat (INODE_ENTRIES E)" using ok by (simp_all add: inode_env_ok_def)
  obtain k d j where kj: "dindir_coord E b = (k, d, j)" by (cases "dindir_coord E b") auto
  note n = dindir_coord_nat [OF ok b, unfolded kj fst_conv snd_conv]
  have ind: "INDIRS_EXIST E"
  proof -
    have "0 < DINDIR_POINTERS E" using n(4) by (simp add: DINDIRS_EXIST_def)
    then have "0 < unat (INODE_ENTRIES E) - nD E - nI E" using block_limits(3) [OF ok] by (simp add: word_less_nat_alt)
    then show ?thesis by (simp add: INDIRS_EXIST_def word_less_nat_alt)
  qed
  obtain x where x: "RedInodePutIndir E i st = Some (Inr (), x)" "same_place (ci i st) (ci i x)"
    using put_same_place(2) [of E i st] by blast
  obtain y where y: "RedInodePutDindir E i x = Some (Inr (), y)" "same_place (ci i x) (ci i y)"
    using put_same_place(3) [of E i x] by blast
  let ?z = "upd_ci i (\<lambda>c. c\<lparr>ci_uInodeEntry := k\<rparr>) y"
  obtain v where v: "cur_ino_entry E i ?z = Some (Inr v, ?z)"
    using cur_ino_entry_run [of i ?z E] m x(2) y(2) by (auto simp: same_place_def)
  let ?fin = "\<lambda>c. c\<lparr>ci_uDindirEntry := d, ci_uIndirEntry := j\<rparr>"
  have "\<exists>w. seek_dindir E i b st = Some (Inr (), upd_ci i ?fin w) \<and>
      ci_uInodeEntry (ci i w) = k \<and> ci_ulLogicalBlock (ci i w) = ci_ulLogicalBlock (ci i st) \<and>
      ci_pInodeBuf (ci i w) = ci_pInodeBuf (ci i st) \<and> ci_ulInode (ci i w) = ci_ulInode (ci i st)"
  proof (cases "ci_uInodeEntry (ci i st) \<noteq> k \<or> \<not> ci_fCoordInited (ci i st)")
    case True
    then show ?thesis using x y v
      by (intro exI [of _ "upd_ci i (\<lambda>c. c\<lparr>ci_ulDindirBlock := v\<rparr>) ?z"])
        (auto simp: seek_dindir_def kj thenE_def bindE_def same_place_def)
  next
    case False
    show ?thesis
    proof (cases "ci_uDindirEntry (ci i st) = d")
      case True
      with False show ?thesis
        by (intro exI [of _ st]) (auto simp: seek_dindir_def kj thenE_def bindE_def)
    next
      case d: False
      with False x show ?thesis
        by (intro exI [of _ x]) (auto simp: seek_dindir_def kj thenE_def bindE_def same_place_def)
    qed
  qed
  then obtain w where w: "seek_dindir E i b st = Some (Inr (), upd_ci i ?fin w)"
    and f: "ci_uInodeEntry (ci i w) = k" "ci_ulLogicalBlock (ci i w) = ci_ulLogicalBlock (ci i st)"
      "ci_pInodeBuf (ci i w) = ci_pInodeBuf (ci i st)" "ci_ulInode (ci i w) = ci_ulInode (ci i st)" by blast
  have "at_block E (unat b) (?fin (ci i w))"
    using f(1) n b ind by (simp add: at_block_def Let_def)
  with w f show ?thesis by auto
qed

text \<open>What the coordinates of an open inode say, once they are initialised.\<close>

definition coords_ok :: "'d env \<Rightarrow> CINODE \<Rightarrow> bool" where
  "coords_ok E c \<longleftrightarrow> (ci_fCoordInited c \<longrightarrow> ci_ulLogicalBlock c < INODE_DATA_BLOCKS E \<and>
     at_block E (unat (ci_ulLogicalBlock c)) c)"

lemma in_ranges:
  assumes ok: "inode_env_ok E"
  shows "in_direct_range E b \<Longrightarrow> unat b < unat (INODE_DATA_BLOCKS E) \<Longrightarrow> unat b < nD E"
    and "\<not> in_direct_range E b \<Longrightarrow> nD E \<le> unat b"
    and "nD E \<le> unat b \<Longrightarrow> unat b < unat (INODE_DATA_BLOCKS E) \<Longrightarrow> in_indir_range E b \<Longrightarrow> unat b < nD E + nI E * nE E"
    and "\<not> in_indir_range E b \<Longrightarrow> nD E \<le> unat b \<Longrightarrow> nD E + nI E * nE E \<le> unat b"
proof -
  have s: "nD E + nI E \<le> unat (INODE_ENTRIES E)" using ok by (simp_all add: inode_env_ok_def)
  note l = block_limits [OF ok] and db = data_blocks [OF ok]
  have i: "unat (INODE_INDIR_BLOCKS E + REDCONF_DIRECT_POINTERS E) = nD E + nI E * nE E"
    using l(5) by (simp add: add.commute)
  show "unat b < nD E" if "in_direct_range E b" "unat b < unat (INODE_DATA_BLOCKS E)"
  proof (cases "REDCONF_DIRECT_POINTERS E < INODE_ENTRIES E")
    case True
    with that show ?thesis by (simp add: in_direct_range_def word_less_nat_alt)
  next
    case False
    then have "nD E = unat (INODE_ENTRIES E)" "nI E = 0" using s by (simp_all add: word_less_nat_alt)
    with that db show ?thesis by simp
  qed
  show "nD E \<le> unat b" if "\<not> in_direct_range E b"
    using that by (auto simp: in_direct_range_def word_less_nat_alt not_less)
  show "unat b < nD E + nI E * nE E"
    if "nD E \<le> unat b" "unat b < unat (INODE_DATA_BLOCKS E)" "in_indir_range E b"
  proof (cases "REDCONF_INDIRECT_POINTERS E < INODE_ENTRIES E")
    case True
    with that show ?thesis by (simp add: in_indir_range_def word_less_nat_alt i)
  next
    case False
    then have "nI E = unat (INODE_ENTRIES E)" "nD E = 0" using s by (simp_all add: word_less_nat_alt)
    with that db show ?thesis by simp
  qed
  show "nD E + nI E * nE E \<le> unat b" if "\<not> in_indir_range E b" "nD E \<le> unat b"
    using that by (auto simp: in_indir_range_def word_less_nat_alt not_less i)
qed

lemma SeekCoord_run:
  assumes ok: "inode_env_ok E" and m: "CINODE_IS_MOUNTED i st" and b: "b < INODE_DATA_BLOCKS E"
    and c: "coords_ok E (ci i st)"
  shows "\<exists>t. SeekCoord E i b st = Some (Inr (), t) \<and> ci_fCoordInited (ci i t) \<and> ci_ulLogicalBlock (ci i t) = b \<and>
    at_block E (unat b) (ci i t) \<and> ci_pInodeBuf (ci i t) = ci_pInodeBuf (ci i st) \<and>
    ci_ulInode (ci i t) = ci_ulInode (ci i st)"
proof (cases "ci_ulLogicalBlock (ci i st) \<noteq> b \<or> \<not> ci_fCoordInited (ci i st)")
  case False
  with assms show ?thesis by (auto simp: SeekCoord_def coords_ok_def)
next
  case True
  have bn: "unat b < unat (INODE_DATA_BLOCKS E)" using b by (simp add: word_less_nat_alt)
  obtain x where x: "RedInodePutData E i st = Some (Inr (), x)" "same_place (ci i st) (ci i x)"
    using put_same_place(1) [of E i st] by blast
  let ?y = "upd_ci i (\<lambda>c. c\<lparr>ci_ulLogicalBlock := b\<rparr>) x"
  let ?seek = "if in_direct_range E b then seek_direct E i b else if in_indir_range E b then seek_indir E i b
     else if DINDIRS_EXIST E then seek_dindir E i b else okE ()"
  have m': "ci_pInodeBuf (ci i ?y) \<noteq> None" using m x by (simp add: CINODE_IS_MOUNTED_def same_place_def)
  have "\<exists>z. ?seek ?y = Some (Inr (), z) \<and> at_block E (unat b) (ci i z) \<and>
    ci_ulLogicalBlock (ci i z) = ci_ulLogicalBlock (ci i ?y) \<and> ci_pInodeBuf (ci i z) = ci_pInodeBuf (ci i ?y) \<and>
    ci_ulInode (ci i z) = ci_ulInode (ci i ?y)"
  proof (cases "in_direct_range E b")
    case True
    then show ?thesis using seek_direct_run [where b = b, OF ok m'] in_ranges(1) [OF ok _ bn] by simp
  next
    case nd: False
    then have ge: "nD E \<le> unat b" by (rule in_ranges(2) [OF ok])
    show ?thesis
    proof (cases "in_indir_range E b")
      case True
      then show ?thesis using nd seek_indir_run [OF ok m' ge in_ranges(3) [OF ok ge bn]] by simp
    next
      case False
      then have "nD E + nI E * nE E \<le> unat b" using in_ranges(4) [OF ok] ge by blast
      from seek_dindir_run [OF ok m' this bn] dindir_coord_nat(4) [OF ok this bn] nd False show ?thesis by simp
    qed
  qed
  then obtain z where z: "?seek ?y = Some (Inr (), z)" "at_block E (unat b) (ci i z)"
    "ci_ulLogicalBlock (ci i z) = b" "ci_pInodeBuf (ci i z) = ci_pInodeBuf (ci i st)"
    "ci_ulInode (ci i z) = ci_ulInode (ci i st)" using x(2) by (auto simp: same_place_def)
  have "at_block E (unat b) ((ci i z)\<lparr>ci_fCoordInited := True\<rparr>) = at_block E (unat b) (ci i z)"
    by (simp add: at_block_def)
  moreover have "SeekCoord E i b st = Some (Inr (), upd_ci i (\<lambda>c. c\<lparr>ci_fCoordInited := True\<rparr>) z)"
    using m b True x(1) z(1) by (simp add: SeekCoord_def thenE_def bindE_def not_le [THEN iffD2])
  ultimately show ?thesis using z by auto
qed

text \<open>
  C15. Seeking leads to the block that was asked for. On a mounted inode \<^verbatim>\<open>SeekCoord\<close> never
  follows a null pointer; afterwards the coordinates are indices inside the inode and the
  indirect nodes, and the block of the file that they lead to, computed back from them, is the
  block sought. The invariant of the coordinates is kept.
\<close>

theorem seek_coord_leads_to_block:
  assumes "inode_env_ok E" and "CINODE_IS_MOUNTED i st" and "b < INODE_DATA_BLOCKS E" and "coords_ok E (ci i st)"
  shows "\<exists>t. SeekCoord E i b st = Some (Inr (), t) \<and> coords_ok E (ci i t) \<and> ci_fCoordInited (ci i t) \<and>
    coords_in_nodes E (ci i t) \<and> block_of_coords E (ci i t) = unat b"
proof -
  obtain t where t: "SeekCoord E i b st = Some (Inr (), t)" "ci_fCoordInited (ci i t)" "ci_ulLogicalBlock (ci i t) = b"
    "at_block E (unat b) (ci i t)" using SeekCoord_run [OF assms] by blast
  have "unat b < unat (INODE_DATA_BLOCKS E)" using assms(3) by (simp add: word_less_nat_alt)
  from at_block_coords [OF assms(1) this t(4)] t assms(3) show ?thesis by (auto simp: coords_ok_def)
qed

section \<open>Instances\<close>

text \<open>An open inode of the concrete volume, whose node is in the first buffer.\<close>

definition demo_open :: "ramdisk ist" where
  "demo_open = ((\<lambda>_. (cinode_zero 2)\<lparr>ci_pInodeBuf := Some 0\<rparr>), demo_fs demo_disk)"

lemma demo_pointers: "REDCONF_DIRECT_POINTERS demo_env = 4" "REDCONF_INDIRECT_POINTERS demo_env = 2"
  "INODE_ENTRIES demo_env = 20" "INDIR_ENTRIES demo_env = 27"
  by (simp_all add: INODE_ENTRIES_def INDIR_ENTRIES_def INDIR_HEADER_SIZE_def ino_offsets NODEHEADER_SIZE_def)
    (simp_all add: demo_env_def)

lemma demo_inode_env: "inode_env_ok demo_env"
  by (simp add: inode_env_ok_def demo_env_ok demo_pointers)

lemma demo_open_mounted: "CINODE_IS_MOUNTED 0 demo_open" "coords_ok demo_env (ci 0 demo_open)"
  by (simp_all add: demo_open_def CINODE_IS_MOUNTED_def INODE_IS_VALID_def coords_ok_def cinode_zero_def ci_def
      INODE_FIRST_VALID_def demo_corevol_def)

theorem seek_coord_leads_to_block_witness:
  "\<exists>t. SeekCoord demo_env 0 100 demo_open = Some (Inr (), t) \<and> block_of_coords demo_env (ci 0 t) = 100"
proof -
  have "(100 :: u32) < INODE_DATA_BLOCKS demo_env"
    by (simp add: INODE_DATA_BLOCKS_def INODE_INDIR_BLOCKS_def INODE_DINDIR_BLOCKS_def DINDIR_POINTERS_MAX_def
        INODE_DINDIR_BLOCKS_MAX_def DINDIR_DATA_BLOCKS_def DINDIR_POINTERS_def demo_pointers)
  from seek_coord_leads_to_block [OF demo_inode_env demo_open_mounted(1) this demo_open_mounted(2)]
  show ?thesis by auto
qed

end
