(* ===== verification/Red_BranchProps.thy ===== *)
theory Red_BranchProps
  imports Red_Branch Red_SeekProps
begin

text \<open>
  What branching a block promises, on a volume with an inline imap: afterwards the block is one
  that the committed state does not use, so that writing it leaves the committed state alone.
\<close>

section \<open>The map and the cache\<close>

text \<open>No free block has a buffer; a block that is set free is discarded from the cache.\<close>

definition free_uncached :: "'d env \<Rightarrow> 'd fs \<Rightarrow> bool" where
  "free_uncached E s \<longleftrightarrow> (\<forall>b. ifree E s b \<longrightarrow> uncached E b s)"

lemma uncached_same_ctx: "gBufCtx t = gBufCtx s \<Longrightarrow> gbRedVolNum t = gbRedVolNum s \<Longrightarrow> uncached E b t = uncached E b s"
  by (simp add: uncached_def)

lemma set_keeps_buffers:
  assumes inv: "imap_inv E s" and run: "RedImapBlockSet E b True s = Some (Inr (), t)"
  shows "gBufCtx t = gBufCtx s \<and> gbRedVolNum t = gbRedVolNum s"
proof -
  have ok: "imapi_ok E s" using inv by (simp add: imap_inv_def)
  from run obtain x where x: "imap_change E b True s = Some (Inr (), x)"
    and t: "t = x \<or> t = set_ulFreeBlocks (\<lambda>n. n - 1) x"
    by (auto simp: RedImapBlockSet_def thenE_Inr_Some imap_count_def split: if_splits)
  from imap_change_ok [OF ok imap_inv_inline [OF inv] x] have "bit_changed E b True s x" by simp
  with t show ?thesis by (auto simp: bit_changed_def set_ulFreeBlocks_def)
qed

lemma alloc_steps:
  assumes run: "RedImapAllocBlock E s = Some (Inr b, t)" and inl: "imap_is_inline E s"
  obtains v where "RedImapIBlockFindFree E (mr_ulAllocNextBlock E (gpRedMR s)) s = Some (Inr b, s)"
    and "RedImapBlockSet E b True (set_ulAllocNextBlock E v s) = Some (Inr (), t)"
    and "mr_ulFreeBlocks (gpRedMR s) \<noteq> 0"
    and "v = (if b + 1 = vol_ulBlockCount (gpRedVolume s) then cv_ulFirstAllocableBN (gpRedCoreVol s) else b + 1)"
proof -
  let ?n = "mr_ulAllocNextBlock E (gpRedMR s)"
  from run have n: "mr_ulFreeBlocks (gpRedMR s) \<noteq> 0" by (auto simp: RedImapAllocBlock_def)
  obtain q u where q: "RedImapIBlockFindFree E ?n s = Some (q, u)"
    using run n inl by (cases "RedImapIBlockFindFree E ?n s")
      (auto simp: RedImapAllocBlock_def statusE_def RedImapBlockFindFree_def)
  have u: "u = s" using q by (auto simp: RedImapIBlockFindFree_def Let_def split: if_splits option.splits)
  show ?thesis
  proof (cases q)
    case (Inl e)
    then show ?thesis using run n q inl
      by (simp add: RedImapAllocBlock_def statusE_def RedImapBlockFindFree_def thenE_Inr [OF CRITICAL_ERROR_app] split: if_splits)
  next
    case (Inr c)
    define v where "v = (if c + 1 = vol_ulBlockCount (gpRedVolume s) then cv_ulFirstAllocableBN (gpRedCoreVol s) else c + 1)"
    have c: "critical_if_error (RedImapBlockSet E c True) (set_ulAllocNextBlock E v s) = Some (Inr (), t)" and b: "c = b"
      using run n q inl u Inr
      by (auto simp: RedImapAllocBlock_def statusE_def RedImapBlockFindFree_def thenE_Inr_Some v_def)
    from that [OF _ _ n v_def [unfolded b]] c q u Inr show ?thesis by (simp add: critical_if_error_Inr b)
  qed
qed

text \<open>What an operation that changes at most the map leaves alone.\<close>

definition same_geometry :: "'d fs \<Rightarrow> 'd fs \<Rightarrow> bool" where
  "same_geometry s t \<longleftrightarrow> cv_bCurMR (gpRedCoreVol t) = cv_bCurMR (gpRedCoreVol s) \<and> other_MR t = other_MR s \<and>
     vol_ulBlockCount (gpRedVolume t) = vol_ulBlockCount (gpRedVolume s) \<and>
     cv_ulFirstAllocableBN (gpRedCoreVol t) = cv_ulFirstAllocableBN (gpRedCoreVol s)"

lemma same_geometry_refl [simp]: "same_geometry s s"
  by (simp add: same_geometry_def)

lemma same_geometry_trans: "same_geometry s t \<Longrightarrow> same_geometry t u \<Longrightarrow> same_geometry s u"
  by (simp add: same_geometry_def)

text \<open>The bits of the working state and those of the committed state.\<close>

abbreviation wbit :: "'d env \<Rightarrow> 'd fs \<Rightarrow> u32 \<Rightarrow> bool" where
  "wbit E s b \<equiv> ibit E s (cv_bCurMR (gpRedCoreVol s)) b"
abbreviation cbit :: "'d env \<Rightarrow> 'd fs \<Rightarrow> u32 \<Rightarrow> bool" where
  "cbit E s b \<equiv> ibit E s (other_MR s) b"

lemma alloc_effect:
  assumes inv: "imap_inv E s" and run: "RedImapAllocBlock E s = Some (Inr b, t)"
  shows "imap_inv E t" and "ifree E s b" and "same_geometry s t"
    and "wbit E t c = (c = b \<or> wbit E s c)" and "cbit E t c = cbit E s c"
    and "gBufCtx t = gBufCtx s" and "gbRedVolNum t = gbRedVolNum s"
proof -
  from alloc_steps [OF run imap_inv_inline [OF inv]] obtain v
    where set: "RedImapBlockSet E b True (set_ulAllocNextBlock E v s) = Some (Inr (), t)"
      and n: "mr_ulFreeBlocks (gpRedMR s) \<noteq> 0"
      and veq: "v = (if b + 1 = vol_ulBlockCount (gpRedVolume s) then cv_ulFirstAllocableBN (gpRedCoreVol s) else b + 1)" .
  from alloc_found [OF inv n] obtain b' t' where r': "RedImapAllocBlock E s = Some (Inr b', t')"
    and f': "ifree E s b'" .
  with run show f: "ifree E s b" by simp
  then have lt: "b < vol_ulBlockCount (gpRedVolume s)" "cv_ulFirstAllocableBN (gpRedCoreVol s) \<le> b"
    by (simp_all add: ifree_def)
  have "unat (b + 1) = unat b + 1"
    using lt(1) unsigned_less [of "vol_ulBlockCount (gpRedVolume s)", where 'a = nat]
    by (intro unat_succ) (simp add: word_less_nat_alt)
  then have v: "cv_ulFirstAllocableBN (gpRedCoreVol s) \<le> v" "v < vol_ulBlockCount (gpRedVolume s)"
    using lt by (auto simp: veq word_le_nat_alt word_less_nat_alt word_unat_eq_iff)
  note m = set_ulAllocNextBlock_map [OF inv v]
  have al: "\<not> cbit E (set_ulAllocNextBlock E v s) b" using f by (simp add: m ifree_def)
  note so = imap_set_ok [OF m(1) set al]
  show "imap_inv E t" by (fact so(1))
  show "same_geometry s t" using so(6-9) by (simp add: same_geometry_def m)
  show "wbit E t c = (c = b \<or> wbit E s c)" using so(4) [of c] so(7) by (simp add: m)
  show "cbit E t c = cbit E s c" using so(5) [of c] so(6) by (simp add: m)
  show "gBufCtx t = gBufCtx s" "gbRedVolNum t = gbRedVolNum s"
    using set_keeps_buffers [OF m(1) set] by (simp_all add: set_ulAllocNextBlock_def)
qed

lemma same_map_geometry: "same_map s t \<Longrightarrow> same_geometry s t"
  by (simp add: same_geometry_def same_map_def other_MR_def)

text \<open>The buffer operations leave the map alone, and give no other block a buffer.\<close>

lemma discard_keeps_uncached:
  assumes "buf_inv E s" and "k + m = NBUF E" and "discard_loop E b n k m s = Some (Inr (), t)"
    and "uncached E c s" and "c \<noteq> BBLK_INVALID"
  shows "uncached E c t"
  using assms
proof (induction m arbitrary: k s)
  case (Suc m)
  let ?h = "bc_aHead (gBufCtx s) ! k"
  have k: "k < NBUF E" using Suc.prems(2) by simp
  consider "\<not> in_range b n ?h s" | "in_range b n ?h s" "bh_bRefCount ?h \<noteq> 0"
    | "in_range b n ?h s" "bh_bRefCount ?h = 0" by blast
  then show ?case
  proof cases
    case 1
    then have "discard_loop E b n (Suc k) m s = Some (Inr (), t)" using Suc.prems(3) by simp
    then show ?thesis using Suc.IH [of s "Suc k"] Suc.prems by simp
  next
    case 2
    then show ?thesis using Suc.prems(3) by (simp add: thenE_Inl thenE_Inr [OF CRITICAL_ERROR_app])
  next
    case 3
    define u where "u = BufferMakeLRU E (word_of_nat k) (upd_head (word_of_nat k) (\<lambda>h. h\<lparr>bh_ulBlock := BBLK_INVALID\<rparr>) s)"
    note st = discard_step [OF Suc.prems(1) k 3(2), folded u_def]
    have "discard_loop E b n (Suc k) m u = Some (Inr (), t)"
      using Suc.prems(3) 3 by (simp add: u_def)
    moreover have "gbRedVolNum u = gbRedVolNum s" using st(1) by (simp add: buf_frame_globals)
    then have "uncached E c u"
      using Suc.prems(4,5) k buf_inv_lengths(2) [OF Suc.prems(1)] unfolding uncached_def st(3)
      by (auto simp: nth_list_update)
    ultimately show ?thesis using Suc.IH [of u "Suc k"] Suc.prems st(2) by simp
  qed
qed simp

lemma release_effect:
  assumes inv: "imap_inv E s" and run: "RedImapBlockSet E b False s = Some (Inr (), t)"
  shows "imap_inv E t" and "same_geometry s t" and "wbit E t c = (c \<noteq> b \<and> wbit E s c)" and "cbit E t c = cbit E s c"
    and "wbit E s b" and "c \<noteq> BBLK_INVALID \<Longrightarrow> uncached E c s \<Longrightarrow> uncached E c t"
proof -
  note so = imap_set_ok [OF inv run, simplified]
  show "imap_inv E t" "wbit E s b" by (fact so(1), use so(2) in simp)
  show "same_geometry s t" using so by (simp add: same_geometry_def)
  show "wbit E t c = (c \<noteq> b \<and> wbit E s c)" using so(4) [of c] so(7) by simp
  show "cbit E t c = cbit E s c" using so(5) [of c] so(6) by simp
  have ok: "imapi_ok E s" using inv by (simp add: imap_inv_def)
  from run obtain u w where u: "imap_change E b False s = Some (Inr (), u)"
    and w: "RedBufferDiscardRange E b 1 u = Some (Inr (), w)"
    and t: "(if b \<ge> cv_ulFirstAllocableBN (gpRedCoreVol w) then imap_count E b False else okE ()) w = Some (Inr (), t)"
    by (auto simp: RedImapBlockSet_def thenE_Inr_Some critical_if_error_Inr)
  from imap_change_ok [OF ok imap_inv_inline [OF inv] u] have ch: "bit_changed E b False s u" by simp
  have bu: "buf_inv E u" using ch inv by (simp add: bit_changed_def buf_inv_def imap_inv_def)
  have "gBufCtx t = gBufCtx w \<and> gbRedVolNum t = gbRedVolNum w"
  proof (cases "b \<ge> cv_ulFirstAllocableBN (gpRedCoreVol w)")
    case True
    then obtain f x where g: "RedImapBlockGet E (other_MR w) b w = Some (Inr f, x)"
      and t: "t = upd_cv (\<lambda>cv. cv\<lparr>cv_ulAlmostFreeBlocks := cv_ulAlmostFreeBlocks cv + 1\<rparr>) x \<or>
        t = set_ulFreeBlocks (\<lambda>n. n + 1) x"
      using t by (auto simp: imap_count_def bindE_Inr_Some critical_if_error_Inr split: if_splits)
    have fw: "buf_frame u w" using RedBufferDiscardRange_effect [OF bu w] by simp
    have "imap_is_inline E w"
      using imap_inv_inline [OF inv] ch same_map_frame [OF fw]
      by (auto simp: imap_is_inline_def bit_changed_def same_map_def)
    then have "x = w" using g by (auto simp: RedImapBlockGet_def RedImapIBlockGet_def split: if_splits option.splits)
    with t show ?thesis by (auto simp: set_ulFreeBlocks_def)
  qed (use t in simp)
  moreover assume c: "c \<noteq> BBLK_INVALID" "uncached E c s"
  have "uncached E c u" using ch c(2) by (simp add: uncached_same_ctx [of u s] bit_changed_def)
  with w c(1) discard_keeps_uncached [OF bu, of 0 "NBUF E" b 1 w c] have "uncached E c w"
    by (auto simp: RedBufferDiscardRange_def split: if_splits)
  ultimately show "uncached E c t" by (simp add: uncached_same_ctx [of t w])
qed

lemma get_effect:
  assumes inv: "imap_inv E s" and small: "refs_small E s" and run: "RedBufferGet E b fl s = Some (Inr p, t)"
  shows "imap_inv E t" and "same_map s t" and "c \<noteq> b \<Longrightarrow> uncached E c s \<Longrightarrow> uncached E c t"
proof -
  have e: "env_ok E" and bi: "buf_inv E s" using inv by (simp_all add: imap_inv_def imapi_ok_def)
  have ef: "buf_frame s t" "buf_inv E t" using RedBufferGet_effect [OF e bi small run] by simp_all
  show sm: "same_map s t" by (rule same_map_frame [OF ef(1)])
  show "imap_inv E t" by (rule imap_inv_same [OF inv sm ef(2)])
  show "c \<noteq> b \<Longrightarrow> uncached E c s \<Longrightarrow> uncached E c t" by (rule RedBufferGet_uncached [OF e bi run])
qed

lemma upd_head_uncached:
  assumes bi: "buf_inv E s" and i: "unat i < NBUF E" and c: "uncached E c s"
    and f: "\<And>h. bh_bVolNum (f h) = bh_bVolNum h" "bh_ulBlock (f (head_of i s)) \<noteq> c \<or> bh_ulBlock (f (head_of i s)) = bh_ulBlock (head_of i s)"
  shows "uncached E c (upd_head i f s)"
  unfolding uncached_def
proof (intro allI impI)
  fix j assume j: "j < NBUF E" and v: "bh_bVolNum (bc_aHead (gBufCtx (upd_head i f s)) ! j) = gbRedVolNum (upd_head i f s)"
  show "bh_ulBlock (bc_aHead (gBufCtx (upd_head i f s)) ! j) \<noteq> c"
  proof (cases "j = unat i")
    case True
    then have "bc_aHead (gBufCtx (upd_head i f s)) ! j = f (head_of i s)" using i buf_inv_lengths(2) [OF bi] by (simp add: head_of_def)
    moreover have "bh_ulBlock (head_of i s) \<noteq> c" using c v True f(1) j i calculation by (auto simp: uncached_def head_of_def)
    ultimately show ?thesis using f(2) by auto
  next
    case False
    then show ?thesis using c j v by (simp add: uncached_def)
  qed
qed

lemma branch_effect:
  assumes inv: "imap_inv E s" and new: "uncached E b s"
  shows "imap_inv E (RedBufferBranch E p b s)" and "same_map s (RedBufferBranch E p b s)"
    and "c \<noteq> b \<Longrightarrow> uncached E c s \<Longrightarrow> uncached E c (RedBufferBranch E p b s)"
proof -
  have e: "env_ok E" and bi: "buf_inv E s" using inv by (simp_all add: imap_inv_def imapi_ok_def)
  have ef: "buf_inv E (RedBufferBranch E p b s)" "buf_frame s (RedBufferBranch E p b s)"
    using RedBufferBranch_inv [OF e bi new] by simp_all
  show sm: "same_map s (RedBufferBranch E p b s)" by (rule same_map_frame [OF ef(2)])
  show "imap_inv E (RedBufferBranch E p b s)" by (rule imap_inv_same [OF inv sm ef(1)])
  assume "c \<noteq> b" "uncached E c s"
  then show "uncached E c (RedBufferBranch E p b s)"
    using BufferToIdx_Some [OF e, of p s] by (auto simp: RedBufferBranch_def split: option.split intro: upd_head_uncached [OF bi])
qed

lemma dirty_effect:
  assumes inv: "imap_inv E s"
  shows "imap_inv E (RedBufferDirty E p s)" and "same_map s (RedBufferDirty E p s)"
    and "uncached E c s \<Longrightarrow> uncached E c (RedBufferDirty E p s)"
proof -
  have e: "env_ok E" and bi: "buf_inv E s" using inv by (simp_all add: imap_inv_def imapi_ok_def)
  have ef: "buf_inv E (RedBufferDirty E p s)" "buf_frame s (RedBufferDirty E p s)"
    using RedBufferDirty_inv [OF e bi] by simp_all
  show sm: "same_map s (RedBufferDirty E p s)" by (rule same_map_frame [OF ef(2)])
  show "imap_inv E (RedBufferDirty E p s)" by (rule imap_inv_same [OF inv sm ef(1)])
  assume "uncached E c s"
  then show "uncached E c (RedBufferDirty E p s)"
    using BufferToIdx_Some [OF e, of p s] by (auto simp: RedBufferDirty_def split: option.split intro: upd_head_uncached [OF bi])
qed

text \<open>The reservations are not part of the map.\<close>

lemma reserved_effect:
  assumes inv: "imap_inv E s" and run: "use_reserved_block E s = Some (Inr (), t)"
  shows "imap_inv E t" and "same_geometry s t" and "ibit E t m c = ibit E s m c"
    and "gBufCtx t = gBufCtx s" and "gbRedVolNum t = gbRedVolNum s"
proof -
  from run have "t = s \<or> t = upd_cv (\<lambda>cv. cv\<lparr>cv_ulReservedInodeBlocks := cv_ulReservedInodeBlocks cv - 1\<rparr>) s"
    by (auto simp: use_reserved_block_def thenE_Inr [OF CRITICAL_ERROR_app] bindE_Inr_Some split: if_splits)
  moreover have "imap_inv E (upd_cv (\<lambda>cv. cv\<lparr>cv_ulReservedInodeBlocks := n cv\<rparr>) s)" for n
    using inv by (simp add: imap_inv_def imapi_ok_def Let_def ifree_def iafree_def ibit_def gpRedMR_def other_MR_def buf_inv_def)
  ultimately show "imap_inv E t" "same_geometry s t" "ibit E t m c = ibit E s m c" "gBufCtx t = gBufCtx s"
    "gbRedVolNum t = gbRedVolNum s"
    using inv by (auto simp: same_geometry_def other_MR_def ibit_def)
qed

section \<open>One block\<close>

lemma liftF_Inr: "liftF f st = Some (Inr x, t) \<longleftrightarrow> f (snd st) = Some (Inr x, snd t) \<and> fst t = fst st"
  by (cases st; cases t) (auto simp: liftF_def split: option.split)

lemma cf_keeps [simp]: "cf_block cf (set_cf_buf cf p c) = cf_block cf c" "cf_block cf (set_cf_block cf b c) = b"
  by (cases cf; simp)+

lemma ci_same: "fst t = fst st \<Longrightarrow> ci i t = ci i st"
  by (simp add: ci_def)

lemma get_ptr_steps:
  assumes "get_ptr E (cf_buf cf) (set_cf_buf cf) i b fl st = Some (Inr (), t)"
  shows "cf_block cf (ci i t) = cf_block cf (ci i st) \<and>
    (snd t = snd st \<or> (\<exists>p. RedBufferGet E b fl (snd st) = Some (Inr p, snd t)))"
proof (cases "cf_buf cf (ci i st)")
  case None
  with assms have "bindE (liftF (RedBufferGet E b fl)) (\<lambda>p. modE (upd_ci i (set_cf_buf cf p))) st = Some (Inr (), t)"
    by (simp add: get_ptr_def)
  then obtain p u where g: "liftF (RedBufferGet E b fl) st = Some (Inr p, u)"
    and m: "modE (upd_ci i (set_cf_buf cf p)) u = Some (Inr (), t)"
    by (auto elim!: bindE_eq_SomeE)
  from m have t: "t = upd_ci i (set_cf_buf cf p) u" by simp
  from g have "RedBufferGet E b fl (snd st) = Some (Inr p, snd t)" and f: "fst u = fst st"
    by (simp_all add: liftF_Inr t)
  note this(1) and ci_same [OF f, of i]
  then show ?thesis by (auto simp: t)
next
  case (Some p)
  with assms have "t = st" by (simp add: get_ptr_def)
  then show ?thesis by simp
qed

text \<open>What holds after the block \<open>prev\<close> was replaced by the block \<open>b\<close>.\<close>

definition branched_to :: "'d env \<Rightarrow> u32 \<Rightarrow> u32 \<Rightarrow> 'd fs \<Rightarrow> 'd fs \<Rightarrow> bool" where
  "branched_to E prev b s t \<longleftrightarrow> imap_inv E t \<and> free_uncached E t \<and> same_geometry s t \<and> ifree E s b \<and> wbit E t b \<and> \<not> cbit E t b \<and>
     (\<forall>c. cbit E t c = cbit E s c) \<and>
     (\<forall>c. wbit E t c = (c = b \<or> wbit E s c \<and> (c = prev \<longrightarrow> prev = BLOCK_SPARSE)))"

lemma same_map_bits: "same_map s t \<Longrightarrow> wbit E t c = wbit E s c \<and> cbit E t c = cbit E s c \<and> ifree E t c = ifree E s c"
  by (simp add: same_map_reads) (simp add: same_map_def)

lemma ifree_geometry: "same_geometry s t \<Longrightarrow> ifree E t c \<longleftrightarrow>
    cv_ulFirstAllocableBN (gpRedCoreVol s) \<le> c \<and> c < vol_ulBlockCount (gpRedVolume s) \<and> \<not> wbit E t c \<and> \<not> cbit E t c"
  by (simp add: ifree_def same_geometry_def)

text \<open>A free block has a number.\<close>

lemma ifree_valid: "ifree E s c \<Longrightarrow> c \<noteq> BBLK_INVALID"
  unfolding ifree_def by (rule block_count_not_invalid [of c "vol_ulBlockCount (gpRedVolume s)"]) simp

lemma sparse_steps:
  assumes inv: "imap_inv E s" and fu: "free_uncached E s" and small: "refs_small E s"
    and al: "RedImapAllocBlock E s = Some (Inr b, u)" and rs: "use_reserved_block E u = Some (Inr (), w)"
    and get: "snd t = w \<or> (\<exists>p. RedBufferGet E b fl w = Some (Inr p, snd t))"
  shows "branched_to E BLOCK_SPARSE b s (snd t)"
proof -
  note a = alloc_effect [OF inv al] and r = reserved_effect [OF alloc_effect(1) [OF inv al] rs]
  have sw: "refs_small E w" using small by (simp add: refs_small_def a r)
  have gw: "same_geometry s w" by (rule same_geometry_trans [OF a(3) r(2)])
  have bits: "wbit E w c = (c = b \<or> wbit E s c)" "cbit E w c = cbit E s c" for c
    using a(4,5) [of c] r(2) by (simp_all add: r(3) same_geometry_def)
  have un: "uncached E c w" if "ifree E s c" for c
    using fu that by (simp add: free_uncached_def uncached_same_ctx [of w s] a r)
  have x: "imap_inv E (snd t) \<and> same_map w (snd t) \<and> (\<forall>c. c \<noteq> b \<longrightarrow> uncached E c w \<longrightarrow> uncached E c (snd t))"
    using get
  proof
    assume "\<exists>p. RedBufferGet E b fl w = Some (Inr p, snd t)"
    then show ?thesis using get_effect [OF r(1) sw] by blast
  qed (use r(1) in \<open>simp add: same_map_def\<close>)
  then have gt: "same_geometry s (snd t)" by (blast intro: same_geometry_trans [OF gw] same_map_geometry)
  have bt: "wbit E (snd t) c = (c = b \<or> wbit E s c)" "cbit E (snd t) c = cbit E s c" for c
    using x same_map_bits [of w "snd t" E c] bits [of c] by simp_all
  have "free_uncached E (snd t)"
    unfolding free_uncached_def
  proof (intro allI impI)
    fix c assume "ifree E (snd t) c"
    then have "ifree E s c" "c \<noteq> b" by (simp_all add: ifree_geometry [OF gt] bt) (simp add: ifree_def)
    with x un show "uncached E c (snd t)" by blast
  qed
  with x gt bt a(2) show ?thesis by (simp add: branched_to_def) (simp add: ifree_def)
qed

lemma used_steps:
  assumes inv: "imap_inv E s" and fu: "free_uncached E s" and small: "refs_small E s"
    and al: "RedImapAllocBlock E s = Some (Inr b, u)"
    and get: "w = u \<or> (\<exists>x p. (x = u \<or> (\<exists>q. RedBufferGet E prev fl u = Some (Inr q, x))) \<and> w = RedBufferBranch E p b x)"
    and rel: "RedImapBlockSet E prev False w = Some (Inr (), t)"
    and used: "wbit E s prev" "cbit E s prev" and ns: "prev \<noteq> BLOCK_SPARSE"
  shows "branched_to E prev b s t"
proof -
  note a = alloc_effect [OF inv al]
  have su: "refs_small E u" using small by (simp add: refs_small_def a)
  have pb: "prev \<noteq> b" using a(2) used by (auto simp: ifree_def)
  have un: "uncached E c u" if "ifree E s c" for c
    using fu that by (simp add: free_uncached_def uncached_same_ctx [of u s] a)
  have step: "imap_inv E x \<and> same_map u x \<and> uncached E b x \<and> (\<forall>c. ifree E s c \<longrightarrow> uncached E c x)"
    if x: "x = u \<or> (\<exists>q. RedBufferGet E prev fl u = Some (Inr q, x))" for x
    using x
  proof
    assume "\<exists>q. RedBufferGet E prev fl u = Some (Inr q, x)"
    then obtain q where g: "RedBufferGet E prev fl u = Some (Inr q, x)" ..
    have "c \<noteq> prev" if "ifree E s c" for c using that used by (auto simp: ifree_def)
    with get_effect [OF a(1) su g] un a(2) pb show ?thesis by metis
  qed (use a(1,2) un in \<open>simp add: same_map_def\<close>)
  have w: "imap_inv E w \<and> same_map u w \<and> (\<forall>c. c \<noteq> b \<longrightarrow> ifree E s c \<longrightarrow> uncached E c w)"
    using get
  proof
    assume "\<exists>x p. (x = u \<or> (\<exists>q. RedBufferGet E prev fl u = Some (Inr q, x))) \<and> w = RedBufferBranch E p b x"
    then obtain x p where x: "x = u \<or> (\<exists>q. RedBufferGet E prev fl u = Some (Inr q, x))"
      and w: "w = RedBufferBranch E p b x" by blast
    note s = step [OF x]
    from s have "imap_inv E x" "uncached E b x" by simp_all
    note be = branch_effect [OF this, where p = p, folded w]
    have "same_map u w" using s be(2) by (simp add: same_map_def)
    with be s show ?thesis by blast
  qed (use step [of u] in blast)
  then have iw: "imap_inv E w" by simp
  note r = release_effect [OF iw rel]
  have gt: "same_geometry s t"
    using a(3) w same_map_geometry [of u w] r(2) by (blast intro: same_geometry_trans)
  have bt: "wbit E t c = (c = b \<or> wbit E s c \<and> c \<noteq> prev)" "cbit E t c = cbit E s c" for c
    using w same_map_bits [of u w E c] a(4,5) [of c] r(3,4) [of c] pb by auto
  have "free_uncached E t"
    unfolding free_uncached_def
  proof (intro allI impI)
    fix c assume f: "ifree E t c"
    then have "ifree E s c" "c \<noteq> b" using used by (auto simp: ifree_geometry [OF gt] bt) (auto simp: ifree_def)
    with w r(6) [OF ifree_valid [OF f]] show "uncached E c t" by blast
  qed
  with r(1) gt bt a(2) ns show ?thesis by (simp add: branched_to_def) (simp add: ifree_def)
qed

text \<open>The block that is branched is new afterwards, whichever way the branch went.\<close>

lemma branch_used_steps:
  assumes run: "branch_used E i cf fB prev b fl st = Some (Inr (), t)"
  shows "cf_block cf (ci i t) = cf_block cf (ci i st) \<and> (\<exists>w. RedImapBlockSet E prev False w = Some (Inr (), snd t) \<and>
    (w = snd st \<or> (\<exists>x p. (x = snd st \<or> (\<exists>q. RedBufferGet E prev fl (snd st) = Some (Inr q, x))) \<and> w = RedBufferBranch E p b x)))"
proof -
  let ?get = "thenE (get_ptr E (cf_buf cf) (set_cf_buf cf) i prev fl)
    (bindE (ptrI (cf_buf cf) i) (\<lambda>p. modF (RedBufferBranch E p b)))"
  from run obtain u where u: "whenE fB ?get st = Some (Inr (), u)"
    and l: "liftF (RedImapBlockSet E prev False) u = Some (Inr (), t)"
    by (auto simp: branch_used_def elim!: thenE_eq_SomeE)
  from l have r: "RedImapBlockSet E prev False (snd u) = Some (Inr (), snd t)" and f: "fst t = fst u"
    by (simp_all add: liftF_Inr)
  show ?thesis
  proof (cases fB)
    case True
    with u have "?get st = Some (Inr (), u)" by simp
    then obtain v where g: "get_ptr E (cf_buf cf) (set_cf_buf cf) i prev fl st = Some (Inr (), v)"
      and "bindE (ptrI (cf_buf cf) i) (\<lambda>p. modF (RedBufferBranch E p b)) v = Some (Inr (), u)"
      by (auto elim!: thenE_eq_SomeE)
    then obtain p where m: "u = apsnd (RedBufferBranch E p b) v"
      by (auto simp: ptrI_def bindE_def split: option.splits)
    note gs = get_ptr_steps [OF g]
    have "ci i t = ci i v" using ci_same [OF f, of i] by (simp add: m)
    moreover have "snd u = RedBufferBranch E p b (snd v)" by (simp add: m)
    ultimately show ?thesis using gs r by (intro conjI exI [of _ "snd u"]) auto
  next
    case False
    then have "u = st" using u by simp
    then show ?thesis using r ci_same [OF f, of i] by auto
  qed
qed

lemma branch_sparse_steps:
  assumes run: "branch_sparse E i cf fB b fl st = Some (Inr (), t)"
  shows "cf_block cf (ci i t) = cf_block cf (ci i st) \<and> (\<exists>w. use_reserved_block E (snd st) = Some (Inr (), w) \<and>
    (snd t = w \<or> (\<exists>p. RedBufferGet E b (fl OR BFLAG_NEW OR BFLAG_DIRTY) w = Some (Inr p, snd t))))"
proof -
  from run obtain u where u: "liftF (use_reserved_block E) st = Some (Inr (), u)"
    and g: "(if \<not> fB then okE () else bindE (getE (\<lambda>st. cf_buf cf (ci i st))) (\<lambda>p.
          if p \<noteq> None then errE RED_EINVAL
          else get_ptr E (cf_buf cf) (set_cf_buf cf) i b (fl OR BFLAG_NEW OR BFLAG_DIRTY))) u = Some (Inr (), t)"
    unfolding branch_sparse_def by (auto elim!: thenE_eq_SomeE)
  from u have r: "use_reserved_block E (snd st) = Some (Inr (), snd u)" and f: "fst u = fst st"
    by (simp_all add: liftF_Inr)
  have "t = u \<or> get_ptr E (cf_buf cf) (set_cf_buf cf) i b (fl OR BFLAG_NEW OR BFLAG_DIRTY) u = Some (Inr (), t)"
    using g by (auto split: if_splits)
  then show ?thesis using get_ptr_steps [of E cf i b _ u t] r ci_same [OF f, of i] by fastforce
qed

lemma branch_new_steps:
  assumes run: "branch_new E i cf fB b fl st = Some (Inr (), t)"
  shows "cf_block cf (ci i t) = cf_block cf (ci i st) \<and> (snd t = snd st \<or> (\<exists>p. snd t = RedBufferDirty E p (snd st)) \<or>
    (\<exists>p. RedBufferGet E b (fl OR BFLAG_DIRTY) (snd st) = Some (Inr p, snd t)))"
proof -
  consider "t = st" | p where "t = apsnd (RedBufferDirty E p) st"
    | "get_ptr E (cf_buf cf) (set_cf_buf cf) i b (fl OR BFLAG_DIRTY) st = Some (Inr (), t)"
    using run by (auto simp: branch_new_def split: if_splits option.splits)
  then show ?thesis
  proof cases
    case 3
    from get_ptr_steps [OF this] show ?thesis by blast
  qed auto
qed

lemma branch_one_steps:
  assumes inv: "imap_inv E (snd st)" and fu: "free_uncached E (snd st)" and small: "refs_small E (snd st)"
    and used: "cf_block cf (ci i st) \<noteq> BLOCK_SPARSE \<Longrightarrow> wbit E (snd st) (cf_block cf (ci i st))"
    and run: "BranchOneBlock E i cf fB fl st = Some (Inr (), t)"
  shows "if cf_block cf (ci i st) \<noteq> BLOCK_SPARSE \<and> \<not> cbit E (snd st) (cf_block cf (ci i st))
    then cf_block cf (ci i t) = cf_block cf (ci i st) \<and> imap_inv E (snd t) \<and> free_uncached E (snd t) \<and>
      same_map (snd st) (snd t)
    else branched_to E (cf_block cf (ci i st)) (cf_block cf (ci i t)) (snd st) (snd t)"
proof -
  let ?prev = "cf_block cf (ci i st)" and ?s = "snd st"
  define state where "state = (if ?prev = BLOCK_SPARSE then ALLOCSTATE_FREE else alloc_state (wbit E ?s ?prev) (cbit E ?s ?prev))"
  have "?prev \<noteq> BLOCK_SPARSE \<Longrightarrow> \<not> imap_range_invalid ?prev ?s"
    using run by (auto simp: BranchOneBlock_def RedImapBlockState_def bindE_def liftF_def split: prod.splits if_splits)
  then have st: "(if ?prev \<noteq> BLOCK_SPARSE then liftF (RedImapBlockState E ?prev) else okE ALLOCSTATE_FREE) st = Some (Inr state, st)"
    using RedImapBlockState_ok [OF inv] by (simp add: liftF_Inr state_def)
  have new: "state = ALLOCSTATE_NEW \<longleftrightarrow> ?prev \<noteq> BLOCK_SPARSE \<and> \<not> cbit E ?s ?prev"
    using used by (auto simp: state_def alloc_state_def)
  have cb: "bindE (if ?prev \<noteq> BLOCK_SPARSE then liftF (RedImapBlockState E ?prev) else okE ALLOCSTATE_FREE) f st = f state st"
    for f :: "_ \<Rightarrow> ('a, unit) iop" by (simp only: bindE_def st option.case prod.case sum.case)
  show ?thesis
  proof (cases "state = ALLOCSTATE_NEW")
    case True
    then have "branch_new E i cf fB ?prev fl st = Some (Inr (), t)"
      using run by (simp add: BranchOneBlock_def cb)
    note n = branch_new_steps [OF this]
    have m: "imap_inv E (snd t) \<and> same_map ?s (snd t) \<and> (\<forall>c. c \<noteq> ?prev \<longrightarrow> uncached E c ?s \<longrightarrow> uncached E c (snd t))"
      using n
    proof (elim conjE disjE exE)
      fix p assume d: "snd t = RedBufferDirty E p ?s"
      show ?thesis unfolding d using dirty_effect [OF inv, where p = p] by blast
    next
      fix p assume g: "RedBufferGet E ?prev (fl OR BFLAG_DIRTY) ?s = Some (Inr p, snd t)"
      show ?thesis using get_effect [OF inv small g] by blast
    qed (use inv in \<open>simp add: same_map_def\<close>)
    have "c \<noteq> ?prev" if "ifree E ?s c" for c using that True new used by (auto simp: ifree_def)
    then have "free_uncached E (snd t)"
      using fu m by (auto simp: free_uncached_def same_map_bits [of "snd st" "snd t" E])
    then show ?thesis using m n new True by simp
  next
    case False
    then have "bindE (liftF (RedImapAllocBlock E)) (\<lambda>b. thenE (modE (upd_ci i (set_cf_block cf b)))
         (if ?prev = BLOCK_SPARSE then branch_sparse E i cf fB b fl else branch_used E i cf fB ?prev b fl)) st = Some (Inr (), t)"
      using run by (simp add: BranchOneBlock_def cb)
    then obtain b u where l: "liftF (RedImapAllocBlock E) st = Some (Inr b, u)"
      and r: "(if ?prev = BLOCK_SPARSE then branch_sparse E i cf fB b fl else branch_used E i cf fB ?prev b fl)
        (upd_ci i (set_cf_block cf b) u) = Some (Inr (), t)"
      by (auto elim!: bindE_eq_SomeE)
    from l have al: "RedImapAllocBlock E ?s = Some (Inr b, snd u)" by (simp add: liftF_Inr)
    show ?thesis
    proof (cases "?prev = BLOCK_SPARSE")
      case True
      with r have "branch_sparse E i cf fB b fl (upd_ci i (set_cf_block cf b) u) = Some (Inr (), t)" by simp
      from branch_sparse_steps [OF this] obtain w where w: "use_reserved_block E (snd u) = Some (Inr (), w)"
        and g: "snd t = w \<or> (\<exists>p. RedBufferGet E b (fl OR BFLAG_NEW OR BFLAG_DIRTY) w = Some (Inr p, snd t))"
        and b: "cf_block cf (ci i t) = b" by auto
      from sparse_steps [OF inv fu small al w g] True b show ?thesis by simp
    next
      case ns: False
      with r have "branch_used E i cf fB ?prev b fl (upd_ci i (set_cf_block cf b) u) = Some (Inr (), t)" by simp
      from branch_used_steps [OF this] obtain w where w: "RedImapBlockSet E ?prev False w = Some (Inr (), snd t)"
        and g: "w = snd u \<or> (\<exists>x p. (x = snd u \<or> (\<exists>q. RedBufferGet E ?prev fl (snd u) = Some (Inr q, x))) \<and> w = RedBufferBranch E p b x)"
        and b: "cf_block cf (ci i t) = b" by auto
      have c: "cbit E ?s ?prev" using False new ns by simp
      from used_steps [OF inv fu small al g w used [OF ns] c ns] b c show ?thesis by simp
    qed
  qed
qed


section \<open>Instances\<close>

text \<open>A file with a hole on the concrete volume, none of whose blocks is in use.\<close>

definition demo_hole :: "ramdisk ist" where
  "demo_hole = (fst demo_open, demo_map 0 9)"


end
