(* ===== verification/Red_Truncate.thy ===== *)
theory Red_Truncate
  imports Red_Branch
begin

text \<open>
  Changing the size of a file, from \<^verbatim>\<open>core/driver/inodedata.c\<close>: truncation, with the freeing of
  the indirect nodes that become empty, and the preparation of an expansion.
\<close>

section \<open>Freeing a block\<close>

text \<open>
  \<^verbatim>\<open>pulBlock\<close> points to an entry of the node in the buffer \<open>f\<close>; \<open>g\<close> reads that entry and \<open>u\<close>
  writes it.
\<close>

definition TruncDataBlock :: "'d env \<Rightarrow> inoptr \<Rightarrow> (CINODE \<Rightarrow> nat option) \<Rightarrow> (bytes \<Rightarrow> u32) \<Rightarrow> (u32 \<Rightarrow> bytes \<Rightarrow> bytes) \<Rightarrow>
    bool \<Rightarrow> ('d, unit) iop" where
  "TruncDataBlock E i f g u fPropagate = (\<lambda>st.
     if \<not> CINODE_IS_MOUNTED i st then errE RED_EINVAL st
     else bindE (readI E f i g) (\<lambda>ulBlock.
       if ulBlock = BLOCK_SPARSE then okE ()
       else thenE (liftF (RedImapBlockSet E ulBlock False))
         (thenE (whenE (REDCONF_INODE_BLOCKS E)
             (bindE (readI E ci_pInodeBuf i ino_ulBlocks) (\<lambda>n.
              if n = 0 then thenE (liftF CRITICAL_ERROR) (errE RED_EFUBAR)
              else writeI E ci_pInodeBuf i (put32 ino_off_ulBlocks (n - 1)))))
           (whenE fPropagate (writeI E f i (u BLOCK_SPARSE))))) st)"

section \<open>Indirect nodes\<close>

text \<open>One of the first \<open>n\<close> entries of the node is in use.\<close>

definition any_entry :: "nat \<Rightarrow> bytes \<Rightarrow> bool" where
  "any_entry n b \<longleftrightarrow> (\<exists>k \<in> set [0..<n]. indir_entry k b \<noteq> BLOCK_SPARSE)"

text \<open>A node of which no entry is looked at is not followed.\<close>

definition any_entry_of :: "'d env \<Rightarrow> (CINODE \<Rightarrow> nat option) \<Rightarrow> inoptr \<Rightarrow> nat \<Rightarrow> ('d, bool) iop" where
  "any_entry_of E f i n = (if n = 0 then okE False else readI E f i (any_entry n))"

text \<open>The entries from \<open>uEntry\<close>, of which \<open>n\<close> are left.\<close>

fun trunc_entries :: "'d env \<Rightarrow> inoptr \<Rightarrow> bool \<Rightarrow> nat \<Rightarrow> nat \<Rightarrow> ('d, unit) iop" where
  "trunc_entries E i fBranch uEntry 0 = okE ()"
| "trunc_entries E i fBranch uEntry (Suc n) =
     thenE (TruncDataBlock E i ci_pIndir (indir_entry uEntry) (put_indir_entry uEntry) fBranch)
       (trunc_entries E i fBranch (Suc uEntry) n)"

definition TruncIndir :: "'d env \<Rightarrow> inoptr \<Rightarrow> ('d, bool) iop" where
  "TruncIndir E i = (\<lambda>st.
     if \<not> CINODE_IS_MOUNTED i st then errE RED_EINVAL st
     else if ci_pIndir (ci i st) = None then okE False st
     else bindE (any_entry_of E ci_pIndir i (unat (ci_uIndirEntry (ci i st)))) (\<lambda>fBranch.
       thenE (whenE fBranch (BranchBlock E i BRANCHDEPTH_INDIR False))
         (bindE (getE (ci i)) (\<lambda>c.
          let ulIndirEntriesMax = INODE_DATA_BLOCKS E - (ci_ulLogicalBlock c - ucast (ci_uIndirEntry c));
              uIndirEntries = ucast (min (INDIR_ENTRIES E) ulIndirEntriesMax) :: u16
          in thenE (trunc_entries E i fBranch (unat (ci_uIndirEntry c)) (unat uIndirEntries - unat (ci_uIndirEntry c)))
               (if fBranch then okE False
                else thenE (RedInodePutIndir E i)
                  (bindE (getE (\<lambda>st. ci_ulIndirBlock (ci i st))) (\<lambda>b.
                   thenE (liftF (RedImapBlockSet E b False)) (okE True))))))) st)"

text \<open>The loop over the entries of the double indirect node, with the file block of the entry.\<close>

definition trunc_dindir_entry :: "'d env \<Rightarrow> inoptr \<Rightarrow> bool \<Rightarrow> u16 \<Rightarrow> u32 \<Rightarrow> ('d, u32) iop" where
  "trunc_dindir_entry E i fBranch uEntry ulBlock =
     thenE (ignoreE RED_ENODATA (SeekInode E i ulBlock))
       (bindE (getE (\<lambda>st. ci_ulIndirBlock (ci i st) \<noteq> BLOCK_SPARSE)) (\<lambda>used.
        thenE (whenE used
            (bindE (TruncIndir E i) (\<lambda>fIndirFreed.
             whenE (fBranch \<and> fIndirFreed)
               (writeI E ci_pDindir i (put_indir_entry (unat uEntry) BLOCK_SPARSE)))))
          (getE (\<lambda>st. ulBlock + (INDIR_ENTRIES E - ucast (ci_uIndirEntry (ci i st)))))))"

fun trunc_dindir_entries :: "'d env \<Rightarrow> inoptr \<Rightarrow> bool \<Rightarrow> u16 \<Rightarrow> u32 \<Rightarrow> nat \<Rightarrow> ('d, unit) iop" where
  "trunc_dindir_entries E i fBranch uEntry ulBlock 0 = okE ()"
| "trunc_dindir_entries E i fBranch uEntry ulBlock (Suc n) =
     bindE (trunc_dindir_entry E i fBranch uEntry ulBlock) (\<lambda>ulBlock.
       trunc_dindir_entries E i fBranch (uEntry + 1) ulBlock n)"

text \<open>The number of entries of the double indirect node that a file can use.\<close>

definition dindir_entries :: "'d env \<Rightarrow> CINODE \<Rightarrow> u16" where
  "dindir_entries E c =
     (let ulDindirOffset = ucast (ci_uIndirEntry c) + ucast (ci_uDindirEntry c) * INDIR_ENTRIES E;
          ulDindirDataBlock = ci_ulLogicalBlock c - ulDindirOffset;
          ulBlocksTillMax = INODE_DATA_BLOCKS E - ulDindirDataBlock;
          ulDindirEntriesMax = ulBlocksTillMax div INDIR_ENTRIES E +
            (if ulBlocksTillMax mod INDIR_ENTRIES E \<noteq> 0 then 1 else 0)
      in ucast (min (INDIR_ENTRIES E) ulDindirEntriesMax))"

definition dindir_keeps :: "'d env \<Rightarrow> inoptr \<Rightarrow> ('d, bool) iop" where
  "dindir_keeps E i =
     bindE (getE (ci i)) (\<lambda>c.
     bindE (any_entry_of E ci_pDindir i (unat (ci_uDindirEntry c))) (\<lambda>fBranch.
     if fBranch then okE True
     else bindE (cur_dindir_entry E i) (\<lambda>b.
       if b \<noteq> BLOCK_SPARSE then any_entry_of E ci_pIndir i (unat (ci_uIndirEntry c))
       else okE False)))"

definition TruncDindir :: "'d env \<Rightarrow> inoptr \<Rightarrow> ('d, bool) iop" where
  "TruncDindir E i = (\<lambda>st.
     if \<not> CINODE_IS_MOUNTED i st then errE RED_EINVAL st
     else if ci_pDindir (ci i st) = None then okE False st
     else bindE (dindir_keeps E i) (\<lambda>fBranch.
       thenE (whenE fBranch (BranchBlock E i BRANCHDEPTH_DINDIR False))
         (bindE (getE (ci i)) (\<lambda>c.
          thenE (trunc_dindir_entries E i fBranch (ci_uDindirEntry c) (ci_ulLogicalBlock c)
                   (unat (dindir_entries E c) - unat (ci_uDindirEntry c)))
            (if fBranch then okE False
             else thenE (RedInodePutDindir E i)
               (bindE (getE (\<lambda>st. ci_ulDindirBlock (ci i st))) (\<lambda>b.
                thenE (liftF (RedImapBlockSet E b False)) (okE True))))))) st)"

section \<open>Shrinking\<close>

fun shrink_direct :: "'d env \<Rightarrow> inoptr \<Rightarrow> u32 \<Rightarrow> nat \<Rightarrow> ('d, u32) iop" where
  "shrink_direct E i ulTruncBlock 0 = okE ulTruncBlock"
| "shrink_direct E i ulTruncBlock (Suc n) =
     thenE (TruncDataBlock E i ci_pInodeBuf (ino_entry E (unat ulTruncBlock)) (put_ino_entry E (unat ulTruncBlock)) True)
       (shrink_direct E i (ulTruncBlock + 1) n)"

definition shrink_indir_turn :: "'d env \<Rightarrow> inoptr \<Rightarrow> u32 \<Rightarrow> ('d, u32) iop" where
  "shrink_indir_turn E i ulTruncBlock =
     thenE (ignoreE RED_ENODATA (SeekInode E i ulTruncBlock))
       (bindE (TruncIndir E i) (\<lambda>fFreed.
        bindE (getE (ci i)) (\<lambda>c.
        thenE (whenE fFreed (writeI E ci_pInodeBuf i (put_ino_entry E (unat (ci_uInodeEntry c)) BLOCK_SPARSE)))
          (okE (ulTruncBlock + (INDIR_ENTRIES E - ucast (ci_uIndirEntry c)))))))"

definition shrink_dindir_turn :: "'d env \<Rightarrow> inoptr \<Rightarrow> u32 \<Rightarrow> ('d, u32) iop" where
  "shrink_dindir_turn E i ulTruncBlock =
     thenE (ignoreE RED_ENODATA (SeekInode E i ulTruncBlock))
       (bindE (getE (ci i)) (\<lambda>orig.
        bindE (TruncDindir E i) (\<lambda>fFreed.
        thenE (whenE fFreed (writeI E ci_pInodeBuf i (put_ino_entry E (unat (ci_uInodeEntry orig)) BLOCK_SPARSE)))
          (let ulDataBlocks = (DINDIR_DATA_BLOCKS E - ucast (ci_uDindirEntry orig) * INDIR_ENTRIES E)
                 - ucast (ci_uIndirEntry orig)
           in okE (ulTruncBlock + min ulDataBlocks (INODE_DATA_BLOCKS E - ulTruncBlock))))))"

definition blocks_of_size :: "'d env \<Rightarrow> u64 \<Rightarrow> u32" where
  "blocks_of_size E ullSize = ucast (drop_bit (BLOCK_SIZE_P2 E) (ullSize + ucast (REDCONF_BLOCK_SIZE E) - 1))"

definition Shrink :: "'d env \<Rightarrow> inoptr \<Rightarrow> u64 \<Rightarrow> ('d, unit) iop" where
  "Shrink E i ullSize = (\<lambda>st.
     if \<not> CINODE_IS_MOUNTED i st \<or> (ullSize > 0 \<and> \<not> ci_fDirty (ci i st)) then errE RED_EINVAL st
     else
       let ulTruncBlock = blocks_of_size E ullSize in
       thenE (RedInodePutData E i)
         (bindE (shrink_direct E i ulTruncBlock (unat (REDCONF_DIRECT_POINTERS E) - unat ulTruncBlock)) (\<lambda>b.
          bindE (whileE (\<lambda>b _. REDCONF_INDIRECT_POINTERS E > 0 \<and>
                    b < REDCONF_DIRECT_POINTERS E + INODE_INDIR_BLOCKS E) (shrink_indir_turn E i) b) (\<lambda>b.
          thenE (whileE (\<lambda>b _. DINDIRS_EXIST E \<and> b < INODE_DATA_BLOCKS E) (shrink_dindir_turn E i) b)
            (okE ())))) st)"

definition BLOCK_OFFSET :: "'d env \<Rightarrow> u64 \<Rightarrow> u32" where
  "BLOCK_OFFSET E n = ucast (n AND (ucast (REDCONF_BLOCK_SIZE E) - 1))"

definition ExpandPrepare :: "'d env \<Rightarrow> inoptr \<Rightarrow> ('d, unit) iop" where
  "ExpandPrepare E i = (\<lambda>st.
     if \<not> CINODE_IS_DIRTY i st then errE RED_EINVAL st
     else bindE (readI E ci_pInodeBuf i ino_ullSize) (\<lambda>ullSize.
       let ulOldSizeByteInBlock = BLOCK_OFFSET E ullSize in
       if ulOldSizeByteInBlock = 0 then okE ()
       else statusE (SeekInode E i (ucast (drop_bit (BLOCK_SIZE_P2 E) ullSize))) (\<lambda>ret.
         if ret = Inl RED_ENODATA then okE ()
         else thenE (returnE ret)
           (thenE (BranchBlock E i BRANCHDEPTH_FILE_DATA True)
             (writeI E ci_pbData i (overwrite (unat ulOldSizeByteInBlock)
                (replicate (unat (REDCONF_BLOCK_SIZE E - ulOldSizeByteInBlock)) 0)))))) st)"

definition RedInodeDataTruncate :: "'d env \<Rightarrow> inoptr \<Rightarrow> u64 \<Rightarrow> ('d, unit) iop" where
  "RedInodeDataTruncate E i ullSize = (\<lambda>st.
     if \<not> CINODE_IS_MOUNTED i st then errE RED_EINVAL st
     else if ullSize > INODE_SIZE_MAX E then errE RED_EFBIG st
     else bindE (readI E ci_pInodeBuf i ino_ullSize) (\<lambda>ullOld.
       thenE (if ullSize > ullOld then ExpandPrepare E i
              else if ullSize < ullOld then Shrink E i ullSize
              else okE ())
         (writeI E ci_pInodeBuf i (put64 ino_off_ullSize ullSize))) st)"

end
