(* ===== verification/Red_InodeLife.thy ===== *)
theory Red_InodeLife
  imports Red_Truncate
begin

text \<open>
  The life of an inode: its deletion when the last link goes, the lists of orphans of
  \<^verbatim>\<open>core/driver/volume.c\<close> (inodes that were deleted while they were open), and the creation of
  an inode, from \<^verbatim>\<open>core/driver/inode.c\<close>; and, as it deletes the orphans, the mount of a volume.
\<close>

definition FTYPE_ANY :: "'d env \<Rightarrow> FTYPE" where
  "FTYPE_ANY E = (if REDCONF_API_POSIX E then FTYPE_FILE OR FTYPE_DIR OR (if REDCONF_API_POSIX_SYMLINK E then FTYPE_SYMLINK else 0)
     else FTYPE_FILE)"

definition FTYPE_NOTDIR :: "'d env \<Rightarrow> FTYPE" where
  "FTYPE_NOTDIR E = (if REDCONF_API_POSIX E \<and> REDCONF_API_POSIX_SYMLINK E then FTYPE_FILE OR FTYPE_SYMLINK else FTYPE_FILE)"

section \<open>Deletion\<close>

definition InodeDelete :: "'d env \<Rightarrow> inoptr \<Rightarrow> ('d, unit) iop" where
  "InodeDelete E i = (\<lambda>st.
     if \<not> CINODE_IS_MOUNTED i st then errE RED_EINVAL st
     else bindE (readI E ci_pInodeBuf i ino_ullSize) (\<lambda>ullSize.
       thenE (whenE (ullSize \<noteq> 0) (RedInodeDataTruncate E i 0))
         (RedInodeFree E i)) st)"

text \<open>The metaroot's list of the inodes deleted while open since the volume was mounted.\<close>

definition mr_ulDefunctOrphanHead :: "bytes \<Rightarrow> u32" where "mr_ulDefunctOrphanHead = get32 mr_off_ulDefunctOrphanHead"
definition mr_ulOrphanHead :: "bytes \<Rightarrow> u32" where "mr_ulOrphanHead = get32 mr_off_ulOrphanHead"
definition mr_ulOrphanTail :: "bytes \<Rightarrow> u32" where "mr_ulOrphanTail = get32 mr_off_ulOrphanTail"

definition orphan_inode :: "'d env \<Rightarrow> inoptr \<Rightarrow> ('d, unit) iop" where
  "orphan_inode E i =
     thenE (whenE (REDCONF_API_POSIX_LINK E) (writeI E ci_pInodeBuf i (put16 (ino_off_uNLink E) 0)))
       (thenE (writeI E ci_pInodeBuf i (put32 (ino_off_ulPInode E) INODE_INVALID))
         (bindE (getE (\<lambda>st. (ci_ulInode (ci i st), gpRedMR (snd st)))) (\<lambda>(ulInode, mr).
          thenE (whenE (mr_ulOrphanTail mr = INODE_INVALID) (modF (upd_MR (put32 mr_off_ulOrphanTail ulInode))))
            (thenE (writeI E ci_pInodeBuf i (put32 (ino_off_ulNextOrphan E) (mr_ulOrphanHead mr)))
              (modF (upd_MR (put32 mr_off_ulOrphanHead ulInode)))))))"

definition RedInodeLinkDec :: "'d env \<Rightarrow> inoptr \<Rightarrow> bool \<Rightarrow> ('d, unit) iop" where
  "RedInodeLinkDec E i fOrphan = (\<lambda>st.
     if \<not> CINODE_IS_MOUNTED i st then errE RED_EINVAL st
     else bindE (readI E ci_pInodeBuf i (ino_uNLink E)) (\<lambda>uNLink.
       if REDCONF_API_POSIX_LINK E \<and> uNLink > 1 then
         thenE (RedInodeBranch E i)
           (writeI E ci_pInodeBuf i (\<lambda>b. put16 (ino_off_uNLink E) (ino_uNLink E b - 1) b))
       else if REDCONF_DELETE_OPEN E \<and> fOrphan then
         thenE (RedInodeBranch E i) (orphan_inode E i)
       else InodeDelete E i) st)"

definition RedInodeFreeOrphan :: "'d env \<Rightarrow> inoptr \<Rightarrow> ('d, unit) iop" where
  "RedInodeFreeOrphan E i = (\<lambda>st.
     if \<not> CINODE_IS_MOUNTED i st then errE RED_EINVAL st
     else bindE (readI E ci_pInodeBuf i (\<lambda>b. (ino_uNLink E b, ino_ulPInode E b))) (\<lambda>(uNLink, ulPInode).
       if REDCONF_API_POSIX_LINK E \<and> uNLink \<noteq> 0 then thenE (liftF CRITICAL_ERROR) (errE RED_EFUBAR)
       else if ulPInode \<noteq> INODE_INVALID then thenE (liftF CRITICAL_ERROR) (errE RED_EFUBAR)
       else InodeDelete E i) st)"

section \<open>The lists of orphans\<close>

text \<open>
  The open inodes on the stack of the code have places of their own in the store of open
  inodes, one for each function and variable. Before it mounts one, the code sets its inode
  number and leaves the rest as it is: whatever the store holds there.
\<close>

definition set_ino :: "inoptr \<Rightarrow> u32 \<Rightarrow> ('d, unit) iop" where
  "set_ino i ulInode = modE (upd_ci i (\<lambda>c. c\<lparr>ci_ulInode := ulInode\<rparr>))"

definition INO_FREE_ORPHANS :: inoptr where "INO_FREE_ORPHANS = 101"
definition INO_CONCAT :: inoptr where "INO_CONCAT = 102"

fun free_orphans :: "'d env \<Rightarrow> nat \<Rightarrow> ('d, unit) iop" where
  "free_orphans E 0 = okE ()"
| "free_orphans E (Suc n) =
     bindE (getF (\<lambda>s. mr_ulDefunctOrphanHead (gpRedMR s))) (\<lambda>ulHead.
     thenE (set_ino INO_FREE_ORPHANS ulHead)
       (thenE (RedInodeMount E INO_FREE_ORPHANS (FTYPE_ANY E) False)
         (bindE (readI E ci_pInodeBuf INO_FREE_ORPHANS (ino_ulNextOrphan E)) (\<lambda>ulNextInode.
          thenE (RedInodeFreeOrphan E INO_FREE_ORPHANS)
            (thenE (modF (upd_MR (put32 mr_off_ulDefunctOrphanHead ulNextInode)))
              (free_orphans E n))))))"

definition RedVolFreeOrphans :: "'d env \<Rightarrow> u32 \<Rightarrow> ('d, unit) iop" where
  "RedVolFreeOrphans E ulCount =
     (if ulCount = 0 then errE RED_EINVAL
      else statusE (free_orphans E (unat ulCount)) (\<lambda>ret.
        if ret = Inl RED_EBADF then
          bindE (getF (\<lambda>s. mr_ulDefunctOrphanHead (gpRedMR s))) (\<lambda>ulHead.
          if ulHead = INODE_INVALID then okE ()
          else thenE (liftF CRITICAL_ERROR) (errE RED_EFUBAR))
        else returnE ret))"

text \<open>The list of orphans becomes the list of defunct orphans.\<close>

definition take_orphans :: "bytes \<Rightarrow> bytes" where
  "take_orphans mr = put32 mr_off_ulOrphanTail INODE_INVALID (put32 mr_off_ulOrphanHead INODE_INVALID
     (put32 mr_off_ulDefunctOrphanHead (mr_ulOrphanHead mr) mr))"

definition ConcatOrphanLists :: "'d env \<Rightarrow> ('d, unit) iop" where
  "ConcatOrphanLists E =
     bindE (getF (\<lambda>s. mr_ulOrphanTail (gpRedMR s))) (\<lambda>ulTail.
     thenE (set_ino INO_CONCAT ulTail)
       (thenE (RedInodeMount E INO_CONCAT (FTYPE_ANY E) True)
         (finallyE
           (bindE (readI E ci_pInodeBuf INO_CONCAT (ino_ulNextOrphan E)) (\<lambda>ulNext.
            if ulNext \<noteq> INODE_INVALID then thenE (liftF CRITICAL_ERROR) (errE RED_EFUBAR)
            else bindE (getF (\<lambda>s. mr_ulDefunctOrphanHead (gpRedMR s))) (\<lambda>ulHead.
              thenE (writeI E ci_pInodeBuf INO_CONCAT (put32 (ino_off_ulNextOrphan E) ulHead))
                (modF (upd_MR take_orphans)))))
           (RedInodePut E INO_CONCAT 0))))"

section \<open>The mount of a volume\<close>

definition mount_orphans :: "'d env \<Rightarrow> u32 \<Rightarrow> ('d, unit) iop" where
  "mount_orphans E ulFlags =
     (if ulFlags AND RED_MOUNT_SKIP_DELETE = 0 then
        thenE (RedVolFreeOrphans E (- 1))
          (thenE (modF (upd_MR take_orphans)) (RedVolFreeOrphans E (- 1)))
      else bindE (getF gpRedMR) (\<lambda>mr.
        if mr_ulDefunctOrphanHead mr = INODE_INVALID then modF (upd_MR take_orphans)
        else if mr_ulOrphanHead mr \<noteq> INODE_INVALID then ConcatOrphanLists E
        else okE ()))"

definition RedVolMount :: "'d env \<Rightarrow> u32 \<Rightarrow> ('d, unit) iop" where
  "RedVolMount E ulFlags =
     (if ulFlags \<noteq> ulFlags AND RED_MOUNT_MASK E then errE RED_EINVAL
      else bindE (getF gbRedVolNum) (\<lambda>v.
        thenE (liftF (RedBDevOpen E v (if ulFlags AND RED_MOUNT_READONLY = 0 then BDEV_O_RDWR else BDEV_O_RDONLY)))
          (statusE
            (thenE (liftF (RedVolInitBlockGeometry E))
              (thenE (liftF (RedVolMountMaster E ulFlags))
                (thenE (liftF (RedVolMountMetaroot E ulFlags))
                  (whenE (DELETE_SUPPORTED E \<and> REDCONF_DELETE_OPEN E) (mount_orphans E ulFlags)))))
            (\<lambda>ret.
              if is_ok ret then returnE ret
              else finallyE (returnE ret)
                (statusE (bindE (getF (\<lambda>s. vol_ulBlockCount (gpRedVolume s))) (\<lambda>n.
                    liftF (RedBufferDiscardRange E 0 n)))
                  (\<lambda>_. liftF (RedBDevClose E v)))))))"

section \<open>Creation\<close>

definition RED_S_ISUID :: u16 where "RED_S_ISUID = 0x800"
definition RED_S_ISGID :: u16 where "RED_S_ISGID = 0x400"

definition RED_S_IALLUGO :: u16 where
  "RED_S_IALLUGO = RED_S_ISUID OR RED_S_ISGID OR RED_S_ISVTX OR
     RED_S_IRUSR OR RED_S_IWUSR OR RED_S_IXUSR OR RED_S_IRGRP OR RED_S_IWGRP OR RED_S_IXGRP OR
     RED_S_IROTH OR RED_S_IWOTH OR RED_S_IXOTH"

definition RED_S_IFVALID :: "'d env \<Rightarrow> u16" where
  "RED_S_IFVALID E =
     (if REDCONF_API_POSIX E \<and> REDCONF_POSIX_OWNER_PERM E
      then RED_S_IFMT (REDCONF_API_POSIX_SYMLINK E) OR RED_S_IALLUGO
      else RED_S_IFMT (REDCONF_API_POSIX_SYMLINK E))"

text \<open>The parent is a pointer that may be null.\<close>

definition create_args_invalid :: "'d env \<Rightarrow> inoptr \<Rightarrow> inoptr option \<Rightarrow> u16 \<Rightarrow> 'd ist \<Rightarrow> bool" where
  "create_args_invalid E i pPInode uMode st \<longleftrightarrow>
     (let fmt = uMode AND RED_S_IFMT (REDCONF_API_POSIX_SYMLINK E) in
      (case pPInode of None \<Rightarrow> ci_ulInode (ci i st) \<noteq> INODE_ROOTDIR | Some p \<Rightarrow> \<not> CINODE_IS_MOUNTED p st) \<or>
      uMode AND NOT (RED_S_IFVALID E) \<noteq> 0 \<or>
      (fmt \<noteq> RED_S_IFREG \<and> fmt \<noteq> RED_S_IFDIR \<and> \<not> (REDCONF_API_POSIX_SYMLINK E \<and> fmt = RED_S_IFLNK)))"

text \<open>The number of the new inode: a given one, or any that is free, if need be an orphan's.\<close>

definition create_number :: "'d env \<Rightarrow> inoptr \<Rightarrow> u32 \<Rightarrow> ('d, unit) iop" where
  "create_number E i ulInode =
     (if REDCONF_API_POSIX E \<and> ulInode = INODE_INVALID then
        statusE (liftF (InodeFindFree E)) (\<lambda>ret. case ret of
            Inr n \<Rightarrow> modE (upd_ci i (\<lambda>c. c\<lparr>ci_ulInode := n\<rparr>))
          | Inl e \<Rightarrow>
              bindE (getF (\<lambda>s. mr_ulDefunctOrphanHead (gpRedMR s))) (\<lambda>ulHead.
              if DELETE_SUPPORTED E \<and> REDCONF_DELETE_OPEN E \<and> e = RED_ENFILE \<and> ulHead \<noteq> INODE_INVALID then
                thenE (modE (upd_ci i (\<lambda>c. c\<lparr>ci_ulInode := ulHead\<rparr>))) (RedVolFreeOrphans E 1)
              else errE e))
      else bindE (getF (INODE_IS_VALID ulInode)) (\<lambda>valid.
        if \<not> valid then errE RED_EBADF
        else bindE (liftF (RedInodeIsFree E ulInode)) (\<lambda>fFree.
          if fFree then modE (upd_ci i (\<lambda>c. c\<lparr>ci_ulInode := ulInode\<rparr>)) else errE RED_EEXIST)))"

text \<open>The node of the new inode, which is marked in the working state.\<close>

definition create_node :: "'d env \<Rightarrow> inoptr \<Rightarrow> ('d, unit) iop" where
  "create_node E i =
     bindE (getE (\<lambda>st. ci_ulInode (ci i st))) (\<lambda>ulInode.
     bindE (liftF (InodeGetWriteableCopy E ulInode)) (\<lambda>bWhich.
     bindE (liftF (\<lambda>s. RedBufferGet E (InodeBlock ulInode bWhich s) (BFLAG_META_INODE OR BFLAG_DIRTY OR BFLAG_NEW) s)) (\<lambda>p.
     thenE (modE (upd_ci i (\<lambda>c. c\<lparr>ci_pInodeBuf := Some p\<rparr>)))
       (statusE (liftF (InodeBitSet E ulInode bWhich True)) (\<lambda>ret.
          thenE (whenE (\<not> is_ok ret) (modF (RedBufferPut E p))) (returnE ret))))))"

definition create_owner :: "'d env \<Rightarrow> inoptr \<Rightarrow> inoptr option \<Rightarrow> ('d, unit) iop" where
  "create_owner E i pPInode =
     bindE (getF (\<lambda>s. (osp_UserId (RedOsIdentity E (os s)), RedOsGroupId E (os s)))) (\<lambda>(uid, gid).
     thenE (writeI E ci_pInodeBuf i (put32 (ino_off_ulUID E) uid))
       (case pPInode of
          None \<Rightarrow> writeI E ci_pInodeBuf i (put32 (ino_off_ulGID E) gid)
        | Some p \<Rightarrow>
            bindE (readI E ci_pInodeBuf p (\<lambda>b. (ino_uMode E b, ino_ulGID E b))) (\<lambda>(uPMode, ulPGid).
            if uPMode AND RED_S_ISGID = 0 then writeI E ci_pInodeBuf i (put32 (ino_off_ulGID E) gid)
            else thenE (writeI E ci_pInodeBuf i (put32 (ino_off_ulGID E) ulPGid))
              (bindE (getE (\<lambda>st. ci_fDirectory (ci i st))) (\<lambda>dir.
               whenE dir (writeI E ci_pInodeBuf i
                 (\<lambda>b. put16 (ino_off_uMode E) (ino_uMode E b OR RED_S_ISGID) b)))))))"

definition create_fields :: "'d env \<Rightarrow> inoptr \<Rightarrow> inoptr option \<Rightarrow> u16 \<Rightarrow> ('d, unit) iop" where
  "create_fields E i pPInode uMode =
     thenE (whenE (REDCONF_INODE_TIMESTAMPS E) (bindE (getF (\<lambda>s. RedOsClockGetTime E (os s))) (\<lambda>ulNow.
         writeI E ci_pInodeBuf i (put32 (ino_off_ulCTime E) ulNow \<circ> put32 (ino_off_ulMTime E) ulNow \<circ>
           put32 (ino_off_ulATime E) ulNow))))
       (thenE (whenE (REDCONF_API_POSIX E)
           (thenE (whenE (REDCONF_API_POSIX_LINK E) (writeI E ci_pInodeBuf i (put16 (ino_off_uNLink E) 1)))
             (bindE (getE (\<lambda>st. case pPInode of None \<Rightarrow> INODE_INVALID | Some p \<Rightarrow> ci_ulInode (ci p st))) (\<lambda>ulPInode.
              thenE (writeI E ci_pInodeBuf i (put32 (ino_off_ulPInode E) ulPInode))
                (modE (upd_ci i (\<lambda>c. c\<lparr>ci_fDirectory := RED_S_ISDIR (REDCONF_API_POSIX_SYMLINK E) uMode\<rparr>)))))))
         (thenE (writeI E ci_pInodeBuf i (put16 (ino_off_uMode E) uMode))
           (thenE (whenE (REDCONF_API_POSIX E \<and> REDCONF_POSIX_OWNER_PERM E) (create_owner E i pPInode))
             (thenE (modE (upd_ci i (\<lambda>c. c\<lparr>ci_fBranched := True, ci_fDirty := True\<rparr>)))
               (whenE (REDCONF_API_POSIX E)
                 (modF (upd_MR (\<lambda>mr. put32 mr_off_ulFreeInodes (mr_ulFreeInodes mr - 1) mr))))))))"

definition RedInodeCreate :: "'d env \<Rightarrow> inoptr \<Rightarrow> inoptr option \<Rightarrow> u16 \<Rightarrow> ('d, unit) iop" where
  "RedInodeCreate E i pPInode uMode = (\<lambda>st.
     if REDCONF_API_POSIX E \<and> create_args_invalid E i pPInode uMode st then errE RED_EINVAL st
     else thenE (modE (upd_ci i (\<lambda>_. cinode_zero 0)))
       (thenE (create_number E i (ci_ulInode (ci i st)))
         (thenE (create_node E i) (create_fields E i pPInode uMode))) st)"

end
