(* ===== verification/Red_FileData.thy ===== *)
theory Red_FileData
  imports Red_Truncate
begin

text \<open>
  Reading and writing the data of a file, from \<^verbatim>\<open>core/driver/inodedata.c\<close>: partial blocks through
  the buffers, whole blocks past them, a run of adjacent blocks at a time, and the reservation
  of space. The caller's buffer is a list of bytes: a read returns the list with the bytes that
  were read put in their place.
\<close>

section \<open>Reading\<close>

definition BLOCK_OF :: "'d env \<Rightarrow> u64 \<Rightarrow> u32" where
  "BLOCK_OF E n = ucast (drop_bit (BLOCK_SIZE_P2 E) n)"

definition spans_blocks :: "'d env \<Rightarrow> u64 \<Rightarrow> u32 \<Rightarrow> bool" where
  "spans_blocks E ullStart ulLen \<longleftrightarrow>
     drop_bit (BLOCK_SIZE_P2 E) ullStart \<noteq> drop_bit (BLOCK_SIZE_P2 E) (ullStart + ucast ulLen - 1)"

definition ReadUnaligned :: "'d env \<Rightarrow> inoptr \<Rightarrow> u64 \<Rightarrow> u32 \<Rightarrow> ('d, bytes) iop" where
  "ReadUnaligned E i ullStart ulLen =
     (if spans_blocks E ullStart ulLen then errE RED_EINVAL
      else statusE (RedInodeDataSeekAndRead E i (BLOCK_OF E ullStart)) (\<lambda>ret.
        if ret = Inl RED_ENODATA then okE (replicate (unat ulLen) 0)
        else thenE (returnE ret)
          (readI E ci_pbData i (slice (unat (BLOCK_OFFSET E ullStart)) (unat ulLen)))))"

text \<open>A turn of the loop returns the length of the run and whether the loop was left.\<close>

definition extent_turn :: "'d env \<Rightarrow> inoptr \<Rightarrow> u32 \<Rightarrow> u32 \<Rightarrow> u32 \<times> bool \<Rightarrow> ('d, u32 \<times> bool) iop" where
  "extent_turn E i ulBlockStart ulFirstBlock = (\<lambda>(ulRunLen, left).
     statusE (SeekInode E i (ulBlockStart + ulRunLen)) (\<lambda>ret.
       if ret = Inl RED_ENODATA then okE (ulRunLen, True)
       else thenE (returnE ret)
         (bindE (getE (\<lambda>st. ci_ulDataBlock (ci i st))) (\<lambda>b.
          if b \<noteq> ulFirstBlock + ulRunLen then okE (ulRunLen, True)
          else okE (ulRunLen + 1, False)))))"

definition GetExtent :: "'d env \<Rightarrow> inoptr \<Rightarrow> u32 \<Rightarrow> u32 \<Rightarrow> ('d, u32 \<times> u32) iop" where
  "GetExtent E i ulBlockStart ulExtentLen =
     thenE (SeekInode E i ulBlockStart)
       (bindE (getE (\<lambda>st. ci_ulDataBlock (ci i st))) (\<lambda>ulFirstBlock.
        bindE (whileE (\<lambda>(ulRunLen, left) _. \<not> left \<and> ulRunLen < ulExtentLen)
                 (extent_turn E i ulBlockStart ulFirstBlock) (1, False)) (\<lambda>(ulRunLen, _).
        okE (ulFirstBlock, ulRunLen))))"

definition block_bytes :: "'d env \<Rightarrow> u32 \<Rightarrow> nat" where
  "block_bytes E n = unat (push_bit (BLOCK_SIZE_P2 E) n)"

definition read_turn :: "'d env \<Rightarrow> inoptr \<Rightarrow> u32 \<Rightarrow> u32 \<Rightarrow> u32 \<times> bytes \<Rightarrow> ('d, u32 \<times> bytes) iop" where
  "read_turn E i ulBlockStart ulBlockCount = (\<lambda>(ulBlockIndex, pbBuffer).
     let off = block_bytes E ulBlockIndex in
     statusE (GetExtent E i (ulBlockStart + ulBlockIndex) (ulBlockCount - ulBlockIndex)) (\<lambda>ret.
       case ret of
         Inr (ulExtentStart, ulExtentLen) \<Rightarrow>
           bindE (liftF (RedBufferReadRange E ulExtentStart ulExtentLen
               (slice off (block_bytes E ulExtentLen) pbBuffer))) (\<lambda>(ret, new).
             thenE (returnE ret) (okE (ulBlockIndex + ulExtentLen, overwrite off new pbBuffer)))
       | Inl e \<Rightarrow>
           if e = RED_ENODATA then okE (ulBlockIndex + 1, overwrite off (replicate (BSIZE E) 0) pbBuffer)
           else errE e))"

definition ReadAligned :: "'d env \<Rightarrow> inoptr \<Rightarrow> u32 \<Rightarrow> u32 \<Rightarrow> bytes \<Rightarrow> ('d, bytes) iop" where
  "ReadAligned E i ulBlockStart ulBlockCount pbBuffer =
     bindE (whileE (\<lambda>(ulBlockIndex, _) _. ulBlockIndex < ulBlockCount)
              (read_turn E i ulBlockStart ulBlockCount) (0, pbBuffer)) (\<lambda>(_, pbBuffer).
     okE pbBuffer)"

text \<open>The three parts of a read; the local variables are the index and the bytes that remain.\<close>

definition read_first :: "'d env \<Rightarrow> inoptr \<Rightarrow> u64 \<Rightarrow> u32 \<Rightarrow> bytes \<Rightarrow> ('d, u32 \<times> u32 \<times> bytes) iop" where
  "read_first E i ullStart ulRemaining pb =
     (if BLOCK_OFFSET E ullStart \<noteq> 0 then
        let ulThisRead = min ulRemaining (REDCONF_BLOCK_SIZE E - BLOCK_OFFSET E ullStart)
        in bindE (ReadUnaligned E i ullStart ulThisRead) (\<lambda>new.
           okE (ulThisRead, ulRemaining - ulThisRead, overwrite 0 new pb))
      else okE (0, ulRemaining, pb))"

definition read_middle :: "'d env \<Rightarrow> inoptr \<Rightarrow> u64 \<Rightarrow> u32 \<times> u32 \<times> bytes \<Rightarrow> ('d, u32 \<times> u32 \<times> bytes) iop" where
  "read_middle E i ullStart = (\<lambda>(ulReadIndex, ulRemaining, pb).
     if ulRemaining \<ge> REDCONF_BLOCK_SIZE E then
       let ulBlockCount = drop_bit (BLOCK_SIZE_P2 E) ulRemaining; n = push_bit (BLOCK_SIZE_P2 E) ulBlockCount
       in bindE (ReadAligned E i (BLOCK_OF E (ullStart + ucast ulReadIndex)) ulBlockCount
              (slice (unat ulReadIndex) (unat n) pb)) (\<lambda>new.
          okE (ulReadIndex + n, ulRemaining - n, overwrite (unat ulReadIndex) new pb))
     else okE (ulReadIndex, ulRemaining, pb))"

definition read_last :: "'d env \<Rightarrow> inoptr \<Rightarrow> u64 \<Rightarrow> u32 \<times> u32 \<times> bytes \<Rightarrow> ('d, bytes) iop" where
  "read_last E i ullStart = (\<lambda>(ulReadIndex, ulRemaining, pb).
     if ulRemaining > 0 then
       bindE (ReadUnaligned E i (ullStart + ucast ulReadIndex) ulRemaining) (\<lambda>new.
       okE (overwrite (unat ulReadIndex) new pb))
     else okE pb)"

definition RedInodeDataRead :: "'d env \<Rightarrow> inoptr \<Rightarrow> u64 \<Rightarrow> u32 \<Rightarrow> bytes \<Rightarrow> ('d, u32 \<times> bytes) iop" where
  "RedInodeDataRead E i ullStart ulLen pBuffer = (\<lambda>st.
     if \<not> CINODE_IS_MOUNTED i st then errE RED_EINVAL st
     else bindE (readI E ci_pInodeBuf i ino_ullSize) (\<lambda>ullSize.
       if ullStart \<ge> ullSize then okE (0, pBuffer)
       else if ulLen = 0 then okE (0, pBuffer)
       else let ulLen = (if ullSize - ullStart < ucast ulLen then ucast (ullSize - ullStart) else ulLen) in
         bindE (read_first E i ullStart ulLen pBuffer) (\<lambda>v.
         bindE (read_middle E i ullStart v) (\<lambda>v.
         bindE (read_last E i ullStart v) (\<lambda>pb.
         okE (ulLen, pb))))) st)"

section \<open>Writing\<close>

definition WriteUnaligned :: "'d env \<Rightarrow> inoptr \<Rightarrow> u64 \<Rightarrow> u32 \<Rightarrow> bytes \<Rightarrow> ('d, unit) iop" where
  "WriteUnaligned E i ullStart ulLen pbBuffer =
     (if spans_blocks E ullStart ulLen then errE RED_EINVAL
      else thenE (ignoreE RED_ENODATA (SeekInode E i (BLOCK_OF E ullStart)))
        (thenE (BranchBlock E i BRANCHDEPTH_FILE_DATA True)
          (writeI E ci_pbData i (overwrite (unat (BLOCK_OFFSET E ullStart)) (take (unat ulLen) pbBuffer)))))"

text \<open>
  The loop that branches blocks until they are no longer adjacent. Its local variables: the
  index, the block that ended the last run, the run, the status and whether the loop was left.
\<close>

record write_run =
  wr_i :: u32
  wr_ulNextDataBlock :: u32
  wr_ulExtentStart :: u32
  wr_ulExtentLen :: u32
  wr_ret :: "rederr + unit"
  wr_left :: bool

definition write_branch :: "'d env \<Rightarrow> inoptr \<Rightarrow> u32 \<Rightarrow> ('d, unit) iop" where
  "write_branch E i ulBlock =
     thenE (ignoreE RED_ENODATA (SeekInode E i ulBlock)) (BranchBlock E i BRANCHDEPTH_FILE_DATA False)"

definition write_run_turn :: "'d env \<Rightarrow> inoptr \<Rightarrow> u32 \<Rightarrow> write_run \<Rightarrow> ('d, write_run) iop" where
  "write_run_turn E i ulBlockStart w =
     statusE (if wr_ulNextDataBlock w = BLOCK_SPARSE then write_branch E i (ulBlockStart + wr_i w) else okE ()) (\<lambda>ret.
     let w = w\<lparr>wr_ulNextDataBlock := BLOCK_SPARSE, wr_ret := ret\<rparr> in
     bindE (getE (\<lambda>st. ci_ulDataBlock (ci i st))) (\<lambda>b.
       if \<not> is_ok ret then okE (w\<lparr>wr_i := wr_i w + 1\<rparr>)
       else if wr_ulExtentLen w = 0 then okE (w\<lparr>wr_ulExtentStart := b, wr_ulExtentLen := 1, wr_i := wr_i w + 1\<rparr>)
       else if b = wr_ulExtentStart w + wr_ulExtentLen w
       then okE (w\<lparr>wr_ulExtentLen := wr_ulExtentLen w + 1, wr_i := wr_i w + 1\<rparr>)
       else okE (w\<lparr>wr_ulNextDataBlock := b, wr_left := True\<rparr>)))"

text \<open>The outer loop: the blocks written, the block that ended the last run, and the status.\<close>

definition write_turn :: "'d env \<Rightarrow> inoptr \<Rightarrow> u32 \<Rightarrow> u32 \<Rightarrow> bytes \<Rightarrow> u32 \<times> u32 \<times> (rederr + unit) \<Rightarrow>
    ('d, u32 \<times> u32 \<times> (rederr + unit)) iop" where
  "write_turn E i ulBlockStart ulBlockCount pbBuffer = (\<lambda>(ulBlockIndex, ulNextDataBlock, ret).
     bindE (whileE (\<lambda>w _. wr_i w < ulBlockCount \<and> is_ok (wr_ret w) \<and> \<not> wr_left w) (write_run_turn E i ulBlockStart)
        \<lparr>wr_i = ulBlockIndex, wr_ulNextDataBlock = ulNextDataBlock, wr_ulExtentStart = BLOCK_SPARSE,
         wr_ulExtentLen = 0, wr_ret = ret, wr_left = False\<rparr>) (\<lambda>w.
     let fFull = (wr_ret w = Inl RED_ENOSPC \<and> wr_ulExtentLen w > 0) in
     if is_ok (wr_ret w) \<or> fFull then
       statusE (liftF (RedBufferWriteRange E (wr_ulExtentStart w) (wr_ulExtentLen w)
           (slice (block_bytes E ulBlockIndex) (block_bytes E (wr_ulExtentLen w)) pbBuffer))) (\<lambda>ret.
         okE (if is_ok ret then ulBlockIndex + wr_ulExtentLen w else ulBlockIndex, wr_ulNextDataBlock w,
              if is_ok ret \<and> fFull then Inl RED_ENOSPC else ret))
     else okE (ulBlockIndex, wr_ulNextDataBlock w, wr_ret w)))"

definition WriteAligned :: "'d env \<Rightarrow> inoptr \<Rightarrow> u32 \<Rightarrow> u32 \<Rightarrow> bytes \<Rightarrow> ('d, u32) iop" where
  "WriteAligned E i ulBlockStart ulBlockCount pbBuffer =
     thenE (RedInodePutData E i)
       (bindE (whileE (\<lambda>(ulBlockIndex, _, ret) _. is_ok ret \<and> ulBlockIndex < ulBlockCount)
                 (write_turn E i ulBlockStart ulBlockCount pbBuffer) (0, BLOCK_SPARSE, Inr ())) (\<lambda>(ulBlockIndex, _, ret).
        if ret = Inl RED_ENOSPC \<and> ulBlockIndex > 0 then okE ulBlockIndex
        else thenE (returnE ret) (okE ulBlockIndex)))"

text \<open>The three parts of a write; the local variables are the index and the bytes that remain.\<close>

definition write_first :: "'d env \<Rightarrow> inoptr \<Rightarrow> u64 \<Rightarrow> u32 \<Rightarrow> bytes \<Rightarrow> ('d, u32 \<times> u32) iop" where
  "write_first E i ullStart ulRemaining pb =
     (if BLOCK_OFFSET E ullStart \<noteq> 0 \<or> ulRemaining < REDCONF_BLOCK_SIZE E then
        let ulThisWrite = min ulRemaining (REDCONF_BLOCK_SIZE E - BLOCK_OFFSET E ullStart)
        in thenE (WriteUnaligned E i ullStart ulThisWrite pb) (okE (ulThisWrite, ulRemaining - ulThisWrite))
      else okE (0, ulRemaining))"

definition write_middle :: "'d env \<Rightarrow> inoptr \<Rightarrow> u64 \<Rightarrow> bytes \<Rightarrow> u32 \<times> u32 \<Rightarrow> ('d, u32 \<times> u32) iop" where
  "write_middle E i ullStart pb = (\<lambda>(ulWriteIndex, ulRemaining).
     if ulRemaining \<ge> REDCONF_BLOCK_SIZE E then
       let ulBlockCount = drop_bit (BLOCK_SIZE_P2 E) ulRemaining in
       statusE (WriteAligned E i (BLOCK_OF E (ullStart + ucast ulWriteIndex)) ulBlockCount
           (drop (unat ulWriteIndex) pb)) (\<lambda>ret.
         let ret = (if ret = Inl RED_ENOSPC \<and> ulWriteIndex > 0 then Inr 0 else ret) in
         bindE (returnE ret) (\<lambda>ulBlocksWritten.
           let n = push_bit (BLOCK_SIZE_P2 E) ulBlocksWritten
           in okE (ulWriteIndex + n, if ulBlocksWritten < ulBlockCount then 0 else ulRemaining - n)))
     else okE (ulWriteIndex, ulRemaining))"

definition write_last :: "'d env \<Rightarrow> inoptr \<Rightarrow> u64 \<Rightarrow> bytes \<Rightarrow> u32 \<times> u32 \<Rightarrow> ('d, u32) iop" where
  "write_last E i ullStart pb = (\<lambda>(ulWriteIndex, ulRemaining).
     if ulRemaining > 0 then
       statusE (WriteUnaligned E i (ullStart + ucast ulWriteIndex) ulRemaining (drop (unat ulWriteIndex) pb)) (\<lambda>ret.
         if ret = Inl RED_ENOSPC then okE ulWriteIndex
         else thenE (returnE ret) (okE (ulWriteIndex + ulRemaining)))
     else okE ulWriteIndex)"

definition RedInodeDataWrite :: "'d env \<Rightarrow> inoptr \<Rightarrow> u64 \<Rightarrow> u32 \<Rightarrow> bytes \<Rightarrow> ('d, u32) iop" where
  "RedInodeDataWrite E i ullStart ulLen pBuffer = (\<lambda>st.
     if \<not> CINODE_IS_DIRTY i st then errE RED_EINVAL st
     else if ullStart > INODE_SIZE_MAX E \<or> (ullStart = INODE_SIZE_MAX E \<and> ulLen > 0) then errE RED_EFBIG st
     else if ulLen = 0 then okE 0 st
     else
       let ulLen = (if INODE_SIZE_MAX E - ullStart < ucast ulLen then ucast (INODE_SIZE_MAX E - ullStart) else ulLen) in
       bindE (readI E ci_pInodeBuf i ino_ullSize) (\<lambda>ullSize.
       thenE (whenE (ullStart > ullSize) (ExpandPrepare E i))
         (bindE (write_first E i ullStart ulLen pBuffer) (\<lambda>v.
          bindE (write_middle E i ullStart pBuffer v) (\<lambda>v.
          bindE (write_last E i ullStart pBuffer v) (\<lambda>ulWriteIndex.
          bindE (readI E ci_pInodeBuf i ino_ullSize) (\<lambda>ullSize.
          thenE (whenE (ullStart + ucast ulWriteIndex > ullSize)
                   (writeI E ci_pInodeBuf i (put64 ino_off_ullSize (ullStart + ucast ulWriteIndex))))
            (okE ulWriteIndex))))))) st)"

section \<open>Reserving space\<close>

record sparse_count =
  sc_ulBlockOff :: u32
  sc_uPrevInodeEntry :: u16
  sc_uPrevDindirEntry :: u16
  sc_uPrevIndirEntry :: u16
  sc_ulSparseBlocks :: u32

definition sparse_start :: "'d env \<Rightarrow> inoptr \<Rightarrow> u32 \<Rightarrow> ('d, sparse_count) iop" where
  "sparse_start E i ulBlockOff =
     bindE (getE (ci i)) (\<lambda>c.
     bindE (cur_ino_entry E i) (\<lambda>b.
     bindE (if DINDIRS_EXIST E \<and> ci_uDindirEntry c \<noteq> COORD_ENTRY_INVALID \<and> ci_pDindir c \<noteq> None
            then cur_dindir_entry E i else okE BLOCK_SPARSE) (\<lambda>d.
     bindE (if INDIRS_EXIST E \<and> ci_uIndirEntry c \<noteq> COORD_ENTRY_INVALID \<and> ci_pIndir c \<noteq> None
            then cur_indir_entry E i else okE BLOCK_SPARSE) (\<lambda>n.
     okE \<lparr>sc_ulBlockOff = ulBlockOff,
          sc_uPrevInodeEntry = (if b \<noteq> BLOCK_SPARSE then ci_uInodeEntry c else COORD_ENTRY_INVALID),
          sc_uPrevDindirEntry = (if d \<noteq> BLOCK_SPARSE then ci_uDindirEntry c else COORD_ENTRY_INVALID),
          sc_uPrevIndirEntry = (if n \<noteq> BLOCK_SPARSE then ci_uIndirEntry c else COORD_ENTRY_INVALID),
          sc_ulSparseBlocks = 0\<rparr>))))"

definition sparse_add :: "'d env \<Rightarrow> CINODE \<Rightarrow> sparse_count \<Rightarrow> sparse_count" where
  "sparse_add E c k =
     (let k = (if sc_uPrevInodeEntry k \<noteq> ci_uInodeEntry c
               then k\<lparr>sc_uPrevInodeEntry := ci_uInodeEntry c, sc_ulSparseBlocks := sc_ulSparseBlocks k + 1\<rparr> else k);
          k = (if DINDIRS_EXIST E \<and> ci_uDindirEntry c \<noteq> COORD_ENTRY_INVALID \<and> sc_uPrevDindirEntry k \<noteq> ci_uDindirEntry c
               then k\<lparr>sc_uPrevDindirEntry := ci_uDindirEntry c, sc_ulSparseBlocks := sc_ulSparseBlocks k + 1\<rparr> else k);
          k = (if INDIRS_EXIST E \<and> ci_uIndirEntry c \<noteq> COORD_ENTRY_INVALID \<and> sc_uPrevIndirEntry k \<noteq> ci_uIndirEntry c
               then k\<lparr>sc_uPrevIndirEntry := ci_uIndirEntry c, sc_ulSparseBlocks := sc_ulSparseBlocks k + 1\<rparr> else k)
      in k\<lparr>sc_ulBlockOff := sc_ulBlockOff k + 1\<rparr>)"

definition sparse_turn :: "'d env \<Rightarrow> inoptr \<Rightarrow> u32 \<Rightarrow> sparse_count \<Rightarrow> ('d, sparse_count) iop" where
  "sparse_turn E i ulStartBlockOff k =
     statusE (SeekInode E i (sc_ulBlockOff k)) (\<lambda>ret.
     thenE (if ret = Inl RED_ENODATA then okE ()
            else if is_ok ret \<and> sc_ulBlockOff k > ulStartBlockOff then thenE (liftF CRITICAL_ERROR) (errE RED_EFUBAR)
            else returnE ret)
       (getE (\<lambda>st. sparse_add E (ci i st) k)))"

definition CountSparseBlocks :: "'d env \<Rightarrow> inoptr \<Rightarrow> u64 \<Rightarrow> u64 \<Rightarrow> ('d, u32) iop" where
  "CountSparseBlocks E i ullOffset ullLen =
     (let ulStartBlockOff = BLOCK_OF E ullOffset;
          ulEndBlockOffset = BLOCK_OF E (ullOffset + ullLen + ucast (REDCONF_BLOCK_SIZE E) - 1)
      in thenE (ignoreE RED_ENODATA (SeekInode E i ulStartBlockOff))
           (bindE (sparse_start E i ulStartBlockOff) (\<lambda>k.
            bindE (whileE (\<lambda>k _. sc_ulBlockOff k < ulEndBlockOffset) (sparse_turn E i ulStartBlockOff) k) (\<lambda>k.
            okE (sc_ulSparseBlocks k)))))"

definition RedInodeDataReserve :: "'d env \<Rightarrow> inoptr \<Rightarrow> u64 \<Rightarrow> u64 \<Rightarrow> ('d, unit) iop" where
  "RedInodeDataReserve E i ullOffset ullLen = (\<lambda>st.
     if \<not> CINODE_IS_DIRTY i st then errE RED_EINVAL st
     else bindE (readI E ci_pInodeBuf i ino_ullSize) (\<lambda>ullSize.
       if ullOffset \<noteq> ullSize \<or> ullLen = 0 then errE RED_EINVAL
       else if ullOffset > INODE_SIZE_MAX E \<or> INODE_SIZE_MAX E - ullOffset < ullLen then errE RED_EFBIG
       else thenE (ExpandPrepare E i)
         (bindE (CountSparseBlocks E i ullOffset ullLen) (\<lambda>ulNeedBlocks.
          bindE (getF (\<lambda>s. ulNeedBlocks + INODE_MAX_DEPTH E > RedVolFreeBlockCount E s)) (\<lambda>full.
          if full then errE RED_ENOSPC
          else thenE (modF (upd_cv (\<lambda>cv. cv\<lparr>cv_ulReservedInodes := cv_ulReservedInodes cv + 1,
                   cv_ulReservedInodeBlocks := cv_ulReservedInodeBlocks cv + ulNeedBlocks\<rparr>)))
             (writeI E ci_pInodeBuf i (put64 ino_off_ullSize (ullOffset + ullLen))))))) st)"

definition RedInodeDataUnreserve :: "'d env \<Rightarrow> inoptr \<Rightarrow> u64 \<Rightarrow> ('d, unit) iop" where
  "RedInodeDataUnreserve E i ullOffset = (\<lambda>st.
     if \<not> CINODE_IS_MOUNTED i st then errE RED_EINVAL st
     else bindE (readI E ci_pInodeBuf i ino_ullSize) (\<lambda>ullSize.
       if ullOffset > ullSize then errE RED_EINVAL
       else bindE (getF (\<lambda>s. cv_ulReservedInodes (gpRedCoreVol s))) (\<lambda>n.
         if n = 0 then thenE (liftF CRITICAL_ERROR) (errE RED_EFUBAR)
         else bindE (CountSparseBlocks E i ullOffset (ullSize - ullOffset)) (\<lambda>ulReclaimBlocks.
           bindE (getF (\<lambda>s. cv_ulReservedInodeBlocks (gpRedCoreVol s) < ulReclaimBlocks)) (\<lambda>few.
           if few then thenE (liftF CRITICAL_ERROR) (errE RED_EFUBAR)
           else modF (upd_cv (\<lambda>cv. cv\<lparr>cv_ulReservedInodes := cv_ulReservedInodes cv - 1,
                   cv_ulReservedInodeBlocks := cv_ulReservedInodeBlocks cv - ulReclaimBlocks\<rparr>)))))) st)"

end
