(* ===== verification/Red_Dir.thy ===== *)
theory Red_Dir
  imports Red_InodeLife Red_FileData Red_String
begin

text \<open>
  Directories, from \<^verbatim>\<open>core/driver/dir.c\<close>: the data of a directory is an array of entries, each of
  them an inode number and a name; an entry of the inode number zero is free.
\<close>

section \<open>The layout of a directory block\<close>

definition DIR_INDEX_INVALID :: u32 where "DIR_INDEX_INVALID = - 1"

definition DIRENT_PADDING :: "'d env \<Rightarrow> u32" where
  "DIRENT_PADDING E = (if REDCONF_NAME_MAX E mod 4 \<noteq> 0 then 4 - REDCONF_NAME_MAX E mod 4 else 0)"
definition DIRENT_SIZE :: "'d env \<Rightarrow> u32" where
  "DIRENT_SIZE E = 4 + REDCONF_NAME_MAX E + DIRENT_PADDING E"
definition DIRENTS_OFFSET :: "'d fs \<Rightarrow> u32" where
  "DIRENTS_OFFSET s = (if cv_ulVersion (gpRedCoreVol s) \<ge> RED_DISK_LAYOUT_DIRCRC then word_of_nat NODEHEADER_SIZE else 0)"
definition DIRENT_BYTES_PER_BLOCK :: "'d env \<Rightarrow> 'd fs \<Rightarrow> u32" where
  "DIRENT_BYTES_PER_BLOCK E s = REDCONF_BLOCK_SIZE E - DIRENTS_OFFSET s"
definition DIRENTS_PER_BLOCK :: "'d env \<Rightarrow> 'd fs \<Rightarrow> u32" where
  "DIRENTS_PER_BLOCK E s = DIRENT_BYTES_PER_BLOCK E s div DIRENT_SIZE E"
definition DIRENTS_MAX :: "'d env \<Rightarrow> 'd fs \<Rightarrow> u32" where
  "DIRENTS_MAX E s = ucast (min 0xFFFFFFFF (ucast (INODE_DATA_BLOCKS E) * ucast (DIRENTS_PER_BLOCK E s) :: u64))"
definition DIR_BLOCK_USED_SPACE :: "'d env \<Rightarrow> 'd fs \<Rightarrow> u32" where
  "DIR_BLOCK_USED_SPACE E s = DIRENTS_OFFSET s + DIRENT_SIZE E * DIRENTS_PER_BLOCK E s"
definition DIR_BLOCK_UNUSED_SPACE :: "'d env \<Rightarrow> 'd fs \<Rightarrow> u32" where
  "DIR_BLOCK_UNUSED_SPACE E s = REDCONF_BLOCK_SIZE E - DIR_BLOCK_USED_SPACE E s"

definition DirEntryIndexToOffset :: "'d env \<Rightarrow> 'd fs \<Rightarrow> u32 \<Rightarrow> u64" where
  "DirEntryIndexToOffset E s ulIdx =
     (let ulBlock = ulIdx div DIRENTS_PER_BLOCK E s;
          ulDirentsIntoBlock = ulIdx mod DIRENTS_PER_BLOCK E s;
          ullOffset = push_bit (BLOCK_SIZE_P2 E) (ucast ulBlock);
          ullOffset = (if cv_ulVersion (gpRedCoreVol s) \<ge> RED_DISK_LAYOUT_DIRCRC
                       then ullOffset + word_of_nat NODEHEADER_SIZE else ullOffset)
      in ullOffset + ucast (ulDirentsIntoBlock * DIRENT_SIZE E))"

definition DirOffsetToEntryIndex :: "'d env \<Rightarrow> 'd fs \<Rightarrow> u64 \<Rightarrow> u32" where
  "DirOffsetToEntryIndex E s ullOffset =
     (let ulOffsetIntoBlock = ucast (ullOffset AND ucast (REDCONF_BLOCK_SIZE E - 1));
          ulIdx = ucast (drop_bit (BLOCK_SIZE_P2 E) ullOffset) * DIRENTS_PER_BLOCK E s
      in if ulOffsetIntoBlock \<noteq> 0 then
           if cv_ulVersion (gpRedCoreVol s) \<ge> RED_DISK_LAYOUT_DIRCRC
           then ulIdx + (ulOffsetIntoBlock - word_of_nat NODEHEADER_SIZE) div DIRENT_SIZE E
           else ulIdx + ulOffsetIntoBlock div DIRENT_SIZE E
         else ulIdx)"

text \<open>The place of an entry in its block, and its fields.\<close>

definition dirent_at :: "'d env \<Rightarrow> 'd fs \<Rightarrow> u32 \<Rightarrow> nat" where
  "dirent_at E s ulBlockIdx = unat (DIRENTS_OFFSET s) + unat ulBlockIdx * unat (DIRENT_SIZE E)"

definition de_ulInode :: "nat \<Rightarrow> bytes \<Rightarrow> u32" where "de_ulInode off = get32 off"

text \<open>A string inside a block; the code reads no byte of it beyond the block.\<close>

definition cstr_at :: "bytes \<Rightarrow> nat \<Rightarrow> cstr" where "cstr_at b off = (\<lambda>i. b ! (off + unat i))"

definition de_acName :: "nat \<Rightarrow> bytes \<Rightarrow> cstr" where "de_acName off b = cstr_at b (off + 4)"

section \<open>Names and permissions\<close>

text \<open>The length of a name; a name without an end has none.\<close>

definition name_len :: "'d env \<Rightarrow> cstr option \<Rightarrow> ('d, u32) iop" where
  "name_len E pszName = (\<lambda>st. case RedNameLen (REDCONF_PATH_SEPARATOR E) pszName of
     None \<Rightarrow> None | Some n \<Rightarrow> Some (Inr n, st))"

definition dot_name :: "cstr option \<Rightarrow> u32 \<Rightarrow> bool" where
  "dot_name pszName ulNameLen \<longleftrightarrow> (case pszName of None \<Rightarrow> False | Some name \<Rightarrow>
     ulNameLen = 1 \<and> name 0 = 0x2E \<or> ulNameLen = 2 \<and> name 0 = 0x2E \<and> name 1 = 0x2E)"

definition perm_check :: "'d env \<Rightarrow> inoptr \<Rightarrow> u8 \<Rightarrow> ('d, unit) iop" where
  "perm_check E i bAccess =
     bindE (readI E ci_pInodeBuf i (\<lambda>b. (ino_uMode E b, ino_ulUID E b, ino_ulGID E b))) (\<lambda>(m, u, g).
     bindE (getF (\<lambda>s. RedOsIdentity E (os s))) (\<lambda>who. returnE (RedPermCheck who bAccess m u g)))"

definition perm_check_unlink :: "'d env \<Rightarrow> inoptr \<Rightarrow> inoptr \<Rightarrow> ('d, unit) iop" where
  "perm_check_unlink E p i =
     bindE (readI E ci_pInodeBuf p (\<lambda>b. (ino_uMode E b, ino_ulUID E b, ino_ulGID E b))) (\<lambda>(m, u, g).
     bindE (readI E ci_pInodeBuf i (ino_ulUID E)) (\<lambda>f.
     bindE (getF (\<lambda>s. RedOsIdentity E (os s))) (\<lambda>who. returnE (RedPermCheckUnlink who m u g f))))"

section \<open>Looking up a name\<close>

definition name_matches :: "'d env \<Rightarrow> cstr option \<Rightarrow> u32 \<Rightarrow> bytes \<Rightarrow> nat \<Rightarrow> bool" where
  "name_matches E pszName ulNameLen b off \<longleftrightarrow>
     RedStrNCmp (Some (de_acName off b)) pszName ulNameLen = 0 \<and>
     (ulNameLen = REDCONF_NAME_MAX E \<or> de_acName off b ulNameLen = 0)"

text \<open>
  The entries of a block from \<open>ulBlockIdx\<close>, of which \<open>n\<close> are left: the index of the one with
  the name and its inode, and the first free index seen so far.
\<close>

fun lookup_block :: "'d env \<Rightarrow> 'd fs \<Rightarrow> cstr option \<Rightarrow> u32 \<Rightarrow> bytes \<Rightarrow> u32 \<Rightarrow> u32 \<Rightarrow> nat \<Rightarrow> u32 \<Rightarrow>
    (u32 \<times> u32) option \<times> u32" where
  "lookup_block E s pszName ulNameLen b ulIdx ulBlockIdx 0 ulFreeIdx = (None, ulFreeIdx)"
| "lookup_block E s pszName ulNameLen b ulIdx ulBlockIdx (Suc n) ulFreeIdx =
     (let off = dirent_at E s ulBlockIdx in
      if de_ulInode off b \<noteq> INODE_INVALID then
        if name_matches E pszName ulNameLen b off then (Some (ulIdx + ulBlockIdx, de_ulInode off b), ulFreeIdx)
        else lookup_block E s pszName ulNameLen b ulIdx (ulBlockIdx + 1) n ulFreeIdx
      else lookup_block E s pszName ulNameLen b ulIdx (ulBlockIdx + 1) n
        (if ulFreeIdx = DIR_INDEX_INVALID then ulIdx + ulBlockIdx else ulFreeIdx))"

text \<open>
  The loop over the blocks carries the index, the first free index and what was found. The result
  of the lookup is its status, the entry index it stores and the inode number, if it stores one.
\<close>

definition lookup_turn :: "'d env \<Rightarrow> inoptr \<Rightarrow> cstr option \<Rightarrow> u32 \<Rightarrow> u32 \<Rightarrow> u32 \<times> u32 \<times> u32 option \<Rightarrow>
    ('d, u32 \<times> u32 \<times> u32 option) iop" where
  "lookup_turn E p pszName ulNameLen ulDirentCount = (\<lambda>(ulIdx, ulFreeIdx, _).
     bindE (getF (DIRENTS_PER_BLOCK E)) (\<lambda>n.
     statusE (RedInodeDataSeekAndRead E p (ulIdx div n)) (\<lambda>ret.
       if ret = Inl RED_ENODATA then
         okE (ulIdx + n, if ulFreeIdx = DIR_INDEX_INVALID then ulIdx else ulFreeIdx, None)
       else thenE (returnE ret)
         (let ulBlockLastIdx = min n (ulDirentCount - ulIdx) in
          bindE (readI E ci_pbData p id) (\<lambda>b.
          bindE (getF (\<lambda>s. lookup_block E s pszName ulNameLen b ulIdx 0 (unat ulBlockLastIdx) ulFreeIdx))
            (\<lambda>(found, ulFreeIdx). case found of
               Some (idx, ulInode) \<Rightarrow> okE (idx, ulFreeIdx, Some ulInode)
             | None \<Rightarrow> okE (ulIdx + ulBlockLastIdx, ulFreeIdx, None)))))))"

definition RedDirEntryLookup :: "'d env \<Rightarrow> inoptr \<Rightarrow> cstr option \<Rightarrow>
    ('d, (rederr + unit) \<times> u32 \<times> u32 option) iop" where
  "RedDirEntryLookup E p pszName = (\<lambda>st.
     if \<not> CINODE_IS_MOUNTED p st \<or> pszName = None then errE RED_EINVAL st
     else if \<not> ci_fDirectory (ci p st) then errE RED_ENOTDIR st
     else thenE (whenE (REDCONF_POSIX_OWNER_PERM E) (perm_check E p RED_X_OK))
       (bindE (name_len E pszName) (\<lambda>ulNameLen.
        if ulNameLen = 0 then errE RED_EINVAL
        else if ulNameLen > REDCONF_NAME_MAX E then errE RED_ENAMETOOLONG
        else bindE (readI E ci_pInodeBuf p ino_ullSize) (\<lambda>ullSize.
          bindE (getF (\<lambda>s. DirOffsetToEntryIndex E s ullSize)) (\<lambda>ulDirentCount.
          bindE (whileE (\<lambda>(ulIdx, _, found) _. found = None \<and> ulIdx < ulDirentCount)
                   (lookup_turn E p pszName ulNameLen ulDirentCount) (0, DIR_INDEX_INVALID, None))
            (\<lambda>(ulIdx, ulFreeIdx, found).
             bindE (getF (DIRENTS_MAX E)) (\<lambda>max.
             if ulIdx = ulDirentCount then
               okE (Inl RED_ENOENT,
                 if ulFreeIdx = DIR_INDEX_INVALID \<and> ulDirentCount < max then ulDirentCount else ulFreeIdx, found)
             else okE (Inr (), ulIdx, found))))))) st)"

section \<open>Writing an entry\<close>

definition dirent_bytes :: "'d env \<Rightarrow> u32 \<Rightarrow> cstr \<Rightarrow> u32 \<Rightarrow> bytes" where
  "dirent_bytes E ulInode name ulNameLen =
     le_bytes 4 (unat ulInode) @
     map (\<lambda>k. RedStrNCpyUnchecked (\<lambda>_. 0) name ulNameLen (word_of_nat k))
       [0..<unat (REDCONF_NAME_MAX E) + unat (DIRENT_PADDING E)]"

definition DirEntryWrite :: "'d env \<Rightarrow> inoptr \<Rightarrow> u32 \<Rightarrow> u32 \<Rightarrow> cstr option \<Rightarrow> u32 \<Rightarrow> ('d, unit) iop" where
  "DirEntryWrite E p ulIdx ulInode pszName ulNameLen = (\<lambda>st.
     case pszName of None \<Rightarrow> errE RED_EINVAL st
     | Some name \<Rightarrow>
       if \<not> CINODE_IS_DIRTY p st \<or> ulIdx \<ge> DIRENTS_MAX E (snd st) \<or>
          (\<not> INODE_IS_VALID ulInode (snd st) \<and> ulInode \<noteq> INODE_INVALID) \<or>
          ulNameLen > REDCONF_NAME_MAX E \<or> (ulNameLen = 0) \<noteq> (ulInode = INODE_INVALID)
       then errE RED_EINVAL st
       else if \<not> ci_fDirectory (ci p st) then errE RED_ENOTDIR st
       else thenE (RedInodeDataWrite E p (DirEntryIndexToOffset E (snd st) ulIdx) (DIRENT_SIZE E)
           (dirent_bytes E ulInode name ulNameLen)) (okE ()) st)"

definition RedDirEntryCreate :: "'d env \<Rightarrow> inoptr \<Rightarrow> cstr option \<Rightarrow> u32 \<Rightarrow> ('d, unit) iop" where
  "RedDirEntryCreate E p pszName ulInode = (\<lambda>st.
     if \<not> CINODE_IS_DIRTY p st \<or> pszName = None \<or> \<not> INODE_IS_VALID ulInode (snd st) then errE RED_EINVAL st
     else if \<not> ci_fDirectory (ci p st) then errE RED_ENOTDIR st
     else thenE (whenE (REDCONF_POSIX_OWNER_PERM E) (perm_check E p (RED_X_OK OR RED_W_OK)))
       (bindE (name_len E pszName) (\<lambda>ulNameLen.
        if ulNameLen = 0 then errE RED_EINVAL
        else if ulNameLen > REDCONF_NAME_MAX E then errE RED_ENAMETOOLONG
        else if dot_name pszName ulNameLen then errE RED_EINVAL
        else bindE (RedDirEntryLookup E p pszName) (\<lambda>(ret, ulEntryIdx, _).
          if ret = Inr () then errE RED_EEXIST
          else if ret = Inl RED_ENOENT then
            if ulEntryIdx = DIR_INDEX_INVALID then errE RED_ENOSPC
            else DirEntryWrite E p ulEntryIdx ulInode pszName ulNameLen
          else returnE ret))) st)"

section \<open>Deleting an entry\<close>

text \<open>
  The scan back over the entries of a block for one that is in use, from the entry \<open>k\<close> down;
  the flag is set when there is one.
\<close>

fun trunc_scan :: "'d env \<Rightarrow> 'd fs \<Rightarrow> bytes \<Rightarrow> nat \<Rightarrow> u32 \<Rightarrow> u32 \<times> bool" where
  "trunc_scan E s b k ulTruncIdx =
     (if de_ulInode (dirent_at E s (word_of_nat k)) b \<noteq> INODE_INVALID then (ulTruncIdx, True)
      else case k of 0 \<Rightarrow> (ulTruncIdx - 1, False) | Suc j \<Rightarrow> trunc_scan E s b j (ulTruncIdx - 1))"

definition trunc_turn :: "'d env \<Rightarrow> inoptr \<Rightarrow> u32 \<times> bool \<Rightarrow> ('d, u32 \<times> bool) iop" where
  "trunc_turn E p = (\<lambda>(ulTruncIdx, _).
     bindE (getF (DIRENTS_PER_BLOCK E)) (\<lambda>n.
     statusE (RedInodeDataSeekAndRead E p (ulTruncIdx div n)) (\<lambda>ret.
       if ret = Inl RED_ENODATA then okE (ulTruncIdx - n, False)
       else thenE (returnE ret)
         (bindE (readI E ci_pbData p id) (\<lambda>b.
          getF (\<lambda>s. trunc_scan E s b (unat (ulTruncIdx mod n)) ulTruncIdx))))))"

text \<open>The size of the directory that ends before the entry.\<close>

definition trunc_size :: "'d env \<Rightarrow> 'd fs \<Rightarrow> u32 \<Rightarrow> u64" where
  "trunc_size E s ulTruncIdx =
     (let ullNewSize = DirEntryIndexToOffset E s ulTruncIdx;
          ullNewSize = (if cv_ulVersion (gpRedCoreVol s) \<ge> RED_DISK_LAYOUT_DIRCRC \<and>
                           ulTruncIdx mod DIRENTS_PER_BLOCK E s = 0
                        then ullNewSize - word_of_nat NODEHEADER_SIZE else ullNewSize)
      in if DIR_BLOCK_UNUSED_SPACE E s > 0 \<and> ullNewSize \<ge> ucast (REDCONF_BLOCK_SIZE E) \<and>
            ullNewSize AND ucast (REDCONF_BLOCK_SIZE E - 1) = 0
         then ullNewSize - ucast (DIR_BLOCK_UNUSED_SPACE E s) else ullNewSize)"

definition RedDirEntryDelete :: "'d env \<Rightarrow> inoptr \<Rightarrow> inoptr option \<Rightarrow> u32 \<Rightarrow> ('d, unit) iop" where
  "RedDirEntryDelete E p pInode ulDeleteIdx = (\<lambda>st.
     let ullIdxOffset = DirEntryIndexToOffset E (snd st) ulDeleteIdx in
     if \<not> CINODE_IS_DIRTY p st then errE RED_EINVAL st
     else if \<not> ci_fDirectory (ci p st) then errE RED_ENOTDIR st
     else bindE (readI E ci_pInodeBuf p ino_ullSize) (\<lambda>ullSize.
       if ulDeleteIdx \<ge> DIRENTS_MAX E (snd st) \<or> ullIdxOffset \<ge> ullSize then errE RED_EINVAL
       else thenE (whenE (REDCONF_POSIX_OWNER_PERM E)
                (case pInode of None \<Rightarrow> okE () | Some i \<Rightarrow> perm_check_unlink E p i))
         (if ullIdxOffset + ucast (DIRENT_SIZE E) = ullSize then
            bindE (whileE (\<lambda>(ulTruncIdx, fDone) _. ulTruncIdx \<noteq> - 1 \<and> \<not> fDone) (trunc_turn E p) (ulDeleteIdx - 1, False))
              (\<lambda>(ulTruncIdx, _).
               bindE (getF (\<lambda>s. trunc_size E s (ulTruncIdx + 1))) (RedInodeDataTruncate E p))
          else DirEntryWrite E p ulDeleteIdx INODE_INVALID (Some (\<lambda>_. 0)) 0)) st)"

section \<open>Reading the entries in order\<close>

text \<open>
  The entries of a block from \<open>ulBlockIdx\<close>, of which \<open>n\<close> are left: the next index, and the place
  of the first entry in use. The caller's buffer for the name is a string that the call returns
  as it leaves it.
\<close>

fun read_block :: "'d env \<Rightarrow> 'd fs \<Rightarrow> bytes \<Rightarrow> u32 \<Rightarrow> nat \<Rightarrow> u32 \<Rightarrow> u32 \<times> nat option" where
  "read_block E s b ulBlockIdx 0 ulIdx = (ulIdx, None)"
| "read_block E s b ulBlockIdx (Suc n) ulIdx =
     (if de_ulInode (dirent_at E s ulBlockIdx) b \<noteq> INODE_INVALID then (ulIdx, Some (dirent_at E s ulBlockIdx))
      else read_block E s b (ulBlockIdx + 1) n (ulIdx + 1))"

definition dir_read_turn :: "'d env \<Rightarrow> inoptr \<Rightarrow> u32 \<Rightarrow> u32 \<times> (cstr \<times> u32) option \<Rightarrow> cstr \<Rightarrow>
    ('d, u32 \<times> (cstr \<times> u32) option) iop" where
  "dir_read_turn E p ulDirentCount = (\<lambda>(ulIdx, _) pszName.
     bindE (getF (DIRENTS_PER_BLOCK E)) (\<lambda>n.
     let ulBlockOffset = ulIdx div n in
     statusE (RedInodeDataSeekAndRead E p ulBlockOffset) (\<lambda>ret.
       if ret = Inl RED_ENODATA then okE (ulIdx + (n - ulIdx mod n), None)
       else thenE (returnE ret)
         (let ulBlockLastIdx = min n (ulDirentCount - ulBlockOffset * n); ulBlockIdx = ulIdx mod n in
          bindE (readI E ci_pbData p id) (\<lambda>b.
          bindE (getF (\<lambda>s. read_block E s b ulBlockIdx (unat ulBlockLastIdx - unat ulBlockIdx) ulIdx))
            (\<lambda>(ulIdx, found). case found of
               Some off \<Rightarrow> okE (ulIdx, Some
                 ((RedStrNCpyUnchecked pszName (de_acName off b) (REDCONF_NAME_MAX E))(REDCONF_NAME_MAX E := 0),
                  de_ulInode off b))
             | None \<Rightarrow> okE (ulIdx, None)))))))"

text \<open>The result is the status with the inode number, the index for the next call and the name.\<close>

definition RedDirEntryRead :: "'d env \<Rightarrow> inoptr \<Rightarrow> u32 \<Rightarrow> cstr \<Rightarrow> ('d, (rederr + u32) \<times> u32 \<times> cstr) iop" where
  "RedDirEntryRead E p ulIdx0 pszName = (\<lambda>st.
     if \<not> CINODE_IS_MOUNTED p st then errE RED_EINVAL st
     else if \<not> ci_fDirectory (ci p st) then errE RED_ENOTDIR st
     else bindE (readI E ci_pInodeBuf p ino_ullSize) (\<lambda>ullSize.
       bindE (getF (\<lambda>s. DirOffsetToEntryIndex E s ullSize)) (\<lambda>ulDirentCount.
       bindE (whileE (\<lambda>(ulIdx, found) _. found = None \<and> ulIdx < ulDirentCount)
                (\<lambda>x. dir_read_turn E p ulDirentCount x pszName) (ulIdx0, None)) (\<lambda>(ulIdx, found).
       okE (case found of
              Some (name, ulInode) \<Rightarrow>
                (if ulIdx \<ge> ulDirentCount then (Inl RED_ENOENT, ulDirentCount, name) else (Inr ulInode, ulIdx + 1, name))
            | None \<Rightarrow> (Inl RED_ENOENT, ulDirentCount, pszName))))) st)"

declare trunc_scan.simps [simp del]

section \<open>Renaming\<close>

definition INO_NEXT_PARENT :: inoptr where "INO_NEXT_PARENT = 103"

text \<open>No directory may be moved below itself: the walk up from the new parent must not meet it.\<close>

definition cyclic_turn :: "'d env \<Rightarrow> u32 \<Rightarrow> ('d, u32) iop" where
  "cyclic_turn E ulIteration =
     thenE (RedInodeMount E INO_NEXT_PARENT FTYPE_DIR False)
       (bindE (readI E ci_pInodeBuf INO_NEXT_PARENT (ino_ulPInode E)) (\<lambda>ulPInode.
        thenE (set_ino INO_NEXT_PARENT ulPInode)
          (thenE (RedInodePut E INO_NEXT_PARENT 0) (okE (ulIteration + 1)))))"

definition DirCyclicRenameCheck :: "'d env \<Rightarrow> u32 \<Rightarrow> inoptr \<Rightarrow> ('d, unit) iop" where
  "DirCyclicRenameCheck E ulSrcInode p = (\<lambda>st.
     if \<not> INODE_IS_VALID ulSrcInode (snd st) \<or> \<not> CINODE_IS_MOUNTED p st then errE RED_EINVAL st
     else if ulSrcInode = ci_ulInode (ci p st) then errE RED_EINVAL st
     else if \<not> ci_fDirectory (ci p st) then errE RED_ENOTDIR st
     else bindE (readI E ci_pInodeBuf p (ino_ulPInode E)) (\<lambda>ulPInode.
       thenE (set_ino INO_NEXT_PARENT ulPInode)
         (bindE (whileE (\<lambda>ulIteration st. let n = ci_ulInode (ci INO_NEXT_PARENT st) in
                     n \<noteq> ulSrcInode \<and> n \<noteq> INODE_ROOTDIR \<and> n \<noteq> INODE_INVALID \<and>
                     ulIteration < cv_ulInodeCount (gpRedCoreVol (snd st)))
                   (cyclic_turn E) 0) (\<lambda>ulIteration.
          bindE (getE (\<lambda>st. (ci_ulInode (ci INO_NEXT_PARENT st), cv_ulInodeCount (gpRedCoreVol (snd st))))) (\<lambda>(n, count).
          if ulIteration = count then thenE (liftF CRITICAL_ERROR) (errE RED_EFUBAR)
          else if ulSrcInode = n then errE RED_EINVAL
          else okE ())))) st)"

text \<open>The inode number a lookup found goes to the open inode; one it did not store is left as it was.\<close>

definition store_inode :: "inoptr \<Rightarrow> u32 option \<Rightarrow> ('d, unit) iop" where
  "store_inode i found = (case found of None \<Rightarrow> okE () | Some n \<Rightarrow> set_ino i n)"

definition rename_lookups :: "'d env \<Rightarrow> inoptr \<Rightarrow> cstr option \<Rightarrow> inoptr \<Rightarrow> inoptr \<Rightarrow> cstr option \<Rightarrow> inoptr \<Rightarrow>
    ('d, u32 \<times> u32) iop" where
  "rename_lookups E sp pszSrcName si dp pszDstName di =
     bindE (RedDirEntryLookup E sp pszSrcName) (\<lambda>(ret, ulSrcIdx, found).
     thenE (store_inode si found) (thenE (returnE ret)
       (bindE (RedDirEntryLookup E dp pszDstName) (\<lambda>(ret, ulDstIdx, found).
        thenE (store_inode di found)
          (if ret = Inl RED_ENOENT then
             if ulDstIdx = DIR_INDEX_INVALID then errE RED_ENOSPC
             else thenE (whenE (REDCONF_RENAME_ATOMIC E) (set_ino di INODE_INVALID))
               (okE (ulSrcIdx, ulDstIdx))
           else if \<not> REDCONF_RENAME_ATOMIC E \<and> ret = Inr () then errE RED_EEXIST
           else thenE (returnE ret) (okE (ulSrcIdx, ulDstIdx)))))))"

definition rename_target :: "'d env \<Rightarrow> inoptr \<Rightarrow> inoptr \<Rightarrow> inoptr \<Rightarrow> ('d, unit) iop" where
  "rename_target E si dp di =
     bindE (getE (\<lambda>st. (ci_ulInode (ci di st), ci_fDirectory (ci si st)))) (\<lambda>(ulDst, dir).
     if REDCONF_RENAME_ATOMIC E \<and> ulDst \<noteq> INODE_INVALID then
       thenE (RedInodeMount E di (if dir then FTYPE_DIR else FTYPE_NOTDIR E) True)
         (thenE (whenE (REDCONF_POSIX_OWNER_PERM E) (perm_check_unlink E dp di))
           (bindE (readI E ci_pInodeBuf di ino_ullSize) (\<lambda>ullSize.
            bindE (getE (\<lambda>st. ci_fDirectory (ci di st))) (\<lambda>ddir.
            if ddir \<and> ullSize > 0 then errE RED_ENOTEMPTY else okE ()))))
     else whenE (REDCONF_POSIX_OWNER_PERM E) (perm_check E dp RED_W_OK))"

text \<open>A deletion that fails for want of space is undone: the old entry of the new name comes back.\<close>

definition rename_delete :: "'d env \<Rightarrow> inoptr \<Rightarrow> inoptr \<Rightarrow> u32 \<Rightarrow> inoptr \<Rightarrow> inoptr \<Rightarrow> u32 \<Rightarrow> cstr option \<Rightarrow> u32 \<Rightarrow>
    ('d, unit) iop" where
  "rename_delete E sp si ulSrcIdx dp di ulDstIdx pszDstName ulDstNameLen =
     statusE (RedDirEntryDelete E sp (Some si) ulSrcIdx) (\<lambda>ret.
       if ret = Inl RED_ENOSPC then
         bindE (getE (\<lambda>st. ci_ulInode (ci di st))) (\<lambda>ulDst.
         statusE (if REDCONF_RENAME_ATOMIC E \<and> ulDst \<noteq> INODE_INVALID
                  then DirEntryWrite E dp ulDstIdx ulDst pszDstName ulDstNameLen
                  else RedDirEntryDelete E dp None ulDstIdx) (\<lambda>ret2.
           if is_ok ret2 then returnE ret else thenE (liftF CRITICAL_ERROR) (returnE ret2)))
       else returnE ret)"

definition RedDirEntryRename :: "'d env \<Rightarrow> inoptr \<Rightarrow> cstr option \<Rightarrow> inoptr \<Rightarrow> inoptr \<Rightarrow> cstr option \<Rightarrow> inoptr \<Rightarrow>
    ('d, unit) iop" where
  "RedDirEntryRename E sp pszSrcName si dp pszDstName di = (\<lambda>st.
     if \<not> CINODE_IS_DIRTY sp st \<or> pszSrcName = None \<or> \<not> CINODE_IS_DIRTY dp st \<or> pszDstName = None then errE RED_EINVAL st
     else if \<not> ci_fDirectory (ci sp st) \<or> \<not> ci_fDirectory (ci dp st) then errE RED_ENOTDIR st
     else bindE (name_len E pszDstName) (\<lambda>ulDstNameLen.
       if dot_name pszDstName ulDstNameLen then errE RED_EINVAL
       else bindE (rename_lookups E sp pszSrcName si dp pszDstName di) (\<lambda>(ulSrcIdx, ulDstIdx).
         bindE (getE (\<lambda>st. ci_ulInode (ci si st) \<noteq> ci_ulInode (ci di st))) (\<lambda>differ.
         if REDCONF_RENAME_ATOMIC E \<and> \<not> differ then okE ()
         else thenE (RedInodeMount E si (FTYPE_ANY E) True)
           (thenE (whenE (REDCONF_POSIX_OWNER_PERM E) (perm_check_unlink E sp si))
             (thenE (whenE (REDCONF_RENAME_ATOMIC E \<or> REDCONF_POSIX_OWNER_PERM E) (rename_target E si dp di))
               (bindE (getE (ci si)) (\<lambda>c.
                thenE (whenE (ci_fDirectory c) (DirCyclicRenameCheck E (ci_ulInode c) dp))
                  (thenE (DirEntryWrite E dp ulDstIdx (ci_ulInode c) pszDstName ulDstNameLen)
                    (thenE (rename_delete E sp si ulSrcIdx dp di ulDstIdx pszDstName ulDstNameLen)
                      (bindE (getE (\<lambda>st. ci_ulInode (ci dp st))) (\<lambda>ulDstP.
                       writeI E ci_pInodeBuf si (put32 (ino_off_ulPInode E) ulDstP))))))))))))  st)"

end
