(* ===== verification/Red_Core.thy ===== *)
theory Red_Core
  imports Red_Dir
begin

text \<open>
  The core interface, from \<^verbatim>\<open>core/driver/core.c\<close>: the initialisation of the driver, the operations
  on the current volume, and the operations on its files, each of which mounts the inodes it
  works on, frees space and tries again when the volume is full, and commits a transaction
  where the transaction mask of the volume asks for one.
\<close>

section \<open>The driver and its volumes\<close>

definition RED_TRANSACT_UMOUNT :: u32 where "RED_TRANSACT_UMOUNT = 0x001"
definition RED_TRANSACT_CREAT :: u32 where "RED_TRANSACT_CREAT = 0x002"
definition RED_TRANSACT_UNLINK :: u32 where "RED_TRANSACT_UNLINK = 0x004"
definition RED_TRANSACT_MKDIR :: u32 where "RED_TRANSACT_MKDIR = 0x008"
definition RED_TRANSACT_RENAME :: u32 where "RED_TRANSACT_RENAME = 0x010"
definition RED_TRANSACT_LINK :: u32 where "RED_TRANSACT_LINK = 0x020"
definition RED_TRANSACT_CLOSE :: u32 where "RED_TRANSACT_CLOSE = 0x040"
definition RED_TRANSACT_WRITE :: u32 where "RED_TRANSACT_WRITE = 0x080"
definition RED_TRANSACT_FSYNC :: u32 where "RED_TRANSACT_FSYNC = 0x100"
definition RED_TRANSACT_TRUNCATE :: u32 where "RED_TRANSACT_TRUNCATE = 0x200"
definition RED_TRANSACT_VOLFULL :: u32 where "RED_TRANSACT_VOLFULL = 0x400"
definition RED_TRANSACT_SYNC :: u32 where "RED_TRANSACT_SYNC = 0x800"

definition RED_TRANSACT_MASK :: "'d env \<Rightarrow> u32" where
  "RED_TRANSACT_MASK E =
     (if REDCONF_API_POSIX E then
        RED_TRANSACT_SYNC OR RED_TRANSACT_UMOUNT OR RED_TRANSACT_CREAT OR
        (if REDCONF_API_POSIX_UNLINK E then RED_TRANSACT_UNLINK else 0) OR
        (if REDCONF_API_POSIX_MKDIR E then RED_TRANSACT_MKDIR else 0) OR
        (if REDCONF_API_POSIX_RENAME E then RED_TRANSACT_RENAME else 0) OR
        (if REDCONF_API_POSIX_LINK E then RED_TRANSACT_LINK else 0) OR
        RED_TRANSACT_CLOSE OR RED_TRANSACT_WRITE OR RED_TRANSACT_FSYNC OR
        (if TRUNCATE_SUPPORTED E then RED_TRANSACT_TRUNCATE else 0) OR RED_TRANSACT_VOLFULL
      else
        RED_TRANSACT_UMOUNT OR RED_TRANSACT_WRITE OR
        (if TRUNCATE_SUPPORTED E then RED_TRANSACT_TRUNCATE else 0) OR RED_TRANSACT_VOLFULL)"

text \<open>A service of the operating system that acts on its state.\<close>

definition serviceE :: "('d \<Rightarrow> (rederr + unit) \<times> 'd) \<Rightarrow> ('d, unit) op" where
  "serviceE f = (\<lambda>s. let (r, d) = f (os s) in Some (r, s\<lparr>os := d\<rparr>))"

definition volume_zero :: VOLUME where
  "volume_zero = \<lparr>vol_fMounted = False, vol_fReadOnly = False, vol_ulTransMask = 0, vol_bBlockSectorShift = 0,
     vol_ulBlockCount = 0, vol_ulBlocksAllocable = 0, vol_ullMaxInodeSize = 0, vol_ullSequence = 0\<rparr>"

definition corevol_zero :: "'d env \<Rightarrow> COREVOLUME" where
  "corevol_zero E = \<lparr>cv_ulVersion = 0, cv_fImapInline = False, cv_ulImapStartBN = 0, cv_ulImapNodeCount = 0,
     cv_ulInodeTableStartBN = 0, cv_ulInodeCount = 0, cv_ulFirstAllocableBN = 0,
     cv_aMR = (\<lambda>_. replicate (BSIZE E) 0), cv_bCurMR = 0, cv_fBranched = False, cv_ulAlmostFreeBlocks = 0,
     cv_fUseReservedBlocks = False, cv_ulReservedInodes = 0, cv_ulReservedInodeBlocks = 0,
     cv_fUseReservedInodeBlocks = False\<rparr>"

definition path_prefix :: "'d env \<Rightarrow> nat \<Rightarrow> cstr" where
  "path_prefix E n = cstr_at (vc_pszPathPrefix (gaRedVolConf E (word_of_nat n))) 0"

text \<open>The path prefix of volume \<open>n\<close> must differ from those of the volumes before it.\<close>

fun prefix_differs :: "'d env \<Rightarrow> nat \<Rightarrow> nat list \<Rightarrow> ('d, unit) op" where
  "prefix_differs E n [] = okE ()"
| "prefix_differs E n (k # ks) = (\<lambda>s.
     case RedStrCmp (Some (path_prefix E n)) (Some (path_prefix E k)) of
       None \<Rightarrow> None
     | Some r \<Rightarrow> if r = 0 then errE RED_EINVAL s else prefix_differs E n ks s)"

fun init_volumes :: "'d env \<Rightarrow> nat list \<Rightarrow> ('d, unit) op" where
  "init_volumes E [] = okE ()"
| "init_volumes E (n # ns) =
     thenE (whenE (REDCONF_API_POSIX E \<and> REDCONF_VOLUME_COUNT E > 1) (prefix_differs E n [0..<n]))
       (thenE (modE (\<lambda>s. s\<lparr>gaRedVolume := (gaRedVolume s)(word_of_nat n :=
            (gaRedVolume s (word_of_nat n))\<lparr>vol_ulTransMask := REDCONF_TRANSACT_DEFAULT E,
              vol_ullMaxInodeSize := INODE_SIZE_MAX E\<rparr>)\<rparr>))
         (init_volumes E ns))"

definition RedCoreInit :: "'d env \<Rightarrow> ('d, unit) op" where
  "RedCoreInit E =
     thenE (modE (\<lambda>s. RedBufferInit E (s\<lparr>gaRedVolume := (\<lambda>_. volume_zero), gaRedCoreVol := (\<lambda>_. corevol_zero E)\<rparr>)))
       (thenE (init_volumes E [0..<unat (REDCONF_VOLUME_COUNT E)])
         (thenE (serviceE (RedOsClockInit E))
           (if REDCONF_TASK_COUNT E > 1 then
              statusE (serviceE (RedOsMutexInit E)) (\<lambda>ret.
                if is_ok ret then returnE ret
                else finallyE (returnE ret) (serviceE (RedOsClockUninit E)))
            else okE ())))"

definition RedCoreUninit :: "'d env \<Rightarrow> ('d, unit) op" where
  "RedCoreUninit E =
     thenE (if REDCONF_TASK_COUNT E > 1 then serviceE (RedOsMutexUninit E) else okE ())
       (serviceE (RedOsClockUninit E))"

definition RedCoreVolSetCurrent :: "'d env \<Rightarrow> u8 \<Rightarrow> ('d, unit) op" where
  "RedCoreVolSetCurrent E bVolNum =
     (if bVolNum \<ge> REDCONF_VOLUME_COUNT E then errE RED_EINVAL
      else whenE (REDCONF_VOLUME_COUNT E > 1) (modE (\<lambda>s. s\<lparr>gbRedVolNum := bVolNum\<rparr>)))"

definition RedCoreVolMount :: "'d env \<Rightarrow> u32 \<Rightarrow> ('d, unit) iop" where
  "RedCoreVolMount E ulFlags = RedVolMount E ulFlags"

definition RedCoreVolUnmount :: "'d env \<Rightarrow> ('d, unit) op" where
  "RedCoreVolUnmount E = (\<lambda>s.
     thenE (whenE (\<not> vol_fReadOnly (gpRedVolume s) \<and> vol_ulTransMask (gpRedVolume s) AND RED_TRANSACT_UMOUNT \<noteq> 0)
         (RedVolTransact E))
       (thenE (\<lambda>s. RedBufferDiscardRange E 0 (vol_ulBlockCount (gpRedVolume s)) s)
         (thenE (\<lambda>s. RedBDevClose E (gbRedVolNum s) s)
           (modE (upd_vol (vol_fMounted_update (\<lambda>_. False)))))) s)"

text \<open>The operations that change a volume need one that is mounted and can be written.\<close>

definition writeable :: "('d, 'a) iop \<Rightarrow> ('d, 'a) iop" where
  "writeable f = (\<lambda>st.
     if \<not> vol_fMounted (gpRedVolume (snd st)) then errE RED_EINVAL st
     else if vol_fReadOnly (gpRedVolume (snd st)) then errE RED_EROFS st
     else f st)"

definition RedCoreVolTransact :: "'d env \<Rightarrow> ('d, unit) iop" where
  "RedCoreVolTransact E = writeable (liftF (RedVolTransact E))"

definition RedCoreVolRollback :: "'d env \<Rightarrow> ('d, unit) iop" where
  "RedCoreVolRollback E = writeable (liftF (RedVolRollback E))"

record REDSTATFS =
  f_bsize :: u32
  f_frsize :: u32
  f_blocks :: u32
  f_bfree :: u32
  f_bavail :: u32
  f_files :: u32
  f_ffree :: u32
  f_favail :: u32
  f_fsid :: u32
  f_flag :: u32
  f_namemax :: u32
  f_maxfsize :: u64
  f_dev :: u32
  f_diskver :: u32

definition RED_ST_RDONLY :: u32 where "RED_ST_RDONLY = 1"
definition RED_ST_NOSUID :: u32 where "RED_ST_NOSUID = 2"

text \<open>A field that the configuration leaves out of the structure is zero.\<close>

definition stat_of_volume :: "'d env \<Rightarrow> 'd fs \<Rightarrow> REDSTATFS" where
  "stat_of_volume E s =
     (let posix = (\<lambda>v :: u32. if REDCONF_API_POSIX E then v else 0); free = RedVolFreeBlockCount E s in
      \<lparr>f_bsize = REDCONF_BLOCK_SIZE E, f_frsize = posix (REDCONF_BLOCK_SIZE E),
       f_blocks = vol_ulBlockCount (gpRedVolume s), f_bfree = free, f_bavail = posix free,
       f_files = cv_ulInodeCount (gpRedCoreVol s), f_ffree = posix (mr_ulFreeInodes (gpRedMR s)),
       f_favail = posix (mr_ulFreeInodes (gpRedMR s)), f_fsid = 0,
       f_flag = posix RED_ST_NOSUID OR (if vol_fReadOnly (gpRedVolume s) then RED_ST_RDONLY else 0),
       f_namemax = posix (REDCONF_NAME_MAX E), f_maxfsize = INODE_SIZE_MAX E, f_dev = ucast (gbRedVolNum s),
       f_diskver = cv_ulVersion (gpRedCoreVol s)\<rparr>)"

definition RedCoreVolStat :: "'d env \<Rightarrow> ('d, REDSTATFS) op" where
  "RedCoreVolStat E = (\<lambda>s.
     if \<not> vol_fMounted (gpRedVolume s) then errE RED_EINVAL s else okE (stat_of_volume E s) s)"

definition RedCoreVolFreeOrphans :: "'d env \<Rightarrow> u32 \<Rightarrow> ('d, unit) iop" where
  "RedCoreVolFreeOrphans E ulCount = (\<lambda>st.
     if \<not> vol_fMounted (gpRedVolume (snd st)) \<or> ulCount = 0 then errE RED_EINVAL st
     else if vol_fReadOnly (gpRedVolume (snd st)) then errE RED_EROFS st
     else if mr_ulDefunctOrphanHead (gpRedMR (snd st)) = INODE_INVALID then errE RED_ENOENT st
     else thenE (RedVolFreeOrphans E ulCount)
       (bindE (getF (\<lambda>s. mr_ulDefunctOrphanHead (gpRedMR s))) (\<lambda>ulHead.
        if ulHead = INODE_INVALID then errE RED_ENOENT else okE ())) st)"

definition RedCoreTransMaskSet :: "'d env \<Rightarrow> u32 \<Rightarrow> ('d, unit) iop" where
  "RedCoreTransMaskSet E ulEventMask = (\<lambda>st.
     if \<not> vol_fMounted (gpRedVolume (snd st)) \<or> ulEventMask AND RED_TRANSACT_MASK E \<noteq> ulEventMask then errE RED_EINVAL st
     else if vol_fReadOnly (gpRedVolume (snd st)) then errE RED_EROFS st
     else modF (upd_vol (vol_ulTransMask_update (\<lambda>_. ulEventMask))) st)"

definition RedCoreTransMaskGet :: "('d, u32) iop" where
  "RedCoreTransMaskGet = (\<lambda>st.
     if \<not> vol_fMounted (gpRedVolume (snd st)) then errE RED_EINVAL st
     else okE (vol_ulTransMask (gpRedVolume (snd st))) st)"

section \<open>What the operations on files share\<close>

definition CoreAutoTransact :: "'d env \<Rightarrow> u32 \<Rightarrow> ('d, unit) iop" where
  "CoreAutoTransact E ulTransFlag = liftF (\<lambda>s.
     if vol_ulTransMask (gpRedVolume s) AND ulTransFlag \<noteq> 0 then RedVolTransact E s else okE () s)"

definition CoreFull :: "'d env \<Rightarrow> ('d, unit) iop" where
  "CoreFull E = (\<lambda>st.
     if vol_ulTransMask (gpRedVolume (snd st)) AND RED_TRANSACT_VOLFULL = 0 then errE RED_ENOSPC st
     else
       let ulFreeBlocks = mr_ulFreeBlocks (gpRedMR (snd st)) in
       thenE (whenE (DELETE_SUPPORTED E \<and> REDCONF_DELETE_OPEN E \<and>
                mr_ulDefunctOrphanHead (gpRedMR (snd st)) \<noteq> INODE_INVALID) (RedVolFreeOrphans E (- 1)))
         (thenE (bindE (getF (\<lambda>s. cv_ulAlmostFreeBlocks (gpRedCoreVol s))) (\<lambda>n.
             whenE (n > 0) (liftF (RedVolTransact E))))
           (bindE (getF (\<lambda>s. mr_ulFreeBlocks (gpRedMR s))) (\<lambda>n.
            if n \<le> ulFreeBlocks then errE RED_ENOSPC else okE ()))) st)"

text \<open>An operation that finds the volume full is tried once more when space could be freed.\<close>

definition retry_full :: "'d env \<Rightarrow> ('d, 'a) iop \<Rightarrow> ('d, 'a) iop" where
  "retry_full E f = statusE f (\<lambda>ret.
     if ret = Inl RED_ENOSPC then thenE (CoreFull E) f else returnE ret)"

definition not_readonly :: "('d, 'a) iop \<Rightarrow> ('d, 'a) iop" where
  "not_readonly f = (\<lambda>st. if vol_fReadOnly (gpRedVolume (snd st)) then errE RED_EROFS st else f st)"

text \<open>The body runs with the inode mounted, and the inode is put whatever the status; which
  times are updated depends on it.\<close>

definition with_inode :: "'d env \<Rightarrow> inoptr \<Rightarrow> u32 \<Rightarrow> FTYPE \<Rightarrow> bool \<Rightarrow> ('d, 'a) iop \<Rightarrow> (rederr + 'a \<Rightarrow> u8) \<Rightarrow> ('d, 'a) iop" where
  "with_inode E i ulInode type fBranch body bTimes =
     thenE (set_ino i ulInode)
       (thenE (RedInodeMount E i type fBranch)
         (statusE body (\<lambda>ret. thenE (RedInodePut E i (bTimes ret)) (returnE ret))))"

definition if_ok :: "u8 \<Rightarrow> 'e + 'a \<Rightarrow> u8" where
  "if_ok bTimeFields ret = (if is_ok ret then bTimeFields else 0)"

definition no_times :: "'e + 'a \<Rightarrow> u8" where "no_times ret = 0"

abbreviation MCTIME :: u8 where "MCTIME \<equiv> IPUT_UPDATE_MTIME OR IPUT_UPDATE_CTIME"

text \<open>The value of a variable, if it has been given one.\<close>

definition initialised :: "'a option \<Rightarrow> ('d, 'a) iop" where
  "initialised v = (case v of None \<Rightarrow> (\<lambda>_. None) | Some x \<Rightarrow> okE x)"

end
