(* ===== verification/Red_CoreFile.thy ===== *)
theory Red_CoreFile
  imports Red_Core
begin

text \<open>
  The core interface, continued: the operations of \<^verbatim>\<open>core/driver/core.c\<close> on files and directories.
  The open inodes that are local variables of the code have their own places in the store.
\<close>

section \<open>Creation and links\<close>

abbreviation INO_CREATE_P :: inoptr where "INO_CREATE_P \<equiv> 1"
abbreviation INO_CREATE :: inoptr where "INO_CREATE \<equiv> 2"
abbreviation INO_LINK_P :: inoptr where "INO_LINK_P \<equiv> 3"
abbreviation INO_LINK :: inoptr where "INO_LINK \<equiv> 4"
abbreviation INO_UNLINK_P :: inoptr where "INO_UNLINK_P \<equiv> 5"
abbreviation INO_UNLINK :: inoptr where "INO_UNLINK \<equiv> 6"
abbreviation INO_ORPHAN :: inoptr where "INO_ORPHAN \<equiv> 7"
abbreviation INO_PREV :: inoptr where "INO_PREV \<equiv> 8"
abbreviation INO_RENAME_SP :: inoptr where "INO_RENAME_SP \<equiv> 9"
abbreviation INO_RENAME_DP :: inoptr where "INO_RENAME_DP \<equiv> 10"
abbreviation INO_RENAME_S :: inoptr where "INO_RENAME_S \<equiv> 11"
abbreviation INO_RENAME_D :: inoptr where "INO_RENAME_D \<equiv> 12"
abbreviation INO_ONE :: inoptr where "INO_ONE \<equiv> 13"

definition CoreCreate :: "'d env \<Rightarrow> u32 \<Rightarrow> cstr option \<Rightarrow> u16 \<Rightarrow> ('d, u32) iop" where
  "CoreCreate E ulPInode pszName uMode = not_readonly
     (if uMode AND RED_S_IFVALID E \<noteq> uMode then errE RED_EINVAL
      else with_inode E INO_CREATE_P ulPInode FTYPE_DIR False
        (thenE (set_ino INO_CREATE INODE_INVALID)
          (thenE (RedInodeCreate E INO_CREATE (Some INO_CREATE_P) uMode)
            (statusE
              (thenE (RedInodeBranch E INO_CREATE_P)
                (bindE (getE (\<lambda>st. ci_ulInode (ci INO_CREATE st))) (\<lambda>ulInode.
                 thenE (RedDirEntryCreate E INO_CREATE_P pszName ulInode) (okE ulInode))))
              (\<lambda>ret.
                thenE (whenE (\<not> is_ok ret)
                    (statusE (RedInodeFree E INO_CREATE) (\<lambda>ret2. liftF (CRITICAL_ASSERT (is_ok ret2)))))
                  (thenE (RedInodePut E INO_CREATE 0) (returnE ret))))))
        (if_ok MCTIME))"

definition RedCoreCreate :: "'d env \<Rightarrow> u32 \<Rightarrow> cstr option \<Rightarrow> u16 \<Rightarrow> ('d, u32) iop" where
  "RedCoreCreate E ulPInode pszName uMode = writeable
     (bindE (retry_full E (CoreCreate E ulPInode pszName uMode)) (\<lambda>ulInode.
      thenE (CoreAutoTransact E (if RED_S_ISDIR (REDCONF_API_POSIX_SYMLINK E) uMode then RED_TRANSACT_MKDIR else RED_TRANSACT_CREAT))
        (okE ulInode)))"

definition CoreLink :: "'d env \<Rightarrow> u32 \<Rightarrow> cstr option \<Rightarrow> u32 \<Rightarrow> ('d, unit) iop" where
  "CoreLink E ulPInode pszName ulInode = not_readonly
     (with_inode E INO_LINK_P ulPInode FTYPE_DIR False
       (thenE (set_ino INO_LINK ulInode)
         (thenE (statusE (RedInodeMount E INO_LINK (FTYPE_NOTDIR E) False) (\<lambda>ret.
              returnE (if ret = Inl RED_EISDIR then Inl RED_EPERM else ret)))
           (statusE
             (bindE (readI E ci_pInodeBuf INO_LINK (ino_uNLink E)) (\<lambda>uNLink.
              thenE (if uNLink = 0xFFFF then errE RED_EMLINK else RedInodeBranch E INO_LINK_P)
                (thenE (RedInodeBranch E INO_LINK)
                  (bindE (getE (\<lambda>st. ci_ulInode (ci INO_LINK st))) (\<lambda>n.
                   thenE (RedDirEntryCreate E INO_LINK_P pszName n)
                     (writeI E ci_pInodeBuf INO_LINK (\<lambda>b. put16 (ino_off_uNLink E) (ino_uNLink E b + 1) b)))))))
             (\<lambda>ret. thenE (RedInodePut E INO_LINK (if_ok IPUT_UPDATE_CTIME ret)) (returnE ret)))))
       (if_ok MCTIME))"

definition RedCoreLink :: "'d env \<Rightarrow> u32 \<Rightarrow> cstr option \<Rightarrow> u32 \<Rightarrow> ('d, unit) iop" where
  "RedCoreLink E ulPInode pszName ulInode = writeable
     (thenE (retry_full E (CoreLink E ulPInode pszName ulInode)) (CoreAutoTransact E RED_TRANSACT_LINK))"

section \<open>Deletion\<close>

definition set_fUseReservedBlocks :: "'d env \<Rightarrow> bool \<Rightarrow> ('d, unit) iop" where
  "set_fUseReservedBlocks E v =
     whenE (RESERVED_BLOCKS E > 0) (modF (upd_cv (\<lambda>cv. cv\<lparr>cv_fUseReservedBlocks := v\<rparr>)))"

definition unlink_entry :: "'d env \<Rightarrow> u32 \<Rightarrow> bool \<Rightarrow> ('d, unit) iop" where
  "unlink_entry E ulDeleteIdx fOrphan =
     bindE (readI E ci_pInodeBuf INO_UNLINK ino_ullSize) (\<lambda>ullSize.
     bindE (getE (\<lambda>st. ci_fDirectory (ci INO_UNLINK st))) (\<lambda>dir.
     if dir \<and> ullSize > 0 then errE RED_ENOTEMPTY
     else thenE (set_fUseReservedBlocks E True)
       (statusE (RedDirEntryDelete E INO_UNLINK_P (Some INO_UNLINK) ulDeleteIdx) (\<lambda>ret.
          thenE (set_fUseReservedBlocks E False)
            (thenE (returnE ret)
              (thenE (RedInodePutCoord E INO_UNLINK_P)
                (statusE (RedInodeLinkDec E INO_UNLINK fOrphan) (\<lambda>ret.
                   thenE (liftF (CRITICAL_ASSERT (is_ok ret))) (returnE ret)))))))))"

definition CoreUnlink :: "'d env \<Rightarrow> u32 \<Rightarrow> cstr option \<Rightarrow> bool \<Rightarrow> ('d, unit) iop" where
  "CoreUnlink E ulPInode pszName fOrphan = not_readonly
     (if \<not> REDCONF_DELETE_OPEN E \<and> fOrphan then errE RED_EINVAL
      else with_inode E INO_UNLINK_P ulPInode FTYPE_DIR False
        (bindE (RedDirEntryLookup E INO_UNLINK_P pszName) (\<lambda>(ret, ulDeleteIdx, found).
         thenE (returnE ret)
           (thenE (RedInodeBranch E INO_UNLINK_P)
             (bindE (initialised found) (\<lambda>ulInode.
              with_inode E INO_UNLINK ulInode (FTYPE_ANY E) False
                (unlink_entry E ulDeleteIdx fOrphan) (if_ok IPUT_UPDATE_CTIME))))))
        (if_ok MCTIME))"

definition RedCoreUnlink :: "'d env \<Rightarrow> u32 \<Rightarrow> cstr option \<Rightarrow> bool \<Rightarrow> ('d, unit) iop" where
  "RedCoreUnlink E ulPInode pszName fOrphan = writeable
     (thenE (retry_full E (CoreUnlink E ulPInode pszName fOrphan)) (CoreAutoTransact E RED_TRANSACT_UNLINK))"

text \<open>The walk along the list of orphans, with the one before.\<close>

definition orphan_turn :: "'d env \<Rightarrow> unit \<Rightarrow> ('d, unit) iop" where
  "orphan_turn E = (\<lambda>_.
     bindE (getE (\<lambda>st. ci_ulInode (ci INO_PREV st))) (\<lambda>ulPrev.
     thenE (whenE (ulPrev \<noteq> INODE_INVALID) (RedInodePut E INO_PREV 0))
       (thenE (modE (\<lambda>st. upd_ci INO_PREV (\<lambda>_. ci INO_ORPHAN st) st))
         (bindE (readI E ci_pInodeBuf INO_PREV (ino_ulNextOrphan E)) (\<lambda>ulNext.
          thenE (set_ino INO_ORPHAN ulNext) (RedInodeMount E INO_ORPHAN (FTYPE_ANY E) False))))))"

definition RedCoreFreeOrphan :: "'d env \<Rightarrow> u32 \<Rightarrow> ('d, unit) iop" where
  "RedCoreFreeOrphan E ulInode = writeable
     (thenE (set_ino INO_PREV INODE_INVALID)
       (bindE (getF (\<lambda>s. mr_ulOrphanHead (gpRedMR s))) (\<lambda>ulHead.
        thenE (set_ino INO_ORPHAN ulHead)
          (thenE (RedInodeMount E INO_ORPHAN (FTYPE_ANY E) False)
            (thenE (whileE (\<lambda>_ st. ci_ulInode (ci INO_ORPHAN st) \<noteq> ulInode) (orphan_turn E) ())
              (bindE (readI E ci_pInodeBuf INO_ORPHAN (ino_ulNextOrphan E)) (\<lambda>ulNextInode.
               thenE (RedInodeFreeOrphan E INO_ORPHAN)
                 (bindE (getF (\<lambda>s. mr_ulOrphanHead (gpRedMR s))) (\<lambda>ulHead.
                  thenE (if ulHead = ulInode then modF (upd_MR (put32 mr_off_ulOrphanHead ulNextInode))
                         else statusE (RedInodeBranch E INO_PREV) (\<lambda>ret.
                           thenE (liftF (CRITICAL_ASSERT (is_ok ret)))
                             (thenE (whenE (is_ok ret) (writeI E ci_pInodeBuf INO_PREV (put32 (ino_off_ulNextOrphan E) ulNextInode)))
                               (thenE (RedInodePut E INO_PREV 0) (returnE ret)))))
                    (bindE (getE (\<lambda>st. (mr_ulOrphanTail (gpRedMR (snd st)), ci_ulInode (ci INO_PREV st)))) (\<lambda>(ulTail, ulPrev).
                     whenE (ulInode = ulTail) (modF (upd_MR (put32 mr_off_ulOrphanTail ulPrev))))))))))))))"

section \<open>Looking up and renaming\<close>

text \<open>The inode number of a lookup, if one is stored.\<close>

definition RedCoreLookup :: "'d env \<Rightarrow> u32 \<Rightarrow> cstr option \<Rightarrow> ('d, u32 option) iop" where
  "RedCoreLookup E ulPInode pszName = (\<lambda>st.
     if \<not> vol_fMounted (gpRedVolume (snd st)) then errE RED_EINVAL st
     else with_inode E INO_ONE ulPInode FTYPE_DIR False
       (bindE (RedDirEntryLookup E INO_ONE pszName) (\<lambda>(ret, _, found). thenE (returnE ret) (okE found)))
       no_times st)"

text \<open>
  A rename on the inodes \<open>sp\<close> and \<open>dp\<close> of the two directories; they are one variable when the directories are one. The
  value is whether the times are to be updated.
\<close>

definition rename_inodes :: "'d env \<Rightarrow> inoptr \<Rightarrow> cstr option \<Rightarrow> inoptr \<Rightarrow> cstr option \<Rightarrow> bool \<Rightarrow> ('d, bool) iop" where
  "rename_inodes E sp pszSrcName dp pszDstName fOrphan =
     thenE (modE (upd_ci INO_RENAME_S (\<lambda>_. cinode_zero 0)))
       (thenE (modE (upd_ci INO_RENAME_D (\<lambda>_. cinode_zero 0)))
         (statusE
           (thenE (RedDirEntryRename E sp pszSrcName INO_RENAME_S dp pszDstName INO_RENAME_D)
             (bindE (getE (\<lambda>st. (ci_ulInode (ci INO_RENAME_S st), ci_ulInode (ci INO_RENAME_D st)))) (\<lambda>(ulSrc, ulDst).
              thenE (whenE (REDCONF_RENAME_ATOMIC E \<and> ulDst \<noteq> INODE_INVALID \<and> ulDst \<noteq> ulSrc)
                  (thenE (RedInodePutCoord E sp)
                    (thenE (RedInodePutCoord E dp)
                      (statusE (RedInodeLinkDec E INO_RENAME_D fOrphan) (\<lambda>ret.
                         thenE (liftF (CRITICAL_ASSERT (is_ok ret))) (returnE ret))))))
                (getE (\<lambda>st. \<not> REDCONF_RENAME_ATOMIC E \<or>
                   ci_ulInode (ci INO_RENAME_D st) \<noteq> ci_ulInode (ci INO_RENAME_S st))))))
           (\<lambda>ret.
             let fUpdateTimestamps = (ret = Inr True) in
             thenE (whenE (REDCONF_RENAME_ATOMIC E) (RedInodePut E INO_RENAME_D 0))
               (thenE (RedInodePut E INO_RENAME_S (if fUpdateTimestamps then IPUT_UPDATE_CTIME else 0))
                 (thenE (RedInodePut E dp (if fUpdateTimestamps then MCTIME else 0)) (returnE ret))))))"

definition CoreRename :: "'d env \<Rightarrow> u32 \<Rightarrow> cstr option \<Rightarrow> u32 \<Rightarrow> cstr option \<Rightarrow> bool \<Rightarrow> ('d, unit) iop" where
  "CoreRename E ulSrcPInode pszSrcName ulDstPInode pszDstName fOrphan = not_readonly
     (if \<not> REDCONF_DELETE_OPEN E \<and> fOrphan then errE RED_EINVAL
      else thenE (set_ino INO_RENAME_SP ulSrcPInode)
        (statusE
          (thenE (RedInodeMount E INO_RENAME_SP FTYPE_DIR True)
            (if ulSrcPInode = ulDstPInode
             then rename_inodes E INO_RENAME_SP pszSrcName INO_RENAME_SP pszDstName fOrphan
             else thenE (set_ino INO_RENAME_DP ulDstPInode)
               (thenE (RedInodeMount E INO_RENAME_DP FTYPE_DIR True)
                 (rename_inodes E INO_RENAME_SP pszSrcName INO_RENAME_DP pszDstName fOrphan))))
          (\<lambda>ret. thenE (RedInodePut E INO_RENAME_SP (if ret = Inr True then MCTIME else 0))
             (thenE (returnE ret) (okE ())))))"

definition RedCoreRename :: "'d env \<Rightarrow> u32 \<Rightarrow> cstr option \<Rightarrow> u32 \<Rightarrow> cstr option \<Rightarrow> bool \<Rightarrow> ('d, unit) iop" where
  "RedCoreRename E ulSrcPInode pszSrcName ulDstPInode pszDstName fOrphan = writeable
     (thenE (retry_full E (CoreRename E ulSrcPInode pszSrcName ulDstPInode pszDstName fOrphan))
       (CoreAutoTransact E RED_TRANSACT_RENAME))"

section \<open>Attributes\<close>

record REDSTAT =
  st_dev :: u8
  st_ino :: u32
  st_mode :: u16
  st_nlink :: u16
  st_uid :: u32
  st_gid :: u32
  st_size :: u64
  st_atime :: u32
  st_mtime :: u32
  st_ctime :: u32
  st_blocks :: u32

text \<open>A field that the configuration leaves out of the structure is zero.\<close>

definition stat_of_inode :: "'d env \<Rightarrow> u8 \<Rightarrow> u32 \<Rightarrow> bytes \<Rightarrow> REDSTAT" where
  "stat_of_inode E bVolNum ulInode b =
     \<lparr>st_dev = bVolNum, st_ino = ulInode, st_mode = ino_uMode E b,
      st_nlink = (if REDCONF_API_POSIX_LINK E then ino_uNLink E b else 1),
      st_uid = (if REDCONF_POSIX_OWNER_PERM E then ino_ulUID E b else 0),
      st_gid = (if REDCONF_POSIX_OWNER_PERM E then ino_ulGID E b else 0),
      st_size = ino_ullSize b,
      st_atime = (if REDCONF_INODE_TIMESTAMPS E then get32 (ino_off_ulATime E) b else 0),
      st_mtime = (if REDCONF_INODE_TIMESTAMPS E then get32 (ino_off_ulMTime E) b else 0),
      st_ctime = (if REDCONF_INODE_TIMESTAMPS E then get32 (ino_off_ulCTime E) b else 0),
      st_blocks = (if REDCONF_INODE_BLOCKS E then ino_ulBlocks b else 0)\<rparr>"

definition RedCoreStat :: "'d env \<Rightarrow> u32 \<Rightarrow> ('d, REDSTAT) iop" where
  "RedCoreStat E ulInode = (\<lambda>st.
     if \<not> vol_fMounted (gpRedVolume (snd st)) then errE RED_EINVAL st
     else with_inode E INO_ONE ulInode (FTYPE_ANY E) False
       (bindE (getF gbRedVolNum) (\<lambda>v. readI E ci_pInodeBuf INO_ONE (stat_of_inode E v ulInode))) no_times st)"

definition who :: "'d env \<Rightarrow> ('d, os_identity) iop" where
  "who E = getF (\<lambda>s. RedOsIdentity E (os s))"

definition chmod_bits :: "'d env \<Rightarrow> os_identity \<Rightarrow> u16 \<Rightarrow> bytes \<Rightarrow> bytes" where
  "chmod_bits E user uMode b =
     (let m = (ino_uMode E b AND NOT RED_S_IALLUGO) OR uMode;
          m = (if RED_S_ISREG (REDCONF_API_POSIX_SYMLINK E) m \<and> \<not> osp_IsPrivileged user \<and>
                  \<not> osp_IsGroupMember user (ino_ulGID E b)
               then m AND NOT RED_S_ISGID else m)
      in put16 (ino_off_uMode E) m b)"

definition RedCoreChmod :: "'d env \<Rightarrow> u32 \<Rightarrow> u16 \<Rightarrow> ('d, unit) iop" where
  "RedCoreChmod E ulInode uMode = (\<lambda>st.
     if \<not> vol_fMounted (gpRedVolume (snd st)) \<or> uMode AND NOT RED_S_IALLUGO \<noteq> 0 then errE RED_EINVAL st
     else not_readonly
       (with_inode E INO_ONE ulInode (FTYPE_ANY E) False
         (bindE (who E) (\<lambda>user.
          bindE (readI E ci_pInodeBuf INO_ONE (ino_ulUID E)) (\<lambda>ulUID.
          if \<not> osp_IsPrivileged user \<and> osp_UserId user \<noteq> ulUID then errE RED_EPERM
          else thenE (RedInodeBranch E INO_ONE) (writeI E ci_pInodeBuf INO_ONE (chmod_bits E user uMode)))))
         (if_ok IPUT_UPDATE_CTIME)) st)"

definition RED_UID_KEEPSAME :: u32 where "RED_UID_KEEPSAME = - 1"
definition RED_GID_KEEPSAME :: u32 where "RED_GID_KEEPSAME = - 1"

definition chown_clears_id :: "'d env \<Rightarrow> u16 \<Rightarrow> bool" where
  "chown_clears_id E uMode \<longleftrightarrow> RED_S_ISREG (REDCONF_API_POSIX_SYMLINK E) uMode \<and>
     uMode AND (RED_S_IXUSR OR RED_S_IXGRP OR RED_S_IXOTH) \<noteq> 0"

definition chown_fields :: "'d env \<Rightarrow> u32 \<Rightarrow> u32 \<Rightarrow> bool \<Rightarrow> bytes \<Rightarrow> bytes" where
  "chown_fields E ulUID ulGID fClearIsId b =
     (let b = (if ulUID \<noteq> RED_UID_KEEPSAME then put32 (ino_off_ulUID E) ulUID b else b);
          b = (if ulGID \<noteq> RED_GID_KEEPSAME then put32 (ino_off_ulGID E) ulGID b else b)
      in if fClearIsId then put16 (ino_off_uMode E) (ino_uMode E b AND NOT (RED_S_ISUID OR RED_S_ISGID)) b else b)"

text \<open>The value is the times to update, which is none when the change fails.\<close>

definition chown_body :: "'d env \<Rightarrow> u32 \<Rightarrow> u32 \<Rightarrow> ('d, u8) iop" where
  "chown_body E ulUID ulGID =
     bindE (who E) (\<lambda>user.
     bindE (readI E ci_pInodeBuf INO_ONE (\<lambda>b. (ino_ulUID E b, ino_uMode E b))) (\<lambda>(ulOldUID, uMode).
     if \<not> osp_IsPrivileged user \<and> osp_UserId user \<noteq> ulOldUID \<and> ulUID \<noteq> RED_UID_KEEPSAME \<and> ulUID \<noteq> ulOldUID
     then errE RED_EPERM
     else
       let fUpdate = (ulUID \<noteq> RED_UID_KEEPSAME \<or> ulGID \<noteq> RED_GID_KEEPSAME); fClearIsId = chown_clears_id E uMode in
       thenE (whenE (fUpdate \<or> fClearIsId) (RedInodeBranch E INO_ONE))
         (thenE (writeI E ci_pInodeBuf INO_ONE (chown_fields E ulUID ulGID fClearIsId))
           (okE (if fUpdate then IPUT_UPDATE_CTIME else 0)))))"

definition RedCoreChown :: "'d env \<Rightarrow> u32 \<Rightarrow> u32 \<Rightarrow> u32 \<Rightarrow> ('d, unit) iop" where
  "RedCoreChown E ulInode ulUID ulGID = writeable
     (thenE (with_inode E INO_ONE ulInode (FTYPE_ANY E) False (chown_body E ulUID ulGID)
         (\<lambda>ret. case ret of Inl _ \<Rightarrow> 0 | Inr t \<Rightarrow> t))
       (okE ()))"

definition utimes_allowed :: "'d env \<Rightarrow> (u32 \<times> u32) option \<Rightarrow> ('d, unit) iop" where
  "utimes_allowed E pulTimes =
     bindE (who E) (\<lambda>user.
     bindE (readI E ci_pInodeBuf INO_ONE (ino_ulUID E)) (\<lambda>ulUID.
     if osp_IsPrivileged user \<or> osp_UserId user = ulUID then okE ()
     else if pulTimes \<noteq> None then errE RED_EPERM
     else perm_check E INO_ONE RED_W_OK))"

definition RedCoreUTimes :: "'d env \<Rightarrow> u32 \<Rightarrow> (u32 \<times> u32) option \<Rightarrow> ('d, unit) iop" where
  "RedCoreUTimes E ulInode pulTimes = writeable
     (with_inode E INO_ONE ulInode (FTYPE_ANY E) False
       (thenE (whenE (REDCONF_POSIX_OWNER_PERM E) (utimes_allowed E pulTimes))
         (thenE (RedInodeBranch E INO_ONE)
           (bindE (getF (\<lambda>s. RedOsClockGetTime E (os s))) (\<lambda>ulNow.
            let (a, m) = (case pulTimes of None \<Rightarrow> (ulNow, ulNow) | Some t \<Rightarrow> t) in
            writeI E ci_pInodeBuf INO_ONE (put32 (ino_off_ulMTime E) m \<circ> put32 (ino_off_ulATime E) a)))))
       (if_ok IPUT_UPDATE_CTIME))"

section \<open>The data of files\<close>

definition RedCoreFileSizeGet :: "'d env \<Rightarrow> u32 \<Rightarrow> ('d, u64) iop" where
  "RedCoreFileSizeGet E ulInode = (\<lambda>st.
     if \<not> vol_fMounted (gpRedVolume (snd st)) then errE RED_EINVAL st
     else with_inode E INO_ONE ulInode FTYPE_FILE False (readI E ci_pInodeBuf INO_ONE ino_ullSize) no_times st)"

definition RedCoreFileRead :: "'d env \<Rightarrow> u32 \<Rightarrow> u64 \<Rightarrow> u32 \<Rightarrow> bytes \<Rightarrow> ('d, u32 \<times> bytes) iop" where
  "RedCoreFileRead E ulInode ullStart ulLen pBuffer = (\<lambda>st.
     if \<not> vol_fMounted (gpRedVolume (snd st)) then errE RED_EINVAL st
     else let fUpdateAtime = (REDCONF_ATIME E \<and> ulLen > 0 \<and> \<not> vol_fReadOnly (gpRedVolume (snd st))) in
       with_inode E INO_ONE ulInode (FTYPE_NOTDIR E) fUpdateAtime
         (RedInodeDataRead E INO_ONE ullStart ulLen pBuffer)
         (if_ok (if fUpdateAtime then IPUT_UPDATE_ATIME else 0)) st)"

definition CoreFileWrite :: "'d env \<Rightarrow> u32 \<Rightarrow> u64 \<Rightarrow> u32 \<Rightarrow> bytes \<Rightarrow> ('d, u32) iop" where
  "CoreFileWrite E ulInode ullStart ulLen pBuffer = not_readonly
     (with_inode E INO_ONE ulInode (FTYPE_NOTDIR E) True
       (RedInodeDataWrite E INO_ONE ullStart ulLen pBuffer) (if_ok MCTIME))"

definition RedCoreFileWrite :: "'d env \<Rightarrow> u32 \<Rightarrow> u64 \<Rightarrow> u32 \<Rightarrow> bytes \<Rightarrow> ('d, u32) iop" where
  "RedCoreFileWrite E ulInode ullStart ulLen pBuffer = writeable
     (bindE (retry_full E (CoreFileWrite E ulInode ullStart ulLen pBuffer)) (\<lambda>ulLenWrote.
      thenE (CoreAutoTransact E RED_TRANSACT_WRITE) (okE ulLenWrote)))"

definition set_fUseReservedInodeBlocks :: "bool \<Rightarrow> ('d, unit) iop" where
  "set_fUseReservedInodeBlocks v = modF (upd_cv (\<lambda>cv. cv\<lparr>cv_fUseReservedInodeBlocks := v\<rparr>))"

definition RedCoreFileWriteReserved :: "'d env \<Rightarrow> u32 \<Rightarrow> u64 \<Rightarrow> u32 \<Rightarrow> bytes \<Rightarrow> ('d, u32) iop" where
  "RedCoreFileWriteReserved E ulInode ullStart ulLen pBuffer =
     thenE (set_fUseReservedInodeBlocks True)
       (finallyE (RedCoreFileWrite E ulInode ullStart ulLen pBuffer) (set_fUseReservedInodeBlocks False))"

definition CoreFileTruncate :: "'d env \<Rightarrow> u32 \<Rightarrow> u64 \<Rightarrow> ('d, unit) iop" where
  "CoreFileTruncate E ulInode ullSize = not_readonly
     (with_inode E INO_ONE ulInode (FTYPE_NOTDIR E) True
       (bindE (readI E ci_pInodeBuf INO_ONE ino_ullSize) (\<lambda>ullOld.
        thenE (set_fUseReservedBlocks E (ullSize < ullOld))
          (finallyE (RedInodeDataTruncate E INO_ONE ullSize) (set_fUseReservedBlocks E False))))
       (if_ok MCTIME))"

definition RedCoreFileTruncate :: "'d env \<Rightarrow> u32 \<Rightarrow> u64 \<Rightarrow> ('d, unit) iop" where
  "RedCoreFileTruncate E ulInode ullSize = writeable
     (thenE (retry_full E (CoreFileTruncate E ulInode ullSize)) (CoreAutoTransact E RED_TRANSACT_TRUNCATE))"

definition CoreFileReserve :: "'d env \<Rightarrow> u32 \<Rightarrow> u64 \<Rightarrow> u64 \<Rightarrow> ('d, unit) iop" where
  "CoreFileReserve E ulInode ullOffset ullLen = not_readonly
     (with_inode E INO_ONE ulInode FTYPE_FILE True (RedInodeDataReserve E INO_ONE ullOffset ullLen) (if_ok MCTIME))"

definition RedCoreFileReserve :: "'d env \<Rightarrow> u32 \<Rightarrow> u64 \<Rightarrow> u64 \<Rightarrow> ('d, unit) iop" where
  "RedCoreFileReserve E ulInode ullOffset ullLen = writeable (retry_full E (CoreFileReserve E ulInode ullOffset ullLen))"

definition RedCoreFileUnreserve :: "'d env \<Rightarrow> u32 \<Rightarrow> u64 \<Rightarrow> ('d, unit) iop" where
  "RedCoreFileUnreserve E ulInode ullOffset = writeable
     (with_inode E INO_ONE ulInode FTYPE_FILE False (RedInodeDataUnreserve E INO_ONE ullOffset) no_times)"

section \<open>Directories\<close>

text \<open>The result is that of the read of the entry; the update of the access time may fail it.\<close>

definition dir_read_body :: "'d env \<Rightarrow> u32 \<Rightarrow> cstr \<Rightarrow> ('d, (rederr + u32) \<times> u32 \<times> cstr) iop" where
  "dir_read_body E ulPos pszName =
     bindE (RedDirEntryRead E INO_ONE ulPos pszName) (\<lambda>(ret, ulPos, name).
     bindE (getF (\<lambda>s. REDCONF_ATIME E \<and> is_ok ret \<and> \<not> vol_fReadOnly (gpRedVolume s))) (\<lambda>atime.
     if \<not> atime then okE (ret, ulPos, name)
     else statusE (RedInodeBranch E INO_ONE) (\<lambda>ret2.
       okE (case ret2 of Inl e \<Rightarrow> Inl e | Inr _ \<Rightarrow> ret, ulPos, name))))"

definition RedCoreDirRead :: "'d env \<Rightarrow> u32 \<Rightarrow> u32 \<Rightarrow> cstr \<Rightarrow> ('d, (rederr + u32) \<times> u32 \<times> cstr) iop" where
  "RedCoreDirRead E ulInode ulPos pszName = (\<lambda>st.
     if \<not> vol_fMounted (gpRedVolume (snd st)) then errE RED_EINVAL st
     else
       thenE (set_ino INO_ONE ulInode)
         (thenE (RedInodeMount E INO_ONE FTYPE_DIR False)
           (statusE (dir_read_body E ulPos pszName) (\<lambda>r.
              bindE (getF (\<lambda>s. REDCONF_ATIME E \<and> \<not> vol_fReadOnly (gpRedVolume s) \<and>
                  (case r of Inl _ \<Rightarrow> False | Inr (ret, _) \<Rightarrow> is_ok ret))) (\<lambda>atime.
              thenE (RedInodePut E INO_ONE (if atime then IPUT_UPDATE_ATIME else 0)) (returnE r))))) st)"

definition RedCoreDirParent :: "'d env \<Rightarrow> u32 \<Rightarrow> ('d, u32) iop" where
  "RedCoreDirParent E ulInode = (\<lambda>st.
     if \<not> vol_fMounted (gpRedVolume (snd st)) then errE RED_EINVAL st
     else if ulInode = INODE_ROOTDIR then okE INODE_INVALID st
     else with_inode E INO_ONE ulInode FTYPE_DIR False
       (bindE (readI E ci_pInodeBuf INO_ONE (ino_ulPInode E)) (\<lambda>ulPInode.
        if DELETE_SUPPORTED E \<and> REDCONF_DELETE_OPEN E \<and> ulPInode = INODE_INVALID then errE RED_ENOENT
        else okE ulPInode)) no_times st)"

end
