(* ===== verification/Red_Format.thy ===== *)
theory Red_Format
  imports Red_CoreFile
begin

text \<open>
  The formatter, from \<^verbatim>\<open>core/driver/format.c\<close>: the layout of the volume, its first transactions and
  the master block.
\<close>

section \<open>The options\<close>

record REDFMTOPT =
  fo_ulVersion :: u32
  fo_ulInodeCount :: u32

definition RED_FORMAT_INODE_COUNT_CONFIG :: u32 where "RED_FORMAT_INODE_COUNT_CONFIG = 0"
definition RED_FORMAT_INODE_COUNT_AUTO :: u32 where "RED_FORMAT_INODE_COUNT_AUTO = - 1"
definition INODE_COUNT_AUTO :: u32 where "INODE_COUNT_AUTO = 0"

definition RED_DISK_LAYOUT_VERSION :: "'d env \<Rightarrow> u32" where
  "RED_DISK_LAYOUT_VERSION E =
     (if \<not> REDCONF_API_POSIX E \<or> RED_DISK_LAYOUT_MAXIMUM E < RED_DISK_LAYOUT_DIRCRC then RED_DISK_LAYOUT_ORIGINAL
      else if RED_DISK_LAYOUT_MINIMUM E < RED_DISK_LAYOUT_DIRCRC then RED_DISK_LAYOUT_DIRCRC
      else RED_DISK_LAYOUT_MINIMUM E)"

text \<open>The automatic number of inodes: one for 16 blocks, and enough to use every block.\<close>

definition ComputeInodeCount :: "'d env \<Rightarrow> u32 \<Rightarrow> u32" where
  "ComputeInodeCount E ulBlockCount =
     (let ulInodeBlocksMax = ucast (min 0xFFFFFFFF
            (2 + ucast (INODE_DATA_BLOCKS E) + ucast (REDCONF_INDIRECT_POINTERS E) +
             ucast (DINDIR_POINTERS E * INDIR_ENTRIES E) :: u64));
          ulInodeCountMin = ulBlockCount div ulInodeBlocksMax;
          ulInodeCountMin = (if ulBlockCount mod ulInodeBlocksMax \<noteq> 0 then ulInodeCountMin + 1 else ulInodeCountMin)
      in max ulInodeCountMin (ulBlockCount div (16 + 2)))"

definition format_inode_count :: "'d env \<Rightarrow> u32 \<Rightarrow> 'd fs \<Rightarrow> u32" where
  "format_inode_count E ulOptCount s =
     (let n = (if ulOptCount = RED_FORMAT_INODE_COUNT_CONFIG then vc_ulInodeCount (gaRedVolConf E (gbRedVolNum s))
               else if ulOptCount = RED_FORMAT_INODE_COUNT_AUTO then INODE_COUNT_AUTO
               else ulOptCount)
      in if n = INODE_COUNT_AUTO then ComputeInodeCount E (vol_ulBlockCount (gpRedVolume s)) else n)"

section \<open>The steps\<close>

text \<open>The old master block is overwritten, so that the volume cannot be mounted half formatted.\<close>

definition format_wipe :: "'d env \<Rightarrow> ('d, unit) op" where
  "format_wipe E =
     thenE (bindE (RedBufferGet E BLOCK_NUM_MASTER (BFLAG_NEW OR BFLAG_DIRTY)) (\<lambda>p.
         finallyE (RedBufferFlushRange E BLOCK_NUM_MASTER 1) (modE (RedBufferDiscard E p))))
       (\<lambda>s. RedIoFlush E (gbRedVolNum s) s)"

fun format_imap :: "'d env \<Rightarrow> u32 \<Rightarrow> nat \<Rightarrow> ('d, unit) op" where
  "format_imap E ulImapBlock 0 = okE ()"
| "format_imap E ulImapBlock (Suc n) =
     bindE (RedBufferGet E ulImapBlock (BFLAG_META_IMAP OR BFLAG_NEW OR BFLAG_DIRTY)) (\<lambda>p.
     thenE (modE (RedBufferPut E p)) (format_imap E (ulImapBlock + 1) n))"

definition format_metaroot :: "'d env \<Rightarrow> ('d, unit) op" where
  "format_metaroot E =
     thenE (modE (\<lambda>s. upd_cv (\<lambda>cv. cv\<lparr>cv_fBranched := True\<rparr>)
         (upd_MR (\<lambda>_. put32 (mr_off_ulAllocNextBlock E) (cv_ulFirstAllocableBN (gpRedCoreVol s))
            ((if REDCONF_API_POSIX E then put32 mr_off_ulFreeInodes (cv_ulInodeCount (gpRedCoreVol s)) else (\<lambda>b. b))
              (put32 mr_off_ulFreeBlocks (vol_ulBlocksAllocable (gpRedVolume s)) (replicate (BSIZE E) 0)))) s)))
       (RedVolTransact E)"

definition INO_FORMAT :: inoptr where "INO_FORMAT = 104"

definition format_rootdir :: "'d env \<Rightarrow> ('d, unit) iop" where
  "format_rootdir E =
     thenE (set_ino INO_FORMAT INODE_ROOTDIR)
       (thenE (RedInodeCreate E INO_FORMAT None (RED_S_IFDIR OR
           ((RED_S_IRUSR OR RED_S_IWUSR OR RED_S_IXUSR OR RED_S_IRGRP OR RED_S_IWGRP OR RED_S_IXGRP OR
             RED_S_IROTH OR RED_S_IWOTH OR RED_S_IXOTH) AND RED_S_IFVALID E)))
         (RedInodePut E INO_FORMAT 0))"

text \<open>
  The files of a volume without directories: the loop goes on after an error, and its status
  is that of the last inode.
\<close>

definition format_file :: "'d env \<Rightarrow> u32 \<Rightarrow> ('d, unit) iop" where
  "format_file E ulInodeIdx =
     thenE (set_ino INO_FORMAT (INODE_FIRST_FREE E + ulInodeIdx))
       (thenE (RedInodeCreate E INO_FORMAT None RED_S_IFREG) (RedInodePut E INO_FORMAT 0))"

fun format_files :: "'d env \<Rightarrow> u32 \<Rightarrow> nat \<Rightarrow> rederr + unit \<Rightarrow> ('d, unit) iop" where
  "format_files E ulInodeIdx 0 ret = returnE ret"
| "format_files E ulInodeIdx (Suc n) ret =
     statusE (format_file E ulInodeIdx) (\<lambda>ret. format_files E (ulInodeIdx + 1) n ret)"

section \<open>The master block\<close>

partial_function (option) sector_p2 :: "u32 \<Rightarrow> u8 \<Rightarrow> u8 option" where
  "sector_p2 ulSectorSize bSectorSizeP2 =
     (if push_bit (unat bSectorSizeP2) 1 < ulSectorSize then sector_p2 ulSectorSize (bSectorSizeP2 + 1)
      else Some bSectorSizeP2)"

definition master_flags :: "'d env \<Rightarrow> u8" where
  "master_flags E =
     (if REDCONF_API_POSIX E then MBFLAG_API_POSIX else 0) OR
     (if REDCONF_INODE_TIMESTAMPS E then MBFLAG_INODE_TIMESTAMPS else 0) OR
     (if REDCONF_INODE_BLOCKS E then MBFLAG_INODE_BLOCKS else 0) OR
     (if REDCONF_API_POSIX E \<and> REDCONF_API_POSIX_LINK E then MBFLAG_INODE_NLINK else 0) OR
     (if REDCONF_API_POSIX E \<and> REDCONF_POSIX_OWNER_PERM E then MBFLAG_INODE_UIDGID else 0) OR
     (if REDCONF_API_POSIX E \<and> REDCONF_DELETE_OPEN E then MBFLAG_DELETE_OPEN else 0)"

text \<open>The fields of the master block, stored into the buffer in the order of the code.\<close>

definition master_bytes :: "'d env \<Rightarrow> u32 \<Rightarrow> u32 \<Rightarrow> u32 \<Rightarrow> u32 \<Rightarrow> u8 \<Rightarrow> bytes \<Rightarrow> bytes" where
  "master_bytes E ulVersion ulNow ulInodeCount ulBlockCount bSectorSizeP2 b =
     (let b = put32 16 ulVersion b;
          b = overwrite 20 (0x30 # replicate 7 0) b;
          b = put32 28 ulNow b;
          b = put32 32 ulInodeCount b;
          b = put32 36 ulBlockCount b;
          b = put16 40 (ucast (REDCONF_NAME_MAX E)) b;
          b = put16 42 (ucast (REDCONF_DIRECT_POINTERS E)) b;
          b = put16 44 (ucast (REDCONF_INDIRECT_POINTERS E)) b;
          b = overwrite 46 [word_of_nat (BLOCK_SIZE_P2 E)] b;
          b = overwrite 47 [mb_bFlags b OR master_flags E] b;
          b = (if REDCONF_API_POSIX E \<and> REDCONF_API_POSIX_SYMLINK E
               then put16 50 (mb_uFeaturesReadOnly b OR MBFEATURE_SYMLINK) b else b)
      in if ulVersion \<ge> RED_DISK_LAYOUT_POSIXIER then overwrite 52 [bSectorSizeP2] b else b)"

definition format_master :: "'d env \<Rightarrow> u32 \<Rightarrow> ('d, unit) op" where
  "format_master E ulVersion =
     thenE (bindE (RedBufferGet E BLOCK_NUM_MASTER (BFLAG_META_MASTER OR BFLAG_NEW OR BFLAG_DIRTY)) (\<lambda>p.
         thenE (\<lambda>s. case (if ulVersion \<ge> RED_DISK_LAYOUT_POSIXIER
                            then sector_p2 (bi_ulSectorSize (gaRedBdevInfo s (gbRedVolNum s))) 1 else Some 0) of
               None \<Rightarrow> None
             | Some bSectorSizeP2 \<Rightarrow>
                 modE (upd_buf E p (master_bytes E ulVersion (RedOsClockGetTime E (os s)) (cv_ulInodeCount (gpRedCoreVol s))
                   (vol_ulBlockCount (gpRedVolume s)) bSectorSizeP2)) s)
           (finallyE (RedBufferFlushRange E BLOCK_NUM_MASTER 1) (modE (RedBufferPut E p)))))
       (\<lambda>s. RedIoFlush E (gbRedVolNum s) s)"

section \<open>The whole\<close>

definition format_volume :: "'d env \<Rightarrow> u32 \<Rightarrow> u32 \<Rightarrow> ('d, unit) iop" where
  "format_volume E ulVersion ulOptCount =
     thenE (liftF (\<lambda>s. modE (\<lambda>s. upd_vol (\<lambda>v. v\<lparr>vol_fReadOnly := False\<rparr>)
         (upd_cv (\<lambda>cv. cv\<lparr>cv_ulVersion := ulVersion, cv_ulInodeCount := format_inode_count E ulOptCount s\<rparr>) s)) s))
       (thenE (liftF (RedVolInitBlockLayout E))
         (thenE (liftF (format_wipe E))
           (thenE (liftF (\<lambda>s. whenE (REDCONF_IMAP_EXTERNAL E \<and> \<not> cv_fImapInline (gpRedCoreVol s))
                (format_imap E (cv_ulImapStartBN (gpRedCoreVol s))
                  (unat (cv_ulImapStartBN (gpRedCoreVol s) + cv_ulImapNodeCount (gpRedCoreVol s) * 2) -
                   unat (cv_ulImapStartBN (gpRedCoreVol s)))) s))
             (thenE (liftF (format_metaroot E))
               (thenE (if REDCONF_API_POSIX E then format_rootdir E
                       else bindE (getF (\<lambda>s. cv_ulInodeCount (gpRedCoreVol s))) (\<lambda>n.
                         format_files E 0 (unat n) (Inr ())))
                 (thenE (liftF (RedVolTransact E)) (liftF (format_master E ulVersion))))))))"

text \<open>
  A status after which the block device is closed, and the buffers discarded when the geometry was
  initialised: an error of those counts when there was none before.
\<close>

definition then_status :: "('d, unit) iop \<Rightarrow> ('d, unit) iop \<Rightarrow> ('d, unit) iop" where
  "then_status f g = statusE f (\<lambda>ret. statusE g (\<lambda>ret2. returnE (if is_ok ret then ret2 else ret)))"

definition RedVolFormat :: "'d env \<Rightarrow> REDFMTOPT option \<Rightarrow> ('d, unit) iop" where
  "RedVolFormat E pOptions = (\<lambda>st.
     let opts = (case pOptions of None \<Rightarrow> \<lparr>fo_ulVersion = 0, fo_ulInodeCount = 0\<rparr> | Some p \<Rightarrow> p);
         ulVersion = (if fo_ulVersion opts = 0 then RED_DISK_LAYOUT_VERSION E else fo_ulVersion opts);
         v = gbRedVolNum (snd st)
     in if fo_ulVersion opts \<noteq> 0 \<and> \<not> RED_DISK_LAYOUT_IS_SUPPORTED E (fo_ulVersion opts) then errE RED_EINVAL st
        else if vol_fMounted (gpRedVolume (snd st)) then errE RED_EBUSY st
        else thenE (liftF (RedBDevOpen E v BDEV_O_RDWR))
          (statusE (liftF (RedVolInitBlockGeometry E)) (\<lambda>ret.
             if is_ok ret then
               then_status (then_status (format_volume E ulVersion (fo_ulInodeCount opts)) (liftF (RedBDevClose E v)))
                 (liftF (\<lambda>s. RedBufferDiscardRange E 0 (vol_ulBlockCount (gpRedVolume s)) s))
             else then_status (returnE ret) (liftF (RedBDevClose E v)))) st)"

definition RedCoreVolFormat :: "'d env \<Rightarrow> REDFMTOPT option \<Rightarrow> ('d, unit) iop" where
  "RedCoreVolFormat E pOptions = RedVolFormat E pOptions"

end
