(* ===== verification/Red_Fse.thy ===== *)
theory Red_Fse
  imports Red_Format
begin

text \<open>
  The interface for file numbers, from \<^verbatim>\<open>fse/fse.c\<close>. Beside the state of the driver it has the
  variable that says whether it was initialised. The mutex that the code holds between
  \<^verbatim>\<open>FseEnter\<close> and \<^verbatim>\<open>FseLeave\<close> makes an operation one step of the state.
\<close>

section \<open>Entering and leaving\<close>

record 'd fse =
  gfFseInited :: bool
  fse_ist :: "'d ist"

type_synonym ('d, 'a) fop = "('d fse, rederr, 'a) comp"

definition coreE :: "('d, 'a) iop \<Rightarrow> ('d, 'a) fop" where
  "coreE f = (\<lambda>x. case f (fse_ist x) of None \<Rightarrow> None | Some (r, st) \<Rightarrow> Some (r, x\<lparr>fse_ist := st\<rparr>))"

definition FseEnter :: "'d env \<Rightarrow> u8 \<Rightarrow> ('d, unit) fop" where
  "FseEnter E bVolNum = (\<lambda>x.
     if gfFseInited x then coreE (liftF (RedCoreVolSetCurrent E bVolNum)) x else errE RED_EINVAL x)"

definition in_fse :: "'d env \<Rightarrow> u8 \<Rightarrow> ('d, 'a) iop \<Rightarrow> ('d, 'a) fop" where
  "in_fse E bVolNum f = thenE (FseEnter E bVolNum) (coreE f)"

section \<open>The operations\<close>

definition RedFseInit :: "'d env \<Rightarrow> ('d, unit) fop" where
  "RedFseInit E = (\<lambda>x.
     if gfFseInited x then okE () x
     else thenE (coreE (liftF (RedCoreInit E))) (modE (gfFseInited_update (\<lambda>_. True))) x)"

definition RedFseUninit :: "'d env \<Rightarrow> ('d, unit) fop" where
  "RedFseUninit E = (\<lambda>x.
     if \<not> gfFseInited x then okE () x
     else if \<exists>n < unat (REDCONF_VOLUME_COUNT E). vol_fMounted (gaRedVolume (snd (fse_ist x)) (word_of_nat n))
     then errE RED_EBUSY x
     else thenE (modE (gfFseInited_update (\<lambda>_. False))) (coreE (liftF (RedCoreUninit E))) x)"

definition RedFseMount :: "'d env \<Rightarrow> u8 \<Rightarrow> ('d, unit) fop" where
  "RedFseMount E bVolNum = in_fse E bVolNum
     (bindE (getF (\<lambda>s. vol_fMounted (gpRedVolume s))) (\<lambda>m. whenE (\<not> m) (RedCoreVolMount E RED_MOUNT_DEFAULT)))"

definition RedFseUnmount :: "'d env \<Rightarrow> u8 \<Rightarrow> ('d, unit) fop" where
  "RedFseUnmount E bVolNum = in_fse E bVolNum
     (bindE (getF (\<lambda>s. vol_fMounted (gpRedVolume s))) (\<lambda>m. whenE m (liftF (RedCoreVolUnmount E))))"

definition RedFseFormat :: "'d env \<Rightarrow> u8 \<Rightarrow> ('d, unit) fop" where
  "RedFseFormat E bVolNum = in_fse E bVolNum (RedCoreVolFormat E None)"

record REDFSESTATFS =
  fs_ulBlockSize :: u32
  fs_ulBlockCount :: u32
  fs_ulBlocksFree :: u32
  fs_ulFileCount :: u32
  fs_fReadOnly :: bool
  fs_ullMaxFileSize :: u64
  fs_ulLayoutVer :: u32

definition RedFseStatfs :: "'d env \<Rightarrow> u8 \<Rightarrow> ('d, REDFSESTATFS) fop" where
  "RedFseStatfs E bVolNum = in_fse E bVolNum
     (bindE (liftF (RedCoreVolStat E)) (\<lambda>r.
      okE \<lparr>fs_ulBlockSize = f_bsize r, fs_ulBlockCount = f_blocks r, fs_ulBlocksFree = f_bfree r,
        fs_ulFileCount = f_files r, fs_fReadOnly = (f_flag r AND RED_ST_RDONLY \<noteq> 0),
        fs_ullMaxFileSize = f_maxfsize r, fs_ulLayoutVer = f_diskver r\<rparr>))"

definition RedFseRead :: "'d env \<Rightarrow> u8 \<Rightarrow> u32 \<Rightarrow> u64 \<Rightarrow> u32 \<Rightarrow> bytes \<Rightarrow> ('d, u32 \<times> bytes) fop" where
  "RedFseRead E bVolNum ulFileNum ullFileOffset ulLength pBuffer =
     (if ulLength > 0x7FFFFFFF then errE RED_EINVAL
      else in_fse E bVolNum (RedCoreFileRead E ulFileNum ullFileOffset ulLength pBuffer))"

definition RedFseWrite :: "'d env \<Rightarrow> u8 \<Rightarrow> u32 \<Rightarrow> u64 \<Rightarrow> u32 \<Rightarrow> bytes \<Rightarrow> ('d, u32) fop" where
  "RedFseWrite E bVolNum ulFileNum ullFileOffset ulLength pBuffer =
     (if ulLength > 0x7FFFFFFF then errE RED_EINVAL
      else in_fse E bVolNum (RedCoreFileWrite E ulFileNum ullFileOffset ulLength pBuffer))"

definition RedFseTruncate :: "'d env \<Rightarrow> u8 \<Rightarrow> u32 \<Rightarrow> u64 \<Rightarrow> ('d, unit) fop" where
  "RedFseTruncate E bVolNum ulFileNum ullNewFileSize = in_fse E bVolNum (RedCoreFileTruncate E ulFileNum ullNewFileSize)"

definition RedFseSizeGet :: "'d env \<Rightarrow> u8 \<Rightarrow> u32 \<Rightarrow> ('d, u64) fop" where
  "RedFseSizeGet E bVolNum ulFileNum = in_fse E bVolNum (RedCoreFileSizeGet E ulFileNum)"

definition RedFseTransMaskSet :: "'d env \<Rightarrow> u8 \<Rightarrow> u32 \<Rightarrow> ('d, unit) fop" where
  "RedFseTransMaskSet E bVolNum ulEventMask = in_fse E bVolNum (RedCoreTransMaskSet E ulEventMask)"

definition RedFseTransMaskGet :: "'d env \<Rightarrow> u8 \<Rightarrow> ('d, u32) fop" where
  "RedFseTransMaskGet E bVolNum = in_fse E bVolNum RedCoreTransMaskGet"

definition RedFseTransact :: "'d env \<Rightarrow> u8 \<Rightarrow> ('d, unit) fop" where
  "RedFseTransact E bVolNum = in_fse E bVolNum (RedCoreVolTransact E)"

definition RedFseRollback :: "'d env \<Rightarrow> u8 \<Rightarrow> ('d, unit) fop" where
  "RedFseRollback E bVolNum = in_fse E bVolNum (RedCoreVolRollback E)"

end
