(* ===== verification/Red_Path.thy ===== *)
theory Red_Path
  imports Red_CoreFile
begin

text \<open>
  The walk along a path, from \<^verbatim>\<open>posix/path.c\<close>: the volume that the prefix of a path names, and
  the directory and the file that its components lead to, through \<^verbatim>\<open>.\<close>, \<^verbatim>\<open>..\<close> and symbolic
  links. A pointer into a string is the string from that place on. The text of a link is read
  in pieces that hold one name; every level of nesting keeps its position in its link.
\<close>

section \<open>Components\<close>

definition cstr_from :: "cstr \<Rightarrow> u32 \<Rightarrow> cstr" where
  "cstr_from s ulIdx = (\<lambda>k. s (ulIdx + k))"

text \<open>The result of a loop that may not end.\<close>

definition loop_result :: "'a option \<Rightarrow> ('s, 'e, 'a) comp" where
  "loop_result v = (case v of None \<Rightarrow> (\<lambda>_. None) | Some x \<Rightarrow> okE x)"

definition skip_separators :: "'d env \<Rightarrow> cstr \<Rightarrow> u32 \<Rightarrow> u32 option" where
  "skip_separators E s ulIdx = scan_while (\<lambda>i. s i = REDCONF_PATH_SEPARATOR E) ulIdx"

definition IsRootDir :: "'d env \<Rightarrow> cstr \<Rightarrow> bool option" where
  "IsRootDir E pszLocalPath =
     map_option (\<lambda>ulIdx. ulIdx > 0 \<and> pszLocalPath ulIdx = 0) (skip_separators E pszLocalPath 0)"

definition PathHasMoreComponents :: "'d env \<Rightarrow> cstr \<Rightarrow> bool option" where
  "PathHasMoreComponents E pszPathIdx =
     map_option (\<lambda>ulIdx. pszPathIdx ulIdx \<noteq> 0) (skip_separators E pszPathIdx 0)"

definition name_ends :: "'d env \<Rightarrow> u8 \<Rightarrow> bool" where
  "name_ends E c \<longleftrightarrow> c = 0 \<or> c = REDCONF_PATH_SEPARATOR E"

definition DOT :: u8 where "DOT = 0x2E"

definition IsDot :: "'d env \<Rightarrow> cstr \<Rightarrow> bool" where
  "IsDot E pszPathComponent \<longleftrightarrow> pszPathComponent 0 = DOT \<and> name_ends E (pszPathComponent 1)"

definition IsDotDot :: "'d env \<Rightarrow> cstr \<Rightarrow> bool" where
  "IsDotDot E pszPathComponent \<longleftrightarrow>
     pszPathComponent 0 = DOT \<and> pszPathComponent 1 = DOT \<and> name_ends E (pszPathComponent 2)"

definition IsDotOrDotDot :: "'d env \<Rightarrow> cstr \<Rightarrow> bool" where
  "IsDotOrDotDot E pszPathComponent \<longleftrightarrow> IsDot E pszPathComponent \<or> IsDotDot E pszPathComponent"

section \<open>The volume of a path\<close>

text \<open>The state of the search: the match, its length and the volume with the empty prefix.\<close>

definition NO_VOLUME :: u8 where "NO_VOLUME = 0xFF"

definition prefix_turn :: "'d env \<Rightarrow> cstr \<Rightarrow> u8 \<Rightarrow> u8 \<times> u32 \<times> u8 \<Rightarrow> (u8 \<times> u32 \<times> u8) option" where
  "prefix_turn E pszPath bVolNum = (\<lambda>(bMatchVol, ulMatchLen, bDefaultVolNum).
     let pszPrefix = path_prefix E (unat bVolNum) in
     map_option (\<lambda>ulPrefixLen.
       if ulPrefixLen = 0 then (bMatchVol, ulMatchLen, bVolNum)
       else if RedStrNCmp (Some pszPath) (Some pszPrefix) ulPrefixLen = 0 \<and> name_ends E (pszPath ulPrefixLen) \<and>
               ulPrefixLen > ulMatchLen
       then (bVolNum, ulPrefixLen, bDefaultVolNum)
       else (bMatchVol, ulMatchLen, bDefaultVolNum))
     (RedStrLen (Some pszPrefix)))"

fun prefix_search :: "'d env \<Rightarrow> cstr \<Rightarrow> nat list \<Rightarrow> u8 \<times> u32 \<times> u8 \<Rightarrow> (u8 \<times> u32 \<times> u8) option" where
  "prefix_search E pszPath [] v = Some v"
| "prefix_search E pszPath (n # ns) v =
     Option.bind (prefix_turn E pszPath (word_of_nat n) v) (prefix_search E pszPath ns)"

definition RedPathVolumePrefixLookup :: "'d env \<Rightarrow> cstr option \<Rightarrow> ('d, u8) op" where
  "RedPathVolumePrefixLookup E pszPath =
     (case pszPath of
        None \<Rightarrow> errE RED_EINVAL
      | Some path \<Rightarrow>
          bindE (loop_result (prefix_search E path [0..<unat (REDCONF_VOLUME_COUNT E)] (NO_VOLUME, 0, NO_VOLUME)))
            (\<lambda>(bMatchVol, _, bDefaultVolNum).
             let bVolNum = (if bMatchVol \<noteq> NO_VOLUME then bMatchVol else bDefaultVolNum) in
             if bVolNum = NO_VOLUME then errE RED_ENOENT
             else thenE (whenE (REDCONF_VOLUME_COUNT E > 1) (RedCoreVolSetCurrent E bVolNum)) (okE bVolNum)))"

definition current_prefix :: "'d env \<Rightarrow> 'd fs \<Rightarrow> cstr" where
  "current_prefix E s = path_prefix E (unat (gbRedVolNum s))"

text \<open>The path after the prefix of the current volume.\<close>

definition after_prefix :: "'d env \<Rightarrow> cstr \<Rightarrow> ('d, cstr) op" where
  "after_prefix E pszPath = (\<lambda>s.
     bindE (loop_result (RedStrLen (Some (current_prefix E s)))) (\<lambda>n. okE (cstr_from pszPath n)) s)"

definition RedPathVolumeLookup :: "'d env \<Rightarrow> cstr option \<Rightarrow> ('d, u8) op" where
  "RedPathVolumeLookup E pszVolume =
     bindE (RedPathVolumePrefixLookup E pszVolume) (\<lambda>bVolNum.
     bindE (after_prefix E (the pszVolume)) (\<lambda>pszExtraPath.
     if pszExtraPath 0 = 0 then okE bVolNum
     else bindE (loop_result (IsRootDir E pszExtraPath)) (\<lambda>root. if root then okE bVolNum else errE RED_ENOENT)))"

section \<open>The walk\<close>

definition RED_SYMLOOP_MAX :: u8 where "RED_SYMLOOP_MAX = 8"
definition SYMLINK_IDX_NONE :: u8 where "SYMLINK_IDX_NONE = 0xFF"
definition PW_LOOKUP_LAST :: u32 where "PW_LOOKUP_LAST = 0x80000000"
definition RED_AT_SYMLINK_NOFOLLOW :: u32 where "RED_AT_SYMLINK_NOFOLLOW = 2"

record SYMLINKLEVEL =
  sl_ulInode :: u32
  sl_ullPos :: u64

record PATHWALKCTX =
  pw_pszPath :: cstr
  pw_pszLastName :: cstr
  pw_pszName :: "cstr option"
  pw_ulPathIdx :: u32
  pw_ulPInode :: u32
  pw_ulInode :: u32
  pw_ulFlags :: u32
  pw_bIdx :: u8
  pw_aStack :: "u8 \<Rightarrow> SYMLINKLEVEL"
  pw_szName :: bytes

definition follows_links :: "'d env \<Rightarrow> bool" where
  "follows_links E \<longleftrightarrow> REDCONF_API_POSIX_SYMLINK E \<and> REDOSCONF_SYMLINK_FOLLOW E"

text \<open>The position in the link at the innermost level.\<close>

definition link_pos :: "PATHWALKCTX \<Rightarrow> u64" where
  "link_pos c = sl_ullPos (pw_aStack c (pw_bIdx c))"

definition add_link_pos :: "u64 \<Rightarrow> PATHWALKCTX \<Rightarrow> PATHWALKCTX" where
  "add_link_pos n c = c\<lparr>pw_aStack := (pw_aStack c)(pw_bIdx c :=
     (pw_aStack c (pw_bIdx c))\<lparr>sl_ullPos := link_pos c + n\<rparr>)\<rparr>"

text \<open>
  A link that is to be followed becomes the innermost level, and the walk goes on from the
  directory that holds it.
\<close>

definition link_enter :: "'d env \<Rightarrow> PATHWALKCTX \<Rightarrow> ('d, PATHWALKCTX) iop" where
  "link_enter E c =
     (let bIdx = pw_bIdx c + 1 in
      if bIdx \<ge> RED_SYMLOOP_MAX then errE RED_ELOOP
      else bindE (RedCoreDirParent E (pw_ulPInode c)) (\<lambda>ulPInode.
        okE (c\<lparr>pw_bIdx := bIdx,
          pw_aStack := (pw_aStack c)(bIdx := \<lparr>sl_ulInode = pw_ulInode c, sl_ullPos = 0\<rparr>),
          pw_ulInode := pw_ulPInode c, pw_ulPInode := ulPInode\<rparr>)))"

definition link_check :: "'d env \<Rightarrow> PATHWALKCTX \<Rightarrow> ('d, PATHWALKCTX) iop" where
  "link_check E c =
     (if pw_ulInode c = INODE_ROOTDIR then okE c
      else bindE (RedCoreStat E (pw_ulInode c)) (\<lambda>sb.
        if \<not> RED_S_ISLNK (REDCONF_API_POSIX_SYMLINK E) (st_mode sb) then okE c
        else bindE (if pw_ulFlags c AND RED_AT_SYMLINK_NOFOLLOW \<noteq> 0
                    then loop_result (PathHasMoreComponents E (cstr_from (pw_pszPath c) (pw_ulPathIdx c)))
                    else okE True) (\<lambda>fFollow.
          if fFollow then link_enter E c else okE c)))"

text \<open>
  One read of the text of the link at its position, and the separators at its front, which take
  the walk to the root directory when they are the first of the text. The read is repeated
  when the name that follows may not have been read to its last byte. The
  value is the number of bytes read and the place of the name among them.
\<close>

definition link_read_turn :: "'d env \<Rightarrow> PATHWALKCTX \<Rightarrow> ('d, PATHWALKCTX \<times> u32 \<times> u32 \<times> bool) iop" where
  "link_read_turn E c =
     (let ulReadMax = REDCONF_NAME_MAX E + 1 in
      bindE (RedCoreFileRead E (sl_ulInode (pw_aStack c (pw_bIdx c))) (link_pos c) ulReadMax (pw_szName c)) (\<lambda>(ulReadLen, b).
      let sz = b[unat ulReadLen := 0]; c = c\<lparr>pw_szName := sz\<rparr> in
      if ulReadLen > 0 \<and> sz ! 0 = REDCONF_PATH_SEPARATOR E then
        bindE (loop_result (skip_separators E (cstr_at sz 0) 1)) (\<lambda>ulNameIdx.
        bindE (loop_result (RedNameLen (REDCONF_PATH_SEPARATOR E) (Some (cstr_at sz (unat ulNameIdx))))) (\<lambda>ulNameLen.
        let c' = (if link_pos c = 0 then c\<lparr>pw_ulPInode := INODE_INVALID, pw_ulInode := INODE_ROOTDIR\<rparr> else c) in
        okE (add_link_pos (ucast ulNameIdx) c', ulReadLen, ulNameIdx,
          ulReadLen = ulReadMax \<and> ulNameIdx + ulNameLen = ulReadLen)))
      else okE (c, ulReadLen, 0, False)))"

partial_function (option) link_read :: "'d env \<Rightarrow> PATHWALKCTX \<Rightarrow> ('d, PATHWALKCTX \<times> u32 \<times> u32) iop" where
  "link_read E c st =
     bindE (link_read_turn E c) (\<lambda>(c', ulReadLen, ulNameIdx, fReadRetry) st.
       if fReadRetry then link_read E c' st else okE (c', ulReadLen, ulNameIdx) st) st"

text \<open>
  The next name of the innermost link. At the end of its text the level is left; an empty link
  leads nowhere.
\<close>

definition link_turn :: "'d env \<Rightarrow> PATHWALKCTX \<Rightarrow> ('d, PATHWALKCTX) iop" where
  "link_turn E c =
     bindE (link_read E c) (\<lambda>(c, ulReadLen, ulNameIdx).
     let pszName = cstr_at (pw_szName c) (unat ulNameIdx) in
     if ulReadLen = 0 \<or> pszName 0 = 0 then
       (if link_pos c = 0 then errE RED_ENOENT else okE (c\<lparr>pw_bIdx := pw_bIdx c - 1\<rparr>))
     else bindE (loop_result (RedNameLen (REDCONF_PATH_SEPARATOR E) (Some pszName))) (\<lambda>ulNameLen.
       if ulNameLen > REDCONF_NAME_MAX E then errE RED_ENAMETOOLONG
       else okE (add_link_pos
         (ucast ulNameLen + (if pszName ulNameLen = REDCONF_PATH_SEPARATOR E then 1 else 0))
         (c\<lparr>pw_pszName := Some pszName\<rparr>))))"

partial_function (option) link_levels :: "'d env \<Rightarrow> PATHWALKCTX \<Rightarrow> ('d, PATHWALKCTX) iop" where
  "link_levels E c st =
     (if pw_bIdx c \<noteq> SYMLINK_IDX_NONE \<and> pw_pszName c = None
      then bindE (link_turn E c) (\<lambda>c st. link_levels E c st) st
      else okE c st)"

definition SymlinkNext :: "'d env \<Rightarrow> PATHWALKCTX \<Rightarrow> ('d, PATHWALKCTX) iop" where
  "SymlinkNext E c = bindE (link_check E c) (link_levels E)"

definition path_next :: "'d env \<Rightarrow> PATHWALKCTX \<Rightarrow> PATHWALKCTX option" where
  "path_next E c = Option.bind (skip_separators E (pw_pszPath c) (pw_ulPathIdx c)) (\<lambda>ulPathIdx.
     if pw_pszPath c ulPathIdx = 0 then Some (c\<lparr>pw_ulPathIdx := ulPathIdx\<rparr>)
     else let pszName = cstr_from (pw_pszPath c) ulPathIdx in
       map_option (\<lambda>n. c\<lparr>pw_pszName := Some pszName, pw_pszLastName := pszName, pw_ulPathIdx := ulPathIdx + n\<rparr>)
         (RedNameLen (REDCONF_PATH_SEPARATOR E) (Some pszName)))"

definition PathWalkNext :: "'d env \<Rightarrow> PATHWALKCTX \<Rightarrow> ('d, PATHWALKCTX) iop" where
  "PathWalkNext E c =
     (let c = c\<lparr>pw_pszName := None\<rparr> in
      if pw_ulInode c = INODE_INVALID then okE c
      else bindE (if follows_links E then SymlinkNext E c else okE c) (\<lambda>c.
        if pw_pszName c = None then loop_result (path_next E c) else okE c))"

definition InodeMustBeSearchableDir :: "'d env \<Rightarrow> u32 \<Rightarrow> ('d, unit) iop" where
  "InodeMustBeSearchableDir E ulInode =
     (if \<not> REDCONF_POSIX_OWNER_PERM E \<and> ulInode = INODE_ROOTDIR then okE ()
      else bindE (RedCoreStat E ulInode) (\<lambda>sb.
        thenE (returnE (RedModeTypeCheck (REDCONF_API_POSIX_SYMLINK E) (st_mode sb) FTYPE_DIR))
          (if REDCONF_POSIX_OWNER_PERM E
           then bindE (who E) (\<lambda>user. returnE (RedPermCheck user RED_X_OK (st_mode sb) (st_uid sb) (st_gid sb)))
           else okE ())))"

definition follow_dot :: "'d env \<Rightarrow> PATHWALKCTX \<Rightarrow> ('d, PATHWALKCTX) iop" where
  "follow_dot E c = thenE (InodeMustBeSearchableDir E (pw_ulInode c)) (okE c)"

definition follow_dotdot :: "'d env \<Rightarrow> PATHWALKCTX \<Rightarrow> ('d, PATHWALKCTX) iop" where
  "follow_dotdot E c =
     thenE (InodeMustBeSearchableDir E (pw_ulInode c))
       (let ulInode = (if pw_ulInode c \<noteq> INODE_ROOTDIR then pw_ulPInode c else pw_ulInode c) in
        bindE (RedCoreDirParent E ulInode) (\<lambda>ulPInode. okE (c\<lparr>pw_ulInode := ulInode, pw_ulPInode := ulPInode\<rparr>)))"

text \<open>The last component is only looked up when the caller wants its inode.\<close>

definition follow_name :: "'d env \<Rightarrow> cstr \<Rightarrow> PATHWALKCTX \<Rightarrow> ('d, PATHWALKCTX) iop" where
  "follow_name E pszName c =
     (let c = c\<lparr>pw_ulPInode := pw_ulInode c\<rparr> in
      bindE (if pw_ulFlags c AND PW_LOOKUP_LAST \<noteq> 0 then okE True
             else loop_result (PathHasMoreComponents E (cstr_from (pw_pszPath c) (pw_ulPathIdx c)))) (\<lambda>fLookup.
      if fLookup then
        bindE (RedCoreLookup E (pw_ulPInode c) (Some pszName)) (\<lambda>found.
        okE (case found of None \<Rightarrow> c | Some ulInode \<Rightarrow> c\<lparr>pw_ulInode := ulInode\<rparr>))
      else okE (c\<lparr>pw_ulInode := INODE_INVALID\<rparr>)))"

definition PathWalkFollow :: "'d env \<Rightarrow> PATHWALKCTX \<Rightarrow> ('d, PATHWALKCTX) iop" where
  "PathWalkFollow E c =
     (case pw_pszName c of
        None \<Rightarrow> errE RED_EINVAL
      | Some pszName \<Rightarrow>
          if REDCONF_API_POSIX_CWD E \<and> IsDot E pszName then follow_dot E c
          else if REDCONF_API_POSIX_CWD E \<and> IsDotDot E pszName then follow_dotdot E c
          else follow_name E pszName c)"

partial_function (option) path_loop :: "'d env \<Rightarrow> PATHWALKCTX \<Rightarrow> ('d, PATHWALKCTX) iop" where
  "path_loop E c st =
     bindE (PathWalkNext E c) (\<lambda>c st.
       if pw_pszName c = None then okE c st
       else bindE (PathWalkFollow E c) (\<lambda>c st. path_loop E c st) st) st"

definition walk_start :: "'d env \<Rightarrow> u32 \<Rightarrow> cstr \<Rightarrow> u32 \<Rightarrow> PATHWALKCTX" where
  "walk_start E ulDirInode path ulFlags =
     \<lparr>pw_pszPath = path, pw_pszLastName = path, pw_pszName = None, pw_ulPathIdx = 0, pw_ulPInode = 0,
      pw_ulInode = ulDirInode, pw_ulFlags = ulFlags, pw_bIdx = SYMLINK_IDX_NONE,
      pw_aStack = (\<lambda>_. \<lparr>sl_ulInode = 0, sl_ullPos = 0\<rparr>), pw_szName = replicate (unat (REDCONF_NAME_MAX E + 2)) 0\<rparr>"

text \<open>
  The caller wants the parent with the last name when it gives an error for the root directory,
  which has neither, and else the inode.
\<close>

definition PathWalk :: "'d env \<Rightarrow> u32 \<Rightarrow> cstr option \<Rightarrow> u32 \<Rightarrow> rederr option \<Rightarrow> ('d, PATHWALKCTX) iop" where
  "PathWalk E ulDirInode pszLocalPath ulFlags rootDirError =
     (if ulDirInode = INODE_INVALID \<or> pszLocalPath = None \<or> ulFlags AND RED_AT_SYMLINK_NOFOLLOW \<noteq> ulFlags
      then errE RED_EINVAL
      else
        let c = walk_start E ulDirInode (the pszLocalPath)
                  (ulFlags OR (if rootDirError = None then PW_LOOKUP_LAST else 0)) in
        bindE (RedCoreDirParent E ulDirInode) (\<lambda>ulPInode.
        bindE (path_loop E (c\<lparr>pw_ulPInode := ulPInode\<rparr>)) (\<lambda>c.
        case rootDirError of
          Some e \<Rightarrow> if pw_ulPInode c = INODE_INVALID then errE e else okE c
        | None \<Rightarrow> okE c)))"

definition RedPathLookup :: "'d env \<Rightarrow> u32 \<Rightarrow> cstr option \<Rightarrow> u32 \<Rightarrow> ('d, u32) iop" where
  "RedPathLookup E ulDirInode pszLocalPath ulFlags =
     bindE (PathWalk E ulDirInode pszLocalPath ulFlags None) (\<lambda>c. okE (pw_ulInode c))"

definition RedPathToName :: "'d env \<Rightarrow> u32 \<Rightarrow> cstr option \<Rightarrow> rederr \<Rightarrow> ('d, u32 \<times> cstr) iop" where
  "RedPathToName E ulDirInode pszLocalPath rootDirError =
     bindE (PathWalk E ulDirInode pszLocalPath 0 (Some rootDirError)) (\<lambda>c.
     if REDCONF_API_POSIX_CWD E \<and> IsDotOrDotDot E (pw_pszLastName c) then errE RED_EINVAL
     else okE (pw_ulPInode c, pw_pszLastName c))"

end
