(* ===== verification/Red_Handle.thy ===== *)
theory Red_Handle
  imports Red_Path
begin

text \<open>
  The tables of the POSIX-like interface, from \<^verbatim>\<open>posix/posix.c\<close>: the tasks with their error
  variables and working directories, the open inodes with their reference counts, the handles,
  and the file descriptors that name handles. A pointer into a table is an index, and a
  pointer to no element is an index past its last. The mutex that the code holds between \<^verbatim>\<open>PosixEnter\<close>
  and \<^verbatim>\<open>PosixLeave\<close> makes an operation one step of the state.
\<close>

section \<open>The state\<close>

definition FD_GEN_BITS :: nat where "FD_GEN_BITS = 11"
definition FD_VOL_BITS :: nat where "FD_VOL_BITS = 8"
definition FD_IDX_BITS :: nat where "FD_IDX_BITS = 12"
definition FD_GEN_MAX :: u32 where "FD_GEN_MAX = push_bit FD_GEN_BITS 1 - 1"
definition FD_VOL_MAX :: u32 where "FD_VOL_MAX = push_bit FD_VOL_BITS 1 - 1"
definition FD_IDX_MAX :: u32 where "FD_IDX_MAX = push_bit FD_IDX_BITS 1 - 1"
definition FD_MIN :: int where "FD_MIN = 3"

definition HFLAG_DIRECTORY :: u8 where "HFLAG_DIRECTORY = 0x01"
definition HFLAG_READABLE :: u8 where "HFLAG_READABLE = 0x02"
definition HFLAG_WRITEABLE :: u8 where "HFLAG_WRITEABLE = 0x04"
definition HFLAG_APPENDING :: u8 where "HFLAG_APPENDING = 0x08"
definition HFLAG_SYMLINK :: u8 where "HFLAG_SYMLINK = 0x10"

definition OIFLAG_ORPHAN :: u8 where "OIFLAG_ORPHAN = 0x01"
definition OIFLAG_RESERVED :: u8 where "OIFLAG_RESERVED = 0x02"

record OPENINODE =
  oi_ulInode :: u32
  oi_bVolNum :: u8
  oi_bFlags :: u8
  oi_uRefs :: u16
  oi_ullResOff :: u64

record REDDIRENT =
  d_ino :: u32
  d_name :: cstr
  d_stat :: REDSTAT

text \<open>
  The offset in a file and the position in a directory are one union: the position is the first four
  bytes of the offset.
\<close>

record REDHANDLE =
  h_pOpenIno :: "nat option"
  h_bFlags :: u8
  h_ullFileOffset :: u64
  h_dirent :: REDDIRENT

definition h_ulDirPosition :: "REDHANDLE \<Rightarrow> u32" where
  "h_ulDirPosition h = ucast (h_ullFileOffset h)"

definition set_ulDirPosition :: "u32 \<Rightarrow> REDHANDLE \<Rightarrow> REDHANDLE" where
  "set_ulDirPosition v h = h\<lparr>h_ullFileOffset := push_bit 32 (drop_bit 32 (h_ullFileOffset h)) OR ucast v\<rparr>"

record TASKSLOT =
  ts_ulTaskId :: u32
  ts_iErrno :: int
  ts_pCwd :: "nat option"

record 'd posix =
  gfPosixInited :: bool
  gaOpenInos :: "nat \<Rightarrow> OPENINODE"
  gaHandle :: "nat \<Rightarrow> REDHANDLE"
  gaTask :: "nat \<Rightarrow> TASKSLOT"
  gauGeneration :: "u8 \<Rightarrow> u16"
  iGlobalErrno :: int
  szDirInodeToPathName :: cstr
  posix_ist :: "'d ist"

type_synonym ('d, 'a) pop = "('d posix, rederr, 'a) comp"

definition HANDLES :: "'d env \<Rightarrow> nat" where "HANDLES E = unat (REDCONF_HANDLE_COUNT E)"
definition TASKS :: "'d env \<Rightarrow> nat" where "TASKS E = unat (REDCONF_TASK_COUNT E)"

definition OPEN_INODE_COUNT :: "'d env \<Rightarrow> nat" where
  "OPEN_INODE_COUNT E = (if REDCONF_API_POSIX_CWD E then HANDLES E + TASKS E else HANDLES E)"

definition openinode_zero :: OPENINODE where
  "openinode_zero = \<lparr>oi_ulInode = 0, oi_bVolNum = 0, oi_bFlags = 0, oi_uRefs = 0, oi_ullResOff = 0\<rparr>"

definition redstat_zero :: REDSTAT where
  "redstat_zero = \<lparr>st_dev = 0, st_ino = 0, st_mode = 0, st_nlink = 0, st_uid = 0, st_gid = 0, st_size = 0,
     st_atime = 0, st_mtime = 0, st_ctime = 0, st_blocks = 0\<rparr>"

definition redhandle_zero :: REDHANDLE where
  "redhandle_zero = \<lparr>h_pOpenIno = None, h_bFlags = 0, h_ullFileOffset = 0,
     h_dirent = \<lparr>d_ino = 0, d_name = (\<lambda>_. 0), d_stat = redstat_zero\<rparr>\<rparr>"

definition taskslot_zero :: TASKSLOT where
  "taskslot_zero = \<lparr>ts_ulTaskId = 0, ts_iErrno = 0, ts_pCwd = None\<rparr>"

definition upd_oi :: "nat \<Rightarrow> (OPENINODE \<Rightarrow> OPENINODE) \<Rightarrow> 'd posix \<Rightarrow> 'd posix" where
  "upd_oi i f x = x\<lparr>gaOpenInos := (gaOpenInos x)(i := f (gaOpenInos x i))\<rparr>"

definition upd_handle :: "nat \<Rightarrow> (REDHANDLE \<Rightarrow> REDHANDLE) \<Rightarrow> 'd posix \<Rightarrow> 'd posix" where
  "upd_handle i f x = x\<lparr>gaHandle := (gaHandle x)(i := f (gaHandle x i))\<rparr>"

definition upd_task :: "nat \<Rightarrow> (TASKSLOT \<Rightarrow> TASKSLOT) \<Rightarrow> 'd posix \<Rightarrow> 'd posix" where
  "upd_task i f x = x\<lparr>gaTask := (gaTask x)(i := f (gaTask x i))\<rparr>"

lemmas upd_posix_defs = upd_oi_def upd_handle_def upd_task_def

abbreviation posix_fs :: "'d posix \<Rightarrow> 'd fs" where "posix_fs x \<equiv> snd (posix_ist x)"

text \<open>An operation of the core interface.\<close>

definition coreP :: "('d, 'a) iop \<Rightarrow> ('d, 'a) pop" where
  "coreP f = (\<lambda>x. case f (posix_ist x) of None \<Rightarrow> None | Some (r, st) \<Rightarrow> Some (r, x\<lparr>posix_ist := st\<rparr>))"

definition set_volume :: "'d env \<Rightarrow> u8 \<Rightarrow> ('d, unit) pop" where
  "set_volume E bVolNum = whenE (REDCONF_VOLUME_COUNT E > 1) (coreP (liftF (RedCoreVolSetCurrent E bVolNum)))"

section \<open>Tasks\<close>

definition TaskFind :: "'d env \<Rightarrow> u32 \<Rightarrow> 'd posix \<Rightarrow> nat option" where
  "TaskFind E ulTaskId x = find (\<lambda>i. ts_ulTaskId (gaTask x i) = ulTaskId) [0..<TASKS E]"

definition TaskFindSelf :: "'d env \<Rightarrow> 'd posix \<Rightarrow> nat option" where
  "TaskFindSelf E x = (if REDCONF_TASK_COUNT E > 1 then TaskFind E (RedOsTaskId E (os (posix_fs x))) x else Some 0)"

definition TaskRegister :: "'d env \<Rightarrow> u32 \<Rightarrow> 'd posix \<Rightarrow> nat option \<times> 'd posix" where
  "TaskRegister E ulTaskId x =
     (case TaskFind E ulTaskId x of
        Some i \<Rightarrow> (Some i, x)
      | None \<Rightarrow>
          (case find (\<lambda>i. ts_ulTaskId (gaTask x i) = 0) [0..<TASKS E] of
             Some i \<Rightarrow> (Some i, upd_task i (ts_ulTaskId_update (\<lambda>_. ulTaskId)) x)
           | None \<Rightarrow> (None, x)))"

text \<open>Where the error variable of the calling task is.\<close>

datatype errno_ptr = GLOBAL_ERRNO | TASK_ERRNO nat

definition red_errnoptr :: "'d env \<Rightarrow> 'd posix \<Rightarrow> errno_ptr \<times> 'd posix" where
  "red_errnoptr E x =
     (if \<not> gfPosixInited x then (GLOBAL_ERRNO, x)
      else if REDCONF_TASK_COUNT E > 1 then
        (case TaskRegister E (RedOsTaskId E (os (posix_fs x))) x of
           (Some i, y) \<Rightarrow> (TASK_ERRNO i, y)
         | (None, y) \<Rightarrow> (GLOBAL_ERRNO, y))
      else (TASK_ERRNO 0, x))"

fun store_errno :: "errno_ptr \<Rightarrow> int \<Rightarrow> 'd posix \<Rightarrow> 'd posix" where
  "store_errno GLOBAL_ERRNO e x = x\<lparr>iGlobalErrno := e\<rparr>"
| "store_errno (TASK_ERRNO i) e x = upd_task i (ts_iErrno_update (\<lambda>_. e)) x"

text \<open>
  What a function of the interface returns: a failure is a return value of minus one or a null
  pointer, with the error stored in the error variable of the calling task.
\<close>

definition PosixReturn :: "'d env \<Rightarrow> ('d, 'a) pop \<Rightarrow> ('d, 'a) pop" where
  "PosixReturn E f = (\<lambda>x. case f x of
       None \<Rightarrow> None
     | Some (Inr v, y) \<Rightarrow> Some (Inr v, y)
     | Some (Inl e, y) \<Rightarrow> (case red_errnoptr E y of (p, z) \<Rightarrow> Some (Inl e, store_errno p (errno e) z)))"

definition PosixEnter :: "'d env \<Rightarrow> ('d, unit) pop" where
  "PosixEnter E = (\<lambda>x.
     if \<not> gfPosixInited x then errE RED_EINVAL x
     else if REDCONF_TASK_COUNT E > 1 then
       (case TaskRegister E (RedOsTaskId E (os (posix_fs x))) x of
          (Some _, y) \<Rightarrow> okE () y
        | (None, y) \<Rightarrow> errE RED_EUSERS y)
     else okE () x)"

definition in_posix :: "'d env \<Rightarrow> ('d, 'a) pop \<Rightarrow> ('d, 'a) pop" where
  "in_posix E f = PosixReturn E (thenE (PosixEnter E) f)"

section \<open>Open inodes\<close>

definition OpenInoFind :: "'d env \<Rightarrow> u8 \<Rightarrow> u32 \<Rightarrow> bool \<Rightarrow> 'd posix \<Rightarrow> nat option \<times> 'd posix" where
  "OpenInoFind E bVolNum ulInode fAlloc x =
     (case find (\<lambda>i. oi_ulInode (gaOpenInos x i) = ulInode \<and> oi_bVolNum (gaOpenInos x i) = bVolNum)
          [0..<OPEN_INODE_COUNT E] of
        Some i \<Rightarrow> (Some i, x)
      | None \<Rightarrow>
          if fAlloc then
            (case find (\<lambda>i. oi_ulInode (gaOpenInos x i) = INODE_INVALID) [0..<OPEN_INODE_COUNT E] of
               Some i \<Rightarrow> (Some i, upd_oi i (\<lambda>_. openinode_zero\<lparr>oi_ulInode := ulInode, oi_bVolNum := bVolNum\<rparr>) x)
             | None \<Rightarrow> (None, x))
          else (None, x))"

definition oi_has :: "u8 \<Rightarrow> nat \<Rightarrow> 'd posix \<Rightarrow> bool" where
  "oi_has bFlag i x \<longleftrightarrow> oi_bFlags (gaOpenInos x i) AND bFlag \<noteq> 0"

definition orphans_supported :: "'d env \<Rightarrow> bool" where
  "orphans_supported E \<longleftrightarrow> DELETE_SUPPORTED E \<and> REDCONF_DELETE_OPEN E"

text \<open>The blocks reserved for the file are given back, and a file without a name is freed.\<close>

definition oi_cleanup :: "'d env \<Rightarrow> nat \<Rightarrow> ('d, unit) pop" where
  "oi_cleanup E i = (\<lambda>x.
     thenE (set_volume E (oi_bVolNum (gaOpenInos x i)))
       (thenE (whenE (REDCONF_API_POSIX_FRESERVE E \<and> oi_has OIFLAG_RESERVED i x)
           (coreP (RedCoreFileUnreserve E (oi_ulInode (gaOpenInos x i)) (oi_ullResOff (gaOpenInos x i)))))
         (whenE (orphans_supported E \<and> oi_has OIFLAG_ORPHAN i x)
           (coreP (RedCoreFreeOrphan E (oi_ulInode (gaOpenInos x i)))))) x)"

definition oi_last :: "'d env \<Rightarrow> nat \<Rightarrow> bool \<Rightarrow> bool \<Rightarrow> ('d, unit) pop" where
  "oi_last E i fDoCleanup fPropagateCleanupError = (\<lambda>x.
     thenE (whenE ((REDCONF_API_POSIX_FRESERVE E \<or> orphans_supported E) \<and> fDoCleanup \<and>
           \<not> vol_fReadOnly (gpRedVolume (posix_fs x)))
         (statusE (oi_cleanup E i) (\<lambda>ret. if fPropagateCleanupError then returnE ret else okE ())))
       (modE (upd_oi i (oi_ulInode_update (\<lambda>_. INODE_INVALID)))) x)"

definition OpenInoDeref :: "'d env \<Rightarrow> nat \<Rightarrow> bool \<Rightarrow> bool \<Rightarrow> ('d, unit) pop" where
  "OpenInoDeref E i fDoCleanup fPropagateCleanupError = (\<lambda>x.
     if i \<ge> OPEN_INODE_COUNT E then errE RED_EINVAL x
     else if oi_uRefs (gaOpenInos x i) = 0 then errE RED_EINVAL x
     else thenE (whenE (oi_uRefs (gaOpenInos x i) = 1) (oi_last E i fDoCleanup fPropagateCleanupError))
       (modE (upd_oi i (oi_uRefs_update (\<lambda>n. n - 1)))) x)"

text \<open>A new reference to the open inode of a file.\<close>

definition OpenInoRef :: "'d env \<Rightarrow> u8 \<Rightarrow> u32 \<Rightarrow> 'd posix \<Rightarrow> nat option \<times> 'd posix" where
  "OpenInoRef E bVolNum ulInode x =
     (case OpenInoFind E bVolNum ulInode True x of
        (Some i, y) \<Rightarrow> (Some i, upd_oi i (oi_uRefs_update (\<lambda>n. n + 1)) y)
      | (None, y) \<Rightarrow> (None, y))"

definition InodeUnlinkCheck :: "'d env \<Rightarrow> u32 \<Rightarrow> ('d, unit) pop" where
  "InodeUnlinkCheck E ulInode = (\<lambda>x.
     case OpenInoFind E (gbRedVolNum (posix_fs x)) ulInode False x of
       (None, _) \<Rightarrow> okE () x
     | (Some _, _) \<Rightarrow>
         if REDCONF_API_POSIX_LINK E
         then bindE (coreP (RedCoreStat E ulInode)) (\<lambda>sb. if st_nlink sb = 1 then errE RED_EBUSY else okE ()) x
         else errE RED_EBUSY x)"

definition InodeOrphaned :: "'d env \<Rightarrow> u32 \<Rightarrow> 'd posix \<Rightarrow> 'd posix" where
  "InodeOrphaned E ulInode x =
     (case OpenInoFind E (gbRedVolNum (posix_fs x)) ulInode False x of
        (None, _) \<Rightarrow> x
      | (Some i, _) \<Rightarrow> upd_oi i (oi_bFlags_update (\<lambda>b. b OR OIFLAG_ORPHAN)) x)"

section \<open>Handles and file descriptors\<close>

definition HandleFindFree :: "'d env \<Rightarrow> 'd posix \<Rightarrow> nat option \<times> 'd posix" where
  "HandleFindFree E x =
     (case find (\<lambda>i. h_pOpenIno (gaHandle x i) = None) [0..<HANDLES E] of
        Some i \<Rightarrow> (Some i, upd_handle i (\<lambda>_. redhandle_zero) x)
      | None \<Rightarrow> (None, x))"

definition HandleOpen :: "'d env \<Rightarrow> nat \<Rightarrow> u32 \<Rightarrow> ('d, unit) pop" where
  "HandleOpen E h ulInode = (\<lambda>x.
     case OpenInoRef E (gbRedVolNum (posix_fs x)) ulInode x of
       (p, y) \<Rightarrow> thenE (modE (upd_handle h (h_pOpenIno_update (\<lambda>_. p))))
                  (if p = None then errE RED_EFUBAR else okE ()) y)"

definition HandleClose :: "'d env \<Rightarrow> nat \<Rightarrow> u32 \<Rightarrow> ('d, unit) pop" where
  "HandleClose E h ulTransFlag = (\<lambda>x.
     if h \<ge> HANDLES E then errE RED_EINVAL x
     else case h_pOpenIno (gaHandle x h) of
       None \<Rightarrow> errE RED_EBADF x
     | Some i \<Rightarrow>
         thenE (set_volume E (oi_bVolNum (gaOpenInos x i)))
           (bindE (\<lambda>x. if vol_fReadOnly (gpRedVolume (posix_fs x)) then okE 0 x else coreP RedCoreTransMaskGet x) (\<lambda>ulTransMask.
            let fTransacting = (ulTransMask AND ulTransFlag \<noteq> 0) in
            thenE (OpenInoDeref E i True fTransacting)
              (thenE (modE (upd_handle h (h_pOpenIno_update (\<lambda>_. None))))
                (\<lambda>x. whenE (\<not> vol_fReadOnly (gpRedVolume (posix_fs x)) \<and> fTransacting)
                   (coreP (RedCoreVolTransact E)) x)))) x)"

definition FildesPack :: "'d env \<Rightarrow> u16 \<Rightarrow> u8 \<Rightarrow> 'd posix \<Rightarrow> int" where
  "FildesPack E uHandleIdx bVolNum x =
     (if uHandleIdx \<ge> REDCONF_HANDLE_COUNT E \<or> bVolNum \<ge> REDCONF_VOLUME_COUNT E then - 1
      else
        let ulFdBits = ucast (gauGeneration x bVolNum) :: u32;
            ulFdBits = push_bit FD_VOL_BITS ulFdBits OR ucast bVolNum;
            ulFdBits = push_bit FD_IDX_BITS ulFdBits OR ucast uHandleIdx;
            iFildes = sint ulFdBits
        in if iFildes < FD_MIN then - 1 else iFildes)"

definition FildesUnpack :: "int \<Rightarrow> u16 \<times> u8 \<times> u16" where
  "FildesUnpack iFildes =
     (let ulFdBits = word_of_int iFildes :: u32;
          uHandleIdx = ucast (ulFdBits AND FD_IDX_MAX);
          ulFdBits = drop_bit FD_IDX_BITS ulFdBits;
          bVolNum = ucast (ulFdBits AND FD_VOL_MAX);
          ulFdBits = drop_bit FD_VOL_BITS ulFdBits
      in (uHandleIdx, bVolNum, ucast (ulFdBits AND FD_GEN_MAX)))"

definition handle_type :: "'d env \<Rightarrow> u8 \<Rightarrow> FTYPE" where
  "handle_type E bFlags =
     (let b = bFlags AND (HFLAG_DIRECTORY OR HFLAG_SYMLINK) in
      if b = HFLAG_DIRECTORY then FTYPE_DIR
      else if REDCONF_API_POSIX_SYMLINK E \<and> b = HFLAG_SYMLINK then FTYPE_SYMLINK
      else FTYPE_FILE)"

definition fildes_bad :: "'d env \<Rightarrow> int \<Rightarrow> 'd posix \<Rightarrow> bool" where
  "fildes_bad E iFildes x \<longleftrightarrow> iFildes < FD_MIN \<or>
     (case FildesUnpack iFildes of (uHandleIdx, bVolNum, uGeneration) \<Rightarrow>
        uHandleIdx \<ge> REDCONF_HANDLE_COUNT E \<or> bVolNum \<ge> REDCONF_VOLUME_COUNT E \<or>
        (case h_pOpenIno (gaHandle x (unat uHandleIdx)) of
           None \<Rightarrow> True
         | Some i \<Rightarrow> oi_bVolNum (gaOpenInos x i) \<noteq> bVolNum) \<or>
        gauGeneration x bVolNum \<noteq> uGeneration)"

definition FildesToHandle :: "'d env \<Rightarrow> int \<Rightarrow> FTYPE \<Rightarrow> ('d, nat) pop" where
  "FildesToHandle E iFildes expectedType = (\<lambda>x.
     if fildes_bad E iFildes x then errE RED_EBADF x
     else
       let h = unat (fst (FildesUnpack iFildes)) in
       thenE (returnE (RedFileTypeCheck (REDCONF_API_POSIX_SYMLINK E) (handle_type E (h_bFlags (gaHandle x h))) expectedType))
         (okE h) x)"

definition FildesClose :: "'d env \<Rightarrow> int \<Rightarrow> ('d, unit) pop" where
  "FildesClose E iFildes =
     bindE (FildesToHandle E iFildes (FTYPE_ANY E)) (\<lambda>h. HandleClose E h RED_TRANSACT_CLOSE)"

text \<open>The open inode that a handle points to.\<close>

definition open_ino :: "nat \<Rightarrow> ('d, nat) pop" where
  "open_ino h = (\<lambda>x. case h_pOpenIno (gaHandle x h) of None \<Rightarrow> None | Some i \<Rightarrow> Some (Inr i, x))"

definition oi_at :: "nat \<Rightarrow> ('d, OPENINODE) pop" where
  "oi_at i = getE (\<lambda>x. gaOpenInos x i)"

definition handle_has :: "u8 \<Rightarrow> nat \<Rightarrow> 'd posix \<Rightarrow> bool" where
  "handle_has bFlag h x \<longleftrightarrow> h_bFlags (gaHandle x h) AND bFlag \<noteq> 0"

section \<open>Working directories\<close>

definition CwdClose :: "'d env \<Rightarrow> nat \<Rightarrow> bool \<Rightarrow> bool \<Rightarrow> ('d, unit) pop" where
  "CwdClose E t fClearVol fReset = (\<lambda>x.
     thenE (case ts_pCwd (gaTask x t) of None \<Rightarrow> okE () | Some i \<Rightarrow> OpenInoDeref E i (\<not> fReset) False)
       (\<lambda>x. case OpenInoRef E (if fClearVol then 0 else gbRedVolNum (posix_fs x)) INODE_ROOTDIR x of
          (p, y) \<Rightarrow> thenE (modE (upd_task t (ts_pCwd_update (\<lambda>_. p))))
                     (if p = None then errE RED_EFUBAR else okE ()) y) x)"

fun cwd_close_vol :: "'d env \<Rightarrow> bool \<Rightarrow> nat list \<Rightarrow> ('d, unit) pop" where
  "cwd_close_vol E fReset [] = okE ()"
| "cwd_close_vol E fReset (t # ts) = (\<lambda>x.
     thenE (whenE (case ts_pCwd (gaTask x t) of None \<Rightarrow> False
           | Some i \<Rightarrow> oi_bVolNum (gaOpenInos x i) = gbRedVolNum (posix_fs x)) (CwdClose E t False fReset))
       (cwd_close_vol E fReset ts) x)"

definition CwdCloseVol :: "'d env \<Rightarrow> bool \<Rightarrow> ('d, unit) pop" where
  "CwdCloseVol E fReset = cwd_close_vol E fReset [0..<TASKS E]"

fun cwd_reset :: "'d env \<Rightarrow> nat list \<Rightarrow> ('d, unit) pop" where
  "cwd_reset E [] = okE ()"
| "cwd_reset E (t # ts) = statusE (CwdClose E t True True) (\<lambda>_. cwd_reset E ts)"

definition CwdResetAll :: "'d env \<Rightarrow> ('d, unit) pop" where
  "CwdResetAll E = cwd_reset E [0..<TASKS E]"

definition TaskUnregister :: "'d env \<Rightarrow> u32 \<Rightarrow> ('d, unit) pop" where
  "TaskUnregister E ulTaskId = (\<lambda>x.
     case TaskFind E ulTaskId x of
       None \<Rightarrow> errE RED_ENOENT x
     | Some t \<Rightarrow>
         thenE (modE (upd_task t (\<lambda>s. s\<lparr>ts_ulTaskId := 0, ts_iErrno := 0\<rparr>)))
           (whenE (REDCONF_API_POSIX_CWD E) (CwdClose E t True False)) x)"

end
