(* ===== verification/Red_Posix.thy ===== *)
theory Red_Posix
  imports Red_Handle Red_Format
begin

text \<open>
  The POSIX-like interface, from \<^verbatim>\<open>posix/posix.c\<close>: the operations on volumes, the place where the
  walk along a path starts, the opening of files, and the operations on the names and the attributes of files.
  Functions that only call another function with fixed arguments, such as \<^verbatim>\<open>red_open\<close>, are definitions too.
\<close>

section \<open>The driver and its volumes\<close>

definition red_init :: "'d env \<Rightarrow> ('d, unit) pop" where
  "red_init E = PosixReturn E (\<lambda>x.
     if gfPosixInited x then okE () x
     else thenE (coreP (liftF (RedCoreInit E)))
       (thenE (modE (\<lambda>x. x\<lparr>gaHandle := (\<lambda>_. redhandle_zero), gaOpenInos := (\<lambda>_. openinode_zero),
                 gaTask := (\<lambda>_. taskslot_zero)\<rparr>))
         (thenE (whenE (REDCONF_API_POSIX_CWD E) (CwdResetAll E))
           (modE (gfPosixInited_update (\<lambda>_. True))))) x)"

definition red_uninit :: "'d env \<Rightarrow> ('d, unit) pop" where
  "red_uninit E = PosixReturn E (\<lambda>x.
     if \<not> gfPosixInited x then okE () x
     else if \<exists>n < unat (REDCONF_VOLUME_COUNT E). vol_fMounted (gaRedVolume (posix_fs x) (word_of_nat n))
     then errE RED_EBUSY x
     else thenE (modE (gfPosixInited_update (\<lambda>_. False))) (coreP (liftF (RedCoreUninit E))) x)"

text \<open>The two functions on tasks do not set the error variable.\<close>

definition this_task :: "'d env \<Rightarrow> u32 \<Rightarrow> 'd posix \<Rightarrow> u32" where
  "this_task E ulTaskId x = (if ulTaskId = 0 then RedOsTaskId E (os (posix_fs x)) else ulTaskId)"

definition red_taskregister :: "'d env \<Rightarrow> u32 \<Rightarrow> ('d, unit) pop" where
  "red_taskregister E ulTaskId = (\<lambda>x.
     if \<not> gfPosixInited x then errE RED_EINVAL x
     else case TaskRegister E (this_task E ulTaskId x) x of
       (Some _, y) \<Rightarrow> okE () y
     | (None, y) \<Rightarrow> errE RED_EUSERS y)"

definition red_taskunregister :: "'d env \<Rightarrow> u32 \<Rightarrow> ('d, unit) pop" where
  "red_taskunregister E ulTaskId = (\<lambda>x.
     if \<not> gfPosixInited x then errE RED_EINVAL x else TaskUnregister E (this_task E ulTaskId x) x)"

text \<open>The status is that of the last volume that failed.\<close>

definition sync_volume :: "'d env \<Rightarrow> u8 \<Rightarrow> ('d, unit) pop" where
  "sync_volume E bVolNum = (\<lambda>x.
     whenE (vol_fMounted (gaRedVolume (posix_fs x) bVolNum) \<and> \<not> vol_fReadOnly (gaRedVolume (posix_fs x) bVolNum))
       (thenE (set_volume E bVolNum)
         (bindE (coreP RedCoreTransMaskGet) (\<lambda>ulTransMask.
          whenE (ulTransMask AND RED_TRANSACT_SYNC \<noteq> 0) (coreP (RedCoreVolTransact E))))) x)"

fun sync_volumes :: "'d env \<Rightarrow> nat list \<Rightarrow> rederr + unit \<Rightarrow> ('d, unit) pop" where
  "sync_volumes E [] ret = returnE ret"
| "sync_volumes E (n # ns) ret =
     statusE (sync_volume E (word_of_nat n)) (\<lambda>err. sync_volumes E ns (if is_ok err then ret else err))"

definition red_sync :: "'d env \<Rightarrow> ('d, unit) pop" where
  "red_sync E = in_posix E (sync_volumes E [0..<unat (REDCONF_VOLUME_COUNT E)] (Inr ()))"

text \<open>An operation on the volume that a path names.\<close>

definition on_volume :: "'d env \<Rightarrow> cstr option \<Rightarrow> ('d, 'a) pop \<Rightarrow> ('d, 'a) pop" where
  "on_volume E pszVolume f = thenE (coreP (liftF (RedPathVolumeLookup E pszVolume))) f"

definition next_generation :: "u16 \<Rightarrow> u16" where
  "next_generation g = (if ucast (g + 1) > FD_GEN_MAX then 1 else g + 1)"

definition red_mount2 :: "'d env \<Rightarrow> cstr option \<Rightarrow> u32 \<Rightarrow> ('d, unit) pop" where
  "red_mount2 E pszVolume ulFlags = in_posix E (on_volume E pszVolume (\<lambda>x.
     if vol_fMounted (gpRedVolume (posix_fs x)) then errE RED_EBUSY x
     else thenE (coreP (RedCoreVolMount E ulFlags))
       (modE (\<lambda>x. let v = gbRedVolNum (posix_fs x) in
          x\<lparr>gauGeneration := (gauGeneration x)(v := next_generation (gauGeneration x v))\<rparr>)) x))"

definition red_mount :: "'d env \<Rightarrow> cstr option \<Rightarrow> ('d, unit) pop" where
  "red_mount E pszVolume = red_mount2 E pszVolume RED_MOUNT_DEFAULT"

definition RED_UMOUNT_FORCE :: u32 where "RED_UMOUNT_FORCE = 1"
definition RED_UMOUNT_MASK :: u32 where "RED_UMOUNT_MASK = RED_UMOUNT_FORCE"
definition RED_UMOUNT_DEFAULT :: u32 where "RED_UMOUNT_DEFAULT = 0"

text \<open>A handle on the current volume.\<close>

definition handle_here :: "nat \<Rightarrow> 'd posix \<Rightarrow> bool" where
  "handle_here h x \<longleftrightarrow> (case h_pOpenIno (gaHandle x h) of None \<Rightarrow> False
     | Some i \<Rightarrow> oi_bVolNum (gaOpenInos x i) = gbRedVolNum (posix_fs x))"

fun umount_handles :: "'d env \<Rightarrow> bool \<Rightarrow> nat list \<Rightarrow> ('d, unit) pop" where
  "umount_handles E force [] = okE ()"
| "umount_handles E force (h # hs) = (\<lambda>x.
     thenE (whenE (handle_here h x) (if force then HandleClose E h 0 else errE RED_EBUSY))
       (umount_handles E force hs) x)"

definition red_umount2 :: "'d env \<Rightarrow> cstr option \<Rightarrow> u32 \<Rightarrow> ('d, unit) pop" where
  "red_umount2 E pszVolume ulFlags = in_posix E
     (if ulFlags \<noteq> ulFlags AND RED_UMOUNT_MASK then errE RED_EINVAL
      else on_volume E pszVolume (\<lambda>x.
        if \<not> vol_fMounted (gpRedVolume (posix_fs x)) then errE RED_EINVAL x
        else thenE (umount_handles E (ulFlags AND RED_UMOUNT_FORCE \<noteq> 0) [0..<HANDLES E])
          (thenE (whenE (REDCONF_API_POSIX_CWD E) (CwdCloseVol E False))
            (coreP (liftF (RedCoreVolUnmount E)))) x))"

definition red_umount :: "'d env \<Rightarrow> cstr option \<Rightarrow> ('d, unit) pop" where
  "red_umount E pszVolume = red_umount2 E pszVolume RED_UMOUNT_DEFAULT"

definition red_format2 :: "'d env \<Rightarrow> cstr option \<Rightarrow> REDFMTOPT option \<Rightarrow> ('d, unit) pop" where
  "red_format2 E pszVolume pOptions = in_posix E (on_volume E pszVolume (coreP (RedCoreVolFormat E pOptions)))"

definition red_format :: "'d env \<Rightarrow> cstr option \<Rightarrow> ('d, unit) pop" where
  "red_format E pszVolume = red_format2 E pszVolume None"

definition red_transact :: "'d env \<Rightarrow> cstr option \<Rightarrow> ('d, unit) pop" where
  "red_transact E pszVolume = in_posix E (on_volume E pszVolume (coreP (RedCoreVolTransact E)))"

definition red_rollback :: "'d env \<Rightarrow> cstr option \<Rightarrow> ('d, unit) pop" where
  "red_rollback E pszVolume = in_posix E (on_volume E pszVolume (\<lambda>x.
     if \<exists>h < HANDLES E. handle_here h x then errE RED_EBUSY x
     else thenE (coreP (RedCoreVolRollback E))
       (if REDCONF_API_POSIX_CWD E then statusE (CwdCloseVol E True) (\<lambda>_. okE ()) else okE ()) x))"

definition red_settransmask :: "'d env \<Rightarrow> cstr option \<Rightarrow> u32 \<Rightarrow> ('d, unit) pop" where
  "red_settransmask E pszVolume ulEventMask = in_posix E (on_volume E pszVolume (coreP (RedCoreTransMaskSet E ulEventMask)))"

definition red_gettransmask :: "'d env \<Rightarrow> cstr option \<Rightarrow> ('d, u32) pop" where
  "red_gettransmask E pszVolume = in_posix E (on_volume E pszVolume (coreP RedCoreTransMaskGet))"

definition red_statvfs :: "'d env \<Rightarrow> cstr option \<Rightarrow> ('d, REDSTATFS) pop" where
  "red_statvfs E pszVolume = in_posix E (on_volume E pszVolume (coreP (liftF (RedCoreVolStat E))))"

text \<open>One when orphans may be left and zero when there are none.\<close>

definition red_freeorphans :: "'d env \<Rightarrow> cstr option \<Rightarrow> u32 \<Rightarrow> ('d, int) pop" where
  "red_freeorphans E pszVolume ulCount = in_posix E (on_volume E pszVolume
     (statusE (coreP (RedCoreVolFreeOrphans E ulCount)) (\<lambda>err.
        case err of Inr _ \<Rightarrow> okE 1 | Inl e \<Rightarrow> if e = RED_ENOENT then okE 0 else errE e)))"

section \<open>Where a path starts\<close>

definition RED_AT_FDCWD :: int where "RED_AT_FDCWD = - 100"
definition RED_AT_FDABS :: int where "RED_AT_FDABS = - 101"
definition RED_AT_FDNONE :: "'d env \<Rightarrow> int" where
  "RED_AT_FDNONE E = (if REDCONF_API_POSIX_CWD E then RED_AT_FDCWD else RED_AT_FDABS)"

text \<open>The directory that a relative path starts from.\<close>

definition start_open_ino :: "'d env \<Rightarrow> int \<Rightarrow> ('d, nat) pop" where
  "start_open_ino E iDirFildes =
     (if REDCONF_API_POSIX_CWD E \<and> iDirFildes = RED_AT_FDCWD then (\<lambda>x.
        case TaskFindSelf E x of
          None \<Rightarrow> errE RED_EFUBAR x
        | Some t \<Rightarrow> (case ts_pCwd (gaTask x t) of None \<Rightarrow> errE RED_EFUBAR x | Some i \<Rightarrow> okE i x))
      else bindE (FildesToHandle E iDirFildes FTYPE_DIR) (\<lambda>h x.
        if handle_has HFLAG_READABLE h x then open_ino h x else errE RED_EBADF x))"

definition start_absolute :: "'d env \<Rightarrow> cstr \<Rightarrow> ('d, u8 \<times> u32 \<times> cstr) pop" where
  "start_absolute E path = coreP (liftF
     (bindE (RedPathVolumePrefixLookup E (Some path)) (\<lambda>bVolNum.
      bindE (after_prefix E path) (\<lambda>pszLocalPath. okE (bVolNum, INODE_ROOTDIR, pszLocalPath)))))"

definition start_relative :: "'d env \<Rightarrow> int \<Rightarrow> cstr \<Rightarrow> ('d, u8 \<times> u32 \<times> cstr) pop" where
  "start_relative E iDirFildes path =
     bindE (start_open_ino E iDirFildes) (\<lambda>i.
     bindE (oi_at i) (\<lambda>oi.
     thenE (set_volume E (oi_bVolNum oi)) (okE (oi_bVolNum oi, oi_ulInode oi, path))))"

definition PathStartingPoint :: "'d env \<Rightarrow> int \<Rightarrow> cstr option \<Rightarrow> ('d, u8 \<times> u32 \<times> cstr) pop" where
  "PathStartingPoint E iDirFildes pszPath =
     (case pszPath of
        None \<Rightarrow> errE RED_EINVAL
      | Some path \<Rightarrow> statusE (start_absolute E path) (\<lambda>ret x.
          if iDirFildes \<noteq> RED_AT_FDABS \<and>
             (case ret of Inl e \<Rightarrow> e = RED_ENOENT | Inr _ \<Rightarrow> current_prefix E (posix_fs x) 0 = 0) \<and>
             path 0 \<noteq> REDCONF_PATH_SEPARATOR E \<and> path 0 \<noteq> 0
          then start_relative E iDirFildes path x
          else returnE ret x))"

text \<open>An operation on the file that a path leads to, and one on the place of a name.\<close>

definition on_path :: "'d env \<Rightarrow> int \<Rightarrow> cstr option \<Rightarrow> u32 \<Rightarrow> (u32 \<Rightarrow> ('d, 'a) pop) \<Rightarrow> ('d, 'a) pop" where
  "on_path E iDirFildes pszPath ulFlags f =
     bindE (PathStartingPoint E iDirFildes pszPath) (\<lambda>(_, ulDirInode, pszLocalPath).
     bindE (coreP (RedPathLookup E ulDirInode (Some pszLocalPath) ulFlags)) f)"

definition on_name :: "'d env \<Rightarrow> int \<Rightarrow> cstr option \<Rightarrow> rederr \<Rightarrow> (u32 \<Rightarrow> cstr \<Rightarrow> ('d, 'a) pop) \<Rightarrow> ('d, 'a) pop" where
  "on_name E iDirFildes pszPath rootDirError f =
     bindE (PathStartingPoint E iDirFildes pszPath) (\<lambda>(_, ulDirInode, pszLocalPath).
     bindE (coreP (RedPathToName E ulDirInode (Some pszLocalPath) rootDirError)) (\<lambda>(ulPInode, pszName).
     f ulPInode pszName))"

definition initialisedP :: "'a option \<Rightarrow> ('d, 'a) pop" where
  "initialisedP v = (case v of None \<Rightarrow> (\<lambda>_. None) | Some x \<Rightarrow> okE x)"

section \<open>Opening a file\<close>

definition RED_O_RDONLY :: u32 where "RED_O_RDONLY = 0x001"
definition RED_O_WRONLY :: u32 where "RED_O_WRONLY = 0x002"
definition RED_O_RDWR :: u32 where "RED_O_RDWR = 0x004"
definition RED_O_APPEND :: u32 where "RED_O_APPEND = 0x008"
definition RED_O_CREAT :: u32 where "RED_O_CREAT = 0x010"
definition RED_O_EXCL :: u32 where "RED_O_EXCL = 0x020"
definition RED_O_TRUNC :: u32 where "RED_O_TRUNC = 0x040"
definition RED_O_NOFOLLOW :: u32 where "RED_O_NOFOLLOW = 0x080"
definition RED_O_SYMLINK :: u32 where "RED_O_SYMLINK = 0x100"

definition RED_O_MASK :: "'d env \<Rightarrow> u32" where
  "RED_O_MASK E = RED_O_RDONLY OR RED_O_WRONLY OR RED_O_RDWR OR RED_O_APPEND OR RED_O_CREAT OR RED_O_EXCL OR
     RED_O_TRUNC OR RED_O_NOFOLLOW OR (if REDCONF_API_POSIX_SYMLINK E then RED_O_SYMLINK else 0)"

definition has_flag :: "u32 \<Rightarrow> u32 \<Rightarrow> bool" where "has_flag ulFlags f \<longleftrightarrow> ulFlags AND f \<noteq> 0"

text \<open>The inode of an existing file that the name of a file to create turned out to be.\<close>

definition open_existing :: "'d env \<Rightarrow> u32 \<Rightarrow> rederr \<Rightarrow> u32 \<Rightarrow> cstr \<Rightarrow> ('d, bool \<times> u32) pop" where
  "open_existing E ulOpenFlags retCreate ulPInode pszName =
     (if retCreate = RED_EROFS \<or> (retCreate = RED_EEXIST \<and> \<not> has_flag ulOpenFlags RED_O_EXCL) then
        statusE (coreP (RedCoreLookup E ulPInode (Some pszName))) (\<lambda>ret.
          case ret of
            Inr found \<Rightarrow>
              if retCreate = RED_EROFS \<and> has_flag ulOpenFlags RED_O_EXCL then errE RED_EEXIST
              else okE (False, case found of None \<Rightarrow> 0 | Some ulInode \<Rightarrow> ulInode)
          | Inl e \<Rightarrow> if retCreate = RED_EROFS \<and> e = RED_ENOENT then errE RED_EROFS else errE e)
      else errE retCreate)"

text \<open>The value is whether the file was created, and its inode.\<close>

definition open_create :: "'d env \<Rightarrow> u32 \<Rightarrow> cstr \<Rightarrow> u32 \<Rightarrow> u16 \<Rightarrow> ('d, bool \<times> u32) pop" where
  "open_create E ulDirInode pszLocalPath ulOpenFlags uMode =
     statusE (coreP (RedPathToName E ulDirInode (Some pszLocalPath) RED_EISDIR)) (\<lambda>ret.
       case ret of
         Inr (ulPInode, pszName) \<Rightarrow>
           statusE (coreP (RedCoreCreate E ulPInode (Some pszName) uMode)) (\<lambda>ret.
             case ret of
               Inr ulInode \<Rightarrow> okE (True, ulInode)
             | Inl e \<Rightarrow> open_existing E ulOpenFlags e ulPInode pszName)
       | Inl e \<Rightarrow>
           if e = RED_EISDIR then
             (if has_flag ulOpenFlags RED_O_EXCL
              then errE (if has_flag ulOpenFlags RED_O_RDONLY then RED_EEXIST else RED_EISDIR)
              else okE (False, INODE_ROOTDIR))
           else errE e)"

definition open_lookup :: "'d env \<Rightarrow> u32 \<Rightarrow> cstr \<Rightarrow> u32 \<Rightarrow> ('d, bool \<times> u32) pop" where
  "open_lookup E ulDirInode pszLocalPath ulOpenFlags =
     bindE (coreP (RedPathLookup E ulDirInode (Some pszLocalPath)
        (if REDCONF_API_POSIX_SYMLINK E \<and> (has_flag ulOpenFlags RED_O_SYMLINK \<or> has_flag ulOpenFlags RED_O_NOFOLLOW)
         then RED_AT_SYMLINK_NOFOLLOW else 0)))
      (\<lambda>ulInode. okE (False, ulInode))"

definition open_access :: "u32 \<Rightarrow> u8" where
  "open_access ulOpenFlags =
     (if has_flag ulOpenFlags RED_O_RDWR then RED_R_OK OR RED_W_OK
      else if has_flag ulOpenFlags RED_O_RDONLY then RED_R_OK
      else if has_flag ulOpenFlags RED_O_WRONLY then RED_W_OK else 0) OR
     (if has_flag ulOpenFlags RED_O_TRUNC then RED_W_OK else 0)"

text \<open>The checks on a file that was not created here; the value is its mode.\<close>

definition open_check :: "'d env \<Rightarrow> u32 \<Rightarrow> FTYPE \<Rightarrow> u32 \<Rightarrow> ('d, u16) pop" where
  "open_check E ulOpenFlags type ulInode =
     bindE (coreP (RedCoreStat E ulInode)) (\<lambda>s.
     thenE (whenE (REDCONF_POSIX_OWNER_PERM E) (coreP (bindE (who E) (\<lambda>user.
         returnE (RedPermCheck user (open_access ulOpenFlags) (st_mode s) (st_uid s) (st_gid s))))))
       (let uMode = st_mode s; ret = RedModeTypeCheck (REDCONF_API_POSIX_SYMLINK E) uMode type in
        thenE (returnE (if follows_links E \<and> ret = Inl RED_ENOLINK \<and> has_flag ulOpenFlags RED_O_NOFOLLOW
                        then Inl RED_ELOOP else ret))
          (if RED_S_ISDIR (REDCONF_API_POSIX_SYMLINK E) uMode \<and> \<not> has_flag ulOpenFlags RED_O_RDONLY then errE RED_EISDIR
           else thenE (whenE (TRUNCATE_SUPPORTED E \<and> has_flag ulOpenFlags RED_O_TRUNC)
               (coreP (RedCoreFileTruncate E ulInode 0)))
             (okE uMode))))"

definition handle_flags :: "'d env \<Rightarrow> u32 \<Rightarrow> u16 \<Rightarrow> u8" where
  "handle_flags E ulOpenFlags uMode =
     (if RED_S_ISDIR (REDCONF_API_POSIX_SYMLINK E) uMode then HFLAG_DIRECTORY
      else if REDCONF_API_POSIX_SYMLINK E \<and> RED_S_ISLNK (REDCONF_API_POSIX_SYMLINK E) uMode then HFLAG_SYMLINK else 0) OR
     (if has_flag ulOpenFlags RED_O_RDONLY \<or> has_flag ulOpenFlags RED_O_RDWR then HFLAG_READABLE else 0) OR
     (if has_flag ulOpenFlags RED_O_WRONLY \<or> has_flag ulOpenFlags RED_O_RDWR then HFLAG_WRITEABLE else 0) OR
     (if has_flag ulOpenFlags RED_O_APPEND then HFLAG_APPENDING else 0)"

definition open_handle :: "'d env \<Rightarrow> nat \<Rightarrow> u32 \<Rightarrow> u16 \<Rightarrow> u32 \<Rightarrow> ('d, int) pop" where
  "open_handle E h ulOpenFlags uMode ulInode =
     thenE (HandleOpen E h ulInode)
       (thenE (modE (upd_handle h (h_bFlags_update (\<lambda>b. b OR handle_flags E ulOpenFlags uMode))))
         (\<lambda>x. let iFildes = FildesPack E (word_of_nat h) (gbRedVolNum (posix_fs x)) x in
            if iFildes = - 1 then errE RED_EFUBAR x else okE iFildes x))"

definition FildesOpen :: "'d env \<Rightarrow> int \<Rightarrow> cstr option \<Rightarrow> u32 \<Rightarrow> FTYPE \<Rightarrow> u16 \<Rightarrow> ('d, int) pop" where
  "FildesOpen E iDirFildes pszPath ulOpenFlags type uMode =
     bindE (PathStartingPoint E iDirFildes pszPath) (\<lambda>(_, ulDirInode, pszLocalPath) x.
     if vol_fReadOnly (gpRedVolume (posix_fs x)) \<and> has_flag ulOpenFlags (RED_O_WRONLY OR RED_O_RDWR OR RED_O_TRUNC)
     then errE RED_EROFS x
     else case HandleFindFree E x of
       (None, y) \<Rightarrow> errE RED_EMFILE y
     | (Some h, y) \<Rightarrow>
         bindE (if has_flag ulOpenFlags RED_O_CREAT then open_create E ulDirInode pszLocalPath ulOpenFlags uMode
                else open_lookup E ulDirInode pszLocalPath ulOpenFlags) (\<lambda>(fCreated, ulInode).
         bindE (if fCreated then okE uMode else open_check E ulOpenFlags type ulInode) (\<lambda>uMode.
         open_handle E h ulOpenFlags uMode ulInode)) y)"

definition RED_S_IREG_DEFAULT :: "'d env \<Rightarrow> u16" where
  "RED_S_IREG_DEFAULT E = (RED_S_IRUSR OR RED_S_IWUSR OR RED_S_IRGRP OR RED_S_IROTH) AND RED_S_IFVALID E"

definition open_flags_invalid :: "'d env \<Rightarrow> u32 \<Rightarrow> u16 \<Rightarrow> bool" where
  "open_flags_invalid E ulOpenFlags uMode \<longleftrightarrow>
     ulOpenFlags \<noteq> ulOpenFlags AND RED_O_MASK E \<or>
     \<not> has_flag ulOpenFlags (RED_O_RDONLY OR RED_O_WRONLY OR RED_O_RDWR) \<or>
     has_flag ulOpenFlags RED_O_RDONLY \<and> has_flag ulOpenFlags (RED_O_WRONLY OR RED_O_RDWR) \<or>
     has_flag ulOpenFlags RED_O_WRONLY \<and> has_flag ulOpenFlags (RED_O_RDONLY OR RED_O_RDWR) \<or>
     has_flag ulOpenFlags RED_O_RDWR \<and> has_flag ulOpenFlags (RED_O_RDONLY OR RED_O_WRONLY) \<or>
     has_flag ulOpenFlags RED_O_TRUNC \<and> has_flag ulOpenFlags RED_O_RDONLY \<or>
     has_flag ulOpenFlags RED_O_EXCL \<and> \<not> has_flag ulOpenFlags RED_O_CREAT \<or>
     has_flag ulOpenFlags RED_O_CREAT \<and> uMode AND NOT RED_S_IALLUGO \<noteq> 0 \<or>
     \<not> TRUNCATE_SUPPORTED E \<and> has_flag ulOpenFlags RED_O_TRUNC \<or>
     REDCONF_API_POSIX_SYMLINK E \<and> has_flag ulOpenFlags RED_O_NOFOLLOW \<and> has_flag ulOpenFlags RED_O_SYMLINK"

definition red_openat :: "'d env \<Rightarrow> int \<Rightarrow> cstr option \<Rightarrow> u32 \<Rightarrow> u16 \<Rightarrow> ('d, int) pop" where
  "red_openat E iDirFildes pszPath ulOpenFlags uMode = in_posix E
     (if open_flags_invalid E ulOpenFlags uMode then errE RED_EINVAL
      else
        let uOpenMode = (if REDCONF_POSIX_OWNER_PERM E then uMode else RED_S_IREG_DEFAULT E) in
        if REDCONF_API_POSIX_SYMLINK E \<and> has_flag ulOpenFlags RED_O_SYMLINK
        then FildesOpen E iDirFildes pszPath ulOpenFlags FTYPE_SYMLINK (uOpenMode OR RED_S_IFLNK)
        else FildesOpen E iDirFildes pszPath ulOpenFlags (FTYPE_FILE OR FTYPE_DIR) (uOpenMode OR RED_S_IFREG))"

definition red_open :: "'d env \<Rightarrow> cstr option \<Rightarrow> u32 \<Rightarrow> ('d, int) pop" where
  "red_open E pszPath ulOpenFlags = red_openat E (RED_AT_FDNONE E) pszPath ulOpenFlags (RED_S_IREG_DEFAULT E)"

definition red_open2 :: "'d env \<Rightarrow> cstr option \<Rightarrow> u32 \<Rightarrow> u16 \<Rightarrow> ('d, int) pop" where
  "red_open2 E pszPath ulOpenFlags uMode = red_openat E (RED_AT_FDNONE E) pszPath ulOpenFlags uMode"

end
