(* ===== verification/Red_PosixName.thy ===== *)
theory Red_PosixName
  imports Red_Posix
begin

text \<open>
  The POSIX-like interface, continued: the operations of \<^verbatim>\<open>posix/posix.c\<close> on the names and the
  attributes of files.
\<close>

section \<open>Symbolic links\<close>

definition RED_S_IRWXUGO :: u16 where
  "RED_S_IRWXUGO = RED_S_IRUSR OR RED_S_IWUSR OR RED_S_IXUSR OR RED_S_IRGRP OR RED_S_IWGRP OR RED_S_IXGRP OR
     RED_S_IROTH OR RED_S_IWOTH OR RED_S_IXOTH"

text \<open>The text of the link with its terminator.\<close>

definition str_bytes :: "cstr \<Rightarrow> u32 \<Rightarrow> bytes" where
  "str_bytes s n = map (\<lambda>k. s (word_of_nat k)) [0..<unat n]"

definition write_link :: "'d env \<Rightarrow> u32 \<Rightarrow> cstr \<Rightarrow> ('d, unit) pop" where
  "write_link E ulInode path =
     bindE (loop_result (RedStrLen (Some path))) (\<lambda>n.
     let ulPathLen = n + 1 in
     bindE (coreP (RedCoreFileWrite E ulInode 0 ulPathLen (str_bytes path ulPathLen))) (\<lambda>ulLenWrote.
     if ulLenWrote \<noteq> ulPathLen then errE RED_ENOSPC else okE ()))"

definition red_symlink :: "'d env \<Rightarrow> cstr option \<Rightarrow> cstr option \<Rightarrow> ('d, unit) pop" where
  "red_symlink E pszPath pszSymlink = in_posix E
     (case pszPath of
        None \<Rightarrow> errE RED_EINVAL
      | Some path \<Rightarrow> on_name E (RED_AT_FDNONE E) pszSymlink RED_EISDIR (\<lambda>ulPInode pszName.
          bindE (coreP (RedCoreCreate E ulPInode (Some pszName) (RED_S_IFLNK OR (RED_S_IRWXUGO AND RED_S_IFVALID E)))) (\<lambda>ulInode.
          statusE (write_link E ulInode path) (\<lambda>ret.
            if is_ok ret then okE ()
            else thenE (coreP (RedCoreUnlink E ulPInode (Some pszName) False)) (returnE ret)))))"

text \<open>What the link is expected to be is a link: the text it holds ends at its first zero byte.\<close>

definition link_text :: "u32 \<Rightarrow> u32 \<times> bytes \<Rightarrow> u32 \<times> bytes" where
  "link_text ulBufferSize = (\<lambda>(ulLenRead, b).
     let b = (if ulLenRead < ulBufferSize \<and> (ulLenRead = 0 \<or> b ! unat (ulLenRead - 1) \<noteq> 0)
              then b[unat ulLenRead := 0] else b)
     in (case find (\<lambda>i. b ! i = 0) [0..<unat ulLenRead] of None \<Rightarrow> ulLenRead | Some i \<Rightarrow> word_of_nat i, b))"

definition must_be_link :: "'d env \<Rightarrow> u32 \<Rightarrow> ('d, unit) pop" where
  "must_be_link E ulInode =
     bindE (coreP (RedCoreStat E ulInode)) (\<lambda>sb.
     let ret = RedModeTypeCheck (REDCONF_API_POSIX_SYMLINK E) (st_mode sb) FTYPE_SYMLINK in
     returnE (if ret = Inl RED_ENOLINK then Inl RED_EINVAL else ret))"

definition red_readlink :: "'d env \<Rightarrow> cstr option \<Rightarrow> u32 \<Rightarrow> bytes \<Rightarrow> ('d, u32 \<times> bytes) pop" where
  "red_readlink E pszSymlink ulBufferSize pszBuffer = in_posix E
     (if ulBufferSize > 0x7FFFFFFF then errE RED_EINVAL
      else on_path E (RED_AT_FDNONE E) pszSymlink RED_AT_SYMLINK_NOFOLLOW (\<lambda>ulInode.
        thenE (must_be_link E ulInode)
          (bindE (coreP (RedCoreFileRead E ulInode 0 ulBufferSize pszBuffer)) (\<lambda>r.
           okE (link_text ulBufferSize r)))))"

section \<open>Removal\<close>

definition RED_AT_REMOVEDIR :: u32 where "RED_AT_REMOVEDIR = 1"

definition unlink_flags_invalid :: "'d env \<Rightarrow> u32 \<Rightarrow> bool" where
  "unlink_flags_invalid E ulFlags \<longleftrightarrow>
     (if \<not> REDCONF_API_POSIX_RMDIR E then ulFlags \<noteq> 0
      else if \<not> REDCONF_API_POSIX_UNLINK E then ulFlags \<noteq> RED_AT_REMOVEDIR
      else ulFlags AND NOT RED_AT_REMOVEDIR \<noteq> 0)"

definition must_be_directory :: "'d env \<Rightarrow> u32 \<Rightarrow> ('d, unit) pop" where
  "must_be_directory E ulInode =
     bindE (coreP (RedCoreStat E ulInode)) (\<lambda>sb.
     let ret = RedModeTypeCheck (REDCONF_API_POSIX_SYMLINK E) (st_mode sb) FTYPE_DIR in
     returnE (if REDCONF_API_POSIX_SYMLINK E \<and> ret = Inl RED_ENOLINK then Inl RED_ENOTDIR else ret))"

text \<open>Whether a file that loses its name is open and so becomes an orphan.\<close>

definition unlink_orphans :: "'d env \<Rightarrow> u32 \<Rightarrow> ('d, bool) pop" where
  "unlink_orphans E ulInode = statusE (InodeUnlinkCheck E ulInode) (\<lambda>ret.
     if REDCONF_DELETE_OPEN E \<and> ret = Inl RED_EBUSY then okE True else thenE (returnE ret) (okE False))"

definition unlink_at :: "'d env \<Rightarrow> u32 \<Rightarrow> u32 \<Rightarrow> cstr \<Rightarrow> ('d, unit) pop" where
  "unlink_at E ulFlags ulPInode pszName =
     bindE (coreP (RedCoreLookup E ulPInode (Some pszName))) (\<lambda>found.
     bindE (initialisedP found) (\<lambda>ulInode.
     thenE (whenE (REDCONF_API_POSIX_RMDIR E \<and> ulFlags AND RED_AT_REMOVEDIR \<noteq> 0) (must_be_directory E ulInode))
       (bindE (unlink_orphans E ulInode) (\<lambda>fOrphan.
        thenE (coreP (RedCoreUnlink E ulPInode (Some pszName) fOrphan))
          (whenE fOrphan (modE (InodeOrphaned E ulInode)))))))"

definition red_unlinkat :: "'d env \<Rightarrow> int \<Rightarrow> cstr option \<Rightarrow> u32 \<Rightarrow> ('d, unit) pop" where
  "red_unlinkat E iDirFildes pszPath ulFlags = in_posix E
     (if unlink_flags_invalid E ulFlags then errE RED_EINVAL
      else on_name E iDirFildes pszPath RED_EBUSY (unlink_at E ulFlags))"

definition red_unlink :: "'d env \<Rightarrow> cstr option \<Rightarrow> ('d, unit) pop" where
  "red_unlink E pszPath = red_unlinkat E (RED_AT_FDNONE E) pszPath 0"

definition red_rmdir :: "'d env \<Rightarrow> cstr option \<Rightarrow> ('d, unit) pop" where
  "red_rmdir E pszPath = red_unlinkat E (RED_AT_FDNONE E) pszPath RED_AT_REMOVEDIR"

section \<open>Attributes\<close>

definition on_path_flags :: "'d env \<Rightarrow> int \<Rightarrow> cstr option \<Rightarrow> u32 \<Rightarrow> (u32 \<Rightarrow> ('d, 'a) iop) \<Rightarrow> ('d, 'a) pop" where
  "on_path_flags E iDirFildes pszPath ulFlags f = in_posix E
     (if ulFlags AND RED_AT_SYMLINK_NOFOLLOW \<noteq> ulFlags then errE RED_EINVAL
      else on_path E iDirFildes pszPath ulFlags (\<lambda>ulInode. coreP (f ulInode)))"

text \<open>An operation on the open inode of a descriptor, on the volume of the inode.\<close>

definition on_fildes :: "'d env \<Rightarrow> int \<Rightarrow> FTYPE \<Rightarrow> (nat \<Rightarrow> nat \<Rightarrow> ('d, 'a) pop) \<Rightarrow> ('d, 'a) pop" where
  "on_fildes E iFildes type f =
     bindE (FildesToHandle E iFildes type) (\<lambda>h.
     bindE (open_ino h) (\<lambda>i.
     bindE (oi_at i) (\<lambda>oi. thenE (set_volume E (oi_bVolNum oi)) (f h i))))"

definition on_open_inode :: "'d env \<Rightarrow> int \<Rightarrow> (u32 \<Rightarrow> ('d, 'a) iop) \<Rightarrow> ('d, 'a) pop" where
  "on_open_inode E iFildes f = in_posix E
     (on_fildes E iFildes (FTYPE_ANY E) (\<lambda>_ i. bindE (oi_at i) (\<lambda>oi. coreP (f (oi_ulInode oi)))))"

definition red_fchmodat :: "'d env \<Rightarrow> int \<Rightarrow> cstr option \<Rightarrow> u16 \<Rightarrow> u32 \<Rightarrow> ('d, unit) pop" where
  "red_fchmodat E iDirFildes pszPath uMode ulFlags =
     on_path_flags E iDirFildes pszPath ulFlags (\<lambda>ulInode. RedCoreChmod E ulInode uMode)"

definition red_chmod :: "'d env \<Rightarrow> cstr option \<Rightarrow> u16 \<Rightarrow> ('d, unit) pop" where
  "red_chmod E pszPath uMode = red_fchmodat E (RED_AT_FDNONE E) pszPath uMode 0"

definition red_fchmod :: "'d env \<Rightarrow> int \<Rightarrow> u16 \<Rightarrow> ('d, unit) pop" where
  "red_fchmod E iFildes uMode = on_open_inode E iFildes (\<lambda>ulInode. RedCoreChmod E ulInode uMode)"

definition red_fchownat :: "'d env \<Rightarrow> int \<Rightarrow> cstr option \<Rightarrow> u32 \<Rightarrow> u32 \<Rightarrow> u32 \<Rightarrow> ('d, unit) pop" where
  "red_fchownat E iDirFildes pszPath ulUID ulGID ulFlags =
     on_path_flags E iDirFildes pszPath ulFlags (\<lambda>ulInode. RedCoreChown E ulInode ulUID ulGID)"

definition red_chown :: "'d env \<Rightarrow> cstr option \<Rightarrow> u32 \<Rightarrow> u32 \<Rightarrow> ('d, unit) pop" where
  "red_chown E pszPath ulUID ulGID = red_fchownat E (RED_AT_FDNONE E) pszPath ulUID ulGID 0"

definition red_fchown :: "'d env \<Rightarrow> int \<Rightarrow> u32 \<Rightarrow> u32 \<Rightarrow> ('d, unit) pop" where
  "red_fchown E iFildes ulUID ulGID = on_open_inode E iFildes (\<lambda>ulInode. RedCoreChown E ulInode ulUID ulGID)"

definition red_utimesat :: "'d env \<Rightarrow> int \<Rightarrow> cstr option \<Rightarrow> (u32 \<times> u32) option \<Rightarrow> u32 \<Rightarrow> ('d, unit) pop" where
  "red_utimesat E iDirFildes pszPath pulTimes ulFlags =
     on_path_flags E iDirFildes pszPath ulFlags (\<lambda>ulInode. RedCoreUTimes E ulInode pulTimes)"

definition red_utimes :: "'d env \<Rightarrow> cstr option \<Rightarrow> (u32 \<times> u32) option \<Rightarrow> ('d, unit) pop" where
  "red_utimes E pszPath pulTimes = red_utimesat E (RED_AT_FDNONE E) pszPath pulTimes 0"

definition red_futimes :: "'d env \<Rightarrow> int \<Rightarrow> (u32 \<times> u32) option \<Rightarrow> ('d, unit) pop" where
  "red_futimes E iFildes pulTimes = on_open_inode E iFildes (\<lambda>ulInode. RedCoreUTimes E ulInode pulTimes)"

definition red_fstatat :: "'d env \<Rightarrow> int \<Rightarrow> cstr option \<Rightarrow> u32 \<Rightarrow> ('d, REDSTAT) pop" where
  "red_fstatat E iDirFildes pszPath ulFlags = on_path_flags E iDirFildes pszPath ulFlags (RedCoreStat E)"

definition red_stat :: "'d env \<Rightarrow> cstr option \<Rightarrow> ('d, REDSTAT) pop" where
  "red_stat E pszPath = red_fstatat E (RED_AT_FDNONE E) pszPath 0"

definition red_fstat :: "'d env \<Rightarrow> int \<Rightarrow> ('d, REDSTAT) pop" where
  "red_fstat E iFildes = on_open_inode E iFildes (RedCoreStat E)"

section \<open>New names\<close>

definition RED_S_IDIR_DEFAULT :: "'d env \<Rightarrow> u16" where
  "RED_S_IDIR_DEFAULT E =
     (RED_S_IRUSR OR RED_S_IWUSR OR RED_S_IXUSR OR RED_S_IRGRP OR RED_S_IXGRP OR RED_S_IROTH OR RED_S_IXOTH)
     AND RED_S_IFVALID E"

definition red_mkdirat :: "'d env \<Rightarrow> int \<Rightarrow> cstr option \<Rightarrow> u16 \<Rightarrow> ('d, unit) pop" where
  "red_mkdirat E iDirFildes pszPath uMode = in_posix E
     (on_name E iDirFildes pszPath RED_EEXIST (\<lambda>ulPInode pszName.
        if REDCONF_POSIX_OWNER_PERM E \<and> uMode AND RED_S_IALLUGO \<noteq> uMode then errE RED_EINVAL
        else thenE (coreP (RedCoreCreate E ulPInode (Some pszName)
               (RED_S_IFDIR OR (if REDCONF_POSIX_OWNER_PERM E then uMode else RED_S_IDIR_DEFAULT E))))
          (okE ())))"

definition red_mkdir :: "'d env \<Rightarrow> cstr option \<Rightarrow> ('d, unit) pop" where
  "red_mkdir E pszPath = red_mkdirat E (RED_AT_FDNONE E) pszPath (RED_S_IDIR_DEFAULT E)"

definition red_mkdir2 :: "'d env \<Rightarrow> cstr option \<Rightarrow> u16 \<Rightarrow> ('d, unit) pop" where
  "red_mkdir2 E pszPath uMode = red_mkdirat E (RED_AT_FDNONE E) pszPath uMode"

text \<open>The file that a rename replaces, and whether it becomes an orphan.\<close>

definition rename_replaced :: "'d env \<Rightarrow> u32 \<Rightarrow> cstr \<Rightarrow> ('d, u32 \<times> bool) pop" where
  "rename_replaced E ulNewPInode pszNewName =
     statusE (coreP (RedCoreLookup E ulNewPInode (Some pszNewName))) (\<lambda>ret.
       case ret of
         Inr found \<Rightarrow>
           let ulDestInode = (case found of None \<Rightarrow> INODE_INVALID | Some n \<Rightarrow> n) in
           bindE (unlink_orphans E ulDestInode) (\<lambda>fOrphan. okE (ulDestInode, fOrphan))
       | Inl e \<Rightarrow> if e = RED_ENOENT then okE (INODE_INVALID, False) else errE e)"

definition rename_names :: "'d env \<Rightarrow> u32 \<Rightarrow> cstr \<Rightarrow> u32 \<Rightarrow> cstr \<Rightarrow> ('d, unit) pop" where
  "rename_names E ulOldPInode pszOldName ulNewPInode pszNewName =
     bindE (if REDCONF_RENAME_ATOMIC E then rename_replaced E ulNewPInode pszNewName else okE (INODE_INVALID, False))
       (\<lambda>(ulDestInode, fOrphan).
     thenE (coreP (RedCoreRename E ulOldPInode (Some pszOldName) ulNewPInode (Some pszNewName) fOrphan))
       (whenE (REDCONF_DELETE_OPEN E \<and> fOrphan) (modE (InodeOrphaned E ulDestInode))))"

definition red_renameat :: "'d env \<Rightarrow> int \<Rightarrow> cstr option \<Rightarrow> int \<Rightarrow> cstr option \<Rightarrow> ('d, unit) pop" where
  "red_renameat E iOldDirFildes pszOldPath iNewDirFildes pszNewPath = in_posix E
     (bindE (PathStartingPoint E iOldDirFildes pszOldPath) (\<lambda>(bOldVolNum, ulOldCwdInode, pszOldLocalPath).
      bindE (PathStartingPoint E iNewDirFildes pszNewPath) (\<lambda>(bNewVolNum, ulNewCwdInode, pszNewLocalPath).
      if bOldVolNum \<noteq> bNewVolNum then errE RED_EXDEV
      else bindE (coreP (RedPathToName E ulOldCwdInode (Some pszOldLocalPath) RED_EBUSY)) (\<lambda>(ulOldPInode, pszOldName).
        bindE (coreP (RedPathToName E ulNewCwdInode (Some pszNewLocalPath) RED_EBUSY)) (\<lambda>(ulNewPInode, pszNewName).
        rename_names E ulOldPInode pszOldName ulNewPInode pszNewName)))))"

definition red_rename :: "'d env \<Rightarrow> cstr option \<Rightarrow> cstr option \<Rightarrow> ('d, unit) pop" where
  "red_rename E pszOldPath pszNewPath = red_renameat E (RED_AT_FDNONE E) pszOldPath (RED_AT_FDNONE E) pszNewPath"

definition RED_AT_SYMLINK_FOLLOW :: u32 where "RED_AT_SYMLINK_FOLLOW = 4"

definition red_linkat :: "'d env \<Rightarrow> int \<Rightarrow> cstr option \<Rightarrow> int \<Rightarrow> cstr option \<Rightarrow> u32 \<Rightarrow> ('d, unit) pop" where
  "red_linkat E iDirFildes pszPath iHardLinkDirFildes pszHardLink ulFlags = in_posix E
     (if ulFlags AND RED_AT_SYMLINK_FOLLOW \<noteq> ulFlags then errE RED_EINVAL
      else bindE (PathStartingPoint E iDirFildes pszPath) (\<lambda>(bVolNum, ulDirInode, pszLocalPath).
        bindE (PathStartingPoint E iHardLinkDirFildes pszHardLink) (\<lambda>(bLinkVolNum, ulLinkCwdInode, pszLinkLocalPath).
        if bVolNum \<noteq> bLinkVolNum then errE RED_EXDEV
        else bindE (coreP (RedPathLookup E ulDirInode (Some pszLocalPath)
             (if follows_links E \<and> ulFlags AND RED_AT_SYMLINK_FOLLOW = 0 then RED_AT_SYMLINK_NOFOLLOW else 0))) (\<lambda>ulInode.
          bindE (coreP (RedPathToName E ulLinkCwdInode (Some pszLinkLocalPath) RED_EEXIST)) (\<lambda>(ulLinkPInode, pszLinkName).
          coreP (RedCoreLink E ulLinkPInode (Some pszLinkName) ulInode))))))"

definition red_link :: "'d env \<Rightarrow> cstr option \<Rightarrow> cstr option \<Rightarrow> ('d, unit) pop" where
  "red_link E pszPath pszHardLink = red_linkat E (RED_AT_FDNONE E) pszPath (RED_AT_FDNONE E) pszHardLink 0"

end
