(* ===== verification/Red_PosixFile.thy ===== *)
theory Red_PosixFile
  imports Red_PosixName
begin

text \<open>
  The POSIX-like interface, continued: the operations of \<^verbatim>\<open>posix/posix.c\<close> on descriptors,
  directory streams and working directories. A file descriptor and an offset are integers in the range of
  the signed type.
\<close>

section \<open>Reading and writing\<close>

definition red_close :: "'d env \<Rightarrow> int \<Rightarrow> ('d, unit) pop" where
  "red_close E iFildes = in_posix E (FildesClose E iFildes)"

definition handle_offset :: "nat \<Rightarrow> 'd posix \<Rightarrow> u64" where
  "handle_offset h x = h_ullFileOffset (gaHandle x h)"

definition advance :: "nat \<Rightarrow> u32 \<Rightarrow> ('d, unit) pop" where
  "advance h n = modE (upd_handle h (h_ullFileOffset_update (\<lambda>p. p + ucast n)))"

text \<open>A descriptor that lacks the access, or names a directory where that is no excuse, is a bad one.\<close>

definition need_access :: "u8 \<Rightarrow> nat \<Rightarrow> ('d, unit) pop" where
  "need_access bFlag h = (\<lambda>x. if handle_has bFlag h x then okE () x else errE RED_EBADF x)"

definition fildes_with :: "'d env \<Rightarrow> int \<Rightarrow> FTYPE \<Rightarrow> u8 \<Rightarrow> ('d, nat) pop" where
  "fildes_with E iFildes type bFlag =
     bindE (FildesToHandle E iFildes type) (\<lambda>h. thenE (need_access bFlag h) (okE h))"

definition isdir_is_bad :: "('d, 'a) pop \<Rightarrow> ('d, 'a) pop" where
  "isdir_is_bad f = statusE f (\<lambda>ret. returnE (case ret of Inl e \<Rightarrow> Inl (if e = RED_EISDIR then RED_EBADF else e) | Inr v \<Rightarrow> Inr v))"

text \<open>The open inode of a handle, whose volume becomes the current one.\<close>

definition enter_open_ino :: "'d env \<Rightarrow> nat \<Rightarrow> ('d, nat) pop" where
  "enter_open_ino E h =
     bindE (open_ino h) (\<lambda>i. bindE (oi_at i) (\<lambda>oi. thenE (set_volume E (oi_bVolNum oi)) (okE i)))"

definition ReadSub :: "'d env \<Rightarrow> int \<Rightarrow> bytes \<Rightarrow> u32 \<Rightarrow> bool \<Rightarrow> u64 \<Rightarrow> ('d, u32 \<times> bytes) pop" where
  "ReadSub E iFildes pBuffer ulLength fIsPread ullOffset = in_posix E
     (if ulLength > 0x7FFFFFFF then errE RED_EINVAL
      else bindE (fildes_with E iFildes (FTYPE_NOTDIR E) HFLAG_READABLE) (\<lambda>h.
        bindE (enter_open_ino E h) (\<lambda>i.
        bindE (getE (\<lambda>x. (oi_ulInode (gaOpenInos x i), if fIsPread then ullOffset else handle_offset h x))) (\<lambda>(ulInode, ullStart).
        bindE (coreP (RedCoreFileRead E ulInode ullStart ulLength pBuffer)) (\<lambda>(ulLenRead, b).
        thenE (whenE (\<not> fIsPread) (advance h ulLenRead)) (okE (ulLenRead, b)))))))"

definition red_read :: "'d env \<Rightarrow> int \<Rightarrow> bytes \<Rightarrow> u32 \<Rightarrow> ('d, u32 \<times> bytes) pop" where
  "red_read E iFildes pBuffer ulLength = ReadSub E iFildes pBuffer ulLength False 0"

definition red_pread :: "'d env \<Rightarrow> int \<Rightarrow> bytes \<Rightarrow> u32 \<Rightarrow> u64 \<Rightarrow> ('d, u32 \<times> bytes) pop" where
  "red_pread E iFildes pBuffer ulLength ullOffset = ReadSub E iFildes pBuffer ulLength True ullOffset"

definition reserved :: "'d env \<Rightarrow> nat \<Rightarrow> 'd posix \<Rightarrow> bool" where
  "reserved E i x \<longleftrightarrow> REDCONF_API_POSIX_FRESERVE E \<and> oi_has OIFLAG_RESERVED i x"

definition clear_reserved :: "nat \<Rightarrow> 'd posix \<Rightarrow> 'd posix" where
  "clear_reserved i = upd_oi i (oi_bFlags_update (\<lambda>b. b AND NOT OIFLAG_RESERVED))"

text \<open>The size of the file, which a write needs when it appends or when space is reserved; else zero.\<close>

definition write_size :: "'d env \<Rightarrow> nat \<Rightarrow> nat \<Rightarrow> bool \<Rightarrow> ('d, u64) pop" where
  "write_size E h i fIsPwrite = (\<lambda>x.
     let fAppending = (\<not> fIsPwrite \<and> handle_has HFLAG_APPENDING h x) in
     if fAppending \<or> reserved E i x then
       bindE (coreP (RedCoreStat E (oi_ulInode (gaOpenInos x i)))) (\<lambda>s.
       thenE (whenE fAppending (modE (upd_handle h (h_ullFileOffset_update (\<lambda>_. st_size s))))) (okE (st_size s))) x
     else okE 0 x)"

text \<open>With space reserved, a write goes to its start and not past the end of the file.\<close>

definition write_data :: "'d env \<Rightarrow> nat \<Rightarrow> u64 \<Rightarrow> u64 \<Rightarrow> u32 \<Rightarrow> bytes \<Rightarrow> ('d, u32) pop" where
  "write_data E i ullWriteOff ullFileSize ulLength pBuffer = (\<lambda>x.
     let oi = gaOpenInos x i in
     if reserved E i x then
       (if ullWriteOff \<noteq> oi_ullResOff oi then errE RED_EINVAL x
        else coreP (RedCoreFileWriteReserved E (oi_ulInode oi) ullWriteOff
          (if ullWriteOff + ucast ulLength > ullFileSize then ucast (ullFileSize - ullWriteOff) else ulLength) pBuffer) x)
     else coreP (RedCoreFileWrite E (oi_ulInode oi) ullWriteOff ulLength pBuffer) x)"

text \<open>The reservation shrinks by what was written and ends with the end of the file.\<close>

definition write_reserved :: "'d env \<Rightarrow> nat \<Rightarrow> u64 \<Rightarrow> u32 \<Rightarrow> ('d, unit) pop" where
  "write_reserved E i ullFileSize ulLenWrote = (\<lambda>x.
     whenE (reserved E i x)
       (thenE (modE (upd_oi i (oi_ullResOff_update (\<lambda>p. p + ucast ulLenWrote))))
         (\<lambda>x. whenE (oi_ullResOff (gaOpenInos x i) = ullFileSize)
            (thenE (modE (clear_reserved i)) (coreP (RedCoreFileUnreserve E (oi_ulInode (gaOpenInos x i)) ullFileSize))) x)) x)"

definition WriteSub :: "'d env \<Rightarrow> int \<Rightarrow> bytes \<Rightarrow> u32 \<Rightarrow> bool \<Rightarrow> u64 \<Rightarrow> ('d, u32) pop" where
  "WriteSub E iFildes pBuffer ulLength fIsPwrite ullOffset = in_posix E
     (if ulLength > 0x7FFFFFFF then errE RED_EINVAL
      else bindE (isdir_is_bad (fildes_with E iFildes (FTYPE_NOTDIR E) HFLAG_WRITEABLE)) (\<lambda>h.
        bindE (enter_open_ino E h) (\<lambda>i.
        bindE (write_size E h i fIsPwrite) (\<lambda>ullFileSize.
        bindE (getE (\<lambda>x. if fIsPwrite then ullOffset else handle_offset h x)) (\<lambda>ullWriteOff.
        bindE (write_data E i ullWriteOff ullFileSize ulLength pBuffer) (\<lambda>ulLenWrote.
        thenE (whenE (\<not> fIsPwrite) (advance h ulLenWrote))
          (thenE (write_reserved E i ullFileSize ulLenWrote) (okE ulLenWrote))))))))"

definition red_write :: "'d env \<Rightarrow> int \<Rightarrow> bytes \<Rightarrow> u32 \<Rightarrow> ('d, u32) pop" where
  "red_write E iFildes pBuffer ulLength = WriteSub E iFildes pBuffer ulLength False 0"

definition red_pwrite :: "'d env \<Rightarrow> int \<Rightarrow> bytes \<Rightarrow> u32 \<Rightarrow> u64 \<Rightarrow> ('d, u32) pop" where
  "red_pwrite E iFildes pBuffer ulLength ullOffset = WriteSub E iFildes pBuffer ulLength True ullOffset"

definition red_fsync :: "'d env \<Rightarrow> int \<Rightarrow> ('d, unit) pop" where
  "red_fsync E iFildes = in_posix E
     (on_fildes E iFildes (FTYPE_ANY E) (\<lambda>_ _.
        bindE (coreP RedCoreTransMaskGet) (\<lambda>ulTransMask.
        whenE (ulTransMask AND RED_TRANSACT_FSYNC \<noteq> 0) (coreP (RedCoreVolTransact E)))))"

section \<open>The offset, the size and reservations\<close>

datatype REDWHENCE = RED_SEEK_SET | RED_SEEK_CUR | RED_SEEK_END | RED_SEEK_OTHER

definition seek_from :: "'d env \<Rightarrow> nat \<Rightarrow> nat \<Rightarrow> REDWHENCE \<Rightarrow> ('d, int) pop" where
  "seek_from E h i whence =
     (case whence of
        RED_SEEK_SET \<Rightarrow> okE 0
      | RED_SEEK_CUR \<Rightarrow> getE (\<lambda>x. sint (handle_offset h x))
      | RED_SEEK_END \<Rightarrow> bindE (oi_at i) (\<lambda>oi. bindE (coreP (RedCoreStat E (oi_ulInode oi))) (\<lambda>s. okE (sint (st_size s))))
      | RED_SEEK_OTHER \<Rightarrow> errE RED_EINVAL)"

definition INT64_MAX :: u64 where "INT64_MAX = 0x7FFFFFFFFFFFFFFF"

text \<open>The new offset is below zero or past the largest one only where the code says so.\<close>

definition seek_invalid :: "int \<Rightarrow> int \<Rightarrow> u64 \<Rightarrow> bool" where
  "seek_invalid llFrom llOffset ullMaxInodeSize \<longleftrightarrow>
     llOffset > 0 \<and> (word_of_int llFrom + word_of_int llOffset :: u64) > INT64_MAX \<or>
     llFrom + llOffset < 0 \<or> (word_of_int (llFrom + llOffset) :: u64) > ullMaxInodeSize"

definition red_lseek :: "'d env \<Rightarrow> int \<Rightarrow> int \<Rightarrow> REDWHENCE \<Rightarrow> ('d, int) pop" where
  "red_lseek E iFildes llOffset whence = in_posix E
     (on_fildes E iFildes (FTYPE_NOTDIR E) (\<lambda>h i.
        bindE (seek_from E h i whence) (\<lambda>llFrom x.
        if seek_invalid llFrom llOffset (vol_ullMaxInodeSize (gpRedVolume (posix_fs x))) then errE RED_EINVAL x
        else thenE (modE (upd_handle h (h_ullFileOffset_update (\<lambda>_. word_of_int (llFrom + llOffset)))))
          (okE (llFrom + llOffset)) x)))"

definition red_ftruncate :: "'d env \<Rightarrow> int \<Rightarrow> u64 \<Rightarrow> ('d, unit) pop" where
  "red_ftruncate E iFildes ullSize = in_posix E
     (bindE (isdir_is_bad (fildes_with E iFildes (FTYPE_NOTDIR E) HFLAG_WRITEABLE)) (\<lambda>h.
      bindE (enter_open_ino E h) (\<lambda>i.
      bindE (oi_at i) (\<lambda>oi.
      thenE (\<lambda>x. whenE (reserved E i x)
          (thenE (coreP (RedCoreFileUnreserve E (oi_ulInode oi) (oi_ullResOff oi))) (modE (clear_reserved i))) x)
        (coreP (RedCoreFileTruncate E (oi_ulInode oi) ullSize))))))"

definition reserve_from_end :: "'d env \<Rightarrow> nat \<Rightarrow> u64 \<Rightarrow> ('d, unit) pop" where
  "reserve_from_end E i ullSize =
     bindE (oi_at i) (\<lambda>oi.
     bindE (coreP (RedCoreStat E (oi_ulInode oi))) (\<lambda>sta.
     if ullSize > st_size sta then
       thenE (coreP (RedCoreFileReserve E (oi_ulInode oi) (st_size sta) (ullSize - st_size sta)))
         (modE (upd_oi i (\<lambda>oi. oi\<lparr>oi_bFlags := oi_bFlags oi OR OIFLAG_RESERVED, oi_ullResOff := st_size sta\<rparr>)))
     else errE RED_EINVAL))"

definition red_freserve :: "'d env \<Rightarrow> int \<Rightarrow> u64 \<Rightarrow> ('d, unit) pop" where
  "red_freserve E iFildes ullSize = in_posix E
     (bindE (isdir_is_bad (FildesToHandle E iFildes FTYPE_FILE)) (\<lambda>h.
      thenE (need_access HFLAG_WRITEABLE h)
        (bindE (open_ino h) (\<lambda>i x.
         if oi_has OIFLAG_RESERVED i x then errE RED_EINVAL x
         else thenE (set_volume E (oi_bVolNum (gaOpenInos x i))) (reserve_from_end E i ullSize) x))))"

section \<open>Directory streams\<close>

definition DirStreamIsValid :: "'d env \<Rightarrow> nat \<Rightarrow> 'd posix \<Rightarrow> bool" where
  "DirStreamIsValid E pDirStream x \<longleftrightarrow> pDirStream < HANDLES E \<and>
     (case h_pOpenIno (gaHandle x pDirStream) of
        None \<Rightarrow> False
      | Some i \<Rightarrow> oi_bVolNum (gaOpenInos x i) < REDCONF_VOLUME_COUNT E) \<and>
     handle_has HFLAG_DIRECTORY pDirStream x"

definition red_opendir :: "'d env \<Rightarrow> cstr option \<Rightarrow> ('d, nat) pop" where
  "red_opendir E pszPath = in_posix E
     (bindE (FildesOpen E (RED_AT_FDNONE E) pszPath RED_O_RDONLY FTYPE_DIR 0) (\<lambda>iFildes.
      okE (unat (fst (FildesUnpack iFildes)))))"

definition red_fdopendir :: "'d env \<Rightarrow> int \<Rightarrow> ('d, nat) pop" where
  "red_fdopendir E iFildes = in_posix E (FildesToHandle E iFildes FTYPE_DIR)"

definition upd_dirent :: "nat \<Rightarrow> (REDDIRENT \<Rightarrow> REDDIRENT) \<Rightarrow> 'd posix \<Rightarrow> 'd posix" where
  "upd_dirent h f = upd_handle h (h_dirent_update f)"

text \<open>The end of the directory is a null pointer without an error.\<close>

definition read_entry :: "'d env \<Rightarrow> nat \<Rightarrow> ('d, REDDIRENT option) pop" where
  "read_entry E h =
     bindE (open_ino h) (\<lambda>i.
     bindE (getE (\<lambda>x. (oi_ulInode (gaOpenInos x i), h_ulDirPosition (gaHandle x h), d_name (h_dirent (gaHandle x h))))) (\<lambda>(ulInode, ulPos, name).
     statusE (bindE (coreP (RedCoreDirRead E ulInode ulPos name)) (\<lambda>(ret, ulPos, name).
        thenE (modE (upd_handle h (set_ulDirPosition ulPos)))
          (thenE (modE (upd_dirent h (d_name_update (\<lambda>_. name)))) (returnE ret)))) (\<lambda>ret.
       case ret of
         Inl e \<Rightarrow> if e = RED_ENOENT then okE None else errE e
       | Inr ulEntInode \<Rightarrow>
           thenE (modE (upd_dirent h (d_ino_update (\<lambda>_. ulEntInode))))
             (bindE (coreP (RedCoreStat E ulEntInode)) (\<lambda>sb.
              thenE (modE (upd_dirent h (d_stat_update (\<lambda>_. sb)))) (getE (\<lambda>x. Some (h_dirent (gaHandle x h)))))))))"

definition red_readdir :: "'d env \<Rightarrow> nat \<Rightarrow> ('d, REDDIRENT option) pop" where
  "red_readdir E pDirStream = in_posix E (\<lambda>x.
     if \<not> DirStreamIsValid E pDirStream x then errE RED_EBADF x
     else thenE (enter_open_ino E pDirStream) (read_entry E pDirStream) x)"

text \<open>Seeking and telling do not fail; they do nothing on a stream that is not valid.\<close>

definition red_seekdir :: "'d env \<Rightarrow> nat \<Rightarrow> u32 \<Rightarrow> ('d, unit) pop" where
  "red_seekdir E pDirStream ulPosition = statusE (PosixEnter E) (\<lambda>ret x.
     whenE (is_ok ret \<and> DirStreamIsValid E pDirStream x) (modE (upd_handle pDirStream (set_ulDirPosition ulPosition))) x)"

definition red_rewinddir :: "'d env \<Rightarrow> nat \<Rightarrow> ('d, unit) pop" where
  "red_rewinddir E pDirStream = red_seekdir E pDirStream 0"

definition red_telldir :: "'d env \<Rightarrow> nat \<Rightarrow> ('d, u32) pop" where
  "red_telldir E pDirStream = statusE (PosixEnter E) (\<lambda>ret.
     getE (\<lambda>x. if is_ok ret \<and> DirStreamIsValid E pDirStream x then h_ulDirPosition (gaHandle x pDirStream) else 0))"

definition red_closedir :: "'d env \<Rightarrow> nat \<Rightarrow> ('d, unit) pop" where
  "red_closedir E pDirStream = in_posix E (\<lambda>x.
     if DirStreamIsValid E pDirStream x then HandleClose E pDirStream 0 x else errE RED_EBADF x)"

section \<open>Working directories\<close>

definition self_cwd :: "'d env \<Rightarrow> ('d, nat \<times> nat) pop" where
  "self_cwd E = (\<lambda>x. case TaskFindSelf E x of
       None \<Rightarrow> errE RED_EFUBAR x
     | Some t \<Rightarrow> (case ts_pCwd (gaTask x t) of None \<Rightarrow> errE RED_EFUBAR x | Some i \<Rightarrow> okE (t, i) x))"

definition chdir_to :: "'d env \<Rightarrow> u8 \<Rightarrow> u32 \<Rightarrow> ('d, unit) pop" where
  "chdir_to E bVolNum ulInode =
     bindE (self_cwd E) (\<lambda>(t, i).
     thenE (OpenInoDeref E i True False)
       (\<lambda>x. case OpenInoRef E bVolNum ulInode x of
          (p, y) \<Rightarrow> thenE (modE (upd_task t (ts_pCwd_update (\<lambda>_. p))))
                     (if p = None then errE RED_EFUBAR else okE ()) y))"

definition red_chdir :: "'d env \<Rightarrow> cstr option \<Rightarrow> ('d, unit) pop" where
  "red_chdir E pszPath = in_posix E
     (bindE (PathStartingPoint E RED_AT_FDCWD pszPath) (\<lambda>(bVolNum, ulCwdInode, pszLocalPath).
      bindE (coreP (RedPathLookup E ulCwdInode (Some pszLocalPath) 0)) (\<lambda>ulInode.
      thenE (if ulInode = INODE_ROOTDIR then okE ()
             else bindE (coreP (RedCoreStat E ulInode)) (\<lambda>sb.
               if RED_S_ISDIR (REDCONF_API_POSIX_SYMLINK E) (st_mode sb) then okE () else errE RED_ENOTDIR))
        (chdir_to E bVolNum ulInode))))"

section \<open>The path of a directory\<close>

text \<open>The search for the name of a directory in its parent.\<close>

definition missing_is_fatal :: "('d, 'a) pop \<Rightarrow> ('d, 'a) pop" where
  "missing_is_fatal f = statusE f (\<lambda>ret. returnE (case ret of Inl e \<Rightarrow> Inl (if e = RED_ENOENT then RED_EFUBAR else e) | Inr v \<Rightarrow> Inr v))"

definition name_turn :: "'d env \<Rightarrow> u32 \<Rightarrow> u32 \<Rightarrow> ('d, u32 \<times> u32) pop" where
  "name_turn E ulPInode ulDirPos = missing_is_fatal
     (bindE (getE szDirInodeToPathName) (\<lambda>name.
      bindE (coreP (RedCoreDirRead E ulPInode ulDirPos name)) (\<lambda>(ret, ulDirPos, name).
      thenE (modE (\<lambda>x. x\<lparr>szDirInodeToPathName := name\<rparr>))
        (bindE (returnE ret) (\<lambda>ulThisInode. okE (ulThisInode, ulDirPos))))))"

partial_function (option) name_search :: "'d env \<Rightarrow> u32 \<Rightarrow> u32 \<Rightarrow> u32 \<Rightarrow> ('d, unit) pop" where
  "name_search E ulPInode ulInode ulDirPos x =
     bindE (name_turn E ulPInode ulDirPos) (\<lambda>p x.
       if fst p = ulInode then okE () x else name_search E ulPInode ulInode (snd p) x) x"

text \<open>A component is put in front of the path that was built so far.\<close>

definition prepend_name :: "'d env \<Rightarrow> bool \<Rightarrow> cstr \<Rightarrow> u32 \<Rightarrow> u32 \<Rightarrow> bytes \<Rightarrow> bytes" where
  "prepend_name E fPathSeparator name ulNameLen ulPathLen b =
     (let ulNewLen = (if fPathSeparator then ulNameLen + 1 else ulNameLen);
          b = overwrite (unat ulNewLen) (take (unat ulPathLen) b) b;
          b = overwrite 0 (str_bytes name ulNameLen) b
      in if fPathSeparator then b[unat ulNameLen := REDCONF_PATH_SEPARATOR E] else b)"

definition path_turn :: "'d env \<Rightarrow> u32 \<Rightarrow> u32 \<Rightarrow> u32 \<Rightarrow> u32 \<Rightarrow> bytes \<Rightarrow> ('d, u32 \<times> u32 \<times> bytes) pop" where
  "path_turn E ulDirInode ulBufferSize ulInode ulPathLen b =
     bindE (coreP (RedCoreDirParent E ulInode)) (\<lambda>ulPInode.
     thenE (name_search E ulPInode ulInode 0)
       (bindE (getE szDirInodeToPathName) (\<lambda>name.
        bindE (loop_result (RedNameLen (REDCONF_PATH_SEPARATOR E) (Some name))) (\<lambda>ulNameLen.
        let fPathSeparator = (ulInode \<noteq> ulDirInode);
            ulNewLen = (if fPathSeparator then ulNameLen + 1 else ulNameLen)
        in if ulPathLen + ulNewLen > ulBufferSize then errE RED_ERANGE
           else okE (ulPInode, ulPathLen + ulNewLen, prepend_name E fPathSeparator name ulNameLen ulPathLen b)))))"

partial_function (option) path_up :: "'d env \<Rightarrow> u32 \<Rightarrow> u32 \<Rightarrow> u32 \<Rightarrow> u32 \<Rightarrow> bytes \<Rightarrow> ('d, u32 \<times> bytes) pop" where
  "path_up E ulDirInode ulBufferSize ulInode ulPathLen b x =
     (if ulInode = INODE_ROOTDIR then okE (ulPathLen, b) x
      else bindE (path_turn E ulDirInode ulBufferSize ulInode ulPathLen b) (\<lambda>v x.
        path_up E ulDirInode ulBufferSize (fst v) (fst (snd v)) (snd (snd v)) x) x)"

definition RED_GETDIRPATH_NOVOLUME :: u32 where "RED_GETDIRPATH_NOVOLUME = 1"

definition prepend_volume :: "'d env \<Rightarrow> u32 \<Rightarrow> u32 \<Rightarrow> u32 \<Rightarrow> bytes \<Rightarrow> ('d, bytes) pop" where
  "prepend_volume E ulBufferSize ulFlags ulPathLen b =
     bindE (getE (\<lambda>x. current_prefix E (posix_fs x))) (\<lambda>prefix.
     bindE (if ulFlags AND RED_GETDIRPATH_NOVOLUME \<noteq> 0 then okE 0 else loop_result (RedStrLen (Some prefix))) (\<lambda>ulVolPrefixLen.
     if ulPathLen + ulVolPrefixLen + 1 > ulBufferSize then errE RED_ERANGE
     else
       let b = overwrite (unat (ulVolPrefixLen + 1)) (take (unat ulPathLen) b) b;
           b = overwrite 0 (str_bytes prefix ulVolPrefixLen) b
       in okE (b[unat ulVolPrefixLen := REDCONF_PATH_SEPARATOR E])))"

definition DirInodeToPath :: "'d env \<Rightarrow> u32 \<Rightarrow> bytes \<Rightarrow> u32 \<Rightarrow> u32 \<Rightarrow> ('d, bytes) pop" where
  "DirInodeToPath E ulDirInode pszBuffer ulBufferSize ulFlags =
     (if ulBufferSize = 0 \<or> ulFlags AND NOT RED_GETDIRPATH_NOVOLUME \<noteq> 0 then errE RED_EINVAL
      else bindE (path_up E ulDirInode ulBufferSize ulDirInode 1 (pszBuffer[0 := 0])) (\<lambda>(ulPathLen, b).
        prepend_volume E ulBufferSize ulFlags ulPathLen b))"

definition red_getcwd :: "'d env \<Rightarrow> bytes \<Rightarrow> u32 \<Rightarrow> ('d, bytes) pop" where
  "red_getcwd E pszBuffer ulBufferSize = PosixReturn E
     (if ulBufferSize = 0 then errE RED_EINVAL
      else thenE (PosixEnter E)
        (bindE (self_cwd E) (\<lambda>(t, i).
         bindE (oi_at i) (\<lambda>oi.
         thenE (set_volume E (oi_bVolNum oi)) (DirInodeToPath E (oi_ulInode oi) pszBuffer ulBufferSize 0)))))"

definition red_getdirpath :: "'d env \<Rightarrow> int \<Rightarrow> bytes \<Rightarrow> u32 \<Rightarrow> u32 \<Rightarrow> ('d, bytes) pop" where
  "red_getdirpath E iFildes pszBuffer ulBufferSize ulFlags = PosixReturn E
     (if ulBufferSize = 0 \<or> ulFlags AND NOT RED_GETDIRPATH_NOVOLUME \<noteq> 0 then errE RED_EINVAL
      else thenE (PosixEnter E)
        (on_fildes E iFildes FTYPE_DIR (\<lambda>_ i.
           bindE (oi_at i) (\<lambda>oi. DirInodeToPath E (oi_ulInode oi) pszBuffer ulBufferSize ulFlags))))"

end
