(* ===== verification/Red_PosixDemo.thy ===== *)
theory Red_PosixDemo
  imports Red_PosixFile Red_Demo
begin

text \<open>A concrete state of the POSIX-like interface, before its first call and after it.\<close>

declare split_paired_Ex [simp del]

text \<open>The configuration of \<^const>\<open>demo_env\<close> with working directories: eleven slots, the last one of the only task.\<close>

definition demo_posix_env :: "ramdisk env" where
  "demo_posix_env = demo_env\<lparr>REDCONF_API_POSIX_CWD := True\<rparr>"

definition demo_posix :: "ramdisk posix" where
  "demo_posix = \<lparr>gfPosixInited = False, gaOpenInos = (\<lambda>_. openinode_zero), gaHandle = (\<lambda>_. redhandle_zero),
     gaTask = (\<lambda>_. taskslot_zero), gauGeneration = (\<lambda>_. 0), iGlobalErrno = 0, szDirInodeToPathName = (\<lambda>_. 0),
     posix_ist = (\<lambda>_. cinode_zero 0, demo_fs demo_disk)\<rparr>"

lemma demo_posix_slots: "HANDLES demo_posix_env = 10" "TASKS demo_posix_env = 1" "OPEN_INODE_COUNT demo_posix_env = 11"
  "REDCONF_API_POSIX_CWD demo_posix_env"
  by (simp_all add: demo_posix_env_def demo_env_def HANDLES_def TASKS_def OPEN_INODE_COUNT_def)

lemma demo_core_init: "\<exists>st. RedCoreInit demo_posix_env s = Some (Inr (), st)"
  by (simp add: demo_posix_env_def demo_env_def RedCoreInit_def thenE_def bindE_def serviceE_def comp_defs)

lemma demo_init: "\<exists>st. red_init demo_posix_env demo_posix = Some (Inr (), demo_posix\<lparr>gfPosixInited := True, posix_ist := st,
     gaOpenInos := (gaOpenInos demo_posix)(0 := openinode_zero\<lparr>oi_ulInode := INODE_ROOTDIR, oi_uRefs := 1\<rparr>),
     gaTask := (gaTask demo_posix)(0 := taskslot_zero\<lparr>ts_pCwd := Some 0\<rparr>)\<rparr>)"
proof -
  obtain st where st: "RedCoreInit demo_posix_env (posix_fs demo_posix) = Some (Inr (), st)"
    using demo_core_init by blast
  then have core: "coreP (liftF (RedCoreInit demo_posix_env)) demo_posix =
      Some (Inr (), demo_posix\<lparr>posix_ist := (fst (posix_ist demo_posix), st)\<rparr>)"
    by (cases "posix_ist demo_posix") (simp add: coreP_def liftF_def)
  let ?x = "demo_posix\<lparr>posix_ist := (fst (posix_ist demo_posix), st)\<rparr>"
  let ?f = "thenE (modE (\<lambda>x. x\<lparr>gaHandle := (\<lambda>_. redhandle_zero), gaOpenInos := (\<lambda>_. openinode_zero), gaTask := (\<lambda>_. taskslot_zero)\<rparr>))
      (thenE (CwdResetAll demo_posix_env) (modE (gfPosixInited_update (\<lambda>_. True))))"
  have "red_init demo_posix_env demo_posix = PosixReturn demo_posix_env (\<lambda>_. ?f ?x) demo_posix"
    by (simp add: red_init_def PosixReturn_def thenE_def bindE_def core demo_posix_slots) (simp add: demo_posix_def)
  then show ?thesis
    by (intro exI [of _ "(fst (posix_ist demo_posix), st)"])
      (simp add: PosixReturn_def CwdResetAll_def demo_posix_slots CwdClose_def OpenInoRef_def
        OpenInoFind_def demo_posix_def openinode_zero_def taskslot_zero_def upd_oi_def upd_task_def comp_defs INODE_INVALID_def
        INODE_ROOTDIR_def INODE_FIRST_VALID_def upt_conv_Cons)
qed

end
