(* ===== verification/Red_HandleProps.thy ===== *)
theory Red_HandleProps
  imports Red_PosixDemo
begin

text \<open>
  What the tables of the POSIX-like interface promise: a descriptor names the handle, the volume
  and the mount it was made for, and the reference counts of the open inodes are those of the handles and the
  working directories that point to them, in every state that the interface can reach.
\<close>

section \<open>File descriptors\<close>

lemma fd_limits: "FD_IDX_MAX = 0xFFF" "FD_VOL_MAX = 0xFF" "FD_GEN_MAX = 0x7FF"
  by (simp_all add: FD_IDX_MAX_def FD_VOL_MAX_def FD_GEN_MAX_def FD_IDX_BITS_def FD_VOL_BITS_def FD_GEN_BITS_def)

lemma fd_masks: "FD_IDX_MAX = mask 12" "FD_VOL_MAX = mask 8" "FD_GEN_MAX = mask 11"
  by (simp_all add: fd_limits mask_eq_exp_minus_1)

definition fd_bits :: "u16 \<Rightarrow> u8 \<Rightarrow> u16 \<Rightarrow> u32" where
  "fd_bits i v g = push_bit 20 (ucast g) OR push_bit 12 (ucast v) OR ucast i"

lemma high_bit:
  assumes "unat (w :: 'a::len word) < 2 ^ k" and "bit w n"
  shows "n < k"
proof (rule ccontr)
  assume "\<not> n < k"
  have "take_bit k (unat w) = unat w" using assms(1) by (rule take_bit_nat_eq_self)
  then have "\<not> bit (unat w) n" using \<open>\<not> n < k\<close> by (metis bit_take_bit_iff)
  then show False using assms(2) by (simp add: bit_unsigned_iff)
qed

lemma fd_fields:
  assumes "i < 4096" and "g < 2048"
  shows "ucast (fd_bits i v g AND mask 12) = i"
    and "ucast (drop_bit 12 (fd_bits i v g) AND mask 8) = v"
    and "ucast (drop_bit 8 (drop_bit 12 (fd_bits i v g)) AND mask 11) = g"
proof -
  have i: "\<And>n. bit i n \<Longrightarrow> n < 12"
    by (rule high_bit [of i 12]) (use assms(1) in \<open>simp_all add: word_less_nat_alt\<close>)
  have g: "\<And>n. bit g n \<Longrightarrow> n < 11" 
    by (rule high_bit [of g 11]) (use assms(2) in \<open>simp_all add: word_less_nat_alt\<close>)
  have v: "\<And>n. bit v n \<Longrightarrow> n < 8" by (drule bit_imp_le_length) simp
  show "ucast (fd_bits i v g AND mask 12) = i"
    by (rule bit_word_eqI) (auto simp: fd_bits_def bit_simps dest: i)
  show "ucast (drop_bit 12 (fd_bits i v g) AND mask 8) = v"
    by (rule bit_word_eqI) (auto simp: fd_bits_def bit_simps dest: i)
  show "ucast (drop_bit 8 (drop_bit 12 (fd_bits i v g)) AND mask 11) = g"
    by (rule bit_word_eqI) (auto simp: fd_bits_def bit_simps dest: i g v)
qed

lemma unat_ucast_u16 [simp]: "unat (ucast (g :: u16) :: u32) = unat g"
proof -
  have "unat g < 2 ^ LENGTH(16)" by (rule unsigned_less)
  then show ?thesis by (simp add: unsigned_ucast_eq take_bit_nat_eq_self)
qed

lemma fd_pack_bits:
  "push_bit FD_IDX_BITS (push_bit FD_VOL_BITS (ucast g) OR ucast v) OR ucast i = fd_bits i v g"
  by (simp add: fd_bits_def FD_IDX_BITS_def FD_VOL_BITS_def push_bit_or or.assoc)

lemma fd_range:
  assumes "i < 4096" and "g < 2048" and "g \<noteq> 0"
  shows "FD_MIN \<le> sint (fd_bits i v g)"
proof -
  have i: "\<And>n. bit i n \<Longrightarrow> n < 12"
    by (rule high_bit [of i 12]) (use assms(1) in \<open>simp_all add: word_less_nat_alt\<close>)
  have g: "\<And>n. bit g n \<Longrightarrow> n < 11"
    by (rule high_bit [of g 11]) (use assms(2) in \<open>simp_all add: word_less_nat_alt\<close>)
  have v: "\<And>n. bit v n \<Longrightarrow> n < 8" by (drule bit_imp_le_length) simp
  have b: "\<not> bit (fd_bits i v g) 31" by (auto simp: fd_bits_def bit_simps dest: i g v)
  have "take_bit 31 (fd_bits i v g) = fd_bits i v g"
  proof (rule bit_word_eqI)
    fix n
    assume "n < LENGTH(32)"
    then show "bit (take_bit 31 (fd_bits i v g)) n = bit (fd_bits i v g) n"
      using b by (cases "n = 31") (auto simp: bit_take_bit_iff)
  qed
  then have "take_bit 31 (uint (fd_bits i v g)) = uint (fd_bits i v g)"
    by (metis unsigned_take_bit_eq)
  then have s: "sint (fd_bits i v g) = uint (fd_bits i v g)"
    using b by (simp add: sint_uint signed_take_bit_eq_if_positive bit_unsigned_iff)
  have d: "drop_bit 20 (fd_bits i v g) = ucast g"
    by (rule bit_word_eqI) (auto simp: fd_bits_def bit_simps dest: i v g)
  have "uint (drop_bit 20 (fd_bits i v g)) \<noteq> 0" 
    using assms(3) by (metis d uint_0_iff unat_ucast_u16 unat_0 unsigned_0 unsigned_word_eqI)
  then have "drop_bit 20 (uint (fd_bits i v g)) \<noteq> 0" by (simp add: unsigned_drop_bit_eq take_bit_int_eq_self uint_lt2p [where ?'a = 32, simplified])
  then have "2 ^ 20 \<le> uint (fd_bits i v g)"
    by (metis drop_bit_eq_div div_pos_pos_trivial not_le uint_ge_0)
  then show ?thesis by (simp add: s FD_MIN_def)
qed

text \<open>
  A configuration has at most 4096 handles, and the generation of a mounted volume is between 1 and
  the largest one.
\<close>

definition generation_ok :: "u16 \<Rightarrow> bool" where
  "generation_ok g \<longleftrightarrow> g \<noteq> 0 \<and> ucast g \<le> FD_GEN_MAX"

lemma generation_ok_unat: "generation_ok g \<longleftrightarrow> 0 < unat g \<and> unat g \<le> 2047"
  by (auto simp: generation_ok_def fd_limits word_le_nat_alt word_unat_eq_iff)

lemma generation_ok_less: "generation_ok g \<Longrightarrow> g < 2048"
  by (simp add: generation_ok_unat word_less_nat_alt)

lemma generation_ok_next: "g < 2048 \<Longrightarrow> generation_ok (next_generation g)"
proof -
  assume "g < 2048"
  then have "unat (g + 1) = Suc (unat g)" by (rule unat_Suc_u32)
  then show ?thesis
    by (auto simp: next_generation_def generation_ok_unat fd_limits word_less_nat_alt not_less)
qed


section \<open>Counting references\<close>

text \<open>
  A table of \<open>N\<close> counters to which \<open>S\<close> slots may point: every counter is the number of the slots
  that point to it.
\<close>

definition counted :: "nat \<Rightarrow> nat \<Rightarrow> (nat \<Rightarrow> nat option) \<Rightarrow> (nat \<Rightarrow> nat) \<Rightarrow> bool" where
  "counted S N p r \<longleftrightarrow> (\<forall>a < S. \<forall>i. p a = Some i \<longrightarrow> i < N) \<and> (\<forall>i < N. r i = card {a. a < S \<and> p a = Some i})"

lemma counted_index: "counted S N p r \<Longrightarrow> a < S \<Longrightarrow> p a = Some i \<Longrightarrow> i < N"
  by (simp add: counted_def)

lemma holders_update:
  "a < S \<Longrightarrow> {b. b < S \<and> (p(a := q)) b = Some i} =
     (if q = Some i then insert a {b. b < S \<and> p b = Some i} else {b. b < S \<and> p b = Some i} - {a})"
  by auto

lemma counted_take:
  assumes "counted S N p r" "a < S" "p a = None" "i < N"
  shows "counted S N (p(a := Some i)) (r(i := Suc (r i)))"
proof -
  have "a \<notin> {b. b < S \<and> p b = Some j}" for j using assms(3) by simp
  then have "\<forall>j < N. (r(i := Suc (r i))) j = card {b. b < S \<and> (p(a := Some i)) b = Some j}"
    using assms(1) unfolding holders_update [OF assms(2)] by (simp add: counted_def)
  moreover have "\<forall>b < S. \<forall>j. (p(a := Some i)) b = Some j \<longrightarrow> j < N"
    using assms(1,4) by (simp add: counted_def)
  ultimately show ?thesis unfolding counted_def by blast
qed

lemma counted_drop:
  assumes "counted S N p r" "a < S" "p a = Some i"
  shows "counted S N (p(a := None)) (r(i := r i - 1))" and "0 < r i"
proof -
  have i: "i < N" using assms by (auto simp: counted_def)
  have m: "a \<in> {b. b < S \<and> p b = Some i}" using assms(2,3) by simp
  have "a \<notin> {b. b < S \<and> p b = Some j}" if "j \<noteq> i" for j using that assms(3) by simp
  then have "card ({b. b < S \<and> p b = Some j} - {a}) = (r(i := r i - 1)) j" if "j < N" for j
    using assms(1) m that by (cases "j = i") (simp_all add: counted_def)
  then have "\<forall>j < N. (r(i := r i - 1)) j = card {b. b < S \<and> (p(a := None)) b = Some j}"
    unfolding holders_update [OF assms(2)] by simp
  moreover have "\<forall>b < S. \<forall>j. (p(a := None)) b = Some j \<longrightarrow> j < N"
    using assms(1) by (simp add: counted_def)
  ultimately show "counted S N (p(a := None)) (r(i := r i - 1))" unfolding counted_def by blast
  have "0 < card {b. b < S \<and> p b = Some i}" using m by (auto simp: card_gt_0_iff)
  then show "0 < r i" using assms(1) i by (simp add: counted_def)
qed

lemma counted_sum:
  assumes "counted S N p r"
  shows "sum r {..<N} = card {a. a < S \<and> p a \<noteq> None}"
proof -
  have "{a. a < S \<and> p a \<noteq> None} = (\<Union>i<N. {a. a < S \<and> p a = Some i})"
    using assms by (auto simp: counted_def)
  then have "card {a. a < S \<and> p a \<noteq> None} = (\<Sum>i<N. card {a. a < S \<and> p a = Some i})"
    by (simp add: card_UN_disjoint disjoint_iff)
  then show ?thesis using assms by (simp add: counted_def)
qed

text \<open>With a slot free and a counter for every slot, some counter is zero.\<close>

lemma counted_free:
  assumes "counted S N p r" "a < S" "p a = None" "S \<le> N"
  obtains i where "i < N" "r i = 0"
proof (rule ccontr)
  assume "\<not> thesis"
  then have "\<forall>i < N. 1 \<le> r i" using that by (metis One_nat_def Suc_leI gr0I)
  then have "(\<Sum>i<N. 1) \<le> sum r {..<N}" by (intro sum_mono) simp
  then have "N \<le> card {b. b < S \<and> p b \<noteq> None}" by (simp add: counted_sum [OF assms(1)])
  moreover have "{b. b < S \<and> p b \<noteq> None} \<subseteq> {..<S} - {a}" using assms(3) by auto
  then have "card {b. b < S \<and> p b \<noteq> None} \<le> S - 1"
    using card_mono [of "{..<S} - {a}"] assms(2) by fastforce
  ultimately show False using assms(2,4) by linarith
qed

lemma counted_less:
  assumes "counted S N p r" "a < S" "p a = None" "i < N"
  shows "r i < S"
proof -
  have "card {b. b < S \<and> p b = Some i} \<le> card ({..<S} - {a})"
    by (rule card_mono) (use assms(3) in auto)
  then show ?thesis using assms(1,2,4) by (simp add: counted_def)
qed

end
