(* ===== verification/Red_PosixInv.thy ===== *)
theory Red_PosixInv
  imports Red_HandleProps
begin

text \<open>
  The invariant of the tables of the POSIX-like interface: every open inode is counted as often as
  handles and working directories point to it, is free when nothing does, and no file has two of them.
  It holds in every state that calls of the interface can reach, and with it an open
  inode can always be had for a free handle.
\<close>

section \<open>The invariant\<close>

text \<open>The slots that may point to an open inode: the handles, and then the tasks.\<close>

definition slot_ptr :: "'d env \<Rightarrow> 'd posix \<Rightarrow> nat \<Rightarrow> nat option" where
  "slot_ptr E x a = (if a < HANDLES E then h_pOpenIno (gaHandle x a) else ts_pCwd (gaTask x (a - HANDLES E)))"

definition oi_table_ok :: "'d env \<Rightarrow> (nat \<Rightarrow> OPENINODE) \<Rightarrow> (nat \<Rightarrow> nat option) \<Rightarrow> bool" where
  "oi_table_ok E oi p \<longleftrightarrow>
     counted (OPEN_INODE_COUNT E) (OPEN_INODE_COUNT E) p (\<lambda>i. unat (oi_uRefs (oi i))) \<and>
     (\<forall>i < OPEN_INODE_COUNT E. oi_uRefs (oi i) = 0 \<longleftrightarrow> oi_ulInode (oi i) = INODE_INVALID) \<and>
     (\<forall>i < OPEN_INODE_COUNT E. \<forall>j < OPEN_INODE_COUNT E. oi_ulInode (oi i) \<noteq> INODE_INVALID \<longrightarrow>
        oi_ulInode (oi i) = oi_ulInode (oi j) \<longrightarrow> oi_bVolNum (oi i) = oi_bVolNum (oi j) \<longrightarrow> i = j)"

definition posix_inv :: "'d env \<Rightarrow> 'd posix \<Rightarrow> bool" where
  "posix_inv E x \<longleftrightarrow> oi_table_ok E (gaOpenInos x) (slot_ptr E x) \<and>
     (\<not> REDCONF_API_POSIX_CWD E \<longrightarrow> (\<forall>t. ts_pCwd (gaTask x t) = None))"

text \<open>A configuration with at least one task, whose open inodes can be counted in 16 bits.\<close>

definition posix_config :: "'d env \<Rightarrow> bool" where
  "posix_config E \<longleftrightarrow> OPEN_INODE_COUNT E < 2 ^ 16 \<and> REDCONF_TASK_COUNT E \<noteq> 0 \<and> REDCONF_HANDLE_COUNT E \<le> 4096"

lemma table_parts:
  assumes "oi_table_ok E oi p"
  shows "counted (OPEN_INODE_COUNT E) (OPEN_INODE_COUNT E) p (\<lambda>i. unat (oi_uRefs (oi i)))"
    and "i < OPEN_INODE_COUNT E \<Longrightarrow> oi_uRefs (oi i) = 0 \<longleftrightarrow> oi_ulInode (oi i) = INODE_INVALID"
    and "i < OPEN_INODE_COUNT E \<Longrightarrow> j < OPEN_INODE_COUNT E \<Longrightarrow> oi_ulInode (oi i) \<noteq> INODE_INVALID \<Longrightarrow>
      oi_ulInode (oi i) = oi_ulInode (oi j) \<Longrightarrow> oi_bVolNum (oi i) = oi_bVolNum (oi j) \<Longrightarrow> i = j"
  using assms unfolding oi_table_ok_def by blast+

section \<open>Taking and dropping references\<close>

lemma find_upt_Some: "find P [0..<n] = Some i \<Longrightarrow> i < n \<and> P i"
  by (metis atLeastLessThan_iff find_Some_iff nth_mem set_upt)

lemma find_upt_None: "find P [0..<n] = None \<Longrightarrow> i < n \<Longrightarrow> \<not> P i"
  by (simp add: find_None_iff)

lemma table_free_entry:
  assumes "oi_table_ok E oi p" "a < OPEN_INODE_COUNT E" "p a = None"
  obtains i where "i < OPEN_INODE_COUNT E" "oi_ulInode (oi i) = INODE_INVALID"
proof -
  from table_parts(1) [OF assms(1)] assms(2,3) obtain i
    where "i < OPEN_INODE_COUNT E" "unat (oi_uRefs (oi i)) = 0" by (rule counted_free) simp_all
  then show thesis using that table_parts(2) [OF assms(1)] by (simp add: unat_eq_zero)
qed

lemma OpenInoFind_take:
  assumes ok: "oi_table_ok E (gaOpenInos x) p" and a: "a < OPEN_INODE_COUNT E" "p a = None"
    and ino: "ulInode \<noteq> INODE_INVALID"
  obtains i oi where "OpenInoFind E v ulInode True x = (Some i, x\<lparr>gaOpenInos := oi\<rparr>)"
    "i < OPEN_INODE_COUNT E" "oi_ulInode (oi i) = ulInode" "oi_bVolNum (oi i) = v"
    "oi_uRefs (oi i) = oi_uRefs (gaOpenInos x i)" "\<forall>j. j \<noteq> i \<longrightarrow> oi j = gaOpenInos x j"
    "\<forall>j < OPEN_INODE_COUNT E. oi_ulInode (oi j) = ulInode \<longrightarrow> oi_bVolNum (oi j) = v \<longrightarrow> j = i"
proof (cases "find (\<lambda>i. oi_ulInode (gaOpenInos x i) = ulInode \<and> oi_bVolNum (gaOpenInos x i) = v) [0..<OPEN_INODE_COUNT E]")
  case (Some i)
  note i = find_upt_Some [OF Some]
  show thesis
  proof (rule that)
    show "OpenInoFind E v ulInode True x = (Some i, x\<lparr>gaOpenInos := gaOpenInos x\<rparr>)"
      using Some by (simp add: OpenInoFind_def)
    show "\<forall>j < OPEN_INODE_COUNT E. oi_ulInode (gaOpenInos x j) = ulInode \<longrightarrow> oi_bVolNum (gaOpenInos x j) = v \<longrightarrow> j = i"
      using i ino by (auto intro: table_parts(3) [OF ok])
  qed (use i in simp_all)
next
  case None
  from table_free_entry [OF ok a] obtain k where "k < OPEN_INODE_COUNT E" "oi_ulInode (gaOpenInos x k) = INODE_INVALID" .
  then obtain i where f: "find (\<lambda>i. oi_ulInode (gaOpenInos x i) = INODE_INVALID) [0..<OPEN_INODE_COUNT E] = Some i"
    by (metis (mono_tags) find_upt_None option.exhaust)
  note i = find_upt_Some [OF f]
  let ?e = "openinode_zero\<lparr>oi_ulInode := ulInode, oi_bVolNum := v\<rparr>"
  show thesis
  proof (rule that)
    show "OpenInoFind E v ulInode True x = (Some i, x\<lparr>gaOpenInos := (gaOpenInos x)(i := ?e)\<rparr>)"
      using None f by (simp add: OpenInoFind_def upd_oi_def)
    show "oi_uRefs (((gaOpenInos x)(i := ?e)) i) = oi_uRefs (gaOpenInos x i)"
      using table_parts(2) [OF ok, of i] i by (simp add: openinode_zero_def)
    show "\<forall>j < OPEN_INODE_COUNT E. oi_ulInode (((gaOpenInos x)(i := ?e)) j) = ulInode \<longrightarrow>
        oi_bVolNum (((gaOpenInos x)(i := ?e)) j) = v \<longrightarrow> j = i"
      using find_upt_None [OF None] by simp
  qed (use i in simp_all)
qed

lemma OpenInoRef_take:
  assumes ok: "oi_table_ok E (gaOpenInos x) p" and a: "a < OPEN_INODE_COUNT E" "p a = None"
    and ino: "ulInode \<noteq> INODE_INVALID" and c: "posix_config E"
  obtains i oi where "OpenInoRef E v ulInode x = (Some i, x\<lparr>gaOpenInos := oi\<rparr>)"
    "oi_table_ok E oi (p(a := Some i))" "oi_ulInode (oi i) = ulInode" "oi_bVolNum (oi i) = v"
proof -
  from OpenInoFind_take [OF ok a ino, where v = v] obtain i oi where
    find: "OpenInoFind E v ulInode True x = (Some i, x\<lparr>gaOpenInos := oi\<rparr>)" and
    i: "i < OPEN_INODE_COUNT E" "oi_ulInode (oi i) = ulInode" "oi_bVolNum (oi i) = v"
      "oi_uRefs (oi i) = oi_uRefs (gaOpenInos x i)" and
    other: "\<forall>j. j \<noteq> i \<longrightarrow> oi j = gaOpenInos x j" and
    uniq: "\<forall>j < OPEN_INODE_COUNT E. oi_ulInode (oi j) = ulInode \<longrightarrow> oi_bVolNum (oi j) = v \<longrightarrow> j = i" .
  let ?oi = "oi(i := oi_uRefs_update (\<lambda>n. n + 1) (oi i))"
  have "unat (oi_uRefs (gaOpenInos x i)) < OPEN_INODE_COUNT E"
    using counted_less [OF table_parts(1) [OF ok] a i(1)] .
  then have "Suc (unat (oi_uRefs (oi i))) < 2 ^ LENGTH(16)" using c i(4) by (simp add: posix_config_def)
  then have n: "unat (oi_uRefs (oi i) + 1) = Suc (unat (oi_uRefs (oi i)))"
    by (simp add: unat_word_ariths)
  have "(\<lambda>j. unat (oi_uRefs (?oi j))) = (\<lambda>j. unat (oi_uRefs (gaOpenInos x j)))(i := Suc (unat (oi_uRefs (gaOpenInos x i))))"
    using n i(4) other by (auto simp: fun_eq_iff)
  then have "counted (OPEN_INODE_COUNT E) (OPEN_INODE_COUNT E) (p(a := Some i)) (\<lambda>j. unat (oi_uRefs (?oi j)))"
    using counted_take [OF table_parts(1) [OF ok] a i(1)] by simp
  moreover have "oi_uRefs (?oi j) = 0 \<longleftrightarrow> oi_ulInode (?oi j) = INODE_INVALID" if "j < OPEN_INODE_COUNT E" for j
  proof (cases "j = i")
    case True
    moreover have "oi_uRefs (oi i) + 1 \<noteq> 0" using n by force
    ultimately show ?thesis using ino i(2) by simp
  next
    case False
    then show ?thesis using other table_parts(2) [OF ok that] by simp
  qed
  moreover have f: "oi_ulInode (?oi m) = oi_ulInode (oi m)" "oi_bVolNum (?oi m) = oi_bVolNum (oi m)" for m
    by simp_all
  have "j = k" if "j < OPEN_INODE_COUNT E" "k < OPEN_INODE_COUNT E" "oi_ulInode (?oi j) \<noteq> INODE_INVALID"
    "oi_ulInode (?oi j) = oi_ulInode (?oi k)" "oi_bVolNum (?oi j) = oi_bVolNum (?oi k)" for j k
  proof (cases "j = i \<or> k = i")
    case True
    then show ?thesis using that uniq i(2,3) unfolding f by metis
  next
    case False
    then show ?thesis using that other table_parts(3) [OF ok that(1,2)] by simp
  qed
  ultimately have "oi_table_ok E ?oi (p(a := Some i))" unfolding oi_table_ok_def by blast
  moreover have "OpenInoRef E v ulInode x = (Some i, x\<lparr>gaOpenInos := ?oi\<rparr>)"
    using find by (simp add: OpenInoRef_def upd_oi_def)
  ultimately show thesis using that i by simp
qed

section \<open>Outcomes\<close>

text \<open>
  \<open>outcome I v\<close>: an operation with the outcome \<open>v\<close> returns, if at all, in a state with \<open>I\<close>. The rules walk
  through an operation from a state with \<open>I\<close>; the operations of the core interface keep every predicate
  that does not look at the state of the driver below the tables.
\<close>

declare split_paired_Ex [simp del]

definition outcome :: "('s \<Rightarrow> bool) \<Rightarrow> (('e + 'a) \<times> 's) option \<Rightarrow> bool" where
  "outcome I v \<longleftrightarrow> (\<forall>r y. v = Some (r, y) \<longrightarrow> I y)"

definition of_tables :: "('d posix \<Rightarrow> bool) \<Rightarrow> bool" where
  "of_tables I \<longleftrightarrow> (\<forall>x st. I x \<longrightarrow> I (x\<lparr>posix_ist := st\<rparr>))"

named_theorems outcome_rules \<open>a predicate holds in the state at return\<close>

lemma outcomeD: "outcome I v \<Longrightarrow> v = Some (r, y) \<Longrightarrow> I y"
  by (simp add: outcome_def)

lemma outcome_basic [outcome_rules]:
  "I x \<Longrightarrow> outcome I (okE v x)" "I x \<Longrightarrow> outcome I (errE e x)" "I x \<Longrightarrow> outcome I (returnE ret x)"
  "I x \<Longrightarrow> outcome I (getE g x)" "outcome I None" "I (u x) \<Longrightarrow> outcome I (modE u x)"
  by (simp_all add: outcome_def)

lemma outcome_bindE [outcome_rules]:
  "outcome I (f x) \<Longrightarrow> (\<And>v y. I y \<Longrightarrow> outcome I (g v y)) \<Longrightarrow> outcome I (bindE f g x)"
  unfolding outcome_def by (blast elim: bindE_eq_SomeE)

lemma outcome_thenE [outcome_rules]:
  "outcome I (f x) \<Longrightarrow> (\<And>y. I y \<Longrightarrow> outcome I (g y)) \<Longrightarrow> outcome I (thenE f g x)"
  unfolding thenE_def by (rule outcome_bindE)

lemma outcome_statusE [outcome_rules]:
  "outcome I (f x) \<Longrightarrow> (\<And>v y. I y \<Longrightarrow> outcome I (g v y)) \<Longrightarrow> outcome I (statusE f g x)"
  unfolding outcome_def statusE_Some_iff by blast

lemma outcome_whenE [outcome_rules]: "I x \<Longrightarrow> (b \<Longrightarrow> outcome I (f x)) \<Longrightarrow> outcome I (whenE b f x)"
  by (simp add: whenE_def outcome_def)

lemma outcome_if [outcome_rules]:
  "(b \<Longrightarrow> outcome I v) \<Longrightarrow> (\<not> b \<Longrightarrow> outcome I w) \<Longrightarrow> outcome I (if b then v else w)"
  "(b \<Longrightarrow> outcome I (f x)) \<Longrightarrow> (\<not> b \<Longrightarrow> outcome I (g x)) \<Longrightarrow> outcome I ((if b then f else g) x)"
  by simp_all

lemma outcome_coreP:
  "of_tables I \<Longrightarrow> I x \<Longrightarrow> outcome I (coreP f x)"
  by (auto simp: outcome_def of_tables_def coreP_def split: option.splits)

lemma outcome_loop_result [outcome_rules]: "I x \<Longrightarrow> outcome I (loop_result v x)"
  by (simp add: loop_result_def outcome_def split: option.split)

text \<open>The operations that only call the core interface.\<close>

lemma outcome_set_volume: "of_tables I \<Longrightarrow> I x \<Longrightarrow> outcome I (set_volume E v x)"
  unfolding set_volume_def by (intro outcome_rules outcome_coreP)

lemma outcome_cleanup: "of_tables I \<Longrightarrow> I x \<Longrightarrow> outcome I (oi_cleanup E i x)"
  unfolding oi_cleanup_def by (intro outcome_rules outcome_coreP outcome_set_volume)

lemmas core_rules = outcome_coreP outcome_set_volume outcome_cleanup

text \<open>The tables are those of a given state.\<close>

definition tables_of :: "'d posix \<Rightarrow> 'd posix \<Rightarrow> bool" where
  "tables_of x y \<longleftrightarrow> y\<lparr>posix_ist := posix_ist x\<rparr> = x"

lemma tables_of_refl [simp]: "tables_of x x"
  by (simp add: tables_of_def)

lemma of_tables_of [simp]: "of_tables (tables_of x)"
  by (auto simp: of_tables_def tables_of_def)

lemma tables_of_eq:
  assumes "tables_of x y"
  obtains st where "y = x\<lparr>posix_ist := st\<rparr>"
proof -
  have "y = x\<lparr>posix_ist := posix_ist y\<rparr>" using assms by (cases x; cases y) (simp add: tables_of_def)
  then show thesis by (rule that)
qed

lemma tables_of_upd: "tables_of x y \<Longrightarrow> tables_of (upd_oi i f x) (upd_oi i f y)"
  by (erule tables_of_eq) (simp add: tables_of_def upd_oi_def)

lemma tables_of_gaOpenInos: "tables_of x y \<Longrightarrow> gaOpenInos y = gaOpenInos x"
  by (erule tables_of_eq) simp

lemma upd_oi_twice: "upd_oi i f (upd_oi i g x) = upd_oi i (\<lambda>oi. f (g oi)) x"
  by (simp add: upd_oi_def)

lemma upd_oi_cong: "f (gaOpenInos x i) = g (gaOpenInos x i) \<Longrightarrow> upd_oi i f x = upd_oi i g x"
  by (simp add: upd_oi_def)

text \<open>Dropping a reference that a slot holds; a failure leaves the tables alone.\<close>

lemma oi_last_result:
  assumes "oi_last E i c q x = Some (r, y)"
  shows "case r of Inl e \<Rightarrow> tables_of x y
    | Inr _ \<Rightarrow> tables_of (upd_oi i (oi_ulInode_update (\<lambda>_. INODE_INVALID)) x) y"
proof -
  let ?f = "whenE ((REDCONF_API_POSIX_FRESERVE E \<or> orphans_supported E) \<and> c \<and> \<not> vol_fReadOnly (gpRedVolume (posix_fs x)))
         (statusE (oi_cleanup E i) (\<lambda>ret. if q then returnE ret else okE ()))"
  have f: "outcome (tables_of x) (?f x)" by (intro outcome_rules core_rules) simp_all
  from assms have "thenE ?f (modE (upd_oi i (oi_ulInode_update (\<lambda>_. INODE_INVALID)))) x = Some (r, y)"
    by (simp add: oi_last_def)
  then show ?thesis
  proof (cases rule: thenE_eq_SomeE)
    case (err e)
    then show ?thesis using outcomeD [OF f err(1)] by simp
  next
    case (ok v u)
    then show ?thesis using outcomeD [OF f ok(1)] by (auto intro: tables_of_upd)
  qed
qed

lemma OpenInoDeref_result:
  assumes "OpenInoDeref E i c q x = Some (r, y)"
  shows "case r of Inl e \<Rightarrow> tables_of x y
    | Inr _ \<Rightarrow> i < OPEN_INODE_COUNT E \<and> tables_of (upd_oi i (\<lambda>oi.
        oi_uRefs_update (\<lambda>n. n - 1) (if oi_uRefs oi = 1 then oi\<lparr>oi_ulInode := INODE_INVALID\<rparr> else oi)) x) y"
proof -
  consider (bad) "i \<ge> OPEN_INODE_COUNT E \<or> oi_uRefs (gaOpenInos x i) = 0"
    | (last) "i < OPEN_INODE_COUNT E" "oi_uRefs (gaOpenInos x i) = 1"
    | (more) "i < OPEN_INODE_COUNT E" "oi_uRefs (gaOpenInos x i) \<noteq> 0" "oi_uRefs (gaOpenInos x i) \<noteq> 1"
    by force
  then show ?thesis
  proof cases
    case bad
    then have "OpenInoDeref E i c q x = Some (Inl RED_EINVAL, x)" by (auto simp: OpenInoDeref_def)
    then show ?thesis using assms by auto
  next
    case more
    then show ?thesis using assms by (auto simp: OpenInoDeref_def upd_oi_def)
  next
    case last
    with assms have "thenE (oi_last E i c q) (modE (upd_oi i (oi_uRefs_update (\<lambda>n. n - 1)))) x = Some (r, y)"
      by (simp add: OpenInoDeref_def)
    then show ?thesis
    proof (cases rule: thenE_eq_SomeE)
      case (err e)
      then show ?thesis using oi_last_result [OF err(1)] by simp
    next
      case (ok v u)
      then have "tables_of (upd_oi i (oi_uRefs_update (\<lambda>n. n - 1)) (upd_oi i (oi_ulInode_update (\<lambda>_. INODE_INVALID)) x)) y"
        using oi_last_result [OF ok(1)] by (auto intro: tables_of_upd)
      then show ?thesis using ok last by (auto simp: upd_oi_def)
    qed
  qed
qed

lemma table_drop:
  assumes ok: "oi_table_ok E oi p" and a: "a < OPEN_INODE_COUNT E" "p a = Some i"
  shows "oi_table_ok E (oi(i := oi_uRefs_update (\<lambda>n. n - 1)
      (if oi_uRefs (oi i) = 1 then (oi i)\<lparr>oi_ulInode := INODE_INVALID\<rparr> else oi i))) (p(a := None))"
proof -
  let ?e = "oi_uRefs_update (\<lambda>n. n - 1) (if oi_uRefs (oi i) = 1 then (oi i)\<lparr>oi_ulInode := INODE_INVALID\<rparr> else oi i)"
  have i: "i < OPEN_INODE_COUNT E" using counted_index [OF table_parts(1) [OF ok] a] .
  have pos: "0 < unat (oi_uRefs (oi i))" using counted_drop(2) [OF table_parts(1) [OF ok] a] .
  have refs: "oi_uRefs ?e = oi_uRefs (oi i) - 1" by simp
  have "unat (oi_uRefs (oi i) - 1) = unat (oi_uRefs (oi i)) - 1"
    using pos by (intro unat_minus_one) auto
  then have "(\<lambda>j. unat (oi_uRefs ((oi(i := ?e)) j))) = (\<lambda>j. unat (oi_uRefs (oi j)))(i := unat (oi_uRefs (oi i)) - 1)"
    unfolding fun_eq_iff fun_upd_apply using refs by simp
  then have "counted (OPEN_INODE_COUNT E) (OPEN_INODE_COUNT E) (p(a := None)) (\<lambda>j. unat (oi_uRefs ((oi(i := ?e)) j)))"
    using counted_drop(1) [OF table_parts(1) [OF ok] a] by simp
  moreover have "oi_uRefs ((oi(i := ?e)) j) = 0 \<longleftrightarrow> oi_ulInode ((oi(i := ?e)) j) = INODE_INVALID"
    if "j < OPEN_INODE_COUNT E" for j
    using pos table_parts(2) [OF ok that] by (cases "j = i") (auto simp: eq_diff_eq)
  moreover have "oi_ulInode ((oi(i := ?e)) j) \<noteq> INODE_INVALID \<longrightarrow> oi_ulInode ((oi(i := ?e)) j) = oi_ulInode (oi j)"
    "oi_bVolNum ((oi(i := ?e)) j) = oi_bVolNum (oi j)" for j
    by auto
  then have "j = k" if "j < OPEN_INODE_COUNT E" "k < OPEN_INODE_COUNT E" "oi_ulInode ((oi(i := ?e)) j) \<noteq> INODE_INVALID"
    "oi_ulInode ((oi(i := ?e)) j) = oi_ulInode ((oi(i := ?e)) k)" "oi_bVolNum ((oi(i := ?e)) j) = oi_bVolNum ((oi(i := ?e)) k)" for j k
    using that table_parts(3) [OF ok that(1,2)] by metis
  ultimately show ?thesis unfolding oi_table_ok_def by blast
qed

section \<open>Slots\<close>

lemma slot_ptr_handle:
  "h < HANDLES E \<Longrightarrow> slot_ptr E (upd_handle h (h_pOpenIno_update (\<lambda>_. q)) x) = (slot_ptr E x)(h := q)"
  by (auto simp: slot_ptr_def upd_handle_def fun_eq_iff)

lemma slot_ptr_task:
  "slot_ptr E (upd_task t (ts_pCwd_update (\<lambda>_. q)) x) = (slot_ptr E x)(HANDLES E + t := q)"
  by (auto simp: slot_ptr_def upd_task_def fun_eq_iff)

lemma slot_ptr_same [simp]:
  "slot_ptr E (x\<lparr>posix_ist := st\<rparr>) = slot_ptr E x" "slot_ptr E (x\<lparr>gaOpenInos := oi\<rparr>) = slot_ptr E x"
  "slot_ptr E (x\<lparr>gauGeneration := g\<rparr>) = slot_ptr E x" "slot_ptr E (x\<lparr>iGlobalErrno := n\<rparr>) = slot_ptr E x"
  "slot_ptr E (x\<lparr>gfPosixInited := b\<rparr>) = slot_ptr E x" "slot_ptr E (x\<lparr>szDirInodeToPathName := c\<rparr>) = slot_ptr E x"
  "slot_ptr E (upd_oi i f x) = slot_ptr E x"
  by (auto simp: slot_ptr_def upd_oi_def fun_eq_iff)

lemma slot_ptr_keep:
  "(\<And>s. h_pOpenIno (f s) = h_pOpenIno s) \<Longrightarrow> slot_ptr E (upd_handle h f x) = slot_ptr E x"
  "(\<And>s. ts_pCwd (g s) = ts_pCwd s) \<Longrightarrow> slot_ptr E (upd_task t g x) = slot_ptr E x"
  by (auto simp: slot_ptr_def upd_handle_def upd_task_def fun_eq_iff)

lemma of_tables_inv [simp]: "of_tables (posix_inv E)"
  by (simp add: of_tables_def posix_inv_def)

lemma posix_inv_fields [simp]:
  "posix_inv E (x\<lparr>gauGeneration := g\<rparr>) = posix_inv E x" "posix_inv E (x\<lparr>iGlobalErrno := n\<rparr>) = posix_inv E x"
  "posix_inv E (x\<lparr>gfPosixInited := b\<rparr>) = posix_inv E x" "posix_inv E (x\<lparr>szDirInodeToPathName := c\<rparr>) = posix_inv E x"
  "posix_inv E (x\<lparr>posix_ist := st\<rparr>) = posix_inv E x"
  by (simp_all add: posix_inv_def)

lemma posix_inv_handle:
  "(\<And>s. h_pOpenIno (f s) = h_pOpenIno s) \<Longrightarrow> posix_inv E (upd_handle h f x) = posix_inv E x"
  by (simp add: posix_inv_def slot_ptr_keep) (simp add: upd_handle_def)

lemma posix_inv_task:
  "(\<And>s. ts_pCwd (g s) = ts_pCwd s) \<Longrightarrow> posix_inv E (upd_task t g x) = posix_inv E x"
  by (simp add: posix_inv_def slot_ptr_keep) (auto simp: upd_task_def)

lemma oi_table_fields:
  assumes "\<And>i. oi_uRefs (oi' i) = oi_uRefs (oi i)" "\<And>i. oi_ulInode (oi' i) = oi_ulInode (oi i)"
    "\<And>i. oi_bVolNum (oi' i) = oi_bVolNum (oi i)"
  shows "oi_table_ok E oi' p = oi_table_ok E oi p"
  unfolding oi_table_ok_def assms by (rule refl)

lemma posix_inv_oi:
  "(\<And>s. oi_uRefs (f s) = oi_uRefs s) \<Longrightarrow> (\<And>s. oi_ulInode (f s) = oi_ulInode s) \<Longrightarrow>
   (\<And>s. oi_bVolNum (f s) = oi_bVolNum s) \<Longrightarrow> posix_inv E (upd_oi i f x) = posix_inv E x"
  by (simp add: posix_inv_def) (simp add: upd_oi_def oi_table_fields [of "(gaOpenInos x)(i := f (gaOpenInos x i))" "gaOpenInos x"])

section \<open>Handles and working directories\<close>

lemma posix_inv_tables: "tables_of x y \<Longrightarrow> posix_inv E y = posix_inv E x"
  by (erule tables_of_eq) simp

lemma slot_ptr_tables: "tables_of x y \<Longrightarrow> slot_ptr E y = slot_ptr E x"
  by (erule tables_of_eq) simp

text \<open>After a successful drop, the table is right for the slot without its pointer.\<close>

lemma OpenInoDeref_drop:
  assumes d: "OpenInoDeref E i c q x = Some (Inr v, y)" and inv: "posix_inv E x"
    and a: "a < OPEN_INODE_COUNT E" "slot_ptr E x a = Some i"
  shows "oi_table_ok E (gaOpenInos y) ((slot_ptr E y)(a := None))" and "gaTask y = gaTask x" and "gaHandle y = gaHandle x"
proof -
  let ?x = "upd_oi i (\<lambda>oi. oi_uRefs_update (\<lambda>n. n - 1) (if oi_uRefs oi = 1 then oi\<lparr>oi_ulInode := INODE_INVALID\<rparr> else oi)) x"
  have t: "tables_of ?x y" using OpenInoDeref_result [OF d] by simp
  have "oi_table_ok E (gaOpenInos ?x) ((slot_ptr E x)(a := None))"
    using table_drop [where p = "slot_ptr E x" and oi = "gaOpenInos x" and a = a and i = i and E = E] a inv
    by (simp add: posix_inv_def upd_oi_def split del: if_split)
  then show "oi_table_ok E (gaOpenInos y) ((slot_ptr E y)(a := None))"
    using tables_of_gaOpenInos [OF t] slot_ptr_tables [OF t] by simp
  show "gaTask y = gaTask x" "gaHandle y = gaHandle x" using t by (auto elim!: tables_of_eq simp: upd_oi_def)
qed

lemma OpenInoDeref_fails:
  "OpenInoDeref E i c q x = Some (Inl e, y) \<Longrightarrow> posix_inv E x \<Longrightarrow> posix_inv E y"
  using OpenInoDeref_result [of E i c q x "Inl e" y] by (simp add: posix_inv_tables)

lemma handle_slot: "h < HANDLES E \<Longrightarrow> h < OPEN_INODE_COUNT E \<and> slot_ptr E x h = h_pOpenIno (gaHandle x h)"
  by (simp add: OPEN_INODE_COUNT_def slot_ptr_def)

lemma task_slot:
  "REDCONF_API_POSIX_CWD E \<Longrightarrow> t < TASKS E \<Longrightarrow>
   HANDLES E + t < OPEN_INODE_COUNT E \<and> slot_ptr E x (HANDLES E + t) = ts_pCwd (gaTask x t)"
  by (simp add: OPEN_INODE_COUNT_def slot_ptr_def)

lemma HandleOpen_inv:
  assumes inv: "posix_inv E x" and c: "posix_config E" and h: "h < HANDLES E" "h_pOpenIno (gaHandle x h) = None"
    and ino: "ulInode \<noteq> INODE_INVALID"
  obtains y i where "HandleOpen E h ulInode x = Some (Inr (), y)" "posix_inv E y"
    "h_pOpenIno (gaHandle y h) = Some i" "oi_ulInode (gaOpenInos y i) = ulInode"
    "oi_bVolNum (gaOpenInos y i) = gbRedVolNum (posix_fs x)" "gauGeneration y = gauGeneration x"
    "posix_ist y = posix_ist x" "h_bFlags (gaHandle y h) = h_bFlags (gaHandle x h)"
proof -
  have a: "h < OPEN_INODE_COUNT E" "slot_ptr E x h = None" using handle_slot [OF h(1), of x] h(2) by simp_all
  have ok: "oi_table_ok E (gaOpenInos x) (slot_ptr E x)" using inv by (simp add: posix_inv_def)
  from OpenInoRef_take [OF ok a ino c, of "gbRedVolNum (posix_fs x)"] obtain i oi where
    r: "OpenInoRef E (gbRedVolNum (posix_fs x)) ulInode x = (Some i, x\<lparr>gaOpenInos := oi\<rparr>)"
    and t: "oi_table_ok E oi ((slot_ptr E x)(h := Some i))"
    and entry: "oi_ulInode (oi i) = ulInode" "oi_bVolNum (oi i) = gbRedVolNum (posix_fs x)" .
  let ?y = "upd_handle h (h_pOpenIno_update (\<lambda>_. Some i)) (x\<lparr>gaOpenInos := oi\<rparr>)"
  have "HandleOpen E h ulInode x = Some (Inr (), ?y)" using r by (simp add: HandleOpen_def)
  moreover have "posix_inv E ?y"
    using inv t slot_ptr_handle [OF h(1), of "Some i" "x\<lparr>gaOpenInos := oi\<rparr>"]
    by (simp add: posix_inv_def) (simp add: upd_handle_def)
  ultimately show thesis by (rule that [where i = i]) (simp_all add: upd_handle_def entry)
qed

text \<open>A new reference for the slot of a task that has none.\<close>

definition cwd_ref :: "'d env \<Rightarrow> nat \<Rightarrow> u8 \<Rightarrow> u32 \<Rightarrow> ('d, unit) pop" where
  "cwd_ref E t v ulInode = (\<lambda>x. case OpenInoRef E v ulInode x of
     (p, y) \<Rightarrow> thenE (modE (upd_task t (ts_pCwd_update (\<lambda>_. p)))) (if p = None then errE RED_EFUBAR else okE ()) y)"

lemma cwd_ref_inv:
  assumes ok: "oi_table_ok E (gaOpenInos x) ((slot_ptr E x)(HANDLES E + t := None))"
    and c: "posix_config E" "REDCONF_API_POSIX_CWD E" "t < TASKS E" and ino: "ulInode \<noteq> INODE_INVALID"
  obtains y i where "cwd_ref E t v ulInode x = Some (Inr (), y)" "posix_inv E y"
    "ts_pCwd (gaTask y t) = Some i" "oi_ulInode (gaOpenInos y i) = ulInode" "oi_bVolNum (gaOpenInos y i) = v"
proof -
  have a: "HANDLES E + t < OPEN_INODE_COUNT E" using task_slot [OF c(2,3)] by blast
  have "((slot_ptr E x)(HANDLES E + t := None)) (HANDLES E + t) = None" by simp
  from OpenInoRef_take [OF ok a this ino c(1), of v] obtain i oi where
    r: "OpenInoRef E v ulInode x = (Some i, x\<lparr>gaOpenInos := oi\<rparr>)"
    and "oi_table_ok E oi ((slot_ptr E x)(HANDLES E + t := None, HANDLES E + t := Some i))"
    and entry: "oi_ulInode (oi i) = ulInode" "oi_bVolNum (oi i) = v" .
  then have t: "oi_table_ok E oi ((slot_ptr E x)(HANDLES E + t := Some i))" by (simp only: fun_upd_upd)
  let ?y = "upd_task t (ts_pCwd_update (\<lambda>_. Some i)) (x\<lparr>gaOpenInos := oi\<rparr>)"
  have "cwd_ref E t v ulInode x = Some (Inr (), ?y)" using r by (simp add: cwd_ref_def)
  moreover have "posix_inv E ?y"
    using t c(2) slot_ptr_task [of E t "Some i" "x\<lparr>gaOpenInos := oi\<rparr>"]
    by (simp add: posix_inv_def) (simp add: upd_task_def)
  ultimately show thesis by (rule that [where i = i]) (simp_all add: upd_task_def entry)
qed

lemma CwdClose_cwd_ref:
  "CwdClose E t fClearVol fReset x =
     thenE (case ts_pCwd (gaTask x t) of None \<Rightarrow> okE () | Some i \<Rightarrow> OpenInoDeref E i (\<not> fReset) False)
       (\<lambda>x. cwd_ref E t (if fClearVol then 0 else gbRedVolNum (posix_fs x)) INODE_ROOTDIR x) x"
  by (simp add: CwdClose_def cwd_ref_def)

lemma INODE_ROOTDIR_valid [simp]: "INODE_ROOTDIR \<noteq> INODE_INVALID"
  by (simp add: INODE_ROOTDIR_def INODE_FIRST_VALID_def INODE_INVALID_def)

text \<open>The working directory of a task moves to another directory.\<close>

lemma cwd_move_inv:
  assumes inv: "posix_inv E x" and c: "posix_config E" "REDCONF_API_POSIX_CWD E" "t < TASKS E"
    and ino: "ulInode \<noteq> INODE_INVALID" and cwd: "ts_pCwd (gaTask x t) = Some i"
  shows "outcome (posix_inv E) (thenE (OpenInoDeref E i b q) (\<lambda>x. cwd_ref E t (v x) ulInode x) x)"
  unfolding outcome_def
proof (intro allI impI)
  fix r y
  have a: "HANDLES E + t < OPEN_INODE_COUNT E" "slot_ptr E x (HANDLES E + t) = Some i"
    using task_slot [OF c(2,3), of x] cwd by simp_all
  assume "thenE (OpenInoDeref E i b q) (\<lambda>x. cwd_ref E t (v x) ulInode x) x = Some (r, y)"
  then show "posix_inv E y"
  proof (cases rule: thenE_eq_SomeE)
    case (err e)
    then show ?thesis using OpenInoDeref_fails inv by blast
  next
    case (ok w u)
    from cwd_ref_inv [OF OpenInoDeref_drop(1) [OF ok(1) inv a] c ino, of "v u"] obtain z
      where "cwd_ref E t (v u) ulInode u = Some (Inr (), z)" "posix_inv E z" .
    then show ?thesis using ok(2) by simp
  qed
qed

lemma CwdClose_inv:
  assumes inv: "posix_inv E x" and c: "posix_config E" "REDCONF_API_POSIX_CWD E" "t < TASKS E"
  shows "outcome (posix_inv E) (CwdClose E t fClearVol fReset x)"
proof (cases "ts_pCwd (gaTask x t)")
  case None
  then have "(slot_ptr E x)(HANDLES E + t := None) = slot_ptr E x"
    using task_slot [OF c(2,3), of x] by (simp add: fun_eq_iff)
  then have "oi_table_ok E (gaOpenInos x) ((slot_ptr E x)(HANDLES E + t := None))"
    using inv by (simp add: posix_inv_def)
  from cwd_ref_inv [OF this c INODE_ROOTDIR_valid, of "if fClearVol then 0 else gbRedVolNum (posix_fs x)"] obtain z
    where "cwd_ref E t (if fClearVol then 0 else gbRedVolNum (posix_fs x)) INODE_ROOTDIR x = Some (Inr (), z)" "posix_inv E z" .
  then show ?thesis using None by (simp add: CwdClose_cwd_ref outcome_def)
next
  case (Some i)
  then show ?thesis using cwd_move_inv [OF inv c INODE_ROOTDIR_valid Some] by (simp add: CwdClose_cwd_ref)
qed

lemma HandleClose_inv:
  assumes inv: "posix_inv E x"
  shows "outcome (posix_inv E) (HandleClose E h ulTransFlag x)"
proof (cases "h < HANDLES E \<and> h_pOpenIno (gaHandle x h) \<noteq> None")
  case False
  then show ?thesis using inv by (auto simp: HandleClose_def outcome_def split: option.split)
next
  case True
  then obtain i where h: "h < HANDLES E" and p: "h_pOpenIno (gaHandle x h) = Some i" by blast
  let ?J = "\<lambda>y. posix_inv E y \<and> slot_ptr E y h = Some i"
  have J: "of_tables ?J" "?J x" using inv handle_slot [OF h, of x] p by (simp_all add: of_tables_def)
  let ?g = "\<lambda>b. thenE (modE (upd_handle h (h_pOpenIno_update (\<lambda>_. None))))
     (\<lambda>x. whenE (\<not> vol_fReadOnly (gpRedVolume (posix_fs x)) \<and> b) (coreP (RedCoreVolTransact E)) x)"
  have close: "outcome (posix_inv E) (thenE (OpenInoDeref E i True b) (?g b) y)" if "?J y" for b y
    unfolding outcome_def
  proof (intro allI impI)
    fix r z
    assume "thenE (OpenInoDeref E i True b) (?g b) y = Some (r, z)"
    then show "posix_inv E z"
    proof (cases rule: thenE_eq_SomeE)
      case (err e)
      then show ?thesis using OpenInoDeref_fails that by blast
    next
      case (ok w u)
      have a: "h < OPEN_INODE_COUNT E" "slot_ptr E y h = Some i" using that handle_slot [OF h] by blast+
      note d = OpenInoDeref_drop [OF ok(1) conjunct1 [OF that] a]
      have "posix_inv E (upd_handle h (h_pOpenIno_update (\<lambda>_. None)) u)"
        using d that slot_ptr_handle [OF h, of None u] by (simp add: posix_inv_def) (simp add: upd_handle_def)
      then have "outcome (posix_inv E) (?g b u)" by (intro outcome_rules core_rules) simp_all
      then show ?thesis using ok(2) by (rule outcomeD)
    qed
  qed
  have "outcome ?J (set_volume E v x)" for v by (intro core_rules J)
  moreover have "outcome ?J ((\<lambda>x. if vol_fReadOnly (gpRedVolume (posix_fs x)) then okE 0 x else coreP RedCoreTransMaskGet x) y)"
    if "?J y" for y
    using that by (intro outcome_rules core_rules J)
  ultimately have "outcome (posix_inv E) (thenE (set_volume E (oi_bVolNum (gaOpenInos x i)))
       (bindE (\<lambda>x. if vol_fReadOnly (gpRedVolume (posix_fs x)) then okE 0 x else coreP RedCoreTransMaskGet x) (\<lambda>ulTransMask.
        thenE (OpenInoDeref E i True (ulTransMask AND ulTransFlag \<noteq> 0)) (?g (ulTransMask AND ulTransFlag \<noteq> 0)))) x)"
    using close unfolding outcome_def by (blast elim: thenE_eq_SomeE bindE_eq_SomeE)
  then show ?thesis using h p by (simp add: HandleClose_def Let_def)
qed

section \<open>Inode numbers from the core interface\<close>

lemma INODE_IS_VALID_nonzero: "INODE_IS_VALID n s \<Longrightarrow> n \<noteq> INODE_INVALID"
  by (auto simp: INODE_IS_VALID_def INODE_FIRST_VALID_def INODE_INVALID_def)

lemma RedInodeMount_nonzero:
  "RedInodeMount E i type b st = Some (Inr v, st') \<Longrightarrow> ci_ulInode (ci i st) \<noteq> INODE_INVALID"
  by (auto simp: RedInodeMount_def Let_def dest: INODE_IS_VALID_nonzero split: if_splits)

lemma with_inode_nonzero:
  assumes "with_inode E i n type b body f st = Some (Inr v, st')"
  shows "n \<noteq> INODE_INVALID"
proof -
  from assms obtain w u where "RedInodeMount E i type b (upd_ci i (\<lambda>c. c\<lparr>ci_ulInode := n\<rparr>) st) = Some (Inr w, u)"
    by (auto simp: with_inode_def set_ino_def elim: thenE_eq_SomeE)
  then show ?thesis by (auto dest: RedInodeMount_nonzero simp: ci_def upd_ci_def)
qed

lemma RedCoreStat_nonzero: "RedCoreStat E n st = Some (Inr sb, st') \<Longrightarrow> n \<noteq> INODE_INVALID"
  by (auto simp: RedCoreStat_def dest: with_inode_nonzero split: if_splits)

text \<open>The number of an open inode is not zero, and operations on the driver's state do not look at it.\<close>

definition numbered :: "inoptr \<Rightarrow> 'd ist \<Rightarrow> bool" where
  "numbered i st \<longleftrightarrow> ci_ulInode (ci i st) \<noteq> INODE_INVALID"

lemma outcome_liftF_numbered: "numbered i st \<Longrightarrow> outcome (numbered i) (liftF f st)"
  by (auto simp: outcome_def numbered_def ci_def liftF_def split: option.splits prod.splits)

lemma numbered_updates [simp]:
  "numbered i (apsnd g st) = numbered i st"
  "(\<And>c. ci_ulInode (f c) = ci_ulInode c) \<Longrightarrow> numbered i (upd_ci j f st) = numbered i st"
  by (simp_all add: numbered_def ci_def upd_ci_def)

lemma outcome_numbered_basic:
  "numbered i st \<Longrightarrow> outcome (numbered i) (modF g st)"
  "numbered i st \<Longrightarrow> outcome (numbered i) (ptrI p j st)"
proof -
  assume n: "numbered i st"
  then show "outcome (numbered i) (modF g st)" by (intro outcome_basic) simp
  show "outcome (numbered i) (ptrI p j st)" using n by (cases "p (ci j st)") (auto simp: outcome_def ptrI_def)
qed

lemma outcome_numbered_buf:
  "numbered i st \<Longrightarrow> outcome (numbered i) (readI E p j h st)"
  "numbered i st \<Longrightarrow> outcome (numbered i) (writeI E p j w st)"
  unfolding readI_def writeI_def by (intro outcome_rules outcome_numbered_basic, assumption+)+

lemmas numbered_rules = outcome_liftF_numbered outcome_numbered_basic outcome_numbered_buf

lemma RedInodeBranch_numbered: "numbered i st \<Longrightarrow> outcome (numbered i) (RedInodeBranch E j st)"
  unfolding RedInodeBranch_def Let_def
  by (intro outcome_rules numbered_rules) simp_all

lemma create_owner_numbered: "numbered i st \<Longrightarrow> outcome (numbered i) (create_owner E i p st)"
  unfolding create_owner_def
  by (cases p) (auto intro!: outcome_rules numbered_rules split: prod.splits)

lemma create_fields_numbered: "numbered i st \<Longrightarrow> outcome (numbered i) (create_fields E i p m st)"
  unfolding create_fields_def
  by (intro outcome_rules numbered_rules create_owner_numbered) simp_all

lemma RedInodeBitGet_valid: "RedInodeBitGet E b n w s = Some (Inr v, t) \<Longrightarrow> INODE_IS_VALID n s"
  by (auto simp: RedInodeBitGet_def split: if_splits)

lemma InodeGetWriteableCopy_valid:
  assumes "InodeGetWriteableCopy E n s = Some (Inr v, t)"
  shows "INODE_IS_VALID n s"
proof -
  from assms obtain w u where "RedInodeBitGet E (other_MR s) n 0 s = Some (Inr w, u)"
    by (auto simp: InodeGetWriteableCopy_def elim: bindE_eq_SomeE)
  then show ?thesis by (rule RedInodeBitGet_valid)
qed

lemma create_node_numbered:
  assumes "create_node E i st = Some (Inr v, st')"
  shows "numbered i st'"
proof -
  let ?n = "ci_ulInode (ci i st)"
  let ?g = "\<lambda>bWhich. bindE (liftF (\<lambda>s. RedBufferGet E (InodeBlock ?n bWhich s) (BFLAG_META_INODE OR BFLAG_DIRTY OR BFLAG_NEW) s)) (\<lambda>p.
     thenE (modE (upd_ci i (\<lambda>c. c\<lparr>ci_pInodeBuf := Some p\<rparr>)))
       (statusE (liftF (InodeBitSet E ?n bWhich True)) (\<lambda>ret.
          thenE (whenE (\<not> is_ok ret) (modF (RedBufferPut E p))) (returnE ret))))"
  from assms have "bindE (liftF (InodeGetWriteableCopy E ?n)) ?g st = Some (Inr v, st')"
    by (simp add: create_node_def)
  then obtain w u where w: "liftF (InodeGetWriteableCopy E ?n) st = Some (Inr w, u)" and g: "?g w u = Some (Inr v, st')"
    by (auto elim: bindE_eq_SomeE)
  from w have "numbered i st"
    by (auto simp: liftF_def numbered_def dest!: InodeGetWriteableCopy_valid INODE_IS_VALID_nonzero split: prod.splits option.splits)
  then have "numbered i u" using outcomeD [OF outcome_liftF_numbered w] by simp
  then have "outcome (numbered i) (?g w u)" by (intro outcome_rules numbered_rules) simp_all
  then show ?thesis using g by (rule outcomeD)
qed

lemma RedInodeCreate_numbered:
  assumes "RedInodeCreate E i p m st = Some (Inr v, st')"
  shows "numbered i st'"
proof -
  from assms obtain u w where n: "create_node E i u = Some (Inr (), w)" and f: "create_fields E i p m w = Some (Inr v, st')"
    by (auto simp: RedInodeCreate_def elim!: thenE_eq_SomeE split: if_splits)
  show ?thesis using outcomeD [OF create_fields_numbered [OF create_node_numbered [OF n]] f] .
qed

lemma with_inode_body:
  assumes "with_inode E i n type b body f st = Some (Inr v, st')"
  obtains u w where "body u = Some (Inr v, w)"
  using assms by (auto simp: with_inode_def returnE_def statusE_Some_iff elim!: thenE_eq_SomeE)

lemma cleanup_value:
  "thenE a (thenE b (statusE f (\<lambda>ret. thenE (g ret) (thenE c (returnE ret))))) u = Some (Inr n, w) \<Longrightarrow>
   \<exists>x y z. b x = Some (Inr (), y) \<and> f y = Some (Inr n, z)"
  by (auto simp: statusE_Some_iff elim!: thenE_eq_SomeE) blast

lemma CoreCreate_nonzero:
  assumes "CoreCreate E ulPInode pszName uMode st = Some (Inr n, st')"
  shows "n \<noteq> INODE_INVALID"
proof -
  let ?enter = "thenE (RedInodeBranch E INO_CREATE_P)
    (bindE (getE (\<lambda>st. ci_ulInode (ci INO_CREATE st))) (\<lambda>ulInode.
     thenE (RedDirEntryCreate E INO_CREATE_P pszName ulInode) (okE ulInode)))"
  from assms obtain u w where
    "thenE (set_ino INO_CREATE INODE_INVALID) (thenE (RedInodeCreate E INO_CREATE (Some INO_CREATE_P) uMode)
       (statusE ?enter (\<lambda>ret.
          thenE (whenE (\<not> is_ok ret)
              (statusE (RedInodeFree E INO_CREATE) (\<lambda>ret2. liftF (CRITICAL_ASSERT (is_ok ret2)))))
            (thenE (RedInodePut E INO_CREATE 0) (returnE ret))))) u = Some (Inr n, w)"
    by (auto simp: CoreCreate_def not_readonly_def split: if_splits elim: with_inode_body)
  then have "\<exists>x y z. RedInodeCreate E INO_CREATE (Some INO_CREATE_P) uMode x = Some (Inr (), y) \<and> ?enter y = Some (Inr n, z)"
    by (rule cleanup_value)
  then obtain x y z where c: "RedInodeCreate E INO_CREATE (Some INO_CREATE_P) uMode x = Some (Inr (), y)"
    and e: "?enter y = Some (Inr n, z)" by (elim exE conjE)
  from e obtain t where b: "RedInodeBranch E INO_CREATE_P y = Some (Inr (), t)" and n: "n = ci_ulInode (ci INO_CREATE t)"
    by (auto elim!: thenE_eq_SomeE)
  have "numbered INO_CREATE t" using outcomeD [OF RedInodeBranch_numbered [OF RedInodeCreate_numbered [OF c]] b] .
  then show ?thesis by (simp add: n numbered_def)
qed

lemma retry_full_value:
  "retry_full E f st = Some (Inr v, st') \<Longrightarrow> \<exists>u w. f u = Some (Inr v, w)"
  unfolding retry_full_def statusE_Some_iff
  by (auto split: if_splits elim!: thenE_eq_SomeE)

lemma RedCoreCreate_nonzero:
  assumes "RedCoreCreate E ulPInode pszName uMode st = Some (Inr n, st')"
  shows "n \<noteq> INODE_INVALID"
proof -
  from assms have "\<exists>w. retry_full E (CoreCreate E ulPInode pszName uMode) st = Some (Inr n, w)"
    by (auto simp: RedCoreCreate_def writeable_def split: if_splits elim!: bindE_eq_SomeE thenE_eq_SomeE)
  then obtain u w where "CoreCreate E ulPInode pszName uMode u = Some (Inr n, w)"
    using retry_full_value by metis
  then show ?thesis by (rule CoreCreate_nonzero)
qed

end
