(* ===== verification/Red_PosixReach.thy ===== *)
theory Red_PosixReach
  imports Red_PosixInv
begin

text \<open>
  Every operation of the POSIX-like interface keeps the invariant of its tables, so that the invariant holds in
  every state that calls of the interface reach.
\<close>

declare split_paired_Ex [simp del]

named_theorems inv_rules \<open>operations that keep the tables, or their invariant\<close>

section \<open>What the operations share\<close>

lemma outcome_Some [simp]: "outcome I (Some (r, y)) = I y"
  by (simp add: outcome_def)

lemma outcome_FildesToHandle [inv_rules]: "I x \<Longrightarrow> outcome I (FildesToHandle E fd type x)"
  unfolding FildesToHandle_def Let_def by (intro outcome_rules)

lemma outcome_open_ino [inv_rules]: "I x \<Longrightarrow> outcome I (open_ino h x)"
  by (simp add: open_ino_def outcome_def split: option.split)

lemma outcome_oi_at [inv_rules]: "I x \<Longrightarrow> outcome I (oi_at i x)"
  unfolding oi_at_def by (intro outcome_rules)

lemma outcome_need_access [inv_rules]: "I x \<Longrightarrow> outcome I (need_access b h x)"
  unfolding need_access_def by (intro outcome_rules)

lemma outcome_fildes_with [inv_rules]: "I x \<Longrightarrow> outcome I (fildes_with E fd type b x)"
  unfolding fildes_with_def by (intro outcome_rules inv_rules)

lemma outcome_isdir_is_bad [inv_rules]: "outcome I (f x) \<Longrightarrow> outcome I (isdir_is_bad f x)"
  unfolding isdir_is_bad_def by (intro outcome_rules)

lemma outcome_self_cwd [inv_rules]: "I x \<Longrightarrow> outcome I (self_cwd E x)"
  unfolding self_cwd_def by (simp add: outcome_def split: option.split)

lemma outcome_initialisedP [inv_rules]: "I x \<Longrightarrow> outcome I (initialisedP v x)"
  by (simp add: initialisedP_def outcome_def split: option.split)

lemma outcome_enter_open_ino [inv_rules]: "of_tables I \<Longrightarrow> I x \<Longrightarrow> outcome I (enter_open_ino E h x)"
  unfolding enter_open_ino_def by (intro outcome_rules inv_rules core_rules)

lemma outcome_on_fildes [inv_rules]:
  "of_tables I \<Longrightarrow> I x \<Longrightarrow> (\<And>h i y. I y \<Longrightarrow> outcome I (f h i y)) \<Longrightarrow> outcome I (on_fildes E fd type f x)"
  unfolding on_fildes_def by (intro outcome_rules inv_rules core_rules)

lemma outcome_on_volume [inv_rules]:
  "of_tables I \<Longrightarrow> I x \<Longrightarrow> (\<And>y. I y \<Longrightarrow> outcome I (f y)) \<Longrightarrow> outcome I (on_volume E path f x)"
  unfolding on_volume_def by (intro outcome_rules core_rules)

lemma outcome_PathStartingPoint [inv_rules]:
  assumes "of_tables I" "I x"
  shows "outcome I (PathStartingPoint E fd path x)"
proof -
  have "outcome I (start_open_ino E fd y)" if "I y" for y
  proof (cases "REDCONF_API_POSIX_CWD E \<and> fd = RED_AT_FDCWD")
    case True
    then show ?thesis using that by (simp add: start_open_ino_def outcome_def split: option.split)
  next
    case False
    have "outcome I (bindE (FildesToHandle E fd FTYPE_DIR) (\<lambda>h x.
        if handle_has HFLAG_READABLE h x then open_ino h x else errE RED_EBADF x) y)"
      using that by (intro outcome_rules inv_rules)
    then show ?thesis using False unfolding start_open_ino_def by (simp only: if_False)
  qed
  then have "outcome I (start_relative E fd p y)" if "I y" for y p
    unfolding start_relative_def using that assms(1) by (intro outcome_rules inv_rules core_rules)
  then show ?thesis
    unfolding PathStartingPoint_def using assms
    by (cases path) (simp_all, intro outcome_rules core_rules, simp_all add: start_absolute_def outcome_coreP)
qed

lemma outcome_on_path [inv_rules]:
  "of_tables I \<Longrightarrow> I x \<Longrightarrow> (\<And>n y. I y \<Longrightarrow> outcome I (f n y)) \<Longrightarrow> outcome I (on_path E fd path flags f x)"
  unfolding on_path_def by (auto intro!: outcome_rules inv_rules core_rules split: prod.splits)

lemma outcome_on_name [inv_rules]:
  "of_tables I \<Longrightarrow> I x \<Longrightarrow> (\<And>n s y. I y \<Longrightarrow> outcome I (f n s y)) \<Longrightarrow> outcome I (on_name E fd path e f x)"
  unfolding on_name_def by (auto intro!: outcome_rules inv_rules core_rules split: prod.splits)

section \<open>Entering and leaving\<close>

lemma TaskRegister_inv: "posix_inv E (snd (TaskRegister E n x)) = posix_inv E x"
  by (auto simp: TaskRegister_def posix_inv_task split: option.split)

lemma errnoptr_inv: "posix_inv E (snd (red_errnoptr E x)) = posix_inv E x"
  using TaskRegister_inv [of E "RedOsTaskId E (os (posix_fs x))" x]
  by (auto simp: red_errnoptr_def split: prod.split option.split)

lemma store_errno_inv: "posix_inv E (store_errno p n x) = posix_inv E x"
  by (cases p) (simp_all add: posix_inv_task)

lemma PosixReturn_inv [inv_rules]:
  assumes "outcome (posix_inv E) (f x)"
  shows "outcome (posix_inv E) (PosixReturn E f x)"
proof -
  have "posix_inv E (store_errno p n z) = posix_inv E y" if "red_errnoptr E y = (p, z)" for y p z n
    using errnoptr_inv [of E y] that by (simp add: store_errno_inv)
  then show ?thesis using assms
    by (auto simp: PosixReturn_def outcome_def split: option.splits sum.splits prod.splits)
qed

lemma PosixEnter_inv [inv_rules]: "posix_inv E x \<Longrightarrow> outcome (posix_inv E) (PosixEnter E x)"
  using TaskRegister_inv [of E "RedOsTaskId E (os (posix_fs x))" x]
  by (auto simp: PosixEnter_def outcome_def split: prod.split option.split)

lemma in_posix_inv [inv_rules]:
  "posix_inv E x \<Longrightarrow> (\<And>y. posix_inv E y \<Longrightarrow> outcome (posix_inv E) (f y)) \<Longrightarrow> outcome (posix_inv E) (in_posix E f x)"
  unfolding in_posix_def by (intro inv_rules outcome_rules)

section \<open>The operations on volumes\<close>

lemma cwd_close_vol_inv:
  "posix_config E \<Longrightarrow> REDCONF_API_POSIX_CWD E \<Longrightarrow> \<forall>t \<in> set ts. t < TASKS E \<Longrightarrow> posix_inv E x \<Longrightarrow>
   outcome (posix_inv E) (cwd_close_vol E b ts x)"
  by (induction ts arbitrary: x) (auto intro!: outcome_rules CwdClose_inv)

lemma CwdCloseVol_inv [inv_rules]:
  "posix_config E \<Longrightarrow> REDCONF_API_POSIX_CWD E \<Longrightarrow> posix_inv E x \<Longrightarrow> outcome (posix_inv E) (CwdCloseVol E b x)"
  unfolding CwdCloseVol_def by (rule cwd_close_vol_inv) simp_all

lemma cwd_reset_inv:
  "posix_config E \<Longrightarrow> REDCONF_API_POSIX_CWD E \<Longrightarrow> \<forall>t \<in> set ts. t < TASKS E \<Longrightarrow> posix_inv E x \<Longrightarrow>
   outcome (posix_inv E) (cwd_reset E ts x)"
  by (induction ts arbitrary: x) (auto intro!: outcome_rules CwdClose_inv)

lemma CwdResetAll_inv [inv_rules]:
  "posix_config E \<Longrightarrow> REDCONF_API_POSIX_CWD E \<Longrightarrow> posix_inv E x \<Longrightarrow> outcome (posix_inv E) (CwdResetAll E x)"
  unfolding CwdResetAll_def by (rule cwd_reset_inv) simp_all

lemma TaskFind_less: "TaskFind E n x = Some t \<Longrightarrow> t < TASKS E"
  unfolding TaskFind_def by (drule find_upt_Some) simp

lemma TaskUnregister_inv [inv_rules]:
  assumes "posix_config E" "posix_inv E x"
  shows "outcome (posix_inv E) (TaskUnregister E n x)"
proof (cases "TaskFind E n x")
  case None
  then show ?thesis using assms(2) by (simp add: TaskUnregister_def outcome_def)
next
  case (Some t)
  have "outcome (posix_inv E) (thenE (modE (upd_task t (\<lambda>s. s\<lparr>ts_ulTaskId := 0, ts_iErrno := 0\<rparr>)))
           (whenE (REDCONF_API_POSIX_CWD E) (CwdClose E t True False)) x)"
    by (intro outcome_rules CwdClose_inv) (use assms TaskFind_less [OF Some] in \<open>simp_all add: posix_inv_task\<close>)
  then show ?thesis using Some by (simp add: TaskUnregister_def)
qed

lemma umount_handles_inv [inv_rules]:
  "posix_inv E x \<Longrightarrow> outcome (posix_inv E) (umount_handles E b hs x)"
  by (induction hs arbitrary: x) (auto intro!: outcome_rules HandleClose_inv)

lemma sync_volumes_inv [inv_rules]: "of_tables I \<Longrightarrow> I x \<Longrightarrow> outcome I (sync_volumes E ns ret x)"
  by (induction ns arbitrary: x ret) (auto intro!: outcome_rules core_rules simp: sync_volume_def)

text \<open>The tables that are all zero.\<close>

lemma zero_tables_inv:
  assumes "posix_config E"
  shows "posix_inv E (x\<lparr>gaHandle := (\<lambda>_. redhandle_zero), gaOpenInos := (\<lambda>_. openinode_zero), gaTask := (\<lambda>_. taskslot_zero)\<rparr>)"
proof -
  have "slot_ptr E (x\<lparr>gaHandle := (\<lambda>_. redhandle_zero), gaOpenInos := (\<lambda>_. openinode_zero), gaTask := (\<lambda>_. taskslot_zero)\<rparr>) = (\<lambda>_. None)"
    by (auto simp: slot_ptr_def redhandle_zero_def taskslot_zero_def)
  then show ?thesis
    by (simp add: posix_inv_def oi_table_ok_def counted_def openinode_zero_def taskslot_zero_def INODE_INVALID_def)
qed

section \<open>Opening a file\<close>

lemma HandleFindFree_inv:
  assumes "posix_inv E x"
  shows "case HandleFindFree E x of (None, y) \<Rightarrow> posix_inv E y
    | (Some h, y) \<Rightarrow> h < HANDLES E \<and> posix_inv E y \<and> h_pOpenIno (gaHandle y h) = None \<and> h_bFlags (gaHandle y h) = 0"
proof (cases "find (\<lambda>i. h_pOpenIno (gaHandle x i) = None) [0..<HANDLES E]")
  case None
  then show ?thesis using assms by (simp add: HandleFindFree_def)
next
  case (Some h)
  note h = find_upt_Some [OF Some]
  have "slot_ptr E (upd_handle h (\<lambda>_. redhandle_zero) x) = slot_ptr E x"
    using h by (auto simp: slot_ptr_def upd_handle_def redhandle_zero_def fun_eq_iff)
  then have "posix_inv E (upd_handle h (\<lambda>_. redhandle_zero) x)"
    using assms by (simp add: posix_inv_def) (simp add: upd_handle_def)
  then show ?thesis using Some h by (simp add: HandleFindFree_def) (simp add: upd_handle_def redhandle_zero_def)
qed

lemma coreP_eq_SomeE:
  assumes "coreP f x = Some (r, y)"
  obtains st where "f (posix_ist x) = Some (r, st)"
  using assms by (auto simp: coreP_def split: option.splits)

lemma open_existing_core: "of_tables I \<Longrightarrow> I x \<Longrightarrow> outcome I (open_existing E flags e n s x)"
  unfolding open_existing_def by (auto intro!: outcome_rules core_rules split: sum.split)

lemma open_create_core: "of_tables I \<Longrightarrow> I x \<Longrightarrow> outcome I (open_create E n s flags m x)"
  unfolding open_create_def
  by (auto intro!: outcome_rules core_rules open_existing_core split: sum.split prod.split)

lemma open_lookup_core: "of_tables I \<Longrightarrow> I x \<Longrightarrow> outcome I (open_lookup E n s flags x)"
  unfolding open_lookup_def by (intro outcome_rules core_rules)

lemma open_check_core: "of_tables I \<Longrightarrow> I x \<Longrightarrow> outcome I (open_check E flags type n x)"
  unfolding open_check_def Let_def by (auto intro!: outcome_rules core_rules)

lemma open_existing_not_new: "open_existing E flags e p nm z \<noteq> Some (Inr (True, n), y)"
  by (auto simp: open_existing_def statusE_Some_iff split: if_splits sum.splits)

lemma open_create_nonzero:
  assumes "open_create E d s flags m x = Some (Inr (True, n), y)"
  shows "n \<noteq> INODE_INVALID"
proof -
  from assms obtain q u where q: "coreP (RedPathToName E d (Some s) RED_EISDIR) x = Some (q, u)"
    and k: "(case q of Inr (p, nm) \<Rightarrow> statusE (coreP (RedCoreCreate E p (Some nm) m)) (\<lambda>ret. case ret of Inr n \<Rightarrow> okE (True, n)
        | Inl e \<Rightarrow> open_existing E flags e p nm)
      | Inl e \<Rightarrow> if e = RED_EISDIR then (if has_flag flags RED_O_EXCL
           then errE (if has_flag flags RED_O_RDONLY then RED_EEXIST else RED_EISDIR) else okE (False, INODE_ROOTDIR))
         else errE e) u = Some (Inr (True, n), y)"
    unfolding open_create_def statusE_Some_iff by blast
  show ?thesis
  proof (cases q)
    case (Inl e)
    then show ?thesis using k by (simp split: if_splits)
  next
    case (Inr pn)
    obtain p nm where pn: "pn = (p, nm)" by (cases pn)
    from k obtain r w where r: "coreP (RedCoreCreate E p (Some nm) m) u = Some (r, w)"
      and l: "(case r of Inr n \<Rightarrow> okE (True, n) | Inl e \<Rightarrow> open_existing E flags e p nm) w = Some (Inr (True, n), y)"
      unfolding Inr pn by (fastforce simp: statusE_Some_iff)
    from l have "r = Inr n" by (cases r) (simp_all add: open_existing_not_new)
    then show ?thesis using r by (auto elim!: coreP_eq_SomeE dest: RedCoreCreate_nonzero)
  qed
qed

lemma open_check_nonzero:
  assumes "open_check E flags type n x = Some (Inr m, y)"
  shows "n \<noteq> INODE_INVALID"
proof -
  from assms have "\<exists>sb u. coreP (RedCoreStat E n) x = Some (Inr sb, u)"
    unfolding open_check_def bindE_Inr_Some by blast
  then show ?thesis by (auto elim!: coreP_eq_SomeE dest: RedCoreStat_nonzero)
qed

lemma open_lookup_existing: "open_lookup E d s flags x = Some (Inr (c, n), y) \<Longrightarrow> \<not> c"
  by (auto simp: open_lookup_def elim: bindE_eq_SomeE)

text \<open>The inode to open, and the checks before it is.\<close>

definition open_target :: "'d env \<Rightarrow> u32 \<Rightarrow> cstr \<Rightarrow> u32 \<Rightarrow> FTYPE \<Rightarrow> u16 \<Rightarrow> ('d, u32 \<times> u16) pop" where
  "open_target E ulDirInode s flags type m =
     bindE (if has_flag flags RED_O_CREAT then open_create E ulDirInode s flags m else open_lookup E ulDirInode s flags)
       (\<lambda>(c, n). bindE (if c then okE m else open_check E flags type n) (\<lambda>m. okE (n, m)))"

lemma open_target_core: "of_tables I \<Longrightarrow> I x \<Longrightarrow> outcome I (open_target E d s flags type m x)"
  unfolding open_target_def
  by (auto intro!: outcome_rules open_create_core open_lookup_core open_check_core split: prod.split)

lemma open_target_nonzero:
  assumes "open_target E d s flags type m x = Some (Inr (n, m'), y)"
  shows "n \<noteq> INODE_INVALID"
proof -
  from assms obtain c u where
    s: "(if has_flag flags RED_O_CREAT then open_create E d s flags m else open_lookup E d s flags) x = Some (Inr (c, n), u)"
    and k: "bindE (if c then okE m else open_check E flags type n) (\<lambda>m. okE (n, m)) u = Some (Inr (n, m'), y)"
    by (fastforce simp: open_target_def bindE_Inr_Some split: prod.splits)
  show ?thesis
  proof (cases c)
    case True
    then show ?thesis using s by (auto split: if_splits dest: open_create_nonzero open_lookup_existing)
  next
    case False
    then show ?thesis using k by (auto simp: bindE_Inr_Some dest: open_check_nonzero)
  qed
qed

lemma FildesOpen_target:
  "FildesOpen E fd path flags type m =
     bindE (PathStartingPoint E fd path) (\<lambda>(_, d, s) x.
     if vol_fReadOnly (gpRedVolume (posix_fs x)) \<and> has_flag flags (RED_O_WRONLY OR RED_O_RDWR OR RED_O_TRUNC)
     then errE RED_EROFS x
     else case HandleFindFree E x of
       (None, y) \<Rightarrow> errE RED_EMFILE y
     | (Some h, y) \<Rightarrow> bindE (open_target E d s flags type m) (\<lambda>(n, m). open_handle E h flags m n) y)"
proof -
  have "bindE f (\<lambda>(c, n). bindE (if c then okE m else open_check E flags type n) (\<lambda>m. open_handle E h flags m n)) =
      bindE (bindE f (\<lambda>(c, n). bindE (if c then okE m else open_check E flags type n) (\<lambda>m. okE (n, m))))
        (\<lambda>(n, m). open_handle E h flags m n)" for f :: "('a, bool \<times> u32) pop" and h
    by (simp add: bindE_assoc split_beta')
  then show ?thesis unfolding FildesOpen_def open_target_def by (simp only:)
qed

lemma FildesOpen_inv [inv_rules]:
  assumes c: "posix_config E" and x: "posix_inv E x"
  shows "outcome (posix_inv E) (FildesOpen E fd path flags type m x)"
proof -
  have open_handle: "outcome (posix_inv E) (open_handle E h flags m n y)"
    if inv: "posix_inv E y" and h: "h < HANDLES E" "h_pOpenIno (gaHandle y h) = None" and n: "n \<noteq> INODE_INVALID" for h m n y
  proof -
    from inv c h n obtain z i where "HandleOpen E h n y = Some (Inr (), z)" "posix_inv E z"
      "h_pOpenIno (gaHandle z h) = Some i" "oi_ulInode (gaOpenInos z i) = n"
      "oi_bVolNum (gaOpenInos z i) = gbRedVolNum (posix_fs y)" "gauGeneration z = gauGeneration y"
      "posix_ist z = posix_ist y" "h_bFlags (gaHandle z h) = h_bFlags (gaHandle y h)" by (rule HandleOpen_inv)
    then show ?thesis
      unfolding open_handle_def Let_def by (simp add: thenE_Inr posix_inv_handle)
  qed
  have target: "outcome (posix_inv E) (bindE (open_target E d s flags type m) (\<lambda>(n, m). open_handle E h flags m n) y)"
    if inv: "posix_inv E y" and h: "h < HANDLES E" "h_pOpenIno (gaHandle y h) = None" for d s h y
    unfolding outcome_def
  proof (intro allI impI)
    fix r z
    let ?J = "\<lambda>y. posix_inv E y \<and> h_pOpenIno (gaHandle y h) = None"
    have J: "outcome ?J (open_target E d s flags type m y)"
      by (rule open_target_core) (use inv h in \<open>simp_all add: of_tables_def\<close>)
    assume "bindE (open_target E d s flags type m) (\<lambda>(n, m). open_handle E h flags m n) y = Some (r, z)"
    then show "posix_inv E z"
    proof (cases rule: bindE_eq_SomeE)
      case (err e)
      then show ?thesis using J by (auto dest: outcomeD)
    next
      case (ok p u)
      obtain n m' where p: "p = (n, m')" by (cases p)
      have "?J u" using outcomeD [OF J ok(1)] .
      moreover have "n \<noteq> INODE_INVALID" using ok(1) unfolding p by (rule open_target_nonzero)
      ultimately have "outcome (posix_inv E) (open_handle E h flags m' n u)" using open_handle h(1) by simp
      then show ?thesis using ok(2) p by (auto dest: outcomeD)
    qed
  qed
  have inner: "outcome (posix_inv E) (case HandleFindFree E y of (None, y) \<Rightarrow> errE RED_EMFILE y
       | (Some h, y) \<Rightarrow> bindE (open_target E d s flags type m) (\<lambda>(n, m). open_handle E h flags m n) y)"
    if "posix_inv E y" for y d s
    using HandleFindFree_inv [OF that] target by (auto simp: outcome_basic split: prod.split option.split)
  show ?thesis
    unfolding FildesOpen_target
  proof (rule outcome_bindE)
    show "outcome (posix_inv E) (PathStartingPoint E fd path x)" by (rule outcome_PathStartingPoint) (simp_all add: x)
    fix v :: "u8 \<times> u32 \<times> cstr" and y assume y: "posix_inv E y"
    obtain a d s where v: "v = (a, d, s)" by (cases v)
    from inner [OF y, of d s] y show "outcome (posix_inv E) ((case v of (_, d, s) \<Rightarrow> \<lambda>x.
        if vol_fReadOnly (gpRedVolume (posix_fs x)) \<and> has_flag flags (RED_O_WRONLY OR RED_O_RDWR OR RED_O_TRUNC)
        then errE RED_EROFS x
        else case HandleFindFree E x of (None, y) \<Rightarrow> errE RED_EMFILE y
          | (Some h, y) \<Rightarrow> bindE (open_target E d s flags type m) (\<lambda>(n, m). open_handle E h flags m n) y) y)"
      unfolding v by (auto simp: outcome_basic)
  qed
qed

section \<open>The operations of the interface\<close>

lemma posix_inv_dirent [simp]: "posix_inv E (upd_dirent h f x) = posix_inv E x"
  by (simp add: upd_dirent_def posix_inv_handle)

lemma posix_inv_handle_parts [simp]:
  "posix_inv E (upd_handle h (h_ullFileOffset_update f) x) = posix_inv E x"
  "posix_inv E (upd_handle h (set_ulDirPosition v) x) = posix_inv E x"
  by (simp_all add: posix_inv_handle set_ulDirPosition_def)

lemma posix_inv_oi_parts [simp]:
  "posix_inv E (upd_oi i (oi_bFlags_update f) x) = posix_inv E x"
  "posix_inv E (upd_oi i (oi_ullResOff_update g) x) = posix_inv E x"
  "posix_inv E (upd_oi i (\<lambda>oi. oi\<lparr>oi_bFlags := b oi, oi_ullResOff := r oi\<rparr>) x) = posix_inv E x"
  by (simp_all add: posix_inv_oi)

lemma posix_inv_clear [simp]: "posix_inv E (clear_reserved i x) = posix_inv E x"
  by (simp add: clear_reserved_def)

lemma posix_inv_orphaned [simp]: "posix_inv E (InodeOrphaned E n x) = posix_inv E x"
  by (simp add: InodeOrphaned_def split: prod.split option.split)

lemma outcome_InodeUnlinkCheck [inv_rules]: "of_tables I \<Longrightarrow> I x \<Longrightarrow> outcome I (InodeUnlinkCheck E n x)"
  by (auto simp: InodeUnlinkCheck_def intro!: outcome_rules core_rules split: prod.split option.split)

lemma outcome_unlink_orphans [inv_rules]: "of_tables I \<Longrightarrow> I x \<Longrightarrow> outcome I (unlink_orphans E n x)"
  unfolding unlink_orphans_def by (intro outcome_rules inv_rules)

lemma outcome_FildesClose [inv_rules]: "posix_inv E x \<Longrightarrow> outcome (posix_inv E) (FildesClose E fd x)"
  unfolding FildesClose_def by (intro outcome_rules inv_rules HandleClose_inv)

lemma chdir_to_inv [inv_rules]:
  assumes c: "posix_config E" "REDCONF_API_POSIX_CWD E" and x: "posix_inv E x" and n: "n \<noteq> INODE_INVALID"
  shows "outcome (posix_inv E) (chdir_to E v n x)"
proof (cases "self_cwd E x")
  case None
  then show ?thesis by (simp add: chdir_to_def bindE_None outcome_def)
next
  case (Some p)
  show ?thesis
  proof (cases "TaskFindSelf E x")
    case None
    then show ?thesis using x by (simp add: chdir_to_def bindE_Inl self_cwd_def outcome_def)
  next
    case (Some t)
    have t: "t < TASKS E"
    proof (cases "REDCONF_TASK_COUNT E > 1")
      case True
      then show ?thesis using Some by (simp add: TaskFindSelf_def TaskFind_less)
    next
      case False
      then have "t = 0" using Some by (simp add: TaskFindSelf_def)
      then show ?thesis using c(1) by (simp add: posix_config_def TASKS_def unat_gt_0)
    qed
    show ?thesis
    proof (cases "ts_pCwd (gaTask x t)")
      case None
      then show ?thesis using Some x by (simp add: chdir_to_def bindE_Inl self_cwd_def outcome_def)
    next
      case (Some i)
      then have "self_cwd E x = Some (Inr (t, i), x)" using \<open>TaskFindSelf E x = Some t\<close> by (simp add: self_cwd_def)
      then have "chdir_to E v n x = thenE (OpenInoDeref E i True False) (\<lambda>x. cwd_ref E t v n x) x"
        by (simp add: chdir_to_def bindE_Inr cwd_ref_def)
      then show ?thesis using cwd_move_inv [OF x c t n Some, of True False "\<lambda>_. v"] by simp
    qed
  qed
qed

text \<open>The loops that read directories only write the name that they look at.\<close>

definition ends_in :: "('d posix \<Rightarrow> bool) \<Rightarrow> 'd posix \<Rightarrow> (rederr + 'a) \<times> 'd posix \<Rightarrow> bool" where
  "ends_in I x v \<longleftrightarrow> (I x \<longrightarrow> I (snd v))"

lemma outcome_ends_in: "(\<And>v. f x = Some v \<Longrightarrow> ends_in I x v) \<Longrightarrow> I x \<Longrightarrow> outcome I (f x)"
  by (auto simp: outcome_def ends_in_def)

lemma outcome_ends_inD: "outcome I w \<Longrightarrow> w = Some v \<Longrightarrow> I (snd v)"
  by (cases v) (auto simp: outcome_def)

lemma name_turn_inv: "posix_inv E x \<Longrightarrow> outcome (posix_inv E) (name_turn E p pos x)"
  unfolding name_turn_def missing_is_fatal_def
  by (auto intro!: outcome_rules core_rules split: prod.split)

lemma name_search_ends: "name_search E p n pos x = Some v \<Longrightarrow> ends_in (posix_inv E) x v"
proof (rule name_search.raw_induct [of "\<lambda>E p n pos x v. ends_in (posix_inv E) x v" "((((E, p), n), pos), x)" v, unfolded prod.case])
  fix ns :: "'a env \<Rightarrow> u32 \<Rightarrow> u32 \<Rightarrow> u32 \<Rightarrow> ('a, unit) pop" and E p n pos x v
  assume IH: "\<And>E p n pos x v. ns E p n pos x = Some v \<Longrightarrow> ends_in (posix_inv E) x v"
    and run: "bindE (name_turn E p pos) (\<lambda>q x. if fst q = n then okE () x else ns E p n (snd q) x) x = Some v"
  have "outcome (posix_inv E) (bindE (name_turn E p pos) (\<lambda>q x. if fst q = n then okE () x else ns E p n (snd q) x) x)"
    if "posix_inv E x"
    by (intro outcome_rules name_turn_inv that, assumption, rule outcome_ends_in [OF IH])
  from outcome_ends_inD [OF this run] show "ends_in (posix_inv E) x v" by (simp add: ends_in_def)
qed

lemma name_search_inv [inv_rules]: "posix_inv E x \<Longrightarrow> outcome (posix_inv E) (name_search E p n pos x)"
  by (rule outcome_ends_in [OF name_search_ends])

lemma path_turn_inv: "posix_inv E x \<Longrightarrow> outcome (posix_inv E) (path_turn E d bs n l b x)"
  unfolding path_turn_def Let_def by (intro outcome_rules core_rules inv_rules) simp_all

lemma path_up_ends: "path_up E d bs n l b x = Some v \<Longrightarrow> ends_in (posix_inv E) x v"
proof (rule path_up.raw_induct [of "\<lambda>E d bs n l b x v. ends_in (posix_inv E) x v" "((((((E, d), bs), n), l), b), x)" v, unfolded prod.case])
  fix pu :: "'a env \<Rightarrow> u32 \<Rightarrow> u32 \<Rightarrow> u32 \<Rightarrow> u32 \<Rightarrow> bytes \<Rightarrow> ('a, u32 \<times> bytes) pop" and E d bs n l b x v
  let ?f = "\<lambda>x. if n = INODE_ROOTDIR then okE (l, b) x
      else bindE (path_turn E d bs n l b) (\<lambda>v x. pu E d bs (fst v) (fst (snd v)) (snd (snd v)) x) x"
  assume IH: "\<And>E d bs n l b x v. pu E d bs n l b x = Some v \<Longrightarrow> ends_in (posix_inv E) x v"
    and run: "?f x = Some v"
  have "outcome (posix_inv E) (?f x)" if "posix_inv E x"
    by (intro outcome_rules path_turn_inv that, rule outcome_ends_in [OF IH])
  from outcome_ends_inD [OF this run] show "ends_in (posix_inv E) x v" by (simp add: ends_in_def)
qed

lemma path_up_inv [inv_rules]: "posix_inv E x \<Longrightarrow> outcome (posix_inv E) (path_up E d bs n l b x)"
  by (rule outcome_ends_in [OF path_up_ends])

section \<open>Calls of the interface\<close>

text \<open>
  The functions of the interface with their arguments. The functions that only pass fixed arguments to one
  of them, such as \<^const>\<open>red_open\<close>, are instances.
\<close>

datatype volume_call =
    C_init | C_uninit | C_taskregister u32 | C_taskunregister u32
  | C_sync | C_mount2 "cstr option" u32 | C_umount2 "cstr option" u32 | C_format2 "cstr option" "REDFMTOPT option"
  | C_transact "cstr option" | C_rollback "cstr option" | C_settransmask "cstr option" u32 | C_gettransmask "cstr option"
  | C_statvfs "cstr option" | C_freeorphans "cstr option" u32

datatype name_call =
    C_symlink "cstr option" "cstr option" | C_readlink "cstr option" u32 bytes
  | C_unlinkat int "cstr option" u32 | C_mkdirat int "cstr option" u16
  | C_renameat int "cstr option" int "cstr option" | C_linkat int "cstr option" int "cstr option" u32
  | C_fchmodat int "cstr option" u16 u32 | C_fchmod int u16
  | C_fchownat int "cstr option" u32 u32 u32 | C_fchown int u32 u32
  | C_utimesat int "cstr option" "(u32 \<times> u32) option" u32 | C_futimes int "(u32 \<times> u32) option"
  | C_fstatat int "cstr option" u32 | C_fstat int

datatype file_call =
    C_openat int "cstr option" u32 u16 | C_close int
  | C_read int bytes u32 | C_pread int bytes u32 u64 | C_write int bytes u32 | C_pwrite int bytes u32 u64
  | C_fsync int | C_lseek int int REDWHENCE | C_ftruncate int u64 | C_freserve int u64

datatype dir_call =
    C_opendir "cstr option" | C_fdopendir int | C_readdir nat | C_seekdir nat u32 | C_telldir nat | C_closedir nat
  | C_chdir "cstr option" | C_getcwd bytes u32 | C_getdirpath int bytes u32 u32

datatype posix_call = VOLUME volume_call | NAME name_call | FILE file_call | DIR dir_call

definition runs :: "('d, 'a) pop \<Rightarrow> ('d, unit) pop" where
  "runs f = bindE f (\<lambda>_. okE ())"

lemma outcome_runs [inv_rules]: "outcome I (f x) \<Longrightarrow> outcome I (runs f x)"
  unfolding runs_def by (rule outcome_bindE) (simp_all add: outcome_def)

text \<open>A call, where the working directory functions are only there when they are compiled in.\<close>

fun run_volume :: "'d env \<Rightarrow> volume_call \<Rightarrow> ('d, unit) pop" where
  "run_volume E C_init = red_init E"
| "run_volume E C_uninit = red_uninit E"
| "run_volume E (C_taskregister n) = red_taskregister E n"
| "run_volume E (C_taskunregister n) = red_taskunregister E n"
| "run_volume E C_sync = red_sync E"
| "run_volume E (C_mount2 v fl) = red_mount2 E v fl"
| "run_volume E (C_umount2 v fl) = red_umount2 E v fl"
| "run_volume E (C_format2 v op) = red_format2 E v op"
| "run_volume E (C_transact v) = red_transact E v"
| "run_volume E (C_rollback v) = red_rollback E v"
| "run_volume E (C_settransmask v m) = red_settransmask E v m"
| "run_volume E (C_gettransmask v) = runs (red_gettransmask E v)"
| "run_volume E (C_statvfs v) = runs (red_statvfs E v)"
| "run_volume E (C_freeorphans v n) = runs (red_freeorphans E v n)"

fun run_name :: "'d env \<Rightarrow> name_call \<Rightarrow> ('d, unit) pop" where
  "run_name E (C_symlink p l) = red_symlink E p l"
| "run_name E (C_readlink p n b) = runs (red_readlink E p n b)"
| "run_name E (C_unlinkat d p fl) = red_unlinkat E d p fl"
| "run_name E (C_mkdirat d p m) = red_mkdirat E d p m"
| "run_name E (C_renameat d p d' p') = red_renameat E d p d' p'"
| "run_name E (C_linkat d p d' p' fl) = red_linkat E d p d' p' fl"
| "run_name E (C_fchmodat d p m fl) = red_fchmodat E d p m fl"
| "run_name E (C_fchmod f m) = red_fchmod E f m"
| "run_name E (C_fchownat d p u g fl) = red_fchownat E d p u g fl"
| "run_name E (C_fchown f u g) = red_fchown E f u g"
| "run_name E (C_utimesat d p ts fl) = red_utimesat E d p ts fl"
| "run_name E (C_futimes f ts) = red_futimes E f ts"
| "run_name E (C_fstatat d p fl) = runs (red_fstatat E d p fl)"
| "run_name E (C_fstat f) = runs (red_fstat E f)"

fun run_file :: "'d env \<Rightarrow> file_call \<Rightarrow> ('d, unit) pop" where
  "run_file E (C_openat d p fl m) = runs (red_openat E d p fl m)"
| "run_file E (C_close f) = red_close E f"
| "run_file E (C_read f b n) = runs (red_read E f b n)"
| "run_file E (C_pread f b n off) = runs (red_pread E f b n off)"
| "run_file E (C_write f b n) = runs (red_write E f b n)"
| "run_file E (C_pwrite f b n off) = runs (red_pwrite E f b n off)"
| "run_file E (C_fsync f) = red_fsync E f"
| "run_file E (C_lseek f off w) = runs (red_lseek E f off w)"
| "run_file E (C_ftruncate f n) = red_ftruncate E f n"
| "run_file E (C_freserve f n) = red_freserve E f n"

fun run_dir :: "'d env \<Rightarrow> dir_call \<Rightarrow> ('d, unit) pop" where
  "run_dir E (C_opendir p) = runs (red_opendir E p)"
| "run_dir E (C_fdopendir f) = runs (red_fdopendir E f)"
| "run_dir E (C_readdir d) = runs (red_readdir E d)"
| "run_dir E (C_seekdir d pos) = red_seekdir E d pos"
| "run_dir E (C_telldir d) = runs (red_telldir E d)"
| "run_dir E (C_closedir d) = red_closedir E d"
| "run_dir E (C_chdir p) = (if REDCONF_API_POSIX_CWD E then red_chdir E p else okE ())"
| "run_dir E (C_getcwd b n) = (if REDCONF_API_POSIX_CWD E then runs (red_getcwd E b n) else okE ())"
| "run_dir E (C_getdirpath f b n fl) = runs (red_getdirpath E f b n fl)"

definition run_call :: "'d env \<Rightarrow> posix_call \<Rightarrow> ('d, unit) pop" where
  "run_call E c = (case c of VOLUME v \<Rightarrow> run_volume E v | NAME n \<Rightarrow> run_name E n | FILE f \<Rightarrow> run_file E f | DIR d \<Rightarrow> run_dir E d)"

inductive calls :: "'d env \<Rightarrow> 'd posix \<Rightarrow> 'd posix \<Rightarrow> bool" for E :: "'d env" where
  calls_refl: "calls E x x"
| calls_step: "calls E x y \<Longrightarrow> run_call E c y = Some (r, z) \<Longrightarrow> calls E x z"

inductive_cases calls_stepE: "calls E x y"

text \<open>Operations on volumes and on the names and attributes of files.\<close>

lemma volume_ops_inv:
  assumes "posix_config E" "posix_inv E x"
  shows "outcome (posix_inv E) (red_init E x)"
    and "outcome (posix_inv E) (red_uninit E x)"
    and "outcome (posix_inv E) (red_sync E x)"
    and "outcome (posix_inv E) (red_mount2 E v fl x)"
    and "outcome (posix_inv E) (red_umount2 E v fl x)"
    and "outcome (posix_inv E) (red_format2 E v opt x)"
    and "outcome (posix_inv E) (red_transact E v x)"
    and "outcome (posix_inv E) (red_rollback E v x)"
    and "outcome (posix_inv E) (red_settransmask E v m x)"
    and "outcome (posix_inv E) (red_gettransmask E v x)"
    and "outcome (posix_inv E) (red_statvfs E v x)"
    and "outcome (posix_inv E) (red_freeorphans E v n x)"
  subgoal unfolding red_init_def
    by (intro outcome_rules inv_rules core_rules) (simp_all add: assms zero_tables_inv)
  subgoal unfolding red_uninit_def by (intro outcome_rules inv_rules core_rules) (simp_all add: assms)
  subgoal unfolding red_sync_def by (intro outcome_rules inv_rules core_rules) (simp_all add: assms)
  subgoal unfolding red_mount2_def Let_def by (intro outcome_rules inv_rules core_rules) (simp_all add: assms)
  subgoal unfolding red_umount2_def by (intro outcome_rules inv_rules core_rules) (simp_all add: assms)
  subgoal unfolding red_format2_def by (intro outcome_rules inv_rules core_rules) (simp_all add: assms)
  subgoal unfolding red_transact_def by (intro outcome_rules inv_rules core_rules) (simp_all add: assms)
  subgoal unfolding red_rollback_def by (intro outcome_rules inv_rules core_rules) (simp_all add: assms)
  subgoal unfolding red_settransmask_def by (intro outcome_rules inv_rules core_rules) (simp_all add: assms)
  subgoal unfolding red_gettransmask_def by (intro outcome_rules inv_rules core_rules) (simp_all add: assms)
  subgoal unfolding red_statvfs_def by (intro outcome_rules inv_rules core_rules) (simp_all add: assms)
  subgoal unfolding red_freeorphans_def
    by (auto intro!: outcome_rules inv_rules core_rules simp: assms split: sum.split)
  done

lemma task_ops_inv:
  assumes "posix_config E" "posix_inv E x"
  shows "outcome (posix_inv E) (red_taskregister E n x)" and "outcome (posix_inv E) (red_taskunregister E n x)"
proof -
  show "outcome (posix_inv E) (red_taskregister E n x)"
    using TaskRegister_inv [of E "this_task E n x" x] assms(2)
    by (auto simp: red_taskregister_def outcome_def split: prod.splits option.splits)
  show "outcome (posix_inv E) (red_taskunregister E n x)"
    unfolding red_taskunregister_def by (intro outcome_rules inv_rules) (simp_all add: assms)
qed

lemma on_path_flags_inv [inv_rules]: "posix_inv E x \<Longrightarrow> outcome (posix_inv E) (on_path_flags E d p fl f x)"
  unfolding on_path_flags_def by (intro outcome_rules inv_rules core_rules) simp_all

lemma on_open_inode_inv [inv_rules]: "posix_inv E x \<Longrightarrow> outcome (posix_inv E) (on_open_inode E fd f x)"
  unfolding on_open_inode_def by (intro outcome_rules inv_rules core_rules) simp_all

lemma unlink_at_inv [inv_rules]: "posix_inv E x \<Longrightarrow> outcome (posix_inv E) (unlink_at E fl p s x)"
  unfolding unlink_at_def must_be_directory_def Let_def by (intro outcome_rules inv_rules core_rules) simp_all

lemma rename_names_inv [inv_rules]: "posix_inv E x \<Longrightarrow> outcome (posix_inv E) (rename_names E p s p' s' x)"
  unfolding rename_names_def rename_replaced_def Let_def
  by (auto intro!: outcome_rules inv_rules core_rules split: sum.split prod.split)

lemma write_link_inv [inv_rules]: "posix_inv E x \<Longrightarrow> outcome (posix_inv E) (write_link E n s x)"
  unfolding write_link_def Let_def by (intro outcome_rules inv_rules core_rules) simp_all

lemma name_ops_inv:
  assumes "posix_config E" "posix_inv E x"
  shows "outcome (posix_inv E) (red_symlink E p l x)"
    and "outcome (posix_inv E) (red_readlink E p n b x)"
    and "outcome (posix_inv E) (red_unlinkat E d p fl x)"
    and "outcome (posix_inv E) (red_mkdirat E d p m x)"
    and "outcome (posix_inv E) (red_renameat E d p d' p' x)"
    and "outcome (posix_inv E) (red_linkat E d p d' p' fl x)"
  subgoal unfolding red_symlink_def by (auto intro!: outcome_rules inv_rules core_rules simp: assms split: option.split)
  subgoal unfolding red_readlink_def must_be_link_def Let_def
    by (intro outcome_rules inv_rules core_rules) (simp_all add: assms)
  subgoal unfolding red_unlinkat_def by (intro outcome_rules inv_rules core_rules) (simp_all add: assms)
  subgoal unfolding red_mkdirat_def by (intro outcome_rules inv_rules core_rules) (simp_all add: assms)
  subgoal unfolding red_renameat_def by (auto intro!: outcome_rules inv_rules core_rules simp: assms split: prod.split)
  subgoal unfolding red_linkat_def by (auto intro!: outcome_rules inv_rules core_rules simp: assms split: prod.split)
  done

text \<open>Operations on descriptors and directory streams.\<close>

lemma reservation_inv [inv_rules]:
  assumes "posix_inv E x"
  shows "outcome (posix_inv E) (write_size E h i b x)"
    and "outcome (posix_inv E) (write_data E i off sz n buf x)"
    and "outcome (posix_inv E) (write_reserved E i sz n x)"
    and "outcome (posix_inv E) (reserve_from_end E i sz x)"
    and "outcome (posix_inv E) (advance h n x)"
  subgoal unfolding write_size_def Let_def by (intro outcome_rules inv_rules core_rules) (simp_all add: assms)
  subgoal unfolding write_data_def Let_def by (intro outcome_rules inv_rules core_rules) (simp_all add: assms)
  subgoal unfolding write_reserved_def by (intro outcome_rules inv_rules core_rules) (simp_all add: assms)
  subgoal unfolding reserve_from_end_def by (intro outcome_rules inv_rules core_rules) (simp_all add: assms)
  subgoal unfolding advance_def by (intro outcome_rules) (simp add: assms)
  done

lemma seek_from_inv [inv_rules]: "posix_inv E x \<Longrightarrow> outcome (posix_inv E) (seek_from E h i w x)"
  unfolding seek_from_def by (cases w) (auto intro!: outcome_rules inv_rules core_rules)

lemma file_ops_inv:
  assumes "posix_config E" "posix_inv E x"
  shows "outcome (posix_inv E) (red_openat E d p fl m x)"
    and "outcome (posix_inv E) (red_close E fd x)"
    and "outcome (posix_inv E) (ReadSub E fd b n pr off x)"
    and "outcome (posix_inv E) (WriteSub E fd b n pr off x)"
    and "outcome (posix_inv E) (red_fsync E fd x)"
    and "outcome (posix_inv E) (red_lseek E fd pos w x)"
    and "outcome (posix_inv E) (red_ftruncate E fd sz x)"
    and "outcome (posix_inv E) (red_freserve E fd sz x)"
  subgoal unfolding red_openat_def Let_def by (intro outcome_rules inv_rules) (simp_all add: assms)
  subgoal unfolding red_close_def by (intro outcome_rules inv_rules) (simp_all add: assms)
  subgoal unfolding ReadSub_def by (auto intro!: outcome_rules inv_rules core_rules simp: assms split: prod.split)
  subgoal unfolding WriteSub_def by (intro outcome_rules inv_rules core_rules) (simp_all add: assms)
  subgoal unfolding red_fsync_def by (intro outcome_rules inv_rules core_rules) (simp_all add: assms)
  subgoal unfolding red_lseek_def by (intro outcome_rules inv_rules core_rules) (simp_all add: assms)
  subgoal unfolding red_ftruncate_def by (intro outcome_rules inv_rules core_rules) (simp_all add: assms)
  subgoal unfolding red_freserve_def by (intro outcome_rules inv_rules core_rules) (simp_all add: assms)
  done

lemma read_entry_inv [inv_rules]: "posix_inv E x \<Longrightarrow> outcome (posix_inv E) (read_entry E h x)"
  unfolding read_entry_def
  by (auto intro!: outcome_rules inv_rules core_rules split: prod.split sum.split)

lemma red_chdir_inv:
  assumes "posix_config E" "REDCONF_API_POSIX_CWD E" "posix_inv E x"
  shows "outcome (posix_inv E) (red_chdir E p x)"
proof -
  let ?dir = "\<lambda>n. if n = INODE_ROOTDIR then okE ()
      else bindE (coreP (RedCoreStat E n)) (\<lambda>sb.
        if RED_S_ISDIR (REDCONF_API_POSIX_SYMLINK E) (st_mode sb) then okE () else errE RED_ENOTDIR)"
  have move: "outcome (posix_inv E) (thenE (?dir n) (chdir_to E v n) y)" if y: "posix_inv E y" for v n y
    unfolding outcome_def
  proof (intro allI impI)
    fix r z
    have dir: "outcome (posix_inv E) (?dir n y)" by (intro outcome_rules core_rules) (simp_all add: y)
    assume "thenE (?dir n) (chdir_to E v n) y = Some (r, z)"
    then show "posix_inv E z"
    proof (cases rule: thenE_eq_SomeE)
      case (err e)
      show ?thesis by (rule outcomeD [OF dir err(1)])
    next
      case (ok w u)
      have "n \<noteq> INODE_INVALID"
      proof (cases "n = INODE_ROOTDIR")
        case False
        with ok(1) obtain sb u' where "coreP (RedCoreStat E n) y = Some (Inr sb, u')" by (auto simp: bindE_Inr_Some)
        then show ?thesis by (auto elim!: coreP_eq_SomeE dest: RedCoreStat_nonzero)
      qed simp
      then show ?thesis by (rule outcomeD [OF chdir_to_inv [OF assms(1,2) outcomeD [OF dir ok(1)]] ok(2)])
    qed
  qed
  have "outcome (posix_inv E) ((case v of (a, d, s) \<Rightarrow> bindE (coreP (RedPathLookup E d (Some s) 0)) (\<lambda>n. thenE (?dir n) (chdir_to E a n))) y)"
    if "posix_inv E y" for v y
    by (cases v) (simp only: prod.case, intro outcome_rules core_rules move, simp_all add: that)
  then show ?thesis
    unfolding red_chdir_def by (intro in_posix_inv outcome_bindE outcome_PathStartingPoint) (simp_all add: assms(3))
qed

lemma stream_position_inv:
  assumes "posix_inv E x"
  shows "outcome (posix_inv E) (red_seekdir E h pos x)" and "outcome (posix_inv E) (red_telldir E h x)"
  subgoal unfolding red_seekdir_def by (intro outcome_rules inv_rules) (simp_all add: assms)
  subgoal unfolding red_telldir_def by (intro outcome_rules inv_rules) (simp_all add: assms)
  done

lemma dir_ops_inv:
  assumes "posix_config E" "posix_inv E x"
  shows "outcome (posix_inv E) (red_opendir E p x)"
    and "outcome (posix_inv E) (red_fdopendir E fd x)"
    and "outcome (posix_inv E) (red_readdir E h x)"
    and "outcome (posix_inv E) (red_closedir E h x)"
    and "outcome (posix_inv E) (red_getcwd E b n x)"
    and "outcome (posix_inv E) (red_getdirpath E fd b n fl x)"
proof -
  have path: "outcome (posix_inv E) (DirInodeToPath E n' b n fl y)" if "posix_inv E y" for n' b n fl y
    unfolding DirInodeToPath_def prepend_volume_def Let_def using that
    by (auto intro!: outcome_rules inv_rules core_rules split: prod.split)
  show "outcome (posix_inv E) (red_opendir E p x)"
    unfolding red_opendir_def by (intro outcome_rules inv_rules) (simp_all add: assms)
  show "outcome (posix_inv E) (red_fdopendir E fd x)"
    unfolding red_fdopendir_def by (intro outcome_rules inv_rules) (simp_all add: assms)
  show "outcome (posix_inv E) (red_readdir E h x)"
    unfolding red_readdir_def by (intro outcome_rules inv_rules) (simp_all add: assms)
  show "outcome (posix_inv E) (red_closedir E h x)"
    unfolding red_closedir_def by (intro outcome_rules inv_rules HandleClose_inv) (simp_all add: assms)
  show "outcome (posix_inv E) (red_getcwd E b n x)"
    unfolding red_getcwd_def by (auto intro!: outcome_rules inv_rules core_rules path simp: assms split: prod.split)
  show "outcome (posix_inv E) (red_getdirpath E fd b n fl x)"
    unfolding red_getdirpath_def by (intro outcome_rules inv_rules core_rules path) (simp_all add: assms)
qed

section \<open>Sequences of calls\<close>

lemma run_call_inv:
  assumes "posix_config E" "posix_inv E x"
  shows "outcome (posix_inv E) (run_call E c x)"
proof (cases c)
  case (VOLUME v)
  then show ?thesis unfolding run_call_def
    by (cases v) (simp_all add: volume_ops_inv task_ops_inv outcome_runs assms)
next
  case (NAME n)
  then show ?thesis unfolding run_call_def
    by (cases n) (simp_all add: name_ops_inv outcome_runs assms on_path_flags_inv on_open_inode_inv red_fchmodat_def
        red_fchmod_def red_fchownat_def red_fchown_def red_utimesat_def red_futimes_def red_fstatat_def red_fstat_def)
next
  case (FILE f)
  then show ?thesis unfolding run_call_def
    by (cases f) (simp_all add: file_ops_inv outcome_runs assms red_read_def red_pread_def red_write_def red_pwrite_def)
next
  case (DIR d)
  then show ?thesis unfolding run_call_def
    by (cases d) (simp_all add: dir_ops_inv stream_position_inv red_chdir_inv outcome_runs outcome_basic assms)
qed

text \<open>The static variables are zero before the first call.\<close>

definition posix_initial :: "'d posix \<Rightarrow> bool" where
  "posix_initial x \<longleftrightarrow> \<not> gfPosixInited x \<and> gaHandle x = (\<lambda>_. redhandle_zero) \<and> gaOpenInos x = (\<lambda>_. openinode_zero) \<and>
     gaTask x = (\<lambda>_. taskslot_zero)"

lemma posix_initial_inv: "posix_config E \<Longrightarrow> posix_initial x \<Longrightarrow> posix_inv E x"
  using zero_tables_inv [of E x] by (cases x) (simp add: posix_initial_def)

lemma calls_inv:
  assumes "calls E x y" "posix_config E" "posix_inv E x"
  shows "posix_inv E y"
  using assms(1,3) by induction (auto dest: outcomeD [OF run_call_inv [OF assms(2)]])

text \<open>
  C2. After any calls of the interface from its start, every open inode is counted exactly as often as handles
  and working directories point to it, it is free exactly when nothing points to it, every pointer
  is to an open inode, and no two open inodes are for one file.
\<close>

theorem calls_keep_references:
  assumes "posix_config E" "posix_initial x" "calls E x y"
  shows "(\<forall>i < OPEN_INODE_COUNT E.
       unat (oi_uRefs (gaOpenInos y i)) = card {a. a < OPEN_INODE_COUNT E \<and> slot_ptr E y a = Some i} \<and>
       (oi_ulInode (gaOpenInos y i) = INODE_INVALID \<longleftrightarrow> (\<forall>a < OPEN_INODE_COUNT E. slot_ptr E y a \<noteq> Some i)) \<and>
       (\<forall>j < OPEN_INODE_COUNT E. oi_ulInode (gaOpenInos y i) \<noteq> INODE_INVALID \<longrightarrow>
          oi_ulInode (gaOpenInos y i) = oi_ulInode (gaOpenInos y j) \<longrightarrow>
          oi_bVolNum (gaOpenInos y i) = oi_bVolNum (gaOpenInos y j) \<longrightarrow> i = j)) \<and>
     (\<forall>a < OPEN_INODE_COUNT E. \<forall>i. slot_ptr E y a = Some i \<longrightarrow> i < OPEN_INODE_COUNT E)"
proof -
  have "posix_inv E y" using assms posix_initial_inv calls_inv by blast
  then have ok: "oi_table_ok E (gaOpenInos y) (slot_ptr E y)" by (simp add: posix_inv_def)
  note parts = table_parts [OF ok]
  have count: "unat (oi_uRefs (gaOpenInos y i)) = card {a. a < OPEN_INODE_COUNT E \<and> slot_ptr E y a = Some i}"
    if "i < OPEN_INODE_COUNT E" for i
    using parts(1) that by (simp add: counted_def)
  have free: "oi_ulInode (gaOpenInos y i) = INODE_INVALID \<longleftrightarrow> (\<forall>a < OPEN_INODE_COUNT E. slot_ptr E y a \<noteq> Some i)"
    if "i < OPEN_INODE_COUNT E" for i
  proof -
    let ?A = "{a. a < OPEN_INODE_COUNT E \<and> slot_ptr E y a = Some i}"
    have "oi_ulInode (gaOpenInos y i) = INODE_INVALID \<longleftrightarrow> card ?A = 0"
      by (simp only: count [OF that, symmetric] parts(2) [OF that, symmetric] unat_eq_zero)
    also have "\<dots> \<longleftrightarrow> ?A = {}" by simp
    finally show ?thesis by auto
  qed
  show ?thesis using count free parts(1,3) counted_index by blast
qed

text \<open>
  C4. Whatever calls were made, a handle that is free can be opened on any file: the function never
  reports that the table of open inodes is full, and the handle then points to an open inode of
  the file on the current volume.
\<close>

theorem calls_keep_handles_openable:
  assumes "posix_config E" "posix_initial x" "calls E x y"
    and "h < HANDLES E" "h_pOpenIno (gaHandle y h) = None" "ulInode \<noteq> INODE_INVALID"
  shows "\<exists>z i. HandleOpen E h ulInode y = Some (Inr (), z) \<and> h_pOpenIno (gaHandle z h) = Some i \<and>
     oi_ulInode (gaOpenInos z i) = ulInode \<and> oi_bVolNum (gaOpenInos z i) = gbRedVolNum (posix_fs y)"
proof -
  have "posix_inv E y" using assms(1-3) posix_initial_inv calls_inv by blast
  from HandleOpen_inv [OF this assms(1,4,5,6)] show ?thesis by metis
qed

section \<open>The properties on a concrete state\<close>

lemma demo_posix_config: "posix_config demo_posix_env"
  by (simp add: posix_config_def demo_posix_slots) (simp add: demo_posix_env_def demo_env_def)

lemma demo_posix_initial: "posix_initial demo_posix"
  by (simp add: posix_initial_def demo_posix_def)

lemma demo_first_call:
  obtains y where "calls demo_posix_env demo_posix y" "oi_ulInode (gaOpenInos y 0) = INODE_ROOTDIR"
    "oi_uRefs (gaOpenInos y 0) = 1" "gaHandle y = (\<lambda>_. redhandle_zero)"
proof -
  obtain st where "run_call demo_posix_env (VOLUME C_init) demo_posix = Some (Inr (), demo_posix\<lparr>gfPosixInited := True, posix_ist := st,
     gaOpenInos := (gaOpenInos demo_posix)(0 := openinode_zero\<lparr>oi_ulInode := INODE_ROOTDIR, oi_uRefs := 1\<rparr>),
     gaTask := (gaTask demo_posix)(0 := taskslot_zero\<lparr>ts_pCwd := Some 0\<rparr>)\<rparr>)" (is "_ = Some (_, ?y)")
    using demo_init by (auto simp: run_call_def)
  then have "calls demo_posix_env demo_posix ?y" using calls.intros by blast
  then show thesis by (rule that) (simp_all add: demo_posix_def)
qed

text \<open>After the first call the working directory of the task is the only reference.\<close>

lemma calls_keep_references_witness:
  "\<exists>y. calls demo_posix_env demo_posix y \<and> oi_ulInode (gaOpenInos y 0) = INODE_ROOTDIR \<and>
     card {a. a < 11 \<and> slot_ptr demo_posix_env y a = Some 0} = 1"
proof -
  obtain y where y: "calls demo_posix_env demo_posix y" and "oi_ulInode (gaOpenInos y 0) = INODE_ROOTDIR"
    "oi_uRefs (gaOpenInos y 0) = 1" "gaHandle y = (\<lambda>_. redhandle_zero)" by (rule demo_first_call)
  moreover have "\<forall>i < 11. unat (oi_uRefs (gaOpenInos y i)) = card {a. a < 11 \<and> slot_ptr demo_posix_env y a = Some i}"
    using calls_keep_references [OF demo_posix_config demo_posix_initial y] unfolding demo_posix_slots by blast
  ultimately show ?thesis by (intro exI [of _ y]) (drule spec [of _ 0], simp)
qed

lemma calls_keep_handles_openable_witness:
  "\<exists>y z i. calls demo_posix_env demo_posix y \<and> HandleOpen demo_posix_env 3 2 y = Some (Inr (), z) \<and>
     h_pOpenIno (gaHandle z 3) = Some i \<and> oi_ulInode (gaOpenInos z i) = 2"
proof -
  obtain y where y: "calls demo_posix_env demo_posix y" and "gaHandle y = (\<lambda>_. redhandle_zero)" by (rule demo_first_call)
  then have "3 < HANDLES demo_posix_env" "h_pOpenIno (gaHandle y 3) = None" "(2 :: u32) \<noteq> INODE_INVALID"
    by (simp_all add: demo_posix_slots redhandle_zero_def INODE_INVALID_def)
  from calls_keep_handles_openable [OF demo_posix_config demo_posix_initial y this] y show ?thesis by blast
qed


end
