(* ===== verification/Red_PathProps.thy ===== *)
theory Red_PathProps
  imports Red_Posix Red_Demo
begin

text \<open>
  What the walk along a path does: it looks up the components of the path in their order, each one
  once, and ends after the last; and the volume of a path is the one with the longest prefix.
\<close>

declare split_paired_Ex [simp del]

section \<open>The components of a path\<close>

text \<open>The places where the components of a path begin; the first byte has the number \<open>i\<close>.\<close>

function starts :: "u8 \<Rightarrow> nat \<Rightarrow> bytes \<Rightarrow> nat list" where
  "starts sep i [] = []"
| "starts sep i (x # xs) =
     (if x = sep then starts sep (Suc i) xs
      else i # starts sep (Suc i + length (takeWhile (\<lambda>y. y \<noteq> sep) xs)) (dropWhile (\<lambda>y. y \<noteq> sep) xs))"
  by pat_completeness auto
termination
  by (relation "measure (\<lambda>(_, _, bs). length bs)") (auto simp: le_imp_less_Suc length_dropWhile_le)

text \<open>A walk over the components that is not interrupted by symbolic links.\<close>

definition resolve_step :: "'d env \<Rightarrow> bool \<Rightarrow> cstr \<Rightarrow> u32 \<times> u32 \<Rightarrow> ('d, u32 \<times> u32) iop" where
  "resolve_step E lookup s = (\<lambda>(p, n).
     if REDCONF_API_POSIX_CWD E \<and> IsDot E s then thenE (InodeMustBeSearchableDir E n) (okE (p, n))
     else if REDCONF_API_POSIX_CWD E \<and> IsDotDot E s then
       thenE (InodeMustBeSearchableDir E n)
         (let m = (if n = INODE_ROOTDIR then n else p) in bindE (RedCoreDirParent E m) (\<lambda>q. okE (q, m)))
     else if lookup then bindE (RedCoreLookup E n (Some s)) (\<lambda>found. okE (n, case found of None \<Rightarrow> n | Some k \<Rightarrow> k))
     else okE (n, INODE_INVALID))"

fun resolve :: "'d env \<Rightarrow> bool \<Rightarrow> cstr \<Rightarrow> nat list \<Rightarrow> u32 \<times> u32 \<times> cstr \<Rightarrow> ('d, u32 \<times> u32 \<times> cstr) iop" where
  "resolve E fLast path [] v = okE v"
| "resolve E fLast path (i # ks) (p, n, s) =
     (if n = INODE_INVALID then okE (p, n, s)
      else let s' = cstr_from path (word_of_nat i) in
        bindE (resolve_step E (fLast \<or> ks \<noteq> []) s' (p, n)) (\<lambda>(p, n). resolve E fLast path ks (p, n, s')))"

text \<open>Scanning from a place in a string.\<close>

lemma scan_while_from:
  assumes "\<And>k. k < n \<Longrightarrow> p (word_of_nat (i + k))" and "\<not> p (word_of_nat (i + n))"
  shows "scan_while p (word_of_nat i) = Some (word_of_nat (i + n))"
proof -
  have "scan_while p (word_of_nat i) = scan_while p (word_of_nat i + word_of_nat n)"
    by (rule scan_while_steps) (use assms(1) in simp)
  also have "\<dots> = Some (word_of_nat i + word_of_nat n)"
    using assms(2) by (subst scan_while.simps) simp
  finally show ?thesis by simp
qed

text \<open>The rest of a string from a place in it.\<close>

definition rest_is :: "cstr \<Rightarrow> nat \<Rightarrow> bytes \<Rightarrow> bool" where
  "rest_is s i bs \<longleftrightarrow> 0 \<notin> set bs \<and> (\<forall>k < length bs. s (word_of_nat (i + k)) = bs ! k) \<and> s (word_of_nat (i + length bs)) = 0"

lemma rest_is_whole: "str_is s bs \<Longrightarrow> rest_is s 0 bs"
  by (simp add: rest_is_def str_is_def)

lemma rest_is_drop:
  assumes "rest_is s i bs" "n \<le> length bs"
  shows "rest_is s (i + n) (drop n bs)"
proof -
  have "s (word_of_nat (i + n + k)) = drop n bs ! k" if "k < length bs - n" for k
    using assms that spec [of "\<lambda>k. k < length bs \<longrightarrow> s (word_of_nat (i + k)) = bs ! k" "n + k"]
    by (simp add: rest_is_def add.assoc del: of_nat_add)
  then show ?thesis using assms by (auto simp: rest_is_def simp del: of_nat_add dest: in_set_dropD)
qed

lemma rest_is_head: "rest_is s i (x # xs) \<Longrightarrow> s (word_of_nat i) = x" "rest_is s i (x # xs) \<Longrightarrow> x \<noteq> 0"
  "rest_is s i [] \<Longrightarrow> s (word_of_nat i) = 0"
  unfolding rest_is_def by force+

lemma scan_takeWhile:
  assumes r: "rest_is s i bs" and P: "\<not> P 0"
  shows "scan_while (\<lambda>k. P (s k)) (word_of_nat i) = Some (word_of_nat (i + length (takeWhile P bs)))"
proof (rule scan_while_from)
  let ?n = "length (takeWhile P bs)"
  show "P (s (word_of_nat (i + k)))" if "k < ?n" for k
    using that r by (metis (no_types) length_takeWhile_le less_le_trans nth_mem rest_is_def set_takeWhileD takeWhile_nth)
  show "\<not> P (s (word_of_nat (i + ?n)))"
  proof (cases "?n < length bs")
    case True
    then show ?thesis using r nth_length_takeWhile [of P bs] by (simp add: rest_is_def)
  next
    case False
    then have "?n = length bs" using length_takeWhile_le [of P bs] by simp
    then show ?thesis using r P by (simp add: rest_is_def)
  qed
qed

lemma takeWhile_then_drop: "drop (length (takeWhile P bs)) bs = dropWhile P bs"
  by (simp add: dropWhile_eq_drop)

lemma starts_skip: "starts sep (i + length (takeWhile (\<lambda>x. x = sep) bs)) (dropWhile (\<lambda>x. x = sep) bs) = starts sep i bs"
  by (induction bs arbitrary: i) (simp_all, metis add_Suc)

lemma starts_empty_iff: "starts sep i bs = [] \<longleftrightarrow> dropWhile (\<lambda>x. x = sep) bs = []"
  by (induction bs arbitrary: i) auto

lemma rest_is_from: "rest_is s i bs \<Longrightarrow> rest_is (cstr_from s (word_of_nat i)) 0 bs"
  by (simp add: rest_is_def cstr_from_def)

section \<open>One step of the walk\<close>

text \<open>The path is not followed by the text of links, and the separator is not the terminator.\<close>

definition plain_walk :: "'d env \<Rightarrow> bool" where
  "plain_walk E \<longleftrightarrow> \<not> follows_links E \<and> REDCONF_PATH_SEPARATOR E \<noteq> 0"

lemma skip_separators_rest:
  assumes "rest_is s i bs" "plain_walk E"
  shows "skip_separators E s (word_of_nat i) =
    Some (word_of_nat (i + length (takeWhile (\<lambda>x. x = REDCONF_PATH_SEPARATOR E) bs)))"
  unfolding skip_separators_def using scan_takeWhile [OF assms(1), of "\<lambda>x. x = REDCONF_PATH_SEPARATOR E"] assms(2)
  by (simp add: plain_walk_def)

lemma has_more_components:
  assumes "rest_is s i bs" "plain_walk E"
  shows "PathHasMoreComponents E (cstr_from s (word_of_nat i)) = Some (starts (REDCONF_PATH_SEPARATOR E) i bs \<noteq> [])"
proof -
  let ?sep = "REDCONF_PATH_SEPARATOR E"
  let ?n = "length (takeWhile (\<lambda>x. x = ?sep) bs)"
  have r: "rest_is (cstr_from s (word_of_nat i)) 0 bs" by (rule rest_is_from [OF assms(1)])
  have "rest_is (cstr_from s (word_of_nat i)) (0 + ?n) (dropWhile (\<lambda>x. x = ?sep) bs)"
    using rest_is_drop [OF r length_takeWhile_le] by (simp add: takeWhile_then_drop)
  then have "cstr_from s (word_of_nat i) (word_of_nat ?n) \<noteq> 0 \<longleftrightarrow> dropWhile (\<lambda>x. x = ?sep) bs \<noteq> []"
    by (cases "dropWhile (\<lambda>x. x = ?sep) bs") (auto dest: rest_is_head)
  then show ?thesis
    using skip_separators_rest [OF r assms(2)] by (simp add: PathHasMoreComponents_def starts_empty_iff)
qed

lemma name_length:
  assumes "rest_is s i bs" "plain_walk E"
  shows "RedNameLen (REDCONF_PATH_SEPARATOR E) (Some (cstr_from s (word_of_nat i))) =
    Some (word_of_nat (length (takeWhile (\<lambda>x. x \<noteq> REDCONF_PATH_SEPARATOR E) bs)))"
proof -
  have "takeWhile (\<lambda>x. x \<noteq> 0 \<and> x \<noteq> REDCONF_PATH_SEPARATOR E) bs = takeWhile (\<lambda>x. x \<noteq> REDCONF_PATH_SEPARATOR E) bs"
    by (rule takeWhile_cong) (use assms(1) in \<open>auto simp: rest_is_def\<close>)
  then show ?thesis
    using scan_takeWhile [OF rest_is_from [OF assms(1)], of "\<lambda>x. x \<noteq> 0 \<and> x \<noteq> REDCONF_PATH_SEPARATOR E"]
    by (simp add: RedNameLen_def)
qed

lemma path_next_rest:
  assumes "rest_is path i bs" "plain_walk E" "pw_pszPath c = path" "pw_ulPathIdx c = word_of_nat i"
  shows "case dropWhile (\<lambda>x. x = REDCONF_PATH_SEPARATOR E) bs of
      [] \<Rightarrow> \<exists>k. path_next E c = Some (c\<lparr>pw_ulPathIdx := k\<rparr>)
    | y # ys \<Rightarrow> \<exists>j. rest_is path (Suc j + length (takeWhile (\<lambda>x. x \<noteq> REDCONF_PATH_SEPARATOR E) ys))
          (dropWhile (\<lambda>x. x \<noteq> REDCONF_PATH_SEPARATOR E) ys) \<and>
        starts (REDCONF_PATH_SEPARATOR E) i bs = j # starts (REDCONF_PATH_SEPARATOR E)
          (Suc j + length (takeWhile (\<lambda>x. x \<noteq> REDCONF_PATH_SEPARATOR E) ys)) (dropWhile (\<lambda>x. x \<noteq> REDCONF_PATH_SEPARATOR E) ys) \<and>
        path_next E c = Some (c\<lparr>pw_pszName := Some (cstr_from path (word_of_nat j)), pw_pszLastName := cstr_from path (word_of_nat j),
          pw_ulPathIdx := word_of_nat (Suc j + length (takeWhile (\<lambda>x. x \<noteq> REDCONF_PATH_SEPARATOR E) ys))\<rparr>)"
proof -
  let ?sep = "REDCONF_PATH_SEPARATOR E"
  let ?j = "i + length (takeWhile (\<lambda>x. x = ?sep) bs)"
  have r: "rest_is path ?j (dropWhile (\<lambda>x. x = ?sep) bs)"
    using rest_is_drop [OF assms(1) length_takeWhile_le] by (simp only: takeWhile_then_drop)
  have skip: "skip_separators E path (word_of_nat i) = Some (word_of_nat ?j)"
    by (rule skip_separators_rest [OF assms(1,2)])
  show ?thesis
  proof (cases "dropWhile (\<lambda>x. x = ?sep) bs")
    case Nil
    then have "path (word_of_nat ?j) = 0" using r rest_is_head(3) by metis
    then have "path_next E c = Some (c\<lparr>pw_ulPathIdx := word_of_nat ?j\<rparr>)"
      using skip assms(3,4) by (simp add: path_next_def)
    then show ?thesis unfolding Nil list.case by blast
  next
    case (Cons y ys)
    note ry = r [unfolded Cons]
    have y: "path (word_of_nat ?j) \<noteq> 0" "y \<noteq> ?sep"
      using rest_is_head(1,2) [OF ry] Cons by (auto dest: dropWhile_eq_Cons_conv [THEN iffD1])
    let ?n = "length (takeWhile (\<lambda>x. x \<noteq> ?sep) ys)"
    have "rest_is path (?j + Suc ?n) (drop (Suc ?n) (y # ys))"
      by (rule rest_is_drop [OF ry]) (simp add: length_takeWhile_le)
    then have rest: "rest_is path (Suc ?j + ?n) (dropWhile (\<lambda>x. x \<noteq> ?sep) ys)"
      by (simp add: takeWhile_then_drop)
    moreover have "starts ?sep i bs = ?j # starts ?sep (Suc ?j + ?n) (dropWhile (\<lambda>x. x \<noteq> ?sep) ys)"
      using starts_skip [of ?sep i bs] y(2) by (simp add: Cons)
    moreover have "RedNameLen ?sep (Some (cstr_from path (word_of_nat ?j))) = Some (word_of_nat (Suc ?n))"
      using name_length [OF ry assms(2)] y(2) by simp
    then have "path_next E c = Some (c\<lparr>pw_pszName := Some (cstr_from path (word_of_nat ?j)),
        pw_pszLastName := cstr_from path (word_of_nat ?j), pw_ulPathIdx := word_of_nat (Suc ?j + ?n)\<rparr>)"
      using skip assms(3,4) y(1) by (simp add: path_next_def Let_def add.commute add.left_commute)
    ultimately show ?thesis unfolding Cons by (simp only: list.case) blast
  qed
qed

section \<open>The whole walk\<close>

text \<open>What is known at the end of the walk: the parent, the inode and the last name.\<close>

definition walk_result :: "PATHWALKCTX \<Rightarrow> u32 \<times> u32 \<times> cstr" where
  "walk_result c = (pw_ulPInode c, pw_ulInode c, pw_pszLastName c)"

lemma walk_result_idx [simp]:
  "walk_result (c\<lparr>pw_ulPathIdx := k\<rparr>) = walk_result c" "walk_result (c\<lparr>pw_pszName := q\<rparr>) = walk_result c"
  by (simp_all add: walk_result_def)

lemma PathWalkNext_plain:
  assumes "plain_walk E" "pw_ulInode c \<noteq> INODE_INVALID"
  shows "PathWalkNext E c = loop_result (path_next E (c\<lparr>pw_pszName := None\<rparr>))"
  using assms by (simp add: PathWalkNext_def plain_walk_def)

lemma follow_step:
  assumes "pw_pszName c = Some s" "pw_pszPath c = path" "pw_ulPathIdx c = word_of_nat i" "rest_is path i bs" "plain_walk E"
  shows "PathWalkFollow E c = bindE (resolve_step E (pw_ulFlags c AND PW_LOOKUP_LAST \<noteq> 0 \<or> starts (REDCONF_PATH_SEPARATOR E) i bs \<noteq> []) s
      (pw_ulPInode c, pw_ulInode c)) (\<lambda>v. okE (c\<lparr>pw_ulPInode := fst v, pw_ulInode := snd v\<rparr>))"
proof -
  have more: "PathHasMoreComponents E (cstr_from (pw_pszPath c) (pw_ulPathIdx c)) = Some (starts (REDCONF_PATH_SEPARATOR E) i bs \<noteq> [])"
    using has_more_components [OF assms(4,5)] assms(2,3) by simp
  have same: "c\<lparr>pw_ulPInode := pw_ulPInode c, pw_ulInode := pw_ulInode c\<rparr> = c"
    "c\<lparr>pw_ulPInode := p, pw_ulInode := pw_ulInode c\<rparr> = c\<lparr>pw_ulPInode := p\<rparr>"
    "c\<lparr>pw_ulInode := n, pw_ulPInode := p\<rparr> = c\<lparr>pw_ulPInode := p, pw_ulInode := n\<rparr>" for n p by simp_all
  consider (dot) "REDCONF_API_POSIX_CWD E \<and> IsDot E s"
    | (dotdot) "\<not> (REDCONF_API_POSIX_CWD E \<and> IsDot E s)" "REDCONF_API_POSIX_CWD E \<and> IsDotDot E s"
    | (name) "\<not> (REDCONF_API_POSIX_CWD E \<and> IsDot E s)" "\<not> (REDCONF_API_POSIX_CWD E \<and> IsDotDot E s)" by blast
  then show ?thesis
  proof cases
    case dot
    then show ?thesis using assms(1)
      by (simp add: PathWalkFollow_def resolve_step_def follow_dot_def thenE_def bindE_assoc same del: okE_app)
  next
    case dotdot
    then show ?thesis using assms(1)
      by (simp add: PathWalkFollow_def resolve_step_def follow_dotdot_def thenE_def bindE_assoc Let_def same del: okE_app)
  next
    case name
    have "bindE (RedCoreLookup E n (Some s)) (\<lambda>found. okE (case found of None \<Rightarrow> d | Some k \<Rightarrow> d\<lparr>pw_ulInode := k\<rparr>)) =
        bindE (RedCoreLookup E n (Some s)) (\<lambda>found. okE (d\<lparr>pw_ulInode := case found of None \<Rightarrow> pw_ulInode d | Some k \<Rightarrow> k\<rparr>))"
      for d :: PATHWALKCTX and n
      by (rule arg_cong [where f = "bindE _"]) (auto split: option.split)
    moreover have "PathWalkFollow E c = follow_name E s c"
      unfolding PathWalkFollow_def assms(1) option.case if_not_P [OF name(1)] if_not_P [OF name(2)] ..
    moreover have "resolve_step E l s (p, n) =
        (if l then bindE (RedCoreLookup E n (Some s)) (\<lambda>found. okE (n, case found of None \<Rightarrow> n | Some k \<Rightarrow> k))
         else okE (n, INODE_INVALID))" for l p n
      unfolding resolve_step_def prod.case if_not_P [OF name(1)] if_not_P [OF name(2)] ..
    ultimately show ?thesis using more
      by (simp add: follow_name_def bindE_assoc Let_def loop_result_def del: okE_app cong: option.case_cong)
  qed
qed

lemma path_loop_resolves:
  assumes "plain_walk E" "rest_is path i bs" "pw_pszPath c = path" "pw_ulPathIdx c = word_of_nat i"
  shows "bindE (path_loop E c) (\<lambda>c. okE (walk_result c)) =
    resolve E (pw_ulFlags c AND PW_LOOKUP_LAST \<noteq> 0) path (starts (REDCONF_PATH_SEPARATOR E) i bs) (walk_result c)"
  using assms(2-4)
proof (induction bs arbitrary: i c rule: length_induct)
  case (1 bs)
  let ?sep = "REDCONF_PATH_SEPARATOR E"
  have loop: "path_loop E c = bindE (PathWalkNext E c) (\<lambda>c.
       if pw_pszName c = None then okE c else bindE (PathWalkFollow E c) (path_loop E))"
    by (rule ext, subst path_loop.simps, rule arg_cong [where f = "\<lambda>f. bindE _ f _"]) (auto simp: fun_eq_iff)
  show ?case
  proof (cases "pw_ulInode c = INODE_INVALID")
    case True
    then have "PathWalkNext E c = okE (c\<lparr>pw_pszName := None\<rparr>)" by (simp add: PathWalkNext_def)
    then have "path_loop E c = okE (c\<lparr>pw_pszName := None\<rparr>)" unfolding loop by (simp add: okE_def bindE_def)
    moreover have "resolve E l path ks (walk_result c) = okE (walk_result c)" for l ks
      using True by (cases ks) (simp_all add: walk_result_def)
    ultimately show ?thesis by (simp only: bindE_ok walk_result_idx)
  next
    case False
    let ?d = "c\<lparr>pw_pszName := None\<rparr>"
    have turn: "PathWalkNext E c = loop_result (path_next E ?d)" by (rule PathWalkNext_plain [OF assms(1) False])
    have d: "pw_pszPath ?d = path" "pw_ulPathIdx ?d = word_of_nat i" using "1.prems" by simp_all
    note split = path_next_rest [OF "1.prems"(1) assms(1) d]
    show ?thesis
    proof (cases "dropWhile (\<lambda>x. x = ?sep) bs")
      case Nil
      then obtain k where "path_next E ?d = Some (?d\<lparr>pw_ulPathIdx := k\<rparr>)" using split unfolding Nil list.case by blast
      moreover have "starts ?sep i bs = []" using Nil by (simp only: starts_empty_iff)
      ultimately show ?thesis by (simp add: loop turn loop_result_def walk_result_def del: okE_app)
    next
      case (Cons y ys)
      let ?ys = "dropWhile (\<lambda>x. x \<noteq> ?sep) ys"
      from split obtain j where rest: "rest_is path (Suc j + length (takeWhile (\<lambda>x. x \<noteq> ?sep) ys)) ?ys"
        and st: "starts ?sep i bs = j # starts ?sep (Suc j + length (takeWhile (\<lambda>x. x \<noteq> ?sep) ys)) ?ys"
        and nx: "path_next E ?d = Some (?d\<lparr>pw_pszName := Some (cstr_from path (word_of_nat j)),
          pw_pszLastName := cstr_from path (word_of_nat j),
          pw_ulPathIdx := word_of_nat (Suc j + length (takeWhile (\<lambda>x. x \<noteq> ?sep) ys))\<rparr>)"
        unfolding Cons list.case by blast
      let ?i = "Suc j + length (takeWhile (\<lambda>x. x \<noteq> ?sep) ys)" and ?s = "cstr_from path (word_of_nat j)"
      let ?e = "?d\<lparr>pw_pszName := Some ?s, pw_pszLastName := ?s, pw_ulPathIdx := word_of_nat ?i\<rparr>"
      have e: "pw_pszName ?e = Some ?s" "pw_pszPath ?e = path" "pw_ulPathIdx ?e = word_of_nat ?i" "pw_ulFlags ?e = pw_ulFlags c"
        using "1.prems"(2) by simp_all
      have less: "length ?ys < length bs"
        using length_dropWhile_le [of "\<lambda>x. x \<noteq> ?sep" ys] length_dropWhile_le [of "\<lambda>x. x = ?sep" bs] Cons by simp
      have IH: "bindE (path_loop E (?e\<lparr>pw_ulPInode := p, pw_ulInode := n\<rparr>)) (\<lambda>c. okE (walk_result c)) =
          resolve E (pw_ulFlags c AND PW_LOOKUP_LAST \<noteq> 0) path (starts ?sep ?i ?ys) (p, n, ?s)" for p n
        using "1.IH" [rule_format, OF less rest, of "?e\<lparr>pw_ulPInode := p, pw_ulInode := n\<rparr>"] "1.prems"(2)
        by (simp add: walk_result_def)
      have "path_loop E c = bindE (PathWalkFollow E ?e) (path_loop E)"
        unfolding loop turn nx by (simp add: loop_result_def)
      then show ?thesis
        using follow_step [OF e(1-3) rest assms(1)] IH False
        by (simp add: bindE_assoc st walk_result_def split_beta' Let_def del: okE_app)
    qed
  qed
qed

text \<open>
  C3. Without symbolic links to follow, the walk along a path is one pass over its components: each is looked
  up in the directory that the ones before it lead to, in their order, exactly once, where empty components do
  not count, a dot stays in the directory and two dots go to its parent, and the last one is only
  looked up when the caller wants its inode. So the walk ends whenever these operations do.
\<close>

theorem path_walk_resolves_components:
  assumes "str_is path bs" "plain_walk E" "ulFlags AND RED_AT_SYMLINK_NOFOLLOW = ulFlags" "d \<noteq> INODE_INVALID"
  shows "bindE (PathWalk E d (Some path) ulFlags rootDirError) (\<lambda>c. okE (walk_result c)) =
    bindE (RedCoreDirParent E d) (\<lambda>q.
    bindE (resolve E (rootDirError = None) path (starts (REDCONF_PATH_SEPARATOR E) 0 bs) (q, d, path)) (\<lambda>v.
    case rootDirError of Some e \<Rightarrow> if fst v = INODE_INVALID then errE e else okE v | None \<Rightarrow> okE v))"
proof -
  let ?fl = "ulFlags OR (if rootDirError = None then PW_LOOKUP_LAST else 0)"
  let ?c = "\<lambda>q. (walk_start E d path ?fl)\<lparr>pw_ulPInode := q\<rparr>"
  have flag: "?fl AND PW_LOOKUP_LAST \<noteq> 0 \<longleftrightarrow> rootDirError = None"
  proof -
    have "ulFlags AND PW_LOOKUP_LAST = (ulFlags AND RED_AT_SYMLINK_NOFOLLOW) AND PW_LOOKUP_LAST" using assms(3) by simp
    also have "\<dots> = 0" by (simp add: PW_LOOKUP_LAST_def RED_AT_SYMLINK_NOFOLLOW_def and.assoc)
    finally show ?thesis by (simp add: bit.conj_disj_distrib2 PW_LOOKUP_LAST_def)
  qed
  have loop: "bindE (path_loop E (?c q)) (\<lambda>c. okE (walk_result c)) =
      resolve E (rootDirError = None) path (starts (REDCONF_PATH_SEPARATOR E) 0 bs) (q, d, path)" for q
    using path_loop_resolves [OF assms(2) rest_is_whole [OF assms(1)], of "?c q"] flag
    by (simp add: walk_start_def walk_result_def)
  have fin: "bindE (case rootDirError of Some e \<Rightarrow> if pw_ulPInode c = INODE_INVALID then errE e else okE c | None \<Rightarrow> okE c)
        (\<lambda>c. okE (walk_result c)) =
      (case rootDirError of Some e \<Rightarrow> if fst (walk_result c) = INODE_INVALID then errE e else okE (walk_result c)
        | None \<Rightarrow> okE (walk_result c))" for c
    by (simp add: walk_result_def del: okE_app split: option.split)
  have "bindE (PathWalk E d (Some path) ulFlags rootDirError) (\<lambda>c. okE (walk_result c)) =
      bindE (RedCoreDirParent E d) (\<lambda>q. bindE (path_loop E (?c q)) (\<lambda>c. bindE (okE (walk_result c)) (\<lambda>v.
        case rootDirError of Some e \<Rightarrow> if fst v = INODE_INVALID then errE e else okE v | None \<Rightarrow> okE v)))"
    using assms(3,4) by (simp add: PathWalk_def Let_def bindE_assoc fin del: okE_app)
  also have "\<dots> = bindE (RedCoreDirParent E d) (\<lambda>q. bindE (bindE (path_loop E (?c q)) (\<lambda>c. okE (walk_result c))) (\<lambda>v.
        case rootDirError of Some e \<Rightarrow> if fst v = INODE_INVALID then errE e else okE v | None \<Rightarrow> okE v))"
    by (simp only: bindE_assoc)
  finally show ?thesis by (simp only: loop)
qed

lemma str_is_terminated: "length bs < 2 ^ 32 \<Longrightarrow> 0 \<notin> set bs \<Longrightarrow> str_is (cstr_at (bs @ [0]) 0) bs"
  by (simp add: str_is_def cstr_at_def unat_of_nat nth_append)

definition demo_path :: cstr where
  "demo_path = cstr_at ([0x2F, 0x61, 0x2F, 0x2F, 0x62] @ [0]) 0"

lemma demo_path_is: "str_is demo_path [0x2F, 0x61, 0x2F, 0x2F, 0x62]"
  unfolding demo_path_def by (rule str_is_terminated) simp_all

lemma path_walk_resolves_components_witness:
  "bindE (PathWalk demo_env 2 (Some demo_path) 0 None) (\<lambda>c. okE (walk_result c)) =
     bindE (RedCoreDirParent demo_env 2) (\<lambda>q. bindE (resolve demo_env True demo_path [1, 4] (q, 2, demo_path)) okE)"
proof -
  have "plain_walk demo_env" by (simp add: plain_walk_def follows_links_def demo_env_def)
  moreover have "starts (REDCONF_PATH_SEPARATOR demo_env) 0 [0x2F, 0x61, 0x2F, 0x2F, 0x62] = [1, 4]"
    by (simp add: demo_env_def)
  ultimately show ?thesis
    using path_walk_resolves_components [OF demo_path_is, of demo_env 0 2 None] by (simp add: INODE_INVALID_def)
qed

section \<open>The volume of a path\<close>

lemma prefix_search_append:
  "prefix_search E path (ns @ [n]) v = Option.bind (prefix_search E path ns v) (prefix_turn E path (word_of_nat n))"
proof (induction ns arbitrary: v)
  case Nil
  show ?case by (cases "prefix_turn E path (word_of_nat n) v") simp_all
next
  case (Cons a ns)
  then show ?case by (cases "prefix_turn E path (word_of_nat a) v") simp_all
qed

text \<open>The path starts with the prefix, which ends where a component does.\<close>

definition prefix_matches :: "u8 \<Rightarrow> bytes \<Rightarrow> bytes \<Rightarrow> bool" where
  "prefix_matches sep p bs \<longleftrightarrow> p \<noteq> [] \<and> take (length p) bs = p \<and> (length p = length bs \<or> bs ! length p = sep)"

lemma StrNCmp_prefix:
  assumes s: "str_is s bs" and t: "str_is t p"
  shows "RedStrNCmp (Some s) (Some t) (word_of_nat (length p)) = 0 \<longleftrightarrow> take (length p) bs = p"
proof -
  have "unat (word_of_nat (length p) :: u32) = length p" using str_is_length [OF t] by (simp add: unat_of_nat)
  then have "RedStrNCmp (Some s) (Some t) (word_of_nat (length p)) = byte_order (take (length p) bs) p"
    using ncmp_loop_order [OF s t, of 0 "length p"] by (simp add: RedStrNCmp_def RedStrNCmpUnchecked_def)
  then show ?thesis by (simp add: byte_order_refl_iff)
qed

lemma name_ends_at:
  assumes "str_is s bs" "take (length p) bs = p"
  shows "name_ends E (s (word_of_nat (length p))) \<longleftrightarrow> length p = length bs \<or> bs ! length p = REDCONF_PATH_SEPARATOR E"
proof (cases "length p = length bs")
  case True
  then show ?thesis using str_is_end [OF assms(1)] by (simp add: name_ends_def)
next
  case False
  have "length p \<le> length bs" using assms(2) by (metis length_take min.cobounded1)
  then have "length p < length bs" using False by simp
  then show ?thesis using str_is_nth [OF assms(1)] str_is_nonzero [OF assms(1)] False by (auto simp: name_ends_def)
qed

lemma StrLen_is: "str_is s bs \<Longrightarrow> RedStrLen (Some s) = Some (word_of_nat (length bs))"
  using scan_while_stop [of "length bs" "\<lambda>i. s i \<noteq> 0"]
  by (simp add: RedStrLen_def RedStrLenUnchecked_def str_is_nth str_is_nonzero str_is_end)

text \<open>What the search knows after the volumes before \<open>k\<close>: the longest match, and the last volume without a prefix.\<close>

definition knows_match :: "(nat \<Rightarrow> bool) \<Rightarrow> (nat \<Rightarrow> bytes) \<Rightarrow> nat \<Rightarrow> u8 \<Rightarrow> u32 \<Rightarrow> bool" where
  "knows_match M pre k m l \<longleftrightarrow>
     (\<exists>v < k. M v \<and> m = word_of_nat v \<and> unat l = length (pre v) \<and> (\<forall>n < k. M n \<longrightarrow> length (pre n) \<le> length (pre v))) \<or>
     ((\<forall>n < k. \<not> M n) \<and> m = NO_VOLUME \<and> l = 0)"

definition knows_default :: "(nat \<Rightarrow> bytes) \<Rightarrow> nat \<Rightarrow> u8 \<Rightarrow> bool" where
  "knows_default pre k d \<longleftrightarrow>
     (\<exists>v < k. pre v = [] \<and> d = word_of_nat v \<and> (\<forall>n < k. pre n = [] \<longrightarrow> n \<le> v)) \<or> ((\<forall>n < k. pre n \<noteq> []) \<and> d = NO_VOLUME)"

lemma knows_match_skip: "knows_match M pre k m l \<Longrightarrow> \<not> M k \<or> pre k \<noteq> [] \<and> length (pre k) \<le> unat l \<Longrightarrow>
    knows_match M pre (Suc k) m l"
  unfolding knows_match_def by (auto simp: less_Suc_eq)

lemma knows_match_take:
  assumes "knows_match M pre k m l" "M k" "unat l < length (pre k)" "length (pre k) < 2 ^ 32"
  shows "knows_match M pre (Suc k) (word_of_nat k) (word_of_nat (length (pre k)))"
proof -
  have "unat (word_of_nat (length (pre k)) :: u32) = length (pre k)" using assms(4) by (simp add: unat_of_nat)
  moreover have "length (pre n) \<le> length (pre k)" if "n < k" "M n" for n
    using assms(1,3) that by (force simp: knows_match_def)
  ultimately show ?thesis using assms(2) unfolding knows_match_def by (auto simp: less_Suc_eq)
qed

lemma knows_default_step:
  "knows_default pre k d \<Longrightarrow> knows_default pre (Suc k) (if pre k = [] then word_of_nat k else d)"
  unfolding knows_default_def by (auto simp: less_Suc_eq)

lemma prefix_turn_is:
  assumes "str_is path bs" "str_is (path_prefix E k) p" "k < 256"
  shows "prefix_turn E path (word_of_nat k) (m, l, d) = Some
    (if p = [] then (m, l, word_of_nat k)
     else if prefix_matches (REDCONF_PATH_SEPARATOR E) p bs \<and> unat l < length p then (word_of_nat k, word_of_nat (length p), d)
     else (m, l, d))"
proof -
  have k: "unat (word_of_nat k :: u8) = k" using assms(3) by (simp add: unat_of_nat)
  have n: "unat (word_of_nat (length p) :: u32) = length p" using str_is_length [OF assms(2)] by (simp add: unat_of_nat)
  then have z: "(word_of_nat (length p) :: u32) = 0 \<longleftrightarrow> p = []" by (metis length_0_conv unat_eq_zero)
  have gt: "l < word_of_nat (length p) \<longleftrightarrow> unat l < length p" using n by (simp add: word_less_nat_alt)
  show ?thesis
    unfolding prefix_turn_def Let_def prod.case k StrLen_is [OF assms(2)] option.map StrNCmp_prefix [OF assms(1,2)] z gt
    using name_ends_at [OF assms(1), of p E] by (auto simp: prefix_matches_def)
qed

lemma prefix_search_knows:
  assumes path: "str_is path bs" and pre: "\<And>n. n < k \<Longrightarrow> str_is (path_prefix E n) (pre n)" and k: "k \<le> 255"
  shows "\<exists>m l d. prefix_search E path [0..<k] (NO_VOLUME, 0, NO_VOLUME) = Some (m, l, d) \<and>
    knows_match (\<lambda>n. prefix_matches (REDCONF_PATH_SEPARATOR E) (pre n) bs) pre k m l \<and> knows_default pre k d"
  using pre k
proof (induction k)
  case 0
  show ?case by (simp add: knows_match_def knows_default_def)
next
  case (Suc k)
  let ?M = "\<lambda>n. prefix_matches (REDCONF_PATH_SEPARATOR E) (pre n) bs"
  from Suc obtain m l d where v: "prefix_search E path [0..<k] (NO_VOLUME, 0, NO_VOLUME) = Some (m, l, d)"
    and km: "knows_match ?M pre k m l" and kd: "knows_default pre k d" by (meson Suc_leD less_SucI)
  have pk: "str_is (path_prefix E k) (pre k)" by (rule Suc.prems(1)) simp
  have turn: "prefix_search E path [0..<Suc k] (NO_VOLUME, 0, NO_VOLUME) = Some
      (if pre k = [] then (m, l, word_of_nat k)
       else if ?M k \<and> unat l < length (pre k) then (word_of_nat k, word_of_nat (length (pre k)), d) else (m, l, d))"
    using v prefix_turn_is [OF path pk, of m l d] Suc.prems(2) by (simp add: prefix_search_append)
  have nonempty: "?M k \<Longrightarrow> pre k \<noteq> []" by (simp add: prefix_matches_def)
  show ?case
  proof (cases "?M k \<and> unat l < length (pre k)")
    case True
    then show ?thesis
      using turn nonempty knows_match_take [OF km _ _ str_is_length [OF pk]] knows_default_step [OF kd] by auto
  next
    case False
    then have "knows_match ?M pre (Suc k) m l" using nonempty by (intro knows_match_skip [OF km]) auto
    then show ?thesis using turn False knows_default_step [OF kd] by auto
  qed
qed

text \<open>
  C13. The volume of a path is the one whose prefix is the longest among those that the path starts
  with and that end where a component does; without one it is the last volume with the
  empty prefix, and without that there is no volume. The volume becomes the current one.
\<close>

theorem path_volume_longest_prefix:
  assumes "str_is path bs" "\<And>n. n < unat (REDCONF_VOLUME_COUNT E) \<Longrightarrow> str_is (path_prefix E n) (pre n)"
  defines "M \<equiv> \<lambda>n. n < unat (REDCONF_VOLUME_COUNT E) \<and> prefix_matches (REDCONF_PATH_SEPARATOR E) (pre n) bs"
    and "D \<equiv> \<lambda>n. n < unat (REDCONF_VOLUME_COUNT E) \<and> pre n = []"
  shows "case RedPathVolumePrefixLookup E (Some path) s of
      Some (Inr v, t) \<Rightarrow> v < REDCONF_VOLUME_COUNT E \<and>
        (if \<exists>n. M n then M (unat v) \<and> (\<forall>n. M n \<longrightarrow> length (pre n) \<le> length (pre (unat v)))
         else D (unat v) \<and> (\<forall>n. D n \<longrightarrow> n \<le> unat v)) \<and>
        t = (if REDCONF_VOLUME_COUNT E > 1 then s\<lparr>gbRedVolNum := v\<rparr> else s)
    | Some (Inl e, t) \<Rightarrow> (\<forall>n. \<not> M n \<and> \<not> D n) \<and> e = RED_ENOENT \<and> t = s
    | None \<Rightarrow> False"
proof -
  let ?N = "unat (REDCONF_VOLUME_COUNT E)"
  let ?P = "\<lambda>n. prefix_matches (REDCONF_PATH_SEPARATOR E) (pre n) bs"
  have m: "unat (- 1 :: u8) = 255" by (simp add: unsigned_minus_1_eq_mask mask_eq_exp_minus_1)
  have "REDCONF_VOLUME_COUNT E \<le> - 1" by simp
  then have N: "?N \<le> 255" unfolding word_le_nat_alt m .
  have num: "unat (word_of_nat v :: u8) = v \<and> (word_of_nat v :: u8) \<noteq> NO_VOLUME \<and> (word_of_nat v :: u8) < REDCONF_VOLUME_COUNT E"
    if "v < ?N" for v
  proof -
    have "unat (word_of_nat v :: u8) = v" using that N by (simp add: unat_of_nat)
    then show ?thesis using that N by (auto simp: word_less_nat_alt NO_VOLUME_def)
  qed
  from prefix_search_knows [OF assms(1,2) N] obtain m l d
    where v: "prefix_search E path [0..<?N] (NO_VOLUME, 0, NO_VOLUME) = Some (m, l, d)"
      and km: "knows_match ?P pre ?N m l" and kd: "knows_default pre ?N d" by blast
  have set: "whenE (REDCONF_VOLUME_COUNT E > 1) (RedCoreVolSetCurrent E w) s =
      Some (Inr (), if REDCONF_VOLUME_COUNT E > 1 then s\<lparr>gbRedVolNum := w\<rparr> else s)" if "w < REDCONF_VOLUME_COUNT E" for w
    using that by (auto simp: RedCoreVolSetCurrent_def whenE_def dest: leD)
  let ?w = "if m \<noteq> NO_VOLUME then m else d"
  have run: "RedPathVolumePrefixLookup E (Some path) s =
      (if ?w = NO_VOLUME then Some (Inl RED_ENOENT, s)
       else thenE (whenE (REDCONF_VOLUME_COUNT E > 1) (RedCoreVolSetCurrent E ?w)) (okE ?w) s)"
    using v by (simp add: RedPathVolumePrefixLookup_def loop_result_def Let_def)
  show ?thesis
  proof (cases "\<exists>n. M n")
    case True
    then obtain u where u: "u < ?N" "?P u" "m = word_of_nat u" "\<forall>n < ?N. ?P n \<longrightarrow> length (pre n) \<le> length (pre u)"
      using km by (auto simp: knows_match_def M_def)
    then show ?thesis using True run num [OF u(1)] set [of m] by (auto simp: M_def thenE_Inr)
  next
    case nomatch: False
    then have m: "m = NO_VOLUME" using km by (auto simp: knows_match_def M_def)
    show ?thesis
    proof (cases "\<exists>n. D n")
      case True
      then obtain u where u: "u < ?N" "pre u = []" "d = word_of_nat u" "\<forall>n < ?N. pre n = [] \<longrightarrow> n \<le> u"
        using kd by (auto simp: knows_default_def D_def)
      then show ?thesis using nomatch m run num [OF u(1)] set [of d] by (auto simp: D_def thenE_Inr)
    next
      case False
      then have "d = NO_VOLUME" using kd by (auto simp: knows_default_def D_def)
      then show ?thesis using nomatch False m run by auto
    qed
  qed
qed

text \<open>Two volumes with the prefixes \<^verbatim>\<open>/\<close> and \<^verbatim>\<open>/a\<close> as in the path of above; the second one is longer.\<close>

definition demo_prefixes :: "nat \<Rightarrow> bytes" where
  "demo_prefixes n = (if n = 0 then [] else [0x2F, 0x61])"

definition demo_two :: "ramdisk env" where
  "demo_two = demo_env\<lparr>REDCONF_VOLUME_COUNT := 2, gaRedVolConf := (\<lambda>v. (demo_volconf v)\<lparr>vc_pszPathPrefix := demo_prefixes (unat v) @ [0]\<rparr>)\<rparr>"

lemma demo_two_simps: "REDCONF_PATH_SEPARATOR demo_two = 0x2F" "unat (REDCONF_VOLUME_COUNT demo_two) = 2"
  by (simp_all add: demo_two_def demo_env_def)

lemma demo_two_prefixes:
  assumes "n < unat (REDCONF_VOLUME_COUNT demo_two)"
  shows "str_is (path_prefix demo_two n) (demo_prefixes n)"
proof -
  have "unat (word_of_nat n :: u8) = n" using assms by (simp add: demo_two_simps unat_of_nat)
  then have "path_prefix demo_two n = cstr_at (demo_prefixes n @ [0]) 0" by (simp add: path_prefix_def demo_two_def)
  then show ?thesis by (simp add: str_is_terminated demo_prefixes_def)
qed

lemma path_volume_longest_prefix_witness:
  "case RedPathVolumePrefixLookup demo_two (Some demo_path) (demo_fs demo_disk) of Some (Inr v, t) \<Rightarrow> v = 1 | _ \<Rightarrow> False"
proof -
  let ?bs = "[0x2F, 0x61, 0x2F, 0x2F, 0x62] :: bytes"
  have m: "prefix_matches 0x2F (demo_prefixes 1) ?bs" "\<not> prefix_matches 0x2F (demo_prefixes 0) ?bs"
    by (simp_all add: prefix_matches_def demo_prefixes_def)
  then have ex: "(\<exists>n. n < 2 \<and> prefix_matches 0x2F (demo_prefixes n) ?bs) = True" by (auto intro: exI [of _ 1])
  have one: "v = 1" if "unat v < 2 \<and> prefix_matches 0x2F (demo_prefixes (unat v)) ?bs" for v :: u8
    using that m(2) by (metis One_nat_def less_2_cases unat_1 word_unat_eq_iff)
  show ?thesis
    using path_volume_longest_prefix [OF demo_path_is demo_two_prefixes, of "demo_fs demo_disk", unfolded demo_two_simps ex if_True]
      one ex by (simp split: option.splits prod.splits sum.splits)
qed

end
