(* ===== verification/Red_Heap.thy ===== *)
theory Red_Heap
  imports Red_Prelude
begin

text \<open>
  The memory allocator of \<^verbatim>\<open>util/heap.c\<close>. An address is a number and the null pointer is zero. The
  headers of the blocks and the bytes that a caller keeps in them are two stores, each indexed by the address:
  a caller writes only to the memory that it was given, and so not to a header. The size of a
  pointer, four or eight bytes, is a parameter. A result \<open>None\<close> is a null pointer that is followed, or a
  loop that does not end; the asserts are not compiled in and the messages are left out.
\<close>

section \<open>The state\<close>

record REDHEAPHDR =
  hh_ulSentinel :: u32
  hh_ulBlockSize :: u32
  hh_pNext :: nat
  hh_pPrev :: nat

record REDHEAPINFO =
  hi_pbPoolBase :: nat
  hi_ulPoolSize :: u32
  hi_ulAllocBytes :: u32
  hi_ulMaxAllocBytes :: u32
  hi_ulAllocCount :: u32
  hi_ulTotalCount :: u32

record redheap =
  gHI :: REDHEAPINFO
  hdr_at :: "nat \<Rightarrow> REDHEAPHDR"
  byte_at :: "nat \<Rightarrow> u8"

definition REDHEAP_ALIGN_MASK :: "nat \<Rightarrow> u32" where
  "REDHEAP_ALIGN_MASK p = word_of_nat p - 1"

definition REDHEAP_HDR_SIZE :: "nat \<Rightarrow> u32" where
  "REDHEAP_HDR_SIZE p = (word_of_nat (8 + 2 * p) + REDHEAP_ALIGN_MASK p) AND NOT (REDHEAP_ALIGN_MASK p)"

definition HDR :: "nat \<Rightarrow> nat" where "HDR p = unat (REDHEAP_HDR_SIZE p)"

definition REDHEAP_SENTINEL_FREE :: u32 where "REDHEAP_SENTINEL_FREE = 0xFBFCFDFE"
definition REDHEAP_SENTINEL_ALLOC :: u32 where "REDHEAP_SENTINEL_ALLOC = REDHEAP_SENTINEL_FREE OR 1"

definition REDHEAP_IS_FREE :: "nat \<Rightarrow> redheap \<Rightarrow> bool" where
  "REDHEAP_IS_FREE b H \<longleftrightarrow> hh_ulSentinel (hdr_at H b) = REDHEAP_SENTINEL_FREE"

definition REDHEAP_IS_ALLOC :: "nat \<Rightarrow> redheap \<Rightarrow> bool" where
  "REDHEAP_IS_ALLOC b H \<longleftrightarrow> hh_ulSentinel (hdr_at H b) = REDHEAP_SENTINEL_ALLOC"

abbreviation ulBlockSize :: "nat \<Rightarrow> redheap \<Rightarrow> u32" where "ulBlockSize b H \<equiv> hh_ulBlockSize (hdr_at H b)"
abbreviation pNext :: "nat \<Rightarrow> redheap \<Rightarrow> nat" where "pNext b H \<equiv> hh_pNext (hdr_at H b)"
abbreviation pPrev :: "nat \<Rightarrow> redheap \<Rightarrow> nat" where "pPrev b H \<equiv> hh_pPrev (hdr_at H b)"

definition upd_hdr :: "nat \<Rightarrow> (REDHEAPHDR \<Rightarrow> REDHEAPHDR) \<Rightarrow> redheap \<Rightarrow> redheap" where
  "upd_hdr b f H = H\<lparr>hdr_at := (hdr_at H)(b := f (hdr_at H b))\<rparr>"

definition set_pPrev :: "nat \<Rightarrow> nat \<Rightarrow> redheap \<Rightarrow> redheap" where
  "set_pPrev b v = upd_hdr b (hh_pPrev_update (\<lambda>_. v))"

text \<open>The size of a block for a request of \<open>ulSize\<close> bytes.\<close>

definition requested :: "nat \<Rightarrow> u32 \<Rightarrow> u32" where
  "requested p ulSize = ((ulSize + REDHEAP_ALIGN_MASK p) AND NOT (REDHEAP_ALIGN_MASK p)) + REDHEAP_HDR_SIZE p"

section \<open>Initialisation\<close>

definition RedHeapInit :: "nat \<Rightarrow> nat \<Rightarrow> u32 \<Rightarrow> redheap \<Rightarrow> redheap" where
  "RedHeapInit p pMemBase ulMemSize H =
     (let ulFirst = (ulMemSize - REDHEAP_HDR_SIZE p) AND NOT (REDHEAP_ALIGN_MASK p);
          pLast = pMemBase + unat ulFirst
      in H\<lparr>gHI := \<lparr>hi_pbPoolBase = pMemBase, hi_ulPoolSize = ulMemSize, hi_ulAllocBytes = REDHEAP_HDR_SIZE p,
              hi_ulMaxAllocBytes = REDHEAP_HDR_SIZE p, hi_ulAllocCount = 1, hi_ulTotalCount = 2\<rparr>,
           hdr_at := (hdr_at H)
             (pMemBase := \<lparr>hh_ulSentinel = REDHEAP_SENTINEL_FREE, hh_ulBlockSize = ulFirst, hh_pNext = pLast, hh_pPrev = 0\<rparr>,
              pLast := \<lparr>hh_ulSentinel = REDHEAP_SENTINEL_ALLOC, hh_ulBlockSize = REDHEAP_HDR_SIZE p, hh_pNext = 0,
                hh_pPrev = pMemBase\<rparr>)\<rparr>)"

section \<open>Blocks\<close>

text \<open>
  A block is split when the rest can hold a header. The sum in the comparison has the width of a
  pointer.
\<close>

definition splits :: "nat \<Rightarrow> u32 \<Rightarrow> u32 \<Rightarrow> bool" where
  "splits p ulSize ulRequestedSize \<longleftrightarrow> unat ulSize > (unat ulRequestedSize + HDR p) mod 2 ^ (8 * p)"

definition split_block :: "nat \<Rightarrow> u32 \<Rightarrow> redheap \<Rightarrow> redheap option" where
  "split_block pBlock ulRequestedSize H =
     (let n = pBlock + unat ulRequestedSize in
      if pNext pBlock H = 0 then None
      else
        let H = upd_hdr n (hh_pNext_update (\<lambda>_. pNext pBlock H)) H;
            H = set_pPrev (pNext n H) n H;
            H = set_pPrev n pBlock H;
            H = upd_hdr pBlock (hh_pNext_update (\<lambda>_. n)) H;
            H = upd_hdr n (\<lambda>h. h\<lparr>hh_ulBlockSize := ulBlockSize pBlock H - ulRequestedSize,
                                 hh_ulSentinel := REDHEAP_SENTINEL_FREE\<rparr>) H;
            H = H\<lparr>gHI := (gHI H)\<lparr>hi_ulTotalCount := hi_ulTotalCount (gHI H) + 1\<rparr>\<rparr>
        in Some (upd_hdr pBlock (hh_ulBlockSize_update (\<lambda>_. ulRequestedSize)) H))"

definition take_block :: "nat \<Rightarrow> redheap \<Rightarrow> redheap" where
  "take_block pBlock H =
     (let H = upd_hdr pBlock (hh_ulSentinel_update (\<lambda>_. REDHEAP_SENTINEL_ALLOC)) H;
          n = hi_ulAllocBytes (gHI H) + ulBlockSize pBlock H
      in H\<lparr>gHI := (gHI H)\<lparr>hi_ulAllocCount := hi_ulAllocCount (gHI H) + 1, hi_ulAllocBytes := n,
            hi_ulMaxAllocBytes := max n (hi_ulMaxAllocBytes (gHI H))\<rparr>\<rparr>)"

definition HeapBlockAlloc :: "nat \<Rightarrow> nat \<Rightarrow> u32 \<Rightarrow> redheap \<Rightarrow> redheap option" where
  "HeapBlockAlloc p pBlock ulRequestedSize H =
     map_option (take_block pBlock)
       (if splits p (ulBlockSize pBlock H) ulRequestedSize then split_block pBlock ulRequestedSize H else Some H)"

text \<open>The block \<open>n\<close> after \<open>b\<close> becomes a part of it.\<close>

definition merge_into :: "nat \<Rightarrow> nat \<Rightarrow> redheap \<Rightarrow> redheap" where
  "merge_into b n H =
     (let H = upd_hdr b (\<lambda>h. h\<lparr>hh_ulBlockSize := hh_ulBlockSize h + ulBlockSize n H, hh_pNext := pNext n H\<rparr>) H;
          H = (if pNext b H \<noteq> 0 then set_pPrev (pNext b H) b H else H);
          H = upd_hdr n (hh_ulSentinel_update (\<lambda>_. NOT REDHEAP_SENTINEL_FREE)) H
      in H\<lparr>gHI := (gHI H)\<lparr>hi_ulTotalCount := hi_ulTotalCount (gHI H) - 1\<rparr>\<rparr>)"

definition release_block :: "nat \<Rightarrow> redheap \<Rightarrow> redheap" where
  "release_block b H =
     (let H = upd_hdr b (hh_ulSentinel_update (\<lambda>_. REDHEAP_SENTINEL_FREE)) H
      in H\<lparr>gHI := (gHI H)\<lparr>hi_ulAllocCount := hi_ulAllocCount (gHI H) - 1,
            hi_ulAllocBytes := hi_ulAllocBytes (gHI H) - ulBlockSize b H\<rparr>\<rparr>)"

text \<open>A block before the one released takes it in the same way as that one took the block after it.\<close>

definition HeapBlockFree :: "nat \<Rightarrow> redheap \<Rightarrow> nat \<times> redheap" where
  "HeapBlockFree pBlock H =
     (let H = release_block pBlock H;
          H = (if pNext pBlock H \<noteq> 0 \<and> REDHEAP_IS_FREE (pNext pBlock H) H then merge_into pBlock (pNext pBlock H) H else H)
      in if pPrev pBlock H \<noteq> 0 \<and> REDHEAP_IS_FREE (pPrev pBlock H) H
         then (pPrev pBlock H, merge_into (pPrev pBlock H) pBlock H) else (pBlock, H))"

section \<open>Allocation\<close>

text \<open>The best block so far and its size; a turn also says whether the loop is left.\<close>

definition search_turn :: "redheap \<Rightarrow> u32 \<Rightarrow> nat \<Rightarrow> nat \<times> u32 \<Rightarrow> bool \<times> nat \<times> u32" where
  "search_turn H ulRequestedSize pHead = (\<lambda>(pBestBlock, ulBestSize).
     if REDHEAP_IS_FREE pHead H then
       (if ulBlockSize pHead H \<ge> ulRequestedSize \<and> (ulBestSize = 0 \<or> ulBlockSize pHead H < ulBestSize)
        then (ulBlockSize pHead H = ulRequestedSize, pHead, ulBlockSize pHead H)
        else (False, pBestBlock, ulBestSize))
     else if \<not> REDHEAP_IS_ALLOC pHead H then (True, 0, 0)
     else (False, pBestBlock, ulBestSize))"

partial_function (option) heap_search :: "redheap \<Rightarrow> u32 \<Rightarrow> nat \<Rightarrow> nat \<times> u32 \<Rightarrow> (nat \<times> u32) option" where
  "heap_search H ulRequestedSize pHead best =
     (if pHead = 0 then Some best
      else let (left, best) = search_turn H ulRequestedSize pHead best in
        if left then Some best else heap_search H ulRequestedSize (pNext pHead H) best)"

declare heap_search.simps [code]

text \<open>A null pointer is returned when no block is large enough.\<close>

definition RedHeapAlloc :: "nat \<Rightarrow> u32 \<Rightarrow> redheap \<Rightarrow> (nat \<times> redheap) option" where
  "RedHeapAlloc p ulSize H =
     Option.bind (heap_search H (requested p ulSize) (hi_pbPoolBase (gHI H)) (0, 0)) (\<lambda>(pBestBlock, ulBestSize).
     if ulBestSize > 0
     then map_option (\<lambda>H. (pBestBlock + HDR p, H)) (HeapBlockAlloc p pBestBlock (requested p ulSize) H)
     else Some (0, H))"

text \<open>The memory of a block that may be freed.\<close>

definition outside_pool :: "nat \<Rightarrow> nat \<Rightarrow> redheap \<Rightarrow> bool" where
  "outside_pool p pMem H \<longleftrightarrow> pMem < hi_pbPoolBase (gHI H) + HDR p \<or>
     pMem \<ge> hi_pbPoolBase (gHI H) + unat (hi_ulPoolSize (gHI H) - REDHEAP_HDR_SIZE p * 2)"

definition RedHeapFree :: "nat \<Rightarrow> nat \<Rightarrow> redheap \<Rightarrow> redheap" where
  "RedHeapFree p pMem H =
     (if outside_pool p pMem H \<or> \<not> REDHEAP_IS_ALLOC (pMem - HDR p) H then H
      else snd (HeapBlockFree (pMem - HDR p) H))"

section \<open>Reallocation\<close>

text \<open>The block with the free blocks on its two sides, when they are large enough together.\<close>

definition merged_candidate :: "nat \<Rightarrow> u32 \<Rightarrow> redheap \<Rightarrow> nat \<times> u32" where
  "merged_candidate pCurrent ulRequestedSize H =
     (let ulBestSize = ulBlockSize pCurrent H;
          ulBestSize = (if pNext pCurrent H \<noteq> 0 \<and> REDHEAP_IS_FREE (pNext pCurrent H) H
                        then ulBestSize + ulBlockSize (pNext pCurrent H) H else ulBestSize);
          (pBestBlock, ulBestSize) =
            (if pPrev pCurrent H \<noteq> 0 \<and> REDHEAP_IS_FREE (pPrev pCurrent H) H
             then (pPrev pCurrent H, ulBestSize + ulBlockSize (pPrev pCurrent H) H) else (pCurrent, ulBestSize))
      in if ulBestSize < ulRequestedSize then (0, 0) else (pBestBlock, ulBestSize))"

text \<open>The search skips the block that would be merged.\<close>

partial_function (option) realloc_search :: "redheap \<Rightarrow> u32 \<Rightarrow> nat \<Rightarrow> nat \<times> u32 \<Rightarrow> (nat \<times> u32) option" where
  "realloc_search H ulRequestedSize pHead best =
     (if pHead = 0 then Some best
      else if pHead = fst best then realloc_search H ulRequestedSize (fst best + unat (snd best)) best
      else let (left, best) = search_turn H ulRequestedSize pHead best in
        if left then Some best else realloc_search H ulRequestedSize (pNext pHead H) best)"

declare realloc_search.simps [code]

definition copy_bytes :: "nat \<Rightarrow> nat \<Rightarrow> nat \<Rightarrow> redheap \<Rightarrow> redheap" where
  "copy_bytes dst src n H =
     H\<lparr>byte_at := (\<lambda>a. if dst \<le> a \<and> a < dst + n then byte_at H (src + (a - dst)) else byte_at H a)\<rparr>"

definition move_in_place :: "nat \<Rightarrow> nat \<Rightarrow> u32 \<Rightarrow> nat \<Rightarrow> redheap \<Rightarrow> (nat \<times> redheap) option" where
  "move_in_place p pCurrent ulRequestedSize n H =
     (let (b, H) = HeapBlockFree pCurrent H;
          H = (if b \<noteq> pCurrent then copy_bytes (b + HDR p) (pCurrent + HDR p) n H else H)
      in map_option (\<lambda>H. (b + HDR p, H)) (HeapBlockAlloc p b ulRequestedSize H))"

definition move_away :: "nat \<Rightarrow> nat \<Rightarrow> nat \<Rightarrow> u32 \<Rightarrow> nat \<Rightarrow> redheap \<Rightarrow> (nat \<times> redheap) option" where
  "move_away p pBestBlock pCurrent ulRequestedSize n H =
     map_option (\<lambda>H. (pBestBlock + HDR p, snd (HeapBlockFree pCurrent H)))
       (HeapBlockAlloc p pBestBlock ulRequestedSize (copy_bytes (pBestBlock + HDR p) (pCurrent + HDR p) n H))"

definition RedHeapRealloc :: "nat \<Rightarrow> nat \<Rightarrow> u32 \<Rightarrow> redheap \<Rightarrow> (nat \<times> redheap) option" where
  "RedHeapRealloc p pMem ulSize H =
     (if ulSize = 0 then Some (0, RedHeapFree p pMem H)
      else if outside_pool p pMem H \<or> \<not> REDHEAP_IS_ALLOC (pMem - HDR p) H then Some (0, H)
      else
        let pCurrent = pMem - HDR p; ulRequestedSize = requested p ulSize in
        Option.bind (realloc_search H ulRequestedSize (hi_pbPoolBase (gHI H)) (merged_candidate pCurrent ulRequestedSize H))
          (\<lambda>(pBestBlock, ulBestSize).
           if ulBestSize > 0 then
             let n = unat (min ulSize (ulBlockSize pCurrent H - REDHEAP_HDR_SIZE p)) in
             if pBestBlock = pCurrent \<or> pBestBlock = pPrev pCurrent H
             then move_in_place p pCurrent ulRequestedSize n H
             else move_away p pBestBlock pCurrent ulRequestedSize n H
           else Some (0, H)))"

definition RedHeapCalloc :: "nat \<Rightarrow> u32 \<Rightarrow> u32 \<Rightarrow> redheap \<Rightarrow> (nat \<times> redheap) option" where
  "RedHeapCalloc p ulElements ulElementSize H =
     (let ulSize = (ulElementSize + REDHEAP_ALIGN_MASK p) AND NOT (REDHEAP_ALIGN_MASK p) in
      if ulSize < ulElementSize \<or> (ulElements > 0 \<and> ulSize > 0xFFFFFFFF div ulElements) then Some (0, H)
      else map_option (\<lambda>(pMem, H).
          (pMem, if pMem \<noteq> 0 then H\<lparr>byte_at := (\<lambda>a. if pMem \<le> a \<and> a < pMem + unat (ulSize * ulElements) then 0
             else byte_at H a)\<rparr> else H))
        (RedHeapAlloc p (ulSize * ulElements) H))"

section \<open>The check\<close>

definition RedHeapStats :: "redheap \<Rightarrow> u32 \<times> u32 \<times> u32 \<times> u32" where
  "RedHeapStats H = (hi_ulAllocBytes (gHI H), hi_ulMaxAllocBytes (gHI H), hi_ulAllocCount (gHI H), hi_ulTotalCount (gHI H))"

record heap_tally =
  tl_ulAllocated :: u32
  tl_ulFree :: u32
  tl_ulBytesAllocated :: u32

definition links_broken :: "nat \<Rightarrow> redheap \<Rightarrow> bool" where
  "links_broken b H \<longleftrightarrow>
     (pNext b H \<noteq> 0 \<and> pPrev (pNext b H) H \<noteq> b) \<or>
     (pPrev b H \<noteq> 0 \<and> pNext (pPrev b H) H \<noteq> b) \<or>
     (pNext b H \<noteq> 0 \<and> word_of_int (int (pNext b H) - int b) \<noteq> ulBlockSize b H)"

text \<open>The tally of the blocks, or nothing when the list is corrupted.\<close>

partial_function (option) check_loop :: "redheap \<Rightarrow> nat \<Rightarrow> heap_tally \<Rightarrow> heap_tally option option" where
  "check_loop H pHead t =
     (if pHead = 0 then Some (Some t)
      else if \<not> REDHEAP_IS_FREE pHead H \<and> \<not> REDHEAP_IS_ALLOC pHead H then Some None
      else if links_broken pHead H then Some None
      else check_loop H (pNext pHead H)
        (if REDHEAP_IS_FREE pHead H then t\<lparr>tl_ulFree := tl_ulFree t + 1\<rparr>
         else t\<lparr>tl_ulAllocated := tl_ulAllocated t + 1, tl_ulBytesAllocated := tl_ulBytesAllocated t + ulBlockSize pHead H\<rparr>))"

declare check_loop.simps [code]

definition RedHeapCheck :: "redheap \<Rightarrow> int option" where
  "RedHeapCheck H = map_option (\<lambda>r. case r of
       None \<Rightarrow> - 1
     | Some t \<Rightarrow>
         if tl_ulBytesAllocated t \<noteq> hi_ulAllocBytes (gHI H) \<or> tl_ulAllocated t \<noteq> hi_ulAllocCount (gHI H) \<or>
            tl_ulFree t \<noteq> hi_ulTotalCount (gHI H) - hi_ulAllocCount (gHI H) then - 1 else 0)
     (check_loop H (hi_pbPoolBase (gHI H)) \<lparr>tl_ulAllocated = 0, tl_ulFree = 0, tl_ulBytesAllocated = 0\<rparr>)"

end
