(* ===== verification/Red_HeapProps.thy ===== *)
theory Red_HeapProps
  imports Red_Heap
begin

text \<open>
  What the allocator promises: its blocks lie one after the other over the whole pool, the list that links
  them, their markers and the counters agree, and neighbours are never both free; an allocation
  takes the smallest free block that is large enough, and memory that is held is never given out again.
\<close>

declare split_paired_Ex [simp del] split_paired_All [simp del]

section \<open>Lists of blocks\<close>

text \<open>A block is its size with whether it is allocated; the address of the first is given.\<close>

type_synonym block = "nat \<times> bool"

definition total :: "block list \<Rightarrow> nat" where "total bl = sum_list (map fst bl)"

lemma total_simps [simp]: "total [] = 0" "total (x # xs) = fst x + total xs" "total (xs @ ys) = total xs + total ys"
  by (simp_all add: total_def)

definition marker :: "bool \<Rightarrow> u32" where
  "marker taken = (if taken then REDHEAP_SENTINEL_ALLOC else REDHEAP_SENTINEL_FREE)"

lemma marker_simps [simp]:
  "marker c = REDHEAP_SENTINEL_FREE \<longleftrightarrow> \<not> c" "marker c = REDHEAP_SENTINEL_ALLOC \<longleftrightarrow> c"
  by (simp_all add: marker_def REDHEAP_SENTINEL_FREE_def REDHEAP_SENTINEL_ALLOC_def)

text \<open>
  The headers from address \<open>a\<close> on are those of the blocks, linked in both directions; \<open>q\<close> is the block
  before them and \<open>e\<close> the one after them.
\<close>

fun chain :: "(nat \<Rightarrow> REDHEAPHDR) \<Rightarrow> nat \<Rightarrow> nat \<Rightarrow> block list \<Rightarrow> nat \<Rightarrow> bool" where
  "chain h q a [] e \<longleftrightarrow> True"
| "chain h q a (x # xs) e \<longleftrightarrow> 0 < fst x \<and> hh_pPrev (h a) = q \<and> hh_ulBlockSize (h a) = word_of_nat (fst x) \<and>
     hh_ulSentinel (h a) = marker (snd x) \<and> hh_pNext (h a) = (if xs = [] then e else a + fst x) \<and> chain h a (a + fst x) xs e"

definition last_at :: "nat \<Rightarrow> nat \<Rightarrow> block list \<Rightarrow> nat" where
  "last_at q a xs = (if xs = [] then q else a + total (butlast xs))"

lemma last_at_simps [simp]: "last_at q a [] = q" "last_at q a (xs @ [x]) = a + total xs"
  "last_at q a (x # xs) = last_at a (a + fst x) xs"
  by (simp_all add: last_at_def)

lemma chain_append:
  "chain h q a (xs @ ys) e \<longleftrightarrow>
     chain h q a xs (if ys = [] then e else a + total xs) \<and> chain h (last_at q a xs) (a + total xs) ys e"
  by (induction xs arbitrary: q a) (auto simp: add.assoc)

lemma chain_frame:
  "(\<And>b. a \<le> b \<Longrightarrow> b < a + total xs \<Longrightarrow> h' b = h b) \<Longrightarrow> chain h q a xs e \<Longrightarrow> chain h' q a xs e"
  by (induction xs arbitrary: q a) auto

lemma chain_upd [simp]: "b < a \<or> a + total xs \<le> b \<Longrightarrow> chain (h(b := v)) q a xs e = chain h q a xs e"
  using chain_frame [of a xs "h(b := v)" h] chain_frame [of a xs h "h(b := v)"] by auto

lemma chain_end: "chain h q a xs e \<Longrightarrow> xs = [] \<or> e = e' \<Longrightarrow> chain h q a xs e'"
  by auto

lemma chain_set_prev:
  "chain h q a (v # vs) e \<Longrightarrow> chain (h(a := (h a)\<lparr>hh_pPrev := q'\<rparr>)) q' a (v # vs) e"
  by simp

lemma chain_mark:
  "chain h q a (us @ (c, k) # vs) e \<Longrightarrow>
   chain (h(a + total us := (h (a + total us))\<lparr>hh_ulSentinel := marker k'\<rparr>)) q a (us @ (c, k') # vs) e"
  by (simp add: chain_append)

lemma chain_block:
  assumes "chain h q a (us @ (c, k) # vs) e"
  shows "hh_ulBlockSize (h (a + total us)) = word_of_nat c" "hh_ulSentinel (h (a + total us)) = marker k"
    "hh_pPrev (h (a + total us)) = last_at q a us"
    "hh_pNext (h (a + total us)) = (if vs = [] then e else a + total us + c)" "0 < c"
  using assms by (simp_all add: chain_append)

section \<open>Merging and splitting\<close>

lemma chain_merge:
  assumes ch: "chain (hdr_at H) 0 a (us @ (c, k) # (t, l) # vs) 0" and a: "0 < a"
  defines "b \<equiv> a + total us"
  shows "chain (hdr_at (merge_into b (b + c) H)) 0 a (us @ (c + t, k) # vs) 0"
proof -
  let ?h = "hdr_at H"
  have us: "chain ?h 0 a us b" and head: "chain ?h (last_at 0 a us) b ((c, k) # (t, l) # vs) 0"
    using ch by (simp_all add: chain_append b_def)
  have nx: "hh_pNext (?h (b + c)) = (if vs = [] then 0 else b + c + t)" and ct: "0 < c" "0 < t"
    using head by simp_all
  show ?thesis
  proof (cases vs)
    case Nil
    then show ?thesis
      using us head ct nx by (simp add: merge_into_def Let_def upd_hdr_def set_pPrev_def chain_append b_def)
  next
    case (Cons v vs')
    then show ?thesis
      using us head ct nx a by (simp add: merge_into_def Let_def upd_hdr_def set_pPrev_def chain_append b_def add.assoc)
  qed
qed

lemma chain_split:
  assumes ch: "chain (hdr_at H) 0 a (us @ (s, k) # vs) 0" and a: "0 < a" and vs: "vs \<noteq> []"
    and r: "0 < r" "r < s" "s < 2 ^ 32"
  defines "b \<equiv> a + total us"
  shows "\<exists>H'. split_block b (word_of_nat r) H = Some H' \<and> chain (hdr_at H') 0 a (us @ (r, k) # (s - r, False) # vs) 0 \<and>
    gHI H' = (gHI H)\<lparr>hi_ulTotalCount := hi_ulTotalCount (gHI H) + 1\<rparr> \<and> byte_at H' = byte_at H"
proof -
  let ?h = "hdr_at H"
  obtain v vs' where v: "vs = v # vs'" using vs by (cases vs) auto
  have us: "chain ?h 0 a us b" and head: "chain ?h (last_at 0 a us) b ((s, k) # vs) 0"
    using ch by (simp_all add: chain_append b_def)
  have nx: "hh_pNext (?h b) = b + s" using head v by simp
  have rr: "unat (word_of_nat r :: u32) = r" using r by (simp add: unat_of_nat)
  have sub: "(word_of_nat s - word_of_nat r :: u32) = word_of_nat (s - r)" using r by simp
  show ?thesis
    using us head nx a r v rr sub
    by (simp add: split_block_def Let_def upd_hdr_def set_pPrev_def chain_append b_def marker_def add.assoc)
qed

section \<open>The invariant\<close>

definition taken_next :: "block \<Rightarrow> block \<Rightarrow> bool" where "taken_next x y \<longleftrightarrow> snd x \<or> snd y"

abbreviation pool_base :: "redheap \<Rightarrow> nat" where "pool_base H \<equiv> hi_pbPoolBase (gHI H)"

definition blocks_ok :: "nat \<Rightarrow> nat \<Rightarrow> block list \<Rightarrow> bool" where
  "blocks_ok p n bl \<longleftrightarrow> (p = 4 \<or> p = 8) \<and> total bl = n \<and> n < 2 ^ 32 \<and> (\<forall>x \<in> set bl. HDR p \<le> fst x \<and> p dvd fst x) \<and>
     bl \<noteq> [] \<and> last bl = (HDR p, True) \<and> successively taken_next bl"

definition heap_ok :: "nat \<Rightarrow> redheap \<Rightarrow> block list \<Rightarrow> bool" where
  "heap_ok p H bl \<longleftrightarrow> 0 < pool_base H \<and> chain (hdr_at H) 0 (pool_base H) bl 0 \<and>
     blocks_ok p (unat (hi_ulPoolSize (gHI H))) bl \<and>
     hi_ulAllocCount (gHI H) = word_of_nat (length (filter snd bl)) \<and>
     hi_ulTotalCount (gHI H) = word_of_nat (length bl) \<and>
     hi_ulAllocBytes (gHI H) = word_of_nat (total (filter snd bl))"

lemma HDR_values: "HDR 4 = 16" "HDR 8 = 24"
  by (simp_all add: HDR_def REDHEAP_HDR_SIZE_def REDHEAP_ALIGN_MASK_def)

lemma blocks_HDR: "blocks_ok p n bl \<Longrightarrow> HDR p = 8 + 2 * p" "blocks_ok p n bl \<Longrightarrow> p dvd HDR p" "blocks_ok p n bl \<Longrightarrow> 0 < p"
  by (auto simp: blocks_ok_def HDR_values)

lemma blocks_size:
  assumes "blocks_ok p n (us @ (s, k) # vs)" "vs \<noteq> []"
  shows "s + HDR p \<le> n" "s < 2 ^ 32" "HDR p \<le> s" "p dvd s"
proof -
  obtain ws where "vs = ws @ [(HDR p, True)]"
    using assms by (cases vs rule: rev_cases) (auto simp: blocks_ok_def)
  then show "s + HDR p \<le> n" using assms(1) by (simp add: blocks_ok_def)
  then show "s < 2 ^ 32" using assms(1) by (simp add: blocks_ok_def)
  show "HDR p \<le> s" "p dvd s" using assms(1) by (simp_all add: blocks_ok_def)
qed

lemma free_not_last: "blocks_ok p n (us @ (s, False) # vs) \<Longrightarrow> vs \<noteq> []"
  by (auto simp: blocks_ok_def)

section \<open>Giving out and taking back a block\<close>

definition placed :: "nat \<Rightarrow> nat \<Rightarrow> nat \<Rightarrow> block list" where
  "placed p r s = (if s > r + HDR p then [(r, True), (s - r, False)] else [(s, True)])"

lemma blocks_placed:
  assumes "blocks_ok p n (us @ (s, False) # vs)" "HDR p \<le> r" "r \<le> s" "p dvd r"
  shows "blocks_ok p n (us @ placed p r s @ vs)"
  using assms free_not_last [OF assms(1)]
  by (auto simp: blocks_ok_def placed_def successively_append_iff successively_Cons taken_next_def)

lemma HeapBlockAlloc_ok:
  assumes H: "heap_ok p H (us @ (s, False) # vs)" and r: "HDR p \<le> r" "r \<le> s" "p dvd r"
  shows "\<exists>H'. HeapBlockAlloc p (pool_base H + total us) (word_of_nat r) H = Some H' \<and> heap_ok p H' (us @ placed p r s @ vs) \<and>
    pool_base H' = pool_base H \<and> hi_ulPoolSize (gHI H') = hi_ulPoolSize (gHI H) \<and> byte_at H' = byte_at H"
proof -
  let ?b = "pool_base H + total us"
  have ok: "blocks_ok p (unat (hi_ulPoolSize (gHI H))) (us @ (s, False) # vs)" and base: "0 < pool_base H"
    and ch: "chain (hdr_at H) 0 (pool_base H) (us @ (s, False) # vs) 0" using H by (simp_all add: heap_ok_def)
  note vs = free_not_last [OF ok] and size = blocks_size [OF ok free_not_last [OF ok]]
  note blocks = blocks_placed [OF ok r]
  have us: "unat (word_of_nat s :: u32) = s" "unat (word_of_nat r :: u32) = r" using size(2) r(2) by (simp_all add: unat_of_nat)
  have "r + HDR p < 2 ^ 32" using size(1) r(2) ok by (simp add: blocks_ok_def)
  also have "(2 :: nat) ^ 32 \<le> 2 ^ (8 * p)" using ok by (auto simp: blocks_ok_def)
  finally have split: "splits p (ulBlockSize ?b H) (word_of_nat r) \<longleftrightarrow> s > r + HDR p"
    using chain_block(1) [OF ch] us by (simp add: splits_def)
  show ?thesis
  proof (cases "s > r + HDR p")
    case True
    have "0 < r" using r(1) blocks_HDR(1) [OF ok] by simp
    moreover have "r < s" using True by simp
    ultimately obtain H1 where H1: "split_block ?b (word_of_nat r) H = Some H1"
      and ch1: "chain (hdr_at H1) 0 (pool_base H) (us @ (r, False) # (s - r, False) # vs) 0"
      and g1: "gHI H1 = (gHI H)\<lparr>hi_ulTotalCount := hi_ulTotalCount (gHI H) + 1\<rparr>" "byte_at H1 = byte_at H"
      using chain_split [OF ch base vs _ _ size(2), of r] by blast
    have "HeapBlockAlloc p ?b (word_of_nat r) H = Some (take_block ?b H1)"
      using H1 True by (simp add: HeapBlockAlloc_def split)
    moreover have "heap_ok p (take_block ?b H1) (us @ placed p r s @ vs)"
      using H True blocks chain_mark [OF ch1, of True] chain_block(1) [OF ch1] g1
      by (simp add: heap_ok_def placed_def take_block_def Let_def upd_hdr_def)
        (simp add: marker_def algebra_simps)
    ultimately show ?thesis using g1 by (simp add: take_block_def Let_def upd_hdr_def)
  next
    case False
    have "HeapBlockAlloc p ?b (word_of_nat r) H = Some (take_block ?b H)"
      using False by (simp add: HeapBlockAlloc_def split)
    moreover have "heap_ok p (take_block ?b H) (us @ placed p r s @ vs)"
      using H False blocks chain_mark [OF ch, of True] chain_block(1) [OF ch]
      by (simp add: heap_ok_def placed_def take_block_def Let_def upd_hdr_def)
        (simp add: marker_def algebra_simps)
    ultimately show ?thesis by (simp add: take_block_def Let_def upd_hdr_def)
  qed
qed

text \<open>A free block in the middle and the blocks around it: the one after it and the one before it join it.\<close>

definition join_right :: "nat \<Rightarrow> block list \<Rightarrow> nat \<times> block list" where
  "join_right c vs = (case vs of (t, False) # vs' \<Rightarrow> (c + t, vs') | _ \<Rightarrow> (c, vs))"

definition join_left :: "block list \<Rightarrow> nat \<Rightarrow> block list \<times> nat" where
  "join_left us c = (if us \<noteq> [] \<and> \<not> snd (last us) then (butlast us, fst (last us) + c) else (us, c))"

definition freed :: "block list \<Rightarrow> nat \<Rightarrow> block list \<Rightarrow> block list" where
  "freed us c vs = (let (c, vs) = join_right c vs; (us, c) = join_left us c in us @ (c, False) # vs)"

lemma taken_lists: "filter snd (us @ (c, False) # vs) = filter snd (us @ vs)"
  by simp

definition heap_mid :: "nat \<Rightarrow> redheap \<Rightarrow> block list \<Rightarrow> bool" where
  "heap_mid p H bl \<longleftrightarrow> 0 < pool_base H \<and> chain (hdr_at H) 0 (pool_base H) bl 0 \<and>
     hi_ulAllocCount (gHI H) = word_of_nat (length (filter snd bl)) \<and>
     hi_ulTotalCount (gHI H) = word_of_nat (length bl) \<and>
     hi_ulAllocBytes (gHI H) = word_of_nat (total (filter snd bl))"

lemma heap_ok_mid: "heap_ok p H bl \<longleftrightarrow> heap_mid p H bl \<and> blocks_ok p (unat (hi_ulPoolSize (gHI H))) bl"
  by (auto simp: heap_ok_def heap_mid_def)

lemma merge_into_simps [simp]:
  "gHI (merge_into b n H) = (gHI H)\<lparr>hi_ulTotalCount := hi_ulTotalCount (gHI H) - 1\<rparr>"
  "byte_at (merge_into b n H) = byte_at H"
  by (simp_all add: merge_into_def Let_def upd_hdr_def set_pPrev_def)

lemma merge_mid:
  assumes "heap_mid p H (us @ (c, False) # (t, False) # vs)"
  shows "heap_mid p (merge_into (pool_base H + total us) (pool_base H + total us + c) H) (us @ (c + t, False) # vs)"
  using assms chain_merge [of H "pool_base H" us c False t False vs] by (simp add: heap_mid_def)

lemma release_mid:
  assumes "heap_mid p H (us @ (c, True) # vs)"
  shows "heap_mid p (release_block (pool_base H + total us) H) (us @ (c, False) # vs)"
    and "pool_base (release_block b H) = pool_base H" "hi_ulPoolSize (gHI (release_block b H)) = hi_ulPoolSize (gHI H)"
    and "byte_at (release_block b H) = byte_at H"
  using assms chain_mark [of "hdr_at H" 0 "pool_base H" us c True vs 0 False] chain_block(1) [of "hdr_at H" 0 "pool_base H" us c True vs 0]
  by (simp_all add: heap_mid_def release_block_def Let_def upd_hdr_def marker_def)

lemma HeapBlockFree_mid:
  assumes H: "heap_mid p H (us @ (c, True) # vs)"
  shows "heap_mid p (snd (HeapBlockFree (pool_base H + total us) H)) (freed us c vs) \<and>
    fst (HeapBlockFree (pool_base H + total us) H) = pool_base H + total (fst (join_left us c)) \<and>
    pool_base (snd (HeapBlockFree (pool_base H + total us) H)) = pool_base H \<and>
    hi_ulPoolSize (gHI (snd (HeapBlockFree (pool_base H + total us) H))) = hi_ulPoolSize (gHI H) \<and>
    byte_at (snd (HeapBlockFree (pool_base H + total us) H)) = byte_at H"
proof -
  let ?b = "pool_base H + total us"
  let ?H1 = "release_block ?b H"
  note r = release_mid [OF H]
  have base: "0 < pool_base H" using H by (simp add: heap_mid_def)
  have ch1: "chain (hdr_at ?H1) 0 (pool_base H) (us @ (c, False) # vs) 0" using r(1,2) by (simp add: heap_mid_def)
  define H2 where "H2 = (if pNext ?b ?H1 \<noteq> 0 \<and> REDHEAP_IS_FREE (pNext ?b ?H1) ?H1 then merge_into ?b (pNext ?b ?H1) ?H1 else ?H1)"
  obtain d ws where j: "join_right c vs = (d, ws)" by (cases "join_right c vs")
  have two: "heap_mid p H2 (us @ (d, False) # ws) \<and> pool_base H2 = pool_base H \<and>
      hi_ulPoolSize (gHI H2) = hi_ulPoolSize (gHI H) \<and> byte_at H2 = byte_at H"
  proof (cases vs)
    case Nil
    then show ?thesis using r j chain_block(4) [OF ch1] by (simp add: join_right_def H2_def)
  next
    case (Cons v vs')
    obtain t k where v: "v = (t, k)" by (cases v)
    have nx: "pNext ?b ?H1 = ?b + c" using chain_block(4) [OF ch1] Cons by simp
    have mk: "hh_ulSentinel (hdr_at ?H1 (?b + c)) = marker k"
      using chain_block(2) [of "hdr_at ?H1" 0 "pool_base H" "us @ [(c, False)]" t k vs' 0] ch1 Cons v by (simp add: add.assoc)
    show ?thesis
    proof (cases k)
      case True
      then show ?thesis using r j nx mk base Cons v by (simp add: join_right_def REDHEAP_IS_FREE_def H2_def)
    next
      case False
      have "heap_mid p (merge_into (pool_base ?H1 + total us) (pool_base ?H1 + total us + c) ?H1) (us @ (c + t, False) # vs')"
        by (rule merge_mid) (use r(1) Cons v False in simp)
      moreover have "H2 = merge_into ?b (?b + c) ?H1" using nx mk False base by (simp add: REDHEAP_IS_FREE_def H2_def)
      ultimately show ?thesis
        using r j Cons v False by (simp add: join_right_def)
    qed
  qed
  then have ch2: "chain (hdr_at H2) 0 (pool_base H) (us @ (d, False) # ws) 0" by (metis heap_mid_def)
  have pv: "pPrev ?b H2 = last_at 0 (pool_base H) us" using chain_block(3) [OF ch2] .
  have run: "HeapBlockFree ?b H = (if pPrev ?b H2 \<noteq> 0 \<and> REDHEAP_IS_FREE (pPrev ?b H2) H2
      then (pPrev ?b H2, merge_into (pPrev ?b H2) ?b H2) else (?b, H2))"
    by (simp only: HeapBlockFree_def Let_def H2_def)
  show ?thesis
  proof (cases us rule: rev_cases)
    case Nil
    then show ?thesis using run pv two j base by (simp add: freed_def join_left_def)
  next
    case (snoc us' u)
    obtain t k where u: "u = (t, k)" by (cases u)
    have pu: "pPrev ?b H2 = pool_base H + total us'" using pv snoc by simp
    have mk: "hh_ulSentinel (hdr_at H2 (pool_base H + total us')) = marker k"
      using chain_block(2) [of "hdr_at H2" 0 "pool_base H" us' t k "(d, False) # ws" 0] ch2 snoc u by simp
    show ?thesis
    proof (cases k)
      case True
      then show ?thesis using run pu mk two j base snoc u by (simp add: freed_def join_left_def REDHEAP_IS_FREE_def)
    next
      case False
      have b: "?b = pool_base H + total us' + t" using snoc u by simp
      have m: "heap_mid p (merge_into (pool_base H2 + total us') (pool_base H2 + total us' + t) H2) (us' @ (t + d, False) # ws)"
        by (rule merge_mid) (use two snoc u False in simp)
      have "HeapBlockFree ?b H = (pool_base H + total us', merge_into (pool_base H + total us') ?b H2)"
        using run pu mk False base by (simp add: REDHEAP_IS_FREE_def)
      then show ?thesis
        using m b two j snoc u False by (simp add: freed_def join_left_def add.assoc)
    qed
  qed
qed

lemma join_right_ok:
  assumes "blocks_ok p n (us @ (c, k) # vs)" "vs \<noteq> []"
  shows "case join_right c vs of (d, ws) \<Rightarrow> blocks_ok p n (us @ (d, True) # ws) \<and> ws \<noteq> [] \<and> snd (hd ws)"
proof (cases vs)
  case Nil
  then show ?thesis using assms(2) by simp
next
  case (Cons v vs')
  obtain t l where v: "v = (t, l)" by (cases v)
  show ?thesis
  proof (cases l)
    case True
    then show ?thesis using assms Cons v
      by (auto simp: join_right_def blocks_ok_def successively_append_iff successively_Cons taken_next_def)
  next
    case False
    then have "vs' \<noteq> []" using assms Cons v by (auto simp: blocks_ok_def)
    then show ?thesis using assms Cons v False
      by (auto simp: join_right_def blocks_ok_def successively_append_iff successively_Cons taken_next_def)
  qed
qed

lemma join_left_ok:
  assumes "blocks_ok p n (us @ (d, True) # ws)" "ws \<noteq> []" "snd (hd ws)"
  shows "case join_left us d of (us, e) \<Rightarrow> blocks_ok p n (us @ (e, False) # ws)"
proof (cases us rule: rev_cases)
  case Nil
  then show ?thesis using assms
    by (auto simp: join_left_def blocks_ok_def successively_append_iff successively_Cons taken_next_def)
next
  case (snoc us' u)
  then show ?thesis using assms
    by (cases u) (auto simp: join_left_def blocks_ok_def successively_append_iff successively_Cons taken_next_def)
qed

lemma blocks_freed:
  assumes "blocks_ok p n (us @ (c, True) # vs)" "vs \<noteq> []"
  shows "blocks_ok p n (freed us c vs)"
  using join_right_ok [OF assms] join_left_ok by (fastforce simp: freed_def split: prod.splits)

lemma HeapBlockFree_ok:
  assumes "heap_ok p H (us @ (c, True) # vs)" "vs \<noteq> []"
  shows "heap_ok p (snd (HeapBlockFree (pool_base H + total us) H)) (freed us c vs)"
  using HeapBlockFree_mid [of p H us c vs] blocks_freed [of p _ us c vs] assms by (simp add: heap_ok_mid)

section \<open>The size of a request\<close>

lemma and_not_mask: "(x :: u32) AND NOT (mask n) = push_bit n (drop_bit n x)"
  by (rule bit_word_eqI) (auto simp: bit_simps)

lemma unat_round_down: "unat ((x :: u32) AND NOT (mask n)) = unat x div 2 ^ n * 2 ^ n"
proof -
  have "unat x div 2 ^ n * 2 ^ n \<le> unat x" by simp
  also have "\<dots> < 2 ^ LENGTH(32)" by (rule unsigned_less)
  finally have "take_bit LENGTH(32) (unat x div 2 ^ n * 2 ^ n) = unat x div 2 ^ n * 2 ^ n" by (rule take_bit_nat_eq_self)
  moreover have "unat (x AND NOT (mask n)) = take_bit LENGTH(32) (push_bit n (drop_bit n (unat x)))"
    by (simp only: and_not_mask unsigned_push_bit_eq unsigned_drop_bit_eq take_bit_nat_eq_self [OF unsigned_less])
  ultimately show ?thesis by (simp add: push_bit_eq_mult drop_bit_eq_div)
qed

lemma align_mask: "REDHEAP_ALIGN_MASK 4 = mask 2" "REDHEAP_ALIGN_MASK 8 = mask 3"
  by (simp_all add: REDHEAP_ALIGN_MASK_def mask_eq_exp_minus_1)

text \<open>A request whose block size does not wrap around.\<close>

definition request_ok :: "nat \<Rightarrow> u32 \<Rightarrow> bool" where
  "request_ok p n \<longleftrightarrow> (p = 4 \<or> p = 8) \<and> unat n + p + HDR p \<le> 2 ^ 32"

definition block_for :: "nat \<Rightarrow> nat \<Rightarrow> nat" where
  "block_for p n = (n + (p - 1)) div p * p + HDR p"

lemma unat_sum_small: "unat (x :: u32) + unat y < 2 ^ 32 \<Longrightarrow> unat (x + y) = unat x + unat y"
  by (simp add: unat_word_ariths)

lemma requested_value:
  assumes "request_ok p n"
  shows "unat (requested p n) = block_for p (unat n)"
proof -
  have p: "p = 4 \<or> p = 8" and n: "unat n + p + HDR p \<le> 2 ^ 32" using assms by (simp_all add: request_ok_def)
  obtain k where m: "REDHEAP_ALIGN_MASK p = mask k" "p = 2 ^ k" "unat (mask k :: u32) = p - 1"
    using p align_mask by (auto intro: that [of 2] that [of 3] simp: mask_eq_exp_minus_1)
  have H: "0 < HDR p" using p HDR_values by auto
  have s: "unat (n + mask k) = unat n + (p - 1)" using unat_sum_small [of n "mask k"] n H m(2,3) by simp
  have le: "(unat n + (p - 1)) div p * p \<le> unat n + (p - 1)" by simp
  have "unat ((n + mask k) AND NOT (mask k)) = (unat n + (p - 1)) div p * p"
    unfolding unat_round_down s m(2) ..
  moreover have "unat (REDHEAP_HDR_SIZE p) = HDR p" by (simp add: HDR_def)
  moreover have "(unat n + (p - 1)) div p * p + HDR p < 2 ^ 32" using le n p by auto
  ultimately show ?thesis
    using unat_sum_small [of "(n + mask k) AND NOT (mask k)" "REDHEAP_HDR_SIZE p"]
    by (simp add: requested_def block_for_def m(1))
qed

lemma block_for_bounds:
  assumes "p = 4 \<or> p = 8"
  shows "HDR p \<le> block_for p n" "p dvd block_for p n" "n + HDR p \<le> block_for p n" "block_for p n < n + p + HDR p"
proof -
  show "HDR p \<le> block_for p n" by (simp add: block_for_def)
  show "p dvd block_for p n" using assms HDR_values by (auto simp: block_for_def)
  show "n + HDR p \<le> block_for p n" using assms by (auto simp: block_for_def)
  show "block_for p n < n + p + HDR p" using assms by (auto simp: block_for_def)
qed

section \<open>The search\<close>

fun best_fit :: "nat \<Rightarrow> nat \<Rightarrow> block list \<Rightarrow> nat \<times> nat \<Rightarrow> nat \<times> nat" where
  "best_fit r a [] v = v"
| "best_fit r a (x # xs) (b, s) =
     (if \<not> snd x \<and> r \<le> fst x \<and> (s = 0 \<or> fst x < s)
      then (if fst x = r then (a, fst x) else best_fit r (a + fst x) xs (a, fst x))
      else best_fit r (a + fst x) xs (b, s))"

lemma best_fit_cases:
  assumes "best_fit r a xs (b, s) = (b', s')" "0 < r"
  shows "(b' = b \<and> s' = s) \<or> (\<exists>us vs. xs = us @ (s', False) # vs \<and> b' = a + total us \<and> r \<le> s' \<and> (s = 0 \<or> s' < s))"
  using assms(1)
proof (induction xs arbitrary: a b s)
  case Nil
  then show ?case by simp
next
  case (Cons x xs)
  obtain t k where x: "x = (t, k)" by (cases x)
  show ?case
  proof (cases "\<not> k \<and> r \<le> t \<and> (s = 0 \<or> t < s)")
    case take: True
    show ?thesis
    proof (cases "t = r")
      case True
      then have "b' = a" "s' = t" using Cons.prems take x by simp_all
      then show ?thesis using x take by (intro disjI2 exI [of _ "[]"] exI [of _ xs]) simp
    next
      case False
      then have "best_fit r (a + t) xs (a, t) = (b', s')" using Cons.prems take x by simp
      from Cons.IH [OF this] show ?thesis
      proof
        assume "b' = a \<and> s' = t"
        then show ?thesis using x take by (intro disjI2 exI [of _ "[]"] exI [of _ xs]) simp
      next
        assume "\<exists>us vs. xs = us @ (s', False) # vs \<and> b' = a + t + total us \<and> r \<le> s' \<and> (t = 0 \<or> s' < t)"
        then obtain us vs where "xs = us @ (s', False) # vs" "b' = a + t + total us" "r \<le> s'" "s' < t" using take assms(2) by auto
        then show ?thesis using x take by - (rule disjI2, rule exI [of _ "x # us"], rule exI [of _ vs], auto)
      qed
    qed
  next
    case False
    then have "best_fit r (a + t) xs (b, s) = (b', s')" using Cons.prems x by auto
    from Cons.IH [OF this] show ?thesis
    proof
      assume "\<exists>us vs. xs = us @ (s', False) # vs \<and> b' = a + t + total us \<and> r \<le> s' \<and> (s = 0 \<or> s' < s)"
      then obtain us vs where "xs = us @ (s', False) # vs" "b' = a + t + total us" "r \<le> s'" "s = 0 \<or> s' < s" by blast
      then show ?thesis using x by - (rule disjI2, rule exI [of _ "x # us"], rule exI [of _ vs], auto)
    qed blast
  qed
qed

lemma best_fit_least:
  assumes "best_fit r a xs (b, s) = (b', s')" "0 < r" "s = 0 \<or> r \<le> s"
  shows "(s = 0 \<or> 0 < s' \<and> s' \<le> s) \<and> (\<forall>x \<in> set xs. \<not> snd x \<longrightarrow> r \<le> fst x \<longrightarrow> 0 < s' \<and> s' \<le> fst x)"
  using assms(1,3)
proof (induction xs arbitrary: a b s)
  case Nil
  then show ?case using assms(2) by auto
next
  case (Cons x xs)
  show ?case
  proof (cases "\<not> snd x \<and> r \<le> fst x \<and> (s = 0 \<or> fst x < s)")
    case True
    show ?thesis
    proof (cases "fst x = r")
      case True
      then have "s' = r" using Cons.prems \<open>\<not> snd x \<and> r \<le> fst x \<and> (s = 0 \<or> fst x < s)\<close> by simp
      then show ?thesis using assms(2) Cons.prems(2) by auto
    next
      case False
      then have "best_fit r (a + fst x) xs (a, fst x) = (b', s')" using Cons.prems True by simp
      from Cons.IH [OF this] show ?thesis using True assms(2) by force
    qed
  next
    case False
    then have "best_fit r (a + fst x) xs (b, s) = (b', s')" using Cons.prems by auto
    from Cons.IH [OF this Cons.prems(2)] show ?thesis using False by force
  qed
qed

lemma search_turn_block:
  assumes "hh_ulSentinel (hdr_at H a) = marker k" "hh_ulBlockSize (hdr_at H a) = word_of_nat t"
    "r < 2 ^ 32" "s < 2 ^ 32" "t < 2 ^ 32"
  shows "search_turn H (word_of_nat r) a (b, word_of_nat s) =
    (if \<not> k \<and> r \<le> t \<and> (s = 0 \<or> t < s) then (t = r, a, word_of_nat t) else (False, b, word_of_nat s))"
proof -
  have u: "unat (word_of_nat n :: u32) = n" if "n < 2 ^ 32" for n using that by (simp add: unat_of_nat)
  have "(word_of_nat t :: u32) < word_of_nat s \<longleftrightarrow> t < s" "(word_of_nat r :: u32) \<le> word_of_nat t \<longleftrightarrow> r \<le> t"
    "(word_of_nat s :: u32) = 0 \<longleftrightarrow> s = 0" "(word_of_nat t :: u32) = word_of_nat r \<longleftrightarrow> t = r"
    using u assms(3-5) by (simp_all add: word_less_nat_alt word_le_nat_alt word_unat_eq_iff)
  then show ?thesis
    using assms(1,2) by (auto simp: search_turn_def REDHEAP_IS_FREE_def REDHEAP_IS_ALLOC_def)
qed

lemma heap_search_chain:
  assumes "chain (hdr_at H) q a xs 0" "0 < a" "r < 2 ^ 32" "s < 2 ^ 32" "\<forall>x \<in> set xs. fst x < 2 ^ 32"
  shows "heap_search H (word_of_nat r) (if xs = [] then 0 else a) (b, word_of_nat s) =
    Some (case best_fit r a xs (b, s) of (b, s) \<Rightarrow> (b, word_of_nat s))"
  using assms(1,2,4,5)
proof (induction xs arbitrary: q a b s)
  case Nil
  then show ?case by (subst heap_search.simps) simp
next
  case (Cons x xs)
  obtain t k where x: "x = (t, k)" by (cases x)
  have nx: "pNext a H = (if xs = [] then 0 else a + t)" and ch: "chain (hdr_at H) a (a + t) xs 0" and t: "t < 2 ^ 32"
    using Cons.prems x by auto
  have turn: "search_turn H (word_of_nat r) a (b, word_of_nat s) =
      (if \<not> k \<and> r \<le> t \<and> (s = 0 \<or> t < s) then (t = r, a, word_of_nat t) else (False, b, word_of_nat s))"
    by (rule search_turn_block) (use Cons.prems x t assms(3) in simp_all)
  have IH: "heap_search H (word_of_nat r) (pNext a H) (b, word_of_nat s) =
      Some (case best_fit r (a + t) xs (b, s) of (b, s) \<Rightarrow> (b, word_of_nat s))" if "s < 2 ^ 32" for b s
    unfolding nx by (rule Cons.IH [OF ch _ that]) (use Cons.prems in simp_all)
  have "heap_search H (word_of_nat r) a (b, word_of_nat s) =
      (let (left, best) = search_turn H (word_of_nat r) a (b, word_of_nat s) in
       if left then Some best else heap_search H (word_of_nat r) (pNext a H) best)"
    using Cons.prems(2) by (subst heap_search.simps) simp
  then show ?case using turn IH t Cons.prems(3) x
    by (cases "\<not> k \<and> r \<le> t \<and> (s = 0 \<or> t < s)") auto
qed

end
