(* ===== verification/Red_HeapUse.thy ===== *)
theory Red_HeapUse
  imports Red_HeapProps
begin

text \<open>
  The calls of the allocator over a list of blocks: what an allocation, a release and a reallocation do to the
  blocks and to the bytes in them, what the check reports, and what a client may rely on over any sequence of
  its calls.
\<close>

declare split_paired_Ex [simp del] split_paired_All [simp del]

section \<open>The blocks that are held\<close>

fun regions :: "nat \<Rightarrow> block list \<Rightarrow> (nat \<times> nat) set" where
  "regions a [] = {}"
| "regions a (x # xs) = (if snd x then {(a, fst x)} else {}) \<union> regions (a + fst x) xs"

lemma regions_append [simp]: "regions a (xs @ ys) = regions a xs \<union> regions (a + total xs) ys"
  by (induction xs arbitrary: a) (auto simp: add.assoc)

lemma regions_bounds: "(b, c) \<in> regions a xs \<Longrightarrow> a \<le> b \<and> b + c \<le> a + total xs"
  by (induction xs arbitrary: a) (force split: if_splits)+

lemma regions_split: "(b, c) \<in> regions a xs \<Longrightarrow> \<exists>us vs. xs = us @ (c, True) # vs \<and> b = a + total us"
proof (induction xs arbitrary: a)
  case (Cons x xs)
  show ?case
  proof (cases "(b, c) \<in> regions (a + fst x) xs")
    case True
    from Cons.IH [OF this] obtain us vs where "xs = us @ (c, True) # vs" "b = a + fst x + total us" by blast
    then show ?thesis by - (rule exI [of _ "x # us"], rule exI [of _ vs], simp)
  next
    case False
    then have "snd x" "b = a" "c = fst x" using Cons.prems by (auto split: if_splits)
    then show ?thesis by - (rule exI [of _ "[]"], rule exI [of _ xs], cases x, simp)
  qed
qed simp

lemma regions_apart:
  "(b, c) \<in> regions a xs \<Longrightarrow> (b', c') \<in> regions a xs \<Longrightarrow> (b, c) = (b', c') \<or> b + c \<le> b' \<or> b' + c' \<le> b"
proof (induction xs arbitrary: a)
  case (Cons x xs)
  have "a + fst x \<le> b0" if "(b0, c0) \<in> regions (a + fst x) xs" for b0 c0 using regions_bounds [OF that] by simp
  then show ?case using Cons by (auto split: if_splits)
qed simp

text \<open>The blocks that a client holds: all those allocated but the one that marks where the pool stops.\<close>

definition held :: "redheap \<Rightarrow> block list \<Rightarrow> (nat \<times> nat) set" where
  "held H bl = regions (pool_base H) (butlast bl)"

lemma held_split:
  assumes "(b, c) \<in> held H bl"
  shows "\<exists>us vs. bl = us @ (c, True) # vs \<and> vs \<noteq> [] \<and> b = pool_base H + total us"
proof -
  have "butlast bl \<noteq> []" using assms by (auto simp: held_def)
  then have "bl = butlast bl @ [last bl]" by (metis append_butlast_last_id butlast.simps(1))
  moreover obtain us vs where "butlast bl = us @ (c, True) # vs" "b = pool_base H + total us"
    using regions_split assms by (metis held_def)
  ultimately have "bl = us @ (c, True) # vs @ [last bl]" "b = pool_base H + total us" by simp_all
  then show ?thesis by blast
qed

lemma held_middle: "vs \<noteq> [] \<Longrightarrow> held H (us @ x # vs) =
    regions (pool_base H) us \<union> (if snd x then {(pool_base H + total us, fst x)} else {}) \<union>
    regions (pool_base H + total us + fst x) (butlast vs)"
  by (auto simp: held_def butlast_append add.assoc)

text \<open>The block that is allocated out of a free one.\<close>

definition placed_size :: "nat \<Rightarrow> nat \<Rightarrow> nat \<Rightarrow> nat" where
  "placed_size p r s = (if s > r + HDR p then r else s)"

lemma held_placed:
  assumes "vs \<noteq> []" "r \<le> s" "0 < s" "pool_base H' = pool_base H"
  shows "held H' (us @ placed p r s @ vs) = insert (pool_base H + total us, placed_size p r s) (held H (us @ (s, False) # vs))"
    and "0 < c \<Longrightarrow> (pool_base H + total us, c) \<notin> held H (us @ (s, False) # vs)"
proof -
  show "held H' (us @ placed p r s @ vs) = insert (pool_base H + total us, placed_size p r s) (held H (us @ (s, False) # vs))"
    using assms by (auto simp: held_def placed_def placed_size_def butlast_append add.assoc)
  have "(pool_base H + total us, c) \<notin> regions (pool_base H + total us + s) (butlast vs)"
    using regions_bounds assms(3) by fastforce
  moreover have "(pool_base H + total us, c) \<notin> regions (pool_base H) us" if "0 < c"
    using regions_bounds that by fastforce
  ultimately show "0 < c \<Longrightarrow> (pool_base H + total us, c) \<notin> held H (us @ (s, False) # vs)"
    using assms by (simp add: held_middle)
qed

lemma join_right_regions:
  "join_right c vs = (d, ws) \<Longrightarrow> vs \<noteq> [] \<Longrightarrow> ws \<noteq> [] \<Longrightarrow> regions (a + d) (butlast ws) = regions (a + c) (butlast vs)"
  by (auto simp: join_right_def add.assoc split: list.splits prod.splits bool.splits)

lemma join_left_regions:
  assumes "join_left us c = (us', e)"
  shows "regions a us' = regions a us" "total us' + e = total us + c"
  using assms by (cases us rule: rev_cases; auto simp: join_left_def split: if_splits)+

lemma held_freed:
  assumes bl: "blocks_ok p n (us @ (c, True) # vs)" and vs: "vs \<noteq> []" and base: "pool_base H' = pool_base H"
  shows "held H' (freed us c vs) = held H (us @ (c, True) # vs) - {(pool_base H + total us, c)}"
proof -
  obtain d ws where j: "join_right c vs = (d, ws)" by (cases "join_right c vs")
  obtain us' e where k: "join_left us d = (us', e)" by (cases "join_left us d")
  have ws: "ws \<noteq> []" using join_right_ok [OF bl vs] j by simp
  have c: "0 < c" using bl blocks_HDR(1) [OF bl] by (auto simp: blocks_ok_def)
  let ?b = "pool_base H + total us"
  have e: "regions (pool_base H + total us' + e) (butlast ws) = regions (?b + c) (butlast vs)"
    using join_left_regions(2) [OF k] join_right_regions [OF j vs ws, of ?b] by (simp add: add.assoc)
  have out: "(?b, c) \<notin> regions (pool_base H) us" "(?b, c) \<notin> regions (?b + c) (butlast vs)"
    using c regions_bounds [of ?b c] by fastforce+
  show ?thesis
    using out e join_left_regions(1) [OF k] ws base
    by (auto simp: freed_def j k held_middle vs)
qed

section \<open>Allocation\<close>

lemma blocks_sizes: "blocks_ok p n bl \<Longrightarrow> \<forall>x \<in> set bl. fst x < 2 ^ 32"
proof
  fix x assume bl: "blocks_ok p n bl" and "x \<in> set bl"
  then have "fst x \<le> total bl" by (simp add: total_def member_le_sum_list)
  then show "fst x < 2 ^ 32" using bl by (simp add: blocks_ok_def)
qed

lemma block_for_word:
  assumes "request_ok p n"
  shows "requested p n = word_of_nat (block_for p (unat n))" "block_for p (unat n) < 2 ^ 32" "0 < block_for p (unat n)"
proof -
  have "unat (requested p n) < 2 ^ LENGTH(32)" by (rule unsigned_less)
  then show r: "block_for p (unat n) < 2 ^ 32" using requested_value [OF assms] by simp
  show "requested p n = word_of_nat (block_for p (unat n))"
    using requested_value [OF assms] r by (simp add: word_unat_eq_iff unat_of_nat)
  show "0 < block_for p (unat n)" using assms by (auto simp: request_ok_def block_for_def HDR_values)
qed

lemma RedHeapAlloc_ok:
  assumes H: "heap_ok p H bl" and n: "request_ok p n"
  shows "(RedHeapAlloc p n H = Some (0, H) \<and> (\<forall>x \<in> set bl. \<not> snd x \<longrightarrow> fst x < block_for p (unat n))) \<or>
    (\<exists>us s vs H'. bl = us @ (s, False) # vs \<and> block_for p (unat n) \<le> s \<and>
       (\<forall>x \<in> set bl. \<not> snd x \<longrightarrow> block_for p (unat n) \<le> fst x \<longrightarrow> s \<le> fst x) \<and>
       RedHeapAlloc p n H = Some (pool_base H + total us + HDR p, H') \<and>
       heap_ok p H' (us @ placed p (block_for p (unat n)) s @ vs) \<and> pool_base H' = pool_base H \<and>
       hi_ulPoolSize (gHI H') = hi_ulPoolSize (gHI H) \<and> byte_at H' = byte_at H)"
proof -
  let ?r = "block_for p (unat n)"
  note r = block_for_word [OF n]
  have p: "p = 4 \<or> p = 8" using n by (simp add: request_ok_def)
  have ch: "chain (hdr_at H) 0 (pool_base H) bl 0" and base: "0 < pool_base H" and ok: "blocks_ok p (unat (hi_ulPoolSize (gHI H))) bl"
    using H by (simp_all add: heap_ok_def)
  obtain b s where f: "best_fit ?r (pool_base H) bl (0, 0) = (b, s)" by (cases "best_fit ?r (pool_base H) bl (0, 0)")
  have ne: "bl \<noteq> []" using ok by (simp add: blocks_ok_def)
  have search: "heap_search H (word_of_nat ?r) (pool_base H) (0, 0) = Some (b, word_of_nat s)"
    using heap_search_chain [OF ch base r(2) _ blocks_sizes [OF ok], of 0 0] f ne by simp
  from best_fit_cases [OF f r(3)] show ?thesis
  proof
    assume "b = 0 \<and> s = 0"
    then show ?thesis using search best_fit_least [OF f r(3)] by (auto simp: RedHeapAlloc_def r(1) not_le [symmetric])
  next
    assume "\<exists>us vs. bl = us @ (s, False) # vs \<and> b = pool_base H + total us \<and> ?r \<le> s \<and> (0 = (0::nat) \<or> s < 0)"
    then obtain us vs where bl: "bl = us @ (s, False) # vs" and b: "b = pool_base H + total us" and rs: "?r \<le> s" by blast
    obtain H' where a: "HeapBlockAlloc p (pool_base H + total us) (word_of_nat ?r) H = Some H'"
      and H': "heap_ok p H' (us @ placed p ?r s @ vs)" "pool_base H' = pool_base H"
        "hi_ulPoolSize (gHI H') = hi_ulPoolSize (gHI H)" "byte_at H' = byte_at H"
      using HeapBlockAlloc_ok [OF H [unfolded bl] block_for_bounds(1) [OF p] rs block_for_bounds(2) [OF p]] by blast
    have "s < 2 ^ 32" using blocks_sizes [OF ok] bl by simp
    then have "(word_of_nat s :: u32) \<noteq> 0" using rs r(3) by (simp add: word_unat_eq_iff unat_of_nat)
    then have "RedHeapAlloc p n H = Some (pool_base H + total us + HDR p, H')"
      using search a b by (simp add: RedHeapAlloc_def r(1) word_neq_0_conv)
    moreover have "\<forall>x \<in> set bl. \<not> snd x \<longrightarrow> ?r \<le> fst x \<longrightarrow> s \<le> fst x" using best_fit_least [OF f r(3)] by blast
    ultimately show ?thesis using bl rs H' by blast
  qed
qed

section \<open>Release\<close>

text \<open>
  The limit that the code sets on the addresses it takes back; a block of no more than two headers that
  lies right before the mark of the pool is over it.
\<close>

definition reachable_block :: "nat \<Rightarrow> redheap \<Rightarrow> nat \<times> nat \<Rightarrow> bool" where
  "reachable_block p H x \<longleftrightarrow> fst x + 3 * HDR p < pool_base H + unat (hi_ulPoolSize (gHI H))"

lemma held_alloc:
  assumes H: "heap_ok p H bl" and bc: "(b, c) \<in> held H bl"
  shows "REDHEAP_IS_ALLOC b H" "ulBlockSize b H = word_of_nat c" "HDR p \<le> c" "p dvd c" "c < 2 ^ 32"
    "pool_base H \<le> b" "b + c + HDR p \<le> pool_base H + unat (hi_ulPoolSize (gHI H))"
proof -
  obtain us vs where bl: "bl = us @ (c, True) # vs" and vs: "vs \<noteq> []" and b: "b = pool_base H + total us"
    using held_split [OF bc] by blast
  have ok: "blocks_ok p (unat (hi_ulPoolSize (gHI H))) (us @ (c, True) # vs)" and ch: "chain (hdr_at H) 0 (pool_base H) bl 0"
    using H bl by (simp_all add: heap_ok_def)
  note blk = chain_block [OF ch [unfolded bl]] and size = blocks_size [OF ok vs]
  show "REDHEAP_IS_ALLOC b H" "ulBlockSize b H = word_of_nat c"
    using blk(1,2) b by (simp_all add: REDHEAP_IS_ALLOC_def)
  show "HDR p \<le> c" "p dvd c" "c < 2 ^ 32" "pool_base H \<le> b" using size b by (simp_all only: le_add1)
  obtain ws w where w: "vs = ws @ [w]" using vs by (cases vs rule: rev_cases) auto
  then have "w = (HDR p, True)" using ok by (simp add: blocks_ok_def)
  then have "total us + c + HDR p \<le> unat (hi_ulPoolSize (gHI H))" using ok w by (simp add: blocks_ok_def)
  then show "b + c + HDR p \<le> pool_base H + unat (hi_ulPoolSize (gHI H))" using b by simp
qed

lemma heap_HDR: "heap_ok p H bl \<Longrightarrow> p = 4 \<or> p = 8" "heap_ok p H bl \<Longrightarrow> HDR p = 8 + 2 * p"
  by (simp add: heap_ok_def blocks_ok_def) (metis heap_ok_def blocks_HDR(1))

lemma outside_held:
  assumes H: "heap_ok p H bl" and bc: "(b, c) \<in> held H bl"
  shows "outside_pool p (b + HDR p) H \<longleftrightarrow> \<not> reachable_block p H (b, c)"
proof -
  let ?n = "hi_ulPoolSize (gHI H)"
  have u: "unat (REDHEAP_HDR_SIZE p * 2) = 2 * HDR p"
    using heap_HDR(1) [OF H] by (elim disjE) (simp_all add: HDR_def REDHEAP_HDR_SIZE_def REDHEAP_ALIGN_MASK_def)
  have le: "2 * HDR p \<le> unat ?n" using held_alloc(3,6,7) [OF H bc] by simp
  have "unat (?n - REDHEAP_HDR_SIZE p * 2) = unat ?n - 2 * HDR p"
    using unat_sub [of "REDHEAP_HDR_SIZE p * 2" ?n] u le by (simp add: word_le_nat_alt)
  then show ?thesis using held_alloc(6) [OF H bc] le by (auto simp: outside_pool_def reachable_block_def)
qed

text \<open>What a call keeps of the pool and of the blocks in it.\<close>

definition same_pool :: "redheap \<Rightarrow> redheap \<Rightarrow> bool" where
  "same_pool H H' \<longleftrightarrow> pool_base H' = pool_base H \<and> hi_ulPoolSize (gHI H') = hi_ulPoolSize (gHI H)"

lemma HeapBlockFree_held:
  assumes H: "heap_ok p H bl" and bc: "(b, c) \<in> held H bl"
  shows "\<exists>bl'. heap_ok p (snd (HeapBlockFree b H)) bl' \<and> same_pool H (snd (HeapBlockFree b H)) \<and>
    held (snd (HeapBlockFree b H)) bl' = held H bl - {(b, c)} \<and> byte_at (snd (HeapBlockFree b H)) = byte_at H"
proof -
  obtain us vs where bl: "bl = us @ (c, True) # vs" and vs: "vs \<noteq> []" and b: "b = pool_base H + total us"
    using held_split [OF bc] by blast
  have ok: "blocks_ok p (unat (hi_ulPoolSize (gHI H))) (us @ (c, True) # vs)" and mid: "heap_mid p H (us @ (c, True) # vs)"
    using H bl by (simp_all add: heap_ok_mid)
  note f = HeapBlockFree_mid [OF mid]
  have "held (snd (HeapBlockFree (pool_base H + total us) H)) (freed us c vs) = held H bl - {(b, c)}"
    using held_freed [OF ok vs] f bl b by simp
  then show ?thesis using HeapBlockFree_ok [OF H [unfolded bl] vs] f b by (auto simp: same_pool_def)
qed

lemma RedHeapFree_ok:
  assumes H: "heap_ok p H bl" and bc: "(b, c) \<in> held H bl" and r: "reachable_block p H (b, c)"
  shows "\<exists>bl'. heap_ok p (RedHeapFree p (b + HDR p) H) bl' \<and> same_pool H (RedHeapFree p (b + HDR p) H) \<and>
    held (RedHeapFree p (b + HDR p) H) bl' = held H bl - {(b, c)} \<and> byte_at (RedHeapFree p (b + HDR p) H) = byte_at H"
proof -
  have "RedHeapFree p (b + HDR p) H = snd (HeapBlockFree b H)"
    using outside_held [OF H bc] held_alloc(1) [OF H bc] r by (simp add: RedHeapFree_def)
  then show ?thesis using HeapBlockFree_held [OF H bc] by simp
qed

lemma RedHeapFree_rejected:
  "heap_ok p H bl \<Longrightarrow> (b, c) \<in> held H bl \<Longrightarrow> \<not> reachable_block p H (b, c) \<Longrightarrow> RedHeapFree p (b + HDR p) H = H"
  using outside_held by (simp add: RedHeapFree_def)

lemma reachable_large:
  assumes "heap_ok p H bl" "(b, c) \<in> held H bl" "c > 2 * HDR p"
  shows "reachable_block p H (b, c)"
  using held_alloc(7) [OF assms(1,2)] assms(3) by (simp add: reachable_block_def)

section \<open>The check\<close>

lemma check_loop_chain:
  assumes "chain (hdr_at H) q a xs 0" "0 < a" "\<forall>x \<in> set xs. fst x < 2 ^ 32" "q = 0 \<or> hh_pNext (hdr_at H q) = a"
  shows "check_loop H (if xs = [] then 0 else a) t = Some (Some
    \<lparr>tl_ulAllocated = tl_ulAllocated t + word_of_nat (length (filter snd xs)),
     tl_ulFree = tl_ulFree t + word_of_nat (length (filter (\<lambda>x. \<not> snd x) xs)),
     tl_ulBytesAllocated = tl_ulBytesAllocated t + word_of_nat (total (filter snd xs))\<rparr>)"
  using assms
proof (induction xs arbitrary: q a t)
  case Nil
  then show ?case by (subst check_loop.simps) simp
next
  case (Cons x xs)
  obtain s k where x: "x = (s, k)" by (cases x)
  have nx: "pNext a H = (if xs = [] then 0 else a + s)" and ch: "chain (hdr_at H) a (a + s) xs 0"
    and mk: "hh_ulSentinel (hdr_at H a) = marker k" and sz: "ulBlockSize a H = word_of_nat s" and pv: "pPrev a H = q"
    using Cons.prems x by auto
  have links: "\<not> links_broken a H"
    using Cons.prems(4) nx sz pv ch by (cases xs) (auto simp: links_broken_def)
  have sent: "REDHEAP_IS_FREE a H \<longleftrightarrow> \<not> k" "REDHEAP_IS_ALLOC a H \<longleftrightarrow> k"
    using mk by (simp_all add: REDHEAP_IS_FREE_def REDHEAP_IS_ALLOC_def)
  have IH: "check_loop H (pNext a H) t = Some (Some
    \<lparr>tl_ulAllocated = tl_ulAllocated t + word_of_nat (length (filter snd xs)),
     tl_ulFree = tl_ulFree t + word_of_nat (length (filter (\<lambda>x. \<not> snd x) xs)),
     tl_ulBytesAllocated = tl_ulBytesAllocated t + word_of_nat (total (filter snd xs))\<rparr>)" for t
  proof (cases "xs = []")
    case True
    then show ?thesis using nx by (subst check_loop.simps) simp
  next
    case False
    then show ?thesis using Cons.IH [OF ch, of t] Cons.prems(2,3) nx x by simp
  qed
  show ?case
    using IH links sent sz Cons.prems(2) x by (subst check_loop.simps) (cases k, simp_all add: algebra_simps)
qed

lemma RedHeapCheck_ok:
  assumes "heap_ok p H bl"
  shows "RedHeapCheck H = Some 0"
proof -
  have ok: "blocks_ok p (unat (hi_ulPoolSize (gHI H))) bl" and ch: "chain (hdr_at H) 0 (pool_base H) bl 0"
    and base: "0 < pool_base H" using assms by (simp_all add: heap_ok_def)
  have ne: "bl \<noteq> []" using ok by (simp add: blocks_ok_def)
  have "length bl = length (filter snd bl) + length (filter (\<lambda>x. \<not> snd x) bl)" by (simp add: sum_length_filter_compl)
  then have "(word_of_nat (length bl) :: u32) = word_of_nat (length (filter snd bl)) + word_of_nat (length (filter (\<lambda>x. \<not> snd x) bl))"
    by (metis of_nat_add)
  then show ?thesis
    using check_loop_chain [OF ch base blocks_sizes [OF ok]] ne assms
    by (simp add: RedHeapCheck_def heap_ok_def)
qed

section \<open>Initialisation\<close>

lemma word_of_unat: "unat (w :: u32) = m \<Longrightarrow> w = word_of_nat m"
  by auto

text \<open>What the code asserts of the memory it is given.\<close>

definition pool_ok :: "nat \<Rightarrow> nat \<Rightarrow> u32 \<Rightarrow> bool" where
  "pool_ok p b n \<longleftrightarrow> (p = 4 \<or> p = 8) \<and> 0 < b \<and> 2 * HDR p \<le> unat n \<and> p dvd unat n"

lemma RedHeapInit_blocks:
  assumes "pool_ok p b n"
  shows "heap_ok p (RedHeapInit p b n H) [(unat n - HDR p, False), (HDR p, True)]" "pool_base (RedHeapInit p b n H) = b"
proof -
  have p: "p = 4 \<or> p = 8" and n: "2 * HDR p \<le> unat n" "p dvd unat n" and b: "0 < b" using assms by (simp_all add: pool_ok_def)
  obtain k where m: "REDHEAP_ALIGN_MASK p = mask k" "p = 2 ^ k"
    using p align_mask by (auto intro: that [of 2] that [of 3])
  have h: "unat (REDHEAP_HDR_SIZE p) = HDR p" "p dvd HDR p" "0 < HDR p" using p HDR_values by (auto simp: HDR_def)
  have "unat (n - REDHEAP_HDR_SIZE p) = unat n - HDR p"
    using unat_sub [of "REDHEAP_HDR_SIZE p" n] h n by (simp add: word_le_nat_alt)
  moreover have "p dvd unat n - HDR p" using n h by simp
  ultimately have first: "unat ((n - REDHEAP_HDR_SIZE p) AND NOT (REDHEAP_ALIGN_MASK p)) = unat n - HDR p"
    using m by (simp add: unat_round_down)
  then have word: "(n - REDHEAP_HDR_SIZE p) AND NOT (REDHEAP_ALIGN_MASK p) = word_of_nat (unat n - HDR p)"
    by (rule word_of_unat)
  have lt: "unat n < 2 ^ LENGTH(32)" by (rule unsigned_less)
  have G: "gHI (RedHeapInit p b n H) = \<lparr>hi_pbPoolBase = b, hi_ulPoolSize = n, hi_ulAllocBytes = word_of_nat (HDR p),
      hi_ulMaxAllocBytes = word_of_nat (HDR p), hi_ulAllocCount = 1, hi_ulTotalCount = 2\<rparr>"
    unfolding RedHeapInit_def Let_def unfolding word_of_unat [OF h(1)] by simp
  have H: "hdr_at (RedHeapInit p b n H) = (hdr_at H)
      (b := \<lparr>hh_ulSentinel = marker False, hh_ulBlockSize = word_of_nat (unat n - HDR p), hh_pNext = b + (unat n - HDR p), hh_pPrev = 0\<rparr>,
       b + (unat n - HDR p) := \<lparr>hh_ulSentinel = marker True, hh_ulBlockSize = word_of_nat (HDR p), hh_pNext = 0, hh_pPrev = b\<rparr>)"
    unfolding RedHeapInit_def Let_def first word marker_def if_True if_False unfolding word_of_unat [OF h(1)]
    by (simp add: first [unfolded word])
  have "chain (hdr_at (RedHeapInit p b n H)) 0 b [(unat n - HDR p, False), (HDR p, True)] 0"
    unfolding H using n(1) h(3) by auto
  moreover have "blocks_ok p (unat n) [(unat n - HDR p, False), (HDR p, True)]"
    using p n h(2) lt by (auto simp: blocks_ok_def taken_next_def)
  ultimately show "heap_ok p (RedHeapInit p b n H) [(unat n - HDR p, False), (HDR p, True)]"
    using b by (simp add: heap_ok_def G del: chain.simps)
  show "pool_base (RedHeapInit p b n H) = b" by (simp add: RedHeapInit_def Let_def)
qed

section \<open>Reallocation\<close>

lemma realloc_search_step:
  assumes "chain (hdr_at H) q a ((t, k) # xs) 0" "0 < a" "a \<noteq> b" "r < 2 ^ 32" "s < 2 ^ 32" "t < 2 ^ 32"
  shows "realloc_search H (word_of_nat r) a (b, word_of_nat s) =
    (let (left, best) = (if \<not> k \<and> r \<le> t \<and> (s = 0 \<or> t < s) then (t = r, a, word_of_nat t) else (False, b, word_of_nat s))
     in if left then Some best else realloc_search H (word_of_nat r) (if xs = [] then 0 else a + t) best)"
proof -
  have "search_turn H (word_of_nat r) a (b, word_of_nat s) =
      (if \<not> k \<and> r \<le> t \<and> (s = 0 \<or> t < s) then (t = r, a, word_of_nat t) else (False, b, word_of_nat s))"
    by (rule search_turn_block) (use assms in simp_all)
  then show ?thesis using assms by (subst realloc_search.simps) simp
qed

text \<open>The search without a block to skip is the search of an allocation.\<close>

lemma realloc_search_plain:
  assumes "chain (hdr_at H) q a xs 0" "0 < a" "r < 2 ^ 32" "s < 2 ^ 32" "\<forall>x \<in> set xs. 0 < fst x \<and> fst x < 2 ^ 32"
    "b < a \<or> a + total xs \<le> b"
  shows "realloc_search H (word_of_nat r) (if xs = [] then 0 else a) (b, word_of_nat s) =
    Some (case best_fit r a xs (b, s) of (b, s) \<Rightarrow> (b, word_of_nat s))"
  using assms(1,2,4,5,6)
proof (induction xs arbitrary: q a b s)
  case Nil
  then show ?case by (subst realloc_search.simps) simp
next
  case (Cons x xs)
  obtain t k where x: "x = (t, k)" by (cases x)
  have t: "0 < t" "t < 2 ^ 32" and ch: "chain (hdr_at H) a (a + t) xs 0" using Cons.prems x by auto
  have IH: "realloc_search H (word_of_nat r) (if xs = [] then 0 else a + t) (b, word_of_nat s) =
      Some (case best_fit r (a + t) xs (b, s) of (b, s) \<Rightarrow> (b, word_of_nat s))" if "s < 2 ^ 32" "b < a + t \<or> a + t + total xs \<le> b" for b s
    by (rule Cons.IH [OF ch _ that(1) _ that(2)]) (use Cons.prems in simp_all)
  have step: "realloc_search H (word_of_nat r) a (b, word_of_nat s) =
    (let (left, best) = (if \<not> k \<and> r \<le> t \<and> (s = 0 \<or> t < s) then (t = r, a, word_of_nat t) else (False, b, word_of_nat s))
     in if left then Some best else realloc_search H (word_of_nat r) (if xs = [] then 0 else a + t) best)"
    by (rule realloc_search_step) (use Cons.prems x t assms(3) in auto)
  have out: "b < a + t \<or> a + t + total xs \<le> b" using Cons.prems(5) x by auto
  show ?case
  proof (cases "\<not> k \<and> r \<le> t \<and> (s = 0 \<or> t < s)")
    case True
    then show ?thesis using step IH [of t a] t x by (cases "t = r") simp_all
  next
    case False
    then show ?thesis using step IH [OF Cons.prems(3) out] x by auto
  qed
qed

text \<open>With a block to skip, the result is that block or a free block that is better.\<close>

definition found_in :: "nat \<Rightarrow> nat \<Rightarrow> block list \<Rightarrow> nat \<Rightarrow> nat \<Rightarrow> bool" where
  "found_in r a xs b s \<longleftrightarrow> (\<exists>us vs. xs = us @ (s, False) # vs \<and> b = a + total us \<and> r \<le> s)"

lemma found_in_append: "found_in r (a + total us) xs b s \<Longrightarrow> found_in r a (us @ xs) b s"
  unfolding found_in_def by (metis append_assoc add.assoc total_simps(3))

lemma found_in_Cons: "found_in r (a + fst x) xs b s \<Longrightarrow> found_in r a (x # xs) b s"
  using found_in_append [of r a "[x]"] by simp

lemma best_fit_found:
  assumes "best_fit r a xs (b, s) = (b', s')" "0 < r"
  shows "(b' = b \<and> s' = s) \<or> found_in r a xs b' s'"
  using best_fit_cases [OF assms] by (auto simp: found_in_def)

lemma realloc_search_skip:
  assumes "chain (hdr_at H) q a (us @ gs @ vs) 0" "0 < a" "0 < r" "r < 2 ^ 32" "total gs < 2 ^ 32"
    "\<forall>x \<in> set (us @ gs @ vs). 0 < fst x \<and> fst x < 2 ^ 32" "gs \<noteq> []" "vs \<noteq> []" "r \<le> total gs"
  shows "\<exists>b s. realloc_search H (word_of_nat r) a (a + total us, word_of_nat (total gs)) = Some (b, word_of_nat s) \<and>
    ((b = a + total us \<and> s = total gs) \<or> found_in r a (us @ gs @ vs) b s)"
  using assms(1,2,6)
proof (induction us arbitrary: q a)
  case Nil
  have ch: "chain (hdr_at H) (last_at q a gs) (a + total gs) vs 0" using Nil.prems(1) by (simp add: chain_append)
  have "0 < total gs" using assms(3,9) by simp
  then have out: "a < a + total gs \<or> a + total gs + total vs \<le> a" by simp
  obtain b s where f: "best_fit r (a + total gs) vs (a, total gs) = (b, s)" by (cases "best_fit r (a + total gs) vs (a, total gs)")
  have u: "unat (word_of_nat (total gs) :: u32) = total gs" using assms(5) by (simp add: unat_of_nat)
  have "realloc_search H (word_of_nat r) a (a, word_of_nat (total gs)) =
      realloc_search H (word_of_nat r) (a + total gs) (a, word_of_nat (total gs))"
    using Nil.prems(2) u by (subst realloc_search.simps) simp
  also have "\<dots> = Some (b, word_of_nat s)"
    using realloc_search_plain [OF ch _ assms(4,5) _ out] Nil.prems f assms(8) by simp
  finally show ?case using best_fit_found [OF f assms(3)] found_in_append [of r a gs vs] by auto
next
  case (Cons x us)
  obtain t k where x: "x = (t, k)" by (cases x)
  have t: "0 < t" "t < 2 ^ 32" and ch: "chain (hdr_at H) a (a + t) (us @ gs @ vs) 0" using Cons.prems assms(8) x by auto
  have out: "a < a + t \<or> a + t + total (us @ gs @ vs) \<le> a" using t by simp
  have ne: "us @ gs @ vs \<noteq> []" using assms(8) by simp
  have step: "realloc_search H (word_of_nat r) a (a + total (x # us), word_of_nat (total gs)) =
    (let (left, best) = (if \<not> k \<and> r \<le> t \<and> (total gs = 0 \<or> t < total gs) then (t = r, a, word_of_nat t)
        else (False, a + total (x # us), word_of_nat (total gs)))
     in if left then Some best else realloc_search H (word_of_nat r) (if us @ gs @ vs = [] then 0 else a + t) best)"
    by (rule realloc_search_step) (use Cons.prems x t assms(4,5) in auto)
  show ?case
  proof (cases "\<not> k \<and> r \<le> t \<and> (total gs = 0 \<or> t < total gs)")
    case True
    have here: "found_in r a ((x # us) @ gs @ vs) a t"
      using True x by (auto simp: found_in_def intro: exI [of _ "[]"])
    show ?thesis
    proof (cases "t = r")
      case True
      then show ?thesis using step \<open>\<not> k \<and> r \<le> t \<and> (total gs = 0 \<or> t < total gs)\<close> here by auto
    next
      case False
      obtain b s where f: "best_fit r (a + t) (us @ gs @ vs) (a, t) = (b, s)"
        by (cases "best_fit r (a + t) (us @ gs @ vs) (a, t)")
      have "realloc_search H (word_of_nat r) a (a + total (x # us), word_of_nat (total gs)) = Some (b, word_of_nat s)"
        using step True False realloc_search_plain [OF ch _ assms(4) t(2) _ out] Cons.prems f ne by simp
      then show ?thesis using best_fit_found [OF f assms(3)] here found_in_Cons [of r a x] x by auto
    qed
  next
    case False
    have eq: "a + total (x # us) = a + t + total us" using x by simp
    have "\<exists>b s. realloc_search H (word_of_nat r) (a + t) (a + t + total us, word_of_nat (total gs)) = Some (b, word_of_nat s) \<and>
        ((b = a + t + total us \<and> s = total gs) \<or> found_in r (a + t) (us @ gs @ vs) b s)"
      by (rule Cons.IH [OF ch]) (use Cons.prems in simp_all)
    then show ?thesis using step False ne found_in_Cons [of r a x] unfolding eq by (fastforce simp: x)
  qed
qed

text \<open>The block with its free neighbours.\<close>

lemma chain_free:
  "chain (hdr_at H) q a (us @ (t, k) # vs) e \<Longrightarrow> REDHEAP_IS_FREE (a + total us) H \<longleftrightarrow> \<not> k"
  using chain_block(2) by (simp add: REDHEAP_IS_FREE_def)

lemma joined_split:
  assumes "join_right c vs = (d, ws)" "join_left us d = (us', e)"
  shows "\<exists>gs. us @ (c, True) # vs = us' @ gs @ ws \<and> total gs = e \<and> gs \<noteq> []"
proof -
  obtain g1 where g1: "(c, True) # vs = g1 @ ws" "total g1 = d" "g1 \<noteq> []"
  proof (cases vs)
    case Nil
    then show ?thesis using assms(1) that [of "[(c, True)]"] by (simp add: join_right_def)
  next
    case (Cons v vs')
    then show ?thesis using assms(1) that [of "[(c, True)]"] that [of "[(c, True), v]"]
      by (cases v) (auto simp: join_right_def split: bool.splits)
  qed
  show ?thesis
  proof (cases "us \<noteq> [] \<and> \<not> snd (last us)")
    case True
    then have "us @ (c, True) # vs = us' @ (last us # g1) @ ws" "total (last us # g1) = e"
      using g1 assms(2) by (auto simp: join_left_def)
    then show ?thesis by blast
  next
    case False
    then show ?thesis using g1 assms(2) by (auto simp: join_left_def)
  qed
qed

lemma merged_candidate_ok:
  assumes H: "heap_ok p H (us @ (c, True) # vs)" and vs: "vs \<noteq> []"
    and j: "join_right c vs = (d, ws)" and k: "join_left us d = (us', e)"
  shows "merged_candidate (pool_base H + total us) R H =
      (if word_of_nat e < R then (0, 0) else (pool_base H + total us', word_of_nat e))"
proof -
  let ?b = "pool_base H + total us"
  have ch: "chain (hdr_at H) 0 (pool_base H) (us @ (c, True) # vs) 0" and base: "0 < pool_base H"
    using H by (simp_all add: heap_ok_def)
  obtain v vs' where v: "vs = v # vs'" using vs by (cases vs) auto
  obtain t l where tl: "v = (t, l)" by (cases v)
  have nx: "pNext ?b H = ?b + c" and pv: "pPrev ?b H = last_at 0 (pool_base H) us" and sz: "ulBlockSize ?b H = word_of_nat c"
    using chain_block [OF ch] v by simp_all
  have ch2: "chain (hdr_at H) 0 (pool_base H) ((us @ [(c, True)]) @ (t, l) # vs') 0" using ch v tl by simp
  have right: "(if pNext ?b H \<noteq> 0 \<and> REDHEAP_IS_FREE (pNext ?b H) H then ulBlockSize ?b H + ulBlockSize (pNext ?b H) H
      else ulBlockSize ?b H) = word_of_nat d"
    using chain_free [OF ch2] chain_block(1) [OF ch2] nx sz base j v tl
    by (cases l) (auto simp: join_right_def add.assoc)
  have run: "merged_candidate ?b R H =
      (case if pPrev ?b H \<noteq> 0 \<and> REDHEAP_IS_FREE (pPrev ?b H) H then (pPrev ?b H, word_of_nat d + ulBlockSize (pPrev ?b H) H)
         else (?b, word_of_nat d) of (b, s) \<Rightarrow> if s < R then (0, 0) else (b, s))"
    unfolding merged_candidate_def Let_def right ..
  show ?thesis
  proof (cases us rule: rev_cases)
    case Nil
    then show ?thesis using run pv k by (simp add: join_left_def)
  next
    case (snoc us1 u)
    obtain t1 l1 where u: "u = (t1, l1)" by (cases u)
    have ch3: "chain (hdr_at H) 0 (pool_base H) (us1 @ (t1, l1) # (c, True) # vs) 0" using ch snoc u by simp
    have pv1: "pPrev ?b H = pool_base H + total us1" using pv snoc by simp
    show ?thesis
      using chain_free [OF ch3] chain_block(1) [OF ch3] run pv1 base k snoc u
      by (cases l1) (auto simp: join_left_def add.commute)
  qed
qed

text \<open>
  The block \<open>(b, c)\<close> has become one at \<open>b'\<close> that can hold \<open>n\<close> bytes; the \<open>k\<close> first bytes are copied, no
  other byte is changed, and no other block that was held is touched.
\<close>

definition moved :: "nat \<Rightarrow> redheap \<Rightarrow> block list \<Rightarrow> nat \<times> nat \<Rightarrow> nat \<Rightarrow> nat \<Rightarrow> redheap \<Rightarrow> nat \<Rightarrow> bool" where
  "moved p H bl x n k H' b' \<longleftrightarrow> (\<exists>c' bl'. heap_ok p H' bl' \<and> same_pool H H' \<and> block_for p n \<le> c' \<and>
     held H' bl' = insert (b', c') (held H bl - {x}) \<and> (b', c') \<notin> held H bl - {x} \<and>
     byte_at H' = byte_at (copy_bytes (b' + HDR p) (fst x + HDR p) k H))"

lemma copy_bytes_simps [simp]: "gHI (copy_bytes d s n H) = gHI H" "hdr_at (copy_bytes d s n H) = hdr_at H"
  "held (copy_bytes d s n H) bl = held H bl"
  by (simp_all add: copy_bytes_def held_def)

lemma copy_bytes_ok [simp]: "heap_ok p (copy_bytes d s n H) bl \<longleftrightarrow> heap_ok p H bl"
  by (simp add: heap_ok_def)

lemma copy_bytes_self: "byte_at (copy_bytes b b n H) = byte_at H"
  by (auto simp: copy_bytes_def)

lemma copy_bytes_cong: "byte_at H = byte_at H' \<Longrightarrow> byte_at (copy_bytes d s n H) = byte_at (copy_bytes d s n H')"
  by (auto simp: copy_bytes_def fun_eq_iff)

lemma placed_size_bounds: "r \<le> s \<Longrightarrow> r \<le> placed_size p r s" "0 < r \<Longrightarrow> r \<le> s \<Longrightarrow> 0 < placed_size p r s"
  by (simp_all add: placed_size_def)

lemma HeapBlockAlloc_held:
  assumes H: "heap_ok p H (us @ (s, False) # vs)" and n: "request_ok p n" and r: "block_for p (unat n) \<le> s"
  shows "\<exists>H' bl' c'. HeapBlockAlloc p (pool_base H + total us) (requested p n) H = Some H' \<and> heap_ok p H' bl' \<and> same_pool H H' \<and>
    block_for p (unat n) \<le> c' \<and> held H' bl' = insert (pool_base H + total us, c') (held H (us @ (s, False) # vs)) \<and>
    (pool_base H + total us, c') \<notin> held H (us @ (s, False) # vs) \<and> byte_at H' = byte_at H"
proof -
  let ?r = "block_for p (unat n)"
  have p: "p = 4 \<or> p = 8" using n by (simp add: request_ok_def)
  note w = block_for_word [OF n]
  have "blocks_ok p (unat (hi_ulPoolSize (gHI H))) (us @ (s, False) # vs)" using H by (simp add: heap_ok_def)
  then have vs: "vs \<noteq> []" by (rule free_not_last)
  obtain H' where H': "HeapBlockAlloc p (pool_base H + total us) (word_of_nat ?r) H = Some H'"
      "heap_ok p H' (us @ placed p ?r s @ vs)" "pool_base H' = pool_base H" "hi_ulPoolSize (gHI H') = hi_ulPoolSize (gHI H)"
      "byte_at H' = byte_at H"
    using HeapBlockAlloc_ok [OF H block_for_bounds(1) [OF p] r block_for_bounds(2) [OF p]] by blast
  have s: "0 < s" using w(3) r by simp
  note h = held_placed [OF vs r s H'(3)] and c = placed_size_bounds(1) [OF r, of p] placed_size_bounds(2) [OF w(3) r, of p]
  show ?thesis
    by (rule exI [of _ H'], rule exI [of _ "us @ placed p ?r s @ vs"], rule exI [of _ "placed_size p ?r s"])
      (use H' h(1) h(2) [OF c(2)] c(1) w(1) in \<open>simp add: same_pool_def\<close>)
qed

lemma move_in_place_ok:
  assumes H: "heap_ok p H (us @ (c, True) # vs)" and vs: "vs \<noteq> []" and n: "request_ok p n"
    and j: "join_right c vs = (d, ws)" and k: "join_left us d = (us', e)" and r: "block_for p (unat n) \<le> e"
  shows "\<exists>H'. move_in_place p (pool_base H + total us) (requested p n) m H = Some (pool_base H + total us' + HDR p, H') \<and>
    moved p H (us @ (c, True) # vs) (pool_base H + total us, c) (unat n) m H' (pool_base H + total us')"
proof -
  let ?b = "pool_base H + total us" and ?b' = "pool_base H + total us'" and ?bl = "us @ (c, True) # vs"
  have ok: "blocks_ok p (unat (hi_ulPoolSize (gHI H))) ?bl" and mid: "heap_mid p H ?bl" using H by (simp_all add: heap_ok_mid)
  have us': "fst (join_left us c) = us'" using k by (auto simp: join_left_def split: if_splits)
  obtain H1 where f: "HeapBlockFree ?b H = (?b', H1)" using HeapBlockFree_mid [OF mid] us'
    by (cases "HeapBlockFree ?b H") simp
  have H1: "heap_ok p H1 (us' @ (e, False) # ws)" "same_pool H H1" "byte_at H1 = byte_at H" "pool_base H1 = pool_base H"
    using HeapBlockFree_ok [OF H vs] HeapBlockFree_mid [OF mid] f j k by (simp_all add: freed_def same_pool_def)
  have held: "held H1 (us' @ (e, False) # ws) = held H ?bl - {(?b, c)}"
    using held_freed [OF ok vs H1(4)] j k by (simp add: freed_def)
  define H2 where "H2 = (if ?b' \<noteq> ?b then copy_bytes (?b' + HDR p) (?b + HDR p) m H1 else H1)"
  have H2: "heap_ok p H2 (us' @ (e, False) # ws)" "same_pool H H2" "held H2 (us' @ (e, False) # ws) = held H ?bl - {(?b, c)}"
      "byte_at H2 = byte_at (copy_bytes (?b' + HDR p) (?b + HDR p) m H)" "pool_base H2 = pool_base H"
    using H1 held copy_bytes_cong [OF H1(3)] by (auto simp: H2_def copy_bytes_self same_pool_def)
  obtain H' bl' c' where H': "HeapBlockAlloc p ?b' (requested p n) H2 = Some H'" "heap_ok p H' bl'" "same_pool H2 H'"
      "block_for p (unat n) \<le> c'" "held H' bl' = insert (?b', c') (held H ?bl - {(?b, c)})"
      "(?b', c') \<notin> held H ?bl - {(?b, c)}" "byte_at H' = byte_at H2"
    using HeapBlockAlloc_held [OF H2(1) n r] H2(3,5) by auto
  have "move_in_place p ?b (requested p n) m H = Some (?b' + HDR p, H')"
    using f H'(1) by (simp add: move_in_place_def Let_def H2_def)
  moreover have "moved p H ?bl (?b, c) (unat n) m H' ?b'"
    unfolding moved_def using H' H2(2,4) by (auto simp: same_pool_def)
  ultimately show ?thesis by blast
qed

lemma move_away_ok:
  assumes H: "heap_ok p H (us @ (s, False) # vs)" and bc: "(b, c) \<in> held H (us @ (s, False) # vs)"
    and n: "request_ok p n" and r: "block_for p (unat n) \<le> s"
  shows "\<exists>H'. move_away p (pool_base H + total us) b (requested p n) m H = Some (pool_base H + total us + HDR p, H') \<and>
    moved p H (us @ (s, False) # vs) (b, c) (unat n) m H' (pool_base H + total us)"
proof -
  let ?b' = "pool_base H + total us" and ?bl = "us @ (s, False) # vs"
  define H1 where "H1 = copy_bytes (?b' + HDR p) (b + HDR p) m H"
  have H1: "heap_ok p H1 ?bl" "held H1 ?bl = held H ?bl" "pool_base H1 = pool_base H" using H by (simp_all add: H1_def)
  obtain H2 bl2 c' where H2: "HeapBlockAlloc p ?b' (requested p n) H1 = Some H2" "heap_ok p H2 bl2" "same_pool H1 H2"
      "block_for p (unat n) \<le> c'" "held H2 bl2 = insert (?b', c') (held H ?bl)"
      "(?b', c') \<notin> held H ?bl" "byte_at H2 = byte_at H1"
    using HeapBlockAlloc_held [OF H1(1) n r] H1(2,3) by auto
  have "(b, c) \<in> held H2 bl2" using H2(5) bc by simp
  from HeapBlockFree_held [OF H2(2) this] obtain bl' where H3: "heap_ok p (snd (HeapBlockFree b H2)) bl'"
      "same_pool H2 (snd (HeapBlockFree b H2))" "held (snd (HeapBlockFree b H2)) bl' = held H2 bl2 - {(b, c)}"
      "byte_at (snd (HeapBlockFree b H2)) = byte_at H2" by blast
  have "held (snd (HeapBlockFree b H2)) bl' = insert (?b', c') (held H ?bl - {(b, c)})"
    using H3(3) H2(5,6) bc by auto
  then have "moved p H ?bl (b, c) (unat n) m (snd (HeapBlockFree b H2)) ?b'"
    unfolding moved_def using H2 H3 by (auto simp: same_pool_def H1_def)
  moreover have "move_away p ?b' b (requested p n) m H = Some (?b' + HDR p, snd (HeapBlockFree b H2))"
    using H2(1) by (simp add: move_away_def H1_def)
  ultimately show ?thesis by blast
qed

lemma realloc_candidates:
  assumes H: "heap_ok p H (us @ (c, True) # vs)" and vs: "vs \<noteq> []"
    and j: "join_right c vs = (d, ws)" and k: "join_left us d = (us', e)" and r: "0 < r" "r < 2 ^ 32"
  shows "\<exists>b s. realloc_search H (word_of_nat r) (pool_base H)
        (merged_candidate (pool_base H + total us) (word_of_nat r) H) = Some (b, word_of_nat s) \<and>
     ((b = 0 \<and> s = 0 \<and> (\<forall>x \<in> set (us @ vs). \<not> snd x \<longrightarrow> fst x < r)) \<or>
      (b = pool_base H + total us' \<and> s = e \<and> r \<le> e) \<or> found_in r (pool_base H) (us @ (c, True) # vs) b s)"
proof -
  let ?bl = "us @ (c, True) # vs"
  have ch: "chain (hdr_at H) 0 (pool_base H) ?bl 0" and base: "0 < pool_base H"
    and ok: "blocks_ok p (unat (hi_ulPoolSize (gHI H))) ?bl" using H by (simp_all add: heap_ok_def)
  obtain gs where gs: "?bl = us' @ gs @ ws" "total gs = e" "gs \<noteq> []" using joined_split [OF j k] by blast
  have ws: "ws \<noteq> []" using join_right_ok [OF ok vs] j by simp
  have "0 < HDR p" using heap_HDR(2) [OF H] by simp
  moreover have "\<forall>x \<in> set ?bl. HDR p \<le> fst x" using ok by (simp add: blocks_ok_def)
  ultimately have sizes: "\<forall>x \<in> set ?bl. 0 < fst x \<and> fst x < 2 ^ 32"
    using blocks_sizes [OF ok] by (meson less_le_trans)
  have "total ?bl < 2 ^ 32" using ok by (simp add: blocks_ok_def)
  then have e: "total gs < 2 ^ 32" using gs(1) by simp
  have less: "(word_of_nat e :: u32) < word_of_nat r \<longleftrightarrow> e < r"
    using e gs(2) r(2) by (simp add: word_less_nat_alt unat_of_nat)
  note m = merged_candidate_ok [OF H vs j k, of "word_of_nat r"]
  show ?thesis
  proof (cases "e < r")
    case True
    obtain b s where f: "best_fit r (pool_base H) ?bl (0, 0) = (b, s)" by (cases "best_fit r (pool_base H) ?bl (0, 0)")
    have "realloc_search H (word_of_nat r) (pool_base H) (0, 0) = Some (b, word_of_nat s)"
      using realloc_search_plain [OF ch base r(2) _ sizes, of 0 0] f base by simp
    moreover have "\<forall>x \<in> set (us @ vs). \<not> snd x \<longrightarrow> fst x < r" if "s = 0"
      using best_fit_least [OF f r(1)] that by (auto simp: not_le)
    ultimately show ?thesis using m less True best_fit_found [OF f r(1)] by auto
  next
    case False
    then have "r \<le> total gs" using gs(2) by simp
    from realloc_search_skip [OF ch [unfolded gs(1)] base r e sizes [unfolded gs(1)] gs(3) ws this]
    obtain b s where bs: "realloc_search H (word_of_nat r) (pool_base H) (pool_base H + total us', word_of_nat e) = Some (b, word_of_nat s)"
      "(b = pool_base H + total us' \<and> s = e) \<or> found_in r (pool_base H) ?bl b s"
      unfolding gs(2) gs(1) [symmetric] by blast
    have "merged_candidate (pool_base H + total us) (word_of_nat r) H = (pool_base H + total us', word_of_nat e)"
      using m less False by simp
    then show ?thesis using bs False by (metis not_le)
  qed
qed

lemma held_middle_at: "vs \<noteq> [] \<Longrightarrow> (pool_base H + total us, c) \<in> held H (us @ (c, True) # vs)"
  by (simp add: held_middle)

lemma marker_inj: "marker k = marker l \<longleftrightarrow> k = l"
  by (cases k; cases l) (simp_all add: marker_def REDHEAP_SENTINEL_FREE_def REDHEAP_SENTINEL_ALLOC_def)

lemma found_not_held:
  assumes ch: "chain (hdr_at H) 0 a (us @ (c, True) # vs) 0" and f: "found_in r a (us @ (c, True) # vs) b s"
  shows "b \<noteq> a + total us"
proof -
  obtain us1 vs1 where "us @ (c, True) # vs = us1 @ (s, False) # vs1" "b = a + total us1"
    using f by (auto simp: found_in_def)
  then have "hh_ulSentinel (hdr_at H b) = marker False" using chain_block(2) [of _ _ _ us1] ch by metis
  then show ?thesis using chain_block(2) [OF ch] by (auto simp: marker_inj)
qed

lemma found_before:
  assumes ch: "chain (hdr_at H) 0 a (us @ (c, True) # vs) 0" and a: "0 < a" and f: "found_in r a (us @ (c, True) # vs) b s"
    and b: "b = pPrev (a + total us) H" and sizes: "\<forall>x \<in> set (us @ (c, True) # vs). fst x < 2 ^ 32"
    and k: "join_left us d = (us', e)"
  shows "b = a + total us' \<and> r \<le> e"
proof -
  obtain us1 vs1 where u: "us @ (c, True) # vs = us1 @ (s, False) # vs1" "b = a + total us1" "r \<le> s"
    using f by (auto simp: found_in_def)
  have pv: "b = last_at 0 a us" using b chain_block(3) [OF ch] by simp
  then obtain us2 t l where us: "us = us2 @ [(t, l)]" using u(2) a by (cases us rule: rev_cases) auto
  have b2: "b = a + total us2" using pv us by simp
  have ch1: "chain (hdr_at H) 0 a (us1 @ (s, False) # vs1) 0" and ch2: "chain (hdr_at H) 0 a (us2 @ (t, l) # (c, True) # vs) 0"
    using ch u(1) us by simp_all
  have "marker False = marker l" "(word_of_nat s :: u32) = word_of_nat t"
    using chain_block(1,2) [OF ch1] chain_block(1,2) [OF ch2] u(2) b2 by metis+
  moreover have "s < 2 ^ 32" using sizes [unfolded u(1)] by simp
  moreover have "t < 2 ^ 32" using sizes us by simp
  ultimately have "\<not> l" "s = t" by (simp add: marker_inj, simp add: word_unat_eq_iff unat_of_nat)
  then show ?thesis using k us b2 u(3) by (auto simp: join_left_def)
qed

lemma RedHeapRealloc_ok:
  assumes H: "heap_ok p H bl" and bc: "(b, c) \<in> held H bl" and reach: "reachable_block p H (b, c)"
    and n: "request_ok p n" "n \<noteq> 0"
  shows "RedHeapRealloc p (b + HDR p) n H = Some (0, H) \<and> (\<forall>x \<in> set bl. \<not> snd x \<longrightarrow> fst x < block_for p (unat n)) \<or>
    (\<exists>b' H'. RedHeapRealloc p (b + HDR p) n H = Some (b' + HDR p, H') \<and>
       moved p H bl (b, c) (unat n) (min (unat n) (c - HDR p)) H' b')"
proof -
  let ?r = "block_for p (unat n)" and ?n = "unat (min n (ulBlockSize b H - REDHEAP_HDR_SIZE p))"
  obtain us vs where bl: "bl = us @ (c, True) # vs" and vs: "vs \<noteq> []" and b: "b = pool_base H + total us"
    using held_split [OF bc] by blast
  have ch: "chain (hdr_at H) 0 (pool_base H) bl 0" and base: "0 < pool_base H"
    and ok: "blocks_ok p (unat (hi_ulPoolSize (gHI H))) bl" using H by (simp_all add: heap_ok_def)
  obtain d ws where j: "join_right c vs = (d, ws)" by (cases "join_right c vs")
  obtain us' e where k: "join_left us d = (us', e)" by (cases "join_left us d")
  note w = block_for_word [OF n(1)] and cur = held_alloc [OF H bc]
  have m: "?n = min (unat n) (c - HDR p)"
  proof -
    have "unat (ulBlockSize b H) = c" using cur(2,5) by (simp add: unat_of_nat)
    then have "unat (ulBlockSize b H - REDHEAP_HDR_SIZE p) = c - HDR p"
      using unat_sub [of "REDHEAP_HDR_SIZE p" "ulBlockSize b H"] cur(3) by (simp add: word_le_nat_alt HDR_def)
    then show ?thesis by (simp add: min_def word_le_nat_alt)
  qed
  obtain b0 s0 where s: "realloc_search H (requested p n) (pool_base H) (merged_candidate b (requested p n) H) = Some (b0, word_of_nat s0)"
    and cand: "(b0 = 0 \<and> s0 = 0 \<and> (\<forall>x \<in> set (us @ vs). \<not> snd x \<longrightarrow> fst x < ?r)) \<or>
      (b0 = pool_base H + total us' \<and> s0 = e \<and> ?r \<le> e) \<or> found_in ?r (pool_base H) bl b0 s0"
    using realloc_candidates [OF H [unfolded bl] vs j k w(3,2)] bl b w(1) by metis
  have run: "RedHeapRealloc p (b + HDR p) n H =
      (if (word_of_nat s0 :: u32) > 0 then
         if b0 = b \<or> b0 = pPrev b H then move_in_place p b (requested p n) ?n H
         else move_away p b0 b (requested p n) ?n H
       else Some (0, H))"
    using s n(2) cur(1) reach outside_held [OF H bc] by (simp add: RedHeapRealloc_def Let_def)
  have pos: "(word_of_nat s0 :: u32) > 0" if "?r \<le> s0" "s0 \<le> total bl"
    using that w(3) ok by (simp add: word_less_nat_alt unat_of_nat blocks_ok_def)
  have in_place: ?thesis if "?r \<le> e" "?r \<le> s0" "s0 \<le> total bl" "b0 = b \<or> b0 = pPrev b H"
    using move_in_place_ok [OF H [unfolded bl] vs n(1) j k that(1), of ?n] pos [OF that(2,3)] that(4) run m bl b by auto
  have pv: "pPrev b H = last_at 0 (pool_base H) us" using chain_block(3) ch bl b by metis
  from cand show ?thesis
  proof (elim disjE conjE)
    assume "b0 = 0" "s0 = 0" "\<forall>x \<in> set (us @ vs). \<not> snd x \<longrightarrow> fst x < ?r"
    then show ?thesis using run bl by auto
  next
    assume a: "b0 = pool_base H + total us'" "s0 = e" "?r \<le> e"
    obtain gs where "us @ (c, True) # vs = us' @ gs @ ws" "total gs = e" using joined_split [OF j k] by blast
    then have "total bl = total us' + (e + total ws)" using bl by (metis total_simps(3))
    then have "e \<le> total bl" by simp
    moreover have "b0 = b \<or> b0 = pPrev b H"
      using a(1) k b pv by (cases us rule: rev_cases) (auto simp: join_left_def split: if_splits)
    ultimately show ?thesis using in_place a by simp
  next
    assume f: "found_in ?r (pool_base H) bl b0 s0"
    obtain us1 vs1 where f1: "bl = us1 @ (s0, False) # vs1" "b0 = pool_base H + total us1" "?r \<le> s0"
      using f by (auto simp: found_in_def)
    have le: "s0 \<le> total bl" using f1(1) by simp
    show ?thesis
    proof (cases "b0 = pPrev b H")
      case True
      have "?r \<le> e" using found_before [OF ch [unfolded bl] base f [unfolded bl] _ _ k] True b blocks_sizes [OF ok] bl by simp
      then show ?thesis using in_place f1(3) le True by blast
    next
      case False
      have "b0 \<noteq> b" using found_not_held ch f bl b by metis
      then show ?thesis
        using move_away_ok [of p H us1 s0 vs1 b c n ?n] H bc n(1) f1 pos [OF f1(3) le] run m False by auto
    qed
  qed
qed

end
