(* ===== verification/Red_HeapClient.thy ===== *)
theory Red_HeapClient
  imports Red_HeapUse
begin

text \<open>
  A client of the allocator knows only the pointers it was given and the bytes it keeps behind them. Over any
  sequence of its calls the allocator implements that view: the memory behind a pointer is the
  client's own, its bytes stay until the client writes them or frees them, and the check of the heap
  finds no fault.
\<close>

declare split_paired_Ex [simp del] split_paired_All [simp del]

section \<open>The view of a client\<close>

type_synonym memory = "nat \<rightharpoonup> u8 list"

definition view :: "redheap \<Rightarrow> nat \<Rightarrow> nat \<Rightarrow> u8 list" where
  "view H m k = map (byte_at H) [m..<m + k]"

lemma view_simps [simp]: "length (view H m k) = k" "i < k \<Longrightarrow> view H m k ! i = byte_at H (m + i)"
  by (simp_all add: view_def)

lemma view_eq: "view H m (length bs) = bs \<longleftrightarrow> (\<forall>i < length bs. byte_at H (m + i) = bs ! i)"
  by (simp add: list_eq_iff_nth_eq)

definition fill :: "nat \<Rightarrow> u8 \<Rightarrow> redheap \<Rightarrow> redheap" where
  "fill a v H = H\<lparr>byte_at := (byte_at H)(a := v)\<rparr>"

text \<open>The heap with the memory of the client, after any of its calls.\<close>

inductive heap_client :: "nat \<Rightarrow> redheap \<Rightarrow> memory \<Rightarrow> bool" for p where
  start: "pool_ok p b n \<Longrightarrow> heap_client p (RedHeapInit p b n H) Map.empty"
| alloc: "heap_client p H M \<Longrightarrow> request_ok p n \<Longrightarrow> RedHeapAlloc p n H = Some (m, H') \<Longrightarrow>
    heap_client p H' (if m = 0 then M else M(m \<mapsto> view H' m (unat n)))"
| calloc: "heap_client p H M \<Longrightarrow>
    request_ok p (((s + REDHEAP_ALIGN_MASK p) AND NOT (REDHEAP_ALIGN_MASK p)) * k) \<Longrightarrow> RedHeapCalloc p k s H = Some (m, H') \<Longrightarrow>
    heap_client p H' (if m = 0 then M else M(m \<mapsto> replicate (unat k * unat s) 0))"
| realloc: "heap_client p H M \<Longrightarrow> request_ok p n \<Longrightarrow> n \<noteq> 0 \<Longrightarrow> M m = Some bs \<Longrightarrow> RedHeapRealloc p m n H = Some (m', H') \<Longrightarrow>
    heap_client p H' (if m' = 0 then M
      else (M(m := None))(m' \<mapsto> take (unat n) bs @ drop (length bs) (view H' m' (unat n))))"
| free: "heap_client p H M \<Longrightarrow> M m = Some bs \<Longrightarrow> heap_client p (RedHeapFree p m H) (M(m := None))"
| realloc_none: "heap_client p H M \<Longrightarrow> M m = Some bs \<Longrightarrow> RedHeapRealloc p m 0 H = Some (m', H') \<Longrightarrow> heap_client p H' (M(m := None))"
| store: "heap_client p H M \<Longrightarrow> M m = Some bs \<Longrightarrow> i < length bs \<Longrightarrow> heap_client p (fill (m + i) v H) (M(m \<mapsto> bs[i := v]))"

section \<open>The invariant\<close>

definition client_ok :: "nat \<Rightarrow> redheap \<Rightarrow> memory \<Rightarrow> block list \<Rightarrow> bool" where
  "client_ok p H M bl \<longleftrightarrow> heap_ok p H bl \<and> (\<forall>m bs. M m = Some bs \<longrightarrow>
     (\<exists>b c. m = b + HDR p \<and> (b, c) \<in> held H bl \<and> length bs + HDR p \<le> c) \<and> view H m (length bs) = bs)"

lemma client_heap: "client_ok p H M bl \<Longrightarrow> heap_ok p H bl"
  by (simp add: client_ok_def)

lemma client_block:
  assumes "client_ok p H M bl" "M m = Some bs"
  shows "\<exists>b c. m = b + HDR p \<and> (b, c) \<in> held H bl \<and> length bs + HDR p \<le> c" "view H m (length bs) = bs"
  using assms by (simp_all add: client_ok_def)

lemma client_subset:
  assumes H: "client_ok p H M bl" and H': "heap_ok p H' bl'" "byte_at H' = byte_at H"
    and h: "\<And>m bs b c. M' m = Some bs \<Longrightarrow> M m = Some bs \<and> (m = b + HDR p \<longrightarrow> (b, c) \<in> held H bl \<longrightarrow> (b, c) \<in> held H' bl')"
  shows "client_ok p H' M' bl'"
proof -
  have "(\<exists>b c. m = b + HDR p \<and> (b, c) \<in> held H' bl' \<and> length bs + HDR p \<le> c) \<and> view H' m (length bs) = bs" if "M' m = Some bs" for m bs
  proof -
    have M: "M m = Some bs" using h [OF that] by blast
    obtain b c where "m = b + HDR p" "(b, c) \<in> held H bl" "length bs + HDR p \<le> c" using client_block(1) [OF H M] by blast
    then have "\<exists>b c. m = b + HDR p \<and> (b, c) \<in> held H' bl' \<and> length bs + HDR p \<le> c" using h [OF that] by blast
    then show ?thesis using client_block(2) [OF H M] H'(2) by (simp add: view_def)
  qed
  then show ?thesis using H'(1) by (simp add: client_ok_def)
qed

lemma held_apart:
  assumes "heap_ok p H bl" "(b, c) \<in> held H bl" "(b', c') \<in> held H bl" "(b, c) \<noteq> (b', c')"
  shows "b + c \<le> b' \<or> b' + c' \<le> b" "b \<noteq> b'"
proof -
  show a: "b + c \<le> b' \<or> b' + c' \<le> b" using regions_apart [of b c "pool_base H" "butlast bl" b' c'] assms by (auto simp: held_def)
  have "0 < HDR p" using heap_HDR(2) [OF assms(1)] by simp
  then show "b \<noteq> b'" using a held_alloc(3) [OF assms(1,2)] held_alloc(3) [OF assms(1,3)] by auto
qed

text \<open>A block that is new to the client, in place of those of \<open>X\<close>.\<close>

lemma client_new:
  assumes H: "client_ok p H M bl" and H': "heap_ok p H' bl'" and held: "held H' bl' = insert (b', c') (held H bl - X)"
    and fresh: "(b', c') \<notin> held H bl - X" and bytes: "\<And>a. a < b' \<or> b' + c' \<le> a \<Longrightarrow> byte_at H' a = byte_at H a"
    and M': "\<And>m bs b c. M' m = Some bs \<Longrightarrow> M m = Some bs \<and> (m = b + HDR p \<longrightarrow> (b, c) \<notin> X)"
    and new: "length bs' + HDR p \<le> c'" "view H' (b' + HDR p) (length bs') = bs'"
  shows "client_ok p H' (M'(b' + HDR p \<mapsto> bs')) bl'"
proof -
  have "(\<exists>b c. m = b + HDR p \<and> (b, c) \<in> held H' bl' \<and> length bs + HDR p \<le> c) \<and> view H' m (length bs) = bs"
    if m: "M' m = Some bs" "m \<noteq> b' + HDR p" for m bs
  proof -
    have M: "M m = Some bs" using M' [OF m(1)] by blast
    obtain b c where b: "m = b + HDR p" "(b, c) \<in> held H bl" "length bs + HDR p \<le> c" using client_block(1) [OF H M] by blast
    then have in': "(b, c) \<in> held H' bl'" using M' [OF m(1)] held by auto
    have "b + c \<le> b' \<or> b' + c' \<le> b"
      by (rule held_apart(1) [OF H' in']) (use held m(2) b(1) in auto)
    then have "byte_at H' (m + i) = byte_at H (m + i)" if "i < length bs" for i
      using bytes [of "m + i"] b(1,3) that by auto
    then have "view H' m (length bs) = bs" using client_block(2) [OF H M] by (simp add: view_eq)
    then show ?thesis using b in' by blast
  qed
  then show ?thesis using H' new held by (auto simp: client_ok_def)
qed

lemma client_alloc:
  assumes H: "client_ok p H M bl" and n: "request_ok p n" and run: "RedHeapAlloc p n H = Some (m, H')" and m: "m \<noteq> 0"
  shows "\<exists>b bl' c'. m = b + HDR p \<and> heap_ok p H' bl' \<and> held H' bl' = insert (b, c') (held H bl) \<and> (b, c') \<notin> held H bl \<and>
    unat n + HDR p \<le> c' \<and> byte_at H' = byte_at H"
proof -
  let ?r = "block_for p (unat n)"
  note ok = client_heap [OF H] and w = block_for_word [OF n]
  have p: "p = 4 \<or> p = 8" using n by (simp add: request_ok_def)
  from RedHeapAlloc_ok [OF ok n] obtain us s vs where bl: "bl = us @ (s, False) # vs" "?r \<le> s"
    and H': "m = pool_base H + total us + HDR p" "heap_ok p H' (us @ placed p ?r s @ vs)" "pool_base H' = pool_base H"
      "byte_at H' = byte_at H"
    using run m by auto
  have "blocks_ok p (unat (hi_ulPoolSize (gHI H))) (us @ (s, False) # vs)" using ok bl by (simp add: heap_ok_def)
  then have vs: "vs \<noteq> []" by (rule free_not_last)
  have "0 < s" using w(3) bl(2) by simp
  note h = held_placed [OF vs bl(2) this H'(3)] and c = placed_size_bounds(1) [OF bl(2), of p] placed_size_bounds(2) [OF w(3) bl(2), of p]
  show ?thesis
    by (rule exI [of _ "pool_base H + total us"], rule exI [of _ "us @ placed p ?r s @ vs"], rule exI [of _ "placed_size p ?r s"])
      (use H' h(1) h(2) [OF c(2)] c(1) block_for_bounds(3) [OF p, of "unat n"] bl(1) in auto)
qed

section \<open>The calls\<close>

lemma client_start: "pool_ok p b n \<Longrightarrow> \<exists>bl. client_ok p (RedHeapInit p b n H) Map.empty bl"
  unfolding client_ok_def using RedHeapInit_blocks(1) by fastforce

lemma RedHeapAlloc_none: "heap_ok p H bl \<Longrightarrow> request_ok p n \<Longrightarrow> RedHeapAlloc p n H = Some (0, H') \<Longrightarrow> H' = H"
proof -
  assume a: "heap_ok p H bl" "request_ok p n" "RedHeapAlloc p n H = Some (0, H')"
  have "0 < HDR p" using heap_HDR(2) [OF a(1)] by simp
  then show ?thesis using RedHeapAlloc_ok [OF a(1,2)] a(3) by auto
qed

lemma client_alloc_step:
  assumes "client_ok p H M bl" "request_ok p n" "RedHeapAlloc p n H = Some (m, H')"
  shows "\<exists>bl'. client_ok p H' (if m = 0 then M else M(m \<mapsto> view H' m (unat n))) bl'"
proof (cases "m = 0")
  case True
  then have "H' = H" using RedHeapAlloc_none [OF client_heap [OF assms(1)] assms(2)] assms(3) by simp
  then show ?thesis using assms(1) True by auto
next
  case False
  obtain b bl' c' where a: "m = b + HDR p" "heap_ok p H' bl'" "held H' bl' = insert (b, c') (held H bl)" "(b, c') \<notin> held H bl"
      "unat n + HDR p \<le> c'" "byte_at H' = byte_at H"
    using client_alloc [OF assms False] by blast
  have "client_ok p H' (M(b + HDR p \<mapsto> view H' m (unat n))) bl'"
    by (rule client_new [OF assms(1) a(2), where X = "{}"]) (use a in auto)
  then show ?thesis using False a(1) by auto
qed

text \<open>The bytes of an array that the allocator clears.\<close>

lemma calloc_size:
  fixes s k :: u32 and p :: nat
  defines "r \<equiv> (s + REDHEAP_ALIGN_MASK p) AND NOT (REDHEAP_ALIGN_MASK p)"
  assumes "\<not> (r < s \<or> (k > 0 \<and> r > 0xFFFFFFFF div k))"
  shows "unat (r * k) = unat r * unat k" "unat k * unat s \<le> unat (r * k)"
proof -
  have "unat r * unat k < 2 ^ 32"
  proof (cases "k = 0")
    case False
    then have "r \<le> 0xFFFFFFFF div k" using assms(2) by (simp add: word_gt_0 not_less)
    then have "unat r \<le> 0xFFFFFFFF div unat k" by (simp add: word_le_nat_alt unat_div_distrib)
    then have "unat r * unat k \<le> 0xFFFFFFFF div unat k * unat k" by simp
    also have "\<dots> \<le> 0xFFFFFFFF" by simp
    finally show ?thesis by simp
  qed simp
  then show m: "unat (r * k) = unat r * unat k" by (simp add: unat_word_ariths)
  have "unat s \<le> unat r" using assms(2) by (simp add: word_le_nat_alt not_less)
  then show "unat k * unat s \<le> unat (r * k)" using m by (simp add: mult.commute)
qed

lemma client_calloc_step:
  assumes H: "client_ok p H M bl" and n: "request_ok p (((s + REDHEAP_ALIGN_MASK p) AND NOT (REDHEAP_ALIGN_MASK p)) * k)"
    and run: "RedHeapCalloc p k s H = Some (m, H')"
  shows "\<exists>bl'. client_ok p H' (if m = 0 then M else M(m \<mapsto> replicate (unat k * unat s) 0)) bl'"
proof -
  let ?n = "((s + REDHEAP_ALIGN_MASK p) AND NOT (REDHEAP_ALIGN_MASK p)) * k"
  let ?bad = "(s + REDHEAP_ALIGN_MASK p) AND NOT (REDHEAP_ALIGN_MASK p) < s \<or>
    (k > 0 \<and> (s + REDHEAP_ALIGN_MASK p) AND NOT (REDHEAP_ALIGN_MASK p) > 0xFFFFFFFF div k)"
  show ?thesis
  proof (cases ?bad)
    case True
    then show ?thesis using run H by (auto simp: RedHeapCalloc_def Let_def)
  next
    case False
    note size = calloc_size [OF False]
    obtain H1 where a: "RedHeapAlloc p ?n H = Some (m, H1)"
        "H' = (if m \<noteq> 0 then H1\<lparr>byte_at := (\<lambda>a. if m \<le> a \<and> a < m + unat ?n then 0 else byte_at H1 a)\<rparr> else H1)"
      using run False by (auto simp: RedHeapCalloc_def Let_def)
    show ?thesis
    proof (cases "m = 0")
      case True
      then show ?thesis using RedHeapAlloc_none [OF client_heap [OF H] n] a H by auto
    next
      case m: False
      obtain b bl' c' where b: "m = b + HDR p" "heap_ok p H1 bl'" "held H1 bl' = insert (b, c') (held H bl)" "(b, c') \<notin> held H bl"
          "unat ?n + HDR p \<le> c'" "byte_at H1 = byte_at H"
        using client_alloc [OF H n a(1) m] by blast
      have "heap_ok p H' bl'" "held H' bl' = insert (b, c') (held H bl)"
        using b a(2) m by (simp_all add: heap_ok_def held_def)
      moreover have "view H' (b + HDR p) (length (replicate (unat k * unat s) 0)) = replicate (unat k * unat s) 0"
        using a(2) b(1) m size(2) by (intro nth_equalityI) auto
      ultimately have "client_ok p H' (M(b + HDR p \<mapsto> replicate (unat k * unat s) 0)) bl'"
        by (intro client_new [OF H, where X = "{}"]) (use b a(2) m size(2) in auto)
      then show ?thesis using m b(1) by auto
    qed
  qed
qed

lemma RedHeapFree_client:
  assumes H: "client_ok p H M bl" and m: "M m = Some bs"
  shows "\<exists>bl'. client_ok p (RedHeapFree p m H) (M(m := None)) bl'"
proof -
  obtain b c where b: "m = b + HDR p" "(b, c) \<in> held H bl" using client_block(1) [OF H m] by blast
  note ok = client_heap [OF H]
  show ?thesis
  proof (cases "reachable_block p H (b, c)")
    case True
    obtain bl' where f: "heap_ok p (RedHeapFree p m H) bl'" "held (RedHeapFree p m H) bl' = held H bl - {(b, c)}"
        "byte_at (RedHeapFree p m H) = byte_at H"
      using RedHeapFree_ok [OF ok b(2) True] b(1) by blast
    have "client_ok p (RedHeapFree p m H) (M(m := None)) bl'"
      by (rule client_subset [OF H f(1,3)]) (use f(2) b(1) in \<open>auto split: if_splits\<close>)
    then show ?thesis by blast
  next
    case False
    then have "RedHeapFree p m H = H" using RedHeapFree_rejected [OF ok b(2)] b(1) by simp
    then have "client_ok p (RedHeapFree p m H) (M(m := None)) bl"
      by (simp only:, intro client_subset [OF H ok refl]) (auto split: if_splits)
    then show ?thesis by blast
  qed
qed

lemma RedHeapRealloc_client:
  assumes H: "client_ok p H M bl" and n: "request_ok p n" "n \<noteq> 0" and m: "M m = Some bs"
    and run: "RedHeapRealloc p m n H = Some (m', H')"
  shows "\<exists>bl'. client_ok p H' (if m' = 0 then M
    else (M(m := None))(m' \<mapsto> take (unat n) bs @ drop (length bs) (view H' m' (unat n)))) bl'"
proof -
  obtain b c where b: "m = b + HDR p" "(b, c) \<in> held H bl" "length bs + HDR p \<le> c" using client_block(1) [OF H m] by blast
  note ok = client_heap [OF H]
  have p: "p = 4 \<or> p = 8" using n(1) by (simp add: request_ok_def)
  show ?thesis
  proof (cases "reachable_block p H (b, c)")
    case False
    then have "RedHeapRealloc p m n H = Some (0, H)"
      using outside_held [OF ok b(2)] b(1) n(2) by (simp add: RedHeapRealloc_def)
    then show ?thesis using H run by auto
  next
    case True
    let ?k = "min (unat n) (c - HDR p)"
    from RedHeapRealloc_ok [OF ok b(2) True n] show ?thesis
    proof (elim disjE conjE exE)
      assume "RedHeapRealloc p (b + HDR p) n H = Some (0, H)"
      then show ?thesis using H run b(1) by auto
    next
      fix b' H1 assume r: "RedHeapRealloc p (b + HDR p) n H = Some (b' + HDR p, H1)"
        and mv: "moved p H bl (b, c) (unat n) ?k H1 b'"
      have res: "m' = b' + HDR p" "H1 = H'" using run r b(1) by simp_all
      obtain c' bl' where c': "heap_ok p H' bl'" "block_for p (unat n) \<le> c'" "held H' bl' = insert (b', c') (held H bl - {(b, c)})"
          "(b', c') \<notin> held H bl - {(b, c)}" "byte_at H' = byte_at (copy_bytes (b' + HDR p) (b + HDR p) ?k H)"
        using mv res(2) by (auto simp: moved_def)
      have size: "unat n + HDR p \<le> c'" using c'(2) block_for_bounds(3) [OF p, of "unat n"] by simp
      have old: "byte_at H' (m' + i) = bs ! i" if "i < unat n" "i < length bs" for i
      proof -
        have "i < ?k" using that b(3) by simp
        then have "byte_at H' (m' + i) = byte_at H (m + i)" using c'(5) res(1) b(1) by (simp add: copy_bytes_def)
        then show ?thesis using client_block(2) [OF H m] that(2) by (simp add: view_eq)
      qed
      have "client_ok p H' ((M(m := None))(b' + HDR p \<mapsto> take (unat n) bs @ drop (length bs) (view H' m' (unat n)))) bl'"
      proof (rule client_new [OF H c'(1,3,4)])
        show "byte_at H' a = byte_at H a" if "a < b' \<or> b' + c' \<le> a" for a
          using that size c'(5) by (auto simp: copy_bytes_def)
        show "M m1 = Some bs1 \<and> (m1 = b1 + HDR p \<longrightarrow> (b1, c1) \<notin> {(b, c)})" if "(M(m := None)) m1 = Some bs1" for m1 bs1 b1 c1
          using that b(1) by (auto split: if_splits)
        show "length (take (unat n) bs @ drop (length bs) (view H' m' (unat n))) + HDR p \<le> c'" using size by simp
        show "view H' (b' + HDR p) (length (take (unat n) bs @ drop (length bs) (view H' m' (unat n)))) =
            take (unat n) bs @ drop (length bs) (view H' m' (unat n))"
          using old res(1) by (intro nth_equalityI) (auto simp: nth_append)
      qed
      moreover have "m' \<noteq> 0" using res(1) heap_HDR(2) [OF ok] by simp
      ultimately show ?thesis using res(1) by auto
    qed
  qed
qed

lemma fill_client:
  assumes H: "client_ok p H M bl" and m: "M m = Some bs" and i: "i < length bs"
  shows "client_ok p (fill (m + i) v H) (M(m \<mapsto> bs[i := v])) bl"
proof -
  obtain b c where b: "m = b + HDR p" "(b, c) \<in> held H bl" "length bs + HDR p \<le> c" using client_block(1) [OF H m] by blast
  have ok: "heap_ok p (fill (m + i) v H) bl" "held (fill (m + i) v H) bl = held H bl"
    using client_heap [OF H] by (simp_all add: fill_def heap_ok_def held_def)
  have "(\<exists>b c. m1 = b + HDR p \<and> (b, c) \<in> held H bl \<and> length bs1 + HDR p \<le> c) \<and> view (fill (m + i) v H) m1 (length bs1) = bs1"
    if m1: "(M(m \<mapsto> bs[i := v])) m1 = Some bs1" for m1 bs1
  proof (cases "m1 = m")
    case True
    then show ?thesis using m1 b client_block(2) [OF H m] by (auto simp: view_eq fill_def nth_list_update)
  next
    case False
    then have M: "M m1 = Some bs1" using m1 by simp
    obtain b1 c1 where b1: "m1 = b1 + HDR p" "(b1, c1) \<in> held H bl" "length bs1 + HDR p \<le> c1"
      using client_block(1) [OF H M] by blast
    have "b + c \<le> b1 \<or> b1 + c1 \<le> b"
      by (rule held_apart(1) [OF client_heap [OF H] b(2) b1(2)]) (use False b(1) b1(1) in auto)
    then have "view (fill (m + i) v H) m1 (length bs1) = bs1"
      using client_block(2) [OF H M] b b1 i by (auto simp: view_eq fill_def)
    then show ?thesis using b1 by blast
  qed
  then show ?thesis using ok by (simp add: client_ok_def)
qed

lemma heap_client_ok: "heap_client p H M \<Longrightarrow> \<exists>bl. client_ok p H M bl"
proof (induction rule: heap_client.induct)
  case (start b n H)
  then show ?case by (rule client_start)
next
  case (alloc H M n m H')
  then show ?case using client_alloc_step by blast
next
  case (calloc H M s k m H')
  then show ?case using client_calloc_step by blast
next
  case (realloc H M n m bs m' H')
  then show ?case using RedHeapRealloc_client by blast
next
  case (free H M m bs)
  then show ?case using RedHeapFree_client by blast
next
  case (realloc_none H M m bs m' H')
  have "H' = RedHeapFree p m H" using realloc_none.hyps(3) by (simp add: RedHeapRealloc_def)
  moreover obtain bl where "client_ok p H M bl" using realloc_none.IH by blast
  ultimately show ?case using RedHeapFree_client realloc_none.hyps(2) by blast
next
  case (store H M m bs i v)
  then show ?case using fill_client by blast
qed

section \<open>Properties\<close>

text \<open>C5. Over any sequence of calls by a client that frees and reallocates only memory it holds and whose requests do
  not wrap around, each allocation returns, the check of the heap finds nothing, the memory behind
  each pointer lies inside the pool and holds the bytes that the client last wrote there, and the
  memory of two pointers is apart by at least a header.\<close>

theorem heap_client_memory:
  assumes "heap_client p H M"
  shows "(\<forall>n. request_ok p n \<longrightarrow> RedHeapAlloc p n H \<noteq> None \<and>
       (\<forall>m bs. M m = Some bs \<longrightarrow> RedHeapRealloc p m n H \<noteq> None)) \<and> RedHeapCheck H = Some 0 \<and>
     (\<forall>m bs. M m = Some bs \<longrightarrow> view H m (length bs) = bs \<and> pool_base H + HDR p \<le> m \<and>
        m + length bs + HDR p \<le> pool_base H + unat (hi_ulPoolSize (gHI H)) \<and>
        (\<forall>m' bs'. M m' = Some bs' \<longrightarrow> m \<noteq> m' \<longrightarrow> m + length bs + HDR p \<le> m' \<or> m' + length bs' + HDR p \<le> m))"
proof -
  obtain bl where ok: "client_ok p H M bl" using heap_client_ok [OF assms] by blast
  note heap = client_heap [OF ok]
  have calls: "RedHeapAlloc p n H \<noteq> None \<and> (\<forall>m bs. M m = Some bs \<longrightarrow> RedHeapRealloc p m n H \<noteq> None)" if n: "request_ok p n" for n
  proof -
    have "RedHeapRealloc p m n H \<noteq> None" if m: "M m = Some bs" for m bs
    proof -
      obtain b c where b: "m = b + HDR p" "(b, c) \<in> held H bl" using client_block(1) [OF ok m] by blast
      show ?thesis
      proof (cases "n = 0 \<or> \<not> reachable_block p H (b, c)")
        case True
        then show ?thesis using outside_held [OF heap b(2)] b(1) by (auto simp: RedHeapRealloc_def)
      next
        case False
        then show ?thesis using RedHeapRealloc_ok [OF heap b(2) _ n] b(1) by auto
      qed
    qed
    then show ?thesis using RedHeapAlloc_ok [OF heap n] by auto
  qed
  have memory: "view H m (length bs) = bs \<and> pool_base H + HDR p \<le> m \<and>
        m + length bs + HDR p \<le> pool_base H + unat (hi_ulPoolSize (gHI H)) \<and>
        (\<forall>m' bs'. M m' = Some bs' \<longrightarrow> m \<noteq> m' \<longrightarrow> m + length bs + HDR p \<le> m' \<or> m' + length bs' + HDR p \<le> m)"
    if m: "M m = Some bs" for m bs
  proof -
    obtain b c where b: "m = b + HDR p" "(b, c) \<in> held H bl" "length bs + HDR p \<le> c" using client_block(1) [OF ok m] by blast
    have "m + length bs + HDR p \<le> m' \<or> m' + length bs' + HDR p \<le> m" if m': "M m' = Some bs'" "m \<noteq> m'" for m' bs'
    proof -
      obtain b' c' where b': "m' = b' + HDR p" "(b', c') \<in> held H bl" "length bs' + HDR p \<le> c'"
        using client_block(1) [OF ok m'(1)] by blast
      have "b + c \<le> b' \<or> b' + c' \<le> b" by (rule held_apart(1) [OF heap b(2) b'(2)]) (use b b' m'(2) in auto)
      then show ?thesis using b b' by auto
    qed
    then show ?thesis using client_block(2) [OF ok m] held_alloc(6,7) [OF heap b(2)] b by auto
  qed
  show ?thesis using calls memory RedHeapCheck_ok [OF heap] by blast
qed



text \<open>A request of more bytes than 32 bits can round up is served as a request of no bytes: the size of its
  block wraps around to a bare header.\<close>

theorem heap_alloc_wraps:
  assumes "p = 4 \<or> p = 8" and "2 ^ 32 < unat n + p"
  shows "RedHeapAlloc p n = RedHeapAlloc p 0"
proof -
  obtain k where m: "REDHEAP_ALIGN_MASK p = mask k" "p = 2 ^ k" "unat (mask k :: u32) = p - 1"
    using assms(1) align_mask by (auto intro: that [of 2] that [of 3] simp: mask_eq_exp_minus_1)
  have lt: "unat n < 2 ^ LENGTH(32)" by (rule unsigned_less)
  have less: "unat n + (p - 1) - 2 ^ 32 < p" using lt assms(1) by auto
  have "unat (n + mask k) = (unat n + (p - 1)) mod 2 ^ 32" by (simp add: unat_word_ariths m(3))
  also have "\<dots> = (unat n + (p - 1) - 2 ^ 32) mod 2 ^ 32"
    by (rule le_mod_geq) (use assms in auto)
  also have "\<dots> = unat n + (p - 1) - 2 ^ 32" using less assms(1) by auto
  finally have "unat (n + mask k) = unat n + (p - 1) - 2 ^ 32" .
  then have "unat ((n + mask k) AND NOT (mask k)) = 0" using m(2) less by (simp add: unat_round_down)
  moreover have "unat ((0 + mask k) AND NOT (mask k :: u32)) = 0" using m(2,3) assms(1) by (simp add: unat_round_down)
  ultimately have "(n + mask k) AND NOT (mask k) = (0 + mask k) AND NOT (mask k :: u32)" by (metis unsigned_word_eqI)
  then have req: "requested p n = requested p 0" by (simp only: requested_def m(1))
  show ?thesis by (rule ext) (simp only: RedHeapAlloc_def req)
qed

section \<open>A small heap\<close>

text \<open>A pool of 64 bytes on a machine with pointers of four bytes, and two blocks that fill it.\<close>

lemma small_pool: "pool_ok 4 1000 64"
  by (simp add: pool_ok_def HDR_values)

lemma small_heap: "heap_ok 4 (RedHeapInit 4 1000 64 H) [(48, False), (16, True)]" "pool_base (RedHeapInit 4 1000 64 H) = 1000"
  using RedHeapInit_blocks [OF small_pool] by (simp_all add: HDR_values)

lemma small_requests: "request_ok 4 4" "request_ok 4 12" "block_for 4 4 = 20" "block_for 4 12 = 28"
  by (simp_all add: request_ok_def block_for_def HDR_values)

lemma first_block: "\<exists>H'. RedHeapAlloc 4 4 (RedHeapInit 4 1000 64 H) = Some (1016, H') \<and>
    heap_ok 4 H' [(20, True), (28, False), (16, True)] \<and> pool_base H' = 1000 \<and> hi_ulPoolSize (gHI H') = 64"
proof -
  have pool: "hi_ulPoolSize (gHI (RedHeapInit 4 1000 64 H)) = 64" by (simp add: RedHeapInit_def Let_def)
  from RedHeapAlloc_ok [OF small_heap(1) small_requests(1), of H] show ?thesis
    using pool by (auto simp: small_requests small_heap(2) HDR_values placed_def Cons_eq_append_conv)
qed

lemma second_block:
  assumes H: "heap_ok 4 H [(20, True), (28, False), (16, True)]" "pool_base H = 1000" "hi_ulPoolSize (gHI H) = 64"
  shows "\<exists>H'. RedHeapAlloc 4 12 H = Some (1036, H') \<and> heap_ok 4 H' [(20, True), (28, True), (16, True)] \<and>
    pool_base H' = 1000 \<and> hi_ulPoolSize (gHI H') = 64"
  using RedHeapAlloc_ok [OF H(1) small_requests(2)] H(2,3)
  by (auto simp: small_requests HDR_values placed_def Cons_eq_append_conv)

text \<open>The globals before the heap is initialised.\<close>

definition blank_heap :: redheap where
  "blank_heap = \<lparr>gHI = \<lparr>hi_pbPoolBase = 0, hi_ulPoolSize = 0, hi_ulAllocBytes = 0, hi_ulMaxAllocBytes = 0, hi_ulAllocCount = 0,
     hi_ulTotalCount = 0\<rparr>, hdr_at = (\<lambda>_. \<lparr>hh_ulSentinel = 0, hh_ulBlockSize = 0, hh_pNext = 0, hh_pPrev = 0\<rparr>), byte_at = (\<lambda>_. 0)\<rparr>"

theorem heap_client_memory_witness:
  "\<exists>H' bs. RedHeapAlloc 4 4 (RedHeapInit 4 1000 64 blank_heap) = Some (1016, H') \<and> length bs = 4 \<and> view H' 1016 4 = bs \<and> RedHeapCheck H' = Some 0"
proof -
  obtain H' where H': "RedHeapAlloc 4 4 (RedHeapInit 4 1000 64 blank_heap) = Some (1016, H')" using first_block by blast
  have "heap_client 4 H' [1016 \<mapsto> view H' 1016 4]"
    using heap_client.alloc [OF heap_client.start [OF small_pool] small_requests(1) H'] by simp
  from heap_client_memory [OF this] show ?thesis using H' by auto
qed



theorem heap_alloc_wraps_witness: "RedHeapAlloc 4 0xFFFFFFFE = RedHeapAlloc 4 0"
  using heap_alloc_wraps [of 4 "0xFFFFFFFE"] by simp

end
