(* ===== verification/Red_Swap.thy ===== *)
theory Red_Swap
  imports Red_BufferProps Red_Endian
begin

text \<open>
  The byte order swaps of \<^verbatim>\<open>core/driver/buffercmn.c\<close> and \<^verbatim>\<open>volume.c\<close>, which a processor of the order other
  than the disk's applies to each metadata node that it reads or writes. The order of the
  processor's own loads and stores is a parameter; the swaps are proved to be right for both.
\<close>

section \<open>Loads and stores\<close>

definition in_order :: "bool \<Rightarrow> bytes \<Rightarrow> bytes" where
  "in_order big xs = (if big then rev xs else xs)"

definition load :: "bool \<Rightarrow> nat \<Rightarrow> nat \<Rightarrow> bytes \<Rightarrow> nat" where
  "load big w off b = le_value (in_order big (slice off w b))"

definition store :: "bool \<Rightarrow> nat \<Rightarrow> nat \<Rightarrow> nat \<Rightarrow> bytes \<Rightarrow> bytes" where
  "store big w off v b = overwrite off (in_order big (le_bytes w v)) b"

text \<open>A member of a structure is replaced by its reversal.\<close>

definition rev16_at :: "bool \<Rightarrow> nat \<Rightarrow> bytes \<Rightarrow> bytes" where
  "rev16_at big off b = store big 2 off (unat (RedRev16 (word_of_nat (load big 2 off b)))) b"

definition rev32_at :: "bool \<Rightarrow> nat \<Rightarrow> bytes \<Rightarrow> bytes" where
  "rev32_at big off b = store big 4 off (unat (RedRev32 (word_of_nat (load big 4 off b)))) b"

definition rev64_at :: "bool \<Rightarrow> nat \<Rightarrow> bytes \<Rightarrow> bytes" where
  "rev64_at big off b = store big 8 off (unat (RedRev64 (word_of_nat (load big 8 off b)))) b"

definition rev32_entries :: "bool \<Rightarrow> nat \<Rightarrow> u32 \<Rightarrow> bytes \<Rightarrow> bytes" where
  "rev32_entries big off n b = fold (\<lambda>ulIdx. rev32_at big (off + 4 * ulIdx)) [0..<unat n] b"

section \<open>The swaps\<close>

definition BufferEndianSwapHeader :: "bool \<Rightarrow> bytes \<Rightarrow> bytes" where
  "BufferEndianSwapHeader big b =
     (let b = rev32_at big NODEHEADER_OFFSET_SIG b;
          b = rev32_at big NODEHEADER_OFFSET_CRC b
      in rev64_at big NODEHEADER_OFFSET_SEQ b)"

definition BufferEndianSwapMaster :: "bool \<Rightarrow> bytes \<Rightarrow> bytes" where
  "BufferEndianSwapMaster big b =
     (let b = rev32_at big 16 b; \<comment> \<open>\<open>ulVersion\<close>\<close>
          b = rev32_at big 28 b; \<comment> \<open>\<open>ulFormatTime\<close>\<close>
          b = rev32_at big 32 b; \<comment> \<open>\<open>ulInodeCount\<close>\<close>
          b = rev32_at big 36 b; \<comment> \<open>\<open>ulBlockCount\<close>\<close>
          b = rev16_at big 40 b; \<comment> \<open>\<open>uMaxNameLen\<close>\<close>
          b = rev16_at big 42 b; \<comment> \<open>\<open>uDirectPointers\<close>\<close>
          b = rev16_at big 44 b; \<comment> \<open>\<open>uIndirectPointers\<close>\<close>
          b = rev16_at big 48 b  \<comment> \<open>\<open>uFeaturesIncompat\<close>\<close>
      in rev16_at big 50 b)"

definition BufferEndianSwapInode :: "'d env \<Rightarrow> bool \<Rightarrow> bytes \<Rightarrow> bytes" where
  "BufferEndianSwapInode E big b =
     (let b = rev64_at big ino_off_ullSize b;
          b = (if REDCONF_INODE_BLOCKS E then rev32_at big ino_off_ulBlocks b else b);
          b = (if REDCONF_INODE_TIMESTAMPS E then rev32_at big (ino_off_ulCTime E) (rev32_at big (ino_off_ulMTime E)
                 (rev32_at big (ino_off_ulATime E) b)) else b);
          b = (if REDCONF_API_POSIX E \<and> REDCONF_POSIX_OWNER_PERM E
               then rev32_at big (ino_off_ulGID E) (rev32_at big (ino_off_ulUID E) b) else b);
          b = rev16_at big (ino_off_uMode E) b;
          b = (if REDCONF_API_POSIX E \<and> REDCONF_API_POSIX_LINK E then rev16_at big (ino_off_uNLink E) b else b);
          b = (if REDCONF_API_POSIX E then rev32_at big (ino_off_ulPInode E) b else b);
          b = (if REDCONF_API_POSIX E \<and> REDCONF_DELETE_OPEN E then rev32_at big (ino_off_ulNextOrphan E) b else b)
      in rev32_entries big (INODE_HEADER_SIZE E) (INODE_ENTRIES E) b)"

definition BufferEndianSwapIndir :: "'d env \<Rightarrow> bool \<Rightarrow> bytes \<Rightarrow> bytes" where
  "BufferEndianSwapIndir E big b =
     (let b = rev32_at big NODEHEADER_SIZE b in rev32_entries big INDIR_HEADER_SIZE (INDIR_ENTRIES E) b)"

text \<open>A buffer of file data, of a directory or of the imap has no member to swap outside of its header.\<close>

definition RedBufferEndianSwap :: "'d env \<Rightarrow> bool \<Rightarrow> u16 \<Rightarrow> bytes \<Rightarrow> bytes" where
  "RedBufferEndianSwap E big uFlags b =
     (if uFlags AND BFLAG_MASK \<noteq> uFlags then b
      else if uFlags AND BFLAG_META_MASK \<noteq> 0 then
        let b = BufferEndianSwapHeader big b; t = uFlags AND BFLAG_META_MASK in
        if t = BFLAG_META_MASTER then BufferEndianSwapMaster big b
        else if t = BFLAG_META_INODE then BufferEndianSwapInode E big b
        else if DINDIRS_EXIST E \<and> t = BFLAG_META_DINDIR then BufferEndianSwapIndir E big b
        else if INDIRS_EXIST E \<and> t = BFLAG_META_INDIR then BufferEndianSwapIndir E big b
        else b
      else b)"

text \<open>The CRC of a metaroot is swapped apart from the rest, where it is computed.\<close>

definition MetaRootEndianSwap :: "'d env \<Rightarrow> bool \<Rightarrow> bytes \<Rightarrow> bytes" where
  "MetaRootEndianSwap E big b =
     (let b = rev32_at big NODEHEADER_OFFSET_SIG b;
          b = rev64_at big NODEHEADER_OFFSET_SEQ b;
          b = rev32_at big mr_off_ulSectorCRC b;
          b = rev32_at big mr_off_ulFreeBlocks b;
          b = (if REDCONF_API_POSIX E then rev32_at big mr_off_ulFreeInodes b else b);
          b = rev32_at big (mr_off_ulAllocNextBlock E) b
      in if REDCONF_API_POSIX E \<and> REDCONF_DELETE_OPEN E
         then rev32_at big mr_off_ulOrphanTail (rev32_at big mr_off_ulOrphanHead (rev32_at big mr_off_ulDefunctOrphanHead b))
         else b)"

section \<open>The bytes of a number\<close>

lemma bit_byte_value: "bit (unat (x :: u8) + 256 * m) n \<longleftrightarrow> (if n < 8 then bit x n else bit m (n - 8))"
proof -
  have "unat x < 2 ^ LENGTH(8)" by (rule unsigned_less)
  then have "take_bit 8 (unat x + 256 * m) = unat x" "drop_bit 8 (unat x + 256 * m) = m"
    by (simp_all add: take_bit_eq_mod drop_bit_eq_div)
  moreover have "bit (take_bit 8 (unat x + 256 * m)) n = bit (unat x + 256 * m) n" if "n < 8"
    using that by (simp add: bit_take_bit_iff)
  moreover have "bit (drop_bit 8 (unat x + 256 * m)) (n - 8) = bit (unat x + 256 * m) n" if "\<not> n < 8"
    using that by (simp add: bit_drop_bit_eq)
  ultimately show ?thesis by (auto simp: bit_unsigned_iff)
qed

lemma bit_le_value: "bit (le_value xs) n \<longleftrightarrow> n div 8 < length xs \<and> bit (xs ! (n div 8)) (n mod 8)"
proof (induction xs arbitrary: n)
  case (Cons x xs)
  show ?case
  proof (cases "n < 8")
    case False
    then have "n div 8 = Suc ((n - 8) div 8)" "n mod 8 = (n - 8) mod 8" by (simp_all add: le_div_geq le_mod_geq)
    then show ?thesis using False by (simp add: bit_byte_value Cons.IH)
  qed (simp add: bit_byte_value)
qed simp

lemma rev_word_value:
  assumes f: "\<And>n. n < 8 * w \<Longrightarrow> bit (f (word_of_nat (le_value xs))) n = bit (word_of_nat (le_value xs) :: 'a::len word) (rev_pos w n)"
    and w: "length xs = w" "LENGTH('a) = 8 * w"
  shows "f (word_of_nat (le_value xs)) = (word_of_nat (le_value (rev xs)) :: 'a word)"
proof (rule bit_word_eqI)
  fix n assume "n < LENGTH('a)"
  then have n: "n < 8 * w" using w(2) by simp
  then have d: "n div 8 < w" by (simp add: less_mult_imp_div_less mult.commute)
  have p: "rev_pos w n div 8 = w - 1 - n div 8" "rev_pos w n mod 8 = n mod 8" by (simp_all add: rev_pos_def)
  have "rev_pos w n < LENGTH('a)" using rev_pos_less [of w n] d w(2) by simp
  then show "bit (f (word_of_nat (le_value xs))) n = bit (word_of_nat (le_value (rev xs)) :: 'a word) n"
    using f [OF n] n d p w by (simp add: bit_simps bit_le_value rev_nth)
qed

lemma RedRev_value:
  "length xs = 2 \<Longrightarrow> RedRev16 (word_of_nat (le_value xs)) = word_of_nat (le_value (rev xs))"
  "length xs = 4 \<Longrightarrow> RedRev32 (word_of_nat (le_value xs)) = word_of_nat (le_value (rev xs))"
  "length xs = 8 \<Longrightarrow> RedRev64 (word_of_nat (le_value xs)) = word_of_nat (le_value (rev xs))"
  using bits_RedRev16 bits_RedRev32 bits_RedRev64 by (auto intro!: rev_word_value)

section \<open>A swap reverses the bytes of the members\<close>

definition rev_at :: "nat \<times> nat \<Rightarrow> bytes \<Rightarrow> bytes" where
  "rev_at x b = overwrite (fst x) (rev (slice (fst x) (snd x) b)) b"

lemma store_word:
  assumes "length xs = w" "2 ^ LENGTH('a) = (256 :: nat) ^ w"
  shows "le_bytes w (unat (word_of_nat (le_value xs) :: 'a::len word)) = xs"
proof -
  have "le_value xs < 256 ^ w" using le_value_bound [of xs] assms(1) by simp
  then have "unat (word_of_nat (le_value xs) :: 'a word) = le_value xs" using assms(2) by (simp add: unat_of_nat)
  then show ?thesis using le_bytes_le_value [of xs] assms(1) by simp
qed

lemma rev_at_eq:
  "off + 2 \<le> length b \<Longrightarrow> rev16_at big off b = rev_at (off, 2) b"
  "off + 4 \<le> length b \<Longrightarrow> rev32_at big off b = rev_at (off, 4) b"
  "off + 8 \<le> length b \<Longrightarrow> rev64_at big off b = rev_at (off, 8) b"
  by (simp_all add: rev16_at_def rev32_at_def rev64_at_def rev_at_def load_def store_def in_order_def RedRev_value
      length_slice store_word)

lemma length_rev_at [simp]: "fst x + snd x \<le> length b \<Longrightarrow> length (rev_at x b) = length b"
  by (simp add: rev_at_def length_slice)

lemma rev_at_nth:
  assumes "fst x + snd x \<le> length b" "i < length b"
  shows "rev_at x b ! i = (if fst x \<le> i \<and> i < fst x + snd x then b ! (fst x + (snd x - 1 - (i - fst x))) else b ! i)"
proof -
  have l: "length (slice (fst x) (snd x) b) = snd x" using assms(1) by (rule length_slice)
  have n: "slice (fst x) (snd x) b ! j = b ! (fst x + j)" if "j < snd x" for j using that assms(1) by (simp add: slice_def)
  show ?thesis using assms by (auto simp: rev_at_def overwrite_def nth_append rev_nth l n)
qed

text \<open>The members of a node, each by its offset and width, in the order of their offsets.\<close>

type_synonym fields = "(nat \<times> nat) list"

definition fields_ok :: "nat \<Rightarrow> fields \<Rightarrow> bool" where
  "fields_ok n fs \<longleftrightarrow> sorted_wrt (\<lambda>x y. fst x + snd x \<le> fst y) fs \<and> (\<forall>x \<in> set fs. fst x + snd x \<le> n)"

abbreviation field :: "nat \<times> nat \<Rightarrow> bytes \<Rightarrow> bytes" where "field x \<equiv> slice (fst x) (snd x)"

lemma length_fold_rev [simp]: "\<forall>x \<in> set fs. fst x + snd x \<le> length b \<Longrightarrow> length (fold rev_at fs b) = length b"
  by (induction fs arbitrary: b) simp_all

lemma field_rev_at:
  assumes "fst x + snd x \<le> length b"
  shows "field x (rev_at x b) = rev (field x b)"
    "fst y + snd y \<le> fst x \<or> fst x + snd x \<le> fst y \<Longrightarrow> field y (rev_at x b) = field y b"
  using assms slice_overwrite_same [of "fst x" "rev (field x b)" b] slice_overwrite_other [of "fst x" "rev (field x b)" b "fst y" "snd y"]
  by (simp_all add: rev_at_def length_slice)

lemma field_fold_other:
  "\<forall>x \<in> set fs. fst x + snd x \<le> length b \<Longrightarrow> \<forall>x \<in> set fs. fst y + snd y \<le> fst x \<or> fst x + snd x \<le> fst y \<Longrightarrow>
   field y (fold rev_at fs b) = field y b"
  by (induction fs arbitrary: b) (simp_all add: field_rev_at(2))

lemma fold_rev_fields:
  assumes "fields_ok (length b) fs" "x \<in> set fs"
  shows "field x (fold rev_at fs b) = rev (field x b)"
  using assms
proof (induction fs arbitrary: b)
  case (Cons y fs)
  have y: "fst y + snd y \<le> length b" "fields_ok (length (rev_at y b)) fs" using Cons.prems(1) by (simp_all add: fields_ok_def)
  show ?case
  proof (cases "x \<in> set fs")
    case True
    then show ?thesis using Cons.IH [OF y(2) True] Cons.prems(1) y(1) by (simp add: fields_ok_def field_rev_at(2))
  next
    case False
    then have "x = y" using Cons.prems(2) by simp
    then show ?thesis using field_fold_other [of fs "rev_at y b" y] field_rev_at(1) [OF y(1)] Cons.prems(1)
      by (simp add: fields_ok_def)
  qed
qed simp

lemma field_nth: "fst x + snd x \<le> length b \<Longrightarrow> fst x \<le> i \<Longrightarrow> i < fst x + snd x \<Longrightarrow> b ! i = field x b ! (i - fst x)"
  by (simp add: slice_def)

lemma fold_rev_outside:
  assumes "\<forall>x \<in> set fs. fst x + snd x \<le> length b" "\<forall>x \<in> set fs. \<not> (fst x \<le> i \<and> i < fst x + snd x)" "i < length b"
  shows "fold rev_at fs b ! i = b ! i"
  using assms by (induction fs arbitrary: b) (auto simp: rev_at_nth)

lemma fold_rev_twice:
  assumes "fields_ok (length b) fs"
  shows "fold rev_at fs (fold rev_at fs b) = b"
proof (rule nth_equalityI)
  have le: "\<forall>x \<in> set fs. fst x + snd x \<le> length b" using assms by (simp add: fields_ok_def)
  let ?b = "fold rev_at fs b"
  have ok: "fields_ok (length ?b) fs" using assms le by simp
  show "length (fold rev_at fs ?b) = length b" using le by simp
  fix i assume "i < length (fold rev_at fs ?b)"
  then have i: "i < length b" using le by simp
  show "fold rev_at fs ?b ! i = b ! i"
  proof (cases "\<exists>x \<in> set fs. fst x \<le> i \<and> i < fst x + snd x")
    case True
    then obtain x where x: "x \<in> set fs" "fst x \<le> i" "i < fst x + snd x" by blast
    have "field x (fold rev_at fs ?b) = field x b"
      using fold_rev_fields [OF ok x(1)] fold_rev_fields [OF assms x(1)] by simp
    then show ?thesis using field_nth [OF _ x(2,3), of b] field_nth [OF _ x(2,3), of "fold rev_at fs ?b"] le x(1) by simp
  next
    case False
    then show ?thesis using fold_rev_outside [of fs ?b i] fold_rev_outside [of fs b i] le i by simp
  qed
qed

text \<open>What each processor reads: after a swap, the number that the other one reads before it.\<close>

lemma load_rev: "field x b' = rev (field x b) \<Longrightarrow> load big (snd x) (fst x) b' = load (\<not> big) (snd x) (fst x) b"
  by (simp add: load_def in_order_def)

section \<open>The members of the nodes\<close>

definition header_fields :: fields where "header_fields = [(0, 4), (4, 4), (8, 8)]"

definition master_fields :: fields where
  "master_fields = [(16, 4), (28, 4), (32, 4), (36, 4), (40, 2), (42, 2), (44, 2), (48, 2), (50, 2)]"

definition entry_fields :: "nat \<Rightarrow> u32 \<Rightarrow> fields" where
  "entry_fields off n = map (\<lambda>i. (off + 4 * i, 4)) [0..<unat n]"

definition inode_header_fields :: "'d env \<Rightarrow> fields" where
  "inode_header_fields E = [(ino_off_ullSize, 8)] @ (if REDCONF_INODE_BLOCKS E then [(ino_off_ulBlocks, 4)] else []) @
     (if REDCONF_INODE_TIMESTAMPS E then [(ino_off_ulATime E, 4), (ino_off_ulMTime E, 4), (ino_off_ulCTime E, 4)] else []) @
     (if REDCONF_API_POSIX E \<and> REDCONF_POSIX_OWNER_PERM E then [(ino_off_ulUID E, 4), (ino_off_ulGID E, 4)] else []) @
     [(ino_off_uMode E, 2)] @ (if REDCONF_API_POSIX E \<and> REDCONF_API_POSIX_LINK E then [(ino_off_uNLink E, 2)] else []) @
     (if REDCONF_API_POSIX E then [(ino_off_ulPInode E, 4)] else []) @
     (if REDCONF_API_POSIX E \<and> REDCONF_DELETE_OPEN E then [(ino_off_ulNextOrphan E, 4)] else [])"

definition inode_fields :: "'d env \<Rightarrow> fields" where
  "inode_fields E = inode_header_fields E @ entry_fields (INODE_HEADER_SIZE E) (INODE_ENTRIES E)"

definition node_fields :: "'d env \<Rightarrow> u16 \<Rightarrow> fields" where
  "node_fields E t = header_fields @
     (if t = BFLAG_META_MASTER then master_fields
      else if t = BFLAG_META_INODE then inode_fields E
      else if (DINDIRS_EXIST E \<and> t = BFLAG_META_DINDIR) \<or> (INDIRS_EXIST E \<and> t = BFLAG_META_INDIR)
      then (NODEHEADER_SIZE, 4) # entry_fields INDIR_HEADER_SIZE (INDIR_ENTRIES E) else [])"

lemma BSIZE_bound: "env_ok E \<Longrightarrow> BSIZE E < 2 ^ 32"
  using unsigned_less [of "REDCONF_BLOCK_SIZE E", where 'a = nat] by simp

lemma entry_fields_ok:
  "sorted_wrt (\<lambda>x y. fst x + snd x \<le> fst y) (entry_fields off n)"
  "x \<in> set (entry_fields off n) \<Longrightarrow> off \<le> fst x \<and> fst x + snd x \<le> off + 4 * unat n"
  by (auto simp: entry_fields_def sorted_wrt_map intro!: sorted_wrt_mono_rel [OF _ sorted_wrt_upt])

lemma entries_fit:
  assumes "env_ok E" "h \<le> 128"
  shows "h + 4 * unat (word_of_nat ((BSIZE E - h) div 4) :: u32) \<le> BSIZE E"
proof -
  have "(BSIZE E - h) div 4 < 2 ^ 32" using BSIZE_bound [OF assms(1)] by simp
  then have "unat (word_of_nat ((BSIZE E - h) div 4) :: u32) = (BSIZE E - h) div 4" by (simp add: unat_of_nat)
  then show ?thesis using BSIZE_ge [OF assms(1)] assms(2) by simp
qed

lemma fields_append:
  assumes "fields_ok m fs" "fields_ok n gs" "m \<le> n" "\<forall>x \<in> set gs. m \<le> fst x"
  shows "fields_ok n (fs @ gs)"
  using assms by (fastforce simp: fields_ok_def sorted_wrt_append)

lemma inode_header_ok: "fields_ok (INODE_HEADER_SIZE E) (inode_header_fields E)" "\<forall>x \<in> set (inode_header_fields E). 16 \<le> fst x"
  by (cases "REDCONF_INODE_BLOCKS E"; cases "REDCONF_INODE_TIMESTAMPS E"; cases "REDCONF_API_POSIX E";
      cases "REDCONF_POSIX_OWNER_PERM E"; cases "REDCONF_API_POSIX_LINK E"; cases "REDCONF_DELETE_OPEN E";
      simp add: fields_ok_def inode_header_fields_def ino_offsets node_offsets)+

lemma inode_header_size: "INODE_HEADER_SIZE E \<le> 128" "16 \<le> INODE_HEADER_SIZE E"
  by (simp_all add: ino_offsets node_offsets)

lemma inode_fields_ok:
  assumes "env_ok E"
  shows "fields_ok (BSIZE E) (inode_fields E)" "\<forall>x \<in> set (inode_fields E). 16 \<le> fst x"
proof -
  let ?es = "entry_fields (INODE_HEADER_SIZE E) (INODE_ENTRIES E)"
  have e: "INODE_HEADER_SIZE E \<le> fst x \<and> fst x + snd x \<le> BSIZE E" if "x \<in> set ?es" for x
    using entry_fields_ok(2) [OF that] entries_fit [OF assms inode_header_size(1), of E] unfolding INODE_ENTRIES_def by linarith
  have es: "fields_ok (BSIZE E) ?es" using e entry_fields_ok(1) by (simp add: fields_ok_def)
  have "INODE_HEADER_SIZE E \<le> BSIZE E" using inode_header_size(1) [of E] BSIZE_ge [OF assms] by simp
  then show "fields_ok (BSIZE E) (inode_fields E)"
    unfolding inode_fields_def using e by (intro fields_append [OF inode_header_ok(1) es]) blast+
  show "\<forall>x \<in> set (inode_fields E). 16 \<le> fst x"
    using inode_header_ok(2) e inode_header_size(2) [of E] by (fastforce simp: inode_fields_def)
qed

lemma header_append:
  assumes "16 \<le> n" "fields_ok n fs" "\<forall>x \<in> set fs. 16 \<le> fst x"
  shows "fields_ok n (header_fields @ fs)"
proof -
  have "4 \<le> fst x \<and> 8 \<le> fst x \<and> 16 \<le> fst x" if "x \<in> set fs" for x using assms(3) that by fastforce
  then show ?thesis using assms(1,2) by (simp add: fields_ok_def header_fields_def)
qed

lemma node_fields_ok:
  assumes "env_ok E"
  shows "fields_ok (BSIZE E) (node_fields E t)"
proof -
  note B = BSIZE_ge [OF assms]
  have e: "16 \<le> fst x" "20 \<le> fst x" "fst x + snd x \<le> BSIZE E" if "x \<in> set (entry_fields INDIR_HEADER_SIZE (INDIR_ENTRIES E))" for x
    using entry_fields_ok(2) [OF that] entries_fit [OF assms, of INDIR_HEADER_SIZE]
    by (simp_all add: INDIR_ENTRIES_def INDIR_HEADER_SIZE_def node_offsets)
  have indir: "fields_ok (BSIZE E) (header_fields @ (NODEHEADER_SIZE, 4) # entry_fields INDIR_HEADER_SIZE (INDIR_ENTRIES E))"
    by (rule header_append) (use B e entry_fields_ok(1) in \<open>auto simp: fields_ok_def node_offsets\<close>)
  have master: "fields_ok (BSIZE E) (header_fields @ master_fields)"
    by (rule header_append) (use B in \<open>auto simp: fields_ok_def master_fields_def\<close>)
  have inode: "fields_ok (BSIZE E) (header_fields @ inode_fields E)"
    by (rule header_append) (use B inode_fields_ok [OF assms] in auto)
  have bare: "fields_ok (BSIZE E) (header_fields @ [])"
    by (rule header_append) (use B in \<open>auto simp: fields_ok_def\<close>)
  show ?thesis unfolding node_fields_def using indir master inode bare by (simp split: if_split)
qed

section \<open>The swaps reverse the members\<close>

lemma entries_rev:
  assumes "off + 4 * unat n \<le> length b"
  shows "rev32_entries big off n b = fold rev_at (entry_fields off n) b"
proof -
  have "fold (\<lambda>i. rev32_at big (off + 4 * i)) [0..<k] b = fold rev_at (map (\<lambda>i. (off + 4 * i, 4)) [0..<k]) b \<and>
      length (fold rev_at (map (\<lambda>i. (off + 4 * i, 4)) [0..<k]) b) = length b" if "k \<le> unat n" for k
    using that
  proof (induction k)
    case (Suc k)
    then show ?case using assms by (simp add: rev_at_eq)
  qed simp
  then show ?thesis by (simp add: rev32_entries_def entry_fields_def)
qed

lemma header_rev: "16 \<le> length b \<Longrightarrow> BufferEndianSwapHeader big b = fold rev_at header_fields b"
  by (simp add: BufferEndianSwapHeader_def header_fields_def node_offsets rev_at_eq Let_def)

lemma master_rev: "52 \<le> length b \<Longrightarrow> BufferEndianSwapMaster big b = fold rev_at master_fields b"
  by (simp add: BufferEndianSwapMaster_def master_fields_def rev_at_eq Let_def)

lemma indir_rev:
  assumes "env_ok E" "length b = BSIZE E"
  shows "BufferEndianSwapIndir E big b = fold rev_at ((NODEHEADER_SIZE, 4) # entry_fields INDIR_HEADER_SIZE (INDIR_ENTRIES E)) b"
  using entries_fit [OF assms(1), of INDIR_HEADER_SIZE] BSIZE_ge [OF assms(1)] assms(2)
  by (simp add: BufferEndianSwapIndir_def INDIR_ENTRIES_def INDIR_HEADER_SIZE_def node_offsets rev_at_eq entries_rev Let_def)

text \<open>A chain of steps, each of which reverses some of the members.\<close>

definition reverses :: "nat \<Rightarrow> (bytes \<Rightarrow> bytes) \<Rightarrow> fields \<Rightarrow> bool" where
  "reverses n f fs \<longleftrightarrow> (\<forall>x \<in> set fs. fst x + snd x \<le> n) \<and> (\<forall>b. length b = n \<longrightarrow> f b = fold rev_at fs b)"

lemma reverses_fields:
  "off + 2 \<le> n \<Longrightarrow> reverses n (rev16_at big off) [(off, 2)]"
  "off + 4 \<le> n \<Longrightarrow> reverses n (rev32_at big off) [(off, 4)]"
  "off + 8 \<le> n \<Longrightarrow> reverses n (rev64_at big off) [(off, 8)]"
  by (simp_all add: reverses_def rev_at_eq)

lemma reverses_let: "reverses n f fs \<Longrightarrow> reverses n g gs \<Longrightarrow> reverses n (\<lambda>b. Let (f b) g) (fs @ gs)"
  by (simp add: reverses_def ball_Un)

lemma reverses_if: "reverses n f fs \<Longrightarrow> reverses n (\<lambda>b. if c then f b else b) (if c then fs else [])"
  by (simp add: reverses_def)

lemma reverses_two: "reverses n f [x] \<Longrightarrow> reverses n g [y] \<Longrightarrow> reverses n (\<lambda>b. g (f b)) [x, y]"
  by (simp add: reverses_def)

lemma reverses_three: "reverses n f [x] \<Longrightarrow> reverses n g [y] \<Longrightarrow> reverses n h [z] \<Longrightarrow> reverses n (\<lambda>b. h (g (f b))) [x, y, z]"
  by (simp add: reverses_def)

lemma reverses_entries: "off + 4 * unat k \<le> n \<Longrightarrow> reverses n (rev32_entries big off k) (entry_fields off k)"
  using entry_fields_ok(2) by (fastforce simp: reverses_def entries_rev)

lemma inode_rev:
  assumes "env_ok E" "length b = BSIZE E"
  shows "BufferEndianSwapInode E big b = fold rev_at (inode_fields E) b"
proof -
  have fit: "INODE_HEADER_SIZE E + 4 * unat (INODE_ENTRIES E) \<le> BSIZE E"
    using entries_fit [OF assms(1) inode_header_size(1)] by (simp add: INODE_ENTRIES_def)
  have off: "ino_off_ullSize + 8 \<le> BSIZE E" "ino_off_ulBlocks + 4 \<le> BSIZE E" "ino_off_ulATime E + 4 \<le> BSIZE E"
    "ino_off_ulMTime E + 4 \<le> BSIZE E" "ino_off_ulCTime E + 4 \<le> BSIZE E" "ino_off_ulUID E + 4 \<le> BSIZE E"
    "ino_off_ulGID E + 4 \<le> BSIZE E" "ino_off_uMode E + 2 \<le> BSIZE E" "ino_off_uNLink E + 2 \<le> BSIZE E"
    "ino_off_ulPInode E + 4 \<le> BSIZE E" "ino_off_ulNextOrphan E + 4 \<le> BSIZE E"
    using BSIZE_ge [OF assms(1)] by (simp_all add: ino_offsets node_offsets)
  have "reverses (BSIZE E) (BufferEndianSwapInode E big) (inode_fields E)"
    unfolding BufferEndianSwapInode_def [abs_def] inode_fields_def inode_header_fields_def append_assoc
    by (intro reverses_let reverses_if reverses_three reverses_two reverses_fields reverses_entries off fit)
  then show ?thesis using assms(2) by (simp add: reverses_def)
qed

lemma swap_rev:
  assumes "env_ok E" "length b = BSIZE E" "uFlags AND BFLAG_MASK = uFlags" "uFlags AND BFLAG_META_MASK \<noteq> 0"
  shows "RedBufferEndianSwap E big uFlags b = fold rev_at (node_fields E (uFlags AND BFLAG_META_MASK)) b"
proof -
  have B: "128 \<le> length b" using BSIZE_ge [OF assms(1)] assms(2) by simp
  have h: "BufferEndianSwapHeader big b = fold rev_at header_fields b" by (rule header_rev) (use B in simp)
  have l: "length (fold rev_at header_fields b) = BSIZE E" using B assms(2) by (simp add: header_fields_def)
  have m: "BufferEndianSwapMaster big (fold rev_at header_fields b) = fold rev_at master_fields (fold rev_at header_fields b)"
    by (rule master_rev) (use l BSIZE_ge [OF assms(1)] in simp)
  have d: "BFLAG_META_MASTER \<noteq> BFLAG_META_INODE" "BFLAG_META_MASTER \<noteq> BFLAG_META_INDIR" "BFLAG_META_MASTER \<noteq> BFLAG_META_DINDIR"
    "BFLAG_META_INODE \<noteq> BFLAG_META_INDIR" "BFLAG_META_INODE \<noteq> BFLAG_META_DINDIR"
    by (simp_all add: bflag_values)
  show ?thesis
    using assms(3,4) l B h d
    by (auto simp: RedBufferEndianSwap_def node_fields_def m inode_rev [OF assms(1)] indir_rev [OF assms(1)] Let_def)
qed

section \<open>Properties\<close>

text \<open>C32. After the swap of a metadata node, a processor of either byte order loads from each member of the node the number that a
  processor of the other order loads before it, no byte outside of the members changes, and a
  second swap undoes the first.\<close>

theorem endian_swap_reads_other_order:
  assumes "env_ok E" and "length b = BSIZE E" and "uFlags AND BFLAG_MASK = uFlags" and "uFlags AND BFLAG_META_MASK \<noteq> 0"
  shows "(\<forall>x \<in> set (node_fields E (uFlags AND BFLAG_META_MASK)).
       load big (snd x) (fst x) (RedBufferEndianSwap E big uFlags b) = load (\<not> big) (snd x) (fst x) b) \<and>
     (\<forall>i < length b. (\<forall>x \<in> set (node_fields E (uFlags AND BFLAG_META_MASK)). \<not> (fst x \<le> i \<and> i < fst x + snd x)) \<longrightarrow>
       RedBufferEndianSwap E big uFlags b ! i = b ! i) \<and>
     RedBufferEndianSwap E big uFlags (RedBufferEndianSwap E big uFlags b) = b"
proof -
  let ?fs = "node_fields E (uFlags AND BFLAG_META_MASK)"
  have ok: "fields_ok (length b) ?fs" using node_fields_ok [OF assms(1)] assms(2) by simp
  then have le: "\<forall>x \<in> set ?fs. fst x + snd x \<le> length b" by (simp add: fields_ok_def)
  note run = swap_rev [OF assms(1) assms(2) assms(3,4), of big]
  have again: "RedBufferEndianSwap E big uFlags (fold rev_at ?fs b) = fold rev_at ?fs (fold rev_at ?fs b)"
    by (rule swap_rev [OF assms(1) _ assms(3,4)]) (use le assms(2) in simp)
  show ?thesis
    unfolding run again fold_rev_twice [OF ok]
    using load_rev [OF fold_rev_fields [OF ok]] fold_rev_outside [OF le] by blast
qed

theorem endian_swap_reads_other_order_witness:
  "load True 4 32 (RedBufferEndianSwap demo_env True BFLAG_META_MASTER (replicate 32 0 @ [1, 2, 3, 4] @ replicate 92 0)) = 0x04030201"
proof -
  let ?b = "replicate 32 0 @ [1, 2, 3, 4] @ replicate 92 (0 :: u8)"
  have "(32, 4) \<in> set (node_fields demo_env (BFLAG_META_MASTER AND BFLAG_META_MASK))"
    by (simp add: node_fields_def master_fields_def bflag_values)
  moreover have "load False 4 32 ?b = 0x04030201" by (simp add: load_def in_order_def slice_def)
  ultimately show ?thesis
    using endian_swap_reads_other_order [OF demo_env_ok, of ?b BFLAG_META_MASTER True] by (auto simp: bflag_values)
qed

end
