(* ===== verification/Red_CritOut.thy ===== *)
theory Red_CritOut
  imports Red_Volume Red_String
begin

text \<open>
  The message of a critical error in \<^verbatim>\<open>core/driver/volume.c\<close>: the line that is put together in a buffer on the
  stack from a prefix, the name of the source file and the line number. A write outside of the
  buffer is \<open>None\<close>, and so the message is proved to fit.
\<close>

section \<open>The message\<close>

definition ascii :: "string \<Rightarrow> bytes" where "ascii = map of_char"

definition szPrefix :: bytes where "szPrefix = ascii ''Reliance Edge critical error at ''"

definition FILENAME_MAX_LEN :: u32 where "FILENAME_MAX_LEN = 24"
definition LINENUM_MAX_LEN :: nat where "LINENUM_MAX_LEN = 10"
definition PREFIX_LEN :: nat where "PREFIX_LEN = length szPrefix"
definition OUTBUFSIZE :: nat where "OUTBUFSIZE = PREFIX_LEN + unat FILENAME_MAX_LEN + 1 + LINENUM_MAX_LEN + 2"

definition is_slash :: "u8 \<Rightarrow> bool" where "is_slash c \<longleftrightarrow> c = 0x2F \<or> c = 0x5C"

text \<open>The index after the last slash.\<close>

partial_function (option) basename_loop :: "cstr \<Rightarrow> u32 \<Rightarrow> u32 \<Rightarrow> u32 option" where
  "basename_loop pszFileName ulIdx pszBaseName =
     (if pszFileName ulIdx = 0 then Some pszBaseName
      else basename_loop pszFileName (ulIdx + 1) (if is_slash (pszFileName ulIdx) then ulIdx + 1 else pszBaseName))"

declare basename_loop.simps [code]

definition write_at :: "nat \<Rightarrow> bytes \<Rightarrow> bytes \<Rightarrow> bytes option" where
  "write_at i v buf = (if i + length v \<le> length buf then Some (overwrite i v buf) else None)"

text \<open>The buffer and the index of its terminator; the bytes that the buffer holds at first are not set.\<close>

definition error_line :: "bool \<Rightarrow> bytes \<Rightarrow> cstr \<Rightarrow> u32 \<Rightarrow> (bytes \<times> nat) option" where
  "error_line FILE_NAME_defined szBuffer pszFileName ulLineNum =
     Option.bind (if FILE_NAME_defined then Some 0 else basename_loop pszFileName 0 0) (\<lambda>pszBaseName.
     Option.bind (RedStrLen (Some (\<lambda>i. pszFileName (pszBaseName + i)))) (\<lambda>ulNameLen.
     let ulNameLen = min ulNameLen FILENAME_MAX_LEN;
         name = map (\<lambda>i. pszFileName (pszBaseName + word_of_nat i)) [0..<unat ulNameLen] in
     Option.bind (write_at 0 szPrefix szBuffer) (\<lambda>szBuffer.
     Option.bind (write_at PREFIX_LEN name szBuffer) (\<lambda>szBuffer.
     let ulIdx = PREFIX_LEN + unat ulNameLen in
     Option.bind (write_at ulIdx [0x3A] szBuffer) (\<lambda>szBuffer.
     let ulIdx = ulIdx + 1;
         (digits, n) = U32toStr (drop ulIdx szBuffer) (word_of_nat (OUTBUFSIZE - ulIdx)) ulLineNum in
     Option.bind (write_at ulIdx digits szBuffer) (\<lambda>szBuffer.
     let ulIdx = ulIdx + unat n in
     Option.bind (write_at ulIdx [0x0A] szBuffer) (\<lambda>szBuffer.
     let ulIdx = ulIdx + 1 in
     map_option (\<lambda>szBuffer. (szBuffer, ulIdx)) (write_at ulIdx [0] szBuffer))))))))"

text \<open>The strings that are output.\<close>

definition OutputCriticalError :: "bool \<Rightarrow> bytes \<Rightarrow> bool \<Rightarrow> cstr option \<Rightarrow> u32 \<Rightarrow> bytes list option" where
  "OutputCriticalError FILE_NAME_defined szBuffer fReadOnly pszFileName ulLineNum =
     (let first = (if \<not> fReadOnly
          then ascii ''Critical file system error in Reliance Edge, setting volume to READONLY'' @ [0x0A]
          else ascii ''Critical file system error in Reliance Edge (volume already READONLY)'' @ [0x0A]) in
      case pszFileName of
        None \<Rightarrow> Some [first]
      | Some pszFileName \<Rightarrow> map_option (\<lambda>(szBuffer, n). [first, take n szBuffer])
          (error_line FILE_NAME_defined szBuffer pszFileName ulLineNum))"

section \<open>The base name\<close>

definition base_start :: "bytes \<Rightarrow> nat" where
  "base_start bs = length bs - length (takeWhile (\<lambda>c. \<not> is_slash c) (rev bs))"

definition base_name :: "bytes \<Rightarrow> bytes" where
  "base_name bs = drop (base_start bs) bs"

lemma base_start_simps [simp]:
  "base_start [] = 0" "base_start (bs @ [c]) = (if is_slash c then Suc (length bs) else base_start bs)"
  by (simp_all add: base_start_def)

lemma base_start_le: "base_start bs \<le> length bs"
  by (simp add: base_start_def)

lemma basename_loop_from:
  assumes "str_is s bs" "k \<le> length bs"
  shows "basename_loop s (word_of_nat k) (word_of_nat (base_start (take k bs))) = Some (word_of_nat (base_start bs))"
  using assms(2)
proof (induction "length bs - k" arbitrary: k)
  case 0
  then have "k = length bs" by simp
  then show ?case using str_is_end [OF assms(1)] by (subst basename_loop.simps) simp
next
  case (Suc n)
  then have k: "k < length bs" by simp
  have t: "take (Suc k) bs = take k bs @ [bs ! k]" using k by (rule take_Suc_conv_app_nth)
  have "basename_loop s (word_of_nat (Suc k)) (word_of_nat (base_start (take (Suc k) bs))) = Some (word_of_nat (base_start bs))"
    by (rule Suc.hyps(1)) (use Suc.hyps(2) k in simp_all)
  then show ?case
    unfolding t using k str_is_nth [OF assms(1) k] str_is_nonzero [OF assms(1) k]
    by (subst basename_loop.simps) (simp add: add.commute split: if_splits)
qed

lemma basename_loop_ok: "str_is s bs \<Longrightarrow> basename_loop s 0 0 = Some (word_of_nat (base_start bs))"
  using basename_loop_from [of s bs 0] by simp

lemma str_is_drop:
  assumes "str_is s bs" "k \<le> length bs"
  shows "str_is (\<lambda>i. s (word_of_nat k + i)) (drop k bs)"
proof -
  have "s (word_of_nat k + word_of_nat j) = bs ! (k + j)" if "j < length bs - k" for j
    using str_is_nth [OF assms(1), of "k + j"] that by simp
  moreover have "s (word_of_nat k + word_of_nat (length bs - k)) = 0"
    using str_is_end [OF assms(1)] assms(2) by (simp add: of_nat_diff)
  ultimately show ?thesis using assms by (auto simp: str_is_def dest: in_set_dropD)
qed

lemma RedStrLen_is: "str_is s bs \<Longrightarrow> RedStrLen (Some s) = Some (word_of_nat (length bs))"
  unfolding RedStrLen_def RedStrLenUnchecked_def option.case
  by (rule scan_while_stop) (auto simp: str_is_nth str_is_nonzero str_is_end)

declare u32_digits.simps [simp del]

lemma u32_digits_length: "n < 10 ^ Suc k \<Longrightarrow> length (u32_digits n) \<le> Suc k"
proof (induction k arbitrary: n)
  case 0
  then show ?case by (subst u32_digits.simps) simp
next
  case (Suc k)
  then have "n div 10 < 10 ^ Suc k" by (simp add: less_mult_imp_div_less)
  then show ?case using Suc.IH [of "n div 10"] by (subst u32_digits.simps) simp
qed

section \<open>The buffer\<close>

text \<open>The first bytes of the buffer are those written so far.\<close>

definition holds :: "bytes \<Rightarrow> bytes \<Rightarrow> bool" where
  "holds buf xs \<longleftrightarrow> length buf = OUTBUFSIZE \<and> length xs \<le> OUTBUFSIZE \<and> take (length xs) buf = xs"

lemma write_next:
  assumes "holds buf xs" "length xs + length (v @ w) \<le> OUTBUFSIZE"
  shows "\<exists>buf'. write_at (length xs) (v @ w) buf = Some buf' \<and> holds buf' (xs @ v)"
  using assms by (auto simp: holds_def write_at_def overwrite_def)

lemma write_next_all:
  assumes "holds buf xs" "length xs + length v \<le> OUTBUFSIZE"
  shows "\<exists>buf'. write_at (length xs) v buf = Some buf' \<and> holds buf' (xs @ v)"
  using write_next [OF assms(1), of v "[]"] assms(2) by simp

lemma prefix_length [simp]: "PREFIX_LEN = 32" "length szPrefix = 32" "OUTBUFSIZE = 69"
  by (simp_all add: PREFIX_LEN_def szPrefix_def ascii_def OUTBUFSIZE_def FILENAME_MAX_LEN_def LINENUM_MAX_LEN_def)

definition error_text :: "bytes \<Rightarrow> u32 \<Rightarrow> bytes" where
  "error_text name ulLineNum = szPrefix @ take 24 name @ [0x3A] @ rev (u32_digits (unat ulLineNum)) @ [0x0A]"

lemma error_line_ok:
  assumes s: "str_is s bs" and b: "length buf = OUTBUFSIZE"
    and name: "name = (if FILE_NAME_defined then bs else base_name bs)"
  shows "\<exists>buf'. error_line FILE_NAME_defined buf s n = Some (buf', length (error_text name n)) \<and>
    take (length (error_text name n)) buf' = error_text name n \<and> length (error_text name n) < OUTBUFSIZE \<and>
    buf' ! length (error_text name n) = 0"
proof -
  define k where "k = (if FILE_NAME_defined then 0 else base_start bs)"
  have k: "k \<le> length bs" and nm: "name = drop k bs" using base_start_le name by (auto simp: k_def base_name_def)
  have start: "(if FILE_NAME_defined then Some 0 else basename_loop s 0 0) = Some (word_of_nat k)"
    using basename_loop_ok [OF s] by (simp add: k_def)
  have str: "str_is (\<lambda>i. s (word_of_nat k + i)) name" using str_is_drop [OF s k] nm by simp
  have len: "length name < 2 ^ 32" using str_is_length [OF str] .
  have l: "RedStrLen (Some (\<lambda>i. s (word_of_nat k + i))) = Some (word_of_nat (length name))" using RedStrLen_is [OF str] .
  have m: "unat (min (word_of_nat (length name)) FILENAME_MAX_LEN) = min 24 (length name)"
    using len by (simp add: min_def word_le_nat_alt unat_of_nat FILENAME_MAX_LEN_def)
  have nb: "map (\<lambda>i. s (word_of_nat k + word_of_nat i)) [0..<min 24 (length name)] = take 24 name"
    by (rule nth_equalityI) (auto simp: str_is_nth [OF str])
  let ?d = "rev (u32_digits (unat n))"
  have dl: "length ?d \<le> 10"
  proof -
    have "unat n < 2 ^ LENGTH(32)" by (rule unsigned_less)
    then show ?thesis using u32_digits_length [of "unat n" 9] by simp
  qed
  have "holds buf []" using b by (simp add: holds_def)
  from write_next_all [OF this, of szPrefix] obtain b1 where b1: "write_at 0 szPrefix buf = Some b1" "holds b1 szPrefix" by auto
  from write_next_all [OF b1(2), of "take 24 name"] obtain b2 where b2: "write_at 32 (take 24 name) b1 = Some b2"
      "holds b2 (szPrefix @ take 24 name)" by (auto simp: min_le_iff_disj)
  let ?i = "32 + min 24 (length name)"
  from write_next_all [OF b2(2), of "[0x3A]"] obtain b3 where b3: "write_at ?i [0x3A] b2 = Some b3"
      "holds b3 ((szPrefix @ take 24 name) @ [0x3A])" by (auto simp: min.commute min_le_iff_disj)
  have u: "unat (word_of_nat k :: u32) = k" if "k < 2 ^ 32" for k using that by (simp add: unat_of_nat)
  have room: "unat (word_of_nat (OUTBUFSIZE - (?i + 1)) :: u32) = OUTBUFSIZE - (?i + 1)" by (rule u) simp
  have fit: "length ?d \<le> OUTBUFSIZE - (?i + 1)" using dl by simp
  let ?w = "drop (length ?d) (drop (?i + 1) b3)"
  have digits: "U32toStr (drop (?i + 1) b3) (word_of_nat (OUTBUFSIZE - (?i + 1))) n = (?d @ ?w, word_of_nat (length ?d))"
    unfolding U32toStr_def room Let_def using fit by (simp only: take_all)
  have n: "unat (word_of_nat (length ?d) :: u32) = length ?d" by (rule u) (use dl in simp)
  have "length ((szPrefix @ take 24 name) @ [0x3A]) + length (?d @ ?w) \<le> OUTBUFSIZE"
    using b3(2) dl by (simp add: holds_def min.commute)
  from write_next [OF b3(2) this] obtain b4 where b4: "write_at (?i + 1) (?d @ ?w) b3 = Some b4"
      "holds b4 (((szPrefix @ take 24 name) @ [0x3A]) @ ?d)" by (auto simp: min.commute min_le_iff_disj)
  have "length (((szPrefix @ take 24 name) @ [0x3A]) @ ?d) + length [0x0A :: u8] \<le> OUTBUFSIZE" using dl by simp
  from write_next_all [OF b4(2) this] obtain b5 where b5: "write_at (?i + 1 + length ?d) [0x0A] b4 = Some b5"
      "holds b5 ((((szPrefix @ take 24 name) @ [0x3A]) @ ?d) @ [0x0A])" by (auto simp: min.commute min_le_iff_disj add.assoc)
  have "length ((((szPrefix @ take 24 name) @ [0x3A]) @ ?d) @ [0x0A]) + length [0 :: u8] \<le> OUTBUFSIZE" using dl by simp
  from write_next_all [OF b5(2) this] obtain b6 where b6: "write_at (?i + 1 + length ?d + 1) [0] b5 = Some b6"
      "holds b6 (error_text name n @ [0])" by (auto simp: min.commute error_text_def add.assoc)
  have et: "length (error_text name n) = ?i + 1 + length ?d + 1" by (simp add: error_text_def min.commute)
  have "error_line FILE_NAME_defined buf s n = Some (b6, length (error_text name n))"
    unfolding error_line_def start Option.bind.bind_lunit Let_def l m nb b1(1)
    using b2(1) b3(1) digits b4(1) b5(1) b6(1) n et by simp
  moreover have "take (length (error_text name n)) b6 = error_text name n" "b6 ! length (error_text name n) = 0"
    using b6(2) arg_cong [of _ _ "take (length (error_text name n))"] by (auto simp: holds_def take_Suc_conv_app_nth)
  ultimately show ?thesis using et dl by auto
qed

text \<open>The number that decimal digits stand for, the lowest digit first.\<close>

fun digits_value :: "bytes \<Rightarrow> nat" where
  "digits_value [] = 0"
| "digits_value (d # ds) = unat d - 48 + 10 * digits_value ds"

lemma digits_value_u32: "digits_value (u32_digits n) = n"
proof (induction n rule: u32_digits.induct)
  case (1 n)
  have u: "unat (word_of_nat k :: u8) = k" if "k < 2 ^ 8" for k using that by (simp add: unat_of_nat)
  have "48 + n mod 10 < 2 ^ 8" using mod_less_divisor [of 10 n] by simp
  then have d: "unat (word_of_nat (48 + n mod 10) :: u8) = 48 + n mod 10" by (rule u)
  then show ?case using 1 by (subst u32_digits.simps) (simp del: of_nat_add)
qed

section \<open>Properties\<close>

text \<open>C34. The message of a critical error fits into its buffer for every file name and every line number: no write
  is outside of the buffer, the line is the prefix, at most 24 bytes of the base name and the line
  number in decimal with none of its digits cut off, and it leaves room for its terminator.\<close>

theorem critical_error_line_fits:
  assumes "str_is s bs" and "length szBuffer = OUTBUFSIZE"
  shows "\<exists>first digits. OutputCriticalError False szBuffer fReadOnly (Some s) n = Some [first,
       szPrefix @ take 24 (base_name bs) @ [0x3A] @ digits @ [0x0A]] \<and>
     length (szPrefix @ take 24 (base_name bs) @ [0x3A] @ digits @ [0x0A]) < OUTBUFSIZE \<and>
     digits_value (rev digits) = unat n \<and> map_option snd (error_line False szBuffer s n) =
       Some (length (szPrefix @ take 24 (base_name bs) @ [0x3A] @ digits @ [0x0A]))"
proof -
  from error_line_ok [OF assms, of "base_name bs" False n] obtain buf' where
    "error_line False szBuffer s n = Some (buf', length (error_text (base_name bs) n))"
    "take (length (error_text (base_name bs) n)) buf' = error_text (base_name bs) n"
    "length (error_text (base_name bs) n) < OUTBUFSIZE" by auto
  then show ?thesis
    using digits_value_u32 [of "unat n"]
    by (intro exI [of _ "rev (u32_digits (unat n))"] exI) (simp add: OutputCriticalError_def Let_def error_text_def)
qed

theorem critical_error_line_fits_witness:
  "\<exists>first digits. OutputCriticalError False (replicate 69 0) True (Some (\<lambda>i. if i = 0 then 0x2F else if i = 1 then 0x61 else 0)) 7 =
     Some [first, szPrefix @ [0x61] @ [0x3A] @ digits @ [0x0A]] \<and> digits_value (rev digits) = 7"
proof -
  let ?s = "\<lambda>i :: u32. if i = 0 then 0x2F else if i = 1 then 0x61 else 0 :: u8"
  have "str_is ?s [0x2F, 0x61]" by (auto simp: str_is_def less_Suc_eq)
  moreover have "base_name [0x2F, 0x61] = [0x61]" by (simp add: base_name_def base_start_def is_slash_def)
  ultimately show ?thesis using critical_error_line_fits [of ?s "[0x2F, 0x61]" "replicate 69 0" True 7] by auto
qed

end
