(* ===== verification/Red_Config.thy ===== *)
theory Red_Config
  imports Red_SeekProps Red_PosixInv
begin

text \<open>
  The checks that the preprocessor makes of a configuration: \<^verbatim>\<open>include/redconfigchk.h\<close> and the ones that the other
  headers add (\<^verbatim>\<open>redmacs.h\<close>, \<^verbatim>\<open>rednodes.h\<close>, \<^verbatim>\<open>redbufferpriv.h\<close>, \<^verbatim>\<open>redver.h\<close>, \<^verbatim>\<open>buffer.c\<close>, \<^verbatim>\<open>posix.c\<close>). A configuration is
  the map of the macros that \<^verbatim>\<open>redconf.h\<close> defines. The preprocessor computes in 64 unsigned bits and takes a
  macro that is not defined as zero; macros with a negative value are not modelled. What the
  checks establish are the assumptions that the theorems of the other theories make of the environment.
\<close>

section \<open>Macros\<close>

type_synonym config = "string \<rightharpoonup> u64"

definition val :: "config \<Rightarrow> string \<Rightarrow> u64" where
  "val c x = (case c x of None \<Rightarrow> 0 | Some v \<Rightarrow> v)"

definition macro_defined :: "config \<Rightarrow> string \<Rightarrow> bool" where
  "macro_defined c x \<longleftrightarrow> c x \<noteq> None"

definition is_switch :: "config \<Rightarrow> string \<Rightarrow> bool" where
  "is_switch c x \<longleftrightarrow> \<not> (val c x \<noteq> 0 \<and> val c x \<noteq> 1)"

section \<open>The configuration check\<close>

definition RED_VERSION_VAL :: u64 where "RED_VERSION_VAL = 0x03FF0000"

definition version_ok :: "config \<Rightarrow> bool" where
  "version_ok c \<longleftrightarrow> \<not> (macro_defined c ''RED_CONFIG_MINCOMPAT_VER'' \<and>
     RED_VERSION_VAL AND 0xFFFFFF00 < val c ''RED_CONFIG_MINCOMPAT_VER'' AND 0xFFFFFF00)"

definition api_macros :: "string list" where
  "api_macros = [''REDCONF_READ_ONLY'', ''REDCONF_API_POSIX'', ''REDCONF_API_FSE'']"

definition posix_macros :: "string list" where
  "posix_macros = [''REDCONF_API_POSIX_FORMAT'', ''REDCONF_API_POSIX_UNLINK'', ''REDCONF_API_POSIX_MKDIR'',
     ''REDCONF_API_POSIX_RMDIR'', ''REDCONF_API_POSIX_RENAME'', ''REDCONF_API_POSIX_LINK'',
     ''REDCONF_API_POSIX_FTRUNCATE'', ''REDCONF_API_POSIX_FRESERVE'', ''REDCONF_API_POSIX_READDIR'',
     ''REDCONF_API_POSIX_CWD'', ''REDCONF_API_POSIX_FSTRIM'', ''REDCONF_NAME_MAX'', ''REDCONF_PATH_SEPARATOR'',
     ''REDCONF_RENAME_ATOMIC'', ''REDCONF_HANDLE_COUNT'']"

definition fse_macros :: "string list" where
  "fse_macros = [''REDCONF_API_FSE_FORMAT'', ''REDCONF_API_FSE_TRUNCATE'', ''REDCONF_API_FSE_TRANSMASKSET'',
     ''REDCONF_API_FSE_TRANSMASKGET'']"

definition common_macros :: "string list" where
  "common_macros = [''REDCONF_API_POSIX_SYMLINK'', ''REDCONF_POSIX_OWNER_PERM'', ''REDCONF_DELETE_OPEN'',
     ''REDCONF_TASK_COUNT'', ''REDCONF_ENDIAN_BIG'', ''REDCONF_ALIGNMENT_SIZE'', ''REDCONF_CRC_ALGORITHM'',
     ''REDCONF_INODE_TIMESTAMPS'', ''REDCONF_ATIME'', ''REDCONF_DIRECT_POINTERS'', ''REDCONF_INDIRECT_POINTERS'',
     ''REDCONF_INODE_BLOCKS'', ''REDCONF_IMAP_EXTERNAL'', ''REDCONF_IMAP_INLINE'', ''REDCONF_OUTPUT'',
     ''REDCONF_ASSERTS'', ''REDCONF_TRANSACT_DEFAULT'', ''REDCONF_BUFFER_COUNT'', ''REDCONF_BUFFER_ALIGNMENT'',
     ''REDCONF_BUFFER_WRITE_GATHER_SIZE_KB'', ''REDCONF_BLOCK_SIZE'', ''REDCONF_VOLUME_COUNT'', ''REDCONF_DISCARDS'',
     ''REDCONF_IMAGE_BUILDER'', ''REDCONF_CHECKER'']"

definition macros_ok :: "config \<Rightarrow> bool" where
  "macros_ok c \<longleftrightarrow> list_all (macro_defined c) api_macros \<and>
     (val c ''REDCONF_API_POSIX'' = 1 \<longrightarrow> list_all (macro_defined c) posix_macros) \<and>
     (val c ''REDCONF_API_FSE'' = 1 \<longrightarrow> list_all (macro_defined c) fse_macros) \<and>
     list_all (macro_defined c) common_macros"

definition api_ok :: "config \<Rightarrow> bool" where
  "api_ok c \<longleftrightarrow> is_switch c ''REDCONF_READ_ONLY'' \<and> is_switch c ''REDCONF_API_POSIX'' \<and> is_switch c ''REDCONF_API_FSE'' \<and>
     \<not> (val c ''REDCONF_API_FSE'' = 0 \<and> val c ''REDCONF_API_POSIX'' = 0)"

text \<open>The kit is the one under the GPL, which has no discards.\<close>

definition posix_ok :: "config \<Rightarrow> bool" where
  "posix_ok c \<longleftrightarrow> val c ''REDCONF_API_FSE'' = 0 \<and>
     is_switch c ''REDCONF_API_POSIX_FORMAT'' \<and> is_switch c ''REDCONF_API_POSIX_UNLINK'' \<and>
     is_switch c ''REDCONF_API_POSIX_MKDIR'' \<and> is_switch c ''REDCONF_API_POSIX_RMDIR'' \<and>
     is_switch c ''REDCONF_API_POSIX_RENAME'' \<and> is_switch c ''REDCONF_API_POSIX_LINK'' \<and>
     is_switch c ''REDCONF_API_POSIX_FTRUNCATE'' \<and> is_switch c ''REDCONF_API_POSIX_FRESERVE'' \<and>
     is_switch c ''REDCONF_API_POSIX_READDIR'' \<and> is_switch c ''REDCONF_API_POSIX_CWD'' \<and>
     is_switch c ''REDCONF_API_POSIX_FSTRIM'' \<and> \<not> (val c ''REDCONF_API_POSIX_FSTRIM'' = 1) \<and>
     \<not> (val c ''REDCONF_NAME_MAX'' < 1 \<or> val c ''REDCONF_NAME_MAX'' > val c ''REDCONF_BLOCK_SIZE'' - 4) \<and>
     \<not> (val c ''REDCONF_PATH_SEPARATOR'' < 1 \<or> val c ''REDCONF_PATH_SEPARATOR'' > 127) \<and>
     \<not> (val c ''REDCONF_API_POSIX_CWD'' = 1 \<and> val c ''REDCONF_PATH_SEPARATOR'' = 0x2E) \<and>
     is_switch c ''REDCONF_RENAME_ATOMIC'' \<and>
     \<not> (val c ''REDCONF_HANDLE_COUNT'' < 1 \<or> val c ''REDCONF_HANDLE_COUNT'' > 4096)"

definition fse_ok :: "config \<Rightarrow> bool" where
  "fse_ok c \<longleftrightarrow> is_switch c ''REDCONF_API_FSE_FORMAT'' \<and> is_switch c ''REDCONF_API_FSE_TRUNCATE'' \<and>
     is_switch c ''REDCONF_API_FSE_TRANSMASKSET'' \<and> is_switch c ''REDCONF_API_FSE_TRANSMASKGET''"

definition common_ok :: "config \<Rightarrow> bool" where
  "common_ok c \<longleftrightarrow> is_switch c ''REDCONF_API_POSIX_SYMLINK'' \<and> is_switch c ''REDCONF_POSIX_OWNER_PERM'' \<and>
     is_switch c ''REDCONF_DELETE_OPEN'' \<and> \<not> (val c ''REDCONF_TASK_COUNT'' < 1) \<and> is_switch c ''REDCONF_ENDIAN_BIG'' \<and>
     \<not> (val c ''REDCONF_ALIGNMENT_SIZE'' \<noteq> 1 \<and> val c ''REDCONF_ALIGNMENT_SIZE'' \<noteq> 2 \<and>
        val c ''REDCONF_ALIGNMENT_SIZE'' \<noteq> 4 \<and> val c ''REDCONF_ALIGNMENT_SIZE'' \<noteq> 8) \<and>
     is_switch c ''REDCONF_INODE_TIMESTAMPS'' \<and> is_switch c ''REDCONF_ATIME'' \<and>
     \<not> (val c ''REDCONF_INODE_TIMESTAMPS'' = 0 \<and> val c ''REDCONF_ATIME'' = 1) \<and>
     is_switch c ''REDCONF_INODE_BLOCKS'' \<and> is_switch c ''REDCONF_IMAP_EXTERNAL'' \<and> is_switch c ''REDCONF_IMAP_INLINE'' \<and>
     \<not> (val c ''REDCONF_IMAP_INLINE'' = 0 \<and> val c ''REDCONF_IMAP_EXTERNAL'' = 0) \<and>
     is_switch c ''REDCONF_OUTPUT'' \<and> is_switch c ''REDCONF_ASSERTS'' \<and>
     \<not> (val c ''REDCONF_VOLUME_COUNT'' < 1 \<or> val c ''REDCONF_VOLUME_COUNT'' > 255) \<and>
     is_switch c ''REDCONF_DISCARDS'' \<and> \<not> (val c ''REDCONF_DISCARDS'' = 1) \<and>
     is_switch c ''REDCONF_IMAGE_BUILDER'' \<and> is_switch c ''REDCONF_CHECKER''"

definition redconfigchk :: "config \<Rightarrow> bool" where
  "redconfigchk c \<longleftrightarrow> version_ok c \<and> macros_ok c \<and> api_ok c \<and> (val c ''REDCONF_API_POSIX'' = 1 \<longrightarrow> posix_ok c) \<and>
     (val c ''REDCONF_API_FSE'' = 1 \<longrightarrow> fse_ok c) \<and> common_ok c"

section \<open>The checks of the other headers\<close>

text \<open>The power of two that the block size is.\<close>

definition block_size_p2 :: "config \<Rightarrow> nat option" where
  "block_size_p2 c =
     (let b = val c ''REDCONF_BLOCK_SIZE'' in
      if b = 128 then Some 7 else if b = 256 then Some 8 else if b = 512 then Some 9
      else if b = 1024 then Some 10 else if b = 2048 then Some 11 else if b = 4096 then Some 12
      else if b = 8192 then Some 13 else if b = 16384 then Some 14 else if b = 32768 then Some 15
      else if b = 65536 then Some 16 else None)"

definition conf_INODE_HEADER_SIZE :: "config \<Rightarrow> u64" where
  "conf_INODE_HEADER_SIZE c = 16 + 8 + (if val c ''REDCONF_INODE_BLOCKS'' = 1 then 4 else 0) +
     (if val c ''REDCONF_INODE_TIMESTAMPS'' = 1 then 12 else 0) + 4 +
     (if val c ''REDCONF_API_POSIX'' = 1
      then 4 + (if val c ''REDCONF_DELETE_OPEN'' = 1 then 4 else 0) + (if val c ''REDCONF_POSIX_OWNER_PERM'' = 1 then 8 else 0)
      else 0)"

definition conf_INODE_ENTRIES :: "config \<Rightarrow> u64" where
  "conf_INODE_ENTRIES c = (val c ''REDCONF_BLOCK_SIZE'' - conf_INODE_HEADER_SIZE c) div 4"

definition pointers_ok :: "config \<Rightarrow> bool" where
  "pointers_ok c \<longleftrightarrow>
     \<not> (val c ''REDCONF_DIRECT_POINTERS'' > conf_INODE_ENTRIES c - val c ''REDCONF_INDIRECT_POINTERS'') \<and>
     \<not> (val c ''REDCONF_INDIRECT_POINTERS'' > conf_INODE_ENTRIES c - val c ''REDCONF_DIRECT_POINTERS'')"

definition conf_DINDIRS_EXIST :: "config \<Rightarrow> bool" where
  "conf_DINDIRS_EXIST c \<longleftrightarrow>
     conf_INODE_ENTRIES c - val c ''REDCONF_DIRECT_POINTERS'' - val c ''REDCONF_INDIRECT_POINTERS'' > 0"

definition INODE_META_BUFFERS :: "config \<Rightarrow> u64" where
  "INODE_META_BUFFERS c =
     (if conf_DINDIRS_EXIST c then 3 else if val c ''REDCONF_INDIRECT_POINTERS'' > 0 then 2
      else if val c ''REDCONF_DIRECT_POINTERS'' = conf_INODE_ENTRIES c then 1 else 0)"

definition INODE_BUFFERS :: "config \<Rightarrow> u64" where "INODE_BUFFERS c = INODE_META_BUFFERS c + 1"

definition IMAP_BUFFERS :: "config \<Rightarrow> u64" where
  "IMAP_BUFFERS c = (if val c ''REDCONF_IMAP_EXTERNAL'' = 1 then 1 else 0)"

definition MINIMUM_BUFFER_COUNT :: "config \<Rightarrow> u64" where
  "MINIMUM_BUFFER_COUNT c =
     (if val c ''REDCONF_READ_ONLY'' = 1 \<or> val c ''REDCONF_API_FSE'' = 1 then INODE_BUFFERS c + IMAP_BUFFERS c
      else if val c ''REDCONF_API_POSIX'' = 1 then
        if val c ''REDCONF_API_POSIX_RENAME'' = 1 then
          if val c ''REDCONF_RENAME_ATOMIC'' = 1 then INODE_BUFFERS c + INODE_BUFFERS c + 3 + IMAP_BUFFERS c
          else INODE_BUFFERS c + INODE_BUFFERS c + 2 + IMAP_BUFFERS c
        else INODE_BUFFERS c + 1 + IMAP_BUFFERS c
      else 0)"

definition conf_IS_POWER_OF_2 :: "u64 \<Rightarrow> bool" where
  "conf_IS_POWER_OF_2 v \<longleftrightarrow> v > 0 \<and> v AND ((NOT v) + 1) = v"

definition buffers_ok :: "config \<Rightarrow> bool" where
  "buffers_ok c \<longleftrightarrow> \<not> (val c ''REDCONF_BUFFER_COUNT'' < MINIMUM_BUFFER_COUNT c) \<and> \<not> (val c ''REDCONF_BUFFER_ALIGNMENT'' < 8) \<and>
     \<not> (val c ''REDCONF_BUFFER_ALIGNMENT'' > val c ''REDCONF_BLOCK_SIZE'') \<and>
     conf_IS_POWER_OF_2 (val c ''REDCONF_BUFFER_ALIGNMENT'')"

definition simple_buffers_ok :: "config \<Rightarrow> bool" where
  "simple_buffers_ok c \<longleftrightarrow> \<not> (val c ''REDCONF_BUFFER_COUNT'' > 255) \<and> \<not> (val c ''REDCONF_BUFFER_WRITE_GATHER_SIZE_KB'' \<noteq> 0)"

definition layouts_ok :: "config \<Rightarrow> bool" where
  "layouts_ok c \<longleftrightarrow> \<not> (val c ''REDCONF_API_POSIX'' = 1 \<and>
     val c ''REDCONF_NAME_MAX'' > val c ''REDCONF_BLOCK_SIZE'' - 4 - 16 \<and>
     (val c ''REDCONF_POSIX_OWNER_PERM'' = 1 \<or> val c ''REDCONF_DELETE_OPEN'' = 1 \<or> val c ''REDCONF_API_POSIX_SYMLINK'' = 1))"

definition descriptors_ok :: "config \<Rightarrow> bool" where
  "descriptors_ok c \<longleftrightarrow> \<not> (FD_GEN_BITS + FD_VOL_BITS + FD_IDX_BITS > 31) \<and>
     \<not> (val c ''REDCONF_VOLUME_COUNT'' > ucast FD_VOL_MAX) \<and> \<not> (val c ''REDCONF_HANDLE_COUNT'' > ucast FD_IDX_MAX + 1)"

text \<open>A configuration that compiles.\<close>

definition config_compiles :: "config \<Rightarrow> bool" where
  "config_compiles c \<longleftrightarrow> redconfigchk c \<and> block_size_p2 c \<noteq> None \<and> pointers_ok c \<and> buffers_ok c \<and> simple_buffers_ok c \<and>
     layouts_ok c \<and> (val c ''REDCONF_API_POSIX'' = 1 \<longrightarrow> descriptors_ok c)"

section \<open>The environment of a configuration\<close>

text \<open>The fields of the environment that stand for macros have their values.\<close>

definition configured :: "config \<Rightarrow> 'd env \<Rightarrow> bool" where
  "configured c E \<longleftrightarrow>
     ucast (REDCONF_VOLUME_COUNT E) = val c ''REDCONF_VOLUME_COUNT'' \<and> Some (BLOCK_SIZE_P2 E) = block_size_p2 c \<and>
     ucast (REDCONF_BUFFER_COUNT E) = val c ''REDCONF_BUFFER_COUNT'' \<and>
     ucast (REDCONF_DIRECT_POINTERS E) = val c ''REDCONF_DIRECT_POINTERS'' \<and>
     ucast (REDCONF_INDIRECT_POINTERS E) = val c ''REDCONF_INDIRECT_POINTERS'' \<and>
     ucast (REDCONF_HANDLE_COUNT E) = val c ''REDCONF_HANDLE_COUNT'' \<and>
     ucast (REDCONF_TASK_COUNT E) = val c ''REDCONF_TASK_COUNT'' \<and>
     REDCONF_API_POSIX E = (val c ''REDCONF_API_POSIX'' = 1) \<and>
     REDCONF_API_POSIX_CWD E = (val c ''REDCONF_API_POSIX_CWD'' = 1) \<and>
     REDCONF_DELETE_OPEN E = (val c ''REDCONF_DELETE_OPEN'' = 1) \<and>
     REDCONF_POSIX_OWNER_PERM E = (val c ''REDCONF_POSIX_OWNER_PERM'' = 1) \<and>
     REDCONF_INODE_BLOCKS E = (val c ''REDCONF_INODE_BLOCKS'' = 1) \<and>
     REDCONF_INODE_TIMESTAMPS E = (val c ''REDCONF_INODE_TIMESTAMPS'' = 1)"

lemma block_size_value:
  assumes "block_size_p2 c = Some k"
  shows "unat (val c ''REDCONF_BLOCK_SIZE'') = 2 ^ k" "7 \<le> k" "k \<le> 16"
  using assms by (auto simp: block_size_p2_def Let_def split: if_splits)

lemma configured_sizes:
  assumes "configured c E"
  shows "unat (conf_INODE_HEADER_SIZE c) = INODE_HEADER_SIZE E" "INODE_HEADER_SIZE E \<le> 64"
  using assms by (auto simp: conf_INODE_HEADER_SIZE_def configured_def ino_offsets NODEHEADER_SIZE_def)

lemma unat_diff_small: "unat (y :: 64 word) \<le> unat x \<Longrightarrow> unat (x - y) = unat x - unat y"
  by (simp add: unat_sub word_le_nat_alt)

lemma unat_diff_wraps: "unat x < unat (y :: 64 word) \<Longrightarrow> unat (x - y) = 2 ^ 64 + unat x - unat y"
proof -
  assume less: "unat x < unat y"
  have "unat y < 2 ^ LENGTH(64)" by (rule unsigned_less)
  then show ?thesis using less by (simp add: unat_sub_if')
qed

lemma conf_entries_bound:
  assumes "block_size_p2 c = Some k"
  shows "unat (conf_INODE_ENTRIES c) \<le> 16384"
proof -
  have h: "unat (conf_INODE_HEADER_SIZE c) \<le> 64" by (simp add: conf_INODE_HEADER_SIZE_def)
  have "(2 :: nat) ^ 7 \<le> 2 ^ k" "(2 :: nat) ^ k \<le> 2 ^ 16"
    by (rule power_increasing; use block_size_value(2,3) [OF assms] in simp)+
  then have b: "128 \<le> unat (val c ''REDCONF_BLOCK_SIZE'')" "unat (val c ''REDCONF_BLOCK_SIZE'') \<le> 65536"
    unfolding block_size_value(1) [OF assms] by simp_all
  then have "unat (val c ''REDCONF_BLOCK_SIZE'' - conf_INODE_HEADER_SIZE c) \<le> 65536"
    using h unat_diff_small [of "conf_INODE_HEADER_SIZE c" "val c ''REDCONF_BLOCK_SIZE''"] by simp
  then show ?thesis by (simp add: conf_INODE_ENTRIES_def unat_div_distrib)
qed

lemma unat_up:
  assumes "LENGTH('a) \<le> LENGTH('b)"
  shows "unat (ucast (x :: 'a::len word) :: 'b::len word) = unat x"
proof -
  have "unat x < 2 ^ LENGTH('a)" by (rule unsigned_less)
  also have "(2 :: nat) ^ LENGTH('a) \<le> 2 ^ LENGTH('b)" using assms by (intro power_increasing) simp_all
  finally show ?thesis by (simp add: unsigned_ucast_eq take_bit_nat_eq_self)
qed

lemma up_value: "ucast (x :: 'a::len word) = (v :: u64) \<Longrightarrow> LENGTH('a) \<le> LENGTH(64) \<Longrightarrow> unat v = unat x"
  using unat_up [where 'a = 'a and 'b = 64, of x] by metis

lemma configured_numbers:
  assumes "configured c E"
  shows "unat (val c ''REDCONF_VOLUME_COUNT'') = unat (REDCONF_VOLUME_COUNT E)"
    "unat (val c ''REDCONF_BUFFER_COUNT'') = unat (REDCONF_BUFFER_COUNT E)"
    "unat (val c ''REDCONF_DIRECT_POINTERS'') = unat (REDCONF_DIRECT_POINTERS E)"
    "unat (val c ''REDCONF_INDIRECT_POINTERS'') = unat (REDCONF_INDIRECT_POINTERS E)"
    "unat (val c ''REDCONF_HANDLE_COUNT'') = unat (REDCONF_HANDLE_COUNT E)"
    "unat (val c ''REDCONF_TASK_COUNT'') = unat (REDCONF_TASK_COUNT E)"
  by (rule up_value; use assms in \<open>simp add: configured_def\<close>)+

section \<open>Properties\<close>

lemma pointers_ok_cases:
  assumes "block_size_p2 c \<noteq> None" and "val c ''REDCONF_DIRECT_POINTERS'' < 2 ^ 32" and "val c ''REDCONF_INDIRECT_POINTERS'' < 2 ^ 32"
  shows "pointers_ok c \<longleftrightarrow>
     unat (val c ''REDCONF_DIRECT_POINTERS'') + unat (val c ''REDCONF_INDIRECT_POINTERS'') \<le> unat (conf_INODE_ENTRIES c) \<or>
     conf_INODE_ENTRIES c < val c ''REDCONF_DIRECT_POINTERS'' \<and> conf_INODE_ENTRIES c < val c ''REDCONF_INDIRECT_POINTERS''"
proof -
  let ?d = "val c ''REDCONF_DIRECT_POINTERS''" and ?i = "val c ''REDCONF_INDIRECT_POINTERS''" and ?n = "conf_INODE_ENTRIES c"
  have d: "unat ?d < 2 ^ 32" and i: "unat ?i < 2 ^ 32" using assms(2,3) by (simp_all add: word_less_nat_alt)
  obtain k where "block_size_p2 c = Some k" using assms(1) by blast
  then have n: "unat ?n \<le> 16384" by (rule conf_entries_bound)
  have sub: "unat (?n - x) = (if unat x \<le> unat ?n then unat ?n - unat x else 2 ^ 64 + unat ?n - unat x)" for x
    using unat_diff_small [of x ?n] unat_diff_wraps [of ?n x] by auto
  show ?thesis
    unfolding pointers_ok_def word_less_nat_alt sub using d i n by (auto split: if_splits)
qed

text \<open>The two checks of the numbers of pointers in an inode accept a configuration exactly when both together fit
  into the inode, or when each of them alone does not: the subtractions of the checks wrap around, and so
  two numbers that are both too large pass.\<close>

theorem pointer_checks_wrap:
  assumes "block_size_p2 c \<noteq> None" and "val c ''REDCONF_DIRECT_POINTERS'' < 2 ^ 32" and "val c ''REDCONF_INDIRECT_POINTERS'' < 2 ^ 32"
  shows "pointers_ok c \<longleftrightarrow>
     unat (val c ''REDCONF_DIRECT_POINTERS'') + unat (val c ''REDCONF_INDIRECT_POINTERS'') \<le> unat (conf_INODE_ENTRIES c) \<or>
     conf_INODE_ENTRIES c < val c ''REDCONF_DIRECT_POINTERS'' \<and> conf_INODE_ENTRIES c < val c ''REDCONF_INDIRECT_POINTERS''"
  using assms by (rule pointers_ok_cases)


section \<open>A configuration\<close>

definition demo_config :: config where
  "demo_config x = Some (case map_of (map (\<lambda>x. (x, 1)) [''REDCONF_API_POSIX'', ''REDCONF_TASK_COUNT'', ''REDCONF_INODE_BLOCKS'',
       ''REDCONF_INODE_TIMESTAMPS'', ''REDCONF_IMAP_INLINE'', ''REDCONF_IMAP_EXTERNAL'', ''REDCONF_VOLUME_COUNT''] @
     [(''REDCONF_BLOCK_SIZE'', 128), (''REDCONF_DIRECT_POINTERS'', 4), (''REDCONF_INDIRECT_POINTERS'', 2),
      (''REDCONF_BUFFER_COUNT'', 12), (''REDCONF_BUFFER_ALIGNMENT'', 8), (''REDCONF_NAME_MAX'', 12),
      (''REDCONF_PATH_SEPARATOR'', 0x2F), (''REDCONF_HANDLE_COUNT'', 10), (''REDCONF_ALIGNMENT_SIZE'', 4)]) x of
     Some v \<Rightarrow> v | None \<Rightarrow> 0)"

lemma demo_config_values:
  "val demo_config ''REDCONF_VOLUME_COUNT'' = 1" "block_size_p2 demo_config = Some 7" "val demo_config ''REDCONF_BUFFER_COUNT'' = 12"
  "val demo_config ''REDCONF_DIRECT_POINTERS'' = 4" "val demo_config ''REDCONF_INDIRECT_POINTERS'' = 2"
  "val demo_config ''REDCONF_HANDLE_COUNT'' = 10" "val demo_config ''REDCONF_TASK_COUNT'' = 1"
  "val demo_config ''REDCONF_API_POSIX'' = 1" "val demo_config ''REDCONF_API_POSIX_CWD'' = 0"
  "val demo_config ''REDCONF_DELETE_OPEN'' = 0" "val demo_config ''REDCONF_POSIX_OWNER_PERM'' = 0"
  "val demo_config ''REDCONF_INODE_BLOCKS'' = 1" "val demo_config ''REDCONF_INODE_TIMESTAMPS'' = 1"
  by (simp_all add: val_def demo_config_def block_size_p2_def)

lemma demo_config_checked: "redconfigchk demo_config"
proof -
  have "macros_ok demo_config" by (simp add: macros_ok_def macro_defined_def demo_config_def list_all_iff)
  moreover have "api_ok demo_config" "posix_ok demo_config" "common_ok demo_config" "version_ok demo_config" "val demo_config ''REDCONF_API_FSE'' = 0"
    by (simp_all add: api_ok_def posix_ok_def common_ok_def version_ok_def is_switch_def val_def demo_config_def)
  ultimately show ?thesis by (simp add: redconfigchk_def)
qed

lemma demo_config_entries: "conf_INODE_ENTRIES demo_config = 20"
  by (simp add: conf_INODE_ENTRIES_def conf_INODE_HEADER_SIZE_def val_def demo_config_def)

lemma demo_config_compiles: "config_compiles demo_config"
proof -
  have "pointers_ok demo_config" by (simp add: pointers_ok_def demo_config_entries demo_config_values)
  moreover have "INODE_META_BUFFERS demo_config = 3"
    by (simp add: INODE_META_BUFFERS_def conf_DINDIRS_EXIST_def demo_config_entries demo_config_values)
  moreover have "buffers_ok demo_config" using calculation(2)
    by (simp add: buffers_ok_def MINIMUM_BUFFER_COUNT_def INODE_BUFFERS_def IMAP_BUFFERS_def conf_IS_POWER_OF_2_def val_def demo_config_def)
  moreover have "simple_buffers_ok demo_config" "layouts_ok demo_config" "descriptors_ok demo_config"
    by (simp_all add: simple_buffers_ok_def layouts_ok_def descriptors_ok_def FD_GEN_BITS_def FD_VOL_BITS_def FD_IDX_BITS_def
        FD_VOL_MAX_def FD_IDX_MAX_def val_def demo_config_def)
  ultimately show ?thesis using demo_config_checked demo_config_values(2) by (simp add: config_compiles_def)
qed

lemma demo_configured: "configured demo_config (demo_env\<lparr>REDCONF_BUFFER_COUNT := 12\<rparr>)"
  by (simp add: configured_def demo_config_values demo_env_def)

theorem pointer_checks_wrap_witness: "pointers_ok demo_config \<and> unat (val demo_config ''REDCONF_DIRECT_POINTERS'') + 2 \<le> unat (conf_INODE_ENTRIES demo_config)"
  using pointer_checks_wrap [of demo_config] demo_config_compiles demo_config_values
  by (simp add: demo_config_entries word_less_nat_alt pointers_ok_def)


end
