(* ===== verification/Red_MdIter.thy ===== *)
theory Red_MdIter
  imports Red_Format
begin

text \<open>
  The metadata iterator \<^verbatim>\<open>tools/mditer.c\<close>: it reads the committed state of a volume from its device, without the
  buffers of the driver, and shows each metadata node to a callback. The callback may change the buffer that it is shown,
  its own context, and the device or any other state of the driver. The memory that \<^verbatim>\<open>malloc\<close>
  gives is a parameter: an address for each call, zero when there is none, and
  the bytes that are found there. The messages are left out.
\<close>

section \<open>Data\<close>

datatype MDTYPE =
  MDTYPE_MASTER | MDTYPE_METAROOT | MDTYPE_IMAP | MDTYPE_INODE | MDTYPE_DINDIR | MDTYPE_INDIR | MDTYPE_DIRECTORY

type_synonym ('c, 'd) mditercb =
  "'c \<Rightarrow> MDTYPE \<Rightarrow> u32 \<Rightarrow> bytes \<Rightarrow> 'd fs \<Rightarrow> (rederr + unit) \<times> bytes \<times> 'c \<times> 'd fs"

text \<open>The context pointer of the parameters leads to a part of the state.\<close>

record ('c, 'd) MDITERPARAM =
  mp_bVolNum :: u8
  mp_pszDevice :: "bytes option"
  mp_pfnCallback :: "('c, 'd) mditercb option"
  mp_fVerify :: bool

text \<open>The memory of the host and its block device configuration; the first argument of a call of \<^verbatim>\<open>malloc\<close> is its number.\<close>

record 'd host =
  malloc :: "nat \<Rightarrow> nat \<Rightarrow> nat"
  malloc_bytes :: "nat \<Rightarrow> nat \<Rightarrow> u8"
  RedOsBDevConfig :: "u8 \<Rightarrow> bytes \<Rightarrow> 'd \<Rightarrow> (rederr + unit) \<times> 'd"

record ('c, 'd) mdi =
  mdi_fs :: "'d fs"
  mdi_context :: 'c
  mdi_mallocs :: nat
  mdi_live :: "nat list"

type_synonym ('c, 'd, 'a) mop = "(('c, 'd) mdi, rederr, 'a) comp"

record MDICTX =
  mc_ulVersion :: u32
  mc_ullSeqMax :: u64
  mc_abMREntries :: bytes
  mc_pbInodeImap :: bytes
  mc_ulInodeImapNodes :: u32
  mc_ulInodeCount :: u32

definition mdictx_zero :: "'d env \<Rightarrow> MDICTX" where
  "mdictx_zero E = \<lparr>mc_ulVersion = 0, mc_ullSeqMax = 0, mc_abMREntries = replicate (METAROOT_ENTRY_BYTES E) 0,
     mc_pbInodeImap = [], mc_ulInodeImapNodes = 0, mc_ulInodeCount = 0\<rparr>"

section \<open>The parts of a step\<close>

text \<open>An operation of the driver.\<close>

definition fsM :: "('d, 'a) op \<Rightarrow> ('c, 'd, 'a) mop" where
  "fsM f = (\<lambda>s. map_option (\<lambda>(r, t). (r, s\<lparr>mdi_fs := t\<rparr>)) (f (mdi_fs s)))"

text \<open>A call of \<^verbatim>\<open>malloc\<close>: the address and the bytes found there.\<close>

definition mallocM :: "'d host \<Rightarrow> nat \<Rightarrow> ('c, 'd, nat \<times> bytes) mop" where
  "mallocM H n = (\<lambda>s.
     let p = malloc H (mdi_mallocs s) n; s' = s\<lparr>mdi_mallocs := mdi_mallocs s + 1\<rparr>
     in if p = 0 then Some (Inr (0, []), s')
        else Some (Inr (p, map (malloc_bytes H (mdi_mallocs s)) [0..<n]), s'\<lparr>mdi_live := p # mdi_live s'\<rparr>))"

definition freeM :: "nat \<Rightarrow> ('c, 'd, unit) mop" where
  "freeM p = modE (mdi_live_update (remove1 p))"

text \<open>The address of the buffer after its alignment, its bytes, and the pointer to free.\<close>

definition AllocBlkBuf :: "'d env \<Rightarrow> 'd host \<Rightarrow> ('c, 'd, nat \<times> bytes \<times> nat) mop" where
  "AllocBlkBuf E H =
     bindE (mallocM H (BSIZE E + 7)) (\<lambda>(pbBuffer, b).
     if pbBuffer = 0 then okE (0, [], 0)
     else let skip = (if pbBuffer mod 8 \<noteq> 0 then 8 - pbBuffer mod 8 else 0)
       in okE (pbBuffer + skip, take (BSIZE E) (drop skip b), pbBuffer))"

text \<open>A body with a buffer of a block, which is freed however the body ends.\<close>

definition with_blkbuf :: "'d env \<Rightarrow> 'd host \<Rightarrow> (nat \<Rightarrow> bytes \<Rightarrow> ('c, 'd, 'a) mop) \<Rightarrow> ('c, 'd, 'a) mop" where
  "with_blkbuf E H body =
     bindE (AllocBlkBuf E H) (\<lambda>(pBuffer, b, pFreePtr).
     if pBuffer = 0 then errE RED_ENOMEM else finallyE (body pBuffer b) (freeM pFreePtr))"

definition read_blk :: "'d env \<Rightarrow> u32 \<Rightarrow> bytes \<Rightarrow> ('c, 'd, bytes) mop" where
  "read_blk E ulBlock pBuffer =
     bindE (fsM (\<lambda>s. RedIoRead E (gbRedVolNum s) ulBlock 1 pBuffer s)) (\<lambda>(ret, new).
     case ret of Inl e \<Rightarrow> errE e | Inr _ \<Rightarrow> okE new)"

text \<open>The callback; what it leaves in the buffer is the result.\<close>

definition callback :: "('c, 'd) MDITERPARAM \<Rightarrow> MDTYPE \<Rightarrow> u32 \<Rightarrow> bytes \<Rightarrow> ('c, 'd, bytes) mop" where
  "callback P type ulBlock pBuffer = (\<lambda>s.
     case mp_pfnCallback P of
       None \<Rightarrow> None
     | Some f \<Rightarrow>
         let (ret, b, c, t) = f (mdi_context s) type ulBlock pBuffer (mdi_fs s)
         in Some (map_sum id (\<lambda>_. b) ret, s\<lparr>mdi_context := c, mdi_fs := t\<rparr>))"

text \<open>A loop over a list whose turns pass on a value.\<close>

fun foldE :: "('x \<Rightarrow> 'a \<Rightarrow> ('s, 'e, 'a) comp) \<Rightarrow> 'x list \<Rightarrow> 'a \<Rightarrow> ('s, 'e, 'a) comp" where
  "foldE f [] a = okE a"
| "foldE f (x # xs) a = bindE (f x a) (foldE f xs)"

section \<open>The node header\<close>

definition SWAP16 :: "u16 \<Rightarrow> u16" where
  "SWAP16 v = drop_bit 8 (v AND 0xFF00) OR push_bit 8 (v AND 0x00FF)"

definition SWAP32 :: "u32 \<Rightarrow> u32" where
  "SWAP32 v = push_bit 24 (v AND 0x000000FF) OR push_bit 8 (v AND 0x0000FF00) OR
     drop_bit 8 (v AND 0x00FF0000) OR drop_bit 24 (v AND 0xFF000000)"

definition MemCpyAndReverse :: "bytes \<Rightarrow> nat \<Rightarrow> bytes" where
  "MemCpyAndReverse pbSrc ulLen = map (\<lambda>i. pbSrc ! (ulLen - i - 1)) [0..<ulLen]"

record NODEHEADER =
  nh_ulSignature :: u32
  nh_ulCRC :: u32
  nh_ullSequence :: u64

definition NodeHdrExtract :: "bytes \<Rightarrow> NODEHEADER" where
  "NodeHdrExtract pbBuffer =
     (let sig = get32 NODEHEADER_OFFSET_SIG pbBuffer in
      if sig = SWAP32 META_SIG_MASTER \<or> sig = SWAP32 META_SIG_METAROOT \<or> sig = SWAP32 META_SIG_IMAP \<or>
         sig = SWAP32 META_SIG_INODE \<or> sig = SWAP32 META_SIG_DINDIR \<or> sig = SWAP32 META_SIG_INDIR \<or>
         sig = SWAP32 META_SIG_DIRECTORY
      then \<lparr>nh_ulSignature = SWAP32 sig,
            nh_ulCRC = get32 0 (MemCpyAndReverse (drop NODEHEADER_OFFSET_CRC pbBuffer) 4),
            nh_ullSequence = get64 0 (MemCpyAndReverse (drop NODEHEADER_OFFSET_SEQ pbBuffer) 8)\<rparr>
      else \<lparr>nh_ulSignature = sig, nh_ulCRC = get32 NODEHEADER_OFFSET_CRC pbBuffer,
            nh_ullSequence = get64 NODEHEADER_OFFSET_SEQ pbBuffer\<rparr>)"

definition blk_crc :: "'d env \<Rightarrow> nat \<Rightarrow> bytes \<Rightarrow> u32" where
  "blk_crc E pBuffer b =
     RedCrcNode (REDCONF_CRC_ALGORITHM E) (REDCONF_ALIGNMENT_SIZE E) pBuffer (REDCONF_BLOCK_SIZE E) (Some b)"

text \<open>The checks of a node that are the same for every type but that of the sequence number.\<close>

definition node_sealed :: "'d env \<Rightarrow> nat \<Rightarrow> u32 \<Rightarrow> bytes \<Rightarrow> bool" where
  "node_sealed E pBuffer sig b \<longleftrightarrow> nh_ulSignature (NodeHdrExtract b) = sig \<and> nh_ulCRC (NodeHdrExtract b) = blk_crc E pBuffer b"

definition node_verified :: "'d env \<Rightarrow> MDICTX \<Rightarrow> nat \<Rightarrow> u32 \<Rightarrow> bytes \<Rightarrow> bool" where
  "node_verified E pCtx pBuffer sig b \<longleftrightarrow>
     node_sealed E pBuffer sig b \<and> \<not> nh_ullSequence (NodeHdrExtract b) \<ge> mc_ullSeqMax pCtx"

section \<open>The master block and the metaroots\<close>

definition MDIterMB :: "'d env \<Rightarrow> 'd host \<Rightarrow> ('c, 'd) MDITERPARAM \<Rightarrow> MDICTX \<Rightarrow> ('c, 'd, MDICTX) mop" where
  "MDIterMB E H P pCtx =
     with_blkbuf E H (\<lambda>p b.
     bindE (read_blk E 0 b) (\<lambda>pMB.
     if mp_fVerify P \<and> \<not> node_sealed E p META_SIG_MASTER pMB then errE RED_EIO
     else
       let pCtx = (if mp_fVerify P then pCtx\<lparr>mc_ullSeqMax := nh_ullSequence (NodeHdrExtract pMB)\<rparr> else pCtx);
           swapped = hdr_ulSignature pMB = SWAP32 META_SIG_MASTER;
           swap = (\<lambda>v. if swapped then SWAP32 v else v);
           ulVersion = swap (mb_ulVersion pMB);
           ulVersion = (if \<not> RED_DISK_LAYOUT_IS_SUPPORTED E ulVersion then RED_DISK_LAYOUT_VERSION E else ulVersion);
           pCtx = pCtx\<lparr>mc_ulVersion := ulVersion, mc_ulInodeCount := swap (mb_ulInodeCount pMB)\<rparr>
       in thenE (fsM (modE (upd_vol (\<lambda>v. v\<lparr>vol_ulBlockCount := swap (mb_ulBlockCount pMB)\<rparr>))))
            (thenE (fsM (modE (upd_cv (\<lambda>cv. cv\<lparr>cv_ulInodeCount := mc_ulInodeCount pCtx\<rparr>))))
              (thenE (fsM (RedVolInitBlockLayout E))
                (thenE (callback P MDTYPE_MASTER 0 pMB) (okE pCtx))))))"

text \<open>
  The sum of the first sector counts as zero in the sum of the node. A turn passes on the buffer, the largest sequence
  number, whether a metaroot was valid, and the context.
\<close>

definition metaroot_zeroed :: "bytes \<Rightarrow> bytes" where
  "metaroot_zeroed pMR = overwrite NODEHEADER_SIZE [0, 0, 0, 0] pMR"

definition metaroot_turn :: "'d env \<Rightarrow> ('c, 'd) MDITERPARAM \<Rightarrow> nat \<Rightarrow> u32 \<Rightarrow> bytes \<times> u64 \<times> bool \<times> MDICTX \<Rightarrow>
    ('c, 'd, bytes \<times> u64 \<times> bool \<times> MDICTX) mop" where
  "metaroot_turn E P p i = (\<lambda>(b, ullMRSeq, fEitherValid, pCtx).
     let ulBlock = 1 + i in
     bindE (read_blk E ulBlock b) (\<lambda>pMR.
     let hdr = NodeHdrExtract pMR;
         ulSectorCRC = slice NODEHEADER_SIZE 4 pMR;
         zeroed = metaroot_zeroed pMR;
         fValid = (nh_ulSignature hdr = META_SIG_METAROOT \<and> nh_ulCRC hdr = blk_crc E p zeroed);
         pMR = overwrite NODEHEADER_SIZE ulSectorCRC zeroed;
         newer = ullMRSeq < nh_ullSequence hdr
     in if fValid
        then bindE (callback P MDTYPE_METAROOT ulBlock pMR) (\<lambda>b.
          okE (b, if newer then nh_ullSequence hdr else ullMRSeq, True,
               if newer then pCtx\<lparr>mc_abMREntries := mr_abEntries E pMR\<rparr> else pCtx))
        else okE (pMR, ullMRSeq, fEitherValid, pCtx)))"

definition MDIterMR :: "'d env \<Rightarrow> 'd host \<Rightarrow> ('c, 'd) MDITERPARAM \<Rightarrow> MDICTX \<Rightarrow> ('c, 'd, MDICTX) mop" where
  "MDIterMR E H P pCtx =
     with_blkbuf E H (\<lambda>p b.
     bindE (foldE (metaroot_turn E P p) [0, 1] (b, 0, False, pCtx)) (\<lambda>(_, ullMRSeq, fEitherValid, pCtx).
     if \<not> fEitherValid then errE RED_EIO
     else okE (if mp_fVerify P \<and> mc_ullSeqMax pCtx < ullMRSeq then pCtx\<lparr>mc_ullSeqMax := ullMRSeq\<rparr> else pCtx)))"

section \<open>The imap\<close>

definition md_ImapBlock :: "MDICTX \<Rightarrow> u32 \<Rightarrow> 'd fs \<Rightarrow> u32" where
  "md_ImapBlock pCtx ulImapNode s =
     (let ulImapBlock = cv_ulImapStartBN (gpRedCoreVol s) + ulImapNode * 2
      in if RedBitGet (Some (mc_abMREntries pCtx)) ulImapNode then ulImapBlock + 1 else ulImapBlock)"

text \<open>The entries of a node are copied when they are needed; a copy outside of the memory is undefined.\<close>

definition save_imap :: "'d env \<Rightarrow> u32 \<Rightarrow> bytes \<Rightarrow> MDICTX \<Rightarrow> ('c, 'd, MDICTX) mop" where
  "save_imap E i pImap pCtx = (\<lambda>s.
     if i < mc_ulInodeImapNodes pCtx then
       let off = unat (i * word_of_nat (IMAPNODE_ENTRY_BYTES E)) in
       if off + IMAPNODE_ENTRY_BYTES E \<le> length (mc_pbInodeImap pCtx)
       then okE (pCtx\<lparr>mc_pbInodeImap := overwrite off (im_abEntries pImap) (mc_pbInodeImap pCtx)\<rparr>) s
       else None
     else okE pCtx s)"

definition imap_turn :: "'d env \<Rightarrow> ('c, 'd) MDITERPARAM \<Rightarrow> nat \<Rightarrow> u32 \<times> bytes \<times> MDICTX \<Rightarrow>
    ('c, 'd, u32 \<times> bytes \<times> MDICTX) mop" where
  "imap_turn E P p = (\<lambda>(i, b, pCtx).
     bindE (getE (\<lambda>s. md_ImapBlock pCtx i (mdi_fs s))) (\<lambda>ulBlock.
     bindE (read_blk E ulBlock b) (\<lambda>pImap.
     if mp_fVerify P \<and> \<not> node_verified E pCtx p META_SIG_IMAP pImap then errE RED_EIO
     else bindE (save_imap E i pImap pCtx) (\<lambda>pCtx.
          bindE (callback P MDTYPE_IMAP ulBlock pImap) (\<lambda>b. okE (i + 1, b, pCtx))))))"

definition MDIterImaps :: "'d env \<Rightarrow> 'd host \<Rightarrow> ('c, 'd) MDITERPARAM \<Rightarrow> MDICTX \<Rightarrow> ('c, 'd, MDICTX) mop" where
  "MDIterImaps E H P pCtx =
     with_blkbuf E H (\<lambda>p b.
     bindE (whileE (\<lambda>(i, _) s. i < cv_ulImapNodeCount (gpRedCoreVol (mdi_fs s))) (imap_turn E P p) (0, b, pCtx))
       (\<lambda>(_, _, pCtx). okE pCtx))"

section \<open>The blocks of an inode\<close>

definition MDIterDirectoryBlock :: "'d env \<Rightarrow> 'd host \<Rightarrow> ('c, 'd) MDITERPARAM \<Rightarrow> MDICTX \<Rightarrow> u32 \<Rightarrow> ('c, 'd, unit) mop" where
  "MDIterDirectoryBlock E H P pCtx ulBlock =
     with_blkbuf E H (\<lambda>p b.
     bindE (read_blk E ulBlock b) (\<lambda>pDirData.
     if mp_fVerify P \<and> mc_ulVersion pCtx \<ge> RED_DISK_LAYOUT_DIRCRC \<and> \<not> node_verified E pCtx p META_SIG_DIRECTORY pDirData
     then errE RED_EIO
     else thenE (callback P MDTYPE_DIRECTORY ulBlock pDirData) (okE ())))"

text \<open>An entry of a node, in the byte order of the processor.\<close>

definition node_entry :: "nat \<Rightarrow> bool \<Rightarrow> bytes \<Rightarrow> nat \<Rightarrow> u32" where
  "node_entry off fEndSwap b i = (let v = get32 (off + 4 * i) b in if fEndSwap then SWAP32 v else v)"

text \<open>Whether the signature is the one given in the other byte order.\<close>

definition end_swapped :: "u32 \<Rightarrow> bytes \<Rightarrow> bool" where
  "end_swapped sig b \<longleftrightarrow> hdr_ulSignature b = SWAP32 sig"

definition indir_verified :: "'d env \<Rightarrow> MDICTX \<Rightarrow> nat \<Rightarrow> u32 \<Rightarrow> u32 \<Rightarrow> bytes \<Rightarrow> bool" where
  "indir_verified E pCtx p sig ulInode b \<longleftrightarrow>
     node_verified E pCtx p sig b \<and> node_entry NODEHEADER_SIZE (end_swapped sig b) b 0 = ulInode"

definition MDIterIndir :: "'d env \<Rightarrow> 'd host \<Rightarrow> ('c, 'd) MDITERPARAM \<Rightarrow> MDICTX \<Rightarrow> u32 \<Rightarrow> u32 \<Rightarrow> bool \<Rightarrow> ('c, 'd, unit) mop" where
  "MDIterIndir E H P pCtx ulBlock ulInode fIsDirectory =
     with_blkbuf E H (\<lambda>p b.
     bindE (read_blk E ulBlock b) (\<lambda>pIndir.
     if mp_fVerify P \<and> \<not> indir_verified E pCtx p META_SIG_INDIR ulInode pIndir then errE RED_EIO
     else
       thenE (whenE (REDCONF_API_POSIX E \<and> fIsDirectory)
                (foldE (\<lambda>i _.
                   let ulEntryBlock = node_entry INDIR_HEADER_SIZE (end_swapped META_SIG_INDIR pIndir) pIndir i in
                   whenE (ulEntryBlock \<noteq> BLOCK_SPARSE) (MDIterDirectoryBlock E H P pCtx ulEntryBlock))
                  [0..<unat (INDIR_ENTRIES E)] ()))
         (thenE (callback P MDTYPE_INDIR ulBlock pIndir) (okE ()))))"

definition MDIterDindir :: "'d env \<Rightarrow> 'd host \<Rightarrow> ('c, 'd) MDITERPARAM \<Rightarrow> MDICTX \<Rightarrow> u32 \<Rightarrow> u32 \<Rightarrow> bool \<Rightarrow> ('c, 'd, unit) mop" where
  "MDIterDindir E H P pCtx ulBlock ulInode fIsDirectory =
     with_blkbuf E H (\<lambda>p b.
     bindE (read_blk E ulBlock b) (\<lambda>pDindir.
     if mp_fVerify P \<and> \<not> indir_verified E pCtx p META_SIG_DINDIR ulInode pDindir then errE RED_EIO
     else
       thenE (foldE (\<lambda>i _.
                let ulEntryBlock = node_entry INDIR_HEADER_SIZE (end_swapped META_SIG_DINDIR pDindir) pDindir i in
                whenE (ulEntryBlock \<noteq> BLOCK_SPARSE) (MDIterIndir E H P pCtx ulEntryBlock ulInode fIsDirectory))
               [0..<unat (INDIR_ENTRIES E)] ())
         (thenE (callback P MDTYPE_DINDIR ulBlock pDindir) (okE ()))))"

section \<open>The inodes\<close>

text \<open>The copy of an inode that is in use.\<close>

definition used_copy :: "bytes \<Rightarrow> u32 \<Rightarrow> u32 \<Rightarrow> u32" where
  "used_copy pbBitmap ulBit ulInodeBlock =
     (if \<not> RedBitGet (Some pbBitmap) ulBit then
        if RedBitGet (Some pbBitmap) (ulBit + 1) then ulInodeBlock + 1 else BLOCK_SPARSE
      else ulInodeBlock)"

definition md_InodeBlock :: "'d env \<Rightarrow> MDICTX \<Rightarrow> u32 \<Rightarrow> 'd fs \<Rightarrow> u32" where
  "md_InodeBlock E pCtx ulInode s =
     (let ulInodeOffset = (ulInode - INODE_FIRST_VALID) * 2;
          ulInodeBlock = cv_ulInodeTableStartBN (gpRedCoreVol s) + ulInodeOffset
      in if cv_fImapInline (gpRedCoreVol s) then
           (if REDCONF_IMAP_INLINE E then used_copy (mc_abMREntries pCtx) ulInodeOffset ulInodeBlock else BLOCK_SPARSE)
         else if REDCONF_IMAP_EXTERNAL E then
           (let ulImapNode = ulInodeOffset div IMAPNODE_ENTRIES E; ulImapOffset = ulInodeOffset mod IMAPNODE_ENTRIES E in
            if ulImapNode \<ge> mc_ulInodeImapNodes pCtx then BLOCK_SPARSE
            else used_copy (drop (unat (ulImapNode * word_of_nat (IMAPNODE_ENTRY_BYTES E))) (mc_pbInodeImap pCtx))
                   ulImapOffset ulInodeBlock)
         else BLOCK_SPARSE)"

definition inode_entry :: "'d env \<Rightarrow> 'd host \<Rightarrow> ('c, 'd) MDITERPARAM \<Rightarrow> MDICTX \<Rightarrow> u32 \<Rightarrow> bool \<Rightarrow> bytes \<Rightarrow> nat \<Rightarrow> ('c, 'd, unit) mop" where
  "inode_entry E H P pCtx ulInode fIsDirectory pInode i =
     (let ulEntryBlock = node_entry (INODE_HEADER_SIZE E) (end_swapped META_SIG_INODE pInode) pInode i in
      if ulEntryBlock = BLOCK_SPARSE then okE ()
      else if word_of_nat i < REDCONF_DIRECT_POINTERS E then
        whenE (REDCONF_API_POSIX E \<and> fIsDirectory) (MDIterDirectoryBlock E H P pCtx ulEntryBlock)
      else if REDCONF_INDIRECT_POINTERS E > 0 \<and> word_of_nat i < REDCONF_DIRECT_POINTERS E + REDCONF_INDIRECT_POINTERS E then
        MDIterIndir E H P pCtx ulEntryBlock ulInode fIsDirectory
      else whenE (DINDIRS_EXIST E) (MDIterDindir E H P pCtx ulEntryBlock ulInode fIsDirectory))"

definition inode_is_directory :: "'d env \<Rightarrow> bytes \<Rightarrow> bool" where
  "inode_is_directory E pInode \<longleftrightarrow> REDCONF_API_POSIX E \<and>
     (let uMode = get16 (ino_off_uMode E) pInode in
      RED_S_ISDIR (REDCONF_API_POSIX_SYMLINK E) (if end_swapped META_SIG_INODE pInode then SWAP16 uMode else uMode))"

text \<open>A turn passes on the buffer.\<close>

definition inode_turn :: "'d env \<Rightarrow> 'd host \<Rightarrow> ('c, 'd) MDITERPARAM \<Rightarrow> MDICTX \<Rightarrow> nat \<Rightarrow> nat \<Rightarrow> bytes \<Rightarrow> ('c, 'd, bytes) mop" where
  "inode_turn E H P pCtx p n b =
     (let ulInode = word_of_nat n in
      bindE (getE (\<lambda>s. md_InodeBlock E pCtx ulInode (mdi_fs s))) (\<lambda>ulBlock.
      if ulBlock = BLOCK_SPARSE then okE b
      else bindE (read_blk E ulBlock b) (\<lambda>pInode.
        if mp_fVerify P \<and> \<not> node_verified E pCtx p META_SIG_INODE pInode then errE RED_EIO
        else thenE (foldE (\<lambda>i _. inode_entry E H P pCtx ulInode (inode_is_directory E pInode) pInode i)
                     [0..<unat (INODE_ENTRIES E)] ())
               (callback P MDTYPE_INODE ulBlock pInode))))"

definition MDIterInodes :: "'d env \<Rightarrow> 'd host \<Rightarrow> ('c, 'd) MDITERPARAM \<Rightarrow> MDICTX \<Rightarrow> ('c, 'd, unit) mop" where
  "MDIterInodes E H P pCtx =
     with_blkbuf E H (\<lambda>p b.
       thenE (foldE (inode_turn E H P pCtx p)
                [unat INODE_FIRST_VALID..<unat (INODE_FIRST_VALID + mc_ulInodeCount pCtx)] b) (okE ()))"

section \<open>The iteration\<close>

definition inode_imap_nodes :: "'d env \<Rightarrow> u32 \<Rightarrow> u32" where
  "inode_imap_nodes E ulInodeCount = (ulInodeCount * 2 + (IMAPNODE_ENTRIES E - 1)) div IMAPNODE_ENTRIES E"

text \<open>The memory for the part of the imap is freed however the iteration ends.\<close>

definition MDIter :: "'d env \<Rightarrow> 'd host \<Rightarrow> ('c, 'd) MDITERPARAM \<Rightarrow> ('c, 'd, unit) mop" where
  "MDIter E H P =
     bindE (MDIterMB E H P (mdictx_zero E)) (\<lambda>ctx.
     bindE (MDIterMR E H P ctx) (\<lambda>ctx.
     bindE (getE (\<lambda>s. cv_fImapInline (gpRedCoreVol (mdi_fs s)))) (\<lambda>fImapInline.
     if REDCONF_IMAP_EXTERNAL E \<and> \<not> fImapInline then
       let ulInodeImapNodes = inode_imap_nodes E (mc_ulInodeCount ctx) in
       bindE (mallocM H (unat ulInodeImapNodes * IMAPNODE_ENTRY_BYTES E)) (\<lambda>(p, b).
       if p = 0 then errE RED_ENOMEM
       else finallyE
         (bindE (MDIterImaps E H P (ctx\<lparr>mc_ulInodeImapNodes := ulInodeImapNodes, mc_pbInodeImap := b\<rparr>)) (MDIterInodes E H P))
         (freeM p))
     else MDIterInodes E H P ctx)))"

definition RedMetadataIterate :: "'d env \<Rightarrow> 'd host \<Rightarrow> ('c, 'd) MDITERPARAM option \<Rightarrow> ('c, 'd, unit) mop" where
  "RedMetadataIterate E H pParam =
     (case pParam of
        None \<Rightarrow> errE RED_EINVAL
      | Some P \<Rightarrow>
          if mp_bVolNum P \<ge> REDCONF_VOLUME_COUNT E \<or> mp_pfnCallback P = None then errE RED_EINVAL
          else bindE (getE (\<lambda>s. vol_fMounted (gaRedVolume (mdi_fs s) (mp_bVolNum P)))) (\<lambda>fMounted.
          if fMounted then errE RED_EBUSY
          else thenE (fsM (RedCoreInit E))
            (thenE (case mp_pszDevice P of
                      None \<Rightarrow> okE ()
                    | Some pszDrive \<Rightarrow> fsM (os_call (RedOsBDevConfig H (mp_bVolNum P) pszDrive)))
              (thenE (whenE (REDCONF_VOLUME_COUNT E > 1) (fsM (RedCoreVolSetCurrent E (mp_bVolNum P))))
                (thenE (fsM (\<lambda>s. RedBDevOpen E (gbRedVolNum s) BDEV_O_RDWR s))
                  (statusE (thenE (fsM (RedVolInitBlockGeometry E)) (MDIter E H P)) (\<lambda>ret.
                   statusE (fsM (\<lambda>s. RedBDevClose E (gbRedVolNum s) s)) (\<lambda>ret2.
                   returnE (if is_ok ret then ret2 else ret)))))))))"

end
