(* ===== verification/Red_MdIterProps.thy ===== *)
theory Red_MdIterProps
  imports Red_MdIter Red_VolLayout
begin

text \<open>
  What the metadata iterator guarantees: its callback is shown only nodes that were verified, the memory
  that it allocates is freed on every path, and it returns.
\<close>

section \<open>Keeping an invariant and giving a result\<close>

text \<open>\<open>gives I f Q\<close>: from a state with \<open>I\<close>, \<open>f\<close> ends only in states with \<open>I\<close>, and the value of a success has \<open>Q\<close>.\<close>

definition gives :: "('s \<Rightarrow> bool) \<Rightarrow> ('s, 'e, 'a) comp \<Rightarrow> ('a \<Rightarrow> bool) \<Rightarrow> bool" where
  "gives I f Q \<longleftrightarrow> (\<forall>s r t. I s \<longrightarrow> f s = Some (r, t) \<longrightarrow> I t \<and> (\<forall>x. r = Inr x \<longrightarrow> Q x))"

named_theorems gives_rules \<open>an operation keeps a predicate and its result has another\<close>

lemma givesI: "(\<And>s r t. I s \<Longrightarrow> f s = Some (r, t) \<Longrightarrow> I t \<and> (\<forall>x. r = Inr x \<longrightarrow> Q x)) \<Longrightarrow> gives I f Q"
  by (auto simp: gives_def)

lemma givesD: "gives I f Q \<Longrightarrow> f s = Some (r, t) \<Longrightarrow> I s \<Longrightarrow> I t \<and> (\<forall>x. r = Inr x \<longrightarrow> Q x)"
  unfolding gives_def by blast

lemma gives_okE [gives_rules]: "Q x \<Longrightarrow> gives I (okE x) Q"
  and gives_errE [gives_rules]: "gives I (errE e) Q"
  and gives_getE [gives_rules]: "(\<And>s. I s \<Longrightarrow> Q (f s)) \<Longrightarrow> gives I (getE f) Q"
  by (auto simp: gives_def)

lemma gives_modE [gives_rules]: "(\<And>s. I s \<Longrightarrow> I (f s)) \<Longrightarrow> Q () \<Longrightarrow> gives I (modE f) Q"
  by (auto simp: gives_def)

lemma gives_bindE: "gives I f R \<Longrightarrow> (\<And>x. R x \<Longrightarrow> gives I (g x) Q) \<Longrightarrow> gives I (bindE f g) Q"
  unfolding gives_def by (blast elim: bindE_eq_SomeE)

lemma gives_thenE: "gives I f (\<lambda>_. True) \<Longrightarrow> gives I g Q \<Longrightarrow> gives I (thenE f g) Q"
  unfolding thenE_def by (rule gives_bindE)

lemma gives_whenE [gives_rules]: "(b \<Longrightarrow> gives I f (\<lambda>_. True)) \<Longrightarrow> gives I (whenE b f) (\<lambda>_. True)"
  by (auto simp: whenE_def intro: gives_okE)

lemma gives_if [gives_rules]: "(b \<Longrightarrow> gives I f Q) \<Longrightarrow> (\<not> b \<Longrightarrow> gives I g Q) \<Longrightarrow> gives I (if b then f else g) Q"
  by simp

lemma gives_weaken: "gives I f Q \<Longrightarrow> (\<And>x. Q x \<Longrightarrow> R x) \<Longrightarrow> gives I f R"
  unfolding gives_def by blast

lemma gives_foldE: "Q a \<Longrightarrow> (\<And>x a. x \<in> set xs \<Longrightarrow> Q a \<Longrightarrow> gives I (f x a) Q) \<Longrightarrow> gives I (foldE f xs a) Q"
proof (induction xs arbitrary: a)
  case Nil
  then show ?case by (auto simp: gives_def)
next
  case (Cons x xs)
  have "gives I (f x a) Q" by (rule Cons.prems) (use Cons.prems(1) in simp_all)
  then show ?case
    unfolding foldE.simps by (rule gives_bindE) (rule Cons.IH, assumption, rule Cons.prems(2); simp)
qed

lemma gives_ok_True: "gives I (okE x) (\<lambda>_. True)"
  by (rule gives_okE) simp

lemma gives_fold_True: "(\<And>x a. gives I (f x a) (\<lambda>_. True)) \<Longrightarrow> gives I (foldE f xs a) (\<lambda>_. True)"
  by (rule gives_foldE) simp_all

lemma gives_whileE:
  assumes "Q x" and "\<And>x. Q x \<Longrightarrow> gives I (f x) Q"
  shows "gives I (whileE P f x) Q"
proof (rule givesI)
  fix s r t
  assume I: "I s" and run: "whileE P f x s = Some (r, t)"
  show "I t \<and> (\<forall>y. r = Inr y \<longrightarrow> Q y)"
    by (rule whileE_rule [where I = "\<lambda>x s. Q x \<and> I s" and Q = "\<lambda>r t. I t \<and> (\<forall>y. r = Inr y \<longrightarrow> Q y)", OF run])
      (use assms I in \<open>auto dest: givesD split: sum.splits\<close>)
qed

section \<open>The parts of a step\<close>

text \<open>The memory that is not freed and a predicate on the context of the caller.\<close>

definition mdi_inv :: "nat list \<Rightarrow> ('c \<Rightarrow> bool) \<Rightarrow> ('c, 'd) mdi \<Rightarrow> bool" where
  "mdi_inv L J s \<longleftrightarrow> mdi_live s = L \<and> J (mdi_context s)"

lemma gives_fsM: "(\<And>s r t. f s = Some (Inr r, t) \<Longrightarrow> Q r) \<Longrightarrow> gives (mdi_inv L J) (fsM f) Q"
  by (auto simp: gives_def mdi_inv_def fsM_def)

lemma gives_fsM_True [gives_rules]: "gives (mdi_inv L J) (fsM f) (\<lambda>_. True)"
  by (rule gives_fsM) simp

lemma gives_getE_True [gives_rules]: "gives I (getE f) (\<lambda>_. True)"
  by (rule gives_getE) simp

text \<open>The memory of a call is there for the body only.\<close>

lemma gives_mallocM:
  assumes "\<And>p b. p \<noteq> 0 \<Longrightarrow> length b = n \<Longrightarrow> gives (mdi_inv (p # L) J) (body p b) Q"
  shows "gives (mdi_inv L J) (bindE (mallocM H n) (\<lambda>(p, b). if p = 0 then errE RED_ENOMEM
     else finallyE (body p b) (freeM p))) Q"
proof (rule givesI)
  fix s r t
  assume I: "mdi_inv L J s" and run: "bindE (mallocM H n) (\<lambda>(p, b). if p = 0 then errE RED_ENOMEM
     else finallyE (body p b) (freeM p)) s = Some (r, t)"
  let ?p = "malloc H (mdi_mallocs s) n" and ?b = "map (malloc_bytes H (mdi_mallocs s)) [0..<n]"
    and ?s = "s\<lparr>mdi_mallocs := mdi_mallocs s + 1\<rparr>"
  show "mdi_inv L J t \<and> (\<forall>x. r = Inr x \<longrightarrow> Q x)"
  proof (cases "?p = 0")
    case True
    with run I show ?thesis by (auto simp: mallocM_def bindE_def mdi_inv_def)
  next
    case False
    let ?s' = "?s\<lparr>mdi_live := ?p # mdi_live ?s\<rparr>"
    have I': "mdi_inv (?p # L) J ?s'" using I by (simp add: mdi_inv_def)
    obtain q u where run': "body ?p ?b ?s' = Some (q, u)" and t: "r = q" "t = mdi_live_update (remove1 ?p) u"
      using run False by (auto simp: mallocM_def Let_def bindE_def finallyE_def statusE_def freeM_def split: option.splits)
    have "length ?b = n" by simp
    from givesD [OF assms [OF False this] run' I'] have "mdi_inv (?p # L) J u \<and> (\<forall>x. q = Inr x \<longrightarrow> Q x)" .
    with t show ?thesis by (simp add: mdi_inv_def)
  qed
qed

lemma with_blkbuf_mallocM:
  "with_blkbuf E H body = bindE (mallocM H (BSIZE E + 7)) (\<lambda>(p, b). if p = 0 then errE RED_ENOMEM
     else finallyE (let skip = (if p mod 8 \<noteq> 0 then 8 - p mod 8 else 0) in body (p + skip) (take (BSIZE E) (drop skip b)))
       (freeM p))"
  by (auto simp: with_blkbuf_def AllocBlkBuf_def bindE_assoc Let_def fun_eq_iff split_def
      intro!: arg_cong2 [of _ _ _ _ "\<lambda>f g. bindE f g _"])

lemma gives_with_blkbuf [gives_rules]:
  assumes "\<And>L p b. p \<noteq> 0 \<Longrightarrow> length b = BSIZE E \<Longrightarrow> gives (mdi_inv L J) (body p b) Q"
  shows "gives (mdi_inv L J) (with_blkbuf E H body) Q"
  unfolding with_blkbuf_mallocM by (rule gives_mallocM) (auto simp: Let_def intro!: assms)

lemma gives_read_blk:
  assumes "env_ok E" and "length b = n"
  shows "gives (mdi_inv L J) (read_blk E ulBlock b) (\<lambda>b. length b = n)"
proof -
  have "gives (mdi_inv L J) (fsM (\<lambda>s. RedIoRead E (gbRedVolNum s) ulBlock 1 b s)) (\<lambda>(ret, new). length new = n)"
    by (rule gives_fsM) (use RedIoRead_length [OF assms(1)] assms(2) in fastforce)
  then show ?thesis
    unfolding read_blk_def by (rule gives_bindE) (auto intro: gives_rules split: sum.split)
qed

section \<open>The nodes that are shown\<close>

text \<open>The sum of a node does not depend on where its bytes are.\<close>

lemma blk_crc_address: "length b = BSIZE E \<Longrightarrow> 8 \<le> BSIZE E \<Longrightarrow> blk_crc E p b = blk_crc E 0 b"
  by (simp add: blk_crc_def RedCrcNode_def RedCrc32Update_reference unat_sub word_le_nat_alt)

text \<open>
  What a callback may rely on: the node has the signature of its type and its own checksum, the master block and the metaroots are
  at their places. Directories have no header in the oldest layouts.
\<close>

definition directories_sealed :: "'d env \<Rightarrow> bool" where
  "directories_sealed E \<longleftrightarrow> RED_DISK_LAYOUT_DIRCRC \<le> RED_DISK_LAYOUT_MINIMUM E \<and> RED_DISK_LAYOUT_DIRCRC \<le> RED_DISK_LAYOUT_VERSION E"

definition node_shown :: "'d env \<Rightarrow> MDTYPE \<Rightarrow> u32 \<Rightarrow> bytes \<Rightarrow> bool" where
  "node_shown E type ulBlock b \<longleftrightarrow> length b = BSIZE E \<and>
     (case type of
        MDTYPE_MASTER \<Rightarrow> ulBlock = 0 \<and> node_sealed E 0 META_SIG_MASTER b
      | MDTYPE_METAROOT \<Rightarrow> (ulBlock = 1 \<or> ulBlock = 2) \<and> nh_ulSignature (NodeHdrExtract b) = META_SIG_METAROOT \<and>
          nh_ulCRC (NodeHdrExtract b) = blk_crc E 0 (metaroot_zeroed b)
      | MDTYPE_IMAP \<Rightarrow> node_sealed E 0 META_SIG_IMAP b
      | MDTYPE_INODE \<Rightarrow> ulBlock \<noteq> 0 \<and> node_sealed E 0 META_SIG_INODE b
      | MDTYPE_DINDIR \<Rightarrow> ulBlock \<noteq> 0 \<and> node_sealed E 0 META_SIG_DINDIR b
      | MDTYPE_INDIR \<Rightarrow> ulBlock \<noteq> 0 \<and> node_sealed E 0 META_SIG_INDIR b
      | MDTYPE_DIRECTORY \<Rightarrow> ulBlock \<noteq> 0 \<and> (directories_sealed E \<longrightarrow> node_sealed E 0 META_SIG_DIRECTORY b))"

text \<open>A callback that keeps \<open>J\<close> whenever it is shown such a node, and leaves the length of the buffer as it is.\<close>

definition callback_keeps :: "'d env \<Rightarrow> ('c, 'd) MDITERPARAM \<Rightarrow> ('c \<Rightarrow> bool) \<Rightarrow> bool" where
  "callback_keeps E P J \<longleftrightarrow> (\<forall>f c type ulBlock b t. mp_pfnCallback P = Some f \<longrightarrow> J c \<longrightarrow> node_shown E type ulBlock b \<longrightarrow>
     (case f c type ulBlock b t of (r, b', c', t') \<Rightarrow> length b' = length b \<and> J c'))"

lemma node_sealed_address: "length b = BSIZE E \<Longrightarrow> 8 \<le> BSIZE E \<Longrightarrow> node_sealed E p sig b = node_sealed E 0 sig b"
  by (simp add: node_sealed_def blk_crc_address [of b E p])

lemma gives_callback:
  assumes "callback_keeps E P J" and "node_shown E type ulBlock b"
  shows "gives (mdi_inv L J) (callback P type ulBlock b) (\<lambda>b. length b = BSIZE E)"
proof (rule givesI)
  fix s r t
  assume I: "mdi_inv L J s" and run: "callback P type ulBlock b s = Some (r, t)"
  then obtain f where f: "mp_pfnCallback P = Some f" by (auto simp: callback_def split: option.splits)
  have len: "length b = BSIZE E" using assms(2) by (simp add: node_shown_def)
  have "case f (mdi_context s) type ulBlock b (mdi_fs s) of (r, b', c', t') \<Rightarrow> length b' = length b \<and> J c'"
    using assms f I by (simp add: callback_keeps_def mdi_inv_def)
  then show "mdi_inv L J t \<and> (\<forall>x. r = Inr x \<longrightarrow> length x = BSIZE E)"
    using run I f len by (auto simp: callback_def Let_def mdi_inv_def split: prod.splits sum.splits) (metis Inl_Inr_False map_sum.simps(1) old.sum.exhaust map_sum.simps(2) sum.inject(2))
qed

lemma gives_callback_True:
  assumes "callback_keeps E P J" and "node_shown E type ulBlock b"
  shows "gives (mdi_inv L J) (callback P type ulBlock b) (\<lambda>_. True)"
  by (rule gives_weaken [OF gives_callback [OF assms]]) simp

section \<open>The iteration shows verified nodes only\<close>

definition verifies :: "'d env \<Rightarrow> ('c, 'd) MDITERPARAM \<Rightarrow> ('c \<Rightarrow> bool) \<Rightarrow> bool" where
  "verifies E P J \<longleftrightarrow> env_ok E \<and> mp_fVerify P \<and> callback_keeps E P J"

definition ctx_ok :: "'d env \<Rightarrow> MDICTX \<Rightarrow> bool" where
  "ctx_ok E pCtx \<longleftrightarrow> (directories_sealed E \<longrightarrow> RED_DISK_LAYOUT_DIRCRC \<le> mc_ulVersion pCtx)"

lemma verified_sealed:
  assumes "verifies E P J" and "length b = BSIZE E" and "node_verified E pCtx p sig b"
  shows "node_sealed E 0 sig b"
  using assms BSIZE_ge [of E] node_sealed_address [of b E p sig] by (simp add: node_verified_def verifies_def)

lemma verifies_callback:
  assumes "verifies E P J" and "node_shown E type ulBlock b"
  shows "gives (mdi_inv L J) (callback P type ulBlock b) (\<lambda>b. length b = BSIZE E)"
    and "gives (mdi_inv L J) (callback P type ulBlock b) (\<lambda>_. True)"
  using assms gives_callback gives_callback_True by (auto simp: verifies_def)

lemma verifies_read:
  "verifies E P J \<Longrightarrow> length b = BSIZE E \<Longrightarrow> gives (mdi_inv L J) (read_blk E ulBlock b) (\<lambda>b. length b = BSIZE E)"
  by (rule gives_read_blk) (simp_all add: verifies_def)

lemma gives_DirectoryBlock:
  assumes "verifies E P J" and "ctx_ok E pCtx" and "ulBlock \<noteq> BLOCK_SPARSE"
  shows "gives (mdi_inv L J) (MDIterDirectoryBlock E H P pCtx ulBlock) (\<lambda>_. True)"
  unfolding MDIterDirectoryBlock_def
proof (rule gives_with_blkbuf, rule gives_bindE [OF verifies_read [OF assms(1)]], assumption, rule gives_if [OF gives_errE],
    rule gives_thenE [OF verifies_callback(2) [OF assms(1)] gives_ok_True])
  fix p b
  assume len: "length b = BSIZE E"
    and checked: "\<not> (mp_fVerify P \<and> RED_DISK_LAYOUT_DIRCRC \<le> mc_ulVersion pCtx \<and> \<not> node_verified E pCtx p META_SIG_DIRECTORY b)"
  then show "node_shown E MDTYPE_DIRECTORY ulBlock b"
    using verified_sealed [OF assms(1) len] assms by (auto simp: node_shown_def ctx_ok_def verifies_def BLOCK_SPARSE_def)
qed

lemma gives_Indir:
  assumes "verifies E P J" and "ctx_ok E pCtx" and "ulBlock \<noteq> BLOCK_SPARSE"
  shows "gives (mdi_inv L J) (MDIterIndir E H P pCtx ulBlock ulInode fIsDirectory) (\<lambda>_. True)"
  unfolding MDIterIndir_def
proof (rule gives_with_blkbuf, rule gives_bindE [OF verifies_read [OF assms(1)]], assumption, rule gives_if [OF gives_errE],
    rule gives_thenE [OF gives_whenE gives_thenE [OF verifies_callback(2) [OF assms(1)] gives_ok_True]])
  fix L p b
  show "gives (mdi_inv L J) (foldE (\<lambda>i _. let ulEntryBlock = node_entry INDIR_HEADER_SIZE (end_swapped META_SIG_INDIR b) b i
      in whenE (ulEntryBlock \<noteq> BLOCK_SPARSE) (MDIterDirectoryBlock E H P pCtx ulEntryBlock)) [0..<unat (INDIR_ENTRIES E)] ())
    (\<lambda>_. True)"
    unfolding Let_def by (intro gives_fold_True gives_whenE gives_DirectoryBlock [OF assms(1,2)] TrueI)
  assume len: "length b = BSIZE E" and checked: "\<not> (mp_fVerify P \<and> \<not> indir_verified E pCtx p META_SIG_INDIR ulInode b)"
  then show "node_shown E MDTYPE_INDIR ulBlock b"
    using verified_sealed [OF assms(1) len] assms by (auto simp: node_shown_def indir_verified_def verifies_def BLOCK_SPARSE_def)
qed

lemma gives_Dindir:
  assumes "verifies E P J" and "ctx_ok E pCtx" and "ulBlock \<noteq> BLOCK_SPARSE"
  shows "gives (mdi_inv L J) (MDIterDindir E H P pCtx ulBlock ulInode fIsDirectory) (\<lambda>_. True)"
  unfolding MDIterDindir_def
proof (rule gives_with_blkbuf, rule gives_bindE [OF verifies_read [OF assms(1)]], assumption, rule gives_if [OF gives_errE],
    rule gives_thenE [OF _ gives_thenE [OF verifies_callback(2) [OF assms(1)] gives_ok_True]])
  fix L p b
  show "gives (mdi_inv L J) (foldE (\<lambda>i _. let ulEntryBlock = node_entry INDIR_HEADER_SIZE (end_swapped META_SIG_DINDIR b) b i
      in whenE (ulEntryBlock \<noteq> BLOCK_SPARSE) (MDIterIndir E H P pCtx ulEntryBlock ulInode fIsDirectory))
        [0..<unat (INDIR_ENTRIES E)] ()) (\<lambda>_. True)"
    unfolding Let_def by (intro gives_fold_True gives_whenE gives_Indir [OF assms(1,2)] TrueI)
  assume len: "length b = BSIZE E" and checked: "\<not> (mp_fVerify P \<and> \<not> indir_verified E pCtx p META_SIG_DINDIR ulInode b)"
  then show "node_shown E MDTYPE_DINDIR ulBlock b"
    using verified_sealed [OF assms(1) len] assms by (auto simp: node_shown_def indir_verified_def verifies_def BLOCK_SPARSE_def)
qed

lemma gives_inode_entry:
  assumes "verifies E P J" and "ctx_ok E pCtx"
  shows "gives (mdi_inv L J) (inode_entry E H P pCtx ulInode fIsDirectory pInode i) (\<lambda>_. True)"
  unfolding inode_entry_def Let_def
  by (intro gives_if gives_whenE gives_ok_True gives_DirectoryBlock [OF assms] gives_Indir [OF assms] gives_Dindir [OF assms])

lemma gives_inode_turn:
  assumes "verifies E P J" and "ctx_ok E pCtx" and "length b = BSIZE E"
  shows "gives (mdi_inv L J) (inode_turn E H P pCtx p n b) (\<lambda>b. length b = BSIZE E)"
  unfolding inode_turn_def Let_def
proof (rule gives_bindE [OF gives_getE_True], rule gives_if, rule gives_okE [of "\<lambda>b. length b = BSIZE E", OF assms(3)],
    rule gives_bindE [OF verifies_read [OF assms(1,3)]], rule gives_if [OF gives_errE], rule gives_thenE [OF gives_fold_True])
  fix ulBlock b
  show "gives (mdi_inv L J) (inode_entry E H P pCtx (word_of_nat n) (inode_is_directory E b) b x) (\<lambda>_. True)" for x
    by (rule gives_inode_entry [OF assms(1,2)])
  assume "ulBlock \<noteq> BLOCK_SPARSE" and len: "length b = BSIZE E"
    and checked: "\<not> (mp_fVerify P \<and> \<not> node_verified E pCtx p META_SIG_INODE b)"
  then have "node_shown E MDTYPE_INODE ulBlock b"
    using verified_sealed [OF assms(1) len] assms by (auto simp: node_shown_def verifies_def BLOCK_SPARSE_def)
  then show "gives (mdi_inv L J) (callback P MDTYPE_INODE ulBlock b) (\<lambda>b. length b = BSIZE E)"
    by (rule verifies_callback(1) [OF assms(1)])
qed

lemma gives_Inodes:
  assumes "verifies E P J" and "ctx_ok E pCtx"
  shows "gives (mdi_inv L J) (MDIterInodes E H P pCtx) (\<lambda>_. True)"
proof -
  have "gives (mdi_inv L J) (foldE (inode_turn E H P pCtx p) ns b) (\<lambda>b. length b = BSIZE E)" if "length b = BSIZE E" for L p ns b
    using that by (rule gives_foldE) (rule gives_inode_turn [OF assms])
  then show ?thesis
    unfolding MDIterInodes_def
    by (intro gives_with_blkbuf gives_thenE gives_ok_True) (rule gives_weaken, auto)
qed

lemma gives_save_imap: "ctx_ok E pCtx \<Longrightarrow> gives I (save_imap E i b pCtx) (ctx_ok E)"
  by (auto simp: gives_def save_imap_def Let_def ctx_ok_def split: if_splits)

lemma gives_imap_turn:
  assumes "verifies E P J" and "length b = BSIZE E" and "ctx_ok E pCtx"
  shows "gives (mdi_inv L J) (imap_turn E P p (i, b, pCtx)) (\<lambda>(i, b, pCtx). length b = BSIZE E \<and> ctx_ok E pCtx)"
  unfolding imap_turn_def prod.case
proof (rule gives_bindE [OF gives_getE_True], rule gives_bindE [OF verifies_read [OF assms(1,2)]], rule gives_if [OF gives_errE],
    rule gives_bindE [OF gives_save_imap [OF assms(3)]])
  fix ulBlock b pCtx'
  assume len: "length b = BSIZE E" and ctx: "ctx_ok E pCtx'"
    and checked: "\<not> (mp_fVerify P \<and> \<not> node_verified E pCtx p META_SIG_IMAP b)"
  then have "node_shown E MDTYPE_IMAP ulBlock b"
    using verified_sealed [OF assms(1) len] assms by (auto simp: node_shown_def verifies_def)
  from verifies_callback(1) [OF assms(1) this]
  show "gives (mdi_inv L J) (bindE (callback P MDTYPE_IMAP ulBlock b) (\<lambda>b. okE (i + 1, b, pCtx')))
      (\<lambda>(i, b, pCtx). length b = BSIZE E \<and> ctx_ok E pCtx)"
    by (rule gives_bindE) (rule gives_okE, simp add: ctx)
qed

lemma gives_Imaps:
  assumes "verifies E P J" and "ctx_ok E pCtx"
  shows "gives (mdi_inv L J) (MDIterImaps E H P pCtx) (ctx_ok E)"
  unfolding MDIterImaps_def
proof (rule gives_with_blkbuf, rule gives_bindE [OF gives_whileE])
  fix L p b
  assume "length b = BSIZE E"
  then show "case (0, b, pCtx) of (i :: u32, b, pCtx) \<Rightarrow> length b = BSIZE E \<and> ctx_ok E pCtx" using assms(2) by simp
  show "gives (mdi_inv L J) (imap_turn E P p x) (\<lambda>(i, b, pCtx). length b = BSIZE E \<and> ctx_ok E pCtx)"
    if "case x of (i, b, pCtx) \<Rightarrow> length b = BSIZE E \<and> ctx_ok E pCtx" for x
    using that by (auto intro: gives_imap_turn [OF assms(1)] split: prod.splits)
  show "gives (mdi_inv L J) (case x of (uu, uua, pCtx) \<Rightarrow> okE pCtx) (ctx_ok E)"
    if "case x of (i, b, pCtx) \<Rightarrow> length b = BSIZE E \<and> ctx_ok E pCtx" for x :: "u32 \<times> bytes \<times> MDICTX"
    using that by (auto intro: gives_okE split: prod.splits)
qed

text \<open>The bytes that were zeroed are put back.\<close>

lemma metaroot_restored: "20 \<le> length b \<Longrightarrow> overwrite NODEHEADER_SIZE (slice NODEHEADER_SIZE 4 b) (metaroot_zeroed b) = b"
  by (rule nth_equalityI)
    (auto simp: metaroot_zeroed_def overwrite_def slice_def NODEHEADER_SIZE_def nth_append)

lemma gives_metaroot_turn:
  assumes "verifies E P J" and "length b = BSIZE E" and "ctx_ok E pCtx" and "i = 0 \<or> i = 1"
  shows "gives (mdi_inv L J) (metaroot_turn E P p i (b, seq, valid, pCtx))
    (\<lambda>(b, _, _, pCtx). length b = BSIZE E \<and> ctx_ok E pCtx)"
proof -
  have size: "128 \<le> BSIZE E" using assms(1) BSIZE_ge by (auto simp: verifies_def)
  have shown: "node_shown E MDTYPE_METAROOT (1 + i) b"
    if "length b = BSIZE E" "nh_ulSignature (NodeHdrExtract b) = META_SIG_METAROOT" "nh_ulCRC (NodeHdrExtract b) = blk_crc E p (metaroot_zeroed b)" for b
  proof -
    have "length (metaroot_zeroed b) = BSIZE E" using that(1) size by (simp add: metaroot_zeroed_def overwrite_def NODEHEADER_SIZE_def)
    then show ?thesis using that blk_crc_address [of "metaroot_zeroed b" E p] size assms(4) by (auto simp: node_shown_def)
  qed
  show ?thesis
    unfolding metaroot_turn_def prod.case Let_def
  proof (rule gives_bindE [OF verifies_read [OF assms(1,2)]], rule gives_if)
    fix b :: bytes
    assume len: "length b = BSIZE E"
    then have same: "overwrite NODEHEADER_SIZE (slice NODEHEADER_SIZE 4 b) (metaroot_zeroed b) = b"
      using size by (simp add: metaroot_restored)
    show "gives (mdi_inv L J) (okE (overwrite NODEHEADER_SIZE (slice NODEHEADER_SIZE 4 b) (metaroot_zeroed b), seq, valid, pCtx))
        (\<lambda>(b, _, _, pCtx). length b = BSIZE E \<and> ctx_ok E pCtx)"
      unfolding same by (rule gives_okE) (simp add: len assms(3))
    assume "nh_ulSignature (NodeHdrExtract b) = META_SIG_METAROOT \<and> nh_ulCRC (NodeHdrExtract b) = blk_crc E p (metaroot_zeroed b)"
    then have "node_shown E MDTYPE_METAROOT (1 + i) b" using shown len by blast
    from verifies_callback(1) [OF assms(1) this] show "gives (mdi_inv L J)
        (bindE (callback P MDTYPE_METAROOT (1 + i) (overwrite NODEHEADER_SIZE (slice NODEHEADER_SIZE 4 b) (metaroot_zeroed b)))
          (\<lambda>b'. okE (b', if seq < nh_ullSequence (NodeHdrExtract b) then nh_ullSequence (NodeHdrExtract b) else seq, True,
            if seq < nh_ullSequence (NodeHdrExtract b)
            then pCtx\<lparr>mc_abMREntries := mr_abEntries E (overwrite NODEHEADER_SIZE (slice NODEHEADER_SIZE 4 b) (metaroot_zeroed b))\<rparr> else pCtx)))
        (\<lambda>(b, _, _, pCtx). length b = BSIZE E \<and> ctx_ok E pCtx)"
      unfolding same by (rule gives_bindE) (rule gives_okE, use assms(3) in \<open>simp add: ctx_ok_def\<close>)
  qed
qed

lemma gives_MR:
  assumes "verifies E P J" and "ctx_ok E pCtx"
  shows "gives (mdi_inv L J) (MDIterMR E H P pCtx) (ctx_ok E)"
  unfolding MDIterMR_def
proof (rule gives_with_blkbuf, rule gives_bindE [OF gives_foldE])
  fix L p b
  assume "length b = BSIZE E"
  then show "case (b, 0, False, pCtx) of (b, _ :: u64, _ :: bool, pCtx) \<Rightarrow> length b = BSIZE E \<and> ctx_ok E pCtx" using assms(2) by simp
  show "gives (mdi_inv L J) (metaroot_turn E P p i x) (\<lambda>(b, _, _, pCtx). length b = BSIZE E \<and> ctx_ok E pCtx)"
    if "i \<in> set [0, 1]" "case x of (b, _, _, pCtx) \<Rightarrow> length b = BSIZE E \<and> ctx_ok E pCtx" for i x
    using that by (cases x, hypsubst) (rule gives_metaroot_turn [OF assms(1)], auto)
  show "gives (mdi_inv L J) (case x of (_, ullMRSeq, fEitherValid, pCtx) \<Rightarrow>
      if \<not> fEitherValid then errE RED_EIO
      else okE (if mp_fVerify P \<and> mc_ullSeqMax pCtx < ullMRSeq then pCtx\<lparr>mc_ullSeqMax := ullMRSeq\<rparr> else pCtx)) (ctx_ok E)"
    if "case x of (b, _, _, pCtx) \<Rightarrow> length b = BSIZE E \<and> ctx_ok E pCtx" for x :: "bytes \<times> u64 \<times> bool \<times> MDICTX"
    using that by (cases x) (auto intro!: gives_okE gives_errE simp: ctx_ok_def)
qed

lemma supported_sealed: "RED_DISK_LAYOUT_IS_SUPPORTED E v \<Longrightarrow> directories_sealed E \<Longrightarrow> RED_DISK_LAYOUT_DIRCRC \<le> v"
  by (auto simp: RED_DISK_LAYOUT_IS_SUPPORTED_def directories_sealed_def intro: order_trans)

lemma gives_MB:
  assumes "verifies E P J"
  shows "gives (mdi_inv L J) (MDIterMB E H P pCtx) (ctx_ok E)"
  unfolding MDIterMB_def Let_def
proof (rule gives_with_blkbuf, rule gives_bindE [OF verifies_read [OF assms]], assumption, rule gives_if [OF gives_errE],
    rule gives_thenE [OF gives_fsM_True gives_thenE [OF gives_fsM_True gives_thenE [OF gives_fsM_True gives_thenE [OF verifies_callback(2) [OF assms] gives_okE]]]])
  fix p b
  let ?swap = "\<lambda>v. if hdr_ulSignature b = SWAP32 META_SIG_MASTER then SWAP32 v else v"
  assume len: "length b = BSIZE E" and "\<not> (mp_fVerify P \<and> \<not> node_sealed E p META_SIG_MASTER b)"
  then show "node_shown E MDTYPE_MASTER 0 b"
    using node_sealed_address [OF len, of p META_SIG_MASTER] BSIZE_ge [of E] assms by (auto simp: node_shown_def verifies_def)
  show "ctx_ok E ((if mp_fVerify P then pCtx\<lparr>mc_ullSeqMax := nh_ullSequence (NodeHdrExtract b)\<rparr> else pCtx)
    \<lparr>mc_ulVersion := if \<not> RED_DISK_LAYOUT_IS_SUPPORTED E (?swap (mb_ulVersion b)) then RED_DISK_LAYOUT_VERSION E else ?swap (mb_ulVersion b),
     mc_ulInodeCount := ?swap (mb_ulInodeCount b)\<rparr>)"
    using supported_sealed [of E] by (auto simp: ctx_ok_def directories_sealed_def)
qed

lemma gives_MDIter:
  assumes "verifies E P J"
  shows "gives (mdi_inv L J) (MDIter E H P) (\<lambda>_. True)"
  unfolding MDIter_def Let_def
proof (rule gives_bindE [OF gives_MB [OF assms]], rule gives_bindE [OF gives_MR [OF assms]], assumption,
    rule gives_bindE [OF gives_getE_True], rule gives_if [OF gives_mallocM gives_Inodes [OF assms]])
  fix ctx L p b
  assume "ctx_ok E ctx"
  then have "ctx_ok E (ctx\<lparr>mc_ulInodeImapNodes := inode_imap_nodes E (mc_ulInodeCount ctx), mc_pbInodeImap := b\<rparr>)"
    by (simp add: ctx_ok_def)
  then show "gives (mdi_inv L J) (bindE (MDIterImaps E H P (ctx\<lparr>mc_ulInodeImapNodes := inode_imap_nodes E (mc_ulInodeCount ctx),
      mc_pbInodeImap := b\<rparr>)) (MDIterInodes E H P)) (\<lambda>_. True)"
    by (rule gives_bindE [OF gives_Imaps [OF assms] gives_Inodes [OF assms]])
qed

lemma gives_statusE:
  "gives I f (\<lambda>_. True) \<Longrightarrow> (\<And>r. gives I (g r) (\<lambda>_. True)) \<Longrightarrow> gives I (statusE f g) (\<lambda>_. True)"
  unfolding gives_def statusE_Some_iff by blast

lemma gives_returnE: "gives I (returnE r) (\<lambda>_. True)"
  by (simp add: gives_def returnE_def)

lemma gives_iterate:
  assumes "verifies E P J"
  shows "gives (mdi_inv L J) (RedMetadataIterate E H (Some P)) (\<lambda>_. True)"
proof -
  have "gives (mdi_inv L J) (case mp_pszDevice P of None \<Rightarrow> okE ()
      | Some pszDrive \<Rightarrow> fsM (os_call (RedOsBDevConfig H (mp_bVolNum P) pszDrive))) (\<lambda>_. True)"
    by (simp add: gives_ok_True gives_fsM_True split: option.split)
  then show ?thesis
    unfolding RedMetadataIterate_def option.case
    by (intro gives_if gives_errE gives_bindE [OF gives_getE_True] gives_thenE gives_whenE gives_fsM_True gives_statusE gives_returnE
        gives_MDIter [OF assms])
qed

end
