(* ===== verification/Red_MdIterTotal.thy ===== *)
theory Red_MdIterTotal
  imports Red_MdIterProps
begin

text \<open>
  The metadata iterator returns: no loop of it fails to end and no copy goes outside of the memory for the imap.
\<close>

section \<open>The iteration returns\<close>

text \<open>\<open>yields I f Q\<close>: from a state with \<open>I\<close>, \<open>f\<close> returns in one, and the value of a success has \<open>Q\<close>.\<close>

definition yields :: "('s \<Rightarrow> bool) \<Rightarrow> ('s, 'e, 'a) comp \<Rightarrow> ('a \<Rightarrow> bool) \<Rightarrow> bool" where
  "yields I f Q \<longleftrightarrow> (\<forall>s. I s \<longrightarrow> (\<exists>r t. f s = Some (r, t) \<and> I t \<and> (\<forall>x. r = Inr x \<longrightarrow> Q x)))"

named_theorems yields_rules \<open>an operation returns, keeps a predicate and its result has another\<close>

lemma yieldsI: "(\<And>s. I s \<Longrightarrow> \<exists>r t. f s = Some (r, t) \<and> I t \<and> (\<forall>x. r = Inr x \<longrightarrow> Q x)) \<Longrightarrow> yields I f Q"
  by (simp add: yields_def)

lemma yieldsE:
  assumes "yields I f Q" and "I s"
  obtains r t where "f s = Some (r, t)" "I t" "\<And>x. r = Inr x \<Longrightarrow> Q x"
  using assms unfolding yields_def by blast

lemma yields_okE [yields_rules]: "Q x \<Longrightarrow> yields I (okE x) Q"
  and yields_errE [yields_rules]: "yields I (errE e) Q"
  and yields_getE [yields_rules]: "yields I (getE f) (\<lambda>_. True)"
  by (auto simp: yields_def)

lemma yields_ok_True: "yields I (okE x) (\<lambda>_. True)"
  by (rule yields_okE) simp

lemma yields_bindE:
  assumes "yields I f R" and "\<And>x. R x \<Longrightarrow> yields I (g x) Q"
  shows "yields I (bindE f g) Q"
proof (rule yieldsI)
  fix s
  assume "I s"
  then obtain r t where f: "f s = Some (r, t)" "I t" "\<And>x. r = Inr x \<Longrightarrow> R x" using yieldsE [OF assms(1)] by blast
  show "\<exists>r t. bindE f g s = Some (r, t) \<and> I t \<and> (\<forall>x. r = Inr x \<longrightarrow> Q x)"
  proof (cases r)
    case (Inl e)
    with f show ?thesis by (auto simp: bindE_def)
  next
    case (Inr x)
    obtain q u where "g x t = Some (q, u)" "I u" "\<forall>y. q = Inr y \<longrightarrow> Q y"
      using yieldsE [OF assms(2) [OF f(3) [OF Inr]] f(2)] by blast
    with f(1) Inr show ?thesis by (simp add: bindE_def)
  qed
qed

lemma yields_thenE: "yields I f (\<lambda>_. True) \<Longrightarrow> yields I g Q \<Longrightarrow> yields I (thenE f g) Q"
  unfolding thenE_def by (rule yields_bindE)

lemma yields_if: "(b \<Longrightarrow> yields I f Q) \<Longrightarrow> (\<not> b \<Longrightarrow> yields I g Q) \<Longrightarrow> yields I (if b then f else g) Q"
  by simp

lemma yields_whenE: "(b \<Longrightarrow> yields I f (\<lambda>_. True)) \<Longrightarrow> yields I (whenE b f) (\<lambda>_. True)"
  by (auto simp: whenE_def intro: yields_okE)

lemma yields_statusE:
  assumes "yields I f (\<lambda>_. True)" and "\<And>r. yields I (g r) (\<lambda>_. True)"
  shows "yields I (statusE f g) (\<lambda>_. True)"
proof (rule yieldsI)
  fix s
  assume "I s"
  then obtain r t where f: "f s = Some (r, t)" "I t" using yieldsE [OF assms(1)] by blast
  obtain q u where "g r t = Some (q, u)" "I u" using yieldsE [OF assms(2) f(2)] by blast
  with f(1) show "\<exists>r t. statusE f g s = Some (r, t) \<and> I t \<and> (\<forall>x. r = Inr x \<longrightarrow> True)" by (simp add: statusE_def)
qed

lemma yields_returnE: "yields I (returnE r) (\<lambda>_. True)"
  by (simp add: yields_def)

lemma yields_weaken: "yields I f Q \<Longrightarrow> (\<And>x. Q x \<Longrightarrow> R x) \<Longrightarrow> yields I f R"
  unfolding yields_def by blast

lemma yields_foldE: "Q a \<Longrightarrow> (\<And>x a. x \<in> set xs \<Longrightarrow> Q a \<Longrightarrow> yields I (f x a) Q) \<Longrightarrow> yields I (foldE f xs a) Q"
proof (induction xs arbitrary: a)
  case Nil
  then show ?case by (auto simp: yields_def)
next
  case (Cons x xs)
  have "yields I (f x a) Q" by (rule Cons.prems(2)) (use Cons.prems(1) in simp_all)
  then show ?case
    unfolding foldE.simps by (rule yields_bindE) (rule Cons.IH, assumption, rule Cons.prems(2); simp)
qed

lemma yields_fold_True: "(\<And>x a. yields I (f x a) (\<lambda>_. True)) \<Longrightarrow> yields I (foldE f xs a) (\<lambda>_. True)"
  by (rule yields_foldE) simp_all

text \<open>A loop whose condition and turns are as in a loop with a bound.\<close>

lemma yields_whileE:
  assumes "Q x" and "\<And>x. Q x \<Longrightarrow> R x \<Longrightarrow> yields I (f x) (\<lambda>y. Q y \<and> m y < (m x :: nat))"
    and "\<And>x s. I s \<Longrightarrow> P x s \<Longrightarrow> R x"
  shows "yields I (whileE P f x) Q"
proof (rule yieldsI)
  fix s
  assume I: "I s"
  have "\<exists>q. whileE P f x s = Some q"
  proof (rule whileE_total [where I = "\<lambda>x s. Q x \<and> I s" and m = "\<lambda>x _. m x"])
    show "Q x \<and> I s" using assms(1) I by simp
    show "\<exists>r t. f x s = Some (r, t) \<and> (\<forall>y. r = Inr y \<longrightarrow> (Q y \<and> I t) \<and> m y < m x)" if "Q x \<and> I s" "P x s" for x s
      using yieldsE [OF assms(2)] assms(3) that by metis
  qed
  then obtain r t where run: "whileE P f x s = Some (r, t)" by force
  have "I t \<and> (\<forall>y. r = Inr y \<longrightarrow> Q y)"
  proof (rule whileE_rule [where I = "\<lambda>x s. Q x \<and> I s" and Q = "\<lambda>r t. I t \<and> (\<forall>y. r = Inr y \<longrightarrow> Q y)", OF run])
    show "case r of Inl e \<Rightarrow> I t \<and> (\<forall>y. Inl e = Inr y \<longrightarrow> Q y) | Inr y \<Rightarrow> Q y \<and> I t" if "Q x \<and> I s" "P x s" "f x s = Some (r, t)" for x s r t
      using yieldsE [OF assms(2), of x s] assms(3) [of s x] that by (auto split: sum.split)
  qed (use assms(1) I in simp_all)
  with run show "\<exists>r t. whileE P f x s = Some (r, t) \<and> I t \<and> (\<forall>y. r = Inr y \<longrightarrow> Q y)" by blast
qed

section \<open>The parts of a step\<close>

definition on_fs :: "('d fs \<Rightarrow> bool) \<Rightarrow> ('c, 'd) mdi \<Rightarrow> bool" where
  "on_fs Q s \<longleftrightarrow> Q (mdi_fs s)"

abbreviation mdi_core :: "COREVOLUME \<Rightarrow> ('c, 'd) mdi \<Rightarrow> bool" where
  "mdi_core C \<equiv> on_fs (\<lambda>t. gpRedCoreVol t = C)"

abbreviation anywhere :: "('c, 'd) mdi \<Rightarrow> bool" where
  "anywhere \<equiv> on_fs (\<lambda>_. True)"

lemma yields_anywhere: "(\<And>C. yields (mdi_core C) f Q) \<Longrightarrow> yields anywhere f Q"
  unfolding yields_def on_fs_def by blast

lemma yields_fsM: "(\<And>t. f t \<noteq> None) \<Longrightarrow> yields anywhere (fsM f) (\<lambda>_. True)"
  unfolding yields_def on_fs_def fsM_def by (metis (no_types, lifting) not_None_eq option.simps(9) surj_pair)

text \<open>
  There is a callback, it does not change the layout of the volume or the length of its buffer, and no number of retries is the one for which
  the transfers go on for ever.
\<close>

definition bounded :: "'d env \<Rightarrow> ('c, 'd) MDITERPARAM \<Rightarrow> bool" where
  "bounded E P \<longleftrightarrow> env_ok E \<and> (\<forall>v. vc_bBlockIoRetries (gaRedVolConf E v) < 255) \<and> (\<exists>f. mp_pfnCallback P = Some f \<and>
     (\<forall>c type ulBlock b t. gpRedCoreVol (snd (snd (snd (f c type ulBlock b t)))) = gpRedCoreVol t \<and>
       length (fst (snd (f c type ulBlock b t))) = length b))"

lemma RedIoRead_returns:
  assumes "vc_bBlockIoRetries (gaRedVolConf E v) < 255"
  shows "\<exists>q t. RedIoRead E v b n buf s = Some (Inr q, t) \<and> io_frame s t"
proof -
  have "RedIoRead E v b n buf s \<noteq> None"
    using io_retry_attempts [OF assms, of "RedBDevRead E v (ullSectorStart E v b s) (ulSectorCount v n s)" "Inr ()" "(buf, s)"]
    by (simp add: RedIoRead_def thenE_CRITICAL_ASSERT split: option.split prod.split)
  then obtain r t where run: "RedIoRead E v b n buf s = Some (r, t)" by fast
  from RedIoRead_frame [OF run] run show ?thesis by auto
qed

lemma yields_read_blk:
  fixes E :: "'d env"
  assumes "bounded E P"
  shows "yields (mdi_core C) (read_blk E ulBlock b) (\<lambda>b'. length b' = length b)"
proof (rule yieldsI)
  fix s :: "('c, 'd) mdi"
  assume "mdi_core C s"
  obtain ret new t where run: "RedIoRead E (gbRedVolNum (mdi_fs s)) ulBlock 1 b (mdi_fs s) = Some (Inr (ret, new), t)"
      "io_frame (mdi_fs s) t"
    using RedIoRead_returns [of E "gbRedVolNum (mdi_fs s)" ulBlock 1 b "mdi_fs s"] assms by (auto simp: bounded_def)
  then show "\<exists>r t. read_blk E ulBlock b s = Some (r, t) \<and> mdi_core C t \<and> (\<forall>x. r = Inr x \<longrightarrow> length x = length b)"
    using \<open>mdi_core C s\<close> io_frame_globals(5) [OF run(2)] RedIoRead_length [OF _ run(1)] assms
    by (cases ret) (auto simp: read_blk_def fsM_def bindE_def on_fs_def bounded_def)
qed

lemma yields_callback:
  fixes P :: "('c, 'd) MDITERPARAM"
  assumes "bounded E P"
  shows "yields (mdi_core C) (callback P type ulBlock b) (\<lambda>b'. length b' = length b)"
proof (rule yieldsI)
  fix s :: "('c, 'd) mdi"
  assume core: "mdi_core C s"
  obtain f where f: "mp_pfnCallback P = Some f" "\<And>c type ulBlock b t. gpRedCoreVol (snd (snd (snd (f c type ulBlock b t)))) = gpRedCoreVol t"
      "\<And>c type ulBlock b t. length (fst (snd (f c type ulBlock b t))) = length b"
    using assms unfolding bounded_def by blast
  obtain r b' c t where q: "f (mdi_context s) type ulBlock b (mdi_fs s) = (r, b', c, t)" by (rule prod_cases4)
  show "\<exists>r t. callback P type ulBlock b s = Some (r, t) \<and> mdi_core C t \<and> (\<forall>x. r = Inr x \<longrightarrow> length x = length b)"
    using f(1) q f(2,3) [of "mdi_context s" type ulBlock b "mdi_fs s"] core
    by (cases r) (auto simp: callback_def Let_def on_fs_def)
qed

lemma yields_callback_True: "bounded E P \<Longrightarrow> yields (mdi_core C) (callback P type ulBlock b) (\<lambda>_. True)"
  by (rule yields_weaken [OF yields_callback]) simp_all

lemma yields_mallocM:
  fixes body :: "nat \<Rightarrow> bytes \<Rightarrow> ('c, 'd, 'a) mop"
  assumes "\<And>p b. length b = n \<Longrightarrow> yields (on_fs R) (body p b) Q"
  shows "yields (on_fs R) (bindE (mallocM H n) (\<lambda>(p, b). if p = 0 then errE RED_ENOMEM else finallyE (body p b) (freeM p))) Q"
proof (rule yieldsI)
  fix s :: "('c, 'd) mdi"
  assume core: "on_fs R s"
  let ?p = "malloc H (mdi_mallocs s) n" and ?b = "map (malloc_bytes H (mdi_mallocs s)) [0..<n]"
    and ?s = "s\<lparr>mdi_mallocs := mdi_mallocs s + 1\<rparr>"
  let ?s' = "?s\<lparr>mdi_live := ?p # mdi_live ?s\<rparr>"
  show "\<exists>r t. bindE (mallocM H n) (\<lambda>(p, b). if p = 0 then errE RED_ENOMEM else finallyE (body p b) (freeM p)) s = Some (r, t) \<and>
      on_fs R t \<and> (\<forall>x. r = Inr x \<longrightarrow> Q x)"
  proof (cases "?p = 0")
    case True
    with core show ?thesis by (simp add: mallocM_def bindE_def on_fs_def)
  next
    case False
    have "length ?b = n" "on_fs R ?s'" using core by (simp_all add: on_fs_def)
    then obtain q u where "body ?p ?b ?s' = Some (q, u)" "on_fs R u" "\<forall>y. q = Inr y \<longrightarrow> Q y"
      using yieldsE [OF assms] by metis
    with False show ?thesis by (simp add: mallocM_def Let_def bindE_def finallyE_def statusE_def freeM_def on_fs_def)
  qed
qed

lemma yields_with_blkbuf:
  assumes "\<And>p b. length b = BSIZE E \<Longrightarrow> yields (on_fs R) (body p b) Q"
  shows "yields (on_fs R) (with_blkbuf E H body) Q"
  unfolding with_blkbuf_mallocM Let_def by (rule yields_mallocM) (rule assms, simp)

section \<open>The steps\<close>

lemmas yields_intros = yields_with_blkbuf yields_if yields_errE yields_whenE yields_ok_True yields_fold_True

lemma yields_DirectoryBlock:
  assumes "bounded E P"
  shows "yields (mdi_core C) (MDIterDirectoryBlock E H P pCtx ulBlock) (\<lambda>_. True)"
  unfolding MDIterDirectoryBlock_def
  by (intro yields_intros yields_bindE [OF yields_read_blk [OF assms]] yields_thenE [OF yields_callback_True [OF assms]])

lemma yields_Indir:
  assumes "bounded E P"
  shows "yields (mdi_core C) (MDIterIndir E H P pCtx ulBlock ulInode fIsDirectory) (\<lambda>_. True)"
  unfolding MDIterIndir_def Let_def
  by (intro yields_intros yields_bindE [OF yields_read_blk [OF assms]] yields_thenE yields_callback_True [OF assms]
      yields_DirectoryBlock [OF assms])

lemma yields_Dindir:
  assumes "bounded E P"
  shows "yields (mdi_core C) (MDIterDindir E H P pCtx ulBlock ulInode fIsDirectory) (\<lambda>_. True)"
  unfolding MDIterDindir_def Let_def
  by (intro yields_intros yields_bindE [OF yields_read_blk [OF assms]] yields_thenE yields_callback_True [OF assms]
      yields_Indir [OF assms])

lemma yields_Inodes:
  assumes "bounded E P"
  shows "yields (mdi_core C) (MDIterInodes E H P pCtx) (\<lambda>_. True)"
  unfolding MDIterInodes_def inode_turn_def inode_entry_def Let_def
  by (intro yields_intros yields_bindE [OF yields_getE] yields_bindE [OF yields_read_blk [OF assms]] yields_thenE
      yields_callback_True [OF assms] yields_DirectoryBlock [OF assms] yields_Indir [OF assms] yields_Dindir [OF assms])

lemma yields_MR:
  assumes "bounded E P"
  shows "yields (mdi_core C) (MDIterMR E H P pCtx) (\<lambda>_. True)"
proof -
  have "yields (mdi_core C) (metaroot_turn E P p i x) (\<lambda>_. True)" for p i x
    by (cases x, hypsubst, unfold metaroot_turn_def prod.case Let_def)
      (intro yields_intros yields_bindE [OF yields_read_blk [OF assms]] yields_bindE [OF yields_callback_True [OF assms]])
  then have "yields (mdi_core C) (foldE (metaroot_turn E P p) xs x) (\<lambda>_. True)" for p xs x
    by (rule yields_fold_True)
  then show ?thesis
    unfolding MDIterMR_def by (intro yields_with_blkbuf yields_bindE) (assumption, auto intro: yields_intros split: prod.split)
qed

text \<open>The memory for the imap has the length that the copies rely on.\<close>

definition imap_memory_ok :: "'d env \<Rightarrow> MDICTX \<Rightarrow> bool" where
  "imap_memory_ok E pCtx \<longleftrightarrow> length (mc_pbInodeImap pCtx) = unat (mc_ulInodeImapNodes pCtx) * IMAPNODE_ENTRY_BYTES E"

lemma unat_times_le: "unat ((a :: u32) * word_of_nat n) \<le> unat a * n"
proof -
  have "unat (a * word_of_nat n) = (unat a * (n mod 2 ^ 32)) mod 2 ^ 32" by (simp add: unat_word_ariths unat_of_nat)
  also have "\<dots> \<le> unat a * (n mod 2 ^ 32)" by (rule mod_less_eq_dividend)
  also have "\<dots> \<le> unat a * n" by (intro mult_le_mono2 mod_less_eq_dividend)
  finally show ?thesis .
qed

lemma imap_copy_inside:
  assumes "imap_memory_ok E pCtx" and "i < mc_ulInodeImapNodes pCtx"
  shows "unat (i * word_of_nat (IMAPNODE_ENTRY_BYTES E)) + IMAPNODE_ENTRY_BYTES E \<le> length (mc_pbInodeImap pCtx)"
proof -
  have "Suc (unat i) \<le> unat (mc_ulInodeImapNodes pCtx)" using assms(2) by (simp add: word_less_nat_alt)
  from mult_le_mono1 [OF this, of "IMAPNODE_ENTRY_BYTES E"] unat_times_le [of i "IMAPNODE_ENTRY_BYTES E"]
  show ?thesis using assms(1) by (simp add: imap_memory_ok_def)
qed

lemma yields_save_imap:
  assumes "imap_memory_ok E pCtx" and "length b = BSIZE E"
  shows "yields I (save_imap E i b pCtx) (imap_memory_ok E)"
  using assms imap_copy_inside [OF assms(1), of i]
  by (auto simp: yields_def save_imap_def Let_def imap_memory_ok_def im_abEntries_def IMAPNODE_ENTRY_BYTES_def)

lemma yields_imap_turn:
  assumes "bounded E P" and "length b = BSIZE E" and "imap_memory_ok E pCtx" and "i < cv_ulImapNodeCount C"
  shows "yields (mdi_core C) (imap_turn E P p (i, b, pCtx))
    (\<lambda>y. (case y of (i, b, pCtx) \<Rightarrow> length b = BSIZE E \<and> imap_memory_ok E pCtx) \<and> 2 ^ 32 - unat (fst y) < 2 ^ 32 - unat i)"
proof -
  have "unat i < 2 ^ LENGTH(32)" by (rule unsigned_less)
  then have less: "2 ^ 32 - unat (i + 1) < (2 :: nat) ^ 32 - unat i" using unat_Suc_u32 [OF assms(4)] by simp
  show ?thesis
    unfolding imap_turn_def prod.case
  proof (rule yields_bindE [OF yields_getE], rule yields_bindE [OF yields_read_blk [OF assms(1)]], rule yields_if [OF yields_errE],
      rule yields_bindE [OF yields_save_imap [OF assms(3)]], simp add: assms(2))
    fix ulBlock b' pCtx'
    assume len: "length (b' :: bytes) = length b" and mem: "imap_memory_ok E pCtx'"
    show "yields (mdi_core C) (bindE (callback P MDTYPE_IMAP ulBlock b') (\<lambda>b. okE (i + 1, b, pCtx')))
      (\<lambda>y. (case y of (i, b, pCtx) \<Rightarrow> length b = BSIZE E \<and> imap_memory_ok E pCtx) \<and> 2 ^ 32 - unat (fst y) < 2 ^ 32 - unat i)"
      by (rule yields_bindE [OF yields_callback [OF assms(1)]], rule yields_okE) (use len assms(2) mem less in simp)
  qed
qed

lemma yields_Imaps:
  fixes P :: "('c, 'd) MDITERPARAM"
  assumes "bounded E P" and "imap_memory_ok E pCtx"
  shows "yields (mdi_core C) (MDIterImaps E H P pCtx) (\<lambda>_. True)"
  unfolding MDIterImaps_def
proof (rule yields_with_blkbuf, rule yields_bindE [OF yields_whileE [where m = "\<lambda>y. 2 ^ 32 - unat (fst y)" and
      R = "\<lambda>x. fst x < cv_ulImapNodeCount C"]])
  fix p and b :: bytes
  assume "length b = BSIZE E"
  then show "case (0, b, pCtx) of (i :: u32, b, pCtx) \<Rightarrow> length b = BSIZE E \<and> imap_memory_ok E pCtx" using assms(2) by simp
  show "yields (mdi_core C) (imap_turn E P p x)
      (\<lambda>y. (case y of (i, b, pCtx) \<Rightarrow> length b = BSIZE E \<and> imap_memory_ok E pCtx) \<and> 2 ^ 32 - unat (fst y) < 2 ^ 32 - unat (fst x))"
    if "case x of (i, b, pCtx) \<Rightarrow> length b = BSIZE E \<and> imap_memory_ok E pCtx" "fst x < cv_ulImapNodeCount C" for x
    using that yields_imap_turn [OF assms(1)] by (cases x) auto
  show "fst x < cv_ulImapNodeCount C"
    if "mdi_core C s" "(case x of (i, _) \<Rightarrow> \<lambda>s. i < cv_ulImapNodeCount (gpRedCoreVol (mdi_fs s))) s" for x :: "u32 \<times> bytes \<times> MDICTX" and s :: "('c, 'd) mdi"
    using that by (cases x) (simp add: on_fs_def)
  show "yields (mdi_core C) (case x of (uu, uua, pCtx) \<Rightarrow> okE pCtx) (\<lambda>_. True)" for x :: "u32 \<times> bytes \<times> MDICTX"
    by (cases x) (simp add: yields_ok_True)
qed

section \<open>The whole iteration\<close>

lemma RedVolInitBlockLayout_returns: "RedVolInitBlockLayout E s \<noteq> None"
  by (simp add: RedVolInitBlockLayout_def init_imap_layout_def Let_def thenE_def bindE_def split: option.split)

lemma modE_returns: "modE g s \<noteq> None"
  by simp

lemma yields_MB:
  assumes "bounded E P"
  shows "yields anywhere (MDIterMB E H P pCtx) (\<lambda>_. True)"
  unfolding MDIterMB_def Let_def
  by (intro yields_intros yields_bindE [OF yields_anywhere [OF yields_read_blk [OF assms]]] yields_thenE
      yields_anywhere [OF yields_callback_True [OF assms]] yields_fsM RedVolInitBlockLayout_returns modE_returns)

lemma yields_MDIter:
  assumes "bounded E P"
  shows "yields anywhere (MDIter E H P) (\<lambda>_. True)"
  unfolding MDIter_def Let_def
proof (rule yields_bindE [OF yields_MB [OF assms]], rule yields_anywhere, rule yields_bindE [OF yields_MR [OF assms]],
    rule yields_bindE [OF yields_getE], rule yields_if [OF yields_mallocM yields_Inodes [OF assms]])
  fix ctx :: MDICTX and C p b
  assume "length (b :: bytes) = unat (inode_imap_nodes E (mc_ulInodeCount ctx)) * IMAPNODE_ENTRY_BYTES E"
  then have "imap_memory_ok E (ctx\<lparr>mc_ulInodeImapNodes := inode_imap_nodes E (mc_ulInodeCount ctx), mc_pbInodeImap := b\<rparr>)"
    by (simp add: imap_memory_ok_def)
  then show "yields (mdi_core C) (bindE (MDIterImaps E H P (ctx\<lparr>mc_ulInodeImapNodes := inode_imap_nodes E (mc_ulInodeCount ctx),
      mc_pbInodeImap := b\<rparr>)) (MDIterInodes E H P)) (\<lambda>_. True)"
    by (rule yields_bindE [OF yields_Imaps [OF assms] yields_Inodes [OF assms]])
qed

lemma os_call_returns: "os_call f s \<noteq> None"
  by (simp add: os_call_def split: prod.split)

lemma RedBDevOpen_returns: "RedBDevOpen E v m s \<noteq> None"
  by (simp add: RedBDevOpen_def bdev_open_geometry_def os_call_def Let_def thenE_def bindE_def statusE_def whenE_def getE_def
      split: option.split prod.split sum.split)

lemma yields_after_init:
  assumes "bounded E P"
  shows "yields anywhere (thenE (case mp_pszDevice P of None \<Rightarrow> okE ()
        | Some pszDrive \<Rightarrow> fsM (os_call (RedOsBDevConfig H (mp_bVolNum P) pszDrive)))
      (thenE (whenE (REDCONF_VOLUME_COUNT E > 1) (fsM (RedCoreVolSetCurrent E (mp_bVolNum P))))
        (thenE (fsM (\<lambda>s. RedBDevOpen E (gbRedVolNum s) BDEV_O_RDWR s))
          (statusE (thenE (fsM (RedVolInitBlockGeometry E)) (MDIter E H P)) (\<lambda>ret.
           statusE (fsM (\<lambda>s. RedBDevClose E (gbRedVolNum s) s)) (\<lambda>ret2. returnE (if is_ok ret then ret2 else ret))))))) (\<lambda>_. True)"
proof -
  have "yields anywhere (case mp_pszDevice P of None \<Rightarrow> okE ()
      | Some pszDrive \<Rightarrow> fsM (os_call (RedOsBDevConfig H (mp_bVolNum P) pszDrive))) (\<lambda>_. True)"
    by (simp add: yields_ok_True yields_fsM os_call_returns split: option.split)
  moreover have "RedVolInitBlockGeometry E t \<noteq> None" for t :: "'a fs"
    using assms RedVolInitBlockGeometry_returns by (auto simp: bounded_def)
  moreover have "RedBDevClose E v t \<noteq> None" for v and t :: "'a fs" by (simp add: RedBDevClose_def os_call_def split: prod.split)
  moreover have "RedCoreVolSetCurrent E v t \<noteq> None" for v and t :: "'a fs"
    by (simp add: RedCoreVolSetCurrent_def whenE_def)
  ultimately show ?thesis
    by (intro yields_thenE yields_whenE yields_statusE yields_returnE yields_fsM RedBDevOpen_returns yields_MDIter [OF assms]) auto
qed

lemma iterate_returns:
  assumes "bounded E P" and "RedCoreInit E (mdi_fs s) \<noteq> None"
  shows "\<exists>r t. RedMetadataIterate E H (Some P) s = Some (r, t)"
proof (cases "mp_bVolNum P \<ge> REDCONF_VOLUME_COUNT E \<or> mp_pfnCallback P = None \<or> vol_fMounted (gaRedVolume (mdi_fs s) (mp_bVolNum P))")
  case True
  then show ?thesis by (auto simp: RedMetadataIterate_def)
next
  case False
  obtain q u where init: "RedCoreInit E (mdi_fs s) = Some (q, u)" using assms(2) by fast
  obtain r t where "thenE (case mp_pszDevice P of None \<Rightarrow> okE ()
        | Some pszDrive \<Rightarrow> fsM (os_call (RedOsBDevConfig H (mp_bVolNum P) pszDrive)))
      (thenE (whenE (REDCONF_VOLUME_COUNT E > 1) (fsM (RedCoreVolSetCurrent E (mp_bVolNum P))))
        (thenE (fsM (\<lambda>s. RedBDevOpen E (gbRedVolNum s) BDEV_O_RDWR s))
          (statusE (thenE (fsM (RedVolInitBlockGeometry E)) (MDIter E H P)) (\<lambda>ret.
           statusE (fsM (\<lambda>s. RedBDevClose E (gbRedVolNum s) s)) (\<lambda>ret2. returnE (if is_ok ret then ret2 else ret))))))
      (s\<lparr>mdi_fs := u\<rparr>) = Some (r, t)"
    by (rule yieldsE [OF yields_after_init [OF assms(1)]]) (auto simp: on_fs_def)
  with init False show ?thesis by (cases q) (auto simp: RedMetadataIterate_def fsM_def thenE_Inl thenE_Inr)
qed

section \<open>Properties\<close>



section \<open>A callback that records what it is shown\<close>

definition log_callback :: "((MDTYPE \<times> u32 \<times> bytes) list, 'd) mditercb" where
  "log_callback c type ulBlock b t = (Inr (), b, (type, ulBlock, b) # c, t)"

definition log_param :: "((MDTYPE \<times> u32 \<times> bytes) list, ramdisk) MDITERPARAM" where
  "log_param = \<lparr>mp_bVolNum = 0, mp_pszDevice = None, mp_pfnCallback = Some log_callback, mp_fVerify = True\<rparr>"

definition demo_host :: "ramdisk host" where
  "demo_host = \<lparr>malloc = (\<lambda>k n. 16 + 1000 * k), malloc_bytes = (\<lambda>_ _. 0xAA), RedOsBDevConfig = (\<lambda>_ _ d. (Inr (), d))\<rparr>"

definition log_start :: "((MDTYPE \<times> u32 \<times> bytes) list, ramdisk) mdi" where
  "log_start = \<lparr>mdi_fs = (demo_fs demo_disk)\<lparr>gaRedVolume := (\<lambda>_. volume_zero)\<rparr>, mdi_context = [], mdi_mallocs = 0, mdi_live = [4]\<rparr>"

abbreviation logged_ok :: "(MDTYPE \<times> u32 \<times> bytes) list \<Rightarrow> bool" where
  "logged_ok l \<equiv> \<forall>(type, ulBlock, b) \<in> set l. node_shown demo_env type ulBlock b"

lemma log_keeps: "callback_keeps demo_env log_param logged_ok"
  by (auto simp: callback_keeps_def log_param_def log_callback_def)

lemma log_bounded: "bounded demo_env log_param"
  by (simp add: bounded_def log_param_def log_callback_def demo_env_ok)

lemma demo_init_returns: "RedCoreInit demo_env s \<noteq> None"
  by (simp add: RedCoreInit_def serviceE_def thenE_def bindE_def demo_env_def)



end
