(* ===== verification/Red_MdIterSwap.thy ===== *)
theory Red_MdIterSwap
  imports Red_MdIter Red_Swap
begin

text \<open>
  The metadata iterator reads a node in either byte order: what it takes from a node that the driver has swapped is
  what it takes from the node itself.
\<close>

definition META_SIGS :: "u32 set" where
  "META_SIGS = {META_SIG_MASTER, META_SIG_METAROOT, META_SIG_IMAP, META_SIG_INODE, META_SIG_DINDIR, META_SIG_INDIR, META_SIG_DIRECTORY}"

lemma SWAP_rev: "SWAP16 = RedRev16" "SWAP32 = RedRev32"
  by (simp_all add: fun_eq_iff SWAP16_def RedRev16_def SWAP32_def RedRev32_def)

lemma SWAP_value:
  "length xs = 2 \<Longrightarrow> SWAP16 (word_of_nat (le_value xs)) = word_of_nat (le_value (rev xs))"
  "length xs = 4 \<Longrightarrow> SWAP32 (word_of_nat (le_value xs)) = word_of_nat (le_value (rev xs))"
  by (simp_all add: SWAP_rev RedRev_value)

lemma SWAP32_sigs:
  "SWAP32 META_SIG_MASTER = 0x4D415354"
  "SWAP32 META_SIG_METAROOT = 0x4D455441"
  "SWAP32 META_SIG_IMAP = 0x494D4150"
  "SWAP32 META_SIG_INODE = 0x494E4F44"
  "SWAP32 META_SIG_DINDIR = 0x44424C49"
  "SWAP32 META_SIG_INDIR = 0x494E4449"
  "SWAP32 META_SIG_DIRECTORY = 0x44495244"
  by (simp_all add: META_SIG_defs SWAP32_def)

lemma SWAP32_sigs_back:
  "SWAP32 0x4D415354 = META_SIG_MASTER"
  "SWAP32 0x4D455441 = META_SIG_METAROOT"
  "SWAP32 0x494D4150 = META_SIG_IMAP"
  "SWAP32 0x494E4F44 = META_SIG_INODE"
  "SWAP32 0x44424C49 = META_SIG_DINDIR"
  "SWAP32 0x494E4449 = META_SIG_INDIR"
  "SWAP32 0x44495244 = META_SIG_DIRECTORY"
  by (simp_all add: META_SIG_defs SWAP32_def)

text \<open>No signature is another one swapped.\<close>

lemma META_SIGS_swapped: "sig \<in> META_SIGS \<Longrightarrow> SWAP32 sig \<notin> META_SIGS"
  unfolding META_SIGS_def by (elim insertE emptyE) (simp_all only: SWAP32_sigs, simp_all add: META_SIG_defs)

lemma SWAP32_twice: "sig \<in> META_SIGS \<Longrightarrow> SWAP32 (SWAP32 sig) = sig"
  unfolding META_SIGS_def by (elim insertE emptyE) (simp_all add: SWAP32_sigs SWAP32_sigs_back)

lemma reverse_slice: "off + n \<le> length b \<Longrightarrow> MemCpyAndReverse (drop off b) n = rev (slice off n b)"
  by (rule nth_equalityI) (simp_all add: MemCpyAndReverse_def slice_def rev_nth)

lemma header_native:
  assumes "get32 0 b \<in> META_SIGS"
  shows "NodeHdrExtract b = \<lparr>nh_ulSignature = get32 0 b, nh_ulCRC = get32 4 b, nh_ullSequence = get64 8 b\<rparr>"
proof -
  have "\<forall>sig \<in> META_SIGS. get32 0 b \<noteq> SWAP32 sig" using META_SIGS_swapped assms by metis
  then show ?thesis by (simp add: NodeHdrExtract_def node_offsets META_SIGS_def)
qed

lemma header_other:
  assumes "get32 0 b = SWAP32 sig" and "sig \<in> META_SIGS" and "16 \<le> length b"
  shows "NodeHdrExtract b = \<lparr>nh_ulSignature = sig, nh_ulCRC = word_of_nat (le_value (rev (slice 4 4 b))),
     nh_ullSequence = word_of_nat (le_value (rev (slice 8 8 b)))\<rparr>"
proof -
  have "slice 0 4 (rev (slice 4 4 b)) = rev (slice 4 4 b)" "slice 0 8 (rev (slice 8 8 b)) = rev (slice 8 8 b)"
    using assms(3) by (simp_all add: slice_def)
  then have field: "get32 0 (rev (slice 4 4 b)) = word_of_nat (le_value (rev (slice 4 4 b)))"
      "get64 0 (rev (slice 8 8 b)) = word_of_nat (le_value (rev (slice 8 8 b)))"
    by (simp_all add: get32_def get64_def get_le_def)
  have known: "SWAP32 sig = SWAP32 META_SIG_MASTER \<or> SWAP32 sig = SWAP32 META_SIG_METAROOT \<or> SWAP32 sig = SWAP32 META_SIG_IMAP \<or>
      SWAP32 sig = SWAP32 META_SIG_INODE \<or> SWAP32 sig = SWAP32 META_SIG_DINDIR \<or> SWAP32 sig = SWAP32 META_SIG_INDIR \<or>
      SWAP32 sig = SWAP32 META_SIG_DIRECTORY"
    using assms(2) unfolding META_SIGS_def by blast
  show ?thesis
    using known assms(3) by (simp add: NodeHdrExtract_def node_offsets assms(1) SWAP32_twice [OF assms(2)] reverse_slice field)
qed

section \<open>Nodes that the driver has swapped\<close>

lemma get_slice: "get16 off b = word_of_nat (le_value (slice off 2 b))" "get32 off b = word_of_nat (le_value (slice off 4 b))"
  "get64 off b = word_of_nat (le_value (slice off 8 b))"
  by (simp_all add: get16_def get32_def get64_def get_le_def)

lemma swapped_field:
  assumes "env_ok E" and "length b = BSIZE E" and "uFlags AND BFLAG_MASK = uFlags" and "uFlags AND BFLAG_META_MASK \<noteq> 0"
    and "x \<in> set (node_fields E (uFlags AND BFLAG_META_MASK))"
  shows "field x (RedBufferEndianSwap E big uFlags b) = rev (field x b)"
  unfolding swap_rev [OF assms(1-4)]
  by (rule fold_rev_fields [OF _ assms(5)]) (use node_fields_ok [OF assms(1)] assms(2) in simp)

lemma swapped_length:
  assumes "env_ok E" and "length b = BSIZE E" and "uFlags AND BFLAG_MASK = uFlags" and "uFlags AND BFLAG_META_MASK \<noteq> 0"
  shows "length (RedBufferEndianSwap E big uFlags b) = BSIZE E"
  unfolding swap_rev [OF assms]
  using node_fields_ok [OF assms(1), of "uFlags AND BFLAG_META_MASK"] assms(2) by (subst length_fold_rev) (simp_all add: fields_ok_def)

lemma swapped_header:
  assumes "env_ok E" and "length b = BSIZE E" and "uFlags AND BFLAG_MASK = uFlags" and "uFlags AND BFLAG_META_MASK \<noteq> 0"
    and "hdr_ulSignature b \<in> META_SIGS"
  shows "NodeHdrExtract (RedBufferEndianSwap E big uFlags b) = NodeHdrExtract b"
    and "hdr_ulSignature (RedBufferEndianSwap E big uFlags b) = SWAP32 (hdr_ulSignature b)"
proof -
  let ?b = "RedBufferEndianSwap E big uFlags b"
  have size: "128 \<le> BSIZE E" by (rule BSIZE_ge [OF assms(1)])
  have fields: "(0, 4) \<in> set (node_fields E t)" "(4, 4) \<in> set (node_fields E t)" "(8, 8) \<in> set (node_fields E t)" for t
    by (simp_all add: node_fields_def header_fields_def)
  have f: "slice 0 4 ?b = rev (slice 0 4 b)" "slice 4 4 ?b = rev (slice 4 4 b)" "slice 8 8 ?b = rev (slice 8 8 b)"
    using fields [THEN swapped_field [OF assms(1-4)]] by simp_all
  have len: "length (slice 0 4 b) = 4" using size assms(2) by (simp add: slice_def)
  have sig: "get32 0 ?b = SWAP32 (get32 0 b)" by (simp add: get_slice(2) f SWAP_value(2) [OF len])
  then show "hdr_ulSignature ?b = SWAP32 (hdr_ulSignature b)" by (simp add: hdr_ulSignature_def node_offsets)
  have known: "get32 0 b \<in> META_SIGS" using assms(5) by (simp add: hdr_ulSignature_def node_offsets)
  have "16 \<le> length ?b" using swapped_length [OF assms(1-4)] size by simp
  from header_other [OF sig known this] show "NodeHdrExtract ?b = NodeHdrExtract b"
    by (simp add: header_native [OF known] f get_slice)
qed

lemma native_not_swapped: "sig \<in> META_SIGS \<Longrightarrow> hdr_ulSignature b = sig \<Longrightarrow> \<not> end_swapped sig b"
  using META_SIGS_swapped [of sig] by (auto simp: end_swapped_def)

lemma swapped_entry:
  assumes "env_ok E" and "length b = BSIZE E" and "uFlags AND BFLAG_MASK = uFlags" and "uFlags AND BFLAG_META_MASK \<noteq> 0"
    and "hdr_ulSignature b = sig" and "sig \<in> META_SIGS" and "(off + 4 * i, 4) \<in> set (node_fields E (uFlags AND BFLAG_META_MASK))"
  shows "node_entry off (end_swapped sig (RedBufferEndianSwap E big uFlags b)) (RedBufferEndianSwap E big uFlags b) i =
    node_entry off (end_swapped sig b) b i"
proof -
  let ?b = "RedBufferEndianSwap E big uFlags b"
  have "off + 4 * i + 4 \<le> length b" using node_fields_ok [OF assms(1)] assms(2,7) by (fastforce simp: fields_ok_def)
  then have len: "length (slice (off + 4 * i) 4 b) = 4" by (rule length_slice)
  have "slice (off + 4 * i) 4 ?b = rev (slice (off + 4 * i) 4 b)" using swapped_field [OF assms(1-4,7)] by simp
  moreover have "end_swapped sig ?b" using swapped_header(2) [OF assms(1-4)] assms(5,6) by (simp add: end_swapped_def)
  ultimately show ?thesis
    using native_not_swapped [OF assms(6,5)] len by (simp add: node_entry_def get_slice SWAP_value Let_def)
qed

lemma swapped_directory:
  assumes "env_ok E" and "length b = BSIZE E" and "uFlags AND BFLAG_MASK = uFlags" and "uFlags AND BFLAG_META_MASK = BFLAG_META_INODE"
    and "hdr_ulSignature b = META_SIG_INODE"
  shows "inode_is_directory E (RedBufferEndianSwap E big uFlags b) = inode_is_directory E b"
proof -
  let ?b = "RedBufferEndianSwap E big uFlags b"
  have meta: "uFlags AND BFLAG_META_MASK \<noteq> 0" using assms(4) by (simp add: bflag_values)
  have known: "META_SIG_INODE \<in> META_SIGS" by (simp add: META_SIGS_def)
  have "BFLAG_META_INODE \<noteq> BFLAG_META_MASTER" by (simp add: bflag_values)
  then have field: "(ino_off_uMode E, 2) \<in> set (node_fields E (uFlags AND BFLAG_META_MASK))"
    unfolding assms(4) by (simp add: node_fields_def inode_fields_def inode_header_fields_def)
  then have "ino_off_uMode E + 2 \<le> length b" using node_fields_ok [OF assms(1)] assms(2) by (fastforce simp: fields_ok_def)
  then have len: "length (slice (ino_off_uMode E) 2 b) = 2" by (rule length_slice)
  have "slice (ino_off_uMode E) 2 ?b = rev (slice (ino_off_uMode E) 2 b)" using swapped_field [OF assms(1-3) meta field] by simp
  moreover have "end_swapped META_SIG_INODE ?b" using swapped_header(2) [OF assms(1-3) meta] assms(5) known by (simp add: end_swapped_def)
  ultimately show ?thesis
    using native_not_swapped [OF known assms(5)] len by (simp add: inode_is_directory_def get_slice SWAP_value Let_def)
qed

section \<open>Properties\<close>

lemma inode_entry_field: "i < unat (INODE_ENTRIES E) \<Longrightarrow> (INODE_HEADER_SIZE E + 4 * i, 4) \<in> set (node_fields E BFLAG_META_INODE)"
proof -
  have "BFLAG_META_INODE \<noteq> BFLAG_META_MASTER" by (simp add: bflag_values)
  then show "i < unat (INODE_ENTRIES E) \<Longrightarrow> ?thesis" by (simp add: node_fields_def inode_fields_def entry_fields_def image_iff)
qed

lemma indir_entry_field:
  assumes "DINDIRS_EXIST E \<and> t = BFLAG_META_DINDIR \<or> INDIRS_EXIST E \<and> t = BFLAG_META_INDIR" and "i < unat (INDIR_ENTRIES E)"
  shows "(INDIR_HEADER_SIZE + 4 * i, 4) \<in> set (node_fields E t)"
proof -
  have "t \<noteq> BFLAG_META_MASTER" "t \<noteq> BFLAG_META_INODE" using assms(1) by (auto simp: bflag_values)
  then show ?thesis using assms by (simp add: node_fields_def entry_fields_def image_iff)
qed

text \<open>C7. The iterator is indifferent to the byte order of the volume: from a node that the driver has swapped it takes the
  header of the node itself, of an inode the same pointers and the same answer to whether it is a directory, and of an indirect
  or double indirect node the same pointers.\<close>

theorem iterator_reads_either_byte_order:
  assumes "env_ok E" and "length b = BSIZE E" and "uFlags AND BFLAG_MASK = uFlags" and "uFlags AND BFLAG_META_MASK \<noteq> 0"
    and "hdr_ulSignature b \<in> META_SIGS"
  shows "NodeHdrExtract (RedBufferEndianSwap E big uFlags b) = NodeHdrExtract b \<and>
    (uFlags AND BFLAG_META_MASK = BFLAG_META_INODE \<and> hdr_ulSignature b = META_SIG_INODE \<longrightarrow>
       inode_is_directory E (RedBufferEndianSwap E big uFlags b) = inode_is_directory E b \<and>
       (\<forall>i < unat (INODE_ENTRIES E).
          node_entry (INODE_HEADER_SIZE E) (end_swapped META_SIG_INODE (RedBufferEndianSwap E big uFlags b)) (RedBufferEndianSwap E big uFlags b) i =
          node_entry (INODE_HEADER_SIZE E) (end_swapped META_SIG_INODE b) b i)) \<and>
    (DINDIRS_EXIST E \<and> uFlags AND BFLAG_META_MASK = BFLAG_META_DINDIR \<and> hdr_ulSignature b = META_SIG_DINDIR \<or>
     INDIRS_EXIST E \<and> uFlags AND BFLAG_META_MASK = BFLAG_META_INDIR \<and> hdr_ulSignature b = META_SIG_INDIR \<longrightarrow>
       (\<forall>i < unat (INDIR_ENTRIES E).
          node_entry INDIR_HEADER_SIZE (end_swapped (hdr_ulSignature b) (RedBufferEndianSwap E big uFlags b)) (RedBufferEndianSwap E big uFlags b) i =
          node_entry INDIR_HEADER_SIZE (end_swapped (hdr_ulSignature b) b) b i))"
proof (intro conjI impI allI)
  show "NodeHdrExtract (RedBufferEndianSwap E big uFlags b) = NodeHdrExtract b" by (rule swapped_header(1) [OF assms])
next
  assume "uFlags AND BFLAG_META_MASK = BFLAG_META_INODE \<and> hdr_ulSignature b = META_SIG_INODE"
  then show "inode_is_directory E (RedBufferEndianSwap E big uFlags b) = inode_is_directory E b"
    using swapped_directory [OF assms(1-3)] by blast
next
  fix i
  assume "uFlags AND BFLAG_META_MASK = BFLAG_META_INODE \<and> hdr_ulSignature b = META_SIG_INODE" and i: "i < unat (INODE_ENTRIES E)"
  then have sig: "hdr_ulSignature b = META_SIG_INODE" "(INODE_HEADER_SIZE E + 4 * i, 4) \<in> set (node_fields E (uFlags AND BFLAG_META_MASK))"
    using inode_entry_field by simp_all
  show "node_entry (INODE_HEADER_SIZE E) (end_swapped META_SIG_INODE (RedBufferEndianSwap E big uFlags b)) (RedBufferEndianSwap E big uFlags b) i =
      node_entry (INODE_HEADER_SIZE E) (end_swapped META_SIG_INODE b) b i"
    by (rule swapped_entry [OF assms(1-4) sig(1) _ sig(2)]) (simp add: META_SIGS_def)
next
  fix i
  assume "DINDIRS_EXIST E \<and> uFlags AND BFLAG_META_MASK = BFLAG_META_DINDIR \<and> hdr_ulSignature b = META_SIG_DINDIR \<or>
     INDIRS_EXIST E \<and> uFlags AND BFLAG_META_MASK = BFLAG_META_INDIR \<and> hdr_ulSignature b = META_SIG_INDIR" and "i < unat (INDIR_ENTRIES E)"
  then have "(INDIR_HEADER_SIZE + 4 * i, 4) \<in> set (node_fields E (uFlags AND BFLAG_META_MASK))" by (intro indir_entry_field) auto
  then show "node_entry INDIR_HEADER_SIZE (end_swapped (hdr_ulSignature b) (RedBufferEndianSwap E big uFlags b)) (RedBufferEndianSwap E big uFlags b) i =
      node_entry INDIR_HEADER_SIZE (end_swapped (hdr_ulSignature b) b) b i"
    by (rule swapped_entry [OF assms(1-4) refl assms(5)])
qed

text \<open>An inode with a directory's mode and one pointer.\<close>

definition sample_inode :: bytes where
  "sample_inode = put32 (INODE_HEADER_SIZE demo_env) 9 (put16 (ino_off_uMode demo_env) 0x4000 (put32 0 META_SIG_INODE (replicate 128 0)))"

theorem iterator_reads_either_byte_order_witness:
  "node_entry (INODE_HEADER_SIZE demo_env) (end_swapped META_SIG_INODE (RedBufferEndianSwap demo_env False BFLAG_META_INODE sample_inode))
     (RedBufferEndianSwap demo_env False BFLAG_META_INODE sample_inode) 0 = 9"
proof -
  have env: "INODE_HEADER_SIZE demo_env = 48" "ino_off_uMode demo_env = 40"
    by (simp_all add: ino_offsets node_offsets demo_env_def)
  have len: "length sample_inode = 128" by (simp add: sample_inode_def env)
  have "slice 0 4 sample_inode = slice 0 4 (put32 0 META_SIG_INODE (replicate 128 0))"
    by (simp add: sample_inode_def env slice_put)
  then have "get32 0 sample_inode = get32 0 (put32 0 META_SIG_INODE (replicate 128 0))" by (simp add: get_slice(2))
  then have sig: "hdr_ulSignature sample_inode = META_SIG_INODE" by (simp add: hdr_ulSignature_def node_offsets get_put_same)
  have ptr: "get32 48 sample_inode = 9" by (simp add: sample_inode_def env get_put_same)
  have entries: "0 < unat (INODE_ENTRIES demo_env)" by (simp add: INODE_ENTRIES_def env)
  have "node_entry (INODE_HEADER_SIZE demo_env) (end_swapped META_SIG_INODE sample_inode) sample_inode 0 = 9"
    using native_not_swapped [of META_SIG_INODE sample_inode] sig by (simp add: node_entry_def META_SIGS_def env ptr)
  then show ?thesis
    using iterator_reads_either_byte_order [OF demo_env_ok, of sample_inode BFLAG_META_INODE False] len sig entries
    by (simp add: META_SIGS_def bflag_values)
qed

end
