(* ===== verification/Red_ToolCmn.thy ===== *)
theory Red_ToolCmn
  imports Red_Core Red_CritOut
begin

text \<open>
  The utilities that the host tools share, \<^verbatim>\<open>tools/toolcmn.c\<close>: the volume that a string of the command line means, as
  a number or as a path prefix, and the question to the user. The standard input is the function of the characters that
  the calls of \<^verbatim>\<open>getchar\<close> return, with \<open>EOF\<close> for ever after its end. The C library's
  \<^verbatim>\<open>strcmp\<close> gives zero exactly where \<open>RedStrCmp\<close> does.
\<close>

section \<open>Volume numbers\<close>

definition ISDIGIT :: "u8 \<Rightarrow> bool" where
  "ISDIGIT c \<longleftrightarrow> c \<ge> 0x30 \<and> c \<le> 0x39"

definition UINT32_MAX :: u32 where "UINT32_MAX = 0xFFFFFFFF"

text \<open>The loop over the digits; the value and the index at its end.\<close>

partial_function (option) digit_loop :: "u8 \<Rightarrow> cstr \<Rightarrow> u32 \<Rightarrow> u32 \<Rightarrow> (u32 \<times> u32) option" where
  "digit_loop bVolCount pszNum ulIdx ulValue =
     (if ISDIGIT (pszNum ulIdx) then
        let ulValue = ulValue * 10 + (ucast (pszNum ulIdx) - 0x30); ulIdx = ulIdx + 1 in
        if ulValue \<ge> ucast bVolCount then Some (UINT32_MAX, ulIdx) else digit_loop bVolCount pszNum ulIdx ulValue
      else Some (ulValue, ulIdx))"

declare digit_loop.simps [code]

definition RedAsVolumeNumber :: "'d env \<Rightarrow> cstr \<Rightarrow> u32 option" where
  "RedAsVolumeNumber E pszNum =
     map_option (\<lambda>(ulValue, ulIdx). if ulIdx = 0 \<or> pszNum ulIdx \<noteq> 0 then UINT32_MAX else ulValue)
       (digit_loop (REDCONF_VOLUME_COUNT E) pszNum 0 0)"

text \<open>The first volume with the prefix, of those in the list.\<close>

fun prefix_index :: "'d env \<Rightarrow> cstr \<Rightarrow> nat list \<Rightarrow> nat option option" where
  "prefix_index E pszVolume [] = Some None"
| "prefix_index E pszVolume (bIndex # ks) =
     (case RedStrCmp (Some (path_prefix E bIndex)) (Some pszVolume) of
        None \<Rightarrow> None
      | Some r \<Rightarrow> if r = 0 then Some (Some bIndex) else prefix_index E pszVolume ks)"

definition RedFindVolumeNumber :: "'d env \<Rightarrow> cstr \<Rightarrow> u8 option" where
  "RedFindVolumeNumber E pszVolume =
     Option.bind (RedAsVolumeNumber E pszVolume) (\<lambda>ulNumber.
     let bVolNum = (if ulNumber \<noteq> UINT32_MAX then ucast ulNumber else REDCONF_VOLUME_COUNT E) in
     if REDCONF_API_POSIX E then
       map_option (\<lambda>found. case found of None \<Rightarrow> bVolNum | Some bIndex \<Rightarrow> word_of_nat bIndex)
         (prefix_index E pszVolume [0..<unat (REDCONF_VOLUME_COUNT E)])
     else Some bVolNum)"

section \<open>The question to the user\<close>

definition EOF_CHAR :: int where "EOF_CHAR = -1"
definition CHAR_NEWLINE :: int where "CHAR_NEWLINE = 10"

text \<open>The rest of a line is read; the number of the next call of \<^verbatim>\<open>getchar\<close> and the character are passed on.\<close>

partial_function (option) skip_line :: "(nat \<Rightarrow> int) \<Rightarrow> nat \<Rightarrow> int \<Rightarrow> nat option" where
  "skip_line getchar k iChar = (if iChar \<noteq> CHAR_NEWLINE then skip_line getchar (k + 1) (getchar k) else Some k)"

partial_function (option) confirm_loop :: "(nat \<Rightarrow> int) \<Rightarrow> nat \<Rightarrow> (int \<times> nat) option" where
  "confirm_loop getchar k =
     (let iAnswer = getchar k in
      Option.bind (skip_line getchar (k + 1) iAnswer) (\<lambda>k.
      if iAnswer = 0x79 \<or> iAnswer = 0x59 \<or> iAnswer = 0x6E \<or> iAnswer = 0x4E then Some (iAnswer, k)
      else confirm_loop getchar k))"

declare skip_line.simps [code] confirm_loop.simps [code]

definition RedConfirmOperation :: "(nat \<Rightarrow> int) \<Rightarrow> nat \<Rightarrow> (bool \<times> nat) option" where
  "RedConfirmOperation getchar k =
     map_option (\<lambda>(iAnswer, k). (iAnswer = 0x79 \<or> iAnswer = 0x59, k)) (confirm_loop getchar k)"

section \<open>The decimal value of a string\<close>

definition decimal :: "bytes \<Rightarrow> nat" where
  "decimal = foldl (\<lambda>v d. v * 10 + (unat d - 48)) 0"

lemma decimal_Nil [simp]: "decimal [] = 0"
  by (simp add: decimal_def)

lemma decimal_snoc [simp]: "decimal (xs @ [d]) = decimal xs * 10 + (unat d - 48)"
  by (simp add: decimal_def)

lemma decimal_prefix: "decimal (take k xs) \<le> decimal xs"
proof (induction xs rule: rev_induct)
  case (snoc d xs)
  have "decimal (take k xs) \<le> decimal (xs @ [d])" using snoc by simp
  then show ?case by (cases "k \<le> length xs") simp_all
qed simp

declare u32_digits.simps [simp del]

lemma u32_digits_nonempty: "u32_digits n \<noteq> []"
  by (subst u32_digits.simps) simp

lemma u32_digits_digit: "c \<in> set (u32_digits n) \<Longrightarrow> ISDIGIT c"
proof (induction n rule: u32_digits.induct)
  case (1 n)
  have u: "unat (word_of_nat k :: u8) = k" if "k < 2 ^ 8" for k using that by (simp add: unat_of_nat)
  have b: "48 + n mod 10 < 2 ^ 8" "48 + n mod 10 \<le> 57" using mod_less_divisor [of 10 n] by simp_all
  have "ISDIGIT (word_of_nat (48 + n mod 10))"
    unfolding ISDIGIT_def word_le_nat_alt u [OF b(1)] using b(2) by simp
  moreover have "c = word_of_nat (48 + n mod 10) \<or> n div 10 > 0 \<and> c \<in> set (u32_digits (n div 10))"
    using 1(2) by (subst (asm) u32_digits.simps) (simp split: if_splits)
  ultimately show ?case using 1(1) by blast
qed

lemma decimal_digits: "decimal (rev ds) = digits_value ds"
  by (induction ds) simp_all

text \<open>The text of a volume number: digits only, at least one, and a value below the number of volumes.\<close>

definition is_number :: "'d env \<Rightarrow> bytes \<Rightarrow> bool" where
  "is_number E bs \<longleftrightarrow> bs \<noteq> [] \<and> (\<forall>c \<in> set bs. ISDIGIT c) \<and> decimal bs < unat (REDCONF_VOLUME_COUNT E)"

lemma u8_less: "unat (c :: u8) < 256"
  by (rule order.strict_trans2 [OF unsigned_less]) simp

lemma digit_value: "ISDIGIT c \<Longrightarrow> unat (ucast c - 0x30 :: u32) = unat c - 48 \<and> unat c - 48 \<le> 9"
proof -
  assume d: "ISDIGIT c"
  then have c: "48 \<le> unat c" "unat c \<le> 57" by (simp_all add: ISDIGIT_def word_le_nat_alt)
  have u: "unat (ucast c :: u32) = unat c"
    using unsigned_less [of c, where 'a = nat] by (simp add: unsigned_ucast_eq take_bit_nat_eq_self)
  then have "unat (ucast c - 0x30 :: u32) = unat c - 48" using c by (simp add: unat_sub word_le_nat_alt)
  with c show ?thesis by simp
qed
definition number_status :: "u8 \<Rightarrow> bytes \<Rightarrow> u32" where
  "number_status n bs =
     (if bs \<noteq> [] \<and> (\<forall>c \<in> set bs. ISDIGIT c) \<and> decimal bs < unat n then word_of_nat (decimal bs) else UINT32_MAX)"

lemma digit_step:
  assumes "ISDIGIT c" and "v < 256"
  shows "word_of_nat v * 10 + (ucast c - 0x30) = (word_of_nat (v * 10 + (unat c - 48)) :: u32)"
proof -
  have "word_of_nat (unat (ucast c - 0x30 :: u32)) = (word_of_nat (unat c - 48) :: u32)"
    using digit_value [OF assms(1)] by simp
  then show ?thesis by simp
qed

lemma digit_loop_result:
  assumes str: "str_is s bs" and "k \<le> length bs" and "\<forall>c \<in> set (take k bs). ISDIGIT c" and "decimal (take k bs) < unat n"
  shows "\<exists>v i. digit_loop n s (word_of_nat k) (word_of_nat (decimal (take k bs))) = Some (v, i) \<and>
    (if i = 0 \<or> s i \<noteq> 0 then UINT32_MAX else v) = number_status n bs"
  using assms(2-)
proof (induction "length bs - k" arbitrary: k)
  case 0
  then have k: "k = length bs" by simp
  have end': "\<not> ISDIGIT (s (word_of_nat (length bs)))" "s (word_of_nat (length bs)) = 0"
    using str_is_end [OF str] by (simp_all add: ISDIGIT_def)
  have "(word_of_nat (length bs) :: u32) = 0 \<longleftrightarrow> bs = []"
    using str_is_length [OF str] by (auto simp: word_of_nat_eq_0_iff dest: nat_dvd_not_less)
  then show ?case using end' 0(3,4) k by (subst digit_loop.simps) (simp add: number_status_def)
next
  case (Suc d)
  then have k: "k < length bs" by simp
  let ?c = "bs ! k" and ?v = "decimal (take k bs)"
  have c: "s (word_of_nat k) = ?c" "?c \<noteq> 0" using str_is_nth [OF str k] str_is_nonzero [OF str k] by simp_all
  have next': "take (Suc k) bs = take k bs @ [?c]" using k by (rule take_Suc_conv_app_nth)
  show ?case
  proof (cases "ISDIGIT ?c")
    case False
    have "?c \<in> set bs" using k by simp
    with False have "number_status n bs = UINT32_MAX" by (auto simp: number_status_def)
    then show ?thesis using False c by (subst digit_loop.simps) simp
  next
    case True
    have v: "?v < 256" using Suc.prems(3) u8_less [of n] by linarith
    let ?v' = "decimal (take (Suc k) bs)"
    have v': "?v' = ?v * 10 + (unat ?c - 48)" by (simp add: next')
    have step: "word_of_nat ?v * 10 + (ucast ?c - 0x30) = (word_of_nat ?v' :: u32)"
      using digit_step [OF True v] by (simp only: v')
    have "?v' < 2 ^ 32" using v digit_value [OF True] by (simp add: v')
    then have u: "unat (word_of_nat ?v' :: u32) = ?v'" by (simp add: unat_of_nat)
    have un: "unat (ucast n :: u32) = unat n" using u8_less [of n] by (simp add: unsigned_ucast_eq take_bit_nat_eq_self)
    have idx: "word_of_nat k + 1 = (word_of_nat (Suc k) :: u32)" by simp
    show ?thesis
    proof (cases "?v' < unat n")
      case True
      moreover have "\<forall>c \<in> set (take (Suc k) bs). ISDIGIT c" using Suc.prems(2) \<open>ISDIGIT ?c\<close> by (simp add: next')
      ultimately have "\<exists>v i. digit_loop n s (word_of_nat (Suc k)) (word_of_nat ?v') = Some (v, i) \<and>
          (if i = 0 \<or> s i \<noteq> 0 then UINT32_MAX else v) = number_status n bs"
        using Suc.hyps(2) k by (intro Suc.hyps(1)) simp_all
      then show ?thesis
        using True \<open>ISDIGIT ?c\<close> u un by (subst digit_loop.simps) (simp only: c step idx Let_def if_True word_le_nat_alt not_le [symmetric] if_False simp_thms)
    next
      case False
      then have "\<not> decimal bs < unat n" using decimal_prefix [of "Suc k" bs] by simp
      then have "number_status n bs = UINT32_MAX" by (simp add: number_status_def)
      then show ?thesis
        using False \<open>ISDIGIT ?c\<close> u un by (subst digit_loop.simps) (simp only: c step idx Let_def if_True word_le_nat_alt not_less simp_thms option.inject prod.inject, auto)
    qed
  qed
qed

lemma as_volume_number:
  assumes "str_is s bs" and "REDCONF_VOLUME_COUNT E > 0"
  shows "RedAsVolumeNumber E s = Some (number_status (REDCONF_VOLUME_COUNT E) bs)"
  using digit_loop_result [OF assms(1), of 0 "REDCONF_VOLUME_COUNT E"] assms(2)
  by (auto simp: RedAsVolumeNumber_def word_less_nat_alt)

section \<open>Prefixes\<close>

text \<open>The prefixes of the volumes are terminated strings.\<close>

definition prefixes_ok :: "'d env \<Rightarrow> (nat \<Rightarrow> bytes) \<Rightarrow> bool" where
  "prefixes_ok E f \<longleftrightarrow> (\<forall>k < unat (REDCONF_VOLUME_COUNT E). str_is (path_prefix E k) (f k))"

lemma prefix_index_find:
  assumes "str_is s bs" and "\<forall>k \<in> set ks. str_is (path_prefix E k) (f k)"
  shows "prefix_index E s ks = Some (find (\<lambda>k. f k = bs) ks)"
  using assms(2)
proof (induction ks)
  case (Cons k ks)
  have "RedStrCmp (Some (path_prefix E k)) (Some s) = Some (byte_order (f k) bs)" "byte_order (f k) bs = 0 \<longleftrightarrow> f k = bs"
    using strcmp_is_byte_order [of "path_prefix E k" "f k" s bs] assms(1) Cons.prems by simp_all
  then show ?case using Cons by simp
qed simp
section \<open>Answers\<close>

text \<open>A line that ends is read to its end.\<close>

lemma skip_line_ends:
  assumes "\<forall>i < n. getchar (k + i) \<noteq> CHAR_NEWLINE" and "getchar (k + n) = CHAR_NEWLINE"
  shows "skip_line getchar (k + 1) (getchar k) = Some (k + n + 1)"
  using assms
proof (induction n arbitrary: k)
  case 0
  then show ?case by (subst skip_line.simps) simp
next
  case (Suc n)
  have "getchar k \<noteq> CHAR_NEWLINE" using Suc.prems(1) [rule_format, of 0] by simp
  moreover have "\<forall>i < n. getchar (k + 1 + i) \<noteq> CHAR_NEWLINE"
  proof (intro allI impI)
    fix i
    assume "i < n"
    then show "getchar (k + 1 + i) \<noteq> CHAR_NEWLINE" using Suc.prems(1) [rule_format, of "Suc i"] by simp
  qed
  moreover have "getchar (k + 1 + n) = CHAR_NEWLINE" using Suc.prems(2) by simp
  ultimately show ?case using Suc.IH [of "k + 1"] by (subst skip_line.simps) simp
qed

lemma skip_line_none:
  assumes "skip_line getchar k c = Some j"
  shows "\<exists>i \<ge> k. c = CHAR_NEWLINE \<or> getchar i = CHAR_NEWLINE"
proof (rule skip_line.raw_induct [of "\<lambda>getchar k c j. \<exists>i \<ge> k. c = CHAR_NEWLINE \<or> getchar i = CHAR_NEWLINE", OF _ assms])
  fix f and getchar :: "nat \<Rightarrow> int" and k :: nat and c j
  assume ih: "\<And>getchar (k :: nat) c j. f getchar k c = Some j \<Longrightarrow> \<exists>i \<ge> k. c = CHAR_NEWLINE \<or> getchar i = CHAR_NEWLINE"
    and eq: "(if c \<noteq> CHAR_NEWLINE then f getchar (k + 1) (getchar k) else Some k) = Some j"
  show "\<exists>i \<ge> k. c = CHAR_NEWLINE \<or> getchar i = CHAR_NEWLINE"
  proof (cases "c = CHAR_NEWLINE")
    case False
    with eq have "f getchar (k + 1) (getchar k) = Some j" by simp
    from ih [OF this] obtain i where i: "k + 1 \<le> i" "getchar k = CHAR_NEWLINE \<or> getchar i = CHAR_NEWLINE" by blast
    then have "k \<le> i" by simp
    then show ?thesis using i(2) by blast
  qed blast
qed

lemma confirm_loop_line:
  assumes "confirm_loop getchar k = Some q"
  shows "\<exists>i \<ge> k. getchar i = CHAR_NEWLINE"
proof -
  obtain j where "skip_line getchar (k + 1) (getchar k) = Some j"
    using assms by (subst (asm) confirm_loop.simps) (auto simp: Let_def bind_eq_Some_conv)
  from skip_line_none [OF this] obtain i where i: "k + 1 \<le> i" "getchar k = CHAR_NEWLINE \<or> getchar i = CHAR_NEWLINE" by blast
  then have "k \<le> i" by simp
  then show ?thesis using i(2) by blast
qed

text \<open>The first characters of the lines before the answer are none of the four letters.\<close>

definition is_answer :: "int \<Rightarrow> bool" where
  "is_answer c \<longleftrightarrow> c = 0x79 \<or> c = 0x59 \<or> c = 0x6E \<or> c = 0x4E"

fun lines_at :: "(nat \<Rightarrow> int) \<Rightarrow> nat \<Rightarrow> int list list \<Rightarrow> bool" where
  "lines_at getchar k [] = True"
| "lines_at getchar k (l # ls) =
     ((\<forall>i < length l. getchar (k + i) = l ! i \<and> l ! i \<noteq> CHAR_NEWLINE) \<and> getchar (k + length l) = CHAR_NEWLINE \<and>
      lines_at getchar (k + length l + 1) ls)"

definition line_start :: "int list \<Rightarrow> int" where
  "line_start l = (case l of [] \<Rightarrow> CHAR_NEWLINE | c # _ \<Rightarrow> c)"

lemma confirm_loop_lines:
  assumes "lines_at getchar k (ls @ [l])" and "\<forall>x \<in> set ls. \<not> is_answer (line_start x)" and "is_answer (line_start l)"
  shows "confirm_loop getchar k = Some (line_start l, k + length (concat ls) + length ls + length l + 1)"
  using assms
proof (induction ls arbitrary: k)
  case Nil
  have "getchar k = line_start l" using Nil.prems(1,3) by (cases l) (auto simp: line_start_def is_answer_def CHAR_NEWLINE_def)
  moreover have "skip_line getchar (k + 1) (getchar k) = Some (k + length l + 1)"
    by (rule skip_line_ends) (use Nil.prems(1) in auto)
  ultimately show ?case using Nil.prems(3) by (subst confirm_loop.simps) (simp add: Let_def is_answer_def)
next
  case (Cons x ls)
  have start: "getchar k = line_start x" using Cons.prems(1) by (cases x) (auto simp: line_start_def)
  have "skip_line getchar (k + 1) (getchar k) = Some (k + length x + 1)"
    by (rule skip_line_ends) (use Cons.prems(1) in auto)
  moreover have "\<not> is_answer (getchar k)" using Cons.prems(2) start by simp
  moreover have "confirm_loop getchar (k + length x + 1) =
      Some (line_start l, k + length x + 1 + length (concat ls) + length ls + length l + 1)"
    by (rule Cons.IH) (use Cons.prems in auto)
  ultimately show ?case by (subst confirm_loop.simps) (simp add: Let_def is_answer_def)
qed

section \<open>Properties\<close>

text \<open>C33. A volume is found by its prefix first, then by its number: the first volume whose prefix is the string, else the volume
  whose number the string is in decimal, digits only and below the number of volumes, else the number of volumes itself, which
  is the answer for an error. So the number that the driver prints for a volume is read back as it.\<close>

theorem find_volume_number:
  assumes "str_is s bs" and "REDCONF_VOLUME_COUNT E > 0" and "prefixes_ok E f"
  shows "RedFindVolumeNumber E s = Some
     (case (if REDCONF_API_POSIX E then find (\<lambda>k. f k = bs) [0..<unat (REDCONF_VOLUME_COUNT E)] else None) of
        Some k \<Rightarrow> word_of_nat k
      | None \<Rightarrow> if is_number E bs then word_of_nat (decimal bs) else REDCONF_VOLUME_COUNT E) \<and>
    (\<forall>v < unat (REDCONF_VOLUME_COUNT E). bs = rev (u32_digits v) \<longrightarrow> is_number E bs \<and> decimal bs = v)"
proof
  let ?n = "REDCONF_VOLUME_COUNT E"
  have "decimal bs < 256" if "is_number E bs" using that u8_less [of ?n] unfolding is_number_def by linarith
  then have ne: "(word_of_nat (decimal bs) :: u32) \<noteq> UINT32_MAX" "ucast (word_of_nat (decimal bs) :: u32) = (word_of_nat (decimal bs) :: u8)"
    if "is_number E bs" using that by (auto simp: UINT32_MAX_def word_unat_eq_iff unat_of_nat unsigned_ucast_eq take_bit_nat_eq_self)
  have num: "number_status ?n bs = (if is_number E bs then word_of_nat (decimal bs) else UINT32_MAX)"
    by (simp add: number_status_def is_number_def)
  have "prefix_index E s [0..<unat ?n] = Some (find (\<lambda>k. f k = bs) [0..<unat ?n])"
    by (rule prefix_index_find [OF assms(1)]) (use assms(3) in \<open>simp add: prefixes_ok_def\<close>)
  then show "RedFindVolumeNumber E s = Some
     (case (if REDCONF_API_POSIX E then find (\<lambda>k. f k = bs) [0..<unat ?n] else None) of
        Some k \<Rightarrow> word_of_nat k
      | None \<Rightarrow> if is_number E bs then word_of_nat (decimal bs) else ?n)"
    using ne by (simp add: RedFindVolumeNumber_def as_volume_number [OF assms(1,2)] num Let_def split: option.split)
  show "\<forall>v < unat ?n. bs = rev (u32_digits v) \<longrightarrow> is_number E bs \<and> decimal bs = v"
  proof (intro allI impI)
    fix v
    assume v: "v < unat ?n" "bs = rev (u32_digits v)"
    then show "is_number E bs \<and> decimal bs = v"
      using u32_digits_digit [of _ v] by (simp add: is_number_def decimal_digits digits_value_u32 u32_digits_nonempty)
  qed
qed

text \<open>The question to the user is answered by the first line that begins with one of the four letters, and by nothing else; when the
  input ends before such a line, the loop that reads the rest of a line never ends.\<close>

theorem confirm_answers:
  assumes "is_answer (line_start l)"
  shows "(lines_at getchar k (ls @ [l]) \<and> (\<forall>x \<in> set ls. \<not> is_answer (line_start x)) \<longrightarrow>
       RedConfirmOperation getchar k =
         Some (line_start l = 0x79 \<or> line_start l = 0x59, k + length (concat ls) + length ls + length l + 1)) \<and>
    ((\<forall>i \<ge> k. getchar i = EOF_CHAR) \<longrightarrow> RedConfirmOperation getchar k = None)"
proof (intro conjI impI)
  assume "lines_at getchar k (ls @ [l]) \<and> (\<forall>x \<in> set ls. \<not> is_answer (line_start x))"
  then show "RedConfirmOperation getchar k =
      Some (line_start l = 0x79 \<or> line_start l = 0x59, k + length (concat ls) + length ls + length l + 1)"
    using confirm_loop_lines [of getchar k ls l] assms by (simp add: RedConfirmOperation_def)
next
  assume "\<forall>i \<ge> k. getchar i = EOF_CHAR"
  then show "RedConfirmOperation getchar k = None"
    using confirm_loop_line [of getchar k] by (cases "confirm_loop getchar k") (auto simp: RedConfirmOperation_def EOF_CHAR_def CHAR_NEWLINE_def)
qed
theorem find_volume_number_witness: "RedFindVolumeNumber demo_env (\<lambda>i. if i = 0 then 0x30 else 0) = Some 0"
proof -
  have "str_is (\<lambda>i. if i = 0 then 0x30 else 0) [0x30]" by (auto simp: str_is_def)
  moreover have "prefixes_ok demo_env (\<lambda>_. [])"
    by (simp add: prefixes_ok_def str_is_def path_prefix_def cstr_at_def demo_volconf_def)
  ultimately show ?thesis
    using find_volume_number [of "\<lambda>i. if i = 0 then 0x30 else 0" "[0x30]" demo_env "\<lambda>_. []"]
    by (simp add: is_number_def ISDIGIT_def decimal_def)
qed

text \<open>The lines \<open>x\<close> and \<open>y\<close>, and the end of the input.\<close>

definition sample_input :: "nat \<Rightarrow> int" where
  "sample_input i = (if i = 0 then 0x78 else if i = 1 then 10 else if i = 2 then 0x79 else if i = 3 then 10 else EOF_CHAR)"

theorem confirm_answers_witness:
  "RedConfirmOperation sample_input 0 = Some (True, 4) \<and> RedConfirmOperation sample_input 4 = None"
  using confirm_answers [of "[0x79]" sample_input 0 "[[0x78]]"] confirm_answers [of "[0x79]" sample_input 4 "[]"]
  by (simp add: is_answer_def line_start_def sample_input_def CHAR_NEWLINE_def)

end
