(* ===== verification/Red_Fuse.thy ===== *)
theory Red_Fuse
  imports Red_PosixReach Red_ToolCmn
begin

text \<open>
  The FUSE port of the driver, \<^verbatim>\<open>tools/fuse.c\<close>: the callbacks that the kernel of the host calls, as operations on the
  state of the POSIX-like interface. The state adds the two static variables that \<^verbatim>\<open>main\<close> sets. What the host
  decides is the record \<open>host\<close>: the values of its error numbers and open flags, the size of a path buffer, the widths of
  its types, the user of the current request, and whether \<^verbatim>\<open>strdup\<close> finds memory. A callback returns zero or a count,
  or the negative error number of the host. A failed \<^verbatim>\<open>assert\<close> ends the program: there is no outcome. The mutex
  makes each callback one step, so it is not part of the state. \<^verbatim>\<open>red_format\<close> is compiled in, and a path has
  fewer than \<^verbatim>\<open>INT_MAX\<close> characters, so that the result of \<^verbatim>\<open>snprintf\<close> is its length.
\<close>

declare split_paired_Ex [simp del]

section \<open>The host\<close>

datatype hosterr =
    EPERM | ENOENT | EIO | EBADF | ENOMEM | EBUSY | EEXIST | EXDEV | ENOTDIR | EISDIR | EINVAL | ENFILE | EMFILE
  | EFBIG | ENOSPC | EROFS | EMLINK | ERANGE | ENAMETOOLONG | ENOSYS | ENOTEMPTY | ELOOP | ENODATA | ENOLINK | EUSERS | EACCES

record host =
  host_errno :: "hosterr \<Rightarrow> int"
  on_linux :: bool
  on_win32 :: bool
  PATH_MAX :: u32
  O_RDONLY :: u32
  O_WRONLY :: u32
  O_RDWR :: u32
  O_CREAT :: u32
  O_TRUNC :: u32
  O_EXCL :: u32
  O_APPEND :: u32
  sizeof_tv_sec :: nat
  sizeof_long :: nat
  fuse_context :: "(u32 \<times> u32) option"
  strdup_succeeds :: "cstr \<Rightarrow> bool"

definition fails_with :: "host \<Rightarrow> hosterr \<Rightarrow> int" where
  "fails_with H e = - host_errno H e"

definition rederrno_to_errno :: "host \<Rightarrow> int \<Rightarrow> int" where
  "rederrno_to_errno H rederrno =
     (if rederrno = 0 then 0
      else if rederrno = errno RED_EPERM then fails_with H EPERM
      else if rederrno = errno RED_ENOENT then fails_with H ENOENT
      else if rederrno = errno RED_EIO then fails_with H EIO
      else if rederrno = errno RED_EBADF then fails_with H EBADF
      else if rederrno = errno RED_ENOMEM then fails_with H ENOMEM
      else if rederrno = errno RED_EBUSY then fails_with H EBUSY
      else if rederrno = errno RED_EEXIST then fails_with H EEXIST
      else if rederrno = errno RED_EXDEV then fails_with H EXDEV
      else if rederrno = errno RED_ENOTDIR then fails_with H ENOTDIR
      else if rederrno = errno RED_EISDIR then fails_with H EISDIR
      else if rederrno = errno RED_EINVAL then fails_with H EINVAL
      else if rederrno = errno RED_ENFILE then fails_with H ENFILE
      else if rederrno = errno RED_EMFILE then fails_with H EMFILE
      else if rederrno = errno RED_EFBIG then fails_with H EFBIG
      else if rederrno = errno RED_ENOSPC then fails_with H ENOSPC
      else if rederrno = errno RED_EROFS then fails_with H EROFS
      else if rederrno = errno RED_EMLINK then fails_with H EMLINK
      else if rederrno = errno RED_ERANGE then fails_with H ERANGE
      else if rederrno = errno RED_ENAMETOOLONG then fails_with H ENAMETOOLONG
      else if rederrno = errno RED_ENOSYS then fails_with H ENOSYS
      else if rederrno = errno RED_ENOTEMPTY then fails_with H ENOTEMPTY
      else if rederrno = errno RED_ELOOP then fails_with H ELOOP
      else if rederrno = errno RED_ENODATA then fails_with H ENODATA
      else if rederrno = errno RED_ENOLINK then fails_with H ENOLINK
      else if rederrno = errno RED_EUSERS then fails_with H (if on_win32 H then EBUSY else EUSERS)
      else fails_with H EINVAL)"

definition flags_to_redflags :: "host \<Rightarrow> u32 \<Rightarrow> u32" where
  "flags_to_redflags H flags =
     (if flags AND O_WRONLY H \<noteq> 0 then RED_O_WRONLY
      else if flags AND O_RDWR H \<noteq> 0 then RED_O_RDWR
      else RED_O_RDONLY) OR
     (if flags AND O_CREAT H \<noteq> 0 then RED_O_CREAT else 0) OR
     (if flags AND O_TRUNC H \<noteq> 0 then RED_O_TRUNC else 0) OR
     (if flags AND O_EXCL H \<noteq> 0 then RED_O_EXCL else 0) OR
     (if flags AND O_APPEND H \<noteq> 0 then RED_O_APPEND else 0)"

definition RED_ROOT_USER :: u32 where "RED_ROOT_USER = 0"

text \<open>The user of the request, which the driver asks for in place of the services of the host.\<close>

definition fuse_RedOsUserId :: "host \<Rightarrow> u32" where
  "fuse_RedOsUserId H = (case fuse_context H of Some (uid, _) \<Rightarrow> uid | None \<Rightarrow> RED_ROOT_USER)"

definition fuse_RedOsGroupId :: "host \<Rightarrow> u32" where
  "fuse_RedOsGroupId H = (case fuse_context H of Some (_, gid) \<Rightarrow> gid | None \<Rightarrow> 0)"

definition fuse_RedOsIsGroupMember :: "host \<Rightarrow> u32 \<Rightarrow> bool" where
  "fuse_RedOsIsGroupMember H ulGid \<longleftrightarrow> fuse_RedOsGroupId H = ulGid"

section \<open>Paths\<close>

text \<open>The loop over the characters of an array, which must not leave the array.\<close>

partial_function (option) string_replace_from :: "nat \<Rightarrow> u8 \<Rightarrow> u8 \<Rightarrow> bytes \<Rightarrow> nat \<Rightarrow> bytes option" where
  "string_replace_from nMax cFind cReplace pszStr nIdx =
     (if nIdx < nMax then
        if nIdx \<ge> length pszStr then None
        else if pszStr ! nIdx = 0 then Some pszStr
        else string_replace_from nMax cFind cReplace
          (if pszStr ! nIdx = cFind then pszStr[nIdx := cReplace] else pszStr) (nIdx + 1)
      else Some pszStr)"

declare string_replace_from.simps [code]

definition string_replace :: "bytes \<Rightarrow> nat \<Rightarrow> u8 \<Rightarrow> u8 \<Rightarrow> bytes option" where
  "string_replace pszStr nMax cFind cReplace = string_replace_from nMax cFind cReplace pszStr 0"

definition SIZE_MAX :: nat where "SIZE_MAX = 2 ^ 64 - 1"

text \<open>A copy on the heap, or a null pointer.\<close>

definition string_copy_replace :: "host \<Rightarrow> cstr \<Rightarrow> u8 \<Rightarrow> u8 \<Rightarrow> bytes option option" where
  "string_copy_replace H pszStr cFind cReplace =
     Option.bind (RedStrLen (Some pszStr)) (\<lambda>n.
     if strdup_succeeds H pszStr
     then map_option Some (string_replace (str_bytes pszStr n @ [0]) SIZE_MAX cFind cReplace)
     else Some None)"

definition SLASH :: u8 where "SLASH = 0x2F"

text \<open>The path for the driver, when the separators differ a copy, or the error number when there is no memory for it.\<close>

definition with_separators :: "host \<Rightarrow> 'd env \<Rightarrow> cstr \<Rightarrow> (int + cstr) option" where
  "with_separators H E pszPath =
     (if REDCONF_PATH_SEPARATOR E \<noteq> SLASH then
        map_option (\<lambda>copy. case copy of None \<Rightarrow> Inl (fails_with H ENOMEM) | Some b \<Rightarrow> Inr (cstr_at b 0))
          (string_copy_replace H pszPath SLASH (REDCONF_PATH_SEPARATOR E))
      else Some (Inr pszPath))"

definition red_make_full_path :: "host \<Rightarrow> 'd env \<Rightarrow> cstr \<Rightarrow> cstr \<Rightarrow> (int + cstr) option" where
  "red_make_full_path H E pszVolume pszPath =
     Option.bind (with_separators H E pszPath) (\<lambda>path.
     case path of
       Inl e \<Rightarrow> Some (Inl e)
     | Inr pszPath \<Rightarrow>
         let pszPathSep = (if pszPath 0 = REDCONF_PATH_SEPARATOR E then [] else [REDCONF_PATH_SEPARATOR E]) in
         Option.bind (RedStrLen (Some pszVolume)) (\<lambda>n.
         Option.bind (RedStrLen (Some pszPath)) (\<lambda>m.
         let text = str_bytes pszVolume n @ pszPathSep @ str_bytes pszPath m in
         if int (length text) \<ge> sint (PATH_MAX H) then Some (Inl (fails_with H ENAMETOOLONG))
         else Some (Inr (cstr_at (text @ [0]) 0)))))"

section \<open>The state and what the callbacks share\<close>

record 'd fuse =
  fuse_posix :: "'d posix"
  gbVolume :: u8
  gpszVolume :: cstr

type_synonym ('d, 'a) fop = "'d fuse \<Rightarrow> ('a \<times> 'd fuse) option"

definition retF :: "'a \<Rightarrow> ('d, 'a) fop" where
  "retF v = (\<lambda>x. Some (v, x))"

definition bindF :: "('d, 'a) fop \<Rightarrow> ('a \<Rightarrow> ('d, 'b) fop) \<Rightarrow> ('d, 'b) fop" where
  "bindF f g = (\<lambda>x. case f x of None \<Rightarrow> None | Some (v, y) \<Rightarrow> g v y)"

definition posixF :: "('d, 'a) pop \<Rightarrow> ('d, rederr + 'a) fop" where
  "posixF f = (\<lambda>x. case f (fuse_posix x) of None \<Rightarrow> None | Some (r, p) \<Rightarrow> Some (r, x\<lparr>fuse_posix := p\<rparr>))"

fun load_errno :: "errno_ptr \<Rightarrow> 'd posix \<Rightarrow> int" where
  "load_errno GLOBAL_ERRNO x = iGlobalErrno x"
| "load_errno (TASK_ERRNO i) x = ts_iErrno (gaTask x i)"

text \<open>The macro \<^verbatim>\<open>red_errno\<close>, read and assigned.\<close>

definition red_errno :: "'d env \<Rightarrow> ('d, int) fop" where
  "red_errno E = (\<lambda>x. case red_errnoptr E (fuse_posix x) of (p, y) \<Rightarrow> Some (load_errno p y, x\<lparr>fuse_posix := y\<rparr>))"

definition set_red_errno :: "'d env \<Rightarrow> int \<Rightarrow> ('d, unit) fop" where
  "set_red_errno E e = (\<lambda>x. case red_errnoptr E (fuse_posix x) of (p, y) \<Rightarrow> Some ((), x\<lparr>fuse_posix := store_errno p e y\<rparr>))"

definition errno_result :: "host \<Rightarrow> 'd env \<Rightarrow> ('d, int) fop" where
  "errno_result H E = bindF (red_errno E) (\<lambda>e. retF (rederrno_to_errno H e))"

text \<open>Zero, or the error of a call of the interface that failed.\<close>

definition status_of :: "host \<Rightarrow> 'd env \<Rightarrow> ('d, 'a) pop \<Rightarrow> ('d, int) fop" where
  "status_of H E f = bindF (posixF f) (\<lambda>r. if is_ok r then retF 0 else errno_result H E)"

definition on_full_path :: "host \<Rightarrow> 'd env \<Rightarrow> cstr \<Rightarrow> (cstr \<Rightarrow> ('d, int) fop) \<Rightarrow> ('d, int) fop" where
  "on_full_path H E pszPath f = (\<lambda>x.
     case red_make_full_path H E (gpszVolume x) pszPath of
       None \<Rightarrow> None
     | Some (Inl result) \<Rightarrow> Some (result, x)
     | Some (Inr szRedPath) \<Rightarrow> f szRedPath x)"

text \<open>A descriptor, or minus one.\<close>

definition fd_or_minus_one :: "rederr + int \<Rightarrow> int" where
  "fd_or_minus_one r = (case r of Inl _ \<Rightarrow> -1 | Inr fd \<Rightarrow> fd)"

definition open_mode :: "u32 \<Rightarrow> u16" where
  "open_mode mode = ucast mode AND RED_S_IALLUGO"

definition open_nofollow :: "host \<Rightarrow> 'd env \<Rightarrow> cstr \<Rightarrow> u32 \<Rightarrow> u32 \<Rightarrow> ('d, int) fop" where
  "open_nofollow H E szRedPath flags mode =
     (let ulOpenFlags = flags_to_redflags H flags OR RED_O_NOFOLLOW in
      bindF (posixF (if REDCONF_POSIX_OWNER_PERM E then red_open2 E (Some szRedPath) ulOpenFlags (open_mode mode)
        else red_open E (Some szRedPath) ulOpenFlags)) (\<lambda>r.
      if REDCONF_API_POSIX_SYMLINK E \<and> fd_or_minus_one r = -1 then
        bindF (red_errno E) (\<lambda>e.
        if e = errno RED_ELOOP then
          bindF (posixF (red_openat E (RED_AT_FDNONE E) (Some szRedPath)
            (ulOpenFlags AND NOT RED_O_NOFOLLOW OR RED_O_SYMLINK) (open_mode mode))) (\<lambda>r. retF (fd_or_minus_one r))
        else retF (-1))
      else retF (fd_or_minus_one r)))"

definition red_local_open :: "host \<Rightarrow> 'd env \<Rightarrow> cstr \<Rightarrow> u32 \<Rightarrow> u32 \<Rightarrow> ('d, int) fop" where
  "red_local_open H E pszPath flags mode = (\<lambda>x.
     case red_make_full_path H E (gpszVolume x) pszPath of
       None \<Rightarrow> None
     | Some (Inl result) \<Rightarrow>
         bindF (set_red_errno E (errno (if result = fails_with H ENAMETOOLONG then RED_ENAMETOOLONG
             else if result = fails_with H ENOMEM then RED_ENOMEM else RED_EINVAL))) (\<lambda>_. retF (-1)) x
     | Some (Inr szRedPath) \<Rightarrow> open_nofollow H E szRedPath flags mode x)"

text \<open>The file handle that FUSE keeps is the descriptor.\<close>

record FILEINFO =
  fi_flags :: u32
  fi_fh :: u64

definition fh_of_fd :: "int \<Rightarrow> u64" where "fh_of_fd iFd = word_of_int iFd"
definition fd_of_fh :: "u64 \<Rightarrow> int" where "fd_of_fh fh = sint (ucast fh :: u32)"

section \<open>Attributes\<close>

record HOSTSTAT =
  hs_dev :: int
  hs_ino :: int
  hs_mode :: u32
  hs_nlink :: int
  hs_uid :: int
  hs_gid :: int
  hs_size :: int
  hs_atime :: int
  hs_ctime :: int
  hs_mtime :: int
  hs_blocks :: int

definition S_IFMT :: u32 where "S_IFMT = 0xF000"

definition redmode_to_mode :: "host \<Rightarrow> 'd env \<Rightarrow> u16 \<Rightarrow> u32 option" where
  "redmode_to_mode H E uRedMode =
     (let symlink = REDCONF_API_POSIX_SYMLINK E in
      if RED_S_ISDIR symlink uRedMode \<or> RED_S_ISREG symlink uRedMode \<or> symlink \<and> RED_S_ISLNK symlink uRedMode then
        if on_linux H \<and> \<not> REDCONF_POSIX_OWNER_PERM E then
          if uRedMode AND RED_S_IALLUGO = 0 then
            Some (ucast uRedMode OR
              (if ucast uRedMode AND S_IFMT = ucast RED_S_IFDIR then ucast (RED_S_IXUSR OR RED_S_IXGRP OR RED_S_IXOTH) else 0) OR
              ucast (RED_S_IRUSR OR RED_S_IRGRP OR RED_S_IROTH) OR ucast (RED_S_IWUSR OR RED_S_IWGRP OR RED_S_IWOTH))
          else None
        else Some (ucast uRedMode)
      else None)"

definition redstat_to_stat :: "host \<Rightarrow> 'd env \<Rightarrow> REDSTAT \<Rightarrow> HOSTSTAT option" where
  "redstat_to_stat H E sb =
     map_option (\<lambda>mode. \<lparr>hs_dev = uint (st_dev sb), hs_ino = uint (st_ino sb), hs_mode = mode, hs_nlink = uint (st_nlink sb),
       hs_uid = (if REDCONF_POSIX_OWNER_PERM E then uint (st_uid sb) else 0),
       hs_gid = (if REDCONF_POSIX_OWNER_PERM E then uint (st_gid sb) else 0),
       hs_size = sint (st_size sb),
       hs_atime = (if REDCONF_INODE_TIMESTAMPS E then uint (st_atime sb) else 0),
       hs_ctime = (if REDCONF_INODE_TIMESTAMPS E then uint (st_ctime sb) else 0),
       hs_mtime = (if REDCONF_INODE_TIMESTAMPS E then uint (st_mtime sb) else 0),
       hs_blocks = (if REDCONF_INODE_BLOCKS E then uint (st_blocks sb) else 0)\<rparr>)
     (redmode_to_mode H E (st_mode sb))"

text \<open>The structure is only filled where the result is zero.\<close>

definition fgetattr_sub :: "host \<Rightarrow> 'd env \<Rightarrow> FILEINFO \<Rightarrow> ('d, int \<times> HOSTSTAT option) fop" where
  "fgetattr_sub H E pFileInfo =
     bindF (posixF (red_fstat E (fd_of_fh (fi_fh pFileInfo)))) (\<lambda>r.
     case r of
       Inl _ \<Rightarrow> bindF (errno_result H E) (\<lambda>result. retF (result, None))
     | Inr sb \<Rightarrow> (\<lambda>x. case redstat_to_stat H E sb of None \<Rightarrow> None | Some st \<Rightarrow> Some ((0, Some st), x)))"

definition fuse_red_fgetattr :: "host \<Rightarrow> 'd env \<Rightarrow> FILEINFO \<Rightarrow> ('d, int \<times> HOSTSTAT option) fop" where
  "fuse_red_fgetattr H E pFileInfo = fgetattr_sub H E pFileInfo"

text \<open>The descriptor is closed; an error of that is the result unless there is one.\<close>

definition then_close :: "host \<Rightarrow> 'd env \<Rightarrow> int \<Rightarrow> int \<Rightarrow> ('d, int) fop" where
  "then_close H E iFd result =
     bindF (posixF (red_close E iFd)) (\<lambda>r. if \<not> is_ok r \<and> result = 0 then errno_result H E else retF result)"

definition fuse_red_getattr :: "host \<Rightarrow> 'd env \<Rightarrow> cstr \<Rightarrow> ('d, int \<times> HOSTSTAT option) fop" where
  "fuse_red_getattr H E pszPath =
     bindF (red_local_open H E pszPath (O_RDONLY H) 0) (\<lambda>iFd.
     if iFd < 0 then bindF (errno_result H E) (\<lambda>result. retF (result, None))
     else bindF (fgetattr_sub H E \<lparr>fi_flags = 0, fi_fh = fh_of_fd iFd\<rparr>) (\<lambda>(result, st).
          bindF (then_close H E iFd result) (\<lambda>result. retF (result, st))))"

definition X_OK :: u32 where "X_OK = 1"
definition W_OK :: u32 where "W_OK = 2"
definition R_OK :: u32 where "R_OK = 4"

text \<open>The bit for the owner, for the group or for others is missing.\<close>

definition lacks :: "bool \<Rightarrow> bool \<Rightarrow> u32 \<Rightarrow> u16 \<Rightarrow> u16 \<Rightarrow> u16 \<Rightarrow> bool" where
  "lacks fUib fGib mode usr grp oth \<longleftrightarrow> mode AND ucast (if fUib then usr else if fGib then grp else oth) = 0"

definition access_denied :: "u32 \<times> u32 \<Rightarrow> u32 \<Rightarrow> HOSTSTAT \<Rightarrow> bool" where
  "access_denied ctx amask st =
     (let fUib = (uint (fst ctx) = hs_uid st); fGib = (uint (snd ctx) = hs_gid st); mode = hs_mode st in
      amask AND X_OK \<noteq> 0 \<and> lacks fUib fGib mode RED_S_IXUSR RED_S_IXGRP RED_S_IXOTH \<or>
      amask AND W_OK \<noteq> 0 \<and> lacks fUib fGib mode RED_S_IWUSR RED_S_IWGRP RED_S_IWOTH \<or>
      amask AND R_OK \<noteq> 0 \<and> lacks fUib fGib mode RED_S_IRUSR RED_S_IRGRP RED_S_IROTH)"

text \<open>Without a request there is no context to look into.\<close>

definition fuse_red_access :: "host \<Rightarrow> 'd env \<Rightarrow> cstr \<Rightarrow> u32 \<Rightarrow> ('d, int) fop" where
  "fuse_red_access H E pszPath amask =
     bindF (fuse_red_getattr H E pszPath) (\<lambda>(result, st) x.
     if REDCONF_POSIX_OWNER_PERM E \<and> on_linux H \<and> result = 0 then
       (case (fuse_context H, st) of
          (Some ctx, Some st) \<Rightarrow>
            let result = (if access_denied ctx amask st then fails_with H EACCES else result);
                result = (if result = fails_with H EACCES \<and> fst ctx = RED_ROOT_USER then 0 else result)
            in Some (result, x)
        | _ \<Rightarrow> None)
     else Some (result, x))"

section \<open>Names\<close>

definition fuse_red_mkdir :: "host \<Rightarrow> 'd env \<Rightarrow> cstr \<Rightarrow> u32 \<Rightarrow> ('d, int) fop" where
  "fuse_red_mkdir H E pszPath mode =
     (if REDCONF_API_POSIX_MKDIR E then
        on_full_path H E pszPath (\<lambda>szRedPath.
          status_of H E (if REDCONF_POSIX_OWNER_PERM E then red_mkdir2 E (Some szRedPath) (open_mode mode)
                         else red_mkdir E (Some szRedPath)))
      else retF (fails_with H ENOSYS))"

definition fuse_red_unlink :: "host \<Rightarrow> 'd env \<Rightarrow> cstr \<Rightarrow> ('d, int) fop" where
  "fuse_red_unlink H E pszPath =
     (if REDCONF_API_POSIX_UNLINK E
      then on_full_path H E pszPath (\<lambda>szRedPath. status_of H E (red_unlink E (Some szRedPath)))
      else retF (fails_with H ENOSYS))"

definition fuse_red_rmdir :: "host \<Rightarrow> 'd env \<Rightarrow> cstr \<Rightarrow> ('d, int) fop" where
  "fuse_red_rmdir H E pszPath =
     (if REDCONF_API_POSIX_RMDIR E
      then on_full_path H E pszPath (\<lambda>szRedPath. status_of H E (red_rmdir E (Some szRedPath)))
      else retF (fails_with H ENOSYS))"

definition fuse_red_rename :: "host \<Rightarrow> 'd env \<Rightarrow> cstr \<Rightarrow> cstr \<Rightarrow> ('d, int) fop" where
  "fuse_red_rename H E pszOldPath pszNewPath =
     (if REDCONF_API_POSIX_RENAME E then
        on_full_path H E pszOldPath (\<lambda>szOldRedPath.
        on_full_path H E pszNewPath (\<lambda>szNewRedPath.
        status_of H E (red_rename E (Some szOldRedPath) (Some szNewRedPath))))
      else retF (fails_with H ENOSYS))"

definition fuse_red_link :: "host \<Rightarrow> 'd env \<Rightarrow> cstr \<Rightarrow> cstr \<Rightarrow> ('d, int) fop" where
  "fuse_red_link H E pszOldPath pszNewPath =
     (if REDCONF_API_POSIX_LINK E then
        on_full_path H E pszOldPath (\<lambda>szOldRedPath.
        on_full_path H E pszNewPath (\<lambda>szNewRedPath.
        status_of H E (red_link E (Some szOldRedPath) (Some szNewRedPath))))
      else retF (fails_with H ENOSYS))"

definition fuse_red_chmod :: "host \<Rightarrow> 'd env \<Rightarrow> cstr \<Rightarrow> u32 \<Rightarrow> ('d, int) fop" where
  "fuse_red_chmod H E pszPath mode =
     (if REDCONF_POSIX_OWNER_PERM E
      then on_full_path H E pszPath (\<lambda>szRedPath. status_of H E (red_chmod E (Some szRedPath) (open_mode mode)))
      else retF (fails_with H ENOSYS))"

definition fuse_red_chown :: "host \<Rightarrow> 'd env \<Rightarrow> cstr \<Rightarrow> u32 \<Rightarrow> u32 \<Rightarrow> ('d, int) fop" where
  "fuse_red_chown H E pszPath uid gid =
     (if REDCONF_POSIX_OWNER_PERM E
      then on_full_path H E pszPath (\<lambda>szRedPath. status_of H E (red_chown E (Some szRedPath) uid gid))
      else retF (fails_with H ENOSYS))"

text \<open>The target of a link is not a path of the volume; only its separators change.\<close>

definition fuse_red_symlink :: "host \<Rightarrow> 'd env \<Rightarrow> cstr \<Rightarrow> cstr \<Rightarrow> ('d, int) fop" where
  "fuse_red_symlink H E pszPath pszSymlink =
     (if REDCONF_API_POSIX_SYMLINK E then
        on_full_path H E pszSymlink (\<lambda>szRedPath x.
          case with_separators H E pszPath of
            None \<Rightarrow> None
          | Some (Inl result) \<Rightarrow> Some (result, x)
          | Some (Inr pszPath) \<Rightarrow> status_of H E (red_symlink E (Some pszPath) (Some szRedPath)) x)
      else retF (fails_with H ENOSYS))"

text \<open>What the callback takes for the status of the call is the length of the text of the link.\<close>

definition fuse_red_readlink :: "host \<Rightarrow> 'd env \<Rightarrow> cstr \<Rightarrow> bytes \<Rightarrow> u64 \<Rightarrow> ('d, int \<times> bytes) fop" where
  "fuse_red_readlink H E pszPath pszBuffer nBufferSize =
     (if REDCONF_API_POSIX_SYMLINK E then (\<lambda>x.
        case red_make_full_path H E (gpszVolume x) pszPath of
          None \<Rightarrow> None
        | Some (Inl result) \<Rightarrow> Some ((result, pszBuffer), x)
        | Some (Inr szRedPath) \<Rightarrow>
            bindF (posixF (red_readlink E (Some szRedPath) (ucast nBufferSize) pszBuffer)) (\<lambda>r.
            let status = (case r of Inl _ \<Rightarrow> -1 | Inr (len, _) \<Rightarrow> sint len);
                buffer = (case r of Inl _ \<Rightarrow> pszBuffer | Inr (_, b) \<Rightarrow> b) in
            if status \<noteq> 0 then bindF (errno_result H E) (\<lambda>result. retF (result, buffer))
            else if REDCONF_PATH_SEPARATOR E \<noteq> SLASH then
              (\<lambda>y. map_option (\<lambda>b. ((0, b), y)) (string_replace buffer (unat nBufferSize) (REDCONF_PATH_SEPARATOR E) SLASH))
            else retF (0, buffer)) x)
      else retF (fails_with H ENOSYS, pszBuffer))"

definition time_too_large :: "host \<Rightarrow> int \<Rightarrow> bool" where
  "time_too_large H tv_sec \<longleftrightarrow> tv_sec > (if sizeof_long H > 4 then 0xFFFFFFFF else -1)"

definition fuse_red_utimens :: "host \<Rightarrow> 'd env \<Rightarrow> cstr \<Rightarrow> (int \<times> int) option \<Rightarrow> ('d, int) fop" where
  "fuse_red_utimens H E pszPath tv =
     (if REDCONF_INODE_TIMESTAMPS E then
        on_full_path H E pszPath (\<lambda>szRedPath.
          case tv of
            None \<Rightarrow> status_of H E (red_utimes E (Some szRedPath) None)
          | Some (atime, mtime) \<Rightarrow>
              if sizeof_tv_sec H > 4 \<and> (time_too_large H atime \<or> time_too_large H mtime) then retF (fails_with H ERANGE)
              else status_of H E (red_utimes E (Some szRedPath) (Some (word_of_int atime, word_of_int mtime))))
      else retF (fails_with H ENOSYS))"

section \<open>Files\<close>

text \<open>The handle of the file, when it is open.\<close>

definition open_file :: "host \<Rightarrow> 'd env \<Rightarrow> cstr \<Rightarrow> u32 \<Rightarrow> u32 \<Rightarrow> FILEINFO \<Rightarrow> ('d, int \<times> FILEINFO) fop" where
  "open_file H E pszPath flags mode pFileInfo =
     bindF (red_local_open H E pszPath flags mode) (\<lambda>iFd.
     if iFd < 0 then bindF (errno_result H E) (\<lambda>result. retF (result, pFileInfo))
     else retF (0, pFileInfo\<lparr>fi_fh := fh_of_fd iFd\<rparr>))"

definition fuse_red_create :: "host \<Rightarrow> 'd env \<Rightarrow> cstr \<Rightarrow> u32 \<Rightarrow> FILEINFO \<Rightarrow> ('d, int \<times> FILEINFO) fop" where
  "fuse_red_create H E pszPath mode pFileInfo = open_file H E pszPath (fi_flags pFileInfo OR O_CREAT H) mode pFileInfo"

definition fuse_red_open :: "host \<Rightarrow> 'd env \<Rightarrow> cstr \<Rightarrow> FILEINFO \<Rightarrow> ('d, int \<times> FILEINFO) fop" where
  "fuse_red_open H E pszPath pFileInfo =
     (if fi_flags pFileInfo AND O_CREAT H = 0 then open_file H E pszPath (fi_flags pFileInfo) 0 pFileInfo else (\<lambda>_. None))"

definition fuse_red_truncate :: "host \<Rightarrow> 'd env \<Rightarrow> cstr \<Rightarrow> int \<Rightarrow> ('d, int) fop" where
  "fuse_red_truncate H E pszPath nSize =
     (if TRUNCATE_SUPPORTED E then
        if nSize < 0 then retF (fails_with H EINVAL)
        else bindF (red_local_open H E pszPath (O_WRONLY H) 0) (\<lambda>iFd.
             if iFd < 0 then errno_result H E
             else bindF (status_of H E (red_ftruncate E iFd (word_of_int nSize))) (then_close H E iFd))
      else retF (fails_with H ENOSYS))"

definition fuse_red_ftruncate :: "host \<Rightarrow> 'd env \<Rightarrow> int \<Rightarrow> FILEINFO \<Rightarrow> ('d, int) fop" where
  "fuse_red_ftruncate H E nSize pFileInfo =
     (if TRUNCATE_SUPPORTED E then status_of H E (red_ftruncate E (fd_of_fh (fi_fh pFileInfo)) (word_of_int nSize))
      else retF (fails_with H ENOSYS))"

definition INT_MAX :: u64 where "INT_MAX = 0x7FFFFFFF"

definition fuse_red_read :: "host \<Rightarrow> 'd env \<Rightarrow> bytes \<Rightarrow> u64 \<Rightarrow> int \<Rightarrow> FILEINFO \<Rightarrow> ('d, int \<times> bytes) fop" where
  "fuse_red_read H E pcBuf nSize offset pFileInfo =
     (if offset < 0 \<or> nSize > INT_MAX then retF (fails_with H EINVAL, pcBuf)
      else bindF (posixF (red_pread E (fd_of_fh (fi_fh pFileInfo)) pcBuf (ucast nSize) (word_of_int offset))) (\<lambda>r.
        case r of
          Inl _ \<Rightarrow> bindF (errno_result H E) (\<lambda>result. retF (result, pcBuf))
        | Inr (n, b) \<Rightarrow> retF (sint n, b)))"

text \<open>The offset of a write is cast to 32 bits.\<close>

definition fuse_red_write :: "host \<Rightarrow> 'd env \<Rightarrow> bytes \<Rightarrow> u64 \<Rightarrow> int \<Rightarrow> FILEINFO \<Rightarrow> ('d, int) fop" where
  "fuse_red_write H E pcBuf nSize offset pFileInfo =
     (if offset < 0 \<or> nSize > INT_MAX then retF (fails_with H EINVAL)
      else bindF (posixF (red_pwrite E (fd_of_fh (fi_fh pFileInfo)) pcBuf (ucast nSize) (ucast (word_of_int offset :: u32)))) (\<lambda>r.
        case r of Inl _ \<Rightarrow> errno_result H E | Inr n \<Rightarrow> retF (sint n)))"

definition fuse_red_release :: "host \<Rightarrow> 'd env \<Rightarrow> FILEINFO \<Rightarrow> ('d, int) fop" where
  "fuse_red_release H E pFileInfo = status_of H E (red_close E (fd_of_fh (fi_fh pFileInfo)))"

definition fuse_red_fsync :: "host \<Rightarrow> 'd env \<Rightarrow> FILEINFO \<Rightarrow> ('d, int) fop" where
  "fuse_red_fsync H E pFileInfo = status_of H E (red_fsync E (fd_of_fh (fi_fh pFileInfo)))"

section \<open>Directories and the volume\<close>

text \<open>
  The function that FUSE passes takes an entry and says whether it is full; it acts on a buffer of its own.
\<close>

text \<open>One turn of the loop: the result with which it ends, if it does.\<close>

definition readdir_turn ::
  "host \<Rightarrow> 'd env \<Rightarrow> nat \<Rightarrow> (cstr \<Rightarrow> HOSTSTAT \<Rightarrow> 'b \<Rightarrow> bool \<times> 'b) \<Rightarrow> 'b \<Rightarrow> ('d, int option \<times> 'b) fop" where
  "readdir_turn H E pDir filler pBuf =
     bindF (set_red_errno E 0) (\<lambda>_. bindF (posixF (red_readdir E pDir)) (\<lambda>r.
       case r of
         Inr (Some pDirent) \<Rightarrow>
           (\<lambda>x. case redstat_to_stat H E (d_stat pDirent) of
              None \<Rightarrow> None
            | Some st \<Rightarrow> (case filler (d_name pDirent) st pBuf of
                (stop, pBuf) \<Rightarrow> Some ((if stop then Some 0 else None, pBuf), x)))
       | _ \<Rightarrow> bindF (red_errno E) (\<lambda>e. retF (Some (if e \<noteq> 0 then rederrno_to_errno H e else 0), pBuf))))"

partial_function (option) readdir_loop ::
  "host \<Rightarrow> 'd env \<Rightarrow> nat \<Rightarrow> (cstr \<Rightarrow> HOSTSTAT \<Rightarrow> 'b \<Rightarrow> bool \<times> 'b) \<Rightarrow> 'b \<Rightarrow> 'd fuse \<Rightarrow> ((int \<times> 'b) \<times> 'd fuse) option" where
  "readdir_loop H E pDir filler pBuf x =
     Option.bind (readdir_turn H E pDir filler pBuf x) (\<lambda>v.
       case fst (fst v) of
         Some result \<Rightarrow> Some ((result, snd (fst v)), snd v)
       | None \<Rightarrow> readdir_loop H E pDir filler (snd (fst v)) (snd v))"

declare readdir_loop.simps [code]

definition fuse_red_readdir ::
  "host \<Rightarrow> 'd env \<Rightarrow> cstr \<Rightarrow> (cstr \<Rightarrow> HOSTSTAT \<Rightarrow> 'b \<Rightarrow> bool \<times> 'b) \<Rightarrow> 'b \<Rightarrow> ('d, int \<times> 'b) fop" where
  "fuse_red_readdir H E pszPath filler pBuf =
     (if REDCONF_API_POSIX_READDIR E then (\<lambda>x.
        case red_make_full_path H E (gpszVolume x) pszPath of
          None \<Rightarrow> None
        | Some (Inl result) \<Rightarrow> Some ((result, pBuf), x)
        | Some (Inr szRedPath) \<Rightarrow>
            bindF (posixF (red_opendir E (Some szRedPath))) (\<lambda>r.
            case r of
              Inl _ \<Rightarrow> bindF (errno_result H E) (\<lambda>result. retF (result, pBuf))
            | Inr pDir \<Rightarrow>
                bindF (readdir_loop H E pDir filler pBuf) (\<lambda>(result, pBuf).
                bindF (posixF (red_closedir E pDir)) (\<lambda>r.
                if \<not> is_ok r \<and> result = 0 then bindF (errno_result H E) (\<lambda>result. retF (result, pBuf))
                else retF (result, pBuf)))) x)
      else retF (fails_with H ENOSYS, pBuf))"

definition fuse_red_fsyncdir :: "host \<Rightarrow> 'd env \<Rightarrow> ('d, int) fop" where
  "fuse_red_fsyncdir H E = (\<lambda>x.
     if vol_ulTransMask (gaRedVolume (posix_fs (fuse_posix x)) (gbVolume x)) AND RED_TRANSACT_FSYNC \<noteq> 0
     then status_of H E (red_transact E (Some (gpszVolume x))) x
     else Some (0, x))"

record STATVFS =
  hv_bsize :: int
  hv_frsize :: int
  hv_blocks :: int
  hv_bfree :: int
  hv_bavail :: int
  hv_files :: int
  hv_ffree :: int
  hv_favail :: int
  hv_fsid :: int
  hv_flag :: int
  hv_namemax :: int

definition to_statvfs :: "REDSTATFS \<Rightarrow> STATVFS" where
  "to_statvfs s = \<lparr>hv_bsize = uint (f_bsize s), hv_frsize = uint (f_frsize s), hv_blocks = uint (f_blocks s),
     hv_bfree = uint (f_bfree s), hv_bavail = uint (f_bavail s), hv_files = uint (f_files s), hv_ffree = uint (f_ffree s),
     hv_favail = uint (f_favail s), hv_fsid = uint (f_fsid s), hv_flag = uint (f_flag s), hv_namemax = uint (f_namemax s)\<rparr>"

definition fuse_red_statfs :: "host \<Rightarrow> 'd env \<Rightarrow> ('d, int \<times> STATVFS option) fop" where
  "fuse_red_statfs H E = (\<lambda>x.
     bindF (posixF (red_statvfs E (Some (gpszVolume x)))) (\<lambda>r.
     case r of
       Inl _ \<Rightarrow> bindF (errno_result H E) (\<lambda>result. retF (result, None))
     | Inr s \<Rightarrow> retF (0, Some (to_statvfs s))) x)"

text \<open>The two callbacks for the volume return, or leave the program with an exit code.\<close>

definition fuse_red_init :: "host \<Rightarrow> 'd env \<Rightarrow> ('d, int option) fop" where
  "fuse_red_init H E = (\<lambda>x.
     bindF (posixF (red_mount E (Some (gpszVolume x)))) (\<lambda>r.
     if is_ok r then retF None
     else bindF (red_errno E) (\<lambda>e.
       if e \<noteq> errno RED_EBUSY then bindF (errno_result H E) (\<lambda>code. retF (Some code)) else retF None)) x)"

definition fuse_red_destroy :: "host \<Rightarrow> 'd env \<Rightarrow> ('d, int option) fop" where
  "fuse_red_destroy H E = (\<lambda>x.
     bindF (posixF (red_umount E (Some (gpszVolume x)))) (\<lambda>r.
     if is_ok r then retF None else bindF (errno_result H E) (\<lambda>code. retF (Some code))) x)"
section \<open>The start of the program\<close>

text \<open>
  What \<^verbatim>\<open>fuse_opt_parse\<close> makes of the arguments, if it does not fail, and the service that names the device for a
  volume, are arguments. The program ends with a status, or goes on to the loop of FUSE, with the help text in front or not.
\<close>

record REDOPTIONS =
  pszVolSpec :: "cstr option"
  pszBDevSpec :: "cstr option"
  fFormat :: bool
  fShowHelp :: bool

datatype fuse_start = RETURNS int | FUSE_MAIN bool

definition volume_zero :: cstr where
  "volume_zero = cstr_at [0x30, 0] 0"

text \<open>A step that must not fail.\<close>

definition or_return_1 :: "('d, 'a) pop \<Rightarrow> ('d, fuse_start) fop \<Rightarrow> ('d, fuse_start) fop" where
  "or_return_1 f g = bindF (posixF f) (\<lambda>r. if is_ok r then g else retF (RETURNS 1))"

definition bdev_config :: "(u8 \<Rightarrow> cstr \<Rightarrow> 'd \<Rightarrow> (rederr + unit) \<times> 'd) \<Rightarrow> u8 \<Rightarrow> cstr \<Rightarrow> ('d, unit) pop" where
  "bdev_config RedOsBDevConfig bVolNum pszBDev = (\<lambda>x.
     case RedOsBDevConfig bVolNum pszBDev (os (posix_fs x)) of
       (r, d) \<Rightarrow> Some (r, x\<lparr>posix_ist := (fst (posix_ist x), (posix_fs x)\<lparr>os := d\<rparr>)\<rparr>))"

definition start_volume ::
  "(u8 \<Rightarrow> cstr \<Rightarrow> 'd \<Rightarrow> (rederr + unit) \<times> 'd) \<Rightarrow> 'd env \<Rightarrow> bool \<Rightarrow> cstr \<Rightarrow> cstr \<Rightarrow> ('d, fuse_start) fop" where
  "start_volume RedOsBDevConfig E fForm pszVol pszBDev = (\<lambda>x.
     case RedFindVolumeNumber E pszVol of
       None \<Rightarrow> None
     | Some bVolume \<Rightarrow>
         let x = x\<lparr>gbVolume := bVolume\<rparr> in
         if bVolume \<ge> REDCONF_VOLUME_COUNT E then Some (RETURNS 1, x)
         else
           let pszVolume = path_prefix E (unat bVolume); x = x\<lparr>gpszVolume := pszVolume\<rparr> in
           or_return_1 (bdev_config RedOsBDevConfig bVolume pszBDev)
             (or_return_1 (if fForm then red_format E (Some pszVolume) else okE ())
               (or_return_1 (red_mount E (Some pszVolume)) (retF (FUSE_MAIN False)))) x)"

definition fuse_main_start ::
  "(u8 \<Rightarrow> cstr \<Rightarrow> 'd \<Rightarrow> (rederr + unit) \<times> 'd) \<Rightarrow> 'd env \<Rightarrow> REDOPTIONS option \<Rightarrow> ('d, fuse_start) fop" where
  "fuse_main_start RedOsBDevConfig E gOptions =
     or_return_1 (red_init E)
       (case gOptions of
          None \<Rightarrow> retF (RETURNS 1)
        | Some opts \<Rightarrow>
            if fShowHelp opts then retF (FUSE_MAIN True)
            else (case pszBDevSpec opts of
                None \<Rightarrow> retF (FUSE_MAIN True)
              | Some pszBDev \<Rightarrow>
                  (case pszVolSpec opts of
                     Some pszVol \<Rightarrow> start_volume RedOsBDevConfig E (fFormat opts) pszVol pszBDev
                   | None \<Rightarrow>
                       if REDCONF_VOLUME_COUNT E = 1
                       then start_volume RedOsBDevConfig E (fFormat opts) volume_zero pszBDev
                       else retF (FUSE_MAIN True))))"

end
