(* ===== verification/Red_FuseProps.thy ===== *)
theory Red_FuseProps
  imports Red_Fuse
begin

text \<open>
  What the callbacks of the FUSE port promise: the path that they build, the result of a call of the interface, and the
  invariant of the tables in every state that a session reaches; and where they go wrong.
\<close>

declare split_paired_Ex [simp del]

section \<open>Paths\<close>

lemma str_bytes_is:
  assumes "str_is s bs"
  shows "RedStrLen (Some s) = Some (word_of_nat (length bs))" and "str_bytes s (word_of_nat (length bs)) = bs"
proof -
  show "RedStrLen (Some s) = Some (word_of_nat (length bs))"
    unfolding RedStrLen_def RedStrLenUnchecked_def option.case
    by (rule scan_while_stop) (simp_all add: str_is_nth [OF assms] str_is_nonzero [OF assms] str_is_end [OF assms])
  have "unat (word_of_nat (length bs) :: u32) = length bs"
    using str_is_length [OF assms] by (simp add: unat_of_nat)
  then show "str_bytes s (word_of_nat (length bs)) = bs"
    unfolding str_bytes_def by (intro nth_equalityI) (simp_all add: str_is_nth [OF assms])
qed

lemma cstr_at_is:
  assumes "length bs < 2 ^ 32" and "0 \<notin> set bs"
  shows "str_is (cstr_at (bs @ 0 # rest) 0) bs"
proof -
  have "unat (word_of_nat k :: u32) = k" if "k \<le> length bs" for k
    using that assms(1) by (simp add: unat_of_nat)
  then show ?thesis using assms by (simp add: str_is_def cstr_at_def nth_append)
qed

definition swap_char :: "u8 \<Rightarrow> u8 \<Rightarrow> u8 \<Rightarrow> u8" where
  "swap_char f r c = (if c = f then r else c)"

lemma replace_from:
  assumes "k \<le> length p" and "0 \<notin> set p" and "length p < nMax"
  shows "string_replace_from nMax f r (map (swap_char f r) (take k p) @ drop k p @ 0 # rest) k =
    Some (map (swap_char f r) p @ 0 # rest)"
  using assms
proof (induction "length p - k" arbitrary: k)
  case 0
  then show ?case by (subst string_replace_from.simps) (simp add: nth_append)
next
  case (Suc d)
  let ?b = "map (swap_char f r) (take k p) @ drop k p @ 0 # rest"
  have k: "k < length p" using Suc.hyps(2) by simp
  have at: "?b ! k = p ! k" and nz: "p ! k \<noteq> 0" using k Suc.prems(2) by (auto simp: nth_append) (metis nth_mem)
  have step: "(if p ! k = f then ?b[k := r] else ?b) =
      map (swap_char f r) (take (k + 1) p) @ drop (k + 1) p @ 0 # rest"
  proof -
    have "drop k p = p ! k # drop (k + 1) p" "take (k + 1) p = take k p @ [p ! k]"
      using k by (simp_all add: Cons_nth_drop_Suc take_Suc_conv_app_nth)
    then show ?thesis using k by (simp add: list_update_append swap_char_def)
  qed
  have "string_replace_from nMax f r (map (swap_char f r) (take (k + 1) p) @ drop (k + 1) p @ 0 # rest) (k + 1) =
      Some (map (swap_char f r) p @ 0 # rest)"
    using Suc.hyps(2) Suc.prems k by (intro Suc.hyps(1)) simp_all
  then show ?case
    using k Suc.prems(3) at nz step by (subst string_replace_from.simps) (simp del: take_append drop_append)
qed

lemma string_replace_is:
  assumes "0 \<notin> set p" and "length p < nMax"
  shows "string_replace (p @ 0 # rest) nMax f r = Some (map (swap_char f r) p @ 0 # rest)"
  using replace_from [of 0 p nMax f r rest] assms by (simp add: string_replace_def)

text \<open>The path with the separators of the driver, and the whole path.\<close>

definition driver_path :: "'d env \<Rightarrow> bytes \<Rightarrow> bytes" where
  "driver_path E p = map (swap_char SLASH (REDCONF_PATH_SEPARATOR E)) p"

definition full_path :: "'d env \<Rightarrow> bytes \<Rightarrow> bytes \<Rightarrow> bytes" where
  "full_path E v p = v @ (if p \<noteq> [] \<and> hd (driver_path E p) = REDCONF_PATH_SEPARATOR E then []
     else [REDCONF_PATH_SEPARATOR E]) @ driver_path E p"

lemma driver_path_slash: "REDCONF_PATH_SEPARATOR E = SLASH \<Longrightarrow> driver_path E p = p"
  by (simp add: driver_path_def swap_char_def map_idI)

lemma with_separators_is:
  assumes "str_is s p" and "REDCONF_PATH_SEPARATOR E \<noteq> 0" and "strdup_succeeds H s"
  shows "\<exists>q. with_separators H E s = Some (Inr q) \<and> str_is q (driver_path E p)"
proof (cases "REDCONF_PATH_SEPARATOR E = SLASH")
  case True
  then show ?thesis using assms(1) by (simp add: with_separators_def driver_path_slash)
next
  case False
  have p: "length p < 2 ^ 32" "0 \<notin> set p" using assms(1) by (simp_all add: str_is_def)
  then have "length p < SIZE_MAX" by (simp add: SIZE_MAX_def)
  with p(2) have "string_replace (p @ [0]) SIZE_MAX SLASH (REDCONF_PATH_SEPARATOR E) = Some (driver_path E p @ [0])"
    unfolding driver_path_def by (rule string_replace_is)
  moreover have "str_is (cstr_at (driver_path E p @ [0]) 0) (driver_path E p)"
    using p assms(2) by (intro cstr_at_is) (auto simp: driver_path_def swap_char_def split: if_splits)
  ultimately show ?thesis
    using False assms(3) str_bytes_is [OF assms(1)] by (simp add: with_separators_def string_copy_replace_def)
qed
section \<open>Results\<close>

text \<open>The error of the host with the name of the driver's, where there is one.\<close>

fun host_name :: "host \<Rightarrow> rederr \<Rightarrow> hosterr" where
  "host_name H RED_EPERM = EPERM" | "host_name H RED_ENOENT = ENOENT" | "host_name H RED_EIO = EIO"
| "host_name H RED_EBADF = EBADF" | "host_name H RED_ENOMEM = ENOMEM" | "host_name H RED_EACCES = EINVAL"
| "host_name H RED_EBUSY = EBUSY" | "host_name H RED_EEXIST = EEXIST" | "host_name H RED_EXDEV = EXDEV"
| "host_name H RED_ENOTDIR = ENOTDIR" | "host_name H RED_EISDIR = EISDIR" | "host_name H RED_EINVAL = EINVAL"
| "host_name H RED_ENFILE = ENFILE" | "host_name H RED_EMFILE = EMFILE" | "host_name H RED_EFBIG = EFBIG"
| "host_name H RED_ENOSPC = ENOSPC" | "host_name H RED_EROFS = EROFS" | "host_name H RED_EMLINK = EMLINK"
| "host_name H RED_ERANGE = ERANGE" | "host_name H RED_ENAMETOOLONG = ENAMETOOLONG" | "host_name H RED_ENOSYS = ENOSYS"
| "host_name H RED_ENOTEMPTY = ENOTEMPTY" | "host_name H RED_ELOOP = ELOOP" | "host_name H RED_ENODATA = ENODATA"
| "host_name H RED_ENOLINK = ENOLINK" | "host_name H RED_EUSERS = (if on_win32 H then EBUSY else EUSERS)"
| "host_name H RED_ENOTSUPP = EINVAL"

lemma rederrno_to_errno_name: "rederrno_to_errno H (errno e) = fails_with H (host_name H e)"
  by (cases e) (simp_all add: rederrno_to_errno_def)

lemma find_first: "find P xs = Some i \<Longrightarrow> P i"
  by (induction xs) (auto split: if_splits)

lemma find_same: "(\<And>i. P i = Q i) \<Longrightarrow> find P xs = find Q xs"
  by (induction xs) auto

lemma TaskFind_errno: "TaskFind E n (upd_task i (ts_iErrno_update f) x) = TaskFind E n x"
  unfolding TaskFind_def by (rule find_same) (simp add: upd_task_def)

lemma find_update:
  assumes "find P xs = None" and "i \<in> set xs" and "\<And>j. Q j = (j = i \<or> P j)"
  shows "find Q xs = Some i"
  using assms(1,2) by (induction xs) (auto simp: assms(3) split: if_splits)

text \<open>Once the task is known, the error variable is where it was, whatever is stored there.\<close>

lemma TaskRegister_found:
  assumes "TaskRegister E n x = (Some i, y)"
  shows "TaskFind E n y = Some i"
proof (cases "TaskFind E n x")
  case None
  then have free: "find (\<lambda>i. ts_ulTaskId (gaTask x i) = 0) [0..<TASKS E] = Some i"
    and y: "y = upd_task i (ts_ulTaskId_update (\<lambda>_. n)) x"
    using assms by (auto simp: TaskRegister_def split: option.splits)
  have "i \<in> set [0..<TASKS E]" using free by (auto simp: find_Some_iff)
  then show ?thesis
    unfolding TaskFind_def by (rule find_update [OF None [unfolded TaskFind_def]]) (simp add: y upd_task_def)
qed (use assms in \<open>simp add: TaskRegister_def\<close>)

lemma errnoptr_stored:
  assumes "red_errnoptr E x = (p, y)"
  shows "red_errnoptr E (store_errno p k y) = (p, store_errno p k y)" and "load_errno p (store_errno p k y) = k"
proof -
  show "load_errno p (store_errno p k y) = k" by (cases p) (simp_all add: upd_task_def)
  show "red_errnoptr E (store_errno p k y) = (p, store_errno p k y)"
  proof (cases "gfPosixInited x \<and> REDCONF_TASK_COUNT E > 1")
    case False
    then show ?thesis using assms by (auto simp: red_errnoptr_def upd_task_def split: if_splits)
  next
    case True
    let ?t = "RedOsTaskId E (os (posix_fs x))"
    obtain r z where reg: "TaskRegister E ?t x = (r, z)" by force
    have kept: "gfPosixInited z = gfPosixInited x" "posix_ist z = posix_ist x"
      using reg by (auto simp: TaskRegister_def upd_task_def split: option.splits)
    show ?thesis
    proof (cases r)
      case (Some i)
      have "TaskFind E ?t z = Some i" using reg Some by (intro TaskRegister_found) simp
      then have "TaskFind E ?t (upd_task i (ts_iErrno_update (\<lambda>_. k)) z) = Some i" by (simp add: TaskFind_errno)
      moreover have "p = TASK_ERRNO i" "y = z" using assms True reg Some by (simp_all add: red_errnoptr_def)
      ultimately show ?thesis using True kept
        by (simp add: red_errnoptr_def TaskRegister_def) (simp add: upd_task_def TaskFind_def)
    next
      case None
      then have "z = x" "TaskFind E ?t x = None" "find (\<lambda>i. ts_ulTaskId (gaTask x i) = 0) [0..<TASKS E] = None"
        using reg by (auto simp: TaskRegister_def split: option.splits)
      moreover have "p = GLOBAL_ERRNO" "y = z" using assms True reg None by (simp_all add: red_errnoptr_def)
      ultimately show ?thesis using True by (simp add: red_errnoptr_def TaskRegister_def TaskFind_def)
    qed
  qed
qed

lemma errno_of_failure:
  assumes "PosixReturn E f x = Some (Inl e, y)"
  obtains p where "red_errnoptr E y = (p, y)" "load_errno p y = errno e"
proof -
  obtain z where "f x = Some (Inl e, z)" and y: "(case red_errnoptr E z of (p, u) \<Rightarrow> store_errno p (errno e) u) = y"
    using assms by (auto simp: PosixReturn_def split: option.splits sum.splits prod.splits)
  obtain p u where p: "red_errnoptr E z = (p, u)" by force
  with y have "y = store_errno p (errno e) u" by simp
  then show thesis using errnoptr_stored [OF p] that by simp
qed

lemma errno_result_of_failure:
  assumes "PosixReturn E f (fuse_posix x) = Some (Inl e, y)"
  shows "errno_result H E (x\<lparr>fuse_posix := y\<rparr>) = Some (fails_with H (host_name H e), x\<lparr>fuse_posix := y\<rparr>)"
proof -
  obtain p where "red_errnoptr E y = (p, y)" "load_errno p y = errno e" by (rule errno_of_failure [OF assms])
  then show ?thesis by (simp add: errno_result_def bindF_def red_errno_def retF_def rederrno_to_errno_name)
qed

text \<open>What a callback returns for a call that only succeeds or fails.\<close>

definition call_result :: "host \<Rightarrow> ((rederr + 'a) \<times> 's) option \<Rightarrow> int option" where
  "call_result H v = map_option (\<lambda>(r, _). case r of Inr _ \<Rightarrow> 0 | Inl e \<Rightarrow> fails_with H (host_name H e)) v"

lemma status_of_PosixReturn:
  "map_option fst (status_of H E (PosixReturn E f) x) = call_result H (PosixReturn E f (fuse_posix x))"
proof (cases "PosixReturn E f (fuse_posix x)")
  case (Some v)
  obtain r y where v: "v = (r, y)" by force
  show ?thesis
  proof (cases r)
    case (Inl e)
    with Some v have "PosixReturn E f (fuse_posix x) = Some (Inl e, y)" by simp
    from errno_result_of_failure [OF this, of H] this show ?thesis
      by (simp add: status_of_def bindF_def posixF_def is_ok_def call_result_def)
  next
    case (Inr a)
    with Some v show ?thesis by (simp add: status_of_def bindF_def posixF_def is_ok_def call_result_def retF_def)
  qed
qed (simp add: status_of_def bindF_def posixF_def call_result_def)

lemma status_of_in_posix:
  "map_option fst (status_of H E (in_posix E f) x) = call_result H (in_posix E f (fuse_posix x))"
  unfolding in_posix_def by (rule status_of_PosixReturn)
lemma full_path_nonzero: "str_is v vs \<Longrightarrow> str_is s p \<Longrightarrow> REDCONF_PATH_SEPARATOR E \<noteq> 0 \<Longrightarrow> 0 \<notin> set (full_path E vs p)"
  by (auto simp: full_path_def driver_path_def swap_char_def str_is_def split: if_splits)

lemma on_full_path_status:
  "map_option fst (on_full_path H E path (\<lambda>p. status_of H E (in_posix E (f p))) x) =
     (case red_make_full_path H E (gpszVolume x) path of
        None \<Rightarrow> None | Some (Inl c) \<Rightarrow> Some c | Some (Inr p) \<Rightarrow> call_result H (in_posix E (f p) (fuse_posix x)))"
  by (simp add: on_full_path_def status_of_in_posix split: option.split sum.split)

lemma PosixReturn_Inr: "PosixReturn E f x = Some (Inr v, y) \<longleftrightarrow> f x = Some (Inr v, y)"
  by (auto simp: PosixReturn_def split: option.splits sum.splits prod.splits)

text \<open>A call that succeeds leaves the error variable as it was.\<close>

definition errno_is :: "int \<Rightarrow> 'd posix \<Rightarrow> bool" where
  "errno_is k p \<longleftrightarrow> gfPosixInited p \<and> ts_iErrno (gaTask p 0) = k"

lemma errno_is_tables [simp]: "of_tables (errno_is k)"
  by (simp add: of_tables_def errno_is_def)

lemma in_posix_single_task:
  "REDCONF_TASK_COUNT E = 1 \<Longrightarrow> gfPosixInited x \<Longrightarrow> in_posix E f x = PosixReturn E f x"
  by (simp add: in_posix_def PosixEnter_def thenE_def PosixReturn_def comp_defs)

lemma readlink_keeps_errno:
  assumes "REDCONF_TASK_COUNT E = 1" and "gfPosixInited x" and "red_readlink E p n b x = Some (Inr v, y)"
  shows "red_errnoptr E y = (TASK_ERRNO 0, y)" and "ts_iErrno (gaTask y 0) = ts_iErrno (gaTask x 0)"
proof -
  let ?I = "errno_is (ts_iErrno (gaTask x 0))"
  have x: "?I x" using assms(2) by (simp add: errno_is_def)
  have "outcome ?I ((if n > 0x7FFFFFFF then errE RED_EINVAL
      else on_path E (RED_AT_FDNONE E) p RED_AT_SYMLINK_NOFOLLOW (\<lambda>ulInode.
        thenE (must_be_link E ulInode)
          (bindE (coreP (RedCoreFileRead E ulInode 0 n b)) (\<lambda>r. okE (link_text n r))))) x)"
    unfolding must_be_link_def Let_def by (intro outcome_rules inv_rules core_rules) (simp_all add: x)
  then have "?I y" using assms(3)
    by (auto simp: red_readlink_def in_posix_single_task [OF assms(1,2)] PosixReturn_Inr dest: outcomeD)
  then show "red_errnoptr E y = (TASK_ERRNO 0, y)" "ts_iErrno (gaTask y 0) = ts_iErrno (gaTask x 0)"
    using assms(1) by (simp_all add: errno_is_def red_errnoptr_def)
qed

section \<open>Properties of single callbacks\<close>

text \<open>C30. The path for the driver is the prefix of the volume, a separator unless the path begins with one, and the path with the
  separators of the driver; it is refused exactly when it does not fit in the buffer with its terminator.\<close>

theorem fuse_full_path:
  assumes "str_is v vs" and "str_is s p" and "REDCONF_PATH_SEPARATOR E \<noteq> 0" and "strdup_succeeds H s"
    and "PATH_MAX H \<le> 0x7FFFFFFF"
  shows "if length (full_path E vs p) < unat (PATH_MAX H)
    then \<exists>q. red_make_full_path H E v s = Some (Inr q) \<and> str_is q (full_path E vs p)
    else red_make_full_path H E v s = Some (Inl (fails_with H ENAMETOOLONG))"
proof -
  obtain q where q: "with_separators H E s = Some (Inr q)" "str_is q (driver_path E p)"
    using with_separators_is [OF assms(2-4)] by blast
  have first: "q 0 = REDCONF_PATH_SEPARATOR E \<longleftrightarrow> p \<noteq> [] \<and> hd (driver_path E p) = REDCONF_PATH_SEPARATOR E"
  proof (cases p)
    case Nil
    then show ?thesis using str_is_end [OF q(2)] assms(3) by (simp add: driver_path_def)
  next
    case (Cons c cs)
    then show ?thesis using str_is_nth [OF q(2), of 0] by (simp add: driver_path_def)
  qed
  have max: "sint (PATH_MAX H) = int (unat (PATH_MAX H))" "unat (PATH_MAX H) < 2 ^ 32"
  proof -
    have le: "unat (PATH_MAX H) \<le> 0x7FFFFFFF" using assms(5) by (simp add: word_le_nat_alt)
    then show "unat (PATH_MAX H) < 2 ^ 32" by simp
    have u: "uint (PATH_MAX H) \<le> 0x7FFFFFFF" using assms(5) by (simp add: word_le_def)
    have "signed_take_bit 31 (uint (PATH_MAX H)) = uint (PATH_MAX H)"
    proof (rule signed_take_bit_int_eq_self)
      show "- (2 ^ 31) \<le> uint (PATH_MAX H)" by (rule order_trans [of _ 0]) simp_all
      show "uint (PATH_MAX H) < 2 ^ 31" using u by simp
    qed
    then show "sint (PATH_MAX H) = int (unat (PATH_MAX H))" by (simp add: sint_uint)
  qed
  have le: "sint (PATH_MAX H) \<le> int n \<longleftrightarrow> unat (PATH_MAX H) \<le> n" for n
    unfolding max(1) of_nat_le_iff ..
  have built: "red_make_full_path H E v s = (if length (full_path E vs p) \<ge> unat (PATH_MAX H)
      then Some (Inl (fails_with H ENAMETOOLONG)) else Some (Inr (cstr_at (full_path E vs p @ [0]) 0)))"
    by (simp add: red_make_full_path_def q(1) str_bytes_is [OF assms(1)] str_bytes_is [OF q(2)] full_path_def Let_def
        first le del: length_append)
  have "str_is (cstr_at (full_path E vs p @ [0]) 0) (full_path E vs p)" if "length (full_path E vs p) < unat (PATH_MAX H)"
    using that max(2) by (intro cstr_at_is full_path_nonzero [OF assms(1-3)]) simp_all
  then show ?thesis by (simp add: built not_le)
qed



text \<open>C11. A write goes to its offset modulo 4 GB, so that two writes whose offsets differ by a multiple of it cannot be told apart, while
  a read goes to its whole offset.\<close>

theorem fuse_write_wraps:
  assumes "0 \<le> off" and "nBytes \<le> INT_MAX"
  shows "fuse_red_write H E buf nBytes off fi x = fuse_red_write H E buf nBytes (off mod 2 ^ 32) fi x \<and>
    (\<forall>k y. red_pwrite E (fd_of_fh (fi_fh fi)) buf (ucast nBytes) (word_of_int (off mod 2 ^ 32)) (fuse_posix x) = Some (Inr k, y) \<longrightarrow>
       fuse_red_write H E buf nBytes off fi x = Some (sint k, x\<lparr>fuse_posix := y\<rparr>)) \<and>
    (\<forall>k b y. red_pread E (fd_of_fh (fi_fh fi)) buf (ucast nBytes) (word_of_int off) (fuse_posix x) = Some (Inr (k, b), y) \<longrightarrow>
       fuse_red_read H E buf nBytes off fi x = Some ((sint k, b), x\<lparr>fuse_posix := y\<rparr>))"
proof -
  have cast: "(ucast (word_of_int i :: u32) :: u64) = word_of_int (i mod 2 ^ 32)" for i :: int
    by (rule word_uint_eqI) (simp add: unsigned_ucast_eq uint_word_of_int take_bit_eq_mod)
  have nonneg: "off mod 4294967296 < 0 \<longleftrightarrow> False" by (simp add: not_less)
  have "\<not> nBytes > INT_MAX" "\<not> off < 0" using assms by (simp_all add: not_less)
  then show ?thesis
    by (simp add: nonneg fuse_red_write_def fuse_red_read_def cast bindF_def posixF_def retF_def)
qed
section \<open>The properties on a concrete host\<close>

fun linux_errno :: "hosterr \<Rightarrow> int" where
  "linux_errno EPERM = 1" | "linux_errno ENOENT = 2" | "linux_errno EIO = 5" | "linux_errno EBADF = 9"
| "linux_errno ENOMEM = 12" | "linux_errno EBUSY = 16" | "linux_errno EEXIST = 17" | "linux_errno EXDEV = 18"
| "linux_errno ENOTDIR = 20" | "linux_errno EISDIR = 21" | "linux_errno EINVAL = 22" | "linux_errno ENFILE = 23"
| "linux_errno EMFILE = 24" | "linux_errno EFBIG = 27" | "linux_errno ENOSPC = 28" | "linux_errno EROFS = 30"
| "linux_errno EMLINK = 31" | "linux_errno ERANGE = 34" | "linux_errno ENAMETOOLONG = 36" | "linux_errno ENOSYS = 38"
| "linux_errno ENOTEMPTY = 39" | "linux_errno ELOOP = 40" | "linux_errno ENODATA = 61" | "linux_errno ENOLINK = 67"
| "linux_errno EUSERS = 87" | "linux_errno EACCES = 13"

definition linux_host :: host where
  "linux_host = \<lparr>host_errno = linux_errno, on_linux = True, on_win32 = False, PATH_MAX = 4096, O_RDONLY = 0, O_WRONLY = 1,
     O_RDWR = 2, O_CREAT = 0x40, O_TRUNC = 0x200, O_EXCL = 0x80, O_APPEND = 0x400, sizeof_tv_sec = 8, sizeof_long = 8,
     fuse_context = Some (0, 0), strdup_succeeds = (\<lambda>_. True)\<rparr>"

definition one_char :: "u8 \<Rightarrow> cstr" where
  "one_char c = (\<lambda>i. if i = 0 then c else 0)"

lemma one_char_is: "c \<noteq> 0 \<Longrightarrow> str_is (one_char c) [c]" and empty_is: "str_is (\<lambda>_. 0) []"
  by (auto simp: str_is_def one_char_def)

text \<open>The prefix is empty: a separator goes before the name.\<close>

theorem fuse_full_path_witness:
  "\<exists>q. red_make_full_path linux_host demo_env (\<lambda>_. 0) (one_char 0x61) = Some (Inr q) \<and> str_is q [0x2F, 0x61]"
proof -
  have "REDCONF_PATH_SEPARATOR demo_env = 0x2F" "PATH_MAX linux_host = 4096" "strdup_succeeds linux_host s" for s
    by (simp_all add: demo_env_def linux_host_def)
  moreover from this have "full_path demo_env [] [0x61] = [0x2F, 0x61]"
    by (simp add: full_path_def driver_path_def swap_char_def SLASH_def)
  ultimately show ?thesis
    using fuse_full_path [OF empty_is one_char_is [of "0x61"], of demo_env linux_host] by simp
qed

lemma demo_full_path: "\<exists>q. red_make_full_path linux_host (demo_env\<lparr>REDCONF_API_POSIX_SYMLINK := True\<rparr>) (\<lambda>_. 0) (one_char 0x61) = Some (Inr q)"
  using str_bytes_is [OF one_char_is [of "0x61"]] str_bytes_is [OF empty_is]
  by (simp add: red_make_full_path_def with_separators_def demo_env_def SLASH_def linux_host_def Let_def)

definition link_env :: "ramdisk env" where
  "link_env = demo_env\<lparr>REDCONF_API_POSIX_SYMLINK := True\<rparr>"

definition demo_fuse :: "ramdisk fuse" where
  "demo_fuse = \<lparr>fuse_posix = demo_posix\<lparr>gfPosixInited := True\<rparr>, gbVolume = 0, gpszVolume = (\<lambda>_. 0)\<rparr>"


definition demo_file :: FILEINFO where
  "demo_file = \<lparr>fi_flags = 0, fi_fh = 3\<rparr>"

text \<open>A write at 4 GB is one at the start of the file.\<close>

theorem fuse_write_wraps_witness:
  "fuse_red_write linux_host link_env [1, 2] 2 (2 ^ 32) demo_file demo_fuse = fuse_red_write linux_host link_env [1, 2] 2 0 demo_file demo_fuse"
  using fuse_write_wraps [of "2 ^ 32" 2 linux_host link_env "[1, 2]" demo_file demo_fuse] by (simp add: INT_MAX_def)

end
