(* ===== verification/Red_FuseSession.thy ===== *)
theory Red_FuseSession
  imports Red_FuseProps
begin

text \<open>
  Sessions of the FUSE port: the start of the program and any callbacks after it. Every step keeps the invariant of the
  tables of the POSIX-like interface, and no callback changes the volume that the start chose.
\<close>

declare split_paired_Ex [simp del]

section \<open>What a step keeps\<close>

definition ends :: "('s \<Rightarrow> bool) \<Rightarrow> ('a \<times> 's) option \<Rightarrow> bool" where
  "ends I v \<longleftrightarrow> (\<forall>r y. v = Some (r, y) \<longrightarrow> I y)"

named_theorems ends_rules \<open>a predicate holds after a step of the port\<close>

lemma endsD: "ends I v \<Longrightarrow> v = Some (r, y) \<Longrightarrow> I y"
  by (simp add: ends_def)

lemma ends_basic [ends_rules, simp]: "ends I None" "I y \<Longrightarrow> ends I (Some (r, y))" "I x \<Longrightarrow> ends I (retF r x)"
  by (simp_all add: ends_def retF_def)

lemma ends_bindF [ends_rules]: "ends I (f x) \<Longrightarrow> (\<And>r y. I y \<Longrightarrow> ends I (g r y)) \<Longrightarrow> ends I (bindF f g x)"
  by (auto simp: ends_def bindF_def split: option.splits)

lemma ends_if [ends_rules]:
  "(b \<Longrightarrow> ends I (f x)) \<Longrightarrow> (\<not> b \<Longrightarrow> ends I (g x)) \<Longrightarrow> ends I ((if b then f else g) x)"
  "(b \<Longrightarrow> ends I v) \<Longrightarrow> (\<not> b \<Longrightarrow> ends I w) \<Longrightarrow> ends I (if b then v else w)"
  by simp_all

section \<open>The callbacks as steps\<close>

text \<open>The callbacks with their arguments; those that FUSE passes on but the code ignores are left out.\<close>

datatype 'b fuse_call =
    F_getattr cstr | F_access cstr u32 | F_create cstr u32 FILEINFO | F_mkdir cstr u32 | F_unlink cstr | F_rmdir cstr
  | F_rename cstr cstr | F_link cstr cstr | F_chmod cstr u32 | F_chown cstr u32 u32 | F_truncate cstr int
  | F_open cstr FILEINFO | F_symlink cstr cstr | F_readlink cstr bytes u64 | F_read bytes u64 int FILEINFO
  | F_write bytes u64 int FILEINFO | F_statfs | F_release FILEINFO | F_fsync FILEINFO
  | F_readdir cstr "cstr \<Rightarrow> HOSTSTAT \<Rightarrow> 'b \<Rightarrow> bool \<times> 'b" 'b | F_fsyncdir | F_init | F_destroy
  | F_ftruncate int FILEINFO | F_fgetattr FILEINFO | F_utimens cstr "(int \<times> int) option"

definition discards :: "('d, 'a) fop \<Rightarrow> ('d, unit) fop" where
  "discards f = bindF f (\<lambda>_. retF ())"

fun red_oper :: "host \<Rightarrow> 'd env \<Rightarrow> 'b fuse_call \<Rightarrow> ('d, unit) fop" where
  "red_oper H E (F_getattr p) = discards (fuse_red_getattr H E p)"
| "red_oper H E (F_access p m) = discards (fuse_red_access H E p m)"
| "red_oper H E (F_create p m fi) = discards (fuse_red_create H E p m fi)"
| "red_oper H E (F_mkdir p m) = discards (fuse_red_mkdir H E p m)"
| "red_oper H E (F_unlink p) = discards (fuse_red_unlink H E p)"
| "red_oper H E (F_rmdir p) = discards (fuse_red_rmdir H E p)"
| "red_oper H E (F_rename p q) = discards (fuse_red_rename H E p q)"
| "red_oper H E (F_link p q) = discards (fuse_red_link H E p q)"
| "red_oper H E (F_chmod p m) = discards (fuse_red_chmod H E p m)"
| "red_oper H E (F_chown p u g) = discards (fuse_red_chown H E p u g)"
| "red_oper H E (F_truncate p n) = discards (fuse_red_truncate H E p n)"
| "red_oper H E (F_open p fi) = discards (fuse_red_open H E p fi)"
| "red_oper H E (F_symlink p q) = discards (fuse_red_symlink H E p q)"
| "red_oper H E (F_readlink p buf n) = discards (fuse_red_readlink H E p buf n)"
| "red_oper H E (F_read buf n off fi) = discards (fuse_red_read H E buf n off fi)"
| "red_oper H E (F_write buf n off fi) = discards (fuse_red_write H E buf n off fi)"
| "red_oper H E F_statfs = discards (fuse_red_statfs H E)"
| "red_oper H E (F_release fi) = discards (fuse_red_release H E fi)"
| "red_oper H E (F_fsync fi) = discards (fuse_red_fsync H E fi)"
| "red_oper H E (F_readdir p filler buf) = discards (fuse_red_readdir H E p filler buf)"
| "red_oper H E F_fsyncdir = discards (fuse_red_fsyncdir H E)"
| "red_oper H E F_init = discards (fuse_red_init H E)"
| "red_oper H E F_destroy = discards (fuse_red_destroy H E)"
| "red_oper H E (F_ftruncate n fi) = discards (fuse_red_ftruncate H E n fi)"
| "red_oper H E (F_fgetattr fi) = discards (fuse_red_fgetattr H E fi)"
| "red_oper H E (F_utimens p t) = discards (fuse_red_utimens H E p t)"

text \<open>The callbacks of a session, one after the other.\<close>

fun fuse_calls :: "host \<Rightarrow> 'd env \<Rightarrow> 'b fuse_call list \<Rightarrow> 'd fuse \<Rightarrow> 'd fuse option" where
  "fuse_calls H E [] x = Some x"
| "fuse_calls H E (c # cs) x = (case red_oper H E c x of None \<Rightarrow> None | Some (_, y) \<Rightarrow> fuse_calls H E cs y)"

text \<open>The tables are in order and the volume is the one of the start.\<close>

definition session :: "('d posix \<Rightarrow> bool) \<Rightarrow> u8 \<Rightarrow> cstr \<Rightarrow> 'd fuse \<Rightarrow> bool" where
  "session I b v x \<longleftrightarrow> I (fuse_posix x) \<and> gbVolume x = b \<and> gpszVolume x = v"

text \<open>The start names a volume of the configuration before it goes on to the callbacks with that volume.\<close>

definition started :: "('d posix \<Rightarrow> bool) \<Rightarrow> 'd env \<Rightarrow> fuse_start \<Rightarrow> 'd fuse \<Rightarrow> bool" where
  "started I E r y \<longleftrightarrow> I (fuse_posix y) \<and>
     (r = FUSE_MAIN False \<longrightarrow> gbVolume y < REDCONF_VOLUME_COUNT E \<and> gpszVolume y = path_prefix E (unat (gbVolume y)))"

lemma ends_map_option [ends_rules]: "I y \<Longrightarrow> ends I (map_option (\<lambda>w. (h w, y)) v)"
  by (auto simp: ends_def)

lemma ends_discards: "ends I (f x) \<Longrightarrow> ends I (discards f x)"
  unfolding discards_def by (rule ends_bindF) simp_all

lemma outcome_runs_iff: "outcome J (runs f p) = outcome J (f p)"
  by (auto simp: outcome_def runs_def bindE_def split: option.splits sum.splits prod.splits)

section \<open>What the port relies on\<close>

text \<open>
  The port keeps whatever every call of the POSIX-like interface keeps, if the error variables and the state of the core
  do not matter to it.
\<close>

locale posix_interface =
  fixes E :: "'d env" and I :: "'d posix \<Rightarrow> bool"
  assumes call_keeps: "I p \<Longrightarrow> outcome I (run_call E c p)"
    and errno_keeps: "I p \<Longrightarrow> red_errnoptr E p = (v, y) \<Longrightarrow> I y \<and> I (store_errno v e y)"
    and core_keeps: "I p \<Longrightarrow> I (p\<lparr>posix_ist := st\<rparr>)"
begin

lemma ends_posixF [ends_rules]:
  assumes "\<And>p. I p \<Longrightarrow> outcome I (f p)" and "session I b v x"
  shows "ends (session I b v) (posixF f x)"
  using assms by (auto simp: ends_def posixF_def session_def outcome_def split: option.splits)

lemma ends_red_errno [ends_rules]: "session I b v x \<Longrightarrow> ends (session I b v) (red_errno E x)"
  by (auto simp: ends_def red_errno_def session_def dest: errno_keeps split: prod.splits)

lemma ends_set_red_errno [ends_rules]: "session I b v x \<Longrightarrow> ends (session I b v) (set_red_errno E e x)"
  by (auto simp: ends_def set_red_errno_def session_def dest: errno_keeps split: prod.splits)

lemma ends_errno_result [ends_rules]: "session I b v x \<Longrightarrow> ends (session I b v) (errno_result H E x)"
  unfolding errno_result_def by (intro ends_rules)

lemma ends_status_of [ends_rules]:
  "(\<And>p. I p \<Longrightarrow> outcome I (f p)) \<Longrightarrow> session I b v x \<Longrightarrow> ends (session I b v) (status_of H E f x)"
  unfolding status_of_def by (intro ends_rules)

lemma ends_on_full_path [ends_rules]:
  "session I b v x \<Longrightarrow> (\<And>p y. session I b v y \<Longrightarrow> ends (session I b v) (f p y)) \<Longrightarrow>
   ends (session I b v) (on_full_path H E path f x)"
  by (simp add: on_full_path_def split: option.split sum.split)

lemma ends_discard [ends_rules]:
  "session I b v x \<Longrightarrow> ends (session I b v) (bindF (errno_result H E) (\<lambda>result. retF (result, w)) x)"
  by (intro ends_rules)

section \<open>Calls of the interface\<close>

lemma calls_keep:
  assumes "I p"
  shows "outcome I (red_openat E d path fl m p)"
    and "outcome I (red_close E fd p)"
    and "outcome I (red_pread E fd buf n off p)"
    and "outcome I (red_pwrite E fd buf n off p)"
    and "outcome I (red_fsync E fd p)"
    and "outcome I (red_ftruncate E fd sz p)"
    and "outcome I (red_symlink E path path' p)"
    and "outcome I (red_readlink E path n buf p)"
    and "outcome I (red_unlinkat E d path fl p)"
    and "outcome I (red_mkdirat E d path m p)"
    and "outcome I (red_renameat E d path d' path' p)"
    and "outcome I (red_linkat E d path d' path' fl p)"
    and "outcome I (red_fchmodat E d path m fl p)"
    and "outcome I (red_fchownat E d path u g fl p)"
    and "outcome I (red_utimesat E d path t fl p)"
    and "outcome I (red_fstat E fd p)"
    and "outcome I (red_init E p)"
    and "outcome I (red_mount2 E path fl p)"
    and "outcome I (red_umount2 E path fl p)"
    and "outcome I (red_format2 E path opt p)"
    and "outcome I (red_transact E path p)"
    and "outcome I (red_statvfs E path p)"
    and "outcome I (red_opendir E path p)"
    and "outcome I (red_readdir E h p)"
    and "outcome I (red_closedir E h p)"
  subgoal using call_keeps [OF assms, of "FILE (C_openat d path fl m)"] by (simp add: run_call_def outcome_runs_iff)
  subgoal using call_keeps [OF assms, of "FILE (C_close fd)"] by (simp add: run_call_def outcome_runs_iff)
  subgoal using call_keeps [OF assms, of "FILE (C_pread fd buf n off)"] by (simp add: run_call_def outcome_runs_iff)
  subgoal using call_keeps [OF assms, of "FILE (C_pwrite fd buf n off)"] by (simp add: run_call_def outcome_runs_iff)
  subgoal using call_keeps [OF assms, of "FILE (C_fsync fd)"] by (simp add: run_call_def outcome_runs_iff)
  subgoal using call_keeps [OF assms, of "FILE (C_ftruncate fd sz)"] by (simp add: run_call_def outcome_runs_iff)
  subgoal using call_keeps [OF assms, of "NAME (C_symlink path path')"] by (simp add: run_call_def outcome_runs_iff)
  subgoal using call_keeps [OF assms, of "NAME (C_readlink path n buf)"] by (simp add: run_call_def outcome_runs_iff)
  subgoal using call_keeps [OF assms, of "NAME (C_unlinkat d path fl)"] by (simp add: run_call_def outcome_runs_iff)
  subgoal using call_keeps [OF assms, of "NAME (C_mkdirat d path m)"] by (simp add: run_call_def outcome_runs_iff)
  subgoal using call_keeps [OF assms, of "NAME (C_renameat d path d' path')"] by (simp add: run_call_def outcome_runs_iff)
  subgoal using call_keeps [OF assms, of "NAME (C_linkat d path d' path' fl)"] by (simp add: run_call_def outcome_runs_iff)
  subgoal using call_keeps [OF assms, of "NAME (C_fchmodat d path m fl)"] by (simp add: run_call_def outcome_runs_iff)
  subgoal using call_keeps [OF assms, of "NAME (C_fchownat d path u g fl)"] by (simp add: run_call_def outcome_runs_iff)
  subgoal using call_keeps [OF assms, of "NAME (C_utimesat d path t fl)"] by (simp add: run_call_def outcome_runs_iff)
  subgoal using call_keeps [OF assms, of "NAME (C_fstat fd)"] by (simp add: run_call_def outcome_runs_iff)
  subgoal using call_keeps [OF assms, of "VOLUME C_init"] by (simp add: run_call_def outcome_runs_iff)
  subgoal using call_keeps [OF assms, of "VOLUME (C_mount2 path fl)"] by (simp add: run_call_def outcome_runs_iff)
  subgoal using call_keeps [OF assms, of "VOLUME (C_umount2 path fl)"] by (simp add: run_call_def outcome_runs_iff)
  subgoal using call_keeps [OF assms, of "VOLUME (C_format2 path opt)"] by (simp add: run_call_def outcome_runs_iff)
  subgoal using call_keeps [OF assms, of "VOLUME (C_transact path)"] by (simp add: run_call_def outcome_runs_iff)
  subgoal using call_keeps [OF assms, of "VOLUME (C_statvfs path)"] by (simp add: run_call_def outcome_runs_iff)
  subgoal using call_keeps [OF assms, of "DIR (C_opendir path)"] by (simp add: run_call_def outcome_runs_iff)
  subgoal using call_keeps [OF assms, of "DIR (C_readdir h)"] by (simp add: run_call_def outcome_runs_iff)
  subgoal using call_keeps [OF assms, of "DIR (C_closedir h)"] by (simp add: run_call_def outcome_runs_iff)
  done

text \<open>The functions that only pass fixed arguments.\<close>

lemma short_calls_keep:
  assumes "I p"
  shows "outcome I (red_open E path fl p)" and "outcome I (red_open2 E path fl m p)"
    and "outcome I (red_unlink E path p)" and "outcome I (red_rmdir E path p)"
    and "outcome I (red_mkdir E path p)" and "outcome I (red_mkdir2 E path m p)"
    and "outcome I (red_rename E path path' p)" and "outcome I (red_link E path path' p)"
    and "outcome I (red_chmod E path m p)" and "outcome I (red_chown E path u g p)"
    and "outcome I (red_utimes E path t p)" and "outcome I (red_mount E path p)"
    and "outcome I (red_umount E path p)" and "outcome I (red_format E path p)"
  by (simp_all add: red_open_def red_open2_def red_unlink_def red_rmdir_def red_mkdir_def red_mkdir2_def red_rename_def
      red_link_def red_chmod_def red_chown_def red_utimes_def red_mount_def red_umount_def red_format_def calls_keep assms)

lemmas calls_inv_rules = calls_keep short_calls_keep

lemma ends_red_local_open [ends_rules]:
  assumes "session I b v x"
  shows "ends (session I b v) (red_local_open H E path fl m x)"
proof -
  have "ends (session I b v) (open_nofollow H E p fl m y)" if "session I b v y" for p y
    unfolding open_nofollow_def Let_def
    by (intro ends_rules that) (simp_all add: calls_inv_rules)
  then show ?thesis using assms
    by (auto simp: red_local_open_def intro!: ends_rules split: option.split sum.split)
qed

lemma ends_fgetattr_sub [ends_rules]:
  assumes "session I b v x"
  shows "ends (session I b v) (fgetattr_sub H E fi x)"
  unfolding fgetattr_sub_def using assms
  by (auto intro!: ends_rules calls_inv_rules split: sum.split option.split)

lemma ends_then_close [ends_rules]:
  "session I b v x \<Longrightarrow> ends (session I b v) (then_close H E fd result x)"
  unfolding then_close_def by (intro ends_rules) (simp_all add: calls_inv_rules)

lemma ends_getattr [ends_rules]:
  "session I b v x \<Longrightarrow> ends (session I b v) (fuse_red_getattr H E path x)"
  unfolding fuse_red_getattr_def by (auto intro!: ends_rules)

lemma ends_open_file [ends_rules]:
  "session I b v x \<Longrightarrow> ends (session I b v) (open_file H E path fl m fi x)"
  unfolding open_file_def by (auto intro!: ends_rules)
section \<open>Callbacks\<close>

lemma ends_readdir_turn:
  assumes "session I b v x"
  shows "ends (session I b v) (readdir_turn H E d filler buf x)"
  unfolding readdir_turn_def using assms
  by (auto intro!: ends_rules calls_inv_rules split: sum.split option.split prod.split)

lemma readdir_loop_ends:
  fixes x :: "'d fuse" and buf :: 'b
  shows "readdir_loop H F d filler buf x = Some w \<Longrightarrow> F = E \<longrightarrow> session I b v x \<longrightarrow> session I b v (snd w)"
proof (rule readdir_loop.raw_induct [of "\<lambda>H F d filler buf x w. F = E \<longrightarrow> session I b v x \<longrightarrow> session I b v (snd w)"
    "(((((H, F), d), filler), buf), x)" w, unfolded prod.case])
  fix loop :: "host \<Rightarrow> 'd env \<Rightarrow> nat \<Rightarrow> (cstr \<Rightarrow> HOSTSTAT \<Rightarrow> 'b \<Rightarrow> bool \<times> 'b) \<Rightarrow> 'b \<Rightarrow> 'd fuse \<Rightarrow> ((int \<times> 'b) \<times> 'd fuse) option"
    and H and F :: "'d env" and d filler and buf :: 'b and x :: "'d fuse" and w
  assume IH: "\<And>H F d filler buf x w. loop H F d filler buf x = Some w \<Longrightarrow>
      F = E \<longrightarrow> session I b v x \<longrightarrow> session I b v (snd w)"
    and run: "Option.bind (readdir_turn H F d filler buf x) (\<lambda>v. case fst (fst v) of
      None \<Rightarrow> loop H F d filler (snd (fst v)) (snd v) | Some result \<Rightarrow> Some ((result, snd (fst v)), snd v)) = Some w"
  show "F = E \<longrightarrow> session I b v x \<longrightarrow> session I b v (snd w)"
  proof (intro impI)
    assume F: "F = E" and x: "session I b v x"
    obtain t where turn: "readdir_turn H E d filler buf x = Some t"
      and w: "(case fst (fst t) of None \<Rightarrow> loop H E d filler (snd (fst t)) (snd t)
        | Some result \<Rightarrow> Some ((result, snd (fst t)), snd t)) = Some w"
      using run F by (auto simp: bind_eq_Some_conv)
    have "session I b v (snd t)"
      using endsD [OF ends_readdir_turn [OF x]] turn by (metis prod.collapse)
    then show "session I b v (snd w)" using w IH by (auto split: option.splits)
  qed
qed

lemma ends_readdir_loop [ends_rules]:
  "session I b v x \<Longrightarrow> ends (session I b v) (readdir_loop H E d filler buf x)"
  unfolding ends_def using readdir_loop_ends by fastforce

lemma ends_names:
  assumes "session I b v x"
  shows "ends (session I b v) (fuse_red_mkdir H E p m x)" and "ends (session I b v) (fuse_red_unlink H E p x)"
    and "ends (session I b v) (fuse_red_rmdir H E p x)" and "ends (session I b v) (fuse_red_rename H E p q x)"
    and "ends (session I b v) (fuse_red_link H E p q x)" and "ends (session I b v) (fuse_red_chmod H E p m x)"
    and "ends (session I b v) (fuse_red_chown H E p u g x)" and "ends (session I b v) (fuse_red_utimens H E p t x)"
    and "ends (session I b v) (fuse_red_symlink H E p q x)" and "ends (session I b v) (fuse_red_readlink H E p buf n x)"
  unfolding fuse_red_mkdir_def fuse_red_unlink_def fuse_red_rmdir_def fuse_red_rename_def fuse_red_link_def
    fuse_red_chmod_def fuse_red_chown_def fuse_red_utimens_def fuse_red_symlink_def fuse_red_readlink_def
  using assms by (auto intro!: ends_rules calls_inv_rules simp: Let_def split: option.split sum.split prod.split)

lemma ends_files:
  assumes "session I b v x"
  shows "ends (session I b v) (fuse_red_access H E p m x)" and "ends (session I b v) (fuse_red_create H E p m fi x)"
    and "ends (session I b v) (fuse_red_open H E p fi x)" and "ends (session I b v) (fuse_red_truncate H E p n x)"
    and "ends (session I b v) (fuse_red_ftruncate H E n fi x)" and "ends (session I b v) (fuse_red_read H E buf k off fi x)"
    and "ends (session I b v) (fuse_red_write H E buf k off fi x)" and "ends (session I b v) (fuse_red_release H E fi x)"
    and "ends (session I b v) (fuse_red_fsync H E fi x)" and "ends (session I b v) (fuse_red_fgetattr H E fi x)"
  unfolding fuse_red_access_def fuse_red_create_def fuse_red_open_def fuse_red_truncate_def fuse_red_ftruncate_def
    fuse_red_read_def fuse_red_write_def fuse_red_release_def fuse_red_fsync_def fuse_red_fgetattr_def
  using assms by (auto intro!: ends_rules calls_inv_rules simp: Let_def split: option.split sum.split prod.split)

lemma ends_volume:
  assumes "session I b v x"
  shows "ends (session I b v) (fuse_red_statfs H E x)" and "ends (session I b v) (fuse_red_readdir H E p filler buf x)"
    and "ends (session I b v) (fuse_red_fsyncdir H E x)" and "ends (session I b v) (fuse_red_init H E x)"
    and "ends (session I b v) (fuse_red_destroy H E x)"
  unfolding fuse_red_statfs_def fuse_red_readdir_def fuse_red_fsyncdir_def fuse_red_init_def fuse_red_destroy_def
  using assms by (auto intro!: ends_rules calls_inv_rules split: option.split sum.split prod.split)

lemma ends_red_oper:
  assumes "session I b v x"
  shows "ends (session I b v) (red_oper H E c x)"
  using assms by (cases c) (simp_all add: ends_discards ends_names ends_files ends_volume ends_getattr)
section \<open>Sessions\<close>

lemma fuse_calls_session: "fuse_calls H E cs x = Some y \<Longrightarrow> session I b v x \<Longrightarrow> session I b v y"
  by (induction cs arbitrary: x) (auto split: option.splits dest: endsD [OF ends_red_oper])

lemma or_return_1_cases:
  assumes "or_return_1 f g x = Some (r, z)"
    and "\<And>p. I p \<Longrightarrow> outcome I (f p)" and "I (fuse_posix x)"
  obtains "r = RETURNS 1" "I (fuse_posix z)"
  | y where "I (fuse_posix y)" "gbVolume y = gbVolume x" "gpszVolume y = gpszVolume x" "g y = Some (r, z)"
proof -
  obtain q p where f: "f (fuse_posix x) = Some (q, p)"
    and g: "(if is_ok q then g else retF (RETURNS 1)) (x\<lparr>fuse_posix := p\<rparr>) = Some (r, z)"
    using assms(1) by (auto simp: or_return_1_def bindF_def posixF_def split: option.splits prod.splits)
  have inv: "I p" by (rule outcomeD [OF assms(2) [OF assms(3)] f])
  show thesis
  proof (cases "is_ok q")
    case True
    then show thesis using that(2) [of "x\<lparr>fuse_posix := p\<rparr>"] g inv by simp
  next
    case False
    then show thesis using that(1) g inv by (auto simp: retF_def)
  qed
qed

lemma bdev_config_inv: "I p \<Longrightarrow> outcome I (bdev_config conf b s p)"
  by (auto simp: bdev_config_def outcome_def intro: core_keeps split: prod.splits)

lemma start_volume_started:
  assumes "I (fuse_posix x)" and "start_volume conf E form vol dev x = Some (r, y)"
  shows "started I E r y"
proof -
  obtain b where b: "RedFindVolumeNumber E vol = Some b"
    using assms(2) by (auto simp: start_volume_def split: option.splits)
  show ?thesis
  proof (cases "b \<ge> REDCONF_VOLUME_COUNT E")
    case True
    then show ?thesis using assms b by (auto simp: start_volume_def started_def Let_def)
  next
    case False
    let ?v = "path_prefix E (unat b)"
    let ?u = "x\<lparr>gbVolume := b, gpszVolume := ?v\<rparr>"
    have run: "or_return_1 (bdev_config conf b dev) (or_return_1 (if form then red_format E (Some ?v) else okE ())
        (or_return_1 (red_mount E (Some ?v)) (retF (FUSE_MAIN False)))) ?u = Some (r, y)"
      using assms(2) b False by (simp add: start_volume_def Let_def)
    have form: "outcome I ((if form then red_format E (Some ?v) else okE ()) p)" if "I p" for p
      using that by (simp add: calls_inv_rules outcome_basic)
    have mount: "outcome I (red_mount E (Some ?v) p)" if "I p" for p
      using that by (simp add: calls_inv_rules)
    from run bdev_config_inv show ?thesis
    proof (rule or_return_1_cases)
      show "I (fuse_posix ?u)" using assms(1) by simp
      assume "r = RETURNS 1" "I (fuse_posix y)"
      then show ?thesis by (simp add: started_def)
    next
      fix u1
      assume u1: "I (fuse_posix u1)" "gbVolume u1 = gbVolume ?u" "gpszVolume u1 = gpszVolume ?u"
        and run: "or_return_1 (if form then red_format E (Some ?v) else okE ())
          (or_return_1 (red_mount E (Some ?v)) (retF (FUSE_MAIN False))) u1 = Some (r, y)"
      from run form u1(1) show ?thesis
      proof (rule or_return_1_cases)
        assume "r = RETURNS 1" "I (fuse_posix y)"
        then show ?thesis by (simp add: started_def)
      next
        fix u2
        assume u2: "I (fuse_posix u2)" "gbVolume u2 = gbVolume u1" "gpszVolume u2 = gpszVolume u1"
          and run: "or_return_1 (red_mount E (Some ?v)) (retF (FUSE_MAIN False)) u2 = Some (r, y)"
        from run mount u2(1) show ?thesis
          by (rule or_return_1_cases) (use u1 u2 False in \<open>auto simp: started_def retF_def\<close>)
      qed
    qed
  qed
qed

lemma fuse_main_start_started:
  fixes x :: "'d fuse"
  assumes "I (fuse_posix x)" and "fuse_main_start conf E opts x = Some (r, y)"
  shows "started I E r y"
proof -
  have init: "outcome I (red_init E p)" if "I p" for p
    using that by (simp add: calls_inv_rules)
  from assms(2) [unfolded fuse_main_start_def] init assms(1) show ?thesis
  proof (rule or_return_1_cases)
    assume "r = RETURNS 1" "I (fuse_posix y)"
    then show ?thesis by (simp add: started_def)
  next
    fix u :: "'d fuse"
    assume u: "I (fuse_posix u)"
    note volume = start_volume_started [OF u]
    show ?thesis if "(case opts of None \<Rightarrow> retF (RETURNS 1) | Some opts \<Rightarrow>
        if fShowHelp opts then retF (FUSE_MAIN True)
        else (case pszBDevSpec opts of None \<Rightarrow> retF (FUSE_MAIN True) | Some pszBDev \<Rightarrow>
          (case pszVolSpec opts of
             Some pszVol \<Rightarrow> start_volume conf E (fFormat opts) pszVol pszBDev
           | None \<Rightarrow> if REDCONF_VOLUME_COUNT E = 1 then start_volume conf E (fFormat opts) volume_zero pszBDev
                     else retF (FUSE_MAIN True)))) u = Some (r, y)"
      using that u by (auto simp: retF_def started_def split: option.splits if_splits dest: volume)
  qed
qed

end

section \<open>The interface of the driver\<close>

interpretation fuse_driver: posix_interface E "\<lambda>p. posix_config E \<and> posix_inv E p"
proof
  show "outcome (\<lambda>p. posix_config E \<and> posix_inv E p) (run_call E c p)" if "posix_config E \<and> posix_inv E p" for c p
    using run_call_inv [of E p c] that by (simp add: outcome_def)
  show "(posix_config E \<and> posix_inv E y) \<and> posix_config E \<and> posix_inv E (store_errno v e y)"
    if "posix_config E \<and> posix_inv E p" "red_errnoptr E p = (v, y)" for p v y e
    using errnoptr_inv [of E p] that by (simp add: store_errno_inv)
  show "posix_config E \<and> posix_inv E (p\<lparr>posix_ist := st\<rparr>)" if "posix_config E \<and> posix_inv E p" for p st
    using of_tables_inv [of E] that unfolding of_tables_def by blast
qed



end
