(* ===== verification/Spec2Isabelle.thy ===== *)
theory Spec2Isabelle
  imports Red_Bitmap Red_Memory Red_String Red_Crc Red_Endian Red_Mode Red_BufferProps Red_VolMount Red_VolLayout Red_BranchProps Red_Fse Red_PosixReach Red_PathProps Red_HeapClient Red_Swap Red_CritOut Red_Config Red_MdIterTotal Red_MdIterSwap Red_ToolCmn Red_FuseSession
begin

text \<open>
  A verification of Reliance Edge, a file system for embedded systems that commits its changes in transactions and writes
  no block of the committed state in between. The theories follow the layers of the driver from the block device up to
  the programs of the host; a definition has the name of the C function that it translates.

  \<^bold>\<open>The program and the theories.\<close> A call of an application comes in at one of two interfaces, which share the core:

  \<^item> The \<^bold>\<open>utilities\<close> under \<^verbatim>\<open>src/util\<close>: \<open>Red_Bitmap\<close> (bitmap.c), \<open>Red_Memory\<close> (memory.c), \<open>Red_String\<close>
    (string.c, namelen.c), \<open>Red_CrcTable\<close> and \<open>Red_Crc\<close> (crc.c), \<open>Red_Endian\<close> (endian.c), \<open>Red_Mode\<close> (ftype.c, perm.c), and
    the memory allocator heap.c in \<open>Red_Heap\<close>, with its properties in \<open>Red_HeapProps\<close>, \<open>Red_HeapUse\<close> and \<open>Red_HeapClient\<close>.
  \<^item> The \<^bold>\<open>block device\<close>: \<open>Red_Bdev\<close> (bdev/bdev.c and the RAM disk of the FreeRTOS port) and \<open>Red_BlockIo\<close>
    (core/driver/blockio.c), which turns blocks into sectors and repeats failed transfers.
  \<^item> The \<^bold>\<open>buffer cache\<close>: \<open>Red_BufferCmn\<close> (buffercmn.c: sealing and checking metadata nodes), \<open>Red_Buffer\<close> (buffer.c),
    \<open>Red_Cache\<close>, \<open>Red_BufferUse\<close>, \<open>Red_BufferProps\<close>, \<open>Red_BufferHit\<close>, and \<open>Red_Swap\<close> (the byte order swaps).
  \<^item> The \<^bold>\<open>block map\<close>: \<open>Red_ImapInline\<close> (imapinline.c), \<open>Red_ImapExtern\<close> (imapextern.c), \<open>Red_Imap\<close> (imap.c).
  \<^item> The \<^bold>\<open>volume\<close>: \<open>Red_Volume\<close> (volume.c), with \<open>Red_VolCommit\<close>, \<open>Red_VolMount\<close>, \<open>Red_VolLayout\<close> on its transactions, its
    mount and its layout, and \<open>Red_CritOut\<close> on the message of a critical error.
  \<^item> The \<^bold>\<open>files\<close>: \<open>Red_Inode\<close> and \<open>Red_InodeLife\<close> (inode.c and the orphans of volume.c), \<open>Red_Seek\<close>, \<open>Red_Branch\<close>, \<open>Red_Truncate\<close>
    and \<open>Red_FileData\<close> (inodedata.c), with \<open>Red_SeekProps\<close> and \<open>Red_BranchProps\<close>, and \<open>Red_Dir\<close> (dir.c).
  \<^item> The \<^bold>\<open>core interface\<close>: \<open>Red_Core\<close> and \<open>Red_CoreFile\<close> (core.c), \<open>Red_Format\<close> (format.c).
  \<^item> The \<^bold>\<open>interface for file numbers\<close>: \<open>Red_Fse\<close> (fse/fse.c).
  \<^item> The \<^bold>\<open>POSIX-like interface\<close>: \<open>Red_Path\<close> (posix/path.c), \<open>Red_Handle\<close>, \<open>Red_Posix\<close>, \<open>Red_PosixName\<close> and \<open>Red_PosixFile\<close>
    (posix/posix.c), with \<open>Red_PathProps\<close>, \<open>Red_HandleProps\<close>, \<open>Red_PosixInv\<close> and \<open>Red_PosixReach\<close>.
  \<^item> The \<^bold>\<open>programs of the host\<close> under \<^verbatim>\<open>src/tools\<close>: \<open>Red_MdIter\<close> (mditer.c, the metadata iterator) with \<open>Red_MdIterProps\<close>,
    \<open>Red_MdIterTotal\<close> and \<open>Red_MdIterSwap\<close>, \<open>Red_ToolCmn\<close> (toolcmn.c), and the FUSE port fuse.c in \<open>Red_Fuse\<close> with
    \<open>Red_FuseProps\<close> and \<open>Red_FuseSession\<close>.
  \<^item> The \<^bold>\<open>configuration\<close>: \<open>Red_Config\<close> holds the checks that the preprocessor makes (redconfigchk.h and others).

  \<open>Red_Prelude\<close> has the machine words, the computations and the error numbers; \<open>Red_Types\<close> the configuration, the metadata
  nodes and the state; \<open>Red_Loop\<close> the loops over computations; \<open>Red_Demo\<close> and \<open>Red_PosixDemo\<close> concrete instances.
\<close>

text \<open>
  \<^bold>\<open>State and operations.\<close> The type \<open>'d env\<close> is what is fixed: the macros of \<^verbatim>\<open>redconf.h\<close> and the table of volumes, and
  the services of the operating system, which are parameters and act on a device state of type \<open>'d\<close>. The state of
  each layer contains that of the layer below:

  \<^item> \<open>'d fs\<close> holds the global variables of the driver: the number of the current volume, the arrays \<open>gaRedVolume\<close>,
    \<open>gaRedCoreVol\<close> and \<open>gaRedBdevInfo\<close>, the buffer context and the device state.
  \<^item> \<open>'d ist\<close> adds the store of the open inodes (\<^verbatim>\<open>CINODE\<close>), which the code keeps on its stack.
  \<^item> \<open>'d posix\<close> adds the tables of handles, open inodes and tasks; \<open>'d fuse\<close> adds the static variables of fuse.c.

  An operation takes a state to \<open>None\<close> or to a result with the state at return. A result is \<open>Inl e\<close> for the return value
  \<open>-e\<close>, else \<open>Inr v\<close>, where \<open>v\<close> is what the code returns and stores through its output pointers; an error does not
  undo what was done before. \<open>None\<close> stands for what has no result: a loop without end, a null or uninitialised pointer
  that is followed, an access outside of an array, a failed \<^verbatim>\<open>assert\<close> of a host program. A pointer to a buffer is the byte offset
  from \<open>pbBlkBuf\<close>, a pointer into a table an index, a string the function from 32-bit indices to bytes. Integers
  have the width of the code, and wrap around where it does; \<^verbatim>\<open>int\<close> is used for descriptors and signed offsets.

  \<^bold>\<open>Loops.\<close> Loops over a list or down from a bound are structural. A loop that may not end is a \<open>partial_function\<close> or
  \<open>whileE\<close>, without fuel: that it returns is a property of its own where it does (the search for a free block, the
  shift loop of the geometry, the metadata iterator, the scans of strings), and so is that it does not
  (the search in a full inline map).
\<close>

text \<open>
  \<^bold>\<open>Interfaces.\<close> Where one part relies on another, the contract is a locale. The driver relies on a \<open>sector_device\<close>, which the
  RAM disk is; the block maps on a \<open>bit_store\<close>, which the bitmap of util/bitmap.c is; the clients of the cache on a
  \<open>buffer_pool\<close>, which the operations of buffer.c are, alone and below the external imap; the FUSE port on a
  \<open>posix_interface\<close>, which the calls of posix.c are.

  \<^bold>\<open>What is shown.\<close>

  \<^item> Cache: its invariant in every reachable state, eviction of the least recently used buffer, no stale buffer after a
    write past the cache, balanced use by the external imap on every path, and detection of every corruption within four bytes.
  \<^item> Block map: a change moves one block along the states free, new, used and almost free; the counters are always the numbers
    of such blocks; an allocated block is used by neither state. The search returns the first free block, and when there is none
    it may never return.
  \<^item> Transactions: a commit leaves a valid metaroot with both states equal; the mount takes the newest valid metaroot;
    branching a block before it is written leaves the committed state alone.
  \<^item> Volumes and configurations: the geometry and the layout fit the device, with the one size at which the
    computation wraps around; a configuration that compiles has what the other theorems assume of the environment.
  \<^item> Paths and handles: the walk is one pass over the components; the longest prefix names the volume; a descriptor is
    bound to its handle, volume and mount; in every reachable state the reference counts are right and a free handle can be opened.
  \<^item> Allocator: over any run of a client its blocks are disjoint and keep their bytes (a refinement of the client's view); best fit.
  \<^item> Programs of the host: the iterator shows verified nodes only, frees what it allocates, returns, and reads either
    byte order; every session of the FUSE port keeps the tables consistent, its errors are the host's, and two callbacks
    are shown to be wrong: the write that loses the upper half of its offset, and the symbolic link whose length is taken for an
    error.

  \<^bold>\<open>Fixed choices.\<close> \<^verbatim>\<open>REDCONF_READ_ONLY\<close> is 0; the discard operations of the commercial kit are not there; asserts of the
  driver (\<^verbatim>\<open>REDASSERT\<close>) are not compiled in; the driver runs on a processor of the byte order of the disk, while \<open>Red_Swap\<close>
  treats the swaps for both orders; console output is left out, except for the line of a critical error, which is written into a
  buffer. The mutex around an operation makes it one step, so that interleavings are sequences of operations.

  \<^bold>\<open>Not modelled.\<close> The ports of the services to Linux, Windows, FreeRTOS, U-Boot and others are parameters (the RAM disk apart); the
  image builder and the command line front ends only call the driver; \<^verbatim>\<open>getopt.c\<close> is third-party code; the
  configuration tool is a graphical program in C++; \<^verbatim>\<open>sign.c\<close> is a constant string; tests, examples and projects
  are not part of the driver.
\<close>

end
